(* ===== verification/Prelude.thy ===== *)
theory Prelude
  imports Main "HOL-Library.Finite_Map" "HOL-Library.Multiset" "HOL-Library.Word"
begin

text \<open>
  What every component theory shares.

  \<^item> Go values: \<open>time.Time\<close> is an integer number of nanoseconds since the zero time (so the
    zero value is 0 and \<open>IsZero\<close> is a comparison with it), \<open>time.Duration\<close> is an \<open>int64\<close>
    number of nanoseconds. \<open>Time.Sub\<close> saturates at the ends of the duration range;
    \<open>int64\<close> arithmetic that can overflow goes through \<open>wrap64\<close>.
  \<^item> Go strings are byte strings; \<open>strings.TrimSpace\<close> is written out over the UTF-8
    encodings of the code points that \<open>unicode.IsSpace\<close> accepts.
  \<^item> Go maps are finite maps; reading a missing counter gives 0.
  \<^item> Reachable states of a machine and the locale \<open>safe_machine\<close>, whose interpretations
    carry the invariant proofs of the stateful components.
  \<^item> The locale \<open>keyed_counter\<close>: what a component relies on when it keeps a map of
    counters in step with a collection of outstanding entries.
\<close>

named_theorems gospec \<open>closed forms of the translated operations\<close>
named_theorems inv_intros \<open>preservation lemmas of the component invariants\<close>

section \<open>Machine integers, durations and times\<close>

type_synonym time = int
type_synonym duration = int

abbreviation (input) zero_time :: time where
  "zero_time \<equiv> 0"

definition max_int64 :: int where
  "max_int64 = 2 ^ 63 - 1"

definition min_int64 :: int where
  "min_int64 = - (2 ^ 63)"

definition wrap64 :: "int \<Rightarrow> int" where
  "wrap64 x = (x + 2 ^ 63) mod 2 ^ 64 - 2 ^ 63"

definition in_int64 :: "int \<Rightarrow> bool" where
  "in_int64 x \<longleftrightarrow> min_int64 \<le> x \<and> x \<le> max_int64"

lemma in_int64_wrap64 [simp]: "in_int64 (wrap64 x)"
proof -
  have "0 \<le> (x + 2 ^ 63) mod 2 ^ 64" and "(x + 2 ^ 63) mod 2 ^ 64 < (2 ^ 64 :: int)"
    by (simp_all only: pos_mod_sign pos_mod_bound zero_less_power zero_less_numeral)
  then show ?thesis
    by (simp add: in_int64_def wrap64_def min_int64_def max_int64_def)
qed

lemma wrap64_id: "in_int64 x \<Longrightarrow> wrap64 x = x"
  by (simp add: in_int64_def wrap64_def min_int64_def max_int64_def)

text \<open>\<open>wrap64\<close> is two's complement: it reads the 64-bit word of its argument as signed.\<close>

lemma wrap64_sint: "wrap64 x = sint (word_of_int x :: 64 word)"
  by (simp add: wrap64_def sint_sbintrunc' signed_take_bit_eq_take_bit_shift take_bit_eq_mod)

definition second :: duration where
  "second = 1000000000"

definition millisecond :: duration where
  "millisecond = 1000000"

definition minute :: duration where
  "minute = 60 * second"

lemmas duration_units = second_def millisecond_def minute_def

text \<open>\<open>Time.Sub\<close>: the difference, clamped to the range of \<open>Duration\<close>.\<close>

definition time_sub :: "time \<Rightarrow> time \<Rightarrow> duration" where
  "time_sub t u = max min_int64 (min max_int64 (t - u))"

lemma time_sub_ge_iff: "d \<le> max_int64 \<Longrightarrow> min_int64 < d \<Longrightarrow> d \<le> time_sub t u \<longleftrightarrow> d \<le> t - u"
  by (auto simp: time_sub_def min_int64_def max_int64_def)

lemma time_sub_gt_iff: "d < max_int64 \<Longrightarrow> min_int64 \<le> d \<Longrightarrow> d < time_sub t u \<longleftrightarrow> d < t - u"
  by (auto simp: time_sub_def min_int64_def max_int64_def)

lemma time_sub_self [simp]: "time_sub t t = 0"
  by (simp add: time_sub_def min_int64_def max_int64_def)

section \<open>Strings\<close>

text \<open>
  The UTF-8 encodings of the code points accepted by \<open>unicode.IsSpace\<close>: tab, newline,
  vertical tab, form feed, carriage return, space, U+0085, U+00A0, U+1680, U+2000 to U+200A,
  U+2028, U+2029, U+202F, U+205F and U+3000. Every encoding starts with a start byte and
  continues with continuation bytes only, so decoding the first or the last rune of a string
  finds one of them exactly when the string starts or ends with it.
\<close>

definition space_encodings :: "string list" where
  "space_encodings =
    [[CHR 0x09], [CHR 0x0A], [CHR 0x0B], [CHR 0x0C], [CHR 0x0D], [CHR 0x20],
     [CHR 0xC2, CHR 0x85], [CHR 0xC2, CHR 0xA0], [CHR 0xE1, CHR 0x9A, CHR 0x80],
     [CHR 0xE2, CHR 0x80, CHR 0x80], [CHR 0xE2, CHR 0x80, CHR 0x81],
     [CHR 0xE2, CHR 0x80, CHR 0x82], [CHR 0xE2, CHR 0x80, CHR 0x83],
     [CHR 0xE2, CHR 0x80, CHR 0x84], [CHR 0xE2, CHR 0x80, CHR 0x85],
     [CHR 0xE2, CHR 0x80, CHR 0x86], [CHR 0xE2, CHR 0x80, CHR 0x87],
     [CHR 0xE2, CHR 0x80, CHR 0x88], [CHR 0xE2, CHR 0x80, CHR 0x89],
     [CHR 0xE2, CHR 0x80, CHR 0x8A], [CHR 0xE2, CHR 0x80, CHR 0xA8],
     [CHR 0xE2, CHR 0x80, CHR 0xA9], [CHR 0xE2, CHR 0x80, CHR 0xAF],
     [CHR 0xE2, CHR 0x81, CHR 0x9F], [CHR 0xE3, CHR 0x80, CHR 0x80]]"

fun strip_prefix :: "'a list \<Rightarrow> 'a list \<Rightarrow> 'a list option" where
  "strip_prefix [] s = Some s"
| "strip_prefix (p # ps) [] = None"
| "strip_prefix (p # ps) (c # s) = (if p = c then strip_prefix ps s else None)"

fun strip_any :: "'a list list \<Rightarrow> 'a list \<Rightarrow> 'a list option" where
  "strip_any [] s = None"
| "strip_any (p # ps) s = (case strip_prefix p s of Some r \<Rightarrow> Some r | None \<Rightarrow> strip_any ps s)"

text \<open>Trimming repeats; a run of at most \<open>length s\<close> steps removes everything there is.\<close>

fun trim_prefixes :: "nat \<Rightarrow> 'a list list \<Rightarrow> 'a list \<Rightarrow> 'a list" where
  "trim_prefixes 0 ps s = s"
| "trim_prefixes (Suc n) ps s =
     (case strip_any ps s of Some r \<Rightarrow> trim_prefixes n ps r | None \<Rightarrow> s)"

definition TrimLeftSpace :: "string \<Rightarrow> string" where
  "TrimLeftSpace s = trim_prefixes (length s) space_encodings s"

definition TrimSpace :: "string \<Rightarrow> string" where
  "TrimSpace s =
     (let l = TrimLeftSpace s
      in rev (trim_prefixes (length l) (map rev space_encodings) (rev l)))"

lemma strip_prefix_Some: "strip_prefix p s = Some r \<longleftrightarrow> s = p @ r"
  by (induction p s rule: strip_prefix.induct) auto

lemma strip_any_Some_length:
  "strip_any ps s = Some r \<Longrightarrow> [] \<notin> set ps \<Longrightarrow> length r < length s"
  by (induction ps s rule: strip_any.induct)
    (auto simp: strip_prefix_Some split: option.splits)

lemma trim_prefixes_done:
  "[] \<notin> set ps \<Longrightarrow> length s \<le> n \<Longrightarrow> strip_any ps (trim_prefixes n ps s) = None"
proof (induction n ps s rule: trim_prefixes.induct)
  case (1 ps s)
  then have "strip_any ps [] = None"
    by (metis strip_any_Some_length list.size(3) not_less_zero option.exhaust)
  with 1 show ?case by simp
next
  case (2 n ps s)
  show ?case
  proof (cases "strip_any ps s")
    case None
    then show ?thesis by simp
  next
    case (Some r)
    with 2(2,3) have "length r \<le> n" by (auto dest: strip_any_Some_length)
    with 2(1) [OF Some 2(2)] Some show ?thesis by simp
  qed
qed

text \<open>The fuel of the trimming loop is enough: nothing that starts with a space is left.\<close>

lemma TrimLeftSpace_done: "strip_any space_encodings (TrimLeftSpace s) = None"
  unfolding TrimLeftSpace_def by (rule trim_prefixes_done) (simp_all add: space_encodings_def)

section \<open>Finite maps with Go's reading of counters\<close>

definition counter_get :: "('k, int) fmap \<Rightarrow> 'k \<Rightarrow> int" where
  "counter_get m k = (case fmlookup m k of None \<Rightarrow> 0 | Some v \<Rightarrow> v)"

definition map_len :: "('k, 'v) fmap \<Rightarrow> int" where
  "map_len m = int (fcard (fmdom m))"

text \<open>The number of entries whose value satisfies a predicate.\<close>

definition entries_with :: "('k, 'v) fmap \<Rightarrow> ('k \<Rightarrow> 'v \<Rightarrow> bool) \<Rightarrow> int" where
  "entries_with m P = int (card {k. \<exists>v. fmlookup m k = Some v \<and> P k v})"

lemma finite_entries [simp]: "finite {k. \<exists>v. fmlookup m k = Some v \<and> P k v}"
  by (rule finite_subset [of _ "fmdom' m"]) (auto simp: fmlookup_dom'_iff)

lemma map_len_empty [simp]: "map_len fmempty = 0"
  by (simp add: map_len_def)

lemma map_len_nonneg [simp]: "0 \<le> map_len m"
  by (simp add: map_len_def)

lemma map_len_upd:
  "map_len (fmupd k v m) = (if fmlookup m k = None then map_len m + 1 else map_len m)"
  by (auto simp: map_len_def fmlookup_dom_iff fcard_finsert_if)

lemma map_len_drop:
  "map_len (fmdrop k m) = (if fmlookup m k = None then map_len m else map_len m - 1)"
proof (cases "fmlookup m k")
  case None
  then have "fmdrop k m = m" by (simp add: fmdrop_idle fmdom_notI)
  with None show ?thesis by simp
next
  case (Some v)
  then have m: "m = fmupd k v (fmdrop k m)" by (auto intro: fmap_ext)
  have "map_len m = map_len (fmdrop k m) + 1"
    by (subst m) (simp add: map_len_upd)
  with Some show ?thesis by simp
qed

lemma map_len_filter: "map_len (fmfilter P m) \<le> map_len m"
  by (auto simp: map_len_def intro: fcard_mono)

lemma entries_with_empty [simp]: "entries_with fmempty P = 0"
  by (simp add: entries_with_def)

lemma entries_with_nonneg [simp]: "0 \<le> entries_with m P"
  by (simp add: entries_with_def)

lemma entries_with_pos: "fmlookup m k = Some v \<Longrightarrow> P k v \<Longrightarrow> 0 < entries_with m P"
  unfolding entries_with_def of_nat_0_less_iff by (subst card_gt_0_iff) auto

lemma entries_with_drop:
  "entries_with (fmdrop k m) P =
     entries_with m P - (case fmlookup m k of Some v \<Rightarrow> if P k v then 1 else 0 | None \<Rightarrow> 0)"
proof -
  let ?S = "{j. \<exists>v. fmlookup m j = Some v \<and> P j v}"
  have S: "{j. \<exists>v. fmlookup (fmdrop k m) j = Some v \<and> P j v} = ?S - {k}" by auto
  show ?thesis
  proof (cases "k \<in> ?S")
    case True
    then have "card ?S = Suc (card (?S - {k}))"
      by (simp only: card_Suc_Diff1 [OF finite_entries])
    moreover obtain v where "fmlookup m k = Some v" and "P k v" using True by auto
    ultimately show ?thesis unfolding entries_with_def S by simp
  next
    case False
    then show ?thesis unfolding entries_with_def S by (auto split: option.splits)
  qed
qed

lemma entries_with_upd:
  "entries_with (fmupd k v m) P =
     entries_with m P + (if P k v then 1 else 0)
       - (case fmlookup m k of Some u \<Rightarrow> if P k u then 1 else 0 | None \<Rightarrow> 0)"
proof -
  let ?S = "{j. \<exists>u. fmlookup (fmdrop k m) j = Some u \<and> P j u}"
  have k: "k \<notin> ?S" by auto
  have "{j. \<exists>u. fmlookup (fmupd k v m) j = Some u \<and> P j u} = (if P k v then insert k ?S else ?S)"
    by auto
  then have "entries_with (fmupd k v m) P = entries_with (fmdrop k m) P + (if P k v then 1 else 0)"
    using k by (simp add: entries_with_def card_insert_disjoint finite_entries del: fmlookup_drop)
  then show ?thesis by (simp add: entries_with_drop)
qed

lemma entries_with_upd_le:
  "fmlookup m k = Some u \<Longrightarrow> (P k v \<Longrightarrow> P k u) \<Longrightarrow> entries_with (fmupd k v m) P \<le> entries_with m P"
  by (simp add: entries_with_upd)

lemma fmupd_same: "fmlookup m k = Some v \<Longrightarrow> fmupd k v m = m"
  by (rule fmap_ext) auto

section \<open>Keyed counters\<close>

text \<open>
  \<open>m[k]++\<close>, and the decrement that removes a key whose count would reach zero
  (\<open>decrementGatewayCounter\<close>, \<open>decrementLiveLocked\<close> and \<open>decrementSessionCountLocked\<close>
  are this operation).
\<close>

definition counter_inc :: "('k, int) fmap \<Rightarrow> 'k \<Rightarrow> ('k, int) fmap" where
  "counter_inc m k = fmupd k (counter_get m k + 1) m"

definition counter_dec :: "('k, int) fmap \<Rightarrow> 'k \<Rightarrow> ('k, int) fmap" where
  "counter_dec m k =
     (let current = counter_get m k
      in if current \<le> 1 then fmdrop k m else fmupd k (current - 1) m)"

definition counter_pos :: "('k, int) fmap \<Rightarrow> bool" where
  "counter_pos m \<longleftrightarrow> (\<forall>k v. fmlookup m k = Some v \<longrightarrow> 0 < v)"

lemma counter_get_nonneg: "counter_pos m \<Longrightarrow> 0 \<le> counter_get m k"
  by (cases "fmlookup m k") (auto simp: counter_get_def counter_pos_def intro: less_imp_le)

text \<open>
  The laws a client of such counters needs: an increment and a decrement move one key by one,
  and counters never turn negative. Inside the locale, a counter map is related to the
  collection of entries it counts.
\<close>

locale keyed_counter =
  fixes get :: "'m \<Rightarrow> 'k \<Rightarrow> int"
    and inc :: "'m \<Rightarrow> 'k \<Rightarrow> 'm"
    and dec :: "'m \<Rightarrow> 'k \<Rightarrow> 'm"
    and empty :: "'m"
    and invar :: "'m \<Rightarrow> bool"
  assumes get_empty: "get empty k = 0"
    and get_inc: "get (inc m k) j = get m j + (if j = k then 1 else 0)"
    and get_dec: "invar m \<Longrightarrow> 0 < get m k \<Longrightarrow> get (dec m k) j = get m j - (if j = k then 1 else 0)"
    and get_nonneg: "invar m \<Longrightarrow> 0 \<le> get m k"
    and invar_empty: "invar empty"
    and invar_inc: "invar m \<Longrightarrow> invar (inc m k)"
    and invar_dec: "invar m \<Longrightarrow> invar (dec m k)"
begin

definition counts :: "'m \<Rightarrow> ('k \<Rightarrow> int) \<Rightarrow> bool" where
  "counts m f \<longleftrightarrow> invar m \<and> (\<forall>k. get m k = f k)"

lemma counts_empty: "counts empty (\<lambda>_. 0)"
  by (simp add: counts_def get_empty invar_empty)

lemma counts_inc:
  "counts m f \<Longrightarrow> (\<And>j. g j = f j + (if j = k then 1 else 0)) \<Longrightarrow> counts (inc m k) g"
  by (simp add: counts_def get_inc invar_inc)

lemma counts_dec:
  "counts m f \<Longrightarrow> 0 < f k \<Longrightarrow> (\<And>j. g j = f j - (if j = k then 1 else 0)) \<Longrightarrow> counts (dec m k) g"
  by (simp add: counts_def get_dec invar_dec)

lemma counts_cong: "counts m f \<Longrightarrow> (\<And>j. g j = f j) \<Longrightarrow> counts m g"
  by (simp add: counts_def)

lemma counts_get: "counts m f \<Longrightarrow> get m k = f k"
  by (simp add: counts_def)

lemma counts_nonneg: "counts m f \<Longrightarrow> 0 \<le> f k"
  using get_nonneg [of m k] by (simp add: counts_def)

end

interpretation gocounter: keyed_counter counter_get counter_inc counter_dec fmempty counter_pos
proof unfold_locales
  fix m :: "('k, int) fmap" and k j
  show "counter_get (fmempty :: ('k, int) fmap) k = 0" by (simp add: counter_get_def)
  show "counter_get (counter_inc m k) j = counter_get m j + (if j = k then 1 else 0)"
    by (simp add: counter_get_def counter_inc_def)
  show "counter_pos m \<Longrightarrow> 0 < counter_get m k \<Longrightarrow>
      counter_get (counter_dec m k) j = counter_get m j - (if j = k then 1 else 0)"
    by (auto simp: counter_get_def counter_dec_def Let_def)
  show "counter_pos m \<Longrightarrow> 0 \<le> counter_get m k"
    by (rule counter_get_nonneg)
  show "counter_pos (fmempty :: ('k, int) fmap)" by (simp add: counter_pos_def)
  show "counter_pos m \<Longrightarrow> counter_pos (counter_inc m k)"
    using counter_get_nonneg [of m k] by (simp add: counter_pos_def counter_inc_def)
  show "counter_pos m \<Longrightarrow> counter_pos (counter_dec m k)"
    by (auto simp: counter_pos_def counter_dec_def Let_def split: if_splits)
qed

section \<open>Machines and their invariants\<close>

inductive reachable :: "('s \<Rightarrow> bool) \<Rightarrow> ('s \<Rightarrow> 's \<Rightarrow> bool) \<Rightarrow> 's \<Rightarrow> bool"
  for init :: "'s \<Rightarrow> bool" and step :: "'s \<Rightarrow> 's \<Rightarrow> bool" where
  reach_init: "init s \<Longrightarrow> reachable init step s"
| reach_step: "reachable init step s \<Longrightarrow> step s t \<Longrightarrow> reachable init step t"

locale safe_machine =
  fixes init :: "'s \<Rightarrow> bool"
    and step :: "'s \<Rightarrow> 's \<Rightarrow> bool"
    and inv :: "'s \<Rightarrow> bool"
  assumes init_inv: "init s \<Longrightarrow> inv s"
    and step_inv: "inv s \<Longrightarrow> step s t \<Longrightarrow> inv t"
begin

lemma reachable_inv: "reachable init step s \<Longrightarrow> inv s"
  by (induction rule: reachable.induct) (auto intro: init_inv step_inv)

lemma steps_inv: "inv s \<Longrightarrow> step\<^sup>*\<^sup>* s t \<Longrightarrow> inv t"
  by (rotate_tac, induction rule: rtranclp_induct) (auto intro: step_inv)

end

end
