(* ===== verification/SSH_Auth_Limiter.thy ===== *)
theory SSH_Auth_Limiter
  imports Prelude
begin

text \<open>
  The gateway's SSH authentication limiter (\<open>internal/gateway/ssh_auth_limiter.go\<close>): one
  record per limited key (source address, codespace, their combination, public key), a window of
  one minute for the attempt limits, an exponential backoff for guessing failures, and a bound on
  the number of records. The operations run under the limiter's mutex, so each is one step.
  A nil limiter is \<open>None\<close>.
\<close>

section \<open>State\<close>

record gatewaySSHAuthLimitConfig =
  maxPerIP :: int
  maxPerCodespace :: int
  maxPerIPCodespace :: int
  maxPerPublicKey :: int
  backoffBase :: duration
  backoffMax :: duration
  failureWindow :: duration
  maxKeys :: int

record gatewaySSHAuthLimitKey =
  kind :: string
  limited_value :: string

record gatewaySSHAuthLimitRecord =
  windowStart :: time
  windowCount :: int
  failures :: int
  lastSeen :: time
  backoffUntil :: time

record gatewaySSHAuthLimiter =
  config :: gatewaySSHAuthLimitConfig
  records :: "(gatewaySSHAuthLimitKey, gatewaySSHAuthLimitRecord) fmap"

record gatewaySSHAuthLimitItem =
  item_key :: gatewaySSHAuthLimitKey
  item_limit :: int

definition maxGatewaySSHAuthLimitKeys :: int where
  "maxGatewaySSHAuthLimitKeys = 65536"

definition gatewaySSHAuthBackoffBase :: duration where
  "gatewaySSHAuthBackoffBase = second"

definition gatewaySSHAuthBackoffMax :: duration where
  "gatewaySSHAuthBackoffMax = 30 * second"

text \<open>The zero record that \<open>RecordFailure\<close> allocates.\<close>

definition emptyLimitRecord :: gatewaySSHAuthLimitRecord where
  "emptyLimitRecord =
     \<lparr>windowStart = zero_time, windowCount = 0, failures = 0, lastSeen = zero_time,
      backoffUntil = zero_time\<rparr>"

section \<open>Operations\<close>

definition newGatewaySSHAuthLimiter :: "gatewaySSHAuthLimitConfig \<Rightarrow> gatewaySSHAuthLimiter" where
  "newGatewaySSHAuthLimiter cfg = \<lparr>config = cfg, records = fmempty\<rparr>"

text \<open>The settings of the gateway configuration file that the limiter reads.\<close>

record sshAuthSettings =
  MaxAttemptsPerIP :: int
  MaxAttemptsPerCodespace :: int
  MaxAttemptsPerIPCodespace :: int
  MaxAttemptsPerPublicKey :: int
  FailureWindow :: duration

definition newGatewaySSHAuthLimiterFromConfig :: "sshAuthSettings \<Rightarrow> gatewaySSHAuthLimiter" where
  "newGatewaySSHAuthLimiterFromConfig c =
     newGatewaySSHAuthLimiter
       \<lparr>maxPerIP = MaxAttemptsPerIP c, maxPerCodespace = MaxAttemptsPerCodespace c,
        maxPerIPCodespace = MaxAttemptsPerIPCodespace c,
        maxPerPublicKey = MaxAttemptsPerPublicKey c,
        backoffBase = gatewaySSHAuthBackoffBase, backoffMax = gatewaySSHAuthBackoffMax,
        failureWindow = FailureWindow c, maxKeys = maxGatewaySSHAuthLimitKeys\<rparr>"

definition gatewaySSHAuthFailureCounts :: "string \<Rightarrow> bool" where
  "gatewaySSHAuthFailureCounts category \<longleftrightarrow>
     TrimSpace category \<in> {''invalid_credentials'', ''codespace_not_found'',
       ''codespace_not_running'', ''login_restricted'', ''manager_mismatch''}"

definition gatewaySSHAuthFailureBacksOff :: "string \<Rightarrow> bool" where
  "gatewaySSHAuthFailureBacksOff category \<longleftrightarrow>
     TrimSpace category \<in> {''invalid_credentials'', ''codespace_not_found''}"

definition limit_items ::
  "gatewaySSHAuthLimitConfig \<Rightarrow> string \<Rightarrow> string \<Rightarrow> string \<Rightarrow> gatewaySSHAuthLimitItem list" where
  "limit_items cfg sourceIP codespaceUUID publicKeyHash =
     (if sourceIP \<noteq> []
      then [\<lparr>item_key = \<lparr>kind = ''source_ip'', limited_value = sourceIP\<rparr>,
             item_limit = maxPerIP cfg\<rparr>] else []) @
     (if codespaceUUID \<noteq> []
      then [\<lparr>item_key = \<lparr>kind = ''codespace_uuid'', limited_value = codespaceUUID\<rparr>,
             item_limit = maxPerCodespace cfg\<rparr>] else []) @
     (if sourceIP \<noteq> [] \<and> codespaceUUID \<noteq> []
      then [\<lparr>item_key = \<lparr>kind = ''source_ip_codespace_uuid'',
                         limited_value = sourceIP @ [CHR 0x00] @ codespaceUUID\<rparr>,
             item_limit = maxPerIPCodespace cfg\<rparr>] else []) @
     (if publicKeyHash \<noteq> []
      then [\<lparr>item_key = \<lparr>kind = ''public_key_hash'', limited_value = publicKeyHash\<rparr>,
             item_limit = maxPerPublicKey cfg\<rparr>] else [])"

definition pruneExpired :: "gatewaySSHAuthLimiter \<Rightarrow> time \<Rightarrow> gatewaySSHAuthLimiter" where
  "pruneExpired l now =
     l\<lparr>records := fmfilter
         (\<lambda>key. case fmlookup (records l) key of
            Some rec \<Rightarrow> \<not> failureWindow (config l) \<le> time_sub now (lastSeen rec)
          | None \<Rightarrow> True)
         (records l)\<rparr>"

text \<open>The doubling loop of \<open>backoffDuration\<close>; \<open>backoff *= 2\<close> is \<open>int64\<close> arithmetic.\<close>

function backoff_loop :: "int \<Rightarrow> int \<Rightarrow> duration \<Rightarrow> duration \<Rightarrow> duration" where
  "backoff_loop i failed backoff limit =
     (if i < failed \<and> backoff < limit
      then backoff_loop (i + 1) failed (wrap64 (backoff * 2)) limit
      else backoff)"
  by pat_completeness auto
termination
  by (relation "measure (\<lambda>(i, failed, backoff, limit). nat (failed - i))") auto

declare backoff_loop.simps [simp del]

definition backoffDuration :: "gatewaySSHAuthLimitConfig \<Rightarrow> int \<Rightarrow> duration" where
  "backoffDuration cfg failed =
     (let backoff = backoff_loop 1 failed (backoffBase cfg) (backoffMax cfg)
      in if backoff > backoffMax cfg then backoffMax cfg else backoff)"

fun allow_items :: "gatewaySSHAuthLimiter \<Rightarrow> gatewaySSHAuthLimitItem list \<Rightarrow> time \<Rightarrow> bool" where
  "allow_items l [] now = True"
| "allow_items l (item # rest) now =
     (case fmlookup (records l) (item_key item) of
        None \<Rightarrow> if map_len (records l) \<ge> maxKeys (config l) then False else allow_items l rest now
      | Some rec \<Rightarrow>
          if now < backoffUntil rec then False
          else if windowStart rec = zero_time \<or> time_sub now (windowStart rec) \<ge> minute
          then allow_items l rest now
          else if windowCount rec \<ge> item_limit item then False
          else allow_items l rest now)"

definition Allow ::
  "gatewaySSHAuthLimiter option \<Rightarrow> string \<Rightarrow> string \<Rightarrow> string \<Rightarrow> time
   \<Rightarrow> bool \<times> gatewaySSHAuthLimiter option" where
  "Allow lim sourceIP codespaceUUID publicKeyHash now =
     (case lim of
        None \<Rightarrow> (True, None)
      | Some l0 \<Rightarrow>
          (let l = pruneExpired l0 now
           in (allow_items l (limit_items (config l) sourceIP codespaceUUID publicKeyHash) now,
               Some l)))"

text \<open>What one failure does to the record of one key.\<close>

definition bump_record ::
  "gatewaySSHAuthLimitConfig \<Rightarrow> string \<Rightarrow> time \<Rightarrow> gatewaySSHAuthLimitRecord
   \<Rightarrow> gatewaySSHAuthLimitRecord" where
  "bump_record cfg category now rec0 =
     (let rec1 = (if windowStart rec0 = zero_time \<or> time_sub now (windowStart rec0) \<ge> minute
                  then rec0\<lparr>windowStart := now, windowCount := 0\<rparr> else rec0);
          rec2 = rec1\<lparr>windowCount := windowCount rec1 + 1, failures := failures rec1 + 1,
                      lastSeen := now\<rparr>
      in if gatewaySSHAuthFailureBacksOff category
         then rec2\<lparr>backoffUntil := now + backoffDuration cfg (failures rec2)\<rparr> else rec2)"

fun record_items ::
  "gatewaySSHAuthLimiter \<Rightarrow> gatewaySSHAuthLimitItem list \<Rightarrow> string \<Rightarrow> time
   \<Rightarrow> gatewaySSHAuthLimiter" where
  "record_items l [] category now = l"
| "record_items l (item # rest) category now =
     (case fmlookup (records l) (item_key item) of
        None \<Rightarrow>
          if map_len (records l) \<ge> maxKeys (config l) then record_items l rest category now
          else record_items
                 (l\<lparr>records := fmupd (item_key item)
                     (bump_record (config l) category now emptyLimitRecord) (records l)\<rparr>)
                 rest category now
      | Some rec \<Rightarrow>
          record_items
            (l\<lparr>records := fmupd (item_key item) (bump_record (config l) category now rec)
                (records l)\<rparr>)
            rest category now)"

definition RecordFailure ::
  "gatewaySSHAuthLimiter option \<Rightarrow> string \<Rightarrow> string \<Rightarrow> string \<Rightarrow> string \<Rightarrow> time
   \<Rightarrow> gatewaySSHAuthLimiter option" where
  "RecordFailure lim sourceIP codespaceUUID publicKeyHash category now =
     (case lim of
        None \<Rightarrow> None
      | Some l0 \<Rightarrow>
          if \<not> gatewaySSHAuthFailureCounts category then Some l0
          else (let l = pruneExpired l0 now
                in Some (record_items l
                     (limit_items (config l) sourceIP codespaceUUID publicKeyHash)
                     category now)))"

section \<open>The admission rule\<close>

text \<open>The condition each limited key has to meet, independent of the order they are tried in.\<close>

definition item_admitted :: "gatewaySSHAuthLimiter \<Rightarrow> time \<Rightarrow> gatewaySSHAuthLimitItem \<Rightarrow> bool" where
  "item_admitted l now item \<longleftrightarrow>
     (case fmlookup (records l) (item_key item) of
        None \<Rightarrow> map_len (records l) < maxKeys (config l)
      | Some rec \<Rightarrow>
          backoffUntil rec \<le> now \<and>
          (windowStart rec \<noteq> zero_time \<and> time_sub now (windowStart rec) < minute \<longrightarrow>
           windowCount rec < item_limit item))"

lemma allow_items_iff [gospec]: "allow_items l items now \<longleftrightarrow> (\<forall>item \<in> set items. item_admitted l now item)"
  by (induction l items now rule: allow_items.induct)
    (auto simp: item_admitted_def split: option.splits)

lemma pruneExpired_config [simp]: "config (pruneExpired l now) = config l"
  by (simp add: pruneExpired_def)

lemma pruneExpired_lookup:
  "fmlookup (records (pruneExpired l now)) key =
     (case fmlookup (records l) key of
        Some rec \<Rightarrow> if failureWindow (config l) \<le> time_sub now (lastSeen rec) then None else Some rec
      | None \<Rightarrow> None)"
  by (simp add: pruneExpired_def split: option.splits)

lemma pruneExpired_len: "map_len (records (pruneExpired l now)) \<le> map_len (records l)"
  by (simp add: pruneExpired_def map_len_filter)

lemma record_items_config [simp]: "config (record_items l items category now) = config l"
  by (induction l items category now rule: record_items.induct) (auto split: option.splits)

lemma record_items_untouched:
  "key \<notin> item_key ` set items \<Longrightarrow>
     fmlookup (records (record_items l items category now)) key = fmlookup (records l) key"
  by (induction l items category now rule: record_items.induct) (auto split: option.splits)

lemma limit_items_distinct: "distinct (map item_key (limit_items cfg ip cs key))"
  by (simp add: limit_items_def)

lemma source_ip_item:
  "ip \<noteq> [] \<Longrightarrow> limit_items cfg ip cs key =
     \<lparr>item_key = \<lparr>kind = ''source_ip'', limited_value = ip\<rparr>, item_limit = maxPerIP cfg\<rparr> #
     tl (limit_items cfg ip cs key)"
  by (simp add: limit_items_def)

section \<open>The backoff sequence\<close>

lemma backoff_loop_min:
  assumes "0 < backoff" and "limit \<le> 2 ^ 62"
  shows "min limit (backoff_loop i failed backoff limit) = min limit (backoff * 2 ^ nat (failed - i))"
  using assms
proof (induction i failed backoff limit rule: backoff_loop.induct)
  case (1 i failed backoff limit)
  show ?case
  proof (cases "i < failed \<and> backoff < limit")
    case True
    with "1.prems" have w: "wrap64 (backoff * 2) = backoff * 2"
      by (intro wrap64_id) (simp add: in_int64_def min_int64_def max_int64_def)
    from True have n: "nat (failed - i) = Suc (nat (failed - (i + 1)))" by arith
    from True show ?thesis
      using "1.IH" [OF True] "1.prems"
      by (simp add: backoff_loop.simps [of i failed backoff limit] w n)
  next
    case False
    then consider "failed \<le> i" | "limit \<le> backoff" by linarith
    then show ?thesis
    proof cases
      case 1
      then show ?thesis by (simp add: backoff_loop.simps [of i failed backoff limit])
    next
      case 2
      have "backoff * 1 \<le> backoff * 2 ^ nat (failed - i)"
        using "1.prems"(1) by (intro mult_left_mono) simp_all
      with 2 show ?thesis by (simp add: backoff_loop.simps [of i failed backoff limit])
    qed
  qed
qed

lemma backoffDuration_min_loop:
  "backoffDuration cfg n = min (backoffMax cfg) (backoff_loop 1 n (backoffBase cfg) (backoffMax cfg))"
  by (simp add: backoffDuration_def Let_def min_def)

lemma backoffDuration_power:
  "0 < backoffBase cfg \<Longrightarrow> backoffMax cfg \<le> 2 ^ 62 \<Longrightarrow>
     backoffDuration cfg n = min (backoffMax cfg) (backoffBase cfg * 2 ^ nat (n - 1))"
  unfolding backoffDuration_min_loop by (rule backoff_loop_min)

lemma backoffDuration_ge_base:
  assumes "0 < backoffBase cfg" and "backoffBase cfg \<le> backoffMax cfg" and "backoffMax cfg \<le> 2 ^ 62"
  shows "backoffBase cfg \<le> backoffDuration cfg n"
proof -
  have "backoffBase cfg * 1 \<le> backoffBase cfg * 2 ^ nat (n - 1)"
    using assms(1) by (intro mult_left_mono) simp_all
  with assms show ?thesis by (simp add: backoffDuration_power)
qed

lemma backoffDuration_le_max: "backoffDuration cfg n \<le> backoffMax cfg"
  by (simp add: backoffDuration_min_loop)

section \<open>The limiter as a machine\<close>

text \<open>
  A step is one call made at a time that is not before the previous call; the state is the
  limiter and the time of its last call.
\<close>

inductive limiter_step ::
  "gatewaySSHAuthLimiter \<times> time \<Rightarrow> gatewaySSHAuthLimiter \<times> time \<Rightarrow> bool" where
  allow: "clock \<le> now \<Longrightarrow> snd (Allow (Some l) ip cs key now) = Some l' \<Longrightarrow>
            limiter_step (l, clock) (l', now)"
| failure: "clock \<le> now \<Longrightarrow> RecordFailure (Some l) ip cs key category now = Some l' \<Longrightarrow>
            limiter_step (l, clock) (l', now)"

definition limiter_init :: "gatewaySSHAuthLimitConfig \<Rightarrow> gatewaySSHAuthLimiter \<times> time \<Rightarrow> bool" where
  "limiter_init cfg s \<longleftrightarrow> fst s = newGatewaySSHAuthLimiter cfg"

definition record_ok :: "gatewaySSHAuthLimitConfig \<Rightarrow> time \<Rightarrow> gatewaySSHAuthLimitRecord \<Rightarrow> bool" where
  "record_ok cfg clock rec \<longleftrightarrow>
     1 \<le> windowCount rec \<and> windowCount rec \<le> failures rec \<and>
     windowStart rec \<le> lastSeen rec \<and> lastSeen rec \<le> clock \<and>
     (backoffUntil rec = zero_time \<or> backoffUntil rec \<le> lastSeen rec + backoffMax cfg)"

definition limiter_inv :: "gatewaySSHAuthLimitConfig \<Rightarrow> gatewaySSHAuthLimiter \<times> time \<Rightarrow> bool" where
  "limiter_inv cfg s \<longleftrightarrow>
     config (fst s) = cfg \<and> map_len (records (fst s)) \<le> max 0 (maxKeys cfg) \<and>
     (\<forall>key rec. fmlookup (records (fst s)) key = Some rec \<longrightarrow> record_ok cfg (snd s) rec)"

lemma bump_record_ok:
  assumes "rec = emptyLimitRecord \<or> record_ok cfg clock rec" and "clock \<le> now"
  shows "record_ok cfg now (bump_record cfg category now rec)"
  using assms backoffDuration_le_max [of cfg]
  by (auto simp: bump_record_def record_ok_def emptyLimitRecord_def Let_def
      intro: order_trans add_mono)

lemma record_ok_mono: "record_ok cfg clock rec \<Longrightarrow> clock \<le> now \<Longrightarrow> record_ok cfg now rec"
  by (simp add: record_ok_def)

lemma prune_inv: "limiter_inv cfg (l, clock) \<Longrightarrow> clock \<le> now \<Longrightarrow> limiter_inv cfg (pruneExpired l now, now)"
  using pruneExpired_len [of l now]
  by (auto simp: limiter_inv_def pruneExpired_lookup split: option.splits if_splits
      intro: record_ok_mono)

lemma record_items_inv:
  "limiter_inv cfg (l, now) \<Longrightarrow> limiter_inv cfg (record_items l items category now, now)"
proof (induction l items category now rule: record_items.induct)
  case (1 l category now)
  then show ?case by simp
next
  case (2 l item rest category now)
  have cfg: "config l = cfg" using "2.prems" by (simp add: limiter_inv_def)
  show ?case
  proof (cases "fmlookup (records l) (item_key item)")
    case None
    show ?thesis
    proof (cases "map_len (records l) \<ge> maxKeys (config l)")
      case True
      with None 2 show ?thesis by simp
    next
      case False
      let ?l = "l\<lparr>records := fmupd (item_key item)
                  (bump_record (config l) category now emptyLimitRecord) (records l)\<rparr>"
      have "limiter_inv cfg (?l, now)"
        using "2.prems" None False cfg bump_record_ok [of emptyLimitRecord cfg now now category]
        by (auto simp: limiter_inv_def map_len_upd split: if_splits)
      with None False "2.IH"(2) show ?thesis by simp
    qed
  next
    case (Some rec)
    let ?l = "l\<lparr>records := fmupd (item_key item) (bump_record (config l) category now rec) (records l)\<rparr>"
    have "record_ok cfg now rec" using "2.prems" Some by (auto simp: limiter_inv_def)
    then have "limiter_inv cfg (?l, now)"
      using "2.prems" Some cfg bump_record_ok [of rec cfg now now category]
      by (auto simp: limiter_inv_def map_len_upd split: if_splits)
    with Some "2.IH"(3) show ?thesis by simp
  qed
qed

lemma limiter_clock_mono: "limiter_inv cfg (l, clock) \<Longrightarrow> clock \<le> now \<Longrightarrow> limiter_inv cfg (l, now)"
  by (auto simp: limiter_inv_def intro: record_ok_mono)

interpretation ssh_limiter: safe_machine "limiter_init cfg" limiter_step "limiter_inv cfg"
proof unfold_locales
  fix s
  show "limiter_init cfg s \<Longrightarrow> limiter_inv cfg s"
    by (simp add: limiter_init_def limiter_inv_def newGatewaySSHAuthLimiter_def)
next
  fix s t
  assume inv: "limiter_inv cfg s" and step: "limiter_step s t"
  from step inv show "limiter_inv cfg t"
    by cases (auto simp: Allow_def RecordFailure_def Let_def split: if_splits
        intro: prune_inv record_items_inv limiter_clock_mono)
qed

section \<open>Runs of failures from one address\<close>

text \<open>A run of failed attempts from one source address: codespace, key, category and time.\<close>

fun fail_run ::
  "gatewaySSHAuthLimiter option \<Rightarrow> string \<Rightarrow> (string \<times> string \<times> string \<times> time) list
   \<Rightarrow> gatewaySSHAuthLimiter option" where
  "fail_run l ip [] = l"
| "fail_run l ip ((cs, key, category, now) # rest) =
     fail_run (RecordFailure l ip cs key category now) ip rest"

definition ip_key :: "string \<Rightarrow> gatewaySSHAuthLimitKey" where
  "ip_key ip = \<lparr>kind = ''source_ip'', limited_value = ip\<rparr>"

lemma ip_key_once: "ip \<noteq> [] \<Longrightarrow> ip_key ip \<notin> item_key ` set (tl (limit_items cfg ip cs key))"
  by (auto simp: limit_items_def ip_key_def)

text \<open>What a counted failure does to the record of the source address.\<close>

lemma RecordFailure_ip:
  assumes "ip \<noteq> []" and "gatewaySSHAuthFailureCounts category"
    and "map_len (records l) < maxKeys (config l) \<or>
         fmlookup (records (pruneExpired l now)) (ip_key ip) \<noteq> None"
  obtains l' where "RecordFailure (Some l) ip cs key category now = Some l'"
    and "config l' = config l"
    and "fmlookup (records l') (ip_key ip) =
      Some (bump_record (config l) category now
        (case fmlookup (records (pruneExpired l now)) (ip_key ip) of
           Some rec \<Rightarrow> rec | None \<Rightarrow> emptyLimitRecord))"
proof -
  let ?p = "pruneExpired l now"
  let ?rest = "tl (limit_items (config l) ip cs key)"
  have items: "limit_items (config l) ip cs key =
      \<lparr>item_key = ip_key ip, item_limit = maxPerIP (config l)\<rparr> # ?rest"
    using source_ip_item [OF assms(1)] by (simp add: ip_key_def)
  have room: "fmlookup (records ?p) (ip_key ip) = None \<Longrightarrow> map_len (records ?p) < maxKeys (config l)"
    using assms(3) pruneExpired_len [of l now] by auto
  show ?thesis
  proof (rule that)
    show "RecordFailure (Some l) ip cs key category now =
        Some (record_items ?p (limit_items (config l) ip cs key) category now)"
      using assms(2) by (simp add: RecordFailure_def)
    show "config (record_items ?p (limit_items (config l) ip cs key) category now) = config l"
      by simp
    show "fmlookup (records (record_items ?p (limit_items (config l) ip cs key) category now))
        (ip_key ip) =
      Some (bump_record (config l) category now
        (case fmlookup (records ?p) (ip_key ip) of Some rec \<Rightarrow> rec | None \<Rightarrow> emptyLimitRecord))"
      using room record_items_untouched [OF ip_key_once [OF assms(1)]]
      by (subst items) (auto simp: not_le split: option.splits)
  qed
qed

lemma Allow_ip_refused:
  assumes "ip \<noteq> []" and "fmlookup (records l) (ip_key ip) = Some rec"
    and "time_sub now (lastSeen rec) < failureWindow (config l)"
    and "now < backoffUntil rec \<or>
         (windowStart rec \<noteq> zero_time \<and> time_sub now (windowStart rec) < minute \<and>
          maxPerIP (config l) \<le> windowCount rec)"
  shows "\<not> fst (Allow (Some l) ip cs key now)"
proof -
  let ?item = "\<lparr>item_key = ip_key ip, item_limit = maxPerIP (config l)\<rparr>"
  have "?item \<in> set (limit_items (config l) ip cs key)"
    by (subst source_ip_item [OF assms(1)]) (simp add: ip_key_def)
  moreover have "fmlookup (records (pruneExpired l now)) (ip_key ip) = Some rec"
    using assms(2,3) by (simp add: pruneExpired_lookup)
  then have "\<not> item_admitted (pruneExpired l now) now ?item"
    using assms(4) by (auto simp: item_admitted_def)
  ultimately show ?thesis by (auto simp: Allow_def Let_def gospec)
qed

lemma fail_run_window:
  assumes "fmlookup (records l) (ip_key ip) = Some rec" and "ip \<noteq> []"
    and "windowStart rec = start" and "start \<noteq> zero_time" and "lastSeen rec < start + minute"
    and "start \<le> lastSeen rec" and "minute \<le> failureWindow (config l)"
    and "\<forall>(cs, key, category, now) \<in> set fails.
           gatewaySSHAuthFailureCounts category \<and> start \<le> now \<and> now < start + minute"
  shows "\<exists>l' rec'. fail_run (Some l) ip fails = Some l' \<and> config l' = config l \<and>
    fmlookup (records l') (ip_key ip) = Some rec' \<and> windowStart rec' = start \<and>
    windowCount rec' = windowCount rec + int (length fails) \<and>
    start \<le> lastSeen rec' \<and> lastSeen rec' < start + minute"
  using assms
proof (induction fails arbitrary: l rec)
  case Nil
  then show ?case by simp
next
  case (Cons f fails)
  obtain cs key category now where f: "f = (cs, key, category, now)" by (cases f)
  have small: "time_sub now (lastSeen rec) < minute" "time_sub now start < minute"
    using Cons.prems f
    by (auto simp: time_sub_def duration_units min_int64_def max_int64_def)
  then have keep: "fmlookup (records (pruneExpired l now)) (ip_key ip) = Some rec"
    using Cons.prems by (simp add: pruneExpired_lookup)
  obtain l1 where l1: "RecordFailure (Some l) ip cs key category now = Some l1"
    and cfg: "config l1 = config l"
    and look: "fmlookup (records l1) (ip_key ip) = Some (bump_record (config l) category now rec)"
    using RecordFailure_ip [of ip category l now cs key] Cons.prems f keep by auto
  let ?rec = "bump_record (config l) category now rec"
  have rec1: "windowStart ?rec = start" "windowCount ?rec = windowCount rec + 1" "lastSeen ?rec = now"
    using Cons.prems(3,4) small by (simp_all add: bump_record_def Let_def)
  have "\<exists>l' rec'. fail_run (Some l1) ip fails = Some l' \<and> config l' = config l1 \<and>
    fmlookup (records l') (ip_key ip) = Some rec' \<and> windowStart rec' = start \<and>
    windowCount rec' = windowCount ?rec + int (length fails) \<and>
    start \<le> lastSeen rec' \<and> lastSeen rec' < start + minute"
    by (rule Cons.IH [OF look Cons.prems(2) rec1(1) Cons.prems(4)])
      (use Cons.prems f rec1 cfg in auto)
  then show ?case using f l1 cfg rec1 by auto
qed

section \<open>Properties\<close>

text \<open>however often the limiter is called, it never holds more records than \<open>maxKeys\<close>, and every
  record it holds counts at least one failure, counts no more failures in its window than in all,
  and does not back off beyond \<open>backoffMax\<close> after its last failure.\<close>

theorem ssh_limiter_bounded:
  assumes "reachable (limiter_init cfg) limiter_step (l, clock)"
  shows "map_len (records l) \<le> max 0 (maxKeys cfg) \<and>
    (\<forall>key rec. fmlookup (records l) key = Some rec \<longrightarrow> record_ok cfg clock rec)"
  using ssh_limiter.reachable_inv [OF assms] by (simp add: limiter_inv_def)

text \<open>the doubling loop computes the capped exponential \<open>min backoffMax (backoffBase * 2^(n-1))\<close>,
  without overflow, for every configuration whose cap is at most \<open>2^62\<close> nanoseconds.\<close>

theorem ssh_backoff_closed_form:
  assumes "0 < backoffBase cfg" and "backoffMax cfg \<le> 2 ^ 62"
  shows "backoffDuration cfg n = min (backoffMax cfg) (backoffBase cfg * 2 ^ nat (n - 1))"
  using assms by (rule backoffDuration_power)

text \<open>after a guessing failure (wrong credentials or an unknown codespace) recorded while the
  table has room, every attempt from the same address is refused until the backoff of at least
  \<open>backoffBase\<close> has passed, whatever codespace and key it names.\<close>

theorem ssh_backoff_blocks:
  assumes "ip \<noteq> []" and "gatewaySSHAuthFailureCounts category"
    and "gatewaySSHAuthFailureBacksOff category"
    and "map_len (records l) < maxKeys (config l)"
    and "0 < backoffBase (config l)" and "backoffBase (config l) \<le> backoffMax (config l)"
    and "backoffMax (config l) \<le> 2 ^ 62" and "backoffBase (config l) \<le> failureWindow (config l)"
    and "now \<le> now'" and "now' < now + backoffBase (config l)"
  shows "\<not> fst (Allow (RecordFailure (Some l) ip cs key category now) ip cs' key' now')"
proof -
  obtain l' rec where l': "RecordFailure (Some l) ip cs key category now = Some l'"
    and cfg: "config l' = config l"
    and look: "fmlookup (records l') (ip_key ip) = Some (bump_record (config l) category now rec)"
    by (rule RecordFailure_ip [of ip category l now cs key]) (use assms in auto)
  let ?rec = "bump_record (config l) category now rec"
  have "lastSeen ?rec = now" by (simp add: bump_record_def Let_def)
  then have "time_sub now' (lastSeen ?rec) < failureWindow (config l')"
    using assms cfg by (simp add: time_sub_def min_int64_def max_int64_def)
  moreover have "now' < backoffUntil ?rec"
    using assms(3,10) backoffDuration_ge_base [OF assms(5-7)]
    by (simp add: bump_record_def Let_def) (meson add_left_mono less_le_trans)
  ultimately show ?thesis
    unfolding l' using Allow_ip_refused [OF assms(1) look] by blast
qed

text \<open>Once \<open>maxPerIP\<close> counted failures from one address fall into one window of a minute, every
  attempt from that address is refused until the minute is over; the run may mix categories,
  codespaces and keys.\<close>

theorem ssh_window_blocks:
  assumes "ip \<noteq> []" and "fmlookup (records l) (ip_key ip) = None"
    and "map_len (records l) < maxKeys (config l)" and "minute \<le> failureWindow (config l)"
    and "start \<noteq> zero_time"
    and "\<forall>(cs, key, category, now) \<in> set ((cs0, key0, category0, start) # fails).
           gatewaySSHAuthFailureCounts category \<and> start \<le> now \<and> now < start + minute"
    and "maxPerIP (config l) \<le> 1 + int (length fails)"
    and "start \<le> now" and "now < start + minute"
  shows "\<not> fst (Allow (fail_run (Some l) ip ((cs0, key0, category0, start) # fails)) ip cs key now)"
proof -
  have none: "fmlookup (records (pruneExpired l start)) (ip_key ip) = None"
    using assms(2) by (simp add: pruneExpired_lookup)
  obtain l1 where l1: "RecordFailure (Some l) ip cs0 key0 category0 start = Some l1"
    and cfg: "config l1 = config l"
    and look: "fmlookup (records l1) (ip_key ip) =
      Some (bump_record (config l) category0 start emptyLimitRecord)"
    by (rule RecordFailure_ip [of ip category0 l start cs0 key0]) (use assms none in auto)
  let ?rec = "bump_record (config l) category0 start emptyLimitRecord"
  have rec: "windowStart ?rec = start" "windowCount ?rec = 1" "lastSeen ?rec = start"
    by (simp_all add: bump_record_def emptyLimitRecord_def Let_def)
  have m: "0 < minute" by (simp add: duration_units)
  obtain l' rec' where run: "fail_run (Some l1) ip fails = Some l'"
    and l': "config l' = config l1" "fmlookup (records l') (ip_key ip) = Some rec'"
      "windowStart rec' = start" "windowCount rec' = windowCount ?rec + int (length fails)"
      "start \<le> lastSeen rec'" "lastSeen rec' < start + minute"
    using fail_run_window [OF look assms(1) rec(1) assms(5), of fails] assms rec cfg m by auto
  have small: "time_sub now (lastSeen rec') < minute" "time_sub now start < minute"
    using assms(8,9) l'(5) by (auto simp: time_sub_def duration_units min_int64_def max_int64_def)
  have "\<not> fst (Allow (Some l') ip cs key now)"
    by (rule Allow_ip_refused [OF assms(1) l'(2)]) (use assms small l' rec cfg in auto)
  with l1 run show ?thesis by simp
qed

text \<open>Nobody is locked out for ever: once \<open>failureWindow\<close> has passed since the last call, every
  record has expired and any attempt is admitted.\<close>

theorem ssh_quiet_reopens:
  assumes "reachable (limiter_init cfg) limiter_step (l, clock)"
    and "0 < maxKeys cfg" and "failureWindow cfg \<le> max_int64"
    and "clock + failureWindow cfg \<le> now"
  shows "fst (Allow (Some l) ip cs key now)"
proof -
  have inv: "limiter_inv cfg (l, clock)" using assms(1) by (rule ssh_limiter.reachable_inv)
  have "fmlookup (records (pruneExpired l now)) k = None" for k
    using inv assms(3,4)
    by (fastforce simp: pruneExpired_lookup limiter_inv_def record_ok_def time_sub_def
        min_int64_def max_int64_def split: option.splits)
  then have "records (pruneExpired l now) = fmempty" by (auto intro: fmap_ext)
  then show ?thesis
    using inv assms(2) by (auto simp: Allow_def Let_def gospec item_admitted_def limiter_inv_def)
qed

section \<open>Concrete instances\<close>

definition sample_limits :: gatewaySSHAuthLimitConfig where
  "sample_limits =
     \<lparr>maxPerIP = 2, maxPerCodespace = 10, maxPerIPCodespace = 10, maxPerPublicKey = 10,
      backoffBase = second, backoffMax = 30 * second, failureWindow = 600 * second, maxKeys = 8\<rparr>"

definition sample_limiter :: gatewaySSHAuthLimiter where
  "sample_limiter = newGatewaySSHAuthLimiter sample_limits"

lemma sample_limiter_simps [simp]:
  "config sample_limiter = sample_limits" "records sample_limiter = fmempty"
  by (simp_all add: sample_limiter_def newGatewaySSHAuthLimiter_def)

lemma sample_categories:
  "gatewaySSHAuthFailureCounts '' invalid_credentials''"
  "gatewaySSHAuthFailureBacksOff '' invalid_credentials''"
  "gatewaySSHAuthFailureCounts ''login_restricted''"
  "\<not> gatewaySSHAuthFailureBacksOff ''login_restricted''"
  by code_simp+

lemma sample_reachable:
  "reachable (limiter_init sample_limits) limiter_step
     (the (RecordFailure (Some sample_limiter) ''10.0.0.1'' ''cs'' [] ''login_restricted'' 5), 5)"
proof (rule reach_step [OF reach_init])
  show "limiter_init sample_limits (sample_limiter, 0)"
    by (simp add: limiter_init_def sample_limiter_def)
  show "limiter_step (sample_limiter, 0)
     (the (RecordFailure (Some sample_limiter) ''10.0.0.1'' ''cs'' [] ''login_restricted'' 5), 5)"
    by (rule limiter_step.failure) (simp_all add: RecordFailure_def Let_def)
qed

theorem ssh_limiter_bounded_witness:
  "map_len (records (the (RecordFailure (Some sample_limiter) ''10.0.0.1'' ''cs'' []
     ''login_restricted'' 5))) \<le> 8"
  using ssh_limiter_bounded [OF sample_reachable] by (simp add: sample_limits_def)

theorem ssh_backoff_closed_form_witness:
  "backoffDuration sample_limits 4 = 8 * second \<and> backoffDuration sample_limits 9 = 30 * second"
  using ssh_backoff_closed_form [of sample_limits 4] ssh_backoff_closed_form [of sample_limits 9]
  by (simp add: sample_limits_def duration_units)

theorem ssh_backoff_blocks_witness:
  "\<not> fst (Allow (RecordFailure (Some sample_limiter) ''10.0.0.1'' ''cs'' [] '' invalid_credentials''
       (5 * second)) ''10.0.0.1'' ''other'' ''key'' (5 * second + 1))"
  by (rule ssh_backoff_blocks)
    (simp_all add: sample_categories sample_limits_def duration_units)

theorem ssh_window_blocks_witness:
  "\<not> fst (Allow (fail_run (Some sample_limiter) ''10.0.0.1''
       [(''a'', [], ''login_restricted'', 5 * second), (''b'', [], ''login_restricted'', 6 * second)])
       ''10.0.0.1'' ''c'' [] (64 * second))"
  by (rule ssh_window_blocks)
    (simp_all add: sample_categories sample_limits_def duration_units)

theorem ssh_quiet_reopens_witness:
  "fst (Allow (Some (the (RecordFailure (Some sample_limiter) ''10.0.0.1'' ''cs'' []
     ''login_restricted'' 5))) ''10.0.0.1'' ''cs'' [] (5 + 600 * second))"
  by (rule ssh_quiet_reopens [OF sample_reachable])
    (simp_all add: sample_limits_def duration_units max_int64_def)

end
