(* ===== verification/Access_Control.thy ===== *)
theory Access_Control
  imports Prelude
begin

text \<open>
  Admission of gateway requests (\<open>internal/gateway/access_cache.go\<close>): the counters that bound
  concurrent requests, the short cache of positive authorization decisions, and the single-flight
  validation that asks the control plane once per key however many requests wait for the answer.
  Every mutex section is one function. A nil controller is \<open>None\<close>; a reservation returned
  by pointer carries its \<open>sync.Once\<close> as the flag \<open>*_released\<close>; the call objects shared by
  a leader and its followers live in \<open>callStore\<close>, addressed by number. The iteration order of a
  Go map is an argument (\<open>order\<close>) where the result could depend on it.
\<close>

section \<open>State\<close>

record accessConfig =
  AllowedTTL :: duration
  StreamRevalidateInterval :: duration
  MaxInflightTotal :: int
  MaxInflightPerSession :: int
  PublicMaxConnectionsPerEndpoint :: int
  PublicMaxConnectionsPerIP :: int
  ValidationMaxInflight :: int

datatype gatewayAuthorizationKind =
    gatewayAuthorizationKindEndpoint
  | gatewayAuthorizationKindPublic

record gatewayAuthorizationKey =
  authKind :: gatewayAuthorizationKind
  authSiteUID :: string
  authUserID :: int
  authCodespaceUUID :: string
  authEndpointID :: string

record gatewayPublicEndpointKey =
  publicSiteUID :: string
  publicCodespaceUUID :: string
  publicEndpointID :: string

record gatewayAccessDecision =
  Allowed :: bool
  DeniedCategory :: string

datatype access_error =
    errGatewayAccessLimitReached
  | contextDone
  | controlPlaneError string

record gatewayValidationCall =
  call_done :: bool
  call_decision :: gatewayAccessDecision
  call_err :: "access_error option"

record gatewayAccessCache =
  cache_ttl :: duration
  cache_maxKeys :: int
  allowed :: "(gatewayAuthorizationKey, time) fmap"

record accessController =
  Config :: accessConfig
  cache :: gatewayAccessCache
  totalInflight :: int
  validationInflight :: int
  sessionInflight :: "(string, int) fmap"
  publicEndpoint :: "(gatewayPublicEndpointKey, int) fmap"
  publicIP :: "(string, int) fmap"
  validationCalls :: "(gatewayAuthorizationKey, nat) fmap"
  callStore :: "(nat, gatewayValidationCall) fmap"
  nextCall :: nat

record gatewayPublicReservation =
  public_key :: gatewayPublicEndpointKey
  public_ip :: string
  public_released :: bool

record gatewayRequestReservation =
  request_sessionID :: string
  request_released :: bool

definition StatusServiceUnavailable :: int where
  "StatusServiceUnavailable = 503"

definition StatusTooManyRequests :: int where
  "StatusTooManyRequests = 429"

definition defaultGatewaySessionRevalidateInterval :: duration where
  "defaultGatewaySessionRevalidateInterval = 5 * minute"

definition defaultGatewayAccessCacheMaxKeys :: int where
  "defaultGatewayAccessCacheMaxKeys = 65536"

definition noDecision :: gatewayAccessDecision where
  "noDecision = \<lparr>Allowed = False, DeniedCategory = []\<rparr>"

section \<open>Construction\<close>

definition newGatewayAccessCache :: "duration \<Rightarrow> gatewayAccessCache" where
  "newGatewayAccessCache ttl =
     \<lparr>cache_ttl = (if ttl \<le> 0 then second else ttl),
      cache_maxKeys = defaultGatewayAccessCacheMaxKeys, allowed = fmempty\<rparr>"

definition newAccessController :: "accessConfig \<Rightarrow> accessController" where
  "newAccessController config0 =
     (let config1 = (if AllowedTTL config0 \<le> 0 then config0\<lparr>AllowedTTL := second\<rparr> else config0);
          config2 = (if StreamRevalidateInterval config1 \<le> 0
                     then config1\<lparr>StreamRevalidateInterval := defaultGatewaySessionRevalidateInterval\<rparr>
                     else config1)
      in \<lparr>Config = config2, cache = newGatewayAccessCache (AllowedTTL config2), totalInflight = 0,
          validationInflight = 0, sessionInflight = fmempty, publicEndpoint = fmempty,
          publicIP = fmempty, validationCalls = fmempty, callStore = fmempty, nextCall = 0\<rparr>)"

section \<open>Reservations\<close>

definition reservePublic ::
  "accessController option \<Rightarrow> string \<Rightarrow> string \<Rightarrow> string \<Rightarrow> string
   \<Rightarrow> int + (gatewayPublicReservation \<times> accessController)" where
  "reservePublic ctl siteUID codespaceUUID endpointID ip =
     (case ctl of
        None \<Rightarrow> Inl StatusServiceUnavailable
      | Some c \<Rightarrow>
          if totalInflight c \<ge> MaxInflightTotal (Config c) then Inl StatusServiceUnavailable
          else
            (let key = \<lparr>publicSiteUID = siteUID, publicCodespaceUUID = codespaceUUID,
                        publicEndpointID = endpointID\<rparr>
             in if counter_get (publicEndpoint c) key \<ge> PublicMaxConnectionsPerEndpoint (Config c)
                then Inl StatusTooManyRequests
                else if counter_get (publicIP c) ip \<ge> PublicMaxConnectionsPerIP (Config c)
                then Inl StatusTooManyRequests
                else Inr (\<lparr>public_key = key, public_ip = ip, public_released = False\<rparr>,
                          c\<lparr>totalInflight := totalInflight c + 1,
                            publicEndpoint := counter_inc (publicEndpoint c) key,
                            publicIP := counter_inc (publicIP c) ip\<rparr>)))"

definition ReserveRequest ::
  "accessController option \<Rightarrow> int + (gatewayRequestReservation \<times> accessController)" where
  "ReserveRequest ctl =
     (case ctl of
        None \<Rightarrow> Inl StatusServiceUnavailable
      | Some c \<Rightarrow>
          if totalInflight c \<ge> MaxInflightTotal (Config c) then Inl StatusServiceUnavailable
          else Inr (\<lparr>request_sessionID = [], request_released = False\<rparr>,
                    c\<lparr>totalInflight := totalInflight c + 1\<rparr>))"

definition reserveSessionRequest ::
  "accessController option \<Rightarrow> string \<Rightarrow> int + (gatewayRequestReservation \<times> accessController)" where
  "reserveSessionRequest ctl sessionID =
     (case ctl of
        None \<Rightarrow> Inl StatusServiceUnavailable
      | Some c \<Rightarrow>
          if totalInflight c \<ge> MaxInflightTotal (Config c) then Inl StatusServiceUnavailable
          else if counter_get (sessionInflight c) sessionID \<ge> MaxInflightPerSession (Config c)
          then Inl StatusTooManyRequests
          else Inr (\<lparr>request_sessionID = sessionID, request_released = False\<rparr>,
                    c\<lparr>totalInflight := totalInflight c + 1,
                      sessionInflight := counter_inc (sessionInflight c) sessionID\<rparr>))"

definition releasePublic ::
  "accessController \<Rightarrow> gatewayPublicReservation option
   \<Rightarrow> accessController \<times> gatewayPublicReservation option" where
  "releasePublic c res =
     (case res of
        None \<Rightarrow> (c, None)
      | Some r \<Rightarrow>
          if public_released r then (c, Some r)
          else (c\<lparr>totalInflight := totalInflight c - 1,
                  publicEndpoint := counter_dec (publicEndpoint c) (public_key r),
                  publicIP := counter_dec (publicIP c) (public_ip r)\<rparr>,
                Some (r\<lparr>public_released := True\<rparr>)))"

definition releaseRequest ::
  "accessController \<Rightarrow> gatewayRequestReservation option
   \<Rightarrow> accessController \<times> gatewayRequestReservation option" where
  "releaseRequest c res =
     (case res of
        None \<Rightarrow> (c, None)
      | Some r \<Rightarrow>
          if request_released r then (c, Some r)
          else (let c1 = c\<lparr>totalInflight := totalInflight c - 1\<rparr>
                in (if request_sessionID r \<noteq> []
                    then c1\<lparr>sessionInflight := counter_dec (sessionInflight c1) (request_sessionID r)\<rparr>
                    else c1,
                    Some (r\<lparr>request_released := True\<rparr>))))"

section \<open>The cache of allowed keys\<close>

definition cache_IsAllowed ::
  "gatewayAccessCache \<Rightarrow> gatewayAuthorizationKey \<Rightarrow> time \<Rightarrow> bool \<times> gatewayAccessCache" where
  "cache_IsAllowed c key now =
     (if authCodespaceUUID key = [] \<or> authEndpointID key = [] then (False, c)
      else (let expires = (case fmlookup (allowed c) key of Some e \<Rightarrow> e | None \<Rightarrow> zero_time)
            in if expires = zero_time \<or> \<not> now < expires
               then (False, c\<lparr>allowed := fmdrop key (allowed c)\<rparr>)
               else (True, c)))"

definition pruneExpiredLocked :: "gatewayAccessCache \<Rightarrow> time \<Rightarrow> gatewayAccessCache" where
  "pruneExpiredLocked c now =
     c\<lparr>allowed := fmfilter
         (\<lambda>key. case fmlookup (allowed c) key of
            Some expires \<Rightarrow> \<not> (expires = zero_time \<or> \<not> now < expires)
          | None \<Rightarrow> True)
         (allowed c)\<rparr>"

text \<open>The scan for the oldest entry over the keys in iteration order.\<close>

fun oldest_scan ::
  "(gatewayAuthorizationKey, time) fmap \<Rightarrow> gatewayAuthorizationKey list
   \<Rightarrow> gatewayAuthorizationKey option \<times> time \<Rightarrow> gatewayAuthorizationKey option \<times> time" where
  "oldest_scan m [] best = best"
| "oldest_scan m (key # rest) (oldestKey, oldest) =
     (case fmlookup m key of
        None \<Rightarrow> oldest_scan m rest (oldestKey, oldest)
      | Some expires \<Rightarrow>
          oldest_scan m rest
            (if oldest = zero_time \<or> expires < oldest then (Some key, expires)
             else (oldestKey, oldest)))"

definition pruneOldestLocked ::
  "gatewayAccessCache \<Rightarrow> gatewayAuthorizationKey list \<Rightarrow> gatewayAccessCache" where
  "pruneOldestLocked c order =
     (case oldest_scan (allowed c) order (None, zero_time) of
        (Some oldestKey, oldest) \<Rightarrow>
          if oldest \<noteq> zero_time then c\<lparr>allowed := fmdrop oldestKey (allowed c)\<rparr> else c
      | (None, _) \<Rightarrow> c)"

definition MarkAllowed ::
  "gatewayAccessCache \<Rightarrow> gatewayAuthorizationKey \<Rightarrow> time \<Rightarrow> gatewayAuthorizationKey list
   \<Rightarrow> gatewayAccessCache" where
  "MarkAllowed c key now order =
     (if authCodespaceUUID key = [] \<or> authEndpointID key = [] then c
      else
        (let c1 = (if fmlookup (allowed c) key = None \<and> cache_maxKeys c > 0 \<and>
                      map_len (allowed c) \<ge> cache_maxKeys c
                   then (let p = pruneExpiredLocked c now
                         in if map_len (allowed p) \<ge> cache_maxKeys p
                            then pruneOldestLocked p order else p)
                   else c)
         in c1\<lparr>allowed := fmupd key (now + cache_ttl c1) (allowed c1)\<rparr>))"

section \<open>Validation\<close>

definition publicAuthorizationKey :: "string \<Rightarrow> string \<Rightarrow> string \<Rightarrow> gatewayAuthorizationKey" where
  "publicAuthorizationKey siteUID codespaceUUID endpointID =
     \<lparr>authKind = gatewayAuthorizationKindPublic, authSiteUID = siteUID, authUserID = 0,
      authCodespaceUUID = codespaceUUID, authEndpointID = endpointID\<rparr>"

definition endpointAuthorizationKey ::
  "string \<Rightarrow> int \<Rightarrow> string \<Rightarrow> string \<Rightarrow> gatewayAuthorizationKey" where
  "endpointAuthorizationKey siteUID userID codespaceUUID endpointID =
     \<lparr>authKind = gatewayAuthorizationKindEndpoint, authSiteUID = siteUID, authUserID = userID,
      authCodespaceUUID = codespaceUUID, authEndpointID = endpointID\<rparr>"

definition beginValidation ::
  "accessController \<Rightarrow> gatewayAuthorizationKey \<Rightarrow> (nat option \<times> bool \<times> bool) \<times> accessController" where
  "beginValidation c key =
     (case fmlookup (validationCalls c) key of
        Some call \<Rightarrow> ((Some call, False, True), c)
      | None \<Rightarrow>
          if validationInflight c \<ge> ValidationMaxInflight (Config c) then ((None, False, False), c)
          else ((Some (nextCall c), True, True),
                c\<lparr>validationCalls := fmupd key (nextCall c) (validationCalls c),
                  validationInflight := validationInflight c + 1,
                  callStore := fmupd (nextCall c)
                    \<lparr>call_done = False, call_decision = noDecision, call_err = None\<rparr> (callStore c),
                  nextCall := Suc (nextCall c)\<rparr>))"

definition finishValidation ::
  "accessController \<Rightarrow> gatewayAuthorizationKey \<Rightarrow> nat \<Rightarrow> gatewayAccessDecision
   \<Rightarrow> access_error option \<Rightarrow> accessController" where
  "finishValidation c key call decision err =
     c\<lparr>callStore := fmupd call \<lparr>call_done = True, call_decision = decision, call_err = err\<rparr>
         (callStore c),
       validationCalls := fmdrop key (validationCalls c),
       validationInflight := validationInflight c - 1\<rparr>"

text \<open>
  One request's way through \<open>validateAccess\<close> and \<open>validateAccessUncached\<close>, cut at the
  points where it holds no lock: it asks the cache (cached requests only) and joins or starts a
  call, then either waits for the call's result or, as its leader, runs \<open>validate\<close>, records a
  positive answer (cached requests only) and finishes the call. \<open>VResult\<close> is the triple the
  function returns.
\<close>

datatype validation_phase =
    VIdle
  | VLead nat
  | VFollow nat
  | VAnswered nat gatewayAccessDecision "access_error option"
  | VResult gatewayAccessDecision bool "access_error option"

definition validate_enter ::
  "bool \<Rightarrow> accessController \<Rightarrow> gatewayAuthorizationKey \<Rightarrow> time \<Rightarrow> validation_phase \<times> accessController" where
  "validate_enter cached c key now =
     (let (hit, cache1) = (if cached then cache_IsAllowed (cache c) key now else (False, cache c));
          c1 = c\<lparr>cache := cache1\<rparr>
      in if hit then (VResult \<lparr>Allowed = True, DeniedCategory = []\<rparr> False None, c1)
         else (case beginValidation c1 key of
                 ((Some call, leader, ok), c2) \<Rightarrow>
                   if \<not> ok then (VResult noDecision True (Some errGatewayAccessLimitReached), c2)
                   else (if leader then VLead call else VFollow call, c2)
               | ((None, leader, ok), c2) \<Rightarrow>
                   (VResult noDecision True (Some errGatewayAccessLimitReached), c2)))"

definition validate_answer ::
  "bool \<Rightarrow> accessController \<Rightarrow> gatewayAuthorizationKey \<Rightarrow> nat \<Rightarrow> gatewayAccessDecision
   \<Rightarrow> access_error option \<Rightarrow> time \<Rightarrow> gatewayAuthorizationKey list
   \<Rightarrow> validation_phase \<times> accessController" where
  "validate_answer cached c key call decision err now order =
     (VAnswered call decision err,
      if cached \<and> err = None \<and> Allowed decision
      then c\<lparr>cache := MarkAllowed (cache c) key now order\<rparr> else c)"

definition validate_finish ::
  "accessController \<Rightarrow> gatewayAuthorizationKey \<Rightarrow> nat \<Rightarrow> gatewayAccessDecision
   \<Rightarrow> access_error option \<Rightarrow> validation_phase \<times> accessController" where
  "validate_finish c key call decision err =
     (VResult decision False err, finishValidation c key call decision err)"

text \<open>A follower's \<open>select\<close>: the call's result once it is done, or the canceled request.\<close>

definition validate_await_done :: "accessController \<Rightarrow> nat \<Rightarrow> validation_phase option" where
  "validate_await_done c call =
     (case fmlookup (callStore c) call of
        Some v \<Rightarrow> if call_done v then Some (VResult (call_decision v) False (call_err v)) else None
      | None \<Rightarrow> None)"

definition validate_await_canceled :: validation_phase where
  "validate_await_canceled = VResult noDecision False (Some contextDone)"

section \<open>Reservations: the counters agree with what is held\<close>

text \<open>
  The reservations handed out so far, released or not, by the number of the request that holds
  them. A step is one reservation granted or one \<open>Release\<close>, which a holder may repeat.
\<close>

datatype held = HeldPublic gatewayPublicReservation | HeldRequest gatewayRequestReservation

fun held_open :: "held \<Rightarrow> bool" where
  "held_open (HeldPublic r) = (\<not> public_released r)"
| "held_open (HeldRequest r) = (\<not> request_released r)"

fun held_endpoint :: "gatewayPublicEndpointKey \<Rightarrow> held \<Rightarrow> bool" where
  "held_endpoint key (HeldPublic r) = (\<not> public_released r \<and> public_key r = key)"
| "held_endpoint key (HeldRequest r) = False"

fun held_ip :: "string \<Rightarrow> held \<Rightarrow> bool" where
  "held_ip ip (HeldPublic r) = (\<not> public_released r \<and> public_ip r = ip)"
| "held_ip ip (HeldRequest r) = False"

fun held_session :: "string \<Rightarrow> held \<Rightarrow> bool" where
  "held_session sid (HeldPublic r) = False"
| "held_session sid (HeldRequest r) =
     (\<not> request_released r \<and> request_sessionID r \<noteq> [] \<and> request_sessionID r = sid)"

inductive access_step ::
  "accessController \<times> (nat, held) fmap \<Rightarrow> accessController \<times> (nat, held) fmap \<Rightarrow> bool" where
  reserve_public: "reservePublic (Some c) site cs ep ip = Inr (r, c') \<Longrightarrow> fmlookup h i = None \<Longrightarrow>
    access_step (c, h) (c', fmupd i (HeldPublic r) h)"
| reserve_request: "ReserveRequest (Some c) = Inr (q, c') \<Longrightarrow> fmlookup h i = None \<Longrightarrow>
    access_step (c, h) (c', fmupd i (HeldRequest q) h)"
| reserve_session: "sid \<noteq> [] \<Longrightarrow> reserveSessionRequest (Some c) sid = Inr (q, c') \<Longrightarrow>
    fmlookup h i = None \<Longrightarrow> access_step (c, h) (c', fmupd i (HeldRequest q) h)"
| release_public: "fmlookup h i = Some (HeldPublic r) \<Longrightarrow>
    releasePublic c (Some r) = (c', Some r') \<Longrightarrow> access_step (c, h) (c', fmupd i (HeldPublic r') h)"
| release_request: "fmlookup h i = Some (HeldRequest q) \<Longrightarrow>
    releaseRequest c (Some q) = (c', Some q') \<Longrightarrow> access_step (c, h) (c', fmupd i (HeldRequest q') h)"

definition access_init :: "accessConfig \<Rightarrow> accessController \<times> (nat, held) fmap \<Rightarrow> bool" where
  "access_init cfg s \<longleftrightarrow> s = (newAccessController cfg, fmempty)"

abbreviation number_held :: "(nat, held) fmap \<Rightarrow> (held \<Rightarrow> bool) \<Rightarrow> int" where
  "number_held h P \<equiv> entries_with h (\<lambda>_. P)"

definition held_counted :: "accessController \<Rightarrow> (nat, held) fmap \<Rightarrow> bool" where
  "held_counted c h \<longleftrightarrow>
     totalInflight c = number_held h held_open \<and>
     gocounter.counts (publicEndpoint c) (\<lambda>key. number_held h (held_endpoint key)) \<and>
     gocounter.counts (publicIP c) (\<lambda>ip. number_held h (held_ip ip)) \<and>
     gocounter.counts (sessionInflight c) (\<lambda>sid. number_held h (held_session sid))"

definition held_bounded :: "accessConfig \<Rightarrow> (nat, held) fmap \<Rightarrow> bool" where
  "held_bounded cfg h \<longleftrightarrow>
     number_held h held_open \<le> max 0 (MaxInflightTotal cfg) \<and>
     (\<forall>key. number_held h (held_endpoint key) \<le> max 0 (PublicMaxConnectionsPerEndpoint cfg)) \<and>
     (\<forall>ip. number_held h (held_ip ip) \<le> max 0 (PublicMaxConnectionsPerIP cfg)) \<and>
     (\<forall>sid. number_held h (held_session sid) \<le> max 0 (MaxInflightPerSession cfg))"

definition access_inv :: "accessConfig \<Rightarrow> accessController \<times> (nat, held) fmap \<Rightarrow> bool" where
  "access_inv cfg s \<longleftrightarrow>
     MaxInflightTotal (Config (fst s)) = MaxInflightTotal cfg \<and>
     PublicMaxConnectionsPerEndpoint (Config (fst s)) = PublicMaxConnectionsPerEndpoint cfg \<and>
     PublicMaxConnectionsPerIP (Config (fst s)) = PublicMaxConnectionsPerIP cfg \<and>
     MaxInflightPerSession (Config (fst s)) = MaxInflightPerSession cfg \<and>
     held_counted (fst s) (snd s) \<and> held_bounded cfg (snd s)"

lemma counts_same: "gocounter.counts m f \<Longrightarrow> (\<And>j. g j = f j) \<Longrightarrow> gocounter.counts m g"
  by (rule gocounter.counts_cong)

lemma counted_reads:
  assumes "held_counted c h"
  shows "totalInflight c = number_held h held_open"
    and "counter_get (publicEndpoint c) key = number_held h (held_endpoint key)"
    and "counter_get (publicIP c) ip = number_held h (held_ip ip)"
    and "counter_get (sessionInflight c) sid = number_held h (held_session sid)"
  using assms by (auto simp: held_counted_def gocounter.counts_def)

lemma reserve_public_inv:
  assumes "access_inv cfg (c, h)" and "reservePublic (Some c) site cs ep ip = Inr (r, c')"
    and "fmlookup h i = None"
  shows "access_inv cfg (c', fmupd i (HeldPublic r) h)"
proof -
  let ?key = "\<lparr>publicSiteUID = site, publicCodespaceUUID = cs, publicEndpointID = ep\<rparr>"
  have r: "r = \<lparr>public_key = ?key, public_ip = ip, public_released = False\<rparr>"
    and c': "c' = c\<lparr>totalInflight := totalInflight c + 1,
                    publicEndpoint := counter_inc (publicEndpoint c) ?key,
                    publicIP := counter_inc (publicIP c) ip\<rparr>"
    and room: "totalInflight c < MaxInflightTotal (Config c)"
      "counter_get (publicEndpoint c) ?key < PublicMaxConnectionsPerEndpoint (Config c)"
      "counter_get (publicIP c) ip < PublicMaxConnectionsPerIP (Config c)"
    using assms(2) by (auto simp: reservePublic_def Let_def split: if_splits)
  have counted: "held_counted c h" and bounded: "held_bounded cfg h"
    using assms(1) by (simp_all add: access_inv_def)
  have "held_counted c' (fmupd i (HeldPublic r) h)"
    using counted assms(3) unfolding held_counted_def c' r
    by (auto simp: entries_with_upd intro: gocounter.counts_inc counts_same)
  moreover have "held_bounded cfg (fmupd i (HeldPublic r) h)"
    using bounded room assms(1,3) r counted_reads [OF counted]
    by (auto simp: held_bounded_def access_inv_def entries_with_upd)
  ultimately show ?thesis using assms(1) by (simp add: access_inv_def c')
qed

lemma reserve_request_inv:
  assumes "access_inv cfg (c, h)" and "ReserveRequest (Some c) = Inr (q, c')" and "fmlookup h i = None"
  shows "access_inv cfg (c', fmupd i (HeldRequest q) h)"
proof -
  have q: "q = \<lparr>request_sessionID = [], request_released = False\<rparr>"
    and c': "c' = c\<lparr>totalInflight := totalInflight c + 1\<rparr>"
    and room: "totalInflight c < MaxInflightTotal (Config c)"
    using assms(2) by (auto simp: ReserveRequest_def split: if_splits)
  have counted: "held_counted c h" and bounded: "held_bounded cfg h"
    using assms(1) by (simp_all add: access_inv_def)
  have "held_counted c' (fmupd i (HeldRequest q) h)"
    using counted assms(3) unfolding held_counted_def c' q
    by (auto simp: entries_with_upd intro: counts_same)
  moreover have "held_bounded cfg (fmupd i (HeldRequest q) h)"
    using bounded room assms(1,3) q counted_reads [OF counted]
    by (auto simp: held_bounded_def access_inv_def entries_with_upd)
  ultimately show ?thesis using assms(1) by (simp add: access_inv_def c')
qed

lemma reserve_session_inv:
  assumes "access_inv cfg (c, h)" and "sid \<noteq> []"
    and "reserveSessionRequest (Some c) sid = Inr (q, c')" and "fmlookup h i = None"
  shows "access_inv cfg (c', fmupd i (HeldRequest q) h)"
proof -
  have q: "q = \<lparr>request_sessionID = sid, request_released = False\<rparr>"
    and c': "c' = c\<lparr>totalInflight := totalInflight c + 1,
                    sessionInflight := counter_inc (sessionInflight c) sid\<rparr>"
    and room: "totalInflight c < MaxInflightTotal (Config c)"
      "counter_get (sessionInflight c) sid < MaxInflightPerSession (Config c)"
    using assms(3) by (auto simp: reserveSessionRequest_def split: if_splits)
  have counted: "held_counted c h" and bounded: "held_bounded cfg h"
    using assms(1) by (simp_all add: access_inv_def)
  have "held_counted c' (fmupd i (HeldRequest q) h)"
    using counted assms(2,4) unfolding held_counted_def c' q
    by (auto simp: entries_with_upd intro: gocounter.counts_inc counts_same)
  moreover have "held_bounded cfg (fmupd i (HeldRequest q) h)"
    using bounded room assms(1,2,4) q counted_reads [OF counted]
    by (auto simp: held_bounded_def access_inv_def entries_with_upd)
  ultimately show ?thesis using assms(1) by (simp add: access_inv_def c')
qed

text \<open>Closing a reservation raises none of the counts.\<close>

lemma held_bounded_close:
  assumes "held_bounded cfg h" and "fmlookup h i = Some x"
    and "held_open y \<Longrightarrow> held_open x" and "\<And>key. held_endpoint key y \<Longrightarrow> held_endpoint key x"
    and "\<And>ip. held_ip ip y \<Longrightarrow> held_ip ip x" and "\<And>sid. held_session sid y \<Longrightarrow> held_session sid x"
  shows "held_bounded cfg (fmupd i y h)"
proof -
  have le: "number_held (fmupd i y h) P \<le> number_held h P" if "P y \<Longrightarrow> P x" for P
    by (rule entries_with_upd_le [OF assms(2)]) (rule that)
  show ?thesis
    using assms(1) le [of held_open, OF assms(3)] le [of "held_endpoint _", OF assms(4)]
      le [of "held_ip _", OF assms(5)] le [of "held_session _", OF assms(6)]
    unfolding held_bounded_def by (intro conjI allI) (blast intro: order_trans)+
qed

lemma release_public_inv:
  assumes "access_inv cfg (c, h)" and "fmlookup h i = Some (HeldPublic r)"
    and "releasePublic c (Some r) = (c', Some r')"
  shows "access_inv cfg (c', fmupd i (HeldPublic r') h)"
proof (cases "public_released r")
  case True
  with assms show ?thesis by (simp add: releasePublic_def fmupd_same)
next
  case False
  with assms(3) have r': "r' = r\<lparr>public_released := True\<rparr>"
    and c': "c' = c\<lparr>totalInflight := totalInflight c - 1,
                    publicEndpoint := counter_dec (publicEndpoint c) (public_key r),
                    publicIP := counter_dec (publicIP c) (public_ip r)\<rparr>"
    by (simp_all add: releasePublic_def)
  have counted: "held_counted c h" and bounded: "held_bounded cfg h"
    using assms(1) by (simp_all add: access_inv_def)
  have pos: "0 < number_held h (held_endpoint (public_key r))" "0 < number_held h (held_ip (public_ip r))"
    by (rule entries_with_pos [OF assms(2)], simp add: False)+
  have "held_counted c' (fmupd i (HeldPublic r') h)"
    using counted assms(2) False pos unfolding held_counted_def c' r'
    by (auto simp: entries_with_upd intro: gocounter.counts_dec counts_same)
  moreover have "held_bounded cfg (fmupd i (HeldPublic r') h)"
    by (rule held_bounded_close [OF bounded assms(2)]) (simp_all add: r')
  ultimately show ?thesis using assms(1) by (simp add: access_inv_def c')
qed

lemma release_request_inv:
  assumes "access_inv cfg (c, h)" and "fmlookup h i = Some (HeldRequest q)"
    and "releaseRequest c (Some q) = (c', Some q')"
  shows "access_inv cfg (c', fmupd i (HeldRequest q') h)"
proof (cases "request_released q")
  case True
  with assms show ?thesis by (simp add: releaseRequest_def fmupd_same)
next
  case False
  with assms(3) have q': "q' = q\<lparr>request_released := True\<rparr>"
    and c': "c' = (if request_sessionID q \<noteq> []
      then c\<lparr>totalInflight := totalInflight c - 1,
              sessionInflight := counter_dec (sessionInflight c) (request_sessionID q)\<rparr>
      else c\<lparr>totalInflight := totalInflight c - 1\<rparr>)"
    by (auto simp: releaseRequest_def Let_def)
  have counted: "held_counted c h" and bounded: "held_bounded cfg h"
    using assms(1) by (simp_all add: access_inv_def)
  have pos: "request_sessionID q \<noteq> [] \<Longrightarrow> 0 < number_held h (held_session (request_sessionID q))"
    by (rule entries_with_pos [OF assms(2)]) (simp add: False)
  have "held_counted c' (fmupd i (HeldRequest q') h)"
    using counted assms(2) False pos unfolding held_counted_def c' q'
    by (auto simp: entries_with_upd intro: gocounter.counts_dec counts_same)
  moreover have "held_bounded cfg (fmupd i (HeldRequest q') h)"
    by (rule held_bounded_close [OF bounded assms(2)]) (simp_all add: q')
  ultimately show ?thesis using assms(1) by (auto simp: access_inv_def c')
qed

interpretation admission: safe_machine "access_init cfg" access_step "access_inv cfg"
proof unfold_locales
  fix s
  show "access_init cfg s \<Longrightarrow> access_inv cfg s"
    by (auto simp: access_init_def access_inv_def held_counted_def held_bounded_def
        newAccessController_def Let_def gocounter.counts_empty)
next
  fix s t
  assume inv: "access_inv cfg s" and step: "access_step s t"
  from step inv show "access_inv cfg t"
    by cases (auto intro: reserve_public_inv reserve_request_inv reserve_session_inv
        release_public_inv release_request_inv)
qed

section \<open>Properties\<close>

text \<open>at every moment the counters are exactly the reservations that have been granted and not
  released, in all, per public endpoint, per address and per session, none of them exceeds its
  configured limit, and releasing a reservation twice counts once.\<close>

theorem reservations_exact:
  assumes "reachable (access_init cfg) access_step (c, h)"
  shows "totalInflight c = number_held h held_open \<and>
    (\<forall>key. counter_get (publicEndpoint c) key = number_held h (held_endpoint key)) \<and>
    (\<forall>ip. counter_get (publicIP c) ip = number_held h (held_ip ip)) \<and>
    (\<forall>sid. counter_get (sessionInflight c) sid = number_held h (held_session sid)) \<and>
    held_bounded cfg h"
  using admission.reachable_inv [OF assms] counted_reads [of c h] by (simp add: access_inv_def)

text \<open>when every reservation has been released, the controller is as idle as a new one: every
  request is admitted again as long as the limits are positive.\<close>

theorem reservations_drain:
  assumes "reachable (access_init cfg) access_step (c, h)"
    and "\<forall>i x. fmlookup h i = Some x \<longrightarrow> \<not> held_open x"
    and "0 < MaxInflightTotal cfg" and "0 < PublicMaxConnectionsPerEndpoint cfg"
    and "0 < PublicMaxConnectionsPerIP cfg" and "0 < MaxInflightPerSession cfg"
  shows "totalInflight c = 0 \<and> (\<exists>r c'. reservePublic (Some c) site cs ep ip = Inr (r, c')) \<and>
    (\<exists>q c'. reserveSessionRequest (Some c) sid = Inr (q, c')) \<and> (\<exists>q c'. ReserveRequest (Some c) = Inr (q, c'))"
proof -
  have inv: "access_inv cfg (c, h)" by (rule admission.reachable_inv [OF assms(1)])
  then have counted: "held_counted c h" by (simp add: access_inv_def)
  have "entries_with h (\<lambda>_. P) = 0" if "\<And>x. P x \<Longrightarrow> held_open x" for P
    using assms(2) that by (auto simp: entries_with_def)
  moreover have "held_endpoint key x \<Longrightarrow> held_open x" "held_ip ip x \<Longrightarrow> held_open x"
    "held_session sid x \<Longrightarrow> held_open x" for key ip sid x
    by (cases x; simp)+
  ultimately have "totalInflight c = 0" "counter_get (publicEndpoint c) key = 0"
    "counter_get (publicIP c) ip = 0" "counter_get (sessionInflight c) sid = 0" for key ip sid
    using counted_reads [OF counted] by simp_all
  then show ?thesis
    using inv assms(3-6)
    by (simp add: access_inv_def reservePublic_def reserveSessionRequest_def ReserveRequest_def Let_def)
qed

section \<open>Concrete instances\<close>

definition sample_admission :: accessConfig where
  "sample_admission =
     \<lparr>AllowedTTL = second, StreamRevalidateInterval = minute, MaxInflightTotal = 4,
      MaxInflightPerSession = 2, PublicMaxConnectionsPerEndpoint = 2, PublicMaxConnectionsPerIP = 1,
      ValidationMaxInflight = 1\<rparr>"

definition sample_admitted :: "accessController \<times> (nat, held) fmap" where
  "sample_admitted =
     ((newAccessController sample_admission)\<lparr>totalInflight := 1,
        sessionInflight := fmupd ''sid'' 1 fmempty\<rparr>,
      fmupd 0 (HeldRequest \<lparr>request_sessionID = ''sid'', request_released = False\<rparr>) fmempty)"

definition sample_released :: "accessController \<times> (nat, held) fmap" where
  "sample_released =
     (newAccessController sample_admission,
      fmupd 0 (HeldRequest \<lparr>request_sessionID = ''sid'', request_released = True\<rparr>) fmempty)"

lemma sample_admitted_reachable:
  "reachable (access_init sample_admission) access_step
     (fst sample_admitted, snd sample_admitted)"
proof (rule reach_step [OF reach_init])
  show "access_init sample_admission (newAccessController sample_admission, fmempty)"
    by (simp add: access_init_def)
  show "access_step (newAccessController sample_admission, fmempty) (fst sample_admitted, snd sample_admitted)"
    unfolding sample_admitted_def fst_conv snd_conv
    by (rule access_step.reserve_session [where sid = "''sid''"])
      (simp_all add: reserveSessionRequest_def newAccessController_def sample_admission_def duration_units
        counter_get_def counter_inc_def)
qed

lemma sample_released_reachable:
  "reachable (access_init sample_admission) access_step (fst sample_released, snd sample_released)"
proof (rule reach_step [OF sample_admitted_reachable])
  let ?q = "\<lparr>request_sessionID = ''sid'', request_released = False\<rparr>"
  have "access_step (fst sample_admitted, snd sample_admitted)
      (newAccessController sample_admission, fmupd 0 (HeldRequest (?q\<lparr>request_released := True\<rparr>)) (snd sample_admitted))"
    by (rule access_step.release_request [where q = ?q])
      (simp_all add: sample_admitted_def releaseRequest_def newAccessController_def sample_admission_def
        duration_units counter_dec_def counter_get_def fmdrop_fmupd_same)
  then show "access_step (fst sample_admitted, snd sample_admitted) (fst sample_released, snd sample_released)"
    by (simp add: sample_released_def sample_admitted_def)
qed

theorem reservations_exact_witness:
  "totalInflight (fst sample_admitted) = number_held (snd sample_admitted) held_open \<and>
    counter_get (sessionInflight (fst sample_admitted)) ''sid'' = number_held (snd sample_admitted) (held_session ''sid'') \<and>
    held_bounded sample_admission (snd sample_admitted)"
  using reservations_exact [OF sample_admitted_reachable] by blast

theorem reservations_drain_witness:
  "totalInflight (fst sample_released) = 0 \<and>
    (\<exists>r c'. reservePublic (Some (fst sample_released)) ''site'' ''cs'' ''web'' ''10.0.0.1'' = Inr (r, c'))"
  using reservations_drain [OF sample_released_reachable, of "''site''" "''cs''" "''web''" "''10.0.0.1''"]
  by (simp add: sample_released_def sample_admission_def)

end
