(* ===== verification/Access_Validation.thy ===== *)
theory Access_Validation
  imports Access_Control
begin

text \<open>
  The concurrent behaviour of \<open>validateAccess\<close> and \<open>validateAccessUncached\<close>
  (\<open>internal/gateway/access_cache.go\<close>): any number of requests interleave at the points where the
  functions hold no lock. The invariants say that at most one request leads the call of a key, that
  the number of running calls is the counter the code keeps and stays within its limit, that the
  cache is bounded, and that a request is told \<open>Allowed\<close> only on the strength of an answer the
  control plane gave for exactly its key.
\<close>

section \<open>Single-flight validation\<close>

text \<open>
  Any number of concurrent requests over one controller. \<open>vs_callkey\<close>, \<open>vs_answers\<close> and
  \<open>vs_grants\<close> are history, written and never read by the steps: the key each call was started
  for, the answers the control plane gave, and the times at which a positive answer was put into the
  cache.
\<close>

record validation_request =
  req_key :: gatewayAuthorizationKey
  req_cached :: bool
  req_phase :: validation_phase

text \<open>The four entry points: which key a request validates and whether it may use the cache.\<close>

definition ValidatePublicEndpoint :: "string \<Rightarrow> string \<Rightarrow> string \<Rightarrow> validation_request" where
  "ValidatePublicEndpoint siteUID codespaceUUID endpointID =
     \<lparr>req_key = publicAuthorizationKey siteUID codespaceUUID endpointID, req_cached = True,
      req_phase = VIdle\<rparr>"

definition validateEndpointSession :: "string \<Rightarrow> int \<Rightarrow> string \<Rightarrow> string \<Rightarrow> validation_request" where
  "validateEndpointSession siteUID userID codespaceUUID endpointID =
     \<lparr>req_key = endpointAuthorizationKey siteUID userID codespaceUUID endpointID, req_cached = True,
      req_phase = VIdle\<rparr>"

definition revalidatePublicEndpoint :: "string \<Rightarrow> string \<Rightarrow> string \<Rightarrow> validation_request" where
  "revalidatePublicEndpoint siteUID codespaceUUID endpointID =
     \<lparr>req_key = publicAuthorizationKey siteUID codespaceUUID endpointID, req_cached = False,
      req_phase = VIdle\<rparr>"

definition RevalidateEndpointSession :: "string \<Rightarrow> int \<Rightarrow> string \<Rightarrow> string \<Rightarrow> validation_request" where
  "RevalidateEndpointSession siteUID userID codespaceUUID endpointID =
     \<lparr>req_key = endpointAuthorizationKey siteUID userID codespaceUUID endpointID, req_cached = False,
      req_phase = VIdle\<rparr>"

text \<open>A decision for one user or for the public never answers for another.\<close>

lemma entry_keys_distinct:
  "req_key (ValidatePublicEndpoint s cs ep) \<noteq> req_key (validateEndpointSession s' u cs' ep')"
  "req_key (validateEndpointSession s u cs ep) = req_key (validateEndpointSession s' u' cs' ep') \<longleftrightarrow>
     s = s' \<and> u = u' \<and> cs = cs' \<and> ep = ep'"
  by (auto simp: ValidatePublicEndpoint_def validateEndpointSession_def publicAuthorizationKey_def
      endpointAuthorizationKey_def)

record validation_state =
  vs_ctl :: accessController
  vs_reqs :: "nat \<rightharpoonup> validation_request"
  vs_callkey :: "nat \<Rightarrow> gatewayAuthorizationKey"
  vs_answers :: "(gatewayAuthorizationKey \<times> gatewayAccessDecision \<times> access_error option) set"
  vs_grants :: "(gatewayAuthorizationKey \<times> time) set"

definition set_phase :: "validation_state \<Rightarrow> nat \<Rightarrow> validation_request \<Rightarrow> validation_phase \<Rightarrow> validation_state" where
  "set_phase s t r p = s\<lparr>vs_reqs := (vs_reqs s)(t \<mapsto> r\<lparr>req_phase := p\<rparr>)\<rparr>"

inductive validation_step :: "validation_state \<Rightarrow> validation_state \<Rightarrow> bool" where
  arrive: "vs_reqs s t = None \<Longrightarrow>
    validation_step s (s\<lparr>vs_reqs := (vs_reqs s)(t \<mapsto> \<lparr>req_key = key, req_cached = cached, req_phase = VIdle\<rparr>)\<rparr>)"
| enter: "vs_reqs s t = Some r \<Longrightarrow> req_phase r = VIdle \<Longrightarrow>
    validate_enter (req_cached r) (vs_ctl s) (req_key r) now = (p, c) \<Longrightarrow>
    validation_step s (set_phase (s\<lparr>vs_ctl := c,
      vs_callkey := (case p of VLead call \<Rightarrow> (vs_callkey s)(call := req_key r) | _ \<Rightarrow> vs_callkey s)\<rparr>) t r p)"
| answer: "vs_reqs s t = Some r \<Longrightarrow> req_phase r = VLead call \<Longrightarrow> 0 < now \<Longrightarrow>
    set order = fmdom' (allowed (pruneExpiredLocked (cache (vs_ctl s)) now)) \<Longrightarrow>
    validate_answer (req_cached r) (vs_ctl s) (req_key r) call decision err now order = (p, c) \<Longrightarrow>
    validation_step s (set_phase (s\<lparr>vs_ctl := c,
      vs_answers := insert (req_key r, decision, err) (vs_answers s),
      vs_grants := (if req_cached r \<and> err = None \<and> Allowed decision
                    then insert (req_key r, now) (vs_grants s) else vs_grants s)\<rparr>) t r p)"
| finish: "vs_reqs s t = Some r \<Longrightarrow> req_phase r = VAnswered call decision err \<Longrightarrow>
    validate_finish (vs_ctl s) (req_key r) call decision err = (p, c) \<Longrightarrow>
    validation_step s (set_phase (s\<lparr>vs_ctl := c\<rparr>) t r p)"
| follow_done: "vs_reqs s t = Some r \<Longrightarrow> req_phase r = VFollow call \<Longrightarrow>
    validate_await_done (vs_ctl s) call = Some p \<Longrightarrow> validation_step s (set_phase s t r p)"
| follow_canceled: "vs_reqs s t = Some r \<Longrightarrow> req_phase r = VFollow call \<Longrightarrow>
    validation_step s (set_phase s t r validate_await_canceled)"

definition validation_init :: "accessConfig \<Rightarrow> validation_state \<Rightarrow> bool" where
  "validation_init cfg s \<longleftrightarrow>
     vs_ctl s = newAccessController cfg \<and> vs_reqs s = Map.empty \<and> vs_answers s = {} \<and> vs_grants s = {}"

definition leads :: "validation_request \<Rightarrow> nat \<Rightarrow> bool" where
  "leads r call \<longleftrightarrow> req_phase r = VLead call \<or> (\<exists>d e. req_phase r = VAnswered call d e)"

text \<open>The running calls: how many, who leads them, and that every call is running or done.\<close>

definition calls_inv :: "accessConfig \<Rightarrow> validation_state \<Rightarrow> bool" where
  "calls_inv cfg s \<longleftrightarrow>
     (let c = vs_ctl s in
      ValidationMaxInflight (Config c) = ValidationMaxInflight cfg \<and>
      validationInflight c = map_len (validationCalls c) \<and>
      validationInflight c \<le> max 0 (ValidationMaxInflight cfg) \<and>
      (\<forall>key call. fmlookup (validationCalls c) key = Some call \<longrightarrow>
         call < nextCall c \<and> vs_callkey s call = key \<and>
         (\<exists>v. fmlookup (callStore c) call = Some v \<and> \<not> call_done v) \<and>
         (\<exists>t r. vs_reqs s t = Some r \<and> leads r call)) \<and>
      (\<forall>t r call. vs_reqs s t = Some r \<and> leads r call \<longrightarrow>
         fmlookup (validationCalls c) (req_key r) = Some call) \<and>
      (\<forall>t t' r r' call. vs_reqs s t = Some r \<and> vs_reqs s t' = Some r' \<and> leads r call \<and> leads r' call \<longrightarrow>
         t = t') \<and>
      (\<forall>t r call. vs_reqs s t = Some r \<and> req_phase r = VFollow call \<longrightarrow>
         vs_callkey s call = req_key r \<and> call < nextCall c) \<and>
      (\<forall>call < nextCall c. \<exists>v. fmlookup (callStore c) call = Some v \<and>
         (call_done v \<or> fmlookup (validationCalls c) (vs_callkey s call) = Some call)))"

text \<open>Every positive result goes back to a positive answer of the control plane for the same key.\<close>

definition answers_inv :: "validation_state \<Rightarrow> bool" where
  "answers_inv s \<longleftrightarrow>
     (\<forall>call v. fmlookup (callStore (vs_ctl s)) call = Some v \<and> call_done v \<longrightarrow>
        (vs_callkey s call, call_decision v, call_err v) \<in> vs_answers s) \<and>
     (\<forall>t r call d e. vs_reqs s t = Some r \<and> req_phase r = VAnswered call d e \<longrightarrow>
        (req_key r, d, e) \<in> vs_answers s) \<and>
     (\<forall>t r d l. vs_reqs s t = Some r \<and> req_phase r = VResult d l None \<and> Allowed d \<longrightarrow>
        (\<exists>d'. (req_key r, d', None) \<in> vs_answers s \<and> Allowed d')) \<and>
     (\<forall>key now. (key, now) \<in> vs_grants s \<longrightarrow> (\<exists>d. (key, d, None) \<in> vs_answers s \<and> Allowed d))"

definition cache_inv :: "validation_state \<Rightarrow> bool" where
  "cache_inv s \<longleftrightarrow>
     (let k = cache (vs_ctl s) in
      0 < cache_ttl k \<and> 0 < cache_maxKeys k \<and> map_len (allowed k) \<le> cache_maxKeys k \<and>
      (\<forall>key e. fmlookup (allowed k) key = Some e \<longrightarrow> e \<noteq> zero_time \<and> (key, e - cache_ttl k) \<in> vs_grants s))"

definition validation_inv :: "accessConfig \<Rightarrow> validation_state \<Rightarrow> bool" where
  "validation_inv cfg s \<longleftrightarrow> calls_inv cfg s \<and> answers_inv s \<and> cache_inv s"

subsection \<open>The cache\<close>

lemma oldest_scan_min:
  assumes "\<forall>key e. fmlookup m key = Some e \<longrightarrow> e \<noteq> zero_time"
    and "(\<exists>key \<in> set order. fmlookup m key \<noteq> None) \<or> oldest \<noteq> zero_time"
    and "oldest \<noteq> zero_time \<longrightarrow> (\<exists>k. oldestKey = Some k \<and> fmlookup m k = Some oldest)"
  shows "\<exists>k e. oldest_scan m order (oldestKey, oldest) = (Some k, e) \<and> fmlookup m k = Some e \<and>
    (oldest \<noteq> zero_time \<longrightarrow> e \<le> oldest) \<and>
    (\<forall>j \<in> set order. \<forall>e'. fmlookup m j = Some e' \<longrightarrow> e \<le> e')"
  using assms
proof (induction order arbitrary: oldestKey oldest)
  case Nil
  then show ?case by auto
next
  case (Cons key rest)
  show ?case
  proof (cases "fmlookup m key")
    case None
    with Cons.prems Cons.IH [of oldest oldestKey] show ?thesis by auto
  next
    case (Some expires)
    let ?better = "oldest = zero_time \<or> expires < oldest"
    let ?best = "if ?better then (Some key, expires) else (oldestKey, oldest)"
    have "snd ?best \<noteq> zero_time" "\<exists>k. fst ?best = Some k \<and> fmlookup m k = Some (snd ?best)"
      using Some Cons.prems by auto
    then obtain k e where "oldest_scan m rest (fst ?best, snd ?best) = (Some k, e)"
      "fmlookup m k = Some e" "e \<le> snd ?best" "\<forall>j \<in> set rest. \<forall>e'. fmlookup m j = Some e' \<longrightarrow> e \<le> e'"
      using Cons.IH [of "snd ?best" "fst ?best"] Cons.prems(1) by blast
    with Some show ?thesis by (auto split: if_splits)
  qed
qed

lemma pruneOldestLocked_len:
  assumes "\<forall>key e. fmlookup (allowed c) key = Some e \<longrightarrow> e \<noteq> zero_time"
    and "set order = fmdom' (allowed c)" and "0 < map_len (allowed c)"
  shows "map_len (allowed (pruneOldestLocked c order)) = map_len (allowed c) - 1"
proof -
  have "fmdom' (allowed c) \<noteq> {}"
    using assms(3) by (auto simp: map_len_def fmdom'_alt_def fcard.rep_eq)
  then have "\<exists>key \<in> set order. fmlookup (allowed c) key \<noteq> None"
    using assms(2) by (auto simp: fmlookup_dom'_iff)
  then obtain k e where "oldest_scan (allowed c) order (None, zero_time) = (Some k, e)"
    "fmlookup (allowed c) k = Some e"
    using oldest_scan_min [OF assms(1), of order zero_time None] by auto
  with assms(1) show ?thesis by (simp add: pruneOldestLocked_def map_len_drop)
qed

lemma prune_sub:
  "fmlookup (allowed (pruneExpiredLocked c now)) key = Some e \<Longrightarrow> fmlookup (allowed c) key = Some e"
  "fmlookup (allowed (pruneOldestLocked c order)) key = Some e \<Longrightarrow> fmlookup (allowed c) key = Some e"
  by (auto simp: pruneExpiredLocked_def pruneOldestLocked_def split: option.splits if_splits prod.splits)

lemma prune_consts [simp]:
  "cache_ttl (pruneExpiredLocked c now) = cache_ttl c"
  "cache_ttl (pruneOldestLocked c order) = cache_ttl c"
  "cache_maxKeys (pruneExpiredLocked c now) = cache_maxKeys c"
  "cache_maxKeys (pruneOldestLocked c order) = cache_maxKeys c"
  by (auto simp: pruneExpiredLocked_def pruneOldestLocked_def split: option.splits prod.splits)

lemma MarkAllowed_consts [simp]:
  "cache_ttl (MarkAllowed c key now order) = cache_ttl c"
  "cache_maxKeys (MarkAllowed c key now order) = cache_maxKeys c"
  by (auto simp: MarkAllowed_def Let_def)

lemma MarkAllowed_lookup:
  "fmlookup (allowed (MarkAllowed c key now order)) k = Some e \<Longrightarrow>
     k = key \<and> e = now + cache_ttl c \<or> fmlookup (allowed c) k = Some e"
  by (auto simp: MarkAllowed_def Let_def split: if_splits dest: prune_sub)

lemma MarkAllowed_len:
  assumes "0 < cache_maxKeys c" and "map_len (allowed c) \<le> cache_maxKeys c"
    and "\<forall>key e. fmlookup (allowed c) key = Some e \<longrightarrow> e \<noteq> zero_time"
    and "set order = fmdom' (allowed (pruneExpiredLocked c now))"
  shows "map_len (allowed (MarkAllowed c key now order)) \<le> cache_maxKeys c"
proof -
  let ?p = "pruneExpiredLocked c now"
  have p: "map_len (allowed ?p) \<le> map_len (allowed c)"
    by (simp add: pruneExpiredLocked_def map_len_filter)
  have nz: "\<forall>key e. fmlookup (allowed ?p) key = Some e \<longrightarrow> e \<noteq> zero_time"
    using assms(3) by (auto dest: prune_sub(1))
  have "map_len (allowed (pruneOldestLocked ?p order)) = map_len (allowed ?p) - 1"
    if "cache_maxKeys c \<le> map_len (allowed ?p)"
    using that assms(1) by (intro pruneOldestLocked_len [OF nz assms(4)]) simp
  then show ?thesis
    using assms(1,2) p by (auto simp: MarkAllowed_def Let_def map_len_upd)
qed

lemma cache_IsAllowed_cases:
  assumes "cache_IsAllowed c key now = (hit, c')"
  shows "hit \<and> c' = c \<and> (\<exists>e. fmlookup (allowed c) key = Some e \<and> now < e) \<or>
    \<not> hit \<and> (c' = c \<or> c' = c\<lparr>allowed := fmdrop key (allowed c)\<rparr>)"
  using assms by (auto simp: cache_IsAllowed_def Let_def split: if_splits option.splits)

subsection \<open>Entering a validation\<close>

definition cache_step :: "gatewayAccessCache \<Rightarrow> gatewayAccessCache \<Rightarrow> bool" where
  "cache_step k k' \<longleftrightarrow>
     cache_ttl k' = cache_ttl k \<and> cache_maxKeys k' = cache_maxKeys k \<and>
     map_len (allowed k') \<le> map_len (allowed k) \<and>
     (\<forall>key e. fmlookup (allowed k') key = Some e \<longrightarrow> fmlookup (allowed k) key = Some e)"

lemma cache_step_refl [simp]: "cache_step k k"
  by (simp add: cache_step_def)

lemma cache_IsAllowed_step: "cache_IsAllowed c key now = (hit, c') \<Longrightarrow> cache_step c c'"
  by (auto dest!: cache_IsAllowed_cases simp: cache_step_def map_len_drop split: if_splits)

lemma validate_enter_cases:
  assumes "validate_enter cached c key now = (p, c')"
  obtains
    (hit) e where "cached" "fmlookup (allowed (cache c)) key = Some e" "now < e"
      "p = VResult \<lparr>Allowed = True, DeniedCategory = []\<rparr> False None" "c' = c"
  | (full) k where "p = VResult noDecision True (Some errGatewayAccessLimitReached)"
      "c' = c\<lparr>cache := k\<rparr>" "cache_step (cache c) k"
  | (follow) k call where "fmlookup (validationCalls c) key = Some call" "p = VFollow call"
      "c' = c\<lparr>cache := k\<rparr>" "cache_step (cache c) k"
  | (lead) k where "fmlookup (validationCalls c) key = None"
      "validationInflight c < ValidationMaxInflight (Config c)" "p = VLead (nextCall c)"
      "c' = c\<lparr>cache := k, validationCalls := fmupd key (nextCall c) (validationCalls c),
             validationInflight := validationInflight c + 1,
             callStore := fmupd (nextCall c)
               \<lparr>call_done = False, call_decision = noDecision, call_err = None\<rparr> (callStore c),
             nextCall := Suc (nextCall c)\<rparr>" "cache_step (cache c) k"
proof -
  obtain b k where bk: "(if cached then cache_IsAllowed (cache c) key now else (False, cache c)) = (b, k)"
    by (cases "if cached then cache_IsAllowed (cache c) key now else (False, cache c)")
  have k: "cache_step (cache c) k"
    using bk by (auto split: if_splits intro: cache_IsAllowed_step)
  show ?thesis
  proof (cases b)
    case True
    then have "cached" and h: "cache_IsAllowed (cache c) key now = (True, k)"
      using bk by (auto split: if_splits)
    obtain e where e: "k = cache c" "fmlookup (allowed (cache c)) key = Some e" "now < e"
      using cache_IsAllowed_cases [OF h] by auto
    show ?thesis
    proof (rule hit [OF \<open>cached\<close> e(2,3)])
      show "p = VResult \<lparr>Allowed = True, DeniedCategory = []\<rparr> False None" "c' = c"
        using assms \<open>cached\<close> h e(1) by (simp_all add: validate_enter_def)
    qed
  next
    case False
    show ?thesis
    proof (cases "fmlookup (validationCalls c) key")
      case (Some call)
      show ?thesis
      proof (rule follow [OF Some _ _ k])
        show "p = VFollow call" "c' = c\<lparr>cache := k\<rparr>"
          using assms bk False Some by (simp_all add: validate_enter_def beginValidation_def)
      qed
    next
      case None
      show ?thesis
      proof (cases "validationInflight c \<ge> ValidationMaxInflight (Config c)")
        case True
        show ?thesis
        proof (rule full [OF _ _ k])
          show "p = VResult noDecision True (Some errGatewayAccessLimitReached)" "c' = c\<lparr>cache := k\<rparr>"
            using assms bk False None True by (simp_all add: validate_enter_def beginValidation_def)
        qed
      next
        case notfull: False
        show ?thesis
          by (rule lead [OF None _ _ _ k])
            (use assms bk False None notfull in \<open>simp_all add: validate_enter_def beginValidation_def\<close>)
      qed
    qed
  qed
qed

subsection \<open>Every step keeps the invariant\<close>

lemma set_phase_simps [simp]:
  "vs_ctl (set_phase s t r p) = vs_ctl s" "vs_callkey (set_phase s t r p) = vs_callkey s"
  "vs_answers (set_phase s t r p) = vs_answers s" "vs_grants (set_phase s t r p) = vs_grants s"
  "vs_reqs (set_phase s t r p) = (vs_reqs s)(t \<mapsto> r\<lparr>req_phase := p\<rparr>)"
  by (simp_all add: set_phase_def)

lemma leader_kept:
  assumes "\<exists>t' r'. reqs t' = Some r' \<and> leads r' call" and "reqs t = Some r"
    and "leads r call \<Longrightarrow> leads r2 call"
  shows "\<exists>t' r'. (reqs(t \<mapsto> r2)) t' = Some r' \<and> leads r' call"
  using assms by (metis fun_upd_apply option.inject)

lemma calls_invD:
  assumes "calls_inv cfg s"
  shows "ValidationMaxInflight (Config (vs_ctl s)) = ValidationMaxInflight cfg"
    and "validationInflight (vs_ctl s) = map_len (validationCalls (vs_ctl s))"
    and "fmlookup (validationCalls (vs_ctl s)) key = Some call \<Longrightarrow>
      call < nextCall (vs_ctl s) \<and> vs_callkey s call = key \<and>
      (\<exists>v. fmlookup (callStore (vs_ctl s)) call = Some v \<and> \<not> call_done v) \<and>
      (\<exists>t r. vs_reqs s t = Some r \<and> leads r call)"
    and "vs_reqs s t = Some r \<Longrightarrow> leads r call \<Longrightarrow>
      fmlookup (validationCalls (vs_ctl s)) (req_key r) = Some call"
    and "vs_reqs s t = Some r \<Longrightarrow> vs_reqs s t' = Some r' \<Longrightarrow> leads r call \<Longrightarrow> leads r' call \<Longrightarrow> t = t'"
    and "vs_reqs s t = Some r \<Longrightarrow> req_phase r = VFollow call \<Longrightarrow>
      vs_callkey s call = req_key r \<and> call < nextCall (vs_ctl s)"
    and "call < nextCall (vs_ctl s) \<Longrightarrow> \<exists>v. fmlookup (callStore (vs_ctl s)) call = Some v \<and>
      (call_done v \<or> fmlookup (validationCalls (vs_ctl s)) (vs_callkey s call) = Some call)"
    and "validationInflight (vs_ctl s) \<le> max 0 (ValidationMaxInflight cfg)"
  using assms unfolding calls_inv_def Let_def by (simp_all only:) metis+

text \<open>
  The running calls do not change when the controller's call fields stay and every request keeps
  leading what it led; new followers name a call of their own key.
\<close>

lemma calls_inv_reqs:
  assumes inv: "calls_inv cfg s"
    and ctl: "vs_ctl s' = (vs_ctl s)\<lparr>cache := k\<rparr>" "vs_callkey s' = vs_callkey s"
    and led: "\<And>t r c. vs_reqs s t = Some r \<Longrightarrow> leads r c \<Longrightarrow> \<exists>r'. vs_reqs s' t = Some r' \<and> leads r' c"
    and leads: "\<And>t r' c. vs_reqs s' t = Some r' \<Longrightarrow> leads r' c \<Longrightarrow>
      \<exists>r. vs_reqs s t = Some r \<and> leads r c \<and> req_key r = req_key r'"
    and follows: "\<And>t r' c. vs_reqs s' t = Some r' \<Longrightarrow> req_phase r' = VFollow c \<Longrightarrow>
      vs_callkey s c = req_key r' \<and> c < nextCall (vs_ctl s)"
  shows "calls_inv cfg s'"
proof -
  note I = calls_invD [OF inv]
  have ctl': "Config (vs_ctl s') = Config (vs_ctl s)" "validationInflight (vs_ctl s') = validationInflight (vs_ctl s)"
    "validationCalls (vs_ctl s') = validationCalls (vs_ctl s)" "callStore (vs_ctl s') = callStore (vs_ctl s)"
    "nextCall (vs_ctl s') = nextCall (vs_ctl s)" by (simp_all add: ctl)
  have 1: "\<exists>t r. vs_reqs s' t = Some r \<and> leads r c"
    if "fmlookup (validationCalls (vs_ctl s)) key = Some c" for key c
    using I(3) [OF that] led by blast
  have 2: "\<forall>key call. fmlookup (validationCalls (vs_ctl s)) key = Some call \<longrightarrow>
      call < nextCall (vs_ctl s) \<and> vs_callkey s call = key \<and>
      (\<exists>v. fmlookup (callStore (vs_ctl s)) call = Some v \<and> \<not> call_done v) \<and>
      (\<exists>t r. vs_reqs s' t = Some r \<and> leads r call)"
    using I(3) 1 by simp
  have 3: "\<forall>t r call. vs_reqs s' t = Some r \<and> leads r call \<longrightarrow>
      fmlookup (validationCalls (vs_ctl s)) (req_key r) = Some call"
    using leads I(4) by metis
  have 4: "\<forall>t t' r r' call. vs_reqs s' t = Some r \<and> vs_reqs s' t' = Some r' \<and> leads r call \<and> leads r' call \<longrightarrow> t = t'"
    using leads I(5) by blast
  have 5: "\<forall>t r call. vs_reqs s' t = Some r \<and> req_phase r = VFollow call \<longrightarrow>
      vs_callkey s call = req_key r \<and> call < nextCall (vs_ctl s)"
    using follows by blast
  show ?thesis
    unfolding calls_inv_def Let_def ctl' ctl(2) using I(1,2,7,8) 2 3 4 5 by simp
qed

lemma calls_inv_passive:
  assumes inv: "calls_inv cfg s"
    and old: "\<forall>r0. vs_reqs s t = Some r0 \<longrightarrow> (\<forall>call. \<not> leads r0 call)"
    and new: "\<forall>call. \<not> leads r call" "\<forall>call. req_phase r \<noteq> VFollow call"
    and ctl: "vs_ctl s' = (vs_ctl s)\<lparr>cache := k\<rparr>" "vs_callkey s' = vs_callkey s"
      "vs_reqs s' = (vs_reqs s)(t \<mapsto> r)"
  shows "calls_inv cfg s'"
  by (rule calls_inv_reqs [OF inv ctl(1,2)])
    (use old new calls_invD(6) [OF inv] in \<open>auto simp: ctl(3) split: if_splits\<close>)

lemma arrive_inv:
  assumes "validation_inv cfg s" and "vs_reqs s t = None"
  shows "validation_inv cfg
    (s\<lparr>vs_reqs := (vs_reqs s)(t \<mapsto> \<lparr>req_key = key, req_cached = cached, req_phase = VIdle\<rparr>)\<rparr>)"
proof -
  have "calls_inv cfg
    (s\<lparr>vs_reqs := (vs_reqs s)(t \<mapsto> \<lparr>req_key = key, req_cached = cached, req_phase = VIdle\<rparr>)\<rparr>)"
    by (rule calls_inv_passive [where s = s and k = "cache (vs_ctl s)"])
      (use assms in \<open>simp_all add: validation_inv_def leads_def\<close>)
  then show ?thesis
    using assms by (auto simp: validation_inv_def answers_inv_def cache_inv_def)
qed

lemma follow_done_inv:
  assumes "validation_inv cfg s" and "vs_reqs s t = Some r" and "req_phase r = VFollow call"
    and "validate_await_done (vs_ctl s) call = Some p"
  shows "validation_inv cfg (set_phase s t r p)"
proof -
  obtain v where v: "fmlookup (callStore (vs_ctl s)) call = Some v" "call_done v"
    "p = VResult (call_decision v) False (call_err v)"
    using assms(4) by (auto simp: validate_await_done_def split: option.splits if_splits)
  have key: "vs_callkey s call = req_key r"
    using assms(1-3) by (auto simp: validation_inv_def calls_inv_def Let_def)
  have "calls_inv cfg (set_phase s t r p)"
    by (rule calls_inv_passive [where s = s and k = "cache (vs_ctl s)"])
      (use assms v in \<open>simp_all add: validation_inv_def leads_def\<close>)
  moreover have "answers_inv (set_phase s t r p)"
    using assms(1) v key by (auto simp: validation_inv_def answers_inv_def) metis
  ultimately show ?thesis
    using assms(1) by (simp add: validation_inv_def cache_inv_def)
qed

lemma follow_canceled_inv:
  assumes "validation_inv cfg s" and "vs_reqs s t = Some r" and "req_phase r = VFollow call"
  shows "validation_inv cfg (set_phase s t r validate_await_canceled)"
proof -
  have "calls_inv cfg (set_phase s t r validate_await_canceled)"
    by (rule calls_inv_passive [where s = s and k = "cache (vs_ctl s)"])
      (use assms in \<open>simp_all add: validation_inv_def leads_def validate_await_canceled_def\<close>)
  then show ?thesis
    using assms(1)
    by (auto simp: validation_inv_def cache_inv_def answers_inv_def validate_await_canceled_def)
qed

lemma cache_inv_step:
  "cache_inv s \<Longrightarrow> cache_step (cache (vs_ctl s)) (cache (vs_ctl s')) \<Longrightarrow> vs_grants s' = vs_grants s \<Longrightarrow>
     cache_inv s'"
  unfolding cache_inv_def cache_step_def Let_def by (metis order_trans)

lemma enter_lead_calls:
  assumes inv: "calls_inv cfg s" and r: "vs_reqs s t = Some r" "req_phase r = VIdle"
    and none: "fmlookup (validationCalls (vs_ctl s)) (req_key r) = None"
    and room: "validationInflight (vs_ctl s) < ValidationMaxInflight (Config (vs_ctl s))"
    and ctl: "Config (vs_ctl s') = Config (vs_ctl s)"
      "validationCalls (vs_ctl s') = fmupd (req_key r) (nextCall (vs_ctl s)) (validationCalls (vs_ctl s))"
      "validationInflight (vs_ctl s') = validationInflight (vs_ctl s) + 1"
      "callStore (vs_ctl s') = fmupd (nextCall (vs_ctl s)) v (callStore (vs_ctl s))" "\<not> call_done v"
      "nextCall (vs_ctl s') = Suc (nextCall (vs_ctl s))"
      "vs_callkey s' = (vs_callkey s)(nextCall (vs_ctl s) := req_key r)"
      "vs_reqs s' = (vs_reqs s)(t \<mapsto> r\<lparr>req_phase := VLead (nextCall (vs_ctl s))\<rparr>)"
  shows "calls_inv cfg s'"
proof -
  let ?c = "vs_ctl s" and ?n = "nextCall (vs_ctl s)"
  let ?r = "r\<lparr>req_phase := VLead ?n\<rparr>"
  note I = calls_invD [OF inv]
  have old_lead: "leads r' call \<Longrightarrow> vs_reqs s t' = Some r' \<Longrightarrow> call < ?n \<and> t' \<noteq> t" for t' r' call
    using I(3,4) r by (metis leads_def option.inject validation_phase.distinct(1,5))
  have new_lead: "leads ?r call \<longleftrightarrow> call = ?n" for call by (auto simp: leads_def)
  have lead_kept: "\<exists>t r. vs_reqs s' t = Some r \<and> leads r call"
    if "\<exists>t r. vs_reqs s t = Some r \<and> leads r call" for call
    using that old_lead ctl(8) by (metis fun_upd_other)
  have lead_n: "\<exists>t r. vs_reqs s' t = Some r \<and> leads r ?n"
    using ctl(8) new_lead by (metis fun_upd_same)
  have 1: "\<forall>key call. fmlookup (validationCalls (vs_ctl s')) key = Some call \<longrightarrow>
      call < Suc ?n \<and> vs_callkey s' call = key \<and>
      (\<exists>v. fmlookup (callStore (vs_ctl s')) call = Some v \<and> \<not> call_done v) \<and>
      (\<exists>t r. vs_reqs s' t = Some r \<and> leads r call)"
  proof (intro allI impI)
    fix key call
    assume look: "fmlookup (validationCalls (vs_ctl s')) key = Some call"
    show "call < Suc ?n \<and> vs_callkey s' call = key \<and>
      (\<exists>v. fmlookup (callStore (vs_ctl s')) call = Some v \<and> \<not> call_done v) \<and>
      (\<exists>t r. vs_reqs s' t = Some r \<and> leads r call)"
    proof (cases "key = req_key r")
      case True
      with look have "call = ?n" by (simp add: ctl(2))
      with True lead_n ctl(5) show ?thesis by (simp add: ctl(4,7))
    next
      case False
      with look have "fmlookup (validationCalls ?c) key = Some call" by (simp add: ctl(2))
      from I(3) [OF this] lead_kept show ?thesis by (simp add: ctl(4,7))
    qed
  qed
  have 2: "\<forall>t r call. vs_reqs s' t = Some r \<and> leads r call \<longrightarrow>
      fmlookup (validationCalls (vs_ctl s')) (req_key r) = Some call"
    using I(4) none new_lead unfolding ctl(2,8) by (auto split: if_splits)
  have 3: "\<forall>t t' r r' call. vs_reqs s' t = Some r \<and> vs_reqs s' t' = Some r' \<and> leads r call \<and> leads r' call \<longrightarrow> t = t'"
    using I(5) old_lead new_lead unfolding ctl(8) by (auto split: if_splits) blast+
  have 4: "\<forall>t r call. vs_reqs s' t = Some r \<and> req_phase r = VFollow call \<longrightarrow>
      vs_callkey s' call = req_key r \<and> call < Suc ?n"
    using I(6) unfolding ctl(7,8) by (auto split: if_splits dest: less_imp_neq less_SucI)
  have 5: "\<forall>call < Suc ?n. \<exists>v. fmlookup (callStore (vs_ctl s')) call = Some v \<and>
      (call_done v \<or> fmlookup (validationCalls (vs_ctl s')) (vs_callkey s' call) = Some call)"
  proof (intro allI impI)
    fix call assume "call < Suc ?n"
    then consider "call = ?n" | "call < ?n" by linarith
    then show "\<exists>v. fmlookup (callStore (vs_ctl s')) call = Some v \<and>
        (call_done v \<or> fmlookup (validationCalls (vs_ctl s')) (vs_callkey s' call) = Some call)"
    proof cases
      case 1
      then show ?thesis by (simp add: ctl(2,4,7))
    next
      case 2
      from I(7) [OF 2] none 2 show ?thesis by (auto simp: ctl(2,4,7))
    qed
  qed
  show ?thesis
    unfolding calls_inv_def Let_def ctl(1,3,6)
    using 1 2 3 4 5 I(1,2) room none by (simp add: ctl(2) map_len_upd)
qed

lemma enter_follow_calls:
  assumes inv: "calls_inv cfg s" and r: "vs_reqs s t = Some r" "req_phase r = VIdle"
    and some: "fmlookup (validationCalls (vs_ctl s)) (req_key r) = Some call"
    and ctl: "vs_ctl s' = (vs_ctl s)\<lparr>cache := k\<rparr>" "vs_callkey s' = vs_callkey s"
      "vs_reqs s' = (vs_reqs s)(t \<mapsto> r\<lparr>req_phase := VFollow call\<rparr>)"
  shows "calls_inv cfg s'"
proof -
  have "\<not> leads (r\<lparr>req_phase := VFollow call\<rparr>) c" "\<not> leads r c" for c
    using r(2) by (simp_all add: leads_def)
  then show ?thesis
    by (intro calls_inv_reqs [OF inv ctl(1,2)])
      (use r(1) calls_invD(3) [OF inv some] calls_invD(6) [OF inv] in \<open>auto simp: ctl(3) split: if_splits\<close>)
qed

lemma enter_inv:
  assumes inv: "validation_inv cfg s" and r: "vs_reqs s t = Some r" "req_phase r = VIdle"
    and enter: "validate_enter (req_cached r) (vs_ctl s) (req_key r) now = (p, c)"
  shows "validation_inv cfg (set_phase (s\<lparr>vs_ctl := c,
      vs_callkey := (case p of VLead call \<Rightarrow> (vs_callkey s)(call := req_key r) | _ \<Rightarrow> vs_callkey s)\<rparr>) t r p)"
    (is "validation_inv cfg ?s'")
proof -
  have calls: "calls_inv cfg s" and ans: "answers_inv s" and cch: "cache_inv s"
    using inv by (simp_all add: validation_inv_def)
  from enter show ?thesis
  proof (cases rule: validate_enter_cases)
    case (hit e)
    have "(req_key r, e - cache_ttl (cache (vs_ctl s))) \<in> vs_grants s"
      using cch hit(2) by (auto simp: cache_inv_def Let_def)
    then have "\<exists>d. (req_key r, d, None) \<in> vs_answers s \<and> Allowed d"
      using ans by (auto simp: answers_inv_def)
    then have "answers_inv ?s'" using ans hit(4,5) by (auto simp: answers_inv_def)
    moreover have "calls_inv cfg ?s'"
      by (rule calls_inv_passive [OF calls, where k = "cache (vs_ctl s)" and t = t])
        (use r hit in \<open>simp_all add: leads_def\<close>)
    moreover have "cache_inv ?s'" using cch hit(5) by (simp add: cache_inv_def)
    ultimately show ?thesis by (simp add: validation_inv_def)
  next
    case (full k)
    have "calls_inv cfg ?s'"
      by (rule calls_inv_passive [OF calls, where k = k and t = t])
        (use r full in \<open>simp_all add: leads_def\<close>)
    moreover have "answers_inv ?s'" using ans full(1,2) by (auto simp: answers_inv_def)
    moreover have "cache_inv ?s'" using full by (intro cache_inv_step [OF cch]) simp_all
    ultimately show ?thesis by (simp add: validation_inv_def)
  next
    case (follow k call)
    have "calls_inv cfg ?s'"
      by (rule enter_follow_calls [OF calls r follow(1)]) (simp_all add: follow)
    moreover have "answers_inv ?s'" using ans follow(2,3) by (auto simp: answers_inv_def)
    moreover have "cache_inv ?s'" using follow by (intro cache_inv_step [OF cch]) simp_all
    ultimately show ?thesis by (simp add: validation_inv_def)
  next
    case (lead k)
    have old: "fmlookup (callStore (vs_ctl s)) call = Some v \<Longrightarrow> call_done v \<Longrightarrow>
        (vs_callkey s call, call_decision v, call_err v) \<in> vs_answers s" for call v
      using ans by (auto simp: answers_inv_def)
    have "calls_inv cfg ?s'"
      by (rule enter_lead_calls [OF calls r lead(1,2), where
            v = "\<lparr>call_done = False, call_decision = noDecision, call_err = None\<rparr>"])
        (simp_all add: lead)
    moreover have "answers_inv ?s'"
      using ans old by (auto simp: answers_inv_def lead split: if_splits)
    moreover have "cache_inv ?s'" using lead by (intro cache_inv_step [OF cch]) simp_all
    ultimately show ?thesis by (simp add: validation_inv_def)
  qed
qed

lemma answer_inv:
  assumes inv: "validation_inv cfg s" and r: "vs_reqs s t = Some r" "req_phase r = VLead call"
    and now: "0 < now" and order: "set order = fmdom' (allowed (pruneExpiredLocked (cache (vs_ctl s)) now))"
    and answer: "validate_answer (req_cached r) (vs_ctl s) (req_key r) call decision err now order = (p, c)"
  shows "validation_inv cfg (set_phase (s\<lparr>vs_ctl := c,
      vs_answers := insert (req_key r, decision, err) (vs_answers s),
      vs_grants := (if req_cached r \<and> err = None \<and> Allowed decision
                    then insert (req_key r, now) (vs_grants s) else vs_grants s)\<rparr>) t r p)"
    (is "validation_inv cfg ?s'")
proof -
  have calls: "calls_inv cfg s" and ans: "answers_inv s" and cch: "cache_inv s"
    using inv by (simp_all add: validation_inv_def)
  have p: "p = VAnswered call decision err"
    and c: "c = (if req_cached r \<and> err = None \<and> Allowed decision
      then (vs_ctl s)\<lparr>cache := MarkAllowed (cache (vs_ctl s)) (req_key r) now order\<rparr> else vs_ctl s)"
    using answer by (auto simp: validate_answer_def)
  have phase: "leads (r\<lparr>req_phase := p\<rparr>) c' \<longleftrightarrow> leads r c'" for c'
    using r by (simp add: leads_def p)
  have "calls_inv cfg ?s'"
    by (rule calls_inv_reqs [OF calls, where k = "cache c"])
      (use r(1) phase calls_invD(6) [OF calls] in \<open>auto simp: c p split: if_splits\<close>)
  moreover have "answers_inv ?s'"
    using ans by (auto simp: answers_inv_def c p split: if_splits) metis+
  moreover have "cache_inv ?s'"
  proof (cases "req_cached r \<and> err = None \<and> Allowed decision")
    case True
    let ?k = "cache (vs_ctl s)"
    have K: "0 < cache_ttl ?k" "0 < cache_maxKeys ?k" "map_len (allowed ?k) \<le> cache_maxKeys ?k"
      "\<forall>key e. fmlookup (allowed ?k) key = Some e \<longrightarrow> e \<noteq> zero_time \<and> (key, e - cache_ttl ?k) \<in> vs_grants s"
      using cch by (simp_all add: cache_inv_def Let_def)
    have "map_len (allowed (MarkAllowed ?k (req_key r) now order)) \<le> cache_maxKeys ?k"
      using K by (intro MarkAllowed_len [OF _ _ _ order]) blast+
    moreover have "e \<noteq> zero_time \<and> (key, e - cache_ttl ?k) \<in> insert (req_key r, now) (vs_grants s)"
      if "fmlookup (allowed (MarkAllowed ?k (req_key r) now order)) key = Some e" for key e
      using MarkAllowed_lookup [OF that] K now by auto
    ultimately show ?thesis using K True by (simp add: cache_inv_def Let_def c)
  next
    case False
    with cch show ?thesis by (simp add: cache_inv_def c del: de_Morgan_conj)
  qed
  ultimately show ?thesis by (simp add: validation_inv_def)
qed

lemma finish_inv:
  assumes inv: "validation_inv cfg s" and r: "vs_reqs s t = Some r" "req_phase r = VAnswered call decision err"
    and finish: "validate_finish (vs_ctl s) (req_key r) call decision err = (p, c)"
  shows "validation_inv cfg (set_phase (s\<lparr>vs_ctl := c\<rparr>) t r p)" (is "validation_inv cfg ?s'")
proof -
  have calls: "calls_inv cfg s" and ans: "answers_inv s" and cch: "cache_inv s"
    using inv by (simp_all add: validation_inv_def)
  note I = calls_invD [OF calls]
  have p: "p = VResult decision False err" and c: "c = finishValidation (vs_ctl s) (req_key r) call decision err"
    using finish by (simp_all add: validate_finish_def)
  let ?v = "\<lparr>call_done = True, call_decision = decision, call_err = err\<rparr>"
  have lead: "leads r call" by (simp add: leads_def r(2))
  have key: "fmlookup (validationCalls (vs_ctl s)) (req_key r) = Some call" by (rule I(4) [OF r(1) lead])
  then have callkey: "vs_callkey s call = req_key r" using I(3) by blast
  have other: "call' \<noteq> call" if "fmlookup (validationCalls (vs_ctl s)) key' = Some call'" "key' \<noteq> req_key r" for key' call'
    using I(3) that callkey by metis
  have idle: "\<not> leads (r\<lparr>req_phase := p\<rparr>) call'" for call' by (simp add: leads_def p)
  have only: "leads r call' \<longleftrightarrow> call' = call" for call' using r(2) by (auto simp: leads_def)
  have C: "validationCalls c = fmdrop (req_key r) (validationCalls (vs_ctl s))"
    "callStore c = fmupd call ?v (callStore (vs_ctl s))" "nextCall c = nextCall (vs_ctl s)"
    "Config c = Config (vs_ctl s)" "validationInflight c = validationInflight (vs_ctl s) - 1" "cache c = cache (vs_ctl s)"
    by (simp_all add: c finishValidation_def)
  have "calls_inv cfg ?s'"
  proof -
    have 1: "\<forall>key' call'. fmlookup (validationCalls c) key' = Some call' \<longrightarrow>
        call' < nextCall c \<and> vs_callkey s call' = key' \<and>
        (\<exists>v. fmlookup (callStore c) call' = Some v \<and> \<not> call_done v) \<and>
        (\<exists>t r. vs_reqs ?s' t = Some r \<and> leads r call')"
    proof (intro allI impI)
      fix key' call' assume "fmlookup (validationCalls c) key' = Some call'"
      then have k: "key' \<noteq> req_key r" "fmlookup (validationCalls (vs_ctl s)) key' = Some call'"
        by (auto simp: C split: if_splits)
      from other [OF k(2,1)] have ne: "call' \<noteq> call" .
      have "\<exists>t r. vs_reqs ?s' t = Some r \<and> leads r call'"
        using leader_kept [of "vs_reqs s" call' t r "r\<lparr>req_phase := p\<rparr>"] r(1) I(3) [OF k(2)] only ne
        by simp
      with I(3) [OF k(2)] ne show "call' < nextCall c \<and> vs_callkey s call' = key' \<and>
        (\<exists>v. fmlookup (callStore c) call' = Some v \<and> \<not> call_done v) \<and>
        (\<exists>t r. vs_reqs ?s' t = Some r \<and> leads r call')" by (simp add: C)
    qed
    have 2: "\<forall>t' r' call'. vs_reqs ?s' t' = Some r' \<and> leads r' call' \<longrightarrow>
        fmlookup (validationCalls c) (req_key r') = Some call'"
    proof (intro allI impI; elim conjE)
      fix t' r' call' assume a: "vs_reqs ?s' t' = Some r'" "leads r' call'"
      then have t': "t' \<noteq> t" "vs_reqs s t' = Some r'" using idle by (auto split: if_splits)
      have "call' \<noteq> call" using I(5) [OF t'(2) r(1) a(2)] lead t'(1) by blast
      then have "req_key r' \<noteq> req_key r" using I(4) [OF t'(2) a(2)] key by auto
      with I(4) [OF t'(2) a(2)] show "fmlookup (validationCalls c) (req_key r') = Some call'" by (simp add: C)
    qed
    have 3: "\<forall>t t' r r' call. vs_reqs ?s' t = Some r \<and> vs_reqs ?s' t' = Some r' \<and> leads r call \<and> leads r' call \<longrightarrow> t = t'"
      using I(5) idle by (auto split: if_splits)
    have 4: "\<forall>t' r' call'. vs_reqs ?s' t' = Some r' \<and> req_phase r' = VFollow call' \<longrightarrow>
        vs_callkey s call' = req_key r' \<and> call' < nextCall c"
      using I(6) by (auto simp: C p split: if_splits)
    have 5: "\<forall>call' < nextCall c. \<exists>v. fmlookup (callStore c) call' = Some v \<and>
        (call_done v \<or> fmlookup (validationCalls c) (vs_callkey s call') = Some call')"
    proof (intro allI impI)
      fix call' assume "call' < nextCall c"
      then obtain v where v: "fmlookup (callStore (vs_ctl s)) call' = Some v"
        "call_done v \<or> fmlookup (validationCalls (vs_ctl s)) (vs_callkey s call') = Some call'"
        using I(7) [of call'] by (auto simp: C(3))
      show "\<exists>v. fmlookup (callStore c) call' = Some v \<and>
        (call_done v \<or> fmlookup (validationCalls c) (vs_callkey s call') = Some call')"
      proof (cases "call' = call")
        case True
        then show ?thesis by (simp add: C(2))
      next
        case False
        with v(2) key have "call_done v \<or> vs_callkey s call' \<noteq> req_key r" by auto
        with v False show ?thesis by (auto simp: C(1,2))
      qed
    qed
    have 6: "validationInflight c = map_len (validationCalls c)"
      "validationInflight c \<le> max 0 (ValidationMaxInflight cfg)"
      "ValidationMaxInflight (Config c) = ValidationMaxInflight cfg"
      using I(1,2,8) key by (simp_all add: C map_len_drop)
    have s': "vs_ctl ?s' = c" "vs_callkey ?s' = vs_callkey s" by simp_all
    show ?thesis
      unfolding calls_inv_def Let_def s' by (intro conjI) (fact 1 2 3 4 5 6)+
  qed
  moreover have "answers_inv ?s'"
  proof -
    have answered: "(req_key r, decision, err) \<in> vs_answers s"
      using ans r by (auto simp: answers_inv_def)
    then have "\<forall>call' v. fmlookup (callStore c) call' = Some v \<and> call_done v \<longrightarrow>
        (vs_callkey s call', call_decision v, call_err v) \<in> vs_answers s"
      using ans callkey by (auto simp: answers_inv_def C)
    with ans answered show ?thesis by (auto simp: answers_inv_def p)
  qed
  moreover have "cache_inv ?s'" using cch by (simp add: cache_inv_def C)
  ultimately show ?thesis by (simp add: validation_inv_def)
qed

interpretation single_flight: safe_machine "validation_init cfg" validation_step "validation_inv cfg"
proof unfold_locales
  fix s
  show "validation_init cfg s \<Longrightarrow> validation_inv cfg s"
    by (auto simp: validation_init_def validation_inv_def calls_inv_def answers_inv_def cache_inv_def
        newAccessController_def newGatewayAccessCache_def defaultGatewayAccessCacheMaxKeys_def
        duration_units Let_def)
next
  fix s t
  assume inv: "validation_inv cfg s" and step: "validation_step s t"
  from step inv show "validation_inv cfg t"
    by cases (blast intro: arrive_inv enter_inv answer_inv finish_inv follow_done_inv follow_canceled_inv)+
qed

section \<open>Properties\<close>

text \<open>C16: a request is told \<open>Allowed\<close> with no error only if the control plane, asked for exactly
  this key (kind, site, user, codespace, endpoint), answered \<open>Allowed\<close> with no error; waiting
  for another request's call or being served by the cache never widens an authorization.\<close>

theorem validation_result_authorized:
  assumes "reachable (validation_init cfg) validation_step s"
    and "vs_reqs s t = Some r" and "req_phase r = VResult d limited None" and "Allowed d"
  shows "\<exists>d'. (req_key r, d', None) \<in> vs_answers s \<and> Allowed d'"
  using single_flight.reachable_inv [OF assms(1)] assms(2-4)
  by (auto simp: validation_inv_def answers_inv_def)

text \<open>an answer from the cache is at most \<open>cache_ttl\<close> old: the control plane's positive answer
  for the key was recorded at a time less than \<open>cache_ttl\<close> before the request.\<close>

theorem validation_cache_fresh:
  assumes "reachable (validation_init cfg) validation_step s"
    and "cache_IsAllowed (cache (vs_ctl s)) key now = (True, k)"
  shows "\<exists>t. (key, t) \<in> vs_grants s \<and> now < t + cache_ttl (cache (vs_ctl s))"
proof -
  have "cache_inv s" using single_flight.reachable_inv [OF assms(1)] by (simp add: validation_inv_def)
  moreover obtain e where "fmlookup (allowed (cache (vs_ctl s))) key = Some e" "now < e"
    using cache_IsAllowed_cases [OF assms(2)] by auto
  ultimately have "(key, e - cache_ttl (cache (vs_ctl s))) \<in> vs_grants s"
    by (auto simp: cache_inv_def Let_def)
  then show ?thesis using \<open>now < e\<close> by force
qed

text \<open>validation is single-flight and bounded: no two requests lead a call for the same key at the
  same time, the counter \<open>validationInflight\<close> is the number of running calls and never exceeds
  its limit, and the cache never holds more than \<open>cache_maxKeys\<close> keys.\<close>

theorem validation_single_flight:
  assumes "reachable (validation_init cfg) validation_step s"
  shows "(\<forall>t t' r r' call call'. vs_reqs s t = Some r \<and> vs_reqs s t' = Some r' \<and> leads r call \<and>
      leads r' call' \<and> req_key r = req_key r' \<longrightarrow> t = t') \<and>
    validationInflight (vs_ctl s) = map_len (validationCalls (vs_ctl s)) \<and>
    validationInflight (vs_ctl s) \<le> max 0 (ValidationMaxInflight cfg) \<and>
    map_len (allowed (cache (vs_ctl s))) \<le> cache_maxKeys (cache (vs_ctl s))"
proof -
  have calls: "calls_inv cfg s" and cch: "cache_inv s"
    using single_flight.reachable_inv [OF assms] by (simp_all add: validation_inv_def)
  have "t = t'" if "vs_reqs s t = Some r" "vs_reqs s t' = Some r'" "leads r call" "leads r' call'"
    "req_key r = req_key r'" for t t' r r' call call'
    using calls_invD(4) [OF calls that(1,3)] calls_invD(4) [OF calls that(2,4)]
      calls_invD(5) [OF calls that(1,2)] that(3-5) by auto
  moreover have "map_len (allowed (cache (vs_ctl s))) \<le> cache_maxKeys (cache (vs_ctl s))"
    using cch by (simp add: cache_inv_def Let_def)
  ultimately show ?thesis using calls_invD(2,8) [OF calls] by blast
qed

text \<open>no follower waits for nobody: the call it waits for is done, so that its \<open>select\<close> can
  return the result, or a request leads that call and can take its next step.\<close>

theorem validation_follower_progress:
  assumes "reachable (validation_init cfg) validation_step s"
    and "vs_reqs s t = Some r" and "req_phase r = VFollow call"
  shows "(\<exists>p. validate_await_done (vs_ctl s) call = Some p) \<or>
    (\<exists>t' r'. vs_reqs s t' = Some r' \<and> leads r' call \<and> req_key r' = req_key r)"
proof -
  have calls: "calls_inv cfg s"
    using single_flight.reachable_inv [OF assms(1)] by (simp add: validation_inv_def)
  have key: "vs_callkey s call = req_key r" and old: "call < nextCall (vs_ctl s)"
    using calls_invD(6) [OF calls assms(2,3)] by auto
  obtain v where v: "fmlookup (callStore (vs_ctl s)) call = Some v"
    "call_done v \<or> fmlookup (validationCalls (vs_ctl s)) (req_key r) = Some call"
    using calls_invD(7) [OF calls old] key by auto
  show ?thesis
  proof (cases "call_done v")
    case True
    with v(1) show ?thesis by (simp add: validate_await_done_def)
  next
    case False
    with v(2) have running: "fmlookup (validationCalls (vs_ctl s)) (req_key r) = Some call" by simp
    obtain t' r' where "vs_reqs s t' = Some r'" "leads r' call"
      using calls_invD(3) [OF calls running] by blast
    moreover from this have "req_key r' = req_key r"
      using calls_invD(3) [OF calls calls_invD(4) [OF calls]] key by metis
    ultimately show ?thesis by blast
  qed
qed

section \<open>Concrete instances\<close>

text \<open>
  One endpoint key, a limit of one running call, and the run: request 0 arrives and leads a call,
  request 1 arrives and follows it, the control plane answers at time 7, request 0 finishes.
\<close>

definition sample_access :: accessConfig where
  "sample_access =
     \<lparr>AllowedTTL = second, StreamRevalidateInterval = minute, MaxInflightTotal = 4,
      MaxInflightPerSession = 2, PublicMaxConnectionsPerEndpoint = 2, PublicMaxConnectionsPerIP = 1,
      ValidationMaxInflight = 1\<rparr>"

definition sample_key :: gatewayAuthorizationKey where
  "sample_key = endpointAuthorizationKey ''site'' 7 ''cs'' ''web''"

abbreviation sample_request :: "validation_phase \<Rightarrow> validation_request" where
  "sample_request p \<equiv> \<lparr>req_key = sample_key, req_cached = True, req_phase = p\<rparr>"

abbreviation sample_yes :: gatewayAccessDecision where
  "sample_yes \<equiv> \<lparr>Allowed = True, DeniedCategory = []\<rparr>"

definition sample_start :: validation_state where
  "sample_start =
     \<lparr>vs_ctl = newAccessController sample_access, vs_reqs = Map.empty, vs_callkey = (\<lambda>_. sample_key),
      vs_answers = {}, vs_grants = {}\<rparr>"

definition sample_running :: accessController where
  "sample_running =
     (newAccessController sample_access)\<lparr>validationCalls := fmupd sample_key 0 fmempty,
       validationInflight := 1,
       callStore := fmupd 0 \<lparr>call_done = False, call_decision = noDecision, call_err = None\<rparr> fmempty,
       nextCall := 1\<rparr>"

definition sample_followed :: validation_state where
  "sample_followed =
     sample_start\<lparr>vs_ctl := sample_running,
       vs_reqs := [0 \<mapsto> sample_request (VLead 0), 1 \<mapsto> sample_request (VFollow 0)]\<rparr>"

definition sample_answered :: validation_state where
  "sample_answered =
     sample_followed\<lparr>vs_ctl := sample_running\<lparr>cache := (cache sample_running)\<lparr>allowed := fmupd sample_key (7 + second) fmempty\<rparr>\<rparr>,
       vs_reqs := [0 \<mapsto> sample_request (VAnswered 0 sample_yes None), 1 \<mapsto> sample_request (VFollow 0)],
       vs_answers := {(sample_key, sample_yes, None)}, vs_grants := {(sample_key, 7)}\<rparr>"

definition sample_finished :: validation_state where
  "sample_finished =
     set_phase (sample_answered\<lparr>vs_ctl := finishValidation (vs_ctl sample_answered) sample_key 0 sample_yes None\<rparr>)
       0 (sample_request (VAnswered 0 sample_yes None)) (VResult sample_yes False None)"

lemmas sample_defs = sample_start_def sample_running_def sample_followed_def sample_answered_def
  newAccessController_def newGatewayAccessCache_def sample_access_def duration_units

lemma sample_idle_cache: "cache_IsAllowed (cache (newAccessController sample_access)) sample_key now =
    (False, cache (newAccessController sample_access))"
  by (simp add: sample_defs cache_IsAllowed_def sample_key_def endpointAuthorizationKey_def)

lemma sample_running_cache: "cache sample_running = cache (newAccessController sample_access)"
  by (simp add: sample_running_def)

lemma sample_enter_lead:
  "validate_enter True (newAccessController sample_access) sample_key 5 = (VLead 0, sample_running)"
  by (simp add: validate_enter_def sample_idle_cache beginValidation_def)
    (simp add: sample_defs)

lemma sample_enter_follow: "validate_enter True sample_running sample_key 6 = (VFollow 0, sample_running)"
  unfolding validate_enter_def sample_running_cache sample_idle_cache
  by (simp add: beginValidation_def) (simp add: sample_running_def)

lemma sample_followed_reachable: "reachable (validation_init sample_access) validation_step sample_followed"
proof -
  let ?R = "reachable (validation_init sample_access) validation_step"
  have 0: "?R sample_start"
    by (rule reach_init) (simp add: validation_init_def sample_start_def)
  have 1: "?R (sample_start\<lparr>vs_reqs := [0 \<mapsto> sample_request VIdle]\<rparr>)"
    by (rule reach_step [OF 0])
      (use validation_step.arrive [of sample_start 0 sample_key True] in \<open>simp add: sample_start_def\<close>)
  have 2: "?R (sample_start\<lparr>vs_ctl := sample_running, vs_reqs := [0 \<mapsto> sample_request (VLead 0)]\<rparr>)"
    by (rule reach_step [OF 1])
      (use validation_step.enter [of "sample_start\<lparr>vs_reqs := [0 \<mapsto> sample_request VIdle]\<rparr>" 0
          "sample_request VIdle" 5]
        in \<open>simp add: sample_start_def set_phase_def sample_enter_lead fun_upd_idem\<close>)
  have 3: "?R (sample_start\<lparr>vs_ctl := sample_running,
      vs_reqs := [0 \<mapsto> sample_request (VLead 0), 1 \<mapsto> sample_request VIdle]\<rparr>)"
    by (rule reach_step [OF 2])
      (use validation_step.arrive [of "sample_start\<lparr>vs_ctl := sample_running, vs_reqs := [0 \<mapsto> sample_request (VLead 0)]\<rparr>"
          1 sample_key True] in \<open>simp add: sample_start_def\<close>)
  show ?thesis
    by (rule reach_step [OF 3])
      (use validation_step.enter [of "sample_start\<lparr>vs_ctl := sample_running,
          vs_reqs := [0 \<mapsto> sample_request (VLead 0), 1 \<mapsto> sample_request VIdle]\<rparr>" 1 "sample_request VIdle" 6]
        in \<open>simp add: sample_followed_def sample_start_def set_phase_def sample_enter_follow\<close>)
qed

lemma sample_answer:
  "validate_answer True sample_running sample_key 0 sample_yes None 7 [] =
     (VAnswered 0 sample_yes None, vs_ctl sample_answered)"
  by (simp add: validate_answer_def MarkAllowed_def sample_key_def endpointAuthorizationKey_def sample_defs
      defaultGatewayAccessCacheMaxKeys_def)

lemma sample_answered_reachable: "reachable (validation_init sample_access) validation_step sample_answered"
proof (rule reach_step [OF sample_followed_reachable])
  have order: "set [] = fmdom' (allowed (pruneExpiredLocked (cache (vs_ctl sample_followed)) 7))"
    by (simp add: sample_defs pruneExpiredLocked_def)
  have ctl: "vs_ctl sample_followed = sample_running" by (simp add: sample_followed_def)
  have reqs: "vs_reqs sample_followed = [0 \<mapsto> sample_request (VLead 0), 1 \<mapsto> sample_request (VFollow 0)]"
    by (simp add: sample_followed_def)
  have "set_phase (sample_followed\<lparr>vs_ctl := vs_ctl sample_answered,
      vs_answers := insert (sample_key, sample_yes, None) (vs_answers sample_followed),
      vs_grants := insert (sample_key, 7) (vs_grants sample_followed)\<rparr>) 0 (sample_request (VLead 0))
      (VAnswered 0 sample_yes None) = sample_answered"
    by (simp add: set_phase_def sample_answered_def sample_followed_def sample_start_def fun_upd_twist)
  then show "validation_step sample_followed sample_answered"
    using validation_step.answer [of sample_followed 0 "sample_request (VLead 0)" 0 7 "[]" sample_yes None]
    by (simp add: order [simplified] ctl reqs sample_answer)
qed

lemma sample_finished_reachable: "reachable (validation_init sample_access) validation_step sample_finished"
proof (rule reach_step [OF sample_answered_reachable])
  have reqs: "vs_reqs sample_answered 0 = Some (sample_request (VAnswered 0 sample_yes None))"
    by (simp add: sample_answered_def)
  show "validation_step sample_answered sample_finished"
    using validation_step.finish [OF reqs, of 0 sample_yes None]
    by (simp add: validate_finish_def sample_finished_def)
qed

theorem validation_result_authorized_witness:
  "\<exists>d'. (sample_key, d', None) \<in> vs_answers sample_finished \<and> Allowed d'"
  using validation_result_authorized [OF sample_finished_reachable, of 0
      "sample_request (VResult sample_yes False None)" sample_yes False]
  by (simp add: sample_finished_def)

theorem validation_cache_fresh_witness:
  "\<exists>t. (sample_key, t) \<in> vs_grants sample_finished \<and> 8 < t + cache_ttl (cache (vs_ctl sample_finished))"
  by (rule validation_cache_fresh [OF sample_finished_reachable, where k = "cache (vs_ctl sample_finished)"])
    (simp add: sample_finished_def cache_IsAllowed_def sample_key_def endpointAuthorizationKey_def
      finishValidation_def sample_defs)

theorem validation_single_flight_witness:
  "validationInflight (vs_ctl sample_followed) = 1 \<and> map_len (validationCalls (vs_ctl sample_followed)) = 1 \<and>
    map_len (allowed (cache (vs_ctl sample_followed))) \<le> cache_maxKeys (cache (vs_ctl sample_followed))"
proof -
  have "validationInflight (vs_ctl sample_followed) = 1"
    by (simp add: sample_followed_def sample_running_def)
  then show ?thesis using validation_single_flight [OF sample_followed_reachable] by simp
qed

theorem validation_follower_progress_witness:
  "(\<exists>p. validate_await_done (vs_ctl sample_followed) 0 = Some p) \<or>
    (\<exists>t' r'. vs_reqs sample_followed t' = Some r' \<and> leads r' 0 \<and> req_key r' = sample_key)"
  using validation_follower_progress [OF sample_followed_reachable, of 1 "sample_request (VFollow 0)" 0]
  by (simp add: sample_followed_def)

end
