(* ===== verification/Base64.thy ===== *)
theory Base64
  imports Prelude
begin

text \<open>
  Go's \<open>base64.RawURLEncoding\<close>, which the session tickets and the access tickets use: the URL
  alphabet, no padding. The decoder skips carriage returns and newlines, ignores the unused low
  bits of the last character and fails on a character outside the alphabet or a single left-over
  character, as the library's non-strict decoder does.
\<close>

definition b64_alphabet :: string where
  "b64_alphabet = ''ABCDEFGHIJKLMNOPQRSTUVWXYZabcdefghijklmnopqrstuvwxyz0123456789-_''"

fun char_index :: "char \<Rightarrow> string \<Rightarrow> nat \<Rightarrow> nat option" where
  "char_index c [] i = None"
| "char_index c (x # xs) i = (if x = c then Some i else char_index c xs (Suc i))"

fun sextets_of :: "nat list \<Rightarrow> nat list" where
  "sextets_of [] = []"
| "sextets_of [a] = [a div 4, (a mod 4) * 16]"
| "sextets_of [a, b] = [a div 4, (a mod 4) * 16 + b div 16, (b mod 16) * 4]"
| "sextets_of (a # b # c # rest) =
     [a div 4, (a mod 4) * 16 + b div 16, (b mod 16) * 4 + c div 64, c mod 64] @ sextets_of rest"

fun octets_of :: "nat list \<Rightarrow> nat list option" where
  "octets_of [] = Some []"
| "octets_of [w] = None"
| "octets_of [w, x] = Some [w * 4 + x div 16]"
| "octets_of [w, x, y] = Some [w * 4 + x div 16, (x mod 16) * 16 + y div 4]"
| "octets_of (w # x # y # z # rest) =
     (case octets_of rest of
        None \<Rightarrow> None
      | Some bs \<Rightarrow> Some ([w * 4 + x div 16, (x mod 16) * 16 + y div 4, (y mod 4) * 64 + z] @ bs))"

fun collect :: "'a option list \<Rightarrow> 'a list option" where
  "collect [] = Some []"
| "collect (None # xs) = None"
| "collect (Some x # xs) = map_option (Cons x) (collect xs)"

definition RawURLEncode :: "string \<Rightarrow> string" where
  "RawURLEncode s = map (\<lambda>i. b64_alphabet ! i) (sextets_of (map of_char s))"

definition RawURLDecode :: "string \<Rightarrow> string option" where
  "RawURLDecode s =
     (case collect (map (\<lambda>c. char_index c b64_alphabet 0)
              (filter (\<lambda>c. c \<noteq> CHR 0x0D \<and> c \<noteq> CHR 0x0A) s)) of
        None \<Rightarrow> None
      | Some xs \<Rightarrow> map_option (map char_of) (octets_of xs))"

lemma pack_div: "q < m \<Longrightarrow> (k * m + q) div m = (k :: nat)"
  by simp

lemma pack_mod: "q < m \<Longrightarrow> (k * m + q) mod m = (q :: nat)"
  by simp

lemma repack:
  assumes "b < (256 :: nat)" and "c < (256 :: nat)"
  shows "a div 4 * 4 + (a mod 4 * 16 + b div 16) div 16 = a"
    and "(a mod 4 * 16 + b div 16) mod 16 * 16 + (b mod 16 * 4 + c div 64) div 4 = b"
    and "(b mod 16 * 4 + c div 64) mod 4 * 64 + c mod 64 = c"
proof -
  have q: "b div 16 < 16" "c div 64 < 4" using assms by (simp_all add: div_less_iff_less_mult)
  show "a div 4 * 4 + (a mod 4 * 16 + b div 16) div 16 = a"
    unfolding pack_div [OF q(1)] by (rule div_mult_mod_eq)
  show "(a mod 4 * 16 + b div 16) mod 16 * 16 + (b mod 16 * 4 + c div 64) div 4 = b"
    unfolding pack_div [OF q(2)] pack_mod [OF q(1)] by (rule div_mult_mod_eq)
  show "(b mod 16 * 4 + c div 64) mod 4 * 64 + c mod 64 = c"
    unfolding pack_mod [OF q(2)] by (rule div_mult_mod_eq)
qed

lemma sextet_bounds:
  assumes "a < (256 :: nat)" and "b < 256" and "c < 256"
  shows "a div 4 < 64" and "a mod 4 * 16 + b div 16 < 64" and "b mod 16 * 4 + c div 64 < 64" and "c mod 64 < 64"
proof -
  have q: "b div 16 < 16" "c div 64 < 4" using assms by (simp_all add: div_less_iff_less_mult)
  have "a mod 4 \<le> 3" "b mod 16 \<le> 15" using mod_less_divisor [of 4 a] mod_less_divisor [of 16 b] by linarith+
  with q show "a mod 4 * 16 + b div 16 < 64" "b mod 16 * 4 + c div 64 < 64" by linarith+
  show "a div 4 < 64" using assms(1) by (simp add: div_less_iff_less_mult)
  show "c mod 64 < 64" by simp
qed

lemma octets_sextets: "\<forall>b \<in> set bs. b < 256 \<Longrightarrow> octets_of (sextets_of bs) = Some bs"
proof (induction bs rule: sextets_of.induct)
  case (2 a)
  show ?case using repack(1) [of 0 a] by simp
next
  case (3 a b)
  then have "b < 256" by simp
  with repack(1) [of b a] repack(2) [of b 0 a] show ?case by simp
next
  case (4 a b c rest)
  then have "b < 256" "c < 256" by simp_all
  with repack(1) [of b a] repack(2) [of b c a] repack(3) [where b = b and c = c] 4 show ?case by simp
qed simp

lemma sextets_bound: "\<forall>b \<in> set bs. b < 256 \<Longrightarrow> \<forall>x \<in> set (sextets_of bs). x < 64"
proof (induction bs rule: sextets_of.induct)
  case (2 a)
  then show ?case using sextet_bounds(1,2) [of a 0 0] by simp
next
  case (3 a b)
  then show ?case using sextet_bounds(1,2,3) [of a b 0] by simp
next
  case (4 a b c rest)
  then show ?case using sextet_bounds [of a b c] by simp
qed simp

lemma collect_map_Some: "(\<And>x. x \<in> set xs \<Longrightarrow> f x = Some (g x)) \<Longrightarrow> collect (map f xs) = Some (map g xs)"
  by (induction xs) auto

lemma alphabet_index: "\<forall>i < 64. char_index (b64_alphabet ! i) b64_alphabet 0 = Some i"
  by code_simp

lemma alphabet_no_newline: "\<forall>i < 64. b64_alphabet ! i \<noteq> CHR 0x0D \<and> b64_alphabet ! i \<noteq> CHR 0x0A"
  by code_simp

text \<open>Only characters of one byte in UTF-8.\<close>

definition ascii_text :: "string \<Rightarrow> bool" where
  "ascii_text s \<longleftrightarrow> list_all (\<lambda>c. of_char c < (128 :: nat)) s"

lemma alphabet_ascii: "\<forall>i < 64. of_char (b64_alphabet ! i) < (128 :: nat)"
  by code_simp

lemma RawURLEncode_ascii: "ascii_text (RawURLEncode s)"
proof -
  have "\<forall>b \<in> set (map of_char s). b < (256 :: nat)" by simp
  from sextets_bound [OF this] show ?thesis
    using alphabet_ascii by (auto simp: ascii_text_def list_all_iff RawURLEncode_def)
qed

lemma RawURL_roundtrip: "RawURLDecode (RawURLEncode s) = Some s"
proof -
  let ?xs = "sextets_of (map of_char s) :: nat list"
  have bytes: "\<forall>b \<in> set (map of_char s). b < (256 :: nat)" by simp
  have small: "\<forall>x \<in> set ?xs. x < 64" by (rule sextets_bound [OF bytes])
  have "filter (\<lambda>c. c \<noteq> CHR 0x0D \<and> c \<noteq> CHR 0x0A) (RawURLEncode s) = RawURLEncode s"
    using small alphabet_no_newline by (auto simp: RawURLEncode_def filter_id_conv)
  moreover have "collect (map (\<lambda>i. char_index (b64_alphabet ! i) b64_alphabet 0) ?xs) = Some (map id ?xs)"
    using small alphabet_index by (intro collect_map_Some) simp
  then have "collect (map (\<lambda>c. char_index c b64_alphabet 0) (RawURLEncode s)) = Some ?xs"
    by (simp add: RawURLEncode_def comp_def)
  moreover have "map char_of (map of_char s :: nat list) = s" by (simp add: comp_def map_idI)
  ultimately show ?thesis
    by (simp add: RawURLDecode_def octets_sextets [OF bytes] del: map_map)
qed

end
