(* ===== verification/Session_Ticket.thy ===== *)
theory Session_Ticket
  imports Base64
begin

text \<open>
  The stateless session tickets of the gateway (\<open>internal/gateway/session_ticket.go\<close>): a JSON
  document sealed with AES-GCM and written in URL-safe base64. The cipher and the JSON codec are
  the fields of \<open>ticket_crypto\<close>, an argument of \<open>seal_ticket\<close> and \<open>open_ticket\<close>; what
  the code relies on is \<open>aead_correct\<close> (opening yields the plain text exactly of the sealed
  texts) and that decoding an encoded ticket gives it back. Base64 is concrete. The wall clock
  (\<open>time.Now\<close>) and the random nonce are arguments.
\<close>

section \<open>Unix milliseconds\<close>

definition unix_epoch :: time where
  "unix_epoch = 62135596800 * 1000000000"

definition UnixMilli :: "time \<Rightarrow> int" where
  "UnixMilli t = (t - unix_epoch) div millisecond"

definition time_UnixMilli :: "int \<Rightarrow> time" where
  "time_UnixMilli ms = unix_epoch + ms * millisecond"

lemma time_UnixMilli_le: "time_UnixMilli (UnixMilli t) \<le> t"
proof -
  have "(t - unix_epoch) div millisecond * millisecond \<le> t - unix_epoch"
    using div_mult_mod_eq [of "t - unix_epoch" millisecond] pos_mod_sign [of millisecond "t - unix_epoch"]
    by (simp add: millisecond_def)
  then show ?thesis by (simp add: time_UnixMilli_def UnixMilli_def)
qed

lemma time_UnixMilli_gt: "t - millisecond < time_UnixMilli (UnixMilli t)"
proof -
  have "t - unix_epoch < (t - unix_epoch) div millisecond * millisecond + millisecond"
    using div_mult_mod_eq [of "t - unix_epoch" millisecond] pos_mod_bound [of millisecond "t - unix_epoch"]
    by (simp add: millisecond_def)
  then show ?thesis by (simp add: time_UnixMilli_def UnixMilli_def)
qed

lemma UnixMilli_mono: "t \<le> u \<Longrightarrow> UnixMilli t \<le> UnixMilli u"
  by (simp add: UnixMilli_def millisecond_def zdiv_mono1)

lemma UnixMilli_add_less: "millisecond \<le> d \<Longrightarrow> UnixMilli t < UnixMilli (t + d)"
proof -
  assume d: "millisecond \<le> d"
  have "UnixMilli (t + millisecond) = UnixMilli t + 1"
    by (simp add: UnixMilli_def millisecond_def algebra_simps)
  with UnixMilli_mono [of "t + millisecond" "t + d"] d show ?thesis by simp
qed

section \<open>Tickets\<close>

definition gatewaySessionTicketVersion :: int where
  "gatewaySessionTicketVersion = 1"

definition gatewaySessionTicketMaxBytes :: nat where
  "gatewaySessionTicketMaxBytes = 4096"

definition gatewaySessionTicketAAD :: string where
  "gatewaySessionTicketAAD = ''gitea-codespace-gateway-session-v1''"

record gatewaySessionTicket =
  t_Version :: int
  t_ID :: string
  t_SiteUID :: string
  t_UserID :: int
  t_CodespaceUUID :: string
  t_EndpointID :: string
  t_IssuedAt :: int
  t_ExpiresAt :: int
  t_IdleExpiresAt :: int

record ticket_crypto =
  NonceSize :: nat
  aead_Seal :: "string \<Rightarrow> string \<Rightarrow> string \<Rightarrow> string"
  aead_Open :: "string \<Rightarrow> string \<Rightarrow> string \<Rightarrow> string option"
  json_Marshal :: "gatewaySessionTicket \<Rightarrow> string option"
  json_Unmarshal :: "string \<Rightarrow> gatewaySessionTicket option"

datatype ticket_error =
    gatewaySessionKeyLength
  | ticketMarshalFailed
  | nonceUnavailable
  | cipherFailed

text \<open>
  \<open>newGatewaySessionTickets\<close>: \<open>newGCM\<close> stands for the cipher the standard library builds from
  a key; it may refuse.
\<close>

definition newGatewaySessionTickets ::
    "(string \<Rightarrow> ticket_crypto option) \<Rightarrow> string \<Rightarrow> ticket_error + ticket_crypto" where
  "newGatewaySessionTickets newGCM key =
     (if length key \<noteq> 32 then Inl gatewaySessionKeyLength
      else case newGCM key of None \<Rightarrow> Inl cipherFailed | Some t \<Rightarrow> Inr t)"

text \<open>
  \<open>seal\<close>: the nonce goes in front of the sealed text. The argument \<open>random\<close> is what
  \<open>rand.Read\<close> delivers.
\<close>

definition seal_ticket ::
    "ticket_crypto \<Rightarrow> gatewaySessionTicket \<Rightarrow> (nat \<Rightarrow> string option) \<Rightarrow> ticket_error + string" where
  "seal_ticket t ticket random =
     (case json_Marshal t ticket of
        None \<Rightarrow> Inl ticketMarshalFailed
      | Some plain \<Rightarrow>
          (case random (NonceSize t) of
             None \<Rightarrow> Inl nonceUnavailable
           | Some nonce \<Rightarrow>
               Inr (RawURLEncode (nonce @ aead_Seal t nonce plain gatewaySessionTicketAAD))))"

definition ticket_wellformed :: "gatewaySessionTicket \<Rightarrow> bool" where
  "ticket_wellformed k \<longleftrightarrow>
     \<not> (t_Version k \<noteq> gatewaySessionTicketVersion \<or> t_ID k = '''' \<or> t_SiteUID k = '''' \<or> t_UserID k \<le> 0 \<or>
        t_CodespaceUUID k = '''' \<or> t_EndpointID k = '''' \<or> t_IssuedAt k \<le> 0 \<or> t_ExpiresAt k \<le> t_IssuedAt k \<or>
        t_IdleExpiresAt k \<le> t_IssuedAt k \<or> t_IdleExpiresAt k > t_ExpiresAt k)"

definition ticket_expired :: "gatewaySessionTicket \<Rightarrow> time \<Rightarrow> bool" where
  "ticket_expired k now \<longleftrightarrow> time_UnixMilli (t_ExpiresAt k) < now \<or> time_UnixMilli (t_IdleExpiresAt k) < now"

text \<open>\<open>open\<close>: a nil receiver is \<open>None\<close>; \<open>wall\<close> is what \<open>time.Now\<close> would return.\<close>

definition open_ticket ::
    "ticket_crypto option \<Rightarrow> string \<Rightarrow> time \<Rightarrow> time \<Rightarrow> gatewaySessionTicket option" where
  "open_ticket tickets token now wall =
     (case tickets of
        None \<Rightarrow> None
      | Some t \<Rightarrow>
          if token = '''' \<or> length token > gatewaySessionTicketMaxBytes then None
          else case RawURLDecode token of
            None \<Rightarrow> None
          | Some sealed \<Rightarrow>
              if length sealed \<le> NonceSize t then None
              else
                (let nonce = take (NonceSize t) sealed; ciphertext = drop (NonceSize t) sealed
                 in case aead_Open t nonce ciphertext gatewaySessionTicketAAD of
                      None \<Rightarrow> None
                    | Some plain \<Rightarrow>
                        (case json_Unmarshal t plain of
                           None \<Rightarrow> None
                         | Some ticket \<Rightarrow>
                             if \<not> ticket_wellformed ticket then None
                             else
                               (let now = (if now = zero_time then wall else now)
                                in if ticket_expired ticket now then None else Some ticket))))"

section \<open>What the cipher promises\<close>

text \<open>
  \<open>aead_correct\<close> is the documented behaviour of an AEAD under one key, nonce and additional
  data: \<open>Open\<close> returns a plain text exactly for its sealed text, which is not empty (the tag).
\<close>

definition aead_correct :: "ticket_crypto \<Rightarrow> bool" where
  "aead_correct t \<longleftrightarrow>
     (\<forall>n c a p. aead_Open t n c a = Some p \<longleftrightarrow> c = aead_Seal t n p a) \<and> (\<forall>n p a. aead_Seal t n p a \<noteq> [])"

lemma open_ticketD:
  assumes "open_ticket (Some t) token now wall = Some k"
  shows "ticket_wellformed k"
    and "\<not> ticket_expired k (if now = zero_time then wall else now)"
    and "length token \<le> gatewaySessionTicketMaxBytes"
    and "\<exists>sealed plain. RawURLDecode token = Some sealed \<and> NonceSize t < length sealed \<and>
           aead_Open t (take (NonceSize t) sealed) (drop (NonceSize t) sealed) gatewaySessionTicketAAD = Some plain \<and>
           json_Unmarshal t plain = Some k"
  using assms by (auto simp: open_ticket_def Let_def split: option.splits if_splits)

lemma open_ticket_nil [simp]: "open_ticket None token now wall = None"
  by (simp add: open_ticket_def)

lemma RawURLEncode_nonempty: "s \<noteq> '''' \<Longrightarrow> RawURLEncode s \<noteq> ''''"
  by (metis RawURL_roundtrip option.inject RawURLDecode_def RawURLEncode_def list.simps(8) sextets_of.simps(1))

text \<open>Opening what was sealed.\<close>

lemma open_sealed:
  assumes "aead_correct t" and "json_Marshal t k = Some plain" and "json_Unmarshal t plain = Some k"
    and "random (NonceSize t) = Some nonce" and "length nonce = NonceSize t"
    and "seal_ticket t k random = Inr token" and "length token \<le> gatewaySessionTicketMaxBytes"
  shows "open_ticket (Some t) token now wall =
           (if ticket_wellformed k \<and> \<not> ticket_expired k (if now = zero_time then wall else now) then Some k else None)"
proof -
  let ?c = "aead_Seal t nonce plain gatewaySessionTicketAAD"
  have c: "?c \<noteq> []" and o: "aead_Open t nonce ?c gatewaySessionTicketAAD = Some plain"
    using assms(1) by (simp_all add: aead_correct_def)
  have token: "token = RawURLEncode (nonce @ ?c)" using assms(2,4,6) by (simp add: seal_ticket_def)
  then have "token \<noteq> ''''" using c by (simp add: RawURLEncode_nonempty)
  with assms(3,5,7) c o show ?thesis
    by (simp add: open_ticket_def token RawURL_roundtrip Let_def)
qed

lemma seal_ticket_Inr:
  "seal_ticket t k random = Inr token \<longleftrightarrow>
     (\<exists>plain nonce. json_Marshal t k = Some plain \<and> random (NonceSize t) = Some nonce \<and>
        token = RawURLEncode (nonce @ aead_Seal t nonce plain gatewaySessionTicketAAD))"
  by (auto simp: seal_ticket_def split: option.splits)

text \<open>C32: A ticket that was sealed opens to the very same ticket until it expires, and an opened
  ticket was sealed: its token decodes to a nonce and the sealed text of a document that
  decodes to the ticket, and the ticket is well formed and within its lifetime.
\<close>

theorem ticket_sealed_iff_opened:
  assumes "aead_correct t"
    and "\<And>plain. json_Marshal t k = Some plain \<Longrightarrow> json_Unmarshal t plain = Some k"
    and "\<And>nonce. random (NonceSize t) = Some nonce \<Longrightarrow> length nonce = NonceSize t"
    and "seal_ticket t k random = Inr token" and "length token \<le> gatewaySessionTicketMaxBytes"
  shows "open_ticket (Some t) token now wall =
      (if ticket_wellformed k \<and> \<not> ticket_expired k (if now = zero_time then wall else now) then Some k else None)
    \<and> (\<forall>other k'. open_ticket (Some t) other now wall = Some k' \<longrightarrow>
         ticket_wellformed k' \<and> \<not> ticket_expired k' (if now = zero_time then wall else now) \<and>
         (\<exists>nonce plain. length nonce = NonceSize t \<and> json_Unmarshal t plain = Some k' \<and>
            RawURLDecode other = Some (nonce @ aead_Seal t nonce plain gatewaySessionTicketAAD)))"
proof (intro conjI allI impI)
  obtain plain nonce where pn: "json_Marshal t k = Some plain" "random (NonceSize t) = Some nonce"
    using assms(4) by (auto simp: seal_ticket_Inr)
  show "open_ticket (Some t) token now wall =
      (if ticket_wellformed k \<and> \<not> ticket_expired k (if now = zero_time then wall else now) then Some k else None)"
    by (rule open_sealed [OF assms(1) pn(1) assms(2) [OF pn(1)] pn(2) assms(3) [OF pn(2)] assms(4,5)])
next
  fix other k'
  assume op: "open_ticket (Some t) other now wall = Some k'"
  show "ticket_wellformed k'" "\<not> ticket_expired k' (if now = zero_time then wall else now)"
    using open_ticketD [OF op] by blast+
  obtain sealed plain where s: "RawURLDecode other = Some sealed" "NonceSize t < length sealed"
      "aead_Open t (take (NonceSize t) sealed) (drop (NonceSize t) sealed) gatewaySessionTicketAAD = Some plain"
      "json_Unmarshal t plain = Some k'"
    using open_ticketD(4) [OF op] by blast
  have "drop (NonceSize t) sealed = aead_Seal t (take (NonceSize t) sealed) plain gatewaySessionTicketAAD"
    using s(3) assms(1) by (simp add: aead_correct_def)
  then have "sealed = take (NonceSize t) sealed @ aead_Seal t (take (NonceSize t) sealed) plain gatewaySessionTicketAAD"
    by (metis append_take_drop_id)
  moreover have "length (take (NonceSize t) sealed) = NonceSize t" using s(2) by simp
  ultimately show "\<exists>nonce plain. length nonce = NonceSize t \<and> json_Unmarshal t plain = Some k' \<and>
      RawURLDecode other = Some (nonce @ aead_Seal t nonce plain gatewaySessionTicketAAD)"
    using s(1,4) by metis
qed

section \<open>A concrete instance for witnesses\<close>

text \<open>
  A toy cipher that satisfies the law (it prefixes a tag byte) and a codec that round-trips every
  ticket: enough to evaluate the definitions on concrete inputs. A string is written with a dot
  before each character and a final semicolon, a number in unary after its sign.
\<close>

definition enc_str :: "string \<Rightarrow> string" where
  "enc_str s = concat (map (\<lambda>c. [CHR ''.'', c]) s) @ '';''"

fun dec_str :: "string \<Rightarrow> string \<times> string" where
  "dec_str [] = ([], [])"
| "dec_str [x] = ([], [])"
| "dec_str (x # c # s) = (if x = CHR '';'' then ([], c # s) else (case dec_str s of (t, r) \<Rightarrow> (c # t, r)))"

lemma dec_enc_str: "r \<noteq> [] \<Longrightarrow> dec_str (enc_str s @ r) = (s, r)"
proof (induction s)
  case Nil
  then show ?case by (cases r) (simp_all add: enc_str_def)
qed (simp add: enc_str_def)

definition enc_int :: "int \<Rightarrow> string" where
  "enc_int i = enc_str ((if i < 0 then CHR ''-'' else CHR ''+'') # replicate (nat \<bar>i\<bar>) (CHR ''1''))"

definition dec_int :: "string \<Rightarrow> int \<times> string" where
  "dec_int s = (case dec_str s of (t, r) \<Rightarrow>
     ((if t \<noteq> [] \<and> hd t = CHR ''-'' then - int (length t - 1) else int (length t - 1)), r))"

lemma dec_enc_int: "r \<noteq> [] \<Longrightarrow> dec_int (enc_int i @ r) = (i, r)"
  by (simp add: dec_int_def enc_int_def dec_enc_str)

definition demo_marshal :: "gatewaySessionTicket \<Rightarrow> string" where
  "demo_marshal k =
     enc_int (t_Version k) @ enc_str (t_ID k) @ enc_str (t_SiteUID k) @ enc_int (t_UserID k) @
     enc_str (t_CodespaceUUID k) @ enc_str (t_EndpointID k) @ enc_int (t_IssuedAt k) @ enc_int (t_ExpiresAt k) @
     enc_int (t_IdleExpiresAt k) @ ''!''"

definition demo_unmarshal :: "string \<Rightarrow> gatewaySessionTicket" where
  "demo_unmarshal s0 =
     (let (v, s1) = dec_int s0; (i, s2) = dec_str s1; (site, s3) = dec_str s2; (u, s4) = dec_int s3;
          (c, s5) = dec_str s4; (e, s6) = dec_str s5; (a, s7) = dec_int s6; (x, s8) = dec_int s7; (y, s9) = dec_int s8
      in \<lparr> t_Version = v, t_ID = i, t_SiteUID = site, t_UserID = u, t_CodespaceUUID = c, t_EndpointID = e,
           t_IssuedAt = a, t_ExpiresAt = x, t_IdleExpiresAt = y \<rparr>)"

lemma demo_codec: "demo_unmarshal (demo_marshal k) = k"
proof -
  have ne: "enc_str s @ r \<noteq> []" "enc_int i @ r \<noteq> []" for s r i
    by (simp_all add: enc_str_def enc_int_def)
  show ?thesis by (simp add: demo_marshal_def demo_unmarshal_def dec_enc_str dec_enc_int ne)
qed

definition demo_crypto :: ticket_crypto where
  "demo_crypto =
     \<lparr> NonceSize = 2, aead_Seal = (\<lambda>n p a. CHR ''t'' # p),
       aead_Open = (\<lambda>n c a. case c of [] \<Rightarrow> None | x # p \<Rightarrow> if x = CHR ''t'' then Some p else None),
       json_Marshal = (\<lambda>k. Some (demo_marshal k)), json_Unmarshal = (\<lambda>s. Some (demo_unmarshal s)) \<rparr>"

lemma demo_crypto_correct: "aead_correct demo_crypto"
  by (auto simp: aead_correct_def demo_crypto_def split: list.splits)

lemma demo_crypto_codec: "json_Marshal demo_crypto k = Some plain \<Longrightarrow> json_Unmarshal demo_crypto plain = Some k"
  by (auto simp: demo_crypto_def demo_codec)

definition demo_ticket :: gatewaySessionTicket where
  "demo_ticket =
     \<lparr> t_Version = 1, t_ID = ''s'', t_SiteUID = ''a'', t_UserID = 7, t_CodespaceUUID = ''c'',
       t_EndpointID = ''e'', t_IssuedAt = 10, t_ExpiresAt = 40, t_IdleExpiresAt = 30 \<rparr>"

definition demo_random :: "nat \<Rightarrow> string option" where
  "demo_random n = Some (replicate n (CHR ''n''))"

lemma demo_random_length: "demo_random n = Some nonce \<Longrightarrow> length nonce = n"
  by (auto simp: demo_random_def)

definition demo_token :: string where
  "demo_token = RawURLEncode (''nnt'' @ demo_marshal demo_ticket)"

lemma demo_seal: "seal_ticket demo_crypto demo_ticket demo_random = Inr demo_token"
  by (simp add: seal_ticket_def demo_crypto_def demo_random_def demo_token_def numeral_2_eq_2)

theorem ticket_sealed_iff_opened_witness:
  "open_ticket (Some demo_crypto) demo_token (time_UnixMilli 30) 0 = Some demo_ticket"
proof -
  have len: "length demo_token \<le> gatewaySessionTicketMaxBytes" by code_simp
  have "open_ticket (Some demo_crypto) demo_token (time_UnixMilli 30) 0 =
      (if ticket_wellformed demo_ticket \<and> \<not> ticket_expired demo_ticket (if time_UnixMilli 30 = 0 then 0 else time_UnixMilli 30)
       then Some demo_ticket else None)"
    by (rule conjunct1 [OF ticket_sealed_iff_opened
          [OF demo_crypto_correct demo_crypto_codec demo_random_length demo_seal len]])
  moreover have "ticket_wellformed demo_ticket \<and>
      \<not> ticket_expired demo_ticket (if time_UnixMilli 30 = 0 then 0 else time_UnixMilli 30)" by code_simp
  ultimately show ?thesis by simp
qed

end
