(* ===== verification/Session_Registry.thy ===== *)
theory Session_Registry
  imports Session_Ticket
begin

text \<open>
  The session registry of the gateway (\<open>internal/gateway/session.go\<close>): browser sessions, the
  live connections of a codespace (browser streams and SSH sessions), the counters that enforce
  the limits per codespace and per user, and expiry. Every method is one function; the part
  between \<open>Lock\<close> and \<open>Unlock\<close> is atomic and the cancel functions it collects, called after
  \<open>Unlock\<close>, are part of the result. The nested map \<open>liveEntries\<close>, whose empty inner maps are
  removed, is the finite map of its pairs (codespace, live id). A cancel function is a number, a
  nil one \<open>None\<close>; the channel \<open>activityChanges\<close> of capacity one is whether it holds a signal.
  The order in which Go ranges over the two maps is the argument \<open>ord\<close>; wall clock, session id and
  nonce randomness are arguments too.
\<close>

section \<open>State\<close>

definition gatewaySessionConnectTimeout :: duration where
  "gatewaySessionConnectTimeout = 30 * second"

datatype session_error =
    sessionConfigurationIncomplete
  | sessionBindingIncomplete
  | sessionIDUnavailable
  | sessionTicketError ticket_error
  | errGatewaySessionAmbiguous
  | errGatewaySessionLimitReached

record gatewaySession =
  s_id :: string
  s_siteUID :: string
  s_userID :: int
  s_codespaceUUID :: string
  s_endpointID :: string
  s_created :: time
  s_lastActive :: time
  s_established :: bool
  s_expires :: time
  s_token :: string

definition zero_session :: gatewaySession where
  "zero_session =
     \<lparr> s_id = '''', s_siteUID = '''', s_userID = 0, s_codespaceUUID = '''', s_endpointID = '''',
       s_created = zero_time, s_lastActive = zero_time, s_established = False, s_expires = zero_time,
       s_token = '''' \<rparr>"

record gatewayLiveSession =
  l_cancel :: "nat option"
  l_sessionID :: string
  l_siteUID :: string
  l_userID :: int
  l_countsSession :: bool

type_synonym gatewayUserKey = "string \<times> int"

record openTokenBinding =
  b_SiteUID :: string
  b_UserID :: int
  b_CodespaceUUID :: string
  b_EndpointID :: string

record sessionRegistry =
  ttl :: duration
  idleTimeout :: duration
  maxSessionsPerCodespace :: int
  maxSessionsPerUser :: int
  tickets :: "ticket_crypto option"
  live :: "(string, int) fmap"
  nextLiveID :: int
  liveEntries :: "(string \<times> int, gatewayLiveSession) fmap"
  sessionCountByCodespace :: "(string, int) fmap"
  sessionCountByUser :: "(gatewayUserKey, int) fmap"
  sessions :: "(string, gatewaySession) fmap"
  activityChanges :: bool

record iteration =
  session_ids :: "string list"
  live_ids :: "int list"

record gatewaySessionsConfig =
  cfg_TTL :: duration
  cfg_IdleTimeout :: duration
  cfg_MaxPerCodespace :: int
  cfg_MaxPerUser :: int

definition newSessionRegistryFromConfig ::
    "(string \<Rightarrow> ticket_crypto option) \<Rightarrow> gatewaySessionsConfig \<Rightarrow> string \<Rightarrow> session_error + sessionRegistry" where
  "newSessionRegistryFromConfig newGCM config sessionKey =
     (case newGatewaySessionTickets newGCM sessionKey of
        Inl e \<Rightarrow> Inl (sessionTicketError e)
      | Inr t \<Rightarrow>
          if cfg_TTL config \<le> 0 \<or> cfg_IdleTimeout config \<le> 0 \<or> cfg_MaxPerCodespace config \<le> 0
             \<or> cfg_MaxPerUser config \<le> 0
          then Inl sessionConfigurationIncomplete
          else Inr
            \<lparr> ttl = cfg_TTL config, idleTimeout = cfg_IdleTimeout config,
              maxSessionsPerCodespace = cfg_MaxPerCodespace config, maxSessionsPerUser = cfg_MaxPerUser config,
              tickets = Some t, live = fmempty, nextLiveID = 0, liveEntries = fmempty,
              sessionCountByCodespace = fmempty, sessionCountByUser = fmempty, sessions = fmempty,
              activityChanges = False \<rparr>)"

section \<open>Operations under the lock\<close>

definition canAddSessionLocked :: "sessionRegistry \<Rightarrow> string \<Rightarrow> int \<Rightarrow> string \<Rightarrow> bool" where
  "canAddSessionLocked r siteUID userID codespaceUUID \<longleftrightarrow>
     counter_get (sessionCountByCodespace r) codespaceUUID < maxSessionsPerCodespace r \<and>
     counter_get (sessionCountByUser r) (siteUID, userID) < maxSessionsPerUser r"

definition incrementSessionCountLocked :: "string \<Rightarrow> int \<Rightarrow> string \<Rightarrow> sessionRegistry \<Rightarrow> sessionRegistry" where
  "incrementSessionCountLocked siteUID userID codespaceUUID r =
     r\<lparr> sessionCountByCodespace := counter_inc (sessionCountByCodespace r) codespaceUUID,
        sessionCountByUser := counter_inc (sessionCountByUser r) (siteUID, userID) \<rparr>"

definition decrementSessionCountLocked :: "string \<Rightarrow> int \<Rightarrow> string \<Rightarrow> sessionRegistry \<Rightarrow> sessionRegistry" where
  "decrementSessionCountLocked siteUID userID codespaceUUID r =
     r\<lparr> sessionCountByCodespace := counter_dec (sessionCountByCodespace r) codespaceUUID,
        sessionCountByUser := counter_dec (sessionCountByUser r) (siteUID, userID) \<rparr>"

definition decrementLiveLocked :: "string \<Rightarrow> sessionRegistry \<Rightarrow> sessionRegistry" where
  "decrementLiveLocked codespaceUUID r = r\<lparr> live := counter_dec (live r) codespaceUUID \<rparr>"

definition deleteGatewaySessionLocked :: "string \<Rightarrow> sessionRegistry \<Rightarrow> sessionRegistry" where
  "deleteGatewaySessionLocked i r =
     (case fmlookup (sessions r) i of
        None \<Rightarrow> r
      | Some session \<Rightarrow>
          decrementSessionCountLocked (s_siteUID session) (s_userID session) (s_codespaceUUID session)
            (r\<lparr> sessions := fmdrop i (sessions r) \<rparr>))"

definition cancel_of :: "gatewayLiveSession \<Rightarrow> nat list" where
  "cancel_of entry = (case l_cancel entry of None \<Rightarrow> [] | Some c \<Rightarrow> [c])"

definition deleteLiveEntry ::
    "string \<Rightarrow> string \<Rightarrow> int \<Rightarrow> sessionRegistry \<times> nat list \<Rightarrow> sessionRegistry \<times> nat list" where
  "deleteLiveEntry codespaceUUID sessionID liveID acc =
     (case acc of (r, cancels) \<Rightarrow>
       (case fmlookup (liveEntries r) (codespaceUUID, liveID) of
          None \<Rightarrow> (r, cancels)
        | Some entry \<Rightarrow>
            if l_sessionID entry \<noteq> sessionID then (r, cancels)
            else (decrementLiveLocked codespaceUUID
                    (r\<lparr> liveEntries := fmdrop (codespaceUUID, liveID) (liveEntries r) \<rparr>),
                  cancels @ cancel_of entry)))"

definition deleteLiveEntriesLocked ::
    "iteration \<Rightarrow> string \<Rightarrow> string \<Rightarrow> sessionRegistry \<Rightarrow> sessionRegistry \<times> nat list" where
  "deleteLiveEntriesLocked ord codespaceUUID sessionID r =
     (if codespaceUUID = '''' \<or> sessionID = '''' then (r, [])
      else fold (deleteLiveEntry codespaceUUID sessionID) (live_ids ord) (r, []))"

definition deleteGatewaySessionAndLiveLocked ::
    "iteration \<Rightarrow> string \<Rightarrow> sessionRegistry \<Rightarrow> sessionRegistry \<times> nat list" where
  "deleteGatewaySessionAndLiveLocked ord i r =
     (case fmlookup (sessions r) i of
        None \<Rightarrow> (r, [])
      | Some session \<Rightarrow>
          deleteLiveEntriesLocked ord (s_codespaceUUID session) i (deleteGatewaySessionLocked i r))"

definition sessionExpiredLocked :: "sessionRegistry \<Rightarrow> gatewaySession \<Rightarrow> time \<Rightarrow> bool" where
  "sessionExpiredLocked r session now \<longleftrightarrow>
     (if \<not> s_established session \<and> time_sub now (s_created session) > gatewaySessionConnectTimeout then True
      else if s_expires session \<noteq> zero_time \<and> s_expires session < now then True
      else s_established session \<and> idleTimeout r > 0 \<and> time_sub now (s_lastActive session) > idleTimeout r)"

definition dropExpiredSession ::
    "iteration \<Rightarrow> time \<Rightarrow> string \<Rightarrow> sessionRegistry \<times> nat list \<Rightarrow> sessionRegistry \<times> nat list" where
  "dropExpiredSession ord now i acc =
     (case acc of (r, cancels) \<Rightarrow>
       (case fmlookup (sessions r) i of
          None \<Rightarrow> (r, cancels)
        | Some session \<Rightarrow>
            if sessionExpiredLocked r session now
            then (case deleteGatewaySessionAndLiveLocked ord i r of (r', found) \<Rightarrow> (r', cancels @ found))
            else (r, cancels)))"

definition dropExpiredSessionsLocked ::
    "iteration \<Rightarrow> time \<Rightarrow> time \<Rightarrow> sessionRegistry \<Rightarrow> sessionRegistry \<times> nat list" where
  "dropExpiredSessionsLocked ord now wall r =
     (let now = (if now = zero_time then wall else now)
      in fold (dropExpiredSession ord now) (session_ids ord) (r, []))"

fun matching_loop ::
    "sessionRegistry \<Rightarrow> openTokenBinding \<Rightarrow> time \<Rightarrow> time \<Rightarrow> string set \<Rightarrow> string \<Rightarrow> string list \<Rightarrow> string \<times> bool" where
  "matching_loop r binding now wall seen matchedID [] = (matchedID, False)"
| "matching_loop r binding now wall seen matchedID (i # ids) =
     (if i = '''' \<or> i \<in> seen then matching_loop r binding now wall seen matchedID ids
      else
        (let seen = insert i seen
         in case open_ticket (tickets r) i now wall of
              None \<Rightarrow> matching_loop r binding now wall seen matchedID ids
            | Some ticket \<Rightarrow>
                if t_CodespaceUUID ticket \<noteq> b_CodespaceUUID binding \<or> t_EndpointID ticket \<noteq> b_EndpointID binding
                then matching_loop r binding now wall seen matchedID ids
                else if b_UserID binding > 0 \<and> t_UserID ticket \<noteq> b_UserID binding
                then matching_loop r binding now wall seen matchedID ids
                else if b_SiteUID binding \<noteq> '''' \<and> t_SiteUID ticket \<noteq> b_SiteUID binding
                then matching_loop r binding now wall seen matchedID ids
                else if matchedID \<noteq> '''' \<and> matchedID \<noteq> t_ID ticket then ('''', True)
                else matching_loop r binding now wall seen (t_ID ticket) ids))"

definition matchingSessionIDLocked ::
    "sessionRegistry \<Rightarrow> string list \<Rightarrow> openTokenBinding \<Rightarrow> time \<Rightarrow> time \<Rightarrow> string \<times> bool" where
  "matchingSessionIDLocked r ids binding now wall = matching_loop r binding now wall {} '''' ids"

definition ticket_of_session :: "sessionRegistry \<Rightarrow> gatewaySession \<Rightarrow> time \<Rightarrow> gatewaySessionTicket" where
  "ticket_of_session r session now =
     (let idle0 = s_expires session;
          idle1 = (if \<not> s_established session \<and> now + gatewaySessionConnectTimeout < idle0
                   then now + gatewaySessionConnectTimeout else idle0);
          idle2 = (if idleTimeout r > 0 \<and> now + idleTimeout r < idle1 then now + idleTimeout r else idle1)
      in \<lparr> t_Version = gatewaySessionTicketVersion, t_ID = s_id session, t_SiteUID = s_siteUID session,
           t_UserID = s_userID session, t_CodespaceUUID = s_codespaceUUID session,
           t_EndpointID = s_endpointID session, t_IssuedAt = UnixMilli (s_created session),
           t_ExpiresAt = UnixMilli (s_expires session), t_IdleExpiresAt = UnixMilli idle2 \<rparr>)"

text \<open>
  \<open>issueTicket\<close>. A nil ticket box would be dereferenced, a panic in Go; the constructor never
  leaves it nil, and the model answers with an error.
\<close>

definition issueTicket ::
    "sessionRegistry \<Rightarrow> gatewaySession \<Rightarrow> time \<Rightarrow> (nat \<Rightarrow> string option) \<Rightarrow> ticket_error + string" where
  "issueTicket r session now random =
     (case tickets r of
        None \<Rightarrow> Inl cipherFailed
      | Some t \<Rightarrow> seal_ticket t (ticket_of_session r session now) random)"

text \<open>\<open>newGatewaySessionID\<close>: \<open>raw\<close> is what reading 32 random bytes delivers.\<close>

definition newGatewaySessionID :: "string option \<Rightarrow> session_error + string" where
  "newGatewaySessionID raw = (case raw of None \<Rightarrow> Inl sessionIDUnavailable | Some bytes \<Rightarrow> Inr (RawURLEncode bytes))"

section \<open>Methods\<close>

definition signalActivityChange :: "sessionRegistry \<Rightarrow> sessionRegistry" where
  "signalActivityChange r = r\<lparr> activityChanges := True \<rparr>"

definition Activity ::
    "iteration \<Rightarrow> time \<Rightarrow> time \<Rightarrow> sessionRegistry \<Rightarrow> (string, int) fmap \<times> sessionRegistry \<times> nat list" where
  "Activity ord now wall r =
     (case dropExpiredSessionsLocked ord now wall r of (r, cancels) \<Rightarrow>
        (fmfilter (\<lambda>i. counter_get (live r) i > 0) (live r), r, cancels))"

definition CreateReplacingAny ::
    "iteration \<Rightarrow> openTokenBinding \<Rightarrow> string list \<Rightarrow> time \<Rightarrow> time \<Rightarrow> string option \<Rightarrow> (nat \<Rightarrow> string option)
     \<Rightarrow> sessionRegistry \<Rightarrow> (session_error + string) \<times> sessionRegistry \<times> nat list" where
  "CreateReplacingAny ord binding replaceIDs now wall raw random r =
     (if b_SiteUID binding = '''' \<or> b_UserID binding \<le> 0 \<or> b_CodespaceUUID binding = ''''
         \<or> b_EndpointID binding = ''''
      then (Inl sessionBindingIncomplete, r, [])
      else case newGatewaySessionID raw of
        Inl e \<Rightarrow> (Inl e, r, [])
      | Inr i \<Rightarrow>
          (let session0 =
             \<lparr> s_id = i, s_siteUID = b_SiteUID binding, s_userID = b_UserID binding,
               s_codespaceUUID = b_CodespaceUUID binding, s_endpointID = b_EndpointID binding,
               s_created = now, s_lastActive = now, s_established = False, s_expires = now + ttl r,
               s_token = '''' \<rparr>
           in case issueTicket r session0 now random of
             Inl e \<Rightarrow> (Inl (sessionTicketError e), r, [])
           | Inr token \<Rightarrow>
               (let session = session0\<lparr> s_token := token \<rparr>;
                    (r1, cancels1) = dropExpiredSessionsLocked ord now wall r;
                    (replaceID, ambiguous) = matchingSessionIDLocked r1 replaceIDs binding now wall
                in if ambiguous then (Inl errGatewaySessionAmbiguous, r1, cancels1)
                   else
                     (let (r2, cancels2) =
                        (if replaceID \<noteq> '''' then deleteGatewaySessionAndLiveLocked ord replaceID r1 else (r1, []))
                      in if \<not> canAddSessionLocked r2 (b_SiteUID binding) (b_UserID binding) (b_CodespaceUUID binding)
                         then (Inl errGatewaySessionLimitReached, r2, cancels1 @ cancels2)
                         else (Inr token,
                               incrementSessionCountLocked (b_SiteUID binding) (b_UserID binding) (b_CodespaceUUID binding)
                                 (r2\<lparr> sessions := fmupd i session (sessions r2) \<rparr>),
                               cancels1 @ cancels2)))))"

text \<open>
  The scan of \<open>AuthenticateAny\<close>: \<open>Inl\<close> is the early return that reports an ambiguity,
  \<open>Inr\<close> what \<open>matched\<close> is at the end.
\<close>

fun match_loop ::
    "sessionRegistry \<Rightarrow> string \<Rightarrow> string \<Rightarrow> time \<Rightarrow> time \<Rightarrow> gatewaySessionTicket option \<Rightarrow> string list
     \<Rightarrow> unit + gatewaySessionTicket option" where
  "match_loop r codespaceUUID endpointID now wall matched [] = Inr matched"
| "match_loop r codespaceUUID endpointID now wall matched (token # ids) =
     (case open_ticket (tickets r) token now wall of
        None \<Rightarrow> match_loop r codespaceUUID endpointID now wall matched ids
      | Some ticket \<Rightarrow>
          if t_CodespaceUUID ticket \<noteq> codespaceUUID \<or> t_EndpointID ticket \<noteq> endpointID
          then match_loop r codespaceUUID endpointID now wall matched ids
          else if (case matched of None \<Rightarrow> False | Some m \<Rightarrow> t_ID m \<noteq> t_ID ticket) then Inl ()
          else match_loop r codespaceUUID endpointID now wall (Some ticket) ids)"

definition session_of_ticket :: "gatewaySessionTicket \<Rightarrow> gatewaySession" where
  "session_of_ticket m =
     \<lparr> s_id = t_ID m, s_siteUID = t_SiteUID m, s_userID = t_UserID m, s_codespaceUUID = t_CodespaceUUID m,
       s_endpointID = t_EndpointID m, s_created = time_UnixMilli (t_IssuedAt m), s_lastActive = zero_time,
       s_established = True, s_expires = time_UnixMilli (t_ExpiresAt m), s_token = '''' \<rparr>"

text \<open>The last part of \<open>AuthenticateAny\<close>: touch the session, which the registry holds, and issue a new ticket.\<close>

definition authenticate_touch ::
    "gatewaySession \<Rightarrow> time \<Rightarrow> (nat \<Rightarrow> string option) \<Rightarrow> sessionRegistry \<Rightarrow> (gatewaySession \<times> bool \<times> bool) \<times> sessionRegistry" where
  "authenticate_touch session now random r =
     (let session = session\<lparr> s_established := True, s_lastActive := now \<rparr>
      in case issueTicket r session now random of
           Inl e \<Rightarrow> ((zero_session, False, False), r\<lparr> sessions := fmupd (s_id session) session (sessions r) \<rparr>)
         | Inr token \<Rightarrow>
             (let session = session\<lparr> s_token := token \<rparr>
              in ((session, True, False), r\<lparr> sessions := fmupd (s_id session) session (sessions r) \<rparr>)))"

definition authenticate_matched ::
    "gatewaySessionTicket \<Rightarrow> time \<Rightarrow> (nat \<Rightarrow> string option) \<Rightarrow> sessionRegistry \<Rightarrow> (gatewaySession \<times> bool \<times> bool) \<times> sessionRegistry" where
  "authenticate_matched m now random r =
     (case fmlookup (sessions r) (t_ID m) of
        None \<Rightarrow>
          if \<not> canAddSessionLocked r (t_SiteUID m) (t_UserID m) (t_CodespaceUUID m)
          then ((zero_session, False, False), r)
          else
            (let session = session_of_ticket m
             in authenticate_touch session now random
                  (incrementSessionCountLocked (s_siteUID session) (s_userID session) (s_codespaceUUID session)
                     (r\<lparr> sessions := fmupd (s_id session) session (sessions r) \<rparr>)))
      | Some session \<Rightarrow>
          if s_siteUID session \<noteq> t_SiteUID m \<or> s_userID session \<noteq> t_UserID m
             \<or> s_codespaceUUID session \<noteq> t_CodespaceUUID m \<or> s_endpointID session \<noteq> t_EndpointID m
          then ((zero_session, False, False), r)
          else authenticate_touch session now random r)"

definition AuthenticateAny ::
    "iteration \<Rightarrow> string list \<Rightarrow> string \<Rightarrow> string \<Rightarrow> time \<Rightarrow> time \<Rightarrow> (nat \<Rightarrow> string option) \<Rightarrow> sessionRegistry
     \<Rightarrow> (gatewaySession \<times> bool \<times> bool) \<times> sessionRegistry \<times> nat list" where
  "AuthenticateAny ord ids codespaceUUID endpointID now wall random r =
     (if ids = [] \<or> codespaceUUID = '''' \<or> endpointID = '''' then ((zero_session, False, False), r, [])
      else case match_loop r codespaceUUID endpointID now wall None ids of
        Inl _ \<Rightarrow> ((zero_session, False, True), r, [])
      | Inr None \<Rightarrow> ((zero_session, False, False), r, [])
      | Inr (Some m) \<Rightarrow>
          (let (r1, cancels) = dropExpiredSessionsLocked ord now wall r;
               (answer, r2) = authenticate_matched m now random r1
           in (answer, r2, cancels)))"

text \<open>
  \<open>beginLive\<close> returns a release function, or nil when the limits refuse the connection. The
  release function is either the empty one or the closure over its codespace and live id.
\<close>

datatype release = ReleaseNothing | ReleaseLive string int

definition beginLive ::
    "iteration \<Rightarrow> string \<Rightarrow> gatewayLiveSession \<Rightarrow> time \<Rightarrow> time \<Rightarrow> sessionRegistry
     \<Rightarrow> release option \<times> sessionRegistry \<times> nat list" where
  "beginLive ord codespaceUUID entry now wall r =
     (if codespaceUUID = '''' then (Some ReleaseNothing, r, [])
      else
        (let (r1, cancels) = (if l_countsSession entry then dropExpiredSessionsLocked ord now wall r else (r, []))
         in if l_countsSession entry \<and> \<not> canAddSessionLocked r1 (l_siteUID entry) (l_userID entry) codespaceUUID
            then (None, r1, cancels)
            else
              (let r2 = (if l_countsSession entry
                         then incrementSessionCountLocked (l_siteUID entry) (l_userID entry) codespaceUUID r1 else r1);
                   liveID = wrap64 (nextLiveID r2 + 1);
                   r3 = r2\<lparr> nextLiveID := liveID, live := counter_inc (live r2) codespaceUUID,
                           liveEntries := fmupd (codespaceUUID, liveID) entry (liveEntries r2) \<rparr>
               in (Some (ReleaseLive codespaceUUID liveID), signalActivityChange r3, cancels))))"

text \<open>The release function; \<open>fired\<close> is whether its \<open>sync.Once\<close> has run before.\<close>

definition runRelease :: "bool \<Rightarrow> release \<Rightarrow> sessionRegistry \<Rightarrow> sessionRegistry" where
  "runRelease fired rel r =
     (case rel of
        ReleaseNothing \<Rightarrow> r
      | ReleaseLive codespaceUUID liveID \<Rightarrow>
          if fired then r
          else case fmlookup (liveEntries r) (codespaceUUID, liveID) of
            None \<Rightarrow> r
          | Some current \<Rightarrow>
              (let r1 = (if l_countsSession current
                         then decrementSessionCountLocked (l_siteUID current) (l_userID current) codespaceUUID r else r);
                   r2 = r1\<lparr> liveEntries := fmdrop (codespaceUUID, liveID) (liveEntries r1) \<rparr>
               in signalActivityChange (decrementLiveLocked codespaceUUID r2)))"

definition BeginSessionCancelable ::
    "iteration \<Rightarrow> string \<Rightarrow> string \<Rightarrow> nat option \<Rightarrow> time \<Rightarrow> sessionRegistry \<Rightarrow> release option \<times> sessionRegistry \<times> nat list" where
  "BeginSessionCancelable ord sessionID codespaceUUID cancel wall r =
     (let sessionID = (case open_ticket (tickets r) sessionID wall wall of Some ticket \<Rightarrow> t_ID ticket | None \<Rightarrow> sessionID)
      in beginLive ord codespaceUUID
           \<lparr> l_cancel = cancel, l_sessionID = sessionID, l_siteUID = '''', l_userID = 0, l_countsSession = False \<rparr>
           zero_time wall r)"

definition BeginSSHSession ::
    "iteration \<Rightarrow> string \<Rightarrow> string \<Rightarrow> int \<Rightarrow> nat option \<Rightarrow> time \<Rightarrow> time \<Rightarrow> sessionRegistry
     \<Rightarrow> (release \<times> bool) \<times> sessionRegistry \<times> nat list" where
  "BeginSSHSession ord siteUID codespaceUUID userID cancel now wall r =
     (if siteUID = '''' \<or> codespaceUUID = '''' \<or> userID \<le> 0 then ((ReleaseNothing, False), r, [])
      else
        (let (rel, r1, cancels) = beginLive ord codespaceUUID
               \<lparr> l_cancel = cancel, l_sessionID = '''', l_siteUID = siteUID, l_userID = userID, l_countsSession = True \<rparr>
               now wall r
         in case rel of None \<Rightarrow> ((ReleaseNothing, False), r1, cancels) | Some f \<Rightarrow> ((f, True), r1, cancels)))"

text \<open>One turn of the loop of \<open>DeleteEndpoint\<close> and \<open>DeleteCodespace\<close> over the sessions; the deleted ids are collected.\<close>

definition deleteSessionIf ::
    "(gatewaySession \<Rightarrow> bool) \<Rightarrow> string \<Rightarrow> sessionRegistry \<times> string list \<Rightarrow> sessionRegistry \<times> string list" where
  "deleteSessionIf P i acc =
     (case acc of (r, deleted) \<Rightarrow>
       (case fmlookup (sessions r) i of
          None \<Rightarrow> (r, deleted)
        | Some session \<Rightarrow>
            if P session then (deleteGatewaySessionLocked i r, deleted @ [i]) else (r, deleted)))"

definition DeleteEndpoint ::
    "iteration \<Rightarrow> string \<Rightarrow> string \<Rightarrow> sessionRegistry option \<Rightarrow> int \<times> sessionRegistry option \<times> nat list" where
  "DeleteEndpoint ord codespaceUUID endpointID registry =
     (case registry of
        None \<Rightarrow> (0, None, [])
      | Some r \<Rightarrow>
          if codespaceUUID = '''' \<or> endpointID = '''' then (0, Some r, [])
          else
            (let (r1, deletedIDs) =
                   fold (deleteSessionIf (\<lambda>s. s_codespaceUUID s = codespaceUUID \<and> s_endpointID s = endpointID))
                     (session_ids ord) (r, []);
                 (r2, cancels) =
                   fold (\<lambda>i (r, cs). case deleteLiveEntriesLocked ord codespaceUUID i r of (r', found) \<Rightarrow> (r', cs @ found))
                     deletedIDs (r1, [])
             in (int (length deletedIDs), Some r2, cancels)))"

definition deleteCodespaceEntry ::
    "string \<Rightarrow> int \<Rightarrow> sessionRegistry \<times> nat list \<Rightarrow> sessionRegistry \<times> nat list" where
  "deleteCodespaceEntry codespaceUUID liveID acc =
     (case acc of (r, cancels) \<Rightarrow>
       (case fmlookup (liveEntries r) (codespaceUUID, liveID) of
          None \<Rightarrow> (r, cancels)
        | Some entry \<Rightarrow>
            (let r1 = (if l_countsSession entry
                       then decrementSessionCountLocked (l_siteUID entry) (l_userID entry) codespaceUUID r else r)
             in (r1\<lparr> liveEntries := fmdrop (codespaceUUID, liveID) (liveEntries r1) \<rparr>, cancels @ cancel_of entry))))"

definition DeleteCodespace ::
    "iteration \<Rightarrow> string \<Rightarrow> sessionRegistry option \<Rightarrow> int \<times> sessionRegistry option \<times> nat list" where
  "DeleteCodespace ord codespaceUUID registry =
     (case registry of
        None \<Rightarrow> (0, None, [])
      | Some r \<Rightarrow>
          if codespaceUUID = '''' then (0, Some r, [])
          else
            (let (r1, deletedIDs) =
                   fold (deleteSessionIf (\<lambda>s. s_codespaceUUID s = codespaceUUID)) (session_ids ord) (r, []);
                 (r2, cancels) = fold (deleteCodespaceEntry codespaceUUID) (live_ids ord) (r1, [])
             in (int (length deletedIDs),
                 Some (r2\<lparr> liveEntries := fmfilter (\<lambda>k. fst k \<noteq> codespaceUUID) (liveEntries r2),
                            live := fmdrop codespaceUUID (live r2) \<rparr>),
                 cancels)))"

end
