(* ===== verification/Session_Invariant.thy ===== *)
theory Session_Invariant
  imports Session_Registry
begin

text \<open>
  The session registry as a machine whose steps are its methods, and what holds in every
  reachable state: the three counter maps are exact, the limits are respected, and every stored
  session and live entry is well formed. The properties that follow describe deletion, expiry,
  replacement and authentication.
\<close>

section \<open>The invariant\<close>

definition codespace_slots :: "sessionRegistry \<Rightarrow> string \<Rightarrow> int" where
  "codespace_slots r c =
     entries_with (sessions r) (\<lambda>_ s. s_codespaceUUID s = c) +
     entries_with (liveEntries r) (\<lambda>k e. fst k = c \<and> l_countsSession e)"

definition user_slots :: "sessionRegistry \<Rightarrow> gatewayUserKey \<Rightarrow> int" where
  "user_slots r u =
     entries_with (sessions r) (\<lambda>_ s. (s_siteUID s, s_userID s) = u) +
     entries_with (liveEntries r) (\<lambda>_ e. l_countsSession e \<and> (l_siteUID e, l_userID e) = u)"

definition live_slots :: "sessionRegistry \<Rightarrow> string \<Rightarrow> int" where
  "live_slots r c = entries_with (liveEntries r) (\<lambda>k _. fst k = c)"

definition session_wf :: "string \<Rightarrow> gatewaySession \<Rightarrow> bool" where
  "session_wf i s \<longleftrightarrow>
     s_id s = i \<and> i \<noteq> '''' \<and> s_siteUID s \<noteq> '''' \<and> 0 < s_userID s \<and> s_codespaceUUID s \<noteq> '''' \<and> s_endpointID s \<noteq> ''''"

definition entry_wf :: "int \<Rightarrow> string \<times> int \<Rightarrow> gatewayLiveSession \<Rightarrow> bool" where
  "entry_wf n k e \<longleftrightarrow> fst k \<noteq> '''' \<and> snd k \<le> n \<and> (l_countsSession e \<longrightarrow> l_sessionID e = '''')"

definition registry_ok :: "sessionRegistry \<Rightarrow> bool" where
  "registry_ok r \<longleftrightarrow>
     gocounter.counts (sessionCountByCodespace r) (codespace_slots r) \<and>
     gocounter.counts (sessionCountByUser r) (user_slots r) \<and>
     gocounter.counts (live r) (live_slots r) \<and>
     (\<forall>c. codespace_slots r c \<le> maxSessionsPerCodespace r) \<and>
     (\<forall>u. user_slots r u \<le> maxSessionsPerUser r) \<and>
     fmpred session_wf (sessions r) \<and>
     fmpred (entry_wf (nextLiveID r)) (liveEntries r)"

lemma registry_okD:
  assumes "registry_ok r"
  shows "gocounter.counts (sessionCountByCodespace r) (codespace_slots r)"
    and "gocounter.counts (sessionCountByUser r) (user_slots r)"
    and "gocounter.counts (live r) (live_slots r)"
    and "codespace_slots r c \<le> maxSessionsPerCodespace r"
    and "user_slots r u \<le> maxSessionsPerUser r"
    and "fmpred session_wf (sessions r)"
    and "fmpred (entry_wf (nextLiveID r)) (liveEntries r)"
  using assms unfolding registry_ok_def by blast+

lemmas slots_defs = codespace_slots_def user_slots_def live_slots_def

text \<open>What a deletion may change.\<close>

definition submap :: "('k, 'v) fmap \<Rightarrow> ('k, 'v) fmap \<Rightarrow> bool" where
  "submap m n \<longleftrightarrow> (\<forall>k v. fmlookup m k = Some v \<longrightarrow> fmlookup n k = Some v)"

lemma submap_refl [simp]: "submap m m"
  by (simp add: submap_def)

lemma submap_trans: "submap m n \<Longrightarrow> submap n k \<Longrightarrow> submap m k"
  by (simp add: submap_def)

lemma submap_drop [simp]: "submap (fmdrop k m) m"
  by (simp add: submap_def)

definition shrinks :: "sessionRegistry \<Rightarrow> sessionRegistry \<Rightarrow> bool" where
  "shrinks r r' \<longleftrightarrow>
     submap (sessions r') (sessions r) \<and> submap (liveEntries r') (liveEntries r) \<and> nextLiveID r' = nextLiveID r \<and>
     ttl r' = ttl r \<and> idleTimeout r' = idleTimeout r \<and> maxSessionsPerCodespace r' = maxSessionsPerCodespace r \<and>
     maxSessionsPerUser r' = maxSessionsPerUser r \<and> tickets r' = tickets r"

lemma shrinks_refl [simp]: "shrinks r r"
  by (simp add: shrinks_def)

lemma shrinks_trans: "shrinks r s \<Longrightarrow> shrinks s t \<Longrightarrow> shrinks r t"
  unfolding shrinks_def by (auto intro: submap_trans)

lemma shrinks_session: "shrinks r r' \<Longrightarrow> fmlookup (sessions r') i = Some s \<Longrightarrow> fmlookup (sessions r) i = Some s"
  by (auto simp: shrinks_def submap_def)

lemma shrinks_fresh: "shrinks r r' \<Longrightarrow> fmlookup (sessions r) i = None \<Longrightarrow> fmlookup (sessions r') i = None"
  by (metis shrinks_session not_None_eq)

lemma fold_inv: "(\<And>x a. P a \<Longrightarrow> P (f x a)) \<Longrightarrow> P a \<Longrightarrow> P (fold f xs a)"
  by (induction xs arbitrary: a) auto

section \<open>Deletions\<close>

lemma slots_pos_session:
  assumes "fmlookup (sessions r) i = Some s"
  shows "0 < codespace_slots r (s_codespaceUUID s)" and "0 < user_slots r (s_siteUID s, s_userID s)"
proof -
  have "0 < entries_with (sessions r) (\<lambda>_ t. s_codespaceUUID t = s_codespaceUUID s)"
    by (rule entries_with_pos [OF assms]) simp
  then show "0 < codespace_slots r (s_codespaceUUID s)" by (simp add: codespace_slots_def add_pos_nonneg)
  have "0 < entries_with (sessions r) (\<lambda>_ t. (s_siteUID t, s_userID t) = (s_siteUID s, s_userID s))"
    by (rule entries_with_pos [OF assms]) simp
  then show "0 < user_slots r (s_siteUID s, s_userID s)"
    unfolding user_slots_def by (rule add_pos_nonneg) simp
qed

lemma slots_pos_entry:
  assumes "fmlookup (liveEntries r) (c, n) = Some e"
  shows "0 < live_slots r c"
    and "l_countsSession e \<Longrightarrow> 0 < codespace_slots r c"
    and "l_countsSession e \<Longrightarrow> 0 < user_slots r (l_siteUID e, l_userID e)"
proof -
  show "0 < live_slots r c" unfolding live_slots_def by (rule entries_with_pos [OF assms]) simp
  assume e: "l_countsSession e"
  have "0 < entries_with (liveEntries r) (\<lambda>k e. fst k = c \<and> l_countsSession e)"
    by (rule entries_with_pos [OF assms]) (simp add: e)
  then show "0 < codespace_slots r c" by (simp add: codespace_slots_def add_nonneg_pos)
  have "0 < entries_with (liveEntries r)
      (\<lambda>_ d. l_countsSession d \<and> (l_siteUID d, l_userID d) = (l_siteUID e, l_userID e))"
    by (rule entries_with_pos [OF assms]) (simp add: e)
  then show "0 < user_slots r (l_siteUID e, l_userID e)"
    unfolding user_slots_def by (simp add: add_nonneg_pos)
qed

lemma deleteGatewaySession_ok:
  assumes ok: "registry_ok r"
  shows "registry_ok (deleteGatewaySessionLocked i r)"
proof (cases "fmlookup (sessions r) i")
  case None
  then show ?thesis using ok by (simp add: deleteGatewaySessionLocked_def)
next
  case (Some s)
  define r' where "r' = deleteGatewaySessionLocked i r"
  note d = registry_okD [OF ok]
  have f: "sessionCountByCodespace r' = counter_dec (sessionCountByCodespace r) (s_codespaceUUID s)"
    "sessionCountByUser r' = counter_dec (sessionCountByUser r) (s_siteUID s, s_userID s)"
    "live r' = live r" "liveEntries r' = liveEntries r" "sessions r' = fmdrop i (sessions r)"
    "maxSessionsPerCodespace r' = maxSessionsPerCodespace r" "maxSessionsPerUser r' = maxSessionsPerUser r"
    "nextLiveID r' = nextLiveID r"
    using Some by (simp_all add: r'_def deleteGatewaySessionLocked_def decrementSessionCountLocked_def)
  have c: "codespace_slots r' j = codespace_slots r j - (if j = s_codespaceUUID s then 1 else 0)" for j
    using Some by (simp add: f codespace_slots_def entries_with_drop)
  have u: "user_slots r' j = user_slots r j - (if j = (s_siteUID s, s_userID s) then 1 else 0)" for j
    using Some by (auto simp: f user_slots_def entries_with_drop)
  have "gocounter.counts (sessionCountByCodespace r') (codespace_slots r')"
    unfolding f by (rule gocounter.counts_dec [OF d(1) slots_pos_session(1) [OF Some] c])
  moreover have "gocounter.counts (sessionCountByUser r') (user_slots r')"
    unfolding f by (rule gocounter.counts_dec [OF d(2) slots_pos_session(2) [OF Some] u])
  moreover have "gocounter.counts (live r') (live_slots r')"
    using d(3) unfolding f live_slots_def .
  moreover have "codespace_slots r' j \<le> maxSessionsPerCodespace r'" for j
    using d(4) [of j] unfolding c f by auto
  moreover have "user_slots r' j \<le> maxSessionsPerUser r'" for j
    using d(5) [of j] unfolding u f by auto
  moreover have "fmpred session_wf (sessions r')" "fmpred (entry_wf (nextLiveID r')) (liveEntries r')"
    using d(6,7) unfolding f by (auto intro: fmpred_drop)
  ultimately show ?thesis unfolding registry_ok_def r'_def by blast
qed

lemma deleteGatewaySession_shrinks: "shrinks r (deleteGatewaySessionLocked i r)"
  by (simp add: deleteGatewaySessionLocked_def decrementSessionCountLocked_def shrinks_def split: option.split)

text \<open>
  Dropping one live entry: the shared step of \<open>deleteLiveEntriesLocked\<close>, \<open>DeleteCodespace\<close> and the
  release function. The session counters move with an entry that counts as a session.
\<close>

definition drop_entry :: "string \<times> int \<Rightarrow> sessionRegistry \<Rightarrow> sessionRegistry" where
  "drop_entry k r =
     (case fmlookup (liveEntries r) k of
        None \<Rightarrow> r
      | Some e \<Rightarrow>
          (let r1 = (if l_countsSession e then decrementSessionCountLocked (l_siteUID e) (l_userID e) (fst k) r else r)
           in r1\<lparr> liveEntries := fmdrop k (liveEntries r1), live := counter_dec (live r1) (fst k) \<rparr>))"

lemma drop_entry_ok:
  assumes ok: "registry_ok r"
  shows "registry_ok (drop_entry (c, n) r)"
proof (cases "fmlookup (liveEntries r) (c, n)")
  case None
  then show ?thesis using ok by (simp add: drop_entry_def)
next
  case (Some e)
  define r' where "r' = drop_entry (c, n) r"
  note d = registry_okD [OF ok]
  have f: "sessionCountByCodespace r' = (if l_countsSession e then counter_dec (sessionCountByCodespace r) c else sessionCountByCodespace r)"
    "sessionCountByUser r' =
       (if l_countsSession e then counter_dec (sessionCountByUser r) (l_siteUID e, l_userID e) else sessionCountByUser r)"
    "live r' = counter_dec (live r) c" "liveEntries r' = fmdrop (c, n) (liveEntries r)" "sessions r' = sessions r"
    "maxSessionsPerCodespace r' = maxSessionsPerCodespace r" "maxSessionsPerUser r' = maxSessionsPerUser r"
    "nextLiveID r' = nextLiveID r"
    using Some by (simp_all add: r'_def drop_entry_def decrementSessionCountLocked_def Let_def)
  have cs: "codespace_slots r' j = codespace_slots r j - (if l_countsSession e \<and> j = c then 1 else 0)" for j
    using Some by (auto simp: f codespace_slots_def entries_with_drop)
  have us: "user_slots r' j = user_slots r j - (if l_countsSession e \<and> j = (l_siteUID e, l_userID e) then 1 else 0)" for j
    using Some by (auto simp: f user_slots_def entries_with_drop)
  have ls: "live_slots r' j = live_slots r j - (if j = c then 1 else 0)" for j
    using Some by (simp add: f live_slots_def entries_with_drop)
  have "gocounter.counts (sessionCountByCodespace r') (codespace_slots r')"
    using gocounter.counts_dec [OF d(1) slots_pos_entry(2) [OF Some], of "codespace_slots r'"]
      gocounter.counts_cong [OF d(1), of "codespace_slots r'"] cs by (simp add: f)
  moreover have "gocounter.counts (sessionCountByUser r') (user_slots r')"
    using gocounter.counts_dec [OF d(2) slots_pos_entry(3) [OF Some], of "user_slots r'"]
      gocounter.counts_cong [OF d(2), of "user_slots r'"] us by (simp add: f)
  moreover have "gocounter.counts (live r') (live_slots r')"
    unfolding f by (rule gocounter.counts_dec [OF d(3) slots_pos_entry(1) [OF Some] ls])
  moreover have "codespace_slots r' j \<le> maxSessionsPerCodespace r'" for j
    using d(4) [of j] unfolding cs f by auto
  moreover have "user_slots r' j \<le> maxSessionsPerUser r'" for j
    using d(5) [of j] unfolding us f by auto
  moreover have "fmpred session_wf (sessions r')" "fmpred (entry_wf (nextLiveID r')) (liveEntries r')"
    using d(6,7) unfolding f by (auto intro: fmpred_drop)
  ultimately show ?thesis unfolding registry_ok_def r'_def by blast
qed

lemma drop_entry_shrinks: "shrinks r (drop_entry k r)"
  by (simp add: drop_entry_def decrementSessionCountLocked_def shrinks_def Let_def split: option.split)

lemma deleteLiveEntry_cases:
  assumes "registry_ok r" and "sid \<noteq> ''''"
  shows "fst (deleteLiveEntry c sid n (r, cs)) = r \<or> fst (deleteLiveEntry c sid n (r, cs)) = drop_entry (c, n) r"
proof (cases "fmlookup (liveEntries r) (c, n)")
  case (Some e)
  have "entry_wf (nextLiveID r) (c, n) e" using registry_okD(7) [OF assms(1)] Some by (rule fmpredD)
  then have "l_sessionID e = sid \<Longrightarrow> \<not> l_countsSession e" using assms(2) by (auto simp: entry_wf_def)
  then show ?thesis
    using Some by (auto simp: deleteLiveEntry_def drop_entry_def decrementLiveLocked_def Let_def)
qed (simp add: deleteLiveEntry_def)

abbreviation (input) ok_within :: "sessionRegistry \<Rightarrow> sessionRegistry \<Rightarrow> bool" where
  "ok_within r r' \<equiv> registry_ok r' \<and> shrinks r r'"

lemma deleteLiveEntries_ok:
  assumes "registry_ok r"
  shows "ok_within r (fst (deleteLiveEntriesLocked ord c sid r))"
proof (cases "c = '''' \<or> sid = ''''")
  case False
  have step: "ok_within r (fst (deleteLiveEntry c sid n a))" if "ok_within r (fst a)" for n a
  proof -
    have "ok_within r (drop_entry (c, n) (fst a))"
      using that drop_entry_ok [of "fst a" c n] shrinks_trans [OF _ drop_entry_shrinks] by blast
    then show ?thesis using that deleteLiveEntry_cases [of "fst a" sid c n "snd a"] False by auto
  qed
  have "ok_within r (fst (fold (deleteLiveEntry c sid) (live_ids ord) (r, [])))"
    by (rule fold_inv [where P = "\<lambda>a. ok_within r (fst a)"]) (use step assms in auto)
  with False show ?thesis by (auto simp: deleteLiveEntriesLocked_def)
qed (use assms in \<open>auto simp: deleteLiveEntriesLocked_def\<close>)

lemma deleteGatewaySessionAndLive_ok:
  assumes "registry_ok r"
  shows "ok_within r (fst (deleteGatewaySessionAndLiveLocked ord i r))"
proof (cases "fmlookup (sessions r) i")
  case (Some s)
  have "ok_within (deleteGatewaySessionLocked i r)
      (fst (deleteLiveEntriesLocked ord (s_codespaceUUID s) i (deleteGatewaySessionLocked i r)))"
    by (rule deleteLiveEntries_ok) (rule deleteGatewaySession_ok [OF assms])
  then show ?thesis
    using Some shrinks_trans [OF deleteGatewaySession_shrinks] by (auto simp: deleteGatewaySessionAndLiveLocked_def)
qed (simp add: deleteGatewaySessionAndLiveLocked_def assms)

lemma dropExpired_ok:
  assumes "registry_ok r"
  shows "ok_within r (fst (dropExpiredSessionsLocked ord now wall r))"
proof -
  have step: "ok_within r (fst a) \<Longrightarrow> ok_within r (fst (dropExpiredSession ord t i a))" for t i a
  proof -
    assume a: "ok_within r (fst a)"
    then have "ok_within r (fst (deleteGatewaySessionAndLiveLocked ord i (fst a)))"
      using deleteGatewaySessionAndLive_ok [of "fst a" ord i] shrinks_trans by blast
    with a show "ok_within r (fst (dropExpiredSession ord t i a))"
      by (auto simp: dropExpiredSession_def split: prod.split option.split)
  qed
  show ?thesis unfolding dropExpiredSessionsLocked_def Let_def
    by (rule fold_inv [where P = "\<lambda>a. ok_within r (fst a)"]) (use step assms in auto)
qed

lemma deleteSessions_ok:
  assumes "registry_ok r"
  shows "ok_within r (fst (fold (deleteSessionIf P) xs (r, [])))"
proof -
  have step: "ok_within r (fst (deleteSessionIf P i a))" if "ok_within r (fst a)" for i a
  proof -
    have "ok_within r (deleteGatewaySessionLocked i (fst a))"
      using that deleteGatewaySession_ok [of "fst a" i] shrinks_trans [OF _ deleteGatewaySession_shrinks] by blast
    with that show ?thesis by (auto simp: deleteSessionIf_def split: prod.split option.split)
  qed
  show ?thesis by (rule fold_inv [where P = "\<lambda>a. ok_within r (fst a)"]) (use step assms in auto)
qed

lemma DeleteEndpoint_ok:
  assumes "registry_ok r" and "DeleteEndpoint ord c e (Some r) = (n, Some r', cs)"
  shows "ok_within r r'"
proof -
  let ?F = "\<lambda>i (r, cs). case deleteLiveEntriesLocked ord c i r of (r', found) \<Rightarrow> (r', cs @ found)"
  have step: "ok_within r (fst (?F i a))" if "ok_within r (fst a)" for i a
    using that deleteLiveEntries_ok [of "fst a" ord c i] shrinks_trans [of r "fst a"] by (auto split: prod.split)
  have "ok_within r (fst (fold ?F xs (a, [])))" if "ok_within r a" for xs a
    by (rule fold_inv [where P = "\<lambda>a. ok_within r (fst a)"]) (use step that in auto)
  then have two: "ok_within r (fst (fold ?F xs (fst (fold (deleteSessionIf P) ys (r, [])), [])))" for xs P ys
    using deleteSessions_ok [OF assms(1)] by blast
  let ?p = "fold (deleteSessionIf (\<lambda>s. s_codespaceUUID s = c \<and> s_endpointID s = e)) (session_ids ord) (r, [])"
  have "r' = (if c = [] \<or> e = [] then r else fst (fold ?F (snd ?p) (fst ?p, [])))"
    using assms(2) unfolding DeleteEndpoint_def Let_def option.case prod.case_eq_if [of "\<lambda>r1 deletedIDs. _ r1 deletedIDs" ?p]
      prod.case_eq_if [of _ "fold ?F _ _"]
    by (auto split: if_splits)
  then show ?thesis using two [of "snd ?p" _ "session_ids ord"] assms(1) by (cases "c = [] \<or> e = []") simp_all
qed

section \<open>Growth\<close>

lemma add_session_ok:
  assumes ok: "registry_ok r" and fresh: "fmlookup (sessions r) i = None" and wf: "session_wf i s"
    and can: "canAddSessionLocked r (s_siteUID s) (s_userID s) (s_codespaceUUID s)"
  shows "registry_ok (incrementSessionCountLocked (s_siteUID s) (s_userID s) (s_codespaceUUID s)
           (r\<lparr> sessions := fmupd i s (sessions r) \<rparr>))"
proof -
  define r' where "r' = incrementSessionCountLocked (s_siteUID s) (s_userID s) (s_codespaceUUID s)
           (r\<lparr> sessions := fmupd i s (sessions r) \<rparr>)"
  note d = registry_okD [OF ok]
  have f: "sessionCountByCodespace r' = counter_inc (sessionCountByCodespace r) (s_codespaceUUID s)"
    "sessionCountByUser r' = counter_inc (sessionCountByUser r) (s_siteUID s, s_userID s)"
    "live r' = live r" "liveEntries r' = liveEntries r" "sessions r' = fmupd i s (sessions r)"
    "maxSessionsPerCodespace r' = maxSessionsPerCodespace r" "maxSessionsPerUser r' = maxSessionsPerUser r"
    "nextLiveID r' = nextLiveID r"
    by (simp_all add: r'_def incrementSessionCountLocked_def)
  have c: "codespace_slots r' j = codespace_slots r j + (if j = s_codespaceUUID s then 1 else 0)" for j
    using fresh by (auto simp: f codespace_slots_def entries_with_upd)
  have u: "user_slots r' j = user_slots r j + (if j = (s_siteUID s, s_userID s) then 1 else 0)" for j
    using fresh by (auto simp: f user_slots_def entries_with_upd)
  have room: "codespace_slots r (s_codespaceUUID s) < maxSessionsPerCodespace r"
      "user_slots r (s_siteUID s, s_userID s) < maxSessionsPerUser r"
    using can gocounter.counts_get [OF d(1)] gocounter.counts_get [OF d(2)] by (simp_all add: canAddSessionLocked_def)
  have "gocounter.counts (sessionCountByCodespace r') (codespace_slots r')"
    unfolding f by (rule gocounter.counts_inc [OF d(1) c])
  moreover have "gocounter.counts (sessionCountByUser r') (user_slots r')"
    unfolding f by (rule gocounter.counts_inc [OF d(2) u])
  moreover have "gocounter.counts (live r') (live_slots r')" using d(3) unfolding f live_slots_def .
  moreover have "codespace_slots r' j \<le> maxSessionsPerCodespace r'" for j
    using d(4) [of j] room unfolding c f by auto
  moreover have "user_slots r' j \<le> maxSessionsPerUser r'" for j
    using d(5) [of j] room unfolding u f by auto
  moreover have "fmpred session_wf (sessions r')" "fmpred (entry_wf (nextLiveID r')) (liveEntries r')"
    using d(6,7) wf unfolding f by (auto intro: fmpred_upd)
  ultimately show ?thesis unfolding registry_ok_def r'_def by blast
qed

lemma touch_session_ok:
  assumes ok: "registry_ok r" and old: "fmlookup (sessions r) i = Some s" and wf: "session_wf i t"
    and "s_siteUID t = s_siteUID s" "s_userID t = s_userID s" "s_codespaceUUID t = s_codespaceUUID s"
  shows "registry_ok (r\<lparr> sessions := fmupd i t (sessions r) \<rparr>)" (is "registry_ok ?r")
proof -
  note d = registry_okD [OF ok]
  have c: "codespace_slots ?r = codespace_slots r" and u: "user_slots ?r = user_slots r" and l: "live_slots ?r = live_slots r"
    using assms by (auto simp: slots_defs entries_with_upd fun_eq_iff)
  show ?thesis unfolding registry_ok_def c u l
    using d wf by (simp add: fmpred_upd)
qed

lemma add_entry_ok:
  assumes ok: "registry_ok r" and cs: "c \<noteq> []" and n: "nextLiveID r < n"
    and wf: "l_countsSession e \<Longrightarrow> l_sessionID e = []"
    and can: "l_countsSession e \<Longrightarrow> canAddSessionLocked r (l_siteUID e) (l_userID e) c"
    and r2: "r2 = (if l_countsSession e then incrementSessionCountLocked (l_siteUID e) (l_userID e) c r else r)"
    and r': "r' = r2\<lparr> nextLiveID := n, live := counter_inc (live r2) c, liveEntries := fmupd (c, n) e (liveEntries r2) \<rparr>"
  shows "registry_ok r'"
proof -
  note d = registry_okD [OF ok]
  have f: "sessionCountByCodespace r' = (if l_countsSession e then counter_inc (sessionCountByCodespace r) c else sessionCountByCodespace r)"
    "sessionCountByUser r' =
       (if l_countsSession e then counter_inc (sessionCountByUser r) (l_siteUID e, l_userID e) else sessionCountByUser r)"
    "live r' = counter_inc (live r) c" "liveEntries r' = fmupd (c, n) e (liveEntries r)" "sessions r' = sessions r"
    "maxSessionsPerCodespace r' = maxSessionsPerCodespace r" "maxSessionsPerUser r' = maxSessionsPerUser r"
    "nextLiveID r' = n"
    by (simp_all add: r' r2 incrementSessionCountLocked_def)
  have fresh: "fmlookup (liveEntries r) (c, n) = None"
  proof (rule ccontr)
    assume "fmlookup (liveEntries r) (c, n) \<noteq> None"
    then obtain e' where "fmlookup (liveEntries r) (c, n) = Some e'" by auto
    from fmpredD [OF d(7) this] n show False by (simp add: entry_wf_def)
  qed
  have c': "codespace_slots r' j = codespace_slots r j + (if l_countsSession e \<and> j = c then 1 else 0)" for j
    using fresh by (auto simp: f codespace_slots_def entries_with_upd)
  have u': "user_slots r' j = user_slots r j + (if l_countsSession e \<and> j = (l_siteUID e, l_userID e) then 1 else 0)" for j
    using fresh by (auto simp: f user_slots_def entries_with_upd)
  have l': "live_slots r' j = live_slots r j + (if j = c then 1 else 0)" for j
    using fresh by (auto simp: f live_slots_def entries_with_upd)
  have room: "l_countsSession e \<Longrightarrow> codespace_slots r c < maxSessionsPerCodespace r"
      "l_countsSession e \<Longrightarrow> user_slots r (l_siteUID e, l_userID e) < maxSessionsPerUser r"
    using can gocounter.counts_get [OF d(1)] gocounter.counts_get [OF d(2)] by (simp_all add: canAddSessionLocked_def)
  have "gocounter.counts (sessionCountByCodespace r') (codespace_slots r')"
    using gocounter.counts_inc [OF d(1), of "codespace_slots r'" c] gocounter.counts_cong [OF d(1), of "codespace_slots r'"] c'
    by (simp add: f)
  moreover have "gocounter.counts (sessionCountByUser r') (user_slots r')"
    using gocounter.counts_inc [OF d(2), of "user_slots r'" "(l_siteUID e, l_userID e)"]
      gocounter.counts_cong [OF d(2), of "user_slots r'"] u' by (simp add: f)
  moreover have "gocounter.counts (live r') (live_slots r')"
    unfolding f by (rule gocounter.counts_inc [OF d(3) l'])
  moreover have "codespace_slots r' j \<le> maxSessionsPerCodespace r'" for j
    using d(4) [of j] room unfolding c' f by auto
  moreover have "user_slots r' j \<le> maxSessionsPerUser r'" for j
    using d(5) [of j] room unfolding u' f by auto
  moreover have "fmpred session_wf (sessions r')" using d(6) unfolding f .
  moreover have "fmpred (entry_wf n) (liveEntries r)"
    using d(7) n by (force simp: fmpred_iff entry_wf_def)
  then have "fmpred (entry_wf (nextLiveID r')) (liveEntries r')"
    using wf cs unfolding f by (auto intro!: fmpred_upd simp: entry_wf_def)
  ultimately show ?thesis unfolding registry_ok_def by blast
qed

section \<open>Methods\<close>

lemma deleteCodespace_loop:
  "fst (fold (deleteCodespaceEntry c) ns (r\<lparr> live := x \<rparr>, cs)) = (fold (\<lambda>n. drop_entry (c, n)) ns r)\<lparr> live := x \<rparr>"
proof (induction ns arbitrary: r cs)
  case (Cons n ns)
  have "\<exists>cs'. deleteCodespaceEntry c n (r\<lparr> live := x \<rparr>, cs) = ((drop_entry (c, n) r)\<lparr> live := x \<rparr>, cs')"
    by (auto simp: deleteCodespaceEntry_def drop_entry_def decrementSessionCountLocked_def Let_def split: option.split)
  then show ?case using Cons by auto
qed simp

lemma drop_entries_lookup:
  "fmlookup (liveEntries (fold (\<lambda>n. drop_entry (c, n)) ns r)) k =
     (if fst k = c \<and> snd k \<in> set ns then None else fmlookup (liveEntries r) k)"
proof (induction ns arbitrary: r)
  case (Cons n ns)
  have "fmlookup (liveEntries (drop_entry (c, n) r)) k = (if k = (c, n) then None else fmlookup (liveEntries r) k)"
    by (auto simp: drop_entry_def decrementSessionCountLocked_def Let_def split: option.split)
  then show ?case using Cons [of "drop_entry (c, n) r"] by (cases k) auto
qed auto

lemma drop_entries_sessions: "sessions (fold (\<lambda>n. drop_entry (c, n)) ns r) = sessions r"
  by (rule fold_inv [where P = "\<lambda>a. sessions a = sessions r"])
    (simp_all add: drop_entry_def decrementSessionCountLocked_def Let_def split: option.split)

lemma drop_entries_ok:
  assumes "registry_ok r"
  shows "ok_within r (fold (\<lambda>n. drop_entry (c, n)) ns r)"
proof (rule fold_inv [where P = "ok_within r"])
  fix n a
  assume "ok_within r a"
  then show "ok_within r (drop_entry (c, n) a)"
    using drop_entry_ok [of a c n] shrinks_trans [OF _ drop_entry_shrinks] by blast
qed (use assms in simp)

text \<open>The order of an iteration lists every key of the maps it ranges over.\<close>

definition covers :: "iteration \<Rightarrow> sessionRegistry \<Rightarrow> bool" where
  "covers ord r \<longleftrightarrow>
     fBall (fmdom (sessions r)) (\<lambda>i. i \<in> set (session_ids ord)) \<and>
     fBall (fmdom (liveEntries r)) (\<lambda>k. snd k \<in> set (live_ids ord))"

lemma covers_session: "covers ord r \<Longrightarrow> fmlookup (sessions r) i = Some s \<Longrightarrow> i \<in> set (session_ids ord)"
  by (auto simp: covers_def dest: fmdomI)

lemma covers_entry: "covers ord r \<Longrightarrow> fmlookup (liveEntries r) k = Some e \<Longrightarrow> snd k \<in> set (live_ids ord)"
  by (auto simp: covers_def dest: fmdomI)

lemma covers_shrinks: "covers ord r \<Longrightarrow> shrinks r r' \<Longrightarrow> covers ord r'"
proof -
  assume c: "covers ord r" and "shrinks r r'"
  then have "submap (sessions r') (sessions r)" "submap (liveEntries r') (liveEntries r)"
    by (simp_all add: shrinks_def)
  then have "fmdom (sessions r') |\<subseteq>| fmdom (sessions r)" "fmdom (liveEntries r') |\<subseteq>| fmdom (liveEntries r)"
    unfolding submap_def by (meson fmdomE fmdomI fsubsetI)+
  with c show ?thesis unfolding covers_def by (meson fset_mp)
qed

lemma DeleteCodespace_parts:
  assumes "registry_ok r" and "covers ord r" and "c \<noteq> []" and "DeleteCodespace ord c (Some r) = (n, Some r', cs)"
  obtains r1 q where "ok_within r r1" and "ok_within r q" and "sessions q = sessions r1" and "liveEntries r1 = liveEntries r"
    and "r1 = fst (fold (deleteSessionIf (\<lambda>s. s_codespaceUUID s = c)) (session_ids ord) (r, []))"
    and "\<And>k. fmlookup (liveEntries q) k = (if fst k = c then None else fmlookup (liveEntries r) k)"
    and "r' = q\<lparr> live := fmdrop c (live r1) \<rparr>"
proof -
  define r1 where "r1 = fst (fold (deleteSessionIf (\<lambda>s. s_codespaceUUID s = c)) (session_ids ord) (r, []))"
  define q where "q = fold (\<lambda>n. drop_entry (c, n)) (live_ids ord) r1"
  have r1: "ok_within r r1" unfolding r1_def by (rule deleteSessions_ok [OF assms(1)])
  then have q: "ok_within r q"
    unfolding q_def using drop_entries_ok [of r1 c "live_ids ord"] shrinks_trans by blast
  have "liveEntries (deleteGatewaySessionLocked i a) = liveEntries a" for i a
    by (simp add: deleteGatewaySessionLocked_def decrementSessionCountLocked_def split: option.split)
  then have step: "liveEntries (fst (deleteSessionIf P i a)) = liveEntries (fst a)" for P i a
    by (simp add: deleteSessionIf_def split: prod.split option.split)
  have le: "liveEntries r1 = liveEntries r"
    unfolding r1_def by (rule fold_inv [where P = "\<lambda>a. liveEntries (fst a) = liveEntries r"]) (simp_all add: step)
  have lk: "fmlookup (liveEntries q) k = (if fst k = c then None else fmlookup (liveEntries r) k)" for k
    using covers_entry [OF assms(2), of k] unfolding q_def drop_entries_lookup le
    by (cases "fmlookup (liveEntries r) k") auto
  then have flt: "fmfilter (\<lambda>k. fst k \<noteq> c) (liveEntries q) = liveEntries q"
    by (intro fmap_ext) simp
  have "fst (fold (deleteCodespaceEntry c) (live_ids ord) (r1, [])) = q\<lparr> live := live r1 \<rparr>"
    using deleteCodespace_loop [where r = r1 and x = "live r1" and c = c and ns = "live_ids ord" and cs = "[]"]
    by (simp add: q_def)
  then obtain cs' where "fold (deleteCodespaceEntry c) (live_ids ord) (r1, []) = (q\<lparr> live := live r1 \<rparr>, cs')"
    by (metis prod.collapse)
  moreover obtain ids where "fold (deleteSessionIf (\<lambda>s. s_codespaceUUID s = c)) (session_ids ord) (r, []) = (r1, ids)"
    by (metis prod.collapse r1_def)
  ultimately have "r' = q\<lparr> liveEntries := fmfilter (\<lambda>k. fst k \<noteq> c) (liveEntries (q\<lparr> live := live r1 \<rparr>)),
      live := fmdrop c (live r1) \<rparr>"
    using assms(3,4) by (simp add: DeleteCodespace_def)
  moreover have "liveEntries (q\<lparr> live := live r1 \<rparr>) = liveEntries q" by simp
  ultimately have "r' = q\<lparr> live := fmdrop c (live r1) \<rparr>" by (simp only: flt) simp
  moreover have "sessions q = sessions r1" by (simp add: q_def drop_entries_sessions)
  ultimately show thesis using that r1 q le lk r1_def by blast
qed

lemma DeleteCodespace_ok:
  assumes "registry_ok r" and "covers ord r" and "DeleteCodespace ord c (Some r) = (n, Some r', cs)"
  shows "ok_within r r'"
proof (cases "c = []")
  case True
  then show ?thesis using assms by (simp add: DeleteCodespace_def)
next
  case False
  obtain r1 q where p: "ok_within r r1" "ok_within r q" "liveEntries r1 = liveEntries r"
      "\<And>k. fmlookup (liveEntries q) k = (if fst k = c then None else fmlookup (liveEntries r) k)"
      "r' = q\<lparr> live := fmdrop c (live r1) \<rparr>"
    using DeleteCodespace_parts [OF assms(1,2) False assms(3)] by metis
  have l1: "gocounter.counts (live r1) (live_slots r1)" using registry_okD(3) p(1) by blast
  have "live_slots q j = (if j = c then 0 else live_slots r1 j)" for j
    unfolding live_slots_def entries_with_def p(3,4) by (auto intro: arg_cong [where f = card])
  then have "gocounter.counts (fmdrop c (live r1)) (live_slots q)"
    using l1 by (auto simp: gocounter.counts_def counter_get_def counter_pos_def)
  moreover have "codespace_slots r' = codespace_slots q" "user_slots r' = user_slots q" "live_slots r' = live_slots q"
    by (simp_all add: p(5) slots_defs fun_eq_iff)
  ultimately have "registry_ok r'"
    using registry_okD [of q] p(2) unfolding registry_ok_def by (simp add: p(5))
  then show ?thesis using p(2) by (simp add: p(5) shrinks_def)
qed

lemma signal_ok: "registry_ok r \<Longrightarrow> registry_ok (signalActivityChange r)"
proof -
  assume ok: "registry_ok r"
  have "codespace_slots (signalActivityChange r) = codespace_slots r" "user_slots (signalActivityChange r) = user_slots r"
      "live_slots (signalActivityChange r) = live_slots r"
    by (simp_all add: slots_defs signalActivityChange_def fun_eq_iff)
  then show ?thesis using registry_okD [OF ok] unfolding registry_ok_def by (simp add: signalActivityChange_def)
qed

lemma runRelease_ok:
  assumes "registry_ok r"
  shows "registry_ok (runRelease fired rel r)"
proof -
  have "runRelease fired rel r = r \<or>
      (\<exists>c n. rel = ReleaseLive c n \<and> runRelease fired rel r = signalActivityChange (drop_entry (c, n) r))"
    by (auto simp: runRelease_def drop_entry_def decrementLiveLocked_def decrementSessionCountLocked_def
        split: release.split option.split)
  then show ?thesis using assms signal_ok drop_entry_ok by metis
qed

lemma beginLive_ok:
  assumes ok: "registry_ok r" and room: "0 \<le> nextLiveID r" "nextLiveID r < max_int64"
    and wf: "l_countsSession e \<Longrightarrow> l_sessionID e = []"
    and eq: "beginLive ord c e now wall r = (rel, r', cs)"
  shows "registry_ok r'" and "nextLiveID r' = nextLiveID r \<or> nextLiveID r' = nextLiveID r + 1"
proof -
  let ?d = "if l_countsSession e then dropExpiredSessionsLocked ord now wall r else (r, [])"
  obtain r1 cs1 where d: "?d = (r1, cs1)" by (metis prod.collapse)
  have r1: "ok_within r r1" using d ok dropExpired_ok [OF ok, of ord now wall] by (auto split: if_splits)
  then have n: "nextLiveID r1 = nextLiveID r" by (simp add: shrinks_def)
  have w: "wrap64 (nextLiveID r + 1) = nextLiveID r + 1"
    using room by (simp add: wrap64_id in_int64_def min_int64_def)
  define r2 where "r2 = (if l_countsSession e then incrementSessionCountLocked (l_siteUID e) (l_userID e) c r1 else r1)"
  define r3 where "r3 = r2\<lparr> nextLiveID := nextLiveID r + 1, live := counter_inc (live r2) c,
      liveEntries := fmupd (c, nextLiveID r + 1) e (liveEntries r2) \<rparr>"
  have n2: "nextLiveID r2 = nextLiveID r" by (simp add: r2_def incrementSessionCountLocked_def n)
  have "registry_ok r3" if "c \<noteq> []" and "l_countsSession e \<Longrightarrow> canAddSessionLocked r1 (l_siteUID e) (l_userID e) c"
    using r1 n that wf by (intro add_entry_ok [OF _ _ _ _ _ r2_def r3_def]) auto
  moreover have "r' = r \<or> r' = r1 \<or> (r' = signalActivityChange r3 \<and> c \<noteq> [] \<and>
      (l_countsSession e \<longrightarrow> canAddSessionLocked r1 (l_siteUID e) (l_userID e) c))"
    using eq unfolding beginLive_def d Let_def prod.case r2_def [symmetric] n2 w r3_def [symmetric]
    by (auto split: if_splits)
  ultimately have "r' = r \<or> r' = r1 \<or> (r' = signalActivityChange r3 \<and> registry_ok (signalActivityChange r3))"
    using signal_ok by blast
  moreover have "nextLiveID (signalActivityChange r3) = nextLiveID r + 1" by (simp add: r3_def signalActivityChange_def)
  ultimately show "registry_ok r'" "nextLiveID r' = nextLiveID r \<or> nextLiveID r' = nextLiveID r + 1"
    using ok r1 n by (elim disjE conjE; simp)+
qed

lemma session_wf_of_binding:
  assumes "newGatewaySessionID (Some raw) = Inr i" and "raw \<noteq> []" and "b_SiteUID b \<noteq> []" "0 < b_UserID b"
    "b_CodespaceUUID b \<noteq> []" "b_EndpointID b \<noteq> []"
    and "s_id s = i" "s_siteUID s = b_SiteUID b" "s_userID s = b_UserID b" "s_codespaceUUID s = b_CodespaceUUID b"
      "s_endpointID s = b_EndpointID b"
  shows "session_wf i s"
  using assms RawURLEncode_nonempty [of raw] by (auto simp: session_wf_def newGatewaySessionID_def)

text \<open>
  The successful and the failing outcomes of \<open>CreateReplacingAny\<close>. The new session is the one the
  ticket was issued for.
\<close>

lemma CreateReplacingAny_cases:
  assumes eq: "CreateReplacingAny ord b ids now wall raw random r = (answer, r', cs)"
  obtains (refused) e where "answer = Inl e" and "r' = r \<or> r' = fst (dropExpiredSessionsLocked ord now wall r) \<or>
      (\<exists>i. r' = fst (deleteGatewaySessionAndLiveLocked ord i (fst (dropExpiredSessionsLocked ord now wall r))))"
  | (created) i token s r1 replaceID r2 where
      "answer = Inr token" and "newGatewaySessionID raw = Inr i"
      and "s = \<lparr> s_id = i, s_siteUID = b_SiteUID b, s_userID = b_UserID b, s_codespaceUUID = b_CodespaceUUID b,
               s_endpointID = b_EndpointID b, s_created = now, s_lastActive = now, s_established = False,
               s_expires = now + ttl r, s_token = token \<rparr>"
      and "issueTicket r (s\<lparr> s_token := [] \<rparr>) now random = Inr token"
      and "r1 = fst (dropExpiredSessionsLocked ord now wall r)"
      and "matchingSessionIDLocked r1 ids b now wall = (replaceID, False)"
      and "r2 = (if replaceID \<noteq> [] then fst (deleteGatewaySessionAndLiveLocked ord replaceID r1) else r1)"
      and "canAddSessionLocked r2 (b_SiteUID b) (b_UserID b) (b_CodespaceUUID b)"
      and "r' = incrementSessionCountLocked (s_siteUID s) (s_userID s) (s_codespaceUUID s)
             (r2\<lparr> sessions := fmupd i s (sessions r2) \<rparr>)"
      and "b_SiteUID b \<noteq> []" "0 < b_UserID b" "b_CodespaceUUID b \<noteq> []" "b_EndpointID b \<noteq> []"
proof -
  obtain r1 cs1 where d: "dropExpiredSessionsLocked ord now wall r = (r1, cs1)" by (metis prod.collapse)
  obtain rid amb where m: "matchingSessionIDLocked r1 ids b now wall = (rid, amb)" by (metis prod.collapse)
  obtain r2 cs2 where q: "(if rid \<noteq> [] then deleteGatewaySessionAndLiveLocked ord rid r1 else (r1, [])) = (r2, cs2)"
    by (metis prod.collapse)
  have r2: "r2 = (if rid \<noteq> [] then fst (deleteGatewaySessionAndLiveLocked ord rid r1) else r1)"
    using q by (auto split: if_splits)
  note un = eq [unfolded CreateReplacingAny_def Let_def d m q prod.case]
  show thesis
  proof (cases answer)
    case (Inl e)
    then have "r' = r \<or> r' = r1 \<or> r' = r2" using un by (auto split: if_splits sum.splits)
    then show thesis using refused [OF Inl] d r2 by (cases "rid = []") auto
  next
    case (Inr token)
    obtain i where i: "newGatewaySessionID raw = Inr i" using un Inr by (auto split: if_splits sum.splits)
    define s where "s = \<lparr> s_id = i, s_siteUID = b_SiteUID b, s_userID = b_UserID b, s_codespaceUUID = b_CodespaceUUID b,
               s_endpointID = b_EndpointID b, s_created = now, s_lastActive = now, s_established = False,
               s_expires = now + ttl r, s_token = token \<rparr>"
    have f: "issueTicket r (s\<lparr> s_token := [] \<rparr>) now random = Inr token \<and> \<not> amb \<and>
        canAddSessionLocked r2 (b_SiteUID b) (b_UserID b) (b_CodespaceUUID b) \<and>
        r' = incrementSessionCountLocked (s_siteUID s) (s_userID s) (s_codespaceUUID s)
             (r2\<lparr> sessions := fmupd i s (sessions r2) \<rparr>) \<and>
        b_SiteUID b \<noteq> [] \<and> 0 < b_UserID b \<and> b_CodespaceUUID b \<noteq> [] \<and> b_EndpointID b \<noteq> []"
      using un Inr i by (auto simp: s_def split: if_splits sum.splits)
    show thesis by (rule created [OF Inr i s_def _ _ _ r2]) (use f d m in auto)
  qed
qed

lemma CreateReplacingAny_ok:
  assumes ok: "registry_ok r" and eq: "CreateReplacingAny ord b ids now wall (Some raw) random r = (answer, r', cs)"
    and raw: "raw \<noteq> []" and fresh: "fmlookup (sessions r) (RawURLEncode raw) = None"
  shows "registry_ok r' \<and> nextLiveID r' = nextLiveID r"
proof -
  let ?d = "fst (dropExpiredSessionsLocked ord now wall r)"
  have d: "ok_within r ?d" by (rule dropExpired_ok [OF ok])
  have del: "ok_within r (fst (deleteGatewaySessionAndLiveLocked ord i ?d))" for i
    using deleteGatewaySessionAndLive_ok [of ?d ord i] d shrinks_trans by blast
  show ?thesis
  proof (cases rule: CreateReplacingAny_cases [OF eq])
    case (1 e)
    then show ?thesis using ok d del by (auto simp: shrinks_def)
  next
    case (2 i token s r1 replaceID r2)
    have r2: "ok_within r r2" using 2(5,7) d del by simp
    have i: "i = RawURLEncode raw" using 2(2) by (simp add: newGatewaySessionID_def)
    have fresh2: "fmlookup (sessions r2) i = None" using shrinks_fresh [of r r2] r2 fresh i by simp
    have s: "s_siteUID s = b_SiteUID b" "s_userID s = b_UserID b" "s_codespaceUUID s = b_CodespaceUUID b"
      using 2(3) by simp_all
    have wf: "session_wf i s" using session_wf_of_binding [OF 2(2) raw 2(10-13)] 2(3) by simp
    have "registry_ok r'" unfolding 2(9) by (rule add_session_ok) (use r2 fresh2 wf 2(8) s in auto)
    then show ?thesis using r2 by (simp add: 2(9) incrementSessionCountLocked_def shrinks_def)
  qed
qed

lemma match_loop_sound:
  "match_loop r c e now wall matched ids = Inr (Some m) \<Longrightarrow>
     matched = Some m \<or> (\<exists>token \<in> set ids. open_ticket (tickets r) token now wall = Some m \<and>
        t_CodespaceUUID m = c \<and> t_EndpointID m = e)"
  by (induction r c e now wall matched ids rule: match_loop.induct) (auto split: option.splits if_splits)

lemma open_ticket_wf: "open_ticket ts token now wall = Some m \<Longrightarrow> ticket_wellformed m"
  by (cases ts) (auto dest: open_ticketD)

lemma authenticate_touch_ok:
  assumes ok: "registry_ok r" and s: "fmlookup (sessions r) (s_id s) = Some s"
  shows "registry_ok (snd (authenticate_touch s now random r))"
proof -
  have wf: "session_wf (s_id s) s" using registry_okD(6) [OF ok] s by (rule fmpredD)
  have "registry_ok (r\<lparr> sessions := fmupd (s_id s) t (sessions r) \<rparr>)"
    if "s_id t = s_id s" "s_siteUID t = s_siteUID s" "s_userID t = s_userID s" "s_codespaceUUID t = s_codespaceUUID s"
      "s_endpointID t = s_endpointID s" for t
    by (rule touch_session_ok [OF ok s]) (use that wf in \<open>auto simp: session_wf_def\<close>)
  then show ?thesis by (simp add: authenticate_touch_def Let_def split: sum.split)
qed

lemma authenticate_matched_ok:
  assumes ok: "registry_ok r" and wf: "ticket_wellformed m"
  shows "registry_ok (snd (authenticate_matched m now random r))"
proof (cases "fmlookup (sessions r) (t_ID m)")
  case None
  let ?s = "session_of_ticket m"
  let ?r = "incrementSessionCountLocked (s_siteUID ?s) (s_userID ?s) (s_codespaceUUID ?s)
      (r\<lparr> sessions := fmupd (s_id ?s) ?s (sessions r) \<rparr>)"
  have sid: "s_id ?s = t_ID m" by (simp add: session_of_ticket_def)
  have "registry_ok ?r" if "canAddSessionLocked r (t_SiteUID m) (t_UserID m) (t_CodespaceUUID m)"
    by (rule add_session_ok [OF ok]) (use None that wf in \<open>auto simp: session_of_ticket_def session_wf_def ticket_wellformed_def\<close>)
  moreover have "fmlookup (sessions ?r) (s_id ?s) = Some ?s" by (simp add: incrementSessionCountLocked_def)
  ultimately show ?thesis
    using None ok authenticate_touch_ok [of ?r ?s now random] by (simp add: authenticate_matched_def Let_def)
next
  case (Some s)
  have "session_wf (t_ID m) s" using registry_okD(6) [OF ok] Some by (rule fmpredD)
  then have "fmlookup (sessions r) (s_id s) = Some s" using Some by (simp add: session_wf_def)
  then show ?thesis using Some ok authenticate_touch_ok [OF ok] by (simp add: authenticate_matched_def)
qed

lemma authenticate_matched_nextLiveID: "nextLiveID (snd (authenticate_matched m now random r)) = nextLiveID r"
  by (simp add: authenticate_matched_def authenticate_touch_def Let_def incrementSessionCountLocked_def
      split: option.split sum.split)

lemma AuthenticateAny_ok:
  assumes ok: "registry_ok r" and eq: "AuthenticateAny ord ids c e now wall random r = (answer, r', cs)"
  shows "registry_ok r' \<and> nextLiveID r' = nextLiveID r"
proof (cases "ids = [] \<or> c = [] \<or> e = []")
  case True
  then show ?thesis using eq ok by (auto simp: AuthenticateAny_def)
next
  case False
  let ?d = "fst (dropExpiredSessionsLocked ord now wall r)"
  have d: "ok_within r ?d" by (rule dropExpired_ok [OF ok])
  show ?thesis
  proof (cases "\<exists>m. match_loop r c e now wall None ids = Inr (Some m)")
    case True
    then obtain m where m: "match_loop r c e now wall None ids = Inr (Some m)" by blast
    then have wf: "ticket_wellformed m" using match_loop_sound [OF m] open_ticket_wf by blast
    have "r' = snd (authenticate_matched m now random ?d)"
      using eq m False by (auto simp: AuthenticateAny_def Let_def split: prod.splits)
    then show ?thesis
      using authenticate_matched_ok [of ?d m now random] wf d authenticate_matched_nextLiveID [of m now random ?d]
      by (simp add: shrinks_def)
  next
    case no: False
    have "r' = r" using eq no False by (auto simp: AuthenticateAny_def split: sum.splits option.splits)
    then show ?thesis using ok by simp
  qed
qed

section \<open>The machine\<close>

definition registry_init :: "sessionRegistry \<Rightarrow> bool" where
  "registry_init r \<longleftrightarrow> (\<exists>newGCM config key. newSessionRegistryFromConfig newGCM config key = Inr r)"

text \<open>
  One step per method, with arbitrary arguments. A new session id, 32 random bytes, does not
  collide with a stored one, and fewer than \<open>2 ^ 63 - 1\<close> connections have been opened.
\<close>

inductive registry_step :: "sessionRegistry \<Rightarrow> sessionRegistry \<Rightarrow> bool" where
  step_create:
    "CreateReplacingAny ord b ids now wall (Some raw) random r = (answer, r', cs) \<Longrightarrow> covers ord r \<Longrightarrow> raw \<noteq> [] \<Longrightarrow>
     fmlookup (sessions r) (RawURLEncode raw) = None \<Longrightarrow> registry_step r r'"
| step_authenticate:
    "AuthenticateAny ord ids c e now wall random r = (answer', r', cs) \<Longrightarrow> covers ord r \<Longrightarrow> registry_step r r'"
| step_begin_session:
    "BeginSessionCancelable ord sid c cancel wall r = (rel, r', cs) \<Longrightarrow> covers ord r \<Longrightarrow>
     nextLiveID r < max_int64 \<Longrightarrow> registry_step r r'"
| step_begin_ssh:
    "BeginSSHSession ord site c user cancel now wall r = (rel', r', cs) \<Longrightarrow> covers ord r \<Longrightarrow>
     nextLiveID r < max_int64 \<Longrightarrow> registry_step r r'"
| step_release: "r' = runRelease fired rel'' r \<Longrightarrow> registry_step r r'"
| step_delete_endpoint: "DeleteEndpoint ord c e (Some r) = (n, Some r', cs) \<Longrightarrow> covers ord r \<Longrightarrow> registry_step r r'"
| step_delete_codespace: "DeleteCodespace ord c (Some r) = (n, Some r', cs) \<Longrightarrow> covers ord r \<Longrightarrow> registry_step r r'"
| step_activity: "Activity ord now wall r = (counts, r', cs) \<Longrightarrow> covers ord r \<Longrightarrow> registry_step r r'"
| step_drain: "r' = r\<lparr> activityChanges := False \<rparr> \<Longrightarrow> registry_step r r'"

definition registry_inv :: "sessionRegistry \<Rightarrow> bool" where
  "registry_inv r \<longleftrightarrow> registry_ok r \<and> 0 \<le> nextLiveID r"

lemma registry_init_inv: "registry_init r \<Longrightarrow> registry_inv r"
proof -
  assume "registry_init r"
  then obtain newGCM config key where new: "newSessionRegistryFromConfig newGCM config key = Inr r"
    by (auto simp: registry_init_def)
  then have "sessions r = fmempty" "liveEntries r = fmempty" "sessionCountByCodespace r = fmempty"
      "sessionCountByUser r = fmempty" "live r = fmempty" "nextLiveID r = 0" "0 < maxSessionsPerCodespace r" "0 < maxSessionsPerUser r"
    by (auto simp: newSessionRegistryFromConfig_def split: sum.split_asm if_split_asm)
  then show ?thesis
    by (auto simp: registry_inv_def registry_ok_def slots_defs intro: gocounter.counts_cong [OF gocounter.counts_empty])
qed

lemma runRelease_nextLiveID [simp]: "nextLiveID (runRelease fired rel r) = nextLiveID r"
  by (simp add: runRelease_def signalActivityChange_def decrementLiveLocked_def decrementSessionCountLocked_def Let_def
      split: release.split option.split)

lemma registry_step_inv:
  assumes step: "registry_step r r'" and inv: "registry_inv r"
  shows "registry_inv r'"
proof -
  have ok: "registry_ok r" and n: "0 \<le> nextLiveID r" using inv by (simp_all add: registry_inv_def)
  from step show ?thesis
  proof cases
    case (step_create ord b ids now wall raw random answer cs)
    then show ?thesis using CreateReplacingAny_ok [OF ok] n by (simp add: registry_inv_def)
  next
    case (step_authenticate ord ids c e now wall random answer' cs)
    then show ?thesis using AuthenticateAny_ok [OF ok] n by (simp add: registry_inv_def)
  next
    case (step_begin_session ord sid c cancel wall rel cs)
    have "registry_ok r'" "nextLiveID r' = nextLiveID r \<or> nextLiveID r' = nextLiveID r + 1"
      using beginLive_ok [OF ok n step_begin_session(3) _ step_begin_session(1) [unfolded BeginSessionCancelable_def Let_def]]
      by simp_all
    then show ?thesis using n by (auto simp: registry_inv_def)
  next
    case (step_begin_ssh ord site c user cancel now wall rel' cs)
    show ?thesis
    proof (cases "site = [] \<or> c = [] \<or> user \<le> 0")
      case True
      then show ?thesis using step_begin_ssh inv by (auto simp: BeginSSHSession_def)
    next
      case False
      let ?e = "\<lparr> l_cancel = cancel, l_sessionID = [], l_siteUID = site, l_userID = user, l_countsSession = True \<rparr>"
      obtain rel cs' where b: "beginLive ord c ?e now wall r = (rel, r', cs')"
        using step_begin_ssh(1) False by (auto simp: BeginSSHSession_def Let_def split: prod.splits option.splits)
      have "registry_ok r'" "nextLiveID r' = nextLiveID r \<or> nextLiveID r' = nextLiveID r + 1"
        using beginLive_ok [OF ok n step_begin_ssh(3) _ b] by simp_all
      then show ?thesis using n by (auto simp: registry_inv_def)
    qed
  next
    case (step_release fired rel'')
    then show ?thesis using runRelease_ok [OF ok] n by (simp add: registry_inv_def)
  next
    case (step_delete_endpoint ord c e n cs)
    then show ?thesis using DeleteEndpoint_ok [OF ok] inv by (auto simp: registry_inv_def shrinks_def)
  next
    case (step_delete_codespace ord c n cs)
    then show ?thesis using DeleteCodespace_ok [OF ok] inv by (auto simp: registry_inv_def shrinks_def)
  next
    case (step_activity ord now wall counts cs)
    then have "r' = fst (dropExpiredSessionsLocked ord now wall r)" by (auto simp: Activity_def split: prod.splits)
    then show ?thesis using dropExpired_ok [OF ok, of ord now wall] n by (simp add: registry_inv_def shrinks_def)
  next
    case step_drain
    have "codespace_slots r' = codespace_slots r" "user_slots r' = user_slots r" "live_slots r' = live_slots r"
      by (simp_all add: step_drain slots_defs fun_eq_iff)
    then show ?thesis using registry_okD [OF ok] n unfolding registry_inv_def registry_ok_def by (simp add: step_drain)
  qed
qed

interpretation session_registry: safe_machine registry_init registry_step registry_inv
  by unfold_locales (auto intro: registry_init_inv registry_step_inv)

end
