(* ===== verification/Session_Properties.thy ===== *)
theory Session_Properties
  imports Session_Invariant
begin

text \<open>
  The properties of the session registry: exact and bounded counters, complete deletion of a
  codespace, exact expiry, sound authentication, and replacement that the limits cannot refuse.
\<close>

section \<open>Removed connections are cancelled\<close>

definition cancels_removed :: "sessionRegistry \<Rightarrow> sessionRegistry \<times> nat list \<Rightarrow> bool" where
  "cancels_removed r a \<longleftrightarrow>
     submap (liveEntries (fst a)) (liveEntries r) \<and>
     (\<forall>k e. fmlookup (liveEntries r) k = Some e \<longrightarrow> fmlookup (liveEntries (fst a)) k = None \<longrightarrow>
        set (cancel_of e) \<subseteq> set (snd a))"

lemma cancels_removed_refl [simp]: "cancels_removed r (r, cs)"
  by (simp add: cancels_removed_def)

lemma cancels_removedD:
  assumes "cancels_removed r (r', cs)" and "fmlookup (liveEntries r) k = Some e" and "fmlookup (liveEntries r') k = None"
    and "l_cancel e = Some f"
  shows "f \<in> set cs"
proof -
  have "set (cancel_of e) \<subseteq> set cs" using assms(1-3) unfolding cancels_removed_def fst_conv snd_conv by blast
  then show ?thesis using assms(4) by (simp add: cancel_of_def)
qed

lemma cancels_removed_trans:
  assumes "cancels_removed r (r1, cs1)" and "cancels_removed r1 (r2, cs2)"
  shows "cancels_removed r (r2, cs1 @ cs2)"
proof -
  have "submap (liveEntries r2) (liveEntries r)"
    using assms submap_trans by (auto simp: cancels_removed_def)
  moreover have "set (cancel_of e) \<subseteq> set cs1 \<union> set cs2"
    if "fmlookup (liveEntries r) k = Some e" "fmlookup (liveEntries r2) k = None" for k e
  proof (cases "fmlookup (liveEntries r1) k")
    case None
    then have "set (cancel_of e) \<subseteq> set cs1" using assms(1) that(1) unfolding cancels_removed_def fst_conv snd_conv by blast
    then show ?thesis by blast
  next
    case (Some e')
    then have "fmlookup (liveEntries r) k = Some e'"
      using assms(1) unfolding cancels_removed_def submap_def fst_conv by blast
    then have "e' = e" using that(1) by simp
    then have "set (cancel_of e) \<subseteq> set cs2" using assms(2) that(2) Some unfolding cancels_removed_def fst_conv snd_conv by blast
    then show ?thesis by blast
  qed
  ultimately show ?thesis by (simp add: cancels_removed_def)
qed

lemma cancels_removed_fold:
  assumes step: "\<And>x r cs. \<exists>cs'. snd (f x (r, cs)) = cs @ cs' \<and> cancels_removed r (fst (f x (r, cs)), cs')"
  shows "cancels_removed r (fold f xs (r, []))"
proof -
  have "cancels_removed r (f x a)" if a: "cancels_removed r a" for x a
  proof -
    obtain r1 cs1 where a1: "a = (r1, cs1)" by (cases a)
    obtain cs' where c: "snd (f x (r1, cs1)) = cs1 @ cs'" "cancels_removed r1 (fst (f x (r1, cs1)), cs')"
      using step [of x r1 cs1] by blast
    have "cancels_removed r (fst (f x (r1, cs1)), cs1 @ cs')"
      using cancels_removed_trans [OF a [unfolded a1] c(2)] .
    then show ?thesis using c(1) by (simp add: a1 cancels_removed_def)
  qed
  then show ?thesis by (rule fold_inv [where P = "cancels_removed r"]) simp_all
qed

lemma deleteLiveEntries_cancels: "cancels_removed r (deleteLiveEntriesLocked ord c sid r)"
proof (cases "c = [] \<or> sid = []")
  case False
  have "cancels_removed r (fold (deleteLiveEntry c sid) (live_ids ord) (r, []))"
    by (rule cancels_removed_fold)
      (auto simp: deleteLiveEntry_def decrementLiveLocked_def cancels_removed_def split: option.split)
  then show ?thesis using False by (auto simp: deleteLiveEntriesLocked_def)
qed (auto simp: deleteLiveEntriesLocked_def)

lemma deleteGatewaySession_entries [simp]: "liveEntries (deleteGatewaySessionLocked i r) = liveEntries r"
  by (simp add: deleteGatewaySessionLocked_def decrementSessionCountLocked_def split: option.split)

lemma deleteSessionAndLive_cancels: "cancels_removed r (deleteGatewaySessionAndLiveLocked ord i r)"
  using deleteLiveEntries_cancels [of "deleteGatewaySessionLocked i r" ord _ i]
  by (simp add: deleteGatewaySessionAndLiveLocked_def cancels_removed_def split: option.split)

lemma dropExpired_cancels: "cancels_removed r (dropExpiredSessionsLocked ord now wall r)"
  unfolding dropExpiredSessionsLocked_def Let_def
proof (rule cancels_removed_fold)
  fix i r cs
  let ?a = "dropExpiredSession ord (if now = 0 then wall else now) i (r, cs)"
  have "cancels_removed r (fst (deleteGatewaySessionAndLiveLocked ord i r), snd (deleteGatewaySessionAndLiveLocked ord i r))"
    using deleteSessionAndLive_cancels [of r ord i] by simp
  moreover have "?a = (r, cs) \<or> ?a = (fst (deleteGatewaySessionAndLiveLocked ord i r), cs @ snd (deleteGatewaySessionAndLiveLocked ord i r))"
    by (auto simp: dropExpiredSession_def split: option.split prod.split)
  ultimately show "\<exists>cs'. snd ?a = cs @ cs' \<and> cancels_removed r (fst ?a, cs')"
    by (metis append_Nil2 cancels_removed_refl fst_conv snd_conv)
qed

lemma deleteCodespace_cancels: "cancels_removed r (fold (deleteCodespaceEntry c) ns (r, []))"
  by (rule cancels_removed_fold)
    (auto simp: deleteCodespaceEntry_def decrementSessionCountLocked_def cancels_removed_def Let_def split: option.split)

section \<open>Which sessions and connections a loop removes\<close>

lemma deleteLiveEntries_sessions [simp]: "sessions (fst (deleteLiveEntriesLocked ord c sid r)) = sessions r"
  unfolding deleteLiveEntriesLocked_def
  by (auto intro!: fold_inv [where P = "\<lambda>a. sessions (fst a) = sessions r"]
      simp: deleteLiveEntry_def decrementLiveLocked_def split: prod.split option.split)

lemma deleteSessionAndLive_sessions [simp]:
  "sessions (fst (deleteGatewaySessionAndLiveLocked ord i r)) = fmdrop i (sessions r)"
  by (auto simp: deleteGatewaySessionAndLiveLocked_def deleteGatewaySessionLocked_def decrementSessionCountLocked_def
      fmdrop_idle fmdom_notI split: option.split)

lemma deleteLiveEntries_lookup:
  assumes "c \<noteq> []" and "sid \<noteq> []" and "n \<in> set (live_ids ord)"
    and "fmlookup (liveEntries (fst (deleteLiveEntriesLocked ord c sid r))) (c, n) = Some e"
  shows "l_sessionID e \<noteq> sid"
proof -
  let ?f = "deleteLiveEntry c sid"
  have once: "\<And>a. fmlookup (liveEntries (fst (?f n a))) (c, n) = Some e \<Longrightarrow> l_sessionID e \<noteq> sid"
    by (auto simp: deleteLiveEntry_def decrementLiveLocked_def split: prod.splits option.splits if_splits)
  have one: "fmlookup (liveEntries (fst (?f m a))) k = Some d \<Longrightarrow> fmlookup (liveEntries (fst a)) k = Some d" for m a k d
    by (auto simp: deleteLiveEntry_def decrementLiveLocked_def split: prod.splits option.splits if_splits)
  have down: "fmlookup (liveEntries (fst (fold ?f ms a))) k = Some d \<Longrightarrow> fmlookup (liveEntries (fst a)) k = Some d" for ms a k d
    by (induction ms arbitrary: a) (simp_all, metis one)
  obtain ms1 ms2 where "live_ids ord = ms1 @ n # ms2" using assms(3) by (meson split_list)
  then show ?thesis
    using assms down [of ms2 "?f n (fold ?f ms1 (r, []))" "(c, n)" e] once by (simp add: deleteLiveEntriesLocked_def)
qed

lemma expired_cong: "idleTimeout r' = idleTimeout r \<Longrightarrow> sessionExpiredLocked r' s t = sessionExpiredLocked r s t"
  by (simp add: sessionExpiredLocked_def)

lemma dropExpired_step:
  assumes "registry_ok (fst a)"
  shows "ok_within (fst a) (fst (dropExpiredSession ord t i a))"
    and "sessions (fst (dropExpiredSession ord t i a)) =
           (if \<exists>s. fmlookup (sessions (fst a)) i = Some s \<and> sessionExpiredLocked (fst a) s t
            then fmdrop i (sessions (fst a)) else sessions (fst a))"
  using deleteGatewaySessionAndLive_ok [OF assms, of ord i] deleteSessionAndLive_sessions [of ord i "fst a"] assms
  by (auto simp: dropExpiredSession_def simp del: deleteSessionAndLive_sessions split: prod.split option.split)

lemma dropExpired_fold_sessions:
  assumes "registry_ok (fst a)"
  shows "fmlookup (sessions (fst (fold (dropExpiredSession ord t) ids a))) i = Some s \<longleftrightarrow>
           fmlookup (sessions (fst a)) i = Some s \<and> \<not> (i \<in> set ids \<and> sessionExpiredLocked (fst a) s t)"
  using assms
proof (induction ids arbitrary: a)
  case (Cons j ids)
  let ?b = "dropExpiredSession ord t j a"
  have b: "registry_ok (fst ?b)" "idleTimeout (fst ?b) = idleTimeout (fst a)"
    using dropExpired_step(1) [OF Cons(2), of ord t j] by (simp_all add: shrinks_def)
  show ?case
    using Cons(1) [OF b(1)] expired_cong [OF b(2), of s t] dropExpired_step(2) [OF Cons(2), of ord t j] by auto
qed simp

lemma dropExpired_sessions:
  assumes "registry_ok r" and "covers ord r"
  shows "fmlookup (sessions (fst (dropExpiredSessionsLocked ord now wall r))) i = Some s \<longleftrightarrow>
           fmlookup (sessions r) i = Some s \<and> \<not> sessionExpiredLocked r s (if now = zero_time then wall else now)"
  using dropExpired_fold_sessions [of "(r, [])" ord _ "session_ids ord" i s] assms(1) covers_session [OF assms(2), of i s]
  by (auto simp: dropExpiredSessionsLocked_def Let_def)

lemma deleteSessions_lookup:
  "fmlookup (sessions (fst (fold (deleteSessionIf P) ids a))) i = Some s \<longleftrightarrow>
     fmlookup (sessions (fst a)) i = Some s \<and> \<not> (i \<in> set ids \<and> P s)"
proof (induction ids arbitrary: a)
  case (Cons j ids)
  have "fmlookup (sessions (fst (deleteSessionIf P j a))) i = Some s \<longleftrightarrow>
      fmlookup (sessions (fst a)) i = Some s \<and> \<not> (i = j \<and> P s)"
    by (auto simp: deleteSessionIf_def deleteGatewaySessionLocked_def decrementSessionCountLocked_def
        split: prod.split option.split)
  then show ?case using Cons by auto
qed simp

section \<open>Claims\<close>

text \<open>C17: In every reachable registry the three counter maps are exact: the count of a codespace and
  of a user is the number of its browser sessions plus its counting SSH connections, never above
  the configured limit, and \<open>live\<close> is the number of open connections.
\<close>

theorem registry_counts_exact:
  assumes "reachable registry_init registry_step r"
  shows "counter_get (sessionCountByCodespace r) c = codespace_slots r c
    \<and> codespace_slots r c \<le> maxSessionsPerCodespace r
    \<and> counter_get (sessionCountByUser r) u = user_slots r u
    \<and> user_slots r u \<le> maxSessionsPerUser r
    \<and> counter_get (live r) c = live_slots r c"
proof (intro conjI)
  have ok: "registry_ok r" using session_registry.reachable_inv [OF assms] by (simp add: registry_inv_def)
  note d = registry_okD [OF ok]
  show "counter_get (sessionCountByCodespace r) c = codespace_slots r c"
    and "counter_get (sessionCountByUser r) u = user_slots r u"
    and "counter_get (live r) c = live_slots r c"
    by (rule gocounter.counts_get [OF d(1)] gocounter.counts_get [OF d(2)] gocounter.counts_get [OF d(3)])+
  show "codespace_slots r c \<le> maxSessionsPerCodespace r" "user_slots r u \<le> maxSessionsPerUser r"
    by (rule d(4) d(5))+
qed

text \<open>Deleting a codespace removes all of its sessions and connections and nothing else, brings
  its counters to zero, and calls the cancel function of every connection it removed.
\<close>

theorem delete_codespace_complete:
  assumes "reachable registry_init registry_step r" and "covers ord r" and "c \<noteq> ''''"
    and eq: "DeleteCodespace ord c (Some r) = (n, Some r', cs)"
  shows "(fmlookup (sessions r') i = Some s \<longleftrightarrow> fmlookup (sessions r) i = Some s \<and> s_codespaceUUID s \<noteq> c)
    \<and> (fmlookup (liveEntries r') k = Some e \<longleftrightarrow> fmlookup (liveEntries r) k = Some e \<and> fst k \<noteq> c)
    \<and> counter_get (live r') c = 0 \<and> counter_get (sessionCountByCodespace r') c = 0
    \<and> (fmlookup (liveEntries r) (c, m) = Some d \<and> l_cancel d = Some f \<longrightarrow> f \<in> set cs)"
proof -
  have ok: "registry_ok r" using session_registry.reachable_inv [OF assms(1)] by (simp add: registry_inv_def)
  have c: "c \<noteq> []" using assms(3) by simp
  obtain r1 q where p: "sessions q = sessions r1" "liveEntries r1 = liveEntries r"
      "r1 = fst (fold (deleteSessionIf (\<lambda>s. s_codespaceUUID s = c)) (session_ids ord) (r, []))"
      "\<And>k. fmlookup (liveEntries q) k = (if fst k = c then None else fmlookup (liveEntries r) k)"
      "r' = q\<lparr> live := fmdrop c (live r1) \<rparr>"
    using DeleteCodespace_parts [OF ok assms(2) c eq] by metis
  have ok': "registry_ok r'" using DeleteCodespace_ok [OF ok assms(2) eq] by blast
  have ses: "fmlookup (sessions r') i = Some s \<longleftrightarrow> fmlookup (sessions r) i = Some s \<and> s_codespaceUUID s \<noteq> c" for i s
    using deleteSessions_lookup [of "\<lambda>s. s_codespaceUUID s = c" "session_ids ord" "(r, [])" i s]
      covers_session [OF assms(2), of i s] unfolding p(3) [symmetric] by (auto simp: p(1,5))
  have ent: "fmlookup (liveEntries r') k = (if fst k = c then None else fmlookup (liveEntries r) k)" for k
    by (simp add: p(4,5))
  have "codespace_slots r' c = 0" "live_slots r' c = 0"
    by (simp_all add: slots_defs entries_with_def ses ent cong: conj_cong)
  then have zero: "counter_get (sessionCountByCodespace r') c = 0" "counter_get (live r') c = 0"
    using gocounter.counts_get [OF registry_okD(1) [OF ok']] gocounter.counts_get [OF registry_okD(3) [OF ok']] by simp_all
  have "cs = snd (fold (deleteCodespaceEntry c) (live_ids ord) (r1, []))"
    using eq c unfolding p(3) by (simp add: DeleteCodespace_def Let_def case_prod_beta)
  moreover have "fmlookup (liveEntries (fst (fold (deleteCodespaceEntry c) (live_ids ord) (r1, [])))) (c, m) = None"
    if "fmlookup (liveEntries r) (c, m) = Some d"
    using deleteCodespace_loop [where r = r1 and x = "live r1" and c = c and ns = "live_ids ord" and cs = "[]"]
      drop_entries_lookup [of c "live_ids ord" r1 "(c, m)"] covers_entry [OF assms(2) that] by simp
  ultimately have "fmlookup (liveEntries r) (c, m) = Some d \<and> l_cancel d = Some f \<longrightarrow> f \<in> set cs"
    using cancels_removedD [of r1 _ cs "(c, m)" d f] deleteCodespace_cancels [of r1 c "live_ids ord"] p(2)
    by (metis prod.collapse)
  then show ?thesis using ses ent zero by auto
qed

text \<open>Reporting activity first expires sessions, exactly those whose connect, absolute or idle
  deadline has passed; it then reports for every codespace with an open connection how many there
  are, and every connection it removed has been cancelled.
\<close>

theorem activity_expires_and_counts:
  assumes "reachable registry_init registry_step r" and "covers ord r"
    and eq: "Activity ord now wall r = (act, r', cs)"
  shows "(fmlookup (sessions r') i = Some s \<longleftrightarrow>
            fmlookup (sessions r) i = Some s \<and> \<not> sessionExpiredLocked r s (if now = zero_time then wall else now))
    \<and> fmlookup act c = (if 0 < live_slots r' c then Some (live_slots r' c) else None)
    \<and> (fmlookup (liveEntries r) k = Some e \<and> fmlookup (liveEntries r') k = None \<and> l_cancel e = Some f \<longrightarrow> f \<in> set cs)"
proof -
  have ok: "registry_ok r" using session_registry.reachable_inv [OF assms(1)] by (simp add: registry_inv_def)
  have drop: "dropExpiredSessionsLocked ord now wall r = (r', cs)"
    and act: "act = fmfilter (\<lambda>i. counter_get (live r') i > 0) (live r')"
    using eq by (auto simp: Activity_def split: prod.splits)
  have "registry_ok r'" using dropExpired_ok [OF ok, of ord now wall] drop by simp
  then have "gocounter.counts (live r') (live_slots r')" by (rule registry_okD)
  then have "counter_get (live r') c = live_slots r' c" by (rule gocounter.counts_get)
  then have "fmlookup act c = (if 0 < live_slots r' c then Some (live_slots r' c) else None)"
    by (auto simp: act counter_get_def split: option.splits)
  moreover have "fmlookup (sessions r') i = Some s \<longleftrightarrow>
      fmlookup (sessions r) i = Some s \<and> \<not> sessionExpiredLocked r s (if now = zero_time then wall else now)"
    using dropExpired_sessions [OF ok assms(2), of now wall i s] drop by simp
  moreover have "fmlookup (liveEntries r) k = Some e \<and> fmlookup (liveEntries r') k = None \<and> l_cancel e = Some f \<longrightarrow> f \<in> set cs"
    using cancels_removedD [OF dropExpired_cancels [of r ord now wall, unfolded drop]] by blast
  ultimately show ?thesis by blast
qed

lemma authenticate_touch_result:
  assumes "authenticate_touch s now random r = ((s', True, amb), r')"
  shows "amb = False" and "fmlookup (sessions r') (s_id s') = Some s'" and "s_id s' = s_id s"
    and "s_siteUID s' = s_siteUID s" and "s_userID s' = s_userID s" and "s_codespaceUUID s' = s_codespaceUUID s"
    and "s_endpointID s' = s_endpointID s" and "s_established s'" and "s_lastActive s' = now"
    and "issueTicket r (s'\<lparr> s_token := s_token s \<rparr>) now random = Inr (s_token s')"
  using assms by (auto simp: authenticate_touch_def Let_def split: sum.splits)

lemma authenticate_result:
  assumes ok: "registry_ok r"
    and eq: "AuthenticateAny ord ids c e now wall random r = ((s, True, amb), r', cs)"
  shows "\<not> amb \<and> fmlookup (sessions r') (s_id s) = Some s \<and> s_established s \<and> s_lastActive s = now \<and>
    s_codespaceUUID s = c \<and> s_endpointID s = e \<and>
    (\<exists>token m. token \<in> set ids \<and> open_ticket (tickets r) token now wall = Some m \<and> s_id s = t_ID m \<and>
       s_siteUID s = t_SiteUID m \<and> s_userID s = t_UserID m \<and> t_CodespaceUUID m = c \<and> t_EndpointID m = e)"
proof -
  let ?d = "fst (dropExpiredSessionsLocked ord now wall r)"
  obtain m where m: "match_loop r c e now wall None ids = Inr (Some m)"
    using eq by (auto simp: AuthenticateAny_def split: if_splits sum.splits option.splits)
  then have am: "authenticate_matched m now random ?d = ((s, True, amb), r')"
    using eq by (auto simp: AuthenticateAny_def Let_def split: if_splits prod.splits)
  obtain token where tok: "token \<in> set ids" "open_ticket (tickets r) token now wall = Some m"
      "t_CodespaceUUID m = c" "t_EndpointID m = e"
    using match_loop_sound [OF m] by blast
  obtain s0 r0 where t: "authenticate_touch s0 now random r0 = ((s, True, amb), r')" "s_id s0 = t_ID m"
      "s_siteUID s0 = t_SiteUID m" "s_userID s0 = t_UserID m" "s_codespaceUUID s0 = t_CodespaceUUID m"
      "s_endpointID s0 = t_EndpointID m"
  proof (cases "fmlookup (sessions ?d) (t_ID m)")
    case None
    then show thesis
      using am that by (auto simp: authenticate_matched_def session_of_ticket_def Let_def split: if_splits)
  next
    case (Some s1)
    have "registry_ok ?d" using dropExpired_ok [OF ok] by blast
    then have "session_wf (t_ID m) s1" using Some registry_okD(6) by (metis fmpredD)
    then show thesis
      using Some am that by (auto simp: authenticate_matched_def session_wf_def split: if_splits)
  qed
  show ?thesis
    using authenticate_touch_result [OF t(1)] t(2-6) tok by auto
qed

text \<open>C31: Authentication is sound. A session is returned only if one of the presented tokens opens to
  an unexpired ticket for exactly the requested codespace and endpoint; the session carries the
  id, site and user of that ticket, is the one stored in the registry, and is marked active now.
\<close>

theorem authenticate_sound:
  assumes "reachable registry_init registry_step r"
    and eq: "AuthenticateAny ord ids c e now wall random r = ((s, True, amb), r', cs)"
  shows "\<not> amb \<and> fmlookup (sessions r') (s_id s) = Some s \<and> s_established s \<and> s_lastActive s = now \<and>
    s_codespaceUUID s = c \<and> s_endpointID s = e \<and>
    (\<exists>token m. token \<in> set ids \<and> open_ticket (tickets r) token now wall = Some m \<and> s_id s = t_ID m \<and>
       s_siteUID s = t_SiteUID m \<and> s_userID s = t_UserID m \<and> t_CodespaceUUID m = c \<and> t_EndpointID m = e)"
  using authenticate_result [OF _ eq] session_registry.reachable_inv [OF assms(1)] by (simp add: registry_inv_def)

lemma deleteSession_frees:
  assumes ok: "registry_ok r" and s: "fmlookup (sessions r) i = Some s"
  shows "canAddSessionLocked (fst (deleteGatewaySessionAndLiveLocked ord i r)) (s_siteUID s) (s_userID s) (s_codespaceUUID s)"
proof -
  let ?r = "fst (deleteGatewaySessionAndLiveLocked ord i r)"
  have w: "ok_within r ?r" by (rule deleteGatewaySessionAndLive_ok [OF ok])
  have le: "entries_with (liveEntries ?r) P \<le> entries_with (liveEntries r) P" for P
    unfolding entries_with_def of_nat_le_iff
    by (rule card_mono) (use w in \<open>auto simp: shrinks_def submap_def\<close>)
  have "codespace_slots ?r (s_codespaceUUID s) < codespace_slots r (s_codespaceUUID s)"
    using le [of "\<lambda>k e. fst k = s_codespaceUUID s \<and> l_countsSession e"] s
    by (simp add: codespace_slots_def entries_with_drop)
  moreover have "user_slots ?r (s_siteUID s, s_userID s) < user_slots r (s_siteUID s, s_userID s)"
    using le [of "\<lambda>_ e. l_countsSession e \<and> (l_siteUID e, l_userID e) = (s_siteUID s, s_userID s)"] s
    by (simp add: user_slots_def entries_with_drop)
  moreover have "counter_get (sessionCountByCodespace ?r) (s_codespaceUUID s) = codespace_slots ?r (s_codespaceUUID s)"
      "counter_get (sessionCountByUser ?r) (s_siteUID s, s_userID s) = user_slots ?r (s_siteUID s, s_userID s)"
    by (rule gocounter.counts_get [OF registry_okD(1)] gocounter.counts_get [OF registry_okD(2)], use w in simp)+
  moreover have "maxSessionsPerCodespace ?r = maxSessionsPerCodespace r" "maxSessionsPerUser ?r = maxSessionsPerUser r"
    using w by (simp_all add: shrinks_def)
  ultimately show ?thesis
    using registry_okD(4) [OF ok, of "s_codespaceUUID s"] registry_okD(5) [OF ok, of "(s_siteUID s, s_userID s)"]
    by (simp add: canAddSessionLocked_def)
qed

text \<open>Signing in again in the same browser is never refused by the limits: when the presented
  tokens identify one session, which is stored for the same site, user and codespace, creating
  its replacement succeeds, even in a registry that is full.
\<close>

theorem replacement_not_refused:
  assumes "reachable registry_init registry_step r"
    and "b_SiteUID b \<noteq> ''''" "0 < b_UserID b" "b_CodespaceUUID b \<noteq> ''''" "b_EndpointID b \<noteq> ''''"
    and "issueTicket r \<lparr> s_id = RawURLEncode raw, s_siteUID = b_SiteUID b, s_userID = b_UserID b,
           s_codespaceUUID = b_CodespaceUUID b, s_endpointID = b_EndpointID b, s_created = now, s_lastActive = now,
           s_established = False, s_expires = now + ttl r, s_token = '''' \<rparr> now random = Inr token"
    and "dropExpiredSessionsLocked ord now wall r = (r1, cs1)"
    and "matchingSessionIDLocked r1 ids b now wall = (old, False)" and "old \<noteq> ''''"
    and "fmlookup (sessions r1) old = Some s" and "s_siteUID s = b_SiteUID b" "s_userID s = b_UserID b"
      "s_codespaceUUID s = b_CodespaceUUID b"
    and "fmlookup (sessions r) (RawURLEncode raw) = None"
  shows "\<exists>r' cs. CreateReplacingAny ord b ids now wall (Some raw) random r = (Inr token, r', cs) \<and>
           fmlookup (sessions r') old = None \<and>
           (\<exists>new. fmlookup (sessions r') (RawURLEncode raw) = Some new \<and> s_token new = token \<and>
              s_siteUID new = b_SiteUID b \<and> s_userID new = b_UserID b \<and> s_codespaceUUID new = b_CodespaceUUID b)"
proof -
  have ok: "registry_ok r" using session_registry.reachable_inv [OF assms(1)] by (simp add: registry_inv_def)
  have r1: "ok_within r r1" using dropExpired_ok [OF ok, of ord now wall] assms(7) by simp
  obtain r2 cs2 where d: "deleteGatewaySessionAndLiveLocked ord old r1 = (r2, cs2)" by (metis prod.collapse)
  have can: "canAddSessionLocked r2 (b_SiteUID b) (b_UserID b) (b_CodespaceUUID b)"
    using deleteSession_frees [of r1 old s ord] r1 assms(10-13) d by simp
  have "sessions r2 = fmdrop old (sessions r1)" using deleteSessionAndLive_sessions [of ord old r1] d by simp
  moreover have "old \<noteq> RawURLEncode raw"
    using shrinks_session [of r r1 old s] r1 assms(10,14) by auto
  ultimately show ?thesis
    using assms(2-9) can d
    by (simp add: CreateReplacingAny_def newGatewaySessionID_def Let_def incrementSessionCountLocked_def)
qed

section \<open>From sign-in to authentication\<close>

text \<open>The ticket of a fresh session opens until a millisecond before its first deadline.\<close>

lemma fresh_ticket_valid:
  assumes s: "session_wf (s_id s) s" "\<not> s_established s" "s_created s = now" "s_expires s = now + ttl r"
    and lim: "millisecond \<le> ttl r" "millisecond \<le> idleTimeout r" "unix_epoch + millisecond \<le> now"
    and t: "now' \<le> now + ttl r - millisecond" "now' \<le> now + gatewaySessionConnectTimeout - millisecond"
      "now' \<le> now + idleTimeout r - millisecond"
  shows "ticket_wellformed (ticket_of_session r s now)" and "\<not> ticket_expired (ticket_of_session r s now) now'"
proof -
  let ?k = "ticket_of_session r s now"
  define d where "d = min (ttl r) (min gatewaySessionConnectTimeout (idleTimeout r))"
  have d: "millisecond \<le> d" "d \<le> ttl r" "now' \<le> now + d - millisecond"
    using lim t by (auto simp: d_def gatewaySessionConnectTimeout_def duration_units)
  have f: "t_IdleExpiresAt ?k = UnixMilli (now + d)" "t_ExpiresAt ?k = UnixMilli (now + ttl r)" "t_IssuedAt ?k = UnixMilli now"
    using s(2-4) lim(2) by (auto simp: ticket_of_session_def Let_def d_def min_def millisecond_def)
  have "0 < UnixMilli now"
    using UnixMilli_add_less [of "now - unix_epoch" unix_epoch] lim(3) by (simp add: UnixMilli_def)
  moreover have "UnixMilli (now + d) \<le> UnixMilli (now + ttl r)" using d(2) by (simp add: UnixMilli_mono)
  ultimately show "ticket_wellformed ?k"
    using s(1) UnixMilli_add_less [OF d(1), of now] UnixMilli_add_less [OF lim(1), of now]
    unfolding ticket_wellformed_def f by (simp add: ticket_of_session_def Let_def session_wf_def)
  show "\<not> ticket_expired ?k now'"
    unfolding ticket_expired_def f
    using time_UnixMilli_gt [of "now + d"] time_UnixMilli_gt [of "now + ttl r"] d t(1) by simp
qed

text \<open>
  What \<open>encoding/json\<close> promises for a ticket: one whose strings are ASCII is marshalled and read back
  unchanged. Nothing is said of other strings; invalid UTF-8 would be replaced.
\<close>

definition ticket_ascii :: "gatewaySessionTicket \<Rightarrow> bool" where
  "ticket_ascii k \<longleftrightarrow> ascii_text (t_ID k) \<and> ascii_text (t_SiteUID k) \<and> ascii_text (t_CodespaceUUID k) \<and> ascii_text (t_EndpointID k)"

definition json_keeps_ascii :: "ticket_crypto \<Rightarrow> bool" where
  "json_keeps_ascii t \<longleftrightarrow>
     (\<forall>k. ticket_ascii k \<longrightarrow> (\<exists>plain. json_Marshal t k = Some plain \<and> json_Unmarshal t plain = Some k))"

text \<open>C30: Signing in and then presenting the token works. The token that \<open>CreateReplacingAny\<close>
  returned under an identifier not in use authenticates the next request for its codespace and
  endpoint, as the user and site it was created for, at any time from its creation until a
  millisecond before the connect, idle and absolute deadlines. The site, the codespace and the
  endpoint have ASCII names, and the token is within the size that is read.
\<close>

theorem create_then_authenticate:
  assumes "reachable registry_init registry_step r" and "tickets r = Some t" and "aead_correct t"
    and codec: "json_keeps_ascii t"
    and names: "ascii_text (b_SiteUID b)" "ascii_text (b_CodespaceUUID b)" "ascii_text (b_EndpointID b)"
    and rnd: "\<And>nonce. random (NonceSize t) = Some nonce \<Longrightarrow> length nonce = NonceSize t"
    and create: "CreateReplacingAny ord b ids now wall (Some raw) random r = (Inr token, r', cs)"
    and raw: "raw \<noteq> ''''" "fmlookup (sessions r) (RawURLEncode raw) = None"
    and size: "length token \<le> gatewaySessionTicketMaxBytes"
    and lim: "millisecond \<le> ttl r" "millisecond \<le> idleTimeout r" "unix_epoch + millisecond \<le> now"
    and later: "now \<le> now'" and t: "now' \<le> now + ttl r - millisecond" "now' \<le> now + gatewaySessionConnectTimeout - millisecond"
      "now' \<le> now + idleTimeout r - millisecond"
    and cov: "covers ord' r'" and rnd': "random' (NonceSize t) = Some nonce'"
  shows "\<exists>s r'' cs'. AuthenticateAny ord' [token] (b_CodespaceUUID b) (b_EndpointID b) now' wall' random' r' =
           ((s, True, False), r'', cs') \<and> s_siteUID s = b_SiteUID b \<and> s_userID s = b_UserID b \<and> s_id s = RawURLEncode raw"
proof -
  have ok: "registry_ok r" using session_registry.reachable_inv [OF assms(1)] by (simp add: registry_inv_def)
  have ok': "registry_ok r'" using CreateReplacingAny_ok [OF ok create] raw by simp
  show ?thesis
  proof (cases rule: CreateReplacingAny_cases [OF create])
    case (2 i token' s r1 replaceID r2)
    have tok: "token' = token" using 2(1) by simp
    have i: "i = RawURLEncode raw" using 2(2) by (simp add: newGatewaySessionID_def)
    have wf: "session_wf i s" using session_wf_of_binding [OF 2(2) _ 2(10-13)] raw(1) 2(3) by simp
    have "ok_within r r1" unfolding 2(5) by (rule dropExpired_ok [OF ok])
    then have "ok_within r r2"
      unfolding 2(7) using deleteGatewaySessionAndLive_ok [of r1 ord replaceID] shrinks_trans by auto
    then have cfg: "tickets r' = Some t" "idleTimeout r' = idleTimeout r"
      using assms(2) by (simp_all add: 2(9) incrementSessionCountLocked_def shrinks_def)
    define k where "k = ticket_of_session r (s\<lparr> s_token := [] \<rparr>) now"
    have sf: "s_id s = i" "s_siteUID s = b_SiteUID b" "s_userID s = b_UserID b" "s_codespaceUUID s = b_CodespaceUUID b"
        "s_endpointID s = b_EndpointID b" "s_created s = now" "\<not> s_established s" "s_expires s = now + ttl r"
      by (simp_all add: 2(3))
    have kf: "t_ID k = i" "t_SiteUID k = b_SiteUID b" "t_UserID k = b_UserID b" "t_CodespaceUUID k = b_CodespaceUUID b"
        "t_EndpointID k = b_EndpointID b"
      by (simp_all add: k_def ticket_of_session_def Let_def sf)
    have valid: "ticket_wellformed k" "\<not> ticket_expired k now'"
      unfolding k_def using fresh_ticket_valid [of "s\<lparr> s_token := [] \<rparr>" now r now'] wf sf lim t by (simp_all add: session_wf_def)
    have asc: "ticket_ascii k"
      using names RawURLEncode_ascii by (simp add: ticket_ascii_def kf i)
    have now': "now' \<noteq> 0" using later lim(3) by (simp add: unix_epoch_def millisecond_def)
    have sealed: "seal_ticket t k random = Inr token" using 2(4) tok assms(2) by (simp add: issueTicket_def k_def)
    then obtain plain nonce where pn: "json_Marshal t k = Some plain" "random (NonceSize t) = Some nonce"
      by (auto simp: seal_ticket_Inr)
    have "open_ticket (tickets r') token now' wall' = Some k"
      unfolding cfg using open_sealed [OF assms(3) pn(1) _ pn(2) rnd [OF pn(2)] sealed size, of now' wall'] codec asc pn(1) valid now'
      by (auto simp: json_keeps_ascii_def)
    then have m: "match_loop r' (b_CodespaceUUID b) (b_EndpointID b) now' wall' None [token] = Inr (Some k)"
      by (simp add: kf)
    obtain r3 cs3 where d: "dropExpiredSessionsLocked ord' now' wall' r' = (r3, cs3)" by (metis prod.collapse)
    have "fmlookup (sessions r') i = Some s" by (simp add: 2(9) incrementSessionCountLocked_def)
    moreover have "\<not> sessionExpiredLocked r' s now'"
      using sf t by (simp add: sessionExpiredLocked_def not_less time_sub_def gatewaySessionConnectTimeout_def duration_units
          max_int64_def min_int64_def)
    ultimately have r3: "fmlookup (sessions r3) i = Some s"
      using dropExpired_sessions [OF ok' cov, of now' wall' i s] d now' by simp
    have "ticket_ascii (ticket_of_session r3 (s\<lparr> s_established := True, s_lastActive := now' \<rparr>) now')"
      using names RawURLEncode_ascii by (simp add: ticket_ascii_def ticket_of_session_def Let_def sf i)
    note asc2 = this
    have "tickets r3 = Some t" using dropExpired_ok [OF ok', of ord' now' wall'] d cfg by (simp add: shrinks_def)
    moreover obtain p where "json_Marshal t (ticket_of_session r3 (s\<lparr> s_established := True, s_lastActive := now' \<rparr>) now') = Some p"
      using codec asc2 unfolding json_keeps_ascii_def by blast
    ultimately obtain token2 where "issueTicket r3 (s\<lparr> s_established := True, s_lastActive := now' \<rparr>) now' random' = Inr token2"
      using rnd' by (simp add: issueTicket_def seal_ticket_def)
    then show ?thesis
      using m d r3 kf sf 2(12,13) i
      by (simp add: AuthenticateAny_def authenticate_matched_def authenticate_touch_def Let_def del: match_loop.simps)
  qed simp
qed

section \<open>Witnesses\<close>

definition demo_reg0 :: sessionRegistry where
  "demo_reg0 =
     \<lparr> ttl = 20 * millisecond, idleTimeout = 20 * millisecond, maxSessionsPerCodespace = 2, maxSessionsPerUser = 1,
       tickets = Some demo_crypto, live = fmempty, nextLiveID = 0, liveEntries = fmempty,
       sessionCountByCodespace = fmempty, sessionCountByUser = fmempty, sessions = fmempty, activityChanges = False \<rparr>"

definition demo_binding :: openTokenBinding where
  "demo_binding = \<lparr> b_SiteUID = ''a'', b_UserID = 7, b_CodespaceUUID = ''c'', b_EndpointID = ''e'' \<rparr>"

definition demo_ord :: iteration where
  "demo_ord = \<lparr> session_ids = [RawURLEncode ''xyz''], live_ids = [1, 2] \<rparr>"

definition demo_create where
  "demo_create = CreateReplacingAny demo_ord demo_binding [] (time_UnixMilli 10) 0 (Some ''xyz'') demo_random demo_reg0"

definition demo_reg1 :: sessionRegistry where
  "demo_reg1 = fst (snd demo_create)"

definition demo_reg2 :: sessionRegistry where
  "demo_reg2 = fst (snd (BeginSSHSession demo_ord ''a'' ''c'' 8 (Some 5) (time_UnixMilli 12) 0 demo_reg1))"

definition demo_session_token :: string where
  "demo_session_token = (case fst demo_create of Inr t \<Rightarrow> t | Inl _ \<Rightarrow> '''')"

lemma demo_reach0: "reachable registry_init registry_step demo_reg0"
proof (rule reach_init)
  have "newSessionRegistryFromConfig (\<lambda>_. Some demo_crypto)
      \<lparr> cfg_TTL = 20 * millisecond, cfg_IdleTimeout = 20 * millisecond, cfg_MaxPerCodespace = 2, cfg_MaxPerUser = 1 \<rparr>
      (replicate 32 (CHR ''k'')) = Inr demo_reg0"
    by (simp add: newSessionRegistryFromConfig_def newGatewaySessionTickets_def demo_reg0_def millisecond_def)
  then show "registry_init demo_reg0" unfolding registry_init_def by blast
qed

lemma demo_covers0: "covers demo_ord demo_reg0" by code_simp

lemma demo_create_token: "fst demo_create = Inr demo_session_token" by code_simp

lemma demo_reach1: "reachable registry_init registry_step demo_reg1"
proof (rule reach_step [OF demo_reach0], rule step_create)
  show "CreateReplacingAny demo_ord demo_binding [] (time_UnixMilli 10) 0 (Some ''xyz'') demo_random demo_reg0 =
      (fst demo_create, demo_reg1, snd (snd demo_create))"
    by (simp add: demo_reg1_def demo_create_def)
  show "fmlookup (sessions demo_reg0) (RawURLEncode ''xyz'') = None" by code_simp
qed (simp_all add: demo_covers0)

lemma demo_reach2: "reachable registry_init registry_step demo_reg2"
proof (rule reach_step [OF demo_reach1], rule step_begin_ssh)
  let ?x = "BeginSSHSession demo_ord ''a'' ''c'' 8 (Some 5) (time_UnixMilli 12) 0 demo_reg1"
  show "?x = (fst ?x, demo_reg2, snd (snd ?x))" by (simp add: demo_reg2_def)
  show "covers demo_ord demo_reg1" by code_simp
  show "nextLiveID demo_reg1 < max_int64" by code_simp
qed

lemma demo_covers2: "covers demo_ord demo_reg2" by code_simp

theorem registry_counts_exact_witness:
  "codespace_slots demo_reg2 ''c'' = 2 \<and> user_slots demo_reg2 (''a'', 8) = 1 \<and> live_slots demo_reg2 ''c'' = 1"
proof -
  have "counter_get (sessionCountByCodespace demo_reg2) ''c'' = 2" by code_simp
  moreover have "counter_get (sessionCountByUser demo_reg2) (''a'', 8) = 1" by code_simp
  moreover have "counter_get (live demo_reg2) ''c'' = 1" by code_simp
  ultimately show ?thesis using registry_counts_exact [OF demo_reach2, of "''c''" "(''a'', 8)"] by simp
qed

theorem delete_codespace_complete_witness:
  "\<exists>n r' cs. DeleteCodespace demo_ord ''c'' (Some demo_reg2) = (n, Some r', cs) \<and>
     counter_get (live r') ''c'' = 0 \<and> counter_get (sessionCountByCodespace r') ''c'' = 0 \<and> 5 \<in> set cs"
proof -
  obtain n r' cs where eq: "DeleteCodespace demo_ord ''c'' (Some demo_reg2) = (n, Some r', cs)"
    by (simp add: DeleteCodespace_def Let_def case_prod_beta)
  have "map_option l_cancel (fmlookup (liveEntries demo_reg2) (''c'', 1)) = Some (Some 5)" by code_simp
  then obtain d where "fmlookup (liveEntries demo_reg2) (''c'', 1) = Some d" "l_cancel d = Some 5" by auto
  with eq show ?thesis
    using delete_codespace_complete [OF demo_reach2 demo_covers2 _ eq, where m = 1 and d = d and f = 5] by auto
qed

theorem activity_expires_and_counts_witness:
  "\<exists>act r' cs. Activity demo_ord (time_UnixMilli 50) 0 demo_reg2 = (act, r', cs) \<and>
     fmlookup (sessions r') (RawURLEncode ''xyz'') = None \<and> live_slots r' ''c'' = 1"
proof -
  obtain act r' cs where eq: "Activity demo_ord (time_UnixMilli 50) 0 demo_reg2 = (act, r', cs)"
    by (metis prod.collapse)
  have "fmlookup (fst (Activity demo_ord (time_UnixMilli 50) 0 demo_reg2)) ''c'' = Some 1" by code_simp
  then have act: "fmlookup act ''c'' = Some 1" by (simp add: eq)
  have t: "time_UnixMilli 50 \<noteq> 0" by code_simp
  have "case fmlookup (sessions demo_reg2) (RawURLEncode ''xyz'') of None \<Rightarrow> True
      | Some s \<Rightarrow> sessionExpiredLocked demo_reg2 s (time_UnixMilli 50)" by code_simp
  then have "fmlookup (sessions demo_reg2) (RawURLEncode ''xyz'') = Some s \<Longrightarrow>
      sessionExpiredLocked demo_reg2 s (time_UnixMilli 50)" for s by simp
  then have "fmlookup (sessions r') (RawURLEncode ''xyz'') \<noteq> Some s" for s
    using activity_expires_and_counts [OF demo_reach2 demo_covers2 eq, of "RawURLEncode ''xyz''" s] t by auto
  moreover have "live_slots r' ''c'' = 1"
    using activity_expires_and_counts [OF demo_reach2 demo_covers2 eq, where c = "''c''"] act by (auto split: if_splits)
  ultimately show ?thesis using eq by (metis not_Some_eq)
qed

theorem authenticate_sound_witness:
  "\<exists>s r' cs. AuthenticateAny demo_ord [''junk'', demo_session_token] ''c'' ''e'' (time_UnixMilli 15) 0 demo_random demo_reg2 =
     ((s, True, False), r', cs) \<and> fmlookup (sessions r') (s_id s) = Some s \<and> s_codespaceUUID s = ''c'' \<and> s_endpointID s = ''e''"
proof -
  let ?x = "AuthenticateAny demo_ord [''junk'', demo_session_token] ''c'' ''e'' (time_UnixMilli 15) 0 demo_random demo_reg2"
  have "snd (fst ?x) = (True, False)" by code_simp
  then obtain s r' cs where eq: "?x = ((s, True, False), r', cs)" by (metis prod.collapse)
  then show ?thesis using authenticate_sound [OF demo_reach2 eq] by blast
qed

theorem replacement_not_refused_witness:
  "\<exists>r' cs. CreateReplacingAny demo_ord demo_binding [demo_session_token] (time_UnixMilli 15) 0 (Some ''uvw'') demo_random demo_reg1
     = (Inr (case issueTicket demo_reg1 \<lparr> s_id = RawURLEncode ''uvw'', s_siteUID = ''a'', s_userID = 7,
           s_codespaceUUID = ''c'', s_endpointID = ''e'', s_created = time_UnixMilli 15, s_lastActive = time_UnixMilli 15,
           s_established = False, s_expires = time_UnixMilli 15 + ttl demo_reg1, s_token = '''' \<rparr> (time_UnixMilli 15) demo_random
         of Inr t \<Rightarrow> t | Inl _ \<Rightarrow> ''''), r', cs) \<and> fmlookup (sessions r') (RawURLEncode ''xyz'') = None"
proof -
  let ?t = "issueTicket demo_reg1 \<lparr> s_id = RawURLEncode ''uvw'', s_siteUID = ''a'', s_userID = 7,
           s_codespaceUUID = ''c'', s_endpointID = ''e'', s_created = time_UnixMilli 15, s_lastActive = time_UnixMilli 15,
           s_established = False, s_expires = time_UnixMilli 15 + ttl demo_reg1, s_token = '''' \<rparr> (time_UnixMilli 15) demo_random"
  let ?d = "dropExpiredSessionsLocked demo_ord (time_UnixMilli 15) 0 demo_reg1"
  have tok: "?t = Inr (case ?t of Inr t \<Rightarrow> t | Inl _ \<Rightarrow> '''')" by code_simp
  have m: "matchingSessionIDLocked (fst ?d) [demo_session_token] demo_binding (time_UnixMilli 15) 0 = (RawURLEncode ''xyz'', False)"
    by code_simp
  have ne: "RawURLEncode ''xyz'' \<noteq> ''''" by code_simp
  have "map_option (\<lambda>s. (s_siteUID s, s_userID s, s_codespaceUUID s)) (fmlookup (sessions (fst ?d)) (RawURLEncode ''xyz'')) =
      Some (''a'', 7, ''c'')" by code_simp
  then obtain s where s: "fmlookup (sessions (fst ?d)) (RawURLEncode ''xyz'') = Some s" "s_siteUID s = b_SiteUID demo_binding"
      "s_userID s = b_UserID demo_binding" "s_codespaceUUID s = b_CodespaceUUID demo_binding"
    by (auto simp: demo_binding_def)
  have fresh: "fmlookup (sessions demo_reg1) (RawURLEncode ''uvw'') = None" by code_simp
  have b: "b_SiteUID demo_binding = ''a''" "b_UserID demo_binding = 7" "b_CodespaceUUID demo_binding = ''c''"
      "b_EndpointID demo_binding = ''e''" by (simp_all add: demo_binding_def)
  have d: "?d = (fst ?d, snd ?d)" by simp
  have nb: "b_SiteUID demo_binding \<noteq> ''''" "0 < b_UserID demo_binding" "b_CodespaceUUID demo_binding \<noteq> ''''"
      "b_EndpointID demo_binding \<noteq> ''''" by (simp_all add: b)
  show ?thesis
    using replacement_not_refused [OF demo_reach1 nb tok [folded b] d m ne s fresh] unfolding b by blast
qed

theorem create_then_authenticate_witness:
  "\<exists>s r' cs. AuthenticateAny demo_ord [demo_session_token] ''c'' ''e'' (time_UnixMilli 20) 0 demo_random demo_reg1 =
     ((s, True, False), r', cs) \<and> s_siteUID s = ''a'' \<and> s_userID s = 7"
proof -
  have c: "CreateReplacingAny demo_ord demo_binding [] (time_UnixMilli 10) 0 (Some ''xyz'') demo_random demo_reg0 =
      (Inr demo_session_token, demo_reg1, snd (snd demo_create))"
    using demo_create_token by (simp add: demo_reg1_def demo_create_def prod_eq_iff)
  have codec: "json_keeps_ascii demo_crypto"
    by (simp add: json_keeps_ascii_def demo_crypto_def demo_codec)
  have names: "ascii_text (b_SiteUID demo_binding)" "ascii_text (b_CodespaceUUID demo_binding)" "ascii_text (b_EndpointID demo_binding)"
    by code_simp+
  have tk: "tickets demo_reg0 = Some demo_crypto" by (simp add: demo_reg0_def)
  have "fmlookup (sessions demo_reg0) (RawURLEncode ''xyz'') = None"
    "length demo_session_token \<le> gatewaySessionTicketMaxBytes" "millisecond \<le> ttl demo_reg0" "millisecond \<le> idleTimeout demo_reg0"
    "unix_epoch + millisecond \<le> time_UnixMilli 10" "time_UnixMilli 10 \<le> time_UnixMilli 20"
    "time_UnixMilli 20 \<le> time_UnixMilli 10 + ttl demo_reg0 - millisecond"
    "time_UnixMilli 20 \<le> time_UnixMilli 10 + gatewaySessionConnectTimeout - millisecond"
    "time_UnixMilli 20 \<le> time_UnixMilli 10 + idleTimeout demo_reg0 - millisecond" "covers demo_ord demo_reg1"
    by code_simp+
  from create_then_authenticate [OF demo_reach0 tk demo_crypto_correct codec names demo_random_length c _ this, of demo_random _ 0]
  show ?thesis by (auto simp: demo_binding_def demo_random_def)
qed

end
