(* ===== verification/Journal.thy ===== *)
theory Journal
  imports Prelude
begin

text \<open>
  The execution journal of the Runtime Agent (\<open>internal/agent/journal.go\<close>): the durable record of
  which side effects of which operation have been started and how they ended. The volume is a
  record of the execution file and of the names in each directory. JSON is the identity on
  records that decode; a file that does not decode is \<open>Undecodable\<close>. Which system calls fail is
  an argument (\<open>fails\<close> for opening, a \<open>save_outcome\<close> for writing: a failed write may or may not have
  replaced the file, since the rename precedes the last synchronisation). \<open>runStage\<close> is split
  where it leaves the mutex to run the side effect. The Git key functions of the same file call
  cryptographic libraries only and are not modelled.
\<close>

section \<open>Data\<close>

record VolumeIdentity =
  SiteUID :: string
  ResourceUID :: string
  RuntimeUUID :: string

record stageResult =
  Complete :: bool
  Succeeded :: bool

record executionRecord =
  Identity :: VolumeIdentity
  Version :: int
  Started :: int
  Stages :: "(string, stageResult) fmap"

record Journal =
  j_record :: executionRecord
  j_active :: bool

datatype execution_file = Absent | Undecodable | Present executionRecord

record volume =
  vol_file :: execution_file
  vol_dirs :: "(string, string list) fmap"

datatype journal_error =
    identityIncomplete
  | ioError
  | lockNotRegular
  | activeWriter
  | recordMissing
  | decodeFailed
  | otherCodespace
  | invalidRecord
  | invalidStage
  | startIdentityInvalid
  | startConflicts
  | startMissing
  | stageIdentityInvalid
  | stepOutsideStage
  | stageStillRunning
  | versionStale
  | unknownResult
  | previouslyFailed
  | contextError
  | tooManyStages
  | runError string

datatype open_call =
    OpenRoot | MakeDir string | OpenLock | StatLock | LockRegular | Flock | ReadRecord
  | OpenDir string | ReadDir string | CloseDir string

datatype save_outcome = SaveOk | SaveFailedBefore | SaveFailedAfter

section \<open>Operations\<close>

text \<open>\<open>save\<close> and \<open>write\<close>: whether an error is returned, and what the file holds afterwards.\<close>

definition save :: "save_outcome \<Rightarrow> executionRecord \<Rightarrow> volume \<Rightarrow> bool \<times> volume" where
  "save out rec vol =
     (case out of
        SaveOk \<Rightarrow> (True, vol\<lparr> vol_file := Present rec \<rparr>)
      | SaveFailedBefore \<Rightarrow> (False, vol)
      | SaveFailedAfter \<Rightarrow> (False, vol\<lparr> vol_file := Present rec \<rparr>))"

fun make_dirs :: "(open_call \<Rightarrow> bool) \<Rightarrow> string list \<Rightarrow> volume \<Rightarrow> bool \<times> volume" where
  "make_dirs fails [] vol = (True, vol)"
| "make_dirs fails (d # ds) vol =
     (if fails (MakeDir d) then (False, vol)
      else make_dirs fails ds
        (if fmlookup (vol_dirs vol) d = None then vol\<lparr> vol_dirs := fmupd d [] (vol_dirs vol) \<rparr> else vol))"

text \<open>The scan for leftovers: at most two names of each directory are read.\<close>

fun scan_dirs :: "(open_call \<Rightarrow> bool) \<Rightarrow> string list \<Rightarrow> volume \<Rightarrow> journal_error option" where
  "scan_dirs fails [] vol = None"
| "scan_dirs fails (d # ds) vol =
     (case fmlookup (vol_dirs vol) d of
        None \<Rightarrow> scan_dirs fails ds vol
      | Some entries \<Rightarrow>
          if fails (OpenDir d) \<or> fails (ReadDir d) \<or> fails (CloseDir d) then Some ioError
          else if list_ex (\<lambda>entry. d \<noteq> ''state'' \<or> entry \<noteq> ''lock'') (take 2 entries) then Some recordMissing
          else scan_dirs fails ds vol)"

definition emptyRecord :: "VolumeIdentity \<Rightarrow> executionRecord" where
  "emptyRecord identity = \<lparr> Identity = identity, Version = 0, Started = 0, Stages = fmempty \<rparr>"

definition record_shape_ok :: "executionRecord \<Rightarrow> bool" where
  "record_shape_ok rec \<longleftrightarrow>
     \<not> (Version rec < 0 \<or> Started rec < 0 \<or> map_len (Stages rec) > 64 \<or>
        (Version rec = 0 \<and> (Started rec \<noteq> 0 \<or> map_len (Stages rec) \<noteq> 0)) \<or>
        (Version rec > 0 \<and> Started rec = 0))"

definition stage_shape_ok :: "string \<Rightarrow> stageResult \<Rightarrow> bool" where
  "stage_shape_ok name result \<longleftrightarrow> \<not> (name = '''' \<or> length name > 128 \<or> (\<not> Complete result \<and> Succeeded result))"

definition validate_record :: "executionRecord \<Rightarrow> journal_error + Journal" where
  "validate_record rec =
     (if \<not> record_shape_ok rec then Inl invalidRecord
      else if \<not> fmpred stage_shape_ok (Stages rec) then Inl invalidStage
      else Inr \<lparr> j_record = rec, j_active = False \<rparr>)"

definition add_lock :: "volume \<Rightarrow> volume" where
  "add_lock vol =
     (let entries = (case fmlookup (vol_dirs vol) ''state'' of None \<Rightarrow> [] | Some es \<Rightarrow> es)
      in if ''lock'' \<in> set entries then vol else vol\<lparr> vol_dirs := fmupd ''state'' (entries @ [''lock'']) (vol_dirs vol) \<rparr>)"

definition OpenJournal ::
    "(open_call \<Rightarrow> bool) \<Rightarrow> save_outcome \<Rightarrow> VolumeIdentity \<Rightarrow> volume \<Rightarrow> (journal_error + Journal) \<times> volume" where
  "OpenJournal fails out identity vol =
     (if SiteUID identity = '''' \<or> ResourceUID identity = '''' \<or> RuntimeUUID identity = '''' then (Inl identityIncomplete, vol)
      else if fails OpenRoot then (Inl ioError, vol)
      else
        (let (made, vol) = make_dirs fails [''state'', ''identity'', ''logs'', ''workspaces''] vol
         in if \<not> made then (Inl ioError, vol)
            else if fails OpenLock then (Inl ioError, vol)
            else
              (let vol = add_lock vol
               in if fails StatLock then (Inl ioError, vol)
                  else if fails LockRegular then (Inl lockNotRegular, vol)
                  else if fails Flock then (Inl activeWriter, vol)
                  else if fails ReadRecord then (Inl ioError, vol)
                  else case vol_file vol of
                    Absent \<Rightarrow>
                      (case scan_dirs fails [''state'', ''identity'', ''logs'', ''workspaces'', ''docker'', ''containerd''] vol of
                         Some e \<Rightarrow> (Inl e, vol)
                       | None \<Rightarrow>
                           (let (saved, vol) = save out (emptyRecord identity) vol
                            in if \<not> saved then (Inl ioError, vol)
                               else (validate_record (emptyRecord identity), vol)))
                  | Undecodable \<Rightarrow> (Inl decodeFailed, vol)
                  | Present rec \<Rightarrow>
                      if Identity rec \<noteq> identity then (Inl otherCodespace, vol)
                      else (validate_record rec, vol))))"

definition BeginOperation ::
    "save_outcome \<Rightarrow> int \<Rightarrow> int \<Rightarrow> Journal \<Rightarrow> volume \<Rightarrow> (journal_error + int) \<times> Journal \<times> volume" where
  "BeginOperation out version now j vol =
     (if version \<le> 0 \<or> now \<le> 0 then (Inl startIdentityInvalid, j, vol)
      else if j_active j \<or> Version (j_record j) > version then (Inl startConflicts, j, vol)
      else
        (let (ok, j, vol) =
           (if Version (j_record j) < version
            then (let j = j\<lparr> j_record := (j_record j)\<lparr> Version := version, Started := now, Stages := fmempty \<rparr> \<rparr>;
                      (saved, vol) = save out (j_record j) vol
                  in (saved, j, vol))
            else (True, j, vol))
         in if \<not> ok then (Inl ioError, j, vol)
            else if Started (j_record j) \<le> 0 then (Inl startMissing, j, vol)
            else (Inr (Started (j_record j)), j, vol)))"

text \<open>
  \<open>runStage\<close> up to the call of \<open>run\<close>. \<open>StageReturn\<close> is a return (\<open>None\<close> is nil), \<open>StageRun\<close> means
  that the side effect is invoked next.
\<close>

datatype stage_entry = StageReturn "journal_error option" | StageRun

definition bump_version :: "int \<Rightarrow> int \<Rightarrow> Journal \<Rightarrow> Journal" where
  "bump_version version unix j =
     (if Version (j_record j) < version
      then j\<lparr> j_record := (j_record j)\<lparr> Version := version, Started := unix, Stages := fmempty \<rparr> \<rparr>
      else j)"

definition set_stage :: "string \<Rightarrow> stageResult \<Rightarrow> Journal \<Rightarrow> Journal" where
  "set_stage name result j = j\<lparr> j_record := (j_record j)\<lparr> Stages := fmupd name result (Stages (j_record j)) \<rparr> \<rparr>"

definition interrupted :: stageResult where
  "interrupted = \<lparr> Complete = False, Succeeded = False \<rparr>"

definition runStage_enter ::
    "save_outcome \<Rightarrow> int \<Rightarrow> bool \<Rightarrow> int \<Rightarrow> string \<Rightarrow> bool \<Rightarrow> bool \<Rightarrow> Journal \<Rightarrow> volume
     \<Rightarrow> stage_entry \<times> Journal \<times> volume" where
  "runStage_enter out unix ctxErr version name nested runNil j vol =
     (if version \<le> 0 \<or> name = '''' \<or> length name > 128 \<or> runNil then (StageReturn (Some stageIdentityInvalid), j, vol)
      else if nested \<and> (\<not> j_active j \<or> Version (j_record j) \<noteq> version) then (StageReturn (Some stepOutsideStage), j, vol)
      else if \<not> nested \<and> j_active j then (StageReturn (Some stageStillRunning), j, vol)
      else if Version (j_record j) > version then (StageReturn (Some versionStale), j, vol)
      else
        (let j = bump_version version unix j
         in case fmlookup (Stages (j_record j)) name of
              Some result \<Rightarrow>
                if \<not> Complete result then (StageReturn (Some unknownResult), j, vol)
                else if \<not> Succeeded result then (StageReturn (Some previouslyFailed), j, vol)
                else (StageReturn None, j, vol)
            | None \<Rightarrow>
                if ctxErr then (StageReturn (Some contextError), j, vol)
                else if map_len (Stages (j_record j)) \<ge> 64 then (StageReturn (Some tooManyStages), j, vol)
                else
                  (let j = set_stage name interrupted j;
                       (saved, vol) = save out (j_record j) vol;
                       j = (if \<not> nested then j\<lparr> j_active := saved \<rparr> else j)
                   in if \<not> saved then (StageReturn (Some ioError), j, vol) else (StageRun, j, vol))))"

text \<open>\<open>runStage\<close> after \<open>run\<close> has returned \<open>runErr\<close>. The joined errors are a list; nil is the empty list.\<close>

definition runStage_leave ::
    "save_outcome \<Rightarrow> string \<Rightarrow> bool \<Rightarrow> journal_error option \<Rightarrow> Journal \<Rightarrow> volume \<Rightarrow> journal_error list \<times> Journal \<times> volume" where
  "runStage_leave out name nested runErr j vol =
     (let j = (if \<not> nested then j\<lparr> j_active := False \<rparr> else j);
          j = set_stage name \<lparr> Complete = True, Succeeded = (runErr = None) \<rparr> j;
          errs = (case runErr of None \<Rightarrow> [] | Some e \<Rightarrow> [e]);
          (saved, vol) = save out (j_record j) vol
      in if \<not> saved then (errs @ [ioError], set_stage name interrupted j, vol) else (errs, j, vol))"

text \<open>The whole of \<open>runStage\<close> when nothing interrupts it; \<open>run\<close> may use the journal itself.\<close>

definition runStage ::
    "save_outcome \<Rightarrow> save_outcome \<Rightarrow> int \<Rightarrow> bool \<Rightarrow> int \<Rightarrow> string \<Rightarrow> bool
     \<Rightarrow> (Journal \<times> volume \<Rightarrow> journal_error option \<times> Journal \<times> volume) option
     \<Rightarrow> Journal \<Rightarrow> volume \<Rightarrow> journal_error list \<times> Journal \<times> volume" where
  "runStage out1 out2 unix ctxErr version name nested run j vol =
     (case runStage_enter out1 unix ctxErr version name nested (run = None) j vol of
        (StageReturn None, j, vol) \<Rightarrow> ([], j, vol)
      | (StageReturn (Some e), j, vol) \<Rightarrow> ([e], j, vol)
      | (StageRun, j, vol) \<Rightarrow>
          (case the run (j, vol) of (runErr, j, vol) \<Rightarrow> runStage_leave out2 name nested runErr j vol))"

definition RunOnce where
  "RunOnce out1 out2 unix ctxErr version name run j vol = runStage out1 out2 unix ctxErr version name False run j vol"

definition runActiveStep where
  "runActiveStep out1 out2 unix ctxErr version name run j vol = runStage out1 out2 unix ctxErr version name True run j vol"

section \<open>The world: one volume, writers that crash\<close>

text \<open>
  \<open>w_running\<close> are the side effects being executed (operation version, stage, nested), \<open>w_started\<close>
  the log of all invocations ever and \<open>w_succeeded\<close> the invocations that returned nil. A crash
  loses the journal in memory and every running side effect and keeps the volume; the file lock
  makes the next writer wait for it. Nested steps run inside the function of their stage, so a
  stage ends when its steps have.
\<close>

record jworld =
  w_vol :: volume
  w_journal :: "Journal option"
  w_running :: "(int \<times> string \<times> bool) list"
  w_started :: "(int \<times> string) list"
  w_succeeded :: "(int \<times> string) set"

definition journal_init :: "jworld \<Rightarrow> bool" where
  "journal_init w \<longleftrightarrow>
     vol_file (w_vol w) = Absent \<and> w_journal w = None \<and> w_running w = [] \<and> w_started w = [] \<and> w_succeeded w = {}"

inductive journal_step :: "jworld \<Rightarrow> jworld \<Rightarrow> bool" where
  js_open: "w_journal w = None \<Longrightarrow> OpenJournal fails out identity (w_vol w) = (Inr j, vol) \<Longrightarrow>
     journal_step w (w\<lparr> w_vol := vol, w_journal := Some j \<rparr>)"
| js_open_fails: "w_journal w = None \<Longrightarrow> OpenJournal fails out identity (w_vol w) = (Inl e, vol) \<Longrightarrow>
     journal_step w (w\<lparr> w_vol := vol \<rparr>)"
| js_begin: "w_journal w = Some j \<Longrightarrow> BeginOperation out version now j (w_vol w) = (answer, j', vol) \<Longrightarrow>
     journal_step w (w\<lparr> w_vol := vol, w_journal := Some j' \<rparr>)"
| js_return: "w_journal w = Some j \<Longrightarrow> 0 < unix \<Longrightarrow>
     runStage_enter out unix ctxErr version name nested runNil j (w_vol w) = (StageReturn answer', j', vol) \<Longrightarrow>
     journal_step w (w\<lparr> w_vol := vol, w_journal := Some j' \<rparr>)"
| js_run: "w_journal w = Some j \<Longrightarrow> 0 < unix \<Longrightarrow>
     runStage_enter out unix ctxErr version name nested runNil j (w_vol w) = (StageRun, j', vol) \<Longrightarrow>
     journal_step w (w\<lparr> w_vol := vol, w_journal := Some j', w_running := (version, name, nested) # w_running w,
       w_started := (version, name) # w_started w \<rparr>)"
| js_leave: "w_journal w = Some j \<Longrightarrow> (version, name, nested) \<in> set (w_running w) \<Longrightarrow>
     (\<not> nested \<Longrightarrow> w_running w = [(version, name, nested)]) \<Longrightarrow>
     runStage_leave out name nested runErr j (w_vol w) = (errs, j', vol) \<Longrightarrow>
     journal_step w (w\<lparr> w_vol := vol, w_journal := Some j',
       w_running := filter (\<lambda>x. x \<noteq> (version, name, nested)) (w_running w),
       w_succeeded := (if runErr = None then insert (version, name) (w_succeeded w) else w_succeeded w) \<rparr>)"
| js_crash: "journal_step w (w\<lparr> w_journal := None, w_running := [] \<rparr>)"
end
