(* ===== verification/Journal_Invariant.thy ===== *)
theory Journal_Invariant
  imports Journal
begin

text \<open>
  What the journal guarantees across crashes, failed writes and replacement writers: a side effect
  is invoked at most once, a stage answers with success only if its side effect succeeded, and an
  operation keeps its recorded start.
\<close>

section \<open>The invariant\<close>

definition recorded :: "executionRecord \<Rightarrow> int \<times> string \<Rightarrow> bool" where
  "recorded rec x \<longleftrightarrow> fst x < Version rec \<or> (fst x = Version rec \<and> fmlookup (Stages rec) (snd x) \<noteq> None)"

definition claims_ok :: "executionRecord \<Rightarrow> (int \<times> string) set \<Rightarrow> bool" where
  "claims_ok rec succ \<longleftrightarrow>
     (\<forall>n r. fmlookup (Stages rec) n = Some r \<longrightarrow> Succeeded r \<longrightarrow> Complete r \<longrightarrow> (Version rec, n) \<in> succ)"

text \<open>\<open>follows r r'\<close>: the record \<open>r'\<close> is a later state of the record \<open>r\<close>.\<close>

definition follows :: "executionRecord \<Rightarrow> executionRecord \<Rightarrow> bool" where
  "follows r r' \<longleftrightarrow>
     Version r < Version r' \<or>
     (Version r = Version r' \<and> Started r = Started r' \<and>
      (\<forall>n. fmlookup (Stages r) n \<noteq> None \<longrightarrow> fmlookup (Stages r') n \<noteq> None))"

lemma follows_refl [simp]: "follows r r"
  by (simp add: follows_def)

lemma follows_trans: "follows r s \<Longrightarrow> follows s t \<Longrightarrow> follows r t"
  unfolding follows_def by auto

lemma follows_recorded: "follows r r' \<Longrightarrow> recorded r x \<Longrightarrow> recorded r' x"
  unfolding follows_def recorded_def by auto

lemma claims_ok_mono: "claims_ok r s \<Longrightarrow> s \<subseteq> s' \<Longrightarrow> claims_ok r s'"
  unfolding claims_ok_def by blast

definition file_ok :: "execution_file \<Rightarrow> (int \<times> string) set \<Rightarrow> (int \<times> string) set \<Rightarrow> bool" where
  "file_ok f started succ \<longleftrightarrow>
     (case f of Present r \<Rightarrow> (\<forall>x \<in> started. recorded r x) \<and> claims_ok r succ | _ \<Rightarrow> started = {})"

definition running_ok :: "Journal \<Rightarrow> (int \<times> string \<times> bool) list \<Rightarrow> bool" where
  "running_ok j running \<longleftrightarrow>
     (\<forall>(v, n, b) \<in> set running. v = Version (j_record j) \<and> fmlookup (Stages (j_record j)) n = Some interrupted) \<and>
     distinct (map (\<lambda>x. fst (snd x)) running) \<and>
     (if j_active j then \<exists>v n. (v, n, False) \<in> set running else running = [])"

definition memory_ok ::
    "execution_file \<Rightarrow> Journal \<Rightarrow> (int \<times> string \<times> bool) list \<Rightarrow> (int \<times> string) set \<Rightarrow> (int \<times> string) set \<Rightarrow> bool" where
  "memory_ok f j running started succ \<longleftrightarrow>
     (\<exists>r. f = Present r \<and> follows r (j_record j)) \<and> claims_ok (j_record j) succ \<and> running_ok j running"

definition journal_inv :: "jworld \<Rightarrow> bool" where
  "journal_inv w \<longleftrightarrow>
     distinct (w_started w) \<and>
     file_ok (vol_file (w_vol w)) (set (w_started w)) (w_succeeded w) \<and>
     (\<forall>(v, n, b) \<in> set (w_running w). (v, n) \<in> set (w_started w)) \<and>
     (case w_journal w of
        None \<Rightarrow> w_running w = []
      | Some j \<Rightarrow> memory_ok (vol_file (w_vol w)) j (w_running w) (set (w_started w)) (w_succeeded w))"

lemma memory_recorded:
  assumes "memory_ok f j running started succ" and "file_ok f started succ" and "x \<in> started"
  shows "recorded (j_record j) x"
proof -
  obtain r where "f = Present r" "follows r (j_record j)" using assms(1) by (auto simp: memory_ok_def)
  with assms(2,3) show ?thesis using follows_recorded [of r "j_record j" x] by (simp add: file_ok_def)
qed

section \<open>Effects of the operations\<close>

lemma make_dirs_file: "vol_file (snd (make_dirs fails ds vol)) = vol_file vol"
  by (induction fails ds vol rule: make_dirs.induct) auto

lemma add_lock_file [simp]: "vol_file (add_lock vol) = vol_file vol"
  by (simp add: add_lock_def Let_def)

lemma save_file:
  "vol_file (snd (save out r vol)) = (if out = SaveFailedBefore then vol_file vol else Present r)"
  "fst (save out r vol) \<longleftrightarrow> out = SaveOk"
  by (simp_all add: save_def split: save_outcome.split)

lemma validate_record_Inr:
  "validate_record r = Inr j \<Longrightarrow> j = \<lparr> j_record = r, j_active = False \<rparr> \<and> record_shape_ok r \<and> fmpred stage_shape_ok (Stages r)"
  by (simp add: validate_record_def split: if_splits)

lemma OpenJournal_cases:
  assumes eq: "OpenJournal fails out identity vol = (answer, vol')"
  shows "vol_file vol' = vol_file vol \<or> (vol_file vol = Absent \<and> vol_file vol' = Present (emptyRecord identity))"
    and "answer = Inr j \<Longrightarrow> \<not> j_active j \<and> vol_file vol' = Present (j_record j) \<and> Identity (j_record j) = identity \<and>
           record_shape_ok (j_record j) \<and> fmpred stage_shape_ok (Stages (j_record j))"
proof -
  obtain made vol1 where m: "make_dirs fails [''state'', ''identity'', ''logs'', ''workspaces''] vol = (made, vol1)"
    by (metis prod.collapse)
  have f1: "vol_file vol1 = vol_file vol" using make_dirs_file [of fails _ vol] m by (metis snd_conv)
  obtain saved vol2 where s: "save out (emptyRecord identity) (add_lock vol1) = (saved, vol2)" by (metis prod.collapse)
  have f2: "vol_file vol2 = vol_file vol1 \<or> vol_file vol2 = Present (emptyRecord identity)"
      "saved \<Longrightarrow> vol_file vol2 = Present (emptyRecord identity)"
    using save_file [of out "emptyRecord identity" "add_lock vol1"] s by (auto split: if_splits)
  obtain sc where sc: "scan_dirs fails [''state'', ''identity'', ''logs'', ''workspaces'', ''docker'', ''containerd''] (add_lock vol1) = sc"
    by blast
  note un = eq [unfolded OpenJournal_def m s sc Let_def prod.case]
  show "vol_file vol' = vol_file vol \<or> (vol_file vol = Absent \<and> vol_file vol' = Present (emptyRecord identity))"
    using un f1 f2 by (auto split: if_splits execution_file.splits option.splits)
  show "\<not> j_active j \<and> vol_file vol' = Present (j_record j) \<and> Identity (j_record j) = identity \<and>
      record_shape_ok (j_record j) \<and> fmpred stage_shape_ok (Stages (j_record j))" if "answer = Inr j"
    using un f1 f2(2) that
    by (auto split: if_splits execution_file.splits option.splits dest!: validate_record_Inr simp: emptyRecord_def)
qed

text \<open>\<open>advance version unix j\<close> is what a newer operation version does to the record in memory.\<close>

lemma bump_version_follows: "follows (j_record j) (j_record (bump_version v t j))"
  by (simp add: bump_version_def follows_def)

lemma bump_version_claims: "claims_ok (j_record j) s \<Longrightarrow> claims_ok (j_record (bump_version v t j)) s"
  by (simp add: bump_version_def claims_ok_def)

lemma bump_version_active [simp]: "j_active (bump_version v t j) = j_active j"
  by (simp add: bump_version_def)

lemma bump_version_same: "Version (j_record j) = v \<Longrightarrow> bump_version v t j = j"
  by (simp add: bump_version_def)

lemma bump_version_Version: "Version (j_record j) \<le> v \<Longrightarrow> Version (j_record (bump_version v t j)) = v"
  by (simp add: bump_version_def)

lemma set_stage_simps [simp]:
  "j_active (set_stage n r j) = j_active j"
  "Version (j_record (set_stage n r j)) = Version (j_record j)"
  "Started (j_record (set_stage n r j)) = Started (j_record j)"
  "Stages (j_record (set_stage n r j)) = fmupd n r (Stages (j_record j))"
  by (simp_all add: set_stage_def)

lemma set_stage_follows: "follows (j_record j) (j_record (set_stage n r j))"
  by (simp add: follows_def)

lemma set_stage_claims:
  "claims_ok (j_record j) s \<Longrightarrow> (Complete r \<Longrightarrow> Succeeded r \<Longrightarrow> (Version (j_record j), n) \<in> s) \<Longrightarrow>
   claims_ok (j_record (set_stage n r j)) s"
  by (simp add: claims_ok_def)

lemma BeginOperation_cases:
  assumes "BeginOperation out v now j vol = (answer, j', vol')"
  shows "(j' = j \<and> vol' = vol) \<or>
    (\<not> j_active j \<and> 0 < v \<and> 0 < now \<and> Version (j_record j) < v \<and> j' = bump_version v now j \<and> vol' = snd (save out (j_record j') vol))"
  using assms by (auto simp: BeginOperation_def bump_version_def Let_def split: if_splits prod.splits)

lemma runStage_enter_cases:
  assumes "runStage_enter out t ctxErr v n nested runNil j vol = (answer, j', vol')"
  obtains (same) e where "answer = StageReturn (Some e)" and "j' = j" and "vol' = vol"
  | (returns) a where "answer = StageReturn a" and "j' = bump_version v t j" and "vol' = vol"
      and "j_active j \<longrightarrow> Version (j_record j) = v" and "Version (j_record j) \<le> v" and "0 < v"
      and "a = None \<Longrightarrow> \<exists>r. fmlookup (Stages (j_record j')) n = Some r \<and> Complete r \<and> Succeeded r"
  | (marks) j1 where "j1 = set_stage n interrupted (bump_version v t j)"
      and "fmlookup (Stages (j_record (bump_version v t j))) n = None"
      and "j_active j \<longrightarrow> Version (j_record j) = v" and "Version (j_record j) \<le> v" and "nested = j_active j" and "0 < v"
      and "vol' = snd (save out (j_record j1) vol)"
      and "if out = SaveOk then answer = StageRun \<and> j' = j1\<lparr> j_active := True \<rparr> else answer = StageReturn (Some ioError) \<and> j' = j1"
proof -
  let ?b = "bump_version v t j"
  let ?j1 = "set_stage n interrupted ?b"
  obtain saved vol1 where s: "save out (j_record ?j1) vol = (saved, vol1)" by (metis prod.collapse)
  have sv: "saved = (out = SaveOk)" using save_file(2) [of out "j_record ?j1" vol] s by simp
  note un = assms [unfolded runStage_enter_def Let_def s prod.case]
  show thesis
  proof (cases "v \<le> 0 \<or> n = [] \<or> length n > 128 \<or> runNil \<or> (nested \<and> (\<not> j_active j \<or> Version (j_record j) \<noteq> v)) \<or>
      (\<not> nested \<and> j_active j) \<or> Version (j_record j) > v")
    case True
    then show thesis using un same by (auto split: if_splits)
  next
    case g: False
    then have side: "j_active j \<longrightarrow> Version (j_record j) = v" "Version (j_record j) \<le> v" "nested = j_active j" "0 < v" by auto
    show thesis
    proof (cases "fmlookup (Stages (j_record ?b)) n")
      case (Some r)
      then show thesis using un g side returns by (auto split: if_splits)
    next
      case None
      then have "(answer = StageReturn (Some contextError) \<or> answer = StageReturn (Some tooManyStages)) \<and> j' = ?b \<and> vol' = vol \<or>
          (vol' = vol1 \<and> (if out = SaveOk then answer = StageRun \<and> j' = ?j1\<lparr> j_active := True \<rparr>
             else answer = StageReturn (Some ioError) \<and> j' = ?j1))"
        using un g sv side(3) by (cases "j_active j") (auto simp: set_stage_def split: if_splits)
      then show thesis
      proof
        assume "(answer = StageReturn (Some contextError) \<or> answer = StageReturn (Some tooManyStages)) \<and> j' = ?b \<and> vol' = vol"
        then show thesis using returns side by auto
      next
        assume "vol' = vol1 \<and> (if out = SaveOk then answer = StageRun \<and> j' = ?j1\<lparr> j_active := True \<rparr>
             else answer = StageReturn (Some ioError) \<and> j' = ?j1)"
        then show thesis using marks [of ?j1] None side s by auto
      qed
    qed
  qed
qed

section \<open>Preservation\<close>

lemma file_ok_save:
  assumes "file_ok (vol_file vol) started succ" and "\<forall>x \<in> started. recorded r x" and "claims_ok r succ"
  shows "file_ok (vol_file (snd (save out r vol))) started succ"
  using assms by (simp add: save_file file_ok_def)

lemma memory_ok_save:
  assumes "\<exists>r0. vol_file vol = Present r0 \<and> follows r0 (j_record j)" and "claims_ok (j_record j) succ" and "running_ok j running"
    and "follows r (j_record j)" and "out \<noteq> SaveFailedBefore \<Longrightarrow> r' = r"
  shows "memory_ok (vol_file (snd (save out r' vol))) j running started succ"
  using assms by (auto simp: memory_ok_def save_file)

lemma running_ok_inactive: "\<not> j_active j \<Longrightarrow> running_ok j running \<longleftrightarrow> running = []"
  by (auto simp: running_ok_def)

lemma journal_inv_journal:
  "journal_inv w \<Longrightarrow> w_journal w = Some j \<Longrightarrow> memory_ok (vol_file (w_vol w)) j (w_running w) (set (w_started w)) (w_succeeded w)"
  by (simp add: journal_inv_def)

lemma inv_begin:
  assumes inv: "journal_inv w" and j: "w_journal w = Some j" and b: "BeginOperation out v now j (w_vol w) = (answer, j', vol)"
  shows "journal_inv (w\<lparr> w_vol := vol, w_journal := Some j' \<rparr>)"
proof -
  let ?f = "vol_file (w_vol w)" and ?st = "set (w_started w)" and ?su = "w_succeeded w"
  have mem: "memory_ok ?f j (w_running w) ?st ?su" by (rule journal_inv_journal [OF inv j])
  have fo: "file_ok ?f ?st ?su" using inv by (simp add: journal_inv_def)
  have "file_ok (vol_file vol) ?st ?su \<and> memory_ok (vol_file vol) j' (w_running w) ?st ?su"
  proof (cases "j' = j \<and> vol = w_vol w")
    case True
    then show ?thesis using mem fo by simp
  next
    case False
    then have c: "\<not> j_active j" "j' = bump_version v now j" "vol = snd (save out (j_record j') (w_vol w))"
      using BeginOperation_cases [OF b] by auto
    have rec: "\<forall>x \<in> ?st. recorded (j_record j') x"
      using memory_recorded [OF mem fo] follows_recorded [OF bump_version_follows] unfolding c(2) by blast
    have cl: "claims_ok (j_record j') ?su"
      using mem unfolding c(2) memory_ok_def by (blast intro: bump_version_claims)
    have run: "running_ok j' (w_running w)"
      using mem c(1) by (simp add: memory_ok_def running_ok_inactive c(2))
    have "\<exists>r0. ?f = Present r0 \<and> follows r0 (j_record j')"
      using mem follows_trans [OF _ bump_version_follows] unfolding memory_ok_def c(2) by blast
    then show ?thesis
      unfolding c(3) using file_ok_save [OF fo rec cl] memory_ok_save [OF _ cl run follows_refl] by blast
  qed
  then show ?thesis using inv by (simp add: journal_inv_def)
qed

lemma running_ok_active: "running_ok j running \<Longrightarrow> j_active j \<Longrightarrow> \<exists>v n. (v, n, False) \<in> set running"
  by (simp add: running_ok_def)

lemma inv_enter:
  assumes inv: "journal_inv w" and j: "w_journal w = Some j" and t: "0 < t"
    and e: "runStage_enter out t ctxErr v n nested runNil j (w_vol w) = (answer, j', vol)"
  shows "answer = StageReturn a \<Longrightarrow> journal_inv (w\<lparr> w_vol := vol, w_journal := Some j' \<rparr>)"
    and "answer = StageRun \<Longrightarrow> journal_inv (w\<lparr> w_vol := vol, w_journal := Some j', w_running := (v, n, nested) # w_running w,
       w_started := (v, n) # w_started w \<rparr>)"
    and "answer = StageRun \<Longrightarrow> (v, n) \<notin> set (w_started w)"
    and "answer = StageReturn None \<Longrightarrow> (v, n) \<in> w_succeeded w"
proof -
  let ?f = "vol_file (w_vol w)" and ?st = "set (w_started w)" and ?su = "w_succeeded w" and ?b = "bump_version v t j"
  have mem: "memory_ok ?f j (w_running w) ?st ?su" by (rule journal_inv_journal [OF inv j])
  have fo: "file_ok ?f ?st ?su" using inv by (simp add: journal_inv_def)
  have recb: "\<forall>x \<in> ?st. recorded (j_record ?b) x"
    using memory_recorded [OF mem fo] follows_recorded [OF bump_version_follows] by blast
  have clb: "claims_ok (j_record ?b) ?su" using mem unfolding memory_ok_def by (blast intro: bump_version_claims)
  have fb: "\<exists>r0. ?f = Present r0 \<and> follows r0 (j_record ?b)"
    using mem follows_trans [OF _ bump_version_follows] unfolding memory_ok_def by blast
  have runb: "running_ok ?b (w_running w)" if "j_active j \<longrightarrow> Version (j_record j) = v"
    using mem that by (cases "j_active j") (simp_all add: memory_ok_def bump_version_same running_ok_inactive)
  have goal: "(answer = StageReturn a \<longrightarrow> journal_inv (w\<lparr> w_vol := vol, w_journal := Some j' \<rparr>)) \<and>
    (answer = StageRun \<longrightarrow> journal_inv (w\<lparr> w_vol := vol, w_journal := Some j', w_running := (v, n, nested) # w_running w,
       w_started := (v, n) # w_started w \<rparr>)) \<and> (answer = StageRun \<longrightarrow> (v, n) \<notin> ?st) \<and>
    (answer = StageReturn None \<longrightarrow> (v, n) \<in> ?su)"
  proof (cases rule: runStage_enter_cases [OF e])
    case (1 e)
    then show ?thesis using inv j by (simp add: journal_inv_def)
  next
    case (2 a')
    have "memory_ok ?f j' (w_running w) ?st ?su" using fb clb runb 2(2,4) by (simp add: memory_ok_def)
    moreover have "a' = None \<Longrightarrow> (v, n) \<in> ?su"
      using 2(2,5,7) clb bump_version_Version [OF 2(5), of t] by (auto simp: claims_ok_def)
    ultimately show ?thesis using 2(1,3) inv by (auto simp: journal_inv_def)
  next
    case (3 j1)
    have f1: "follows (j_record ?b) (j_record j1)" unfolding 3(1) by (rule set_stage_follows)
    have rec1: "\<forall>x \<in> ?st. recorded (j_record j1) x" using recb follows_recorded [OF f1] by blast
    have cl1: "claims_ok (j_record j1) ?su" unfolding 3(1) by (rule set_stage_claims [OF clb]) (simp add: interrupted_def)
    have ff1: "\<exists>r0. ?f = Present r0 \<and> follows r0 (j_record j1)" using fb follows_trans [OF _ f1] by blast
    have run1: "running_ok j1 (w_running w)"
      using runb 3(2,3) by (auto simp: running_ok_def 3(1))
    have fv: "file_ok (vol_file vol) ?st ?su" unfolding 3(7) by (rule file_ok_save [OF fo rec1 cl1])
    have Vb: "Version (j_record ?b) = v" by (rule bump_version_Version [OF 3(4)])
    have new: "(v, n) \<notin> ?st" using recb 3(2) Vb by (auto simp: recorded_def)
    show ?thesis
    proof (cases "out = SaveOk")
      case False
      have "memory_ok (vol_file vol) j1 (w_running w) ?st ?su"
        unfolding 3(7) by (rule memory_ok_save [OF ff1 cl1 run1 follows_refl]) simp
      then show ?thesis using False 3(8) inv fv by (simp add: journal_inv_def)
    next
      case True
      let ?R = "(v, n, nested) # w_running w"
      have a: "answer = StageRun" "j' = j1\<lparr> j_active := True \<rparr>" using True 3(8) by simp_all
      have vf: "vol_file vol = Present (j_record j1)" using True by (simp add: 3(7) save_file)
      have rn: "recorded (j_record j1) (v, n)" using Vb by (simp add: recorded_def 3(1))
      have "running_ok j' ?R"
      proof -
        have names: "n \<notin> (\<lambda>x. fst (snd x)) ` set (w_running w)"
          using runb 3(2,3) by (auto simp: running_ok_def)
        have "\<exists>v' n'. (v', n', False) \<in> set ?R"
          using running_ok_active [of j "w_running w"] mem 3(5) by (cases "j_active j") (auto simp: memory_ok_def)
        then show ?thesis
          using run1 names Vb by (auto simp: running_ok_def a(2) 3(1) split: if_splits)
      qed
      then have m1: "memory_ok (vol_file vol) j' ?R (insert (v, n) ?st) ?su"
        using cl1 by (simp add: memory_ok_def vf a(2))
      have f2: "file_ok (vol_file vol) (insert (v, n) ?st) ?su" using rec1 cl1 rn by (simp add: file_ok_def vf)
      show ?thesis using a(1) new m1 f2 inv by (auto simp: journal_inv_def)
    qed
  qed
  then show "answer = StageReturn a \<Longrightarrow> journal_inv (w\<lparr> w_vol := vol, w_journal := Some j' \<rparr>)"
    and "answer = StageRun \<Longrightarrow> journal_inv (w\<lparr> w_vol := vol, w_journal := Some j', w_running := (v, n, nested) # w_running w,
       w_started := (v, n) # w_started w \<rparr>)"
    and "answer = StageRun \<Longrightarrow> (v, n) \<notin> ?st"
    and "answer = StageReturn None \<Longrightarrow> (v, n) \<in> ?su" by blast+
qed

lemma runStage_leave_eq:
  assumes "runStage_leave out n nested err j vol = (errs, j', vol')"
  defines "j0 \<equiv> (if nested then j else j\<lparr> j_active := False \<rparr>)"
    and "r \<equiv> \<lparr> Complete = True, Succeeded = (err = None) \<rparr>"
  shows "j' = (if out = SaveOk then set_stage n r j0 else set_stage n interrupted (set_stage n r j0))"
    and "vol' = snd (save out (j_record (set_stage n r j0)) vol)"
  using assms(1) save_file(2) [of out "j_record (set_stage n r j0)" vol]
  by (auto simp: runStage_leave_def Let_def j0_def r_def split: if_splits prod.splits)

lemma follows_set_stage_cong:
  "follows r0 (j_record j) \<Longrightarrow> j_record j0 = j_record j \<Longrightarrow> follows r0 (j_record (set_stage n r j0))"
  using follows_trans [OF _ set_stage_follows [of j0 n r]] by simp

lemma running_ok_leave:
  assumes run: "running_ok j R" and x: "(v, n, nested) \<in> set R" and outer: "\<not> nested \<Longrightarrow> R = [(v, n, nested)]"
    and j': "Version (j_record j') = Version (j_record j)" "j_active j' = (nested \<and> j_active j)"
      "\<And>m. m \<noteq> n \<Longrightarrow> fmlookup (Stages (j_record j')) m = fmlookup (Stages (j_record j)) m"
  shows "running_ok j' (filter (\<lambda>y. y \<noteq> (v, n, nested)) R)"
proof (cases nested)
  case False
  then show ?thesis using outer j'(2) by (simp add: running_ok_inactive)
next
  case True
  have act: "j_active j" using run x by (cases "j_active j") (auto simp: running_ok_def)
  have inj: "inj_on (\<lambda>y. fst (snd y)) (set R)" and dist: "distinct (map (\<lambda>y. fst (snd y)) R)"
    using run by (auto simp: running_ok_def distinct_map)
  have ne: "fst (snd y) \<noteq> n" if "y \<in> set R" "y \<noteq> (v, n, nested)" for y
    using inj_onD [OF inj _ that(1) x] that(2) by auto
  have old: "\<forall>y \<in> set R. fst y = Version (j_record j) \<and> fmlookup (Stages (j_record j)) (fst (snd y)) = Some interrupted"
    using run by (simp add: running_ok_def case_prod_beta)
  have "\<forall>(a, m, b) \<in> set (filter (\<lambda>y. y \<noteq> (v, n, nested)) R).
      a = Version (j_record j') \<and> fmlookup (Stages (j_record j')) m = Some interrupted"
  proof (rule ballI)
    fix y
    assume "y \<in> set (filter (\<lambda>y. y \<noteq> (v, n, nested)) R)"
    then have y: "y \<in> set R" "y \<noteq> (v, n, nested)" by simp_all
    have "fmlookup (Stages (j_record j')) (fst (snd y)) = fmlookup (Stages (j_record j)) (fst (snd y))"
      by (rule j'(3)) (rule ne [OF y])
    then show "case y of (a, m, b) \<Rightarrow> a = Version (j_record j') \<and> fmlookup (Stages (j_record j')) m = Some interrupted"
      using bspec [OF old y(1)] j'(1) by (simp add: case_prod_beta)
  qed
  moreover have "distinct (map (\<lambda>y. fst (snd y)) (filter (\<lambda>y. y \<noteq> (v, n, nested)) R))"
    using dist by (rule distinct_map_filter)
  moreover obtain v' n' where "(v', n', False) \<in> set R" using running_ok_active [OF run act] by blast
  ultimately show ?thesis using True act j'(2) by (auto simp: running_ok_def)
qed

lemma inv_leave:
  assumes inv: "journal_inv w" and j: "w_journal w = Some j" and x: "(v, n, nested) \<in> set (w_running w)"
    and outer: "\<not> nested \<Longrightarrow> w_running w = [(v, n, nested)]"
    and l: "runStage_leave out n nested err j (w_vol w) = (errs, j', vol)"
  shows "journal_inv (w\<lparr> w_vol := vol, w_journal := Some j', w_running := filter (\<lambda>x. x \<noteq> (v, n, nested)) (w_running w),
       w_succeeded := (if err = None then insert (v, n) (w_succeeded w) else w_succeeded w) \<rparr>)"
proof -
  let ?f = "vol_file (w_vol w)" and ?st = "set (w_started w)" and ?su = "w_succeeded w"
  define su where "su = (if err = None then insert (v, n) ?su else ?su)"
  define j0 where "j0 = (if nested then j else j\<lparr> j_active := False \<rparr>)"
  define r where "r = \<lparr> Complete = True, Succeeded = (err = None) \<rparr>"
  define j1 where "j1 = set_stage n r j0"
  note eq = runStage_leave_eq [OF l, folded j0_def r_def j1_def]
  have mem: "memory_ok ?f j (w_running w) ?st ?su" by (rule journal_inv_journal [OF inv j])
  have fo: "file_ok ?f ?st ?su" using inv by (simp add: journal_inv_def)
  have run: "running_ok j (w_running w)" using mem by (simp add: memory_ok_def)
  have v: "v = Version (j_record j)" using run x by (auto simp: running_ok_def)
  have j0: "j_record j0 = j_record j" by (simp add: j0_def)
  have sub: "?su \<subseteq> su" by (auto simp: su_def)
  have f1: "follows (j_record j) (j_record j1)" unfolding j1_def by (rule follows_set_stage_cong [OF follows_refl j0])
  have f': "follows (j_record j1) (j_record j')" using set_stage_follows [of j1] by (simp add: eq(1))
  have ff: "\<exists>r0. ?f = Present r0 \<and> follows r0 (j_record j')"
    using mem follows_trans [OF follows_trans [OF _ f1] f'] unfolding memory_ok_def by blast
  have cl: "claims_ok (j_record j0) su" using mem claims_ok_mono [OF _ sub] by (auto simp: memory_ok_def j0)
  have cl1: "claims_ok (j_record j1) su" unfolding j1_def
    by (rule set_stage_claims [OF cl]) (use v in \<open>auto simp: su_def r_def j0 split: if_splits\<close>)
  have cl': "claims_ok (j_record j') su"
    using cl1 set_stage_claims [OF cl1, of interrupted n] by (simp add: eq(1) interrupted_def)
  have rec1: "\<forall>y \<in> ?st. recorded (j_record j1) y"
    using memory_recorded [OF mem fo] follows_recorded [OF f1] by blast
  have "file_ok ?f ?st su" using fo claims_ok_mono [OF _ sub] by (auto simp: file_ok_def split: execution_file.splits)
  then have fv: "file_ok (vol_file vol) ?st su" unfolding eq(2) by (rule file_ok_save [OF _ rec1 cl1])
  have run': "running_ok j' (filter (\<lambda>x. x \<noteq> (v, n, nested)) (w_running w))"
    by (rule running_ok_leave [OF run x outer]) (auto simp: eq(1) j1_def j0_def)
  have "memory_ok (vol_file vol) j' (filter (\<lambda>x. x \<noteq> (v, n, nested)) (w_running w)) ?st su"
    unfolding eq(2) by (rule memory_ok_save [OF ff cl' run' f']) simp
  then show ?thesis using inv fv unfolding journal_inv_def su_def by auto
qed

lemma inv_open:
  assumes inv: "journal_inv w" and none: "w_journal w = None" and o: "OpenJournal fails out identity (w_vol w) = (answer, vol)"
  shows "answer = Inr j \<Longrightarrow> journal_inv (w\<lparr> w_vol := vol, w_journal := Some j \<rparr>)"
    and "answer = Inl e \<Longrightarrow> journal_inv (w\<lparr> w_vol := vol \<rparr>)"
proof -
  let ?st = "set (w_started w)" and ?su = "w_succeeded w"
  have fo: "file_ok (vol_file (w_vol w)) ?st ?su" and run: "w_running w = []"
    using inv none by (simp_all add: journal_inv_def)
  have fv: "file_ok (vol_file vol) ?st ?su"
    using OpenJournal_cases(1) [OF o] fo by (auto simp: file_ok_def claims_ok_def emptyRecord_def)
  then show "answer = Inl e \<Longrightarrow> journal_inv (w\<lparr> w_vol := vol \<rparr>)" using inv none by (simp add: journal_inv_def)
  assume "answer = Inr j"
  then have c: "\<not> j_active j" "vol_file vol = Present (j_record j)" using OpenJournal_cases(2) [OF o] by auto
  then have "memory_ok (vol_file vol) j [] ?st ?su" using fv by (simp add: memory_ok_def running_ok_inactive file_ok_def)
  then show "journal_inv (w\<lparr> w_vol := vol, w_journal := Some j \<rparr>)" using fv inv run by (simp add: journal_inv_def)
qed

lemma journal_step_inv:
  assumes "journal_step w w'" and inv: "journal_inv w"
  shows "journal_inv w'"
  using assms(1)
proof cases
  case (js_open fails out identity j vol)
  then show ?thesis using inv_open(1) [OF inv] by blast
next
  case (js_open_fails fails out identity e vol)
  then show ?thesis using inv_open(2) [OF inv] by blast
next
  case (js_begin j out version now answer j' vol)
  then show ?thesis using inv_begin [OF inv] by blast
next
  case (js_return j unix out ctxErr version name nested runNil answer' j' vol)
  show ?thesis unfolding js_return(1) by (rule inv_enter(1) [OF inv js_return(2-4)]) simp
next
  case (js_run j unix out ctxErr version name nested runNil j' vol)
  show ?thesis unfolding js_run(1) by (rule inv_enter(2) [OF inv js_run(2-4)]) simp
next
  case (js_leave j version name nested out runErr errs j' vol)
  show ?thesis unfolding js_leave(1) by (rule inv_leave [OF inv js_leave(2-5)])
next
  case js_crash
  then show ?thesis using inv by (simp add: journal_inv_def)
qed

lemma journal_init_inv: "journal_init w \<Longrightarrow> journal_inv w"
  by (simp add: journal_init_def journal_inv_def file_ok_def)

interpretation journal: safe_machine journal_init journal_step journal_inv
  by unfold_locales (auto intro: journal_init_inv journal_step_inv)

section \<open>What happens to the file\<close>

lemma save_follows:
  "vol_file vol = Present r \<Longrightarrow> follows r r' \<Longrightarrow> \<exists>r2. vol_file (snd (save out r' vol)) = Present r2 \<and> follows r r2"
  by (simp add: save_file)

lemma journal_step_follows:
  assumes "journal_step w w'" and inv: "journal_inv w" and r: "vol_file (w_vol w) = Present r"
  shows "\<exists>r'. vol_file (w_vol w') = Present r' \<and> follows r r'"
proof -
  have mem: "follows r (j_record j)" if "w_journal w = Some j" for j
    using journal_inv_journal [OF inv that] r by (auto simp: memory_ok_def)
  from assms(1) show ?thesis
  proof cases
    case (js_open fails out identity j vol)
    then show ?thesis using OpenJournal_cases(1) [OF js_open(3)] r by auto
  next
    case (js_open_fails fails out identity e vol)
    then show ?thesis using OpenJournal_cases(1) [OF js_open_fails(3)] r by auto
  next
    case (js_begin j out version now answer j' vol)
    have "follows r (j_record (bump_version version now j))" using follows_trans [OF mem bump_version_follows] js_begin(2) by blast
    then show ?thesis
      using BeginOperation_cases [OF js_begin(3)] save_follows [OF r] r by (auto simp: js_begin(1))
  next
    case (js_return j unix out ctxErr version name nested runNil answer' j' vol)
    let ?b = "bump_version version unix j"
    have "follows r (j_record (set_stage name interrupted ?b))"
      using follows_trans [OF follows_trans [OF mem bump_version_follows] set_stage_follows] js_return(2) by blast
    then show ?thesis
      using save_follows [OF r] r by (cases rule: runStage_enter_cases [OF js_return(4)]) (auto simp: js_return(1))
  next
    case (js_run j unix out ctxErr version name nested runNil j' vol)
    let ?b = "bump_version version unix j"
    have "follows r (j_record (set_stage name interrupted ?b))"
      using follows_trans [OF follows_trans [OF mem bump_version_follows] set_stage_follows] js_run(2) by blast
    then show ?thesis
      using save_follows [OF r] r by (cases rule: runStage_enter_cases [OF js_run(4)]) (auto simp: js_run(1))
  next
    case (js_leave j version name nested out runErr errs j' vol)
    have "j_record (if nested then j else j\<lparr> j_active := False \<rparr>) = j_record j" by simp
    then have "follows r (j_record (set_stage name s (if nested then j else j\<lparr> j_active := False \<rparr>)))" for s
      by (rule follows_set_stage_cong [OF mem [OF js_leave(2)]])
    then show ?thesis
      using save_follows [OF r] unfolding js_leave(1) by (simp add: runStage_leave_eq(2) [OF js_leave(5)])
  next
    case js_crash
    then show ?thesis using r by simp
  qed
qed

lemma journal_steps_follow:
  assumes "journal_step\<^sup>*\<^sup>* w w'" and "journal_inv w" and "vol_file (w_vol w) = Present r"
  shows "journal_inv w' \<and> (\<exists>r'. vol_file (w_vol w') = Present r' \<and> follows r r')"
  using assms(1)
proof (induction rule: rtranclp_induct)
  case base
  then show ?case using assms by auto
next
  case (step y z)
  then obtain r1 where r1: "journal_inv y" "vol_file (w_vol y) = Present r1" "follows r r1" by blast
  from journal_step_follows [OF step(2) r1(1,2)] r1 step(2) show ?case
    using follows_trans journal_step_inv by blast
qed

lemma BeginOperation_Inr:
  assumes "BeginOperation out v now j vol = (Inr s, j', vol')"
  shows "s = Started (j_record j') \<and> Version (j_record j') = v \<and> Version (j_record j) \<le> v"
  using assms by (auto simp: BeginOperation_def Let_def split: if_splits prod.splits)

lemma scan_dirs_None:
  assumes "scan_dirs fails ds vol = None" and "d \<in> set ds" and "fmlookup (vol_dirs vol) d = Some es" and "x \<in> set es" and "distinct es"
  shows "d = ''state'' \<and> x = ''lock''"
proof -
  have "\<forall>y \<in> set (take 2 es). d = ''state'' \<and> y = ''lock''"
    using assms(1-3)
    by (induction fails ds vol rule: scan_dirs.induct) (auto simp: list_ex_iff split: option.splits if_splits)
  moreover obtain a es' where es: "es = a # es'" using assms(4) by (cases es) auto
  ultimately have a: "d = ''state''" "a = ''lock''" by (simp_all add: numeral_2_eq_2)
  have "es' = []"
  proof (cases es')
    case (Cons b es'')
    then show ?thesis
      using \<open>\<forall>y \<in> set (take 2 es). d = ''state'' \<and> y = ''lock''\<close> assms(5) es by (simp add: numeral_2_eq_2)
  qed simp
  then show ?thesis using a es assms(4) by simp
qed

lemma make_dirs_keeps: "fmlookup (vol_dirs vol) d = Some es \<Longrightarrow> fmlookup (vol_dirs (snd (make_dirs fails ds vol))) d = Some es"
  by (induction fails ds vol rule: make_dirs.induct) auto

lemma add_lock_keeps:
  assumes "fmlookup (vol_dirs vol) d = Some es" and "distinct es" and "x \<in> set es"
  obtains es' where "fmlookup (vol_dirs (add_lock vol)) d = Some es'" and "distinct es'" and "x \<in> set es'"
proof (cases "d = ''state''")
  case True
  then show ?thesis using assms that by (cases "''lock'' \<in> set es") (auto simp: add_lock_def Let_def)
next
  case False
  then have "fmlookup (vol_dirs (add_lock vol)) d = Some es" using assms(1) by (simp add: add_lock_def Let_def)
  then show ?thesis using assms that by blast
qed

section \<open>Claims\<close>

text \<open>C2: A side effect is invoked at most once. Whatever interleaving of operations, failed writes,
  crashes and reopened journals led to a state, no pair of operation version and stage occurs
  twice in the log of invocations.
\<close>

theorem journal_at_most_once:
  assumes "reachable journal_init journal_step w"
  shows "distinct (w_started w)"
  using journal.reachable_inv [OF assms] by (simp add: journal_inv_def)

text \<open>What a repeated stage answers. A stage is run only if it never was; it returns nil without
  running only if its side effect has succeeded; a stage that was started and has not been seen to
  succeed answers with an error and is not replayed.
\<close>

theorem journal_replay_answers:
  assumes "reachable journal_init journal_step w" and "w_journal w = Some j" and "0 < unix"
    and "runStage_enter out unix ctxErr version name nested runNil j (w_vol w) = (answer, j', vol')"
  shows "(answer = StageRun \<longrightarrow> (version, name) \<notin> set (w_started w))
    \<and> (answer = StageReturn None \<longrightarrow> (version, name) \<in> w_succeeded w)
    \<and> ((version, name) \<in> set (w_started w) - w_succeeded w \<longrightarrow> (\<exists>e. answer = StageReturn (Some e)))"
proof -
  have inv: "journal_inv w" by (rule journal.reachable_inv [OF assms(1)])
  have run: "answer = StageRun \<Longrightarrow> (version, name) \<notin> set (w_started w)"
    and ret: "answer = StageReturn None \<Longrightarrow> (version, name) \<in> w_succeeded w"
    by (rule inv_enter(3) [OF inv assms(2-4)], simp) (rule inv_enter(4) [OF inv assms(2-4)], simp)
  moreover have "\<exists>e. answer = StageReturn (Some e)" if "(version, name) \<in> set (w_started w) - w_succeeded w"
  proof (cases answer)
    case (StageReturn a)
    then show ?thesis using ret that by (cases a) auto
  next
    case StageRun
    then show ?thesis using run that by blast
  qed
  ultimately show ?thesis by blast
qed

text \<open>One operation has one start. Once \<open>BeginOperation\<close> has returned a start that reached the
  volume, every later \<open>BeginOperation\<close> of the same version returns the same start, in this process
  or in any that replaces it.
\<close>

theorem operation_start_stable:
  assumes "reachable journal_init journal_step w" and "w_journal w = Some j"
    and b: "BeginOperation out version now j (w_vol w) = (Inr s, j', vol)"
    and "vol_file vol = Present r" and "Version r = version"
    and "journal_step\<^sup>*\<^sup>* (w\<lparr> w_vol := vol, w_journal := Some j' \<rparr>) w'" and "w_journal w' = Some k"
    and b2: "BeginOperation out' version now' k (w_vol w') = (Inr s', k', vol')"
  shows "s' = s"
proof -
  let ?w = "w\<lparr> w_vol := vol, w_journal := Some j' \<rparr>"
  have inv: "journal_inv ?w" by (rule inv_begin [OF journal.reachable_inv [OF assms(1)] assms(2) b])
  have "memory_ok (vol_file vol) j' (w_running w) (set (w_started w)) (w_succeeded w)"
    using journal_inv_journal [OF inv, of j'] by simp
  then have s: "Started r = s"
    using assms(4,5) BeginOperation_Inr [OF b] by (auto simp: memory_ok_def follows_def)
  obtain r' where r': "journal_inv w'" "vol_file (w_vol w') = Present r'" "follows r r'"
    using journal_steps_follow [OF assms(6) inv] assms(4) by auto
  have "follows r' (j_record k)" using journal_inv_journal [OF r'(1) assms(7)] r'(2) by (auto simp: memory_ok_def)
  then have f: "follows r (j_record k)" using follows_trans r'(3) by blast
  have v: "Version (j_record k) \<le> version" using BeginOperation_Inr [OF b2] by blast
  then have "Version (j_record k) = version" "Started (j_record k) = s" using f s assms(5) by (auto simp: follows_def)
  moreover have "k' = k" using BeginOperation_cases [OF b2] calculation by auto
  ultimately show ?thesis using BeginOperation_Inr [OF b2] by simp
qed

text \<open>A volume without an execution record but with anything else left on it (a directory entry
  other than the lock) is refused, and a journal that opens holds a valid record of the identity
  it was opened with, which is also what the volume holds.
\<close>

theorem open_journal_safe:
  assumes "OpenJournal fails out identity vol = (Inr j, vol')"
  shows "Identity (j_record j) = identity \<and> vol_file vol' = Present (j_record j) \<and> \<not> j_active j
    \<and> record_shape_ok (j_record j) \<and> fmpred stage_shape_ok (Stages (j_record j))
    \<and> (vol_file vol = Absent \<longrightarrow> d \<in> {''state'', ''identity'', ''logs'', ''workspaces'', ''docker'', ''containerd''} \<longrightarrow>
         fmlookup (vol_dirs vol) d = Some es \<longrightarrow> distinct es \<longrightarrow> x \<in> set es \<longrightarrow> d = ''state'' \<and> x = ''lock'')"
proof -
  have "d = ''state'' \<and> x = ''lock''"
    if a: "vol_file vol = Absent" "d \<in> {''state'', ''identity'', ''logs'', ''workspaces'', ''docker'', ''containerd''}"
      "fmlookup (vol_dirs vol) d = Some es" "distinct es" "x \<in> set es"
  proof -
    obtain made vol1 where m: "make_dirs fails [''state'', ''identity'', ''logs'', ''workspaces''] vol = (made, vol1)"
      by (metis prod.collapse)
    have f1: "vol_file vol1 = Absent" "fmlookup (vol_dirs vol1) d = Some es"
      using make_dirs_file [of fails _ vol] make_dirs_keeps [OF a(3), of fails] a(1) m by (metis snd_conv)+
    obtain es' where es': "fmlookup (vol_dirs (add_lock vol1)) d = Some es'" "distinct es'" "x \<in> set es'"
      by (rule add_lock_keeps [OF f1(2) a(4,5)])
    obtain sc where sc: "scan_dirs fails [''state'', ''identity'', ''logs'', ''workspaces'', ''docker'', ''containerd''] (add_lock vol1) = sc"
      by blast
    have "sc = None"
      using assms [unfolded OpenJournal_def m sc Let_def prod.case] f1(1) by (auto split: if_splits option.splits)
    from scan_dirs_None [OF sc [unfolded this] _ es'(1,3,2)] a(2) show ?thesis by auto
  qed
  then show ?thesis using OpenJournal_cases(2) [OF assms] by blast
qed

text \<open>When persisting a new operation start fails, the next \<open>BeginOperation\<close> of that version returns
  the start of the failed attempt and does not write it, so that it is reported without being on
  the volume.
\<close>

theorem begin_retry_not_persisted:
  assumes "0 < version" and "0 < now" and "0 < now'" and "\<not> j_active j" and "Version (j_record j) < version"
  shows "\<exists>j'. BeginOperation SaveFailedBefore version now j vol = (Inl ioError, j', vol)
    \<and> BeginOperation SaveOk version now' j' vol = (Inr now, j', vol)"
  using assms by (simp add: BeginOperation_def save_def Let_def)

section \<open>Witnesses\<close>

definition demo_identity :: VolumeIdentity where
  "demo_identity = \<lparr> SiteUID = ''s'', ResourceUID = ''r'', RuntimeUUID = ''u'' \<rparr>"

definition demo_w0 :: jworld where
  "demo_w0 = \<lparr> w_vol = \<lparr> vol_file = Absent, vol_dirs = fmempty \<rparr>, w_journal = None, w_running = [], w_started = [], w_succeeded = {} \<rparr>"

definition demo_j1 :: Journal where
  "demo_j1 = \<lparr> j_record = emptyRecord demo_identity, j_active = False \<rparr>"

definition demo_w1 :: jworld where
  "demo_w1 = demo_w0\<lparr> w_vol := snd (OpenJournal (\<lambda>_. False) SaveOk demo_identity (w_vol demo_w0)), w_journal := Some demo_j1 \<rparr>"

definition demo_j2 :: Journal where
  "demo_j2 = \<lparr> j_record = \<lparr> Identity = demo_identity, Version = 3, Started = 100, Stages = fmempty \<rparr>, j_active = False \<rparr>"

definition demo_w2 :: jworld where
  "demo_w2 = demo_w1\<lparr> w_vol := (w_vol demo_w1)\<lparr> vol_file := Present (j_record demo_j2) \<rparr>, w_journal := Some demo_j2 \<rparr>"

definition demo_j3 :: Journal where
  "demo_j3 = (set_stage ''boot'' interrupted demo_j2)\<lparr> j_active := True \<rparr>"

definition demo_w3 :: jworld where
  "demo_w3 = demo_w2\<lparr> w_vol := (w_vol demo_w2)\<lparr> vol_file := Present (j_record demo_j3) \<rparr>, w_journal := Some demo_j3,
     w_running := [(3, ''boot'', False)], w_started := [(3, ''boot'')] \<rparr>"

lemma demo_begin: "BeginOperation SaveOk 3 100 demo_j1 vol = (Inr 100, demo_j2, vol\<lparr> vol_file := Present (j_record demo_j2) \<rparr>)"
  by (simp add: BeginOperation_def demo_j1_def demo_j2_def emptyRecord_def save_def)

lemma demo_run:
  "runStage_enter SaveOk 100 False 3 ''boot'' False False demo_j2 vol =
     (StageRun, demo_j3, vol\<lparr> vol_file := Present (j_record demo_j3) \<rparr>)"
  by (simp add: runStage_enter_def demo_j2_def demo_j3_def bump_version_def set_stage_def save_def)

lemma demo_open: "OpenJournal (\<lambda>_. False) SaveOk demo_identity (w_vol demo_w0) = (Inr demo_j1, w_vol demo_w1)"
proof -
  have "fst (OpenJournal (\<lambda>_. False) SaveOk demo_identity (w_vol demo_w0)) = Inr demo_j1"
    by (simp add: OpenJournal_def demo_identity_def demo_w0_def add_lock_def save_def validate_record_def emptyRecord_def
        demo_j1_def record_shape_ok_def)
  then show ?thesis by (simp add: demo_w1_def prod_eq_iff)
qed

lemma journal_reach1: "reachable journal_init journal_step demo_w1"
proof (rule reach_step)
  show "reachable journal_init journal_step demo_w0" by (rule reach_init) (simp add: journal_init_def demo_w0_def)
  have "journal_step demo_w0 (demo_w0\<lparr> w_vol := w_vol demo_w1, w_journal := Some demo_j1 \<rparr>)"
    by (rule js_open [OF _ demo_open]) (simp add: demo_w0_def)
  then show "journal_step demo_w0 demo_w1" by (simp add: demo_w1_def)
qed

lemma demo_journal1: "w_journal demo_w1 = Some demo_j1"
  by (simp add: demo_w1_def)

lemma journal_reach3: "reachable journal_init journal_step demo_w3"
proof (rule reach_step)
  show "reachable journal_init journal_step demo_w2"
    using reach_step [OF journal_reach1 js_begin [OF demo_journal1 demo_begin]] by (simp add: demo_w2_def)
  have "w_journal demo_w2 = Some demo_j2" by (simp add: demo_w2_def)
  from js_run [OF this _ demo_run] show "journal_step demo_w2 demo_w3"
    by (simp add: demo_w3_def) (simp add: demo_w2_def demo_w1_def demo_w0_def)
qed

text \<open>After a crash in the middle of the side effect the journal is opened again.\<close>

definition demo_w4 :: jworld where
  "demo_w4 = demo_w3\<lparr> w_journal := None, w_running := [] \<rparr>"

lemma journal_reach4: "reachable journal_init journal_step demo_w4"
  unfolding demo_w4_def by (rule reach_step [OF journal_reach3]) (rule js_crash)

definition demo_j5 :: Journal where
  "demo_j5 = \<lparr> j_record = j_record demo_j3, j_active = False \<rparr>"

lemma demo_reopen:
  obtains vol where "OpenJournal (\<lambda>_. False) SaveOk demo_identity (w_vol demo_w4) = (Inr demo_j5, vol)"
    and "reachable journal_init journal_step (demo_w4\<lparr> w_vol := vol, w_journal := Some demo_j5 \<rparr>)"
proof -
  have vf: "vol_file (w_vol demo_w4) = Present (j_record demo_j3)" by (simp add: demo_w4_def demo_w3_def)
  have val: "validate_record (j_record demo_j3) = Inr demo_j5"
    by (simp add: validate_record_def record_shape_ok_def demo_j3_def demo_j2_def demo_j5_def set_stage_def interrupted_def
        stage_shape_ok_def map_len_upd fmpred_upd)
  have id: "Identity (j_record demo_j3) = demo_identity" by (simp add: demo_j3_def set_stage_def demo_j2_def)
  obtain made vol1 where m: "make_dirs (\<lambda>_. False) [''state'', ''identity'', ''logs'', ''workspaces''] (w_vol demo_w4) = (made, vol1)"
    by (metis prod.collapse)
  have made: "made" using arg_cong [OF m, of fst] by simp
  have vf1: "vol_file vol1 = Present (j_record demo_j3)" using make_dirs_file [of _ _ "w_vol demo_w4"] m vf by (metis snd_conv)
  have op: "OpenJournal (\<lambda>_. False) SaveOk demo_identity (w_vol demo_w4) = (Inr demo_j5, add_lock vol1)"
    unfolding OpenJournal_def m using made vf1 id val by (simp add: demo_identity_def)
  have "w_journal demo_w4 = None" by (simp add: demo_w4_def)
  from that [OF op] reach_step [OF journal_reach4 js_open [OF this op]] show thesis by blast
qed

theorem journal_at_most_once_witness: "distinct (w_started demo_w3)"
  by (rule journal_at_most_once [OF journal_reach3])

theorem journal_replay_answers_witness:
  "\<exists>vol e j' vol'. reachable journal_init journal_step (demo_w4\<lparr> w_vol := vol, w_journal := Some demo_j5 \<rparr>) \<and>
     runStage_enter SaveOk 200 False 3 ''boot'' False False demo_j5 vol = (StageReturn (Some e), j', vol')"
proof (rule demo_reopen)
  fix vol
  let ?w = "demo_w4\<lparr> w_vol := vol, w_journal := Some demo_j5 \<rparr>"
  assume r: "reachable journal_init journal_step ?w"
  obtain a j' vol' where e: "runStage_enter SaveOk 200 False 3 ''boot'' False False demo_j5 vol = (a, j', vol')"
    by (metis prod.collapse)
  have "(3, ''boot'') \<in> set (w_started ?w) - w_succeeded ?w"
    by (simp add: demo_w4_def demo_w3_def demo_w2_def demo_w1_def demo_w0_def)
  then have "\<exists>x. a = StageReturn (Some x)"
    using journal_replay_answers [OF r, of demo_j5 200 SaveOk False 3 "''boot''" False False a j' vol'] e by simp
  then show ?thesis using r e by blast
qed

theorem operation_start_stable_witness:
  "\<exists>vol. BeginOperation SaveOk 3 999 demo_j5 vol = (Inr 100, demo_j5, vol) \<and>
     journal_step\<^sup>*\<^sup>* demo_w2 (demo_w4\<lparr> w_vol := vol, w_journal := Some demo_j5 \<rparr>)"
proof (rule demo_reopen)
  fix vol
  assume o: "OpenJournal (\<lambda>_. False) SaveOk demo_identity (w_vol demo_w4) = (Inr demo_j5, vol)"
  let ?w = "demo_w4\<lparr> w_vol := vol, w_journal := Some demo_j5 \<rparr>"
  have "w_journal demo_w2 = Some demo_j2" by (simp add: demo_w2_def)
  from js_run [OF this _ demo_run] have "journal_step demo_w2 demo_w3"
    by (simp add: demo_w3_def) (simp add: demo_w2_def demo_w1_def demo_w0_def)
  moreover have "journal_step demo_w3 demo_w4" unfolding demo_w4_def by (rule js_crash)
  moreover have "w_journal demo_w4 = None" by (simp add: demo_w4_def)
  then have "journal_step demo_w4 ?w" by (rule js_open [OF _ o])
  ultimately have steps: "journal_step\<^sup>*\<^sup>* demo_w2 ?w"
    by (meson converse_rtranclp_into_rtranclp rtranclp.rtrancl_refl)
  obtain s k' vol' where b: "BeginOperation SaveOk 3 999 demo_j5 vol = (Inr s, k', vol')" "k' = demo_j5" "vol' = vol"
    by (simp add: BeginOperation_def demo_j5_def demo_j3_def demo_j2_def set_stage_def)
  have b1: "BeginOperation SaveOk 3 999 demo_j5 (w_vol ?w) = (Inr s, k', vol')" using b(1) by simp
  have v: "Version (j_record demo_j2) = 3" by (simp add: demo_j2_def)
  have "s = 100"
    by (rule operation_start_stable [OF journal_reach1 demo_journal1 demo_begin _ v _ _ b1])
      (use steps in \<open>simp_all add: demo_w2_def\<close>)
  then show ?thesis using b steps by blast
qed

theorem open_journal_safe_witness:
  "Identity (j_record demo_j1) = demo_identity \<and> vol_file (w_vol demo_w1) = Present (j_record demo_j1)"
  using open_journal_safe [OF demo_open] by blast

theorem begin_retry_not_persisted_witness:
  "\<exists>j'. BeginOperation SaveFailedBefore 3 100 demo_j1 (w_vol demo_w1) = (Inl ioError, j', w_vol demo_w1)
    \<and> BeginOperation SaveOk 3 200 j' (w_vol demo_w1) = (Inr 100, j', w_vol demo_w1)"
  by (rule begin_retry_not_persisted) (simp_all add: demo_j1_def emptyRecord_def)

end
