(* ===== verification/Execution_Permit.thy ===== *)
theory Execution_Permit
  imports Prelude
begin

text \<open>
  Who may execute an operation and for how long: the leases of the Manager
  (\<open>ExecutionAuthority\<close> in \<open>internal/cluster/agent_control.go\<close>), the permit of the Agent
  (\<open>internal/agent/permit.go\<close>), and the exchange between them as a machine whose network delays,
  reorders and repeats messages. Sequence numbers are 64-bit words. The permit of the Agent
  never outlives a lease that the Manager granted for the same operation version.
\<close>

section \<open>The Manager's leases\<close>

record executionLease =
  lease_version :: int
  lease_deadline :: time

type_synonym ExecutionAuthority = "(string, executionLease) fmap"

text \<open>Reading an absent lease gives the zero lease.\<close>

definition lease_of :: "ExecutionAuthority \<Rightarrow> string \<Rightarrow> executionLease" where
  "lease_of a uid = (case fmlookup a uid of None \<Rightarrow> \<lparr> lease_version = 0, lease_deadline = zero_time \<rparr> | Some l \<Rightarrow> l)"

definition Grant :: "string \<Rightarrow> int \<Rightarrow> time \<Rightarrow> ExecutionAuthority \<Rightarrow> ExecutionAuthority" where
  "Grant uid version deadline a =
     (if lease_version (lease_of a uid) > version then a
      else fmupd uid \<lparr> lease_version = version, lease_deadline = deadline \<rparr> a)"

text \<open>\<open>Remaining\<close> reads the clock twice.\<close>

definition Remaining :: "ExecutionAuthority \<Rightarrow> string \<Rightarrow> int \<Rightarrow> time \<Rightarrow> time \<Rightarrow> duration" where
  "Remaining a uid version now1 now2 =
     (let lease = lease_of a uid
      in if lease_version lease \<noteq> version \<or> \<not> now1 < lease_deadline lease then 0
         else time_sub (lease_deadline lease) now2)"

definition Revoke :: "string \<Rightarrow> ExecutionAuthority \<Rightarrow> ExecutionAuthority" where
  "Revoke uid a = fmdrop uid a"

definition RevokeVersion :: "string \<Rightarrow> int \<Rightarrow> ExecutionAuthority \<Rightarrow> ExecutionAuthority" where
  "RevokeVersion uid version a = (if lease_version (lease_of a uid) = version then fmdrop uid a else a)"

text \<open>\<open>Duration.Milliseconds\<close> truncates toward zero.\<close>

definition Milliseconds :: "duration \<Rightarrow> int" where
  "Milliseconds d = (if 0 \<le> d then d div millisecond else - ((- d) div millisecond))"

lemma Milliseconds_le: "Milliseconds d * millisecond \<le> max 0 d"
proof (cases "0 \<le> d")
  case True
  then show ?thesis
    using div_mult_mod_eq [of d millisecond] pos_mod_sign [of millisecond d]
    by (simp add: Milliseconds_def millisecond_def)
next
  case False
  then have "0 \<le> (- d) div millisecond" by (simp add: millisecond_def pos_imp_zdiv_nonneg_iff)
  then show ?thesis using False by (simp add: Milliseconds_def millisecond_def)
qed

section \<open>The contract of a lease authority\<close>

text \<open>
  What the rest of the Manager relies on: time remains only under a lease of exactly that version
  and never beyond its deadline, and a lease exists only because it was granted and neither
  revoked nor replaced.
\<close>

locale lease_authority =
  fixes lease :: "'a \<Rightarrow> 'u \<Rightarrow> (int \<times> time) option"
    and grant :: "'u \<Rightarrow> int \<Rightarrow> time \<Rightarrow> 'a \<Rightarrow> 'a"
    and revoke :: "'u \<Rightarrow> 'a \<Rightarrow> 'a"
    and remaining :: "'a \<Rightarrow> 'u \<Rightarrow> int \<Rightarrow> time \<Rightarrow> time \<Rightarrow> duration"
  assumes remaining_lease: "0 \<le> t1 \<Longrightarrow> 0 < remaining a u v t1 t2 \<Longrightarrow> \<exists>d. lease a u = Some (v, d) \<and> t2 + remaining a u v t1 t2 \<le> d"
    and lease_grant: "lease (grant u v d a) w = Some (v', d') \<Longrightarrow> lease a w = Some (v', d') \<or> (w = u \<and> v' = v \<and> d' = d)"
    and lease_revoke: "lease (revoke u a) w = Some (v', d') \<Longrightarrow> w \<noteq> u \<and> lease a w = Some (v', d')"
begin

lemma remaining_revoked: "0 \<le> t1 \<Longrightarrow> \<not> 0 < remaining (revoke u a) u v t1 t2"
  using remaining_lease [of t1 "revoke u a" u v t2] lease_revoke [of u a u] by blast

lemma granted_monotone:
  assumes "\<And>w v d. lease a w = Some (v, d) \<Longrightarrow> (w, v, d) \<in> G"
  shows "\<And>w v' d'. lease (grant u v d a) w = Some (v', d') \<Longrightarrow> (w, v', d') \<in> insert (u, v, d) G"
    and "\<And>w v' d'. lease (revoke u a) w = Some (v', d') \<Longrightarrow> (w, v', d') \<in> G"
  using assms lease_grant lease_revoke by blast+

end

definition authority_lease :: "ExecutionAuthority \<Rightarrow> string \<Rightarrow> (int \<times> time) option" where
  "authority_lease a uid =
     (if lease_deadline (lease_of a uid) = zero_time \<and> fmlookup a uid = None then None
      else Some (lease_version (lease_of a uid), lease_deadline (lease_of a uid)))"

interpretation manager_authority: lease_authority authority_lease Grant Revoke Remaining
proof unfold_locales
  fix t1 t2 :: time and a :: ExecutionAuthority and u :: string and v :: int
  assume t1: "0 \<le> t1" and pos: "0 < Remaining a u v t1 t2"
  let ?l = "lease_of a u"
  have l: "lease_version ?l = v" "t1 < lease_deadline ?l" "0 < time_sub (lease_deadline ?l) t2"
    using pos by (auto simp: Remaining_def Let_def split: if_splits)
  have "authority_lease a u = Some (v, lease_deadline ?l)" using t1 l(1,2) by (simp add: authority_lease_def)
  moreover have "t2 + Remaining a u v t1 t2 \<le> lease_deadline ?l"
    using l by (simp add: Remaining_def time_sub_def max_int64_def min_int64_def)
  ultimately show "\<exists>d. authority_lease a u = Some (v, d) \<and> t2 + Remaining a u v t1 t2 \<le> d" by blast
next
  fix u v d a w v' d'
  assume "authority_lease (Grant u v d a) w = Some (v', d')"
  then show "authority_lease a w = Some (v', d') \<or> (w = u \<and> v' = v \<and> d' = d)"
    by (auto simp: authority_lease_def Grant_def lease_of_def split: if_splits option.splits)
next
  fix u a w v' d'
  assume "authority_lease (Revoke u a) w = Some (v', d')"
  then show "w \<noteq> u \<and> authority_lease a w = Some (v', d')"
    by (auto simp: authority_lease_def Revoke_def lease_of_def split: if_splits option.splits)
qed

section \<open>The Agent's permit\<close>

record Permit =
  p_session :: string
  p_sequence :: "64 word"
  p_sent :: time
  p_version :: int
  p_deadline :: time

text \<open>The fields of the control reply that the permit reads.\<close>

record ControlReply =
  r_SessionId :: string
  r_Sequence :: "64 word"
  r_CancelExecution :: bool
  r_OperationRversion :: int
  r_PermitValidForMilliseconds :: int

datatype permit_error =
    sessionOrSequenceInvalid
  | replyMismatch
  | executionCanceled
  | operationMismatch
  | durationInvalid
  | expiredBeforeArrival

definition Reconnect :: "string \<Rightarrow> Permit \<Rightarrow> Permit" where
  "Reconnect newSession p =
     p\<lparr> p_session := newSession, p_sequence := 0, p_version := 0, p_sent := zero_time, p_deadline := zero_time \<rparr>"

definition Request :: "int \<Rightarrow> time \<Rightarrow> Permit \<Rightarrow> (permit_error + string \<times> 64 word) \<times> Permit" where
  "Request version now p =
     (if p_session p = '''' \<or> version < 0 \<or> p_sequence p = - 1 then (Inl sessionOrSequenceInvalid, p)
      else
        (let p = (if version \<noteq> p_version p then p\<lparr> p_deadline := zero_time \<rparr> else p);
             p = p\<lparr> p_sequence := p_sequence p + 1, p_sent := now, p_version := version \<rparr>
         in (Inr (p_session p, p_sequence p), p)))"

definition Accept :: "ControlReply option \<Rightarrow> time \<Rightarrow> Permit \<Rightarrow> (permit_error + time) \<times> Permit" where
  "Accept response now p =
     (case response of
        None \<Rightarrow> (Inl replyMismatch, p)
      | Some r \<Rightarrow>
          if r_SessionId r \<noteq> p_session p \<or> r_Sequence r \<noteq> p_sequence p \<or> p_sequence p = 0 then (Inl replyMismatch, p)
          else if r_CancelExecution r then (Inl executionCanceled, p\<lparr> p_deadline := zero_time \<rparr>)
          else if r_OperationRversion r \<le> 0 \<or> (p_version p \<noteq> 0 \<and> r_OperationRversion r \<noteq> p_version p)
          then (Inl operationMismatch, p)
          else if r_PermitValidForMilliseconds r \<le> 0 \<or> r_PermitValidForMilliseconds r > max_int64 div millisecond
          then (Inl durationInvalid, p)
          else
            (let deadline = p_sent p + wrap64 (r_PermitValidForMilliseconds r * millisecond)
             in if \<not> now < deadline then (Inl expiredBeforeArrival, p)
                else (Inr deadline, p\<lparr> p_version := r_OperationRversion r, p_deadline := deadline \<rparr>)))"

definition Valid :: "int \<Rightarrow> time \<Rightarrow> Permit \<Rightarrow> bool" where
  "Valid version now p \<longleftrightarrow> version > 0 \<and> version = p_version p \<and> now < p_deadline p"

lemma permit_duration_no_overflow:
  "0 < ms \<Longrightarrow> ms \<le> max_int64 div millisecond \<Longrightarrow> wrap64 (ms * millisecond) = ms * millisecond"
  by (rule wrap64_id) (simp add: in_int64_def min_int64_def max_int64_def millisecond_def)

section \<open>The exchange\<close>

text \<open>
  One clock, read by both sides. \<open>x_requests\<close> are the requests ever sent with their send times,
  \<open>x_replies\<close> the replies ever sent: the network may deliver any of them at any time, any number
  of times, or never. \<open>x_granted\<close> is the history of grants. The reply of the Manager carries the time that
  remains when it is computed (\<open>Control\<close>).
\<close>

record exchange =
  x_clock :: time
  x_authority :: ExecutionAuthority
  x_granted :: "(string \<times> int \<times> time) set"
  x_permit :: Permit
  x_sessions :: "string set"
  x_requests :: "(string \<times> 64 word \<times> time) set"
  x_replies :: "ControlReply set"

definition exchange_init :: "exchange \<Rightarrow> bool" where
  "exchange_init x \<longleftrightarrow>
     0 \<le> x_clock x \<and> x_authority x = fmempty \<and> x_granted x = {} \<and>
     x_permit x = \<lparr> p_session = '''', p_sequence = 0, p_sent = zero_time, p_version = 0, p_deadline = zero_time \<rparr> \<and>
     x_sessions x = {''''} \<and> x_requests x = {} \<and> x_replies x = {}"

definition grant_reply :: "ExecutionAuthority \<Rightarrow> string \<Rightarrow> int \<Rightarrow> time \<Rightarrow> time \<Rightarrow> string \<Rightarrow> 64 word \<Rightarrow> ControlReply" where
  "grant_reply a uid version t1 t2 session sequence =
     (let ms = Milliseconds (Remaining a uid version t1 t2)
      in \<lparr> r_SessionId = session, r_Sequence = sequence, r_CancelExecution = (ms \<le> 0),
           r_OperationRversion = version, r_PermitValidForMilliseconds = ms \<rparr>)"

inductive exchange_step :: "string \<Rightarrow> exchange \<Rightarrow> exchange \<Rightarrow> bool" for uid :: string where
  ex_tick: "x_clock x \<le> t \<Longrightarrow> exchange_step uid x (x\<lparr> x_clock := t \<rparr>)"
| ex_grant: "exchange_step uid x (x\<lparr> x_authority := Grant uid v d (x_authority x), x_granted := insert (uid, v, d) (x_granted x) \<rparr>)"
| ex_revoke: "exchange_step uid x (x\<lparr> x_authority := Revoke uid (x_authority x) \<rparr>)"
| ex_reconnect: "s \<notin> x_sessions x \<Longrightarrow>
     exchange_step uid x (x\<lparr> x_permit := Reconnect s (x_permit x), x_sessions := insert s (x_sessions x) \<rparr>)"
| ex_request: "Request v (x_clock x) (x_permit x) = (Inr (s, n), p) \<Longrightarrow>
     exchange_step uid x (x\<lparr> x_permit := p, x_requests := insert (s, n, x_clock x) (x_requests x) \<rparr>)"
| ex_reply: "(s, n, t0) \<in> x_requests x \<Longrightarrow>
     exchange_step uid x (x\<lparr> x_replies := insert (grant_reply (x_authority x) uid v (x_clock x) (x_clock x) s n) (x_replies x) \<rparr>)"
| ex_refuse: "(s, n, t0) \<in> x_requests x \<Longrightarrow> r_SessionId r = s \<Longrightarrow> r_Sequence r = n \<Longrightarrow> r_CancelExecution r \<Longrightarrow>
     exchange_step uid x (x\<lparr> x_replies := insert r (x_replies x) \<rparr>)"
| ex_accept: "r \<in> x_replies x \<Longrightarrow> Accept (Some r) (x_clock x) (x_permit x) = (answer, p) \<Longrightarrow>
     exchange_step uid x (x\<lparr> x_permit := p \<rparr>)"

section \<open>The invariant\<close>

text \<open>A reply is backed when its permit, counted from any matching request, ends within a granted lease.\<close>

definition reply_backed :: "string \<Rightarrow> exchange \<Rightarrow> ControlReply \<Rightarrow> bool" where
  "reply_backed uid x r \<longleftrightarrow>
     (\<exists>t. (r_SessionId r, r_Sequence r, t) \<in> x_requests x) \<and>
     (r_CancelExecution r \<or>
      (\<forall>t. (r_SessionId r, r_Sequence r, t) \<in> x_requests x \<longrightarrow>
         (\<exists>d. (uid, r_OperationRversion r, d) \<in> x_granted x \<and> t + r_PermitValidForMilliseconds r * millisecond \<le> d)))"

definition permit_backed :: "string \<Rightarrow> exchange \<Rightarrow> bool" where
  "permit_backed uid x \<longleftrightarrow>
     (p_deadline (x_permit x) = 0 \<or>
      (\<exists>d. (uid, p_version (x_permit x), d) \<in> x_granted x \<and> p_deadline (x_permit x) \<le> d))"

definition requests_ok :: "exchange \<Rightarrow> bool" where
  "requests_ok x \<longleftrightarrow>
     (\<forall>s n t. (s, n, t) \<in> x_requests x \<longrightarrow>
        s \<in> x_sessions x \<and> t \<le> x_clock x \<and>
        (s = p_session (x_permit x) \<longrightarrow> n \<le> p_sequence (x_permit x) \<and> (n = p_sequence (x_permit x) \<longrightarrow> t = p_sent (x_permit x)))) \<and>
     (\<forall>s n t t'. (s, n, t) \<in> x_requests x \<longrightarrow> (s, n, t') \<in> x_requests x \<longrightarrow> t = t') \<and>
     p_session (x_permit x) \<in> x_sessions x"

definition exchange_inv :: "string \<Rightarrow> exchange \<Rightarrow> bool" where
  "exchange_inv uid x \<longleftrightarrow>
     0 \<le> x_clock x \<and> requests_ok x \<and> (\<forall>r \<in> x_replies x. reply_backed uid x r) \<and> permit_backed uid x \<and>
     (\<forall>w v d. authority_lease (x_authority x) w = Some (v, d) \<longrightarrow> (w, v, d) \<in> x_granted x)"

lemma exchange_invD:
  assumes "exchange_inv uid x"
  shows "0 \<le> x_clock x" and "requests_ok x" and "\<forall>r \<in> x_replies x. reply_backed uid x r" and "permit_backed uid x"
    and "\<And>w v d. authority_lease (x_authority x) w = Some (v, d) \<Longrightarrow> (w, v, d) \<in> x_granted x"
  using assms unfolding exchange_inv_def by blast+

lemma requests_okD:
  assumes "requests_ok x" and "(s, n, t) \<in> x_requests x"
  shows "s \<in> x_sessions x" and "t \<le> x_clock x" and "s = p_session (x_permit x) \<Longrightarrow> n \<le> p_sequence (x_permit x)"
    and "s = p_session (x_permit x) \<Longrightarrow> n = p_sequence (x_permit x) \<Longrightarrow> t = p_sent (x_permit x)"
    and "(s, n, t') \<in> x_requests x \<Longrightarrow> t = t'"
  using assms unfolding requests_ok_def by blast+

lemma word_Suc_less: "n \<noteq> - 1 \<Longrightarrow> n < n + (1 :: 'a :: len word)"
proof -
  assume "n \<noteq> - 1"
  then have "1 + n \<noteq> 0" by (simp add: add_eq_0_iff)
  then have "unat (1 + n) = Suc (unat n)" by (rule unatSuc)
  then show ?thesis by (simp add: word_less_nat_alt add.commute)
qed

text \<open>The request that a permit sends is new.\<close>

lemma Request_Inr:
  assumes "Request v now p = (Inr (s, n), q)"
  shows "s = p_session p" and "n = p_sequence p + 1" and "p_sequence p < n" and "p_session q = s" and "p_sequence q = n"
    and "p_sent q = now" and "p_version q = v" and "p_deadline q = (if v = p_version p then p_deadline p else 0)"
proof -
  have ok: "p_sequence p \<noteq> - 1" using assms by (auto simp: Request_def Let_def split: if_splits)
  show "s = p_session p" and n: "n = p_sequence p + 1" and "p_session q = s" and "p_sequence q = n"
    and "p_sent q = now" and "p_version q = v" and "p_deadline q = (if v = p_version p then p_deadline p else 0)"
    using assms by (auto simp: Request_def Let_def split: if_splits)
  show "p_sequence p < n" unfolding n by (rule word_Suc_less [OF ok])
qed

lemma exchange_init_inv: "exchange_init x \<Longrightarrow> exchange_inv uid x"
  by (auto simp: exchange_init_def exchange_inv_def requests_ok_def permit_backed_def authority_lease_def lease_of_def)

lemma reply_backed_mono:
  assumes "reply_backed uid x r" and "x_requests y = x_requests x" and "x_granted x \<subseteq> x_granted y"
  shows "reply_backed uid y r"
  using assms(1,3) unfolding reply_backed_def assms(2) by blast

lemma permit_backed_mono:
  assumes "permit_backed uid x" and "x_permit y = x_permit x" and "x_granted x \<subseteq> x_granted y"
  shows "permit_backed uid y"
  using assms(1,3) unfolding permit_backed_def assms(2) by blast

lemma inv_request:
  assumes inv: "exchange_inv uid x" and req: "Request v (x_clock x) (x_permit x) = (Inr (s, n), p)"
  shows "exchange_inv uid (x\<lparr> x_permit := p, x_requests := insert (s, n, x_clock x) (x_requests x) \<rparr>)" (is "exchange_inv uid ?y")
proof -
  note d = exchange_invD [OF inv]
  note q = Request_Inr [OF req]
  have new: "(s, n, t) \<notin> x_requests x" for t
    using requests_okD(3) [OF d(2), of s n t] q(1,3) by (auto simp: not_less [symmetric])
  have "requests_ok ?y"
    unfolding requests_ok_def
  proof (intro conjI allI impI)
    fix s' n' t'
    assume m: "(s', n', t') \<in> x_requests ?y"
    have old: "(s', n', t') \<in> x_requests x \<or> (s' = s \<and> n' = n \<and> t' = x_clock x)" using m by auto
    have ses: "s \<in> x_sessions x" using d(2) q(1) by (simp add: requests_ok_def)
    show "s' \<in> x_sessions ?y" using old requests_okD(1) [OF d(2)] ses by auto
    show "t' \<le> x_clock ?y" using old requests_okD(2) [OF d(2)] by auto
    assume sp: "s' = p_session (x_permit ?y)"
    have lt: "n' < n" if "(s', n', t') \<in> x_requests x"
      using requests_okD(3) [OF d(2) that] sp q by simp
    show "n' \<le> p_sequence (x_permit ?y)" using old lt q by auto
    show "t' = p_sent (x_permit ?y)" if "n' = p_sequence (x_permit ?y)"
      using old lt that q by auto
  next
    fix s' n' t' t''
    assume "(s', n', t') \<in> x_requests ?y" "(s', n', t'') \<in> x_requests ?y"
    then show "t' = t''" using new requests_okD(5) [OF d(2)] by auto
  next
    show "p_session (x_permit ?y) \<in> x_sessions ?y" using d(2) q by (simp add: requests_ok_def)
  qed
  moreover have "reply_backed uid ?y r" if "r \<in> x_replies x" for r
  proof -
    have b: "reply_backed uid x r" using d(3) that by blast
    then have "(r_SessionId r, r_Sequence r) \<noteq> (s, n)" using new by (auto simp: reply_backed_def)
    then have "(r_SessionId r, r_Sequence r, t) \<in> x_requests ?y \<longleftrightarrow> (r_SessionId r, r_Sequence r, t) \<in> x_requests x" for t
      by auto
    then show ?thesis using b unfolding reply_backed_def by simp
  qed
  moreover have "permit_backed uid ?y" using d(4) q by (auto simp: permit_backed_def)
  ultimately show ?thesis using d(1,5) by (simp add: exchange_inv_def)
qed

lemma Accept_cases:
  assumes "Accept (Some r) now p = (answer, q)"
  obtains (unchanged) "q = p" | (canceled) "q = p\<lparr> p_deadline := 0 \<rparr>"
  | (accepted) ms where "r_SessionId r = p_session p" and "r_Sequence r = p_sequence p" and "\<not> r_CancelExecution r"
      and "ms = r_PermitValidForMilliseconds r" and "0 < ms" and "now < p_sent p + ms * millisecond"
      and "q = p\<lparr> p_version := r_OperationRversion r, p_deadline := p_sent p + ms * millisecond \<rparr>"
proof -
  let ?ms = "r_PermitValidForMilliseconds r"
  have "q = p \<or> q = p\<lparr> p_deadline := 0 \<rparr> \<or>
      (r_SessionId r = p_session p \<and> r_Sequence r = p_sequence p \<and> \<not> r_CancelExecution r \<and> 0 < ?ms \<and> ?ms \<le> max_int64 div millisecond \<and>
       now < p_sent p + wrap64 (?ms * millisecond) \<and>
       q = p\<lparr> p_version := r_OperationRversion r, p_deadline := p_sent p + wrap64 (?ms * millisecond) \<rparr>)"
    using assms unfolding Accept_def Let_def option.case by (simp only: split: if_split_asm) auto
  then show thesis
    using unchanged canceled accepted [of ?ms] permit_duration_no_overflow [of ?ms] by metis
qed

lemma inv_accept:
  assumes inv: "exchange_inv uid x" and r: "r \<in> x_replies x" and acc: "Accept (Some r) (x_clock x) (x_permit x) = (answer, p)"
  shows "exchange_inv uid (x\<lparr> x_permit := p \<rparr>)" (is "exchange_inv uid ?y")
proof -
  note d = exchange_invD [OF inv]
  have keep: "p_session p = p_session (x_permit x)" "p_sequence p = p_sequence (x_permit x)" "p_sent p = p_sent (x_permit x)"
    by (cases rule: Accept_cases [OF acc]; simp)+
  have b: "reply_backed uid x r" using d(3) r by blast
  have "permit_backed uid ?y"
  proof (cases rule: Accept_cases [OF acc])
    case 1
    then show ?thesis using d(4) by (simp add: permit_backed_def)
  next
    case 2
    then show ?thesis by (simp add: permit_backed_def)
  next
    case (3 ms)
    obtain t where t: "(r_SessionId r, r_Sequence r, t) \<in> x_requests x" using b by (auto simp: reply_backed_def)
    then have "t = p_sent (x_permit x)" using requests_okD(4) [OF d(2) t] 3(1,2) by simp
    then show ?thesis using b t 3 by (auto simp: reply_backed_def permit_backed_def)
  qed
  moreover have "requests_ok ?y" using d(2) keep by (simp add: requests_ok_def)
  moreover have "\<forall>r \<in> x_replies ?y. reply_backed uid ?y r" using d(3) by (simp add: reply_backed_def)
  ultimately show ?thesis using d(1,5) by (simp add: exchange_inv_def)
qed

lemma grant_reply_backed:
  assumes inv: "exchange_inv uid x" and req: "(s, n, t0) \<in> x_requests x"
  shows "reply_backed uid x (grant_reply (x_authority x) uid v (x_clock x) (x_clock x) s n)" (is "reply_backed uid x ?r")
proof -
  note d = exchange_invD [OF inv]
  let ?rem = "Remaining (x_authority x) uid v (x_clock x) (x_clock x)"
  have f: "r_SessionId ?r = s" "r_Sequence ?r = n" "r_OperationRversion ?r = v" "r_PermitValidForMilliseconds ?r = Milliseconds ?rem"
      "r_CancelExecution ?r = (Milliseconds ?rem \<le> 0)"
    by (simp_all add: grant_reply_def Let_def)
  have "\<exists>e. (uid, v, e) \<in> x_granted x \<and> t + Milliseconds ?rem * millisecond \<le> e"
    if ms: "0 < Milliseconds ?rem" and t: "(s, n, t) \<in> x_requests x" for t
  proof -
    have rem: "0 < ?rem" using Milliseconds_le [of ?rem] ms by (auto simp: millisecond_def max_def split: if_splits)
    obtain e where e: "authority_lease (x_authority x) uid = Some (v, e)" "x_clock x + ?rem \<le> e"
      using manager_authority.remaining_lease [OF d(1) rem] by blast
    have "t \<le> x_clock x" by (rule requests_okD(2) [OF d(2) t])
    then show ?thesis using e d(5) [OF e(1)] Milliseconds_le [of ?rem] rem by auto
  qed
  then show ?thesis unfolding reply_backed_def f using req by (meson not_less)
qed

lemma exchange_step_inv:
  assumes "exchange_step uid x y" and inv: "exchange_inv uid x"
  shows "exchange_inv uid y"
proof -
  note d = exchange_invD [OF inv]
  from assms(1) show ?thesis
  proof cases
    case (ex_tick t)
    have "requests_ok y" using d(2) ex_tick by (fastforce simp: requests_ok_def)
    moreover have "\<forall>r \<in> x_replies y. reply_backed uid y r" "permit_backed uid y"
      using d(3,4) reply_backed_mono [of uid x _ y] permit_backed_mono [of uid x y] by (auto simp: ex_tick(1))
    ultimately show ?thesis using d(1,5) ex_tick by (simp add: exchange_inv_def)
  next
    case (ex_grant v e)
    have "requests_ok y" using d(2) by (simp add: requests_ok_def ex_grant)
    moreover have "\<forall>r \<in> x_replies y. reply_backed uid y r" "permit_backed uid y"
      using d(3,4) reply_backed_mono [of uid x _ y] permit_backed_mono [of uid x y] by (auto simp: ex_grant)
    moreover have "\<And>w v' e'. authority_lease (x_authority y) w = Some (v', e') \<Longrightarrow> (w, v', e') \<in> x_granted y"
      using manager_authority.granted_monotone(1) [OF d(5)] by (simp add: ex_grant)
    ultimately show ?thesis using d(1) by (simp add: exchange_inv_def ex_grant)
  next
    case ex_revoke
    have "requests_ok y" using d(2) by (simp add: requests_ok_def ex_revoke)
    moreover have "\<forall>r \<in> x_replies y. reply_backed uid y r" "permit_backed uid y"
      using d(3,4) reply_backed_mono [of uid x _ y] permit_backed_mono [of uid x y] by (auto simp: ex_revoke)
    moreover have "\<And>w v' e'. authority_lease (x_authority y) w = Some (v', e') \<Longrightarrow> (w, v', e') \<in> x_granted y"
      using manager_authority.granted_monotone(2) [OF d(5)] by (simp add: ex_revoke)
    ultimately show ?thesis using d(1) by (simp add: exchange_inv_def ex_revoke)
  next
    case (ex_reconnect s)
    have "requests_ok y"
      using d(2) requests_okD(1) [OF d(2)] ex_reconnect(2) by (fastforce simp: requests_ok_def ex_reconnect(1) Reconnect_def)
    moreover have "\<forall>r \<in> x_replies y. reply_backed uid y r"
      using d(3) reply_backed_mono [of uid x _ y] by (auto simp: ex_reconnect(1))
    moreover have "permit_backed uid y" by (simp add: permit_backed_def ex_reconnect(1) Reconnect_def)
    ultimately show ?thesis using d(1,5) by (simp add: exchange_inv_def ex_reconnect(1))
  next
    case (ex_request v s n p)
    then show ?thesis using inv_request [OF inv] by blast
  next
    case (ex_reply s n t0 v)
    have "\<forall>r \<in> x_replies y. reply_backed uid y r"
      using d(3) grant_reply_backed [OF inv ex_reply(2), of v] reply_backed_mono [of uid x _ y] by (auto simp: ex_reply(1))
    moreover have "requests_ok y" "permit_backed uid y" using d(2,4) by (simp_all add: requests_ok_def permit_backed_def ex_reply(1))
    ultimately show ?thesis using d(1,5) by (simp add: exchange_inv_def ex_reply(1))
  next
    case (ex_refuse s n t0 r)
    have "reply_backed uid x r" using ex_refuse by (auto simp: reply_backed_def)
    then have "\<forall>r \<in> x_replies y. reply_backed uid y r"
      using d(3) reply_backed_mono [of uid x _ y] by (auto simp: ex_refuse(1))
    moreover have "requests_ok y" "permit_backed uid y" using d(2,4) by (simp_all add: requests_ok_def permit_backed_def ex_refuse(1))
    ultimately show ?thesis using d(1,5) by (simp add: exchange_inv_def ex_refuse(1))
  next
    case (ex_accept r answer p)
    then show ?thesis using inv_accept [OF inv] by blast
  qed
qed

interpretation permit_exchange: safe_machine exchange_init "exchange_step uid" "exchange_inv uid" for uid
  by unfold_locales (auto intro: exchange_init_inv exchange_step_inv)

text \<open>C15: The Agent executes only under a lease. Whenever its permit is valid for an operation
  version, the Manager has granted a lease of that version whose deadline is still ahead, however
  the network delayed, reordered or repeated requests and replies and however often the Agent
  reconnected.
\<close>

theorem permit_within_lease:
  assumes "reachable exchange_init (exchange_step uid) x" and "Valid version (x_clock x) (x_permit x)"
  shows "\<exists>d. (uid, version, d) \<in> x_granted x \<and> x_clock x < d"
proof -
  have inv: "exchange_inv uid x" by (rule permit_exchange.reachable_inv [OF assms(1)])
  then show ?thesis
    using assms(2) exchange_invD(1,4) [OF inv] by (auto simp: Valid_def permit_backed_def)
qed

section \<open>Witness\<close>

definition demo_x0 :: exchange where
  "demo_x0 = \<lparr> x_clock = 5, x_authority = fmempty, x_granted = {},
     x_permit = \<lparr> p_session = '''', p_sequence = 0, p_sent = 0, p_version = 0, p_deadline = 0 \<rparr>,
     x_sessions = {''''}, x_requests = {}, x_replies = {} \<rparr>"

definition demo_x1 :: exchange where
  "demo_x1 = demo_x0\<lparr> x_authority := Grant ''u'' 4 (10 * second) (x_authority demo_x0),
     x_granted := insert (''u'', 4, 10 * second) (x_granted demo_x0) \<rparr>"

definition demo_x2 :: exchange where
  "demo_x2 = demo_x1\<lparr> x_permit := Reconnect ''s'' (x_permit demo_x1), x_sessions := insert ''s'' (x_sessions demo_x1) \<rparr>"

definition demo_x3 :: exchange where
  "demo_x3 = demo_x2\<lparr> x_permit := snd (Request 4 (x_clock demo_x2) (x_permit demo_x2)),
     x_requests := insert (''s'', 1, x_clock demo_x2) (x_requests demo_x2) \<rparr>"

definition demo_reply :: ControlReply where
  "demo_reply = grant_reply (x_authority demo_x3) ''u'' 4 (x_clock demo_x3) (x_clock demo_x3) ''s'' 1"

definition demo_x4 :: exchange where
  "demo_x4 = demo_x3\<lparr> x_replies := insert demo_reply (x_replies demo_x3) \<rparr>"

definition demo_x5 :: exchange where
  "demo_x5 = demo_x4\<lparr> x_permit := snd (Accept (Some demo_reply) (x_clock demo_x4) (x_permit demo_x4)) \<rparr>"

lemma demo_x5_reachable: "reachable exchange_init (exchange_step ''u'') demo_x5"
proof -
  have "reachable exchange_init (exchange_step ''u'') demo_x0" by (rule reach_init) (simp add: exchange_init_def demo_x0_def)
  moreover have "exchange_step ''u'' demo_x0 demo_x1" unfolding demo_x1_def by (rule ex_grant)
  moreover have "exchange_step ''u'' demo_x1 demo_x2"
    unfolding demo_x2_def by (rule ex_reconnect) (simp add: demo_x1_def demo_x0_def)
  moreover have "Request 4 (x_clock demo_x2) (x_permit demo_x2) = (Inr (''s'', 1), snd (Request 4 (x_clock demo_x2) (x_permit demo_x2)))"
    by (simp add: Request_def demo_x2_def demo_x1_def demo_x0_def Reconnect_def Let_def)
  then have "exchange_step ''u'' demo_x2 demo_x3" unfolding demo_x3_def by (rule ex_request)
  moreover have "(''s'', 1, x_clock demo_x2) \<in> x_requests demo_x3" by (simp add: demo_x3_def)
  then have "exchange_step ''u'' demo_x3 demo_x4" unfolding demo_x4_def demo_reply_def by (rule ex_reply)
  moreover have "demo_reply \<in> x_replies demo_x4" by (simp add: demo_x4_def)
  then have "exchange_step ''u'' demo_x4 demo_x5" unfolding demo_x5_def by (rule ex_accept) (rule prod.collapse [symmetric])
  ultimately show ?thesis by (meson reach_step)
qed

theorem permit_within_lease_witness:
  "Valid 4 (x_clock demo_x5) (x_permit demo_x5) \<and> (\<exists>d. (''u'', 4, d) \<in> x_granted demo_x5 \<and> x_clock demo_x5 < d)"
proof -
  have v: "Valid 4 (x_clock demo_x5) (x_permit demo_x5)" by code_simp
  show ?thesis using permit_within_lease [OF demo_x5_reachable v] v by blast
qed

end
