(* ===== verification/Runtime_Activity.thy ===== *)
theory Runtime_Activity
  imports Prelude
begin

text \<open>
  The idle detection of the Manager (\<open>internal/cluster/activity.go\<close>): connection counts reported by
  the gateways, the auto-stop policy reported by Gitea, and the decision to request a stop. The
  optional protobuf messages are \<open>option\<close> types; the order in which Go ranges over the gateway
  map is an argument; \<open>int64\<close> arithmetic wraps.
\<close>

section \<open>State\<close>

definition gatewayActivityTTL :: duration where
  "gatewayActivityTTL = 30 * second"

definition gatewayPermitTTL :: duration where
  "gatewayPermitTTL = 30 * second"

definition idleStopRetryDelay :: duration where
  "idleStopRetryDelay = 5 * second"

definition idleStopPendingDelay :: duration where
  "idleStopPendingDelay = 30 * second"

record gatewayActivityKey =
  gk_componentUID :: string
  gk_instance :: string

record gatewayActivityReport =
  g_counts :: "(string, int) fmap"
  g_reported :: time
  g_permitUntil :: time
  g_connected :: bool

record runtimeActivity =
  a_siteUID :: string
  a_autoStopEnabled :: bool
  a_idleTimeoutSeconds :: int
  a_interactionGeneration :: int
  a_hasPolicy :: bool
  a_activityAfter :: time
  a_idleSince :: time
  a_retryAt :: time

record RuntimeActivityTracker =
  gateways :: "(gatewayActivityKey, gatewayActivityReport) fmap"
  runtimes :: "(string, runtimeActivity) fmap"

record RuntimeSettings =
  AutoStopEnabled :: bool
  IdleTimeoutSeconds :: int
  InteractionGeneration :: int

datatype idle_outcome =
    OutcomePending "int option"
  | OutcomeObservationChanged "RuntimeSettings option"
  | OutcomeNotApplicable "bool option"
  | OutcomeMissing

datatype activity_error =
    settingsInvalid
  | gatewayIdentityIncomplete
  | gatewayCountInvalid
  | idleResponseMissing
  | idlePendingInvalid
  | idleObservationInvalid
  | idleNotApplicableInvalid
  | idleOutcomeMissing

section \<open>Operations\<close>

definition validateRuntimeSettings :: "RuntimeSettings option \<Rightarrow> bool" where
  "validateRuntimeSettings settings =
     (case settings of
        None \<Rightarrow> False
      | Some s \<Rightarrow> \<not> (InteractionGeneration s < 0 \<or> (AutoStopEnabled s \<and> IdleTimeoutSeconds s \<le> 0) \<or>
                    (\<not> AutoStopEnabled s \<and> IdleTimeoutSeconds s \<noteq> 0)))"

definition newRuntimeActivity :: "string \<Rightarrow> runtimeActivity" where
  "newRuntimeActivity siteUID =
     \<lparr> a_siteUID = siteUID, a_autoStopEnabled = False, a_idleTimeoutSeconds = 0, a_interactionGeneration = 0,
       a_hasPolicy = False, a_activityAfter = zero_time, a_idleSince = zero_time, a_retryAt = zero_time \<rparr>"

text \<open>\<open>runtimeLocked\<close> finds or creates the state; the caller then updates it in place.\<close>

definition runtimeLocked :: "string \<Rightarrow> string \<Rightarrow> RuntimeActivityTracker \<Rightarrow> runtimeActivity" where
  "runtimeLocked siteUID runtimeUUID t =
     (case fmlookup (runtimes t) runtimeUUID of
        Some state \<Rightarrow> if a_siteUID state \<noteq> siteUID then newRuntimeActivity siteUID else state
      | None \<Rightarrow> newRuntimeActivity siteUID)"

definition put_runtime :: "string \<Rightarrow> runtimeActivity \<Rightarrow> RuntimeActivityTracker \<Rightarrow> RuntimeActivityTracker" where
  "put_runtime runtimeUUID state t = t\<lparr> runtimes := fmupd runtimeUUID state (runtimes t) \<rparr>"

definition applySettings :: "RuntimeSettings \<Rightarrow> time \<Rightarrow> runtimeActivity \<Rightarrow> runtimeActivity" where
  "applySettings settings now s =
     (if InteractionGeneration settings < a_interactionGeneration s then s
      else
        (let changed = (\<not> a_hasPolicy s \<or> AutoStopEnabled settings \<noteq> a_autoStopEnabled s \<or>
                        IdleTimeoutSeconds settings \<noteq> a_idleTimeoutSeconds s \<or>
                        InteractionGeneration settings \<noteq> a_interactionGeneration s);
             s = s\<lparr> a_autoStopEnabled := AutoStopEnabled settings, a_idleTimeoutSeconds := IdleTimeoutSeconds settings,
                    a_interactionGeneration := InteractionGeneration settings, a_hasPolicy := True \<rparr>
         in if changed \<or> \<not> AutoStopEnabled settings
            then s\<lparr> a_activityAfter := now, a_idleSince := zero_time, a_retryAt := zero_time \<rparr> else s))"

definition ObserveSettings ::
    "string \<Rightarrow> string \<Rightarrow> RuntimeSettings option \<Rightarrow> time \<Rightarrow> RuntimeActivityTracker \<Rightarrow> activity_error option \<times> RuntimeActivityTracker" where
  "ObserveSettings siteUID runtimeUUID settings now t =
     (if siteUID = '''' \<or> runtimeUUID = '''' \<or> \<not> validateRuntimeSettings settings then (Some settingsInvalid, t)
      else (None, put_runtime runtimeUUID (applySettings (the settings) now (runtimeLocked siteUID runtimeUUID t)) t))"

definition ObserveInteraction ::
    "string \<Rightarrow> string \<Rightarrow> int \<Rightarrow> time \<Rightarrow> RuntimeActivityTracker \<Rightarrow> RuntimeActivityTracker" where
  "ObserveInteraction siteUID runtimeUUID generation now t =
     (if siteUID = '''' \<or> runtimeUUID = '''' \<or> generation < 0 then t
      else
        (let state = runtimeLocked siteUID runtimeUUID t
         in if generation \<le> a_interactionGeneration state then put_runtime runtimeUUID state t
            else put_runtime runtimeUUID
              (state\<lparr> a_interactionGeneration := generation, a_activityAfter := now, a_idleSince := zero_time,
                      a_retryAt := zero_time \<rparr>) t))"

definition ReplaceGateway ::
    "string \<Rightarrow> string \<Rightarrow> (string, int) fmap \<Rightarrow> bool \<Rightarrow> time \<Rightarrow> RuntimeActivityTracker
     \<Rightarrow> activity_error option \<times> RuntimeActivityTracker" where
  "ReplaceGateway componentUID inst counts release now t =
     (if componentUID = '''' \<or> inst = '''' then (Some gatewayIdentityIncomplete, t)
      else
        (let key = \<lparr> gk_componentUID = componentUID, gk_instance = inst \<rparr>
         in if release
            then (case fmlookup (gateways t) key of
                    Some report \<Rightarrow> (None, t\<lparr> gateways := fmupd key (report\<lparr> g_connected := False \<rparr>) (gateways t) \<rparr>)
                  | None \<Rightarrow> (None, t))
            else if \<not> fmpred (\<lambda>runtimeUUID count. \<not> (runtimeUUID = '''' \<or> count < 0)) counts then (Some gatewayCountInvalid, t)
            else (None, t\<lparr> gateways := fmupd key
                     \<lparr> g_counts = fmfilter (\<lambda>runtimeUUID. counter_get counts runtimeUUID > 0) counts, g_reported = now,
                       g_permitUntil = now + gatewayPermitTTL, g_connected = True \<rparr> (gateways t) \<rparr>)))"

definition RenewGatewayPermit :: "string \<Rightarrow> string \<Rightarrow> time \<Rightarrow> RuntimeActivityTracker \<Rightarrow> RuntimeActivityTracker" where
  "RenewGatewayPermit componentUID inst now t =
     (if componentUID = '''' \<or> inst = '''' then t
      else
        (let key = \<lparr> gk_componentUID = componentUID, gk_instance = inst \<rparr>
         in case fmlookup (gateways t) key of
              Some report \<Rightarrow> t\<lparr> gateways := fmupd key (report\<lparr> g_permitUntil := now + gatewayPermitTTL \<rparr>) (gateways t) \<rparr>
            | None \<Rightarrow> t))"

record idle_scan =
  sc_gateways :: "(gatewayActivityKey, gatewayActivityReport) fmap"
  sc_fresh :: bool
  sc_uncertain :: bool
  sc_sessions :: int

definition gateway_stale :: "time \<Rightarrow> gatewayActivityReport \<Rightarrow> bool" where
  "gateway_stale now report \<longleftrightarrow> \<not> g_connected report \<or> time_sub now (g_reported report) > gatewayActivityTTL"

definition scan_gateway :: "string \<Rightarrow> string \<Rightarrow> time \<Rightarrow> time \<Rightarrow> gatewayActivityKey \<Rightarrow> idle_scan \<Rightarrow> idle_scan" where
  "scan_gateway gatewayUID runtimeUUID activityAfter now key sc =
     (case fmlookup (sc_gateways sc) key of
        None \<Rightarrow> sc
      | Some report \<Rightarrow>
          if gk_componentUID key \<noteq> gatewayUID then sc
          else if gateway_stale now report
          then (if now < g_permitUntil report then sc\<lparr> sc_uncertain := True \<rparr>
                else sc\<lparr> sc_gateways := fmdrop key (sc_gateways sc) \<rparr>)
          else if \<not> g_reported report < activityAfter
          then sc\<lparr> sc_fresh := True, sc_sessions := wrap64 (sc_sessions sc + counter_get (g_counts report) runtimeUUID) \<rparr>
          else sc)"

definition reset_idle :: "runtimeActivity \<Rightarrow> runtimeActivity" where
  "reset_idle state = state\<lparr> a_idleSince := zero_time, a_retryAt := zero_time \<rparr>"

definition IdleRequest ::
    "gatewayActivityKey list \<Rightarrow> string \<Rightarrow> string \<Rightarrow> string \<Rightarrow> bool \<Rightarrow> time \<Rightarrow> RuntimeActivityTracker
     \<Rightarrow> RuntimeSettings option \<times> RuntimeActivityTracker" where
  "IdleRequest order siteUID runtimeUUID gatewayUID eligible now t =
     (case fmlookup (runtimes t) runtimeUUID of
        None \<Rightarrow> (None, t)
      | Some state \<Rightarrow>
          if a_siteUID state \<noteq> siteUID \<or> \<not> a_hasPolicy state \<or> \<not> a_autoStopEnabled state \<or> \<not> eligible
          then (None, put_runtime runtimeUUID (reset_idle state) t)
          else
            (let sc = fold (scan_gateway gatewayUID runtimeUUID (a_activityAfter state) now) order
                        \<lparr> sc_gateways = gateways t, sc_fresh = False, sc_uncertain = False, sc_sessions = 0 \<rparr>;
                 t = t\<lparr> gateways := sc_gateways sc \<rparr>
             in if sc_uncertain sc \<or> \<not> sc_fresh sc \<or> sc_sessions sc > 0
                then (None, put_runtime runtimeUUID (reset_idle state) t)
                else if a_idleSince state = zero_time
                then (None, put_runtime runtimeUUID (state\<lparr> a_idleSince := now \<rparr>) t)
                else if time_sub now (a_idleSince state) < wrap64 (a_idleTimeoutSeconds state * second) \<or> now < a_retryAt state
                then (None, t)
                else (Some \<lparr> AutoStopEnabled = a_autoStopEnabled state, IdleTimeoutSeconds = a_idleTimeoutSeconds state,
                             InteractionGeneration = a_interactionGeneration state \<rparr>,
                      put_runtime runtimeUUID (state\<lparr> a_retryAt := now + idleStopRetryDelay \<rparr>) t)))"

definition IdleStopResult ::
    "string \<Rightarrow> string \<Rightarrow> idle_outcome option \<Rightarrow> time \<Rightarrow> RuntimeActivityTracker \<Rightarrow> activity_error option \<times> RuntimeActivityTracker" where
  "IdleStopResult siteUID runtimeUUID response now t =
     (case response of
        None \<Rightarrow> (Some idleResponseMissing, t)
      | Some outcome \<Rightarrow>
          (case fmlookup (runtimes t) runtimeUUID of
             None \<Rightarrow> (None, t)
           | Some state \<Rightarrow>
               if a_siteUID state \<noteq> siteUID then (None, t)
               else case outcome of
                 OutcomePending pending \<Rightarrow>
                   (case pending of
                      None \<Rightarrow> (Some idlePendingInvalid, t)
                    | Some version \<Rightarrow>
                        if version \<le> 0 then (Some idlePendingInvalid, t)
                        else (None, put_runtime runtimeUUID (state\<lparr> a_retryAt := now + idleStopPendingDelay \<rparr>) t))
               | OutcomeObservationChanged settings \<Rightarrow>
                   if \<not> validateRuntimeSettings settings then (Some idleObservationInvalid, t)
                   else (None, put_runtime runtimeUUID ((applySettings (the settings) now state)\<lparr> a_retryAt := zero_time \<rparr>) t)
               | OutcomeNotApplicable reason \<Rightarrow>
                   if reason \<noteq> Some True then (Some idleNotApplicableInvalid, t)
                   else (None, put_runtime runtimeUUID (state\<lparr> a_idleSince := zero_time, a_retryAt := now + idleStopRetryDelay \<rparr>) t)
               | OutcomeMissing \<Rightarrow> (Some idleOutcomeMissing, t)))"

definition IdleStopFailed :: "string \<Rightarrow> time \<Rightarrow> RuntimeActivityTracker \<Rightarrow> RuntimeActivityTracker" where
  "IdleStopFailed runtimeUUID now t =
     (case fmlookup (runtimes t) runtimeUUID of
        None \<Rightarrow> t
      | Some state \<Rightarrow> put_runtime runtimeUUID (state\<lparr> a_retryAt := now + idleStopRetryDelay \<rparr>) t)"

definition RetainSite :: "string \<Rightarrow> (string \<Rightarrow> bool) \<Rightarrow> RuntimeActivityTracker \<Rightarrow> RuntimeActivityTracker" where
  "RetainSite siteUID current t =
     t\<lparr> runtimes := fmfilter (\<lambda>runtimeUUID. case fmlookup (runtimes t) runtimeUUID of
            None \<Rightarrow> False | Some state \<Rightarrow> \<not> (a_siteUID state = siteUID \<and> \<not> current runtimeUUID)) (runtimes t) \<rparr>"

section \<open>The scan of the gateways\<close>

text \<open>What the scan of one component's gateways has to find for a runtime to count as idle.\<close>

definition gateways_quiet :: "(gatewayActivityKey, gatewayActivityReport) fmap \<Rightarrow> string \<Rightarrow> string \<Rightarrow> time \<Rightarrow> time \<Rightarrow> bool" where
  "gateways_quiet gs gatewayUID runtimeUUID activityAfter now \<longleftrightarrow>
     (\<forall>key report. fmlookup gs key = Some report \<longrightarrow> gk_componentUID key = gatewayUID \<longrightarrow>
        (gateway_stale now report \<longrightarrow> \<not> now < g_permitUntil report) \<and>
        (\<not> gateway_stale now report \<longrightarrow> activityAfter \<le> g_reported report \<longrightarrow> counter_get (g_counts report) runtimeUUID = 0)) \<and>
     (\<exists>key report. fmlookup gs key = Some report \<and> gk_componentUID key = gatewayUID \<and> \<not> gateway_stale now report \<and>
        activityAfter \<le> g_reported report)"

definition uncertain_key where
  "uncertain_key gs gatewayUID now key \<longleftrightarrow>
     (\<exists>report. fmlookup gs key = Some report \<and> gk_componentUID key = gatewayUID \<and> gateway_stale now report \<and> now < g_permitUntil report)"

definition fresh_key where
  "fresh_key gs gatewayUID activityAfter now key \<longleftrightarrow>
     (\<exists>report. fmlookup gs key = Some report \<and> gk_componentUID key = gatewayUID \<and> \<not> gateway_stale now report \<and> activityAfter \<le> g_reported report)"

definition key_sessions :: "(gatewayActivityKey, gatewayActivityReport) fmap \<Rightarrow> string \<Rightarrow> gatewayActivityKey \<Rightarrow> int" where
  "key_sessions gs runtimeUUID key = (case fmlookup gs key of None \<Rightarrow> 0 | Some report \<Rightarrow> counter_get (g_counts report) runtimeUUID)"

definition scan_total where
  "scan_total gs gatewayUID runtimeUUID activityAfter now order =
     sum_list (map (\<lambda>key. if fresh_key gs gatewayUID activityAfter now key then key_sessions gs runtimeUUID key else 0) order)"

lemmas scan_keys = uncertain_key_def fresh_key_def key_sessions_def

lemma scan_gateway_simps:
  "fmlookup (sc_gateways (scan_gateway g u a now k sc)) k' = (if k' = k then fmlookup (sc_gateways (scan_gateway g u a now k sc)) k else fmlookup (sc_gateways sc) k')"
  "sc_uncertain (scan_gateway g u a now k sc) = (sc_uncertain sc \<or> uncertain_key (sc_gateways sc) g now k)"
  "sc_fresh (scan_gateway g u a now k sc) = (sc_fresh sc \<or> fresh_key (sc_gateways sc) g a now k)"
  "sc_sessions (scan_gateway g u a now k sc) =
     (if fresh_key (sc_gateways sc) g a now k then wrap64 (sc_sessions sc + key_sessions (sc_gateways sc) u k) else sc_sessions sc)"
  by (auto simp: scan_gateway_def scan_keys not_less split: option.split)

lemma scan_key_cong:
  assumes "fmlookup gs k = fmlookup gs' k"
  shows "uncertain_key gs g now k = uncertain_key gs' g now k" and "fresh_key gs g a now k = fresh_key gs' g a now k"
    and "key_sessions gs u k = key_sessions gs' u k"
  by (simp_all add: scan_keys assms)

lemma scan_fold:
  assumes "distinct ks" and "\<And>k. k \<in> set ks \<Longrightarrow> fmlookup (sc_gateways sc) k = fmlookup gs k"
    and "\<And>k. 0 \<le> key_sessions gs u k" and "0 \<le> sc_sessions sc" and "sc_sessions sc + scan_total gs g u a now ks \<le> max_int64"
  shows "sc_uncertain (fold (scan_gateway g u a now) ks sc) = (sc_uncertain sc \<or> (\<exists>k \<in> set ks. uncertain_key gs g now k))
    \<and> sc_fresh (fold (scan_gateway g u a now) ks sc) = (sc_fresh sc \<or> (\<exists>k \<in> set ks. fresh_key gs g a now k))
    \<and> sc_sessions (fold (scan_gateway g u a now) ks sc) = sc_sessions sc + scan_total gs g u a now ks"
  using assms(1,2,4,5)
proof (induction ks arbitrary: sc)
  case Nil
  then show ?case by (simp add: scan_total_def)
next
  case (Cons k ks)
  let ?sc = "scan_gateway g u a now k sc"
  have k: "fmlookup (sc_gateways sc) k = fmlookup gs k" using Cons.prems(2) by simp
  note kc = scan_key_cong [OF k]
  have rest: "fmlookup (sc_gateways ?sc) k' = fmlookup gs k'" if "k' \<in> set ks" for k'
    using that Cons.prems(1,2) scan_gateway_simps(1) [of g u a now k sc k'] by auto
  have nn: "0 \<le> scan_total gs g u a now ks"
    unfolding scan_total_def by (rule sum_list_nonneg) (auto simp: assms(3))
  have tot: "scan_total gs g u a now (k # ks) =
      (if fresh_key gs g a now k then key_sessions gs u k else 0) + scan_total gs g u a now ks"
    by (simp add: scan_total_def)
  have s: "sc_sessions ?sc = sc_sessions sc + (if fresh_key gs g a now k then key_sessions gs u k else 0)"
  proof (cases "fresh_key gs g a now k")
    case True
    have "in_int64 (sc_sessions sc + key_sessions gs u k)"
      using Cons.prems(3,4) nn assms(3) [of k] tot True by (simp add: in_int64_def min_int64_def)
    then show ?thesis using True by (simp add: scan_gateway_simps(4) kc wrap64_id)
  qed (simp add: scan_gateway_simps(4) kc)
  have "0 \<le> sc_sessions ?sc" using s Cons.prems(3) assms(3) [of k] by simp
  moreover have "sc_sessions ?sc + scan_total gs g u a now ks \<le> max_int64" using s tot Cons.prems(4) by simp
  ultimately show ?case
    using Cons.IH [of ?sc] Cons.prems(1) rest s tot by (auto simp: scan_gateway_simps(2,3) kc)
qed

text \<open>The order of one iteration: every key once. Fewer than \<open>2 ^ 63\<close> connections are counted.\<close>

definition iteration_ok where
  "iteration_ok gs order g u a now \<longleftrightarrow>
     distinct order \<and> fmdom' gs \<subseteq> set order \<and> scan_total gs g u a now order \<le> max_int64"

definition counts_nonneg :: "RuntimeActivityTracker \<Rightarrow> bool" where
  "counts_nonneg t \<longleftrightarrow> (\<forall>key report u. fmlookup (gateways t) key = Some report \<longrightarrow> 0 \<le> counter_get (g_counts report) u)"

lemma scan_quiet:
  assumes "iteration_ok (gateways t) order g u a now" and nn: "counts_nonneg t"
  defines "sc \<equiv> fold (scan_gateway g u a now) order \<lparr> sc_gateways = gateways t, sc_fresh = False, sc_uncertain = False, sc_sessions = 0 \<rparr>"
  shows "\<not> (sc_uncertain sc \<or> \<not> sc_fresh sc \<or> sc_sessions sc > 0) \<longleftrightarrow> gateways_quiet (gateways t) g u a now"
proof -
  let ?gs = "gateways t"
  have it: "distinct order" "fmdom' ?gs \<subseteq> set order" "scan_total ?gs g u a now order \<le> max_int64"
    using assms(1) by (auto simp: iteration_ok_def)
  have ks: "0 \<le> key_sessions ?gs u k" for k
    using nn by (auto simp: key_sessions_def counts_nonneg_def split: option.split)
  have f: "sc_uncertain sc = (\<exists>k \<in> set order. uncertain_key ?gs g now k)" "sc_fresh sc = (\<exists>k \<in> set order. fresh_key ?gs g a now k)"
      "sc_sessions sc = scan_total ?gs g u a now order"
    using scan_fold [OF it(1), of "\<lparr> sc_gateways = ?gs, sc_fresh = False, sc_uncertain = False, sc_sessions = 0 \<rparr>" ?gs u g a now] it(3) ks
    by (auto simp: sc_def)
  have dom: "fmlookup ?gs k = Some r \<Longrightarrow> k \<in> set order" for k r using it(2) by (auto dest: fmdom'I)
  have zero: "(scan_total ?gs g u a now order \<le> 0) = (\<forall>k \<in> set order. fresh_key ?gs g a now k \<longrightarrow> key_sessions ?gs u k = 0)"
  proof -
    have nn': "\<forall>x \<in> set (map (\<lambda>k. if fresh_key ?gs g a now k then key_sessions ?gs u k else 0) order). 0 \<le> x" using ks by auto
    have "0 \<le> scan_total ?gs g u a now order" unfolding scan_total_def using nn' by (intro sum_list_nonneg) auto
    then have "(scan_total ?gs g u a now order \<le> 0) = (scan_total ?gs g u a now order = 0)" by simp
    also have "\<dots> = (\<forall>x \<in> set (map (\<lambda>k. if fresh_key ?gs g a now k then key_sessions ?gs u k else 0) order). x = 0)"
      unfolding scan_total_def using nn' by (intro sum_list_nonneg_eq_0_iff) auto
    finally show ?thesis by auto
  qed
  have "\<not> (sc_uncertain sc \<or> \<not> sc_fresh sc \<or> sc_sessions sc > 0) \<longleftrightarrow>
      (\<forall>k \<in> set order. \<not> uncertain_key ?gs g now k) \<and> (\<exists>k \<in> set order. fresh_key ?gs g a now k) \<and>
      (\<forall>k \<in> set order. fresh_key ?gs g a now k \<longrightarrow> key_sessions ?gs u k = 0)"
    unfolding f zero [symmetric] by auto
  also have "\<dots> \<longleftrightarrow> gateways_quiet ?gs g u a now"
    unfolding gateways_quiet_def scan_keys using dom by (auto split: option.splits)
  finally show ?thesis .
qed

section \<open>When a stop is requested\<close>

text \<open>A stop is requested exactly when the policy enables it, the runtime is eligible and its
  gateways are quiet (none of them is silent while it may still hold connections, at least one has
  reported since the last activity, and none that reported holds a connection), the runtime has
  been idle for its timeout, and the retry delay is over. The request carries the policy it was
  decided under.
\<close>

theorem idle_request_exact:
  assumes "fmlookup (runtimes t) u = Some state" and "counts_nonneg t"
    and "iteration_ok (gateways t) order g u (a_activityAfter state) now"
  shows "fst (IdleRequest order site u g eligible now t) =
      (if a_siteUID state = site \<and> a_hasPolicy state \<and> a_autoStopEnabled state \<and> eligible \<and>
          gateways_quiet (gateways t) g u (a_activityAfter state) now \<and> a_idleSince state \<noteq> zero_time \<and>
          wrap64 (a_idleTimeoutSeconds state * second) \<le> time_sub now (a_idleSince state) \<and> a_retryAt state \<le> now
       then Some \<lparr> AutoStopEnabled = True, IdleTimeoutSeconds = a_idleTimeoutSeconds state,
                   InteractionGeneration = a_interactionGeneration state \<rparr>
       else None)"
  unfolding scan_quiet [OF assms(3,2), symmetric]
  unfolding IdleRequest_def assms(1) option.case Let_def by (simp add: not_less)

section \<open>Histories\<close>

text \<open>
  The tracker of one runtime under the clock of the Manager. \<open>iw_last\<close> remembers the last time at which
  there was evidence of use: an interaction of a new generation, or a poll that found the runtime
  ineligible or its gateways not quiet.
\<close>

record idle_world =
  iw_tracker :: RuntimeActivityTracker
  iw_clock :: time
  iw_last :: time

definition idle_init :: "idle_world \<Rightarrow> bool" where
  "idle_init w \<longleftrightarrow> iw_tracker w = \<lparr> gateways = fmempty, runtimes = fmempty \<rparr> \<and> 0 < iw_clock w \<and> iw_last w = 0"

inductive idle_step :: "string \<Rightarrow> string \<Rightarrow> idle_world \<Rightarrow> idle_world \<Rightarrow> bool" for site u :: string where
  id_tick: "iw_clock w \<le> now \<Longrightarrow> idle_step site u w (w\<lparr> iw_clock := now \<rparr>)"
| id_settings: "ObserveSettings site' u' settings (iw_clock w) (iw_tracker w) = (e, t) \<Longrightarrow> idle_step site u w (w\<lparr> iw_tracker := t \<rparr>)"
| id_interaction: "ObserveInteraction site' u' generation (iw_clock w) (iw_tracker w) = t \<Longrightarrow>
     idle_step site u w (w\<lparr> iw_tracker := t,
       iw_last := (if site' = site \<and> u' = u \<and> site \<noteq> '''' \<and> u \<noteq> '''' \<and>
                      a_interactionGeneration (runtimeLocked site u (iw_tracker w)) < generation \<and> 0 \<le> generation
                   then iw_clock w else iw_last w) \<rparr>)"
| id_gateway: "ReplaceGateway c i counts release (iw_clock w) (iw_tracker w) = (e, t) \<Longrightarrow> idle_step site u w (w\<lparr> iw_tracker := t \<rparr>)"
| id_renew: "RenewGatewayPermit c i (iw_clock w) (iw_tracker w) = t \<Longrightarrow> idle_step site u w (w\<lparr> iw_tracker := t \<rparr>)"
| id_poll_other: "u' \<noteq> u \<Longrightarrow> IdleRequest order site' u' g eligible (iw_clock w) (iw_tracker w) = (answer, t) \<Longrightarrow>
     idle_step site u w (w\<lparr> iw_tracker := t \<rparr>)"
| id_poll: "(\<And>state. fmlookup (runtimes (iw_tracker w)) u = Some state \<Longrightarrow>
        iteration_ok (gateways (iw_tracker w)) order g u (a_activityAfter state) (iw_clock w)) \<Longrightarrow>
     IdleRequest order site u g eligible (iw_clock w) (iw_tracker w) = (answer, t) \<Longrightarrow>
     idle_step site u w (w\<lparr> iw_tracker := t,
       iw_last := (if eligible \<and> gateways_quiet (gateways (iw_tracker w)) g u
                       (a_activityAfter (runtimeLocked site u (iw_tracker w))) (iw_clock w)
                   then iw_last w else iw_clock w) \<rparr>)"
| id_result: "IdleStopResult site' u' response (iw_clock w) (iw_tracker w) = (e, t) \<Longrightarrow> idle_step site u w (w\<lparr> iw_tracker := t \<rparr>)"
| id_failed: "IdleStopFailed u' (iw_clock w) (iw_tracker w) = t \<Longrightarrow> idle_step site u w (w\<lparr> iw_tracker := t \<rparr>)"
| id_retain: "RetainSite site' current (iw_tracker w) = t \<Longrightarrow> idle_step site u w (w\<lparr> iw_tracker := t \<rparr>)"

definition idle_state_ok :: "string \<Rightarrow> time \<Rightarrow> time \<Rightarrow> runtimeActivity \<Rightarrow> bool" where
  "idle_state_ok site clock recent state \<longleftrightarrow>
     a_siteUID state = site \<longrightarrow> a_idleSince state = 0 \<or> (recent \<le> a_idleSince state \<and> a_idleSince state \<le> clock)"

definition idle_inv :: "string \<Rightarrow> string \<Rightarrow> idle_world \<Rightarrow> bool" where
  "idle_inv site u w \<longleftrightarrow>
     0 < iw_clock w \<and> iw_last w \<le> iw_clock w \<and> counts_nonneg (iw_tracker w) \<and>
     (\<forall>state. fmlookup (runtimes (iw_tracker w)) u = Some state \<longrightarrow> idle_state_ok site (iw_clock w) (iw_last w) state)"

lemma idle_state_ok_zero [simp]: "a_idleSince state = 0 \<Longrightarrow> idle_state_ok site clock recent state"
  by (simp add: idle_state_ok_def)

lemma idle_state_ok_retry [simp]: "idle_state_ok site clock recent (s\<lparr> a_retryAt := x \<rparr>) = idle_state_ok site clock recent s"
  by (simp add: idle_state_ok_def)

lemma applySettings_ok:
  "idle_state_ok site clock recent state \<Longrightarrow> idle_state_ok site clock recent (applySettings s now state)"
  by (simp add: idle_state_ok_def applySettings_def Let_def)

lemma runtimeLocked_ok:
  assumes "\<And>state. fmlookup (runtimes t) u = Some state \<Longrightarrow> idle_state_ok site clock recent state"
  shows "idle_state_ok site clock recent (runtimeLocked site' u t)"
  using assms by (auto simp: runtimeLocked_def newRuntimeActivity_def split: option.split)

lemma put_runtime_lookup: "fmlookup (runtimes (put_runtime u' state t)) u = (if u = u' then Some state else fmlookup (runtimes t) u)"
  by (simp add: put_runtime_def)

lemma put_runtime_gateways [simp]: "gateways (put_runtime u state t) = gateways t"
  by (simp add: put_runtime_def)

lemma counts_nonneg_cong: "gateways t = gateways t' \<Longrightarrow> counts_nonneg t = counts_nonneg t'"
  by (simp add: counts_nonneg_def)

lemma scan_gateway_subset:
  "fmlookup (sc_gateways (fold (scan_gateway g u a now) ks sc)) k = Some r \<Longrightarrow> fmlookup (sc_gateways sc) k = Some r"
proof (induction ks arbitrary: sc)
  case (Cons x ks)
  have "fmlookup (sc_gateways (scan_gateway g u a now x sc)) k = Some r \<Longrightarrow> fmlookup (sc_gateways sc) k = Some r"
    by (auto simp: scan_gateway_def split: option.splits if_splits)
  then show ?case using Cons by simp
qed simp

lemma IdleRequest_gateways:
  "counts_nonneg t \<Longrightarrow> counts_nonneg (snd (IdleRequest order site u g eligible now t))"
  unfolding counts_nonneg_def IdleRequest_def Let_def
  by (auto split: option.split dest!: scan_gateway_subset)

lemma idle_inv_keep:
  assumes inv: "idle_inv site u w" and "counts_nonneg t"
    and "\<And>state. fmlookup (runtimes t) u = Some state \<Longrightarrow> idle_state_ok site (iw_clock w) (iw_last w) state"
  shows "idle_inv site u (w\<lparr> iw_tracker := t \<rparr>)"
  using assms by (simp add: idle_inv_def)

lemma idle_inv_state: "idle_inv site u w \<Longrightarrow> fmlookup (runtimes (iw_tracker w)) u = Some state \<Longrightarrow> idle_state_ok site (iw_clock w) (iw_last w) state"
  by (simp add: idle_inv_def)

lemma ReplaceGateway_keeps:
  assumes "ReplaceGateway c i counts release now t = (e, t')" and "counts_nonneg t"
  shows "runtimes t' = runtimes t" and "counts_nonneg t'"
proof -
  show "runtimes t' = runtimes t"
    using assms(1) by (auto simp: ReplaceGateway_def Let_def split: if_splits option.splits)
  have nn: "0 \<le> counter_get (fmfilter (\<lambda>r. 0 < counter_get counts r) counts) v" for v
    by (simp add: counter_get_def split: option.splits)
  show "counts_nonneg t'"
    using assms nn by (auto simp: ReplaceGateway_def Let_def counts_nonneg_def split: if_splits option.splits)
qed

lemma IdleRequest_runtimes:
  assumes "IdleRequest order site' u' g eligible now t = (answer, t')"
  shows "u \<noteq> u' \<Longrightarrow> fmlookup (runtimes t') u = fmlookup (runtimes t) u"
  using assms by (auto simp: IdleRequest_def Let_def put_runtime_def split: option.splits if_splits)

lemma poll_ok:
  assumes inv: "idle_inv site u w"
    and it: "\<And>state. fmlookup (runtimes (iw_tracker w)) u = Some state \<Longrightarrow>
        iteration_ok (gateways (iw_tracker w)) order g u (a_activityAfter state) (iw_clock w)"
    and poll: "IdleRequest order site u g eligible (iw_clock w) (iw_tracker w) = (answer, t)"
    and st: "fmlookup (runtimes t) u = Some state'"
  shows "idle_state_ok site (iw_clock w) (if eligible \<and> gateways_quiet (gateways (iw_tracker w)) g u
                       (a_activityAfter (runtimeLocked site u (iw_tracker w))) (iw_clock w)
                   then iw_last w else iw_clock w) state'"
proof (cases "fmlookup (runtimes (iw_tracker w)) u")
  case None
  then have "t = iw_tracker w" using poll by (simp add: IdleRequest_def)
  then show ?thesis using st None by simp
next
  case (Some state)
  let ?t = "iw_tracker w"
  have nn: "counts_nonneg ?t" and last: "iw_last w \<le> iw_clock w" and ok: "idle_state_ok site (iw_clock w) (iw_last w) state"
    using inv Some by (auto simp: idle_inv_def)
  note q = scan_quiet [OF it [OF Some] nn]
  have fin: "state' = reset_idle state \<or> (a_siteUID state = site \<and> eligible \<and>
      gateways_quiet (gateways ?t) g u (a_activityAfter state) (iw_clock w) \<and>
      (state' = state \<or> state' = state\<lparr> a_idleSince := iw_clock w \<rparr> \<or>
       state' = state\<lparr> a_retryAt := iw_clock w + idleStopRetryDelay \<rparr>))"
    using poll st unfolding IdleRequest_def Some option.case Let_def q [symmetric]
    by (auto simp: put_runtime_lookup Some split: if_splits)
  have lock: "a_siteUID state = site \<Longrightarrow> runtimeLocked site u ?t = state" by (simp add: runtimeLocked_def Some)
  show ?thesis
  proof (cases "state' = reset_idle state")
    case True
    then show ?thesis by (simp add: reset_idle_def)
  next
    case False
    then have p: "a_siteUID state = site" "eligible" "gateways_quiet (gateways ?t) g u (a_activityAfter state) (iw_clock w)"
      and c: "state' = state \<or> state' = state\<lparr> a_idleSince := iw_clock w \<rparr> \<or>
        state' = state\<lparr> a_retryAt := iw_clock w + idleStopRetryDelay \<rparr>"
      using fin by blast+
    show ?thesis unfolding lock [OF p(1)] using p(2,3) c ok last by (elim disjE) (simp_all add: idle_state_ok_def)
  qed
qed

lemma idle_step_inv:
  assumes "idle_step site u w w'" and inv: "idle_inv site u w"
  shows "idle_inv site u w'"
  using assms(1)
proof cases
  have nn: "counts_nonneg (iw_tracker w)" using inv by (simp add: idle_inv_def)
  note st = idle_inv_state [OF inv]
  have lk: "idle_state_ok site (iw_clock w) (iw_last w) (runtimeLocked site' u (iw_tracker w))" for site'
    by (rule runtimeLocked_ok) (rule st)
  {
    case (id_tick now)
    then show ?thesis using inv by (auto simp: idle_inv_def idle_state_ok_def)
  next
    case (id_settings site' u' settings e t)
    have g: "gateways t = gateways (iw_tracker w)"
      using id_settings(2) by (auto simp: ObserveSettings_def split: if_splits)
    have "fmlookup (runtimes t) u = fmlookup (runtimes (iw_tracker w)) u \<or>
        fmlookup (runtimes t) u = Some (applySettings (the settings) (iw_clock w) (runtimeLocked site' u (iw_tracker w)))"
      using id_settings(2) by (auto simp: ObserveSettings_def put_runtime_lookup split: if_splits)
    then have "idle_state_ok site (iw_clock w) (iw_last w) state" if "fmlookup (runtimes t) u = Some state" for state
      using that st [of state] applySettings_ok [OF lk [of site'], of "the settings" "iw_clock w"] by auto
    then show ?thesis unfolding id_settings(1) using nn counts_nonneg_cong [OF g] by (intro idle_inv_keep [OF inv]) auto
  next
    case (id_interaction site' u' generation t)
    have g: "gateways t = gateways (iw_tracker w)"
      using id_interaction(2) by (auto simp: ObserveInteraction_def Let_def split: if_splits)
    let ?st = "runtimeLocked site' u' (iw_tracker w)"
    have "idle_state_ok site (iw_clock w) (iw_last w') state" if l: "fmlookup (runtimes t) u = Some state" for state
    proof (cases "(site' = [] \<or> u' = [] \<or> generation < 0) \<or> u' \<noteq> u")
      case True
      then have "fmlookup (runtimes (iw_tracker w)) u = Some state" "iw_last w' = iw_last w"
        using id_interaction(2) l
        by (auto simp: ObserveInteraction_def put_runtime_lookup Let_def id_interaction(1) split: if_splits)
      then show ?thesis using st by simp
    next
      case False
      show ?thesis
      proof (cases "generation \<le> a_interactionGeneration ?st")
        case True
        then have "state = runtimeLocked site' u (iw_tracker w)" "iw_last w' = iw_last w"
          using False id_interaction(2) l
          by (auto simp: ObserveInteraction_def put_runtime_lookup Let_def id_interaction(1) split: if_splits)
        then show ?thesis using lk by simp
      next
        case new: False
        then have "a_idleSince state = 0"
          using False id_interaction(2) l by (auto simp: ObserveInteraction_def put_runtime_lookup Let_def)
        then show ?thesis by simp
      qed
    qed
    then show ?thesis using inv counts_nonneg_cong [OF g] by (auto simp: idle_inv_def id_interaction(1))
  next
    case (id_gateway c i counts release e t)
    show ?thesis unfolding id_gateway(1)
      using ReplaceGateway_keeps [OF id_gateway(2) nn] st by (intro idle_inv_keep [OF inv]) auto
  next
    case (id_renew c i t)
    have "runtimes t = runtimes (iw_tracker w)" "counts_nonneg t"
      using id_renew(2) nn by (auto simp: RenewGatewayPermit_def counts_nonneg_def Let_def split: if_splits option.splits)
    then show ?thesis unfolding id_renew(1) using st by (intro idle_inv_keep [OF inv]) auto
  next
    case (id_poll_other u' order site' g eligible answer t)
    have "counts_nonneg t" using IdleRequest_gateways [OF nn, of order site' u' g eligible "iw_clock w"] id_poll_other(3) by simp
    then show ?thesis unfolding id_poll_other(1)
      using IdleRequest_runtimes [OF id_poll_other(3)] id_poll_other(2) st by (intro idle_inv_keep [OF inv]) auto
  next
    case (id_poll order g eligible answer t)
    have "counts_nonneg t" using IdleRequest_gateways [OF nn, of order site u g eligible "iw_clock w"] id_poll(3) by simp
    then show ?thesis using poll_ok [OF inv id_poll(2,3)] inv by (simp add: idle_inv_def id_poll(1))
  next
    case (id_result site' u' response e t)
    have g: "gateways t = gateways (iw_tracker w)"
      using id_result(2) by (auto simp: IdleStopResult_def split: if_splits option.splits idle_outcome.splits)
    have "idle_state_ok site (iw_clock w) (iw_last w) state" if l: "fmlookup (runtimes t) u = Some state" for state
    proof -
      have "fmlookup (runtimes (iw_tracker w)) u = Some state \<or> a_idleSince state = 0 \<or>
          (\<exists>s x. fmlookup (runtimes (iw_tracker w)) u = Some s \<and>
            (state = s\<lparr> a_retryAt := x \<rparr> \<or> (\<exists>set. state = (applySettings set (iw_clock w) s)\<lparr> a_retryAt := x \<rparr>)))"
        using id_result(2) l
        by (auto simp: IdleStopResult_def put_runtime_lookup split: if_splits option.splits idle_outcome.splits) blast
      then show ?thesis using st applySettings_ok [OF st] by (elim disjE exE conjE) simp_all
    qed
    then show ?thesis unfolding id_result(1) using nn counts_nonneg_cong [OF g] by (intro idle_inv_keep [OF inv]) auto
  next
    case (id_failed u' t)
    have g: "gateways t = gateways (iw_tracker w)"
      using id_failed(2) by (auto simp: IdleStopFailed_def split: option.splits)
    have "idle_state_ok site (iw_clock w) (iw_last w) state" if "fmlookup (runtimes t) u = Some state" for state
      using id_failed(2) that st by (auto simp: IdleStopFailed_def put_runtime_lookup idle_state_ok_def split: option.splits if_splits)
    then show ?thesis unfolding id_failed(1) using nn counts_nonneg_cong [OF g] by (intro idle_inv_keep [OF inv]) auto
  next
    case (id_retain site' current t)
    have g: "gateways t = gateways (iw_tracker w)" using id_retain(2) by (auto simp: RetainSite_def)
    have sub: "fmlookup (runtimes t) u = Some state \<Longrightarrow> fmlookup (runtimes (iw_tracker w)) u = Some state" for state
      using id_retain(2) by (auto simp: RetainSite_def split: if_splits)
    show ?thesis unfolding id_retain(1)
      by (rule idle_inv_keep [OF inv]) (use nn counts_nonneg_cong [OF g] st [OF sub] in auto)
  }
qed

lemma idle_init_inv: "idle_init w \<Longrightarrow> idle_inv site u w"
  by (simp add: idle_init_def idle_inv_def counts_nonneg_def)

interpretation idle_tracker: safe_machine idle_init "idle_step site u" "idle_inv site u" for site u
  by unfold_locales (auto intro: idle_init_inv idle_step_inv)

text \<open>C33: A runtime in use is not stopped. When a stop is requested under a policy whose timeout is
  positive and fits 64 bits in nanoseconds (a larger one overflows, as \<open>idle_timeout_overflow\<close> shows),
  at least that timeout has passed since the last evidence of use: the last interaction of a new generation and
  the last poll at which a gateway held a connection, could still hold one, or had not reported.
\<close>

theorem idle_stop_only_after_quiet:
  assumes "reachable idle_init (idle_step site u) w"
    and "fmlookup (runtimes (iw_tracker w)) u = Some state"
    and "iteration_ok (gateways (iw_tracker w)) order g u (a_activityAfter state) (iw_clock w)"
    and "IdleRequest order site u g eligible (iw_clock w) (iw_tracker w) = (Some settings, t)"
    and "0 < IdleTimeoutSeconds settings" and "IdleTimeoutSeconds settings * second \<le> max_int64"
  shows "iw_last w + IdleTimeoutSeconds settings * second \<le> iw_clock w"
proof -
  have inv: "idle_inv site u w" by (rule idle_tracker.reachable_inv [OF assms(1)])
  have nn: "counts_nonneg (iw_tracker w)" using inv by (simp add: idle_inv_def)
  have fires: "a_siteUID state = site" "a_idleSince state \<noteq> 0"
      "wrap64 (a_idleTimeoutSeconds state * second) \<le> time_sub (iw_clock w) (a_idleSince state)"
      "IdleTimeoutSeconds settings = a_idleTimeoutSeconds state"
    using idle_request_exact [OF assms(2) nn assms(3), of site eligible] assms(4) by (auto split: if_splits)
  have "iw_last w \<le> a_idleSince state" using idle_inv_state [OF inv assms(2)] fires(1,2) by (simp add: idle_state_ok_def)
  moreover have "IdleTimeoutSeconds settings * second \<le> time_sub (iw_clock w) (a_idleSince state)"
    using fires(3,4) assms(5,6) by (simp add: wrap64_id in_int64_def min_int64_def second_def)
  then have "IdleTimeoutSeconds settings * second \<le> iw_clock w - a_idleSince state"
    using assms(5,6) by (subst (asm) time_sub_ge_iff) (auto simp: min_int64_def second_def)
  ultimately show ?thesis by simp
qed

section \<open>Witnesses\<close>

definition demo_key :: gatewayActivityKey where
  "demo_key = \<lparr> gk_componentUID = ''g'', gk_instance = ''1'' \<rparr>"

definition demo_state :: "int \<Rightarrow> time \<Rightarrow> runtimeActivity" where
  "demo_state timeout since =
     \<lparr> a_siteUID = ''s'', a_autoStopEnabled = True, a_idleTimeoutSeconds = timeout, a_interactionGeneration = 0,
       a_hasPolicy = True, a_activityAfter = 100, a_idleSince = since, a_retryAt = 0 \<rparr>"

definition demo_report :: gatewayActivityReport where
  "demo_report = \<lparr> g_counts = fmempty, g_reported = 100, g_permitUntil = 100 + gatewayPermitTTL, g_connected = True \<rparr>"

definition demo_tracker :: "int \<Rightarrow> time \<Rightarrow> RuntimeActivityTracker" where
  "demo_tracker timeout since =
     \<lparr> gateways = fmupd demo_key demo_report fmempty, runtimes = fmupd ''u'' (demo_state timeout since) fmempty \<rparr>"

definition demo_world :: "time \<Rightarrow> time \<Rightarrow> idle_world" where
  "demo_world clock since = \<lparr> iw_tracker = demo_tracker 2 since, iw_clock = clock, iw_last = 0 \<rparr>"

lemma demo_lookup: "fmlookup (gateways (demo_tracker timeout since)) k = (if k = demo_key then Some demo_report else None)"
  "fmlookup (runtimes (demo_tracker timeout since)) ''u'' = Some (demo_state timeout since)"
  by (simp_all add: demo_tracker_def)

lemma demo_quiet: "now \<le> 100 + gatewayActivityTTL \<Longrightarrow> 100 \<le> now \<Longrightarrow> gateways_quiet (gateways (demo_tracker timeout since)) ''g'' ''u'' 100 now"
  by (auto simp: gateways_quiet_def demo_lookup demo_report_def demo_key_def gateway_stale_def gatewayActivityTTL_def second_def
      counter_get_def time_sub_def max_int64_def min_int64_def split: if_splits)

lemma demo_iteration: "iteration_ok (gateways (demo_tracker timeout since)) [demo_key] ''g'' ''u'' 100 now"
proof -
  have "fmdom' (gateways (demo_tracker timeout since)) = {demo_key}" by (simp add: demo_tracker_def)
  moreover have "key_sessions (gateways (demo_tracker timeout since)) ''u'' demo_key = 0"
    by (simp add: key_sessions_def demo_lookup demo_report_def counter_get_def)
  ultimately show ?thesis by (simp add: iteration_ok_def scan_total_def max_int64_def)
qed

lemma demo_counts: "counts_nonneg (demo_tracker timeout since)"
  by (auto simp: counts_nonneg_def demo_lookup demo_report_def counter_get_def split: if_splits)

lemma demo_scan:
  "100 \<le> now \<Longrightarrow> now \<le> 100 + gatewayActivityTTL \<Longrightarrow>
   scan_gateway ''g'' ''u'' 100 now demo_key
     \<lparr> sc_gateways = gateways (demo_tracker timeout since), sc_fresh = False, sc_uncertain = False, sc_sessions = 0 \<rparr> =
   \<lparr> sc_gateways = gateways (demo_tracker timeout since), sc_fresh = True, sc_uncertain = False, sc_sessions = 0 \<rparr>"
  by (simp add: scan_gateway_def demo_lookup demo_report_def demo_key_def gateway_stale_def gatewayActivityTTL_def second_def
      counter_get_def time_sub_def max_int64_def min_int64_def wrap64_def)

lemma demo_idle_reachable: "reachable idle_init (idle_step ''s'' ''u'') (demo_world (100 + 2 * second) 100)"
proof -
  let ?t0 = "\<lparr> gateways = fmempty, runtimes = fmempty \<rparr>"
  let ?t1 = "\<lparr> gateways = fmempty, runtimes = fmupd ''u'' (demo_state 2 0) fmempty \<rparr>"
  have w0: "reachable idle_init (idle_step ''s'' ''u'') \<lparr> iw_tracker = ?t0, iw_clock = 100, iw_last = 0 \<rparr>" (is "reachable _ _ ?w0")
    by (rule reach_init) (simp add: idle_init_def)
  have "ObserveSettings ''s'' ''u'' (Some \<lparr> AutoStopEnabled = True, IdleTimeoutSeconds = 2, InteractionGeneration = 0 \<rparr>)
      (iw_clock ?w0) (iw_tracker ?w0) = (None, ?t1)"
    by (simp add: ObserveSettings_def validateRuntimeSettings_def put_runtime_def applySettings_def runtimeLocked_def
        newRuntimeActivity_def demo_state_def)
  from reach_step [OF w0 id_settings [OF this]]
  have w1: "reachable idle_init (idle_step ''s'' ''u'') \<lparr> iw_tracker = ?t1, iw_clock = 100, iw_last = 0 \<rparr>" (is "reachable _ _ ?w1")
    by simp
  have "ReplaceGateway ''g'' ''1'' fmempty False (iw_clock ?w1) (iw_tracker ?w1) = (None, demo_tracker 2 0)"
    by (simp add: ReplaceGateway_def demo_tracker_def demo_key_def demo_report_def Let_def)
  from reach_step [OF w1 id_gateway [OF this]]
  have w2: "reachable idle_init (idle_step ''s'' ''u'') (demo_world 100 0)" by (simp add: demo_world_def)
  have p: "IdleRequest [demo_key] ''s'' ''u'' ''g'' True (iw_clock (demo_world 100 0)) (iw_tracker (demo_world 100 0)) = (None, demo_tracker 2 100)"
    using demo_scan [of 100 2 0] unfolding IdleRequest_def
    by (simp add: demo_world_def demo_lookup demo_state_def put_runtime_def gatewayActivityTTL_def second_def)
      (simp add: demo_tracker_def demo_state_def)
  have it: "iteration_ok (gateways (iw_tracker (demo_world 100 0))) [demo_key] ''g'' ''u'' (a_activityAfter state) (iw_clock (demo_world 100 0))"
    if "fmlookup (runtimes (iw_tracker (demo_world 100 0))) ''u'' = Some state" for state
  proof -
    have "state = demo_state 2 0" using that by (simp add: demo_world_def demo_lookup)
    then have "a_activityAfter state = 100" by (simp add: demo_state_def)
    then show ?thesis by (simp add: demo_world_def demo_iteration)
  qed
  have q: "gateways_quiet (gateways (iw_tracker (demo_world 100 0))) ''g'' ''u''
      (a_activityAfter (runtimeLocked ''s'' ''u'' (iw_tracker (demo_world 100 0)))) (iw_clock (demo_world 100 0))"
    using demo_quiet [of 100 2 0] by (simp add: demo_world_def runtimeLocked_def demo_lookup demo_state_def gatewayActivityTTL_def second_def)
  note poll = id_poll [where w = "demo_world 100 0" and u = "''u''" and order = "[demo_key]" and g = "''g''" and site = "''s''"
      and eligible = True and answer = None and t = "demo_tracker 2 100"]
  have "idle_step ''s'' ''u'' (demo_world 100 0) (demo_world 100 100)"
    using poll [OF it p] q by (simp add: demo_world_def)
  from reach_step [OF w2 this] have w3: "reachable idle_init (idle_step ''s'' ''u'') (demo_world 100 100)" .
  have "iw_clock (demo_world 100 100) \<le> 100 + 2 * second" by (simp add: demo_world_def second_def)
  from reach_step [OF w3 id_tick [OF this]] show ?thesis by (simp add: demo_world_def)
qed

theorem idle_request_exact_witness:
  "fst (IdleRequest [demo_key] ''s'' ''u'' ''g'' True (100 + 2 * second) (demo_tracker 2 100)) =
     Some \<lparr> AutoStopEnabled = True, IdleTimeoutSeconds = 2, InteractionGeneration = 0 \<rparr>"
proof -
  let ?now = "100 + 2 * second"
  have it: "iteration_ok (gateways (demo_tracker 2 100)) [demo_key] ''g'' ''u'' (a_activityAfter (demo_state 2 100)) ?now"
    using demo_iteration by (simp add: demo_state_def)
  have q: "gateways_quiet (gateways (demo_tracker 2 100)) ''g'' ''u'' 100 ?now"
    by (rule demo_quiet) (simp_all add: gatewayActivityTTL_def second_def)
  show ?thesis
    using idle_request_exact [OF demo_lookup(2) demo_counts it, of "''s''" True] q
    by (simp add: demo_state_def time_sub_def max_int64_def min_int64_def wrap64_def second_def)
qed

theorem idle_stop_only_after_quiet_witness:
  "\<exists>settings t. IdleRequest [demo_key] ''s'' ''u'' ''g'' True (iw_clock (demo_world (100 + 2 * second) 100))
       (iw_tracker (demo_world (100 + 2 * second) 100)) = (Some settings, t) \<and>
     iw_last (demo_world (100 + 2 * second) 100) + IdleTimeoutSeconds settings * second \<le> iw_clock (demo_world (100 + 2 * second) 100)"
proof -
  let ?w = "demo_world (100 + 2 * second) 100"
  have w: "iw_tracker ?w = demo_tracker 2 100" "iw_clock ?w = 100 + 2 * second" by (simp_all add: demo_world_def)
  have p: "IdleRequest [demo_key] ''s'' ''u'' ''g'' True (iw_clock ?w) (iw_tracker ?w) =
      (Some \<lparr> AutoStopEnabled = True, IdleTimeoutSeconds = 2, InteractionGeneration = 0 \<rparr>,
       put_runtime ''u'' ((demo_state 2 100)\<lparr> a_retryAt := 100 + 2 * second + idleStopRetryDelay \<rparr>) (demo_tracker 2 100))"
    using demo_scan [of "100 + 2 * second" 2 100] unfolding IdleRequest_def w demo_lookup option.case
    by (simp add: demo_state_def gatewayActivityTTL_def second_def time_sub_def max_int64_def min_int64_def wrap64_def)
  have l: "fmlookup (runtimes (iw_tracker ?w)) ''u'' = Some (demo_state 2 100)" by (simp add: w demo_lookup)
  have it: "iteration_ok (gateways (iw_tracker ?w)) [demo_key] ''g'' ''u'' (a_activityAfter (demo_state 2 100)) (iw_clock ?w)"
    using demo_iteration by (simp add: w demo_state_def)
  show ?thesis
    using idle_stop_only_after_quiet [OF demo_idle_reachable l it p] p by (auto simp: second_def max_int64_def)
qed

text \<open>The idle timeout is converted to nanoseconds without a bound. A policy of ten thousand
  million seconds passes validation, and the product wraps around to a negative duration, so that
  the stop is requested at the very moment the runtime was first seen idle.
\<close>

theorem idle_timeout_overflow:
  "validateRuntimeSettings (Some \<lparr> AutoStopEnabled = True, IdleTimeoutSeconds = 10000000000, InteractionGeneration = 0 \<rparr>)
   \<and> fst (IdleRequest [demo_key] ''s'' ''u'' ''g'' True 100 (demo_tracker 10000000000 100)) =
       Some \<lparr> AutoStopEnabled = True, IdleTimeoutSeconds = 10000000000, InteractionGeneration = 0 \<rparr>"
  using demo_scan [of 100 10000000000 100] unfolding IdleRequest_def demo_lookup option.case
  by (simp add: demo_state_def validateRuntimeSettings_def gatewayActivityTTL_def second_def time_sub_def max_int64_def
      min_int64_def wrap64_def)

end
