(* ===== verification/Endpoint_Contract.thy ===== *)
theory Endpoint_Contract
  imports Prelude
begin

text \<open>
  The endpoint contract shared by Agent, Gateway and Manager
  (\<open>internal/runtimeendpoint/endpoint.go\<close>), the endpoint id pattern of the Manager
  (\<open>internal/cluster/agent_control.go\<close>) and the workspace folder check
  (\<open>devcontainer/state.go\<close>). UTF-8 decoding, decimal and hexadecimal printing and the cleaning of
  rooted paths are written out; SHA-256 is an argument.
\<close>

section \<open>UTF-8\<close>

definition byte :: "char \<Rightarrow> nat" where
  "byte c = of_char c"

definition cont :: "char \<Rightarrow> bool" where
  "cont c \<longleftrightarrow> 0x80 \<le> byte c \<and> byte c \<le> 0xBF"

definition between :: "nat \<Rightarrow> char \<Rightarrow> nat \<Rightarrow> bool" where
  "between lo c hi \<longleftrightarrow> lo \<le> byte c \<and> byte c \<le> hi"

text \<open>The runes of a valid string, \<open>None\<close> for an invalid one (\<open>utf8.ValidString\<close>).\<close>

fun utf8_runes :: "string \<Rightarrow> nat list option" where
  "utf8_runes [] = Some []"
| "utf8_runes (a # s) =
     (if byte a < 0x80 then map_option (Cons (byte a)) (utf8_runes s)
      else case s of
        [] \<Rightarrow> None
      | b # s2 \<Rightarrow>
          if between 0xC2 a 0xDF
          then (if cont b then map_option (Cons ((byte a - 0xC0) * 64 + (byte b - 0x80))) (utf8_runes s2) else None)
          else case s2 of
            [] \<Rightarrow> None
          | c # s3 \<Rightarrow>
              if between 0xE0 a 0xEF
              then (if between (if byte a = 0xE0 then 0xA0 else 0x80) b (if byte a = 0xED then 0x9F else 0xBF) \<and> cont c
                    then map_option (Cons ((byte a - 0xE0) * 4096 + (byte b - 0x80) * 64 + (byte c - 0x80))) (utf8_runes s3)
                    else None)
              else case s3 of
                [] \<Rightarrow> None
              | d # s4 \<Rightarrow>
                  if between 0xF0 a 0xF4
                     \<and> between (if byte a = 0xF0 then 0x90 else 0x80) b (if byte a = 0xF4 then 0x8F else 0xBF) \<and> cont c \<and> cont d
                  then map_option (Cons ((byte a - 0xF0) * 262144 + (byte b - 0x80) * 4096 + (byte c - 0x80) * 64 + (byte d - 0x80)))
                         (utf8_runes s4)
                  else None)"

text \<open>The length of the UTF-8 encoding that a string starts with, 0 when it starts with none.\<close>

definition rune_width :: "string \<Rightarrow> nat" where
  "rune_width s =
     (case s of
        [] \<Rightarrow> 0
      | a # _ \<Rightarrow>
          if byte a < 0x80 then 1
          else if utf8_runes (take 2 s) \<noteq> None \<and> between 0xC2 a 0xDF \<and> length s \<ge> 2 then 2
          else if utf8_runes (take 3 s) \<noteq> None \<and> between 0xE0 a 0xEF \<and> length s \<ge> 3 then 3
          else if utf8_runes (take 4 s) \<noteq> None \<and> between 0xF0 a 0xF4 \<and> length s \<ge> 4 then 4
          else 0)"

definition IsControl :: "nat \<Rightarrow> bool" where
  "IsControl r \<longleftrightarrow> r < 0x20 \<or> (0x7F \<le> r \<and> r < 0xA0)"

section \<open>Numbers as text\<close>

definition digit :: "nat \<Rightarrow> char" where
  "digit n = ''0123456789abcdef'' ! n"

fun itoa :: "nat \<Rightarrow> string" where
  "itoa n = (if n < 10 then [digit n] else itoa (n div 10) @ [digit (n mod 10)])"

declare itoa.simps [simp del]

definition hex_byte :: "char \<Rightarrow> string" where
  "hex_byte c = [digit (byte c div 16), digit (byte c mod 16)]"

section \<open>Endpoint ids and labels\<close>

definition MaxEndpointCount :: nat where
  "MaxEndpointCount = 64"

definition MaxDeclaredEndpointCount :: nat where
  "MaxDeclaredEndpointCount = MaxEndpointCount - 1"

definition WorkspaceEndpointID :: string where
  "WorkspaceEndpointID = ''workspace''"

definition PortEndpointID :: "nat \<Rightarrow> string" where
  "PortEndpointID port = ''port-'' @ itoa port"

definition ServicePortEndpointID :: "(string \<Rightarrow> string) \<Rightarrow> string \<Rightarrow> nat \<Rightarrow> string" where
  "ServicePortEndpointID sha256 service port =
     ''port-'' @ itoa port @ ''-'' @ concat (map hex_byte (take 8 (sha256 service)))"

definition is_hex :: "char \<Rightarrow> bool" where
  "is_hex char \<longleftrightarrow> \<not> ((byte char < byte (CHR ''0'') \<or> byte char > byte (CHR ''9'')) \<and> (byte char < byte (CHR ''a'') \<or> byte char > byte (CHR ''f'')))"

definition IsPortEndpointID :: "string \<Rightarrow> nat \<Rightarrow> bool" where
  "IsPortEndpointID endpointID port \<longleftrightarrow>
     (if endpointID = PortEndpointID port then True
      else
        (let prefix = PortEndpointID port @ ''-''
         in if length endpointID \<noteq> length prefix + 16 \<or> take (length prefix) endpointID \<noteq> prefix then False
            else list_all is_hex (drop (length prefix) endpointID)))"

datatype label_error = labelRequired | labelNotUTF8 | labelTooLong | labelInvalidCharacter

definition ValidateLabel :: "string \<Rightarrow> label_error option" where
  "ValidateLabel label =
     (let label = TrimSpace label
      in if label = '''' then Some labelRequired
         else case utf8_runes label of
           None \<Rightarrow> Some labelNotUTF8
         | Some runes \<Rightarrow>
             if length runes > 64 then Some labelTooLong
             else if list_ex (\<lambda>r. IsControl r \<or> r = byte (CHR ''<'') \<or> r = byte (CHR ''>'')) runes then Some labelInvalidCharacter
             else None)"

text \<open>The pattern \<open>^[a-z0-9](?:[a-z0-9-]{0,28}[a-z0-9])?$\<close>.\<close>

definition lower_alnum :: "char \<Rightarrow> bool" where
  "lower_alnum c \<longleftrightarrow> between (byte (CHR ''a'')) c (byte (CHR ''z'')) \<or> between (byte (CHR ''0'')) c (byte (CHR ''9''))"

definition endpointIDPattern :: "string \<Rightarrow> bool" where
  "endpointIDPattern s \<longleftrightarrow>
     s \<noteq> [] \<and> lower_alnum (hd s) \<and>
     (length s = 1 \<or>
      (length s \<le> 30 \<and> list_all (\<lambda>c. lower_alnum c \<or> c = CHR ''-'') (butlast (tl s)) \<and> lower_alnum (last s)))"

section \<open>Workspace folders\<close>

fun split_slash :: "string \<Rightarrow> string \<Rightarrow> string list" where
  "split_slash acc [] = [rev acc]"
| "split_slash acc (c # s) = (if c = CHR ''/'' then rev acc # split_slash [] s else split_slash (c # acc) s)"

fun clean_segments :: "string list \<Rightarrow> string list \<Rightarrow> string list" where
  "clean_segments acc [] = rev acc"
| "clean_segments acc (seg # segs) =
     (if seg = '''' \<or> seg = ''.'' then clean_segments acc segs
      else if seg = ''..'' then clean_segments (tl acc) segs
      else clean_segments (seg # acc) segs)"

text \<open>\<open>path.Clean\<close> of a rooted path.\<close>

definition path_Clean_rooted :: "string \<Rightarrow> string" where
  "path_Clean_rooted s =
     (case clean_segments [] (split_slash [] s) of
        [] \<Rightarrow> ''/''
      | segs \<Rightarrow> concat (map (\<lambda>seg. CHR ''/'' # seg) segs))"

definition IsValidWorkspaceFolder :: "string \<Rightarrow> bool" where
  "IsValidWorkspaceFolder value \<longleftrightarrow>
     value \<noteq> '''' \<and> TrimSpace value = value \<and> length value \<le> 4096 \<and>
     (case utf8_runes value of
        None \<Rightarrow> False
      | Some runes \<Rightarrow> hd value = CHR ''/'' \<and> path_Clean_rooted value = value \<and> \<not> list_ex IsControl runes)"

section \<open>Properties\<close>

lemma digit_props:
  assumes "n < 16"
  shows "is_hex (digit n)" and "lower_alnum (digit n)" and "digit n \<noteq> CHR ''-''"
proof -
  have all: "\<forall>n < 16. is_hex (digit n) \<and> lower_alnum (digit n) \<and> digit n \<noteq> CHR ''-''" by code_simp
  show "is_hex (digit n)" "lower_alnum (digit n)" "digit n \<noteq> CHR ''-''" using all assms by blast+
qed

lemma digit_inj: "m < 10 \<Longrightarrow> n < 10 \<Longrightarrow> digit m = digit n \<Longrightarrow> m = n"
proof -
  have all: "\<forall>m < 10. \<forall>n < 10. digit m = digit n \<longrightarrow> m = n" by code_simp
  show "m < 10 \<Longrightarrow> n < 10 \<Longrightarrow> digit m = digit n \<Longrightarrow> m = n" using all by blast
qed

lemma itoa_chars: "c \<in> set (itoa n) \<Longrightarrow> lower_alnum c \<and> c \<noteq> CHR ''-''"
proof (induction n rule: itoa.induct)
  case (1 n)
  show ?case
  proof (cases "n < 10")
    case True
    then show ?thesis using 1(2) digit_props(2,3) [of n] by (simp add: itoa.simps [of n])
  next
    case False
    have "n mod 10 < 16" using mod_less_divisor [of 10 n] by linarith
    then show ?thesis using False 1 digit_props(2,3) [of "n mod 10"] by (auto simp: itoa.simps [of n])
  qed
qed

lemma itoa_nonempty [simp]: "itoa n \<noteq> []"
  by (subst itoa.simps) simp

lemma itoa_inj: "itoa m = itoa n \<Longrightarrow> m = n"
proof (induction m arbitrary: n rule: itoa.induct)
  case (1 m)
  consider "m < 10" "n < 10" | "m < 10" "\<not> n < 10" | "\<not> m < 10" "n < 10" | "\<not> m < 10" "\<not> n < 10" by blast
  then show ?case
  proof cases
    case a: 1
    then show ?thesis using 1(2) digit_inj by (simp add: itoa.simps [of m] itoa.simps [of n])
  next
    case 2
    then show ?thesis using 1(2) by (simp add: itoa.simps [of m] itoa.simps [of n] Cons_eq_append_conv)
  next
    case 3
    then show ?thesis using 1(2) by (simp add: itoa.simps [of m] itoa.simps [of n] append_eq_Cons_conv)
  next
    case 4
    then have "itoa (m div 10) = itoa (n div 10)" "digit (m mod 10) = digit (n mod 10)"
      using 1(2) by (simp_all add: itoa.simps [of m] itoa.simps [of n])
    then have "m div 10 = n div 10" "m mod 10 = n mod 10" using 1(1) [OF 4(1)] digit_inj by simp_all
    then show ?thesis by (metis div_mult_mod_eq)
  qed
qed

lemma itoa_length: "n < 10 ^ k \<Longrightarrow> 0 < k \<Longrightarrow> length (itoa n) \<le> k"
proof (induction n arbitrary: k rule: itoa.induct)
  case (1 n)
  show ?case
  proof (cases "n < 10")
    case True
    then show ?thesis using 1(3) by (simp add: itoa.simps [of n])
  next
    case False
    then obtain j where j: "k = Suc j" "0 < j" using 1(2,3) by (cases k; cases "k - 1") auto
    have "n div 10 < 10 ^ j" using 1(2) j by (simp add: div_less_iff_less_mult mult.commute)
    then show ?thesis using 1(1) [OF False _ j(2)] False j(1) by (simp add: itoa.simps [of n])
  qed
qed

lemma hex_byte_props: "length (hex_byte c) = 2" "list_all is_hex (hex_byte c)" "list_all lower_alnum (hex_byte c)"
proof -
  have b: "byte c < 256" by (simp add: byte_def)
  then have d: "byte c div 16 < 16" "byte c mod 16 < 16" by (simp_all add: div_less_iff_less_mult)
  show "length (hex_byte c) = 2" "list_all is_hex (hex_byte c)" "list_all lower_alnum (hex_byte c)"
    using digit_props [OF d(1)] digit_props [OF d(2)] by (simp_all add: hex_byte_def)
qed

lemma hex_bytes_props:
  "length (concat (map hex_byte bs)) = 2 * length bs" "list_all is_hex (concat (map hex_byte bs))"
  "list_all lower_alnum (concat (map hex_byte bs))"
  by (induction bs) (simp_all add: hex_byte_props)

text \<open>Splitting at the first dash after a number is unique.\<close>

lemma dash_split:
  assumes "\<forall>c \<in> set a. c \<noteq> d" and "\<forall>c \<in> set b. c \<noteq> d" and "a @ d # x = b @ d # y"
  shows "a = b"
  using assms
proof (induction a arbitrary: b)
  case Nil
  then show ?case by (cases b) auto
next
  case (Cons p a)
  then show ?case by (cases b) auto
qed

text \<open>Endpoint ids and ports determine each other. A generated id (for a declared port and for a
  port of a Compose service) is recognised for its port, matches the pattern that the Manager
  demands of endpoint ids, and is recognised for no other port.
\<close>

theorem endpoint_id_port:
  assumes "length (sha256 service) = 32" and "port \<le> 65535"
  shows "IsPortEndpointID (PortEndpointID port) port \<and> endpointIDPattern (PortEndpointID port)
    \<and> IsPortEndpointID (ServicePortEndpointID sha256 service port) port
    \<and> endpointIDPattern (ServicePortEndpointID sha256 service port)
    \<and> (IsPortEndpointID i p \<longrightarrow> IsPortEndpointID i q \<longrightarrow> p = q)"
proof -
  obtain hex where h: "concat (map hex_byte (take 8 (sha256 service))) = hex" by blast
  have hex: "length hex = 16" "list_all is_hex hex" "list_all lower_alnum hex"
    using assms(1) hex_bytes_props [of "take 8 (sha256 service)"] unfolding h by simp_all
  have len: "length (itoa port) \<le> 5" using itoa_length [of port 5] assms(2) by simp
  have num: "list_all lower_alnum (itoa port)" "lower_alnum (last (itoa port))"
    using itoa_chars [of _ port] last_in_set [OF itoa_nonempty] by (auto simp: list_all_iff)
  have p: "lower_alnum (CHR ''p'')" "list_all (\<lambda>c. lower_alnum c \<or> c = CHR ''-'') ''ort-''" by code_simp+
  have bl: "list_all (\<lambda>c. lower_alnum c \<or> c = CHR ''-'') (butlast (itoa port))" "list_all (\<lambda>c. lower_alnum c \<or> c = CHR ''-'') (itoa port)"
    using num(1) by (auto simp: list_all_iff dest: in_set_butlastD)
  have hne: "hex \<noteq> []" using hex(1) by auto
  have hb: "list_all (\<lambda>c. lower_alnum c \<or> c = CHR ''-'') (butlast hex)" "lower_alnum (last hex)"
    using hex(3) last_in_set [OF hne] by (auto simp: list_all_iff dest!: in_set_butlastD)
  have 1: "IsPortEndpointID (PortEndpointID port) port" by (simp add: IsPortEndpointID_def)
  have 2: "endpointIDPattern (PortEndpointID port)"
    using len num p bl by (simp add: endpointIDPattern_def PortEndpointID_def butlast_append)
  have 3: "IsPortEndpointID (ServicePortEndpointID sha256 service port) port"
    using hex(1,2) by (simp add: IsPortEndpointID_def ServicePortEndpointID_def PortEndpointID_def Let_def h)
  have 4: "endpointIDPattern (ServicePortEndpointID sha256 service port)"
    using len hex(1) p bl(2) hb hne
    by (simp add: endpointIDPattern_def ServicePortEndpointID_def butlast_append list_all_append h)
  have shape: "i = PortEndpointID r \<or> (\<exists>h. i = PortEndpointID r @ CHR ''-'' # h)" if "IsPortEndpointID i r" for r
  proof (cases "i = PortEndpointID r")
    case False
    then have "take (length (PortEndpointID r @ ''-'')) i = PortEndpointID r @ ''-''"
      using that by (auto simp: IsPortEndpointID_def Let_def split: if_splits)
    then show ?thesis by (metis append_take_drop_id append_Cons append_Nil append.assoc)
  qed simp
  have nodash: "\<forall>c \<in> set (itoa r). c \<noteq> CHR ''-''" for r using itoa_chars by blast
  have "p = q" if "IsPortEndpointID i p" "IsPortEndpointID i q"
  proof -
    have mixed: "itoa r \<noteq> itoa s @ CHR ''-'' # h" for r s h
    proof
      assume "itoa r = itoa s @ CHR ''-'' # h"
      then have "set (itoa r) = set (itoa s @ CHR ''-'' # h)" by (rule arg_cong)
      then have "CHR ''-'' \<in> set (itoa r)" by simp
      with nodash [of r] show False by blast
    qed
    from shape [OF that(1)] shape [OF that(2)] have "itoa p = itoa q"
    proof (elim disjE exE)
      fix h h'
      assume "i = PortEndpointID p @ CHR ''-'' # h" "i = PortEndpointID q @ CHR ''-'' # h'"
      then have "itoa p @ CHR ''-'' # h = itoa q @ CHR ''-'' # h'" by (simp add: PortEndpointID_def)
      then show ?thesis by (rule dash_split [OF nodash nodash])
    qed (use mixed mixed [symmetric] in \<open>auto simp: PortEndpointID_def\<close>)
    then show ?thesis by (rule itoa_inj)
  qed
  with 1 2 3 4 show ?thesis by blast
qed

theorem endpoint_id_port_witness:
  "endpointIDPattern (ServicePortEndpointID (\<lambda>s. replicate 32 (CHR ''z'')) ''db'' 5432)"
  by (rule endpoint_id_port [THEN conjunct2, THEN conjunct2, THEN conjunct2, THEN conjunct1]) simp_all

end
