(* ===== verification/Operation_Log.thy ===== *)
theory Operation_Log
  imports Journal
begin

text \<open>
  The operation log of the Runtime Agent (\<open>internal/agent/log.go\<close>): batches of redacted lines are
  stored in a spool file before they are sent, and the byte offset of the remote log advances only
  with an acknowledgement. The spool file is its bytes; the checkpoint file is decoded or not, as the
  execution record of the journal is. The protobuf encoding of a batch is generated code and a
  parameter (\<open>log_codec\<close>). Which system calls fail, how much of a failing write reaches the file and
  what the remote side answers are arguments. \<open>Flush\<close> is split where it leaves the mutex to send a
  batch, so that appends can run there. A crash is one of the process: what was written stays.
\<close>

section \<open>Data\<close>

record LogLine =
  ll_TimestampUnixNano :: int
  ll_Message :: string

record UploadLogsRequest =
  ur_ProtocolVersion :: int
  ur_OperationRversion :: int
  ur_Offset :: int
  ur_Lines :: "LogLine option list"

record UploadLogsResponse =
  up_NextOffset :: int
  up_Closed :: bool

record logCheckpoint =
  cp_Position :: int
  cp_Offset :: int
  cp_Closed :: bool

record OperationLog =
  ol_version :: int
  ol_checkpoint :: logCheckpoint
  ol_size :: int
  ol_full :: bool

datatype checkpoint_file = CpAbsent | CpUndecodable | CpPresent logCheckpoint

record spool =
  sp_file :: string
  sp_checkpoint :: checkpoint_file

record log_codec =
  pb_Marshal :: "UploadLogsRequest \<Rightarrow> string option"
  pb_Unmarshal :: "string \<Rightarrow> UploadLogsRequest option"
  pb_Size :: "UploadLogsRequest \<Rightarrow> int"

datatype log_error =
    invalidPruneVersion
  | logIoError
  | invalidLogIdentity
  | invalidLogFile
  | logHasWriter
  | noOffsetCheckpoint
  | checkpointUndecodable
  | invalidCheckpoint
  | batchTooLarge
  | invalidLogLine
  | marshalFailed
  | ErrLogFull
  | logContextError
  | headerUnreadable
  | batchCorrupt
  | unmarshalFailed
  | batchIdentityChanged
  | uploadFailed
  | invalidAcknowledgement

datatype log_call = OpenSpool | StatSpool | SpoolMode | FlockSpool | ReadCheckpoint

datatype write_outcome = WriteOk | WriteTorn nat | SyncFailed

definition maxLogBatchBytes :: int where
  "maxLogBatchBytes = 256 * 1024"

definition maxLogFileBytes :: int where
  "maxLogFileBytes = 32 * 1024 * 1024"

definition truncation_message :: string where
  "truncation_message = ''[operation output truncated: local log capacity reached]''"

section \<open>Bytes of a file\<close>

definition WriteAt :: "string \<Rightarrow> nat \<Rightarrow> string \<Rightarrow> string" where
  "WriteAt file pos data =
     take pos (file @ replicate (pos - length file) (CHR 0x00)) @ data @ drop (pos + length data) file"

definition ReadAt :: "string \<Rightarrow> nat \<Rightarrow> nat \<Rightarrow> string option" where
  "ReadAt file pos n = (if pos + n \<le> length file then Some (take n (drop pos file)) else None)"

definition PutUint32 :: "nat \<Rightarrow> string" where
  "PutUint32 n = map char_of [n div 2 ^ 24, n div 2 ^ 16, n div 2 ^ 8, n]"

definition Uint32 :: "string \<Rightarrow> nat" where
  "Uint32 bs = foldl (\<lambda>acc c. acc * 256 + of_char c) 0 bs"

definition frame :: "string \<Rightarrow> string" where
  "frame data = PutUint32 (length data mod 2 ^ 32) @ data"

section \<open>Pruning\<close>

fun cut_at :: "char \<Rightarrow> string \<Rightarrow> string \<times> string \<times> bool" where
  "cut_at sep [] = ([], [], False)"
| "cut_at sep (c # s) =
     (if c = sep then ([], s, True) else (case cut_at sep s of (a, b, found) \<Rightarrow> (c # a, b, found)))"

definition is_digit :: "char \<Rightarrow> bool" where
  "is_digit c \<longleftrightarrow> 48 \<le> (of_char c :: nat) \<and> (of_char c :: nat) \<le> 57"

definition decimal :: "string \<Rightarrow> int" where
  "decimal s = foldl (\<lambda>acc c. acc * 10 + (int (of_char c) - 48)) 0 s"

text \<open>\<open>strconv.ParseInt(s, 10, 64)\<close>: an optional sign and decimal digits, within the range of \<open>int64\<close>.\<close>

definition ParseInt :: "string \<Rightarrow> int option" where
  "ParseInt s =
     (let neg = (s \<noteq> [] \<and> hd s = CHR ''-'');
          digits = (if s \<noteq> [] \<and> (hd s = CHR ''-'' \<or> hd s = CHR ''+'') then tl s else s);
          v = (if neg then - decimal digits else decimal digits)
      in if digits = [] \<or> \<not> list_all is_digit digits \<or> \<not> in_int64 v then None else Some v)"

record dir_entry =
  de_Name :: string
  de_IsDir :: bool

datatype remove_outcome = Removed | AlreadyMissing | RemoveFailed

datatype prune_call = OpenLogs | ReadLogs | SyncLogs

definition retired :: "int \<Rightarrow> dir_entry \<Rightarrow> bool" where
  "retired version entry =
     (case cut_at (CHR ''.'') (de_Name entry) of (name, suffix, ok) \<Rightarrow>
        (case ParseInt name of
           None \<Rightarrow> False
         | Some previous \<Rightarrow>
             \<not> (\<not> ok \<or> previous \<le> 0 \<or> previous \<ge> version
                 \<or> (suffix \<noteq> ''pb'' \<and> suffix \<noteq> ''json'') \<or> de_IsDir entry)))"

text \<open>The entries that stay, and whether a removal failed.\<close>

fun prune_entries :: "(string \<Rightarrow> remove_outcome) \<Rightarrow> int \<Rightarrow> dir_entry list \<Rightarrow> bool \<times> dir_entry list" where
  "prune_entries remove version [] = (True, [])"
| "prune_entries remove version (entry # entries) =
     (if \<not> retired version entry
      then (case prune_entries remove version entries of (ok, rest) \<Rightarrow> (ok, entry # rest))
      else if remove (de_Name entry) = RemoveFailed then (False, entry # entries)
      else prune_entries remove version entries)"

definition PruneLogs ::
    "(prune_call \<Rightarrow> bool) \<Rightarrow> (string \<Rightarrow> remove_outcome) \<Rightarrow> int \<Rightarrow> dir_entry list \<Rightarrow> log_error option \<times> dir_entry list" where
  "PruneLogs fails remove version entries =
     (if version \<le> 0 then (Some invalidPruneVersion, entries)
      else if fails OpenLogs \<or> fails ReadLogs then (Some logIoError, entries)
      else
        (let (ok, rest) = prune_entries remove version entries
         in if \<not> ok \<or> fails SyncLogs then (Some logIoError, rest) else (None, rest)))"

section \<open>Opening\<close>

definition OpenOperationLog ::
    "(log_call \<Rightarrow> bool) \<Rightarrow> save_outcome \<Rightarrow> Journal option \<Rightarrow> int \<Rightarrow> int \<Rightarrow> spool
      \<Rightarrow> (log_error + OperationLog) \<times> spool" where
  "OpenOperationLog fails out journal version initialOffset sp =
     (if journal = None \<or> version \<le> 0 \<or> initialOffset < 0 then (Inl invalidLogIdentity, sp)
      else if fails OpenSpool \<or> fails StatSpool then (Inl logIoError, sp)
      else if fails SpoolMode \<or> int (length (sp_file sp)) > maxLogFileBytes then (Inl invalidLogFile, sp)
      else if fails FlockSpool then (Inl logHasWriter, sp)
      else if fails ReadCheckpoint then (Inl logIoError, sp)
      else
        (let size = int (length (sp_file sp));
             log = (\<lambda>cp. \<lparr> ol_version = version, ol_checkpoint = cp, ol_size = size, ol_full = False \<rparr>);
             check = (\<lambda>cp. if cp_Position cp < 0 \<or> cp_Position cp > size \<or> cp_Offset cp < 0
                           then Inl invalidCheckpoint else Inr (log cp))
         in case sp_checkpoint sp of
              CpAbsent \<Rightarrow>
                if size \<noteq> 0 then (Inl noOffsetCheckpoint, sp)
                else
                  (let cp = \<lparr> cp_Position = 0, cp_Offset = initialOffset, cp_Closed = False \<rparr>
                   in case out of
                        SaveOk \<Rightarrow> (check cp, sp\<lparr> sp_checkpoint := CpPresent cp \<rparr>)
                      | SaveFailedBefore \<Rightarrow> (Inl logIoError, sp)
                      | SaveFailedAfter \<Rightarrow> (Inl logIoError, sp\<lparr> sp_checkpoint := CpPresent cp \<rparr>))
            | CpUndecodable \<Rightarrow> (Inl checkpointUndecodable, sp)
            | CpPresent cp \<Rightarrow> (check cp, sp)))"

section \<open>Appending\<close>

definition new_batch :: "OperationLog \<Rightarrow> LogLine option list \<Rightarrow> UploadLogsRequest" where
  "new_batch log lines =
     \<lparr> ur_ProtocolVersion = 1, ur_OperationRversion = ol_version log, ur_Offset = 0, ur_Lines = lines \<rparr>"

definition line_valid :: "LogLine option \<Rightarrow> bool" where
  "line_valid line = (case line of None \<Rightarrow> False | Some l \<Rightarrow> ll_TimestampUnixNano l > 0)"

text \<open>\<open>WriteAt\<close>, \<open>Sync\<close> and the advance of the size; a failing write leaves some of its bytes behind.\<close>

definition append_write ::
    "write_outcome \<Rightarrow> string \<Rightarrow> OperationLog \<Rightarrow> spool \<Rightarrow> log_error option \<times> OperationLog \<times> spool" where
  "append_write out rec log sp =
     (case out of
        WriteTorn n \<Rightarrow>
          (Some logIoError, log, sp\<lparr> sp_file := WriteAt (sp_file sp) (nat (ol_size log)) (take n rec) \<rparr>)
      | SyncFailed \<Rightarrow>
          (Some logIoError, log, sp\<lparr> sp_file := WriteAt (sp_file sp) (nat (ol_size log)) rec \<rparr>)
      | WriteOk \<Rightarrow>
          (if ol_full log then Some ErrLogFull else None,
           log\<lparr> ol_size := ol_size log + int (length rec) \<rparr>,
           sp\<lparr> sp_file := WriteAt (sp_file sp) (nat (ol_size log)) rec \<rparr>))"

definition log_Append ::
    "log_codec \<Rightarrow> int \<Rightarrow> write_outcome \<Rightarrow> LogLine option list \<Rightarrow> OperationLog \<Rightarrow> spool
      \<Rightarrow> log_error option \<times> OperationLog \<times> spool" where
  "log_Append pb now out lines log sp =
     (if lines = [] then (None, log, sp)
      else if pb_Size pb (new_batch log lines) > maxLogBatchBytes then (Some batchTooLarge, log, sp)
      else if \<not> list_all line_valid lines then (Some invalidLogLine, log, sp)
      else case pb_Marshal pb (new_batch log lines) of
        None \<Rightarrow> (Some marshalFailed, log, sp)
      | Some data \<Rightarrow>
          if cp_Closed (ol_checkpoint log) then (None, log, sp)
          else if ol_full log then (Some ErrLogFull, log, sp)
          else if ol_size log + int (length (frame data)) > maxLogFileBytes - 1024 then
            (case pb_Marshal pb (new_batch log [Some \<lparr> ll_TimestampUnixNano = now, ll_Message = truncation_message \<rparr>]) of
               None \<Rightarrow> (Some marshalFailed, log, sp)
             | Some data \<Rightarrow>
                 if ol_size log + int (length (frame data)) > maxLogFileBytes
                 then (Some ErrLogFull, log\<lparr> ol_full := True \<rparr>, sp)
                 else append_write out (frame data) (log\<lparr> ol_full := True \<rparr>) sp)
          else append_write out (frame data) log sp)"

section \<open>Flushing\<close>

record flush_env =
  fe_ctx_err :: bool
  fe_header_fails :: bool
  fe_data_fails :: bool
  fe_reply :: "UploadLogsResponse option"
  fe_save :: save_outcome
  fe_appends :: "(int \<times> write_outcome \<times> LogLine option list) list"

text \<open>The saved batch at a position, with the length of its encoding.\<close>

definition read_batch ::
    "log_codec \<Rightarrow> bool \<Rightarrow> bool \<Rightarrow> int \<Rightarrow> string \<Rightarrow> int \<Rightarrow> int \<Rightarrow> log_error + (int \<times> UploadLogsRequest)" where
  "read_batch pb header_fails data_fails version file fileSize pos =
     (case ReadAt file (nat pos) 4 of
        None \<Rightarrow> Inl headerUnreadable
      | Some header \<Rightarrow>
          if header_fails then Inl headerUnreadable
          else
            (let size = int (Uint32 header)
             in if size = 0 \<or> size > maxLogBatchBytes \<or> size > fileSize - pos - 4 then Inl batchCorrupt
                else case ReadAt file (nat (pos + 4)) (nat size) of
                  None \<Rightarrow> Inl logIoError
                | Some data \<Rightarrow>
                    if data_fails then Inl logIoError
                    else case pb_Unmarshal pb data of
                      None \<Rightarrow> Inl unmarshalFailed
                    | Some batch \<Rightarrow>
                        if ur_ProtocolVersion batch \<noteq> 1 \<or> ur_OperationRversion batch \<noteq> version
                           \<or> ur_Lines batch = [] \<or> ur_Offset batch \<noteq> 0
                        then Inl batchIdentityChanged else Inr (size, batch)))"

text \<open>
  One round of the loop up to the upload: \<open>FlushReturn\<close> is a return (\<open>None\<close> is nil), \<open>FlushUpload\<close>
  carries the request, the checkpoint that was read and the length of the batch.
\<close>

datatype flush_entry =
    FlushReturn "log_error option"
  | FlushUpload UploadLogsRequest logCheckpoint int

definition flush_prepare :: "log_codec \<Rightarrow> flush_env \<Rightarrow> OperationLog \<Rightarrow> spool \<Rightarrow> flush_entry" where
  "flush_prepare pb env log sp =
     (let checkpoint = ol_checkpoint log; fileSize = ol_size log
      in if cp_Closed checkpoint \<or> cp_Position checkpoint = fileSize then FlushReturn None
         else if fe_ctx_err env then FlushReturn (Some logContextError)
         else case read_batch pb (fe_header_fails env) (fe_data_fails env) (ol_version log) (sp_file sp)
                     fileSize (cp_Position checkpoint) of
           Inl e \<Rightarrow> FlushReturn (Some e)
         | Inr (n, batch) \<Rightarrow> FlushUpload (batch\<lparr> ur_Offset := cp_Offset checkpoint \<rparr>) checkpoint n)"

definition flush_ack ::
    "UploadLogsResponse option \<Rightarrow> save_outcome \<Rightarrow> logCheckpoint \<Rightarrow> int \<Rightarrow> OperationLog \<Rightarrow> spool
      \<Rightarrow> log_error option \<times> OperationLog \<times> spool" where
  "flush_ack reply out checkpoint n log sp =
     (case reply of
        None \<Rightarrow> (Some uploadFailed, log, sp)
      | Some response \<Rightarrow>
          if up_NextOffset response < cp_Offset checkpoint
             \<or> (\<not> up_Closed response \<and> up_NextOffset response = cp_Offset checkpoint)
             \<or> (up_Closed response \<and> up_NextOffset response \<noteq> cp_Offset checkpoint)
          then (Some invalidAcknowledgement, log, sp)
          else
            (let next_cp = \<lparr> cp_Position = cp_Position checkpoint + 4 + n,
                             cp_Offset = up_NextOffset response, cp_Closed = up_Closed response \<rparr>
             in case out of
                  SaveOk \<Rightarrow> (None, log\<lparr> ol_checkpoint := next_cp \<rparr>, sp\<lparr> sp_checkpoint := CpPresent next_cp \<rparr>)
                | SaveFailedBefore \<Rightarrow> (Some logIoError, log, sp)
                | SaveFailedAfter \<Rightarrow> (Some logIoError, log, sp\<lparr> sp_checkpoint := CpPresent next_cp \<rparr>)))"

fun run_appends ::
    "log_codec \<Rightarrow> (int \<times> write_outcome \<times> LogLine option list) list \<Rightarrow> OperationLog \<Rightarrow> spool
      \<Rightarrow> OperationLog \<times> spool" where
  "run_appends pb [] log sp = (log, sp)"
| "run_appends pb ((now, out, lines) # as) log sp =
     (case log_Append pb now out lines log sp of (_, log, sp) \<Rightarrow> run_appends pb as log sp)"

text \<open>
  The loop. \<open>env k\<close> is what the environment does in round \<open>k\<close>; the requests that were sent are
  collected. The loop may not end for an arbitrary log, hence the option type.
\<close>

partial_function (option) Flush ::
    "log_codec \<Rightarrow> (nat \<Rightarrow> flush_env) \<Rightarrow> nat \<Rightarrow> UploadLogsRequest list \<Rightarrow> OperationLog \<Rightarrow> spool
      \<Rightarrow> (log_error option \<times> UploadLogsRequest list \<times> OperationLog \<times> spool) option" where
  "Flush pb env k sent log sp =
     (case flush_prepare pb (env k) log sp of
        FlushReturn r \<Rightarrow> Some (r, sent, log, sp)
      | FlushUpload request checkpoint n \<Rightarrow>
          (case run_appends pb (fe_appends (env k)) log sp of
             (log, sp) \<Rightarrow>
               (case flush_ack (fe_reply (env k)) (fe_save (env k)) checkpoint n log sp of
                  (Some e, log, sp) \<Rightarrow> Some (Some e, sent @ [request], log, sp)
                | (None, log, sp) \<Rightarrow> Flush pb env (Suc k) (sent @ [request]) log sp)))"

end
