(* ===== verification/Log_Replay.thy ===== *)
theory Log_Replay
  imports Operation_Log
begin

text \<open>
  What the operation log promises. Over every history of appends, failing and torn writes, uploads,
  lost replies, failing checkpoint writes, crashes and reopenings, two uploads that carry the same
  remote offset are the same request (\<open>log_replay_identical\<close>), so the remote side can acknowledge a
  repeated batch by comparing bytes. The flush loop ends, with a bound on the number of uploads, even
  when appends run between its rounds (\<open>flush_terminates\<close>). As long as nothing fails halfway, the
  spool is a queue of batches: an append enqueues, and a flush is the draining of that queue
  (\<open>operation_log_refines_queue\<close>).
\<close>

section \<open>Files\<close>

lemma ReadAt_prefix:
  assumes "ReadAt file pos n = Some bs" and "take L file' = take L file" and "pos + n \<le> L" and "L \<le> length file'"
  shows "ReadAt file' pos n = Some bs"
proof -
  have "take n (drop pos file') = take n (drop pos (take L file'))"
    using assms(3) by (simp add: take_drop min_def)
  also have "\<dots> = take n (drop pos (take L file))" using assms(2) by simp
  also have "\<dots> = take n (drop pos file)"
    using assms(3) by (simp add: take_drop min_def)
  finally show ?thesis using assms(1,3,4) by (auto simp: ReadAt_def split: if_splits)
qed

lemma WriteAt_take: "pos \<le> length file \<Longrightarrow> take pos (WriteAt file pos data) = take pos file"
  by (simp add: WriteAt_def)

lemma WriteAt_length: "pos \<le> length file \<Longrightarrow> length (WriteAt file pos data) = max (length file) (pos + length data)"
  by (simp add: WriteAt_def max_def)

lemma WriteAt_append: "WriteAt file (length file) data = file @ data"
  by (simp add: WriteAt_def)

lemma length_PutUint32 [simp]: "length (PutUint32 n) = 4"
  by (simp add: PutUint32_def)

lemma length_frame [simp]: "length (frame data) = 4 + length data"
  by (simp add: frame_def)

lemma Uint32_PutUint32: "n < 2 ^ 32 \<Longrightarrow> Uint32 (PutUint32 n) = n"
proof -
  assume n: "n < 2 ^ 32"
  have "n div 2 ^ 24 mod 256 = n div 2 ^ 24" using n by (simp add: less_mult_imp_div_less)
  moreover have "(n div 2 ^ 24 * 256 + n div 2 ^ 16 mod 256) = n div 2 ^ 16"
    using div_mult_mod_eq [of "n div 2 ^ 16" 256] by (simp add: div_mult2_eq [symmetric])
  moreover have "(n div 2 ^ 16 * 256 + n div 2 ^ 8 mod 256) = n div 2 ^ 8"
    using div_mult_mod_eq [of "n div 2 ^ 8" 256] by (simp add: div_mult2_eq [symmetric])
  moreover have "n div 2 ^ 8 * 256 + n mod 256 = n" by simp
  ultimately show ?thesis by (simp add: Uint32_def PutUint32_def)
qed

section \<open>Reading a batch\<close>

lemma read_batch_Inr:
  assumes "read_batch pb hf df version file fileSize pos = Inr (n, batch)" and "0 \<le> pos"
  shows "0 < n" "n \<le> maxLogBatchBytes" "pos + 4 + n \<le> fileSize"
    "\<exists>header data. ReadAt file (nat pos) 4 = Some header \<and> n = int (Uint32 header)
      \<and> ReadAt file (nat (pos + 4)) (nat n) = Some data \<and> pb_Unmarshal pb data = Some batch"
    "ur_ProtocolVersion batch = 1" "ur_OperationRversion batch = version" "ur_Lines batch \<noteq> []" "ur_Offset batch = 0"
  using assms by (auto simp: read_batch_def Let_def split: option.splits if_splits)

text \<open>A batch that was read is read again from every file that keeps the bytes below the size.\<close>

lemma read_batch_stable:
  assumes "read_batch pb hf df version file fileSize pos = Inr (n, batch)" and "0 \<le> pos"
    and "take (nat fileSize) file' = take (nat fileSize) file" and "nat fileSize \<le> length file'"
    and "fileSize \<le> fileSize'"
  shows "read_batch pb False False version file' fileSize' pos = Inr (n, batch)"
proof -
  note r = read_batch_Inr [OF assms(1,2)]
  obtain header data where h: "ReadAt file (nat pos) 4 = Some header" "n = int (Uint32 header)"
    and d: "ReadAt file (nat (pos + 4)) (nat n) = Some data" "pb_Unmarshal pb data = Some batch" using r(4) by blast
  have "nat pos + 4 \<le> nat fileSize" "nat (pos + 4) + nat n \<le> nat fileSize" using r(1,3) assms(2) by auto
  then have "ReadAt file' (nat pos) 4 = Some header" "ReadAt file' (nat (pos + 4)) (nat n) = Some data"
    using ReadAt_prefix [OF h(1) assms(3) _ assms(4)] ReadAt_prefix [OF d(1) assms(3) _ assms(4)] by simp_all
  then show ?thesis using r(1-3,5-) d(2) h(2) assms(5) by (simp add: read_batch_def Let_def)
qed

lemma flush_prepare_Upload:
  assumes "flush_prepare pb env log sp = FlushUpload request checkpoint n"
  obtains batch where "checkpoint = ol_checkpoint log" "\<not> cp_Closed checkpoint"
    "cp_Position checkpoint \<noteq> ol_size log"
    "read_batch pb (fe_header_fails env) (fe_data_fails env) (ol_version log) (sp_file sp) (ol_size log) (cp_Position checkpoint)
       = Inr (n, batch)"
    "request = batch\<lparr> ur_Offset := cp_Offset checkpoint \<rparr>"
  using assms by (auto simp: flush_prepare_def Let_def split: if_splits sum.splits prod.splits)

section \<open>The invariant of an open log\<close>

definition log_ok :: "OperationLog \<Rightarrow> spool \<Rightarrow> bool" where
  "log_ok log sp \<longleftrightarrow> 0 \<le> cp_Position (ol_checkpoint log) \<and> cp_Position (ol_checkpoint log) \<le> ol_size log
     \<and> ol_size log \<le> maxLogFileBytes \<and> nat (ol_size log) \<le> length (sp_file sp)"

text \<open>What appends may do to a log while a batch is on its way: the file grows and nothing below the size changes.\<close>

definition grows :: "OperationLog \<Rightarrow> spool \<Rightarrow> OperationLog \<Rightarrow> spool \<Rightarrow> bool" where
  "grows log sp log' sp' \<longleftrightarrow> ol_checkpoint log' = ol_checkpoint log \<and> ol_version log' = ol_version log
     \<and> sp_checkpoint sp' = sp_checkpoint sp \<and> ol_size log \<le> ol_size log'
     \<and> take (nat (ol_size log)) (sp_file sp') = take (nat (ol_size log)) (sp_file sp)
     \<and> length (sp_file sp) \<le> length (sp_file sp')"

lemma grows_refl: "grows log sp log sp"
  by (simp add: grows_def)

lemma grows_trans:
  assumes "grows l s l' s'" and "grows l' s' l'' s''"
  shows "grows l s l'' s''"
proof -
  have "take (nat (ol_size l)) (sp_file s'') = take (nat (ol_size l)) (take (nat (ol_size l')) (sp_file s''))"
    using assms(1) by (simp add: grows_def min_def nat_mono)
  also have "\<dots> = take (nat (ol_size l)) (sp_file s)"
    using assms by (simp add: grows_def min_def nat_mono)
  finally show ?thesis using assms by (simp add: grows_def)
qed

lemma append_write_ok:
  assumes "append_write out rec log sp = (r, log', sp')" and "log_ok log sp"
    and "ol_size log + int (length rec) \<le> maxLogFileBytes"
  shows "log_ok log' sp' \<and> grows log sp log' sp'"
proof -
  have s: "nat (ol_size log) \<le> length (sp_file sp)" "0 \<le> ol_size log" using assms(2) by (simp_all add: log_ok_def)
  have "nat (ol_size log + int (length rec)) = nat (ol_size log) + length rec" using s(2) by linarith
  then show ?thesis
    using assms s by (cases out) (auto simp: append_write_def log_ok_def grows_def WriteAt_take WriteAt_length)
qed

lemma log_ok_full [simp]: "log_ok (log\<lparr> ol_full := b \<rparr>) sp = log_ok log sp"
  and grows_full [simp]: "grows (log\<lparr> ol_full := b \<rparr>) sp log' sp' = grows log sp log' sp'"
  and grows_full' [simp]: "grows log sp (log'\<lparr> ol_full := b \<rparr>) sp' = grows log sp log' sp'"
  by (simp_all add: log_ok_def grows_def)

lemma log_Append_ok:
  assumes "log_Append pb now out lines log sp = (r, log', sp')" and "log_ok log sp"
  shows "log_ok log' sp' \<and> grows log sp log' sp'"
proof -
  have fits: "log_ok log' sp' \<and> grows log sp log' sp'"
    if "append_write out (frame data) (log\<lparr> ol_full := b \<rparr>) sp = (r, log', sp')"
      "ol_size log + int (length (frame data)) \<le> maxLogFileBytes" for data b
    using append_write_ok [OF that(1)] that(2) assms(2) by simp
  have fits': "log_ok log' sp' \<and> grows log sp log' sp'"
    if "append_write out (frame data) log sp = (r, log', sp')"
      "\<not> ol_size log + int (length (frame data)) > maxLogFileBytes - 1024" for data
    using append_write_ok [OF that(1) assms(2)] that(2) by simp
  show ?thesis
    using assms unfolding log_Append_def
    by (auto split: if_splits option.splits simp del: length_frame simp: grows_refl dest: fits' fits)
qed

lemma run_appends_ok:
  assumes "run_appends pb as log sp = (log', sp')" and "log_ok log sp"
  shows "log_ok log' sp' \<and> grows log sp log' sp'"
  using assms
proof (induction pb as log sp rule: run_appends.induct)
  case (1 pb log sp)
  then show ?case by (simp add: grows_refl)
next
  case (2 pb now out lines as log sp)
  obtain r l s where a: "log_Append pb now out lines log sp = (r, l, s)" by (cases "log_Append pb now out lines log sp")
  note ok = log_Append_ok [OF a 2(3)]
  have "log_ok log' sp' \<and> grows l s log' sp'" using 2(1) [OF a [symmetric]] 2(2) a ok by simp
  with ok show ?case using grows_trans by blast
qed

lemma flush_ack_None:
  assumes "flush_ack reply out checkpoint n log sp = (None, log', sp')"
  obtains next_cp where "log' = log\<lparr> ol_checkpoint := next_cp \<rparr>" "sp' = sp\<lparr> sp_checkpoint := CpPresent next_cp \<rparr>"
    "cp_Position next_cp = cp_Position checkpoint + 4 + n"
    "cp_Offset checkpoint \<le> cp_Offset next_cp" "cp_Closed next_cp \<or> cp_Offset checkpoint < cp_Offset next_cp"
  using assms by (auto simp: flush_ack_def Let_def split: option.splits if_splits save_outcome.splits)

lemma flush_ack_Some:
  assumes "flush_ack reply out checkpoint n log sp = (Some e, log', sp')"
  shows "log' = log \<and> (sp' = sp \<or> (\<exists>next_cp. sp' = sp\<lparr> sp_checkpoint := CpPresent next_cp \<rparr>
    \<and> cp_Position next_cp = cp_Position checkpoint + 4 + n \<and> cp_Offset checkpoint \<le> cp_Offset next_cp
    \<and> (cp_Closed next_cp \<or> cp_Offset checkpoint < cp_Offset next_cp)))"
  using assms by (auto simp: flush_ack_def Let_def split: option.splits if_splits save_outcome.splits)

section \<open>The flush loop ends\<close>

lemma flush_terminates_aux:
  assumes "log_ok log sp" and "nat (maxLogFileBytes - cp_Position (ol_checkpoint log)) \<le> m"
  shows "\<exists>r sent' log' sp'. Flush pb env k sent log sp = Some (r, sent', log', sp') \<and> log_ok log' sp'
    \<and> 5 * int (length sent') \<le> 5 * int (length sent) + 5 + (maxLogFileBytes - cp_Position (ol_checkpoint log))"
  using assms
proof (induction m arbitrary: k sent log sp rule: less_induct)
  case (less m)
  have nonneg: "0 \<le> maxLogFileBytes - cp_Position (ol_checkpoint log)" using less(2) by (simp add: log_ok_def)
  show ?case
  proof (cases "flush_prepare pb (env k) log sp")
    case (FlushReturn r)
    then show ?thesis using less(2) nonneg by (simp add: Flush.simps)
  next
    case (FlushUpload request checkpoint n)
    obtain batch where c: "checkpoint = ol_checkpoint log"
      and b: "read_batch pb (fe_header_fails (env k)) (fe_data_fails (env k)) (ol_version log) (sp_file sp) (ol_size log)
        (cp_Position checkpoint) = Inr (n, batch)"
      using flush_prepare_Upload [OF FlushUpload] by blast
    have n: "0 < n" "cp_Position checkpoint + 4 + n \<le> ol_size log"
      using read_batch_Inr(1,3) [OF b] less(2) c by (simp_all add: log_ok_def)
    obtain l s where a: "run_appends pb (fe_appends (env k)) log sp = (l, s)" by fastforce
    note ok = run_appends_ok [OF a less(2)]
    obtain e l' s' where k: "flush_ack (fe_reply (env k)) (fe_save (env k)) checkpoint n l s = (e, l', s')"
      by (cases "flush_ack (fe_reply (env k)) (fe_save (env k)) checkpoint n l s")
    show ?thesis
    proof (cases e)
      case (Some x)
      then have "log_ok l' s'" using flush_ack_Some [of "fe_reply (env k)" "fe_save (env k)" checkpoint n l s x l' s'] k ok
        by (auto simp: log_ok_def)
      then show ?thesis using FlushUpload a k Some nonneg by (simp add: Flush.simps)
    next
      case None
      with k have "flush_ack (fe_reply (env k)) (fe_save (env k)) checkpoint n l s = (None, l', s')" by simp
      then obtain next_cp where nc: "l' = l\<lparr> ol_checkpoint := next_cp \<rparr>" "s' = s\<lparr> sp_checkpoint := CpPresent next_cp \<rparr>"
        "cp_Position next_cp = cp_Position checkpoint + 4 + n" by (rule flush_ack_None)
      have ok': "log_ok l' s'" using ok n nc c less(2) by (auto simp: log_ok_def grows_def)
      have sz: "cp_Position (ol_checkpoint l') = cp_Position (ol_checkpoint log) + 4 + n" using nc c by simp
      have "0 \<le> maxLogFileBytes - cp_Position (ol_checkpoint l')" using ok' by (simp add: log_ok_def)
      then have lt: "nat (maxLogFileBytes - cp_Position (ol_checkpoint l')) < m" using sz n(1) less(3) by linarith
      have "Flush pb env k sent log sp = Flush pb env (Suc k) (sent @ [request]) l' s'"
        using FlushUpload a k None by (simp add: Flush.simps [of pb env k])
      then show ?thesis using less(1) [OF lt ok' order_refl, of "Suc k" "sent @ [request]"] sz n(1) by fastforce
    qed
  qed
qed

section \<open>Histories of one operation log\<close>

text \<open>
  \<open>lw_flight\<close> is the batch that a flush has sent and whose reply it awaits (flushes exclude each
  other); \<open>lw_sent\<close> lists every request that was ever sent, with the position of its batch.
\<close>

record log_world =
  lw_log :: "OperationLog option"
  lw_spool :: spool
  lw_flight :: "(logCheckpoint \<times> int) option"
  lw_sent :: "(int \<times> UploadLogsRequest) list"

definition log_init :: "log_world \<Rightarrow> bool" where
  "log_init w \<longleftrightarrow> w = \<lparr> lw_log = None, lw_spool = \<lparr> sp_file = [], sp_checkpoint = CpAbsent \<rparr>, lw_flight = None, lw_sent = [] \<rparr>"

inductive log_step :: "log_codec \<Rightarrow> int \<Rightarrow> log_world \<Rightarrow> log_world \<Rightarrow> bool" for pb version where
  step_append: "lw_log w = Some log \<Longrightarrow> log_Append pb now out lines log (lw_spool w) = (r, log', sp') \<Longrightarrow>
    log_step pb version w (w\<lparr> lw_log := Some log', lw_spool := sp' \<rparr>)"
| step_upload: "lw_log w = Some log \<Longrightarrow> lw_flight w = None \<Longrightarrow>
    flush_prepare pb env log (lw_spool w) = FlushUpload request checkpoint n \<Longrightarrow>
    log_step pb version w (w\<lparr> lw_flight := Some (checkpoint, n), lw_sent := lw_sent w @ [(cp_Position checkpoint, request)] \<rparr>)"
| step_reply: "lw_log w = Some log \<Longrightarrow> lw_flight w = Some (checkpoint, n) \<Longrightarrow>
    flush_ack reply out checkpoint n log (lw_spool w) = (r, log', sp') \<Longrightarrow>
    log_step pb version w (w\<lparr> lw_log := Some log', lw_spool := sp', lw_flight := None \<rparr>)"
| step_crash: "log_step pb version w (w\<lparr> lw_log := None, lw_flight := None \<rparr>)"
| step_open: "lw_log w = None \<Longrightarrow> OpenOperationLog fails out journal version initialOffset (lw_spool w) = (Inr log, sp') \<Longrightarrow>
    log_step pb version w (w\<lparr> lw_log := Some log, lw_spool := sp' \<rparr>)"
| step_open_fails: "lw_log w = None \<Longrightarrow> OpenOperationLog fails out journal version initialOffset (lw_spool w) = (Inl e, sp') \<Longrightarrow>
    log_step pb version w (w\<lparr> lw_spool := sp' \<rparr>)"

text \<open>The bytes below this length never change again.\<close>

definition stable_size :: "log_world \<Rightarrow> int" where
  "stable_size w = (case lw_log w of Some log \<Rightarrow> ol_size log | None \<Rightarrow> int (length (sp_file (lw_spool w))))"

definition sent_saved :: "log_codec \<Rightarrow> int \<Rightarrow> string \<Rightarrow> int \<Rightarrow> (int \<times> UploadLogsRequest) list \<Rightarrow> bool" where
  "sent_saved pb version file L sent \<longleftrightarrow>
     (\<forall>(p, r) \<in> set sent. 0 \<le> p \<and> (\<exists>n batch. read_batch pb False False version file L p = Inr (n, batch)
       \<and> r = batch\<lparr> ur_Offset := ur_Offset r \<rparr>))"

definition covers :: "(int \<times> UploadLogsRequest) list \<Rightarrow> logCheckpoint \<Rightarrow> bool" where
  "covers sent cp \<longleftrightarrow> cp_Closed cp \<or>
     (\<forall>(p, r) \<in> set sent. ur_Offset r \<le> cp_Offset cp \<and> (ur_Offset r = cp_Offset cp \<longrightarrow> p = cp_Position cp))"

definition ahead :: "logCheckpoint \<Rightarrow> logCheckpoint \<Rightarrow> bool" where
  "ahead m d \<longleftrightarrow> cp_Closed m \<or> cp_Closed d \<or>
     (cp_Offset m \<le> cp_Offset d \<and> (cp_Offset m = cp_Offset d \<longrightarrow> cp_Position m = cp_Position d))"

definition offsets_unique :: "(int \<times> UploadLogsRequest) list \<Rightarrow> bool" where
  "offsets_unique sent \<longleftrightarrow>
     (\<forall>(p, r) \<in> set sent. \<forall>(p', r') \<in> set sent. ur_Offset r = ur_Offset r' \<longrightarrow> p = p')"

definition disk_ok :: "(int \<times> UploadLogsRequest) list \<Rightarrow> OperationLog option \<Rightarrow> checkpoint_file \<Rightarrow> bool" where
  "disk_ok sent log file =
     (case file of
        CpAbsent \<Rightarrow> sent = [] \<and> log = None
      | CpUndecodable \<Rightarrow> True
      | CpPresent d \<Rightarrow> covers sent d \<and> (case log of Some l \<Rightarrow> ahead (ol_checkpoint l) d | None \<Rightarrow> True))"

definition open_ok :: "int \<Rightarrow> log_world \<Rightarrow> bool" where
  "open_ok version w =
     (case lw_log w of
        None \<Rightarrow> lw_flight w = None
      | Some log \<Rightarrow> log_ok log (lw_spool w) \<and> ol_version log = version \<and> covers (lw_sent w) (ol_checkpoint log)
          \<and> (case lw_flight w of
               None \<Rightarrow> True
             | Some (cp, n) \<Rightarrow> cp = ol_checkpoint log \<and> \<not> cp_Closed cp \<and> 0 < n \<and> cp_Position cp + 4 + n \<le> ol_size log))"

definition replay_inv :: "log_codec \<Rightarrow> int \<Rightarrow> log_world \<Rightarrow> bool" where
  "replay_inv pb version w \<longleftrightarrow>
     sent_saved pb version (sp_file (lw_spool w)) (stable_size w) (lw_sent w) \<and> offsets_unique (lw_sent w)
     \<and> disk_ok (lw_sent w) (lw_log w) (sp_checkpoint (lw_spool w)) \<and> open_ok version w"

lemma sent_saved_mono:
  assumes "sent_saved pb version file L sent" and "take (nat L) file' = take (nat L) file"
    and "nat L \<le> length file'" and "L \<le> L'"
  shows "sent_saved pb version file' L' sent"
  unfolding sent_saved_def
proof safe
  fix p r
  assume "(p, r) \<in> set sent"
  then obtain n batch where "0 \<le> p" and b: "read_batch pb False False version file L p = Inr (n, batch)"
    and r: "r = batch\<lparr> ur_Offset := ur_Offset r \<rparr>"
    using assms(1) unfolding sent_saved_def by blast
  then show "0 \<le> p"
    "\<exists>n batch. read_batch pb False False version file' L' p = Inr (n, batch) \<and> r = batch\<lparr> ur_Offset := ur_Offset r \<rparr>"
    using read_batch_stable [OF b _ assms(2-4)] by blast+
qed

lemma covers_snoc:
  "covers (sent @ [(p, r)]) cp \<longleftrightarrow>
     covers sent cp \<and> (cp_Closed cp \<or> (ur_Offset r \<le> cp_Offset cp \<and> (ur_Offset r = cp_Offset cp \<longrightarrow> p = cp_Position cp)))"
  by (auto simp: covers_def)

lemma offsets_unique_snoc:
  assumes "offsets_unique sent" and "covers sent cp" and "\<not> cp_Closed cp" and "ur_Offset r = cp_Offset cp"
  shows "offsets_unique (sent @ [(cp_Position cp, r)])"
  using assms unfolding offsets_unique_def covers_def by fastforce

lemma covers_next:
  assumes "covers sent cp" and "\<not> cp_Closed cp" and "cp_Closed cp' \<or> cp_Offset cp < cp_Offset cp'"
  shows "covers sent cp'"
  using assms unfolding covers_def by fastforce

lemma OpenOperationLog_Inr:
  assumes "OpenOperationLog fails out journal version initialOffset sp = (Inr log, sp')"
  shows "sp_file sp' = sp_file sp" "ol_version log = version" "log_ok log sp'" "ol_size log = int (length (sp_file sp))"
    "sp_checkpoint sp' = CpPresent (ol_checkpoint log)" "sp_checkpoint sp = sp_checkpoint sp' \<or> sp_checkpoint sp = CpAbsent"
  using assms
  by (auto simp: OpenOperationLog_def Let_def log_ok_def split: if_splits checkpoint_file.splits save_outcome.splits)

lemma OpenOperationLog_Inl:
  assumes "OpenOperationLog fails out journal version initialOffset sp = (Inl e, sp')"
  shows "sp_file sp' = sp_file sp \<and> (sp_checkpoint sp' = sp_checkpoint sp \<or>
    (sp_checkpoint sp = CpAbsent \<and> (\<exists>cp. sp_checkpoint sp' = CpPresent cp)))"
  using assms
  by (auto simp: OpenOperationLog_def Let_def split: if_splits checkpoint_file.splits save_outcome.splits)

lemma replay_append:
  assumes "replay_inv pb version w" and "lw_log w = Some log" and "log_Append pb now out lines log (lw_spool w) = (r, log', sp')"
  shows "replay_inv pb version (w\<lparr> lw_log := Some log', lw_spool := sp' \<rparr>)"
proof -
  have ok: "log_ok log (lw_spool w)" "ol_version log = version" "covers (lw_sent w) (ol_checkpoint log)"
    using assms(1,2) by (simp_all add: replay_inv_def open_ok_def)
  note g = log_Append_ok [OF assms(3) ok(1)]
  have "nat (ol_size log) \<le> length (sp_file sp')" using ok(1) g by (auto simp: log_ok_def grows_def)
  then have "sent_saved pb version (sp_file sp') (ol_size log') (lw_sent w)"
    using sent_saved_mono [of pb version "sp_file (lw_spool w)" "ol_size log" "lw_sent w" "sp_file sp'" "ol_size log'"]
      assms(1,2) g by (simp add: replay_inv_def stable_size_def grows_def)
  then show ?thesis
    using assms(1,2) g ok unfolding replay_inv_def open_ok_def disk_ok_def stable_size_def grows_def
    by (auto split: option.splits checkpoint_file.splits)
qed

lemma replay_upload:
  assumes "replay_inv pb version w" and "lw_log w = Some log" and "lw_flight w = None"
    and "flush_prepare pb env log (lw_spool w) = FlushUpload request checkpoint n"
  shows "replay_inv pb version
    (w\<lparr> lw_flight := Some (checkpoint, n), lw_sent := lw_sent w @ [(cp_Position checkpoint, request)] \<rparr>)"
proof -
  obtain batch where c: "checkpoint = ol_checkpoint log" "\<not> cp_Closed checkpoint"
    and b: "read_batch pb (fe_header_fails env) (fe_data_fails env) (ol_version log) (sp_file (lw_spool w)) (ol_size log)
        (cp_Position checkpoint) = Inr (n, batch)"
    and r: "request = batch\<lparr> ur_Offset := cp_Offset checkpoint \<rparr>"
    using flush_prepare_Upload [OF assms(4)] by blast
  have ok: "log_ok log (lw_spool w)" "ol_version log = version" "covers (lw_sent w) (ol_checkpoint log)"
    using assms(1,2) by (simp_all add: replay_inv_def open_ok_def)
  have p: "0 \<le> cp_Position checkpoint" using ok(1) c by (simp add: log_ok_def)
  have "nat (ol_size log) \<le> length (sp_file (lw_spool w))" using ok(1) by (simp add: log_ok_def)
  then have b': "read_batch pb False False version (sp_file (lw_spool w)) (ol_size log) (cp_Position checkpoint) = Inr (n, batch)"
    using read_batch_stable [OF b p refl] ok(2) by simp
  have rr: "request = batch\<lparr> ur_Offset := ur_Offset request \<rparr>" "ur_Offset request = cp_Offset checkpoint" using r by simp_all
  have 1: "sent_saved pb version (sp_file (lw_spool w)) (ol_size log) (lw_sent w @ [(cp_Position checkpoint, request)])"
    using assms(1,2) b' p rr(1) by (auto simp: replay_inv_def sent_saved_def stable_size_def)
  have 2: "offsets_unique (lw_sent w @ [(cp_Position checkpoint, request)])"
    using offsets_unique_snoc ok(3) c rr(2) assms(1) by (simp add: replay_inv_def)
  have 3: "disk_ok (lw_sent w @ [(cp_Position checkpoint, request)]) (Some log) (sp_checkpoint (lw_spool w))"
    using assms(1,2) c rr(2) by (auto simp: replay_inv_def disk_ok_def covers_snoc ahead_def split: checkpoint_file.splits)
  have "0 < n" "cp_Position checkpoint + 4 + n \<le> ol_size log" using read_batch_Inr(1,3) [OF b p] by auto
  then have 4: "open_ok version (w\<lparr> lw_flight := Some (checkpoint, n), lw_sent := lw_sent w @ [(cp_Position checkpoint, request)] \<rparr>)"
    using ok c assms(2) rr(2) by (simp add: open_ok_def covers_snoc)
  show ?thesis using 1 2 3 4 assms(2) by (simp add: replay_inv_def stable_size_def)
qed

lemma replay_reply:
  assumes "replay_inv pb version w" and "lw_log w = Some log" and "lw_flight w = Some (checkpoint, n)"
    and "flush_ack reply out checkpoint n log (lw_spool w) = (r, log', sp')"
  shows "replay_inv pb version (w\<lparr> lw_log := Some log', lw_spool := sp', lw_flight := None \<rparr>)"
proof -
  have ok: "log_ok log (lw_spool w)" "ol_version log = version" "covers (lw_sent w) (ol_checkpoint log)"
    and f: "checkpoint = ol_checkpoint log" "\<not> cp_Closed checkpoint" "0 < n" "cp_Position checkpoint + 4 + n \<le> ol_size log"
    using assms(1-3) by (auto simp: replay_inv_def open_ok_def)
  have d: "sent_saved pb version (sp_file (lw_spool w)) (ol_size log) (lw_sent w)" "offsets_unique (lw_sent w)"
    "disk_ok (lw_sent w) (Some log) (sp_checkpoint (lw_spool w))"
    using assms(1,2) by (simp_all add: replay_inv_def stable_size_def)
  have saved: "covers (lw_sent w) cp \<and> ahead (ol_checkpoint log) cp"
    if "cp_Closed cp \<or> cp_Offset checkpoint < cp_Offset cp" for cp
    using covers_next [OF ok(3)] f that by (auto simp: ahead_def)
  show ?thesis
  proof (cases r)
    case None
    obtain cp where cp: "log' = log\<lparr> ol_checkpoint := cp \<rparr>" "sp' = (lw_spool w)\<lparr> sp_checkpoint := CpPresent cp \<rparr>"
      "cp_Position cp = cp_Position checkpoint + 4 + n" "cp_Closed cp \<or> cp_Offset checkpoint < cp_Offset cp"
      using assms(4) None flush_ack_None by metis
    then show ?thesis using ok f d saved [OF cp(4)]
      by (auto simp: replay_inv_def open_ok_def disk_ok_def stable_size_def log_ok_def ahead_def)
  next
    case (Some e)
    consider "log' = log" "sp' = lw_spool w" | cp where "log' = log" "sp' = (lw_spool w)\<lparr> sp_checkpoint := CpPresent cp \<rparr>"
      "cp_Closed cp \<or> cp_Offset checkpoint < cp_Offset cp"
      using flush_ack_Some [of reply out checkpoint n log "lw_spool w" e log' sp'] assms(4) Some by blast
    then show ?thesis
    proof cases
      case 1
      then show ?thesis using ok d by (simp add: replay_inv_def open_ok_def stable_size_def)
    next
      case (2 cp)
      then show ?thesis using ok d saved [OF 2(3)]
        by (simp add: replay_inv_def open_ok_def disk_ok_def stable_size_def log_ok_def)
    qed
  qed
qed

lemma replay_crash:
  assumes "replay_inv pb version w"
  shows "replay_inv pb version (w\<lparr> lw_log := None, lw_flight := None \<rparr>)"
proof -
  have "sent_saved pb version (sp_file (lw_spool w)) (int (length (sp_file (lw_spool w)))) (lw_sent w)"
  proof (cases "lw_log w")
    case None
    then show ?thesis using assms by (simp add: replay_inv_def stable_size_def)
  next
    case (Some log)
    then have "sent_saved pb version (sp_file (lw_spool w)) (ol_size log) (lw_sent w)" "log_ok log (lw_spool w)"
      using assms by (simp_all add: replay_inv_def stable_size_def open_ok_def)
    then show ?thesis by (auto simp: log_ok_def intro: sent_saved_mono)
  qed
  then show ?thesis using assms
    by (auto simp: replay_inv_def stable_size_def open_ok_def disk_ok_def split: checkpoint_file.splits)
qed

lemma replay_open:
  assumes "replay_inv pb version w" and "lw_log w = None"
    and "OpenOperationLog fails out journal version initialOffset (lw_spool w) = (Inr log, sp')"
  shows "replay_inv pb version (w\<lparr> lw_log := Some log, lw_spool := sp' \<rparr>)"
proof -
  note o = OpenOperationLog_Inr [OF assms(3)]
  have d: "disk_ok (lw_sent w) None (sp_checkpoint (lw_spool w))" "lw_flight w = None"
    "sent_saved pb version (sp_file (lw_spool w)) (int (length (sp_file (lw_spool w)))) (lw_sent w)" "offsets_unique (lw_sent w)"
    using assms(1,2) by (simp_all add: replay_inv_def open_ok_def stable_size_def)
  have "covers (lw_sent w) (ol_checkpoint log)" using o(5,6) d(1) by (auto simp: disk_ok_def covers_def)
  then show ?thesis using o d by (simp add: replay_inv_def open_ok_def stable_size_def disk_ok_def ahead_def)
qed

lemma replay_open_fails:
  assumes "replay_inv pb version w" and "lw_log w = None"
    and "OpenOperationLog fails out journal version initialOffset (lw_spool w) = (Inl e, sp')"
  shows "replay_inv pb version (w\<lparr> lw_spool := sp' \<rparr>)"
  using assms OpenOperationLog_Inl [OF assms(3)]
  by (auto simp: replay_inv_def open_ok_def stable_size_def disk_ok_def covers_def)

lemma replay_init: "log_init w \<Longrightarrow> replay_inv pb version w"
  by (simp add: log_init_def replay_inv_def open_ok_def stable_size_def disk_ok_def sent_saved_def offsets_unique_def)

interpretation log_replay: safe_machine log_init "log_step pb version" "replay_inv pb version"
proof unfold_locales
  show "log_init w \<Longrightarrow> replay_inv pb version w" for w by (rule replay_init)
  show "replay_inv pb version t" if "replay_inv pb version w" "log_step pb version w t" for w t
    using that(2,1)
    by (cases rule: log_step.cases)
      (simp_all add: replay_append replay_upload replay_reply replay_crash replay_open replay_open_fails)
qed

section \<open>The spool as a queue of batches\<close>

text \<open>
  What the log relies on from the protobuf library: decoding inverts encoding, \<open>proto.Size\<close> is the
  length of the encoding, a message with a field that is set has a non-empty encoding, and the
  batch with the truncation notice is small.
\<close>

definition saved_batch :: "int \<Rightarrow> LogLine option list \<Rightarrow> UploadLogsRequest" where
  "saved_batch version lines =
     \<lparr> ur_ProtocolVersion = 1, ur_OperationRversion = version, ur_Offset = 0, ur_Lines = lines \<rparr>"

definition codec_ok :: "log_codec \<Rightarrow> bool" where
  "codec_ok pb \<longleftrightarrow> (\<forall>b d. pb_Marshal pb b = Some d \<longrightarrow>
     pb_Unmarshal pb d = Some b \<and> pb_Size pb b = int (length d) \<and> (ur_ProtocolVersion b \<noteq> 0 \<longrightarrow> d \<noteq> []))
   \<and> (\<forall>version now d. pb_Marshal pb (saved_batch version [Some \<lparr> ll_TimestampUnixNano = now, ll_Message = truncation_message \<rparr>]) = Some d
        \<longrightarrow> int (length d) \<le> maxLogBatchBytes)"

definition storable :: "log_codec \<Rightarrow> int \<Rightarrow> LogLine option list \<Rightarrow> bool" where
  "storable pb version lines \<longleftrightarrow> lines \<noteq> [] \<and>
     (case pb_Marshal pb (saved_batch version lines) of None \<Rightarrow> False | Some d \<Rightarrow> int (length d) \<le> maxLogBatchBytes)"

definition stored :: "log_codec \<Rightarrow> int \<Rightarrow> LogLine option list \<Rightarrow> string" where
  "stored pb version lines = frame (the (pb_Marshal pb (saved_batch version lines)))"

text \<open>The queue that an open log represents: the batches between the checkpoint and the size.\<close>

definition log_rep :: "log_codec \<Rightarrow> OperationLog \<Rightarrow> spool \<Rightarrow> LogLine option list list \<Rightarrow> bool" where
  "log_rep pb log sp q \<longleftrightarrow> log_ok log sp \<and> list_all (storable pb (ol_version log)) q
     \<and> drop (nat (cp_Position (ol_checkpoint log))) (take (nat (ol_size log)) (sp_file sp))
       = concat (map (stored pb (ol_version log)) q)"

text \<open>Draining a queue: the specification of a flush that no append interrupts.\<close>

definition bad_ack :: "UploadLogsResponse \<Rightarrow> int \<Rightarrow> bool" where
  "bad_ack resp off = (if up_Closed resp then up_NextOffset resp \<noteq> off else up_NextOffset resp \<le> off)"

text \<open>Why a round stops, if it does, and whether its batch was sent before.\<close>

definition round_error :: "flush_env \<Rightarrow> int \<Rightarrow> (bool \<times> log_error) option" where
  "round_error env off =
     (if fe_ctx_err env then Some (False, logContextError)
      else if fe_header_fails env then Some (False, headerUnreadable)
      else if fe_data_fails env then Some (False, logIoError)
      else case fe_reply env of
        None \<Rightarrow> Some (True, uploadFailed)
      | Some resp \<Rightarrow>
          if bad_ack resp off then Some (True, invalidAcknowledgement)
          else if fe_save env \<noteq> SaveOk then Some (True, logIoError)
          else None)"

definition request_at :: "int \<Rightarrow> int \<Rightarrow> LogLine option list \<Rightarrow> UploadLogsRequest" where
  "request_at version off lines = (saved_batch version lines)\<lparr> ur_Offset := off \<rparr>"

fun drain ::
    "(nat \<Rightarrow> flush_env) \<Rightarrow> nat \<Rightarrow> int \<Rightarrow> int \<Rightarrow> LogLine option list list
      \<Rightarrow> log_error option \<times> UploadLogsRequest list \<times> LogLine option list list \<times> int \<times> bool" where
  "drain env k version off [] = (None, [], [], off, False)"
| "drain env k version off (b # q) =
     (case round_error (env k) off of
        Some (was_sent, e) \<Rightarrow> (Some e, if was_sent then [request_at version off b] else [], b # q, off, False)
      | None \<Rightarrow>
          (case fe_reply (env k) of
             None \<Rightarrow> (None, [], b # q, off, False)
           | Some resp \<Rightarrow>
               if up_Closed resp then (None, [request_at version off b], q, off, True)
               else (case drain env (Suc k) version (up_NextOffset resp) q of
                       (r, reqs, rest) \<Rightarrow> (r, request_at version off b # reqs, rest))))"

lemma new_batch_saved: "new_batch log lines = saved_batch (ol_version log) lines"
  by (simp add: new_batch_def saved_batch_def)

lemma storableD:
  assumes "storable pb version lines" and "codec_ok pb"
  obtains d where "stored pb version lines = frame d" "pb_Unmarshal pb d = Some (saved_batch version lines)"
    "0 < length d" "int (length d) \<le> maxLogBatchBytes" "length d < 2 ^ 32" "lines \<noteq> []"
proof -
  obtain d where d: "pb_Marshal pb (saved_batch version lines) = Some d" "int (length d) \<le> maxLogBatchBytes" "lines \<noteq> []"
    using assms(1) by (auto simp: storable_def split: option.splits)
  moreover have "pb_Unmarshal pb d = Some (saved_batch version lines)" "d \<noteq> []"
    using assms(2) d(1) by (auto simp: codec_ok_def saved_batch_def)
  moreover have "length d < 2 ^ 32" using d(2) by (simp add: maxLogBatchBytes_def)
  ultimately show ?thesis using that [of d] by (simp add: stored_def)
qed

text \<open>Reading at the checkpoint finds the head of the queue.\<close>

lemma log_rep_head:
  assumes "log_rep pb log sp (b # q)" and "codec_ok pb" and "\<not> cp_Closed (ol_checkpoint log)"
  obtains n where "0 < n" "cp_Position (ol_checkpoint log) + 4 + n \<le> ol_size log"
    "read_batch pb False False (ol_version log) (sp_file sp) (ol_size log) (cp_Position (ol_checkpoint log))
       = Inr (n, saved_batch (ol_version log) b)"
    "drop (nat (cp_Position (ol_checkpoint log) + 4 + n)) (take (nat (ol_size log)) (sp_file sp))
       = concat (map (stored pb (ol_version log)) q)"
proof -
  let ?pos = "cp_Position (ol_checkpoint log)" and ?F = "take (nat (ol_size log)) (sp_file sp)"
  have ok: "0 \<le> ?pos" "?pos \<le> ol_size log" "nat (ol_size log) \<le> length (sp_file sp)"
    and st: "storable pb (ol_version log) b" and dr: "drop (nat ?pos) ?F = stored pb (ol_version log) b @ concat (map (stored pb (ol_version log)) q)"
    using assms(1) by (simp_all add: log_rep_def log_ok_def)
  obtain d where d: "stored pb (ol_version log) b = frame d" "pb_Unmarshal pb d = Some (saved_batch (ol_version log) b)"
    "0 < length d" "int (length d) \<le> maxLogBatchBytes" "length d < 2 ^ 32" "b \<noteq> []" using storableD [OF st assms(2)] by blast
  have len: "length ?F = nat (ol_size log)" using ok by simp
  have split: "drop (nat ?pos) ?F = PutUint32 (length d) @ d @ concat (map (stored pb (ol_version log)) q)"
    using dr d(1,5) by (simp add: frame_def)
  then have "length (drop (nat ?pos) ?F) \<ge> 4 + length d" by simp
  then have fit: "nat ?pos + 4 + length d \<le> nat (ol_size log)" using len by simp
  have "ReadAt ?F (nat ?pos) 4 = Some (PutUint32 (length d))"
    using fit len split by (simp add: ReadAt_def)
  moreover have "drop (nat ?pos + 4) ?F = d @ concat (map (stored pb (ol_version log)) q)"
    using split by (metis add.commute append_eq_conv_conj drop_drop length_PutUint32)
  then have "ReadAt ?F (nat ?pos + 4) (length d) = Some d" using fit len by (simp add: ReadAt_def)
  ultimately have rd: "ReadAt (sp_file sp) (nat ?pos) 4 = Some (PutUint32 (length d))"
    "ReadAt (sp_file sp) (nat (?pos + 4)) (nat (int (length d))) = Some d"
    using ReadAt_prefix [of ?F _ _ _ "nat (ol_size log)" "sp_file sp"] fit ok by (simp_all add: nat_add_distrib)
  have "read_batch pb False False (ol_version log) (sp_file sp) (ol_size log) ?pos = Inr (int (length d), saved_batch (ol_version log) b)"
    using rd d fit ok(1) by (simp add: read_batch_def Let_def Uint32_PutUint32 saved_batch_def)
  moreover have "drop (nat (?pos + 4 + int (length d))) ?F = concat (map (stored pb (ol_version log)) q)"
  proof -
    have "nat (?pos + 4 + int (length d)) = (4 + length d) + nat ?pos" using ok(1) by linarith
    then have "drop (nat (?pos + 4 + int (length d))) ?F = drop (4 + length d) (drop (nat ?pos) ?F)"
      by (simp only: drop_drop)
    then show ?thesis unfolding split by simp
  qed
  ultimately show ?thesis using that [of "int (length d)"] d(3) fit ok(1) by simp
qed

lemma flush_prepare_rep:
  assumes "log_rep pb log sp (b # q)" and "codec_ok pb" and "\<not> cp_Closed (ol_checkpoint log)"
  obtains n where "0 < n" "cp_Position (ol_checkpoint log) + 4 + n \<le> ol_size log"
    "flush_prepare pb env log sp =
       (if fe_ctx_err env then FlushReturn (Some logContextError)
        else if fe_header_fails env then FlushReturn (Some headerUnreadable)
        else if fe_data_fails env then FlushReturn (Some logIoError)
        else FlushUpload ((saved_batch (ol_version log) b)\<lparr> ur_Offset := cp_Offset (ol_checkpoint log) \<rparr>) (ol_checkpoint log) n)"
    "drop (nat (cp_Position (ol_checkpoint log) + 4 + n)) (take (nat (ol_size log)) (sp_file sp))
       = concat (map (stored pb (ol_version log)) q)"
proof -
  let ?pos = "cp_Position (ol_checkpoint log)"
  obtain n where n: "0 < n" "?pos + 4 + n \<le> ol_size log"
    "read_batch pb False False (ol_version log) (sp_file sp) (ol_size log) ?pos = Inr (n, saved_batch (ol_version log) b)"
    "drop (nat (?pos + 4 + n)) (take (nat (ol_size log)) (sp_file sp)) = concat (map (stored pb (ol_version log)) q)"
    using log_rep_head [OF assms] by blast
  have "?pos \<noteq> ol_size log" using n(1,2) by simp
  moreover have "read_batch pb hf df (ol_version log) (sp_file sp) (ol_size log) ?pos =
      (if hf then Inl headerUnreadable else if df then Inl logIoError else Inr (n, saved_batch (ol_version log) b))" for hf df
    using n(3) by (auto simp: read_batch_def Let_def split: option.splits if_splits)
  ultimately show ?thesis using n assms(3) by (intro that [of n]) (simp_all add: flush_prepare_def Let_def)
qed

lemma log_rep_ack:
  assumes "log_rep pb log sp (b # q)" and "cp_Position cp = cp_Position (ol_checkpoint log) + 4 + n" and "0 < n"
    and "cp_Position (ol_checkpoint log) + 4 + n \<le> ol_size log"
    and "drop (nat (cp_Position (ol_checkpoint log) + 4 + n)) (take (nat (ol_size log)) (sp_file sp))
       = concat (map (stored pb (ol_version log)) q)"
  shows "log_rep pb (log\<lparr> ol_checkpoint := cp \<rparr>) (sp\<lparr> sp_checkpoint := f \<rparr>) q"
  using assms by (simp add: log_rep_def log_ok_def)

lemma log_rep_checkpoint_file: "log_rep pb log (sp\<lparr> sp_checkpoint := f \<rparr>) q = log_rep pb log sp q"
  by (simp add: log_rep_def log_ok_def)

lemma flush_ack_spec:
  "flush_ack reply out cp n log sp =
     (case reply of
        None \<Rightarrow> (Some uploadFailed, log, sp)
      | Some resp \<Rightarrow>
          if bad_ack resp (cp_Offset cp) then (Some invalidAcknowledgement, log, sp)
          else (let next_cp = \<lparr> cp_Position = cp_Position cp + 4 + n, cp_Offset = up_NextOffset resp, cp_Closed = up_Closed resp \<rparr>
             in case out of
                  SaveOk \<Rightarrow> (None, log\<lparr> ol_checkpoint := next_cp \<rparr>, sp\<lparr> sp_checkpoint := CpPresent next_cp \<rparr>)
                | SaveFailedBefore \<Rightarrow> (Some logIoError, log, sp)
                | SaveFailedAfter \<Rightarrow> (Some logIoError, log, sp\<lparr> sp_checkpoint := CpPresent next_cp \<rparr>)))"
  unfolding flush_ack_def bad_ack_def by (simp split: option.split)

lemma flush_stays:
  assumes "log_rep pb log sp (b # q)" and "codec_ok pb" and "\<not> cp_Closed (ol_checkpoint log)" and "fe_appends (env k) = []"
    and "round_error (env k) (cp_Offset (ol_checkpoint log)) = Some (was_sent, e)"
  shows "\<exists>sp'. Flush pb env k sent log sp
      = Some (Some e, sent @ (if was_sent then [request_at (ol_version log) (cp_Offset (ol_checkpoint log)) b] else []), log, sp')
    \<and> log_rep pb log sp' (b # q)"
proof -
  let ?cp = "ol_checkpoint log"
  obtain n where prep: "flush_prepare pb (env k) log sp =
       (if fe_ctx_err (env k) then FlushReturn (Some logContextError)
        else if fe_header_fails (env k) then FlushReturn (Some headerUnreadable)
        else if fe_data_fails (env k) then FlushReturn (Some logIoError)
        else FlushUpload (request_at (ol_version log) (cp_Offset ?cp) b) ?cp n)"
    using flush_prepare_rep [OF assms(1-3), where env = "env k"] unfolding request_at_def by blast
  show ?thesis
    using assms(1,4,5) prep
    by (auto simp: round_error_def Flush.simps [of pb env k] flush_ack_spec Let_def log_rep_checkpoint_file
        split: if_splits option.splits save_outcome.splits)
qed

lemma flush_proceeds:
  assumes "log_rep pb log sp (b # q)" and "codec_ok pb" and "\<not> cp_Closed (ol_checkpoint log)" and "fe_appends (env k) = []"
    and "round_error (env k) (cp_Offset (ol_checkpoint log)) = None"
  obtains resp l s where "fe_reply (env k) = Some resp" "\<not> bad_ack resp (cp_Offset (ol_checkpoint log))"
    "Flush pb env k sent log sp
      = Flush pb env (Suc k) (sent @ [request_at (ol_version log) (cp_Offset (ol_checkpoint log)) b]) l s"
    "log_rep pb l s q" "ol_version l = ol_version log"
    "cp_Offset (ol_checkpoint l) = up_NextOffset resp" "cp_Closed (ol_checkpoint l) = up_Closed resp"
proof -
  let ?cp = "ol_checkpoint log"
  obtain n where n: "0 < n" "cp_Position ?cp + 4 + n \<le> ol_size log"
    and prep: "flush_prepare pb (env k) log sp =
       (if fe_ctx_err (env k) then FlushReturn (Some logContextError)
        else if fe_header_fails (env k) then FlushReturn (Some headerUnreadable)
        else if fe_data_fails (env k) then FlushReturn (Some logIoError)
        else FlushUpload (request_at (ol_version log) (cp_Offset ?cp) b) ?cp n)"
    and rest: "drop (nat (cp_Position ?cp + 4 + n)) (take (nat (ol_size log)) (sp_file sp)) = concat (map (stored pb (ol_version log)) q)"
    using flush_prepare_rep [OF assms(1-3), where env = "env k"] unfolding request_at_def by blast
  obtain resp where resp: "fe_reply (env k) = Some resp" "\<not> bad_ack resp (cp_Offset ?cp)" "fe_save (env k) = SaveOk"
    "\<not> fe_ctx_err (env k)" "\<not> fe_header_fails (env k)" "\<not> fe_data_fails (env k)"
    using assms(5) by (auto simp: round_error_def split: if_splits option.splits)
  define cp where "cp = \<lparr> cp_Position = cp_Position ?cp + 4 + n, cp_Offset = up_NextOffset resp, cp_Closed = up_Closed resp \<rparr>"
  have "log_rep pb (log\<lparr> ol_checkpoint := cp \<rparr>) (sp\<lparr> sp_checkpoint := CpPresent cp \<rparr>) q"
    by (rule log_rep_ack [OF assms(1) _ n rest]) (simp add: cp_def)
  moreover have "flush_ack (fe_reply (env k)) (fe_save (env k)) ?cp n log sp
      = (None, log\<lparr> ol_checkpoint := cp \<rparr>, sp\<lparr> sp_checkpoint := CpPresent cp \<rparr>)"
    using resp by (simp add: flush_ack_spec cp_def Let_def)
  ultimately show ?thesis using resp prep assms(4)
    by (intro that [of resp "log\<lparr> ol_checkpoint := cp \<rparr>" "sp\<lparr> sp_checkpoint := CpPresent cp \<rparr>"])
      (simp_all add: Flush.simps [of pb env k] cp_def)
qed

lemma flush_done:
  assumes "cp_Closed (ol_checkpoint log) \<or> log_rep pb log sp []"
  shows "Flush pb env k sent log sp = Some (None, sent, log, sp)"
proof -
  have "cp_Position (ol_checkpoint log) = ol_size log" if "log_rep pb log sp []"
  proof -
    have "nat (ol_size log) - nat (cp_Position (ol_checkpoint log)) = 0" "0 \<le> cp_Position (ol_checkpoint log)"
      "cp_Position (ol_checkpoint log) \<le> ol_size log" using that by (auto simp: log_rep_def log_ok_def)
    then show ?thesis by linarith
  qed
  with assms have "flush_prepare pb (env k) log sp = FlushReturn None" by (auto simp: flush_prepare_def)
  then show ?thesis by (simp add: Flush.simps [of pb env k])
qed

lemma flush_drains:
  assumes "codec_ok pb" and "\<And>k. fe_appends (env k) = []" and "log_rep pb log sp q" and "\<not> cp_Closed (ol_checkpoint log)"
    and "drain env k (ol_version log) (cp_Offset (ol_checkpoint log)) q = (r, reqs, rest, off, closed)"
  shows "\<exists>log' sp'. Flush pb env k sent log sp = Some (r, sent @ reqs, log', sp') \<and> log_rep pb log' sp' rest
    \<and> cp_Offset (ol_checkpoint log') = off \<and> cp_Closed (ol_checkpoint log') = closed"
  using assms(3-)
proof (induction q arbitrary: k log sp sent reqs)
  case Nil
  then show ?case using flush_done [of log pb sp env k sent] by auto
next
  case (Cons b q)
  show ?case
  proof (cases "round_error (env k) (cp_Offset (ol_checkpoint log))")
    case (Some x)
    obtain was_sent e where x: "x = (was_sent, e)" by fastforce
    show ?thesis
      using flush_stays [where sent = sent and k = k and env = env, OF Cons(2) assms(1) Cons(3) assms(2) Some [unfolded x]] Cons(3,4) Some x by auto
  next
    case None
    obtain resp l s where p: "fe_reply (env k) = Some resp" "\<not> bad_ack resp (cp_Offset (ol_checkpoint log))"
      "Flush pb env k sent log sp
        = Flush pb env (Suc k) (sent @ [request_at (ol_version log) (cp_Offset (ol_checkpoint log)) b]) l s"
      "log_rep pb l s q" "ol_version l = ol_version log"
      "cp_Offset (ol_checkpoint l) = up_NextOffset resp" "cp_Closed (ol_checkpoint l) = up_Closed resp"
      using flush_proceeds [where sent = sent and k = k and env = env, OF Cons(2) assms(1) Cons(3) assms(2) None] by blast
    show ?thesis
    proof (cases "up_Closed resp")
      case True
      then show ?thesis using flush_done [of l pb s env "Suc k"] p Cons(4) None by (auto simp: bad_ack_def)
    next
      case False
      obtain r' reqs' rest' where d: "drain env (Suc k) (ol_version l) (cp_Offset (ol_checkpoint l)) q = (r', reqs', rest')"
        by (cases "drain env (Suc k) (ol_version l) (cp_Offset (ol_checkpoint l)) q")
      then have "r' = r" "reqs = request_at (ol_version log) (cp_Offset (ol_checkpoint log)) b # reqs'" "rest' = (rest, off, closed)"
        using Cons(4) None p False by simp_all
      then show ?thesis using Cons(1) [OF p(4), of "Suc k" reqs' "sent @ [request_at (ol_version log) (cp_Offset (ol_checkpoint log)) b]"]
          d p(3,7) False by simp
    qed
  qed
qed

lemma append_write_rep:
  assumes "log_rep pb log sp q" and "append_write out rec log sp = (r, log', sp')"
    and "ol_size log + int (length rec) \<le> maxLogFileBytes"
    and "storable pb (ol_version log) lines" and "rec = stored pb (ol_version log) lines"
  shows "if out = WriteOk then log_rep pb log' sp' (q @ [lines]) \<and> r = (if ol_full log then Some ErrLogFull else None)
    else log_rep pb log' sp' q \<and> r = Some logIoError"
proof -
  have ok: "log_ok log sp" using assms(1) by (simp add: log_rep_def)
  have s: "nat (ol_size log) \<le> length (sp_file sp)" "0 \<le> ol_size log"
    "nat (cp_Position (ol_checkpoint log)) \<le> nat (ol_size log)" using ok by (auto simp: log_ok_def)
  note w = append_write_ok [OF assms(2) ok assms(3)]
  have t: "take (nat (ol_size log)) (WriteAt (sp_file sp) (nat (ol_size log)) d) = take (nat (ol_size log)) (sp_file sp)" for d
    by (rule WriteAt_take [OF s(1)])
  have "nat (ol_size log + int (length rec)) = nat (ol_size log) + length rec" using s(2) by linarith
  then have t': "take (nat (ol_size log + int (length rec))) (WriteAt (sp_file sp) (nat (ol_size log)) rec)
      = take (nat (ol_size log)) (sp_file sp) @ rec"
    using s(1) by (simp add: WriteAt_def)
  show ?thesis
    using assms(1,2,4,5) w s t t'
    by (cases out) (auto simp: append_write_def log_rep_def)
qed

definition truncation_line :: "int \<Rightarrow> LogLine option" where
  "truncation_line now = Some \<lparr> ll_TimestampUnixNano = now, ll_Message = truncation_message \<rparr>"

lemma log_Append_rep:
  assumes "log_rep pb log sp q" and "codec_ok pb" and "\<not> cp_Closed (ol_checkpoint log)"
    and "log_Append pb now out lines log sp = (r, log', sp')"
  shows "case r of
      None \<Rightarrow> log_rep pb log' sp' (if lines = [] then q else q @ [lines])
    | Some e \<Rightarrow> log_rep pb log' sp' q \<or> (e = ErrLogFull \<and> log_rep pb log' sp' (q @ [[truncation_line now]]))"
proof -
  have rep_full: "log_rep pb (log\<lparr> ol_full := b \<rparr>) sp q" for b using assms(1) by (simp add: log_rep_def)
  have fits: "storable pb (ol_version log) ls \<and> frame d = stored pb (ol_version log) ls"
    if "pb_Marshal pb (new_batch log ls) = Some d" "ls \<noteq> []" "int (length d) \<le> maxLogBatchBytes" for ls d
    using that by (simp add: storable_def stored_def new_batch_saved)
  have sz: "int (length d) \<le> maxLogBatchBytes"
    if "pb_Marshal pb (new_batch log ls) = Some d" "\<not> pb_Size pb (new_batch log ls) > maxLogBatchBytes" for ls d
    using that assms(2) by (auto simp: codec_ok_def)
  have tr: "int (length d) \<le> maxLogBatchBytes" if "pb_Marshal pb (new_batch log [truncation_line now]) = Some d" for d
    using that assms(2) by (auto simp: codec_ok_def new_batch_saved truncation_line_def)
  note app = assms(4) [unfolded log_Append_def, folded truncation_line_def]
  consider (kept) e where "r = Some e" "log' = log \<or> log' = log\<lparr> ol_full := True \<rparr>" "sp' = sp"
    | (noop) "r = None" "lines = []" "log' = log" "sp' = sp"
    | (line) d where "pb_Marshal pb (new_batch log lines) = Some d" "lines \<noteq> []" "int (length d) \<le> maxLogBatchBytes"
        "ol_size log + int (length (frame d)) \<le> maxLogFileBytes" "append_write out (frame d) log sp = (r, log', sp')" "\<not> ol_full log"
    | (notice) d where "pb_Marshal pb (new_batch log [truncation_line now]) = Some d" "int (length d) \<le> maxLogBatchBytes"
        "ol_size log + int (length (frame d)) \<le> maxLogFileBytes" "append_write out (frame d) (log\<lparr> ol_full := True \<rparr>) sp = (r, log', sp')"
    using app assms(3) sz tr
    by (auto split: if_splits option.splits simp del: length_frame)
  then show ?thesis
  proof cases
    case kept
    then show ?thesis using assms(1) rep_full by auto
  next
    case noop
    then show ?thesis using assms(1) by simp
  next
    case line
    have f: "storable pb (ol_version log) lines" "frame d = stored pb (ol_version log) lines" using fits [OF line(1-3)] by auto
    show ?thesis using append_write_rep [OF assms(1) line(5,4) f] line(2,6) by (auto split: if_splits)
  next
    case notice
    have f: "storable pb (ol_version log) [truncation_line now]" "frame d = stored pb (ol_version log) [truncation_line now]"
      using fits [OF notice(1) _ notice(2)] by auto
    show ?thesis using append_write_rep [OF rep_full notice(4), of "[truncation_line now]"] notice(3) f by (auto split: if_splits)
  qed
qed

section \<open>Properties\<close>

text \<open>C5: Two uploads of an operation log that carry the same remote offset are the same request, in
  every history of appends, torn and failing writes, uploads, lost or repeated replies, failing
  checkpoint writes, crashes and reopenings: the remote side can recognise a repeated batch by
  comparing it with what it stored at that offset.
\<close>

theorem log_replay_identical:
  assumes "reachable log_init (log_step pb version) w"
    and "(p, r) \<in> set (lw_sent w)" and "(p', r') \<in> set (lw_sent w)" and "ur_Offset r = ur_Offset r'"
  shows "r = r' \<and> ur_ProtocolVersion r = 1 \<and> ur_OperationRversion r = version \<and> ur_Lines r \<noteq> []"
proof -
  have inv: "replay_inv pb version w" by (rule log_replay.reachable_inv [OF assms(1)])
  let ?read = "read_batch pb False False version (sp_file (lw_spool w)) (stable_size w)"
  have s: "\<exists>n batch. 0 \<le> p \<and> ?read p = Inr (n, batch) \<and> r = batch\<lparr> ur_Offset := ur_Offset r \<rparr>" if "(p, r) \<in> set (lw_sent w)" for p r
    using inv that unfolding replay_inv_def sent_saved_def by blast
  obtain n batch where b: "0 \<le> p" "?read p = Inr (n, batch)" "r = batch\<lparr> ur_Offset := ur_Offset r \<rparr>" using s [OF assms(2)] by blast
  obtain n' batch' where b': "?read p' = Inr (n', batch')" "r' = batch'\<lparr> ur_Offset := ur_Offset r' \<rparr>" using s [OF assms(3)] by blast
  have "p = p'" using inv assms(2-4) unfolding replay_inv_def offsets_unique_def by blast
  then have "batch = batch'" using b(2) b'(1) by simp
  then have "r = r'" using b(3) b'(2) assms(4) by metis
  moreover have "ur_ProtocolVersion r = 1" "ur_OperationRversion r = version" "ur_Lines r \<noteq> []"
    using read_batch_Inr(5-7) [OF b(2,1)] by (subst b(3), simp)+
  ultimately show ?thesis by simp
qed

text \<open>C34: The flush loop ends, whatever the remote side, the disk and concurrent appends do in each of
  its rounds: it returns after at most one upload per five bytes that the spool file can still hold.
\<close>

theorem flush_terminates:
  assumes "log_ok log sp"
  shows "\<exists>r sent log' sp'. Flush pb env 0 [] log sp = Some (r, sent, log', sp') \<and> log_ok log' sp'
    \<and> int (length sent) \<le> 1 + (maxLogFileBytes - cp_Position (ol_checkpoint log)) div 5"
proof -
  obtain r sent log' sp' where f: "Flush pb env 0 [] log sp = Some (r, sent, log', sp')" "log_ok log' sp'"
    "5 * int (length sent) \<le> 5 * int (length ([] :: UploadLogsRequest list)) + 5 + (maxLogFileBytes - cp_Position (ol_checkpoint log))"
    using flush_terminates_aux [OF assms order_refl, of pb env 0 "[]"] by blast
  have "5 * int (length sent) \<le> 5 + (maxLogFileBytes - cp_Position (ol_checkpoint log))" using f(3) by simp
  then have "int (length sent) \<le> 1 + (maxLogFileBytes - cp_Position (ol_checkpoint log)) div 5" by linarith
  with f show ?thesis by blast
qed

text \<open>C20: The spool implements a queue of batches. An append that succeeds enqueues its lines; one that
  fails leaves the queue as it was, except that the append which finds the spool full may enqueue the
  truncation notice, whatever the disk does. A flush drains the queue: the requests it sends, its
  result and the remaining queue, offset and closed flag are those of \<open>drain\<close> for the same answers.
\<close>

theorem operation_log_refines_queue:
  assumes "codec_ok pb" and "log_rep pb log sp q" and "\<not> cp_Closed (ol_checkpoint log)"
    and "\<And>k. fe_appends (env k) = []"
  shows "(case log_Append pb now out lines log sp of (r, log', sp') \<Rightarrow>
       (case r of
          None \<Rightarrow> log_rep pb log' sp' (if lines = [] then q else q @ [lines])
        | Some e \<Rightarrow> log_rep pb log' sp' q \<or> (e = ErrLogFull \<and> log_rep pb log' sp' (q @ [[truncation_line now]]))))
    \<and> (case drain env 0 (ol_version log) (cp_Offset (ol_checkpoint log)) q of (r, reqs, rest, off, closed) \<Rightarrow>
       (\<exists>log' sp'. Flush pb env 0 [] log sp = Some (r, reqs, log', sp') \<and> log_rep pb log' sp' rest
         \<and> cp_Offset (ol_checkpoint log') = off \<and> cp_Closed (ol_checkpoint log') = closed))"
proof
  show "case log_Append pb now out lines log sp of (r, log', sp') \<Rightarrow>
       (case r of
          None \<Rightarrow> log_rep pb log' sp' (if lines = [] then q else q @ [lines])
        | Some e \<Rightarrow> log_rep pb log' sp' q \<or> (e = ErrLogFull \<and> log_rep pb log' sp' (q @ [[truncation_line now]])))"
    using log_Append_rep [OF assms(2,1,3)] by (cases "log_Append pb now out lines log sp") simp
  obtain r reqs rest off closed where d: "drain env 0 (ol_version log) (cp_Offset (ol_checkpoint log)) q = (r, reqs, rest, off, closed)"
    by (cases "drain env 0 (ol_version log) (cp_Offset (ol_checkpoint log)) q")
  show "case drain env 0 (ol_version log) (cp_Offset (ol_checkpoint log)) q of (r, reqs, rest, off, closed) \<Rightarrow>
       (\<exists>log' sp'. Flush pb env 0 [] log sp = Some (r, reqs, log', sp') \<and> log_rep pb log' sp' rest
         \<and> cp_Offset (ol_checkpoint log') = off \<and> cp_Closed (ol_checkpoint log') = closed)"
    using flush_drains [where sent = "[]", OF assms(1,4,2,3) d] d by simp
qed

section \<open>A concrete log\<close>

text \<open>An encoding of batches of one line with timestamp 1, of version 7: a tag and the message.\<close>

definition demo_line :: "string \<Rightarrow> LogLine option" where
  "demo_line m = Some \<lparr> ll_TimestampUnixNano = 1, ll_Message = m \<rparr>"

definition demo_pb :: log_codec where
  "demo_pb = \<lparr>
     pb_Marshal = (\<lambda>b. case ur_Lines b of
        [Some l] \<Rightarrow> if b = saved_batch 7 [demo_line (ll_Message l)] then Some (CHR 0x01 # ll_Message l) else None
      | _ \<Rightarrow> None),
     pb_Unmarshal = (\<lambda>d. case d of c # m \<Rightarrow> if c = CHR 0x01 then Some (saved_batch 7 [demo_line m]) else None | [] \<Rightarrow> None),
     pb_Size = (\<lambda>b. case ur_Lines b of [Some l] \<Rightarrow> 1 + int (length (ll_Message l)) | _ \<Rightarrow> 0) \<rparr>"

lemma demo_pb_Marshal:
  "pb_Marshal demo_pb b = Some d \<longleftrightarrow> (\<exists>m. b = saved_batch 7 [demo_line m] \<and> d = CHR 0x01 # m)"
  by (auto simp: demo_pb_def demo_line_def saved_batch_def split: list.splits option.splits if_splits)

lemma demo_codec_ok: "codec_ok demo_pb"
proof -
  have "length truncation_message \<le> 100" by (simp add: truncation_message_def)
  moreover have "d = CHR 0x01 # truncation_message"
    if "pb_Marshal demo_pb (saved_batch version [Some \<lparr> ll_TimestampUnixNano = now, ll_Message = truncation_message \<rparr>]) = Some d"
    for version now d
    using that unfolding demo_pb_Marshal by (auto simp: saved_batch_def demo_line_def)
  ultimately have "int (length d) \<le> maxLogBatchBytes"
    if "pb_Marshal demo_pb (saved_batch version [Some \<lparr> ll_TimestampUnixNano = now, ll_Message = truncation_message \<rparr>]) = Some d"
    for version now d
    using that by (fastforce simp: maxLogBatchBytes_def)
  moreover have "pb_Unmarshal demo_pb (CHR 0x01 # m) = Some (saved_batch 7 [demo_line m])"
    "pb_Size demo_pb (saved_batch 7 [demo_line m]) = int (length (CHR 0x01 # m))" for m
    by (simp_all add: demo_pb_def saved_batch_def demo_line_def)
  ultimately show ?thesis by (auto simp: codec_ok_def demo_pb_Marshal)
qed

definition demo_log0 :: OperationLog where
  "demo_log0 = \<lparr> ol_version = 7, ol_checkpoint = \<lparr> cp_Position = 0, cp_Offset = 5, cp_Closed = False \<rparr>, ol_size = 0, ol_full = False \<rparr>"

definition demo_log1 :: OperationLog where
  "demo_log1 = demo_log0\<lparr> ol_size := 7 \<rparr>"

definition demo_spool :: "string \<Rightarrow> spool" where
  "demo_spool file = \<lparr> sp_file = file, sp_checkpoint = CpPresent (ol_checkpoint demo_log0) \<rparr>"

definition demo_file :: string where
  "demo_file = [CHR 0x00, CHR 0x00, CHR 0x00, CHR 0x03, CHR 0x01, CHR ''h'', CHR ''i'']"

definition demo_reply :: flush_env where
  "demo_reply = \<lparr> fe_ctx_err = False, fe_header_fails = False, fe_data_fails = False,
     fe_reply = Some \<lparr> up_NextOffset = 9, up_Closed = False \<rparr>, fe_save = SaveOk, fe_appends = [] \<rparr>"

lemma demo_log_open: "OpenOperationLog (\<lambda>_. False) SaveOk (Some j) 7 5 \<lparr> sp_file = [], sp_checkpoint = CpAbsent \<rparr>
    = (Inr demo_log0, demo_spool [])"
  by (simp add: OpenOperationLog_def demo_log0_def demo_spool_def maxLogFileBytes_def Let_def)

lemma demo_chars: "char_of (0 :: nat) = CHR 0x00" "char_of (3 :: nat) = CHR 0x03"
  by (simp_all add: char_of_def bit_0)

lemma demo_append: "log_Append demo_pb 3 WriteOk [demo_line ''hi''] demo_log0 (demo_spool []) = (None, demo_log1, demo_spool demo_file)"
  by (simp add: log_Append_def demo_pb_def new_batch_def saved_batch_def demo_log0_def demo_log1_def demo_spool_def demo_line_def
      line_valid_def append_write_def WriteAt_def frame_def PutUint32_def demo_file_def maxLogBatchBytes_def maxLogFileBytes_def demo_chars)

lemma demo_prepare: "flush_prepare demo_pb demo_reply demo_log1 (demo_spool demo_file)
    = FlushUpload (request_at 7 5 [demo_line ''hi'']) (ol_checkpoint demo_log0) 3"
  by (simp add: flush_prepare_def read_batch_def ReadAt_def Uint32_def demo_pb_def saved_batch_def demo_log0_def demo_log1_def
      demo_spool_def demo_file_def demo_reply_def request_at_def maxLogBatchBytes_def demo_line_def)

lemma demo_log_ok: "log_ok demo_log1 (demo_spool demo_file)"
  by (simp add: log_ok_def demo_log1_def demo_log0_def demo_spool_def demo_file_def maxLogFileBytes_def)

lemma demo_log_rep: "log_rep demo_pb demo_log1 (demo_spool demo_file) [[demo_line ''hi'']]"
  using demo_log_ok
  by (simp add: log_rep_def demo_log1_def demo_log0_def demo_spool_def demo_file_def stored_def storable_def demo_pb_def
      saved_batch_def demo_line_def frame_def PutUint32_def maxLogBatchBytes_def demo_chars)

text \<open>A batch is sent, the process crashes before the reply, and the reopened log sends it again.\<close>

definition demo_sent :: log_world where
  "demo_sent = \<lparr> lw_log = Some demo_log1, lw_spool = demo_spool demo_file,
     lw_flight = Some (ol_checkpoint demo_log0, 3), lw_sent = replicate 2 (0, request_at 7 5 [demo_line ''hi'']) \<rparr>"

lemma demo_log_reopen: "OpenOperationLog (\<lambda>_. False) SaveOk (Some j) 7 5 (demo_spool demo_file) = (Inr demo_log1, demo_spool demo_file)"
  by (simp add: OpenOperationLog_def demo_log0_def demo_log1_def demo_spool_def demo_file_def maxLogFileBytes_def)

lemma demo_sent_reachable: "reachable log_init (log_step demo_pb 7) demo_sent"
proof -
  let ?r = "reachable log_init (log_step demo_pb 7)" and ?req = "(0 :: int, request_at 7 5 [demo_line ''hi''])"
  let ?w = "\<lambda>l s f h. \<lparr> lw_log = l, lw_spool = s, lw_flight = f, lw_sent = h \<rparr>" and ?f = "(ol_checkpoint demo_log0, 3)"
  let ?empty = "\<lparr> sp_file = [], sp_checkpoint = CpAbsent \<rparr>" and ?s = "demo_spool demo_file"
  have pos: "cp_Position (ol_checkpoint demo_log0) = 0" by (simp add: demo_log0_def)
  have upload: "log_step demo_pb 7 (?w (Some demo_log1) ?s None h) (?w (Some demo_log1) ?s (Some ?f) (h @ [?req]))" for h
    using step_upload [where w = "?w (Some demo_log1) ?s None h" and env = demo_reply and log = demo_log1 and pb = demo_pb
        and version = 7 and request = "snd ?req" and checkpoint = "ol_checkpoint demo_log0" and n = 3] demo_prepare pos
    by simp
  have "?r (?w None ?empty None [])" by (rule reach_init) (simp add: log_init_def)
  moreover have "log_step demo_pb 7 (?w None ?empty None []) (?w (Some demo_log0) (demo_spool []) None [])"
    by (rule step_open [where w = "?w None ?empty None []", simplified, OF demo_log_open])
  ultimately have "?r (?w (Some demo_log0) (demo_spool []) None [])" by (rule reach_step)
  moreover have "log_step demo_pb 7 (?w (Some demo_log0) (demo_spool []) None []) (?w (Some demo_log1) ?s None [])"
    by (rule step_append [where w = "?w (Some demo_log0) (demo_spool []) None []" and log = demo_log0, simplified, OF demo_append])
  ultimately have "?r (?w (Some demo_log1) ?s None [])" by (rule reach_step)
  then have "?r (?w (Some demo_log1) ?s (Some ?f) ([] @ [?req]))" using upload by (rule reach_step)
  moreover have "log_step demo_pb 7 (?w (Some demo_log1) ?s (Some ?f) ([] @ [?req])) (?w None ?s None [?req])"
    using step_crash [where w = "?w (Some demo_log1) ?s (Some ?f) ([] @ [?req])"] by simp
  ultimately have "?r (?w None ?s None [?req])" by (rule reach_step)
  moreover have "log_step demo_pb 7 (?w None ?s None [?req]) (?w (Some demo_log1) ?s None [?req])"
    by (rule step_open [where w = "?w None ?s None [?req]", simplified, OF demo_log_reopen])
  ultimately have "?r (?w (Some demo_log1) ?s None [?req])" by (rule reach_step)
  then have "?r (?w (Some demo_log1) ?s (Some ?f) ([?req] @ [?req]))" using upload by (rule reach_step)
  then show ?thesis by (simp add: demo_sent_def numeral_2_eq_2)
qed

theorem log_replay_identical_witness:
  "snd (lw_sent demo_sent ! 0) = snd (lw_sent demo_sent ! 1) \<and> ur_Lines (snd (lw_sent demo_sent ! 0)) = [demo_line ''hi'']
    \<and> ur_OperationRversion (snd (lw_sent demo_sent ! 0)) = 7"
proof -
  let ?r = "request_at 7 5 [demo_line ''hi'']"
  have "(0, ?r) \<in> set (lw_sent demo_sent)" by (simp add: demo_sent_def)
  then have "?r = ?r \<and> ur_ProtocolVersion ?r = 1 \<and> ur_OperationRversion ?r = 7 \<and> ur_Lines ?r \<noteq> []"
    using log_replay_identical [OF demo_sent_reachable] by blast
  then show ?thesis by (simp add: demo_sent_def request_at_def saved_batch_def)
qed

theorem flush_terminates_witness:
  "\<exists>r sent log' sp'. Flush demo_pb (\<lambda>_. demo_reply) 0 [] demo_log1 (demo_spool demo_file) = Some (r, sent, log', sp')
    \<and> int (length sent) \<le> 1 + maxLogFileBytes div 5"
proof -
  have "cp_Position (ol_checkpoint demo_log1) = 0" by (simp add: demo_log1_def demo_log0_def)
  then show ?thesis using flush_terminates [OF demo_log_ok, of demo_pb "\<lambda>_. demo_reply"] by auto
qed

theorem operation_log_refines_queue_witness:
  "\<exists>log' sp'. Flush demo_pb (\<lambda>_. demo_reply) 0 [] demo_log1 (demo_spool demo_file)
      = Some (None, [request_at 7 5 [demo_line ''hi'']], log', sp')
    \<and> log_rep demo_pb log' sp' [] \<and> cp_Offset (ol_checkpoint log') = 9"
proof -
  have "drain (\<lambda>_. demo_reply) 0 (ol_version demo_log1) (cp_Offset (ol_checkpoint demo_log1)) [[demo_line ''hi'']]
      = (None, [request_at 7 5 [demo_line ''hi'']], [], 9, False)"
    by (simp add: round_error_def bad_ack_def demo_reply_def demo_log1_def demo_log0_def)
  moreover have "\<not> cp_Closed (ol_checkpoint demo_log1)" "fe_appends demo_reply = []"
    by (simp_all add: demo_log1_def demo_log0_def demo_reply_def)
  ultimately show ?thesis
    using operation_log_refines_queue [OF demo_codec_ok demo_log_rep, where env = "\<lambda>_. demo_reply", THEN conjunct2] by auto
qed

end
