(* ===== verification/Output.thy ===== *)
theory Output
  imports Operation_Log Endpoint_Contract Base64
begin

text \<open>
  The output sink of the Runtime Agent (\<open>internal/agent/output.go\<close>): standard output and error are
  cut into lines, redacted and collected into batches for the operation log. The readings of the
  clock and the outcomes of the writes to the spool are sequences that the sink consumes
  (\<open>output_env\<close>, with the number of readings so far in the state). The two notification channels hold
  at most one token each. The regular expressions are written out as scanners over bytes: their
  classes are disjoint from what follows them, so a greedy match is the only one.
\<close>

section \<open>Redaction\<close>

text \<open>\<open>strings.NewReplacer\<close> with one replacement: at each position the first value that matches.\<close>

fun first_prefix :: "string list \<Rightarrow> string \<Rightarrow> string option" where
  "first_prefix [] s = None"
| "first_prefix (v # vs) s = (case strip_prefix v s of Some rest \<Rightarrow> Some rest | None \<Rightarrow> first_prefix vs s)"

definition redacted :: string where
  "redacted = ''[redacted]''"

text \<open>\<open>k\<close> positions are passed over: they belong to the match that was replaced.\<close>

fun replace_from :: "string list \<Rightarrow> nat \<Rightarrow> string \<Rightarrow> string" where
  "replace_from values k [] = []"
| "replace_from values (Suc k) (c # s) = replace_from values k s"
| "replace_from values 0 (c # s) =
     (case first_prefix values (c # s) of
        None \<Rightarrow> c # replace_from values 0 s
      | Some rest \<Rightarrow> redacted @ replace_from values (length s - length rest) s)"

definition Replace :: "string list \<Rightarrow> string \<Rightarrow> string" where
  "Replace values s = replace_from values 0 s"

definition ascii_word :: "char \<Rightarrow> bool" where
  "ascii_word c \<longleftrightarrow> between 48 c 57 \<or> between 65 c 90 \<or> c = CHR ''_'' \<or> between 97 c 122"

definition regexp_space :: "char \<Rightarrow> bool" where
  "regexp_space c \<longleftrightarrow> c \<in> {CHR 0x09, CHR 0x0A, CHR 0x0C, CHR 0x0D, CHR 0x20}"

text \<open>
  A letter of a case-insensitive word: itself, its upper case, and for \<open>s\<close> also the long s (U+017F),
  which folds to it.
\<close>

definition fold_letter :: "char \<Rightarrow> string \<Rightarrow> string option" where
  "fold_letter l s =
     (case s of
        [] \<Rightarrow> None
      | c # rest \<Rightarrow>
          if c = l \<or> byte c + 32 = byte l then Some rest
          else if l = CHR ''s'' then strip_prefix [CHR 0xC5, CHR 0xBF] s else None)"

fun fold_word :: "string \<Rightarrow> string \<Rightarrow> string option" where
  "fold_word [] s = Some s"
| "fold_word (l # ls) s = (case fold_letter l s of None \<Rightarrow> None | Some rest \<Rightarrow> fold_word ls rest)"

text \<open>The characters of a token, with the two code points that fold into the class (U+017F and U+212A).\<close>

definition token_class :: "char \<Rightarrow> bool" where
  "token_class c \<longleftrightarrow> between 48 c 57 \<or> between 65 c 90 \<or> between 97 c 122 \<or> c \<in> set ''._~+/=-''"

fun drop_token :: "string \<Rightarrow> string" where
  "drop_token [] = []"
| "drop_token [a] = (if token_class a then [] else [a])"
| "drop_token (a # b # s) =
     (if token_class a then drop_token (b # s)
      else if a = CHR 0xC5 \<and> b = CHR 0xBF then drop_token s
      else if a = CHR 0xE2 \<and> b = CHR 0x84 \<and> s \<noteq> [] \<and> hd s = CHR 0xAA then drop_token (tl s)
      else a # b # s)"

text \<open>
  \<open>logAuthorizationPattern\<close> at a position: what follows the scheme and its spaces, and what follows
  the token.
\<close>

definition match_authorization :: "bool \<Rightarrow> string \<Rightarrow> (string \<times> string) option" where
  "match_authorization prev_word s =
     (if prev_word then None
      else case (case fold_word ''bearer'' s of Some r \<Rightarrow> Some r | None \<Rightarrow> fold_word ''basic'' s) of
        None \<Rightarrow> None
      | Some r \<Rightarrow>
          (let token = dropWhile regexp_space r; rest = drop_token token
           in if token = r \<or> rest = token then None else Some (token, rest)))"

fun redact_authorization :: "bool \<Rightarrow> nat \<Rightarrow> string \<Rightarrow> string" where
  "redact_authorization prev_word k [] = []"
| "redact_authorization prev_word (Suc k) (c # s) = redact_authorization (ascii_word c) k s"
| "redact_authorization prev_word 0 (c # s) =
     (case match_authorization prev_word (c # s) of
        None \<Rightarrow> c # redact_authorization (ascii_word c) 0 s
      | Some (token, rest) \<Rightarrow>
          take (Suc (length s) - length token) (c # s) @ redacted
            @ redact_authorization (ascii_word c) (length s - length rest) s)"

definition scheme_char :: "char \<Rightarrow> bool" where
  "scheme_char c \<longleftrightarrow> between 97 c 122 \<or> between 48 c 57 \<or> c \<in> set ''+.-''"

definition userinfo_char :: "char \<Rightarrow> bool" where
  "userinfo_char c \<longleftrightarrow> \<not> (c = CHR ''/'' \<or> c = CHR ''@'' \<or> regexp_space c)"

text \<open>\<open>logURLCredentialsPattern\<close> at a position: what follows the scheme, and what follows the at sign.\<close>

definition match_url_credentials :: "string \<Rightarrow> (string \<times> string) option" where
  "match_url_credentials s =
     (case s of
        [] \<Rightarrow> None
      | c # s' \<Rightarrow>
          if \<not> between 97 c 122 then None
          else case strip_prefix ''://'' (dropWhile scheme_char s') of
            None \<Rightarrow> None
          | Some user \<Rightarrow>
              (let rest = dropWhile userinfo_char user
               in if rest = user then None
                  else case rest of [] \<Rightarrow> None | d # after \<Rightarrow> if d = CHR ''@'' then Some (user, after) else None))"

fun redact_url :: "nat \<Rightarrow> string \<Rightarrow> string" where
  "redact_url k [] = []"
| "redact_url (Suc k) (c # s) = redact_url k s"
| "redact_url 0 (c # s) =
     (case match_url_credentials (c # s) of
        None \<Rightarrow> c # redact_url 0 s
      | Some (user, after) \<Rightarrow>
          take (Suc (length s) - length user) (c # s) @ redacted @ ''@'' @ redact_url (length s - length after) s)"

text \<open>\<open>strings.ToValidUTF8\<close> with U+FFFD: one replacement for each run of invalid bytes.\<close>

fun to_valid :: "bool \<Rightarrow> nat \<Rightarrow> string \<Rightarrow> string" where
  "to_valid invalid k [] = []"
| "to_valid invalid (Suc k) (c # s) = c # to_valid False k s"
| "to_valid invalid 0 (c # s) =
     (if rune_width (c # s) = 0
      then (if invalid then [] else [CHR 0xEF, CHR 0xBF, CHR 0xBD]) @ to_valid True 0 s
      else c # to_valid False (rune_width (c # s) - 1) s)"

definition ToValidUTF8 :: "string \<Rightarrow> string" where
  "ToValidUTF8 s = to_valid False 0 s"

section \<open>The sink\<close>

record outputWriter =
  ow_pending :: string
  ow_discarding :: bool

record Output =
  out_log :: OperationLog
  out_spool :: spool
  out_values :: "string list"
  out_stdout :: outputWriter
  out_stderr :: outputWriter
  out_err :: "log_error option"
  out_truncated :: bool
  out_pending :: "LogLine list"
  out_pendingBytes :: int
  out_ready :: bool
  out_pendingChanged :: bool
  out_reads :: nat
  out_writes :: nat

record output_env =
  oe_pb :: log_codec
  oe_clock :: "nat \<Rightarrow> int"
  oe_write :: "nat \<Rightarrow> write_outcome"

definition maxOutputLineBytes :: nat where
  "maxOutputLineBytes = 32 * 1024"

definition line_omitted :: string where
  "line_omitted = ''[output line omitted: exceeds 32 KiB]''"

definition redacted_line_omitted :: string where
  "redacted_line_omitted = ''[output line omitted: redacted line exceeds 32 KiB]''"

definition redact_message :: "string list \<Rightarrow> string \<Rightarrow> string" where
  "redact_message values message =
     (let message = ToValidUTF8 (redact_url 0 (redact_authorization False 0 (Replace values message)))
      in if length message > maxOutputLineBytes then redacted_line_omitted else message)"

text \<open>\<open>flushPending\<close>: the second reading of the clock is the one of the truncation notice in \<open>Append\<close>.\<close>

definition flushPending :: "output_env \<Rightarrow> Output \<Rightarrow> Output" where
  "flushPending env o1 =
     (if out_pending o1 = [] \<or> out_err o1 \<noteq> None \<or> out_truncated o1 then o1
      else
        (case log_Append (oe_pb env) (oe_clock env (out_reads o1)) (oe_write env (out_writes o1))
                (map Some (out_pending o1)) (out_log o1) (out_spool o1) of
           (err, log, sp) \<Rightarrow>
             (let o2 = o1\<lparr> out_log := log, out_spool := sp, out_pending := [], out_pendingBytes := 0,
                           out_reads := Suc (out_reads o1), out_writes := Suc (out_writes o1) \<rparr>
              in case err of
                   Some e \<Rightarrow> if e = ErrLogFull then o2\<lparr> out_truncated := True \<rparr> else o2\<lparr> out_err := Some e \<rparr>
                 | None \<Rightarrow> o2\<lparr> out_ready := True \<rparr>)))"

definition output_append :: "output_env \<Rightarrow> string \<Rightarrow> Output \<Rightarrow> Output" where
  "output_append env message o1 =
     (let message = redact_message (out_values o1) message
      in if out_err o1 \<noteq> None \<or> out_truncated o1 then o1
         else
           (let o2 = o1\<lparr> out_pending := out_pending o1 @
                             [\<lparr> ll_TimestampUnixNano = oe_clock env (out_reads o1), ll_Message = message \<rparr>],
                         out_reads := Suc (out_reads o1),
                         out_pendingBytes := out_pendingBytes o1 + int (length message),
                         out_pendingChanged := True \<rparr>
            in if length (out_pending o2) \<ge> 64 \<or> out_pendingBytes o2 \<ge> 128 * 1024 then flushPending env o2 else o2))"

text \<open>The loop of \<open>Write\<close>: one part of a line per round, up to the next newline or the end of the data.\<close>

definition take_part :: "string \<Rightarrow> string" where
  "take_part data = takeWhile (\<lambda>c. c \<noteq> CHR 0x0A) data"

definition after_part :: "string \<Rightarrow> string option" where
  "after_part data = (case dropWhile (\<lambda>c. c \<noteq> CHR 0x0A) data of [] \<Rightarrow> None | _ # rest \<Rightarrow> Some rest)"

definition trim_cr :: "string \<Rightarrow> string" where
  "trim_cr s = (if s \<noteq> [] \<and> last s = CHR 0x0D then butlast s else s)"

definition collect_part :: "output_env \<Rightarrow> string \<Rightarrow> outputWriter \<times> Output \<Rightarrow> outputWriter \<times> Output" where
  "collect_part env part = (\<lambda>(w, out).
     if ow_discarding w then (w, out)
     else if length (ow_pending w) + length part > maxOutputLineBytes
     then (w\<lparr> ow_pending := [], ow_discarding := True \<rparr>, output_append env line_omitted out)
     else (w\<lparr> ow_pending := ow_pending w @ part \<rparr>, out))"

definition end_line :: "output_env \<Rightarrow> outputWriter \<times> Output \<Rightarrow> outputWriter \<times> Output" where
  "end_line env = (\<lambda>(w, out).
     (\<lparr> ow_pending = [], ow_discarding = False \<rparr>,
      if ow_discarding w then out else output_append env (trim_cr (ow_pending w)) out))"

lemma after_part_shorter: "after_part data = Some rest \<Longrightarrow> length rest < length data"
proof -
  assume "after_part data = Some rest"
  then obtain c where "dropWhile (\<lambda>c. c \<noteq> CHR 0x0A) data = c # rest" by (auto simp: after_part_def split: list.splits)
  then have "length (dropWhile (\<lambda>c. c \<noteq> CHR 0x0A) data) = Suc (length rest)" by simp
  then show ?thesis using length_dropWhile_le [of "\<lambda>c. c \<noteq> CHR 0x0A" data] by simp
qed

function write_loop :: "output_env \<Rightarrow> string \<Rightarrow> outputWriter \<times> Output \<Rightarrow> outputWriter \<times> Output" where
  "write_loop env data s =
     (if data = [] then s
      else
        (let s = collect_part env (take_part data) s
         in case after_part data of
              None \<Rightarrow> s
            | Some rest \<Rightarrow> write_loop env rest (end_line env s)))"
  by pat_completeness auto
termination
  by (relation "measure (\<lambda>(env, data, s). length data)") (auto dest: after_part_shorter)

declare write_loop.simps [simp del]

text \<open>\<open>Write\<close> of the two writers, with the count that it returns.\<close>

definition Write_stdout :: "output_env \<Rightarrow> string \<Rightarrow> Output \<Rightarrow> nat \<times> Output" where
  "Write_stdout env data o1 =
     (case write_loop env data (out_stdout o1, o1) of (w, o2) \<Rightarrow> (length data, o2\<lparr> out_stdout := w \<rparr>))"

definition Write_stderr :: "output_env \<Rightarrow> string \<Rightarrow> Output \<Rightarrow> nat \<times> Output" where
  "Write_stderr env data o1 =
     (case write_loop env data (out_stderr o1, o1) of (w, o2) \<Rightarrow> (length data, o2\<lparr> out_stderr := w \<rparr>))"

definition flush_writer :: "output_env \<Rightarrow> outputWriter \<Rightarrow> Output \<Rightarrow> Output" where
  "flush_writer env w o1 = (if ow_pending w \<noteq> [] \<and> \<not> ow_discarding w then output_append env (ow_pending w) o1 else o1)"

definition FlushLines :: "output_env \<Rightarrow> Output \<Rightarrow> Output" where
  "FlushLines env o1 =
     (let o2 = flush_writer env (out_stdout o1) o1;
          o3 = o2\<lparr> out_stdout := (out_stdout o2)\<lparr> ow_pending := [] \<rparr> \<rparr>;
          o4 = flush_writer env (out_stderr o3) o3;
          o5 = o4\<lparr> out_stderr := (out_stderr o4)\<lparr> ow_pending := [] \<rparr> \<rparr>
      in flushPending env o5)"

text \<open>A round of \<open>Upload\<close> after the wait: pending lines are saved, the log is flushed, and the timer is set.\<close>

definition upload_round ::
    "output_env \<Rightarrow> (nat \<Rightarrow> flush_env) \<Rightarrow> Output \<Rightarrow> (duration \<times> Output) option" where
  "upload_round env fenv o1 =
     (let o2 = flushPending env o1
      in case Flush (oe_pb env) fenv 0 [] (out_log o2) (out_spool o2) of
           None \<Rightarrow> None
         | Some (err, sent, log, sp) \<Rightarrow>
             Some (if err \<noteq> None then second else 30 * second, o2\<lparr> out_log := log, out_spool := sp \<rparr>))"

section \<open>Construction\<close>

text \<open>\<open>strings.FieldsFunc\<close> at carriage returns and newlines: the non-empty pieces.\<close>

fun line_fields :: "string \<Rightarrow> string \<Rightarrow> string list" where
  "line_fields acc [] = (if acc = [] then [] else [acc])"
| "line_fields acc (c # s) =
     (if c = CHR 0x0D \<or> c = CHR 0x0A then (if acc = [] then [] else [acc]) @ line_fields [] s
      else line_fields (acc @ [c]) s)"

definition upper_hex :: "nat \<Rightarrow> char" where
  "upper_hex n = ''0123456789ABCDEF'' ! n"

definition QueryEscape :: "string \<Rightarrow> string" where
  "QueryEscape s = concat (map (\<lambda>c.
     if between 48 c 57 \<or> between 65 c 90 \<or> between 97 c 122 \<or> c \<in> set ''-_.~'' then [c]
     else if c = CHR '' '' then ''+''
     else [CHR ''%'', upper_hex (byte c div 16), upper_hex (byte c mod 16)]) s)"

definition StdEncode :: "string \<Rightarrow> string" where
  "StdEncode s =
     (let e = map (\<lambda>c. if c = CHR ''-'' then CHR ''+'' else if c = CHR ''_'' then CHR ''/'' else c) (RawURLEncode s)
      in e @ replicate ((4 - length e mod 4) mod 4) (CHR ''=''))"

text \<open>The values to hide, each once; \<open>order\<close> is the order in which the map is iterated.\<close>

definition secret_values :: "string list \<Rightarrow> string list" where
  "secret_values credentials =
     remdups (concat (map (\<lambda>v. [v, QueryEscape v, StdEncode v]) (concat (map (line_fields []) credentials))))"

definition NewOutput :: "(string list \<Rightarrow> string list) \<Rightarrow> OperationLog \<Rightarrow> spool \<Rightarrow> string list \<Rightarrow> Output" where
  "NewOutput order log sp credentials =
     (let w = \<lparr> ow_pending = [], ow_discarding = False \<rparr>
      in \<lparr> out_log = log, out_spool = sp,
           out_values = sort_key (\<lambda>v. - int (length v)) (order (secret_values credentials)),
           out_stdout = w, out_stderr = w, out_err = None, out_truncated = False, out_pending = [],
           out_pendingBytes = 0, out_ready = False, out_pendingChanged = False, out_reads = 0, out_writes = 0 \<rparr>)"

section \<open>Chunks do not matter\<close>

lemma part_simps:
  "take_part [] = []" "take_part (c # s) = (if c = CHR 0x0A then [] else c # take_part s)"
  "after_part [] = None" "after_part (c # s) = (if c = CHR 0x0A then Some s else after_part s)"
  by (simp_all add: take_part_def after_part_def)

lemma take_part_append: "take_part (xs @ ys) = (if after_part xs = None then xs @ take_part ys else take_part xs)"
  and after_part_append: "after_part (xs @ ys) = (case after_part xs of None \<Rightarrow> after_part ys | Some r \<Rightarrow> Some (r @ ys))"
  by (induction xs) (simp_all add: part_simps)

lemma after_part_None: "after_part xs = None \<Longrightarrow> take_part xs = xs"
  by (induction xs) (simp_all add: part_simps split: if_splits)

lemma collect_part_append:
  assumes "length (ow_pending w) \<le> maxOutputLineBytes" 
  shows "collect_part env ys (collect_part env xs (w, out)) = collect_part env (xs @ ys) (w, out)"
  using assms by (cases "ow_discarding w") (simp_all add: collect_part_def)

definition writer_ok :: "outputWriter \<Rightarrow> bool" where
  "writer_ok w \<longleftrightarrow> length (ow_pending w) \<le> maxOutputLineBytes"

lemma collect_part_ok: "writer_ok (fst s) \<Longrightarrow> writer_ok (fst (collect_part env part s))"
  by (auto simp: collect_part_def writer_ok_def split: prod.splits)

lemma end_line_ok [simp]: "writer_ok (fst (end_line env s))"
  by (auto simp: end_line_def writer_ok_def split: prod.splits)

lemma collect_nothing: "writer_ok (fst s) \<Longrightarrow> collect_part env [] s = s"
  by (auto simp: collect_part_def writer_ok_def split: prod.splits)

lemma write_loop_ok: "writer_ok (fst s) \<Longrightarrow> writer_ok (fst (write_loop env data s))"
proof (induction env data s rule: write_loop.induct)
  case (1 env data s)
  then show ?case by (subst write_loop.simps) (auto simp: Let_def collect_part_ok split: option.splits)
qed

text \<open>One round, also for no data.\<close>

lemma write_loop_round:
  assumes "writer_ok (fst s)"
  shows "write_loop env data s =
    (case after_part data of None \<Rightarrow> collect_part env (take_part data) s
     | Some rest \<Rightarrow> write_loop env rest (end_line env (collect_part env (take_part data) s)))"
proof (cases "data = []")
  case True
  then show ?thesis using collect_nothing [OF assms] by (simp add: write_loop.simps after_part_def take_part_def)
next
  case False
  then show ?thesis by (subst write_loop.simps) (simp add: Let_def)
qed

lemma write_loop_append: "writer_ok (fst s) \<Longrightarrow> write_loop env ys (write_loop env xs s) = write_loop env (xs @ ys) s"
proof (induction env xs s rule: write_loop.induct)
  case (1 env xs s)
  show ?case
  proof (cases "after_part xs")
    case None
    obtain w out where s: "s = (w, out)" by fastforce
    have c: "collect_part env zs (collect_part env xs s) = collect_part env (xs @ zs) s" for zs
      using collect_part_append 1(2) unfolding s by (simp add: writer_ok_def)
    have "write_loop env xs s = collect_part env xs s"
      using write_loop_round [OF 1(2), of env xs] None by (simp add: after_part_None)
    then show ?thesis
      using write_loop_round [OF collect_part_ok [OF 1(2)], of env ys env xs] write_loop_round [OF 1(2), of env "xs @ ys"] None
      by (cases "after_part ys") (simp_all add: take_part_append after_part_append c)
  next
    case (Some rest)
    then have "xs \<noteq> []" by (auto simp: after_part_def)
    then have ih: "write_loop env ys (write_loop env rest (end_line env (collect_part env (take_part xs) s)))
        = write_loop env (rest @ ys) (end_line env (collect_part env (take_part xs) s))"
      using 1(1) [OF _ refl Some] by simp
    then show ?thesis
      using write_loop_round [OF 1(2), of env xs] write_loop_round [OF 1(2), of env "xs @ ys"] Some
      by (simp add: take_part_append after_part_append)
  qed
qed

lemma flushPending_writers:
  "flushPending env (o1\<lparr> out_stdout := x \<rparr>) = (flushPending env o1)\<lparr> out_stdout := x \<rparr>"
  "flushPending env (o1\<lparr> out_stderr := x \<rparr>) = (flushPending env o1)\<lparr> out_stderr := x \<rparr>"
  by (simp_all add: flushPending_def Let_def split: prod.split option.split)

lemma output_append_writers:
  "output_append env m (o1\<lparr> out_stdout := x \<rparr>) = (output_append env m o1)\<lparr> out_stdout := x \<rparr>"
  "output_append env m (o1\<lparr> out_stderr := x \<rparr>) = (output_append env m o1)\<lparr> out_stderr := x \<rparr>"
proof -
  note c = output_append_def Let_def
  define p where "p = (\<lambda>o2 :: Output. o2\<lparr> out_pending := out_pending o2 @ [\<lparr> ll_TimestampUnixNano = oe_clock env (out_reads o2),
        ll_Message = redact_message (out_values o2) m \<rparr>], out_reads := Suc (out_reads o2),
      out_pendingBytes := out_pendingBytes o2 + int (length (redact_message (out_values o2) m)), out_pendingChanged := True \<rparr>)"
  have "p (o1\<lparr> out_stdout := x \<rparr>) = (p o1)\<lparr> out_stdout := x \<rparr>" "p (o1\<lparr> out_stderr := x \<rparr>) = (p o1)\<lparr> out_stderr := x \<rparr>"
    by (simp_all add: p_def)
  moreover have "output_append env m o2 = (if out_err o2 \<noteq> None \<or> out_truncated o2 then o2
      else if length (out_pending (p o2)) \<ge> 64 \<or> out_pendingBytes (p o2) \<ge> 128 * 1024 then flushPending env (p o2) else p o2)" for o2
    by (simp add: c p_def)
  ultimately show "output_append env m (o1\<lparr> out_stdout := x \<rparr>) = (output_append env m o1)\<lparr> out_stdout := x \<rparr>"
    "output_append env m (o1\<lparr> out_stderr := x \<rparr>) = (output_append env m o1)\<lparr> out_stderr := x \<rparr>"
    by (simp_all add: flushPending_writers)
qed

definition on_output :: "(Output \<Rightarrow> Output) \<Rightarrow> outputWriter \<times> Output \<Rightarrow> outputWriter \<times> Output" where
  "on_output f = map_prod id f"

lemma write_loop_commutes:
  assumes "\<And>m o1. output_append env m (f o1) = f (output_append env m o1)"
  shows "write_loop env data (on_output f s) = on_output f (write_loop env data s)"
proof (induction env data s rule: write_loop.induct [where P = "\<lambda>e d s. e = env \<longrightarrow> write_loop e d (on_output f s) = on_output f (write_loop e d s)", THEN mp])
  case (1 e data s)
  show ?case
  proof
    assume e: "e = env"
    have c: "collect_part env part (on_output f s) = on_output f (collect_part env part s)" for part s
      by (cases s) (simp add: collect_part_def on_output_def assms)
    have l: "end_line env (on_output f s) = on_output f (end_line env s)" for s
      by (cases s) (simp add: end_line_def on_output_def assms)
    show "write_loop e data (on_output f s) = on_output f (write_loop e data s)"
    proof (cases "data = []")
      case True
      then show ?thesis by (simp add: write_loop.simps)
    next
      case False
      show ?thesis
      proof (cases "after_part data")
        case None
        then show ?thesis using False by (simp add: write_loop.simps e c)
      next
        case (Some rest)
        then have "write_loop env rest (on_output f (end_line env (collect_part env (take_part data) s)))
            = on_output f (write_loop env rest (end_line env (collect_part env (take_part data) s)))"
          using 1 [OF False refl Some] e by simp
        then show ?thesis using False Some by (simp add: write_loop.simps [of _ data] e c l)
      qed
    qed
  qed
qed simp

lemma Write_stdout_append:
  assumes "writer_ok (out_stdout o1)"
  shows "snd (Write_stdout env ys (snd (Write_stdout env xs o1))) = snd (Write_stdout env (xs @ ys) o1)"
proof -
  obtain w o2 where x: "write_loop env xs (out_stdout o1, o1) = (w, o2)" by fastforce
  obtain w' o3 where y: "write_loop env ys (w, o2) = (w', o3)" by fastforce
  have "write_loop env ys (w, o2\<lparr> out_stdout := w \<rparr>) = (w', o3\<lparr> out_stdout := w \<rparr>)"
    using write_loop_commutes [of env "\<lambda>p. p\<lparr> out_stdout := w \<rparr>" ys "(w, o2)", OF output_append_writers(1)] y
    by (simp add: on_output_def)
  moreover have "write_loop env (xs @ ys) (out_stdout o1, o1) = (w', o3)"
    using write_loop_append [of "(out_stdout o1, o1)" env ys xs] assms x y by simp
  ultimately show ?thesis using x by (simp add: Write_stdout_def)
qed

lemma Write_stderr_append:
  assumes "writer_ok (out_stderr o1)"
  shows "snd (Write_stderr env ys (snd (Write_stderr env xs o1))) = snd (Write_stderr env (xs @ ys) o1)"
proof -
  obtain w o2 where x: "write_loop env xs (out_stderr o1, o1) = (w, o2)" by fastforce
  obtain w' o3 where y: "write_loop env ys (w, o2) = (w', o3)" by fastforce
  have "write_loop env ys (w, o2\<lparr> out_stderr := w \<rparr>) = (w', o3\<lparr> out_stderr := w \<rparr>)"
    using write_loop_commutes [of env "\<lambda>p. p\<lparr> out_stderr := w \<rparr>" ys "(w, o2)", OF output_append_writers(2)] y
    by (simp add: on_output_def)
  moreover have "write_loop env (xs @ ys) (out_stderr o1, o1) = (w', o3)"
    using write_loop_append [of "(out_stderr o1, o1)" env ys xs] assms x y by simp
  ultimately show ?thesis using x by (simp add: Write_stderr_def)
qed

lemma Write_nothing: "snd (Write_stdout env [] o1) = o1" "snd (Write_stderr env [] o1) = o1"
  by (simp_all add: Write_stdout_def Write_stderr_def write_loop.simps)

lemma Write_writer_ok:
  "writer_ok (out_stdout o1) \<Longrightarrow> writer_ok (out_stdout (snd (Write_stdout env d o1)))"
  "writer_ok (out_stderr o1) \<Longrightarrow> writer_ok (out_stderr (snd (Write_stderr env d o1)))"
  using write_loop_ok [of "(out_stdout o1, o1)" env d] write_loop_ok [of "(out_stderr o1, o1)" env d]
  by (simp_all add: Write_stdout_def Write_stderr_def case_prod_beta)

text \<open>C35: How a child process cuts its output into writes does not matter: writing the chunks one by one
  leaves the sink, its batches, the log and the spool in the state that one write of their
  concatenation leaves, for standard output and for standard error.
\<close>

theorem write_chunks_equal:
  assumes "writer_ok (out_stdout o1)" and "writer_ok (out_stderr o1)"
  shows "fold (\<lambda>chunk out. snd (Write_stdout env chunk out)) chunks o1 = snd (Write_stdout env (concat chunks) o1)
    \<and> fold (\<lambda>chunk out. snd (Write_stderr env chunk out)) chunks o1 = snd (Write_stderr env (concat chunks) o1)"
proof
  show "fold (\<lambda>chunk out. snd (Write_stdout env chunk out)) chunks o1 = snd (Write_stdout env (concat chunks) o1)"
    using assms(1)
    by (induction chunks arbitrary: o1) (simp_all add: Write_nothing Write_writer_ok Write_stdout_append)
  show "fold (\<lambda>chunk out. snd (Write_stderr env chunk out)) chunks o1 = snd (Write_stderr env (concat chunks) o1)"
    using assms(2)
    by (induction chunks arbitrary: o1) (simp_all add: Write_nothing Write_writer_ok Write_stderr_append)
qed

section \<open>Batches fit\<close>

text \<open>What is relied on from the encoding: at most 32 bytes around each message and 64 around the batch.\<close>

definition size_law :: "log_codec \<Rightarrow> bool" where
  "size_law pb \<longleftrightarrow> (\<forall>log lines. pb_Size pb (new_batch log (map Some lines))
     \<le> 64 + sum_list (map (\<lambda>l. 32 + int (length (ll_Message l))) lines))"

definition message_bytes :: "LogLine list \<Rightarrow> int" where
  "message_bytes lines = sum_list (map (\<lambda>l. int (length (ll_Message l))) lines)"

definition never_logged :: "log_error set" where
  "never_logged = {batchTooLarge, invalidLogLine}"

definition output_ok :: "Output \<Rightarrow> bool" where
  "output_ok o1 \<longleftrightarrow> length (out_pending o1) < 64 \<and> out_pendingBytes o1 = message_bytes (out_pending o1)
     \<and> out_pendingBytes o1 < 128 * 1024
     \<and> list_all (\<lambda>l. length (ll_Message l) \<le> maxOutputLineBytes \<and> 0 < ll_TimestampUnixNano l) (out_pending o1)
     \<and> (case out_err o1 of None \<Rightarrow> True | Some e \<Rightarrow> e \<notin> never_logged)"

lemma message_bytes_simps [simp]:
  "message_bytes [] = 0" "message_bytes (xs @ [l]) = message_bytes xs + int (length (ll_Message l))"
  by (simp_all add: message_bytes_def)

lemma batch_sum: "sum_list (map (\<lambda>l. 32 + int (length (ll_Message l))) lines) = 32 * int (length lines) + message_bytes lines"
  by (induction lines) (simp_all add: message_bytes_def)

lemma redact_message_length: "length (redact_message vs m) \<le> maxOutputLineBytes"
  by (simp add: redact_message_def Let_def maxOutputLineBytes_def redacted_line_omitted_def)

lemma append_write_err: "fst (append_write out rec log sp) = Some e \<Longrightarrow> e \<notin> never_logged"
  by (auto simp: append_write_def never_logged_def split: write_outcome.splits if_splits)

lemma log_Append_errors:
  assumes "lines \<noteq> []" and "pb_Size pb (new_batch log lines) \<le> maxLogBatchBytes" and "list_all line_valid lines"
    and "log_Append pb now out lines log sp = (Some e, log', sp')"
  shows "e \<notin> never_logged"
  using assms append_write_err [where e = e] unfolding log_Append_def
  by (auto simp: never_logged_def split: if_splits option.splits) (metis fst_conv)+

lemma flushPending_ok:
  assumes "size_law (oe_pb env)" and "length (out_pending o1) \<le> 64" and "message_bytes (out_pending o1) < 160 * 1024"
    and "list_all (\<lambda>l. length (ll_Message l) \<le> maxOutputLineBytes \<and> 0 < ll_TimestampUnixNano l) (out_pending o1)"
    and "output_ok o1 \<or> (out_pending o1 \<noteq> [] \<and> out_err o1 = None \<and> \<not> out_truncated o1)"
  shows "output_ok (flushPending env o1)"
proof (cases "out_pending o1 = [] \<or> out_err o1 \<noteq> None \<or> out_truncated o1")
  case True
  then show ?thesis using assms(5) by (auto simp: flushPending_def)
next
  case False
  let ?lines = "map Some (out_pending o1)"
  obtain r log sp where a: "log_Append (oe_pb env) (oe_clock env (out_reads o1)) (oe_write env (out_writes o1)) ?lines
      (out_log o1) (out_spool o1) = (r, log, sp)"
    by (cases "log_Append (oe_pb env) (oe_clock env (out_reads o1)) (oe_write env (out_writes o1)) ?lines (out_log o1) (out_spool o1)")
  have "pb_Size (oe_pb env) (new_batch (out_log o1) ?lines) \<le> 64 + (32 * int (length (out_pending o1)) + message_bytes (out_pending o1))"
    using assms(1) unfolding size_law_def batch_sum by blast
  then have "pb_Size (oe_pb env) (new_batch (out_log o1) ?lines) \<le> maxLogBatchBytes"
    using assms(2,3) by (simp add: maxLogBatchBytes_def)
  moreover have "list_all line_valid ?lines" using assms(4) by (simp add: list_all_iff line_valid_def)
  ultimately have "e \<notin> never_logged" if "r = Some e" for e
    using log_Append_errors [OF _ _ _ a [unfolded that]] False by simp
  then show ?thesis using False a by (auto simp: flushPending_def Let_def output_ok_def split: option.split)
qed

lemma output_append_ok:
  assumes "size_law (oe_pb env)" and "\<And>k. 0 < oe_clock env k" and "output_ok o1"
  shows "output_ok (output_append env m o1)"
proof (cases "out_err o1 \<noteq> None \<or> out_truncated o1")
  case True
  then show ?thesis using assms(3) by (auto simp: output_append_def Let_def)
next
  case False
  define msg where "msg = redact_message (out_values o1) m"
  define o2 where "o2 = o1\<lparr> out_pending := out_pending o1 @ [\<lparr> ll_TimestampUnixNano = oe_clock env (out_reads o1), ll_Message = msg \<rparr>],
    out_reads := Suc (out_reads o1), out_pendingBytes := out_pendingBytes o1 + int (length msg), out_pendingChanged := True \<rparr>"
  have len: "length msg \<le> maxOutputLineBytes" by (simp add: msg_def redact_message_length)
  have p: "length (out_pending o2) \<le> 64" "out_pendingBytes o2 = message_bytes (out_pending o2)" "message_bytes (out_pending o2) < 160 * 1024"
    "list_all (\<lambda>l. length (ll_Message l) \<le> maxOutputLineBytes \<and> 0 < ll_TimestampUnixNano l) (out_pending o2)"
    "out_err o2 = None" "\<not> out_truncated o2" "out_pending o2 \<noteq> []"
    using assms(2,3) False len by (auto simp: o2_def output_ok_def maxOutputLineBytes_def)
  have "output_append env m o1 = (if length (out_pending o2) \<ge> 64 \<or> out_pendingBytes o2 \<ge> 128 * 1024 then flushPending env o2 else o2)"
    using False by (simp add: output_append_def Let_def o2_def msg_def)
  then show ?thesis using flushPending_ok [OF assms(1) p(1,3,4)] p by (simp add: output_ok_def)
qed

lemma output_ok_writers [simp]:
  "output_ok (o1\<lparr> out_stdout := w \<rparr>) = output_ok o1" "output_ok (o1\<lparr> out_stderr := w \<rparr>) = output_ok o1"
  by (simp_all add: output_ok_def)

lemma write_loop_output_ok:
  assumes "\<And>m o1. output_ok o1 \<Longrightarrow> output_ok (output_append env m o1)" and "output_ok (snd s)"
  shows "output_ok (snd (write_loop env data s))"
proof -
  have "e = env \<longrightarrow> output_ok (snd s) \<longrightarrow> output_ok (snd (write_loop e data s))" for e
  proof (induction e data s rule: write_loop.induct)
    case (1 e data s)
    have "output_ok (snd (end_line env (collect_part env part s)))" "output_ok (snd (collect_part env part s))" if "output_ok (snd s)" for part
      using that assms(1) by (auto simp: end_line_def collect_part_def split: prod.split)
    with 1 show ?case by (subst write_loop.simps) (auto simp: Let_def split: option.split)
  qed
  with assms(2) show ?thesis by blast
qed

text \<open>The sink never loses output to the limits of the log: a batch has at most 64 lines of at most
  32 KiB, and whatever is written, in whatever order, no append to the log is refused because the
  batch is too large or a line is invalid. The state it starts in has this property and every
  operation keeps it.
\<close>

theorem output_batches_fit:
  assumes "size_law (oe_pb env)" and "\<And>k. 0 < oe_clock env k"
  shows "output_ok (NewOutput order log sp credentials)
    \<and> (output_ok o1 \<longrightarrow> output_ok (snd (Write_stdout env data o1)) \<and> output_ok (snd (Write_stderr env data o1))
         \<and> output_ok (FlushLines env o1) \<and> output_ok (flushPending env o1))"
proof (intro conjI impI)
  note app = output_append_ok [OF assms]
  show "output_ok (NewOutput order log sp credentials)" by (simp add: NewOutput_def Let_def output_ok_def)
  assume ok: "output_ok o1"
  show "output_ok (snd (Write_stdout env data o1))"
    using write_loop_output_ok [of env "(out_stdout o1, o1)" data, OF app] ok by (auto simp: Write_stdout_def split: prod.split)
  show "output_ok (snd (Write_stderr env data o1))"
    using write_loop_output_ok [of env "(out_stderr o1, o1)" data, OF app] ok by (auto simp: Write_stderr_def split: prod.split)
  have fl: "output_ok (flushPending env o2)" if "output_ok o2" for o2
    using flushPending_ok [OF assms(1), of o2] that by (simp add: output_ok_def)
  have fw: "output_ok (flush_writer env w o2)" if "output_ok o2" for w o2
    using app that by (simp add: flush_writer_def)
  show "output_ok (FlushLines env o1)" by (simp add: FlushLines_def Let_def fl fw ok)
  show "output_ok (flushPending env o1)" by (rule fl [OF ok])
qed

section \<open>A concrete sink\<close>

definition demo_sink_env :: output_env where
  "demo_sink_env = \<lparr>
     oe_pb = \<lparr> pb_Marshal = (\<lambda>b. Some (concat (map (\<lambda>l. case l of None \<Rightarrow> [] | Some l \<Rightarrow> ll_Message l) (ur_Lines b)))),
               pb_Unmarshal = (\<lambda>_. None),
               pb_Size = (\<lambda>b. sum_list (map (\<lambda>l. case l of None \<Rightarrow> 0 | Some l \<Rightarrow> int (length (ll_Message l))) (ur_Lines b))) \<rparr>,
     oe_clock = (\<lambda>k. 1 + int k), oe_write = (\<lambda>_. WriteOk) \<rparr>"

definition demo_sink :: Output where
  "demo_sink = NewOutput id
     \<lparr> ol_version = 1, ol_checkpoint = \<lparr> cp_Position = 0, cp_Offset = 0, cp_Closed = False \<rparr>, ol_size = 0, ol_full = False \<rparr>
     \<lparr> sp_file = [], sp_checkpoint = CpAbsent \<rparr> [''hunter2'']"

lemma demo_sink_writers: "writer_ok (out_stdout demo_sink)" "writer_ok (out_stderr demo_sink)"
  by (simp_all add: demo_sink_def NewOutput_def Let_def writer_ok_def)

lemma demo_size_law: "size_law (oe_pb demo_sink_env)"
proof -
  have "sum_list (map (\<lambda>l. int (length (ll_Message l))) lines) \<le> 64 + sum_list (map (\<lambda>l. 32 + int (length (ll_Message l))) lines)" for lines :: "LogLine list"
    by (induction lines) simp_all
  then show ?thesis by (simp add: size_law_def demo_sink_env_def new_batch_def comp_def)
qed

theorem write_chunks_equal_witness:
  "fold (\<lambda>chunk out. snd (Write_stdout demo_sink_env chunk out)) [''ab'', ''c'' @ [CHR 0x0A], ''tail''] demo_sink
    = snd (Write_stdout demo_sink_env (''abc'' @ [CHR 0x0A] @ ''tail'') demo_sink)"
  using write_chunks_equal [OF demo_sink_writers, of demo_sink_env "[''ab'', ''c'' @ [CHR 0x0A], ''tail'']"] by simp

theorem output_batches_fit_witness:
  "output_ok (FlushLines demo_sink_env (snd (Write_stdout demo_sink_env ''unfinished'' demo_sink)))"
proof -
  have clock: "0 < oe_clock demo_sink_env k" for k by (simp add: demo_sink_env_def)
  note fit = output_batches_fit [OF demo_size_law clock]
  have "output_ok demo_sink" unfolding demo_sink_def by (rule fit [THEN conjunct1])
  then have "output_ok (snd (Write_stdout demo_sink_env ''unfinished'' demo_sink))" using fit by blast
  then show ?thesis using fit by blast
qed

end
