(* ===== verification/Feature_Order.thy ===== *)
theory Feature_Order
  imports Endpoint_Contract
begin

text \<open>
  The installation order of Dev Container Features (\<open>devcontainer/docker/feature.go\<close>). A resolved
  Feature is a pointer: an address of a heap of records, so that two Features with equal contents
  stay different. The OCI reference parser, the semantic version library and the Unicode case tables
  are parameters (\<open>feature_libs\<close>). The order loop may not end for arbitrary priorities, hence the
  option type; that it does end for the priorities that \<open>orderFeatures\<close> computes is proved.
\<close>

section \<open>Data\<close>

record featureMetadata =
  fm_ID :: string
  fm_InstallsAfter :: "string list"
  fm_LegacyIDs :: "string list"

record resolvedFeature =
  rf_reference :: string
  rf_references :: "string list"
  rf_resolved :: string
  rf_digest :: string
  rf_options :: "(string, string) fmap"
  rf_providedOptions :: "(string \<times> string) list"
  rf_metadata :: featureMetadata
  rf_lockable :: bool
  rf_hardDependencies :: "nat list"
  rf_softDependencies :: "nat list"

record oci_reference =
  oci_Registry :: string
  oci_Repository :: string
  oci_Reference :: string

record 'v feature_libs =
  fl_ParseReference :: "string \<Rightarrow> oci_reference option"
  fl_NewVersion :: "string \<Rightarrow> 'v option"
  fl_Compare :: "'v \<Rightarrow> 'v \<Rightarrow> int"
  fl_ToLower :: "string \<Rightarrow> string"
  fl_EqualFold :: "string \<Rightarrow> string \<Rightarrow> bool"

type_synonym feature_heap = "nat \<Rightarrow> resolvedFeature"

datatype feature_error = overrideNotResolved string | dependencyCycle

section \<open>Library functions\<close>

text \<open>\<open>strings.Compare\<close> and \<open>bytes.Compare\<close>: lexicographic by bytes.\<close>

fun byte_compare :: "string \<Rightarrow> string \<Rightarrow> int" where
  "byte_compare [] [] = 0"
| "byte_compare [] (_ # _) = -1"
| "byte_compare (_ # _) [] = 1"
| "byte_compare (a # s) (b # t) =
     (if (of_char a :: nat) < of_char b then -1 else if (of_char b :: nat) < of_char a then 1 else byte_compare s t)"

text \<open>
  \<open>slices.SortFunc\<close>: the insertion sort that it is for up to twelve elements. An element moves left
  while it compares below its neighbour; the sorted prefix is kept in reverse.
\<close>

fun insert_left :: "('a \<Rightarrow> 'a \<Rightarrow> int) \<Rightarrow> 'a \<Rightarrow> 'a list \<Rightarrow> 'a list" where
  "insert_left cmp x [] = [x]"
| "insert_left cmp x (y # ys) = (if cmp x y < 0 then y # insert_left cmp x ys else x # y # ys)"

definition SortFunc :: "('a \<Rightarrow> 'a \<Rightarrow> int) \<Rightarrow> 'a list \<Rightarrow> 'a list" where
  "SortFunc cmp xs = rev (foldl (\<lambda>prefix x. insert_left cmp x prefix) [] xs)"

text \<open>\<open>filepath.Clean\<close> of a relative path, and \<open>filepath.ToSlash\<close>, which is the identity on this system.\<close>

fun segments :: "string \<Rightarrow> string \<Rightarrow> string list" where
  "segments acc [] = [acc]"
| "segments acc (c # s) = (if c = CHR ''/'' then acc # segments [] s else segments (acc @ [c]) s)"

fun clean_relative :: "string list \<Rightarrow> string list \<Rightarrow> string list" where
  "clean_relative out [] = rev out"
| "clean_relative out (seg # segs) =
     (if seg = [] \<or> seg = ''.'' then clean_relative out segs
      else if seg = ''..'' \<and> out \<noteq> [] \<and> hd out \<noteq> ''..'' then clean_relative (tl out) segs
      else clean_relative (seg # out) segs)"

fun join_slash :: "string list \<Rightarrow> string" where
  "join_slash [] = ''.''"
| "join_slash [s] = s"
| "join_slash (s # t # ss) = s @ ''/'' @ join_slash (t # ss)"

definition Clean :: "string \<Rightarrow> string" where
  "Clean path = join_slash (clean_relative [] (segments [] path))"

text \<open>\<open>json.Marshal\<close> of a map of strings: sorted keys, and the escapes of the library.\<close>

definition json_escape :: "char \<Rightarrow> string" where
  "json_escape c =
     (if c = CHR 0x22 then [CHR 0x5C, CHR 0x22]
      else if c = CHR 0x5C then [CHR 0x5C, CHR 0x5C]
      else if c = CHR 0x08 then CHR 0x5C # ''b''
      else if c = CHR 0x0C then CHR 0x5C # ''f''
      else if c = CHR 0x0A then CHR 0x5C # ''n''
      else if c = CHR 0x0D then CHR 0x5C # ''r''
      else if c = CHR 0x09 then CHR 0x5C # ''t''
      else if byte c < 0x20 \<or> c \<in> set ''<>&'' then (CHR 0x5C # ''u00'') @ hex_byte c
      else [c])"

fun json_body :: "nat \<Rightarrow> string \<Rightarrow> string" where
  "json_body k [] = []"
| "json_body (Suc k) (c # s) = c # json_body k s"
| "json_body 0 (c # s) =
     (if byte c < 0x80 then json_escape c @ json_body 0 s
      else if rune_width (c # s) = 0 then (CHR 0x5C # ''ufffd'') @ json_body 0 s
      else if take 3 (c # s) = [CHR 0xE2, CHR 0x80, CHR 0xA8] then (CHR 0x5C # ''u2028'') @ json_body 0 (drop 2 s)
      else if take 3 (c # s) = [CHR 0xE2, CHR 0x80, CHR 0xA9] then (CHR 0x5C # ''u2029'') @ json_body 0 (drop 2 s)
      else c # json_body (rune_width (c # s) - 1) s)"

definition json_string :: "string \<Rightarrow> string" where
  "json_string s = [CHR 0x22] @ json_body 0 s @ [CHR 0x22]"

fun json_members :: "(string \<times> string) list \<Rightarrow> string" where
  "json_members [] = []"
| "json_members [(k, v)] = json_string k @ '':'' @ json_string v"
| "json_members ((k, v) # m # ms) = json_string k @ '':'' @ json_string v @ '','' @ json_members (m # ms)"

definition Marshal_options :: "(string \<times> string) list \<Rightarrow> string" where
  "Marshal_options opts = ''{'' @ json_members (SortFunc (\<lambda>a b. byte_compare (fst a) (fst b)) opts) @ ''}''"

definition has_prefix :: "string \<Rightarrow> string \<Rightarrow> bool" where
  "has_prefix s p \<longleftrightarrow> strip_prefix p s \<noteq> None"

section \<open>References and comparison\<close>

definition featureReferenceVersion :: "'v feature_libs \<Rightarrow> string \<Rightarrow> string" where
  "featureReferenceVersion libs reference =
     (case fl_ParseReference libs reference of
        None \<Rightarrow> ''latest''
      | Some parsed \<Rightarrow>
          if oci_Reference parsed = [] \<or> has_prefix (oci_Reference parsed) ''sha256:'' then ''latest''
          else oci_Reference parsed)"

text \<open>The identifier, empty when the reference does not parse.\<close>

definition featureReferenceID :: "'v feature_libs \<Rightarrow> string \<Rightarrow> string" where
  "featureReferenceID libs reference =
     (if has_prefix reference ''./'' \<or> has_prefix reference ''../''
      then ''local:'' @ fl_ToLower libs (Clean reference)
      else if has_prefix reference ''https://'' \<or> has_prefix reference ''http://'' then fl_ToLower libs reference
      else case fl_ParseReference libs reference of
        None \<Rightarrow> []
      | Some parsed \<Rightarrow> fl_ToLower libs (oci_Registry parsed @ ''/'' @ oci_Repository parsed))"

definition compare_tags :: "'v feature_libs \<Rightarrow> string \<Rightarrow> string \<Rightarrow> int" where
  "compare_tags libs leftTag rightTag =
     (if leftTag = rightTag then 0
      else if leftTag = ''latest'' then 1
      else if rightTag = ''latest'' then -1
      else case (fl_NewVersion libs leftTag, fl_NewVersion libs rightTag) of
        (Some l, Some r) \<Rightarrow> fl_Compare libs l r
      | _ \<Rightarrow> byte_compare leftTag rightTag)"

definition compareFeatures :: "'v feature_libs \<Rightarrow> resolvedFeature \<Rightarrow> resolvedFeature \<Rightarrow> int" where
  "compareFeatures libs left right =
     (let ids = byte_compare (featureReferenceID libs (rf_reference left)) (featureReferenceID libs (rf_reference right));
          tags = compare_tags libs (featureReferenceVersion libs (rf_reference left)) (featureReferenceVersion libs (rf_reference right));
          lens = int (length (rf_providedOptions right)) - int (length (rf_providedOptions left));
          opts = byte_compare (Marshal_options (rf_providedOptions left)) (Marshal_options (rf_providedOptions right))
      in if ids \<noteq> 0 then ids
         else if tags \<noteq> 0 then tags
         else if lens \<noteq> 0 then lens
         else if opts \<noteq> 0 then opts
         else byte_compare (rf_resolved left @ [CHR 0x00] @ rf_reference left) (rf_resolved right @ [CHR 0x00] @ rf_reference right))"

definition featuresEqual :: "resolvedFeature \<Rightarrow> resolvedFeature \<Rightarrow> bool" where
  "featuresEqual left right \<longleftrightarrow>
     rf_lockable left \<and> rf_lockable right \<and> rf_digest left = rf_digest right \<and> rf_options left = rf_options right"

definition feature_matches :: "'v feature_libs \<Rightarrow> string \<Rightarrow> resolvedFeature \<Rightarrow> bool" where
  "feature_matches libs requested feature =
     (let requestedID = featureReferenceID libs requested; candidateID = featureReferenceID libs (rf_reference feature)
      in list_ex (\<lambda>reference. fl_EqualFold libs reference requested) (rf_references feature)
         \<or> (requestedID \<noteq> [] \<and> fl_EqualFold libs candidateID requestedID)
         \<or> fl_EqualFold libs (fm_ID (rf_metadata feature)) requested
         \<or> list_ex (\<lambda>legacyID. fl_EqualFold libs legacyID requested) (fm_LegacyIDs (rf_metadata feature)))"

definition findFeatureMatches :: "'v feature_libs \<Rightarrow> feature_heap \<Rightarrow> nat list \<Rightarrow> string \<Rightarrow> nat list" where
  "findFeatureMatches libs heap features requested = filter (\<lambda>f. feature_matches libs requested (heap f)) features"

text \<open>The loop of \<open>applyFeatures\<close> that turns \<open>installsAfter\<close> into soft dependencies.\<close>

definition soft_dependencies :: "'v feature_libs \<Rightarrow> feature_heap \<Rightarrow> nat list \<Rightarrow> nat \<Rightarrow> nat list" where
  "soft_dependencies libs heap features f =
     rf_softDependencies (heap f)
       @ concat (map (findFeatureMatches libs heap features) (fm_InstallsAfter (rf_metadata (heap f))))"

definition link_soft_dependencies :: "'v feature_libs \<Rightarrow> nat list \<Rightarrow> feature_heap \<Rightarrow> feature_heap" where
  "link_soft_dependencies libs features heap = (\<lambda>f.
     if f \<in> set features then (heap f)\<lparr> rf_softDependencies := soft_dependencies libs heap features f \<rparr> else heap f)"

section \<open>The order\<close>

text \<open>The priorities: a later entry of the override list overwrites an earlier one.\<close>

fun override_priorities ::
    "'v feature_libs \<Rightarrow> feature_heap \<Rightarrow> nat list \<Rightarrow> string list \<Rightarrow> (nat \<Rightarrow> int) \<Rightarrow> feature_error + (nat \<Rightarrow> int)" where
  "override_priorities libs heap features [] priorities = Inr priorities"
| "override_priorities libs heap features (requested # rest) priorities =
     (let matches = findFeatureMatches libs heap features requested
      in if matches = [] then Inl (overrideNotResolved requested)
         else override_priorities libs heap features rest
           (\<lambda>f. if f \<in> set matches then 1 + int (length rest) else priorities f))"

definition ready_features :: "feature_heap \<Rightarrow> nat list \<Rightarrow> nat list \<Rightarrow> nat list" where
  "ready_features heap features installed =
     filter (\<lambda>f. f \<notin> set installed
       \<and> list_all (\<lambda>d. d \<in> set installed) (rf_hardDependencies (heap f) @ rf_softDependencies (heap f))) features"

definition max_priority :: "(nat \<Rightarrow> int) \<Rightarrow> nat list \<Rightarrow> int" where
  "max_priority priorities candidates = foldl (\<lambda>m f. if priorities f > m then priorities f else m) 0 candidates"

definition next_features :: "'v feature_libs \<Rightarrow> feature_heap \<Rightarrow> (nat \<Rightarrow> int) \<Rightarrow> nat list \<Rightarrow> nat list" where
  "next_features libs heap priorities candidates =
     SortFunc (\<lambda>l r. compareFeatures libs (heap l) (heap r))
       (filter (\<lambda>f. priorities f = max_priority priorities candidates) candidates)"

partial_function (option) order_loop ::
    "'v feature_libs \<Rightarrow> feature_heap \<Rightarrow> (nat \<Rightarrow> int) \<Rightarrow> nat list \<Rightarrow> nat list \<Rightarrow> (feature_error + nat list) option" where
  "order_loop libs heap priorities features ordered =
     (if length ordered \<ge> length features then Some (Inr ordered)
      else if ready_features heap features ordered = [] then Some (Inl dependencyCycle)
      else order_loop libs heap priorities features
        (ordered @ next_features libs heap priorities (ready_features heap features ordered)))"

definition orderFeatures ::
    "'v feature_libs \<Rightarrow> feature_heap \<Rightarrow> nat list \<Rightarrow> string list \<Rightarrow> (feature_error + nat list) option" where
  "orderFeatures libs heap features override =
     (case override_priorities libs heap features override (\<lambda>_. 0) of
        Inl e \<Rightarrow> Some (Inl e)
      | Inr priorities \<Rightarrow> order_loop libs heap priorities features [])"

section \<open>Sorting and candidates\<close>

lemma mset_insert_left [simp]: "mset (insert_left cmp x ys) = add_mset x (mset ys)"
  by (induction ys) auto

lemma mset_SortFunc [simp]: "mset (SortFunc cmp xs) = mset xs"
proof -
  have "mset (foldl (\<lambda>prefix x. insert_left cmp x prefix) acc xs) = mset acc + mset xs" for acc
    by (induction xs arbitrary: acc) simp_all
  then show ?thesis by (simp add: SortFunc_def)
qed

lemma set_SortFunc [simp]: "set (SortFunc cmp xs) = set xs"
  using mset_SortFunc [of cmp xs] by (metis set_mset_mset)

lemma max_priority_Max: "max_priority priorities candidates = Max (insert 0 (priorities ` set candidates))"
proof -
  have "foldl (\<lambda>m f. if priorities f > m then priorities f else m) m fs = Max (insert m (priorities ` set fs))" for m fs
  proof (induction fs arbitrary: m)
    case (Cons f fs)
    have "(if priorities f > m then priorities f else m) = max m (priorities f)" by simp
    then show ?case using Cons [of "max m (priorities f)"]
      by (cases "fs = []") (simp_all add: max.assoc max.commute max.left_commute)
  qed simp
  then show ?thesis by (simp add: max_priority_def)
qed

lemma max_priority_attained:
  assumes "candidates \<noteq> []" and "\<And>f. 0 \<le> priorities f"
  shows "\<exists>f \<in> set candidates. priorities f = max_priority priorities candidates"
proof -
  let ?A = "insert 0 (priorities ` set candidates)"
  have "Max ?A \<in> ?A" by (rule Max_in) auto
  moreover have "priorities (hd candidates) \<le> Max ?A" using assms(1) by (intro Max_ge) auto
  moreover have "hd candidates \<in> set candidates" using assms(1) by simp
  ultimately show ?thesis unfolding max_priority_Max using assms(2) [of "hd candidates"]
    by (metis antisym_conv imageE insertE)
qed

lemma next_features_props:
  assumes "candidates \<noteq> []" and "\<And>f. 0 \<le> priorities f"
  shows "next_features libs heap priorities candidates \<noteq> []" "set (next_features libs heap priorities candidates) \<subseteq> set candidates"
    "distinct candidates \<Longrightarrow> distinct (next_features libs heap priorities candidates)"
proof -
  have s: "set (next_features libs heap priorities candidates) = {f \<in> set candidates. priorities f = max_priority priorities candidates}"
    by (simp add: next_features_def)
  show "set (next_features libs heap priorities candidates) \<subseteq> set candidates" using s by auto
  obtain f where "f \<in> set candidates" "priorities f = max_priority priorities candidates"
    using max_priority_attained [of candidates priorities, OF assms] by (elim bexE)
  then have "f \<in> set (next_features libs heap priorities candidates)" unfolding s by simp
  then show "next_features libs heap priorities candidates \<noteq> []" by (cases "next_features libs heap priorities candidates") simp_all
  show "distinct candidates \<Longrightarrow> distinct (next_features libs heap priorities candidates)"
    unfolding next_features_def mset_eq_imp_distinct_iff [OF mset_SortFunc] by (rule distinct_filter)
qed

lemma override_priorities_nonneg:
  assumes "override_priorities libs heap features override p = Inr q" and "\<And>f. 0 \<le> p f"
  shows "0 \<le> q f"
  using assms by (induction libs heap features override p rule: override_priorities.induct) (auto simp: Let_def split: if_splits)

lemma override_priorities_Inl:
  assumes "override_priorities libs heap features override p = Inl e"
  shows "\<exists>requested \<in> set override. e = overrideNotResolved requested \<and> findFeatureMatches libs heap features requested = []"
  using assms by (induction libs heap features override p rule: override_priorities.induct) (auto simp: Let_def split: if_splits)

section \<open>Orders that respect the dependencies\<close>

definition dependencies :: "feature_heap \<Rightarrow> nat \<Rightarrow> nat set" where
  "dependencies heap f = set (rf_hardDependencies (heap f)) \<union> set (rf_softDependencies (heap f))"

text \<open>Every Feature comes after everything it depends on.\<close>

definition deps_first :: "feature_heap \<Rightarrow> nat list \<Rightarrow> bool" where
  "deps_first heap ordered \<longleftrightarrow> (\<forall>i < length ordered. dependencies heap (ordered ! i) \<subseteq> set (take i ordered))"

definition valid_order :: "feature_heap \<Rightarrow> nat list \<Rightarrow> nat list \<Rightarrow> bool" where
  "valid_order heap features ordered \<longleftrightarrow> mset ordered = mset features \<and> deps_first heap ordered"

lemma ready_features_iff:
  "f \<in> set (ready_features heap features installed) \<longleftrightarrow>
     f \<in> set features \<and> f \<notin> set installed \<and> dependencies heap f \<subseteq> set installed"
  by (auto simp: ready_features_def dependencies_def list_all_iff)

lemma deps_first_append:
  assumes "deps_first heap ordered" and "\<And>f. f \<in> set more_features \<Longrightarrow> dependencies heap f \<subseteq> set ordered"
  shows "deps_first heap (ordered @ more_features)"
  unfolding deps_first_def
proof (intro allI impI)
  fix i
  assume i: "i < length (ordered @ more_features)"
  show "dependencies heap ((ordered @ more_features) ! i) \<subseteq> set (take i (ordered @ more_features))"
  proof (cases "i < length ordered")
    case True
    then show ?thesis using assms(1) by (simp add: deps_first_def nth_append)
  next
    case False
    then have "(ordered @ more_features) ! i \<in> set more_features" using i by (simp add: nth_append)
    then show ?thesis using assms(2) False by fastforce
  qed
qed

text \<open>If nothing is ready and something is left, no order respects the dependencies.\<close>

lemma stuck_no_order:
  assumes "ready_features heap features installed = []" and "f \<in> set features" and "f \<notin> set installed"
    and "\<And>g. g \<in> set features \<Longrightarrow> dependencies heap g \<subseteq> set features"
  shows "\<not> valid_order heap features ordered"
proof
  assume v: "valid_order heap features ordered"
  then have set: "set ordered = set features" by (metis set_mset_mset valid_order_def)
  let ?P = "\<lambda>i. i < length ordered \<and> ordered ! i \<notin> set installed"
  have ex: "\<exists>i. ?P i" using assms(2,3) set by (metis in_set_conv_nth)
  define i where "i = (LEAST i. ?P i)"
  have i: "i < length ordered" "ordered ! i \<notin> set installed" using LeastI_ex [OF ex] by (auto simp: i_def)
  have before: "ordered ! j \<in> set installed" if "j < i" for j
    using that i(1) not_less_Least [of j ?P] by (auto simp: i_def)
  have "dependencies heap (ordered ! i) \<subseteq> set (take i ordered)" using v i(1) by (simp add: valid_order_def deps_first_def)
  moreover have "set (take i ordered) \<subseteq> set installed" using before i(1) by (auto simp: set_conv_nth)
  ultimately have "ordered ! i \<in> set (ready_features heap features installed)"
    using i set nth_mem [OF i(1)] unfolding ready_features_iff by auto
  then show False using assms(1) by simp
qed

lemma order_loop_correct:
  assumes "\<And>f. 0 \<le> priorities f" and "distinct features"
    and "\<And>f. f \<in> set features \<Longrightarrow> dependencies heap f \<subseteq> set features"
    and "distinct ordered" and "set ordered \<subseteq> set features" and "deps_first heap ordered"
  shows "\<exists>r. order_loop libs heap priorities features ordered = Some r
    \<and> (case r of Inr result \<Rightarrow> valid_order heap features result
       | Inl e \<Rightarrow> e = dependencyCycle \<and> (\<forall>result. \<not> valid_order heap features result))"
  using assms(4-)
proof (induction "length features - length ordered" arbitrary: ordered rule: less_induct)
  case less
  have len: "length ordered \<le> length features"
    using less(2,3) assms(2) by (metis card_mono distinct_card List.finite_set)
  show ?case
  proof (cases "length ordered \<ge> length features")
    case True
    then have "set ordered = set features"
      using less(2,3) assms(2) by (metis List.finite_set card_subset_eq distinct_card len order_antisym)
    then have "mset ordered = mset features" using less(2) assms(2) set_eq_iff_mset_eq_distinct by blast
    then show ?thesis using True less(4) by (subst order_loop.simps) (simp add: valid_order_def)
  next
    case False
    let ?ready = "ready_features heap features ordered" and ?more = "next_features libs heap priorities (ready_features heap features ordered)"
    show ?thesis
    proof (cases "?ready = []")
      case True
      obtain f where "f \<in> set features" "f \<notin> set ordered"
        using False less(2) assms(2) by (metis card_mono distinct_card List.finite_set subsetI)
      then have "\<not> valid_order heap features result" for result using stuck_no_order [OF True _ _ assms(3)] by blast
      then show ?thesis using True False by (subst order_loop.simps) simp
    next
      case ready: False
      have d: "distinct ?ready" using assms(2) by (simp add: ready_features_def)
      note m = next_features_props [of ?ready priorities libs heap, OF ready assms(1)]
      have sub: "set ?more \<subseteq> set ?ready" by (rule m(2))
      have in_ready: "f \<in> set features \<and> f \<notin> set ordered \<and> dependencies heap f \<subseteq> set ordered" if "f \<in> set ?more" for f
        using that sub ready_features_iff by blast
      have 1: "length features - length (ordered @ ?more) < length features - length ordered"
        using m(1) False by (cases ?more) auto
      have 2: "distinct (ordered @ ?more)" using less(2) m(3) [OF d] in_ready by auto
      have 3: "set (ordered @ ?more) \<subseteq> set features" using less(3) in_ready by auto
      have 4: "deps_first heap (ordered @ ?more)" using deps_first_append less(4) in_ready by blast
      have "order_loop libs heap priorities features ordered = order_loop libs heap priorities features (ordered @ ?more)"
        using False ready by (subst order_loop.simps) simp
      then show ?thesis using less(1) [OF 1 2 3 4] by simp
    qed
  qed
qed

text \<open>C21: Ordering Features always ends. A returned order contains every resolved Feature exactly once,
  each after all its hard and soft dependencies; a cycle is reported only when no such order exists,
  and an unresolved override only for an entry of the override list that matches no Feature.
\<close>

theorem order_features_correct:
  assumes "distinct features" and "\<And>f. f \<in> set features \<Longrightarrow> dependencies heap f \<subseteq> set features"
  shows "\<exists>r. orderFeatures libs heap features override = Some r
    \<and> (case r of
         Inr ordered \<Rightarrow> valid_order heap features ordered
       | Inl dependencyCycle \<Rightarrow> \<not> (\<exists>ordered. valid_order heap features ordered)
       | Inl (overrideNotResolved requested) \<Rightarrow>
           requested \<in> set override \<and> findFeatureMatches libs heap features requested = [])"
proof (cases "override_priorities libs heap features override (\<lambda>_. 0)")
  case (Inl e)
  obtain requested where "requested \<in> set override" "e = overrideNotResolved requested"
    "findFeatureMatches libs heap features requested = []" using override_priorities_Inl [OF Inl] by blast
  then show ?thesis using Inl by (simp add: orderFeatures_def)
next
  case (Inr priorities)
  have nonneg: "0 \<le> priorities f" for f using override_priorities_nonneg [OF Inr] by simp
  have "deps_first heap []" by (simp add: deps_first_def)
  then obtain r where "order_loop libs heap priorities features [] = Some r"
    "case r of Inr result \<Rightarrow> valid_order heap features result
       | Inl e \<Rightarrow> e = dependencyCycle \<and> (\<forall>result. \<not> valid_order heap features result)"
    using order_loop_correct [of priorities features heap "[]" libs, OF nonneg assms] by auto
  then show ?thesis using Inr by (cases r) (simp_all add: orderFeatures_def)
qed

text \<open>The comparison that sorts the candidates is not an ordering: for three versions of one Feature,
  of which two are semantic versions and one is not, each compares strictly below the next in a
  circle, because semantic versions are compared as such and any other pair as text.
\<close>

theorem compare_features_circular:
  assumes parse: "\<And>tag. fl_ParseReference libs (repo @ '':'' @ tag) = Some \<lparr> oci_Registry = r, oci_Repository = s, oci_Reference = tag \<rparr>"
    and local: "\<not> has_prefix repo ''./''" "\<not> has_prefix repo ''../''" "\<not> has_prefix repo ''http''" "5 \<le> length repo"
    and versions: "fl_NewVersion libs ''1.9'' = Some v9" "fl_NewVersion libs ''1.10'' = Some v10" "fl_NewVersion libs ''1.5_x'' = None"
    and order: "fl_Compare libs v9 v10 < 0"
    and left: "rf_reference a = repo @ '':1.9''" and middle: "rf_reference b = repo @ '':1.10''" and right: "rf_reference c = repo @ '':1.5_x''"
  shows "compareFeatures libs a b < 0 \<and> compareFeatures libs b c < 0 \<and> compareFeatures libs c a < 0"
proof -
  have self: "byte_compare x x = 0" for x by (induction x) simp_all
  have px: "has_prefix (repo @ x) p \<Longrightarrow> length p \<le> length repo \<Longrightarrow> has_prefix repo p" for x p
    by (metis append_eq_append_conv_if append_take_drop_id has_prefix_def not_None_eq strip_prefix_Some)
  have nohttp: "\<not> has_prefix (repo @ x) ''https://''" "\<not> has_prefix (repo @ x) ''http://''" for x
  proof -
    have "has_prefix (repo @ x) (''http'' @ y) \<Longrightarrow> has_prefix (repo @ x) ''http''" for y
      by (auto simp: has_prefix_def strip_prefix_Some)
    then show "\<not> has_prefix (repo @ x) ''https://''" "\<not> has_prefix (repo @ x) ''http://''"
      using px [of x "''http''"] local by force+
  qed
  have "\<not> has_prefix (repo @ x) ''./''" "\<not> has_prefix (repo @ x) ''../''" for x
    using px [of x "''./''"] px [of x "''../''"] local by auto
  then have ids: "featureReferenceID libs (repo @ '':'' @ tag) = fl_ToLower libs (r @ ''/'' @ s)" for tag
    using nohttp parse by (simp add: featureReferenceID_def)
  have tags: "featureReferenceVersion libs (repo @ '':'' @ tag) = tag" if "tag \<noteq> []" "hd tag = CHR ''1''" for tag
    using parse [of tag] that by (cases tag) (simp_all add: featureReferenceVersion_def has_prefix_def)
  note ref = ids [of "''1.9''"] ids [of "''1.10''"] ids [of "''1.5_x''"] tags [of "''1.9''"] tags [of "''1.10''"] tags [of "''1.5_x''"]
  have "compare_tags libs ''1.9'' ''1.10'' < 0" using versions order by (simp add: compare_tags_def)
  moreover have "compare_tags libs ''1.10'' ''1.5_x'' < 0" "compare_tags libs ''1.5_x'' ''1.9'' < 0"
    using versions by (simp_all add: compare_tags_def)
  ultimately show ?thesis using ref left middle right by (simp add: compareFeatures_def Let_def self)
qed

section \<open>Concrete Features\<close>

definition sample_libs :: "int feature_libs" where
  "sample_libs = \<lparr>
     fl_ParseReference = (\<lambda>s. case strip_prefix ''ghcr.io/f/go:'' s of
        None \<Rightarrow> None
      | Some tag \<Rightarrow> Some \<lparr> oci_Registry = ''ghcr.io'', oci_Repository = ''f/go'', oci_Reference = tag \<rparr>),
     fl_NewVersion = (\<lambda>s. if s = ''1.9'' then Some 9 else if s = ''1.10'' then Some 10 else None),
     fl_Compare = (\<lambda>a b. a - b), fl_ToLower = id, fl_EqualFold = (=) \<rparr>"

definition sample_feature :: "string \<Rightarrow> nat list \<Rightarrow> resolvedFeature" where
  "sample_feature reference deps = \<lparr> rf_reference = reference, rf_references = [reference], rf_resolved = reference, rf_digest = ''d'',
     rf_options = fmempty, rf_providedOptions = [], rf_metadata = \<lparr> fm_ID = reference, fm_InstallsAfter = [], fm_LegacyIDs = [] \<rparr>,
     rf_lockable = True, rf_hardDependencies = deps, rf_softDependencies = [] \<rparr>"

definition sample_heap :: feature_heap where
  "sample_heap f = (if f = 0 then sample_feature ''a'' [1] else sample_feature ''b'' [])"

theorem order_features_correct_witness:
  "\<exists>r. orderFeatures sample_libs sample_heap [0, 1] [] = Some r \<and> valid_order sample_heap [0, 1] [1, 0] \<and> (\<exists>ordered. r = Inr ordered)"
proof -
  have deps: "dependencies sample_heap f \<subseteq> set [0, 1]" if "f \<in> set [0, 1]" for f
    by (simp add: dependencies_def sample_heap_def sample_feature_def)
  have v: "valid_order sample_heap [0, 1] [1, 0]"
    by (simp add: valid_order_def deps_first_def dependencies_def sample_heap_def sample_feature_def less_Suc_eq add_mset_commute)
  obtain r where "orderFeatures sample_libs sample_heap [0, 1] [] = Some r"
    "case r of Inr ordered \<Rightarrow> valid_order sample_heap [0, 1] ordered
       | Inl dependencyCycle \<Rightarrow> \<not> (\<exists>ordered. valid_order sample_heap [0, 1] ordered)
       | Inl (overrideNotResolved requested) \<Rightarrow> requested \<in> set [] \<and> findFeatureMatches sample_libs sample_heap [0, 1] requested = []"
    using order_features_correct [of "[0, 1]" sample_heap sample_libs "[]", OF _ deps] by auto
  moreover have "\<exists>ordered. r = Inr ordered"
    using calculation(2) v by (auto split: sum.splits feature_error.splits)
  ultimately show ?thesis using v by blast
qed

theorem compare_features_circular_witness:
  "compareFeatures sample_libs (sample_feature ''ghcr.io/f/go:1.9'' []) (sample_feature ''ghcr.io/f/go:1.10'' []) < 0
   \<and> compareFeatures sample_libs (sample_feature ''ghcr.io/f/go:1.10'' []) (sample_feature ''ghcr.io/f/go:1.5_x'' []) < 0
   \<and> compareFeatures sample_libs (sample_feature ''ghcr.io/f/go:1.5_x'' []) (sample_feature ''ghcr.io/f/go:1.9'' []) < 0"
  by (rule compare_features_circular [where repo = "''ghcr.io/f/go''" and r = "''ghcr.io''" and s = "''f/go''" and ?v9.0 = 9 and ?v10.0 = 10])
    (simp_all add: sample_libs_def sample_feature_def has_prefix_def)

end
