(* ===== verification/Devcontainer_Config.thy ===== *)
theory Devcontainer_Config
  imports Feature_Order "HOL-Library.AList"
begin

text \<open>
  The Dev Container configuration (\<open>devcontainer/types.go\<close>, \<open>devcontainer/merge.go\<close> and the
  validation of \<open>devcontainer/config.go\<close>): merging of metadata sources, defaults and validation. Port
  attributes, lifecycle commands and the persisted state are in \<open>Port_Endpoints\<close>.
  A nil slice or map is an empty one; a pointer is an option. Raw JSON is its bytes; decoding and
  encoding of JSON, the size parser of the Docker units package and the compiler of user-supplied
  regular expressions are parameters (\<open>config_libs\<close>).
\<close>

section \<open>Data\<close>

record Mount =
  mt_Type :: string
  mt_Source :: string
  mt_Target :: string
  mt_Consistency :: string
  mt_ReadOnly :: bool
  mt_BindPropagation :: string
  mt_VolumeNoCopy :: bool

record Build =
  bd_Dockerfile :: string
  bd_Context :: string
  bd_Args :: "(string, string) fmap"
  bd_Target :: string
  bd_CacheFrom :: "string list"
  bd_Options :: "string list"

record PortAttributes =
  pa_Label :: string
  pa_Protocol :: string
  pa_OnAutoForward :: string
  pa_RequireLocalPort :: bool
  pa_ElevateIfNeeded :: bool

record HostRequirements =
  hr_CPUs :: "int option"
  hr_Memory :: string
  hr_Storage :: string
  hr_GPU :: string

record Secret =
  sec_Description :: string
  sec_DocumentationURL :: string

record Port =
  port_Number :: nat
  port_Address :: string
  port_Numeric :: bool

type_synonym Command = string

record Configuration =
  c_Schema :: string
  c_Name :: string
  c_Image :: string
  c_Build :: "Build option"
  c_DockerFile :: string
  c_Context :: string
  c_DockerComposeFile :: "string list"
  c_Service :: string
  c_RunServices :: "string list"
  c_WorkspaceFolder :: string
  c_WorkspaceMount :: string
  c_Mounts :: "Mount list"
  c_ContainerEnv :: "(string, string) fmap"
  c_RemoteEnv :: "(string, string option) fmap"
  c_ContainerUser :: string
  c_RemoteUser :: string
  c_UpdateRemoteUserUID :: "bool option"
  c_UserEnvProbe :: string
  c_InitializeCommand :: Command
  c_OnCreateCommand :: Command
  c_UpdateContentCommand :: Command
  c_PostCreateCommand :: Command
  c_PostStartCommand :: Command
  c_PostAttachCommand :: Command
  c_WaitFor :: string
  c_ShutdownAction :: string
  c_Features :: "(string, string) fmap"
  c_OverrideFeatureInstallOrder :: "string list"
  c_Customizations :: "(string, string) fmap"
  c_ForwardPorts :: "Port list"
  c_PortsAttributes :: "(string, PortAttributes) fmap"
  c_OtherPortsAttributes :: "PortAttributes option"
  c_AppPort :: "Port list"
  c_RunArgs :: "string list"
  c_Init :: bool
  c_Privileged :: bool
  c_CapAdd :: "string list"
  c_SecurityOpt :: "string list"
  c_OverrideCommand :: "bool option"
  c_HostRequirements :: HostRequirements
  c_Secrets :: "(string, Secret) fmap"

datatype json =
    JNull
  | JBool bool
  | JNumber string
  | JString string
  | JArray "json list"
  | JObject "(string \<times> json) list"

record gpu_requirement =
  gpu_Cores :: "int option"
  gpu_Memory :: string

record config_libs =
  cl_Decode :: "string \<Rightarrow> json option"
  cl_Encode :: "json \<Rightarrow> string"
  cl_RAMInBytes :: "string \<Rightarrow> int option"
  cl_Regexp :: "string \<Rightarrow> (string \<Rightarrow> bool) option"
  cl_DecodeGPU :: "string \<Rightarrow> gpu_requirement option"

section \<open>Merging\<close>

definition override_string :: "'a list \<Rightarrow> 'a list \<Rightarrow> 'a list" where
  "override_string base override = (if override \<noteq> [] then override else base)"

definition override_option :: "'a option \<Rightarrow> 'a option \<Rightarrow> 'a option" where
  "override_option base override = (if override \<noteq> None then override else base)"

fun appendUnique :: "'a list \<Rightarrow> 'a list \<Rightarrow> 'a list" where
  "appendUnique result [] = result"
| "appendUnique result (v # vs) = appendUnique (if v \<in> set result then result else result @ [v]) vs"

fun mergeMounts :: "Mount list \<Rightarrow> Mount list \<Rightarrow> Mount list" where
  "mergeMounts result [] = result"
| "mergeMounts result (item # items) =
     mergeMounts (filter (\<lambda>existing. mt_Target existing \<noteq> mt_Target item) result @ [item]) items"

definition mergeMap :: "('k, 'v) fmap \<Rightarrow> ('k, 'v) fmap \<Rightarrow> ('k, 'v) fmap" where
  "mergeMap base override = base ++\<^sub>f override"

definition member :: "(string \<times> json) list \<Rightarrow> string \<Rightarrow> json" where
  "member members k = (case map_of members k of None \<Rightarrow> JNull | Some v \<Rightarrow> v)"

fun merge_array :: "(json \<Rightarrow> string) \<Rightarrow> json list \<Rightarrow> json list \<Rightarrow> json list" where
  "merge_array enc result [] = result"
| "merge_array enc result (v # vs) =
     merge_array enc (if list_ex (\<lambda>item. enc item = enc v) result then result else result @ [v]) vs"

fun mergeJSON :: "(json \<Rightarrow> string) \<Rightarrow> json \<Rightarrow> json \<Rightarrow> json"
  and merge_members :: "(json \<Rightarrow> string) \<Rightarrow> (string \<times> json) list \<Rightarrow> (string \<times> json) list \<Rightarrow> (string \<times> json) list" where
  "mergeJSON enc (JObject left) (JObject right) = JObject (merge_members enc left right)"
| "mergeJSON enc (JArray left) (JArray right) = JArray (merge_array enc left right)"
| "mergeJSON enc base override = override"
| "merge_members enc left [] = left"
| "merge_members enc left ((k, v) # right) =
     merge_members enc (AList.update k (mergeJSON enc (member left k) v) left) right"

text \<open>The merged value of one customization key.\<close>

definition merge_customization :: "config_libs \<Rightarrow> string \<Rightarrow> string option \<Rightarrow> string \<Rightarrow> string" where
  "merge_customization libs key base raw =
     (if key \<noteq> ''vscode'' then raw
      else case (cl_Decode libs (case base of None \<Rightarrow> [] | Some b \<Rightarrow> b), cl_Decode libs raw) of
        (Some left, Some right) \<Rightarrow>
          (case mergeJSON (cl_Encode libs) left right of JObject m \<Rightarrow> cl_Encode libs (JObject m) | _ \<Rightarrow> raw)
      | _ \<Rightarrow> raw)"

definition mergeCustomizations :: "config_libs \<Rightarrow> (string, string) fmap \<Rightarrow> (string, string) fmap \<Rightarrow> (string, string) fmap" where
  "mergeCustomizations libs base override =
     base ++\<^sub>f fmmap_keys (\<lambda>key raw. merge_customization libs key (fmlookup base key) raw) override"

definition largerByteRequirement :: "config_libs \<Rightarrow> string \<Rightarrow> string \<Rightarrow> string" where
  "largerByteRequirement libs base override =
     (if TrimSpace override = [] then base
      else if TrimSpace base = [] then override
      else case cl_RAMInBytes libs base of
        None \<Rightarrow> base
      | Some baseBytes \<Rightarrow>
          (case cl_RAMInBytes libs override of
             None \<Rightarrow> override
           | Some overrideBytes \<Rightarrow> if overrideBytes > baseBytes then override else base))"

definition gpuRequirementRank :: "string \<Rightarrow> nat" where
  "gpuRequirementRank value =
     (let value = TrimSpace value
      in if value = [] \<or> value = ''null'' \<or> value = ''false'' then 0
         else if value = [CHR 0x22] @ ''optional'' @ [CHR 0x22] then 1 else 2)"

definition mergeHostRequirements :: "config_libs \<Rightarrow> HostRequirements \<Rightarrow> HostRequirements \<Rightarrow> HostRequirements" where
  "mergeHostRequirements libs base override = \<lparr>
     hr_CPUs = (case hr_CPUs override of
        None \<Rightarrow> hr_CPUs base
      | Some o1 \<Rightarrow> (case hr_CPUs base of None \<Rightarrow> Some o1 | Some b \<Rightarrow> if o1 > b then Some o1 else Some b)),
     hr_Memory = largerByteRequirement libs (hr_Memory base) (hr_Memory override),
     hr_Storage = largerByteRequirement libs (hr_Storage base) (hr_Storage override),
     hr_GPU = (if gpuRequirementRank (hr_GPU override) > gpuRequirementRank (hr_GPU base) then hr_GPU override else hr_GPU base) \<rparr>"

definition Merge :: "config_libs \<Rightarrow> Configuration \<Rightarrow> Configuration \<Rightarrow> Configuration" where
  "Merge libs base override = \<lparr>
     c_Schema = override_string (c_Schema base) (c_Schema override),
     c_Name = override_string (c_Name base) (c_Name override),
     c_Image = override_string (c_Image base) (c_Image override),
     c_Build = override_option (c_Build base) (c_Build override),
     c_DockerFile = override_string (c_DockerFile base) (c_DockerFile override),
     c_Context = override_string (c_Context base) (c_Context override),
     c_DockerComposeFile = override_string (c_DockerComposeFile base) (c_DockerComposeFile override),
     c_Service = override_string (c_Service base) (c_Service override),
     c_RunServices = (if c_RunServices override \<noteq> [] then appendUnique (c_RunServices base) (c_RunServices override) else c_RunServices base),
     c_WorkspaceFolder = override_string (c_WorkspaceFolder base) (c_WorkspaceFolder override),
     c_WorkspaceMount = override_string (c_WorkspaceMount base) (c_WorkspaceMount override),
     c_Mounts = mergeMounts (c_Mounts base) (c_Mounts override),
     c_ContainerEnv = mergeMap (c_ContainerEnv base) (c_ContainerEnv override),
     c_RemoteEnv = mergeMap (c_RemoteEnv base) (c_RemoteEnv override),
     c_ContainerUser = override_string (c_ContainerUser base) (c_ContainerUser override),
     c_RemoteUser = override_string (c_RemoteUser base) (c_RemoteUser override),
     c_UpdateRemoteUserUID = override_option (c_UpdateRemoteUserUID base) (c_UpdateRemoteUserUID override),
     c_UserEnvProbe = override_string (c_UserEnvProbe base) (c_UserEnvProbe override),
     c_InitializeCommand = override_string (c_InitializeCommand base) (c_InitializeCommand override),
     c_OnCreateCommand = override_string (c_OnCreateCommand base) (c_OnCreateCommand override),
     c_UpdateContentCommand = override_string (c_UpdateContentCommand base) (c_UpdateContentCommand override),
     c_PostCreateCommand = override_string (c_PostCreateCommand base) (c_PostCreateCommand override),
     c_PostStartCommand = override_string (c_PostStartCommand base) (c_PostStartCommand override),
     c_PostAttachCommand = override_string (c_PostAttachCommand base) (c_PostAttachCommand override),
     c_WaitFor = override_string (c_WaitFor base) (c_WaitFor override),
     c_ShutdownAction = override_string (c_ShutdownAction base) (c_ShutdownAction override),
     c_Features = mergeMap (c_Features base) (c_Features override),
     c_OverrideFeatureInstallOrder = override_string (c_OverrideFeatureInstallOrder base) (c_OverrideFeatureInstallOrder override),
     c_Customizations = mergeCustomizations libs (c_Customizations base) (c_Customizations override),
     c_ForwardPorts = appendUnique (c_ForwardPorts base) (c_ForwardPorts override),
     c_PortsAttributes = mergeMap (c_PortsAttributes base) (c_PortsAttributes override),
     c_OtherPortsAttributes = override_option (c_OtherPortsAttributes base) (c_OtherPortsAttributes override),
     c_AppPort = override_string (c_AppPort base) (c_AppPort override),
     c_RunArgs = override_string (c_RunArgs base) (c_RunArgs override),
     c_Init = (c_Init base \<or> c_Init override),
     c_Privileged = (c_Privileged base \<or> c_Privileged override),
     c_CapAdd = appendUnique (c_CapAdd base) (c_CapAdd override),
     c_SecurityOpt = appendUnique (c_SecurityOpt base) (c_SecurityOpt override),
     c_OverrideCommand = override_option (c_OverrideCommand base) (c_OverrideCommand override),
     c_HostRequirements = mergeHostRequirements libs (c_HostRequirements base) (c_HostRequirements override),
     c_Secrets = mergeMap (c_Secrets base) (c_Secrets override) \<rparr>"

section \<open>Merging is associative\<close>

lemma override_string_assoc: "override_string (override_string a b) c = override_string a (override_string b c)"
  by (simp add: override_string_def)

lemma override_option_assoc: "override_option (override_option a b) c = override_option a (override_option b c)"
  by (cases c) (simp_all add: override_option_def)

lemma appendUnique_append: "appendUnique a (b @ c) = appendUnique (appendUnique a b) c"
  by (induction a b rule: appendUnique.induct) simp_all

lemma set_appendUnique: "set (appendUnique a b) = set a \<union> set b"
  by (induction a b rule: appendUnique.induct) auto

lemma appendUnique_tail: "\<exists>t. appendUnique b c = b @ t \<and> set t \<subseteq> set c \<and> set b \<inter> set t = {} \<and> (\<forall>a. set b \<subseteq> set a \<longrightarrow> appendUnique a t = appendUnique a c)"
proof (induction b c rule: appendUnique.induct)
  case (2 b v vs)
  show ?case
  proof (cases "v \<in> set b")
    case True
    with 2 show ?thesis by (auto simp: subset_iff)
  next
    case False
    then obtain t where t: "appendUnique (b @ [v]) vs = (b @ [v]) @ t" "set t \<subseteq> set vs" "set (b @ [v]) \<inter> set t = {}"
      "\<forall>a. set (b @ [v]) \<subseteq> set a \<longrightarrow> appendUnique a t = appendUnique a vs" using 2 by auto
    have "appendUnique a (v # t) = appendUnique a (v # vs)" if "set b \<subseteq> set a" for a
      using that t(4) by (auto simp: subset_iff)
    then show ?thesis using False t by (intro exI [of _ "v # t"]) auto
  qed
qed simp

lemma appendUnique_assoc: "appendUnique (appendUnique a b) c = appendUnique a (appendUnique b c)"
proof -
  obtain t where t: "appendUnique b c = b @ t" "\<forall>a. set b \<subseteq> set a \<longrightarrow> appendUnique a t = appendUnique a c"
    using appendUnique_tail [of b c] by blast
  have "appendUnique a (appendUnique b c) = appendUnique (appendUnique a b) t" by (simp add: t(1) appendUnique_append)
  also have "\<dots> = appendUnique (appendUnique a b) c" using t(2) by (simp add: set_appendUnique)
  finally show ?thesis by simp
qed

lemma appendUnique_Nil_iff: "appendUnique a b = [] \<longleftrightarrow> a = [] \<and> b = []"
  using set_appendUnique [of a b] by (metis Un_empty set_empty)

text \<open>Merging mounts keeps, for each target, the last mount; those of the base stay in front.\<close>

fun last_mounts :: "Mount list \<Rightarrow> Mount list" where
  "last_mounts [] = []"
| "last_mounts (m # ms) = (if mt_Target m \<in> mt_Target ` set ms then last_mounts ms else m # last_mounts ms)"

lemma mergeMounts_eq: "mergeMounts a b = filter (\<lambda>m. mt_Target m \<notin> mt_Target ` set b) a @ last_mounts b"
  by (induction a b rule: mergeMounts.induct) (auto simp: filter_filter intro!: filter_cong)

lemma last_mounts_targets: "mt_Target ` set (last_mounts ms) = mt_Target ` set ms"
  by (induction ms) auto

lemma last_mounts_idem: "last_mounts (last_mounts ms) = last_mounts ms"
  by (induction ms) (auto simp: last_mounts_targets)

lemma last_mounts_append: "last_mounts (a @ b) = filter (\<lambda>m. mt_Target m \<notin> mt_Target ` set b) (last_mounts a) @ last_mounts b"
  by (induction a) (auto simp: image_Un)

lemma last_mounts_filter:
  "last_mounts (filter (\<lambda>m. P (mt_Target m)) ms) = filter (\<lambda>m. P (mt_Target m)) (last_mounts ms)"
  by (induction ms) auto

lemma mergeMounts_assoc: "mergeMounts (mergeMounts a b) c = mergeMounts a (mergeMounts b c)"
proof -
  have t: "mt_Target ` set (mergeMounts b c) = mt_Target ` set b \<union> mt_Target ` set c"
    unfolding mergeMounts_eq by (auto simp: last_mounts_targets image_Un)
  have "last_mounts (mergeMounts b c) = filter (\<lambda>m. mt_Target m \<notin> mt_Target ` set c) (last_mounts b) @ last_mounts c"
    unfolding mergeMounts_eq last_mounts_append last_mounts_targets last_mounts_idem
    using last_mounts_filter [of "\<lambda>t. t \<notin> mt_Target ` set c" b] by (simp add: filter_filter)
  moreover have "mergeMounts (mergeMounts a b) c = filter (\<lambda>m. mt_Target m \<notin> mt_Target ` set c) (mergeMounts a b) @ last_mounts c"
    by (rule mergeMounts_eq)
  moreover have "mergeMounts a (mergeMounts b c) = filter (\<lambda>m. mt_Target m \<notin> mt_Target ` set (mergeMounts b c)) a @ last_mounts (mergeMounts b c)"
    by (rule mergeMounts_eq)
  ultimately show ?thesis by (simp add: t mergeMounts_eq [of a b] filter_filter conj_commute)
qed

text \<open>The mount that is in effect for a target: the last one.\<close>

definition mount_at :: "Mount list \<Rightarrow> string \<Rightarrow> Mount option" where
  "mount_at ms t = find (\<lambda>m. mt_Target m = t) (rev ms)"

lemma find_append: "find P (xs @ ys) = (case find P xs of None \<Rightarrow> find P ys | Some x \<Rightarrow> Some x)"
  by (induction xs) simp_all

lemma mount_at_None: "mount_at ms t = None \<longleftrightarrow> t \<notin> mt_Target ` set ms"
  by (auto simp: mount_at_def find_None_iff)

lemma mount_at_last_mounts: "mount_at (last_mounts ms) t = mount_at ms t"
proof (induction ms)
  case (Cons m ms)
  then show ?case using mount_at_None [of ms t]
    by (auto simp: mount_at_def find_append split: option.splits)
qed simp

lemma mergeMounts_at: "mount_at (mergeMounts a b) t = (case mount_at b t of None \<Rightarrow> mount_at a t | Some m \<Rightarrow> Some m)"
proof (cases "mount_at b t")
  case None
  then have t: "t \<notin> mt_Target ` set b" by (simp add: mount_at_None)
  then have "find (\<lambda>m. mt_Target m = t) (filter (\<lambda>m. mt_Target m \<notin> mt_Target ` set b) xs) = find (\<lambda>m. mt_Target m = t) xs" for xs
    by (induction xs) auto
  then show ?thesis using None mount_at_last_mounts [of b t]
    by (simp add: mergeMounts_eq mount_at_def find_append rev_filter)
next
  case (Some m)
  then show ?thesis using mount_at_last_mounts [of b t] by (simp add: mergeMounts_eq mount_at_def find_append)
qed

lemma mergeMap_assoc: "mergeMap (mergeMap a b) c = mergeMap a (mergeMap b c)"
  by (simp add: mergeMap_def)

lemma largerByteRequirement_assoc:
  "largerByteRequirement libs (largerByteRequirement libs a b) c = largerByteRequirement libs a (largerByteRequirement libs b c)"
  by (auto simp: largerByteRequirement_def split: option.splits if_splits)

lemma mergeHostRequirements_assoc:
  "mergeHostRequirements libs (mergeHostRequirements libs a b) c = mergeHostRequirements libs a (mergeHostRequirements libs b c)"
  by (auto simp: mergeHostRequirements_def largerByteRequirement_assoc split: option.split)

lemma mergeCustomizations_lookup:
  "fmlookup (mergeCustomizations libs a b) k =
     (case fmlookup b k of None \<Rightarrow> fmlookup a k | Some raw \<Rightarrow> Some (merge_customization libs k (fmlookup a k) raw))"
  by (auto simp: mergeCustomizations_def split: option.splits)

lemma mergeCustomizations_other_assoc:
  assumes "k \<noteq> ''vscode''"
  shows "fmlookup (mergeCustomizations libs (mergeCustomizations libs a b) c) k
    = fmlookup (mergeCustomizations libs a (mergeCustomizations libs b c)) k"
  using assms by (simp add: mergeCustomizations_lookup merge_customization_def split: option.split)

lemmas merge_assocs = override_string_assoc override_option_assoc appendUnique_assoc mergeMounts_assoc mergeMap_assoc
  mergeHostRequirements_assoc

lemma appendUnique_Nil_mid: "appendUnique a (appendUnique [] c) = appendUnique a c"
  using appendUnique_assoc [of a "[]" c] by simp

text \<open>C25: Merging metadata sources does not depend on how they are grouped: merging a third source into
  the merge of two equals merging the merge of the last two into the first, in every field but the
  customizations, and there for every tool but \<open>vscode\<close>. For each target the mount of the later source
  is in effect, if it has one.
\<close>

theorem merge_associative:
  "(Merge libs (Merge libs a b) c)\<lparr> c_Customizations := m \<rparr> = (Merge libs a (Merge libs b c))\<lparr> c_Customizations := m \<rparr>
   \<and> (\<forall>k. k \<noteq> ''vscode'' \<longrightarrow> fmlookup (c_Customizations (Merge libs (Merge libs a b) c)) k
        = fmlookup (c_Customizations (Merge libs a (Merge libs b c))) k)
   \<and> mount_at (c_Mounts (Merge libs a b)) t = (case mount_at (c_Mounts b) t of None \<Rightarrow> mount_at (c_Mounts a) t | Some m \<Rightarrow> Some m)"
proof (intro conjI allI impI)
  show "mount_at (c_Mounts (Merge libs a b)) t = (case mount_at (c_Mounts b) t of None \<Rightarrow> mount_at (c_Mounts a) t | Some m \<Rightarrow> Some m)"
    by (simp add: Merge_def mergeMounts_at)
  have rs: "c_RunServices (Merge libs (Merge libs a b) c) = c_RunServices (Merge libs a (Merge libs b c))"
    by (simp add: Merge_def appendUnique_assoc appendUnique_Nil_iff appendUnique_Nil_mid)
  show "(Merge libs (Merge libs a b) c)\<lparr> c_Customizations := m \<rparr> = (Merge libs a (Merge libs b c))\<lparr> c_Customizations := m \<rparr>"
    using rs by (simp add: Merge_def merge_assocs)
  fix k :: string
  assume "k \<noteq> ''vscode''"
  then show "fmlookup (c_Customizations (Merge libs (Merge libs a b) c)) k
        = fmlookup (c_Customizations (Merge libs a (Merge libs b c))) k"
    using mergeCustomizations_other_assoc by (simp add: Merge_def)
qed

section \<open>Validation and defaults\<close>

datatype config_error =
    dockerFileConflict
  | sourceNotUnique
  | composeServiceMissing
  | composeWorkspaceMount
  | dockerfileMissing
  | badCPUs
  | badByteRequirement
  | badGPU
  | badPortsAttributes
  | badOtherPortsAttributes
  | badAppPort
  | badWaitFor
  | badUserEnvProbe
  | badShutdownAction

definition digit_char :: "char \<Rightarrow> bool" where
  "digit_char c \<longleftrightarrow> between 48 c 57"

definition digits_value :: "string \<Rightarrow> nat" where
  "digits_value s = foldl (\<lambda>acc c. acc * 10 + (byte c - 48)) 0 s"

text \<open>\<open>strconv.ParseUint(s, 10, 16)\<close>.\<close>

definition ParseUint16 :: "string \<Rightarrow> nat option" where
  "ParseUint16 s = (if s \<noteq> [] \<and> list_all digit_char s \<and> digits_value s < 2 ^ 16 then Some (digits_value s) else None)"

fun split_at :: "char \<Rightarrow> string \<Rightarrow> string \<Rightarrow> string list" where
  "split_at sep acc [] = [acc]"
| "split_at sep acc (c # s) = (if c = sep then acc # split_at sep [] s else split_at sep (acc @ [c]) s)"

definition portNumberOrRangePattern :: "string \<Rightarrow> bool" where
  "portNumberOrRangePattern s =
     (let parts = split_at (CHR ''-'') [] s
      in length parts \<le> 2 \<and> list_all (\<lambda>p. p \<noteq> [] \<and> list_all digit_char p) parts)"

definition byteRequirementPattern :: "string \<Rightarrow> bool" where
  "byteRequirementPattern s =
     (takeWhile digit_char s \<noteq> [] \<and> dropWhile digit_char s \<in> {[], ''tb'', ''gb'', ''mb'', ''kb''})"

definition ContainerPort :: "Port \<Rightarrow> nat option" where
  "ContainerPort p =
     (if port_Numeric p \<or> port_Number p \<noteq> 0 then Some (port_Number p)
      else case ParseUint16 (TrimSpace (last (split_at (CHR '':'') [] (TrimSpace (port_Address p))))) of
        None \<Rightarrow> None
      | Some v \<Rightarrow> if v = 0 then None else Some v)"

definition validatePortAttributeKey :: "config_libs \<Rightarrow> string \<Rightarrow> bool" where
  "validatePortAttributeKey libs value =
     (let value = TrimSpace value
      in if \<not> portNumberOrRangePattern value then cl_Regexp libs value \<noteq> None
         else
           (let ports = map ParseUint16 (split_at (CHR ''-'') [] value)
            in list_all (\<lambda>p. p \<noteq> None \<and> p \<noteq> Some 0) ports
               \<and> \<not> (length ports = 2 \<and> the (ports ! 0) > the (ports ! 1))))"

definition validateGPURequirement :: "config_libs \<Rightarrow> string \<Rightarrow> bool" where
  "validateGPURequirement libs value =
     (let value = TrimSpace value
      in value \<in> {[], ''null'', ''true'', ''false'', [CHR 0x22] @ ''optional'' @ [CHR 0x22]} \<or>
         (case cl_DecodeGPU libs value of
            None \<Rightarrow> False
          | Some requirement \<Rightarrow>
              \<not> (case gpu_Cores requirement of None \<Rightarrow> False | Some cores \<Rightarrow> cores < 1)
              \<and> \<not> (gpu_Memory requirement \<noteq> [] \<and> \<not> byteRequirementPattern (gpu_Memory requirement))))"

definition validatePortAttributes :: "PortAttributes \<Rightarrow> bool" where
  "validatePortAttributes attributes \<longleftrightarrow>
     pa_Protocol attributes \<in> {[], ''http'', ''https''}
     \<and> pa_OnAutoForward attributes \<in> {[], ''notify'', ''openBrowser'', ''openBrowserOnce'', ''openPreview'', ''silent'', ''ignore''}"

definition lifecycle_stages :: "string list" where
  "lifecycle_stages = [''initializeCommand'', ''onCreateCommand'', ''updateContentCommand'', ''postCreateCommand'', ''postStartCommand'']"

definition normalizeDockerfileBuild :: "Configuration \<Rightarrow> config_error + Configuration" where
  "normalizeDockerfileBuild c =
     (let dockerfile = TrimSpace (c_DockerFile c)
      in if dockerfile = [] then Inr c
         else
           (let build = (case c_Build c of
                  None \<Rightarrow> \<lparr> bd_Dockerfile = [], bd_Context = [], bd_Args = fmempty, bd_Target = [], bd_CacheFrom = [], bd_Options = [] \<rparr>
                | Some b \<Rightarrow> b);
                configured = TrimSpace (bd_Dockerfile build)
            in if configured \<noteq> [] \<and> configured \<noteq> dockerfile then Inl dockerFileConflict
               else Inr (c\<lparr> c_Build := Some (build\<lparr> bd_Dockerfile := dockerfile,
                        bd_Context := (if bd_Context build = [] then c_Context c else bd_Context build) \<rparr>),
                      c_DockerFile := [], c_Context := [] \<rparr>)))"

definition config_sources :: "Configuration \<Rightarrow> nat" where
  "config_sources c = (if TrimSpace (c_Image c) \<noteq> [] then 1 else 0) + (if c_Build c \<noteq> None then 1 else 0)
     + (if c_DockerComposeFile c \<noteq> [] then 1 else 0)"

definition Validate :: "config_libs \<Rightarrow> Configuration \<Rightarrow> config_error option" where
  "Validate libs c =
     (let compose = (c_DockerComposeFile c \<noteq> []); host = c_HostRequirements c
      in if config_sources c \<noteq> 1 then Some sourceNotUnique
         else if compose \<and> TrimSpace (c_Service c) = [] then Some composeServiceMissing
         else if compose \<and> TrimSpace (c_WorkspaceMount c) \<noteq> [] then Some composeWorkspaceMount
         else if (case c_Build c of None \<Rightarrow> False | Some b \<Rightarrow> TrimSpace (bd_Dockerfile b) = []) then Some dockerfileMissing
         else if (case hr_CPUs host of None \<Rightarrow> False | Some n \<Rightarrow> n < 1) then Some badCPUs
         else if list_ex (\<lambda>v. v \<noteq> [] \<and> \<not> byteRequirementPattern v) [hr_Memory host, hr_Storage host] then Some badByteRequirement
         else if \<not> validateGPURequirement libs (hr_GPU host) then Some badGPU
         else if \<not> fmpred (\<lambda>k a. validatePortAttributeKey libs k \<and> validatePortAttributes a) (c_PortsAttributes c) then Some badPortsAttributes
         else if (case c_OtherPortsAttributes c of None \<Rightarrow> False | Some a \<Rightarrow> \<not> validatePortAttributes a) then Some badOtherPortsAttributes
         else if list_ex (\<lambda>p. ContainerPort p = None) (c_AppPort c) then Some badAppPort
         else if c_WaitFor c \<notin> set ([] # lifecycle_stages) then Some badWaitFor
         else if c_UserEnvProbe c \<notin> {[], ''none'', ''loginShell'', ''loginInteractiveShell'', ''interactiveShell''} then Some badUserEnvProbe
         else if c_ShutdownAction c \<notin> {[], ''none'', if compose then ''stopCompose'' else ''stopContainer''} then Some badShutdownAction
         else None)"

definition with_defaults :: "Configuration \<Rightarrow> Configuration" where
  "with_defaults c =
     (let c1 = (if c_WaitFor c = [] then c\<lparr> c_WaitFor := ''updateContentCommand'' \<rparr> else c);
          c2 = (if c_UserEnvProbe c1 = [] then c1\<lparr> c_UserEnvProbe := ''loginInteractiveShell'' \<rparr> else c1);
          c3 = (if c_ShutdownAction c2 = []
                then c2\<lparr> c_ShutdownAction := (if c_DockerComposeFile c2 \<noteq> [] then ''stopCompose'' else ''stopContainer'') \<rparr> else c2)
      in if c_DockerComposeFile c3 \<noteq> [] \<and> TrimSpace (c_WorkspaceFolder c3) = [] then c3\<lparr> c_WorkspaceFolder := ''/'' \<rparr> else c3)"

text \<open>\<open>Finalize\<close>: the configuration is changed also when validation fails.\<close>

definition Finalize :: "config_libs \<Rightarrow> Configuration \<Rightarrow> config_error option \<times> Configuration" where
  "Finalize libs c = (Validate libs (with_defaults c), with_defaults c)"

section \<open>Mounts\<close>

datatype mount_error =
    badConsistency | bindSourceMissing | bindNoCopy | badPropagation | volumePropagation | tmpfsSource | tmpfsOptions
  | badMountType | targetNotAbsolute | mountValueMissing string | mountSettingUnsupported string

definition Mount_Validate :: "Mount \<Rightarrow> mount_error option" where
  "Mount_Validate m =
     (let absolute = (case TrimSpace (mt_Target m) of c # _ \<Rightarrow> c = CHR ''/'' | [] \<Rightarrow> False);
          finish = (if absolute then None else Some targetNotAbsolute)
      in if mt_Consistency m \<notin> {[], ''default'', ''consistent'', ''cached'', ''delegated''} then Some badConsistency
         else if mt_Type m = ''bind'' then
           (if TrimSpace (mt_Source m) = [] then Some bindSourceMissing
            else if mt_VolumeNoCopy m then Some bindNoCopy
            else if mt_BindPropagation m \<notin> {[], ''rprivate'', ''private'', ''rshared'', ''shared'', ''rslave'', ''slave''} then Some badPropagation
            else finish)
         else if mt_Type m = ''volume'' then (if mt_BindPropagation m \<noteq> [] then Some volumePropagation else finish)
         else if mt_Type m = ''tmpfs'' then
           (if mt_Source m \<noteq> [] then Some tmpfsSource
            else if mt_BindPropagation m \<noteq> [] \<or> mt_VolumeNoCopy m then Some tmpfsOptions
            else finish)
         else Some badMountType)"

text \<open>\<open>strings.EqualFold(s, "true")\<close>: none of its letters folds outside ASCII.\<close>

definition fold_true :: "string \<Rightarrow> bool" where
  "fold_true s \<longleftrightarrow> length s = 4 \<and> list_all2 (\<lambda>c l. c = l \<or> byte c + 32 = byte l) s ''true''"

text \<open>One item of the string form of a mount.\<close>

definition mount_item :: "string \<Rightarrow> Mount \<Rightarrow> mount_error + Mount" where
  "mount_item item m =
     (let trimmed = TrimSpace item;
          name = TrimSpace (takeWhile (\<lambda>c. c \<noteq> CHR ''='') trimmed);
          hasSetting = (CHR ''='' \<in> set trimmed);
          raw = drop 1 (dropWhile (\<lambda>c. c \<noteq> CHR ''='') trimmed);
          setting = TrimSpace raw;
          flag = (\<not> hasSetting \<or> raw = [] \<or> fold_true setting)
      in if name \<in> {''type'', ''source'', ''src'', ''target'', ''dst'', ''destination'', ''consistency'', ''bind-propagation''} then
           (if \<not> hasSetting then Inl (mountValueMissing item)
            else Inr (if name = ''type'' then m\<lparr> mt_Type := setting \<rparr>
                      else if name \<in> {''source'', ''src''} then m\<lparr> mt_Source := setting \<rparr>
                      else if name \<in> {''target'', ''dst'', ''destination''} then m\<lparr> mt_Target := setting \<rparr>
                      else if name = ''consistency'' then m\<lparr> mt_Consistency := setting \<rparr>
                      else m\<lparr> mt_BindPropagation := setting \<rparr>))
         else if name \<in> {''readonly'', ''ro''} then Inr (m\<lparr> mt_ReadOnly := flag \<rparr>)
         else if name = ''volume-nocopy'' then Inr (m\<lparr> mt_VolumeNoCopy := flag \<rparr>)
         else Inl (mountSettingUnsupported (takeWhile (\<lambda>c. c \<noteq> CHR ''='') trimmed)))"

fun mount_items :: "string list \<Rightarrow> Mount \<Rightarrow> mount_error + Mount" where
  "mount_items [] m = Inr m"
| "mount_items (item # items) m = (case mount_item item m of Inl e \<Rightarrow> Inl e | Inr m \<Rightarrow> mount_items items m)"

definition empty_mount :: Mount where
  "empty_mount = \<lparr> mt_Type = [], mt_Source = [], mt_Target = [], mt_Consistency = [], mt_ReadOnly = False,
     mt_BindPropagation = [], mt_VolumeNoCopy = False \<rparr>"

text \<open>The string form of \<open>UnmarshalJSON\<close>.\<close>

definition Mount_of_string :: "string \<Rightarrow> mount_error + Mount" where
  "Mount_of_string value =
     (case mount_items (split_at (CHR '','') [] value) empty_mount of
        Inl e \<Rightarrow> Inl e
      | Inr m \<Rightarrow> (case Mount_Validate m of Some e \<Rightarrow> Inl e | None \<Rightarrow> Inr m))"

section \<open>Typing of configurations\<close>

text \<open>What the container engine relies on in an effective configuration.\<close>

definition mount_typed :: "Mount \<Rightarrow> bool" where
  "mount_typed m \<longleftrightarrow> Mount_Validate m = None"

definition config_typed :: "Configuration \<Rightarrow> bool" where
  "config_typed c \<longleftrightarrow>
     config_sources c = 1
     \<and> (c_DockerComposeFile c \<noteq> [] \<longrightarrow> TrimSpace (c_Service c) \<noteq> [] \<and> TrimSpace (c_WorkspaceFolder c) \<noteq> [])
     \<and> (\<forall>b. c_Build c = Some b \<longrightarrow> TrimSpace (bd_Dockerfile b) \<noteq> [])
     \<and> (\<forall>n. hr_CPUs (c_HostRequirements c) = Some n \<longrightarrow> 1 \<le> n)
     \<and> (\<forall>p \<in> set (c_AppPort c). ContainerPort p \<noteq> None)
     \<and> c_WaitFor c \<in> set lifecycle_stages
     \<and> c_UserEnvProbe c \<in> {''none'', ''loginShell'', ''loginInteractiveShell'', ''interactiveShell''}
     \<and> c_ShutdownAction c \<in> {''none'', if c_DockerComposeFile c \<noteq> [] then ''stopCompose'' else ''stopContainer''}"

lemma with_defaults_fields [simp]:
  "c_DockerComposeFile (with_defaults c) = c_DockerComposeFile c" "c_Image (with_defaults c) = c_Image c"
  "c_Build (with_defaults c) = c_Build c" "c_Service (with_defaults c) = c_Service c" "c_HostRequirements (with_defaults c) = c_HostRequirements c"
  "c_AppPort (with_defaults c) = c_AppPort c"
  "c_WaitFor (with_defaults c) = (if c_WaitFor c = [] then ''updateContentCommand'' else c_WaitFor c)"
  "c_UserEnvProbe (with_defaults c) = (if c_UserEnvProbe c = [] then ''loginInteractiveShell'' else c_UserEnvProbe c)"
  "c_ShutdownAction (with_defaults c) =
     (if c_ShutdownAction c = [] then if c_DockerComposeFile c \<noteq> [] then ''stopCompose'' else ''stopContainer'' else c_ShutdownAction c)"
  "c_WorkspaceFolder (with_defaults c) =
     (if c_DockerComposeFile c \<noteq> [] \<and> TrimSpace (c_WorkspaceFolder c) = [] then ''/'' else c_WorkspaceFolder c)"
  by (simp_all add: with_defaults_def Let_def)

lemma TrimSpace_slash: "TrimSpace ''/'' \<noteq> []"
  by code_simp

lemma with_defaults_idem: "with_defaults (with_defaults c) = with_defaults c"
proof -
  have "c_WaitFor (with_defaults c) \<noteq> []" "c_UserEnvProbe (with_defaults c) \<noteq> []" "c_ShutdownAction (with_defaults c) \<noteq> []"
    "\<not> (c_DockerComposeFile (with_defaults c) \<noteq> [] \<and> TrimSpace (c_WorkspaceFolder (with_defaults c)) = [])"
    using TrimSpace_slash by simp_all
  then show ?thesis by (simp add: with_defaults_def [of "with_defaults c"] Let_def)
qed

lemma config_sources_defaults [simp]: "config_sources (with_defaults c) = config_sources c"
  by (simp add: config_sources_def)

lemma guard_None: "(if P then Some e else x) = None \<longleftrightarrow> \<not> P \<and> x = None"
  by simp

lemma Validate_None:
  assumes "Validate libs c = None"
  shows "config_sources c = 1" "c_DockerComposeFile c \<noteq> [] \<Longrightarrow> TrimSpace (c_Service c) \<noteq> []"
    "c_Build c = Some b \<Longrightarrow> TrimSpace (bd_Dockerfile b) \<noteq> []" "hr_CPUs (c_HostRequirements c) = Some n \<Longrightarrow> 1 \<le> n"
    "p \<in> set (c_AppPort c) \<Longrightarrow> ContainerPort p \<noteq> None" "c_WaitFor c \<in> set ([] # lifecycle_stages)"
    "c_UserEnvProbe c \<in> {[], ''none'', ''loginShell'', ''loginInteractiveShell'', ''interactiveShell''}"
    "c_ShutdownAction c \<in> {[], ''none'', if c_DockerComposeFile c \<noteq> [] then ''stopCompose'' else ''stopContainer''}"
proof -
  have v: "config_sources c = 1" "\<not> (c_DockerComposeFile c \<noteq> [] \<and> TrimSpace (c_Service c) = [])"
    "\<not> (case c_Build c of None \<Rightarrow> False | Some b \<Rightarrow> TrimSpace (bd_Dockerfile b) = [])"
    "\<not> (case hr_CPUs (c_HostRequirements c) of None \<Rightarrow> False | Some n \<Rightarrow> n < 1)"
    "\<not> list_ex (\<lambda>p. ContainerPort p = None) (c_AppPort c)" "c_WaitFor c \<in> set ([] # lifecycle_stages)"
    "c_UserEnvProbe c \<in> {[], ''none'', ''loginShell'', ''loginInteractiveShell'', ''interactiveShell''}"
    "c_ShutdownAction c \<in> {[], ''none'', if c_DockerComposeFile c \<noteq> [] then ''stopCompose'' else ''stopContainer''}"
    using assms unfolding Validate_def Let_def guard_None by (simp_all only: not_not not_False_eq_True)
  show "config_sources c = 1" "c_WaitFor c \<in> set ([] # lifecycle_stages)"
    "c_UserEnvProbe c \<in> {[], ''none'', ''loginShell'', ''loginInteractiveShell'', ''interactiveShell''}"
    "c_ShutdownAction c \<in> {[], ''none'', if c_DockerComposeFile c \<noteq> [] then ''stopCompose'' else ''stopContainer''}"
    by (fact v)+
  show "c_DockerComposeFile c \<noteq> [] \<Longrightarrow> TrimSpace (c_Service c) \<noteq> []" using v(2) by blast
  show "c_Build c = Some b \<Longrightarrow> TrimSpace (bd_Dockerfile b) \<noteq> []" using v(3) by simp
  show "hr_CPUs (c_HostRequirements c) = Some n \<Longrightarrow> 1 \<le> n" using v(4) by simp
  show "p \<in> set (c_AppPort c) \<Longrightarrow> ContainerPort p \<noteq> None" using v(5) by (auto simp: list_ex_iff)
qed

text \<open>A configuration that \<open>Finalize\<close> accepts is well typed: exactly one image, build or Compose
  source, with the service, working directory or Dockerfile that it needs, and every enumerated
  setting has one of its values, none of them left empty; and it is a fixed point of \<open>Finalize\<close>.
\<close>

theorem finalize_well_typed:
  assumes "Finalize libs c = (None, c')"
  shows "config_typed c' \<and> Finalize libs c' = (None, c')"
proof
  have v: "Validate libs c' = None" and d: "c' = with_defaults c" using assms by (auto simp: Finalize_def)
  note f = Validate_None [OF v]
  have "c_WaitFor c' \<noteq> []" "c_UserEnvProbe c' \<noteq> []" "c_ShutdownAction c' \<noteq> []"
    "c_DockerComposeFile c' \<noteq> [] \<Longrightarrow> TrimSpace (c_WorkspaceFolder c') \<noteq> []"
    using TrimSpace_slash by (simp_all add: d)
  then show "config_typed c'" unfolding config_typed_def using f by (intro conjI allI ballI impI) auto
  show "Finalize libs c' = (None, c')" using v by (simp add: Finalize_def d with_defaults_idem)
qed

text \<open>Mounts read from their string form are typed, and merging keeps mounts typed with distinct targets.\<close>

lemma Mount_of_string_typed: "Mount_of_string s = Inr m \<Longrightarrow> mount_typed m"
  by (auto simp: Mount_of_string_def mount_typed_def split: sum.splits option.splits)

lemma distinct_last_mounts: "distinct (map mt_Target (last_mounts ms))"
  by (induction ms) (auto simp: last_mounts_targets image_iff Bex_def dest: imageI)

lemma mergeMounts_typed:
  assumes "list_all mount_typed a" and "list_all mount_typed b" and "distinct (map mt_Target a)"
  shows "list_all mount_typed (mergeMounts a b) \<and> distinct (map mt_Target (mergeMounts a b))"
proof
  have "set (last_mounts b) \<subseteq> set b" by (induction b) auto
  then show "list_all mount_typed (mergeMounts a b)" using assms(1,2) by (auto simp: mergeMounts_eq list_all_iff)
  have "distinct (map mt_Target (filter (\<lambda>m. mt_Target m \<notin> mt_Target ` set b) a))" using assms(3) by (rule distinct_map_filter)
  moreover have "mt_Target ` set (filter (\<lambda>m. mt_Target m \<notin> mt_Target ` set b) a) \<inter> mt_Target ` set (last_mounts b) = {}"
    by (auto simp: last_mounts_targets)
  ultimately show "distinct (map mt_Target (mergeMounts a b))"
    using distinct_last_mounts [of b] by (simp add: mergeMounts_eq)
qed

section \<open>Concrete configurations\<close>

definition sample_config_libs :: config_libs where
  "sample_config_libs = \<lparr> cl_Decode = (\<lambda>_. None), cl_Encode = (\<lambda>_. []), cl_RAMInBytes = (\<lambda>s. if list_all digit_char s then Some (int (digits_value s)) else None),
     cl_Regexp = (\<lambda>_. None), cl_DecodeGPU = (\<lambda>_. None) \<rparr>"

definition image_config :: "string \<Rightarrow> (string, string) fmap \<Rightarrow> Configuration" where
  "image_config img customizations = \<lparr> c_Schema = [], c_Name = [], c_Image = img, c_Build = None, c_DockerFile = [], c_Context = [],
     c_DockerComposeFile = [], c_Service = [], c_RunServices = [], c_WorkspaceFolder = [], c_WorkspaceMount = [], c_Mounts = [],
     c_ContainerEnv = fmempty, c_RemoteEnv = fmempty, c_ContainerUser = [], c_RemoteUser = [], c_UpdateRemoteUserUID = None,
     c_UserEnvProbe = [], c_InitializeCommand = [], c_OnCreateCommand = [], c_UpdateContentCommand = [], c_PostCreateCommand = [],
     c_PostStartCommand = [], c_PostAttachCommand = [], c_WaitFor = [], c_ShutdownAction = [], c_Features = fmempty,
     c_OverrideFeatureInstallOrder = [], c_Customizations = customizations, c_ForwardPorts = [], c_PortsAttributes = fmempty,
     c_OtherPortsAttributes = None, c_AppPort = [], c_RunArgs = [], c_Init = False, c_Privileged = False, c_CapAdd = [],
     c_SecurityOpt = [], c_OverrideCommand = None,
     c_HostRequirements = \<lparr> hr_CPUs = None, hr_Memory = [], hr_Storage = [], hr_GPU = [] \<rparr>, c_Secrets = fmempty \<rparr>"

theorem merge_associative_witness:
  "fmlookup (c_Customizations (Merge sample_config_libs (Merge sample_config_libs (image_config ''a'' fmempty)
       (image_config ''b'' (fmupd ''jetbrains'' ''{}'' fmempty))) (image_config [] fmempty))) ''jetbrains''
   = fmlookup (c_Customizations (Merge sample_config_libs (image_config ''a'' fmempty)
       (Merge sample_config_libs (image_config ''b'' (fmupd ''jetbrains'' ''{}'' fmempty)) (image_config [] fmempty)))) ''jetbrains''"
  using merge_associative [where libs = sample_config_libs and a = "image_config ''a'' fmempty"
      and b = "image_config ''b'' (fmupd ''jetbrains'' ''{}'' fmempty)" and c = "image_config [] fmempty"] by simp

lemma sample_finalize: "Finalize sample_config_libs (image_config ''alpine'' fmempty) = (None, with_defaults (image_config ''alpine'' fmempty))"
proof -
  have "TrimSpace ''alpine'' = ''alpine''" "TrimSpace [] = []" by code_simp+
  then have "config_sources (image_config ''alpine'' fmempty) = 1" "validateGPURequirement sample_config_libs []"
    by (simp_all add: config_sources_def image_config_def validateGPURequirement_def)
  moreover have "c_PortsAttributes (with_defaults (image_config ''alpine'' fmempty)) = fmempty"
    "c_OtherPortsAttributes (with_defaults (image_config ''alpine'' fmempty)) = None" by (simp_all add: with_defaults_def image_config_def)
  moreover have "c_DockerComposeFile (image_config ''alpine'' fmempty) = []" "c_Build (image_config ''alpine'' fmempty) = None"
    "c_HostRequirements (image_config ''alpine'' fmempty) = \<lparr> hr_CPUs = None, hr_Memory = [], hr_Storage = [], hr_GPU = [] \<rparr>"
    "c_AppPort (image_config ''alpine'' fmempty) = []" "c_WaitFor (image_config ''alpine'' fmempty) = []"
    "c_UserEnvProbe (image_config ''alpine'' fmempty) = []" "c_ShutdownAction (image_config ''alpine'' fmempty) = []"
    by (simp_all add: image_config_def)
  ultimately show ?thesis by (simp add: Finalize_def Validate_def Let_def lifecycle_stages_def)
qed

theorem finalize_well_typed_witness:
  "config_typed (with_defaults (image_config ''alpine'' fmempty))
   \<and> Finalize sample_config_libs (with_defaults (image_config ''alpine'' fmempty)) = (None, with_defaults (image_config ''alpine'' fmempty))"
  by (rule finalize_well_typed [OF sample_finalize])

end
