(* ===== verification/Route_Store.thy ===== *)
theory Route_Store
  imports Session_Registry Endpoint_Contract
begin

text \<open>
  The route store of the Gateway (\<open>internal/gateway/route.go\<close>, with the snapshots of
  \<open>internal/gateway/snapshot.go\<close>). Route entries are shared: the release function of a proxied request
  keeps a pointer to its entry after the store has replaced it. Entries therefore live in a heap, and
  the store maps keys to addresses. A lease stands for the cancel function of one proxied request.
  What an operation does after it has left the mutex is a list of effects, which the machine of
  \<open>Route_Leases\<close> runs later, so that other operations can come between; \<open>run_effect\<close> performs them,
  calling the session registry for the sessions of an endpoint.
\<close>

section \<open>Data\<close>

record endpointRoute =
  er_SiteUID :: string
  er_GiteaWebURL :: string
  er_PodUID :: string
  er_AgentAddress :: string
  er_TargetVersion :: int
  er_CodespaceUUID :: string
  er_EndpointID :: string
  er_Label :: string
  er_Public :: bool

record endpointSnapshot =
  es_EndpointID :: string
  es_Label :: string
  es_Public :: bool

record runtimeSnapshot =
  rt_SiteUID :: string
  rt_ResourceUID :: string
  rt_RuntimeUUID :: string
  rt_GiteaWebURL :: string
  rt_PodUID :: string
  rt_AgentAddress :: string
  rt_TargetVersion :: int
  rt_Endpoints :: "endpointSnapshot list"

record gatewayRouteEntry =
  ge_route :: endpointRoute
  ge_leases :: "int list"
  ge_transport :: bool

type_synonym gatewayRouteKey = "string \<times> string"

record routeStore =
  rs_routes :: "(gatewayRouteKey, nat) fmap"
  rs_heap :: "nat \<Rightarrow> gatewayRouteEntry"
  rs_fresh :: nat
  rs_nextLeaseID :: int
  rs_sessions :: bool
  rs_backend :: bool
  rs_runtimes :: "(string, runtimeSnapshot) fmap"

datatype route_error =
    snapshotIncomplete
  | endpointSnapshotIncomplete
  | endpointDuplicated string
  | runtimeDuplicated string
  | siteUIDRequired
  | codespaceUUIDRequired
  | giteaWebURLRequired
  | endpointIDInvalid
  | workspaceRouteInvalid
  | routeChanged
  | backendUnavailable

datatype route_effect =
    CancelLease int
  | DeleteSessions string string
  | ClosePod string
  | CloseBackend

section \<open>Addresses and identifiers\<close>

definition index_last :: "char \<Rightarrow> string \<Rightarrow> nat option" where
  "index_last c s = (if c \<in> set s then Some (length s - 1 - length (takeWhile (\<lambda>x. x \<noteq> c) (rev s))) else None)"

definition index_first :: "char \<Rightarrow> string \<Rightarrow> nat option" where
  "index_first c s = (if c \<in> set s then Some (length (takeWhile (\<lambda>x. x \<noteq> c) s)) else None)"

text \<open>\<open>net.SplitHostPort\<close>.\<close>

definition SplitHostPort :: "string \<Rightarrow> (string \<times> string) option" where
  "SplitHostPort s =
     (case index_last (CHR '':'') s of
        None \<Rightarrow> None
      | Some i \<Rightarrow>
          if hd s = CHR ''['' then
            (case index_first (CHR '']'') s of
               None \<Rightarrow> None
             | Some e \<Rightarrow>
                 if e + 1 \<noteq> i then None
                 else if CHR ''['' \<in> set (drop 1 s) \<or> CHR '']'' \<in> set (drop (e + 1) s) then None
                 else Some (take (e - 1) (drop 1 s), drop (i + 1) s))
          else if CHR '':'' \<in> set (take i s) \<or> CHR ''['' \<in> set s \<or> CHR '']'' \<in> set s then None
          else Some (take i s, drop (i + 1) s))"

definition validAgentAddress :: "string \<Rightarrow> bool" where
  "validAgentAddress value =
     (case SplitHostPort value of None \<Rightarrow> False | Some (host, port) \<Rightarrow> TrimSpace host \<noteq> [] \<and> port = ''8444'')"

definition isGatewayEndpointID :: "string \<Rightarrow> bool" where
  "isGatewayEndpointID value \<longleftrightarrow>
     \<not> (value = WorkspaceEndpointID \<or> length value < 1 \<or> length value > 30)
     \<and> (\<forall>i < length value. lower_alnum (value ! i) \<or> (value ! i = CHR ''-'' \<and> 0 < i \<and> i < length value - 1))"

definition WorkspaceEndpointLabel :: string where
  "WorkspaceEndpointLabel = ''Workspace''"

definition TrimRight :: "char \<Rightarrow> string \<Rightarrow> string" where
  "TrimRight c s = rev (dropWhile (\<lambda>x. x = c) (rev s))"

fun endpoints_valid :: "string list \<Rightarrow> endpointSnapshot list \<Rightarrow> route_error option" where
  "endpoints_valid seen [] = None"
| "endpoints_valid seen (e # es) =
     (if TrimSpace (es_EndpointID e) = [] then Some endpointSnapshotIncomplete
      else if es_EndpointID e \<in> set seen then Some (endpointDuplicated (es_EndpointID e))
      else endpoints_valid (es_EndpointID e # seen) es)"

definition validateRuntimeSnapshot :: "runtimeSnapshot \<Rightarrow> route_error option" where
  "validateRuntimeSnapshot s =
     (if TrimSpace (rt_SiteUID s) = [] \<or> TrimSpace (rt_ResourceUID s) = [] \<or> TrimSpace (rt_RuntimeUUID s) = []
         \<or> TrimSpace (rt_GiteaWebURL s) = [] \<or> TrimSpace (rt_PodUID s) = [] \<or> \<not> validAgentAddress (rt_AgentAddress s)
         \<or> rt_TargetVersion s \<le> 0
      then Some snapshotIncomplete else endpoints_valid [] (rt_Endpoints s))"

definition sameGatewayEndpointRouting :: "endpointRoute \<Rightarrow> endpointRoute \<Rightarrow> bool" where
  "sameGatewayEndpointRouting l r \<longleftrightarrow>
     er_SiteUID l = er_SiteUID r \<and> er_GiteaWebURL l = er_GiteaWebURL r \<and> er_PodUID l = er_PodUID r
     \<and> er_AgentAddress l = er_AgentAddress r \<and> er_CodespaceUUID l = er_CodespaceUUID r
     \<and> er_EndpointID l = er_EndpointID r \<and> er_Public l = er_Public r"

definition sameGatewayRuntimeRouting :: "runtimeSnapshot \<Rightarrow> runtimeSnapshot \<Rightarrow> bool" where
  "sameGatewayRuntimeRouting l r \<longleftrightarrow>
     rt_SiteUID l = rt_SiteUID r \<and> rt_ResourceUID l = rt_ResourceUID r \<and> rt_RuntimeUUID l = rt_RuntimeUUID r
     \<and> rt_GiteaWebURL l = rt_GiteaWebURL r \<and> rt_PodUID l = rt_PodUID r \<and> rt_AgentAddress l = rt_AgentAddress r"

definition normalizeEndpointRoute :: "endpointRoute \<Rightarrow> route_error + endpointRoute" where
  "normalizeEndpointRoute route =
     (let r = route\<lparr> er_SiteUID := TrimSpace (er_SiteUID route), er_CodespaceUUID := TrimSpace (er_CodespaceUUID route),
                     er_EndpointID := TrimSpace (er_EndpointID route), er_Label := TrimSpace (er_Label route),
                     er_GiteaWebURL := TrimRight (CHR ''/'') (TrimSpace (er_GiteaWebURL route)) \<rparr>
      in if er_SiteUID r = [] then Inl siteUIDRequired
         else if er_CodespaceUUID r = [] then Inl codespaceUUIDRequired
         else if er_GiteaWebURL r = [] then Inl giteaWebURLRequired
         else if er_EndpointID r \<noteq> WorkspaceEndpointID \<and> \<not> isGatewayEndpointID (er_EndpointID r) then Inl endpointIDInvalid
         else if er_EndpointID r = WorkspaceEndpointID \<and> (er_Label r \<noteq> WorkspaceEndpointLabel \<or> er_Public r) then Inl workspaceRouteInvalid
         else Inr r)"

section \<open>Reading\<close>

definition newRouteStore :: "bool \<Rightarrow> routeStore" where
  "newRouteStore backend = \<lparr> rs_routes = fmempty, rs_heap = (\<lambda>_. undefined), rs_fresh = 0, rs_nextLeaseID = 0,
     rs_sessions = False, rs_backend = backend, rs_runtimes = fmempty \<rparr>"

definition entry_at :: "routeStore \<Rightarrow> gatewayRouteKey \<Rightarrow> gatewayRouteEntry option" where
  "entry_at s key = map_option (rs_heap s) (fmlookup (rs_routes s) key)"

definition Get :: "routeStore option \<Rightarrow> string \<Rightarrow> string \<Rightarrow> endpointRoute option" where
  "Get store codespaceUUID endpointID =
     (case store of None \<Rightarrow> None | Some s \<Rightarrow> map_option ge_route (entry_at s (codespaceUUID, endpointID)))"

definition SetSessionRegistry :: "bool \<Rightarrow> routeStore \<Rightarrow> routeStore" where
  "SetSessionRegistry registry s = s\<lparr> rs_sessions := registry \<rparr>"

text \<open>\<open>order\<close> is the order in which the routes are visited.\<close>

definition giteaWebURLForCodespace :: "gatewayRouteKey list \<Rightarrow> string \<Rightarrow> routeStore \<Rightarrow> string option" where
  "giteaWebURLForCodespace order codespaceUUID s =
     (case fmlookup (rs_runtimes s) codespaceUUID of
        Some runtime \<Rightarrow>
          if rt_GiteaWebURL runtime \<noteq> [] then Some (rt_GiteaWebURL runtime)
          else map_option (\<lambda>key. er_GiteaWebURL (ge_route (rs_heap s (the (fmlookup (rs_routes s) key)))))
                 (find (\<lambda>key. fst key = codespaceUUID \<and> (case entry_at s key of None \<Rightarrow> False | Some e \<Rightarrow> er_GiteaWebURL (ge_route e) \<noteq> [])) order)
      | None \<Rightarrow>
          map_option (\<lambda>key. er_GiteaWebURL (ge_route (rs_heap s (the (fmlookup (rs_routes s) key)))))
            (find (\<lambda>key. fst key = codespaceUUID \<and> (case entry_at s key of None \<Rightarrow> False | Some e \<Rightarrow> er_GiteaWebURL (ge_route e) \<noteq> [])) order))"

definition RuntimeSiteUID :: "string \<Rightarrow> routeStore \<Rightarrow> string option" where
  "RuntimeSiteUID runtimeUUID s = map_option rt_SiteUID (fmlookup (rs_runtimes s) runtimeUUID)"

section \<open>Changing\<close>

text \<open>\<open>takeCancels\<close>: the leases of the entry, which forgets them and its idle connections.\<close>

definition takeCancels :: "nat \<Rightarrow> routeStore \<Rightarrow> route_effect list \<times> routeStore" where
  "takeCancels a s =
     (map CancelLease (ge_leases (rs_heap s a)),
      s\<lparr> rs_heap := (rs_heap s)(a := (rs_heap s a)\<lparr> ge_leases := [], ge_transport := False \<rparr>) \<rparr>)"

definition new_entry :: "endpointRoute \<Rightarrow> gatewayRouteEntry" where
  "new_entry route = \<lparr> ge_route = route, ge_leases = [], ge_transport = False \<rparr>"

definition install_entry :: "gatewayRouteKey \<Rightarrow> endpointRoute \<Rightarrow> routeStore \<Rightarrow> routeStore" where
  "install_entry key route s =
     s\<lparr> rs_heap := (rs_heap s)(rs_fresh s := new_entry route), rs_routes := fmupd key (rs_fresh s) (rs_routes s),
        rs_fresh := Suc (rs_fresh s) \<rparr>"

definition update_route :: "nat \<Rightarrow> endpointRoute \<Rightarrow> routeStore \<Rightarrow> routeStore" where
  "update_route a route s = s\<lparr> rs_heap := (rs_heap s)(a := (rs_heap s a)\<lparr> ge_route := route \<rparr>) \<rparr>"

definition delete_sessions :: "routeStore \<Rightarrow> gatewayRouteKey \<Rightarrow> route_effect list" where
  "delete_sessions s key = (if rs_sessions s then [DeleteSessions (fst key) (snd key)] else [])"

definition Put :: "endpointRoute \<Rightarrow> routeStore \<Rightarrow> route_error option \<times> routeStore \<times> route_effect list" where
  "Put route s =
     (case normalizeEndpointRoute route of
        Inl e \<Rightarrow> (Some e, s, [])
      | Inr route \<Rightarrow>
          (let key = (er_CodespaceUUID route, er_EndpointID route)
           in case fmlookup (rs_routes s) key of
                None \<Rightarrow> (None, install_entry key route s, [])
              | Some a \<Rightarrow>
                  if sameGatewayEndpointRouting (ge_route (rs_heap s a)) route then (None, update_route a route s, [])
                  else (case takeCancels a (install_entry key route s) of
                    (cancels, s') \<Rightarrow> (None, s', delete_sessions s key @ cancels))))"

definition Delete :: "string \<Rightarrow> string \<Rightarrow> routeStore \<Rightarrow> routeStore \<times> route_effect list" where
  "Delete codespaceUUID endpointID s =
     (let key = (codespaceUUID, endpointID)
      in case fmlookup (rs_routes s) key of
           None \<Rightarrow> (s, [])
         | Some a \<Rightarrow>
             (case takeCancels a (s\<lparr> rs_routes := fmdrop key (rs_routes s) \<rparr>) of
                (cancels, s') \<Rightarrow> (s', delete_sessions s key @ cancels)))"

text \<open>The routes and runtimes of the snapshots, in their order.\<close>

definition snapshot_route :: "runtimeSnapshot \<Rightarrow> endpointSnapshot \<Rightarrow> gatewayRouteKey \<times> endpointRoute" where
  "snapshot_route s e = ((rt_RuntimeUUID s, es_EndpointID e),
     \<lparr> er_SiteUID = rt_SiteUID s, er_GiteaWebURL = rt_GiteaWebURL s, er_PodUID = rt_PodUID s, er_AgentAddress = rt_AgentAddress s,
       er_TargetVersion = rt_TargetVersion s, er_CodespaceUUID = rt_RuntimeUUID s, er_EndpointID = es_EndpointID e,
       er_Label = es_Label e, er_Public = es_Public e \<rparr>)"

fun collect_snapshots ::
    "runtimeSnapshot list \<Rightarrow> (string, runtimeSnapshot) fmap \<Rightarrow> (gatewayRouteKey \<times> endpointRoute) list
      \<Rightarrow> route_error + (string, runtimeSnapshot) fmap \<times> (gatewayRouteKey \<times> endpointRoute) list" where
  "collect_snapshots [] runtimes routes = Inr (runtimes, routes)"
| "collect_snapshots (s # snapshots) runtimes routes =
     (case validateRuntimeSnapshot s of
        Some e \<Rightarrow> Inl e
      | None \<Rightarrow>
          if fmlookup runtimes (rt_RuntimeUUID s) \<noteq> None then Inl (runtimeDuplicated (rt_RuntimeUUID s))
          else collect_snapshots snapshots (fmupd (rt_RuntimeUUID s) s runtimes) (routes @ map (snapshot_route s) (rt_Endpoints s)))"

definition routing_unchanged ::
    "(string, runtimeSnapshot) fmap \<Rightarrow> (gatewayRouteKey \<times> endpointRoute) list \<Rightarrow> routeStore \<Rightarrow> bool" where
  "routing_unchanged runtimes routes s \<longleftrightarrow>
     map_len (rs_runtimes s) = map_len runtimes \<and> map_len (rs_routes s) = int (length routes)
     \<and> fmpred (\<lambda>key runtime. case fmlookup (rs_runtimes s) key of None \<Rightarrow> False | Some previous \<Rightarrow> sameGatewayRuntimeRouting previous runtime) runtimes
     \<and> list_all (\<lambda>(key, route). case entry_at s key of None \<Rightarrow> False | Some entry \<Rightarrow> ge_route entry = route) routes"

text \<open>One turn of the loop that fills the new map; the old entries that are not kept are left over.\<close>

definition place_route ::
    "gatewayRouteKey \<times> endpointRoute \<Rightarrow> (gatewayRouteKey, nat) fmap \<times> routeStore \<Rightarrow> (gatewayRouteKey, nat) fmap \<times> routeStore" where
  "place_route kr = (\<lambda>(old, s). case kr of (key, route) \<Rightarrow>
     (case fmlookup old key of
        Some a \<Rightarrow>
          if sameGatewayEndpointRouting (ge_route (rs_heap s a)) route
          then (fmdrop key old, (update_route a route s)\<lparr> rs_routes := fmupd key a (rs_routes s) \<rparr>)
          else (old, install_entry key route s)
      | None \<Rightarrow> (old, install_entry key route s)))"

fun take_all :: "nat list \<Rightarrow> routeStore \<Rightarrow> route_effect list \<times> routeStore" where
  "take_all [] s = ([], s)"
| "take_all (a # as) s =
     (case takeCancels a s of (cancels, s1) \<Rightarrow> (case take_all as s1 of (more_cancels, s2) \<Rightarrow> (cancels @ more_cancels, s2)))"

definition closed_pods :: "string list \<Rightarrow> (string, runtimeSnapshot) fmap \<Rightarrow> (string, runtimeSnapshot) fmap \<Rightarrow> route_effect list" where
  "closed_pods order old new = concat (map (\<lambda>u.
     case fmlookup old u of
       None \<Rightarrow> []
     | Some o1 \<Rightarrow>
         (case fmlookup new u of
            None \<Rightarrow> [ClosePod (rt_PodUID o1)]
          | Some n \<Rightarrow> if rt_PodUID o1 \<noteq> rt_PodUID n \<or> rt_AgentAddress o1 \<noteq> rt_AgentAddress n then [ClosePod (rt_PodUID o1)] else [])) order)"

text \<open>
  \<open>ReplaceSharedGatewayRuntimes\<close>; \<open>route_order\<close> and \<open>runtime_order\<close> are the orders in which the old
  maps are visited (all their keys).
\<close>

definition ReplaceSharedGatewayRuntimes ::
    "gatewayRouteKey list \<Rightarrow> string list \<Rightarrow> runtimeSnapshot list \<Rightarrow> routeStore
      \<Rightarrow> route_error option \<times> routeStore \<times> route_effect list" where
  "ReplaceSharedGatewayRuntimes route_order runtime_order snapshots s =
     (case collect_snapshots snapshots fmempty [] of
        Inl e \<Rightarrow> (Some e, s, [])
      | Inr (runtimes, routes) \<Rightarrow>
          if routing_unchanged runtimes routes s then (None, s, [])
          else
            (case fold place_route routes (rs_routes s, s\<lparr> rs_routes := fmempty \<rparr>) of
               (left, s1) \<Rightarrow>
                 (let keys = filter (\<lambda>key. fmlookup left key \<noteq> None) route_order
                  in case take_all (map (\<lambda>key. the (fmlookup left key)) keys) (s1\<lparr> rs_runtimes := runtimes \<rparr>) of
                       (cancels, s2) \<Rightarrow>
                         (None, s2,
                          (if rs_backend s then closed_pods runtime_order (rs_runtimes s) runtimes else [])
                            @ (if rs_sessions s then map (\<lambda>key. DeleteSessions (fst key) (snd key)) keys else [])
                            @ cancels))))"

definition Close :: "gatewayRouteKey list \<Rightarrow> routeStore \<Rightarrow> routeStore \<times> route_effect list" where
  "Close route_order s =
     (let keys = filter (\<lambda>key. fmlookup (rs_routes s) key \<noteq> None) route_order
      in case take_all (map (\<lambda>key. the (fmlookup (rs_routes s) key)) keys) s of
           (cancels, s1) \<Rightarrow>
             (s1\<lparr> rs_routes := fmempty, rs_runtimes := fmempty \<rparr>, cancels @ (if rs_backend s then [CloseBackend] else [])))"

section \<open>Proxied requests\<close>

text \<open>\<open>BeginProxy\<close>: the route, the lease and the address that the release function keeps.\<close>

definition BeginProxy :: "string \<Rightarrow> string \<Rightarrow> routeStore \<Rightarrow> (endpointRoute \<times> int \<times> nat) option \<times> routeStore" where
  "BeginProxy codespaceUUID endpointID s =
     (case fmlookup (rs_routes s) (codespaceUUID, endpointID) of
        None \<Rightarrow> (None, s)
      | Some a \<Rightarrow>
          (let leaseID = wrap64 (rs_nextLeaseID s + 1); entry = rs_heap s a
           in (Some (ge_route entry, leaseID, a),
               s\<lparr> rs_nextLeaseID := leaseID, rs_heap := (rs_heap s)(a := entry\<lparr> ge_leases := leaseID # ge_leases entry \<rparr>) \<rparr>)))"

text \<open>The locked part of the release function, after it has cancelled the request.\<close>

definition release_lease :: "int \<Rightarrow> nat \<Rightarrow> routeStore \<Rightarrow> routeStore" where
  "release_lease leaseID a s =
     s\<lparr> rs_heap := (rs_heap s)(a := (rs_heap s a)\<lparr> ge_leases := removeAll leaseID (ge_leases (rs_heap s a)) \<rparr>) \<rparr>"

definition Transport :: "endpointRoute \<Rightarrow> routeStore \<Rightarrow> route_error option \<times> routeStore" where
  "Transport route s =
     (case fmlookup (rs_routes s) (er_CodespaceUUID route, er_EndpointID route) of
        None \<Rightarrow> (Some routeChanged, s)
      | Some a \<Rightarrow>
          if \<not> sameGatewayEndpointRouting (ge_route (rs_heap s a)) route then (Some routeChanged, s)
          else if \<not> rs_backend s then (Some backendUnavailable, s)
          else (None, s\<lparr> rs_heap := (rs_heap s)(a := (rs_heap s a)\<lparr> ge_transport := True \<rparr>) \<rparr>))"

text \<open>The effects on the session registry and on the cancelled leases; the closed pods are collected.\<close>

record gateway_world =
  gw_registry :: "sessionRegistry option"
  gw_cancelled :: "int set"
  gw_session_cancels :: "nat list"
  gw_closed :: "string list"
  gw_backend_closed :: bool

definition run_effect :: "iteration \<Rightarrow> route_effect \<Rightarrow> gateway_world \<Rightarrow> gateway_world" where
  "run_effect ord effect w =
     (case effect of
        CancelLease l \<Rightarrow> w\<lparr> gw_cancelled := insert l (gw_cancelled w) \<rparr>
      | DeleteSessions c e \<Rightarrow>
          (case DeleteEndpoint ord c e (gw_registry w) of
             (_, registry, cancels) \<Rightarrow> w\<lparr> gw_registry := registry, gw_session_cancels := gw_session_cancels w @ cancels \<rparr>)
      | ClosePod p \<Rightarrow> w\<lparr> gw_closed := gw_closed w @ [p] \<rparr>
      | CloseBackend \<Rightarrow> w\<lparr> gw_backend_closed := True \<rparr>)"

end
