(* ===== verification/Route_Leases.thy ===== *)
theory Route_Leases
  imports Route_Store
begin

text \<open>
  What the route store promises. A snapshot of the Manager replaces the routes exactly
  (\<open>replace_refines_snapshot\<close>), and a proxied request that is neither cancelled nor about to be is
  always served by the route that its key has now, with the routing it began with
  (\<open>live_lease_current\<close>): whoever changes a route to another site, pod, address or visibility cancels
  the requests that use it. The machine interleaves operations with the effects that earlier ones
  still have to run.
\<close>

section \<open>Taking leases\<close>

lemma same_routing_refl [simp]: "sameGatewayEndpointRouting r r"
  by (simp add: sameGatewayEndpointRouting_def)

lemma same_routing_trans:
  "sameGatewayEndpointRouting a b \<Longrightarrow> sameGatewayEndpointRouting b c \<Longrightarrow> sameGatewayEndpointRouting a c"
  by (simp add: sameGatewayEndpointRouting_def)

lemma takeCancels_simps [simp]:
  "rs_routes (snd (takeCancels a s)) = rs_routes s" "rs_fresh (snd (takeCancels a s)) = rs_fresh s"
  "rs_nextLeaseID (snd (takeCancels a s)) = rs_nextLeaseID s" "rs_runtimes (snd (takeCancels a s)) = rs_runtimes s"
  "ge_route (rs_heap (snd (takeCancels a s)) b) = ge_route (rs_heap s b)"
  "b \<noteq> a \<Longrightarrow> rs_heap (snd (takeCancels a s)) b = rs_heap s b"
  "set (fst (takeCancels a s)) = CancelLease ` set (ge_leases (rs_heap s a))"
  by (auto simp: takeCancels_def)

lemma take_all_conj:
  "take_all as s = (cs, s') \<Longrightarrow>
     (rs_routes s' = rs_routes s \<and> rs_fresh s' = rs_fresh s \<and> rs_nextLeaseID s' = rs_nextLeaseID s \<and> rs_runtimes s' = rs_runtimes s)
     \<and> (\<forall>a. ge_route (rs_heap s' a) = ge_route (rs_heap s a) \<and> (a \<notin> set as \<longrightarrow> rs_heap s' a = rs_heap s a)
          \<and> (a \<in> set as \<longrightarrow> CancelLease ` set (ge_leases (rs_heap s a)) \<subseteq> set cs))"
proof (induction as s arbitrary: cs s' rule: take_all.induct)
  case (2 b as s)
  obtain c1 s1 where t: "takeCancels b s = (c1, s1)" by fastforce
  obtain c2 s2 where r: "take_all as s1 = (c2, s2)" by fastforce
  note t' = takeCancels_simps [where a = b and s = s, unfolded t fst_conv snd_conv]
  have eq: "cs = c1 @ c2" "s' = s2" using "2.prems" t r by simp_all
  have ih: "(rs_routes s2 = rs_routes s1 \<and> rs_fresh s2 = rs_fresh s1 \<and> rs_nextLeaseID s2 = rs_nextLeaseID s1 \<and> rs_runtimes s2 = rs_runtimes s1)"
    "\<And>a. ge_route (rs_heap s2 a) = ge_route (rs_heap s1 a) \<and> (a \<notin> set as \<longrightarrow> rs_heap s2 a = rs_heap s1 a)
          \<and> (a \<in> set as \<longrightarrow> CancelLease ` set (ge_leases (rs_heap s1 a)) \<subseteq> set c2)"
    using "2.IH" [OF t [symmetric] r] by blast+
  have "ge_route (rs_heap s2 a) = ge_route (rs_heap s a) \<and> (a \<notin> set (b # as) \<longrightarrow> rs_heap s2 a = rs_heap s a)
          \<and> (a \<in> set (b # as) \<longrightarrow> CancelLease ` set (ge_leases (rs_heap s a)) \<subseteq> set (c1 @ c2))" for a
    using ih(2) [of a] t'(5) [of a] t'(6) [of a] t'(7) by (cases "a = b") auto
  then show ?case unfolding eq using ih(1) t'(1-4) by simp
qed simp

lemma take_all_props:
  assumes "take_all as s = (cs, s')"
  shows "rs_routes s' = rs_routes s" "rs_fresh s' = rs_fresh s" "rs_nextLeaseID s' = rs_nextLeaseID s" "rs_runtimes s' = rs_runtimes s"
    "ge_route (rs_heap s' a) = ge_route (rs_heap s a)" "a \<notin> set as \<Longrightarrow> rs_heap s' a = rs_heap s a"
    "a \<in> set as \<Longrightarrow> l \<in> set (ge_leases (rs_heap s a)) \<Longrightarrow> CancelLease l \<in> set cs"
  using take_all_conj [OF assms] by blast+

section \<open>Placing the routes of a snapshot\<close>

text \<open>
  Where the loop over the new routes stands, relative to the store it started from: an old entry is
  still to be decided, or kept at its key with its leases and its routing.
\<close>

definition kept_ok :: "routeStore \<Rightarrow> (gatewayRouteKey, nat) fmap \<Rightarrow> routeStore \<Rightarrow> bool" where
  "kept_ok s0 old s \<longleftrightarrow> (\<forall>k a. fmlookup (rs_routes s0) k = Some a \<longrightarrow> fmlookup old k = None \<longrightarrow>
     fmlookup (rs_routes s) k = Some a \<and> ge_leases (rs_heap s a) = ge_leases (rs_heap s0 a)
     \<and> sameGatewayEndpointRouting (ge_route (rs_heap s a)) (ge_route (rs_heap s0 a)))"

definition undecided_ok :: "routeStore \<Rightarrow> (gatewayRouteKey, nat) fmap \<Rightarrow> routeStore \<Rightarrow> bool" where
  "undecided_ok s0 old s \<longleftrightarrow> (\<forall>k a. fmlookup old k = Some a \<longrightarrow>
     fmlookup (rs_routes s0) k = Some a \<and> rs_heap s a = rs_heap s0 a)"

definition placed_ok :: "routeStore \<Rightarrow> (gatewayRouteKey, nat) fmap \<Rightarrow> routeStore \<Rightarrow> bool" where
  "placed_ok s0 old s \<longleftrightarrow> (\<forall>k a. fmlookup (rs_routes s) k = Some a \<longrightarrow>
     (rs_fresh s0 \<le> a \<and> a < rs_fresh s) \<or> (fmlookup (rs_routes s0) k = Some a \<and> fmlookup old k = None))"

definition routes_inj :: "routeStore \<Rightarrow> bool" where
  "routes_inj s \<longleftrightarrow> (\<forall>k k' a. fmlookup (rs_routes s) k = Some a \<longrightarrow> fmlookup (rs_routes s) k' = Some a \<longrightarrow> k = k')"

definition placing :: "routeStore \<Rightarrow> (gatewayRouteKey, nat) fmap \<Rightarrow> routeStore \<Rightarrow> bool" where
  "placing s0 old s \<longleftrightarrow> rs_fresh s0 \<le> rs_fresh s \<and> rs_nextLeaseID s = rs_nextLeaseID s0
     \<and> kept_ok s0 old s \<and> undecided_ok s0 old s \<and> placed_ok s0 old s \<and> routes_inj s"

definition addresses_ok :: "routeStore \<Rightarrow> bool" where
  "addresses_ok s \<longleftrightarrow> (\<forall>k a. fmlookup (rs_routes s) k = Some a \<longrightarrow> a < rs_fresh s)"

definition store_ok :: "routeStore \<Rightarrow> bool" where
  "store_ok s \<longleftrightarrow> addresses_ok s \<and> routes_inj s"

lemma store_okD:
  "store_ok s \<Longrightarrow> fmlookup (rs_routes s) k = Some a \<Longrightarrow> a < rs_fresh s"
  "store_ok s \<Longrightarrow> fmlookup (rs_routes s) k = Some a \<Longrightarrow> fmlookup (rs_routes s) k' = Some a \<Longrightarrow> k = k'"
  unfolding store_ok_def addresses_ok_def routes_inj_def by blast+

lemma install_entry_simps [simp]:
  "rs_fresh (install_entry k r s) = Suc (rs_fresh s)" "rs_routes (install_entry k r s) = fmupd k (rs_fresh s) (rs_routes s)"
  "rs_nextLeaseID (install_entry k r s) = rs_nextLeaseID s"
  "rs_heap (install_entry k r s) a = (if a = rs_fresh s then new_entry r else rs_heap s a)"
  by (simp_all add: install_entry_def)

lemma update_route_simps [simp]:
  "rs_fresh (update_route b r s) = rs_fresh s" "rs_routes (update_route b r s) = rs_routes s"
  "rs_nextLeaseID (update_route b r s) = rs_nextLeaseID s"
  "rs_heap (update_route b r s) a = (if a = b then (rs_heap s b)\<lparr> ge_route := r \<rparr> else rs_heap s a)"
  by (simp_all add: update_route_def)

lemma kept_okD: "kept_ok s0 old s \<Longrightarrow> fmlookup (rs_routes s0) k = Some a \<Longrightarrow> fmlookup old k = None \<Longrightarrow>
    fmlookup (rs_routes s) k = Some a \<and> ge_leases (rs_heap s a) = ge_leases (rs_heap s0 a)
     \<and> sameGatewayEndpointRouting (ge_route (rs_heap s a)) (ge_route (rs_heap s0 a))"
  unfolding kept_ok_def by blast

lemma undecided_okD: "undecided_ok s0 old s \<Longrightarrow> fmlookup old k = Some a \<Longrightarrow> fmlookup (rs_routes s0) k = Some a \<and> rs_heap s a = rs_heap s0 a"
  unfolding undecided_ok_def by blast

lemma placed_okD: "placed_ok s0 old s \<Longrightarrow> fmlookup (rs_routes s) k = Some a \<Longrightarrow>
    (rs_fresh s0 \<le> a \<and> a < rs_fresh s) \<or> (fmlookup (rs_routes s0) k = Some a \<and> fmlookup old k = None)"
  unfolding placed_ok_def by blast

lemma routes_injD:
  "routes_inj s \<Longrightarrow> fmlookup (rs_routes s) k = Some a \<Longrightarrow> fmlookup (rs_routes s) k' = Some a \<Longrightarrow> k = k'"
  unfolding routes_inj_def by blast

lemma placing_below:
  assumes s0: "store_ok s0" and p: "placing s0 old s" and k: "fmlookup (rs_routes s) k = Some a"
  shows "a < rs_fresh s"
proof -
  have p': "rs_fresh s0 \<le> rs_fresh s" "placed_ok s0 old s" using p by (simp_all add: placing_def)
  then show ?thesis using placed_okD [OF p'(2) k] store_okD(1) [OF s0, of k a] by auto
qed

lemma placing_other:
  assumes s0: "store_ok s0" and p: "placing s0 old s" and k: "fmlookup old k = Some b" and ne: "k' \<noteq> k"
  shows "fmlookup (rs_routes s) k' \<noteq> Some b"
proof -
  have p': "placed_ok s0 old s" "undecided_ok s0 old s" using p by (simp_all add: placing_def)
  have b: "fmlookup (rs_routes s0) k = Some b" using undecided_okD [OF p'(2) k] by simp
  show ?thesis using placed_okD [OF p'(1), of k' b] store_okD(1) [OF s0 b] store_okD(2) [OF s0 b, of k'] ne by auto
qed

text \<open>A new entry at a key that is not placed yet and whose old entry, if any, is not kept.\<close>

lemma placing_install:
  assumes s0: "store_ok s0" and p: "placing s0 old s"
    and k: "fmlookup (rs_routes s) k = None" "fmlookup (rs_routes s0) k \<noteq> None \<Longrightarrow> fmlookup old k \<noteq> None"
  shows "placing s0 old (install_entry k r s)"
proof -
  let ?s = "install_entry k r s"
  have p': "rs_fresh s0 \<le> rs_fresh s" "kept_ok s0 old s" "undecided_ok s0 old s" "placed_ok s0 old s" "routes_inj s"
    using p by (simp_all add: placing_def)
  have below: "a \<noteq> rs_fresh s" if "fmlookup (rs_routes s0) k = Some a" for k a using store_okD(1) [OF s0 that] p'(1) by simp
  have "kept_ok s0 old ?s" unfolding kept_ok_def
  proof (intro allI impI)
    fix k' a
    assume a: "fmlookup (rs_routes s0) k' = Some a" "fmlookup old k' = None"
    then have "k' \<noteq> k" using k(2) by auto
    then show "fmlookup (rs_routes ?s) k' = Some a \<and> ge_leases (rs_heap ?s a) = ge_leases (rs_heap s0 a)
      \<and> sameGatewayEndpointRouting (ge_route (rs_heap ?s a)) (ge_route (rs_heap s0 a))"
      using kept_okD [OF p'(2) a] below [OF a(1)] by simp
  qed
  moreover have "undecided_ok s0 old ?s" unfolding undecided_ok_def
  proof (intro allI impI)
    fix k' a
    assume "fmlookup old k' = Some a"
    note u = undecided_okD [OF p'(3) this]
    then show "fmlookup (rs_routes s0) k' = Some a \<and> rs_heap ?s a = rs_heap s0 a" using below [of k' a] by simp
  qed
  moreover have placed: "a = rs_fresh s \<and> k' = k \<or> fmlookup (rs_routes s) k' = Some a \<and> k' \<noteq> k" if "fmlookup (rs_routes ?s) k' = Some a" for k' a
    using that by (simp split: if_splits)
  note lt = placing_below [OF s0 p]
  have "placed_ok s0 old ?s" unfolding placed_ok_def
  proof (intro allI impI)
    fix k' a
    assume "fmlookup (rs_routes ?s) k' = Some a"
    from placed [OF this] show "rs_fresh s0 \<le> a \<and> a < rs_fresh ?s \<or> fmlookup (rs_routes s0) k' = Some a \<and> fmlookup old k' = None"
      using placed_okD [OF p'(4), of k' a] p'(1) by auto
  qed
  moreover have "routes_inj ?s" unfolding routes_inj_def
  proof (intro allI impI)
    fix k1 k2 a
    assume a: "fmlookup (rs_routes ?s) k1 = Some a" "fmlookup (rs_routes ?s) k2 = Some a"
    show "k1 = k2" using placed [OF a(1)] placed [OF a(2)] lt [of k1 a] lt [of k2 a] p'(5) unfolding routes_inj_def by blast
  qed
  ultimately show ?thesis using p by (simp add: placing_def)
qed

text \<open>An old entry that is kept at its key.\<close>

lemma placing_keep:
  assumes s0: "store_ok s0" and p: "placing s0 old s" and k: "fmlookup old k = Some b" "fmlookup (rs_routes s) k = None"
    and same: "sameGatewayEndpointRouting (ge_route (rs_heap s b)) r"
  shows "placing s0 (fmdrop k old) ((update_route b r s)\<lparr> rs_routes := fmupd k b (rs_routes s) \<rparr>)"
proof -
  let ?s = "(update_route b r s)\<lparr> rs_routes := fmupd k b (rs_routes s) \<rparr>" and ?old = "fmdrop k old"
  have p': "rs_fresh s0 \<le> rs_fresh s" "kept_ok s0 old s" "undecided_ok s0 old s" "placed_ok s0 old s" "routes_inj s"
    using p by (simp_all add: placing_def)
  have b: "fmlookup (rs_routes s0) k = Some b" "rs_heap s b = rs_heap s0 b" using undecided_okD [OF p'(3) k(1)] by auto
  have other: "a \<noteq> b" if "fmlookup (rs_routes s0) k' = Some a" "k' \<noteq> k" for k' a
    using store_okD(2) [OF s0 b(1), of k'] that by auto
  have heap: "rs_heap ?s a = rs_heap s a" if "a \<noteq> b" for a using that by simp
  have "kept_ok s0 ?old ?s" unfolding kept_ok_def
  proof (intro allI impI)
    fix k' a
    assume a: "fmlookup (rs_routes s0) k' = Some a" "fmlookup ?old k' = None"
    show "fmlookup (rs_routes ?s) k' = Some a \<and> ge_leases (rs_heap ?s a) = ge_leases (rs_heap s0 a)
      \<and> sameGatewayEndpointRouting (ge_route (rs_heap ?s a)) (ge_route (rs_heap s0 a))"
    proof (cases "k' = k")
      case True
      then have "a = b" using a b by simp
      then show ?thesis using True same b by (simp add: sameGatewayEndpointRouting_def)
    next
      case False
      then have "fmlookup old k' = None" using a(2) by simp
      then show ?thesis using kept_okD [OF p'(2) a(1)] other [OF a(1) False] False by simp
    qed
  qed
  moreover have "undecided_ok s0 ?old ?s" unfolding undecided_ok_def
  proof (intro allI impI)
    fix k' a
    assume "fmlookup ?old k' = Some a"
    then have ne: "k' \<noteq> k" "fmlookup old k' = Some a" by (auto split: if_splits)
    note u = undecided_okD [OF p'(3) ne(2)]
    then show "fmlookup (rs_routes s0) k' = Some a \<and> rs_heap ?s a = rs_heap s0 a" using other [of k' a] ne(1) by simp
  qed
  moreover have "placed_ok s0 ?old ?s" unfolding placed_ok_def
  proof (intro allI impI)
    fix k' a
    assume "fmlookup (rs_routes ?s) k' = Some a"
    then have "k' = k \<and> a = b \<or> k' \<noteq> k \<and> fmlookup (rs_routes s) k' = Some a" by (auto split: if_splits)
    then show "rs_fresh s0 \<le> a \<and> a < rs_fresh ?s \<or> fmlookup (rs_routes s0) k' = Some a \<and> fmlookup ?old k' = None"
      using placed_okD [OF p'(4), of k' a] b(1) by auto
  qed
  moreover have "routes_inj ?s" unfolding routes_inj_def
  proof (intro allI impI)
    fix k1 k2 a
    assume a: "fmlookup (rs_routes ?s) k1 = Some a" "fmlookup (rs_routes ?s) k2 = Some a"
    have nb: "fmlookup (rs_routes s) k' \<noteq> Some b" if "k' \<noteq> k" for k'
      by (rule placing_other [OF s0 p k(1) that])
    show "k1 = k2" using a nb [of k1] nb [of k2] routes_injD [OF p'(5), of k1 a k2] by (auto split: if_splits)
  qed
  ultimately show ?thesis using p by (simp add: placing_def)
qed

definition route_at :: "routeStore \<Rightarrow> gatewayRouteKey \<Rightarrow> endpointRoute option" where
  "route_at s k = map_option ge_route (entry_at s k)"

lemma Get_route_at: "Get (Some s) c e = route_at s (c, e)"
  by (simp add: Get_def route_at_def)

lemma route_at_heap: "route_at s k = map_option (\<lambda>a. ge_route (rs_heap s a)) (fmlookup (rs_routes s) k)"
  by (cases "fmlookup (rs_routes s) k") (simp_all add: route_at_def entry_at_def)

lemma place_route_install:
  "fmlookup old k = None \<or> (\<exists>a. fmlookup old k = Some a \<and> \<not> sameGatewayEndpointRouting (ge_route (rs_heap s a)) r)
     \<Longrightarrow> place_route (k, r) (old, s) = (old, install_entry k r s)"
  by (auto simp: place_route_def)

lemma place_route_keep:
  "fmlookup old k = Some a \<Longrightarrow> sameGatewayEndpointRouting (ge_route (rs_heap s a)) r
     \<Longrightarrow> place_route (k, r) (old, s) = (fmdrop k old, (update_route a r s)\<lparr> rs_routes := fmupd k a (rs_routes s) \<rparr>)"
  by (simp add: place_route_def)

lemma placing_place:
  assumes s0: "store_ok s0" and p: "placing s0 old s"
    and k: "fmlookup (rs_routes s) k = None" "fmlookup old k = fmlookup (rs_routes s0) k"
    and place: "place_route (k, r) (old, s) = (old', s')"
  shows "placing s0 old' s'" "route_at s' = (route_at s)(k \<mapsto> r)" "rs_runtimes s' = rs_runtimes s"
    "k' \<noteq> k \<Longrightarrow> fmlookup old' k' = fmlookup old k'" "k' \<noteq> k \<Longrightarrow> fmlookup (rs_routes s') k' = fmlookup (rs_routes s) k'"
    "fmlookup (rs_routes s0) k = Some a \<Longrightarrow> sameGatewayEndpointRouting (ge_route (rs_heap s0 a)) r \<Longrightarrow> fmlookup old' k = None"
proof -
  have u: "rs_heap s a = rs_heap s0 a" if "fmlookup old k = Some a" for a
    using p undecided_okD [of s0 old s k a] that by (simp add: placing_def)
  have all: "placing s0 old' s' \<and> route_at s' = (route_at s)(k \<mapsto> r) \<and> rs_runtimes s' = rs_runtimes s
     \<and> (\<forall>k'. k' \<noteq> k \<longrightarrow> fmlookup old' k' = fmlookup old k' \<and> fmlookup (rs_routes s') k' = fmlookup (rs_routes s) k')
     \<and> (\<forall>a. fmlookup (rs_routes s0) k = Some a \<longrightarrow> sameGatewayEndpointRouting (ge_route (rs_heap s0 a)) r \<longrightarrow> fmlookup old' k = None)"
  proof (cases "\<exists>a. fmlookup old k = Some a \<and> sameGatewayEndpointRouting (ge_route (rs_heap s a)) r")
    case True
    then obtain b where b: "fmlookup old k = Some b" "sameGatewayEndpointRouting (ge_route (rs_heap s b)) r" by blast
    have eq: "old' = fmdrop k old" "s' = (update_route b r s)\<lparr> rs_routes := fmupd k b (rs_routes s) \<rparr>"
      using place place_route_keep [OF b] by simp_all
    have "placing s0 old' s'" unfolding eq by (rule placing_keep [OF s0 p b(1) k(1) b(2)])
    moreover have "route_at s' = (route_at s)(k \<mapsto> r)"
    proof
      fix k'
      show "route_at s' k' = ((route_at s)(k \<mapsto> r)) k'"
        unfolding eq route_at_heap using placing_other [OF s0 p b(1), of k']
        by (cases "fmlookup (rs_routes s) k'") (auto simp: route_at_heap)
    qed
    ultimately show ?thesis unfolding eq by (simp add: update_route_def)
  next
    case False
    then have inst: "fmlookup old k = None \<or> (\<exists>a. fmlookup old k = Some a \<and> \<not> sameGatewayEndpointRouting (ge_route (rs_heap s a)) r)"
      by (cases "fmlookup old k") simp_all
    have eq: "old' = old" "s' = install_entry k r s" using place place_route_install [OF inst] by simp_all
    have "placing s0 old' s'" unfolding eq by (rule placing_install [OF s0 p k(1)]) (simp add: k(2))
    moreover have "route_at s' = (route_at s)(k \<mapsto> r)"
    proof
      fix k'
      show "route_at s' k' = ((route_at s)(k \<mapsto> r)) k'"
        unfolding eq route_at_heap using placing_below [OF s0 p, of k']
        by (cases "fmlookup (rs_routes s) k'") (auto simp: route_at_heap new_entry_def)
    qed
    moreover have "fmlookup old k = None" if "fmlookup (rs_routes s0) k = Some a" "sameGatewayEndpointRouting (ge_route (rs_heap s0 a)) r" for a
      using False u [of a] k(2) that by auto
    ultimately show ?thesis unfolding eq by (simp add: install_entry_def)
  qed
  show "placing s0 old' s'" "route_at s' = (route_at s)(k \<mapsto> r)" "rs_runtimes s' = rs_runtimes s"
    using all by simp_all
  show "k' \<noteq> k \<Longrightarrow> fmlookup old' k' = fmlookup old k'" "k' \<noteq> k \<Longrightarrow> fmlookup (rs_routes s') k' = fmlookup (rs_routes s) k'"
    using all by blast+
  show "fmlookup (rs_routes s0) k = Some a \<Longrightarrow> sameGatewayEndpointRouting (ge_route (rs_heap s0 a)) r \<Longrightarrow> fmlookup old' k = None"
    using all by simp
qed

lemma placing_fold:
  assumes "store_ok s0" "placing s0 old s" "distinct (map fst rs)"
    and "\<And>k. k \<in> fst ` set rs \<Longrightarrow> fmlookup (rs_routes s) k = None \<and> fmlookup old k = fmlookup (rs_routes s0) k"
    and "fold place_route rs (old, s) = (old', s')"
  shows "placing s0 old' s'
     \<and> route_at s' = route_at s ++ map_of rs
     \<and> (\<forall>k a r. (k, r) \<in> set rs \<longrightarrow> fmlookup (rs_routes s0) k = Some a
          \<longrightarrow> sameGatewayEndpointRouting (ge_route (rs_heap s0 a)) r \<longrightarrow> fmlookup old' k = None)
     \<and> (\<forall>k. k \<notin> fst ` set rs \<longrightarrow> fmlookup old' k = fmlookup old k)"
  using assms
proof (induction rs arbitrary: old s)
  case (Cons kr rs)
  obtain k r where kr: "kr = (k, r)" by fastforce
  obtain old1 s1 where st: "place_route (k, r) (old, s) = (old1, s1)" by fastforce
  have k: "fmlookup (rs_routes s) k = None" "fmlookup old k = fmlookup (rs_routes s0) k"
    using Cons.prems(4) [of k] kr by simp_all
  note pl = placing_place [OF Cons.prems(1,2) k st]
  have d: "distinct (map fst rs)" "k \<notin> fst ` set rs" using Cons.prems(3) kr by simp_all
  have pre: "fmlookup (rs_routes s1) k' = None \<and> fmlookup old1 k' = fmlookup (rs_routes s0) k'" if "k' \<in> fst ` set rs" for k'
  proof -
    have "k' \<noteq> k" using d(2) that by blast
    then show ?thesis using pl(4,5) [of k'] Cons.prems(4) [of k'] that kr by simp
  qed
  have fo: "fold place_route rs (old1, s1) = (old', s')" using Cons.prems(5) kr st by simp
  note ih = Cons.IH [OF Cons.prems(1) pl(1) d(1) pre fo]
  have rest: "fmlookup old' k' = fmlookup old1 k'" if "k' \<notin> fst ` set rs" for k' using ih that by blast
  have "route_at s' = route_at s ++ map_of (kr # rs)"
  proof -
    have "k \<notin> dom (map_of rs)" using d(2) by (simp add: dom_map_of_conv_image_fst)
    then have "(route_at s)(k \<mapsto> r) ++ map_of rs = (route_at s ++ map_of rs)(k \<mapsto> r)" by (rule map_add_upd_left)
    moreover have "route_at s' = route_at s1 ++ map_of rs" using ih by blast
    then have "route_at s' = (route_at s)(k \<mapsto> r) ++ map_of rs" unfolding pl(2) .
    ultimately show ?thesis using kr by simp
  qed
  moreover have "fmlookup old' k' = None"
    if "(k', r') \<in> set (kr # rs)" "fmlookup (rs_routes s0) k' = Some a" "sameGatewayEndpointRouting (ge_route (rs_heap s0 a)) r'" for k' a r'
  proof (cases "k' = k")
    case True
    then have "r' = r" using that(1) d(2) kr by force
    then have "fmlookup old1 k = None" using pl(6) that(2,3) True by simp
    then show ?thesis using rest [OF d(2)] True by simp
  next
    case False
    then have "(k', r') \<in> set rs" using that(1) kr by simp
    then show ?thesis using ih that(2,3) by blast
  qed
  moreover have "fmlookup old' k' = fmlookup old k'" if "k' \<notin> fst ` set (kr # rs)" for k'
    using rest [of k'] pl(4) [of k'] that kr by simp
  ultimately show ?case using ih by blast
qed auto

section \<open>The routes of a snapshot\<close>

definition snapshot_routes :: "runtimeSnapshot list \<Rightarrow> (gatewayRouteKey \<times> endpointRoute) list" where
  "snapshot_routes snapshots = concat (map (\<lambda>s. map (snapshot_route s) (rt_Endpoints s)) snapshots)"

definition snapshots_valid :: "runtimeSnapshot list \<Rightarrow> bool" where
  "snapshots_valid snapshots \<longleftrightarrow> list_all (\<lambda>s. validateRuntimeSnapshot s = None) snapshots \<and> distinct (map rt_RuntimeUUID snapshots)"

lemma endpoints_valid_distinct:
  "endpoints_valid seen es = None \<Longrightarrow> distinct (map es_EndpointID es) \<and> set (map es_EndpointID es) \<inter> set seen = {}"
  by (induction seen es rule: endpoints_valid.induct) (auto split: if_splits)

lemma valid_snapshot_distinct: "validateRuntimeSnapshot s = None \<Longrightarrow> distinct (map es_EndpointID (rt_Endpoints s))"
  using endpoints_valid_distinct by (auto simp: validateRuntimeSnapshot_def split: if_splits)

lemma collect_snapshots_spec:
  "(case collect_snapshots ss runtimes routes of
      Inl e \<Rightarrow> \<not> (list_all (\<lambda>s. validateRuntimeSnapshot s = None) ss \<and> distinct (map rt_RuntimeUUID ss) \<and> (\<forall>s \<in> set ss. fmlookup runtimes (rt_RuntimeUUID s) = None))
    | Inr (runtimes', routes') \<Rightarrow>
        list_all (\<lambda>s. validateRuntimeSnapshot s = None) ss \<and> distinct (map rt_RuntimeUUID ss)
        \<and> (\<forall>s \<in> set ss. fmlookup runtimes (rt_RuntimeUUID s) = None) \<and> routes' = routes @ snapshot_routes ss)"
proof (induction ss runtimes routes rule: collect_snapshots.induct)
  case (2 s ss runtimes routes)
  show ?case
  proof (cases "validateRuntimeSnapshot s = None \<and> fmlookup runtimes (rt_RuntimeUUID s) = None")
    case True
    note ih = "2.IH" [OF conjunct1 [OF True]]
    show ?thesis using True ih by (auto simp: snapshot_routes_def split: sum.splits if_splits)
  qed (auto split: option.splits)
qed (simp add: snapshot_routes_def)

lemma collect_snapshots_ok:
  "collect_snapshots ss fmempty [] = Inr (runtimes, routes) \<Longrightarrow> snapshots_valid ss \<and> routes = snapshot_routes ss"
  "collect_snapshots ss fmempty [] = Inl e \<Longrightarrow> \<not> snapshots_valid ss"
  using collect_snapshots_spec [of ss fmempty "[]"] by (auto simp: snapshots_valid_def)

lemma snapshot_routes_fst: "k \<in> fst ` set (snapshot_routes ss) \<Longrightarrow> fst k \<in> rt_RuntimeUUID ` set ss"
  by (auto simp: snapshot_routes_def snapshot_route_def)

lemma snapshot_routes_distinct: "snapshots_valid ss \<Longrightarrow> distinct (map fst (snapshot_routes ss))"
proof (induction ss)
  case (Cons s ss)
  then have v: "validateRuntimeSnapshot s = None" "rt_RuntimeUUID s \<notin> rt_RuntimeUUID ` set ss" "snapshots_valid ss"
    by (simp_all add: snapshots_valid_def)
  have eq: "map fst (snapshot_routes (s # ss)) = map (\<lambda>e. (rt_RuntimeUUID s, es_EndpointID e)) (rt_Endpoints s) @ map fst (snapshot_routes ss)"
    by (simp add: snapshot_routes_def snapshot_route_def comp_def)
  have "distinct (map (\<lambda>e. (rt_RuntimeUUID s, es_EndpointID e)) (rt_Endpoints s))"
    using valid_snapshot_distinct [OF v(1)] by (simp add: distinct_map inj_on_def)
  moreover have "(rt_RuntimeUUID s, e) \<notin> set (map fst (snapshot_routes ss))" for e
    using snapshot_routes_fst [of "(rt_RuntimeUUID s, e)" ss] v(2) by auto
  ultimately show ?case using Cons.IH [OF v(3)] unfolding eq by auto
qed (simp add: snapshot_routes_def)

text \<open>The early return compares sizes and then only looks the new routes up, which is enough.\<close>

lemma routing_unchanged_routes:
  assumes u: "routing_unchanged runtimes routes s" and d: "distinct (map fst routes)"
  shows "route_at s = map_of routes"
proof
  fix k
  let ?D = "fset (fmdom (rs_routes s))"
  have look: "route_at s (fst kr) = Some (snd kr)" if "kr \<in> set routes" for kr
    using u that by (fastforce simp: routing_unchanged_def list_all_iff route_at_def split: option.splits)
  have sub: "set (map fst routes) \<subseteq> ?D"
    using look by (fastforce simp: route_at_heap fmlookup_dom_iff)
  have "card ?D = length routes"
    using u by (simp add: routing_unchanged_def map_len_def fcard.rep_eq)
  then have D: "?D = set (map fst routes)"
    using card_subset_eq [OF _ sub] distinct_card [OF d] by simp
  show "route_at s k = map_of routes k"
  proof (cases "map_of routes k")
    case None
    then have "k \<notin> ?D" unfolding D by (simp add: map_of_eq_None_iff)
    then show ?thesis using None by (simp add: route_at_heap fmdom_notD)
  next
    case (Some r)
    then show ?thesis using look [OF map_of_SomeD [OF Some]] by simp
  qed
qed

section \<open>Handing leases over\<close>

text \<open>
  What every change of the store owes the requests that are being served: a lease is cancelled, or
  its entry stays at its key with the same routing.
\<close>

definition hands_over :: "routeStore \<Rightarrow> routeStore \<Rightarrow> route_effect list \<Rightarrow> bool" where
  "hands_over s s' effects \<longleftrightarrow>
     (\<forall>k a l. fmlookup (rs_routes s) k = Some a \<longrightarrow> l \<in> set (ge_leases (rs_heap s a)) \<longrightarrow>
        CancelLease l \<in> set effects
        \<or> (fmlookup (rs_routes s') k = Some a \<and> l \<in> set (ge_leases (rs_heap s' a))
           \<and> sameGatewayEndpointRouting (ge_route (rs_heap s' a)) (ge_route (rs_heap s a))))"

lemma hands_overD:
  "hands_over s s' effects \<Longrightarrow> fmlookup (rs_routes s) k = Some a \<Longrightarrow> l \<in> set (ge_leases (rs_heap s a)) \<Longrightarrow>
     CancelLease l \<in> set effects
        \<or> (fmlookup (rs_routes s') k = Some a \<and> l \<in> set (ge_leases (rs_heap s' a))
           \<and> sameGatewayEndpointRouting (ge_route (rs_heap s' a)) (ge_route (rs_heap s a)))"
  unfolding hands_over_def by blast

lemma hands_overI:
  assumes "\<And>k a l. fmlookup (rs_routes s) k = Some a \<Longrightarrow> l \<in> set (ge_leases (rs_heap s a)) \<Longrightarrow> CancelLease l \<notin> set effects \<Longrightarrow>
     fmlookup (rs_routes s') k = Some a \<and> l \<in> set (ge_leases (rs_heap s' a))
           \<and> sameGatewayEndpointRouting (ge_route (rs_heap s' a)) (ge_route (rs_heap s a))"
  shows "hands_over s s' effects"
  unfolding hands_over_def using assms by blast

definition store_change :: "routeStore \<Rightarrow> routeStore \<Rightarrow> route_effect list \<Rightarrow> bool" where
  "store_change s s' effects \<longleftrightarrow> store_ok s' \<and> rs_nextLeaseID s' = rs_nextLeaseID s \<and> hands_over s s' effects"

lemma store_change_refl: "store_ok s \<Longrightarrow> store_change s s effects"
  by (simp add: store_change_def hands_over_def)

lemma store_okI:
  "(\<And>k a. fmlookup (rs_routes s) k = Some a \<Longrightarrow> a < rs_fresh s) \<Longrightarrow>
   (\<And>k k' a. fmlookup (rs_routes s) k = Some a \<Longrightarrow> fmlookup (rs_routes s) k' = Some a \<Longrightarrow> k = k') \<Longrightarrow> store_ok s"
  unfolding store_ok_def addresses_ok_def routes_inj_def by blast

lemma store_ok_install:
  assumes s: "store_ok s"
  shows "store_ok (install_entry k r s)"
proof (rule store_okI)
  fix k' a
  assume "fmlookup (rs_routes (install_entry k r s)) k' = Some a"
  then show "a < rs_fresh (install_entry k r s)"
    using store_okD(1) [OF s, of k' a] by (auto split: if_splits)
next
  fix k1 k2 a
  assume "fmlookup (rs_routes (install_entry k r s)) k1 = Some a" "fmlookup (rs_routes (install_entry k r s)) k2 = Some a"
  then show "k1 = k2"
    using store_okD(1) [OF s, of k1 a] store_okD(1) [OF s, of k2 a] store_okD(2) [OF s, of k1 a k2] by (auto split: if_splits)
qed

lemma store_ok_cong:
  "store_ok s \<Longrightarrow> rs_routes s' = rs_routes s \<Longrightarrow> rs_fresh s' = rs_fresh s \<Longrightarrow> store_ok s'"
  by (simp add: store_ok_def addresses_ok_def routes_inj_def)

lemma store_ok_sub:
  assumes "store_ok s" "rs_fresh s' = rs_fresh s" "\<And>k a. fmlookup (rs_routes s') k = Some a \<Longrightarrow> fmlookup (rs_routes s) k = Some a"
  shows "store_ok s'"
  using assms store_okD [OF assms(1)] by (metis store_okI)

lemma Put_change:
  assumes s: "store_ok s" and put: "Put route s = (res, s', effects)"
  shows "store_change s s' effects"
proof (cases "normalizeEndpointRoute route")
  case (Inl e)
  then show ?thesis using put s by (simp add: Put_def store_change_refl)
next
  case (Inr r)
  let ?k = "(er_CodespaceUUID r, er_EndpointID r)"
  show ?thesis
  proof (cases "fmlookup (rs_routes s) ?k")
    case None
    then have eq: "s' = install_entry ?k r s" using put Inr by (simp add: Put_def Let_def)
    have "hands_over s s' effects"
      by (rule hands_overI) (use None store_okD(1) [OF s] in \<open>auto simp: eq\<close>)
    then show ?thesis by (simp add: store_change_def eq store_ok_install s)
  next
    case (Some b)
    show ?thesis
    proof (cases "sameGatewayEndpointRouting (ge_route (rs_heap s b)) r")
      case True
      then have eq: "s' = update_route b r s" using put Inr Some by (simp add: Put_def Let_def)
      have "hands_over s s' effects"
        by (rule hands_overI) (use True in \<open>auto simp: eq sameGatewayEndpointRouting_def\<close>)
      moreover have "store_ok s'" by (rule store_ok_cong [OF s]) (simp_all add: eq)
      ultimately show ?thesis by (simp add: store_change_def eq)
    next
      case False
      let ?s1 = "install_entry ?k r s"
      have eq: "s' = snd (takeCancels b ?s1)" "effects = delete_sessions s ?k @ fst (takeCancels b ?s1)"
        using put Inr Some False by (simp_all add: Put_def Let_def split: prod.splits)
      have bl: "b \<noteq> rs_fresh s" using store_okD(1) [OF s Some] by simp
      have "hands_over s s' effects"
      proof (rule hands_overI)
        fix k a l
        assume a: "fmlookup (rs_routes s) k = Some a" "l \<in> set (ge_leases (rs_heap s a))" "CancelLease l \<notin> set effects"
        have "a \<noteq> b" using a bl by (auto simp: eq)
        moreover from this have "k \<noteq> ?k" using a(1) Some by auto
        ultimately show "fmlookup (rs_routes s') k = Some a \<and> l \<in> set (ge_leases (rs_heap s' a))
           \<and> sameGatewayEndpointRouting (ge_route (rs_heap s' a)) (ge_route (rs_heap s a))"
          using a store_okD(1) [OF s a(1)] by (auto simp: eq)
      qed
      moreover have "store_ok s'" by (rule store_ok_cong [OF store_ok_install [OF s]]) (simp_all add: eq)
      ultimately show ?thesis by (simp add: store_change_def eq)
    qed
  qed
qed

lemma Delete_change:
  assumes s: "store_ok s" and del: "Delete c e s = (s', effects)"
  shows "store_change s s' effects"
proof (cases "fmlookup (rs_routes s) (c, e)")
  case None
  then show ?thesis using del s by (simp add: Delete_def store_change_refl)
next
  case (Some b)
  let ?s1 = "s\<lparr> rs_routes := fmdrop (c, e) (rs_routes s) \<rparr>"
  have eq: "s' = snd (takeCancels b ?s1)" "effects = delete_sessions s (c, e) @ fst (takeCancels b ?s1)"
    using del Some by (simp_all add: Delete_def Let_def split: prod.splits)
  have "hands_over s s' effects"
  proof (rule hands_overI)
    fix k a l
    assume a: "fmlookup (rs_routes s) k = Some a" "l \<in> set (ge_leases (rs_heap s a))" "CancelLease l \<notin> set effects"
    have "a \<noteq> b" using a by (auto simp: eq)
    moreover from this have "k \<noteq> (c, e)" using a(1) Some by auto
    ultimately show "fmlookup (rs_routes s') k = Some a \<and> l \<in> set (ge_leases (rs_heap s' a))
       \<and> sameGatewayEndpointRouting (ge_route (rs_heap s' a)) (ge_route (rs_heap s a))"
      using a by (auto simp: eq)
  qed
  moreover have "store_ok s'" by (rule store_ok_sub [OF s]) (auto simp: eq split: if_splits)
  ultimately show ?thesis by (simp add: store_change_def eq)
qed

lemma placing_start: "placing s (rs_routes s) (s\<lparr> rs_routes := fmempty \<rparr>)"
  by (simp add: placing_def kept_ok_def undecided_ok_def placed_ok_def routes_inj_def)

text \<open>A snapshot that changes the routing, from the store it finds to the store it leaves.\<close>

lemma Replace_fold:
  assumes s: "store_ok s" and c: "collect_snapshots snapshots fmempty [] = Inr (runtimes, routes)"
    and ch: "\<not> routing_unchanged runtimes routes s"
    and r: "ReplaceSharedGatewayRuntimes route_order runtime_order snapshots s = (res, s', effects)"
    and ord: "fset (fmdom (rs_routes s)) \<subseteq> set route_order"
  obtains left s1 where "res = None" "placing s left s1" "route_at s1 = map_of routes"
    "\<And>k a r. (k, r) \<in> set routes \<Longrightarrow> fmlookup (rs_routes s) k = Some a \<Longrightarrow> sameGatewayEndpointRouting (ge_route (rs_heap s a)) r \<Longrightarrow> fmlookup left k = None"
    "rs_routes s' = rs_routes s1" "rs_fresh s' = rs_fresh s1" "rs_nextLeaseID s' = rs_nextLeaseID s1"
    "\<And>a. ge_route (rs_heap s' a) = ge_route (rs_heap s1 a)"
    "\<And>k a. fmlookup left k \<noteq> Some a \<Longrightarrow> fmlookup (rs_routes s) k = Some a \<Longrightarrow> rs_heap s' a = rs_heap s1 a"
    "\<And>k a l. fmlookup left k = Some a \<Longrightarrow> l \<in> set (ge_leases (rs_heap s a)) \<Longrightarrow> CancelLease l \<in> set effects"
proof -
  note rs = collect_snapshots_ok(1) [OF c]
  obtain left s1 where f: "fold place_route routes (rs_routes s, s\<lparr> rs_routes := fmempty \<rparr>) = (left, s1)" by fastforce
  have d: "distinct (map fst routes)" using snapshot_routes_distinct rs by blast
  have pf: "placing s left s1 \<and> route_at s1 = route_at (s\<lparr> rs_routes := fmempty \<rparr>) ++ map_of routes
     \<and> (\<forall>k a r. (k, r) \<in> set routes \<longrightarrow> fmlookup (rs_routes s) k = Some a
          \<longrightarrow> sameGatewayEndpointRouting (ge_route (rs_heap s a)) r \<longrightarrow> fmlookup left k = None)
     \<and> (\<forall>k. k \<notin> fst ` set routes \<longrightarrow> fmlookup left k = fmlookup (rs_routes s) k)"
    by (rule placing_fold [OF s placing_start d _ f]) simp
  then have pl: "placing s left s1" by blast
  have und: "fmlookup (rs_routes s) k = Some a \<and> rs_heap s1 a = rs_heap s a" if "fmlookup left k = Some a" for k a
    using pl undecided_okD [where ?s0.0 = s and s = s1, OF _ that] by (simp add: placing_def)
  define keys where "keys = filter (\<lambda>key. fmlookup left key \<noteq> None) route_order"
  let ?as = "map (\<lambda>key. the (fmlookup left key)) keys"
  obtain cancels s2 where t: "take_all ?as (s1\<lparr> rs_runtimes := runtimes \<rparr>) = (cancels, s2)" by fastforce
  have eq: "res = None" "s' = s2" "set cancels \<subseteq> set effects"
    using r c ch f t by (auto simp: ReplaceSharedGatewayRuntimes_def keys_def Let_def)
  note ta = take_all_props [OF t]
  have in_as: "a \<in> set ?as \<longleftrightarrow> (\<exists>k. fmlookup left k = Some a)" for a
  proof
    assume "\<exists>k. fmlookup left k = Some a"
    then obtain k where k: "fmlookup left k = Some a" by blast
    then have "k \<in> set route_order" using und [OF k] ord by (auto simp: fmlookup_dom_iff)
    then have "k \<in> set keys" using k by (simp add: keys_def)
    then show "a \<in> set ?as" using k by force
  next
    assume "a \<in> set ?as"
    then obtain k where "k \<in> set keys" "a = the (fmlookup left k)" by auto
    then have "fmlookup left k = Some a" by (auto simp: keys_def)
    then show "\<exists>k. fmlookup left k = Some a" by blast
  qed
  have notin: "a \<notin> set ?as" if "fmlookup left k \<noteq> Some a" "fmlookup (rs_routes s) k = Some a" for k a
    using in_as [of a] und store_okD(2) [OF s that(2)] that(1) by metis
  have empty: "route_at (s\<lparr> rs_routes := fmempty \<rparr>) = Map.empty" by (simp add: route_at_heap fun_eq_iff)
  show thesis
  proof (rule that [of left s1])
    show "route_at s1 = map_of routes" using pf empty by simp
    show "rs_heap s' a = rs_heap s1 a" if "fmlookup left k \<noteq> Some a" "fmlookup (rs_routes s) k = Some a" for k a
      using ta(6) [OF notin [OF that]] eq(2) by simp
    show "CancelLease l \<in> set effects" if "fmlookup left k = Some a" "l \<in> set (ge_leases (rs_heap s a))" for k a l
    proof -
      have "a \<in> set ?as" using in_as that(1) by blast
      moreover have "l \<in> set (ge_leases (rs_heap (s1\<lparr> rs_runtimes := runtimes \<rparr>) a))" using und [OF that(1)] that(2) by simp
      ultimately show ?thesis using ta(7) eq(3) by blast
    qed
    show "fmlookup left k = None" if "(k, r) \<in> set routes" "fmlookup (rs_routes s) k = Some a" "sameGatewayEndpointRouting (ge_route (rs_heap s a)) r" for k a r
      using pf that by blast
  qed (use pl ta(1-5) eq in simp_all)
qed

lemma Replace_cases:
  assumes r: "ReplaceSharedGatewayRuntimes route_order runtime_order snapshots s = (res, s', effects)"
  obtains (error) e where "res = Some e" "s' = s" "effects = []" "\<not> snapshots_valid snapshots"
  | (same) runtimes where "res = None" "s' = s" "effects = []" "snapshots_valid snapshots" "routing_unchanged runtimes (snapshot_routes snapshots) s"
  | (changed) runtimes where "collect_snapshots snapshots fmempty [] = Inr (runtimes, snapshot_routes snapshots)" "snapshots_valid snapshots"
      "\<not> routing_unchanged runtimes (snapshot_routes snapshots) s"
proof (cases "collect_snapshots snapshots fmempty []")
  case (Inl e)
  then have "res = Some e" "s' = s" "effects = []" using r by (simp_all add: ReplaceSharedGatewayRuntimes_def)
  then show ?thesis by (rule error) (rule collect_snapshots_ok(2) [OF Inl])
next
  case (Inr p)
  obtain runtimes routes where p: "p = (runtimes, routes)" by fastforce
  have ok: "snapshots_valid snapshots" "routes = snapshot_routes snapshots" using collect_snapshots_ok(1) [OF Inr [unfolded p]] by auto
  show ?thesis
  proof (cases "routing_unchanged runtimes routes s")
    case True
    then show ?thesis using same r Inr p ok by (simp add: ReplaceSharedGatewayRuntimes_def)
  next
    case False
    then show ?thesis using changed Inr p ok by simp
  qed
qed

lemma Replace_change:
  assumes s: "store_ok s" and r: "ReplaceSharedGatewayRuntimes route_order runtime_order snapshots s = (res, s', effects)"
    and ord: "fset (fmdom (rs_routes s)) \<subseteq> set route_order"
  shows "store_change s s' effects"
  using r
proof (cases rule: Replace_cases)
  case (changed runtimes)
  obtain left s1 where f: "placing s left s1" "rs_routes s' = rs_routes s1" "rs_fresh s' = rs_fresh s1" "rs_nextLeaseID s' = rs_nextLeaseID s1"
    "\<And>k a. fmlookup left k \<noteq> Some a \<Longrightarrow> fmlookup (rs_routes s) k = Some a \<Longrightarrow> rs_heap s' a = rs_heap s1 a"
    "\<And>k a l. fmlookup left k = Some a \<Longrightarrow> l \<in> set (ge_leases (rs_heap s a)) \<Longrightarrow> CancelLease l \<in> set effects"
    by (rule Replace_fold [OF s changed(1,3) r ord]) blast
  have p: "kept_ok s left s1" "undecided_ok s left s1" "routes_inj s1" "rs_nextLeaseID s1 = rs_nextLeaseID s" using f(1) by (simp_all add: placing_def)
  have "store_ok s'"
  proof (rule store_okI)
    show "a < rs_fresh s'" if "fmlookup (rs_routes s') k = Some a" for k a
      using placing_below [OF s f(1), of k a] that f(2,3) by simp
    show "k = k'" if "fmlookup (rs_routes s') k = Some a" "fmlookup (rs_routes s') k' = Some a" for k k' a
      using routes_injD [OF p(3), of k a k'] that f(2) by simp
  qed
  moreover have "hands_over s s' effects"
  proof (rule hands_overI)
    fix k a l
    assume a: "fmlookup (rs_routes s) k = Some a" "l \<in> set (ge_leases (rs_heap s a))" "CancelLease l \<notin> set effects"
    have ne: "fmlookup left k \<noteq> Some a" using f(6) [of k a l] a by blast
    then have "fmlookup left k = None" using undecided_okD [OF p(2), of k] a(1) by (cases "fmlookup left k") auto
    then show "fmlookup (rs_routes s') k = Some a \<and> l \<in> set (ge_leases (rs_heap s' a))
       \<and> sameGatewayEndpointRouting (ge_route (rs_heap s' a)) (ge_route (rs_heap s a))"
      using kept_okD [OF p(1) a(1)] f(5) [OF ne a(1)] f(2) a(2) by simp
  qed
  ultimately show ?thesis using f(4) p(4) by (simp add: store_change_def)
qed (use s store_change_refl in auto)

lemma Close_change:
  assumes s: "store_ok s" and c: "Close route_order s = (s', effects)" and ord: "fset (fmdom (rs_routes s)) \<subseteq> set route_order"
  shows "store_change s s' effects"
proof -
  let ?as = "map (\<lambda>key. the (fmlookup (rs_routes s) key)) (filter (\<lambda>key. fmlookup (rs_routes s) key \<noteq> None) route_order)"
  obtain cancels s1 where t: "take_all ?as s = (cancels, s1)" by fastforce
  have eq: "s' = s1\<lparr> rs_routes := fmempty, rs_runtimes := fmempty \<rparr>" "set cancels \<subseteq> set effects"
    using c t by (auto simp: Close_def Let_def)
  have "hands_over s s' effects"
  proof (rule hands_overI)
    fix k a l
    assume a: "fmlookup (rs_routes s) k = Some a" "l \<in> set (ge_leases (rs_heap s a))" "CancelLease l \<notin> set effects"
    have "k \<in> set route_order" using ord a(1) by (auto simp: fmlookup_dom_iff)
    then have "a \<in> set ?as" using a(1) by force
    then have "CancelLease l \<in> set effects" using take_all_props(7) [OF t _ a(2)] eq(2) by blast
    then show "fmlookup (rs_routes s') k = Some a \<and> l \<in> set (ge_leases (rs_heap s' a))
       \<and> sameGatewayEndpointRouting (ge_route (rs_heap s' a)) (ge_route (rs_heap s a))" using a(3) by blast
  qed
  moreover have "store_ok s'" by (rule store_okI) (simp_all add: eq)
  ultimately show ?thesis using take_all_props(3) [OF t] by (simp add: store_change_def eq)
qed

lemma Transport_change:
  assumes s: "store_ok s" and tr: "Transport route s = (res, s')"
  shows "store_change s s' []"
proof (cases "s' = s")
  case False
  obtain a where "s' = s\<lparr> rs_heap := (rs_heap s)(a := (rs_heap s a)\<lparr> ge_transport := True \<rparr>) \<rparr>"
    using tr False by (auto simp: Transport_def split: option.splits if_splits)
  moreover from this have "store_ok s'" by (intro store_ok_cong [OF s]) simp_all
  ultimately show ?thesis by (simp add: store_change_def hands_over_def)
qed (use s store_change_refl in auto)

section \<open>The machine\<close>

record route_machine =
  rm_store :: routeStore
  rm_pending :: "route_effect list"
  rm_world :: gateway_world
  rm_begun :: "(int \<times> gatewayRouteKey \<times> nat \<times> endpointRoute) list"

text \<open>
  Every rule is one critical section of the store, or one effect that an operation runs after it. The
  cancellation of a request comes from its client or from its own release function, whose locked part
  comes after it. \<open>rm_begun\<close> records every request that \<open>BeginProxy\<close> admitted, with the key, the
  entry and the route that it got.
\<close>

inductive route_step :: "route_machine \<Rightarrow> route_machine \<Rightarrow> bool" where
  put: "Put route (rm_store m) = (res, s', effects) \<Longrightarrow>
    route_step m (m\<lparr> rm_store := s', rm_pending := rm_pending m @ effects \<rparr>)"
| delete: "Delete c e (rm_store m) = (s', effects) \<Longrightarrow>
    route_step m (m\<lparr> rm_store := s', rm_pending := rm_pending m @ effects \<rparr>)"
| replace: "fset (fmdom (rs_routes (rm_store m))) \<subseteq> set route_order \<Longrightarrow>
    ReplaceSharedGatewayRuntimes route_order runtime_order snapshots (rm_store m) = (res, s', effects) \<Longrightarrow>
    route_step m (m\<lparr> rm_store := s', rm_pending := rm_pending m @ effects \<rparr>)"
| close: "fset (fmdom (rs_routes (rm_store m))) \<subseteq> set route_order \<Longrightarrow> Close route_order (rm_store m) = (s', effects) \<Longrightarrow>
    route_step m (m\<lparr> rm_store := s', rm_pending := rm_pending m @ effects \<rparr>)"
| sessions: "route_step m (m\<lparr> rm_store := SetSessionRegistry registry (rm_store m) \<rparr>)"
| transport: "Transport route (rm_store m) = (res, s') \<Longrightarrow> route_step m (m\<lparr> rm_store := s' \<rparr>)"
| begin_proxy: "rs_nextLeaseID (rm_store m) < max_int64 \<Longrightarrow> BeginProxy c e (rm_store m) = (Some (route, l, a), s') \<Longrightarrow>
    route_step m (m\<lparr> rm_store := s', rm_begun := (l, (c, e), a, route) # rm_begun m \<rparr>)"
| cancel: "route_step m (m\<lparr> rm_world := (rm_world m)\<lparr> gw_cancelled := insert l (gw_cancelled (rm_world m)) \<rparr> \<rparr>)"
| release: "(l, k, a, route) \<in> set (rm_begun m) \<Longrightarrow> l \<in> gw_cancelled (rm_world m) \<Longrightarrow>
    route_step m (m\<lparr> rm_store := release_lease l a (rm_store m) \<rparr>)"
| effect: "rm_pending m = xs @ effect # ys \<Longrightarrow>
    route_step m (m\<lparr> rm_pending := xs @ ys, rm_world := run_effect ord effect (rm_world m) \<rparr>)"

definition route_init :: "route_machine \<Rightarrow> bool" where
  "route_init m \<longleftrightarrow> (\<exists>backend. rm_store m = newRouteStore backend) \<and> rm_pending m = [] \<and> rm_begun m = []"

definition served :: "route_machine \<Rightarrow> int \<Rightarrow> gatewayRouteKey \<Rightarrow> nat \<Rightarrow> endpointRoute \<Rightarrow> bool" where
  "served m l k a r \<longleftrightarrow> fmlookup (rs_routes (rm_store m)) k = Some a \<and> l \<in> set (ge_leases (rs_heap (rm_store m) a))
     \<and> sameGatewayEndpointRouting (ge_route (rs_heap (rm_store m) a)) r"

definition ending :: "route_machine \<Rightarrow> int \<Rightarrow> bool" where
  "ending m l \<longleftrightarrow> l \<in> gw_cancelled (rm_world m) \<or> CancelLease l \<in> set (rm_pending m)"

definition begun_ok :: "route_machine \<Rightarrow> bool" where
  "begun_ok m \<longleftrightarrow> (\<forall>l k a r. (l, k, a, r) \<in> set (rm_begun m) \<longrightarrow> ending m l \<or> served m l k a r)"

definition ids_ok :: "route_machine \<Rightarrow> bool" where
  "ids_ok m \<longleftrightarrow> distinct (map fst (rm_begun m)) \<and> (\<forall>l \<in> fst ` set (rm_begun m). l \<le> rs_nextLeaseID (rm_store m))
     \<and> 0 \<le> rs_nextLeaseID (rm_store m)"

definition route_inv :: "route_machine \<Rightarrow> bool" where
  "route_inv m \<longleftrightarrow> store_ok (rm_store m) \<and> begun_ok m \<and> ids_ok m"

lemma begun_okD: "begun_ok m \<Longrightarrow> (l, k, a, r) \<in> set (rm_begun m) \<Longrightarrow> \<not> ending m l \<Longrightarrow> served m l k a r"
  unfolding begun_ok_def by blast

text \<open>One lemma for every operation that changes the store without admitting a request.\<close>

lemma route_inv_change:
  assumes i: "route_inv m" and ch: "store_change (rm_store m) s' effects"
  shows "route_inv (m\<lparr> rm_store := s', rm_pending := rm_pending m @ effects \<rparr>)"
proof -
  let ?m = "m\<lparr> rm_store := s', rm_pending := rm_pending m @ effects \<rparr>"
  have c: "store_ok s'" "rs_nextLeaseID s' = rs_nextLeaseID (rm_store m)" "hands_over (rm_store m) s' effects"
    using ch by (simp_all add: store_change_def)
  have i': "begun_ok m" "ids_ok m" using i by (simp_all add: route_inv_def)
  have "begun_ok ?m" unfolding begun_ok_def
  proof (intro allI impI)
    fix l k a r
    assume b: "(l, k, a, r) \<in> set (rm_begun ?m)"
    show "ending ?m l \<or> served ?m l k a r"
    proof (cases "ending ?m l")
      case False
      then have e: "\<not> ending m l" "CancelLease l \<notin> set effects" by (simp_all add: ending_def)
      have "served m l k a r" using begun_okD [OF i'(1) _ e(1)] b by simp
      then show ?thesis using hands_overD [OF c(3), of k a l] e(2)
        by (auto simp: served_def intro: same_routing_trans)
    qed simp
  qed
  then show ?thesis using c i'(2) by (simp add: route_inv_def ids_ok_def)
qed

lemma route_inv_begin:
  assumes i: "route_inv m" and b: "BeginProxy c e (rm_store m) = (Some (route, l, a), s')"
    and bound: "rs_nextLeaseID (rm_store m) < max_int64"
  shows "route_inv (m\<lparr> rm_store := s', rm_begun := (l, (c, e), a, route) # rm_begun m \<rparr>)"
proof -
  let ?s = "rm_store m" and ?m = "m\<lparr> rm_store := s', rm_begun := (l, (c, e), a, route) # rm_begun m \<rparr>"
  have i': "store_ok ?s" "begun_ok m" "ids_ok m" using i by (simp_all add: route_inv_def)
  have "0 \<le> rs_nextLeaseID ?s" using i'(3) by (simp add: ids_ok_def)
  then have w: "wrap64 (rs_nextLeaseID ?s + 1) = rs_nextLeaseID ?s + 1"
    using bound by (simp add: wrap64_def max_int64_def)
  have eq: "fmlookup (rs_routes ?s) (c, e) = Some a" "l = rs_nextLeaseID ?s + 1" "route = ge_route (rs_heap ?s a)"
    "s' = ?s\<lparr> rs_nextLeaseID := l, rs_heap := (rs_heap ?s)(a := (rs_heap ?s a)\<lparr> ge_leases := l # ge_leases (rs_heap ?s a) \<rparr>) \<rparr>"
    using b w by (auto simp: BeginProxy_def Let_def split: option.splits)
  have "store_ok s'" by (rule store_ok_cong [OF i'(1)]) (simp_all add: eq(4))
  moreover have "begun_ok ?m" unfolding begun_ok_def
  proof (intro allI impI)
    fix l' k' a' r'
    assume b: "(l', k', a', r') \<in> set (rm_begun ?m)"
    show "ending ?m l' \<or> served ?m l' k' a' r'"
    proof (cases "(l', k', a', r') \<in> set (rm_begun m) \<and> \<not> ending m l'")
      case True
      then have "served m l' k' a' r'" using begun_okD [OF i'(2)] by blast
      then show ?thesis by (auto simp: served_def eq(4))
    next
      case False
      then show ?thesis using b eq(1,3) by (auto simp: served_def ending_def eq(4))
    qed
  qed
  moreover have "ids_ok ?m" using i'(3) eq(2,4) by (force simp: ids_ok_def)
  ultimately show ?thesis by (simp add: route_inv_def)
qed

lemma route_inv_release:
  assumes i: "route_inv m" and l: "l \<in> gw_cancelled (rm_world m)"
  shows "route_inv (m\<lparr> rm_store := release_lease l a (rm_store m) \<rparr>)"
proof -
  let ?m = "m\<lparr> rm_store := release_lease l a (rm_store m) \<rparr>"
  have i': "store_ok (rm_store m)" "begun_ok m" "ids_ok m" using i by (simp_all add: route_inv_def)
  have "store_ok (rm_store ?m)" by (rule store_ok_cong [OF i'(1)]) (simp_all add: release_lease_def)
  moreover have "begun_ok ?m" unfolding begun_ok_def
  proof (intro allI impI)
    fix l' k' a' r'
    assume b: "(l', k', a', r') \<in> set (rm_begun ?m)"
    show "ending ?m l' \<or> served ?m l' k' a' r'"
    proof (cases "ending m l'")
      case False
      then have "l' \<noteq> l" using l by (auto simp: ending_def)
      moreover have "served m l' k' a' r'" using begun_okD [OF i'(2) _ False] b by simp
      ultimately show ?thesis by (auto simp: served_def release_lease_def)
    qed (simp add: ending_def)
  qed
  ultimately show ?thesis using i'(3) by (simp add: route_inv_def ids_ok_def release_lease_def)
qed

lemma begun_mono:
  assumes b: "begun_ok m" and eq: "rm_store m' = rm_store m" "rm_begun m' = rm_begun m" and e: "\<And>l. ending m l \<Longrightarrow> ending m' l"
  shows "begun_ok m'"
  using b e eq unfolding begun_ok_def served_def by metis

lemma run_effect_cancelled:
  "gw_cancelled (run_effect ord eff w) = (case eff of CancelLease l \<Rightarrow> insert l (gw_cancelled w) | _ \<Rightarrow> gw_cancelled w)"
  by (simp add: run_effect_def split: route_effect.split prod.split)

lemma route_inv_effect:
  assumes i: "route_inv m" and e: "rm_pending m = xs @ effect # ys"
  shows "route_inv (m\<lparr> rm_pending := xs @ ys, rm_world := run_effect ord effect (rm_world m) \<rparr>)"
proof -
  let ?m = "m\<lparr> rm_pending := xs @ ys, rm_world := run_effect ord effect (rm_world m) \<rparr>"
  have i': "store_ok (rm_store m)" "begun_ok m" "ids_ok m" using i by (simp_all add: route_inv_def)
  have "begun_ok ?m"
    by (rule begun_mono [OF i'(2)]) (auto simp: ending_def e run_effect_cancelled split: route_effect.split)
  then show ?thesis using i' by (simp add: route_inv_def ids_ok_def)
qed

lemma route_inv_step:
  assumes step: "route_step m m'" and i: "route_inv m"
  shows "route_inv m'"
  using step i
proof (induction rule: route_step.induct)
  case (sessions m registry)
  have "store_change (rm_store m) (SetSessionRegistry registry (rm_store m)) []"
    using sessions by (simp add: store_change_def SetSessionRegistry_def hands_over_def route_inv_def store_ok_def addresses_ok_def routes_inj_def)
  then show ?case using route_inv_change [OF sessions] by fastforce
next
  case (transport route m res s')
  then show ?case using route_inv_change [OF transport.prems Transport_change [OF _ transport.hyps]] by (simp add: route_inv_def)
next
  case (cancel m l)
  then have "begun_ok m" by (simp add: route_inv_def)
  then have "begun_ok (m\<lparr> rm_world := (rm_world m)\<lparr> gw_cancelled := insert l (gw_cancelled (rm_world m)) \<rparr> \<rparr>)"
    by (rule begun_mono) (auto simp: ending_def)
  then show ?case using cancel by (simp add: route_inv_def ids_ok_def)
next
  case (put route m res s' effects)
  then show ?case using route_inv_change [OF put.prems Put_change [OF _ put.hyps]] by (simp add: route_inv_def)
next
  case (delete c e m s' effects)
  then show ?case using route_inv_change [OF delete.prems Delete_change [OF _ delete.hyps]] by (simp add: route_inv_def)
next
  case (replace m route_order runtime_order snapshots res s' effects)
  then show ?case using route_inv_change [OF replace.prems Replace_change [OF _ replace.hyps(2,1)]] by (simp add: route_inv_def)
next
  case (close m route_order s' effects)
  then show ?case using route_inv_change [OF close.prems Close_change [OF _ close.hyps(2,1)]] by (simp add: route_inv_def)
qed (rule route_inv_begin route_inv_release route_inv_effect, assumption+)+

interpretation routes_safe: safe_machine route_init route_step route_inv
proof
  show "route_inv m" if "route_init m" for m
    using that by (auto simp: route_init_def route_inv_def store_ok_def addresses_ok_def routes_inj_def begun_ok_def ids_ok_def newRouteStore_def)
  show "route_inv m'" if "route_inv m" "route_step m m'" for m m'
    using route_inv_step [OF that(2,1)] .
qed

section \<open>Properties\<close>

text \<open>C6: A proxied request that is neither cancelled nor about to be is served by the route that its key
  has now, with the routing (site, pod, address, visibility) of the route it was admitted with, and its
  lease is still held by that route, so that the next change cancels it. Whatever changes or removes
  the route of a request, in any interleaving of operations, releases and deferred effects, therefore
  cancels it. No two requests share a lease.\<close>
theorem live_lease_current:
  assumes "reachable route_init route_step m"
    and "(l, k, a, r) \<in> set (rm_begun m)"
    and "l \<notin> gw_cancelled (rm_world m)" "CancelLease l \<notin> set (rm_pending m)"
  shows "(\<exists>entry. entry_at (rm_store m) k = Some entry \<and> l \<in> set (ge_leases entry)
       \<and> Get (Some (rm_store m)) (fst k) (snd k) = Some (ge_route entry) \<and> sameGatewayEndpointRouting (ge_route entry) r)
     \<and> distinct (map fst (rm_begun m))"
proof -
  have i: "begun_ok m" "ids_ok m" using routes_safe.reachable_inv [OF assms(1)] by (simp_all add: route_inv_def)
  have "served m l k a r" using begun_okD [OF i(1) assms(2)] assms(3,4) by (simp add: ending_def)
  then show ?thesis using i(2) by (auto simp: served_def entry_at_def Get_def ids_ok_def)
qed

definition demo_route :: endpointRoute where
  "demo_route = \<lparr> er_SiteUID = ''s'', er_GiteaWebURL = ''u/'', er_PodUID = ''p'', er_AgentAddress = ''a'', er_TargetVersion = 1,
     er_CodespaceUUID = ''c'', er_EndpointID = ''e'', er_Label = ''l'', er_Public = False \<rparr>"

definition demo_world :: gateway_world where
  "demo_world = \<lparr> gw_registry = None, gw_cancelled = {}, gw_session_cancels = [], gw_closed = [], gw_backend_closed = False \<rparr>"

definition demo_start :: route_machine where
  "demo_start = \<lparr> rm_store = newRouteStore True, rm_pending = [], rm_world = demo_world, rm_begun = [] \<rparr>"

definition demo_put :: route_machine where
  "demo_put = demo_start\<lparr> rm_store := install_entry (''c'', ''e'') (demo_route\<lparr> er_GiteaWebURL := ''u'' \<rparr>) (newRouteStore True) \<rparr>"

definition demo_begun :: route_machine where
  "demo_begun = demo_put\<lparr> rm_store := snd (BeginProxy ''c'' ''e'' (rm_store demo_put)),
     rm_begun := [(1, (''c'', ''e''), 0, demo_route\<lparr> er_GiteaWebURL := ''u'' \<rparr>)] \<rparr>"

lemma demo_reachable: "reachable route_init route_step demo_begun" "reachable route_init route_step demo_start"
proof -
  show start: "reachable route_init route_step demo_start"
    by (rule reach_init) (auto simp: route_init_def demo_start_def)
  have n: "normalizeEndpointRoute demo_route = Inr (demo_route\<lparr> er_GiteaWebURL := ''u'' \<rparr>)"
    by code_simp
  have "Put demo_route (rm_store demo_start) = (None, rm_store demo_put, [])"
    unfolding Put_def n by (simp add: demo_put_def demo_start_def newRouteStore_def Let_def demo_route_def)
  then have "route_step demo_start demo_put"
    using put [of demo_route demo_start] by (simp add: demo_put_def demo_start_def)
  then have p: "reachable route_init route_step demo_put" using start reach_step by metis
  have "BeginProxy ''c'' ''e'' (rm_store demo_put) = (Some (demo_route\<lparr> er_GiteaWebURL := ''u'' \<rparr>, 1, 0), snd (BeginProxy ''c'' ''e'' (rm_store demo_put)))"
    by (simp add: BeginProxy_def demo_put_def install_entry_def newRouteStore_def new_entry_def Let_def wrap64_def)
  moreover have "rs_nextLeaseID (rm_store demo_put) < max_int64"
    by (simp add: demo_put_def install_entry_def newRouteStore_def max_int64_def)
  ultimately have "route_step demo_put demo_begun"
    using begin_proxy [of demo_put "''c''" "''e''"] by (simp add: demo_begun_def demo_put_def demo_start_def)
  then show "reachable route_init route_step demo_begun" using p reach_step by metis
qed

theorem live_lease_current_witness:
  "(\<exists>entry. entry_at (rm_store demo_begun) (''c'', ''e'') = Some entry \<and> 1 \<in> set (ge_leases entry)
       \<and> Get (Some (rm_store demo_begun)) ''c'' ''e'' = Some (ge_route entry)
       \<and> sameGatewayEndpointRouting (ge_route entry) (demo_route\<lparr> er_GiteaWebURL := ''u'' \<rparr>))"
  using live_lease_current [OF demo_reachable(1), of 1 "(''c'', ''e'')" 0 "demo_route\<lparr> er_GiteaWebURL := ''u'' \<rparr>"]
  by (simp add: demo_begun_def demo_put_def demo_start_def demo_world_def)

text \<open>C24: A snapshot of the Manager is accepted exactly when every runtime is complete and no runtime or
  endpoint is repeated; a refused snapshot changes nothing. An accepted one leaves exactly its own
  routes, also when the store decides by sizes and lookups that nothing changed, and every route whose
  routing stays the same keeps its entry and the leases of the requests it serves.\<close>
theorem replace_refines_snapshot:
  assumes "reachable route_init route_step m"
    and "fset (fmdom (rs_routes (rm_store m))) \<subseteq> set route_order"
    and "ReplaceSharedGatewayRuntimes route_order runtime_order snapshots (rm_store m) = (res, s', effects)"
  shows "(res = None \<longleftrightarrow> snapshots_valid snapshots)
     \<and> (res \<noteq> None \<longrightarrow> s' = rm_store m \<and> effects = [])
     \<and> (res = None \<longrightarrow>
          (\<forall>c e. Get (Some s') c e = map_of (snapshot_routes snapshots) (c, e))
        \<and> (\<forall>k entry r. entry_at (rm_store m) k = Some entry \<longrightarrow> map_of (snapshot_routes snapshots) k = Some r
             \<longrightarrow> sameGatewayEndpointRouting (ge_route entry) r \<longrightarrow>
               fmlookup (rs_routes s') k = fmlookup (rs_routes (rm_store m)) k
             \<and> map_option ge_leases (entry_at s' k) = Some (ge_leases entry)))"
  using assms(3)
proof (cases rule: Replace_cases)
  case (same runtimes)
  then show ?thesis using routing_unchanged_routes [OF same(5) snapshot_routes_distinct] by (simp add: Get_route_at)
next
  case (changed runtimes)
  let ?s = "rm_store m"
  have s: "store_ok ?s" using routes_safe.reachable_inv [OF assms(1)] by (simp add: route_inv_def)
  obtain left s1 where f: "res = None" "placing ?s left s1" "route_at s1 = map_of (snapshot_routes snapshots)"
    "\<And>k a r. (k, r) \<in> set (snapshot_routes snapshots) \<Longrightarrow> fmlookup (rs_routes ?s) k = Some a \<Longrightarrow> sameGatewayEndpointRouting (ge_route (rs_heap ?s a)) r \<Longrightarrow> fmlookup left k = None"
    "rs_routes s' = rs_routes s1" "\<And>a. ge_route (rs_heap s' a) = ge_route (rs_heap s1 a)"
    "\<And>k a. fmlookup left k \<noteq> Some a \<Longrightarrow> fmlookup (rs_routes ?s) k = Some a \<Longrightarrow> rs_heap s' a = rs_heap s1 a"
    by (rule Replace_fold [OF s changed(1,3) assms(3,2)]) blast
  have "route_at s' = route_at s1" using f(5,6) by (simp add: route_at_heap fun_eq_iff)
  moreover have "fmlookup (rs_routes s') k = fmlookup (rs_routes ?s) k \<and> map_option ge_leases (entry_at s' k) = Some (ge_leases entry)"
    if k: "entry_at ?s k = Some entry" "map_of (snapshot_routes snapshots) k = Some r" "sameGatewayEndpointRouting (ge_route entry) r" for k entry r
  proof -
    obtain a where a: "fmlookup (rs_routes ?s) k = Some a" "entry = rs_heap ?s a" using k(1) by (auto simp: entry_at_def)
    have n: "fmlookup left k = None" using f(4) [OF map_of_SomeD [OF k(2)] a(1)] k(3) a(2) by simp
    have "kept_ok ?s left s1" using f(2) by (simp add: placing_def)
    from kept_okD [OF this a(1) n] show ?thesis using f(5) f(7) [OF _ a(1)] n a by (simp add: entry_at_def)
  qed
  ultimately show ?thesis using f(1,3) changed(2) by (simp add: Get_route_at)
qed simp

definition demo_snapshot :: runtimeSnapshot where
  "demo_snapshot = \<lparr> rt_SiteUID = ''s'', rt_ResourceUID = ''r'', rt_RuntimeUUID = ''c'', rt_GiteaWebURL = ''u'', rt_PodUID = ''p'',
     rt_AgentAddress = ''a:8444'', rt_TargetVersion = 1, rt_Endpoints = [\<lparr> es_EndpointID = ''e'', es_Label = ''l'', es_Public = True \<rparr>] \<rparr>"

theorem replace_refines_snapshot_witness:
  "Get (Some (fst (snd (ReplaceSharedGatewayRuntimes [] [] [demo_snapshot] (rm_store demo_start))))) ''c'' ''e''
     = Some (snd (snapshot_route demo_snapshot (hd (rt_Endpoints demo_snapshot))))"
proof -
  obtain res s' effects where r: "ReplaceSharedGatewayRuntimes [] [] [demo_snapshot] (rm_store demo_start) = (res, s', effects)"
    by (metis prod.exhaust)
  have v: "snapshots_valid [demo_snapshot]" by code_simp
  have "map_of (snapshot_routes [demo_snapshot]) (''c'', ''e'') = Some (snd (snapshot_route demo_snapshot (hd (rt_Endpoints demo_snapshot))))"
    by (simp add: snapshot_routes_def demo_snapshot_def snapshot_route_def)
  moreover have "fset (fmdom (rs_routes (rm_store demo_start))) \<subseteq> set []" by (simp add: demo_start_def newRouteStore_def)
  ultimately show ?thesis
    using replace_refines_snapshot [OF demo_reachable(2) _ r] v r by simp
qed

end
