(* ===== verification/Codespace_Resource.thy ===== *)
theory Codespace_Resource
  imports Endpoint_Contract
begin

text \<open>
  The \<open>Codespace\<close> resource of the Manager (\<open>internal/cluster/api/v1alpha1/types.go\<close>), its
  validation, the optimistic status updates that every actor of the Manager uses
  (\<open>internal/cluster/status.go\<close>), and the report of the Agent that becomes status
  (\<open>applyAgentReport\<close> in \<open>internal/cluster/agent_control.go\<close> with
  \<open>internal/cluster/runtime_metadata.go\<close>). The encoded operation payload is of an abstract type,
  because protojson is a library; the checks of the runtime configuration and the size of the encoded
  object depend on the Kubernetes types and are parameters.
\<close>

section \<open>The resource\<close>

record RuntimeConfiguration =
  rc_Image :: string
  rc_GitSSHKeyType :: string
  rc_Proxy :: bool
  rc_BlockVolume :: bool
  rc_Settings :: string

record 'raw Operation =
  op_Version :: int
  op_Type :: string
  op_Payload :: 'raw

record 'raw CodespaceSpec =
  sp_SiteName :: string
  sp_SiteUID :: string
  sp_CodespaceID :: int
  sp_RuntimeUUID :: string
  sp_EnvironmentTag :: string
  sp_Runtime :: RuntimeConfiguration
  sp_Operation :: "'raw Operation"

record AgentEndpoint =
  ae_ID :: string
  ae_Label :: string
  ae_Public :: bool
  ae_ContainerID :: string
  ae_Port :: int

record AgentTarget =
  tg_Version :: int
  tg_Ready :: bool
  tg_PrimaryContainerID :: string
  tg_WorkspaceFolder :: string
  tg_Endpoints :: "AgentEndpoint list"

record RuntimeBoot =
  bt_OperationVersion :: int
  bt_Stage :: string
  bt_StartedUnix :: int
  bt_LastUpdateUnix :: int

record OperationResult =
  or_Version :: int
  or_Succeeded :: bool
  or_Message :: string

record Condition =
  cd_Type :: string
  cd_True :: bool
  cd_Reason :: string
  cd_Message :: string
  cd_ObservedGeneration :: int

record CodespaceStatus =
  st_Bound :: bool
  st_PodName :: string
  st_PodUID :: string
  st_LastNodeName :: string
  st_StoppedPodUID :: string
  st_VolumeName :: string
  st_VolumeUID :: string
  st_VolumeInitialization :: string
  st_MetadataGeneration :: int
  st_SettledOperationVersion :: int
  st_RecoveryAction :: string
  st_Boot :: "RuntimeBoot option"
  st_Target :: "AgentTarget option"
  st_Result :: "OperationResult option"
  st_Conditions :: "Condition list"

record 'raw Codespace =
  cs_Name :: string
  cs_Namespace :: string
  cs_UID :: string
  cs_Generation :: int
  cs_Deleting :: bool
  cs_Spec :: "'raw CodespaceSpec"
  cs_Status :: CodespaceStatus

definition zero_status :: CodespaceStatus where
  "zero_status = \<lparr> st_Bound = False, st_PodName = [], st_PodUID = [], st_LastNodeName = [], st_StoppedPodUID = [],
     st_VolumeName = [], st_VolumeUID = [], st_VolumeInitialization = [], st_MetadataGeneration = 0,
     st_SettledOperationVersion = 0, st_RecoveryAction = [], st_Boot = None, st_Target = None, st_Result = None,
     st_Conditions = [] \<rparr>"

definition operation :: "'raw Codespace \<Rightarrow> 'raw Operation" where
  "operation cs = sp_Operation (cs_Spec cs)"

text \<open>\<open>meta.FindStatusCondition\<close>, \<open>SetStatusCondition\<close> and \<open>RemoveStatusCondition\<close>, without the
  transition times.\<close>

definition FindStatusCondition :: "Condition list \<Rightarrow> string \<Rightarrow> Condition option" where
  "FindStatusCondition conditions ty = find (\<lambda>c. cd_Type c = ty) conditions"

definition SetStatusCondition :: "Condition \<Rightarrow> Condition list \<Rightarrow> Condition list" where
  "SetStatusCondition c conditions =
     (if FindStatusCondition conditions (cd_Type c) = None then conditions @ [c]
      else map (\<lambda>d. if cd_Type d = cd_Type c then c else d) conditions)"

definition RemoveStatusCondition :: "string \<Rightarrow> Condition list \<Rightarrow> Condition list" where
  "RemoveStatusCondition ty conditions = filter (\<lambda>c. cd_Type c \<noteq> ty) conditions"

definition IsStatusConditionTrue :: "Condition list \<Rightarrow> string \<Rightarrow> bool" where
  "IsStatusConditionTrue conditions ty = (case FindStatusCondition conditions ty of None \<Rightarrow> False | Some c \<Rightarrow> cd_True c)"

section \<open>Errors\<close>

datatype connect_code = InvalidArgument | NotFound | FailedPrecondition | ResourceExhausted | PermissionDenied | Internal | OtherCode

datatype rejection =
    invalidIdentity | unknownOperation | invalidSettings | runtimeUUIDRequired | namespaceOwnershipChanged
  | boundRecordMissing | recordRequired | environmentAmbiguous | templateIdentityChanged | environmentUnauthorized
  | ownershipConflict | identityRegressed | savedUndecodable | operationChanged | invalidOperation
  | proxySecretOwnershipChanged | unboundWithoutCreate | bindingConflict

datatype validation_failure =
    namespaceMismatch | runtimeUUIDInvalid | identityRequired | runtimeInvalid | operationInvalid | objectTooLarge

datatype report_failure =
    reportOperationChanged | resultInvalid | readyTargetRequired | bootInvalid | persistedStageInvalid | bootRegressed
  | stageInvalid | targetInvalid | tooManyEndpoints | endpointInvalid | workspaceEndpointInvalid | displayPortMismatch
  | labelInvalid label_error | targetVersionReused | generationExhausted | resultConflict | reportTooLarge

datatype manager_error =
    errOperationRejected rejection
  | errObservedResourceChanged
  | ApiError string
  | ConflictError
  | RemoteError connect_code
  | ReportError connect_code report_failure
  | Invalid validation_failure
  | siteNameInvalid
  | namespaceConflict
  | environmentNotReady
  | identityUnconfirmed
  | readyTargetMissing
  | generationMissing
  | metadataInvalid
  | savedTypeInvalid
  | settingsRefused
  | marshalFailed
  | formatRefused
  | inventoryActionUnsupported

section \<open>Validation\<close>

text \<open>\<open>validation.IsDNS1123Label\<close>: lower-case letters, digits and inner dashes, at most 63 bytes.\<close>

definition IsDNS1123Label :: "string \<Rightarrow> bool" where
  "IsDNS1123Label s \<longleftrightarrow>
     s \<noteq> [] \<and> length s \<le> 63 \<and> lower_alnum (hd s) \<and> lower_alnum (last s) \<and> list_all (\<lambda>c. lower_alnum c \<or> c = CHR ''-'') s"

definition SiteNamespace :: "string \<Rightarrow> string \<Rightarrow> manager_error + string" where
  "SiteNamespace name managementNamespace =
     (if length name > 53 \<or> \<not> IsDNS1123Label name then Inl siteNameInvalid
      else if ''codespace-'' @ name = managementNamespace then Inl namespaceConflict
      else Inr (''codespace-'' @ name))"

text \<open>The pattern of environment names: one to 63 bytes.\<close>

definition environmentNamePattern :: "string \<Rightarrow> bool" where
  "environmentNamePattern s \<longleftrightarrow>
     s \<noteq> [] \<and> lower_alnum (hd s) \<and>
     (length s = 1 \<or>
      (length s \<le> 63 \<and> list_all (\<lambda>c. lower_alnum c \<or> c = CHR ''-'') (butlast (tl s)) \<and> lower_alnum (last s)))"

text \<open>A UUID in canonical form whose version nibble is four.\<close>

definition canonical_uuid_v4 :: "string \<Rightarrow> bool" where
  "canonical_uuid_v4 s \<longleftrightarrow>
     length s = 36 \<and> s ! 14 = CHR ''4'' \<and>
     (\<forall>i < 36. if i \<in> {8, 13, 18, 23} then s ! i = CHR ''-'' else s ! i \<in> set ''0123456789abcdef'')"

record 'raw manager_libs =
  lib_RuntimeValid :: "RuntimeConfiguration \<Rightarrow> bool"
  lib_ObjectSizeOK :: "'raw Codespace \<Rightarrow> bool"

definition ValidateObjectSize :: "'raw manager_libs \<Rightarrow> 'raw Codespace \<Rightarrow> validation_failure option" where
  "ValidateObjectSize libs cs = (if lib_ObjectSizeOK libs cs then None else Some objectTooLarge)"

definition codespace_Validate :: "'raw manager_libs \<Rightarrow> string \<Rightarrow> 'raw Codespace \<Rightarrow> validation_failure option" where
  "codespace_Validate libs managementNamespace c =
     (let spec = cs_Spec c; oper = sp_Operation spec
      in if SiteNamespace (sp_SiteName spec) managementNamespace \<noteq> Inr (cs_Namespace c) \<or> sp_SiteUID spec = [] then Some namespaceMismatch
         else if \<not> canonical_uuid_v4 (sp_RuntimeUUID spec) then Some runtimeUUIDInvalid
         else if sp_CodespaceID spec \<le> 0 \<or> op_Version oper \<le> 0 \<or> \<not> environmentNamePattern (sp_EnvironmentTag spec) then Some identityRequired
         else if op_Type oper \<in> {''create'', ''resume''} then
           (if lib_RuntimeValid libs (sp_Runtime spec) then ValidateObjectSize libs c else Some runtimeInvalid)
         else if op_Type oper \<in> {''stop'', ''delete'', ''abort_create'', ''abort_resume''} then ValidateObjectSize libs c
         else Some operationInvalid)"

section \<open>Optimistic updates\<close>

text \<open>
  \<open>retryStatusUpdate\<close>: every attempt reads the current object, changes it and writes its status,
  unless nothing changed; a write conflicts when the object has changed since it was read. The list
  holds the answers of the API server; \<open>retry.DefaultRetry\<close> makes at most five attempts.
\<close>

datatype write_answer = Written | Conflict | WriteFailed manager_error

record 'o attempt =
  at_Get :: "manager_error + 'o"
  at_Write :: write_answer

definition DefaultRetry_Steps :: nat where
  "DefaultRetry_Steps = 5"

definition status_attempt :: "'raw manager_libs \<Rightarrow> string \<Rightarrow> ('raw Codespace \<Rightarrow> manager_error + 'raw Codespace) \<Rightarrow> 'raw Codespace \<Rightarrow> manager_error + 'raw Codespace" where
  "status_attempt libs uid mutate current =
     (if cs_UID current \<noteq> uid then Inl errObservedResourceChanged
      else case mutate current of
        Inl e \<Rightarrow> Inl e
      | Inr next \<Rightarrow> (case ValidateObjectSize libs next of Some e \<Rightarrow> Inl (Invalid e) | None \<Rightarrow> Inr next))"

fun retryStatusUpdate ::
    "'raw manager_libs \<Rightarrow> string \<Rightarrow> ('raw Codespace \<Rightarrow> manager_error + 'raw Codespace) \<Rightarrow> nat \<Rightarrow> 'raw Codespace attempt list
      \<Rightarrow> manager_error + 'raw Codespace" where
  "retryStatusUpdate libs uid mutate (Suc n) (a # as) =
     (case at_Get a of
        Inl e \<Rightarrow> Inl e
      | Inr current \<Rightarrow>
          (case status_attempt libs uid mutate current of
             Inl e \<Rightarrow> Inl e
           | Inr next \<Rightarrow>
               if cs_Status next = cs_Status current then Inr next
               else (case at_Write a of
                       Written \<Rightarrow> Inr next
                     | Conflict \<Rightarrow> retryStatusUpdate libs uid mutate n as
                     | WriteFailed e \<Rightarrow> Inl e)))"
| "retryStatusUpdate libs uid mutate n as = Inl ConflictError"

definition updateCodespaceStatus ::
    "'raw manager_libs \<Rightarrow> 'raw Codespace \<Rightarrow> ('raw Codespace \<Rightarrow> manager_error + 'raw Codespace) \<Rightarrow> 'raw Codespace attempt list
      \<Rightarrow> manager_error + 'raw Codespace" where
  "updateCodespaceStatus libs observed mutate attempts = retryStatusUpdate libs (cs_UID observed) mutate DefaultRetry_Steps attempts"

lemma status_attempt_Inr:
  "status_attempt libs uid mutate cs = Inr next \<longleftrightarrow> cs_UID cs = uid \<and> mutate cs = Inr next \<and> lib_ObjectSizeOK libs next"
  by (auto simp: status_attempt_def ValidateObjectSize_def split: sum.splits)

lemma retryStatusUpdate_Inr:
  "retryStatusUpdate libs uid mutate n as = Inr cs' \<Longrightarrow>
     \<exists>a \<in> set as. \<exists>cs. at_Get a = Inr cs \<and> status_attempt libs uid mutate cs = Inr cs'"
  by (induction libs uid mutate n as rule: retryStatusUpdate.induct) (auto split: sum.splits if_splits write_answer.splits)

end
