(* ===== verification/Resource_Samples.thy ===== *)
theory Resource_Samples
  imports Codespace_Resource
begin

text \<open>
  The resource samples that Agents report (\<open>internal/cluster/resource_usage.go\<close>). The Manager keeps them in
  memory only and adds the current one to the metadata that it publishes. The lemmas show which
  sample is reported.
\<close>

section \<open>The store\<close>

record RuntimeResourceUsage =
  ru_ObservedUnix :: int
  ru_Cpu :: "(int \<times> int) option"
  ru_Memory :: "(int \<times> int) option"
  ru_Disk :: "(int \<times> int) option"

record resourceSample =
  rs_site :: string
  rs_pod :: string
  rs_operation :: int
  rs_usage :: RuntimeResourceUsage

text \<open>\<open>now\<close> is in Unix seconds, far from the ends of 64 bits; used and limit come in pairs.\<close>

definition usage_acceptable :: "int \<Rightarrow> RuntimeResourceUsage \<Rightarrow> bool" where
  "usage_acceptable now u \<longleftrightarrow>
     (case (ru_Cpu u, ru_Memory u, ru_Disk u) of
        (Some (cpu, cpuLimit), Some (memory, memoryLimit), Some (disk, diskLimit)) \<Rightarrow>
          \<not> (ru_ObservedUnix u < now - 120 \<or> ru_ObservedUnix u > now + 30 \<or> cpu < 0 \<or> cpuLimit < 0 \<or> memory < 0 \<or> memoryLimit < 0
             \<or> disk < 0 \<or> diskLimit \<le> 0)
      | _ \<Rightarrow> False)"

definition sample_Record ::
  "'raw Codespace \<Rightarrow> RuntimeResourceUsage option \<Rightarrow> int \<Rightarrow> (string, resourceSample) fmap \<Rightarrow> (string, resourceSample) fmap" where
  "sample_Record cs usage now samples =
     (case usage of
        None \<Rightarrow> samples
      | Some u \<Rightarrow>
          if st_PodUID (cs_Status cs) = [] \<or> \<not> usage_acceptable now u then samples
          else if (case fmlookup samples (cs_UID cs) of None \<Rightarrow> False | Some previous \<Rightarrow>
                     rs_pod previous = st_PodUID (cs_Status cs) \<and> rs_operation previous = op_Version (operation cs)
                     \<and> ru_ObservedUnix (rs_usage previous) \<ge> ru_ObservedUnix u)
          then samples
          else fmupd (cs_UID cs) \<lparr>rs_site = sp_SiteUID (cs_Spec cs), rs_pod = st_PodUID (cs_Status cs), rs_operation = op_Version (operation cs),
                 rs_usage = u\<rparr> samples)"

definition sample_Load ::
  "'raw Codespace \<Rightarrow> int \<Rightarrow> (string, resourceSample) fmap \<Rightarrow> RuntimeResourceUsage option \<times> (string, resourceSample) fmap" where
  "sample_Load cs now samples =
     (case fmlookup samples (cs_UID cs) of
        None \<Rightarrow> (None, samples)
      | Some sample \<Rightarrow>
          if rs_pod sample \<noteq> st_PodUID (cs_Status cs) \<or> rs_operation sample \<noteq> op_Version (operation cs)
             \<or> ru_ObservedUnix (rs_usage sample) < now - 120
          then (None, fmdrop (cs_UID cs) samples)
          else (Some (rs_usage sample), samples))"

definition sample_RetainSite ::
  "string \<Rightarrow> 'raw Codespace list \<Rightarrow> int \<Rightarrow> (string, resourceSample) fmap \<Rightarrow> (string, resourceSample) fmap" where
  "sample_RetainSite site rows now samples =
     (let active = map_of (rev (map (\<lambda>cs. (cs_UID cs, \<not> cs_Deleting cs \<and> st_PodUID (cs_Status cs) \<noteq> [])) rows))
      in fmfilter (\<lambda>uid. case fmlookup samples uid of None \<Rightarrow> False | Some sample \<Rightarrow>
            \<not> (rs_site sample = site \<and> (active uid \<noteq> Some True \<or> ru_ObservedUnix (rs_usage sample) < now - 120))) samples)"

section \<open>Which sample is loaded\<close>

datatype 'raw sample_event =
    SampleRecord "'raw Codespace" "RuntimeResourceUsage option" int
  | SampleLoad "'raw Codespace" int
  | SampleRetain string "'raw Codespace list" int

fun sample_step :: "'raw sample_event \<Rightarrow> (string, resourceSample) fmap \<Rightarrow> (string, resourceSample) fmap" where
  "sample_step (SampleRecord cs usage now) samples = sample_Record cs usage now samples"
| "sample_step (SampleLoad cs now) samples = snd (sample_Load cs now samples)"
| "sample_step (SampleRetain site rows now) samples = sample_RetainSite site rows now samples"

text \<open>Where a sample comes from.\<close>

definition recorded :: "'raw sample_event set \<Rightarrow> string \<Rightarrow> resourceSample \<Rightarrow> bool" where
  "recorded events uid sample \<longleftrightarrow>
     (\<exists>cs now. SampleRecord cs (Some (rs_usage sample)) now \<in> events \<and> cs_UID cs = uid \<and> rs_pod sample = st_PodUID (cs_Status cs)
        \<and> rs_operation sample = op_Version (operation cs) \<and> usage_acceptable now (rs_usage sample))"

lemma recorded_step:
  assumes "\<forall>uid sample. fmlookup samples uid = Some sample \<longrightarrow> recorded events uid sample"
    and "fmlookup (sample_step ev samples) uid = Some sample"
  shows "recorded (insert ev events) uid sample"
proof (cases "fmlookup samples uid = Some sample")
  case True
  then have "recorded events uid sample" using assms(1) by blast
  then show ?thesis unfolding recorded_def by blast
next
  case False
  then have "\<exists>cs u now. ev = SampleRecord cs (Some u) now \<and> cs_UID cs = uid \<and> usage_acceptable now u
      \<and> sample = \<lparr>rs_site = sp_SiteUID (cs_Spec cs), rs_pod = st_PodUID (cs_Status cs), rs_operation = op_Version (operation cs), rs_usage = u\<rparr>"
    using assms(2)
    by (cases ev) (auto simp: sample_Record_def sample_Load_def sample_RetainSite_def Let_def split: option.splits if_splits)
  then obtain cs u now where e: "ev = SampleRecord cs (Some u) now" "cs_UID cs = uid" "usage_acceptable now u"
    "sample = \<lparr>rs_site = sp_SiteUID (cs_Spec cs), rs_pod = st_PodUID (cs_Status cs), rs_operation = op_Version (operation cs), rs_usage = u\<rparr>"
    by blast
  show ?thesis unfolding recorded_def by (rule exI [of _ cs], rule exI [of _ now]) (simp add: e)
qed

lemma recorded_run:
  "fmlookup (fold sample_step events fmempty) uid = Some sample \<Longrightarrow> recorded (set events) uid sample"
proof (induction events arbitrary: uid sample rule: rev_induct)
  case (snoc ev events)
  then show ?case using recorded_step [of "fold sample_step events fmempty" "set events" ev uid sample] by simp
qed simp

text \<open>The usage that is reported for a runtime was measured in the Pod and under the operation that it
  has now, not more than two minutes ago, and was plausible when it arrived.\<close>

lemma loaded_sample_current:
  assumes "fst (sample_Load cs now (fold sample_step events fmempty)) = Some usage"
  shows "now - 120 \<le> ru_ObservedUnix usage"
    "\<exists>cs' arrival. SampleRecord cs' (Some usage) arrival \<in> set events \<and> cs_UID cs' = cs_UID cs
      \<and> st_PodUID (cs_Status cs') = st_PodUID (cs_Status cs) \<and> op_Version (operation cs') = op_Version (operation cs)
      \<and> usage_acceptable arrival usage"
proof -
  from assms obtain sample where s: "fmlookup (fold sample_step events fmempty) (cs_UID cs) = Some sample" "usage = rs_usage sample"
    "rs_pod sample = st_PodUID (cs_Status cs)" "rs_operation sample = op_Version (operation cs)" "now - 120 \<le> ru_ObservedUnix usage"
    by (auto simp: sample_Load_def split: option.splits if_splits)
  show "now - 120 \<le> ru_ObservedUnix usage" by (rule s(5))
  from recorded_run [OF s(1)] s(2-4) show "\<exists>cs' arrival. SampleRecord cs' (Some usage) arrival \<in> set events \<and> cs_UID cs' = cs_UID cs
      \<and> st_PodUID (cs_Status cs') = st_PodUID (cs_Status cs) \<and> op_Version (operation cs') = op_Version (operation cs)
      \<and> usage_acceptable arrival usage"
    unfolding recorded_def by metis
qed

end
