(* ===== verification/Agent_Report.thy ===== *)
theory Agent_Report
  imports Resource_Samples
begin

text \<open>
  What the Agent reports and how it becomes status: the boot stages and the metadata sent to Gitea
  (\<open>internal/cluster/runtime_metadata.go\<close>) and \<open>applyAgentReport\<close>
  (\<open>internal/cluster/agent_control.go\<close>). Stages are numbered in the order of the protocol, from one.
\<close>

section \<open>Messages\<close>

record RuntimeBootProto =
  bp_OperationRversion :: int
  bp_Stage :: int
  bp_StartedUnix :: int
  bp_LastUpdateUnix :: int

datatype FinalStatus = FINAL_STATUS_DONE | FINAL_STATUS_FAILED | FINAL_STATUS_OTHER

record RuntimeEndpoint =
  re_EndpointId :: string
  re_Label :: string
  re_Port :: int
  re_Public :: bool

record EndpointTarget =
  et_Endpoint :: "RuntimeEndpoint option"
  et_ContainerId :: string
  et_Port :: int

record AccessTarget =
  at_Version :: int
  at_Ready :: bool
  at_PrimaryContainerId :: string
  at_WorkspaceFolder :: string
  at_Endpoints :: "EndpointTarget option list"

record AgentResult =
  rs_OperationRversion :: int
  rs_Status :: FinalStatus
  rs_Message :: string

record AgentReport =
  ar_OperationRversion :: int
  ar_GitSshPublicKey :: string
  ar_Result :: "AgentResult option"
  ar_Target :: "AccessTarget option"
  ar_Boot :: "RuntimeBootProto option"

section \<open>Boot stages\<close>

definition STAGE_PREPARE_RUNTIME :: int where
  "STAGE_PREPARE_RUNTIME = 1"

definition STAGE_READY :: int where
  "STAGE_READY = 6"

definition runtimeBootStages :: "(int \<times> string) list" where
  "runtimeBootStages =
     [(1, ''prepare-runtime''), (2, ''initialize-system''), (3, ''prepare-workspace''),
      (4, ''start-environment''), (5, ''publish-ready''), (6, ''ready'')]"

definition runtimeBootFromProto :: "RuntimeBootProto option \<Rightarrow> report_failure + RuntimeBoot option" where
  "runtimeBootFromProto value =
     (case value of
        None \<Rightarrow> Inr None
      | Some v \<Rightarrow>
          (case map_of runtimeBootStages (bp_Stage v) of
             None \<Rightarrow> Inl stageInvalid
           | Some stage \<Rightarrow>
               Inr (Some \<lparr> bt_OperationVersion = bp_OperationRversion v, bt_Stage = stage,
                           bt_StartedUnix = bp_StartedUnix v, bt_LastUpdateUnix = bp_LastUpdateUnix v \<rparr>)))"

text \<open>The names are distinct, so the order in which the map is searched does not matter.\<close>

definition runtimeBootToProto :: "RuntimeBoot option \<Rightarrow> report_failure + RuntimeBootProto option" where
  "runtimeBootToProto value =
     (case value of
        None \<Rightarrow> Inr None
      | Some v \<Rightarrow>
          (case find (\<lambda>(_, name). name = bt_Stage v) runtimeBootStages of
             None \<Rightarrow> Inl persistedStageInvalid
           | Some (stage, _) \<Rightarrow>
               Inr (Some \<lparr> bp_OperationRversion = bt_OperationVersion v, bp_Stage = stage,
                           bp_StartedUnix = bt_StartedUnix v, bp_LastUpdateUnix = bt_LastUpdateUnix v \<rparr>)))"

section \<open>Metadata\<close>

record RuntimeMetadata =
  md_Boot :: "RuntimeBootProto option"
  md_WorkspaceFolder :: string
  md_Endpoints :: "RuntimeEndpoint list"
  md_ResourceUsage :: "RuntimeResourceUsage option"

definition metadata_endpoint :: "AgentEndpoint \<Rightarrow> RuntimeEndpoint" where
  "metadata_endpoint e =
     \<lparr> re_EndpointId = ae_ID e, re_Label = ae_Label e,
       re_Port = (if ae_ID e = WorkspaceEndpointID then 0 else ae_Port e mod 2 ^ 32), re_Public = ae_Public e \<rparr>"

definition runtimeMetadata :: "'raw Codespace \<Rightarrow> manager_error + RuntimeMetadata" where
  "runtimeMetadata cs =
     (case runtimeBootToProto (st_Boot (cs_Status cs)) of
        Inl e \<Rightarrow> Inl metadataInvalid
      | Inr boot \<Rightarrow>
          (case st_Target (cs_Status cs) of
             Some target \<Rightarrow>
               if \<not> tg_Ready target then Inr \<lparr> md_Boot = boot, md_WorkspaceFolder = [], md_Endpoints = [], md_ResourceUsage = None \<rparr>
               else if \<not> IsValidWorkspaceFolder (tg_WorkspaceFolder target) then Inl metadataInvalid
               else Inr \<lparr> md_Boot = boot, md_WorkspaceFolder = tg_WorkspaceFolder target,
                         md_Endpoints = map metadata_endpoint (tg_Endpoints target), md_ResourceUsage = None \<rparr>
           | None \<Rightarrow> Inr \<lparr> md_Boot = boot, md_WorkspaceFolder = [], md_Endpoints = [], md_ResourceUsage = None \<rparr>))"

section \<open>Applying a report\<close>

definition is_startup :: "string \<Rightarrow> bool" where
  "is_startup ty \<longleftrightarrow> ty = ''create'' \<or> ty = ''resume''"

definition check_result :: "'raw Codespace \<Rightarrow> AgentReport \<Rightarrow> manager_error option" where
  "check_result cs report =
     (case ar_Result report of
        None \<Rightarrow> None
      | Some result \<Rightarrow>
          if rs_OperationRversion result \<noteq> op_Version (operation cs) \<or> length (rs_Message result) > 4096
             \<or> (rs_Status result \<noteq> FINAL_STATUS_DONE \<and> rs_Status result \<noteq> FINAL_STATUS_FAILED)
          then Some (ReportError InvalidArgument resultInvalid)
          else if rs_Status result = FINAL_STATUS_DONE \<and> is_startup (op_Type (operation cs)) \<and>
            \<not> (case (ar_Target report, ar_Boot report) of
                 (Some target, Some boot) \<Rightarrow>
                   at_Ready target \<and> at_Version target > 0 \<and> at_PrimaryContainerId target \<noteq> []
                   \<and> bp_OperationRversion boot = op_Version (operation cs) \<and> bp_Stage boot = STAGE_READY
               | _ \<Rightarrow> False)
          then Some (ReportError FailedPrecondition readyTargetRequired)
          else None)"

definition apply_boot :: "'raw Codespace \<Rightarrow> AgentReport \<Rightarrow> manager_error + RuntimeBoot option" where
  "apply_boot cs report =
     (case ar_Boot report of
        None \<Rightarrow> Inr (st_Boot (cs_Status cs))
      | Some boot \<Rightarrow>
          if \<not> is_startup (op_Type (operation cs)) \<or> bp_OperationRversion boot \<noteq> op_Version (operation cs)
             \<or> bp_Stage boot < STAGE_PREPARE_RUNTIME \<or> bp_Stage boot > STAGE_READY \<or> bp_StartedUnix boot \<le> 0
             \<or> bp_LastUpdateUnix boot < bp_StartedUnix boot
          then Inl (ReportError InvalidArgument bootInvalid)
          else
            (case runtimeBootToProto (st_Boot (cs_Status cs)) of
               Inl e \<Rightarrow> Inl (ReportError Internal e)
             | Inr previous \<Rightarrow>
                 if (case previous of None \<Rightarrow> False | Some p \<Rightarrow>
                       bp_OperationRversion p = bp_OperationRversion boot
                       \<and> (bp_Stage p > bp_Stage boot \<or> bp_LastUpdateUnix p > bp_LastUpdateUnix boot \<or> bp_StartedUnix p \<noteq> bp_StartedUnix boot))
                 then Inl (ReportError FailedPrecondition bootRegressed)
                 else (case runtimeBootFromProto (Some boot) of
                         Inl e \<Rightarrow> Inl (ReportError InvalidArgument e)
                       | Inr b \<Rightarrow> Inr b)))"

fun apply_endpoints :: "string \<Rightarrow> string list \<Rightarrow> EndpointTarget option list \<Rightarrow> manager_error + AgentEndpoint list" where
  "apply_endpoints primary seen [] = Inr []"
| "apply_endpoints primary seen (None # es) = Inl (ReportError InvalidArgument endpointInvalid)"
| "apply_endpoints primary seen (Some e # es) =
     (case et_Endpoint e of
        None \<Rightarrow> Inl (ReportError InvalidArgument endpointInvalid)
      | Some ep \<Rightarrow>
          if \<not> endpointIDPattern (re_EndpointId ep) \<or> et_ContainerId e = [] \<or> et_Port e = 0 \<or> et_Port e > 65535
             \<or> re_EndpointId ep \<in> set seen
          then Inl (ReportError InvalidArgument endpointInvalid)
          else if re_EndpointId ep = WorkspaceEndpointID
                  \<and> (re_Public ep \<or> re_Port ep \<noteq> 0 \<or> et_ContainerId e \<noteq> primary)
          then Inl (ReportError InvalidArgument workspaceEndpointInvalid)
          else if re_EndpointId ep \<noteq> WorkspaceEndpointID \<and> re_Port ep \<noteq> et_Port e
          then Inl (ReportError InvalidArgument displayPortMismatch)
          else
            (case ValidateLabel (re_Label ep) of
               Some le \<Rightarrow> Inl (ReportError InvalidArgument (labelInvalid le))
             | None \<Rightarrow>
                 (case apply_endpoints primary (re_EndpointId ep # seen) es of
                    Inl err \<Rightarrow> Inl err
                  | Inr rest \<Rightarrow>
                      Inr (\<lparr> ae_ID = re_EndpointId ep, ae_Label = re_Label ep, ae_Public = re_Public ep,
                             ae_ContainerID = et_ContainerId e, ae_Port = et_Port e \<rparr> # rest))))"

definition apply_target :: "'raw Codespace \<Rightarrow> AgentReport \<Rightarrow> manager_error + AgentTarget option" where
  "apply_target cs report =
     (case ar_Target report of
        None \<Rightarrow> Inr (st_Target (cs_Status cs))
      | Some t \<Rightarrow>
          if \<not> is_startup (op_Type (operation cs)) \<or> at_Version t \<le> 0
             \<or> (at_Ready t \<and> (at_PrimaryContainerId t = [] \<or> \<not> IsValidWorkspaceFolder (at_WorkspaceFolder t)))
          then Inl (ReportError InvalidArgument targetInvalid)
          else if length (at_Endpoints t) > 64 then Inl (ReportError InvalidArgument tooManyEndpoints)
          else
            (case apply_endpoints (at_PrimaryContainerId t) [] (at_Endpoints t) of
               Inl e \<Rightarrow> Inl e
             | Inr endpoints \<Rightarrow>
                 (let target = \<lparr> tg_Version = at_Version t, tg_Ready = at_Ready t, tg_PrimaryContainerID = at_PrimaryContainerId t,
                                 tg_WorkspaceFolder = at_WorkspaceFolder t, tg_Endpoints = endpoints \<rparr>
                  in if (case st_Target (cs_Status cs) of None \<Rightarrow> False | Some previous \<Rightarrow>
                           tg_Version target < tg_Version previous \<or> (tg_Version target = tg_Version previous \<and> target \<noteq> previous))
                     then Inl (ReportError FailedPrecondition targetVersionReused)
                     else Inr (Some target))))"

definition apply_generation :: "CodespaceStatus \<Rightarrow> RuntimeBoot option \<Rightarrow> AgentTarget option \<Rightarrow> manager_error + int" where
  "apply_generation status boot target =
     (if boot \<noteq> st_Boot status \<or> target \<noteq> st_Target status then
        (if st_MetadataGeneration status = max_int64 then Inl (ReportError ResourceExhausted generationExhausted)
         else Inr (wrap64 (st_MetadataGeneration status + 1)))
      else Inr (st_MetadataGeneration status))"

definition apply_result :: "'raw Codespace \<Rightarrow> AgentReport \<Rightarrow> manager_error + OperationResult option" where
  "apply_result cs report =
     (case ar_Result report of
        None \<Rightarrow> Inr (st_Result (cs_Status cs))
      | Some result \<Rightarrow>
          (let stored = \<lparr> or_Version = rs_OperationRversion result, or_Succeeded = (rs_Status result = FINAL_STATUS_DONE),
                          or_Message = rs_Message result \<rparr>
           in case st_Result (cs_Status cs) of
                None \<Rightarrow> Inr (Some stored)
              | Some previous \<Rightarrow>
                  if or_Version previous = or_Version stored \<and> previous \<noteq> stored
                  then Inl (ReportError FailedPrecondition resultConflict)
                  else Inr (Some stored)))"

definition applyAgentReport :: "'raw manager_libs \<Rightarrow> AgentReport option \<Rightarrow> 'raw Codespace \<Rightarrow> manager_error + 'raw Codespace" where
  "applyAgentReport libs report_opt cs =
     (case report_opt of
        None \<Rightarrow> Inl (ReportError FailedPrecondition reportOperationChanged)
      | Some report \<Rightarrow>
          if ar_OperationRversion report \<noteq> op_Version (operation cs) then Inl (ReportError FailedPrecondition reportOperationChanged)
          else case check_result cs report of
            Some e \<Rightarrow> Inl e
          | None \<Rightarrow>
              (case apply_boot cs report of
                 Inl e \<Rightarrow> Inl e
               | Inr boot \<Rightarrow>
                   (case apply_target cs report of
                      Inl e \<Rightarrow> Inl e
                    | Inr target \<Rightarrow>
                        (case apply_generation (cs_Status cs) boot target of
                           Inl e \<Rightarrow> Inl e
                         | Inr generation \<Rightarrow>
                             (case apply_result cs report of
                                Inl e \<Rightarrow> Inl e
                              | Inr result \<Rightarrow>
                                  (let cs' = cs\<lparr> cs_Status := (cs_Status cs)\<lparr> st_Boot := boot, st_Target := target,
                                        st_MetadataGeneration := generation, st_Result := result \<rparr> \<rparr>
                                   in case ValidateObjectSize libs cs' of
                                        Some _ \<Rightarrow> Inl (ReportError ResourceExhausted reportTooLarge)
                                      | None \<Rightarrow> Inr cs'))))))"

end
