(* ===== verification/Operations.thy ===== *)
theory Operations
  imports Agent_Report Execution_Permit Runtime_Activity
begin

text \<open>
  How the Manager accepts an operation of Gitea and reports its outcome
  (\<open>internal/cluster/operations.go\<close>). \<open>protojson\<close> is a library: its two functions are the fields of
  \<open>payload_codec\<close>, with an abstract type of encodings. What the API server, Gitea and the clock answer
  are the fields of an environment. The functions that an optimistic update applies to the current
  object are definitions of their own, because other actors write between the read and the update.
\<close>

section \<open>Payloads\<close>

record StartupCommand =
  sc_RuntimeSettings :: "RuntimeSettings option"
  sc_EnvironmentTag :: string
  sc_Content :: string

datatype Command =
    Command_None
  | Command_Create "StartupCommand option"
  | Command_Resume "StartupCommand option"
  | Command_Stop string
  | Command_Delete string
  | Command_AbortCreate string
  | Command_AbortResume string

record OperationPayload =
  pl_CodespaceId :: int
  pl_OperationRversion :: int
  pl_LogOffset :: int
  pl_RuntimeUuid :: string
  pl_LeaseValidForMilliseconds :: int
  pl_Command :: Command

record 'raw payload_codec =
  pc_Marshal :: "OperationPayload \<Rightarrow> 'raw option"
  pc_Unmarshal :: "'raw \<Rightarrow> OperationPayload option"
  pc_Empty :: 'raw

definition operationType :: "Command \<Rightarrow> string option" where
  "operationType command =
     (case command of
        Command_None \<Rightarrow> None
      | Command_Create _ \<Rightarrow> Some ''create''
      | Command_Resume _ \<Rightarrow> Some ''resume''
      | Command_Stop _ \<Rightarrow> Some ''stop''
      | Command_Delete _ \<Rightarrow> Some ''delete''
      | Command_AbortCreate _ \<Rightarrow> Some ''abort_create''
      | Command_AbortResume _ \<Rightarrow> Some ''abort_resume'')"

text \<open>Decoding what was encoded gives an operation of the same kind.\<close>

definition codec_ok :: "'raw payload_codec \<Rightarrow> bool" where
  "codec_ok codec \<longleftrightarrow> (\<forall>payload raw. pc_Marshal codec payload = Some raw \<longrightarrow>
     (\<exists>decoded. pc_Unmarshal codec raw = Some decoded \<and> operationType (pl_Command decoded) = operationType (pl_Command payload)))"

definition command_settings :: "Command \<Rightarrow> RuntimeSettings option" where
  "command_settings command =
     (case command of
        Command_Create (Some c) \<Rightarrow> sc_RuntimeSettings c
      | Command_Resume (Some c) \<Rightarrow> sc_RuntimeSettings c
      | _ \<Rightarrow> None)"

text \<open>The checks of \<open>Accept\<close> before it reads anything.\<close>

definition accept_check :: "OperationPayload option \<Rightarrow> manager_error + string" where
  "accept_check payload_opt =
     (case payload_opt of
        None \<Rightarrow> Inl (errOperationRejected invalidIdentity)
      | Some payload \<Rightarrow>
          if pl_CodespaceId payload \<le> 0 \<or> pl_OperationRversion payload \<le> 0 \<or> pl_LogOffset payload < 0
          then Inl (errOperationRejected invalidIdentity)
          else case operationType (pl_Command payload) of
            None \<Rightarrow> Inl (errOperationRejected unknownOperation)
          | Some ty \<Rightarrow>
              if is_startup ty \<and> \<not> validateRuntimeSettings (command_settings (pl_Command payload))
              then Inl (errOperationRejected invalidSettings)
              else if ty \<noteq> ''create'' \<and> pl_RuntimeUuid payload = [] then Inl (errOperationRejected runtimeUUIDRequired)
              else Inr ty)"

section \<open>What Accept reads\<close>

record GiteaSite =
  gs_Name :: string
  gs_UID :: string
  gs_NamespaceUID :: string
  gs_Templates :: "(string \<times> string) list"

record NamespaceObject =
  no_UID :: string
  no_SiteUIDLabel :: string
  no_Deleting :: bool

record EnvironmentTemplate =
  tp_Name :: string
  tp_UID :: string
  tp_Deleting :: bool
  tp_Generation :: int
  tp_Conditions :: "Condition list"
  tp_Runtime :: RuntimeConfiguration

text \<open>The loop over the templates of the site; \<open>selected\<close> is the template found so far.\<close>

fun select_template ::
    "(string \<Rightarrow> manager_error + EnvironmentTemplate) \<Rightarrow> string \<Rightarrow> (string \<times> string) list \<Rightarrow> EnvironmentTemplate option
      \<Rightarrow> manager_error + EnvironmentTemplate option" where
  "select_template get tag [] selected = Inr selected"
| "select_template get tag ((name, uid) # refs) selected =
     (if name \<noteq> tag then select_template get tag refs selected
      else if selected \<noteq> None then Inl (errOperationRejected environmentAmbiguous)
      else case get name of
        Inl e \<Rightarrow> Inl e
      | Inr template \<Rightarrow>
          if tp_UID template \<noteq> uid \<or> tp_Deleting template then Inl (errOperationRejected templateIdentityChanged)
          else
            (case FindStatusCondition (tp_Conditions template) ''Ready'' of
               None \<Rightarrow> Inl environmentNotReady
             | Some ready \<Rightarrow>
                 if \<not> cd_True ready \<or> cd_ObservedGeneration ready \<noteq> tp_Generation template then Inl environmentNotReady
                 else select_template get tag refs (Some template)))"

text \<open>A new record for a create without a runtime; \<open>generated\<close> is the fresh UUID.\<close>

definition new_codespace ::
    "'raw payload_codec \<Rightarrow> string \<Rightarrow> GiteaSite \<Rightarrow> string \<Rightarrow> string \<Rightarrow> OperationPayload \<Rightarrow> EnvironmentTemplate \<Rightarrow> 'raw Codespace" where
  "new_codespace codec platformImage site namespace generated payload template =
     \<lparr> cs_Name = ''codespace-'' @ itoa (nat (pl_CodespaceId payload)), cs_Namespace = namespace, cs_UID = [], cs_Generation = 0,
       cs_Deleting = False,
       cs_Spec = \<lparr> sp_SiteName = gs_Name site, sp_SiteUID = gs_UID site, sp_CodespaceID = pl_CodespaceId payload,
                   sp_RuntimeUUID = (if pl_RuntimeUuid payload = [] then generated else pl_RuntimeUuid payload),
                   sp_EnvironmentTag = tp_Name template,
                   sp_Runtime = (tp_Runtime template)\<lparr> rc_Image := platformImage \<rparr>,
                   sp_Operation = \<lparr> op_Version = 0, op_Type = [], op_Payload = pc_Empty codec \<rparr> \<rparr>,
       cs_Status = zero_status \<rparr>"

definition accept_new ::
    "'raw payload_codec \<Rightarrow> string \<Rightarrow> GiteaSite \<Rightarrow> string \<Rightarrow> string \<Rightarrow> (string \<Rightarrow> manager_error + EnvironmentTemplate)
      \<Rightarrow> string \<Rightarrow> OperationPayload \<Rightarrow> manager_error + 'raw Codespace" where
  "accept_new codec platformImage site namespace generated get ty payload =
     (if pl_RuntimeUuid payload \<noteq> [] then Inl (errOperationRejected boundRecordMissing)
      else case pl_Command payload of
        Command_Create (Some create) \<Rightarrow>
          (case select_template get (sc_EnvironmentTag create) (gs_Templates site) None of
             Inl e \<Rightarrow> Inl e
           | Inr None \<Rightarrow> Inl (errOperationRejected environmentUnauthorized)
           | Inr (Some template) \<Rightarrow> Inr (new_codespace codec platformImage site namespace generated payload template))
      | _ \<Rightarrow> Inl (errOperationRejected recordRequired))"

definition accept_existing :: "GiteaSite \<Rightarrow> OperationPayload \<Rightarrow> 'raw Codespace \<Rightarrow> manager_error option" where
  "accept_existing site payload cs =
     (if sp_SiteUID (cs_Spec cs) \<noteq> gs_UID site \<or> sp_CodespaceID (cs_Spec cs) \<noteq> pl_CodespaceId payload \<or> cs_Deleting cs
         \<or> st_RecoveryAction (cs_Status cs) = ''delete''
      then Some (errOperationRejected ownershipConflict)
      else if pl_OperationRversion payload < op_Version (operation cs)
         \<or> (pl_RuntimeUuid payload \<noteq> [] \<and> pl_RuntimeUuid payload \<noteq> sp_RuntimeUUID (cs_Spec cs))
      then Some (errOperationRejected identityRegressed)
      else None)"

section \<open>What Accept writes\<close>

text \<open>
  The operation that replaces the saved one, when the saved one has to be replaced. An operation that
  was saved already may only turn into its own abort.
\<close>

definition accept_input :: "OperationPayload \<Rightarrow> 'raw Codespace \<Rightarrow> OperationPayload" where
  "accept_input payload cs = payload\<lparr> pl_RuntimeUuid := sp_RuntimeUUID (cs_Spec cs), pl_LeaseValidForMilliseconds := 0 \<rparr>"

definition aborts :: "string \<Rightarrow> string \<Rightarrow> bool" where
  "aborts ty saved \<longleftrightarrow> (ty = ''abort_create'' \<and> saved = ''create'') \<or> (ty = ''abort_resume'' \<and> saved = ''resume'')"

definition accept_operation ::
    "'raw payload_codec \<Rightarrow> bool \<Rightarrow> string \<Rightarrow> OperationPayload \<Rightarrow> 'raw Codespace \<Rightarrow> manager_error + 'raw Operation option" where
  "accept_operation codec isNew ty payload cs =
     (let input = accept_input payload cs
      in case pc_Marshal codec input of
           None \<Rightarrow> Inl marshalFailed
         | Some encoded \<Rightarrow>
             (let oper = \<lparr> op_Version = pl_OperationRversion input, op_Type = ty, op_Payload = encoded \<rparr>;
                  saved = operation cs;
                  changed = isNew \<or> op_Version oper \<noteq> op_Version saved \<or> op_Type oper \<noteq> op_Type saved;
                  result = (if changed then Some oper else None)
              in if \<not> isNew \<and> op_Version oper = op_Version saved then
                   (case pc_Unmarshal codec (op_Payload saved) of
                      None \<Rightarrow> Inl (errOperationRejected savedUndecodable)
                    | Some previous \<Rightarrow>
                        if \<not> aborts ty (op_Type saved) \<and> previous\<lparr> pl_LogOffset := pl_LogOffset input \<rparr> \<noteq> input
                        then Inl (errOperationRejected operationChanged) else Inr result)
                 else Inr result))"

definition set_operation :: "'raw Operation \<Rightarrow> 'raw Codespace \<Rightarrow> 'raw Codespace" where
  "set_operation oper cs = cs\<lparr> cs_Spec := (cs_Spec cs)\<lparr> sp_Operation := oper \<rparr> \<rparr>"

definition set_bound :: "'raw Codespace \<Rightarrow> 'raw Codespace" where
  "set_bound cs = cs\<lparr> cs_Status := (cs_Status cs)\<lparr> st_Bound := True \<rparr> \<rparr>"

definition set_recovery :: "string \<Rightarrow> 'raw Codespace \<Rightarrow> 'raw Codespace" where
  "set_recovery action cs = cs\<lparr> cs_Status := (cs_Status cs)\<lparr> st_RecoveryAction := action \<rparr> \<rparr>"

text \<open>The three status updates of \<open>Accept\<close>: after the binding, for a later operation, and the end of a recovery.\<close>

definition bind_mutation :: "int \<Rightarrow> string \<Rightarrow> 'raw Codespace \<Rightarrow> manager_error + 'raw Codespace" where
  "bind_mutation version runtimeUUID current =
     (if op_Type (operation current) \<noteq> ''create'' \<or> op_Version (operation current) \<noteq> version
         \<or> sp_RuntimeUUID (cs_Spec current) \<noteq> runtimeUUID \<or> cs_Deleting current
      then Inl errObservedResourceChanged else Inr (set_bound current))"

definition confirm_mutation :: "int \<Rightarrow> string \<Rightarrow> string \<Rightarrow> 'raw Codespace \<Rightarrow> manager_error + 'raw Codespace" where
  "confirm_mutation version ty runtimeUUID current =
     (if op_Version (operation current) \<noteq> version \<or> op_Type (operation current) \<noteq> ty \<or> sp_RuntimeUUID (cs_Spec current) \<noteq> runtimeUUID
      then Inl errObservedResourceChanged else Inr (set_bound current))"

definition clear_mutation :: "int \<Rightarrow> string \<Rightarrow> 'raw Codespace \<Rightarrow> manager_error + 'raw Codespace" where
  "clear_mutation version ty current =
     (if op_Version (operation current) \<noteq> version \<or> op_Type (operation current) \<noteq> ty then Inl errObservedResourceChanged
      else Inr (if st_RecoveryAction (cs_Status current) = ''stop'' then set_recovery [] current else current))"

section \<open>Proxy secrets and binding\<close>

record SecretObject =
  so_Controlled :: bool
  so_RuntimeUIDLabel :: string
  so_Deleting :: bool

datatype create_answer = Created | AlreadyExists | CreateFailed manager_error

definition ensureRuntimeProxySecret :: "create_answer \<Rightarrow> manager_error + SecretObject \<Rightarrow> 'raw Codespace \<Rightarrow> manager_error option" where
  "ensureRuntimeProxySecret create existing cs =
     (case create of
        Created \<Rightarrow> None
      | CreateFailed e \<Rightarrow> Some e
      | AlreadyExists \<Rightarrow>
          (case existing of
             Inl e \<Rightarrow> Some e
           | Inr secret \<Rightarrow>
               if \<not> so_Controlled secret \<or> so_RuntimeUIDLabel secret \<noteq> cs_UID cs \<or> so_Deleting secret
               then Some (errOperationRejected proxySecretOwnershipChanged) else None))"

text \<open>\<open>bind\<close>: \<open>reply\<close> is the runtime UUID that Gitea has bound.\<close>

definition bind ::
    "'raw manager_libs \<Rightarrow> connect_code + string \<Rightarrow> 'raw Codespace attempt list \<Rightarrow> 'raw Codespace \<Rightarrow> manager_error + 'raw Codespace" where
  "bind libs reply attempts cs =
     (if op_Type (operation cs) \<noteq> ''create'' \<or> cs_Deleting cs then Inl (errOperationRejected unboundWithoutCreate)
      else case reply of
        Inl code \<Rightarrow> Inl (RemoteError code)
      | Inr bound \<Rightarrow>
          if bound \<noteq> sp_RuntimeUUID (cs_Spec cs) then Inl (errOperationRejected bindingConflict)
          else updateCodespaceStatus libs cs (bind_mutation (op_Version (operation cs)) (sp_RuntimeUUID (cs_Spec cs))) attempts)"

section \<open>Accept\<close>

record 'raw accept_env =
  en_Namespace :: "manager_error + NamespaceObject"
  en_Get :: "manager_error + 'raw Codespace option"
  en_Template :: "string \<Rightarrow> manager_error + EnvironmentTemplate"
  en_UUID :: string
  en_Write :: "'raw Codespace \<Rightarrow> manager_error + 'raw Codespace"
  en_SecretCreate :: create_answer
  en_SecretGet :: "manager_error + SecretObject"
  en_Bind :: "connect_code + string"
  en_BoundAttempts :: "'raw Codespace attempt list"
  en_ClearAttempts :: "'raw Codespace attempt list"
  en_Now :: time

record manager_world =
  mw_Authority :: ExecutionAuthority
  mw_Activity :: "RuntimeActivityTracker option"
  mw_Samples :: "(string, resourceSample) fmap"

definition revoke_in :: "string \<Rightarrow> manager_world \<Rightarrow> manager_world" where
  "revoke_in uid w = w\<lparr> mw_Authority := Revoke uid (mw_Authority w) \<rparr>"

definition accept_load ::
    "'raw payload_codec \<Rightarrow> string \<Rightarrow> string \<Rightarrow> GiteaSite \<Rightarrow> OperationPayload \<Rightarrow> string \<Rightarrow> 'raw accept_env
      \<Rightarrow> manager_error + bool \<times> 'raw Codespace" where
  "accept_load codec managementNamespace platformImage site payload ty env =
     (case SiteNamespace (gs_Name site) managementNamespace of
        Inl e \<Rightarrow> Inl e
      | Inr namespace \<Rightarrow>
          (case en_Namespace env of
             Inl e \<Rightarrow> Inl e
           | Inr ns \<Rightarrow>
               if no_UID ns \<noteq> gs_NamespaceUID site \<or> no_SiteUIDLabel ns \<noteq> gs_UID site \<or> no_Deleting ns
               then Inl (errOperationRejected namespaceOwnershipChanged)
               else case en_Get env of
                 Inl e \<Rightarrow> Inl e
               | Inr None \<Rightarrow>
                   map_sum id (Pair True) (accept_new codec platformImage site namespace (en_UUID env) (en_Template env) ty payload)
               | Inr (Some cs) \<Rightarrow>
                   (case accept_existing site payload cs of Some e \<Rightarrow> Inl e | None \<Rightarrow> Inr (False, cs))))"

text \<open>The binding, unless the runtime is bound.\<close>

definition accept_bind ::
    "'raw manager_libs \<Rightarrow> OperationPayload \<Rightarrow> string \<Rightarrow> 'raw accept_env \<Rightarrow> 'raw Codespace \<Rightarrow> manager_error + 'raw Codespace" where
  "accept_bind libs payload ty env cs =
     (if st_Bound (cs_Status cs) then Inr cs
      else if ty = ''create'' then bind libs (en_Bind env) (en_BoundAttempts env) cs
      else if pl_RuntimeUuid payload \<noteq> sp_RuntimeUUID (cs_Spec cs) then Inl identityUnconfirmed
      else updateCodespaceStatus libs cs (confirm_mutation (op_Version (operation cs)) ty (pl_RuntimeUuid payload)) (en_BoundAttempts env))"

definition accept_clear ::
    "'raw manager_libs \<Rightarrow> bool \<Rightarrow> string \<Rightarrow> 'raw accept_env \<Rightarrow> 'raw Codespace \<Rightarrow> manager_error + 'raw Codespace" where
  "accept_clear libs newVersion ty env cs =
     (if st_RecoveryAction (cs_Status cs) = ''stop'' \<and> newVersion
      then updateCodespaceStatus libs cs (clear_mutation (op_Version (operation cs)) ty) (en_ClearAttempts env)
      else Inr cs)"

text \<open>The grant at the end; it is measured from the time the request was sent.\<close>

definition accept_grant :: "OperationPayload \<Rightarrow> string \<Rightarrow> time \<Rightarrow> 'raw Codespace \<Rightarrow> manager_world \<Rightarrow> manager_world" where
  "accept_grant payload ty sent cs w =
     (if ty = ''abort_create'' \<or> ty = ''abort_resume'' \<or> st_RecoveryAction (cs_Status cs) \<noteq> [] then revoke_in (cs_UID cs) w
      else if pl_LeaseValidForMilliseconds payload > 0 \<and> pl_LeaseValidForMilliseconds payload \<le> 24 * 3600 * 1000
         \<and> st_SettledOperationVersion (cs_Status cs) < op_Version (operation cs)
      then w\<lparr> mw_Authority := Grant (cs_UID cs) (op_Version (operation cs))
               (sent + pl_LeaseValidForMilliseconds payload * millisecond) (mw_Authority w) \<rparr>
      else w)"

definition accept_observe :: "GiteaSite \<Rightarrow> OperationPayload \<Rightarrow> time \<Rightarrow> 'raw Codespace \<Rightarrow> manager_world \<Rightarrow> manager_error option \<times> manager_world" where
  "accept_observe site payload now cs w =
     (case (mw_Activity w, command_settings (pl_Command payload)) of
        (Some tracker, Some settings) \<Rightarrow>
          (case ObserveSettings (gs_UID site) (sp_RuntimeUUID (cs_Spec cs)) (Some settings) now tracker of
             (err, tracker') \<Rightarrow> (map_option (\<lambda>_. settingsRefused) err, w\<lparr> mw_Activity := Some tracker' \<rparr>))
      | _ \<Rightarrow> (None, w))"

definition accept_finish ::
    "'raw manager_libs \<Rightarrow> GiteaSite \<Rightarrow> OperationPayload \<Rightarrow> string \<Rightarrow> bool \<Rightarrow> time \<Rightarrow> 'raw accept_env \<Rightarrow> 'raw Codespace \<Rightarrow> manager_world
      \<Rightarrow> manager_error option \<times> manager_world" where
  "accept_finish libs site payload ty newVersion sent env cs w =
     (case (if ty = ''create'' \<and> rc_Proxy (sp_Runtime (cs_Spec cs)) then ensureRuntimeProxySecret (en_SecretCreate env) (en_SecretGet env) cs else None) of
        Some e \<Rightarrow> (Some e, w)
      | None \<Rightarrow>
          (case accept_bind libs payload ty env cs of
             Inl e \<Rightarrow> (Some e, w)
           | Inr cs \<Rightarrow>
               (case accept_clear libs newVersion ty env cs of
                  Inl e \<Rightarrow> (Some e, w)
                | Inr cs \<Rightarrow> accept_observe site payload (en_Now env) cs (accept_grant payload ty sent cs w))))"

definition Operations_Accept ::
    "'raw manager_libs \<Rightarrow> 'raw payload_codec \<Rightarrow> string \<Rightarrow> string \<Rightarrow> GiteaSite \<Rightarrow> OperationPayload option \<Rightarrow> time \<Rightarrow> 'raw accept_env
      \<Rightarrow> manager_world \<Rightarrow> manager_error option \<times> manager_world" where
  "Operations_Accept libs codec managementNamespace platformImage site payload_opt sent env w =
     (case accept_check payload_opt of
        Inl e \<Rightarrow> (Some e, w)
      | Inr ty \<Rightarrow>
          (let payload = the payload_opt
           in case accept_load codec managementNamespace platformImage site payload ty env of
                Inl e \<Rightarrow> (Some e, w)
              | Inr (isNew, cs) \<Rightarrow>
                  (case accept_operation codec isNew ty payload cs of
                     Inl e \<Rightarrow> (Some e, w)
                   | Inr changed \<Rightarrow>
                       (let newVersion = (pl_OperationRversion payload > op_Version (operation cs))
                        in case changed of
                             None \<Rightarrow> accept_finish libs site payload ty newVersion sent env cs w
                           | Some oper \<Rightarrow>
                               (let w = revoke_in (cs_UID cs) w; cs = set_operation oper cs
                                in case codespace_Validate libs managementNamespace cs of
                                     Some e \<Rightarrow> (Some (errOperationRejected invalidOperation), w)
                                   | None \<Rightarrow>
                                       (case en_Write env cs of
                                          Inl e \<Rightarrow> (Some e, w)
                                        | Inr cs \<Rightarrow> accept_finish libs site payload ty newVersion sent env cs w))))))"

end
