(* ===== verification/Operation_Outcome.thy ===== *)
theory Operation_Outcome
  imports Operations
begin

text \<open>
  How the Manager reports an operation to Gitea: the ready metadata, the result and the
  acknowledgement (\<open>Flush\<close>), and the refusal of an operation (\<open>finalizeRejectedOperation\<close>), in
  \<open>internal/cluster/operations.go\<close>, with \<open>isPermanentOperationError\<close> of
  \<open>internal/cluster/coordinator.go\<close>.
\<close>

section \<open>Publishing metadata\<close>

definition flush_skip :: "'raw Codespace \<Rightarrow> bool" where
  "flush_skip cs \<longleftrightarrow> \<not> st_Bound (cs_Status cs) \<or> cs_Deleting cs \<or> st_RecoveryAction (cs_Status cs) \<noteq> []"

definition current_result :: "'raw Codespace \<Rightarrow> OperationResult option" where
  "current_result cs =
     (case st_Result (cs_Status cs) of
        None \<Rightarrow> None
      | Some r \<Rightarrow> if or_Version r = op_Version (operation cs) then Some r else None)"

text \<open>The metadata request of \<open>Flush\<close> for a resource that it does not skip: its generation and content, with
  the sample that is current at \<open>now\<close>, in Unix seconds.\<close>

definition flush_metadata ::
    "int \<Rightarrow> (string, resourceSample) fmap \<Rightarrow> 'raw Codespace \<Rightarrow> manager_error + (int \<times> RuntimeMetadata) option" where
  "flush_metadata now samples cs =
     (let status = cs_Status cs; oper = operation cs; startup = is_startup (op_Type oper)
      in if startup \<and> st_SettledOperationVersion status < op_Version oper
            \<and> (case current_result cs of None \<Rightarrow> False | Some r \<Rightarrow> or_Succeeded r)
            \<and> ((case st_Target status of None \<Rightarrow> True | Some t \<Rightarrow> \<not> tg_Ready t) \<or> st_Boot status = None)
         then Inl readyTargetMissing
         else case st_Boot status of
           None \<Rightarrow> Inr None
         | Some boot \<Rightarrow>
             if startup \<and> (case current_result cs of None \<Rightarrow> True | Some r \<Rightarrow> or_Succeeded r)
                \<and> bt_OperationVersion boot = op_Version oper
             then
               (if st_MetadataGeneration status \<le> 0 then Inl generationMissing
                else case runtimeMetadata cs of
                  Inl e \<Rightarrow> Inl e
                | Inr metadata \<Rightarrow> Inr (Some (st_MetadataGeneration status, metadata\<lparr> md_ResourceUsage := fst (sample_Load cs now samples) \<rparr>)))
             else Inr None)"

section \<open>The result\<close>

definition has_prefix :: "string \<Rightarrow> string \<Rightarrow> bool" where
  "has_prefix p s \<longleftrightarrow> take (length p) s = p"

definition failed_startup :: "'raw Codespace \<Rightarrow> bool" where
  "failed_startup cs \<longleftrightarrow> is_startup (op_Type (operation cs)) \<and> (case current_result cs of None \<Rightarrow> False | Some r \<Rightarrow> \<not> or_Succeeded r)"

definition stopped_observed :: "'raw Codespace \<Rightarrow> bool" where
  "stopped_observed cs \<longleftrightarrow>
     (case FindStatusCondition (st_Conditions (cs_Status cs)) ''Stopped'' of
        None \<Rightarrow> False
      | Some c \<Rightarrow> cd_True c \<and> cd_ObservedGeneration c = cs_Generation cs \<and> st_PodName (cs_Status cs) = [])"

text \<open>An abort overrules a result that says the operation succeeded.\<close>

definition result_missing :: "int \<Rightarrow> string \<Rightarrow> OperationResult option \<Rightarrow> bool" where
  "result_missing version ty result \<longleftrightarrow>
     (case result of None \<Rightarrow> True | Some r \<Rightarrow> or_Version r \<noteq> version \<or> (has_prefix ''abort_'' ty \<and> or_Succeeded r))"

definition stopped_result :: "int \<Rightarrow> string \<Rightarrow> OperationResult" where
  "stopped_result version ty = \<lparr> or_Version = version, or_Succeeded = (ty = ''stop'' \<or> ty = ''delete''), or_Message = [] \<rparr>"

definition result_mutation :: "int \<Rightarrow> string \<Rightarrow> 'raw Codespace \<Rightarrow> manager_error + 'raw Codespace" where
  "result_mutation version ty current =
     (if op_Version (operation current) \<noteq> version \<or> op_Type (operation current) \<noteq> ty then Inl errObservedResourceChanged
      else Inr (if result_missing version ty (st_Result (cs_Status current))
                then current\<lparr> cs_Status := (cs_Status current)\<lparr> st_Result := Some (stopped_result version ty) \<rparr> \<rparr>
                else current))"

datatype 'raw result_step = ResultWait | ResultReady "'raw Codespace" | ResultFailed manager_error

text \<open>The result of an operation that has stopped the runtime, persisted before it is sent.\<close>

definition flush_result :: "'raw manager_libs \<Rightarrow> 'raw Codespace attempt list \<Rightarrow> 'raw Codespace \<Rightarrow> 'raw result_step" where
  "flush_result libs attempts cs =
     (let oper = operation cs
      in if is_startup (op_Type oper) \<and> \<not> failed_startup cs then ResultReady cs
         else if \<not> stopped_observed cs then ResultWait
         else if result_missing (op_Version oper) (op_Type oper) (st_Result (cs_Status cs)) then
           (case updateCodespaceStatus libs cs (result_mutation (op_Version oper) (op_Type oper)) attempts of
              Inl e \<Rightarrow> ResultFailed e
            | Inr cs' \<Rightarrow> ResultReady cs')
         else ResultReady cs)"

section \<open>The final report\<close>

datatype FinalType = FINAL_CREATE | FINAL_RESUME | FINAL_STOP | FINAL_DELETE

record FinalizeOperationRequest =
  fr_CodespaceId :: int
  fr_RuntimeUuid :: string
  fr_OperationRversion :: int
  fr_OperationType :: FinalType
  fr_Done :: bool

definition final_type :: "string \<Rightarrow> FinalType option" where
  "final_type ty =
     (if ty = ''create'' \<or> ty = ''abort_create'' then Some FINAL_CREATE
      else if ty = ''resume'' \<or> ty = ''abort_resume'' then Some FINAL_RESUME
      else if ty = ''stop'' then Some FINAL_STOP
      else if ty = ''delete'' then Some FINAL_DELETE
      else None)"

definition flush_final :: "'raw Codespace \<Rightarrow> manager_error + (OperationResult \<times> FinalizeOperationRequest) option" where
  "flush_final cs =
     (case current_result cs of
        None \<Rightarrow> Inr None
      | Some result \<Rightarrow>
          if st_SettledOperationVersion (cs_Status cs) \<ge> or_Version result then Inr None
          else case final_type (op_Type (operation cs)) of
            None \<Rightarrow> Inl savedTypeInvalid
          | Some ty \<Rightarrow>
              Inr (Some (result, \<lparr> fr_CodespaceId = sp_CodespaceID (cs_Spec cs), fr_RuntimeUuid = sp_RuntimeUUID (cs_Spec cs),
                 fr_OperationRversion = or_Version result, fr_OperationType = ty, fr_Done = or_Succeeded result \<rparr>)))"

definition settle_mutation :: "OperationResult \<Rightarrow> string \<Rightarrow> bool \<Rightarrow> 'raw Codespace \<Rightarrow> manager_error + 'raw Codespace" where
  "settle_mutation result ty resourceAbsent current =
     (if op_Version (operation current) \<noteq> or_Version result \<or> op_Type (operation current) \<noteq> ty \<or> st_Result (cs_Status current) \<noteq> Some result
      then Inl errObservedResourceChanged
      else
        (let settled = (cs_Status current)\<lparr> st_SettledOperationVersion := or_Version result \<rparr>
         in Inr (current\<lparr> cs_Status :=
              (if resourceAbsent then settled\<lparr> st_RecoveryAction := ''stop'', st_Target := None, st_Boot := None \<rparr>
               else if ty = ''delete'' \<or> (\<not> or_Succeeded result \<and> (ty = ''create'' \<or> ty = ''abort_create''))
               then settled\<lparr> st_RecoveryAction := ''delete'' \<rparr>
               else if \<not> or_Succeeded result then settled\<lparr> st_RecoveryAction := ''stop'' \<rparr>
               else settled) \<rparr>)))"

text \<open>
  \<open>Flush\<close>; \<open>fe_Metadata\<close> and \<open>fe_Final\<close> are the answers of Gitea, \<open>fe_Now\<close> is the time in Unix seconds.
\<close>

record 'raw flush_env =
  fe_Metadata :: "connect_code option"
  fe_ResultAttempts :: "'raw Codespace attempt list"
  fe_Final :: "connect_code + bool"
  fe_SettleAttempts :: "'raw Codespace attempt list"
  fe_Now :: int

definition flush_settle ::
    "'raw manager_libs \<Rightarrow> 'raw flush_env \<Rightarrow> 'raw Codespace \<Rightarrow> manager_world \<Rightarrow> manager_error option \<times> manager_world" where
  "flush_settle libs env cs w =
     (case flush_final cs of
        Inl e \<Rightarrow> (Some e, w)
      | Inr None \<Rightarrow> (None, w)
      | Inr (Some (result, request)) \<Rightarrow>
          (case fe_Final env of
             Inl code \<Rightarrow> (Some (RemoteError code), w)
           | Inr resourceAbsent \<Rightarrow>
               (case updateCodespaceStatus libs cs (settle_mutation result (op_Type (operation cs)) resourceAbsent) (fe_SettleAttempts env) of
                  Inl e \<Rightarrow> (Some e, w)
                | Inr cs' \<Rightarrow> (None, revoke_in (cs_UID cs') w))))"

definition Operations_Flush ::
    "'raw manager_libs \<Rightarrow> 'raw flush_env \<Rightarrow> 'raw Codespace \<Rightarrow> manager_world \<Rightarrow> manager_error option \<times> manager_world" where
  "Operations_Flush libs env cs w =
     (if flush_skip cs then (None, w)
      else case flush_metadata (fe_Now env) (mw_Samples w) cs of
        Inl e \<Rightarrow> (Some e, w)
      | Inr metadata \<Rightarrow>
          (let w = (if metadata = None then w else w\<lparr> mw_Samples := snd (sample_Load cs (fe_Now env) (mw_Samples w)) \<rparr>)
           in case (metadata, fe_Metadata env) of
             (Some _, Some code) \<Rightarrow> (Some (RemoteError code), w)
           | _ \<Rightarrow>
               (case flush_result libs (fe_ResultAttempts env) cs of
                  ResultWait \<Rightarrow> (None, w)
                | ResultFailed e \<Rightarrow> (Some e, w)
                | ResultReady cs' \<Rightarrow> flush_settle libs env cs' w)))"

section \<open>Refused operations\<close>

definition isPermanentOperationError :: "manager_error \<Rightarrow> bool" where
  "isPermanentOperationError e =
     (case e of
        errOperationRejected _ \<Rightarrow> True
      | RemoteError code \<Rightarrow> code \<in> {InvalidArgument, NotFound, FailedPrecondition}
      | ReportError code _ \<Rightarrow> code \<in> {InvalidArgument, NotFound, FailedPrecondition}
      | _ \<Rightarrow> False)"

definition rejected_mutation :: "GiteaSite \<Rightarrow> OperationPayload \<Rightarrow> bool \<Rightarrow> int \<Rightarrow> string \<Rightarrow> 'raw Codespace \<Rightarrow> manager_error + 'raw Codespace" where
  "rejected_mutation site payload resume version localRuntimeUUID current =
     (if sp_SiteUID (cs_Spec current) \<noteq> gs_UID site \<or> sp_CodespaceID (cs_Spec current) \<noteq> pl_CodespaceId payload
         \<or> op_Version (operation current) \<noteq> version \<or> sp_RuntimeUUID (cs_Spec current) \<noteq> localRuntimeUUID
      then Inl errObservedResourceChanged
      else
        (let unbound = (resume \<and> \<not> st_Bound (cs_Status current));
             confirmed = (pl_RuntimeUuid payload = sp_RuntimeUUID (cs_Spec current));
             action = (if \<not> resume \<or> (unbound \<and> \<not> confirmed) then ''delete'' else ''stop'')
         in Inr (current\<lparr> cs_Status := (cs_Status current)\<lparr> st_Bound := (st_Bound (cs_Status current) \<or> (unbound \<and> confirmed)),
              st_SettledOperationVersion := version, st_RecoveryAction := action \<rparr> \<rparr>)))"

definition rejected_runtime :: "OperationPayload \<Rightarrow> bool \<Rightarrow> 'raw Codespace option \<Rightarrow> string" where
  "rejected_runtime payload resume local =
     (let bound = (case local of None \<Rightarrow> False | Some cs \<Rightarrow> st_Bound (cs_Status cs))
      in if \<not> resume \<and> \<not> bound then []
         else if pl_RuntimeUuid payload = [] \<and> bound then sp_RuntimeUUID (cs_Spec (the local))
         else pl_RuntimeUuid payload)"

definition rejected_request :: "OperationPayload \<Rightarrow> bool \<Rightarrow> 'raw Codespace option \<Rightarrow> FinalizeOperationRequest" where
  "rejected_request payload resume local =
     \<lparr> fr_CodespaceId = pl_CodespaceId payload, fr_RuntimeUuid = rejected_runtime payload resume local,
       fr_OperationRversion = pl_OperationRversion payload, fr_OperationType = (if resume then FINAL_RESUME else FINAL_CREATE), fr_Done = False \<rparr>"

text \<open>The second component is the request that Gitea received.\<close>

definition finalizeRejectedOperation ::
    "'raw manager_libs \<Rightarrow> string \<Rightarrow> GiteaSite \<Rightarrow> OperationPayload option \<Rightarrow> manager_error + 'raw Codespace option \<Rightarrow> connect_code option
      \<Rightarrow> 'raw Codespace attempt list \<Rightarrow> manager_world \<Rightarrow> manager_error option \<times> FinalizeOperationRequest option \<times> manager_world" where
  "finalizeRejectedOperation libs managementNamespace site payload_opt get remote attempts w =
     (case payload_opt of
        None \<Rightarrow> (None, None, w)
      | Some payload \<Rightarrow>
          if pl_CodespaceId payload \<le> 0 \<or> pl_OperationRversion payload \<le> 0 then (None, None, w)
          else
            (let resume = (case pl_Command payload of Command_Resume _ \<Rightarrow> True | _ \<Rightarrow> False);
                 create = (case pl_Command payload of Command_Create _ \<Rightarrow> True | _ \<Rightarrow> False)
             in if \<not> resume \<and> \<not> create then (None, None, w)
                else case SiteNamespace (gs_Name site) managementNamespace of
                  Inl e \<Rightarrow> (Some e, None, w)
                | Inr namespace \<Rightarrow>
                    (case get of
                       Inl e \<Rightarrow> (Some e, None, w)
                     | Inr local \<Rightarrow>
                         (let w = (case local of None \<Rightarrow> w | Some cs \<Rightarrow> revoke_in (cs_UID cs) w);
                              request = Some (rejected_request payload resume local)
                          in case (remote, local) of
                               (Some code, _) \<Rightarrow> (Some (RemoteError code), request, w)
                             | (None, None) \<Rightarrow> (None, request, w)
                             | (None, Some cs) \<Rightarrow>
                                 if op_Version (operation cs) \<noteq> pl_OperationRversion payload then (None, request, w)
                                 else
                                   (case updateCodespaceStatus libs cs
                                          (rejected_mutation site payload resume (op_Version (operation cs)) (sp_RuntimeUUID (cs_Spec cs))) attempts of
                                      Inl e \<Rightarrow> (Some e, request, w)
                                    | Inr _ \<Rightarrow> (None, request, w))))))"

end
