(* ===== verification/Codespace_Updates.thy ===== *)
theory Codespace_Updates
  imports Operation_Outcome
begin

text \<open>
  The status updates of the other actors of the Manager: the runtime controller
  (\<open>internal/cluster/runtime.go\<close>), the inventory and the bindings of the site coordinator
  (\<open>internal/cluster/coordinator.go\<close>), the administrator (\<open>internal/cluster/admin_runtime.go\<close>) and
  the volume preparation of the Agent (\<open>PrepareVolume\<close> in \<open>internal/cluster/agent_control.go\<close>). Each is
  the function that an optimistic update applies to the current object, with the values that its
  caller had observed as arguments.
\<close>

section \<open>Runtime controller\<close>

definition runtimePodStatusIsCurrent :: "'raw Codespace \<Rightarrow> int \<Rightarrow> string \<Rightarrow> string \<Rightarrow> string \<Rightarrow> bool" where
  "runtimePodStatusIsCurrent cs version ty podName podUID \<longleftrightarrow>
     op_Version (operation cs) = version \<and> op_Type (operation cs) = ty \<and> st_PodName (cs_Status cs) = podName
     \<and> (st_PodUID (cs_Status cs) = [] \<or> st_PodUID (cs_Status cs) = podUID)"

definition runtimeStopRequested :: "'raw Codespace \<Rightarrow> bool" where
  "runtimeStopRequested cs \<longleftrightarrow>
     st_RecoveryAction (cs_Status cs) = ''stop'' \<or> op_Type (operation cs) \<in> {''stop'', ''abort_create'', ''abort_resume''}
     \<or> (case current_result cs of None \<Rightarrow> False | Some r \<Rightarrow> \<not> or_Succeeded r)"

definition failed_result :: "int \<Rightarrow> string \<Rightarrow> OperationResult" where
  "failed_result version message = \<lparr> or_Version = version, or_Succeeded = False, or_Message = message \<rparr>"

text \<open>An operation that is not settled fails; otherwise the runtime has to be stopped.\<close>

definition fail_or_stop :: "int \<Rightarrow> string \<Rightarrow> CodespaceStatus \<Rightarrow> CodespaceStatus" where
  "fail_or_stop version message status =
     (if st_SettledOperationVersion status < version then status\<lparr> st_Result := Some (failed_result version message) \<rparr>
      else status\<lparr> st_RecoveryAction := ''stop'' \<rparr>)"

definition pod_name_mutation :: "int \<Rightarrow> string \<Rightarrow> string \<Rightarrow> 'raw Codespace \<Rightarrow> manager_error + 'raw Codespace" where
  "pod_name_mutation version ty podName current =
     (if op_Version (operation current) \<noteq> version \<or> op_Type (operation current) \<noteq> ty then Inl errObservedResourceChanged
      else if st_PodName (cs_Status current) \<noteq> [] then Inr current
      else Inr (current\<lparr> cs_Status := (cs_Status current)\<lparr> st_Conditions := RemoveStatusCondition ''Stopped'' (st_Conditions (cs_Status current)),
             st_PodName := podName \<rparr> \<rparr>))"

definition pod_gone_mutation :: "int \<Rightarrow> string \<Rightarrow> string \<Rightarrow> 'raw Codespace \<Rightarrow> manager_error + 'raw Codespace" where
  "pod_gone_mutation version ty stoppedPodUID current =
     (if op_Version (operation current) \<noteq> version \<or> op_Type (operation current) \<noteq> ty \<or> st_PodUID (cs_Status current) \<noteq> stoppedPodUID
      then Inl errObservedResourceChanged
      else Inr (current\<lparr> cs_Status := fail_or_stop version ''runtime Pod disappeared before operation completion''
             ((cs_Status current)\<lparr> st_Target := None, st_Boot := None, st_StoppedPodUID := stoppedPodUID \<rparr>) \<rparr>))"

definition pod_exited_mutation :: "int \<Rightarrow> string \<Rightarrow> string \<Rightarrow> string \<Rightarrow> string \<Rightarrow> 'raw Codespace \<Rightarrow> manager_error + 'raw Codespace" where
  "pod_exited_mutation version ty podName podUID nodeName current =
     (if \<not> runtimePodStatusIsCurrent current version ty podName podUID then Inl errObservedResourceChanged
      else Inr (current\<lparr> cs_Status := fail_or_stop version ''runtime Pod exited before operation confirmation''
             ((cs_Status current)\<lparr> st_PodUID := podUID, st_LastNodeName := nodeName, st_Target := None, st_Boot := None \<rparr>) \<rparr>))"

definition pod_observed_mutation :: "int \<Rightarrow> string \<Rightarrow> string \<Rightarrow> string \<Rightarrow> string \<Rightarrow> 'raw Codespace \<Rightarrow> manager_error + 'raw Codespace" where
  "pod_observed_mutation version ty podName podUID nodeName current =
     (if \<not> runtimePodStatusIsCurrent current version ty podName podUID then Inl errObservedResourceChanged
      else Inr (current\<lparr> cs_Status := (cs_Status current)\<lparr> st_PodUID := podUID, st_LastNodeName := nodeName \<rparr> \<rparr>))"

text \<open>
  The condition of \<open>condition\<close>: \<open>problem\<close> is the message of the error, if there was one, and whether
  the API server forbade the request or found it invalid. At most 1024 runes of it are kept.
\<close>

fun take_runes :: "nat \<Rightarrow> string \<Rightarrow> string" where
  "take_runes 0 s = []"
| "take_runes (Suc n) s = (if s = [] then [] else take (max 1 (rune_width s)) s @ take_runes n (drop (max 1 (rune_width s)) s))"

definition infrastructure_condition :: "int \<Rightarrow> string \<Rightarrow> (string \<times> bool) option \<Rightarrow> Condition" where
  "infrastructure_condition generation reason problem =
     \<lparr> cd_Type = ''InfrastructureReady'', cd_True = (problem = None), cd_Reason = reason,
       cd_Message = (case problem of None \<Rightarrow> ''Runtime resources are prepared; Agent readiness is verified separately'' | Some (m, _) \<Rightarrow> m),
       cd_ObservedGeneration = generation \<rparr>"

definition condition_mutation :: "int \<Rightarrow> int \<Rightarrow> string \<Rightarrow> string \<Rightarrow> (string \<times> bool) option \<Rightarrow> 'raw Codespace \<Rightarrow> manager_error + 'raw Codespace" where
  "condition_mutation generation version ty reason problem current =
     (if cs_Generation current \<noteq> generation \<or> op_Version (operation current) \<noteq> version \<or> op_Type (operation current) \<noteq> ty
      then Inl errObservedResourceChanged
      else
        (let status = cs_Status current;
             preparation = (reason = ''VolumeUnavailable'' \<or> reason = ''PodUnavailable'' \<or> reason = ''IdentityUnavailable'');
             pending = (st_SettledOperationVersion status < version \<and> current_result current = None);
             result = (case problem of
                         Some (message, True) \<Rightarrow> if preparation \<and> pending then Some (failed_result version (take_runes 1024 message)) else st_Result status
                       | _ \<Rightarrow> st_Result status)
         in Inr (current\<lparr> cs_Status := status\<lparr> st_Result := result,
              st_Conditions := SetStatusCondition (infrastructure_condition generation reason problem) (st_Conditions status) \<rparr> \<rparr>)))"

definition volume_mutation :: "int \<Rightarrow> string \<Rightarrow> string \<Rightarrow> string \<Rightarrow> 'raw Codespace \<Rightarrow> manager_error + 'raw Codespace" where
  "volume_mutation version ty volumeName volumeUID current =
     (if op_Version (operation current) \<noteq> version \<or> op_Type (operation current) \<noteq> ty
         \<or> (st_VolumeUID (cs_Status current) \<noteq> [] \<and> st_VolumeUID (cs_Status current) \<noteq> volumeUID)
      then Inl errObservedResourceChanged
      else Inr (current\<lparr> cs_Status := (cs_Status current)\<lparr> st_VolumeName := volumeName, st_VolumeUID := volumeUID \<rparr> \<rparr>))"

definition stopped_pod_mutation :: "string \<Rightarrow> 'raw Codespace \<Rightarrow> manager_error + 'raw Codespace" where
  "stopped_pod_mutation podUID current =
     (if st_PodUID (cs_Status current) \<noteq> [] \<and> st_PodUID (cs_Status current) \<noteq> podUID then Inl errObservedResourceChanged
      else Inr (current\<lparr> cs_Status := (cs_Status current)\<lparr> st_StoppedPodUID := podUID \<rparr> \<rparr>))"

definition stopped_mutation :: "int \<Rightarrow> int \<Rightarrow> string \<Rightarrow> string \<Rightarrow> 'raw Codespace \<Rightarrow> manager_error + 'raw Codespace" where
  "stopped_mutation generation version ty stoppedPodUID current =
     (if cs_Generation current \<noteq> generation \<or> op_Version (operation current) \<noteq> version \<or> op_Type (operation current) \<noteq> ty
         \<or> (stoppedPodUID \<noteq> [] \<and> st_PodUID (cs_Status current) \<noteq> stoppedPodUID)
      then Inl errObservedResourceChanged
      else
        (let status = cs_Status current;
             conditions = SetStatusCondition \<lparr> cd_Type = ''Stopped'', cd_True = True, cd_Reason = ''ResourcesStopped'',
                cd_Message = ''Runtime Pod has stopped'', cd_ObservedGeneration = generation \<rparr>
                (RemoveStatusCondition ''InfrastructureReady'' (st_Conditions status))
         in Inr (current\<lparr> cs_Status := status\<lparr>
              st_StoppedPodUID := (if stoppedPodUID \<noteq> [] then stoppedPodUID else st_StoppedPodUID status),
              st_Target := None, st_Boot := None, st_PodName := [], st_PodUID := [], st_LastNodeName := [],
              st_Conditions := conditions,
              st_Result := (if (ty = ''stop'' \<or> ty = ''delete'') \<and> current_result current = None
                            then Some \<lparr> or_Version = version, or_Succeeded = True, or_Message = [] \<rparr> else st_Result status) \<rparr> \<rparr>)))"

section \<open>Coordinator\<close>

text \<open>A runtime that Gitea refuses to bind is cleaned up.\<close>

definition unbound_mutation :: "int \<Rightarrow> string \<Rightarrow> 'raw Codespace \<Rightarrow> manager_error + 'raw Codespace" where
  "unbound_mutation version runtimeUUID current =
     (if st_Bound (cs_Status current) \<or> op_Version (operation current) \<noteq> version \<or> sp_RuntimeUUID (cs_Spec current) \<noteq> runtimeUUID
      then Inl errObservedResourceChanged else Inr (set_recovery ''delete'' current))"

datatype ReconcileAction = ACTION_UNSPECIFIED | ACTION_REFETCH | ACTION_CLEANUP | ACTION_STOP | ACTION_CLEAR | ACTION_OTHER

definition inventory_mutation :: "int \<Rightarrow> string \<Rightarrow> string \<Rightarrow> ReconcileAction \<Rightarrow> 'raw Codespace \<Rightarrow> manager_error + 'raw Codespace" where
  "inventory_mutation version ty runtimeUUID action current =
     (if op_Version (operation current) \<noteq> version \<or> op_Type (operation current) \<noteq> ty \<or> sp_RuntimeUUID (cs_Spec current) \<noteq> runtimeUUID
      then Inl errObservedResourceChanged
      else case action of
        ACTION_UNSPECIFIED \<Rightarrow> Inr current
      | ACTION_REFETCH \<Rightarrow> Inr current
      | ACTION_CLEANUP \<Rightarrow> Inr (set_recovery ''delete'' current)
      | ACTION_STOP \<Rightarrow> Inr (set_recovery ''stop'' current)
      | ACTION_CLEAR \<Rightarrow> Inr (current\<lparr> cs_Status := (cs_Status current)\<lparr> st_SettledOperationVersion := op_Version (operation current) \<rparr> \<rparr>)
      | ACTION_OTHER \<Rightarrow> Inl inventoryActionUnsupported)"

section \<open>Administrator\<close>

definition admin_delete_mutation :: "int \<Rightarrow> string \<Rightarrow> 'raw Codespace \<Rightarrow> manager_error + 'raw Codespace" where
  "admin_delete_mutation version podUID current =
     (if op_Version (operation current) \<noteq> version \<or> st_PodUID (cs_Status current) \<noteq> podUID then Inl errObservedResourceChanged
      else Inr (current\<lparr> cs_Status := (cs_Status current)\<lparr> st_RecoveryAction := ''delete'', st_Target := None \<rparr> \<rparr>))"

definition admin_stop_mutation :: "int \<Rightarrow> string \<Rightarrow> string \<Rightarrow> 'raw Codespace \<Rightarrow> manager_error + 'raw Codespace" where
  "admin_stop_mutation version ty podUID current =
     (if op_Version (operation current) \<noteq> version \<or> op_Type (operation current) \<noteq> ty \<or> st_PodUID (cs_Status current) \<noteq> podUID \<or> cs_Deleting current
      then Inl errObservedResourceChanged
      else if st_RecoveryAction (cs_Status current) = ''delete'' \<or> op_Type (operation current) = ''delete'' then Inl errObservedResourceChanged
      else
        (let status = (cs_Status current)\<lparr> st_Target := None \<rparr>
         in Inr (current\<lparr> cs_Status :=
              (if st_SettledOperationVersion status < version \<and> is_startup ty
               then status\<lparr> st_Result := Some (failed_result version ''runtime stopped by Manager administrator'') \<rparr>
               else status\<lparr> st_RecoveryAction := ''stop'' \<rparr>) \<rparr>)))"

section \<open>Volume preparation\<close>

text \<open>
  \<open>PrepareVolume\<close> grants a format when the volume has never been formatted: it persists \<open>started\<close> and
  then answers. \<open>authority\<close> is the lease state and \<open>now1\<close>, \<open>now2\<close> the clock at the check inside the
  update.
\<close>

definition prepare_mutation ::
    "int \<Rightarrow> string \<Rightarrow> string \<Rightarrow> string \<Rightarrow> ExecutionAuthority \<Rightarrow> time \<Rightarrow> time \<Rightarrow> bool \<Rightarrow> 'raw Codespace \<Rightarrow> manager_error + 'raw Codespace" where
  "prepare_mutation version ty podUID volumeUID authority now1 now2 initialized current =
     (if op_Version (operation current) \<noteq> version \<or> op_Type (operation current) \<noteq> ty \<or> \<not> is_startup ty
         \<or> st_PodUID (cs_Status current) \<noteq> podUID \<or> st_VolumeUID (cs_Status current) \<noteq> volumeUID
         \<or> st_RecoveryAction (cs_Status current) \<noteq> [] \<or> cs_Deleting current \<or> Remaining authority (cs_UID current) version now1 now2 \<le> 0
      then Inl errObservedResourceChanged
      else if initialized then Inr (current\<lparr> cs_Status := (cs_Status current)\<lparr> st_VolumeInitialization := ''ready'' \<rparr> \<rparr>)
      else if op_Type (operation current) \<noteq> ''create'' \<or> st_VolumeInitialization (cs_Status current) \<noteq> [] then Inl formatRefused
      else Inr (current\<lparr> cs_Status := (cs_Status current)\<lparr> st_VolumeInitialization := ''started'' \<rparr> \<rparr>))"

text \<open>
  \<open>PrepareVolume\<close>: \<open>resolved\<close> is the codespace and whether the pod of the Agent is being deleted,
  \<open>site\<close> whether the site is enabled and not being deleted, and its UID, \<open>volume\<close> the UID, the two
  labels and the deletion of the claim.
\<close>

definition PrepareVolume ::
    "'raw manager_libs \<Rightarrow> int \<Rightarrow> bool \<Rightarrow> manager_error + 'raw Codespace \<times> bool \<Rightarrow> manager_error + bool \<times> string
      \<Rightarrow> manager_error + string \<times> string \<times> string \<times> bool \<Rightarrow> ExecutionAuthority \<Rightarrow> time \<Rightarrow> time
      \<Rightarrow> 'raw Codespace attempt list \<Rightarrow> manager_error option" where
  "PrepareVolume libs protocolVersion initialized resolved site volume authority now1 now2 attempts =
     (if protocolVersion \<noteq> 1 then Some (RemoteError InvalidArgument)
      else case resolved of
        Inl e \<Rightarrow> Some (RemoteError PermissionDenied)
      | Inr (cs, podDeleting) \<Rightarrow>
          (case site of
             Inl e \<Rightarrow> Some e
           | Inr (siteActive, siteUID) \<Rightarrow>
               (let version = op_Version (operation cs); ty = op_Type (operation cs)
                in if \<not> siteActive \<or> podDeleting \<or> cs_Deleting cs \<or> st_RecoveryAction (cs_Status cs) \<noteq> [] \<or> \<not> is_startup ty
                      \<or> Remaining authority (cs_UID cs) version now1 now2 \<le> 0
                   then Some (RemoteError FailedPrecondition)
                   else if \<not> rc_BlockVolume (sp_Runtime (cs_Spec cs)) \<or> st_VolumeUID (cs_Status cs) = [] then Some (RemoteError FailedPrecondition)
                   else case volume of
                     Inl e \<Rightarrow> Some e
                   | Inr (volumeUID, runtimeLabel, siteLabel, volumeDeleting) \<Rightarrow>
                       if volumeUID \<noteq> st_VolumeUID (cs_Status cs) \<or> volumeDeleting \<or> runtimeLabel \<noteq> cs_UID cs \<or> siteLabel \<noteq> siteUID
                       then Some (RemoteError PermissionDenied)
                       else
                         (case updateCodespaceStatus libs cs
                                (prepare_mutation version ty (st_PodUID (cs_Status cs)) (st_VolumeUID (cs_Status cs)) authority now1 now2 initialized) attempts of
                            Inl errObservedResourceChanged \<Rightarrow> Some (RemoteError FailedPrecondition)
                          | Inl e \<Rightarrow> Some e
                          | Inr _ \<Rightarrow> None))))"

end
