(* ===== verification/Codespace_Machine.thy ===== *)
theory Codespace_Machine
  imports Codespace_Updates
begin

text \<open>
  One \<open>Codespace\<close> object under all its writers. An optimistic update takes effect in one step, with
  whatever its caller had observed before; the coordinator of the site is one process, so that it
  handles one operation at a time, and it may die at any point. The machine keeps every version of the
  object, because the reporter of the site works on copies that it read earlier.
\<close>

section \<open>The machine\<close>

record 'raw accept_task =
  ak_Version :: int
  ak_Type :: string
  ak_New :: bool
  ak_Seen :: "'raw Codespace"

record 'raw manager_machine =
  mm_Object :: "'raw Codespace"
  mm_History :: "'raw Codespace list"
  mm_Task :: "'raw accept_task option"
  mm_Formats :: nat

definition store :: "'raw Codespace \<Rightarrow> 'raw manager_machine \<Rightarrow> 'raw manager_machine" where
  "store cs m = m\<lparr> mm_Object := cs, mm_History := cs # mm_History m \<rparr>"

text \<open>The updates of the actors that are not the coordinator.\<close>

inductive actor_mutation :: "'raw manager_libs \<Rightarrow> ('raw Codespace \<Rightarrow> manager_error + 'raw Codespace) \<Rightarrow> bool" for libs where
  "actor_mutation libs (applyAgentReport libs report)"
| "actor_mutation libs (result_mutation version ty)"
| "actor_mutation libs (settle_mutation result ty resourceAbsent)"
| "actor_mutation libs (pod_name_mutation version ty podName)"
| "actor_mutation libs (pod_gone_mutation version ty podUID)"
| "actor_mutation libs (pod_exited_mutation version ty podName podUID nodeName)"
| "actor_mutation libs (pod_observed_mutation version ty podName podUID nodeName)"
| "actor_mutation libs (condition_mutation generation version ty reason problem)"
| "actor_mutation libs (volume_mutation version ty volumeName volumeUID)"
| "actor_mutation libs (stopped_pod_mutation podUID)"
| "actor_mutation libs (stopped_mutation generation version ty podUID)"
| "actor_mutation libs (admin_delete_mutation version podUID)"
| "actor_mutation libs (admin_stop_mutation version ty podUID)"
| "actor_mutation libs (prepare_mutation version ty podUID volumeUID authority now1 now2 True)"

text \<open>The updates that the coordinator makes between operations.\<close>

inductive coordinator_mutation :: "('raw Codespace \<Rightarrow> manager_error + 'raw Codespace) \<Rightarrow> bool" where
  "coordinator_mutation (bind_mutation version runtimeUUID)"
| "coordinator_mutation (unbound_mutation version runtimeUUID)"
| "coordinator_mutation (inventory_mutation version ty runtimeUUID action)"
| "coordinator_mutation (rejected_mutation site payload resume version runtimeUUID)"

definition bump_generation :: "'raw Codespace \<Rightarrow> 'raw Codespace" where
  "bump_generation cs = cs\<lparr> cs_Generation := cs_Generation cs + 1 \<rparr>"

inductive manager_step :: "'raw manager_libs \<Rightarrow> 'raw payload_codec \<Rightarrow> string \<Rightarrow> 'raw manager_machine \<Rightarrow> 'raw manager_machine \<Rightarrow> bool"
  for libs codec managementNamespace where
  actor: "actor_mutation libs f \<Longrightarrow> status_attempt libs (cs_UID (mm_Object m)) f (mm_Object m) = Inr cs \<Longrightarrow>
    manager_step libs codec managementNamespace m (store cs m)"
| format: "status_attempt libs (cs_UID (mm_Object m)) (prepare_mutation version ty podUID volumeUID authority now1 now2 False) (mm_Object m) = Inr cs \<Longrightarrow>
    manager_step libs codec managementNamespace m (store cs (m\<lparr> mm_Formats := Suc (mm_Formats m) \<rparr>))"
| deleted: "manager_step libs codec managementNamespace m (store ((mm_Object m)\<lparr> cs_Deleting := True \<rparr>) m)"
| coordinator: "mm_Task m = None \<Longrightarrow> coordinator_mutation f \<Longrightarrow>
    status_attempt libs (cs_UID (mm_Object m)) f (mm_Object m) = Inr cs \<Longrightarrow>
    manager_step libs codec managementNamespace m (store cs m)"
| accept_changed: "mm_Task m = None \<Longrightarrow> accept_check (Some payload) = Inr ty \<Longrightarrow>
    accept_existing site payload (mm_Object m) = None \<Longrightarrow>
    accept_operation codec False ty payload (mm_Object m) = Inr (Some oper) \<Longrightarrow>
    cs = bump_generation (set_operation oper (mm_Object m)) \<Longrightarrow> codespace_Validate libs managementNamespace cs = None \<Longrightarrow>
    new = (pl_OperationRversion payload > op_Version (operation (mm_Object m))) \<Longrightarrow>
    manager_step libs codec managementNamespace m
      (store cs (m\<lparr> mm_Task := Some \<lparr> ak_Version = op_Version oper, ak_Type = ty, ak_New = new, ak_Seen = cs \<rparr> \<rparr>))"
| accept_same: "mm_Task m = None \<Longrightarrow> accept_check (Some payload) = Inr ty \<Longrightarrow>
    accept_existing site payload (mm_Object m) = None \<Longrightarrow> accept_operation codec False ty payload (mm_Object m) = Inr None \<Longrightarrow>
    new = (pl_OperationRversion payload > op_Version (operation (mm_Object m))) \<Longrightarrow>
    manager_step libs codec managementNamespace m
      (m\<lparr> mm_Task := Some \<lparr> ak_Version = op_Version (operation (mm_Object m)), ak_Type = ty, ak_New = new, ak_Seen = mm_Object m \<rparr> \<rparr>)"
| accept_bound: "mm_Task m = Some t \<Longrightarrow> \<not> st_Bound (cs_Status (ak_Seen t)) \<Longrightarrow>
    f = (if ak_Type t = ''create'' then bind_mutation (ak_Version t) (sp_RuntimeUUID (cs_Spec (ak_Seen t)))
         else confirm_mutation (ak_Version t) (ak_Type t) (sp_RuntimeUUID (cs_Spec (ak_Seen t)))) \<Longrightarrow>
    status_attempt libs (cs_UID (ak_Seen t)) f (mm_Object m) = Inr cs \<Longrightarrow>
    manager_step libs codec managementNamespace m (store cs (m\<lparr> mm_Task := Some (t\<lparr> ak_Seen := cs \<rparr>) \<rparr>))"
| accept_cleared: "mm_Task m = Some t \<Longrightarrow> st_Bound (cs_Status (ak_Seen t)) \<Longrightarrow>
    st_RecoveryAction (cs_Status (ak_Seen t)) = ''stop'' \<Longrightarrow> ak_New t \<Longrightarrow>
    status_attempt libs (cs_UID (ak_Seen t)) (clear_mutation (ak_Version t) (ak_Type t)) (mm_Object m) = Inr cs \<Longrightarrow>
    manager_step libs codec managementNamespace m (store cs (m\<lparr> mm_Task := None \<rparr>))"
| accept_ended: "manager_step libs codec managementNamespace m (m\<lparr> mm_Task := None \<rparr>)"

text \<open>The payload that is saved is the one that gave the operation its type.\<close>

definition payload_saved :: "'raw payload_codec \<Rightarrow> 'raw Codespace \<Rightarrow> bool" where
  "payload_saved codec cs \<longleftrightarrow>
     (\<exists>p. pc_Unmarshal codec (op_Payload (operation cs)) = Some p \<and> operationType (pl_Command p) = Some (op_Type (operation cs)))"

text \<open>The object as \<open>Accept\<close> has created it; its task goes on, or the coordinator has died.\<close>

definition manager_init :: "'raw payload_codec \<Rightarrow> 'raw manager_machine \<Rightarrow> bool" where
  "manager_init codec m \<longleftrightarrow>
     cs_Status (mm_Object m) = zero_status \<and> payload_saved codec (mm_Object m) \<and> mm_History m = [mm_Object m] \<and> mm_Formats m = 0
     \<and> (mm_Task m = None \<or>
        mm_Task m = Some \<lparr> ak_Version = op_Version (operation (mm_Object m)), ak_Type = op_Type (operation (mm_Object m)),
                           ak_New = True, ak_Seen = mm_Object m \<rparr>)"

section \<open>The invariant\<close>

text \<open>A version of the object from which the reporter publishes metadata.\<close>

definition fresh :: "'raw Codespace \<Rightarrow> bool" where
  "fresh cs \<longleftrightarrow>
     st_Bound (cs_Status cs) \<and> st_RecoveryAction (cs_Status cs) = [] \<and> is_startup (op_Type (operation cs))
     \<and> map_option bt_OperationVersion (st_Boot (cs_Status cs)) = Some (op_Version (operation cs))
     \<and> (case current_result cs of None \<Rightarrow> True | Some r \<Rightarrow> or_Succeeded r)"

definition generation :: "'raw Codespace \<Rightarrow> int" where
  "generation cs = st_MetadataGeneration (cs_Status cs)"

definition same_content :: "'raw Codespace \<Rightarrow> 'raw Codespace \<Rightarrow> bool" where
  "same_content cs cs' \<longleftrightarrow> st_Boot (cs_Status cs) = st_Boot (cs_Status cs') \<and> st_Target (cs_Status cs) = st_Target (cs_Status cs')"

text \<open>How the current object relates to one that was fresh earlier.\<close>

definition follows :: "'raw Codespace \<Rightarrow> 'raw Codespace \<Rightarrow> bool" where
  "follows h cs \<longleftrightarrow>
     op_Version (operation h) \<le> op_Version (operation cs) \<and> st_Bound (cs_Status cs) \<and> generation h \<le> generation cs
     \<and> (generation h = generation cs \<longrightarrow>
          st_Boot (cs_Status cs) = None
          \<or> (st_Boot (cs_Status cs) = st_Boot (cs_Status h) \<and> (fresh cs \<longrightarrow> st_Target (cs_Status cs) = st_Target (cs_Status h))))"

definition object_ok :: "'raw payload_codec \<Rightarrow> 'raw Codespace \<Rightarrow> bool" where
  "object_ok codec cs \<longleftrightarrow>
     payload_saved codec cs \<and> 0 \<le> generation cs \<and> generation cs \<le> max_int64
     \<and> (\<forall>b. st_Boot (cs_Status cs) = Some b \<longrightarrow> bt_OperationVersion b \<le> op_Version (operation cs))"

definition task_ok :: "'raw Codespace \<Rightarrow> 'raw Codespace list \<Rightarrow> 'raw accept_task \<Rightarrow> bool" where
  "task_ok cs hist t \<longleftrightarrow>
     ak_Version t = op_Version (operation cs)
     \<and> (ak_New t \<longrightarrow> \<not> st_Bound (cs_Status (ak_Seen t)) \<or> st_RecoveryAction (cs_Status (ak_Seen t)) = ''stop'' \<longrightarrow>
          (\<forall>h \<in> set hist. op_Version (operation h) = ak_Version t \<longrightarrow> \<not> fresh h)
          \<and> (if st_Bound (cs_Status (ak_Seen t)) then st_RecoveryAction (cs_Status cs) \<noteq> [] else \<not> st_Bound (cs_Status cs)))"

definition history_ok :: "'raw Codespace list \<Rightarrow> bool" where
  "history_ok hist \<longleftrightarrow> (\<forall>h \<in> set hist. \<forall>h' \<in> set hist. fresh h \<longrightarrow> fresh h' \<longrightarrow> generation h = generation h' \<longrightarrow> same_content h h')"

definition formats_ok :: "'raw manager_machine \<Rightarrow> bool" where
  "formats_ok m \<longleftrightarrow> mm_Formats m = 0 \<or> (mm_Formats m = 1 \<and> st_VolumeInitialization (cs_Status (mm_Object m)) \<noteq> [])"

definition manager_inv :: "'raw payload_codec \<Rightarrow> 'raw manager_machine \<Rightarrow> bool" where
  "manager_inv codec m \<longleftrightarrow>
     object_ok codec (mm_Object m) \<and> (\<forall>h \<in> set (mm_History m). fresh h \<longrightarrow> follows h (mm_Object m))
     \<and> history_ok (mm_History m) \<and> (\<forall>t. mm_Task m = Some t \<longrightarrow> task_ok (mm_Object m) (mm_History m) t) \<and> formats_ok m"

section \<open>Quiet updates\<close>

text \<open>
  What every status update respects: it leaves the specification alone, keeps a recovery until the
  coordinator ends it, and gives changed metadata a new generation or makes the object unfit for
  publishing.
\<close>

definition quiet :: "'raw Codespace \<Rightarrow> 'raw Codespace \<Rightarrow> bool" where
  "quiet cs cs' \<longleftrightarrow>
     cs_Spec cs' = cs_Spec cs \<and> (st_Bound (cs_Status cs) \<longrightarrow> st_Bound (cs_Status cs'))
     \<and> (st_RecoveryAction (cs_Status cs) \<noteq> [] \<longrightarrow> st_RecoveryAction (cs_Status cs') \<noteq> [])
     \<and> (st_VolumeInitialization (cs_Status cs) \<noteq> [] \<longrightarrow> st_VolumeInitialization (cs_Status cs') \<noteq> [])
     \<and> ((generation cs' = generation cs
          \<and> (st_Boot (cs_Status cs') = None
             \<or> (st_Boot (cs_Status cs') = st_Boot (cs_Status cs)
                \<and> (fresh cs' \<longrightarrow> st_Target (cs_Status cs') = st_Target (cs_Status cs) \<and> (st_Bound (cs_Status cs) \<longrightarrow> fresh cs)))))
        \<or> (generation cs < max_int64 \<and> generation cs' = generation cs + 1
          \<and> (\<forall>b. st_Boot (cs_Status cs') = Some b \<longrightarrow> st_Boot (cs_Status cs) = Some b \<or> bt_OperationVersion b = op_Version (operation cs))))"

lemma quietD:
  assumes "quiet cs cs'"
  shows "cs_Spec cs' = cs_Spec cs" "st_Bound (cs_Status cs) \<Longrightarrow> st_Bound (cs_Status cs')"
    "st_RecoveryAction (cs_Status cs) \<noteq> [] \<Longrightarrow> st_RecoveryAction (cs_Status cs') \<noteq> []"
    "st_VolumeInitialization (cs_Status cs) \<noteq> [] \<Longrightarrow> st_VolumeInitialization (cs_Status cs') \<noteq> []"
    "generation cs' = generation cs \<or> (generation cs' = generation cs + 1 \<and> generation cs < max_int64)"
    "generation cs' = generation cs \<Longrightarrow> st_Boot (cs_Status cs') = None \<or> st_Boot (cs_Status cs') = st_Boot (cs_Status cs)"
    "generation cs' = generation cs \<Longrightarrow> st_Boot (cs_Status cs') \<noteq> None \<Longrightarrow> fresh cs' \<Longrightarrow> st_Target (cs_Status cs') = st_Target (cs_Status cs)"
    "generation cs' = generation cs \<Longrightarrow> st_Boot (cs_Status cs') \<noteq> None \<Longrightarrow> fresh cs' \<Longrightarrow> st_Bound (cs_Status cs) \<Longrightarrow> fresh cs"
    "st_Boot (cs_Status cs') = Some b \<Longrightarrow> st_Boot (cs_Status cs) = Some b \<or> bt_OperationVersion b = op_Version (operation cs)"
proof -
  have q: "cs_Spec cs' = cs_Spec cs" "st_Bound (cs_Status cs) \<longrightarrow> st_Bound (cs_Status cs')"
    "st_RecoveryAction (cs_Status cs) \<noteq> [] \<longrightarrow> st_RecoveryAction (cs_Status cs') \<noteq> []"
    "st_VolumeInitialization (cs_Status cs) \<noteq> [] \<longrightarrow> st_VolumeInitialization (cs_Status cs') \<noteq> []"
    and c: "(generation cs' = generation cs
          \<and> (st_Boot (cs_Status cs') = None
             \<or> (st_Boot (cs_Status cs') = st_Boot (cs_Status cs)
                \<and> (fresh cs' \<longrightarrow> st_Target (cs_Status cs') = st_Target (cs_Status cs) \<and> (st_Bound (cs_Status cs) \<longrightarrow> fresh cs)))))
        \<or> (generation cs < max_int64 \<and> generation cs' = generation cs + 1
          \<and> (\<forall>b. st_Boot (cs_Status cs') = Some b \<longrightarrow> st_Boot (cs_Status cs) = Some b \<or> bt_OperationVersion b = op_Version (operation cs)))"
    using assms unfolding quiet_def by blast+
  show "cs_Spec cs' = cs_Spec cs" "st_Bound (cs_Status cs) \<Longrightarrow> st_Bound (cs_Status cs')"
    "st_RecoveryAction (cs_Status cs) \<noteq> [] \<Longrightarrow> st_RecoveryAction (cs_Status cs') \<noteq> []"
    "st_VolumeInitialization (cs_Status cs) \<noteq> [] \<Longrightarrow> st_VolumeInitialization (cs_Status cs') \<noteq> []"
    using q by blast+
  show "generation cs' = generation cs \<or> (generation cs' = generation cs + 1 \<and> generation cs < max_int64)" using c by blast
  show "st_Boot (cs_Status cs') = Some b \<Longrightarrow> st_Boot (cs_Status cs) = Some b \<or> bt_OperationVersion b = op_Version (operation cs)"
    using c by (metis option.distinct(1))
  assume g: "generation cs' = generation cs"
  then have n: "generation cs' \<noteq> generation cs + 1" by simp
  show "st_Boot (cs_Status cs') = None \<or> st_Boot (cs_Status cs') = st_Boot (cs_Status cs)" using c n by blast
  show "st_Boot (cs_Status cs') \<noteq> None \<Longrightarrow> fresh cs' \<Longrightarrow> st_Target (cs_Status cs') = st_Target (cs_Status cs)" using c n by argo
  show "st_Boot (cs_Status cs') \<noteq> None \<Longrightarrow> fresh cs' \<Longrightarrow> st_Bound (cs_Status cs) \<Longrightarrow> fresh cs" using c n by argo
qed

lemma operation_spec: "cs_Spec cs' = cs_Spec cs \<Longrightarrow> operation cs' = operation cs"
  by (simp add: operation_def)

lemma fresh_cong:
  assumes "cs_Spec cs' = cs_Spec cs" "st_Bound (cs_Status cs') = st_Bound (cs_Status cs)"
    "st_RecoveryAction (cs_Status cs') = st_RecoveryAction (cs_Status cs)" "st_Boot (cs_Status cs') = st_Boot (cs_Status cs)"
    "st_Result (cs_Status cs') = st_Result (cs_Status cs)"
  shows "fresh cs' = fresh cs"
proof -
  have "operation cs' = operation cs" by (rule operation_spec [OF assms(1)])
  then have "current_result cs' = current_result cs" using assms(5) by (cases "st_Result (cs_Status cs)") (simp_all add: current_result_def)
  then show ?thesis using assms \<open>operation cs' = operation cs\<close> by (simp add: fresh_def)
qed

text \<open>Updates that touch nothing that a reader of metadata sees.\<close>

lemma quiet_plain:
  assumes "cs_Spec cs' = cs_Spec cs" "st_Bound (cs_Status cs') = st_Bound (cs_Status cs)"
    "st_RecoveryAction (cs_Status cs') = st_RecoveryAction (cs_Status cs)" "st_Boot (cs_Status cs') = st_Boot (cs_Status cs)"
    "st_Result (cs_Status cs') = st_Result (cs_Status cs)" "st_Target (cs_Status cs') = st_Target (cs_Status cs)"
    "st_MetadataGeneration (cs_Status cs') = st_MetadataGeneration (cs_Status cs)"
    "st_VolumeInitialization (cs_Status cs) \<noteq> [] \<Longrightarrow> st_VolumeInitialization (cs_Status cs') \<noteq> []"
  shows "quiet cs cs'"
  using assms fresh_cong [OF assms(1-5)] by (simp add: quiet_def generation_def)

text \<open>Updates that leave the object unfit for publishing, or without boot progress.\<close>

lemma quiet_unfit:
  assumes "cs_Spec cs' = cs_Spec cs" "st_Bound (cs_Status cs) \<Longrightarrow> st_Bound (cs_Status cs')"
    "st_RecoveryAction (cs_Status cs) \<noteq> [] \<Longrightarrow> st_RecoveryAction (cs_Status cs') \<noteq> []"
    "st_MetadataGeneration (cs_Status cs') = st_MetadataGeneration (cs_Status cs)"
    "st_VolumeInitialization (cs_Status cs') = st_VolumeInitialization (cs_Status cs)"
    "st_Boot (cs_Status cs') = None \<or> (st_Boot (cs_Status cs') = st_Boot (cs_Status cs) \<and> \<not> fresh cs')"
  shows "quiet cs cs'"
  using assms by (auto simp: quiet_def generation_def)

lemmas mutation_simps = set_bound_def set_recovery_def fail_or_stop_def failed_result_def Let_def operation_def

lemma recovery_not_fresh: "st_RecoveryAction (cs_Status cs) \<noteq> [] \<Longrightarrow> \<not> fresh cs"
  by (simp add: fresh_def)

lemma failed_not_fresh: "current_result cs = Some r \<Longrightarrow> \<not> or_Succeeded r \<Longrightarrow> \<not> fresh cs"
  by (simp add: fresh_def)

lemma quiet_report:
  assumes "applyAgentReport libs report cs = Inr cs'" and ok: "object_ok codec cs"
  shows "quiet cs cs'"
proof -
  from assms(1) obtain r boot target gen result where
    r: "report = Some r" "check_result cs r = None" "apply_boot cs r = Inr boot" "apply_target cs r = Inr target"
      "apply_generation (cs_Status cs) boot target = Inr gen" "apply_result cs r = Inr result"
    and cs': "cs' = cs\<lparr> cs_Status := (cs_Status cs)\<lparr> st_Boot := boot, st_Target := target, st_MetadataGeneration := gen, st_Result := result \<rparr> \<rparr>"
    by (auto simp: applyAgentReport_def Let_def split: option.splits if_splits sum.splits)
  have b: "boot = st_Boot (cs_Status cs) \<or> (\<exists>v. boot = Some v \<and> bt_OperationVersion v = op_Version (operation cs))"
    using r(3) by (auto simp: apply_boot_def runtimeBootFromProto_def split: option.splits if_splits sum.splits)
  show ?thesis
  proof (cases "boot \<noteq> st_Boot (cs_Status cs) \<or> target \<noteq> st_Target (cs_Status cs)")
    case True
    then have g: "st_MetadataGeneration (cs_Status cs) \<noteq> max_int64" "gen = wrap64 (st_MetadataGeneration (cs_Status cs) + 1)"
      using r(5) by (auto simp: apply_generation_def split: if_splits)
    have "0 \<le> generation cs" "generation cs \<le> max_int64" using ok by (simp_all add: object_ok_def)
    then have "generation cs < max_int64" "gen = generation cs + 1"
      using g by (simp_all add: generation_def wrap64_def max_int64_def)
    then show ?thesis using b by (auto simp: quiet_def cs' generation_def operation_def)
  next
    case False
    then have same: "boot = st_Boot (cs_Status cs)" "target = st_Target (cs_Status cs)" "gen = st_MetadataGeneration (cs_Status cs)"
      using r(5) by (auto simp: apply_generation_def)
    have "fresh cs" if f: "fresh cs'"
    proof (cases "current_result cs")
      case (Some old)
      have "current_result cs' = Some old"
        using r(2,6) Some by (auto simp: cs' check_result_def apply_result_def current_result_def operation_def Let_def split: option.splits if_splits)
      then show ?thesis using f Some by (simp add: fresh_def cs' same operation_def)
    qed (use f in \<open>auto simp: fresh_def cs' same operation_def\<close>)
    then show ?thesis by (auto simp: quiet_def cs' same generation_def)
  qed
qed

lemma quiet_result: "result_mutation version ty cs = Inr cs' \<Longrightarrow> quiet cs cs'"
proof -
  assume m: "result_mutation version ty cs = Inr cs'"
  then have v: "op_Version (operation cs) = version" by (auto simp: result_mutation_def split: if_splits)
  show ?thesis
  proof (cases "result_missing version ty (st_Result (cs_Status cs))")
    case True
    then have cs': "cs' = cs\<lparr> cs_Status := (cs_Status cs)\<lparr> st_Result := Some (stopped_result version ty) \<rparr> \<rparr>"
      using m by (auto simp: result_mutation_def split: if_splits)
    have "\<not> fresh cs'"
    proof (cases "is_startup ty")
      case True
      then have "current_result cs' = Some (stopped_result version ty)" "\<not> or_Succeeded (stopped_result version ty)"
        using v by (auto simp: cs' current_result_def stopped_result_def operation_def is_startup_def)
      then show ?thesis by (rule failed_not_fresh)
    next
      case False
      moreover have "op_Type (operation cs') = ty" using m by (auto simp: result_mutation_def operation_def split: if_splits)
      ultimately show ?thesis by (simp add: fresh_def)
    qed
    then show ?thesis by (intro quiet_unfit) (auto simp: cs')
  next
    case False
    then have "cs' = cs" using m by (auto simp: result_mutation_def split: if_splits)
    then show ?thesis by (simp add: quiet_plain)
  qed
qed

lemma quiet_settle: "settle_mutation result ty absent cs = Inr cs' \<Longrightarrow> quiet cs cs'"
proof -
  assume m: "settle_mutation result ty absent cs = Inr cs'"
  let ?s = "(cs_Status cs)\<lparr> st_SettledOperationVersion := or_Version result \<rparr>"
  have eq: "cs' = cs\<lparr> cs_Status :=
              (if absent then ?s\<lparr> st_RecoveryAction := ''stop'', st_Target := None, st_Boot := None \<rparr>
               else if ty = ''delete'' \<or> (\<not> or_Succeeded result \<and> (ty = ''create'' \<or> ty = ''abort_create''))
               then ?s\<lparr> st_RecoveryAction := ''delete'' \<rparr>
               else if \<not> or_Succeeded result then ?s\<lparr> st_RecoveryAction := ''stop'' \<rparr> else ?s) \<rparr>"
    using m unfolding settle_mutation_def Let_def by (auto split: if_split_asm)
  show ?thesis
  proof (cases "cs_Status cs' = ?s")
    case True
    moreover have "cs_Spec cs' = cs_Spec cs" by (simp add: eq)
    ultimately show ?thesis by (intro quiet_plain) simp_all
  next
    case False
    then have "st_RecoveryAction (cs_Status cs') \<noteq> []" by (auto simp: eq split: if_splits)
    then show ?thesis by (intro quiet_unfit) (auto simp: eq recovery_not_fresh)
  qed
qed

lemma quiet_admin_stop: "admin_stop_mutation version ty podUID cs = Inr cs' \<Longrightarrow> quiet cs cs'"
proof -
  assume m: "admin_stop_mutation version ty podUID cs = Inr cs'"
  let ?s = "(cs_Status cs)\<lparr> st_Target := None \<rparr>" and ?r = "failed_result version ''runtime stopped by Manager administrator''"
  have v: "op_Version (operation cs) = version" using m by (auto simp: admin_stop_mutation_def split: if_splits)
  have eq: "cs' = cs\<lparr> cs_Status := (if st_SettledOperationVersion ?s < version \<and> is_startup ty then ?s\<lparr> st_Result := Some ?r \<rparr>
      else ?s\<lparr> st_RecoveryAction := ''stop'' \<rparr>) \<rparr>"
    using m unfolding admin_stop_mutation_def Let_def by (auto split: if_split_asm)
  have "\<not> fresh cs'"
  proof (cases "st_SettledOperationVersion ?s < version \<and> is_startup ty")
    case True
    then have "current_result cs' = Some ?r" using v by (simp add: eq current_result_def operation_def failed_result_def)
    then show ?thesis by (rule failed_not_fresh) (simp add: failed_result_def)
  next
    case False
    then show ?thesis by (intro recovery_not_fresh) (auto simp: eq)
  qed
  then show ?thesis by (intro quiet_unfit) (auto simp: eq)
qed

lemma quiet_condition: "condition_mutation generation' version ty reason problem cs = Inr cs' \<Longrightarrow> quiet cs cs'"
proof -
  assume m: "condition_mutation generation' version ty reason problem cs = Inr cs'"
  have v: "op_Version (operation cs) = version" using m by (auto simp: condition_mutation_def split: if_splits)
  define result conditions where "result = st_Result (cs_Status cs')" and "conditions = st_Conditions (cs_Status cs')"
  have eq: "cs' = cs\<lparr> cs_Status := (cs_Status cs)\<lparr> st_Result := result, st_Conditions := conditions \<rparr> \<rparr>"
    "result = st_Result (cs_Status cs) \<or> (\<exists>message. result = Some (failed_result version message))"
    unfolding result_def conditions_def
    using m by (auto simp: condition_mutation_def Let_def split: if_splits option.splits prod.splits bool.splits)
  show ?thesis
  proof (cases "result = st_Result (cs_Status cs)")
    case True
    then show ?thesis by (intro quiet_plain) (simp_all add: eq(1))
  next
    case False
    then obtain message where r: "result = Some (failed_result version message)" using eq(2) by blast
    then have "current_result cs' = Some (failed_result version message)" using v by (simp add: eq(1) current_result_def operation_def failed_result_def)
    then have "\<not> fresh cs'" by (rule failed_not_fresh) (simp add: failed_result_def)
    then show ?thesis by (intro quiet_unfit) (auto simp: eq(1))
  qed
qed

lemma quiet_stopped: "stopped_mutation generation' version ty podUID cs = Inr cs' \<Longrightarrow> quiet cs cs'"
  by (rule quiet_unfit) (auto simp: stopped_mutation_def Let_def split: if_splits)

lemma quiet_pod_gone: "pod_gone_mutation version ty podUID cs = Inr cs' \<Longrightarrow> quiet cs cs'"
  by (rule quiet_unfit) (auto simp: pod_gone_mutation_def fail_or_stop_def split: if_splits)

lemma quiet_pod_exited: "pod_exited_mutation version ty podName podUID nodeName cs = Inr cs' \<Longrightarrow> quiet cs cs'"
  by (rule quiet_unfit) (auto simp: pod_exited_mutation_def fail_or_stop_def split: if_splits)

lemma quiet_prepare: "prepare_mutation version ty podUID volumeUID authority now1 now2 initialized cs = Inr cs' \<Longrightarrow> quiet cs cs'"
  by (rule quiet_plain) (auto simp: prepare_mutation_def split: if_splits)

lemma quiet_admin_delete: "admin_delete_mutation version podUID cs = Inr cs' \<Longrightarrow> quiet cs cs'"
  by (rule quiet_unfit) (auto simp: admin_delete_mutation_def fresh_def split: if_splits)

lemma quiet_actor:
  assumes "actor_mutation libs f" "f cs = Inr cs'" "object_ok codec cs"
  shows "quiet cs cs'" "st_Bound (cs_Status cs') = st_Bound (cs_Status cs)"
proof -
  show "quiet cs cs'"
    using assms
  proof (cases rule: actor_mutation.cases)
    case (4 version ty podName)
    then show ?thesis using assms(2) by (intro quiet_plain) (auto simp: pod_name_mutation_def split: if_splits)
  next
    case (7 version ty podName podUID nodeName)
    then show ?thesis using assms(2) by (intro quiet_plain) (auto simp: pod_observed_mutation_def split: if_splits)
  next
    case (9 version ty volumeName volumeUID)
    then show ?thesis using assms(2) by (intro quiet_plain) (auto simp: volume_mutation_def split: if_splits)
  next
    case (10 podUID)
    then show ?thesis using assms(2) by (intro quiet_plain) (auto simp: stopped_pod_mutation_def split: if_splits)
  qed (use assms(2,3) in \<open>auto intro: quiet_report quiet_result quiet_settle quiet_pod_gone quiet_pod_exited quiet_condition quiet_stopped
      quiet_admin_delete quiet_admin_stop quiet_prepare\<close>)
  show "st_Bound (cs_Status cs') = st_Bound (cs_Status cs)"
    using assms(1)
  proof (cases rule: actor_mutation.cases)
    case (1 report)
    then show ?thesis using assms(2) by (auto simp: applyAgentReport_def Let_def split: option.splits if_splits sum.splits)
  next
    case (3 result ty absent)
    then show ?thesis using assms(2) by (auto simp: settle_mutation_def Let_def split: if_splits)
  next
    case (8 generation version ty reason problem)
    then show ?thesis using assms(2) by (auto simp: condition_mutation_def Let_def split: if_splits)
  next
    case (11 generation version ty podUID)
    then show ?thesis using assms(2) by (auto simp: stopped_mutation_def Let_def split: if_splits)
  next
    case (13 version ty podUID)
    then show ?thesis using assms(2) by (auto simp: admin_stop_mutation_def Let_def split: if_splits)
  qed (use assms(2) in \<open>auto simp: result_mutation_def pod_name_mutation_def pod_gone_mutation_def pod_exited_mutation_def
      pod_observed_mutation_def volume_mutation_def stopped_pod_mutation_def admin_delete_mutation_def prepare_mutation_def fail_or_stop_def
      split: if_splits\<close>)
qed

lemma quiet_set_bound: "quiet cs (set_bound cs)"
proof -
  have "fresh cs" if "fresh (set_bound cs)" "st_Bound (cs_Status cs)"
    using that fresh_cong [of "set_bound cs" cs] by (simp add: set_bound_def)
  then show ?thesis by (auto simp: quiet_def generation_def set_bound_def)
qed

lemma quiet_set_recovery: "action \<noteq> [] \<Longrightarrow> quiet cs (set_recovery action cs)"
  by (rule quiet_unfit) (auto simp: set_recovery_def fresh_def)

lemma quiet_coordinator:
  assumes "coordinator_mutation f" "f cs = Inr cs'"
  shows "quiet cs cs'"
  using assms(1)
proof (cases rule: coordinator_mutation.cases)
  case (1 version runtimeUUID)
  then have "cs' = set_bound cs" using assms(2) by (auto simp: bind_mutation_def split: if_splits)
  then show ?thesis by (simp add: quiet_set_bound)
next
  case (2 version runtimeUUID)
  then have "cs' = set_recovery ''delete'' cs" using assms(2) by (auto simp: unbound_mutation_def split: if_splits)
  then show ?thesis by (simp add: quiet_set_recovery)
next
  case (3 version ty runtimeUUID action)
  then show ?thesis using assms(2)
    by (auto simp: inventory_mutation_def quiet_set_recovery intro: quiet_plain split: if_splits ReconcileAction.splits)
next
  case (4 site payload resume version runtimeUUID)
  then show ?thesis using assms(2)
    by (intro quiet_unfit) (auto simp: rejected_mutation_def Let_def fresh_def split: if_splits)
qed

section \<open>Preservation\<close>

lemma followsD:
  assumes "follows h cs"
  shows "op_Version (operation h) \<le> op_Version (operation cs)" "st_Bound (cs_Status cs)" "generation h \<le> generation cs"
    "generation h = generation cs \<Longrightarrow> st_Boot (cs_Status cs) = None \<or> st_Boot (cs_Status cs) = st_Boot (cs_Status h)"
    "generation h = generation cs \<Longrightarrow> st_Boot (cs_Status cs) \<noteq> None \<Longrightarrow> fresh cs \<Longrightarrow> st_Target (cs_Status cs) = st_Target (cs_Status h)"
  using assms by (auto simp: follows_def)

lemma fresh_boot: "fresh cs \<Longrightarrow> \<exists>b. st_Boot (cs_Status cs) = Some b \<and> bt_OperationVersion b = op_Version (operation cs)"
  by (auto simp: fresh_def)

lemma manager_inv_store:
  assumes inv: "manager_inv codec m" and ok: "object_ok codec cs"
    and f: "\<And>h. h \<in> set (mm_History m) \<Longrightarrow> fresh h \<Longrightarrow> follows h (mm_Object m) \<Longrightarrow> follows h cs"
    and t: "\<And>t. task = Some t \<Longrightarrow> task_ok cs (cs # mm_History m) t"
    and fm: "formats_ok (m\<lparr> mm_Object := cs, mm_Formats := n \<rparr>)"
  shows "manager_inv codec (store cs (m\<lparr> mm_Task := task, mm_Formats := n \<rparr>))"
proof -
  have i: "\<And>h. h \<in> set (mm_History m) \<Longrightarrow> fresh h \<Longrightarrow> follows h (mm_Object m)" "history_ok (mm_History m)"
    using inv by (auto simp: manager_inv_def)
  have self: "follows cs cs" if "fresh cs" using that by (simp add: follows_def fresh_def)
  have pair: "same_content h cs" if "h \<in> set (mm_History m)" "fresh h" "fresh cs" "generation h = generation cs" for h
  proof -
    have fo: "follows h cs" using f i(1) that by blast
    have "st_Boot (cs_Status cs) \<noteq> None" using fresh_boot [OF that(3)] by auto
    then show ?thesis using followsD(4,5) [OF fo that(4)] that(3) by (auto simp: same_content_def)
  qed
  have sym: "same_content a b \<Longrightarrow> same_content b a" for a b by (simp add: same_content_def)
  have refl: "same_content a a" for a by (simp add: same_content_def)
  have "history_ok (cs # mm_History m)" unfolding history_ok_def
  proof (intro ballI impI)
    fix h h'
    assume h: "h \<in> set (cs # mm_History m)" "h' \<in> set (cs # mm_History m)" "fresh h" "fresh h'" "generation h = generation h'"
    show "same_content h h'"
    proof (cases "h \<in> set (mm_History m) \<and> h' \<in> set (mm_History m)")
      case True
      then show ?thesis using i(2) h unfolding history_ok_def by blast
    next
      case False
      then consider "h = cs" "h' = cs" | "h = cs" "h' \<in> set (mm_History m)" | "h' = cs" "h \<in> set (mm_History m)" using h(1,2) by auto
      then show ?thesis
      proof cases
        case 2
        then show ?thesis using sym [OF pair [of h']] h by simp
      next
        case 3
        then show ?thesis using pair [of h] h by simp
      qed (simp add: refl)
    qed
  qed
  moreover have "\<forall>h \<in> set (cs # mm_History m). fresh h \<longrightarrow> follows h cs" using self f i(1) by auto
  moreover have "formats_ok (store cs (m\<lparr> mm_Task := task, mm_Formats := n \<rparr>))" using fm by (simp add: formats_ok_def store_def)
  ultimately show ?thesis using ok t by (simp add: manager_inv_def store_def)
qed

lemma followsI:
  assumes "op_Version (operation h) \<le> op_Version (operation cs)" "st_Bound (cs_Status cs)" "generation h \<le> generation cs"
    "generation h = generation cs \<Longrightarrow> st_Boot (cs_Status cs) \<noteq> None \<Longrightarrow> st_Boot (cs_Status cs) = st_Boot (cs_Status h)"
    "generation h = generation cs \<Longrightarrow> st_Boot (cs_Status cs) \<noteq> None \<Longrightarrow> fresh cs \<Longrightarrow> st_Target (cs_Status cs) = st_Target (cs_Status h)"
  shows "follows h cs"
  unfolding follows_def using assms by blast

lemma follows_quiet:
  assumes fo: "follows h cs" and q: "quiet cs cs'"
  shows "follows h cs'"
proof (rule followsI)
  have op: "operation cs' = operation cs" by (rule operation_spec [OF quietD(1) [OF q]])
  show "op_Version (operation h) \<le> op_Version (operation cs')" using followsD(1) [OF fo] op by simp
  show "st_Bound (cs_Status cs')" by (rule quietD(2) [OF q followsD(2) [OF fo]])
  show "generation h \<le> generation cs'" using followsD(3) [OF fo] quietD(5) [OF q] by linarith
next
  assume g: "generation h = generation cs'" and b: "st_Boot (cs_Status cs') \<noteq> None"
  have e: "generation cs' = generation cs" "generation h = generation cs" using g followsD(3) [OF fo] quietD(5) [OF q] by linarith+
  have b': "st_Boot (cs_Status cs') = st_Boot (cs_Status cs)" using quietD(6) [OF q e(1)] b by blast
  then show "st_Boot (cs_Status cs') = st_Boot (cs_Status h)" using followsD(4) [OF fo e(2)] b by metis
  assume f: "fresh cs'"
  have "st_Target (cs_Status cs') = st_Target (cs_Status cs)" by (rule quietD(7) [OF q e(1) b f])
  moreover have "fresh cs" by (rule quietD(8) [OF q e(1) b f followsD(2) [OF fo]])
  ultimately show "st_Target (cs_Status cs') = st_Target (cs_Status h)" using followsD(5) [OF fo e(2)] b b' by metis
qed

lemma object_quiet:
  assumes ok: "object_ok codec cs" and q: "quiet cs cs'"
  shows "object_ok codec cs'"
proof -
  have op: "operation cs' = operation cs" by (rule operation_spec [OF quietD(1) [OF q]])
  have g: "0 \<le> generation cs" "generation cs \<le> max_int64"
    and b: "\<And>b. st_Boot (cs_Status cs) = Some b \<Longrightarrow> bt_OperationVersion b \<le> op_Version (operation cs)"
    and p: "payload_saved codec cs" using ok by (simp_all add: object_ok_def)
  have "0 \<le> generation cs'" "generation cs' \<le> max_int64" using g quietD(5) [OF q] by linarith+
  moreover have "bt_OperationVersion v \<le> op_Version (operation cs')" if "st_Boot (cs_Status cs') = Some v" for v
    using quietD(9) [OF q that] b [of v] op by auto
  moreover have "payload_saved codec cs'" using p op by (simp add: payload_saved_def)
  ultimately show ?thesis by (simp add: object_ok_def)
qed

lemma task_quiet:
  assumes t: "task_ok cs hist t" and q: "quiet cs cs'" and b: "st_Bound (cs_Status cs') = st_Bound (cs_Status cs)"
  shows "task_ok cs' (cs' # hist) t"
proof -
  have op: "operation cs' = operation cs" by (rule operation_spec [OF quietD(1) [OF q]])
  have nf: "\<not> fresh cs'" if "if st_Bound (cs_Status (ak_Seen t)) then st_RecoveryAction (cs_Status cs) \<noteq> [] else \<not> st_Bound (cs_Status cs)"
    using that quietD(3) [OF q] b by (cases "st_Bound (cs_Status (ak_Seen t))") (simp_all add: fresh_def)
  show ?thesis using t nf quietD(3) [OF q] unfolding task_ok_def op b by (simp split: if_split_asm)
qed

lemma manager_inv_quiet:
  assumes inv: "manager_inv codec m" and q: "quiet (mm_Object m) cs"
    and b: "mm_Task m \<noteq> None \<Longrightarrow> st_Bound (cs_Status cs) = st_Bound (cs_Status (mm_Object m))"
    and n: "n = mm_Formats m \<or> (mm_Formats m = 0 \<and> n = 1 \<and> st_VolumeInitialization (cs_Status cs) \<noteq> [])"
  shows "manager_inv codec (store cs (m\<lparr> mm_Formats := n \<rparr>))"
proof -
  have i: "object_ok codec (mm_Object m)" "\<And>t. mm_Task m = Some t \<Longrightarrow> task_ok (mm_Object m) (mm_History m) t" "formats_ok m"
    using inv by (auto simp: manager_inv_def)
  have "formats_ok (m\<lparr> mm_Object := cs, mm_Formats := n \<rparr>)"
    using i(3) n quietD(4) [OF q] by (auto simp: formats_ok_def)
  then have "manager_inv codec (store cs (m\<lparr> mm_Task := mm_Task m, mm_Formats := n \<rparr>))"
    by (intro manager_inv_store [OF inv object_quiet [OF i(1) q] follows_quiet [OF _ q]] task_quiet [OF i(2) q] b) simp_all
  then show ?thesis by simp
qed

lemma accept_operation_changed:
  assumes codec: "codec_ok codec" and saved: "payload_saved codec cs" and ty: "operationType (pl_Command payload) = Some ty"
    and acc: "accept_operation codec False ty payload cs = Inr (Some oper)"
  shows "op_Version oper = pl_OperationRversion payload" "op_Type oper = ty" "\<exists>p. pc_Unmarshal codec (op_Payload oper) = Some p \<and> operationType (pl_Command p) = Some ty"
    "op_Version oper = op_Version (operation cs) \<Longrightarrow> \<not> is_startup ty"
proof -
  obtain raw where raw: "pc_Marshal codec (accept_input payload cs) = Some raw" "oper = \<lparr> op_Version = pl_OperationRversion payload, op_Type = ty, op_Payload = raw \<rparr>"
    using acc by (auto simp: accept_operation_def Let_def accept_input_def split: option.splits if_splits)
  show "op_Version oper = pl_OperationRversion payload" "op_Type oper = ty" by (simp_all add: raw(2))
  have "operationType (pl_Command (accept_input payload cs)) = Some ty" using ty by (simp add: accept_input_def)
  then show "\<exists>p. pc_Unmarshal codec (op_Payload oper) = Some p \<and> operationType (pl_Command p) = Some ty"
    using codec raw unfolding codec_ok_def by fastforce
  assume v: "op_Version oper = op_Version (operation cs)"
  obtain p where p: "pc_Unmarshal codec (op_Payload (operation cs)) = Some p" "operationType (pl_Command p) = Some (op_Type (operation cs))"
    using saved by (auto simp: payload_saved_def)
  have v': "pl_OperationRversion payload = op_Version (operation cs)" using v raw(2) by simp
  have "aborts ty (op_Type (operation cs))"
  proof (rule ccontr)
    assume na: "\<not> aborts ty (op_Type (operation cs))"
    have "p\<lparr> pl_LogOffset := pl_LogOffset payload \<rparr> = accept_input payload cs"
      using acc v' p(1) raw(1) na by (auto simp: accept_operation_def Let_def accept_input_def split: if_splits)
    then have "pl_Command (p\<lparr> pl_LogOffset := pl_LogOffset payload \<rparr>) = pl_Command (accept_input payload cs)" by (rule arg_cong)
    then have "pl_Command p = pl_Command payload" by (simp add: accept_input_def)
    then have "op_Type (operation cs) = ty" using p(2) ty by simp
    then show False using acc v' p(1) raw(1) by (auto simp: accept_operation_def Let_def accept_input_def split: if_splits)
  qed
  then show "\<not> is_startup ty" by (auto simp: aborts_def is_startup_def)
qed

lemma manager_invD:
  assumes "manager_inv codec m"
  shows "object_ok codec (mm_Object m)" "\<And>h. h \<in> set (mm_History m) \<Longrightarrow> fresh h \<Longrightarrow> follows h (mm_Object m)"
    "history_ok (mm_History m)" "\<And>t. mm_Task m = Some t \<Longrightarrow> task_ok (mm_Object m) (mm_History m) t" "formats_ok m"
  using assms by (auto simp: manager_inv_def)

lemma object_okD:
  assumes "object_ok codec cs"
  shows "payload_saved codec cs" "0 \<le> generation cs" "generation cs \<le> max_int64"
    "st_Boot (cs_Status cs) = Some b \<Longrightarrow> bt_OperationVersion b \<le> op_Version (operation cs)"
  using assms by (simp_all add: object_ok_def)

text \<open>A new operation makes the object unfit for publishing, because its boot progress is that of an older one.\<close>

lemma accept_not_fresh:
  assumes codec: "codec_ok codec" and ok: "object_ok codec cs" and ty: "operationType (pl_Command payload) = Some ty"
    and ex: "accept_existing site payload cs = None" and acc: "accept_operation codec False ty payload cs = Inr (Some oper)"
  shows "\<not> fresh (bump_generation (set_operation oper cs))" "op_Version (operation cs) \<le> op_Version oper"
proof -
  let ?cs = "bump_generation (set_operation oper cs)"
  note ch = accept_operation_changed [OF codec object_okD(1) [OF ok] ty acc]
  show le: "op_Version (operation cs) \<le> op_Version oper"
    using ex ch(1) by (auto simp: accept_existing_def split: if_splits)
  have op: "operation ?cs = oper" "cs_Status ?cs = cs_Status cs" by (simp_all add: operation_def bump_generation_def set_operation_def)
  show "\<not> fresh ?cs"
  proof
    assume f: "fresh ?cs"
    obtain b where b: "st_Boot (cs_Status cs) = Some b" "bt_OperationVersion b = op_Version oper" using fresh_boot [OF f] op by auto
    then have "op_Version oper = op_Version (operation cs)" using object_okD(4) [OF ok b(1)] le by simp
    then have "\<not> is_startup (op_Type oper)" using ch(2,4) by simp
    then show False using f op by (simp add: fresh_def)
  qed
qed

lemma manager_inv_accept:
  assumes codec: "codec_ok codec" and inv: "manager_inv codec m" and ty: "accept_check (Some payload) = Inr ty"
    and ex: "accept_existing site payload (mm_Object m) = None" and acc: "accept_operation codec False ty payload (mm_Object m) = Inr (Some oper)"
    and cs: "cs = bump_generation (set_operation oper (mm_Object m))" and new: "new = (pl_OperationRversion payload > op_Version (operation (mm_Object m)))"
  shows "manager_inv codec (store cs (m\<lparr> mm_Task := Some \<lparr> ak_Version = op_Version oper, ak_Type = ty, ak_New = new, ak_Seen = cs \<rparr> \<rparr>))"
proof -
  have ty': "operationType (pl_Command payload) = Some ty"
    using ty by (auto simp: accept_check_def split: if_splits option.splits)
  note i = manager_invD [OF inv]
  note nf = accept_not_fresh [OF codec i(1) ty' ex acc]
  note ch = accept_operation_changed [OF codec object_okD(1) [OF i(1)] ty' acc]
  have op: "operation cs = oper" "cs_Status cs = cs_Status (mm_Object m)" by (simp_all add: cs operation_def bump_generation_def set_operation_def)
  have g: "generation cs = generation (mm_Object m)" by (simp add: generation_def op)
  have "payload_saved codec cs"
    using ch(2,3) ty' op by (auto simp: payload_saved_def accept_input_def)
  moreover have "bt_OperationVersion b \<le> op_Version (operation cs)" if "st_Boot (cs_Status cs) = Some b" for b
    using object_okD(4) [OF i(1), of b] that op nf(2) by simp
  ultimately have "object_ok codec cs" using object_okD(2,3) [OF i(1)] g by (simp add: object_ok_def)
  moreover have "follows h cs" if "follows h (mm_Object m)" for h
  proof (rule followsI)
    show "op_Version (operation h) \<le> op_Version (operation cs)" using followsD(1) [OF that] nf(2) op by simp
  qed (use followsD(2-4) [OF that] op g nf(1) cs in auto)
  moreover have "task_ok cs (cs # mm_History m) \<lparr> ak_Version = op_Version oper, ak_Type = ty, ak_New = new, ak_Seen = cs \<rparr>"
  proof -
    have "\<not> fresh h" if "new" "h \<in> set (cs # mm_History m)" "op_Version (operation h) = op_Version oper" for h
    proof
      assume f: "fresh h"
      then have "h \<in> set (mm_History m)" using that(2) nf(1) cs by auto
      then have "op_Version (operation h) \<le> op_Version (operation (mm_Object m))" using followsD(1) [OF i(2)] f by blast
      then show False using that(1,3) new ch(1) by simp
    qed
    then show ?thesis using op by (auto simp: task_ok_def)
  qed
  moreover have "formats_ok (m\<lparr> mm_Object := cs, mm_Formats := mm_Formats m \<rparr>)" using i(5) op by (simp add: formats_ok_def)
  ultimately have "manager_inv codec (store cs (m\<lparr> mm_Task := Some \<lparr> ak_Version = op_Version oper, ak_Type = ty, ak_New = new, ak_Seen = cs \<rparr>, mm_Formats := mm_Formats m \<rparr>))"
    by (intro manager_inv_store [OF inv]) simp_all
  then show ?thesis by simp
qed

lemma manager_inv_bound:
  assumes inv: "manager_inv codec m" and t: "mm_Task m = Some t" "\<not> st_Bound (cs_Status (ak_Seen t))" and cs: "cs = set_bound (mm_Object m)"
  shows "manager_inv codec (store cs (m\<lparr> mm_Task := Some (t\<lparr> ak_Seen := cs \<rparr>) \<rparr>))"
proof -
  note i = manager_invD [OF inv]
  have q: "quiet (mm_Object m) cs" by (simp add: cs quiet_set_bound)
  have op: "operation cs = operation (mm_Object m)" "st_Bound (cs_Status cs)" by (simp_all add: cs set_bound_def operation_def)
  have "task_ok cs (cs # mm_History m) (t\<lparr> ak_Seen := cs \<rparr>)"
    using i(4) [OF t(1)] t(2) op by (auto simp: task_ok_def recovery_not_fresh)
  moreover have "formats_ok (m\<lparr> mm_Object := cs, mm_Formats := mm_Formats m \<rparr>)" using i(5) by (simp add: formats_ok_def cs set_bound_def)
  ultimately have "manager_inv codec (store cs (m\<lparr> mm_Task := Some (t\<lparr> ak_Seen := cs \<rparr>), mm_Formats := mm_Formats m \<rparr>))"
    by (intro manager_inv_store [OF inv object_quiet [OF i(1) q] follows_quiet [OF _ q]]) simp_all
  then show ?thesis by simp
qed

text \<open>
  The end of a recovery may let an object be published again. No version of the object with this
  operation was ever published, so an older one has older boot progress.
\<close>

lemma manager_inv_clear:
  assumes inv: "manager_inv codec m" and t: "mm_Task m = Some t" "st_Bound (cs_Status (ak_Seen t))"
      "st_RecoveryAction (cs_Status (ak_Seen t)) = ''stop''" "ak_New t"
    and cs: "cs = (if st_RecoveryAction (cs_Status (mm_Object m)) = ''stop'' then set_recovery [] (mm_Object m) else mm_Object m)"
  shows "manager_inv codec (store cs (m\<lparr> mm_Task := None \<rparr>))"
proof -
  note i = manager_invD [OF inv]
  have same: "cs_Spec cs = cs_Spec (mm_Object m)" "st_Boot (cs_Status cs) = st_Boot (cs_Status (mm_Object m))"
    "st_Bound (cs_Status cs) = st_Bound (cs_Status (mm_Object m))" "generation cs = generation (mm_Object m)"
    "st_VolumeInitialization (cs_Status cs) = st_VolumeInitialization (cs_Status (mm_Object m))"
    by (simp_all add: cs set_recovery_def generation_def)
  have op: "operation cs = operation (mm_Object m)" by (rule operation_spec [OF same(1)])
  have tk: "ak_Version t = op_Version (operation (mm_Object m))"
    "\<And>h. h \<in> set (mm_History m) \<Longrightarrow> op_Version (operation h) = ak_Version t \<Longrightarrow> \<not> fresh h"
    using i(4) [OF t(1)] t(2-4) by (simp_all add: task_ok_def)
  have "object_ok codec cs" using object_okD [OF i(1)] same op by (simp add: object_ok_def payload_saved_def)
  moreover have "follows h cs" if h: "h \<in> set (mm_History m)" "fresh h" "follows h (mm_Object m)" for h
  proof (rule followsI)
    assume "generation h = generation cs" "st_Boot (cs_Status cs) \<noteq> None"
    then show b: "st_Boot (cs_Status cs) = st_Boot (cs_Status h)" using followsD(4) [OF h(3)] same by auto
    assume "fresh cs"
    obtain v where v: "st_Boot (cs_Status h) = Some v" "bt_OperationVersion v = op_Version (operation h)" using fresh_boot [OF h(2)] by blast
    have "bt_OperationVersion v = op_Version (operation cs)" using fresh_boot [OF \<open>fresh cs\<close>] b v(1) by auto
    then have False using tk h(1,2) v(2) op by simp
    then show "st_Target (cs_Status cs) = st_Target (cs_Status h)" ..
  qed (use followsD(1-3) [OF h(3)] op same in auto)
  moreover have "formats_ok (m\<lparr> mm_Object := cs, mm_Formats := mm_Formats m \<rparr>)" using i(5) same(5) by (simp add: formats_ok_def)
  ultimately have "manager_inv codec (store cs (m\<lparr> mm_Task := None, mm_Formats := mm_Formats m \<rparr>))"
    by (intro manager_inv_store [OF inv]) simp_all
  then show ?thesis by simp
qed

lemma manager_inv_task:
  assumes inv: "manager_inv codec m" and t: "\<And>t. task = Some t \<Longrightarrow> task_ok (mm_Object m) (mm_History m) t"
  shows "manager_inv codec (m\<lparr> mm_Task := task \<rparr>)"
  using manager_invD [OF inv] t by (auto simp: manager_inv_def formats_ok_def)

lemma accept_same_not_new:
  "accept_operation codec False ty payload cs = Inr None \<Longrightarrow> \<not> pl_OperationRversion payload > op_Version (operation cs)"
  by (auto simp: accept_operation_def Let_def accept_input_def split: option.splits if_splits)

lemma quiet_deleted: "quiet cs (cs\<lparr> cs_Deleting := True \<rparr>)"
  by (rule quiet_plain) simp_all

lemma manager_inv_step:
  assumes codec: "codec_ok codec" and step: "manager_step libs codec managementNamespace m m'" and inv: "manager_inv codec m"
  shows "manager_inv codec m'"
  using step
proof cases
  case (actor f cs)
  have f: "f (mm_Object m) = Inr cs" using actor(3) by (simp add: status_attempt_Inr)
  note q = quiet_actor [OF actor(2) f manager_invD(1) [OF inv]]
  show ?thesis unfolding actor(1) using manager_inv_quiet [OF inv q(1) q(2), of "mm_Formats m"] by simp
next
  case (format version ty podUID volumeUID authority now1 now2 cs)
  have f: "prepare_mutation version ty podUID volumeUID authority now1 now2 False (mm_Object m) = Inr cs"
    using format(2) by (simp add: status_attempt_Inr)
  have v: "st_VolumeInitialization (cs_Status (mm_Object m)) = []" "st_VolumeInitialization (cs_Status cs) \<noteq> []"
    "st_Bound (cs_Status cs) = st_Bound (cs_Status (mm_Object m))"
    using f by (auto simp: prepare_mutation_def split: if_splits)
  have "mm_Formats m = 0" using manager_invD(5) [OF inv] v(1) by (auto simp: formats_ok_def)
  then show ?thesis unfolding format(1) using manager_inv_quiet [OF inv quiet_prepare [OF f] v(3), of 1] v(2) by simp
next
  case deleted
  show ?thesis unfolding deleted using manager_inv_quiet [OF inv quiet_deleted, of "mm_Formats m"] by simp
next
  case (coordinator f cs)
  have f: "f (mm_Object m) = Inr cs" using coordinator(4) by (simp add: status_attempt_Inr)
  show ?thesis unfolding coordinator(1)
    using manager_inv_quiet [OF inv quiet_coordinator [OF coordinator(3) f], of "mm_Formats m"] coordinator(2) by simp
next
  case (accept_changed payload ty site oper cs new)
  show ?thesis unfolding accept_changed(1)
    by (rule manager_inv_accept [OF codec inv accept_changed(3-6,8)])
next
  case (accept_same payload ty site new)
  then show ?thesis using accept_same_not_new [OF accept_same(5)]
    by (auto intro!: manager_inv_task [OF inv] simp: task_ok_def)
next
  case (accept_bound t f cs)
  have "cs = set_bound (mm_Object m)"
    using accept_bound(4,5) by (auto simp: status_attempt_Inr bind_mutation_def confirm_mutation_def split: if_splits)
  then show ?thesis unfolding accept_bound(1) by (rule manager_inv_bound [OF inv accept_bound(2,3)])
next
  case (accept_cleared t cs)
  have "cs = (if st_RecoveryAction (cs_Status (mm_Object m)) = ''stop'' then set_recovery [] (mm_Object m) else mm_Object m)"
    using accept_cleared(6) by (auto simp: status_attempt_Inr clear_mutation_def split: if_splits)
  then show ?thesis unfolding accept_cleared(1) by (rule manager_inv_clear [OF inv accept_cleared(2-5)])
next
  case accept_ended
  show ?thesis unfolding accept_ended by (rule manager_inv_task [OF inv]) simp
qed

lemma manager_inv_init: "manager_init codec m \<Longrightarrow> manager_inv codec m"
  by (auto simp: manager_init_def manager_inv_def object_ok_def generation_def history_ok_def task_ok_def formats_ok_def fresh_def
      zero_status_def max_int64_def)

interpretation codespace_safe: safe_machine "manager_init codec" "manager_step libs codec managementNamespace" "\<lambda>m. codec_ok codec \<longrightarrow> manager_inv codec m"
  for codec :: "'raw payload_codec" and libs managementNamespace
  by unfold_locales (auto intro: manager_inv_init manager_inv_step)

section \<open>Properties\<close>

lemma history_okD:
  "history_ok hist \<Longrightarrow> h \<in> set hist \<Longrightarrow> h' \<in> set hist \<Longrightarrow> fresh h \<Longrightarrow> fresh h' \<Longrightarrow> generation h = generation h' \<Longrightarrow> same_content h h'"
  unfolding history_ok_def by blast

lemma runtimeMetadata_usage: "runtimeMetadata cs = Inr md \<Longrightarrow> md\<lparr> md_ResourceUsage := None \<rparr> = md"
  by (auto simp: runtimeMetadata_def split: sum.splits option.splits if_splits)

lemma flush_metadata_fresh:
  assumes "\<not> flush_skip cs" "flush_metadata now samples cs = Inr (Some (g, md))"
  shows "fresh cs" "generation cs = g" "runtimeMetadata cs = Inr (md\<lparr> md_ResourceUsage := None \<rparr>)" "md_ResourceUsage md = fst (sample_Load cs now samples)"
  using assms runtimeMetadata_usage [of cs]
  by (auto simp: flush_skip_def flush_metadata_def fresh_def generation_def Let_def split: if_splits option.splits sum.splits)

lemma runtimeMetadata_content: "same_content cs cs' \<Longrightarrow> runtimeMetadata cs = runtimeMetadata cs'"
proof -
  assume "same_content cs cs'"
  then have "st_Boot (cs_Status cs) = st_Boot (cs_Status cs')" "st_Target (cs_Status cs) = st_Target (cs_Status cs')"
    by (simp_all add: same_content_def)
  then show ?thesis unfolding runtimeMetadata_def by (rule arg_cong2 [of _ _ _ _ "\<lambda>b t. case runtimeBootToProto b of Inl e \<Rightarrow> Inl metadataInvalid
    | Inr boot \<Rightarrow> (case t of Some target \<Rightarrow> _ boot target | None \<Rightarrow> _ boot)"])
qed

text \<open>C12: The generation of the metadata identifies its durable content: two metadata requests for one
  codespace with the same generation carry the same boot progress, workspace folder and endpoints,
  whatever versions of the object they were built from and however Agent reports, pod failures,
  administrator stops, recoveries and new operations interleave. Only the resource usage may differ: it
  is the sample that the Manager holds in memory when it sends the request.\<close>
theorem metadata_generation_identifies:
  assumes "codec_ok codec" and "reachable (manager_init codec) (manager_step libs codec managementNamespace) m"
    and "cs \<in> set (mm_History m)" "\<not> flush_skip cs" "flush_metadata now samples cs = Inr (Some (g, md))"
    and "cs' \<in> set (mm_History m)" "\<not> flush_skip cs'" "flush_metadata now' samples' cs' = Inr (Some (g, md'))"
  shows "md\<lparr> md_ResourceUsage := None \<rparr> = md'\<lparr> md_ResourceUsage := None \<rparr>
     \<and> md_ResourceUsage md = fst (sample_Load cs now samples) \<and> md_ResourceUsage md' = fst (sample_Load cs' now' samples')"
proof -
  have ok: "history_ok (mm_History m)" using codespace_safe.reachable_inv [OF assms(2)] assms(1) by (simp add: manager_inv_def)
  note f = flush_metadata_fresh [OF assms(4,5)] and f' = flush_metadata_fresh [OF assms(7,8)]
  have "same_content cs cs'" by (rule history_okD [OF ok assms(3,6) f(1) f'(1)]) (simp add: f(2) f'(2))
  then have "runtimeMetadata cs = runtimeMetadata cs'" by (rule runtimeMetadata_content)
  then show ?thesis using f(3,4) f'(3,4) by simp
qed

text \<open>C18: The Manager grants the format of a data volume at most once in the life of a codespace, also when the
  reply is lost and the Agent asks again, when a new pod or a new operation asks, and however the
  updates of other actors interleave.\<close>
theorem format_granted_once:
  assumes "codec_ok codec" and "reachable (manager_init codec) (manager_step libs codec managementNamespace) m"
  shows "mm_Formats m \<le> 1
     \<and> (mm_Formats m = 1 \<longrightarrow> (\<forall>version ty podUID volumeUID authority now1 now2 cs.
          prepare_mutation version ty podUID volumeUID authority now1 now2 False (mm_Object m) \<noteq> Inr cs))"
proof -
  have "formats_ok m" using codespace_safe.reachable_inv [OF assms(2)] assms(1) by (simp add: manager_inv_def)
  then show ?thesis by (auto simp: formats_ok_def prepare_mutation_def)
qed

section \<open>An interrupted recovery\<close>

text \<open>
  \<open>Accept\<close> ends the recovery of a codespace only in the call that writes the new operation. A path on
  which the saved operation keeps its version, after a coordinator died in between:
\<close>

definition same_version_step ::
    "'raw manager_libs \<Rightarrow> 'raw payload_codec \<Rightarrow> string \<Rightarrow> int \<Rightarrow> 'raw manager_machine \<Rightarrow> 'raw manager_machine \<Rightarrow> bool" where
  "same_version_step libs codec managementNamespace v m m' \<longleftrightarrow>
     manager_step libs codec managementNamespace m m' \<and> op_Version (operation (mm_Object m')) = v"

definition stuck :: "int \<Rightarrow> 'raw manager_machine \<Rightarrow> bool" where
  "stuck v m \<longleftrightarrow> op_Version (operation (mm_Object m)) = v \<and> st_RecoveryAction (cs_Status (mm_Object m)) \<noteq> []
     \<and> (\<forall>t. mm_Task m = Some t \<longrightarrow> \<not> ak_New t)"

lemma stuck_step:
  assumes codec: "codec_ok codec" and inv: "manager_inv codec m" and st: "stuck v m"
    and step: "manager_step libs codec managementNamespace m m'" and v: "op_Version (operation (mm_Object m')) = v"
  shows "stuck v m'"
  using step
proof cases
  case (actor f cs)
  have f: "f (mm_Object m) = Inr cs" using actor(3) by (simp add: status_attempt_Inr)
  note q = quietD(3) [OF quiet_actor(1) [OF actor(2) f manager_invD(1) [OF inv]]]
  show ?thesis using q st v unfolding actor(1) by (simp add: stuck_def store_def)
next
  case (format version ty podUID volumeUID authority now1 now2 cs)
  have f: "prepare_mutation version ty podUID volumeUID authority now1 now2 False (mm_Object m) = Inr cs"
    using format(2) by (simp add: status_attempt_Inr)
  show ?thesis using quietD(3) [OF quiet_prepare [OF f]] st v unfolding format(1) by (simp add: stuck_def store_def)
next
  case (coordinator f cs)
  have f: "f (mm_Object m) = Inr cs" using coordinator(4) by (simp add: status_attempt_Inr)
  show ?thesis using quietD(3) [OF quiet_coordinator [OF coordinator(3) f]] st v unfolding coordinator(1) by (simp add: stuck_def store_def)
next
  case (accept_changed payload ty site oper cs new)
  have ty': "operationType (pl_Command payload) = Some ty"
    using accept_changed(3) by (auto simp: accept_check_def split: if_splits option.splits)
  note ch = accept_operation_changed [OF codec object_okD(1) [OF manager_invD(1) [OF inv]] ty' accept_changed(5)]
  have "operation cs = oper" "cs_Status cs = cs_Status (mm_Object m)" by (simp_all add: accept_changed(6) operation_def bump_generation_def set_operation_def)
  then show ?thesis using st v ch(1) accept_changed(8) unfolding accept_changed(1) by (simp add: stuck_def store_def)
next
  case (accept_same payload ty site new)
  then show ?thesis using accept_same_not_new [OF accept_same(5)] st by (simp add: stuck_def)
next
  case (accept_bound t f cs)
  have "cs = set_bound (mm_Object m)"
    using accept_bound(4,5) by (auto simp: status_attempt_Inr bind_mutation_def confirm_mutation_def split: if_splits)
  then show ?thesis using st v accept_bound(2) unfolding accept_bound(1) by (simp add: stuck_def store_def set_bound_def)
next
  case (accept_cleared t cs)
  then show ?thesis using st by (simp add: stuck_def)
qed (use st v in \<open>simp_all add: stuck_def store_def operation_def\<close>)

lemma stuck_path:
  assumes "codec_ok codec" "(same_version_step libs codec managementNamespace v)\<^sup>*\<^sup>* m m'" "manager_inv codec m" "stuck v m"
  shows "manager_inv codec m' \<and> stuck v m'"
  using assms(2)
proof (induction rule: rtranclp_induct)
  case base
  then show ?case using assms(3,4) by blast
next
  case (step y z)
  then show ?case using manager_inv_step [OF assms(1)] stuck_step [OF assms(1)] by (auto simp: same_version_step_def)
qed

text \<open>C39: When the coordinator dies after it has saved a new operation for a codespace in recovery and before it
  has ended the recovery, no delivery of that operation ends it: as long as Gitea sends no newer
  version, the recovery stays and every \<open>Flush\<close> skips the codespace, so its metadata and the outcome of
  the operation are not reported (only a redelivery that is refused is answered, with a failure).\<close>
theorem interrupted_accept_stays_in_recovery:
  assumes "codec_ok codec" and "reachable (manager_init codec) (manager_step libs codec managementNamespace) m"
    and "mm_Task m = None" "st_RecoveryAction (cs_Status (mm_Object m)) = ''stop''"
    and "(same_version_step libs codec managementNamespace (op_Version (operation (mm_Object m))))\<^sup>*\<^sup>* m m'"
  shows "st_RecoveryAction (cs_Status (mm_Object m')) \<noteq> [] \<and> flush_skip (mm_Object m')"
proof -
  have inv: "manager_inv codec m" using codespace_safe.reachable_inv [OF assms(2)] assms(1) by simp
  have "stuck (op_Version (operation (mm_Object m))) m" using assms(3,4) by (simp add: stuck_def)
  then have "stuck (op_Version (operation (mm_Object m))) m'" using stuck_path [OF assms(1,5) inv] by blast
  then show ?thesis by (simp add: stuck_def flush_skip_def)
qed

section \<open>A run\<close>

definition demo_codec :: "OperationPayload payload_codec" where
  "demo_codec = \<lparr> pc_Marshal = Some, pc_Unmarshal = Some,
     pc_Empty = \<lparr> pl_CodespaceId = 0, pl_OperationRversion = 0, pl_LogOffset = 0, pl_RuntimeUuid = [], pl_LeaseValidForMilliseconds = 0, pl_Command = Command_None \<rparr> \<rparr>"

definition demo_libs :: "OperationPayload manager_libs" where
  "demo_libs = \<lparr> lib_RuntimeValid = (\<lambda>_. True), lib_ObjectSizeOK = (\<lambda>_. True) \<rparr>"

definition demo_uuid :: string where
  "demo_uuid = ''11111111-1111-4111-8111-111111111111''"

definition demo_command :: StartupCommand where
  "demo_command = \<lparr> sc_RuntimeSettings = Some \<lparr> AutoStopEnabled = False, IdleTimeoutSeconds = 0, InteractionGeneration = 0 \<rparr>,
     sc_EnvironmentTag = ''e'', sc_Content = [] \<rparr>"

definition demo_payload :: "int \<Rightarrow> Command \<Rightarrow> OperationPayload" where
  "demo_payload version command = \<lparr> pl_CodespaceId = 7, pl_OperationRversion = version, pl_LogOffset = 0, pl_RuntimeUuid = demo_uuid,
     pl_LeaseValidForMilliseconds = 0, pl_Command = command \<rparr>"

definition demo_codespace :: "CodespaceStatus \<Rightarrow> OperationPayload Codespace" where
  "demo_codespace status = \<lparr> cs_Name = ''codespace-7'', cs_Namespace = ''codespace-s'', cs_UID = ''uid'', cs_Generation = 1, cs_Deleting = False,
     cs_Spec = \<lparr> sp_SiteName = ''s'', sp_SiteUID = ''site'', sp_CodespaceID = 7, sp_RuntimeUUID = demo_uuid, sp_EnvironmentTag = ''e'',
       sp_Runtime = \<lparr> rc_Image = ''i'', rc_GitSSHKeyType = ''ed25519'', rc_Proxy = False, rc_BlockVolume = True, rc_Settings = [] \<rparr>,
       sp_Operation = \<lparr> op_Version = 1, op_Type = ''create'', op_Payload = demo_payload 1 (Command_Create (Some demo_command)) \<rparr> \<rparr>,
     cs_Status = status \<rparr>"

definition demo_bound :: CodespaceStatus where
  "demo_bound = zero_status\<lparr> st_Bound := True \<rparr>"

definition demo_booted :: CodespaceStatus where
  "demo_booted = demo_bound\<lparr> st_Boot := Some \<lparr> bt_OperationVersion = 1, bt_Stage = ''prepare-runtime'', bt_StartedUnix = 5, bt_LastUpdateUnix = 5 \<rparr>,
     st_MetadataGeneration := 1 \<rparr>"

definition demo_report :: AgentReport where
  "demo_report = \<lparr> ar_OperationRversion = 1, ar_GitSshPublicKey = [], ar_Result = None, ar_Target = None,
     ar_Boot = Some \<lparr> bp_OperationRversion = 1, bp_Stage = 1, bp_StartedUnix = 5, bp_LastUpdateUnix = 5 \<rparr> \<rparr>"

definition demo_machine :: "OperationPayload Codespace list \<Rightarrow> OperationPayload accept_task option \<Rightarrow> nat \<Rightarrow> OperationPayload manager_machine" where
  "demo_machine history task formats = \<lparr> mm_Object = hd history, mm_History = history, mm_Task = task, mm_Formats = formats \<rparr>"

abbreviation (input) demo_reach :: "OperationPayload manager_machine \<Rightarrow> bool" where
  "demo_reach \<equiv> reachable (manager_init demo_codec) (manager_step demo_libs demo_codec ''m'')"

lemma demo_payload_codec_ok: "codec_ok demo_codec"
  by (simp add: codec_ok_def demo_codec_def)

lemma demo_store: "store cs (demo_machine h task n) = demo_machine (cs # h) task n"
  by (simp add: store_def demo_machine_def)

lemma demo_next: "demo_reach m \<Longrightarrow> manager_step demo_libs demo_codec ''m'' m m' \<Longrightarrow> demo_reach m'"
  by (rule reach_step)

lemma demo_actor:
  assumes "demo_reach (demo_machine (cs # h) task n)" "actor_mutation demo_libs f" "status_attempt demo_libs (cs_UID cs) f cs = Inr cs'"
  shows "demo_reach (demo_machine (cs' # cs # h) task n)"
  using reach_step [OF assms(1) actor [OF assms(2)]] assms(3) by (simp add: demo_store) (simp add: demo_machine_def)

lemma demo_coordinator:
  assumes "demo_reach (demo_machine (cs # h) None n)" "coordinator_mutation f" "status_attempt demo_libs (cs_UID cs) f cs = Inr cs'"
  shows "demo_reach (demo_machine (cs' # cs # h) None n)"
proof -
  have "manager_step demo_libs demo_codec ''m'' (demo_machine (cs # h) None n) (store cs' (demo_machine (cs # h) None n))"
    by (rule coordinator [OF _ assms(2)]) (simp_all add: demo_machine_def assms(3))
  with assms(1) have "demo_reach (store cs' (demo_machine (cs # h) None n))" by (rule demo_next)
  then show ?thesis by (simp add: demo_store)
qed

lemma demo_manager_run: "demo_reach (demo_machine [demo_codespace demo_bound, demo_codespace zero_status] None 0)"
proof -
  have "demo_reach (demo_machine [demo_codespace zero_status] None 0)"
    by (rule reach_init) (simp add: manager_init_def demo_machine_def payload_saved_def demo_codec_def demo_codespace_def demo_payload_def operation_def operationType_def)
  moreover have "status_attempt demo_libs (cs_UID (demo_codespace zero_status)) (bind_mutation 1 demo_uuid) (demo_codespace zero_status) = Inr (demo_codespace demo_bound)"
    by code_simp
  ultimately show ?thesis using demo_coordinator coordinator_mutation.intros(1) by blast
qed

lemma demo_reported:
  "demo_reach (demo_machine [demo_codespace (demo_booted\<lparr> st_StoppedPodUID := ''p'' \<rparr>), demo_codespace demo_booted, demo_codespace demo_bound, demo_codespace zero_status] None 0)"
proof -
  have "status_attempt demo_libs (cs_UID (demo_codespace demo_bound)) (applyAgentReport demo_libs (Some demo_report)) (demo_codespace demo_bound) = Inr (demo_codespace demo_booted)"
    by code_simp
  then have "demo_reach (demo_machine [demo_codespace demo_booted, demo_codespace demo_bound, demo_codespace zero_status] None 0)"
    using demo_actor [OF demo_manager_run] actor_mutation.intros(1) by blast
  moreover have "status_attempt demo_libs (cs_UID (demo_codespace demo_booted)) (stopped_pod_mutation ''p'') (demo_codespace demo_booted)
      = Inr (demo_codespace (demo_booted\<lparr> st_StoppedPodUID := ''p'' \<rparr>))"
    by code_simp
  ultimately show ?thesis using demo_actor actor_mutation.intros(10) by blast
qed

definition demo_usage :: RuntimeResourceUsage where
  "demo_usage = \<lparr> ru_ObservedUnix = 100, ru_Cpu = Some (1, 2), ru_Memory = Some (1, 2), ru_Disk = Some (1, 2) \<rparr>"

definition demo_samples :: "(string, resourceSample) fmap" where
  "demo_samples = fmupd ''uid'' \<lparr> rs_site = ''site'', rs_pod = [], rs_operation = 1, rs_usage = demo_usage \<rparr> fmempty"

definition demo_metadata :: RuntimeMetadata where
  "demo_metadata = \<lparr> md_Boot = Some \<lparr> bp_OperationRversion = 1, bp_Stage = 1, bp_StartedUnix = 5, bp_LastUpdateUnix = 5 \<rparr>, md_WorkspaceFolder = [],
     md_Endpoints = [], md_ResourceUsage = None \<rparr>"

theorem metadata_generation_identifies_witness:
  "\<exists>md md'. flush_metadata 100 demo_samples (demo_codespace demo_booted) = Inr (Some (1, md))
   \<and> flush_metadata 100 fmempty (demo_codespace (demo_booted\<lparr> st_StoppedPodUID := ''p'' \<rparr>)) = Inr (Some (1, md'))
   \<and> md\<lparr> md_ResourceUsage := None \<rparr> = md'\<lparr> md_ResourceUsage := None \<rparr>"
proof -
  have a: "flush_metadata 100 demo_samples (demo_codespace demo_booted) = Inr (Some (1, demo_metadata\<lparr> md_ResourceUsage := Some demo_usage \<rparr>))"
    "\<not> flush_skip (demo_codespace demo_booted)" by code_simp+
  have b: "flush_metadata 100 fmempty (demo_codespace (demo_booted\<lparr> st_StoppedPodUID := ''p'' \<rparr>)) = Inr (Some (1, demo_metadata))"
    "\<not> flush_skip (demo_codespace (demo_booted\<lparr> st_StoppedPodUID := ''p'' \<rparr>))" by code_simp+
  have "(demo_metadata\<lparr> md_ResourceUsage := Some demo_usage \<rparr>)\<lparr> md_ResourceUsage := None \<rparr> = demo_metadata\<lparr> md_ResourceUsage := None \<rparr>"
    using metadata_generation_identifies [OF demo_payload_codec_ok demo_reported _ a(2,1) _ b(2,1)] by (simp add: demo_machine_def)
  then show ?thesis using a b by blast
qed

definition demo_authority :: ExecutionAuthority where
  "demo_authority = fmupd ''uid'' \<lparr> lease_version = 1, lease_deadline = 100 \<rparr> fmempty"

lemma demo_formatted:
  "demo_reach (demo_machine [demo_codespace (demo_bound\<lparr> st_VolumeInitialization := ''started'' \<rparr>), demo_codespace demo_bound, demo_codespace zero_status] None 1)"
proof -
  let ?m = "demo_machine [demo_codespace demo_bound, demo_codespace zero_status] None 0"
  let ?cs = "demo_codespace (demo_bound\<lparr> st_VolumeInitialization := ''started'' \<rparr>)"
  have r: "Remaining demo_authority ''uid'' 1 1 1 = 99"
    by (simp add: Remaining_def lease_of_def demo_authority_def time_sub_def min_int64_def max_int64_def)
  have "status_attempt demo_libs (cs_UID (mm_Object ?m)) (prepare_mutation 1 ''create'' [] [] demo_authority 1 1 False) (mm_Object ?m) = Inr ?cs"
    by (simp add: status_attempt_Inr demo_machine_def demo_libs_def prepare_mutation_def demo_codespace_def operation_def demo_bound_def zero_status_def is_startup_def r)
  then have "manager_step demo_libs demo_codec ''m'' ?m (store ?cs (?m\<lparr> mm_Formats := Suc (mm_Formats ?m) \<rparr>))" by (rule format)
  with demo_manager_run have "demo_reach (store ?cs (?m\<lparr> mm_Formats := Suc (mm_Formats ?m) \<rparr>))" by (rule demo_next)
  then show ?thesis by (simp add: store_def demo_machine_def)
qed

theorem format_granted_once_witness:
  "mm_Formats (demo_machine [demo_codespace (demo_bound\<lparr> st_VolumeInitialization := ''started'' \<rparr>), demo_codespace demo_bound, demo_codespace zero_status] None 1) = 1
   \<and> prepare_mutation 1 ''create'' [] [] demo_authority 1 1 False (demo_codespace (demo_bound\<lparr> st_VolumeInitialization := ''started'' \<rparr>)) \<noteq> Inr (demo_codespace demo_bound)"
  using format_granted_once [OF demo_payload_codec_ok demo_formatted] by (simp add: demo_machine_def)

definition demo_site :: GiteaSite where
  "demo_site = \<lparr> gs_Name = ''s'', gs_UID = ''site'', gs_NamespaceUID = ''n'', gs_Templates = [] \<rparr>"

definition demo_resume :: OperationPayload where
  "demo_resume = demo_payload 2 (Command_Resume (Some demo_command))"

definition demo_recovering :: "OperationPayload Codespace" where
  "demo_recovering = set_recovery ''stop'' (demo_codespace demo_bound)"

definition demo_resumed :: "OperationPayload Codespace" where
  "demo_resumed = bump_generation (set_operation \<lparr> op_Version = 2, op_Type = ''resume'', op_Payload = demo_resume \<rparr> demo_recovering)"

abbreviation (input) demo_interrupted :: "OperationPayload accept_task option \<Rightarrow> OperationPayload manager_machine" where
  "demo_interrupted task \<equiv> demo_machine [demo_resumed, demo_recovering, demo_codespace demo_bound, demo_codespace zero_status] task 0"

lemma demo_interrupted_reach: "demo_reach (demo_interrupted None)"
proof -
  let ?m = "demo_machine [demo_recovering, demo_codespace demo_bound, demo_codespace zero_status] None 0"
  let ?t = "\<lparr> ak_Version = 2, ak_Type = ''resume'', ak_New = True, ak_Seen = demo_resumed \<rparr>"
  have "status_attempt demo_libs (cs_UID (demo_codespace demo_bound)) (inventory_mutation 1 ''create'' demo_uuid ACTION_STOP) (demo_codespace demo_bound) = Inr demo_recovering"
    by code_simp
  then have r: "demo_reach ?m" using demo_coordinator [OF demo_manager_run] coordinator_mutation.intros(3) by blast
  have "manager_step demo_libs demo_codec ''m'' ?m (store demo_resumed (?m\<lparr> mm_Task := Some ?t \<rparr>))"
  proof (rule accept_changed [where payload = demo_resume and ty = "''resume''" and site = demo_site and new = True
        and oper = "\<lparr> op_Version = 2, op_Type = ''resume'', op_Payload = demo_resume \<rparr>" and cs = demo_resumed and m = ?m, simplified])
    show "accept_check (Some demo_resume) = Inr ''resume''" by code_simp
    show "accept_existing demo_site demo_resume (mm_Object ?m) = None" by code_simp
    show "accept_operation demo_codec False ''resume'' demo_resume (mm_Object ?m) = Inr (Some \<lparr> op_Version = 2, op_Type = ''resume'', op_Payload = demo_resume \<rparr>)" by code_simp
    show "demo_resumed = bump_generation (set_operation \<lparr> op_Version = 2, op_Type = ''resume'', op_Payload = demo_resume \<rparr> (mm_Object ?m))"
      by (simp add: demo_resumed_def demo_machine_def)
    show "codespace_Validate demo_libs ''m'' demo_resumed = None" by code_simp
    show "op_Version (operation (mm_Object ?m)) < pl_OperationRversion demo_resume" by code_simp
  qed (simp add: demo_machine_def)
  with r have "demo_reach (store demo_resumed (?m\<lparr> mm_Task := Some ?t \<rparr>))" by (rule demo_next)
  then have "demo_reach ((store demo_resumed (?m\<lparr> mm_Task := Some ?t \<rparr>))\<lparr> mm_Task := None \<rparr>)" by (rule demo_next) (rule accept_ended)
  then show ?thesis by (simp add: store_def demo_machine_def)
qed

lemma demo_redelivery:
  "same_version_step demo_libs demo_codec ''m'' 2 (demo_interrupted None)
     (demo_interrupted (Some \<lparr> ak_Version = 2, ak_Type = ''resume'', ak_New = False, ak_Seen = demo_resumed \<rparr>))"
proof -
  have "manager_step demo_libs demo_codec ''m'' (demo_interrupted None)
      ((demo_interrupted None)\<lparr> mm_Task := Some \<lparr> ak_Version = op_Version (operation (mm_Object (demo_interrupted None))), ak_Type = ''resume'', ak_New = False, ak_Seen = mm_Object (demo_interrupted None) \<rparr> \<rparr>)"
  proof (rule accept_same [where payload = demo_resume and ty = "''resume''" and site = demo_site])
    show "accept_check (Some demo_resume) = Inr ''resume''" by code_simp
    show "accept_existing demo_site demo_resume (mm_Object (demo_interrupted None)) = None" by code_simp
    show "accept_operation demo_codec False ''resume'' demo_resume (mm_Object (demo_interrupted None)) = Inr None" by code_simp
    show "False = (op_Version (operation (mm_Object (demo_interrupted None))) < pl_OperationRversion demo_resume)" by code_simp
  qed (simp add: demo_machine_def)
  moreover have "op_Version (operation demo_resumed) = 2" by code_simp
  ultimately show ?thesis by (simp add: same_version_step_def demo_machine_def)
qed

theorem interrupted_accept_stays_in_recovery_witness:
  "flush_skip (mm_Object (demo_interrupted (Some \<lparr> ak_Version = 2, ak_Type = ''resume'', ak_New = False, ak_Seen = demo_resumed \<rparr>)))
   \<and> op_Type (operation demo_resumed) = ''resume''"
proof -
  have v: "op_Version (operation (mm_Object (demo_interrupted None))) = 2" "mm_Task (demo_interrupted None) = None"
    "st_RecoveryAction (cs_Status (mm_Object (demo_interrupted None))) = ''stop''" "op_Type (operation demo_resumed) = ''resume''" by code_simp+
  have "(same_version_step demo_libs demo_codec ''m'' 2)\<^sup>*\<^sup>* (demo_interrupted None)
     (demo_interrupted (Some \<lparr> ak_Version = 2, ak_Type = ''resume'', ak_New = False, ak_Seen = demo_resumed \<rparr>))"
    using demo_redelivery by (rule r_into_rtranclp)
  from interrupted_accept_stays_in_recovery [OF demo_payload_codec_ok demo_interrupted_reach v(2,3), unfolded v(1), OF this] v(4) show ?thesis by blast
qed

end
