(* ===== verification/Go_Http.thy ===== *)
theory Go_Http
  imports Route_Store
begin

text \<open>
  What the Gateway uses of \<open>strings\<close>, \<open>net\<close>, \<open>net/url\<close> and \<open>net/http\<close>. Strings are
  the byte strings of Go. Splitting, joining, trimming, folding case, host and port, header maps with
  their canonical keys are written out. The Unicode tables, the URL parser and printer, the cookie
  parser and printer and the address parser are the fields of \<open>go_library\<close>, an argument of the
  functions that use them.
\<close>

section \<open>Strings\<close>

definition HasPrefix :: "string \<Rightarrow> string \<Rightarrow> bool" where
  "HasPrefix s p \<longleftrightarrow> take (length p) s = p"

definition HasSuffix :: "string \<Rightarrow> string \<Rightarrow> bool" where
  "HasSuffix s p \<longleftrightarrow> length p \<le> length s \<and> drop (length s - length p) s = p"

definition TrimSuffix :: "string \<Rightarrow> string \<Rightarrow> string" where
  "TrimSuffix s p = (if HasSuffix s p then take (length s - length p) s else s)"

definition CutPrefix :: "string \<Rightarrow> string \<Rightarrow> string option" where
  "CutPrefix s p = (if HasPrefix s p then Some (drop (length p) s) else None)"

fun Contains :: "string \<Rightarrow> string \<Rightarrow> bool" where
  "Contains [] p = (p = [])"
| "Contains (c # s) p = (HasPrefix (c # s) p \<or> Contains s p)"

definition Trim :: "char \<Rightarrow> string \<Rightarrow> string" where
  "Trim c s = TrimRight c (dropWhile (\<lambda>x. x = c) s)"

fun Split :: "char \<Rightarrow> string \<Rightarrow> string list" where
  "Split c [] = [[]]"
| "Split c (x # s) =
     (if x = c then [] # Split c s
      else case Split c s of [] \<Rightarrow> [[x]] | p # ps \<Rightarrow> (x # p) # ps)"

fun Join :: "string \<Rightarrow> string list \<Rightarrow> string" where
  "Join sep [] = []"
| "Join sep [p] = p"
| "Join sep (p # q # ps) = p @ sep @ Join sep (q # ps)"

text \<open>\<open>strings.Cut\<close> at a character: before, after and whether it was found.\<close>

definition Cut :: "char \<Rightarrow> string \<Rightarrow> string \<times> string \<times> bool" where
  "Cut c s =
     (case index_first c s of
        None \<Rightarrow> (s, [], False)
      | Some i \<Rightarrow> (take i s, drop (i + 1) s, True))"

definition ascii :: "string \<Rightarrow> bool" where
  "ascii s \<longleftrightarrow> list_all (\<lambda>c. byte c < 0x80) s"

definition ascii_lower :: "char \<Rightarrow> char" where
  "ascii_lower c = (if between (byte (CHR ''A'')) c (byte (CHR ''Z'')) then char_of (byte c + 32) else c)"

definition ascii_upper :: "char \<Rightarrow> char" where
  "ascii_upper c = (if between (byte (CHR ''a'')) c (byte (CHR ''z'')) then char_of (byte c - 32) else c)"

text \<open>
  \<open>strings.EqualFold\<close> with an ASCII second argument. Simple case folding relates two more code
  points to ASCII letters: the Kelvin sign U+212A to k and the long s U+017F to s.
\<close>

fun EqualFold :: "string \<Rightarrow> string \<Rightarrow> bool" where
  "EqualFold s [] = (s = [])"
| "EqualFold s (d # ds) =
     (case s of
        [] \<Rightarrow> False
      | c # cs \<Rightarrow>
          if byte c < 0x80 then ascii_lower c = ascii_lower d \<and> EqualFold cs ds
          else if take 3 s = [CHR 0xE2, CHR 0x84, CHR 0xAA]
          then ascii_lower d = CHR ''k'' \<and> EqualFold (drop 3 s) ds
          else if take 2 s = [CHR 0xC5, CHR 0xBF]
          then ascii_lower d = CHR ''s'' \<and> EqualFold (drop 2 s) ds
          else False)"

section \<open>URLs, cookies and the library\<close>

record url =
  url_Scheme :: string
  url_User :: "string option"
  url_Host :: string
  url_Path :: string
  url_RawPath :: string
  url_RawQuery :: string
  url_Fragment :: string

datatype sameSite = SameSiteUnset | SameSiteDefaultMode | SameSiteLaxMode | SameSiteStrictMode | SameSiteNoneMode

record cookie =
  ck_Name :: string
  ck_Value :: string
  ck_Path :: string
  ck_Domain :: string
  ck_Expires :: time
  ck_RawExpires :: string
  ck_MaxAge :: int
  ck_Secure :: bool
  ck_HttpOnly :: bool
  ck_SameSite :: sameSite
  ck_Partitioned :: bool
  ck_Raw :: string
  ck_Unparsed :: "string list"

text \<open>
  \<open>unicodeLower\<close> is \<open>strings.ToLower\<close> on strings with a byte outside ASCII, \<open>pathUnescape\<close> is
  \<open>url.PathUnescape\<close>, which the server mux uses on a segment and which leaves a malformed one alone. \<open>'a\<close> are the
  addresses and \<open>'p\<close> the prefixes of \<open>net/netip\<close>.
\<close>

record ('a, 'p) go_library =
  unicodeLower :: "string \<Rightarrow> string"
  urlParse :: "string \<Rightarrow> url option"
  urlString :: "url \<Rightarrow> string"
  urlEscapedPath :: "url \<Rightarrow> string"
  urlQuery :: "string \<Rightarrow> (string, string list) fmap"
  pathEscape :: "string \<Rightarrow> string"
  pathUnescape :: "string \<Rightarrow> string"
  queryEscape :: "string \<Rightarrow> string"
  parseCookie :: "string \<Rightarrow> cookie list option"
  requestCookies :: "string list \<Rightarrow> cookie list"
  parseSetCookie :: "string \<Rightarrow> cookie option"
  cookieString :: "cookie \<Rightarrow> string"
  cookieValid :: "cookie \<Rightarrow> bool"
  parseIP :: "string \<Rightarrow> string option"
  parseAddr :: "string \<Rightarrow> 'a option"
  parseAddrPort :: "string \<Rightarrow> 'a option"
  parsePrefix :: "string \<Rightarrow> 'p option"
  maskedPrefix :: "'p \<Rightarrow> 'p"
  unmapAddr :: "'a \<Rightarrow> 'a"
  addrString :: "'a \<Rightarrow> string"
  prefixContains :: "'p \<Rightarrow> 'a \<Rightarrow> bool"

definition ToLower :: "('a, 'p) go_library \<Rightarrow> string \<Rightarrow> string" where
  "ToLower lib s = (if ascii s then map ascii_lower s else unicodeLower lib s)"

text \<open>\<open>url.URL.Hostname\<close> and \<open>url.URL.Port\<close>.\<close>

definition validOptionalPort :: "string \<Rightarrow> bool" where
  "validOptionalPort port \<longleftrightarrow>
     port = [] \<or> (hd port = CHR '':'' \<and> list_all (\<lambda>c. between (byte (CHR ''0'')) c (byte (CHR ''9''))) (tl port))"

definition url_split_port :: "string \<Rightarrow> string \<times> string" where
  "url_split_port s =
     (case index_last (CHR '':'') s of
        None \<Rightarrow> (s, [])
      | Some i \<Rightarrow> if validOptionalPort (drop i s) then (take i s, drop (i + 1) s) else (s, []))"

definition Hostname :: "url \<Rightarrow> string" where
  "Hostname u =
     (let host = fst (url_split_port (url_Host u))
      in if HasPrefix host ''['' \<and> HasSuffix host '']'' then take (length host - 2) (drop 1 host) else host)"

definition url_Port :: "url \<Rightarrow> string" where
  "url_Port u = snd (url_split_port (url_Host u))"

definition JoinHostPort :: "string \<Rightarrow> string \<Rightarrow> string" where
  "JoinHostPort host port =
     (if CHR '':'' \<in> set host then ''['' @ host @ '']:'' @ port else host @ '':'' @ port)"

section \<open>Headers and requests\<close>

text \<open>\<open>textproto.CanonicalMIMEHeaderKey\<close>: a key with a byte that no token has stays as it is.\<close>

definition token_byte :: "char \<Rightarrow> bool" where
  "token_byte c \<longleftrightarrow>
     between (byte (CHR ''a'')) c (byte (CHR ''z'')) \<or> between (byte (CHR ''A'')) c (byte (CHR ''Z'')) \<or>
     between (byte (CHR ''0'')) c (byte (CHR ''9'')) \<or>
     c \<in> set (''!#$%&*+-.^_|~'' @ [CHR 0x27, CHR 0x60])"

fun capitalize :: "bool \<Rightarrow> string \<Rightarrow> string" where
  "capitalize up [] = []"
| "capitalize up (c # s) = (if up then ascii_upper c else ascii_lower c) # capitalize (c = CHR ''-'') s"

definition canonicalKey :: "string \<Rightarrow> string" where
  "canonicalKey key = (if list_all token_byte key then capitalize True key else key)"

type_synonym header = "(string, string list) fmap"

definition Values :: "header \<Rightarrow> string \<Rightarrow> string list" where
  "Values h key = (case fmlookup h (canonicalKey key) of None \<Rightarrow> [] | Some vs \<Rightarrow> vs)"

definition header_Get :: "header \<Rightarrow> string \<Rightarrow> string" where
  "header_Get h key = (case Values h key of [] \<Rightarrow> [] | v # _ \<Rightarrow> v)"

definition header_Del :: "string \<Rightarrow> header \<Rightarrow> header" where
  "header_Del key h = fmdrop (canonicalKey key) h"

definition header_Set :: "string \<Rightarrow> string \<Rightarrow> header \<Rightarrow> header" where
  "header_Set key v h = fmupd (canonicalKey key) [v] h"

definition header_Add :: "string \<Rightarrow> string \<Rightarrow> header \<Rightarrow> header" where
  "header_Add key v h = fmupd (canonicalKey key) (Values h key @ [v]) h"

text \<open>
  A request as the server hands it to a handler: \<open>net/http\<close> always sets its URL. \<open>rq_clientIP\<close>
  is the context value that \<open>gatewayClientIPMiddleware\<close> sets.
\<close>

record http_request =
  rq_Method :: string
  rq_Host :: string
  rq_TLS :: bool
  rq_URL :: url
  rq_Header :: header
  rq_RemoteAddr :: string
  rq_clientIP :: "string option"

section \<open>Lemmas\<close>

declare EqualFold.simps [simp del]

lemma HasPrefix_append [simp]: "HasPrefix (p @ s) p"
  by (simp add: HasPrefix_def)

lemma HasPrefix_iff: "HasPrefix s p \<longleftrightarrow> (\<exists>r. s = p @ r)"
  by (metis HasPrefix_def append_eq_conv_conj append_take_drop_id)

lemma HasSuffix_iff: "HasSuffix s p \<longleftrightarrow> (\<exists>r. s = r @ p)"
  by (auto simp: HasSuffix_def) (metis append_take_drop_id)

lemma TrimSuffix_append [simp]: "TrimSuffix (s @ p) p = s"
  by (auto simp: TrimSuffix_def HasSuffix_iff)

lemma Contains_iff: "Contains s p \<longleftrightarrow> (\<exists>a b. s = a @ p @ b)"
proof (induction s p rule: Contains.induct)
  case (1 p)
  then show ?case by simp
next
  case (2 c s p)
  then show ?case
    by (auto simp: HasPrefix_iff) (metis append_Cons append_Nil list.exhaust list.inject append_eq_Cons_conv)+
qed

lemma Contains_char: "Contains s [c] \<longleftrightarrow> c \<in> set s"
  by (auto simp: Contains_iff) (meson split_list)

lemma Split_not_Nil [simp]: "Split c s \<noteq> []"
  by (cases s) (auto split: list.splits)

lemma Join_Cons: "ps \<noteq> [] \<Longrightarrow> Join sep (p # ps) = p @ sep @ Join sep ps"
  by (cases ps) auto

lemma Join_Split [simp]: "Join [c] (Split c s) = s"
proof (induction c s rule: Split.induct)
  case (1 c)
  then show ?case by simp
next
  case (2 c x s)
  obtain p ps where "Split c s = p # ps" by (meson Split_not_Nil list.exhaust)
  with 2 show ?case by (cases ps) (auto simp: Join_Cons)
qed

lemma Split_single: "c \<notin> set s \<Longrightarrow> Split c s = [s]"
  by (induction c s rule: Split.induct) auto

lemma Split_append: "c \<notin> set p \<Longrightarrow> Split c (p @ c # s) = p # Split c s"
  by (induction p) auto

lemma Split_Join:
  "ps \<noteq> [] \<Longrightarrow> \<forall>p \<in> set ps. c \<notin> set p \<Longrightarrow> Split c (Join [c] ps) = ps"
proof (induction ps)
  case Nil
  then show ?case by simp
next
  case (Cons p ps)
  then show ?case by (cases "ps = []") (auto simp: Join_Cons Split_single Split_append)
qed

lemma Split_pieces: "p \<in> set (Split c s) \<Longrightarrow> c \<notin> set p"
proof (induction c s arbitrary: p rule: Split.induct)
  case (1 c)
  then show ?case by simp
next
  case (2 c x s)
  then show ?case by (auto split: if_splits list.splits)
qed

lemma header_simps [simp]:
  "Values (header_Del k h) k' = (if canonicalKey k = canonicalKey k' then [] else Values h k')"
  "Values (header_Set k v h) k' = (if canonicalKey k = canonicalKey k' then [v] else Values h k')"
  "Values (header_Add k v h) k' = (if canonicalKey k = canonicalKey k' then Values h k @ [v] else Values h k')"
  by (auto simp: Values_def header_Del_def header_Set_def header_Add_def)

lemma index_last_append: "c \<notin> set t \<Longrightarrow> index_last c (s @ c # t) = Some (length s)"
proof -
  assume "c \<notin> set t"
  then have "takeWhile (\<lambda>x. x \<noteq> c) (rev t) = rev t" by (auto simp: takeWhile_eq_all_conv)
  then show ?thesis by (simp add: index_last_def takeWhile_tail del: takeWhile_eq_all_conv)
qed

lemma SplitHostPort_plain:
  assumes "CHR '':'' \<notin> set host" "CHR ''['' \<notin> set host" "CHR '']'' \<notin> set host"
    and "CHR '':'' \<notin> set port" "CHR ''['' \<notin> set port" "CHR '']'' \<notin> set port"
  shows "SplitHostPort (host @ '':'' @ port) = Some (host, port)"
proof -
  have "hd (host @ '':'' @ port) \<noteq> CHR ''[''" using assms(2) by (cases host) auto
  then show ?thesis
    using assms index_last_append [OF assms(4), of host] by (simp add: SplitHostPort_def)
qed

subsection \<open>Trimming\<close>

lemma strip_any_None: "(\<And>q. q \<in> set ps \<Longrightarrow> strip_prefix q s = None) \<Longrightarrow> strip_any ps s = None"
  by (induction ps) auto

lemma strip_any_None_iff: "strip_any ps s = None \<longleftrightarrow> (\<forall>q \<in> set ps. strip_prefix q s = None)"
  by (induction ps) (auto split: option.splits)

lemma strip_prefix_take: "strip_prefix q s = None \<Longrightarrow> strip_prefix q (take n s) = None"
  by (metis append_assoc append_take_drop_id not_None_eq strip_prefix_Some)

lemma trim_prefixes_id: "strip_any ps s = None \<Longrightarrow> trim_prefixes n ps s = s"
  by (cases n) auto

lemma trim_prefixes_drop: "\<exists>k. trim_prefixes n ps s = drop k s"
proof (induction n ps s rule: trim_prefixes.induct)
  case (1 ps s)
  then show ?case by (metis drop0 trim_prefixes.simps(1))
next
  case (2 n ps s)
  show ?case
  proof (cases "strip_any ps s")
    case None
    then show ?thesis by (metis drop0 option.simps(4) trim_prefixes.simps(2))
  next
    case (Some r)
    have "\<exists>q. s = q @ r"
      using Some by (induction ps) (auto simp: strip_prefix_Some split: option.splits)
    then have "\<exists>j. r = drop j s" by (metis append_eq_conv_conj)
    moreover obtain k where "trim_prefixes n ps r = drop k r" using 2 [OF Some] by blast
    ultimately show ?thesis using Some by (metis drop_drop option.simps(5) trim_prefixes.simps(2))
  qed
qed

lemma TrimSpace_take: "\<exists>n. TrimSpace s = take n (TrimLeftSpace s)"
proof -
  obtain k where "trim_prefixes (length (TrimLeftSpace s)) (map rev space_encodings) (rev (TrimLeftSpace s))
    = drop k (rev (TrimLeftSpace s))" using trim_prefixes_drop by blast
  then show ?thesis by (auto simp: TrimSpace_def Let_def rev_drop)
qed

lemma space_encodings_nonempty: "[] \<notin> set space_encodings" "[] \<notin> set (map rev space_encodings)"
  by (simp_all add: space_encodings_def)

lemma TrimSpace_clean:
  "strip_any space_encodings (TrimSpace s) = None"
  "strip_any (map rev space_encodings) (rev (TrimSpace s)) = None"
proof -
  show "strip_any space_encodings (TrimSpace s) = None"
    using TrimLeftSpace_done [of s] TrimSpace_take [of s] strip_prefix_take
    unfolding strip_any_None_iff by metis
  show "strip_any (map rev space_encodings) (rev (TrimSpace s)) = None"
    unfolding TrimSpace_def Let_def rev_rev_ident
    by (rule trim_prefixes_done [OF space_encodings_nonempty(2)]) simp
qed

lemma TrimSpace_id:
  assumes "strip_any space_encodings s = None" "strip_any (map rev space_encodings) (rev s) = None"
  shows "TrimSpace s = s"
  by (simp add: TrimSpace_def TrimLeftSpace_def Let_def trim_prefixes_id [OF assms(1)] trim_prefixes_id [OF assms(2)])

lemma TrimSpace_idem [simp]: "TrimSpace (TrimSpace s) = TrimSpace s"
  by (rule TrimSpace_id) (rule TrimSpace_clean)+

lemma TrimSpace_subset: "set (TrimSpace s) \<subseteq> set s"
proof -
  obtain n where "TrimSpace s = take n (TrimLeftSpace s)" using TrimSpace_take by blast
  moreover obtain k where "TrimLeftSpace s = drop k s" unfolding TrimLeftSpace_def using trim_prefixes_drop by blast
  ultimately show ?thesis by (metis set_drop_subset set_take_subset subset_trans)
qed

definition visible :: "char \<Rightarrow> bool" where
  "visible c \<longleftrightarrow> 0x20 < byte c \<and> byte c < 0x7F"

lemma strip_prefix_hd: "s \<noteq> [] \<Longrightarrow> q \<noteq> [] \<Longrightarrow> hd q \<noteq> hd s \<Longrightarrow> strip_prefix q s = None"
  by (cases q; cases s) auto

lemma space_hd:
  "q \<in> set space_encodings \<Longrightarrow> \<not> visible (hd q)"
  "q \<in> set (map rev space_encodings) \<Longrightarrow> \<not> visible (hd q)"
  by (auto simp: space_encodings_def visible_def byte_def)

lemma TrimSpace_visible: "list_all visible s \<Longrightarrow> TrimSpace s = s"
proof (cases "s = []")
  case True
  then show ?thesis by (simp add: TrimSpace_def TrimLeftSpace_def)
next
  case False
  assume v: "list_all visible s"
  have "visible (hd s)" "visible (hd (rev s))" using v False by (auto simp: list_all_iff hd_rev)
  then have "strip_prefix q s = None" if "q \<in> set space_encodings" for q
    using that False space_hd(1) space_encodings_nonempty(1) by (metis strip_prefix_hd)
  moreover have "strip_prefix q (rev s) = None" if "q \<in> set (map rev space_encodings)" for q
    using that False space_hd(2) space_encodings_nonempty(2) \<open>visible (hd (rev s))\<close>
    by (metis rev_is_Nil_conv strip_prefix_hd)
  ultimately show ?thesis by (intro TrimSpace_id strip_any_None)
qed

lemma TrimSpace_Nil [simp]: "TrimSpace [] = []"
  by (rule TrimSpace_visible) simp

subsection \<open>Case\<close>

lemma ascii_lower_id: "\<not> between (byte (CHR ''A'')) c (byte (CHR ''Z'')) \<Longrightarrow> ascii_lower c = c"
  by (simp add: ascii_lower_def)

lemma ascii_lower_cases: "ascii_lower c = c \<or> (97 \<le> byte (ascii_lower c) \<and> byte (ascii_lower c) \<le> 122)"
proof (cases "between (byte (CHR ''A'')) c (byte (CHR ''Z''))")
  case True
  then have "byte (char_of (byte c + 32)) = byte c + 32" by (simp add: byte_def between_def)
  with True show ?thesis by (auto simp: ascii_lower_def between_def byte_def)
qed (simp add: ascii_lower_def)

lemma ascii_lower_symbol:
  assumes "byte d < 97" "\<not> between (byte (CHR ''A'')) d (byte (CHR ''Z''))"
  shows "ascii_lower c = d \<longleftrightarrow> c = d"
  using ascii_lower_cases [of c] ascii_lower_id [OF assms(2)] assms(1) by (metis linorder_not_less)

section \<open>A small library for examples\<close>

text \<open>
  Instances of the parameters for the examples: absolute HTTPS URLs and rooted paths, cookies without
  attributes, and addresses whose prefixes are prefixes of their text.
\<close>

definition demo_url :: "string \<Rightarrow> string \<Rightarrow> string \<Rightarrow> url" where
  "demo_url scheme host path =
     \<lparr>url_Scheme = scheme, url_User = None, url_Host = host, url_Path = path, url_RawPath = [], url_RawQuery = [],
      url_Fragment = []\<rparr>"

definition demo_urlParse :: "string \<Rightarrow> url option" where
  "demo_urlParse s =
     (case CutPrefix s ''https://'' of
        Some r \<Rightarrow> Some (demo_url ''https'' (takeWhile (\<lambda>c. c \<noteq> CHR ''/'') r) (dropWhile (\<lambda>c. c \<noteq> CHR ''/'') r))
      | None \<Rightarrow> if HasPrefix s ''/'' then Some (demo_url [] [] s) else None)"

definition demo_cookie :: "string \<Rightarrow> string \<Rightarrow> cookie" where
  "demo_cookie name value =
     \<lparr>ck_Name = name, ck_Value = value, ck_Path = [], ck_Domain = [], ck_Expires = 0, ck_RawExpires = [],
      ck_MaxAge = 0, ck_Secure = False, ck_HttpOnly = False, ck_SameSite = SameSiteUnset, ck_Partitioned = False,
      ck_Raw = [], ck_Unparsed = []\<rparr>"

definition demo_parseCookie :: "string \<Rightarrow> cookie option" where
  "demo_parseCookie s = (case Cut (CHR ''='') s of (n, v, ok) \<Rightarrow> if ok then Some (demo_cookie n v) else None)"

definition demo_library :: "(string, string) go_library" where
  "demo_library =
     \<lparr>unicodeLower = id, urlParse = demo_urlParse,
      urlString = (\<lambda>u. url_Scheme u @ ''://'' @ url_Host u @ url_Path u @ (if url_RawQuery u = [] then [] else ''?'' @ url_RawQuery u)),
      urlEscapedPath = url_Path, urlQuery = (\<lambda>q. case Cut (CHR ''='') q of (k, v, ok) \<Rightarrow> if ok then fmupd k [v] fmempty else fmempty),
      pathEscape = id, pathUnescape = id, queryEscape = id,
      parseCookie = (\<lambda>s. map_option (\<lambda>c. [c]) (demo_parseCookie s)),
      requestCookies = (\<lambda>hs. List.map_filter demo_parseCookie hs), parseSetCookie = demo_parseCookie,
      cookieString = (\<lambda>c. ck_Name c @ ''='' @ ck_Value c), cookieValid = (\<lambda>c. ck_Name c \<noteq> []),
      parseIP = Some, parseAddr = (\<lambda>s. if s = [] then None else Some s), parseAddrPort = (\<lambda>_. None),
      parsePrefix = Some, maskedPrefix = id, unmapAddr = id, addrString = id,
      prefixContains = (\<lambda>p a. HasPrefix a p)\<rparr>"

definition demo_request :: "string \<Rightarrow> string \<Rightarrow> string \<Rightarrow> (string \<times> string list) list \<Rightarrow> http_request" where
  "demo_request method host path headers =
     \<lparr>rq_Method = method, rq_Host = host, rq_TLS = True, rq_URL = demo_url [] [] path,
      rq_Header = fmap_of_list headers, rq_RemoteAddr = ''10.0.0.1:4000'', rq_clientIP = None\<rparr>"

end
