(* ===== verification/Gateway_Origin.thy ===== *)
theory Gateway_Origin
  imports Go_Http
begin

text \<open>
  The origin policy of the Gateway (\<open>internal/gateway/origin.go\<close>, with the canonical authorities of
  \<open>proxy.go\<close>): every endpoint of every codespace has a host name of its own below the domain of the
  Gateway, and a request that a session would authenticate must come from that very origin. The
  lemmas show that host names and endpoints correspond one to one, and that the source check admits a
  state changing request only from a page of the endpoint it is sent to.
\<close>

section \<open>Canonical authorities\<close>

definition defaultProxyPort :: "('a, 'p) go_library \<Rightarrow> string \<Rightarrow> string" where
  "defaultProxyPort lib scheme =
     (let s = ToLower lib (TrimSpace scheme)
      in if s = ''http'' then ''80'' else if s = ''https'' then ''443'' else [])"

definition firstNonEmpty :: "string list \<Rightarrow> string" where
  "firstNonEmpty values = (case find (\<lambda>v. TrimSpace v \<noteq> []) values of None \<Rightarrow> [] | Some v \<Rightarrow> v)"

text \<open>The host and port before they are brought to a canonical form.\<close>

definition authority_parts :: "string \<Rightarrow> (string \<times> string) option" where
  "authority_parts hostValue =
     (case SplitHostPort hostValue of
        Some hp \<Rightarrow> Some hp
      | None \<Rightarrow>
          if HasSuffix hostValue ''.'' then None
          else if HasPrefix hostValue ''['' then
            (case index_last (CHR '']'') hostValue of
               None \<Rightarrow> None
             | Some e \<Rightarrow>
                 Some (take (e - 1) (drop 1 hostValue),
                       case CutPrefix (drop (e + 1) hostValue) '':'' of None \<Rightarrow> [] | Some p \<Rightarrow> p))
          else Some (hostValue, []))"

definition canonicalGatewayProxyAuthority :: "('a, 'p) go_library \<Rightarrow> string \<Rightarrow> string \<Rightarrow> string option" where
  "canonicalGatewayProxyAuthority lib value scheme =
     (let hostValue = TrimSpace value
      in if hostValue = [] \<or> HasSuffix hostValue ''.'' then None
         else case authority_parts hostValue of
                None \<Rightarrow> None
              | Some (host, port) \<Rightarrow>
                  if HasSuffix host ''.'' then None
                  else
                    (let host = TrimSuffix (ToLower lib (TrimSpace host)) ''.''
                     in if host = [] then None
                        else
                          (let port = (if port = [] then defaultProxyPort lib scheme else port)
                           in if port = [] then Some host else Some (JoinHostPort host port))))"

definition sameGatewayProxyAuthority :: "('a, 'p) go_library \<Rightarrow> string \<Rightarrow> string \<Rightarrow> string \<Rightarrow> string \<Rightarrow> bool" where
  "sameGatewayProxyAuthority lib leftHost leftScheme rightHost rightScheme \<longleftrightarrow>
     (case canonicalGatewayProxyAuthority lib leftHost (firstNonEmpty [leftScheme, rightScheme]) of
        None \<Rightarrow> False
      | Some left \<Rightarrow> canonicalGatewayProxyAuthority lib rightHost rightScheme = Some left)"

section \<open>Endpoint hosts\<close>

record originPolicy =
  Domain :: string
  pol_Scheme :: string
  pol_Port :: string

record gatewayEndpointHost =
  eh_codespaceUUID :: string
  eh_endpointID :: string

datatype origin_error = parseGatewayURL | gatewaySchemeInvalid | gatewayHostRequired

definition newOriginPolicy :: "('a, 'p) go_library \<Rightarrow> string \<Rightarrow> origin_error + originPolicy" where
  "newOriginPolicy lib gatewayURL =
     (case urlParse lib (TrimSpace gatewayURL) of
        None \<Rightarrow> Inl parseGatewayURL
      | Some parsed \<Rightarrow>
          if url_Scheme parsed \<noteq> ''http'' \<and> url_Scheme parsed \<noteq> ''https'' then Inl gatewaySchemeInvalid
          else if url_Host parsed = [] then Inl gatewayHostRequired
          else
            (let domain = ToLower lib (Hostname parsed)
             in if domain = [] then Inl gatewayHostRequired
                else
                  (let port = url_Port parsed
                   in Inr \<lparr>Domain = domain, pol_Scheme = url_Scheme parsed,
                           pol_Port = (if port = [] then defaultProxyPort lib (url_Scheme parsed) else port)\<rparr>)))"

definition isGatewayUUID32 :: "string \<Rightarrow> bool" where
  "isGatewayUUID32 value \<longleftrightarrow>
     length value = 32 \<and>
     list_all (\<lambda>r. between (byte (CHR ''0'')) r (byte (CHR ''9'')) \<or> between (byte (CHR ''a'')) r (byte (CHR ''f''))) value"

definition uuid32ToCanonical :: "string \<Rightarrow> string" where
  "uuid32ToCanonical value =
     take 8 value @ ''-'' @ take 4 (drop 8 value) @ ''-'' @ take 4 (drop 12 value) @ ''-''
       @ take 4 (drop 16 value) @ ''-'' @ drop 20 value"

definition parseGatewayEndpointLabel :: "string \<Rightarrow> gatewayEndpointHost option" where
  "parseGatewayEndpointLabel label =
     (if length label = 32 \<and> isGatewayUUID32 label
      then Some \<lparr>eh_codespaceUUID = uuid32ToCanonical label, eh_endpointID = WorkspaceEndpointID\<rparr>
      else case index_last (CHR ''-'') label of
             None \<Rightarrow> None
           | Some lastHyphen \<Rightarrow>
               if lastHyphen < 1 \<or> lastHyphen + 1 \<ge> length label then None
               else
                 (let prefix = take lastHyphen label; uuid32 = drop (lastHyphen + 1) label
                  in if \<not> isGatewayEndpointID prefix \<or> \<not> isGatewayUUID32 uuid32 then None
                     else Some \<lparr>eh_codespaceUUID = uuid32ToCanonical uuid32, eh_endpointID = prefix\<rparr>))"

definition parseEndpointHost :: "('a, 'p) go_library \<Rightarrow> originPolicy \<Rightarrow> string \<Rightarrow> gatewayEndpointHost option" where
  "parseEndpointHost lib p hostValue =
     (if Domain p = [] then None
      else case canonicalGatewayProxyAuthority lib hostValue (pol_Scheme p) of
             None \<Rightarrow> None
           | Some authority \<Rightarrow>
               (case SplitHostPort authority of
                  None \<Rightarrow> None
                | Some (host, port) \<Rightarrow>
                    if port \<noteq> pol_Port p then None
                    else if host = Domain p then None
                    else
                      (let suffix = ''.'' @ Domain p
                       in if \<not> HasSuffix host suffix then None
                          else
                            (let label = TrimSuffix host suffix
                             in if label = [] \<or> Contains label ''.'' then None
                                else parseGatewayEndpointLabel label))))"

definition bindingForRequest :: "('a, 'p) go_library \<Rightarrow> originPolicy \<Rightarrow> http_request \<Rightarrow> gatewayEndpointHost option" where
  "bindingForRequest lib p request =
     (if Domain p = [] then None else parseEndpointHost lib p (rq_Host request))"

section \<open>The source of a request\<close>

definition headerHasToken :: "string \<Rightarrow> string \<Rightarrow> bool" where
  "headerHasToken value token = list_ex (\<lambda>part. EqualFold (TrimSpace part) token) (Split (CHR '','') value)"

definition isGatewayWebSocketRequest :: "http_request \<Rightarrow> bool" where
  "isGatewayWebSocketRequest request \<longleftrightarrow>
     headerHasToken (header_Get (rq_Header request) ''Connection'') ''upgrade'' \<and>
     EqualFold (TrimSpace (header_Get (rq_Header request) ''Upgrade'')) ''websocket''"

definition gatewayMethodRequiresOrigin :: "string \<Rightarrow> bool" where
  "gatewayMethodRequiresOrigin method \<longleftrightarrow> method \<in> {''POST'', ''PUT'', ''PATCH'', ''DELETE'', ''OPTIONS''}"

definition gatewayOriginFromAuthority :: "('a, 'p) go_library \<Rightarrow> string \<Rightarrow> string \<Rightarrow> string" where
  "gatewayOriginFromAuthority lib scheme authority =
     (case SplitHostPort authority of
        Some (host, port) \<Rightarrow>
          if port = defaultProxyPort lib scheme then scheme @ ''://'' @ host else scheme @ ''://'' @ authority
      | None \<Rightarrow> scheme @ ''://'' @ authority)"

definition canonicalGatewayOrigin :: "('a, 'p) go_library \<Rightarrow> string \<Rightarrow> string option" where
  "canonicalGatewayOrigin lib v =
     (let value = TrimSpace v
      in if value = [] \<or> EqualFold value ''null'' \<or> Contains value '','' then None
         else case urlParse lib value of
                None \<Rightarrow> None
              | Some parsed \<Rightarrow>
                  if url_Scheme parsed \<noteq> ''http'' \<and> url_Scheme parsed \<noteq> ''https'' then None
                  else if url_User parsed \<noteq> None \<or> url_Host parsed = [] \<or> url_Path parsed \<noteq> []
                          \<or> url_RawQuery parsed \<noteq> [] \<or> url_Fragment parsed \<noteq> [] then None
                  else
                    map_option (gatewayOriginFromAuthority lib (url_Scheme parsed))
                      (canonicalGatewayProxyAuthority lib (url_Host parsed) (url_Scheme parsed)))"

definition gatewayOriginMatches :: "('a, 'p) go_library \<Rightarrow> string list \<Rightarrow> string \<Rightarrow> bool" where
  "gatewayOriginMatches lib values expectedOrigin \<longleftrightarrow>
     (case values of [v] \<Rightarrow> canonicalGatewayOrigin lib v = Some expectedOrigin | _ \<Rightarrow> False)"

definition request_scheme :: "http_request \<Rightarrow> originPolicy \<Rightarrow> string" where
  "request_scheme request p =
     (if pol_Scheme p \<noteq> [] then pol_Scheme p
      else if url_Scheme (rq_URL request) = ''http'' \<or> url_Scheme (rq_URL request) = ''https''
      then url_Scheme (rq_URL request)
      else if rq_TLS request then ''https'' else ''http'')"

definition gatewayRequestOrigin :: "('a, 'p) go_library \<Rightarrow> http_request \<Rightarrow> originPolicy \<Rightarrow> string option" where
  "gatewayRequestOrigin lib request p =
     (let scheme = request_scheme request p;
          host = (if rq_Host request = [] then url_Host (rq_URL request) else rq_Host request)
      in case canonicalGatewayProxyAuthority lib host scheme of
           None \<Rightarrow> None
         | Some authority \<Rightarrow>
             if pol_Port p \<noteq> [] \<and>
                (case SplitHostPort authority of None \<Rightarrow> True | Some (_, port) \<Rightarrow> port \<noteq> pol_Port p)
             then None
             else Some (gatewayOriginFromAuthority lib scheme authority))"

definition gatewayIsTopLevelNavigation :: "('a, 'p) go_library \<Rightarrow> http_request \<Rightarrow> bool" where
  "gatewayIsTopLevelNavigation lib request \<longleftrightarrow>
     (let h = rq_Header request
      in EqualFold (TrimSpace (header_Get h ''Sec-Fetch-Mode'')) ''navigate'' \<and>
         EqualFold (TrimSpace (header_Get h ''Sec-Fetch-Dest'')) ''document'' \<and>
         ToLower lib (TrimSpace (header_Get h ''Sec-Fetch-Site''))
           \<in> {''none'', ''same-origin'', ''same-site'', ''cross-site''})"

definition gatewayHasNoFetchMetadata :: "http_request \<Rightarrow> bool" where
  "gatewayHasNoFetchMetadata request \<longleftrightarrow>
     header_Get (rq_Header request) ''Sec-Fetch-Site'' = [] \<and>
     header_Get (rq_Header request) ''Sec-Fetch-Mode'' = [] \<and>
     header_Get (rq_Header request) ''Sec-Fetch-Dest'' = [] \<and>
     header_Get (rq_Header request) ''Sec-Fetch-User'' = []"

definition isGatewayAuthenticatedSourceAllowed :: "('a, 'p) go_library \<Rightarrow> http_request \<Rightarrow> originPolicy \<Rightarrow> bool" where
  "isGatewayAuthenticatedSourceAllowed lib request p \<longleftrightarrow>
     (case gatewayRequestOrigin lib request p of
        None \<Rightarrow> False
      | Some expectedOrigin \<Rightarrow>
          (let originValues = Values (rq_Header request) ''Origin''
           in if isGatewayWebSocketRequest request then gatewayOriginMatches lib originValues expectedOrigin
              else if gatewayMethodRequiresOrigin (rq_Method request)
              then gatewayOriginMatches lib originValues expectedOrigin
              else if originValues \<noteq> [] then gatewayOriginMatches lib originValues expectedOrigin
              else if rq_Method request \<noteq> ''GET'' \<and> rq_Method request \<noteq> ''HEAD'' then False
              else if EqualFold (TrimSpace (header_Get (rq_Header request) ''Sec-Fetch-Site'')) ''same-origin'' then True
              else if gatewayIsTopLevelNavigation lib request then True
              else gatewayHasNoFetchMetadata request))"

section \<open>Host names and endpoints\<close>

text \<open>
  The reference: the label of an endpoint is the codespace id without dashes, after the endpoint id
  unless it is the workspace. \<open>plain_policy\<close> is what the configuration check leaves: a lower-case
  DNS name, an HTTP scheme and a decimal port.
\<close>

definition endpoint_label :: "gatewayEndpointHost \<Rightarrow> string" where
  "endpoint_label b =
     (let u = filter (\<lambda>c. c \<noteq> CHR ''-'') (eh_codespaceUUID b)
      in if eh_endpointID b = WorkspaceEndpointID then u else eh_endpointID b @ ''-'' @ u)"

definition binding_valid :: "gatewayEndpointHost \<Rightarrow> bool" where
  "binding_valid b \<longleftrightarrow>
     (\<exists>u. isGatewayUUID32 u \<and> eh_codespaceUUID b = uuid32ToCanonical u) \<and>
     (eh_endpointID b = WorkspaceEndpointID \<or> isGatewayEndpointID (eh_endpointID b))"

definition host_char :: "char \<Rightarrow> bool" where
  "host_char c \<longleftrightarrow> lower_alnum c \<or> c = CHR ''-'' \<or> c = CHR ''.''"

definition plain_host :: "string \<Rightarrow> bool" where
  "plain_host h \<longleftrightarrow> h \<noteq> [] \<and> list_all host_char h \<and> last h \<noteq> CHR ''.''"

definition plain_port :: "string \<Rightarrow> bool" where
  "plain_port p \<longleftrightarrow> p \<noteq> [] \<and> list_all (\<lambda>c. between (byte (CHR ''0'')) c (byte (CHR ''9''))) p"

definition plain_policy :: "originPolicy \<Rightarrow> bool" where
  "plain_policy p \<longleftrightarrow>
     plain_host (Domain p) \<and> plain_port (pol_Port p) \<and> (pol_Scheme p = ''http'' \<or> pol_Scheme p = ''https'')"

lemma uuid32_chars:
  assumes "isGatewayUUID32 u"
  shows "list_all lower_alnum u" "CHR ''-'' \<notin> set u" "CHR ''.'' \<notin> set u" "length u = 32"
  using assms by (auto simp: isGatewayUUID32_def list_all_iff lower_alnum_def between_def byte_def)

lemma uuid32_canonical_filter:
  assumes "isGatewayUUID32 u"
  shows "filter (\<lambda>c. c \<noteq> CHR ''-'') (uuid32ToCanonical u) = u"
proof -
  have "filter (\<lambda>c. c \<noteq> CHR ''-'') (take n (drop m u)) = take n (drop m u)"
    "filter (\<lambda>c. c \<noteq> CHR ''-'') (take n u) = take n u"
    "filter (\<lambda>c. c \<noteq> CHR ''-'') (drop m u) = drop m u" for n m
    using uuid32_chars(2) [OF assms] by (auto simp: filter_id_conv dest!: in_set_takeD in_set_dropD)
  moreover have "take 8 u @ take 4 (drop 8 u) @ take 4 (drop 12 u) @ take 4 (drop 16 u) @ drop 20 u = u"
    using append_take_drop_id [of 8 u] append_take_drop_id [of 4 "drop 8 u"]
      append_take_drop_id [of 4 "drop 12 u"] append_take_drop_id [of 4 "drop 16 u"] by simp
  ultimately show ?thesis by (simp add: uuid32ToCanonical_def)
qed

lemma endpoint_id_no_dot: "isGatewayEndpointID e \<Longrightarrow> c \<in> set e \<Longrightarrow> lower_alnum c \<or> c = CHR ''-''"
  by (auto simp: isGatewayEndpointID_def in_set_conv_nth)

lemma endpoint_id_nonempty: "isGatewayEndpointID e \<Longrightarrow> e \<noteq> [] \<and> e \<noteq> WorkspaceEndpointID"
  by (auto simp: isGatewayEndpointID_def)

lemma parse_label_of:
  assumes "binding_valid b"
  shows "parseGatewayEndpointLabel (endpoint_label b) = Some b"
proof -
  obtain u where u: "isGatewayUUID32 u" "eh_codespaceUUID b = uuid32ToCanonical u"
    using assms by (auto simp: binding_valid_def)
  note f = uuid32_canonical_filter [OF u(1)]
  show ?thesis
  proof (cases "eh_endpointID b = WorkspaceEndpointID")
    case True
    then show ?thesis
      using u f by (simp add: endpoint_label_def Let_def parseGatewayEndpointLabel_def uuid32_chars)
  next
    case False
    then have e: "isGatewayEndpointID (eh_endpointID b)" using assms by (simp add: binding_valid_def)
    have "endpoint_label b = eh_endpointID b @ CHR ''-'' # u"
      using False u f by (simp add: endpoint_label_def Let_def)
    moreover have "index_last (CHR ''-'') (eh_endpointID b @ CHR ''-'' # u) = Some (length (eh_endpointID b))"
      using uuid32_chars(2) [OF u(1)] by (rule index_last_append)
    moreover have "\<not> isGatewayUUID32 (eh_endpointID b @ CHR ''-'' # u)"
      using uuid32_chars(4) [OF u(1)] by (auto simp: isGatewayUUID32_def)
    ultimately show ?thesis
      using e u endpoint_id_nonempty [OF e] uuid32_chars(4) [OF u(1)]
      by (auto simp: parseGatewayEndpointLabel_def Let_def Suc_le_eq)
  qed
qed

lemma label_of_parse:
  assumes "parseGatewayEndpointLabel label = Some b"
  shows "binding_valid b \<and> endpoint_label b = label"
proof (cases "length label = 32 \<and> isGatewayUUID32 label")
  case True
  then show ?thesis
    using assms uuid32_canonical_filter
    by (auto simp: parseGatewayEndpointLabel_def binding_valid_def endpoint_label_def Let_def)
next
  case False
  then obtain i where i: "index_last (CHR ''-'') label = Some i" "\<not> i < 1"
    "isGatewayEndpointID (take i label)" "isGatewayUUID32 (drop (i + 1) label)"
    "b = \<lparr>eh_codespaceUUID = uuid32ToCanonical (drop (i + 1) label), eh_endpointID = take i label\<rparr>"
    using assms by (auto simp: parseGatewayEndpointLabel_def Let_def split: option.splits if_splits)
  have "CHR ''-'' \<in> set label" using i(1) by (auto simp: index_last_def split: if_splits)
  then obtain ys zs where "label = ys @ CHR ''-'' # zs" "CHR ''-'' \<notin> set zs" using split_list_last by fast
  then have "label = take i label @ CHR ''-'' # drop (i + 1) label" using i(1) by (auto simp: index_last_append)
  then show ?thesis
    using i uuid32_canonical_filter [OF i(4)] endpoint_id_nonempty [OF i(3)]
    by (auto simp: binding_valid_def endpoint_label_def Let_def)
qed

lemma host_char_plain:
  assumes "list_all host_char h"
  shows "list_all visible h" "ascii h" "map ascii_lower h = h"
    and "CHR '':'' \<notin> set h" "CHR ''['' \<notin> set h" "CHR '']'' \<notin> set h"
proof -
  show "list_all visible h" "ascii h" "map ascii_lower h = h"
    using assms
    by (auto simp: list_all_iff host_char_def lower_alnum_def between_def byte_def visible_def ascii_def
        intro!: map_idI ascii_lower_id)
  show "CHR '':'' \<notin> set h" "CHR ''['' \<notin> set h" "CHR '']'' \<notin> set h"
    using assms by (auto simp: list_all_iff host_char_def lower_alnum_def between_def byte_def)
qed

lemma plain_port_chars:
  assumes "plain_port p"
  shows "list_all visible p" "CHR '':'' \<notin> set p" "CHR ''['' \<notin> set p" "CHR '']'' \<notin> set p" "CHR ''.'' \<notin> set p" "p \<noteq> []"
  using assms by (auto simp: plain_port_def list_all_iff between_def byte_def visible_def)

lemma HasSuffix_dot: "HasSuffix h ''.'' \<longleftrightarrow> h \<noteq> [] \<and> last h = CHR ''.''"
  by (auto simp: HasSuffix_iff) (metis append_butlast_last_id)

lemma default_port_cases [simp]:
  "defaultProxyPort lib ''http'' = ''80''" "defaultProxyPort lib ''https'' = ''443''"
proof -
  have "TrimSpace ''http'' = ''http''" "TrimSpace ''https'' = ''https''"
    by (rule TrimSpace_visible; simp add: visible_def byte_def)+
  moreover have "ToLower lib ''http'' = ''http''" "ToLower lib ''https'' = ''https''"
    by (simp_all add: ToLower_def ascii_def byte_def ascii_lower_def between_def)
  ultimately show "defaultProxyPort lib ''http'' = ''80''" "defaultProxyPort lib ''https'' = ''443''"
    by (simp_all add: defaultProxyPort_def)
qed

lemma canonical_plain:
  assumes h: "plain_host host" and p: "plain_port port"
  shows "canonicalGatewayProxyAuthority lib (host @ '':'' @ port) scheme = Some (host @ '':'' @ port)"
proof -
  have hc: "list_all host_char host" "host \<noteq> []" "last host \<noteq> CHR ''.''" using h by (auto simp: plain_host_def)
  note c = host_char_plain [OF hc(1)] and q = plain_port_chars [OF p]
  have t: "TrimSpace (host @ '':'' @ port) = host @ '':'' @ port"
    by (rule TrimSpace_visible) (use c(1) q(1) in \<open>simp add: visible_def byte_def\<close>)
  have s: "SplitHostPort (host @ '':'' @ port) = Some (host, port)"
    using c q by (intro SplitHostPort_plain)
  have "last port \<noteq> CHR ''.''" using q(5,6) by (metis last_in_set)
  then have l: "last (host @ '':'' @ port) \<noteq> CHR ''.''" using q(6) by simp
  have n: "\<not> HasSuffix (host @ '':'' @ port) ''.''" "\<not> HasSuffix host ''.''"
    using l hc by (simp_all add: HasSuffix_dot)
  have "TrimSuffix (ToLower lib (TrimSpace host)) ''.'' = host"
    unfolding TrimSpace_visible [OF c(1)] ToLower_def using n(2) c(2) by (simp only: if_True c(3) TrimSuffix_def if_False)
  then show ?thesis
    unfolding canonicalGatewayProxyAuthority_def t Let_def authority_parts_def s
    using n c(4) q(6) hc(2) by (simp add: JoinHostPort_def)
qed

lemma label_plain:
  assumes "binding_valid b" "plain_policy p"
  shows "plain_host (endpoint_label b @ ''.'' @ Domain p)" "CHR ''.'' \<notin> set (endpoint_label b)" "endpoint_label b \<noteq> []"
proof -
  obtain u where u: "isGatewayUUID32 u" "eh_codespaceUUID b = uuid32ToCanonical u"
    using assms by (auto simp: binding_valid_def)
  have e: "c \<in> set (endpoint_label b) \<Longrightarrow> lower_alnum c \<or> c = CHR ''-''" for c
    using assms(1) u uuid32_canonical_filter [OF u(1)] uuid32_chars(1) [OF u(1)] endpoint_id_no_dot
    by (auto simp: endpoint_label_def Let_def binding_valid_def list_all_iff split: if_splits)
  show "plain_host (endpoint_label b @ ''.'' @ Domain p)"
    using e assms(2) by (auto simp: plain_policy_def plain_host_def list_all_iff host_char_def)
  show "CHR ''.'' \<notin> set (endpoint_label b)"
    using e [of "CHR ''.''"] by (auto simp: lower_alnum_def between_def byte_def)
  show "endpoint_label b \<noteq> []"
    using u uuid32_canonical_filter [OF u(1)] uuid32_chars(4) [OF u(1)] by (auto simp: endpoint_label_def Let_def)
qed

text \<open>Reading a host is reading the authority that it stands for.\<close>

lemma parse_host_iff:
  assumes "plain_policy p"
  shows "parseEndpointHost lib p hv = Some b \<longleftrightarrow>
    binding_valid b \<and> (\<exists>a. canonicalGatewayProxyAuthority lib hv (pol_Scheme p) = Some a \<and>
      SplitHostPort a = Some (endpoint_label b @ ''.'' @ Domain p, pol_Port p))"
proof
  assume "parseEndpointHost lib p hv = Some b"
  then obtain a host where a: "canonicalGatewayProxyAuthority lib hv (pol_Scheme p) = Some a"
    "SplitHostPort a = Some (host, pol_Port p)" "HasSuffix host (''.'' @ Domain p)"
    "parseGatewayEndpointLabel (TrimSuffix host (''.'' @ Domain p)) = Some b"
    by (auto simp: parseEndpointHost_def Let_def split: if_splits option.splits)
  moreover obtain l where l: "host = l @ ''.'' @ Domain p" using a(3) HasSuffix_iff by blast
  ultimately show "binding_valid b \<and> (\<exists>a. canonicalGatewayProxyAuthority lib hv (pol_Scheme p) = Some a \<and>
      SplitHostPort a = Some (endpoint_label b @ ''.'' @ Domain p, pol_Port p))"
    using label_of_parse by (metis TrimSuffix_append)
next
  assume r: "binding_valid b \<and> (\<exists>a. canonicalGatewayProxyAuthority lib hv (pol_Scheme p) = Some a \<and>
      SplitHostPort a = Some (endpoint_label b @ ''.'' @ Domain p, pol_Port p))"
  then obtain a where a: "binding_valid b" "canonicalGatewayProxyAuthority lib hv (pol_Scheme p) = Some a"
    "SplitHostPort a = Some (endpoint_label b @ ''.'' @ Domain p, pol_Port p)" by blast
  note l = label_plain [OF a(1) assms]
  have "HasSuffix (endpoint_label b @ ''.'' @ Domain p) (''.'' @ Domain p)" by (auto simp: HasSuffix_iff)
  moreover have "TrimSuffix (endpoint_label b @ ''.'' @ Domain p) (''.'' @ Domain p) = endpoint_label b"
    by (rule TrimSuffix_append)
  moreover have "endpoint_label b @ ''.'' @ Domain p \<noteq> Domain p" by simp
  moreover have "Domain p \<noteq> []" using assms by (simp add: plain_policy_def plain_host_def)
  ultimately show "parseEndpointHost lib p hv = Some b"
    using a(2,3) l(2,3) parse_label_of [OF a(1)]
    by (simp add: parseEndpointHost_def Let_def Contains_char)
qed

lemma canonical_has_port:
  assumes "canonicalGatewayProxyAuthority lib hv scheme = Some a" and "scheme = ''http'' \<or> scheme = ''https''"
  obtains host port where "authority_parts (TrimSpace hv) = Some (host, port)" "\<not> HasSuffix host ''.''"
    "a = JoinHostPort (TrimSuffix (ToLower lib (TrimSpace host)) ''.'')
      (if port = [] then defaultProxyPort lib scheme else port)"
  using assms by (auto simp: canonicalGatewayProxyAuthority_def Let_def split: if_splits option.splits prod.splits)

lemma SplitHostPort_shape:
  assumes "SplitHostPort a = Some (h, p)"
  shows "a = h @ '':'' @ p \<and> CHR '':'' \<notin> set h \<and> CHR ''['' \<notin> set h \<and> CHR '']'' \<notin> set h \<or> a = ''['' @ h @ '']:'' @ p"
proof -
  have "CHR '':'' \<in> set a" using assms by (auto simp: SplitHostPort_def index_last_def split: if_splits)
  then obtain ys zs where a: "a = ys @ CHR '':'' # zs" "CHR '':'' \<notin> set zs" using split_list_last by fast
  then have i: "index_last (CHR '':'') a = Some (length ys)" by (simp add: index_last_append)
  show ?thesis
  proof (cases "hd a = CHR ''[''")
    case False
    then show ?thesis using assms i a by (auto simp: SplitHostPort_def split: if_splits)
  next
    case True
    then obtain e where e: "index_first (CHR '']'') a = Some e" "e + 1 = length ys"
      "h = take (e - 1) (drop 1 a)" "p = zs"
      using assms i a by (auto simp: SplitHostPort_def split: if_splits option.splits)
    have m: "CHR '']'' \<in> set a" "e = length (takeWhile (\<lambda>x. x \<noteq> CHR '']'') a)"
      using e(1) by (auto simp: index_first_def split: if_splits)
    obtain xs vs where x: "a = xs @ CHR '']'' # vs" "CHR '']'' \<notin> set xs" using m(1) split_list_first by fast
    then have "takeWhile (\<lambda>x. x \<noteq> CHR '']'') a = xs" by (auto simp: takeWhile_tail)
    then have "a ! e = CHR '']''" using x m(2) by simp
    then have y: "ys ! e = CHR '']''" using a e(2) by (simp add: nth_append)
    have "0 < e" using y True a e(2) by (cases ys; cases e) auto
    have "ys = take e ys @ [CHR '']'']" using y e(2) by (metis lessI take_Suc_conv_app_nth take_all_iff Suc_eq_plus1 le_refl)
    moreover have "take e ys = CHR ''['' # take (e - 1) (drop 1 ys)"
      using True a \<open>0 < e\<close> e(2) by (cases ys; cases e) (auto simp: take_Cons')
    moreover have "take (e - 1) (drop 1 a) = take (e - 1) (drop 1 ys)" using a e(2) by (cases ys) auto
    ultimately have "ys = ''['' @ h @ '']''" unfolding e(3) by simp
    then show ?thesis using a(1) e(4) by simp
  qed
qed

lemma canonical_no_port:
  assumes h: "plain_host host" and s: "scheme = ''http'' \<or> scheme = ''https''"
  shows "canonicalGatewayProxyAuthority lib host scheme = Some (host @ '':'' @ defaultProxyPort lib scheme)"
proof -
  have hc: "list_all host_char host" "host \<noteq> []" "last host \<noteq> CHR ''.''" using h by (auto simp: plain_host_def)
  note c = host_char_plain [OF hc(1)]
  have t: "TrimSpace host = host" using c(1) by (rule TrimSpace_visible)
  have sp: "SplitHostPort host = None" using c(4) by (simp add: SplitHostPort_def index_last_def)
  have n: "\<not> HasSuffix host ''.''" "\<not> HasPrefix host ''[''"
    using hc c(5) by (auto simp: HasSuffix_dot HasPrefix_iff)
  have "TrimSuffix (ToLower lib host) ''.'' = host"
    unfolding ToLower_def using n(1) c(2) by (simp only: if_True c(3) TrimSuffix_def if_False)
  then show ?thesis
    unfolding canonicalGatewayProxyAuthority_def t Let_def authority_parts_def sp
    using n c(4) hc(2) s by (auto simp: t JoinHostPort_def)
qed

text \<open>C23: A host name and an endpoint determine each other. The host \<open>label.domain:port\<close> of a valid
  binding is read back as that binding, also without the port when it is the default one; a host that
  is read as a binding has exactly the label of the binding in front of the domain, and the port of
  the Gateway. So no two endpoints share an origin.
\<close>

theorem endpoint_host_roundtrip:
  assumes "plain_policy p"
  shows "(binding_valid b \<longrightarrow> parseEndpointHost lib p (endpoint_label b @ ''.'' @ Domain p @ '':'' @ pol_Port p) = Some b)
    \<and> (binding_valid b \<and> pol_Port p = defaultProxyPort lib (pol_Scheme p) \<longrightarrow>
        parseEndpointHost lib p (endpoint_label b @ ''.'' @ Domain p) = Some b)
    \<and> (parseEndpointHost lib p hv = Some b \<longleftrightarrow>
        binding_valid b \<and> (\<exists>a. canonicalGatewayProxyAuthority lib hv (pol_Scheme p) = Some a \<and>
          SplitHostPort a = Some (endpoint_label b @ ''.'' @ Domain p, pol_Port p)))"
proof -
  let ?h = "endpoint_label b @ ''.'' @ Domain p"
  have q: "plain_port (pol_Port p)" "pol_Scheme p = ''http'' \<or> pol_Scheme p = ''https''"
    using assms by (auto simp: plain_policy_def)
  have s: "SplitHostPort (?h @ '':'' @ pol_Port p) = Some (?h, pol_Port p)" if "binding_valid b"
  proof -
    have "list_all host_char ?h" using label_plain(1) [OF that assms] by (simp add: plain_host_def)
    then show ?thesis
      using plain_port_chars [OF q(1)] host_char_plain by (intro SplitHostPort_plain) auto
  qed
  have 1: "parseEndpointHost lib p (?h @ '':'' @ pol_Port p) = Some b" if "binding_valid b"
    using that s [OF that] canonical_plain [OF label_plain(1) [OF that assms] q(1)]
    unfolding parse_host_iff [OF assms] by blast
  have 2: "parseEndpointHost lib p ?h = Some b"
    if "binding_valid b" "pol_Port p = defaultProxyPort lib (pol_Scheme p)"
    using that s [OF that(1)] canonical_no_port [OF label_plain(1) [OF that(1) assms] q(2), of lib]
    unfolding parse_host_iff [OF assms] by simp
  show ?thesis using 1 2 parse_host_iff [OF assms] by simp
qed

section \<open>Same-endpoint sources\<close>

text \<open>
  Two authorities have the same origin only if they have the same host and port, unless an address in
  brackets has a port inside the brackets.
\<close>

lemma parts_no_bracket:
  assumes "authority_parts hv = Some (host, port)" and "CHR ''['' \<notin> set hv"
  shows "set host \<subseteq> set hv \<and> (CHR '':'' \<notin> set host \<or> port = [] \<and> host = hv \<and> SplitHostPort hv = None)"
proof (cases "SplitHostPort hv")
  case None
  then show ?thesis
    using assms by (auto simp: authority_parts_def HasPrefix_iff split: if_splits)
next
  case (Some hp)
  then have "SplitHostPort hv = Some (host, port)" using assms(1) by (simp add: authority_parts_def)
  then show ?thesis using SplitHostPort_shape assms(2) by fastforce
qed

lemma SplitHostPort_None_colon:
  assumes "SplitHostPort s = None" "CHR ''['' \<notin> set s" "CHR '']'' \<notin> set s"
  shows "s \<noteq> h @ '':'' @ q \<or> CHR '':'' \<in> set h \<or> CHR '':'' \<in> set q"
proof (rule ccontr)
  assume n: "\<not> ?thesis"
  then have "SplitHostPort s = Some (h, q)"
    using assms SplitHostPort_plain [of h q] by (metis Un_iff set_append)
  with assms(1) show False by simp
qed

lemma ToLower_symbol:
  assumes "ascii s" "byte d < 97" "\<not> between (byte (CHR ''A'')) d (byte (CHR ''Z''))"
  shows "d \<in> set (ToLower lib s) \<longleftrightarrow> d \<in> set s"
  using assms(1)
  by (simp add: ToLower_def image_iff eq_commute [of d "ascii_lower x" for x] ascii_lower_symbol [OF assms(2,3)])

definition canonical_host :: "('a, 'p) go_library \<Rightarrow> string \<Rightarrow> string" where
  "canonical_host lib host = TrimSuffix (ToLower lib (TrimSpace host)) ''.''"

lemma TrimSuffix_subset: "set (TrimSuffix s p) \<subseteq> set s"
  by (auto simp: TrimSuffix_def dest: in_set_takeD)

lemma canonical_host_symbol:
  assumes "ascii host" "byte d < 97" "\<not> between (byte (CHR ''A'')) d (byte (CHR ''Z''))" "d \<notin> set host"
  shows "d \<notin> set (canonical_host lib host)"
proof -
  have "ascii (TrimSpace host)" using assms(1) TrimSpace_subset [of host] by (auto simp: ascii_def list_all_iff)
  then have "d \<notin> set (ToLower lib (TrimSpace host))"
    using ToLower_symbol [OF _ assms(2,3)] assms(4) TrimSpace_subset [of host] by blast
  then show ?thesis using TrimSuffix_subset unfolding canonical_host_def by blast
qed

lemma canonical_host_with_port:
  assumes "ascii hv" "TrimSpace hv = hv" "\<not> HasSuffix hv ''.''" "CHR ''['' \<notin> set hv" "CHR '']'' \<notin> set (canonical_host lib hv)"
    and "canonical_host lib hv = h @ '':'' @ q" "CHR '':'' \<notin> set h" "CHR '':'' \<notin> set q"
  shows "SplitHostPort hv \<noteq> None"
proof
  assume n: "SplitHostPort hv = None"
  let ?l = "map ascii_lower hv"
  have "\<not> HasSuffix ?l ''.''"
    using assms(3) ascii_lower_symbol [of "CHR ''.''" "last hv"]
    by (auto simp: HasSuffix_dot last_map byte_def between_def)
  then have k: "canonical_host lib hv = ?l" using assms(1,2) by (simp add: canonical_host_def ToLower_def TrimSuffix_def)
  then have e: "?l = h @ '':'' @ q" using assms(6) by simp
  have "ascii_lower (CHR '']'') = CHR '']''" by (simp add: ascii_lower_def byte_def between_def)
  then have r: "CHR '']'' \<notin> set hv" using assms(5) unfolding k by (metis image_eqI list.set_map)
  obtain h' c q' where w: "hv = h' @ c # q'" "map ascii_lower h' = h" "ascii_lower c = CHR '':''" "map ascii_lower q' = q"
    using e by (auto simp: map_eq_append_conv map_eq_Cons_conv)
  then have "hv = h' @ '':'' @ q'" using ascii_lower_symbol [of "CHR '':''" c] by (simp add: byte_def between_def)
  moreover have "CHR '':'' \<notin> set h'" "CHR '':'' \<notin> set q'"
    using assms(7,8) w(3) \<open>hv = h' @ '':'' @ q'\<close> w(1) unfolding w(2) [symmetric] w(4) [symmetric]
    by (metis append_Cons append_Nil image_eqI list.inject list.set_map same_append_eq)+
  ultimately show False using SplitHostPort_None_colon [OF n assms(4) r] by blast
qed

lemma bracket_port_excluded:
  assumes a: "SplitHostPort a = Some (h, q)" "CHR '':'' \<notin> set h" "CHR '':'' \<notin> set q" "CHR '']'' \<notin> set q"
    and hv: "ascii hv" "CHR ''['' \<notin> set hv"
    and parts: "authority_parts (TrimSpace hv) = Some (host, port)" "\<not> HasSuffix host ''.''"
    and split: "SplitHostPort (JoinHostPort (canonical_host lib host) (if port = [] then d else port)) = Some (a, d)"
  shows "False"
proof -
  let ?h = "canonical_host lib host" and ?p = "if port = [] then d else port"
  have t: "ascii (TrimSpace hv)" "CHR ''['' \<notin> set (TrimSpace hv)"
    using hv TrimSpace_subset [of hv] by (auto simp: ascii_def list_all_iff)
  note n = parts_no_bracket [OF parts(1) t(2)]
  have ah: "ascii host" "CHR ''['' \<notin> set host" using n t by (auto simp: ascii_def list_all_iff)
  then have nb: "CHR ''['' \<notin> set ?h" by (intro canonical_host_symbol) (simp_all add: byte_def between_def)
  have "CHR '':'' \<in> set a" using SplitHostPort_shape [OF a(1)] by auto
  then have b: "JoinHostPort ?h ?p = ''['' @ a @ '']:'' @ d" using SplitHostPort_shape [OF split] by auto
  have col: "CHR '':'' \<in> set ?h"
  proof (rule ccontr)
    assume "CHR '':'' \<notin> set ?h"
    then have "?h @ '':'' @ ?p = ''['' @ a @ '']:'' @ d" using b by (simp add: JoinHostPort_def)
    then show False using nb by (cases ?h) auto
  qed
  then have "CHR '':'' \<in> set host"
    using canonical_host_symbol [OF ah(1), of "CHR '':''" lib] by (auto simp: byte_def between_def)
  with n have h: "port = []" "host = TrimSpace hv" "SplitHostPort (TrimSpace hv) = None" by auto
  have e: "?h = a" using b col h(1) by (simp add: JoinHostPort_def)
  with nb SplitHostPort_shape [OF a(1)] have "a = h @ '':'' @ q" "CHR '']'' \<notin> set h" by auto
  then have "SplitHostPort (TrimSpace hv) \<noteq> None"
    by (intro canonical_host_with_port [where lib = lib and h = h and q = q]) (use t parts(2) h e a in auto)
  with h(3) show False by simp
qed

lemma same_origin_same_host:
  assumes r: "SplitHostPort a = Some (h, q)" "plain_host h" "plain_port q" "scheme = ''http'' \<or> scheme = ''https''"
    and o: "canonicalGatewayProxyAuthority lib hv scheme' = Some a'" "scheme' = ''http'' \<or> scheme' = ''https''"
      "ascii hv" "CHR ''['' \<notin> set hv"
    and eq: "gatewayOriginFromAuthority lib scheme' a' = gatewayOriginFromAuthority lib scheme a"
  shows "scheme' = scheme \<and> SplitHostPort a' = Some (h, q)"
proof -
  have s: "scheme' = scheme"
    using eq r(4) o(2) by (auto simp: gatewayOriginFromAuthority_def split: option.splits prod.splits if_splits)
  let ?d = "defaultProxyPort lib scheme"
  have hc: "list_all host_char h" using r(2) by (simp add: plain_host_def)
  note c = host_char_plain [OF hc] and pc = plain_port_chars [OF r(3)]
  obtain host port where a': "authority_parts (TrimSpace hv) = Some (host, port)" "\<not> HasSuffix host ''.''"
    "a' = JoinHostPort (canonical_host lib host) (if port = [] then ?d else port)"
    using canonical_has_port [OF o(1,2)] s unfolding canonical_host_def by metis
  have colon: "CHR '':'' \<in> set a'" by (simp add: a'(3) JoinHostPort_def)
  show ?thesis
  proof (cases "\<exists>h'. SplitHostPort a' = Some (h', ?d)")
    case False
    then have X: "a' = (if q = ?d then h else a)"
      using eq r(1) s by (auto simp: gatewayOriginFromAuthority_def split: option.splits prod.splits if_splits)
    then show ?thesis using colon c(4) r(1) s by (auto split: if_splits)
  next
    case True
    then obtain h' where h': "SplitHostPort a' = Some (h', ?d)" by blast
    then have X: "h' = (if q = ?d then h else a)"
      using eq r(1) s by (auto simp: gatewayOriginFromAuthority_def split: if_splits)
    show ?thesis
    proof (cases "q = ?d")
      case True
      then show ?thesis using h' X s by simp
    next
      case q: False
      have "False"
        by (rule bracket_port_excluded [OF r(1) c(4) pc(2,4) o(3,4) a'(1,2)])
          (use h' X q a'(3) in simp_all)
      then show ?thesis ..
    qed
  qed
qed

text \<open>C14: A request that the source check admits comes from the endpoint it is sent to, if it can change
  state, opens a WebSocket or names an origin at all: it carries exactly one \<open>Origin\<close>, whose host is
  a host of the same binding under the scheme of the policy (an origin that a browser sends is ASCII,
  and only an address literal has a bracket). Any other admitted request is a \<open>GET\<close> or \<open>HEAD\<close>
  that is same-origin, a top-level navigation, or of a client that sends no fetch metadata.
\<close>

theorem authenticated_source_same_endpoint:
  assumes "plain_policy p" and "bindingForRequest lib p rq = Some b"
    and "isGatewayAuthenticatedSourceAllowed lib rq p"
  shows "if isGatewayWebSocketRequest rq \<or> rq_Method rq \<notin> {''GET'', ''HEAD''} \<or> Values (rq_Header rq) ''Origin'' \<noteq> []
    then \<exists>v u. Values (rq_Header rq) ''Origin'' = [v] \<and> urlParse lib (TrimSpace v) = Some u
        \<and> url_Scheme u = pol_Scheme p \<and> url_User u = None \<and> url_Path u = []
        \<and> (ascii (url_Host u) \<and> CHR ''['' \<notin> set (url_Host u) \<longrightarrow> parseEndpointHost lib p (url_Host u) = Some b)
    else EqualFold (TrimSpace (header_Get (rq_Header rq) ''Sec-Fetch-Site'')) ''same-origin''
        \<or> gatewayIsTopLevelNavigation lib rq \<or> gatewayHasNoFetchMetadata rq"
proof -
  let ?o = "Values (rq_Header rq) ''Origin''"
  have p: "parseEndpointHost lib p (rq_Host rq) = Some b" "pol_Scheme p = ''http'' \<or> pol_Scheme p = ''https''"
    "plain_port (pol_Port p)"
    using assms(1,2) by (auto simp: bindingForRequest_def plain_policy_def split: if_splits)
  then obtain a where b: "binding_valid b" and a: "canonicalGatewayProxyAuthority lib (rq_Host rq) (pol_Scheme p) = Some a"
    "SplitHostPort a = Some (endpoint_label b @ ''.'' @ Domain p, pol_Port p)"
    using parse_host_iff [OF assms(1)] by blast
  have ne: "pol_Port p \<noteq> []" "pol_Scheme p \<noteq> []" "rq_Host rq \<noteq> []"
    using p a(1) by (auto simp: plain_port_def canonicalGatewayProxyAuthority_def)
  have e: "gatewayRequestOrigin lib rq p = Some (gatewayOriginFromAuthority lib (pol_Scheme p) a)"
    using a ne by (simp add: gatewayRequestOrigin_def request_scheme_def Let_def)
  have m: "\<exists>v u. ?o = [v] \<and> urlParse lib (TrimSpace v) = Some u \<and> url_Scheme u = pol_Scheme p \<and> url_User u = None
      \<and> url_Path u = []
      \<and> (ascii (url_Host u) \<and> CHR ''['' \<notin> set (url_Host u) \<longrightarrow> parseEndpointHost lib p (url_Host u) = Some b)"
    if "gatewayOriginMatches lib ?o (gatewayOriginFromAuthority lib (pol_Scheme p) a)"
  proof -
    obtain v where v: "?o = [v]"
      "canonicalGatewayOrigin lib v = Some (gatewayOriginFromAuthority lib (pol_Scheme p) a)"
      using \<open>gatewayOriginMatches lib ?o _\<close> by (auto simp: gatewayOriginMatches_def split: list.splits)
    then obtain u a' where u: "urlParse lib (TrimSpace v) = Some u" "url_User u = None" "url_Path u = []"
      "url_Scheme u = ''http'' \<or> url_Scheme u = ''https''"
      "canonicalGatewayProxyAuthority lib (url_Host u) (url_Scheme u) = Some a'"
      "gatewayOriginFromAuthority lib (url_Scheme u) a' = gatewayOriginFromAuthority lib (pol_Scheme p) a"
      by (auto simp: canonicalGatewayOrigin_def Let_def split: if_splits option.splits)
    have "url_Scheme u = pol_Scheme p"
      using u(6,4) p(2) by (auto simp: gatewayOriginFromAuthority_def split: option.splits prod.splits if_splits)
    moreover have "parseEndpointHost lib p (url_Host u) = Some b"
      if h: "ascii (url_Host u)" "CHR ''['' \<notin> set (url_Host u)"
      using same_origin_same_host [OF a(2) label_plain(1) [OF b assms(1)] p(3,2) u(5,4) h u(6)] b u(5)
      unfolding parse_host_iff [OF assms(1)] by auto
    ultimately show ?thesis using v(1) u(1,2,3) by blast
  qed
  show ?thesis
  proof (cases "isGatewayWebSocketRequest rq \<or> rq_Method rq \<notin> {''GET'', ''HEAD''} \<or> ?o \<noteq> []")
    case True
    then have "gatewayOriginMatches lib ?o (gatewayOriginFromAuthority lib (pol_Scheme p) a)"
      using assms(3) unfolding isGatewayAuthenticatedSourceAllowed_def e by (auto simp: Let_def split: if_splits)
    from m [OF this] True show ?thesis by simp
  next
    case False
    then show ?thesis
      using assms(3) unfolding isGatewayAuthenticatedSourceAllowed_def e
      by (auto simp: Let_def gatewayMethodRequiresOrigin_def split: if_splits)
  qed
qed

section \<open>Examples\<close>

definition demo_policy :: originPolicy where
  "demo_policy = \<lparr>Domain = ''dev.io'', pol_Scheme = ''https'', pol_Port = ''443''\<rparr>"

definition demo_endpoint :: gatewayEndpointHost where
  "demo_endpoint =
     \<lparr>eh_codespaceUUID = ''01234567-89ab-4cde-8f01-23456789abcd'', eh_endpointID = ''port-80''\<rparr>"

definition demo_host :: string where
  "demo_host = ''port-80-0123456789ab4cde8f0123456789abcd.dev.io''"

lemma demo_policy_plain: "plain_policy demo_policy"
  by code_simp

lemma demo_endpoint_valid: "binding_valid demo_endpoint"
proof -
  have "isGatewayUUID32 ''0123456789ab4cde8f0123456789abcd'' \<and>
    eh_codespaceUUID demo_endpoint = uuid32ToCanonical ''0123456789ab4cde8f0123456789abcd''" by code_simp
  moreover have "isGatewayEndpointID (eh_endpointID demo_endpoint)" by code_simp
  ultimately show ?thesis unfolding binding_valid_def by blast
qed

theorem endpoint_host_roundtrip_witness:
  "parseEndpointHost demo_library demo_policy demo_host = Some demo_endpoint"
proof -
  have "pol_Port demo_policy = defaultProxyPort demo_library (pol_Scheme demo_policy)" by code_simp
  moreover have "endpoint_label demo_endpoint @ ''.'' @ Domain demo_policy = demo_host" by code_simp
  ultimately show ?thesis
    using endpoint_host_roundtrip [OF demo_policy_plain, of demo_endpoint demo_library demo_host] demo_endpoint_valid
    by simp
qed

definition demo_post :: http_request where
  "demo_post = demo_request ''POST'' demo_host ''/api'' [(''Origin'', [''https://'' @ demo_host])]"

theorem authenticated_source_same_endpoint_witness:
  "isGatewayAuthenticatedSourceAllowed demo_library demo_post demo_policy \<and>
   (\<exists>v u. Values (rq_Header demo_post) ''Origin'' = [v] \<and> demo_urlParse (TrimSpace v) = Some u \<and>
     url_Scheme u = ''https'')"
proof -
  have b: "bindingForRequest demo_library demo_policy demo_post = Some demo_endpoint"
    "isGatewayAuthenticatedSourceAllowed demo_library demo_post demo_policy" by code_simp+
  have m: "rq_Method demo_post = ''POST''" by code_simp
  have "urlParse demo_library = demo_urlParse" "pol_Scheme demo_policy = ''https''"
    by (simp_all add: demo_library_def demo_policy_def)
  with authenticated_source_same_endpoint [OF demo_policy_plain b] m b(2) show ?thesis by auto
qed

end
