(* ===== verification/Gateway_Request.thy ===== *)
theory Gateway_Request
  imports Gateway_Origin
begin

text \<open>
  What the Gateway reads from a request and writes into an answer: the client address behind trusted
  proxies (\<open>internal/gateway/client_ip.go\<close>), the paths and cookies of \<open>handler.go\<close>, and the
  redirects of \<open>browser_auth.go\<close>. The lemmas show that the client address cannot be forged through
  trusted proxies, that every redirect after sign-in stays on the host, and that the paths of the
  Gateway are read back as what they were made for.
\<close>

section \<open>The client address\<close>

definition gatewayIPInPrefixes :: "('a, 'p) go_library \<Rightarrow> 'a \<Rightarrow> 'p list \<Rightarrow> bool" where
  "gatewayIPInPrefixes lib address prefixes = list_ex (\<lambda>prefix. prefixContains lib prefix address) prefixes"

definition gatewayRemoteIP :: "('a, 'p) go_library \<Rightarrow> string \<Rightarrow> 'a option" where
  "gatewayRemoteIP lib remote =
     (case parseAddrPort lib remote of
        Some address \<Rightarrow> Some (unmapAddr lib address)
      | None \<Rightarrow>
          (case Option.bind (SplitHostPort remote) (\<lambda>(host, _). parseAddr lib host) of
             Some address \<Rightarrow> Some (unmapAddr lib address)
           | None \<Rightarrow> map_option (unmapAddr lib) (parseAddr lib remote)))"

text \<open>The addresses of the forwarding header, \<open>None\<close> when one of them is no address.\<close>

fun forwarded_addresses :: "('a, 'p) go_library \<Rightarrow> string list \<Rightarrow> 'a list option" where
  "forwarded_addresses lib [] = Some []"
| "forwarded_addresses lib (value # values) =
     (case parseAddr lib (TrimSpace value) of
        None \<Rightarrow> None
      | Some address \<Rightarrow> map_option (Cons (unmapAddr lib address)) (forwarded_addresses lib values))"

text \<open>The search from the right for an address that is not trusted.\<close>

definition untrusted_from_right :: "('a, 'p) go_library \<Rightarrow> 'p list \<Rightarrow> 'a list \<Rightarrow> 'a" where
  "untrusted_from_right lib prefixes addresses =
     (case find (\<lambda>address. \<not> gatewayIPInPrefixes lib address prefixes) (rev addresses) of
        Some address \<Rightarrow> address
      | None \<Rightarrow> hd addresses)"

definition trusted_prefixes :: "('a, 'p) go_library \<Rightarrow> string list \<Rightarrow> 'p list" where
  "trusted_prefixes lib trustedCIDRs = map (maskedPrefix lib) (List.map_filter (parsePrefix lib) trustedCIDRs)"

definition client_address :: "('a, 'p) go_library \<Rightarrow> 'p list \<Rightarrow> http_request \<Rightarrow> 'a \<Rightarrow> 'a" where
  "client_address lib prefixes request peer =
     (if gatewayIPInPrefixes lib peer prefixes
      then (case forwarded_addresses lib (Split (CHR '','') (Join '','' (Values (rq_Header request) ''X-Forwarded-For''))) of
              None \<Rightarrow> peer
            | Some [] \<Rightarrow> peer
            | Some addresses \<Rightarrow> untrusted_from_right lib prefixes addresses)
      else peer)"

definition gatewayClientIPMiddleware :: "('a, 'p) go_library \<Rightarrow> string list \<Rightarrow> http_request \<Rightarrow> http_request" where
  "gatewayClientIPMiddleware lib trustedCIDRs request =
     (case gatewayRemoteIP lib (rq_RemoteAddr request) of
        None \<Rightarrow> request
      | Some peer \<Rightarrow>
          request\<lparr>rq_clientIP := Some (addrString lib (client_address lib (trusted_prefixes lib trustedCIDRs) request peer))\<rparr>)"

definition gatewayPeerIP :: "('a, 'p) go_library \<Rightarrow> http_request \<Rightarrow> string" where
  "gatewayPeerIP lib request =
     (case rq_clientIP request of
        Some address \<Rightarrow> address
      | None \<Rightarrow>
          (case SplitHostPort (rq_RemoteAddr request) of
             Some (host, _) \<Rightarrow> host
           | None \<Rightarrow> (case parseIP lib (rq_RemoteAddr request) of Some ip \<Rightarrow> ip | None \<Rightarrow> rq_RemoteAddr request)))"

section \<open>Paths\<close>

definition gatewayProxyPathFromParts :: "string list \<Rightarrow> string" where
  "gatewayProxyPathFromParts parts = (if parts = [] then ''/'' else ''/'' @ Join ''/'' parts)"

definition parseGatewayWorkspacePath :: "string \<Rightarrow> (string \<times> string \<times> string) option" where
  "parseGatewayWorkspacePath path =
     (case CutPrefix path ''/w/'' of
        None \<Rightarrow> None
      | Some withoutPrefix \<Rightarrow>
          (let trimmed = Trim (CHR ''/'') withoutPrefix
           in if trimmed = [] then None
              else
                (let parts = Split (CHR ''/'') trimmed
                 in if length parts = 1 then Some (parts ! 0, WorkspaceEndpointID, ''/'')
                    else if length parts \<ge> 3 \<and> parts ! 1 = ''e'' \<and> parts ! 2 \<noteq> [] \<and> parts ! 2 \<noteq> WorkspaceEndpointID
                    then Some (parts ! 0, parts ! 2, gatewayProxyPathFromParts (drop 3 parts))
                    else Some (parts ! 0, WorkspaceEndpointID, gatewayProxyPathFromParts (drop 1 parts)))))"

definition parseGatewayPublicEndpointPath :: "string \<Rightarrow> (string \<times> string \<times> string) option" where
  "parseGatewayPublicEndpointPath path =
     (case CutPrefix path ''/p/'' of
        None \<Rightarrow> None
      | Some withoutPrefix \<Rightarrow>
          (let trimmed = Trim (CHR ''/'') withoutPrefix
           in if trimmed = [] then None
              else
                (let parts = Split (CHR ''/'') trimmed
                 in if length parts < 2 \<or> parts ! 0 = [] \<or> parts ! 1 = [] \<or> parts ! 1 = WorkspaceEndpointID then None
                    else Some (parts ! 0, parts ! 1, gatewayProxyPathFromParts (drop 2 parts)))))"

definition resolveGatewayWorkspaceBinding ::
  "('a, 'p) go_library \<Rightarrow> http_request \<Rightarrow> originPolicy \<Rightarrow> (string \<times> string \<times> string) option" where
  "resolveGatewayWorkspaceBinding lib request policy =
     (let path = url_Path (rq_URL request)
      in if Domain policy = [] then parseGatewayWorkspacePath path
         else case bindingForRequest lib policy request of
                None \<Rightarrow> None
              | Some hostBinding \<Rightarrow>
                  (case parseGatewayWorkspacePath path of
                     Some (pathUUID, pathEndpoint, upstreamPath) \<Rightarrow>
                       if pathUUID \<noteq> eh_codespaceUUID hostBinding \<or> pathEndpoint \<noteq> eh_endpointID hostBinding then None
                       else Some (eh_codespaceUUID hostBinding, eh_endpointID hostBinding, upstreamPath)
                   | None \<Rightarrow>
                       Some (eh_codespaceUUID hostBinding, eh_endpointID hostBinding, if path = ''/w/'' then ''/'' else path)))"

definition resolveGatewayPublicEndpointBinding ::
  "('a, 'p) go_library \<Rightarrow> http_request \<Rightarrow> originPolicy \<Rightarrow> (string \<times> string \<times> string) option" where
  "resolveGatewayPublicEndpointBinding lib request policy =
     (let path = url_Path (rq_URL request)
      in if Domain policy = [] then parseGatewayPublicEndpointPath path
         else case bindingForRequest lib policy request of
                None \<Rightarrow> None
              | Some hostBinding \<Rightarrow>
                  if eh_endpointID hostBinding = WorkspaceEndpointID then None
                  else case parseGatewayPublicEndpointPath path of
                         Some (pathUUID, pathEndpoint, upstreamPath) \<Rightarrow>
                           if pathUUID \<noteq> eh_codespaceUUID hostBinding \<or> pathEndpoint \<noteq> eh_endpointID hostBinding then None
                           else Some (eh_codespaceUUID hostBinding, eh_endpointID hostBinding, upstreamPath)
                       | None \<Rightarrow> Some (eh_codespaceUUID hostBinding, eh_endpointID hostBinding, path))"

definition gatewayWorkspacePath :: "string \<Rightarrow> string \<Rightarrow> string" where
  "gatewayWorkspacePath codespaceUUID endpointID =
     (if endpointID = [] \<or> endpointID = WorkspaceEndpointID then ''/w/'' @ codespaceUUID @ ''/''
      else ''/w/'' @ codespaceUUID @ ''/e/'' @ endpointID @ ''/'')"

definition gatewayOpenRedirectPath :: "string \<Rightarrow> string \<Rightarrow> originPolicy \<Rightarrow> string \<Rightarrow> string" where
  "gatewayOpenRedirectPath codespaceUUID endpointID policy returnTo =
     (if returnTo \<noteq> [] then returnTo
      else if Domain policy \<noteq> [] then ''/''
      else gatewayWorkspacePath codespaceUUID endpointID)"

definition gatewayOpenCode :: "('a, 'p) go_library \<Rightarrow> http_request \<Rightarrow> string option" where
  "gatewayOpenCode lib request =
     (let query = urlQuery lib (url_RawQuery (rq_URL request));
          codes = (case fmlookup query ''code'' of None \<Rightarrow> [] | Some vs \<Rightarrow> vs)
      in if map_len query \<noteq> 1 \<or> length codes \<noteq> 1 \<or> TrimSpace (codes ! 0) = [] then None else Some (codes ! 0))"

section \<open>Kinds of requests\<close>

definition isGatewayServiceWorkerRequest :: "http_request \<Rightarrow> bool" where
  "isGatewayServiceWorkerRequest request \<longleftrightarrow>
     (if Values (rq_Header request) ''Service-Worker'' \<noteq> [] then True
      else case Values (rq_Header request) ''Sec-Fetch-Dest'' of
             [] \<Rightarrow> False
           | [v] \<Rightarrow> TrimSpace v = [] \<or> EqualFold (TrimSpace v) ''serviceworker''
           | _ \<Rightarrow> True)"

definition media_type :: "string \<Rightarrow> string" where
  "media_type part = TrimSpace (fst (Cut (CHR '';'') part))"

definition headerAcceptsHTML :: "string \<Rightarrow> bool" where
  "headerAcceptsHTML value =
     list_ex (\<lambda>part. EqualFold (media_type part) ''text/html'' \<or> media_type part = ''*/*'') (Split (CHR '','') value)"

definition gatewayRequestAcceptsHTML :: "http_request \<Rightarrow> bool" where
  "gatewayRequestAcceptsHTML request \<longleftrightarrow>
     (let accept = header_Get (rq_Header request) ''Accept''
      in rq_Method request = ''GET'' \<and>
         \<not> EqualFold (TrimSpace (header_Get (rq_Header request) ''Upgrade'')) ''websocket'' \<and>
         \<not> (accept = [] \<or> Contains accept ''application/json'') \<and>
         list_ex (\<lambda>part. EqualFold (media_type part) ''text/html'') (Split (CHR '','') accept))"

definition isGatewayBrowserAuthNavigation :: "http_request \<Rightarrow> bool" where
  "isGatewayBrowserAuthNavigation request \<longleftrightarrow>
     (let h = rq_Header request
      in rq_Method request = ''GET'' \<and>
         \<not> EqualFold (TrimSpace (header_Get h ''Upgrade'')) ''websocket'' \<and>
         headerAcceptsHTML (header_Get h ''Accept'') \<and>
         EqualFold (TrimSpace (header_Get h ''Sec-Fetch-Mode'')) ''navigate'' \<and>
         EqualFold (TrimSpace (header_Get h ''Sec-Fetch-Dest'')) ''document'')"

definition gatewayExternalScheme :: "http_request \<Rightarrow> originPolicy \<Rightarrow> string" where
  "gatewayExternalScheme request policy =
     (if pol_Scheme policy \<noteq> [] then pol_Scheme policy else if rq_TLS request then ''https'' else ''http'')"

section \<open>Answers\<close>

text \<open>
  An answer: the headers written so far, the status and what the body shows. \<open>http.SetCookie\<close> adds
  a header for a cookie that can be printed.
\<close>

datatype response_body =
    NoBody
  | GatewayErrorHTML string string string
  | GatewayErrorJSON string
  | RedirectBody string

record response =
  rw_Header :: header
  rw_Status :: int
  rw_Body :: response_body

definition new_response :: response where
  "new_response = \<lparr>rw_Header = fmempty, rw_Status = 200, rw_Body = NoBody\<rparr>"

definition set_header :: "string \<Rightarrow> string \<Rightarrow> response \<Rightarrow> response" where
  "set_header key v w = w\<lparr>rw_Header := header_Set key v (rw_Header w)\<rparr>"

definition SetCookie :: "('a, 'p) go_library \<Rightarrow> cookie \<Rightarrow> response \<Rightarrow> response" where
  "SetCookie lib c w =
     (let v = cookieString lib c
      in if v \<noteq> [] then w\<lparr>rw_Header := header_Add ''Set-Cookie'' v (rw_Header w)\<rparr> else w)"

definition quoted :: "string \<Rightarrow> string" where
  "quoted s = CHR 0x27 # s @ [CHR 0x27]"

definition writeGatewayErrorHTML :: "int \<Rightarrow> string \<Rightarrow> string \<Rightarrow> string \<Rightarrow> response \<Rightarrow> response" where
  "writeGatewayErrorHTML status title message category w =
     (set_header ''Content-Security-Policy''
        (''default-src '' @ quoted ''none'' @ ''; style-src '' @ quoted ''unsafe-inline'' @ ''; base-uri '' @ quoted ''none''
           @ ''; frame-ancestors '' @ quoted ''none'')
        (set_header ''Referrer-Policy'' ''no-referrer''
          (set_header ''Cache-Control'' ''no-store''
            (set_header ''Content-Type'' ''text/html; charset=utf-8'' w))))
      \<lparr>rw_Status := status, rw_Body := GatewayErrorHTML title message category\<rparr>"

definition writeGatewayError :: "http_request \<Rightarrow> int \<Rightarrow> string \<Rightarrow> string \<Rightarrow> string \<Rightarrow> response \<Rightarrow> response" where
  "writeGatewayError request status title message category w =
     (if gatewayRequestAcceptsHTML request then writeGatewayErrorHTML status title message category w
      else (set_header ''Content-Type'' ''application/json'' w)
             \<lparr>rw_Status := status, rw_Body := GatewayErrorJSON category\<rparr>)"

definition writeGatewayNotFound :: "http_request \<Rightarrow> string \<Rightarrow> response \<Rightarrow> response" where
  "writeGatewayNotFound request ctx w =
     writeGatewayError request 404 ''Page not found'' (ctx @ '' was not found on this gateway.'') ''not_found'' w"

text \<open>\<open>http.Redirect\<close>.\<close>

definition hexEscapeNonASCII :: "string \<Rightarrow> string" where
  "hexEscapeNonASCII s = concat (map (\<lambda>c. if 0x80 \<le> byte c then CHR ''%'' # hex_byte c else [c]) s)"

definition redirect_clean :: "string \<Rightarrow> string" where
  "redirect_clean target =
     (let path = takeWhile (\<lambda>c. c \<noteq> CHR ''?'') target; query = dropWhile (\<lambda>c. c \<noteq> CHR ''?'') target;
          cleaned = path_Clean_rooted path
      in (if HasSuffix path ''/'' \<and> \<not> HasSuffix cleaned ''/'' then cleaned @ ''/'' else cleaned) @ query)"

definition path_dir :: "string \<Rightarrow> string" where
  "path_dir path = (case index_last (CHR ''/'') path of None \<Rightarrow> [] | Some i \<Rightarrow> take (i + 1) path)"

definition redirect_location :: "('a, 'p) go_library \<Rightarrow> http_request \<Rightarrow> string \<Rightarrow> string" where
  "redirect_location lib request target =
     (case urlParse lib target of
        Some u \<Rightarrow>
          if url_Scheme u = [] \<and> url_Host u = []
          then (let old = (if url_Path (rq_URL request) = [] then ''/'' else url_Path (rq_URL request))
                in redirect_clean (if HasPrefix target ''/'' then target else path_dir old @ target))
          else target
      | None \<Rightarrow> target)"

definition Redirect :: "('a, 'p) go_library \<Rightarrow> http_request \<Rightarrow> string \<Rightarrow> int \<Rightarrow> response \<Rightarrow> response" where
  "Redirect lib request target code w =
     (let location = redirect_location lib request target;
          hadCT = (Values (rw_Header w) ''Content-Type'' \<noteq> []);
          w = set_header ''Location'' (hexEscapeNonASCII location) w;
          w = (if \<not> hadCT \<and> (rq_Method request = ''GET'' \<or> rq_Method request = ''HEAD'')
               then set_header ''Content-Type'' ''text/html; charset=utf-8'' w else w)
      in w\<lparr>rw_Status := code, rw_Body := (if \<not> hadCT \<and> rq_Method request = ''GET'' then RedirectBody location else NoBody)\<rparr>)"

section \<open>Cookies of the Gateway\<close>

definition sessionCookieName :: string where
  "sessionCookieName = ''gitea_codespace_session''"

definition secureSessionCookieName :: string where
  "secureSessionCookieName = ''__Host-gitea_codespace_session''"

definition returnToCookieName :: string where
  "returnToCookieName = ''gitea_codespace_return_to''"

definition secureReturnToCookieName :: string where
  "secureReturnToCookieName = ''__Host-gitea_codespace_return_to''"

definition isGatewayReservedCookieName :: "string \<Rightarrow> bool" where
  "isGatewayReservedCookieName name \<longleftrightarrow>
     name \<in> {sessionCookieName, secureSessionCookieName, returnToCookieName, secureReturnToCookieName}"

definition blank_cookie :: cookie where
  "blank_cookie =
     \<lparr>ck_Name = [], ck_Value = [], ck_Path = [], ck_Domain = [], ck_Expires = zero_time, ck_RawExpires = [],
      ck_MaxAge = 0, ck_Secure = False, ck_HttpOnly = False, ck_SameSite = SameSiteUnset, ck_Partitioned = False,
      ck_Raw = [], ck_Unparsed = []\<rparr>"

definition gateway_cookie :: "string \<Rightarrow> string \<Rightarrow> cookie" where
  "gateway_cookie name value =
     blank_cookie\<lparr>ck_Name := name, ck_Value := value, ck_Path := ''/'', ck_HttpOnly := True, ck_SameSite := SameSiteLaxMode\<rparr>"

definition parse_cookie_part :: "('a, 'p) go_library \<Rightarrow> string \<Rightarrow> cookie option" where
  "parse_cookie_part lib value =
     (let part = TrimSpace value
      in if part = [] then None
         else case Cut (CHR ''='') part of
                (name, _, ok) \<Rightarrow>
                  if \<not> ok \<or> TrimSpace name = [] then None
                  else (case parseCookie lib part of Some [c] \<Rightarrow> Some c | _ \<Rightarrow> None))"

definition parseGatewayProxyRequestCookies :: "('a, 'p) go_library \<Rightarrow> string list \<Rightarrow> cookie list" where
  "parseGatewayProxyRequestCookies lib headers =
     List.map_filter (parse_cookie_part lib) (concat (map (Split (CHR '';'')) headers))"

definition setGatewaySessionCookie :: "('a, 'p) go_library \<Rightarrow> string \<Rightarrow> originPolicy \<Rightarrow> response \<Rightarrow> response" where
  "setGatewaySessionCookie lib sessionID policy w =
     SetCookie lib (let c = gateway_cookie sessionCookieName sessionID
                    in if EqualFold (pol_Scheme policy) ''https''
                       then c\<lparr>ck_Name := secureSessionCookieName, ck_Secure := True\<rparr> else c) w"

text \<open>The tokens of a request, each once; \<open>order\<close> arranges them as Go visits its map.\<close>

definition gatewaySessionIDsFromRequest ::
  "(string list \<Rightarrow> string list) \<Rightarrow> ('a, 'p) go_library \<Rightarrow> http_request \<Rightarrow> originPolicy \<Rightarrow> string list" where
  "gatewaySessionIDsFromRequest order lib request policy =
     (let name = (if EqualFold (pol_Scheme policy) ''https'' then secureSessionCookieName else sessionCookieName)
      in order (remdups (map ck_Value
           (filter (\<lambda>c. ck_Name c = name \<and> ck_Value c \<noteq> [])
             (parseGatewayProxyRequestCookies lib (Values (rq_Header request) ''Cookie''))))))"

section \<open>Returning to a page after sign-in\<close>

definition gatewayReturnToMaxBytes :: nat where
  "gatewayReturnToMaxBytes = 2048"

definition gatewayReturnToCookieLife :: duration where
  "gatewayReturnToCookieLife = 5 * minute"

definition sanitizeGatewayReturnTo :: "string \<Rightarrow> string" where
  "sanitizeGatewayReturnTo value =
     (if length value > gatewayReturnToMaxBytes then ''/''
      else if \<not> HasPrefix value ''/'' \<or> HasPrefix value ''//'' then ''/''
      else if Contains value [CHR 0x5C] \<or> Contains value ''/.gitea-codespace/'' then ''/''
      else if list_ex (\<lambda>r. byte r < 0x20 \<or> byte r = 0x7F) value then ''/''
      else value)"

definition gatewayReturnToCookie :: "('a, 'p) go_library \<Rightarrow> http_request \<Rightarrow> string" where
  "gatewayReturnToCookie lib request =
     (let value = urlEscapedPath lib (rq_URL request);
          value = (if value = [] then ''/'' else value);
          value = (if url_RawQuery (rq_URL request) \<noteq> [] then value @ ''?'' @ url_RawQuery (rq_URL request) else value)
      in sanitizeGatewayReturnTo value)"

definition setGatewayReturnToCookie :: "('a, 'p) go_library \<Rightarrow> string \<Rightarrow> originPolicy \<Rightarrow> time \<Rightarrow> response \<Rightarrow> response" where
  "setGatewayReturnToCookie lib value policy now w =
     SetCookie lib
       (let c = (gateway_cookie returnToCookieName (sanitizeGatewayReturnTo value))
                  \<lparr>ck_MaxAge := gatewayReturnToCookieLife div second, ck_Expires := now + gatewayReturnToCookieLife\<rparr>
        in if ToLower lib (pol_Scheme policy) = ''https''
           then c\<lparr>ck_Name := secureReturnToCookieName, ck_Secure := True\<rparr> else c) w"

definition gatewayReturnToPathFromRequest :: "('a, 'p) go_library \<Rightarrow> http_request \<Rightarrow> originPolicy \<Rightarrow> string \<times> bool" where
  "gatewayReturnToPathFromRequest lib request policy =
     (let name = (if EqualFold (pol_Scheme policy) ''https'' then secureReturnToCookieName else returnToCookieName);
          cookies = requestCookies lib (Values (rq_Header request) ''Cookie'');
          hasReturnToCookie = list_ex (\<lambda>c. ck_Name c = returnToCookieName \<or> ck_Name c = secureReturnToCookieName) cookies
      in case map ck_Value (filter (\<lambda>c. ck_Name c = name) cookies) of
           [] \<Rightarrow> ([], hasReturnToCookie)
         | [v] \<Rightarrow> (sanitizeGatewayReturnTo v, True)
         | _ \<Rightarrow> (''/'', True))"

definition clear_cookie :: "string \<Rightarrow> bool \<Rightarrow> cookie" where
  "clear_cookie name secure = (gateway_cookie name [])\<lparr>ck_MaxAge := -1, ck_Secure := secure\<rparr>"

definition clearGatewayReturnToCookies :: "('a, 'p) go_library \<Rightarrow> response \<Rightarrow> response" where
  "clearGatewayReturnToCookies lib w =
     SetCookie lib (clear_cookie secureReturnToCookieName True) (SetCookie lib (clear_cookie returnToCookieName False) w)"

definition clearGatewayReturnToIfPresent :: "('a, 'p) go_library \<Rightarrow> http_request \<Rightarrow> originPolicy \<Rightarrow> response \<Rightarrow> response" where
  "clearGatewayReturnToIfPresent lib request policy w =
     (if snd (gatewayReturnToPathFromRequest lib request policy) then clearGatewayReturnToCookies lib w else w)"

definition clearGatewayReservedCookies :: "('a, 'p) go_library \<Rightarrow> response \<Rightarrow> response" where
  "clearGatewayReservedCookies lib w =
     clearGatewayReturnToCookies lib
       (SetCookie lib (clear_cookie secureSessionCookieName True) (SetCookie lib (clear_cookie sessionCookieName False) w))"

section \<open>Sending a browser to Gitea\<close>

definition parseGatewayGiteaWebURL :: "('a, 'p) go_library \<Rightarrow> string \<Rightarrow> url option" where
  "parseGatewayGiteaWebURL lib rawURL =
     (case urlParse lib rawURL of
        None \<Rightarrow> None
      | Some parsed \<Rightarrow>
          if url_Scheme parsed \<noteq> ''http'' \<and> url_Scheme parsed \<noteq> ''https'' then None
          else if url_Host parsed = [] \<or> url_User parsed \<noteq> None \<or> url_RawQuery parsed \<noteq> [] \<or> url_Fragment parsed \<noteq> [] then None
          else if url_Path parsed = [] \<or> \<not> HasSuffix (url_Path parsed) ''/'' then None
          else Some parsed)"

definition openURL :: "gatewayRouteKey list \<Rightarrow> ('a, 'p) go_library \<Rightarrow> routeStore \<Rightarrow> string \<Rightarrow> string \<Rightarrow> string option" where
  "openURL order lib routes codespaceUUID endpointID =
     (case giteaWebURLForCodespace order codespaceUUID routes of
        None \<Rightarrow> None
      | Some rawURL \<Rightarrow>
          (case parseGatewayGiteaWebURL lib (TrimRight (CHR ''/'') rawURL @ ''/'') of
             None \<Rightarrow> None
           | Some parsed \<Rightarrow>
               (let endpointID = (if endpointID = [] then WorkspaceEndpointID else endpointID)
                in Some (urlString lib
                     (parsed\<lparr>url_Path := TrimRight (CHR ''/'') (url_Path parsed) @ ''/-/codespaces/'' @ pathEscape lib codespaceUUID,
                             url_RawPath := [],
                             url_RawQuery := ''open_endpoint='' @ queryEscape lib endpointID,
                             url_Fragment := []\<rparr>)))))"

definition handleGatewayAuthenticationRequired ::
  "gatewayRouteKey list \<Rightarrow> ('a, 'p) go_library \<Rightarrow> routeStore \<Rightarrow> http_request \<Rightarrow> string \<Rightarrow> string \<Rightarrow> originPolicy \<Rightarrow> time \<Rightarrow>
     response \<Rightarrow> response option" where
  "handleGatewayAuthenticationRequired order lib routes request codespaceUUID endpointID policy now w =
     (if \<not> isGatewayBrowserAuthNavigation request then None
      else case openURL order lib routes codespaceUUID endpointID of
             None \<Rightarrow> None
           | Some target \<Rightarrow>
               Some (Redirect lib request target 303
                 (setGatewayReturnToCookie lib (gatewayReturnToCookie lib request) policy now w)))"

section \<open>The client address cannot be forged\<close>

lemma forwarded_append:
  "forwarded_addresses lib (xs @ ys) =
     (case forwarded_addresses lib xs of
        None \<Rightarrow> None
      | Some as \<Rightarrow> map_option (\<lambda>bs. as @ bs) (forwarded_addresses lib ys))"
  by (cases "forwarded_addresses lib ys"; induction xs) (auto split: option.splits)

lemma forwarded_None_iff:
  "forwarded_addresses lib xs = None \<longleftrightarrow> (\<exists>x \<in> set xs. parseAddr lib (TrimSpace x) = None)"
  by (induction xs) (auto split: option.splits)

lemma forwarded_trusted:
  assumes "\<forall>t \<in> set ts. \<exists>a. parseAddr lib (TrimSpace t) = Some a \<and> gatewayIPInPrefixes lib (unmapAddr lib a) prefixes"
  shows "\<exists>as. forwarded_addresses lib ts = Some as \<and> (\<forall>a \<in> set as. gatewayIPInPrefixes lib a prefixes)"
  using assms by (induction ts) auto

lemma untrusted_last:
  assumes "\<not> gatewayIPInPrefixes lib c prefixes" and "\<forall>a \<in> set as. gatewayIPInPrefixes lib a prefixes"
  shows "untrusted_from_right lib prefixes (xs @ c # as) = c"
proof -
  have "find (\<lambda>a. \<not> gatewayIPInPrefixes lib a prefixes) (rev as @ ys) = find (\<lambda>a. \<not> gatewayIPInPrefixes lib a prefixes) ys" for ys
    using assms(2) by (induction as arbitrary: ys rule: rev_induct) auto
  then show ?thesis using assms(1) by (simp add: untrusted_from_right_def)
qed

text \<open>C26: The client address is the address that the outermost trusted proxy saw. Let the entries of the
  forwarding header be whatever the client sent itself (\<open>sent\<close>), then the address \<open>client\<close> that
  the outermost trusted proxy appended, then trusted addresses of further proxies. The Gateway uses
  \<open>client\<close>, or the peer itself when the client sent something that is no address or the peer is not
  trusted; no other address can be claimed.
\<close>

theorem client_address_unforgeable:
  assumes "Split (CHR '','') (Join '','' (Values (rq_Header rq) ''X-Forwarded-For'')) = sent @ client # hops"
    and "parseAddr lib (TrimSpace client) = Some a" and "\<not> gatewayIPInPrefixes lib (unmapAddr lib a) prefixes"
    and "\<forall>t \<in> set hops. \<exists>h. parseAddr lib (TrimSpace t) = Some h \<and> gatewayIPInPrefixes lib (unmapAddr lib h) prefixes"
  shows "client_address lib prefixes rq peer =
    (if gatewayIPInPrefixes lib peer prefixes \<and> (\<forall>x \<in> set sent. parseAddr lib (TrimSpace x) \<noteq> None)
     then unmapAddr lib a else peer)"
proof -
  obtain hs where hs: "forwarded_addresses lib hops = Some hs" "\<forall>a \<in> set hs. gatewayIPInPrefixes lib a prefixes"
    using forwarded_trusted [OF assms(4)] by blast
  have f: "forwarded_addresses lib (sent @ client # hops) =
      map_option (\<lambda>as. as @ unmapAddr lib a # hs) (forwarded_addresses lib sent)"
    by (simp add: forwarded_append hs(1) assms(2) split: option.splits)
  show ?thesis
  proof (cases "forwarded_addresses lib sent")
    case None
    then show ?thesis
      using f forwarded_None_iff [of lib sent] by (auto simp: client_address_def assms(1))
  next
    case (Some as)
    then have n: "\<forall>x \<in> set sent. parseAddr lib (TrimSpace x) \<noteq> None"
      using forwarded_None_iff [of lib sent] by fastforce
    have "forwarded_addresses lib (sent @ client # hops) = Some (as @ unmapAddr lib a # hs)"
      using f Some by simp
    moreover obtain y ys where "as @ unmapAddr lib a # hs = y # ys" by (cases as) auto
    ultimately show ?thesis
      using n untrusted_last [OF assms(3) hs(2), of as] by (auto simp: client_address_def assms(1))
  qed
qed

section \<open>Redirects stay on the host\<close>

definition printable :: "char \<Rightarrow> bool" where
  "printable c \<longleftrightarrow> 0x20 \<le> byte c \<and> byte c < 0x7F"

definition local_path :: "string \<Rightarrow> bool" where
  "local_path s \<longleftrightarrow>
     (\<exists>r. s = CHR ''/'' # r \<and> (r = [] \<or> (hd r \<noteq> CHR ''/'' \<and> hd r \<noteq> CHR 0x5C)))"

definition safe_char :: "char \<Rightarrow> bool" where
  "safe_char c \<longleftrightarrow> \<not> (byte c < 0x20 \<or> byte c = 0x7F) \<and> c \<noteq> CHR 0x5C"

lemma sanitize_safe: "local_path (sanitizeGatewayReturnTo v) \<and> list_all safe_char (sanitizeGatewayReturnTo v)"
proof -
  have slash: "local_path ''/'' \<and> list_all safe_char ''/''" by (simp add: local_path_def safe_char_def byte_def)
  show ?thesis
  proof (cases "sanitizeGatewayReturnTo v = v")
    case False
    then have "sanitizeGatewayReturnTo v = ''/''" by (simp add: sanitizeGatewayReturnTo_def split: if_splits)
    then show ?thesis using slash by simp
  next
    case True
    show ?thesis
    proof (cases "v = ''/''")
      case True
      then show ?thesis using slash \<open>sanitizeGatewayReturnTo v = v\<close> by simp
    next
      case False
      with True have h: "HasPrefix v ''/''" "\<not> HasPrefix v ''//''" "CHR 0x5C \<notin> set v"
        "\<not> list_ex (\<lambda>r. byte r < 0x20 \<or> byte r = 0x7F) v"
        by (auto simp: sanitizeGatewayReturnTo_def Contains_char split: if_splits)
      obtain r where r: "v = CHR ''/'' # r" using h(1) by (auto simp: HasPrefix_iff)
      have "r = [] \<or> (hd r \<noteq> CHR ''/'' \<and> hd r \<noteq> CHR 0x5C)"
        using h(2,3) r by (cases r) (auto simp: HasPrefix_def)
      then have "local_path v" using r by (auto simp: local_path_def)
      moreover have "list_all safe_char v" using h(3,4) by (auto simp: safe_char_def list_all_iff list_ex_iff)
      ultimately show ?thesis using True by simp
    qed
  qed
qed

lemma split_slash_parts:
  "seg \<in> set (split_slash acc s) \<Longrightarrow> CHR ''/'' \<notin> set acc \<Longrightarrow> CHR ''/'' \<notin> set seg \<and> set seg \<subseteq> set acc \<union> set s"
  by (induction acc s rule: split_slash.induct) (fastforce split: if_splits)+

lemma clean_segments_parts:
  "seg \<in> set (clean_segments acc segs) \<Longrightarrow> [] \<notin> set acc \<Longrightarrow> seg \<noteq> [] \<and> (seg \<in> set acc \<or> seg \<in> set segs)"
proof (induction acc segs rule: clean_segments.induct)
  case (1 acc)
  then show ?case by auto
next
  case (2 acc s segs)
  have "set (tl acc) \<subseteq> set acc" by (cases acc) auto
  with 2 show ?case by (cases "s = [] \<or> s = ''.''"; cases "s = ''..''") auto
qed

lemma clean_rooted_local:
  assumes "list_all safe_char s"
  shows "local_path (path_Clean_rooted s) \<and> list_all safe_char (path_Clean_rooted s) \<and>
    (path_Clean_rooted s = ''/'' \<or> tl (path_Clean_rooted s) \<noteq> [])"
proof (cases "clean_segments [] (split_slash [] s)")
  case Nil
  then show ?thesis by (simp add: path_Clean_rooted_def local_path_def safe_char_def byte_def)
next
  case (Cons seg segs)
  have p: "x \<noteq> [] \<and> CHR ''/'' \<notin> set x \<and> list_all safe_char x" if "x \<in> set (seg # segs)" for x
  proof -
    have "x \<noteq> [] \<and> x \<in> set (split_slash [] s)"
      using clean_segments_parts [of x "[]" "split_slash [] s"] that Cons by simp
    then show ?thesis using split_slash_parts [of x "[]" s] assms by (auto simp: list_all_iff)
  qed
  have "path_Clean_rooted s = concat (map (Cons (CHR ''/'')) (seg # segs))"
    by (simp add: path_Clean_rooted_def Cons)
  moreover have "list_all safe_char (concat (map (Cons (CHR ''/'')) (seg # segs)))"
    using p by (auto simp: list_all_iff safe_char_def byte_def)
  moreover have "hd seg \<noteq> CHR ''/'' \<and> hd seg \<noteq> CHR 0x5C \<and> seg \<noteq> []"
    using p [of seg] by (cases seg) (auto simp: safe_char_def)
  ultimately show ?thesis by (auto simp: local_path_def)
qed

lemma local_path_append:
  "local_path s \<Longrightarrow> s \<noteq> ''/'' \<Longrightarrow> local_path (s @ t)"
  "local_path s \<Longrightarrow> t = [] \<or> hd t \<noteq> CHR ''/'' \<and> hd t \<noteq> CHR 0x5C \<Longrightarrow> local_path (s @ t)"
  by (auto simp: local_path_def hd_append)

lemma redirect_clean_local:
  assumes "list_all safe_char s"
  shows "local_path (redirect_clean s) \<and> list_all safe_char (redirect_clean s)"
proof -
  let ?p = "takeWhile (\<lambda>c. c \<noteq> CHR ''?'') s" and ?q = "dropWhile (\<lambda>c. c \<noteq> CHR ''?'') s"
  have "list_all safe_char ?p" "list_all safe_char ?q"
    using assms by (auto simp: list_all_iff dest: set_takeWhileD set_dropWhileD)
  note c = clean_rooted_local [OF this(1)] and q = this(2)
  have q': "?q = [] \<or> hd ?q \<noteq> CHR ''/'' \<and> hd ?q \<noteq> CHR 0x5C"
    using hd_dropWhile [of "\<lambda>c. c \<noteq> CHR ''?''" s] by fastforce
  show ?thesis
  proof (cases "HasSuffix ?p ''/'' \<and> \<not> HasSuffix (path_Clean_rooted ?p) ''/''")
    case True
    then have "path_Clean_rooted ?p \<noteq> ''/''" by (auto simp: HasSuffix_def)
    then show ?thesis
      using True c q by (auto simp: redirect_clean_def Let_def local_path_append(1) safe_char_def byte_def)
  next
    case False
    then show ?thesis using c q q' by (auto simp: redirect_clean_def Let_def local_path_append(2))
  qed
qed

lemma redirect_location_local:
  assumes "local_path t" "list_all safe_char t"
  shows "local_path (redirect_location lib rq t) \<and> list_all safe_char (redirect_location lib rq t)"
proof -
  have "HasPrefix t ''/''" using assms(1) by (auto simp: local_path_def HasPrefix_def)
  then show ?thesis
    using assms redirect_clean_local [OF assms(2)] by (auto simp: redirect_location_def Let_def split: option.splits)
qed


lemma hex_escape_local:
  assumes "local_path s" "list_all safe_char s"
  shows "local_path (hexEscapeNonASCII s) \<and> list_all printable (hexEscapeNonASCII s)"
proof -
  obtain r where r: "s = CHR ''/'' # r" "r = [] \<or> (hd r \<noteq> CHR ''/'' \<and> hd r \<noteq> CHR 0x5C)"
    using assms(1) by (auto simp: local_path_def)
  have e: "hexEscapeNonASCII s = CHR ''/'' # hexEscapeNonASCII r" by (simp add: hexEscapeNonASCII_def r byte_def)
  have "hexEscapeNonASCII r = [] \<or> hd (hexEscapeNonASCII r) \<noteq> CHR ''/'' \<and> hd (hexEscapeNonASCII r) \<noteq> CHR 0x5C"
    using r(2) by (cases r) (auto simp: hexEscapeNonASCII_def)
  moreover have "list_all printable (if 0x80 \<le> byte c then CHR ''%'' # hex_byte c else [c])" if "safe_char c" for c
    using that hex_byte_props(3) [of c]
    by (auto simp: list_all_iff safe_char_def printable_def lower_alnum_def between_def byte_def not_less)
  then have "list_all printable (hexEscapeNonASCII s)"
    using assms(2) by (auto simp: hexEscapeNonASCII_def list_all_iff simp del: if_split)
  ultimately show ?thesis using e by (auto simp: local_path_def)
qed

lemma sanitize_idem [simp]: "sanitizeGatewayReturnTo (sanitizeGatewayReturnTo v) = sanitizeGatewayReturnTo v"
proof -
  have "sanitizeGatewayReturnTo ''/'' = ''/''" by (simp add: sanitizeGatewayReturnTo_def HasPrefix_def)
  then show ?thesis by (cases "sanitizeGatewayReturnTo v = v") (auto simp: sanitizeGatewayReturnTo_def)
qed

lemma Redirect_location: "Values (rw_Header (Redirect lib rq t code w)) ''Location'' = [hexEscapeNonASCII (redirect_location lib rq t)]"
proof -
  have "canonicalKey ''Content-Type'' \<noteq> canonicalKey ''Location''" by code_simp
  then show ?thesis by (simp add: Redirect_def Let_def set_header_def)
qed

text \<open>C27: Signing in cannot be turned into a redirect to another site. Whatever cookies the request
  carries, the \<open>Location\<close> of the redirect that ends the opening of an endpoint is one header with a
  path on the same host: it starts with a single slash that neither a slash nor a backslash follows,
  and has printable ASCII only. A page that the Gateway itself recorded is kept as it is.
\<close>

theorem open_redirect_local:
  assumes "Domain policy \<noteq> []"
  shows "(\<exists>l. Values (rw_Header (Redirect lib rq (gatewayOpenRedirectPath codespaceUUID endpointID policy
             (fst (gatewayReturnToPathFromRequest lib rq policy))) 303 w)) ''Location'' = [l]
           \<and> local_path l \<and> list_all printable l)
    \<and> sanitizeGatewayReturnTo (gatewayReturnToCookie lib rq') = gatewayReturnToCookie lib rq'"
proof -
  let ?t = "gatewayOpenRedirectPath codespaceUUID endpointID policy (fst (gatewayReturnToPathFromRequest lib rq policy))"
  have slash: "local_path ''/'' \<and> list_all safe_char ''/''" by (simp add: local_path_def safe_char_def byte_def)
  have "local_path ?t \<and> list_all safe_char ?t"
    using assms slash sanitize_safe
    by (auto simp: gatewayOpenRedirectPath_def gatewayReturnToPathFromRequest_def Let_def split: list.splits)
  then have "local_path (hexEscapeNonASCII (redirect_location lib rq ?t))"
    "list_all printable (hexEscapeNonASCII (redirect_location lib rq ?t))"
    using redirect_location_local hex_escape_local by blast+
  then show ?thesis using Redirect_location [of lib rq ?t] by (simp add: gatewayReturnToCookie_def Let_def)
qed

section \<open>Paths are read back\<close>

lemma Trim_slash:
  assumes "s \<noteq> []" "hd s \<noteq> c" "last s \<noteq> c"
  shows "Trim c (s @ [c]) = s"
proof -
  have "dropWhile (\<lambda>x. x = c) (s @ t) = s @ t" for t using assms(1,2) by (cases s) auto
  moreover have "dropWhile (\<lambda>x. x = c) (rev s) = rev s" using assms(1,3) by (cases s rule: rev_cases) auto
  ultimately show ?thesis by (simp add: Trim_def TrimRight_def)
qed

lemma workspace_path_read:
  assumes "codespaceUUID \<noteq> []" "CHR ''/'' \<notin> set codespaceUUID" "endpointID \<noteq> []" "CHR ''/'' \<notin> set endpointID"
  shows "parseGatewayWorkspacePath (gatewayWorkspacePath codespaceUUID endpointID) = Some (codespaceUUID, endpointID, ''/'')"
proof -
  have f: "hd codespaceUUID \<noteq> CHR ''/''" "last codespaceUUID \<noteq> CHR ''/''" "last endpointID \<noteq> CHR ''/''"
    using assms by (metis list.set_sel(1), metis last_in_set, metis last_in_set)
  show ?thesis
  proof (cases "endpointID = WorkspaceEndpointID")
    case True
    then show ?thesis
      using assms f
      by (simp add: gatewayWorkspacePath_def parseGatewayWorkspacePath_def CutPrefix_def HasPrefix_def Let_def Trim_slash(1)
          Split_single)
  next
    case False
    let ?s = "codespaceUUID @ ''/e/'' @ endpointID"
    have "Trim (CHR ''/'') (?s @ [CHR ''/'']) = ?s" by (rule Trim_slash) (use assms f in auto)
    moreover have "Split (CHR ''/'') ?s = [codespaceUUID, ''e'', endpointID]"
      using assms Split_append [of "CHR ''/''" codespaceUUID "''e/'' @ endpointID"]
        Split_append [of "CHR ''/''" "''e''" endpointID] by (simp add: Split_single)
    ultimately show ?thesis
      using assms False
      by (simp add: gatewayWorkspacePath_def parseGatewayWorkspacePath_def CutPrefix_def HasPrefix_def Let_def
          gatewayProxyPathFromParts_def)
  qed
qed

text \<open>A request that a host binds is never resolved to another endpoint by its path.\<close>

lemma resolved_binding:
  assumes "Domain policy \<noteq> []"
  shows "resolveGatewayWorkspaceBinding lib rq policy = Some (c, e, path) \<Longrightarrow>
      bindingForRequest lib policy rq = Some \<lparr>eh_codespaceUUID = c, eh_endpointID = e\<rparr>"
    and "resolveGatewayPublicEndpointBinding lib rq policy = Some (c, e, path) \<Longrightarrow>
      bindingForRequest lib policy rq = Some \<lparr>eh_codespaceUUID = c, eh_endpointID = e\<rparr> \<and> e \<noteq> WorkspaceEndpointID"
  using assms
  by (auto simp: resolveGatewayWorkspaceBinding_def resolveGatewayPublicEndpointBinding_def Let_def split: option.splits if_splits)

section \<open>Examples\<close>

definition demo_forwarded :: http_request where
  "demo_forwarded = demo_request ''GET'' demo_host ''/'' [(''X-Forwarded-For'', [''192.0.2.9, 10.0.0.7'', ''198.51.100.4, 10.0.0.2''])]"

theorem client_address_unforgeable_witness:
  "client_address demo_library [''10.''] demo_forwarded ''10.0.0.1'' = ''198.51.100.4''"
proof -
  have s: "Split (CHR '','') (Join '','' (Values (rq_Header demo_forwarded) ''X-Forwarded-For''))
      = [''192.0.2.9'', '' 10.0.0.7''] @ ''198.51.100.4'' # ['' 10.0.0.2'']" by code_simp
  have p: "parseAddr demo_library (TrimSpace ''198.51.100.4'') = Some ''198.51.100.4''"
    "\<not> gatewayIPInPrefixes demo_library (unmapAddr demo_library ''198.51.100.4'') [''10.'']"
    "\<forall>t \<in> set ['' 10.0.0.2'']. \<exists>h. parseAddr demo_library (TrimSpace t) = Some h \<and>
      gatewayIPInPrefixes demo_library (unmapAddr demo_library h) [''10.'']"
  proof -
    show "parseAddr demo_library (TrimSpace ''198.51.100.4'') = Some ''198.51.100.4''" by code_simp
    show "\<not> gatewayIPInPrefixes demo_library (unmapAddr demo_library ''198.51.100.4'') [''10.'']" by code_simp
    have "parseAddr demo_library (TrimSpace '' 10.0.0.2'') = Some ''10.0.0.2'' \<and>
      gatewayIPInPrefixes demo_library (unmapAddr demo_library ''10.0.0.2'') [''10.'']" by code_simp
    then show "\<forall>t \<in> set ['' 10.0.0.2'']. \<exists>h. parseAddr demo_library (TrimSpace t) = Some h \<and>
      gatewayIPInPrefixes demo_library (unmapAddr demo_library h) [''10.'']" by auto
  qed
  have "gatewayIPInPrefixes demo_library ''10.0.0.1'' [''10.'']"
    "\<forall>x \<in> set [''192.0.2.9'', '' 10.0.0.7'']. parseAddr demo_library (TrimSpace x) \<noteq> None" by code_simp+
  moreover have "unmapAddr demo_library = id" by (simp add: demo_library_def)
  ultimately show ?thesis using client_address_unforgeable [OF s p, of "''10.0.0.1''"] by simp
qed

definition demo_return :: http_request where
  "demo_return = demo_request ''GET'' demo_host ''/.gitea-codespace/open''
     [(''Cookie'', [''__Host-gitea_codespace_return_to=//evil.example/''])]"

theorem open_redirect_local_witness:
  "\<exists>l. Values (rw_Header (Redirect demo_library demo_return (gatewayOpenRedirectPath ''c'' ''e'' demo_policy
      (fst (gatewayReturnToPathFromRequest demo_library demo_return demo_policy))) 303 new_response)) ''Location'' = [l]
    \<and> local_path l"
proof -
  have "Domain demo_policy \<noteq> []" by code_simp
  from open_redirect_local [OF this, of demo_library demo_return "''c''" "''e''" new_response] show ?thesis by blast
qed

end
