(* ===== verification/Gateway_Proxy.thy ===== *)
theory Gateway_Proxy
  imports Gateway_Request
begin

text \<open>
  What the Gateway changes in a request it passes to a runtime and in the answer of the runtime
  (\<open>internal/gateway/proxy.go\<close>). The lemmas show that the runtime learns exactly the identity the
  Gateway established and none of the Gateway's cookies, and that it cannot set them, nor a cookie for
  another host.
\<close>

section \<open>The request to the runtime\<close>

definition gatewayAgentEndpointHost :: string where
  "gatewayAgentEndpointHost = ''runtime.endpoint''"

record gatewayProxyRequestContext =
  pc_codespaceUUID :: string
  pc_endpointID :: string
  pc_access :: string
  pc_userID :: int
  pc_externalScheme :: string
  pc_externalHost :: string

definition proxyHeaderCodespaceUUID :: string where
  "proxyHeaderCodespaceUUID = ''X-Gitea-Codespace-UUID''"

definition proxyHeaderEndpointID :: string where
  "proxyHeaderEndpointID = ''X-Gitea-Codespace-Endpoint-ID''"

definition proxyHeaderAccess :: string where
  "proxyHeaderAccess = ''X-Gitea-Codespace-Access''"

definition proxyHeaderUserID :: string where
  "proxyHeaderUserID = ''X-Gitea-Codespace-User-ID''"

definition formatInt64 :: "int \<Rightarrow> string" where
  "formatInt64 value = (if value < 0 then CHR ''-'' # itoa (nat (- value)) else itoa (nat value))"

definition rebuildGatewayProxyCookieHeader :: "('a, 'p) go_library \<Rightarrow> header \<Rightarrow> header" where
  "rebuildGatewayProxyCookieHeader lib h =
     (let cookies = filter (\<lambda>c. \<not> isGatewayReservedCookieName (ck_Name c)) (parseGatewayProxyRequestCookies lib (Values h ''Cookie''))
      in if cookies = [] then header_Del ''Cookie'' h
         else header_Set ''Cookie'' (Join ''; '' (map (cookieString lib) cookies)) h)"

definition drop_forwarding :: "header \<Rightarrow> header" where
  "drop_forwarding h =
     header_Del ''X-Forwarded-Host'' (header_Del ''X-Forwarded-Proto'' (header_Del ''X-Forwarded-For'' (header_Del ''Forwarded''
       (header_Del proxyHeaderUserID (header_Del proxyHeaderAccess (header_Del proxyHeaderEndpointID
         (header_Del proxyHeaderCodespaceUUID h)))))))"

definition prepareGatewayProxyRequest :: "('a, 'p) go_library \<Rightarrow> gatewayProxyRequestContext \<Rightarrow> http_request \<Rightarrow> http_request" where
  "prepareGatewayProxyRequest lib ctx request =
     (let h = rebuildGatewayProxyCookieHeader lib (drop_forwarding (rq_Header request));
          h = header_Set proxyHeaderCodespaceUUID (pc_codespaceUUID ctx) h;
          h = header_Set proxyHeaderEndpointID (pc_endpointID ctx) h;
          h = header_Set proxyHeaderAccess (pc_access ctx) h;
          h = (if pc_userID ctx > 0 then header_Set proxyHeaderUserID (formatInt64 (pc_userID ctx)) h else h);
          h = header_Set ''X-Forwarded-For'' (gatewayPeerIP lib request) h;
          h = header_Set ''X-Forwarded-Proto'' (pc_externalScheme ctx) h;
          h = header_Set ''X-Forwarded-Host'' (firstNonEmpty [pc_externalHost ctx, rq_Host request]) h
      in request\<lparr>rq_Header := h\<rparr>)"

text \<open>The rewriting that \<open>proxyGatewayEndpoint\<close> gives to the reverse proxy.\<close>

definition proxy_rewrite :: "('a, 'p) go_library \<Rightarrow> string \<Rightarrow> gatewayProxyRequestContext \<Rightarrow> http_request \<Rightarrow> http_request" where
  "proxy_rewrite lib upstreamPath ctx out =
     prepareGatewayProxyRequest lib ctx
       (out\<lparr>rq_URL := (rq_URL out)\<lparr>url_Scheme := ''http'', url_Host := gatewayAgentEndpointHost, url_Path := upstreamPath,
                                   url_RawPath := []\<rparr>,
            rq_Host := gatewayAgentEndpointHost\<rparr>)"

section \<open>The answer of the runtime\<close>

record gatewayProxyResponseContext =
  rc_externalScheme :: string
  rc_externalHost :: string
  rc_upstreamHost :: string

fun invalid_same_site :: "('a, 'p) go_library \<Rightarrow> string list \<Rightarrow> bool" where
  "invalid_same_site lib [] = False"
| "invalid_same_site lib (attribute # attributes) =
     (case Cut (CHR ''='') (TrimSpace attribute) of
        (name, attrValue, ok) \<Rightarrow>
          if \<not> ok \<or> \<not> EqualFold (TrimSpace name) ''samesite'' then invalid_same_site lib attributes
          else ToLower lib (TrimSpace attrValue) \<notin> {''strict'', ''lax'', ''none''})"

definition hasInvalidGatewayProxySameSite :: "('a, 'p) go_library \<Rightarrow> string \<Rightarrow> bool" where
  "hasInvalidGatewayProxySameSite lib value = invalid_same_site lib (tl (Split (CHR '';'') value))"

definition isValidGatewayProxyCookiePath :: "string \<Rightarrow> bool" where
  "isValidGatewayProxyCookiePath path \<longleftrightarrow>
     path \<noteq> [] \<and> HasPrefix path ''/'' \<and> \<not> list_ex (\<lambda>r. byte r < 0x20 \<or> byte r = 0x7F \<or> r = CHR '';'') path"

definition isGatewayProxyHTTPS :: "gatewayProxyResponseContext \<Rightarrow> bool" where
  "isGatewayProxyHTTPS ctx = EqualFold (TrimSpace (rc_externalScheme ctx)) ''https''"

definition isGatewayProxyCookieAllowedOnHTTP :: "cookie \<Rightarrow> bool" where
  "isGatewayProxyCookieAllowedOnHTTP c \<longleftrightarrow>
     \<not> ck_Partitioned c \<and> ck_SameSite c \<noteq> SameSiteNoneMode \<and>
     \<not> (HasPrefix (ck_Name c) ''__Host-'' \<or> HasPrefix (ck_Name c) ''__Secure-'')"

definition normalize_cookie :: "bool \<Rightarrow> cookie \<Rightarrow> cookie" where
  "normalize_cookie hadInvalidSameSite c =
     (let c = c\<lparr>ck_Domain := [], ck_Raw := [], ck_RawExpires := [], ck_Unparsed := []\<rparr>;
          c = (if \<not> isValidGatewayProxyCookiePath (ck_Path c) then c\<lparr>ck_Path := ''/''\<rparr> else c);
          c = (if HasPrefix (ck_Name c) ''__Host-'' then c\<lparr>ck_Path := ''/''\<rparr> else c)
      in if hadInvalidSameSite then c\<lparr>ck_SameSite := SameSiteLaxMode\<rparr> else c)"

definition normalizeGatewayProxySetCookie :: "('a, 'p) go_library \<Rightarrow> gatewayProxyResponseContext \<Rightarrow> string \<Rightarrow> cookie option" where
  "normalizeGatewayProxySetCookie lib ctx value =
     (case parseSetCookie lib value of
        None \<Rightarrow> None
      | Some parsed \<Rightarrow>
          if isGatewayReservedCookieName (ck_Name parsed) then None
          else
            (let c = normalize_cookie (hasInvalidGatewayProxySameSite lib value) parsed
             in if isGatewayProxyHTTPS ctx
                then (let c = c\<lparr>ck_Secure := True\<rparr> in if cookieValid lib c then Some c else None)
                else if \<not> isGatewayProxyCookieAllowedOnHTTP c then None
                else if cookieValid lib c then Some c else None))"

fun add_cookies :: "('a, 'p) go_library \<Rightarrow> gatewayProxyResponseContext \<Rightarrow> string list \<Rightarrow> header \<Rightarrow> header" where
  "add_cookies lib ctx [] h = h"
| "add_cookies lib ctx (value # values) h =
     (case normalizeGatewayProxySetCookie lib ctx value of
        None \<Rightarrow> add_cookies lib ctx values h
      | Some c \<Rightarrow> add_cookies lib ctx values (header_Add ''Set-Cookie'' (cookieString lib c) h))"

definition rebuildGatewayProxySetCookieHeaders :: "('a, 'p) go_library \<Rightarrow> gatewayProxyResponseContext \<Rightarrow> header \<Rightarrow> header" where
  "rebuildGatewayProxySetCookieHeaders lib ctx h =
     (let values = Values h ''Set-Cookie''
      in if values = [] then h else add_cookies lib ctx values (header_Del ''Set-Cookie'' h))"

definition rewriteGatewayProxyLocation :: "('a, 'p) go_library \<Rightarrow> gatewayProxyResponseContext \<Rightarrow> string \<Rightarrow> string" where
  "rewriteGatewayProxyLocation lib ctx location =
     (case urlParse lib location of
        None \<Rightarrow> location
      | Some parsed \<Rightarrow>
          if url_Host parsed = [] then location
          else if \<not> sameGatewayProxyAuthority lib (url_Host parsed) (url_Scheme parsed) (rc_upstreamHost ctx) ''http'' then location
          else urlString lib (parsed\<lparr>url_Scheme := rc_externalScheme ctx, url_Host := rc_externalHost ctx\<rparr>))"

definition normalizeGatewayProxyResponse :: "('a, 'p) go_library \<Rightarrow> gatewayProxyResponseContext \<Rightarrow> header \<Rightarrow> header" where
  "normalizeGatewayProxyResponse lib ctx header =
     (let h = rebuildGatewayProxySetCookieHeaders lib ctx (header_Del ''Service-Worker-Allowed'' header);
          location = header_Get h ''Location''
      in if location \<noteq> [] then header_Set ''Location'' (rewriteGatewayProxyLocation lib ctx location) h else h)"

text \<open>The error page when the runtime cannot be reached.\<close>

definition proxy_error :: "endpointRoute \<Rightarrow> http_request \<Rightarrow> response \<Rightarrow> response" where
  "proxy_error route request w =
     (if er_EndpointID route = WorkspaceEndpointID
      then writeGatewayError request 502 ''Workspace is unavailable''
             ''Codespace Gateway could not connect to the Web IDE. The development environment may still be starting.''
             ''gateway upstream unavailable'' w
      else writeGatewayError request 502 ''Endpoint is unavailable''
             ''Codespace Gateway could not connect to the runtime endpoint. The service may still be starting.''
             ''gateway upstream unavailable'' w)"

section \<open>The runtime learns the established identity\<close>

definition gateway_keys :: "string list" where
  "gateway_keys =
     [''X-Gitea-Codespace-Uuid'', ''X-Gitea-Codespace-Endpoint-Id'', ''X-Gitea-Codespace-Access'', ''X-Gitea-Codespace-User-Id'',
      ''Forwarded'', ''X-Forwarded-For'', ''X-Forwarded-Proto'', ''X-Forwarded-Host'', ''Cookie'']"

lemma gateway_keys_canonical:
  "canonicalKey proxyHeaderCodespaceUUID = ''X-Gitea-Codespace-Uuid''"
  "canonicalKey proxyHeaderEndpointID = ''X-Gitea-Codespace-Endpoint-Id''"
  "canonicalKey proxyHeaderAccess = ''X-Gitea-Codespace-Access''"
  "canonicalKey proxyHeaderUserID = ''X-Gitea-Codespace-User-Id''"
  "canonicalKey ''Forwarded'' = ''Forwarded''" "canonicalKey ''X-Forwarded-For'' = ''X-Forwarded-For''"
  "canonicalKey ''X-Forwarded-Proto'' = ''X-Forwarded-Proto''" "canonicalKey ''X-Forwarded-Host'' = ''X-Forwarded-Host''"
  "canonicalKey ''Cookie'' = ''Cookie''" "canonicalKey ''Set-Cookie'' = ''Set-Cookie''"
  "canonicalKey ''Service-Worker-Allowed'' = ''Service-Worker-Allowed''" "canonicalKey ''Location'' = ''Location''"
  by code_simp+

lemma rebuild_cookie_other:
  "canonicalKey k \<noteq> ''Cookie'' \<Longrightarrow> Values (rebuildGatewayProxyCookieHeader lib h) k = Values h k"
  by (auto simp: rebuildGatewayProxyCookieHeader_def Let_def gateway_keys_canonical)

lemma prepare_values:
  fixes lib ctx rq
  defines "h \<equiv> rq_Header (prepareGatewayProxyRequest lib ctx rq)"
  shows "Values h proxyHeaderCodespaceUUID = [pc_codespaceUUID ctx]"
    and "Values h proxyHeaderEndpointID = [pc_endpointID ctx]"
    and "Values h proxyHeaderAccess = [pc_access ctx]"
    and "Values h proxyHeaderUserID = (if pc_userID ctx > 0 then [formatInt64 (pc_userID ctx)] else [])"
    and "Values h ''Forwarded'' = []"
    and "Values h ''X-Forwarded-For'' = [gatewayPeerIP lib rq]"
    and "Values h ''X-Forwarded-Proto'' = [pc_externalScheme ctx]"
    and "Values h ''X-Forwarded-Host'' = [firstNonEmpty [pc_externalHost ctx, rq_Host rq]]"
    and "Values h ''Cookie'' = Values (rebuildGatewayProxyCookieHeader lib (rq_Header rq)) ''Cookie''"
  by (simp_all add: h_def prepareGatewayProxyRequest_def Let_def gateway_keys_canonical rebuild_cookie_other drop_forwarding_def)
    (simp add: rebuildGatewayProxyCookieHeader_def Let_def gateway_keys_canonical)

lemma prepare_other:
  assumes "canonicalKey k \<notin> set gateway_keys"
  shows "Values (rq_Header (prepareGatewayProxyRequest lib ctx rq)) k = Values (rq_Header rq) k"
proof -
  have "list_all (\<lambda>x. x \<noteq> canonicalKey k) gateway_keys" using assms by (auto simp: list_all_iff)
  moreover from this have "canonicalKey k \<noteq> ''Cookie''" by (auto simp: gateway_keys_def)
  ultimately show ?thesis
    by (simp add: gateway_keys_def prepareGatewayProxyRequest_def Let_def gateway_keys_canonical rebuild_cookie_other
        drop_forwarding_def)
qed

lemma TrimSpace_space: "TrimSpace (CHR '' '' # s) = TrimSpace s"
proof -
  have "strip_any space_encodings (CHR '' '' # s) = Some s" by (simp add: space_encodings_def)
  then have "TrimLeftSpace (CHR '' '' # s) = TrimLeftSpace s" by (simp add: TrimLeftSpace_def)
  then show ?thesis by (simp add: TrimSpace_def)
qed

lemma parse_cookie_part_space: "parse_cookie_part lib (CHR '' '' # s) = parse_cookie_part lib s"
  by (simp add: parse_cookie_part_def TrimSpace_space)

lemma Split_join_cookies:
  assumes "cs \<noteq> []" "\<forall>c \<in> set cs. CHR '';'' \<notin> set (f c)"
  shows "Split (CHR '';'') (Join ''; '' (map f cs)) = f (hd cs) # map (\<lambda>c. CHR '' '' # f c) (tl cs)"
  using assms
proof (induction cs)
  case Nil
  then show ?case by simp
next
  case (Cons c cs)
  show ?case
  proof (cases cs)
    case Nil
    then show ?thesis using Cons by (simp add: Split_single)
  next
    case (Cons c' cs')
    then have "Split (CHR '';'') (Join ''; '' (map f cs)) = f c' # map (\<lambda>c. CHR '' '' # f c) cs'"
      using Cons.IH Cons.prems by simp
    then have "Split (CHR '';'') (CHR '' '' # Join ''; '' (map f cs)) = (CHR '' '' # f c') # map (\<lambda>c. CHR '' '' # f c) cs'"
      by simp
    then show ?thesis
      using Cons Cons.prems Split_append [of "CHR '';''" "f c" "CHR '' '' # Join ''; '' (map f cs)"]
      by (simp add: Join_Cons)
  qed
qed

text \<open>C22: The runtime sees exactly the identity that the Gateway established, whatever the client sent:
  one value each for the codespace, the endpoint and the kind of access, the user only for an
  authenticated one, and in the forwarding headers the client address the Gateway determined, the
  external scheme and host of its configuration (the host of the request only where no external one
  is given) and no \<open>Forwarded\<close>. No cookie that the runtime can read from the passed header has a name reserved by the Gateway,
  provided that printing a cookie keeps it one cookie of the same name; other headers pass unchanged.
\<close>

theorem proxied_identity_exact:
  assumes "\<And>c. c \<in> set (parseGatewayProxyRequestCookies lib (Values (rq_Header rq) ''Cookie'')) \<Longrightarrow>
      CHR '';'' \<notin> set (cookieString lib c) \<and>
      (\<exists>c'. parse_cookie_part lib (cookieString lib c) = Some c' \<and> ck_Name c' = ck_Name c)"
  shows "let h = rq_Header (prepareGatewayProxyRequest lib ctx rq)
    in Values h ''X-Gitea-Codespace-UUID'' = [pc_codespaceUUID ctx]
     \<and> Values h ''X-Gitea-Codespace-Endpoint-ID'' = [pc_endpointID ctx]
     \<and> Values h ''X-Gitea-Codespace-Access'' = [pc_access ctx]
     \<and> Values h ''X-Gitea-Codespace-User-ID'' = (if pc_userID ctx > 0 then [formatInt64 (pc_userID ctx)] else [])
     \<and> Values h ''Forwarded'' = [] \<and> Values h ''X-Forwarded-For'' = [gatewayPeerIP lib rq]
     \<and> Values h ''X-Forwarded-Proto'' = [pc_externalScheme ctx]
     \<and> Values h ''X-Forwarded-Host'' = [firstNonEmpty [pc_externalHost ctx, rq_Host rq]]
     \<and> (\<forall>c \<in> set (parseGatewayProxyRequestCookies lib (Values h ''Cookie'')). \<not> isGatewayReservedCookieName (ck_Name c))
     \<and> (\<forall>k. canonicalKey k \<notin> set gateway_keys \<longrightarrow> Values h k = Values (rq_Header rq) k)"
proof -
  let ?h = "rq_Header (prepareGatewayProxyRequest lib ctx rq)"
  let ?cs = "filter (\<lambda>c. \<not> isGatewayReservedCookieName (ck_Name c))
    (parseGatewayProxyRequestCookies lib (Values (rq_Header rq) ''Cookie''))"
  have "\<not> isGatewayReservedCookieName (ck_Name c)"
    if c: "c \<in> set (parseGatewayProxyRequestCookies lib (Values ?h ''Cookie''))" for c
  proof (cases "?cs = []")
    case True
    then have "Values ?h ''Cookie'' = []"
      by (simp add: prepare_values(9) rebuildGatewayProxyCookieHeader_def gateway_keys_canonical)
    then show ?thesis using c by (simp add: parseGatewayProxyRequestCookies_def List.map_filter_simps)
  next
    case False
    then have v: "Values ?h ''Cookie'' = [Join ''; '' (map (cookieString lib) ?cs)]"
      by (simp add: prepare_values(9) rebuildGatewayProxyCookieHeader_def Let_def)
    have "\<forall>d \<in> set ?cs. CHR '';'' \<notin> set (cookieString lib d)" using assms by simp
    note s = Split_join_cookies [OF False this]
    obtain p where p: "p \<in> set (Split (CHR '';'') (Join ''; '' (map (cookieString lib) ?cs)))" "parse_cookie_part lib p = Some c"
      using c unfolding v parseGatewayProxyRequestCookies_def
      by (auto simp: List.map_filter_def)
    then obtain d where d: "d \<in> set ?cs" "p = cookieString lib d \<or> p = CHR '' '' # cookieString lib d"
      unfolding s using False by (auto dest: list.set_sel)
    then have "parse_cookie_part lib (cookieString lib d) = Some c" using p(2) parse_cookie_part_space [of lib] by metis
    then have "ck_Name c = ck_Name d" using assms [of d] d(1) by auto
    then show ?thesis using d(1) by simp
  qed
  then show ?thesis
    using prepare_values [where lib = lib and ctx = ctx and rq = rq] prepare_other [where lib = lib and ctx = ctx and rq = rq]
    unfolding Let_def proxyHeaderCodespaceUUID_def proxyHeaderEndpointID_def proxyHeaderAccess_def proxyHeaderUserID_def
    by blast
qed

section \<open>The runtime cannot touch the cookies of the Gateway\<close>

lemma add_cookies_values:
  "Values (add_cookies lib ctx vs h) ''Set-Cookie'' =
     Values h ''Set-Cookie'' @ map (cookieString lib) (List.map_filter (normalizeGatewayProxySetCookie lib ctx) vs)"
  by (induction lib ctx vs h rule: add_cookies.induct)
    (auto simp: List.map_filter_simps split: option.splits)

lemma normalize_cookie_simps:
  "ck_Domain (normalize_cookie b c) = []" "ck_Name (normalize_cookie b c) = ck_Name c"
  "isValidGatewayProxyCookiePath (ck_Path (normalize_cookie b c))"
  "HasPrefix (ck_Name c) ''__Host-'' \<Longrightarrow> ck_Path (normalize_cookie b c) = ''/''"
  by (auto simp: normalize_cookie_def Let_def isValidGatewayProxyCookiePath_def HasPrefix_def byte_def)

lemma normalized_cookie:
  assumes "normalizeGatewayProxySetCookie lib ctx v = Some c"
  shows "\<not> isGatewayReservedCookieName (ck_Name c) \<and> ck_Domain c = [] \<and> isValidGatewayProxyCookiePath (ck_Path c)
    \<and> (HasPrefix (ck_Name c) ''__Host-'' \<longrightarrow> ck_Path c = ''/'')
    \<and> (if isGatewayProxyHTTPS ctx then ck_Secure c else isGatewayProxyCookieAllowedOnHTTP c) \<and> cookieValid lib c"
  using assms
  by (auto simp: normalizeGatewayProxySetCookie_def Let_def normalize_cookie_simps split: option.splits if_splits)

text \<open>C28: Every cookie in the answer that leaves the Gateway was set by the runtime under a name that is
  not reserved, is bound to the host alone, has a valid path (the root for a host-prefixed name), and
  is secure on HTTPS and free of what needs HTTPS otherwise. A service worker never gets a wider
  scope.
\<close>

theorem response_cookies_confined:
  assumes "v \<in> set (Values (normalizeGatewayProxyResponse lib ctx header) ''Set-Cookie'')"
  shows "Values (normalizeGatewayProxyResponse lib ctx header) ''Service-Worker-Allowed'' = [] \<and>
    (\<exists>c v0. v = cookieString lib c \<and> v0 \<in> set (Values header ''Set-Cookie'')
      \<and> normalizeGatewayProxySetCookie lib ctx v0 = Some c
      \<and> \<not> isGatewayReservedCookieName (ck_Name c) \<and> ck_Domain c = [] \<and> isValidGatewayProxyCookiePath (ck_Path c)
      \<and> (HasPrefix (ck_Name c) ''__Host-'' \<longrightarrow> ck_Path c = ''/'')
      \<and> (if isGatewayProxyHTTPS ctx then ck_Secure c else isGatewayProxyCookieAllowedOnHTTP c))"
proof -
  let ?h = "header_Del ''Service-Worker-Allowed'' header"
  let ?r = "rebuildGatewayProxySetCookieHeaders lib ctx ?h"
  have other: "Values (add_cookies lib ctx vs h) ''Service-Worker-Allowed'' = Values h ''Service-Worker-Allowed''" for vs h
    by (induction lib ctx vs h rule: add_cookies.induct) (auto simp: gateway_keys_canonical split: option.splits)
  have n: "Values (normalizeGatewayProxyResponse lib ctx header) k = Values ?r k" if "canonicalKey k \<noteq> ''Location''" for k
    using that by (simp add: normalizeGatewayProxyResponse_def Let_def gateway_keys_canonical)
  have w: "Values ?r ''Service-Worker-Allowed'' = []"
    by (simp add: rebuildGatewayProxySetCookieHeaders_def Let_def other)
  have "v \<in> set (Values ?r ''Set-Cookie'')" using assms n [of "''Set-Cookie''"] by (simp add: gateway_keys_canonical)
  then have "v \<in> set (map (cookieString lib)
      (List.map_filter (normalizeGatewayProxySetCookie lib ctx) (Values header ''Set-Cookie'')))"
    by (simp add: rebuildGatewayProxySetCookieHeaders_def Let_def add_cookies_values gateway_keys_canonical split: if_splits)
  then obtain c v0 where c: "v = cookieString lib c" "v0 \<in> set (Values header ''Set-Cookie'')"
    "normalizeGatewayProxySetCookie lib ctx v0 = Some c"
    by (auto simp: List.map_filter_def)
  have "Values (normalizeGatewayProxyResponse lib ctx header) ''Service-Worker-Allowed'' = []"
    using w n [of "''Service-Worker-Allowed''"] by (simp add: gateway_keys_canonical)
  then show ?thesis using c normalized_cookie [OF c(3)] by blast
qed

section \<open>Examples\<close>

definition demo_proxied :: http_request where
  "demo_proxied = demo_request ''GET'' demo_host ''/''
     [(''Cookie'', [''theme=dark; __Host-gitea_codespace_session=secret'']),
      (''X-Gitea-Codespace-User-Id'', [''1''])]"

definition demo_context :: gatewayProxyRequestContext where
  "demo_context =
     \<lparr>pc_codespaceUUID = ''c'', pc_endpointID = ''port-80'', pc_access = ''public'', pc_userID = 0,
      pc_externalScheme = ''https'', pc_externalHost = demo_host\<rparr>"

lemma demo_cookies_kept:
  "c \<in> set (parseGatewayProxyRequestCookies demo_library (Values (rq_Header demo_proxied) ''Cookie'')) \<Longrightarrow>
     CHR '';'' \<notin> set (cookieString demo_library c) \<and>
     (\<exists>c'. parse_cookie_part demo_library (cookieString demo_library c) = Some c' \<and> ck_Name c' = ck_Name c)"
proof -
  have cs: "parseGatewayProxyRequestCookies demo_library (Values (rq_Header demo_proxied) ''Cookie'')
      = [demo_cookie ''theme'' ''dark'', demo_cookie ''__Host-gitea_codespace_session'' ''secret'']" by code_simp
  have p: "parse_cookie_part demo_library (cookieString demo_library (demo_cookie ''theme'' ''dark''))
      = Some (demo_cookie ''theme'' ''dark'')"
    "parse_cookie_part demo_library (cookieString demo_library (demo_cookie ''__Host-gitea_codespace_session'' ''secret''))
      = Some (demo_cookie ''__Host-gitea_codespace_session'' ''secret'')" by code_simp+
  have q: "CHR '';'' \<notin> set (cookieString demo_library (demo_cookie ''theme'' ''dark''))"
    "CHR '';'' \<notin> set (cookieString demo_library (demo_cookie ''__Host-gitea_codespace_session'' ''secret''))" by code_simp+
  assume "c \<in> set (parseGatewayProxyRequestCookies demo_library (Values (rq_Header demo_proxied) ''Cookie''))"
  then show ?thesis using p q unfolding cs by auto
qed

theorem proxied_identity_exact_witness:
  "Values (rq_Header (prepareGatewayProxyRequest demo_library demo_context demo_proxied)) ''X-Gitea-Codespace-User-ID'' = []"
  using proxied_identity_exact [of demo_library demo_proxied demo_context, OF demo_cookies_kept]
  by (simp add: Let_def demo_context_def)

definition demo_answer :: header where
  "demo_answer = fmap_of_list [(''Set-Cookie'', [''a=1'', ''gitea_codespace_session=x''])]"

definition demo_answer_context :: gatewayProxyResponseContext where
  "demo_answer_context =
     \<lparr>rc_externalScheme = ''https'', rc_externalHost = demo_host, rc_upstreamHost = gatewayAgentEndpointHost\<rparr>"

theorem response_cookies_confined_witness:
  "Values (normalizeGatewayProxyResponse demo_library demo_answer_context demo_answer) ''Set-Cookie'' = [''a=1''] \<and>
   (\<exists>c. cookieString demo_library c = ''a=1'' \<and> ck_Domain c = [] \<and> ck_Secure c)"
proof -
  have v: "Values (normalizeGatewayProxyResponse demo_library demo_answer_context demo_answer) ''Set-Cookie'' = [''a=1'']"
    "isGatewayProxyHTTPS demo_answer_context" by code_simp+
  then have "''a=1'' \<in> set (Values (normalizeGatewayProxyResponse demo_library demo_answer_context demo_answer) ''Set-Cookie'')"
    by simp
  from response_cookies_confined [OF this] show ?thesis using v by auto
qed

end
