(* ===== verification/Gateway_Handler.thy ===== *)
theory Gateway_Handler
  imports Gateway_Proxy Access_Validation
begin

text \<open>
  The HTTP handlers of the Gateway (\<open>internal/gateway/handler.go\<close>), cut where they call the session
  registry, the admission controller, the route store or the control plane: each function is what a
  handler does between two such calls. It returns either the final answer or what the handler goes on
  with. How the calls of concurrent handlers interleave is the subject of \<open>Gateway_Machine\<close>.
\<close>

record ('a, 'p) gateway_env =
  env_lib :: "('a, 'p) go_library"
  env_policy :: originPolicy
  env_sessions :: bool
  env_ready :: bool

text \<open>
  \<open>env_sessions\<close>: the session registry is set; \<open>env_ready\<close>: the access controller and the client of
  the control plane are set.
\<close>

definition gateway_starting :: "http_request \<Rightarrow> response \<Rightarrow> response" where
  "gateway_starting request w =
     writeGatewayError request 503 ''Gateway is starting''
       ''Codespace Gateway is not ready yet. Try again after the manager finishes startup.'' ''gateway is not ready'' w"

definition gateway_busy :: "http_request \<Rightarrow> response \<Rightarrow> response" where
  "gateway_busy request w =
     writeGatewayError request 503 ''Gateway is busy''
       ''Codespace Gateway has no request capacity available right now. Try again shortly.'' ''gateway capacity unavailable'' w"

definition rejectGatewayServiceWorkerRequest :: "http_request \<Rightarrow> response \<Rightarrow> response option" where
  "rejectGatewayServiceWorkerRequest request w =
     (if \<not> isGatewayServiceWorkerRequest request then None
      else Some (writeGatewayError request 403 ''Service worker is not allowed''
             ''Codespace Gateway does not allow runtime pages to register a service worker on the gateway origin.''
             ''service worker is not allowed'' (w\<lparr>rw_Header := header_Del ''Service-Worker-Allowed'' (rw_Header w)\<rparr>)))"

section \<open>Dispatch\<close>

datatype handler_kind = KindNotFound | KindOpen | KindWorkspace | KindPublic | KindMoved string

datatype mux_pattern = MuxRoot | MuxOpen | MuxWorkspace | MuxPublic | MuxSlash

text \<open>
  The server mux: the path of a request is cleaned, its segments are matched against the patterns, the
  root of a subtree without its slash is redirected to the subtree, and so is a path that was not
  clean.
\<close>

definition mux_cleanPath :: "string \<Rightarrow> string" where
  "mux_cleanPath p =
     (if p = [] then ''/''
      else
        (let p = (if HasPrefix p ''/'' then p else ''/'' @ p); np = path_Clean_rooted p
         in if HasSuffix p ''/'' \<and> np \<noteq> ''/'' then np @ ''/'' else np))"

definition mux_match :: "('a, 'p) go_library \<Rightarrow> string \<Rightarrow> mux_pattern" where
  "mux_match lib path =
     (case map (pathUnescape lib) (Split (CHR ''/'') (drop 1 path)) of
        [] \<Rightarrow> MuxRoot
      | [a] \<Rightarrow> if a = ''open'' then MuxOpen else if a = ''w'' \<or> a = ''p'' then MuxSlash else MuxRoot
      | a # rest \<Rightarrow>
          if a = ''.gitea-codespace'' \<and> rest = [''open''] then MuxOpen
          else if a = ''w'' then MuxWorkspace else if a = ''p'' then MuxPublic else MuxRoot)"

definition newHandler :: "('a, 'p) gateway_env \<Rightarrow> routeStore \<Rightarrow> http_request \<Rightarrow> handler_kind" where
  "newHandler env routes request =
     (let lib = env_lib env; policy = env_policy env;
          escaped = urlEscapedPath lib (rq_URL request);
          path = (if rq_Method request = ''CONNECT'' then escaped else mux_cleanPath escaped);
          moved = (\<lambda>target. urlString lib
            \<lparr>url_Scheme = [], url_User = None, url_Host = [], url_Path = target, url_RawPath = [],
             url_RawQuery = url_RawQuery (rq_URL request), url_Fragment = []\<rparr>)
      in case mux_match lib path of
           MuxSlash \<Rightarrow> KindMoved (moved (path @ ''/''))
         | pattern \<Rightarrow>
             if path \<noteq> escaped then KindMoved (moved path)
             else case pattern of
               MuxOpen \<Rightarrow> KindOpen
             | MuxWorkspace \<Rightarrow> KindWorkspace
             | MuxPublic \<Rightarrow> KindPublic
             | _ \<Rightarrow>
                 if Domain policy = [] then KindNotFound
                 else case bindingForRequest lib policy request of
                        Some binding \<Rightarrow>
                          (case Get (Some routes) (eh_codespaceUUID binding) (eh_endpointID binding) of
                             Some route \<Rightarrow> if er_Public route then KindPublic else KindWorkspace
                           | None \<Rightarrow> KindWorkspace)
                      | None \<Rightarrow> KindWorkspace)"

section \<open>Authenticated endpoints\<close>

definition workspace_source ::
  "('a, 'p) gateway_env \<Rightarrow> http_request \<Rightarrow> response \<Rightarrow> response + (string \<times> string \<times> string)" where
  "workspace_source env request w =
     (if \<not> env_sessions env \<or> \<not> env_ready env then Inl (gateway_starting request w)
      else case resolveGatewayWorkspaceBinding (env_lib env) request (env_policy env) of
             None \<Rightarrow> Inl (writeGatewayNotFound request ''Codespace workspace'' w)
           | Some (codespaceUUID, endpointID, upstreamPath) \<Rightarrow>
               (case rejectGatewayServiceWorkerRequest request w of
                  Some rejected \<Rightarrow> Inl rejected
                | None \<Rightarrow>
                    if \<not> isGatewayAuthenticatedSourceAllowed (env_lib env) request (env_policy env)
                    then Inl (writeGatewayError request 403 ''Request source is not allowed''
                           ''This request did not come from an allowed codespace gateway origin.''
                           ''gateway source is not allowed'' w)
                    else Inr (codespaceUUID, endpointID, upstreamPath)))"

definition sign_in_answer ::
  "gatewayRouteKey list \<Rightarrow> ('a, 'p) gateway_env \<Rightarrow> routeStore \<Rightarrow> http_request \<Rightarrow> string \<Rightarrow> string \<Rightarrow> time \<Rightarrow>
     string \<Rightarrow> string \<Rightarrow> string \<Rightarrow> response \<Rightarrow> response" where
  "sign_in_answer order env routes request codespaceUUID endpointID now title message category w =
     (case handleGatewayAuthenticationRequired order (env_lib env) routes request codespaceUUID endpointID (env_policy env) now w of
        Some redirect \<Rightarrow> redirect
      | None \<Rightarrow> writeGatewayError request 401 title message category w)"

definition workspace_tokens ::
  "gatewayRouteKey list \<Rightarrow> (string list \<Rightarrow> string list) \<Rightarrow> ('a, 'p) gateway_env \<Rightarrow> routeStore \<Rightarrow> http_request \<Rightarrow>
     string \<Rightarrow> string \<Rightarrow> time \<Rightarrow> response \<Rightarrow> response + string list" where
  "workspace_tokens order arrange env routes request codespaceUUID endpointID now w =
     (let sessionIDs = gatewaySessionIDsFromRequest arrange (env_lib env) request (env_policy env)
      in if sessionIDs = []
         then Inl (sign_in_answer order env routes request codespaceUUID endpointID now ''Sign in required''
                ''Open this codespace from Gitea to create a gateway session.'' ''gateway session is required'' w)
         else Inr sessionIDs)"

definition workspace_session ::
  "gatewayRouteKey list \<Rightarrow> ('a, 'p) gateway_env \<Rightarrow> routeStore \<Rightarrow> http_request \<Rightarrow> string \<Rightarrow> string \<Rightarrow> time \<Rightarrow>
     gatewaySession \<times> bool \<times> bool \<Rightarrow> response \<Rightarrow> response + gatewaySession" where
  "workspace_session order env routes request codespaceUUID endpointID now answer w =
     (case answer of
        (session, ok, ambiguous) \<Rightarrow>
          if ambiguous
          then Inl (writeGatewayError request 401 ''Session is ambiguous''
                 ''More than one gateway session matched this request. Open the codespace again from Gitea.''
                 ''gateway session is ambiguous'' w)
          else if \<not> ok
          then Inl (sign_in_answer order env routes request codespaceUUID endpointID now ''Session expired''
                 ''This gateway session is no longer valid. Open the codespace again from Gitea.'' ''gateway session is invalid'' w)
          else Inr session)"

definition workspace_route :: "routeStore \<Rightarrow> http_request \<Rightarrow> gatewaySession \<Rightarrow> response \<Rightarrow> response option" where
  "workspace_route routes request session w =
     (case Get (Some routes) (s_codespaceUUID session) (s_endpointID session) of
        None \<Rightarrow>
          Some (writeGatewayError request 503 ''Endpoint is not ready''
            ''The runtime endpoint is not ready yet. Try again after the service starts.'' ''gateway route unavailable'' w)
      | Some route \<Rightarrow>
          if er_SiteUID route \<noteq> s_siteUID session
          then Some (writeGatewayError request 401 ''Session is no longer valid''
                 ''This gateway session belongs to a different codespace runtime. Open the codespace again from Gitea.''
                 ''gateway session site mismatch'' w)
          else None)"

definition session_limit_answer :: "int \<Rightarrow> http_request \<Rightarrow> response \<Rightarrow> response" where
  "session_limit_answer limitStatus request w =
     (if limitStatus = StatusTooManyRequests
      then writeGatewayError request 429 ''Too many requests''
             ''This gateway session has too many concurrent requests. Close unused tabs and try again.''
             ''gateway session request limit reached'' w
      else gateway_busy request w)"

definition authorization_answer ::
  "string \<Rightarrow> gatewayAccessDecision \<Rightarrow> bool \<Rightarrow> access_error option \<Rightarrow> (response \<Rightarrow> response) \<Rightarrow> http_request \<Rightarrow> response \<Rightarrow>
     response option" where
  "authorization_answer unavailable decision validationFull err denied request w =
     (if validationFull
      then Some (writeGatewayError request 503 ''Authorization is busy''
             ''Codespace Gateway has no authorization capacity available right now. Try again shortly.''
             ''gateway authorization capacity unavailable'' w)
      else if err \<noteq> None
      then Some (writeGatewayError request 503 ''Authorization is unavailable'' unavailable ''gateway authorization unavailable'' w)
      else if \<not> Allowed decision then Some (denied w)
      else None)"

definition workspace_authorization ::
  "gatewayAccessDecision \<Rightarrow> bool \<Rightarrow> access_error option \<Rightarrow> http_request \<Rightarrow> response \<Rightarrow> response option" where
  "workspace_authorization decision validationFull err request w =
     authorization_answer ''Codespace Gateway cannot confirm this session with Gitea right now. Try again shortly.''
       decision validationFull err
       (writeGatewayError request 403 ''Codespace is unavailable''
          ''Gitea reports that this codespace endpoint is not currently available for this session.''
          (DeniedCategory decision)) request w"

definition workspace_context :: "('a, 'p) gateway_env \<Rightarrow> http_request \<Rightarrow> gatewaySession \<Rightarrow> gatewayProxyRequestContext" where
  "workspace_context env request session =
     \<lparr>pc_codespaceUUID = s_codespaceUUID session, pc_endpointID = s_endpointID session, pc_access = ''authenticated'',
      pc_userID = s_userID session, pc_externalScheme = gatewayExternalScheme request (env_policy env),
      pc_externalHost = rq_Host request\<rparr>"

definition workspace_not_ready :: "http_request \<Rightarrow> gatewaySession \<Rightarrow> response \<Rightarrow> response" where
  "workspace_not_ready request session w =
     (if s_endpointID session = WorkspaceEndpointID
      then writeGatewayError request 503 ''Workspace is not ready''
             ''The Web IDE is not ready yet. Try again after the codespace finishes starting.'' ''gateway route unavailable'' w
      else writeGatewayError request 503 ''Endpoint is not ready''
             ''The runtime endpoint is not ready yet. Try again after the service starts.'' ''gateway route unavailable'' w)"

section \<open>Public endpoints\<close>

definition public_source ::
  "('a, 'p) gateway_env \<Rightarrow> http_request \<Rightarrow> response \<Rightarrow> response + ((string \<times> string \<times> string) \<times> response)" where
  "public_source env request w =
     (if \<not> env_ready env then Inl (gateway_starting request w)
      else case resolveGatewayPublicEndpointBinding (env_lib env) request (env_policy env) of
             None \<Rightarrow> Inl (writeGatewayNotFound request ''Codespace endpoint'' w)
           | Some binding \<Rightarrow>
               (case rejectGatewayServiceWorkerRequest request w of
                  Some rejected \<Rightarrow> Inl rejected
                | None \<Rightarrow> Inr (binding, clearGatewayReservedCookies (env_lib env) w)))"

definition public_route :: "routeStore \<Rightarrow> http_request \<Rightarrow> string \<Rightarrow> string \<Rightarrow> response \<Rightarrow> response + string" where
  "public_route routes request codespaceUUID endpointID w =
     (case Get (Some routes) codespaceUUID endpointID of
        None \<Rightarrow> Inl (writeGatewayNotFound request ''Codespace endpoint'' w)
      | Some route \<Rightarrow>
          if \<not> er_Public route then Inl (writeGatewayNotFound request ''Codespace endpoint'' w) else Inr (er_SiteUID route))"

definition public_limit_answer :: "int \<Rightarrow> http_request \<Rightarrow> response \<Rightarrow> response" where
  "public_limit_answer limitStatus request w =
     (if limitStatus = StatusTooManyRequests
      then writeGatewayError request 429 ''Connection limit reached''
             ''This public endpoint has too many active connections. Try again shortly.''
             ''gateway public connection limit reached'' w
      else gateway_busy request w)"

definition public_authorization ::
  "gatewayAccessDecision \<Rightarrow> bool \<Rightarrow> access_error option \<Rightarrow> http_request \<Rightarrow> response \<Rightarrow> response option" where
  "public_authorization decision validationFull err request w =
     authorization_answer ''Codespace Gateway cannot confirm this public endpoint with Gitea right now. Try again shortly.''
       decision validationFull err (writeGatewayNotFound request ''Codespace endpoint'') request w"

definition public_context :: "('a, 'p) gateway_env \<Rightarrow> http_request \<Rightarrow> string \<Rightarrow> string \<Rightarrow> gatewayProxyRequestContext" where
  "public_context env request codespaceUUID endpointID =
     \<lparr>pc_codespaceUUID = codespaceUUID, pc_endpointID = endpointID, pc_access = ''public'', pc_userID = 0,
      pc_externalScheme = gatewayExternalScheme request (env_policy env), pc_externalHost = rq_Host request\<rparr>"

section \<open>Opening an endpoint\<close>

record gatewayOpenTokenDecision =
  od_Allowed :: bool
  od_Binding :: openTokenBinding
  od_deniedCategory :: string

definition setGatewayOpenResponseHeaders :: "response \<Rightarrow> response" where
  "setGatewayOpenResponseHeaders w =
     set_header ''Referrer-Policy'' ''no-referrer'' (set_header ''Cache-Control'' ''no-store'' w)"

definition open_code ::
  "('a, 'p) gateway_env \<Rightarrow> http_request \<Rightarrow> response \<Rightarrow> response + (string \<times> gatewayEndpointHost option \<times> response)" where
  "open_code env request w0 =
     (let w = setGatewayOpenResponseHeaders w0; lib = env_lib env; policy = env_policy env
      in case rejectGatewayServiceWorkerRequest request w of
           Some rejected \<Rightarrow> Inl rejected
         | None \<Rightarrow>
             if rq_Method request \<noteq> ''GET''
             then Inl (writeGatewayError request 405 ''Method not allowed'' ''This gateway endpoint only accepts GET requests.''
                    ''method_not_allowed'' w)
             else if Domain policy \<noteq> [] \<and> url_Path (rq_URL request) \<noteq> ''/.gitea-codespace/open''
             then Inl (writeGatewayNotFound request ''Open codespace'' w)
             else if \<not> env_sessions env \<or> \<not> env_ready env then Inl (gateway_starting request w)
             else
               (let binding = bindingForRequest lib policy request
                in if Domain policy \<noteq> [] \<and> binding = None then Inl (writeGatewayNotFound request ''Open codespace'' w)
                   else case gatewayOpenCode lib request of
                          None \<Rightarrow>
                            Inl (writeGatewayError request 403 ''Open link is invalid''
                              ''The open link is missing a valid one-time code. Open the codespace again from Gitea.''
                              ''invalid open code request'' (clearGatewayReturnToIfPresent lib request policy w))
                        | Some code \<Rightarrow> Inr (code, binding, w)))"

text \<open>The answer of the control plane and the check against the host and the route.\<close>

definition open_decision ::
  "('a, 'p) gateway_env \<Rightarrow> routeStore \<Rightarrow> http_request \<Rightarrow> gatewayEndpointHost option \<Rightarrow> gatewayOpenTokenDecision option \<Rightarrow>
     response \<Rightarrow> response + openTokenBinding" where
  "open_decision env routes request binding decision w =
     (let cleared = clearGatewayReturnToIfPresent (env_lib env) request (env_policy env) w
      in case decision of
           None \<Rightarrow>
             Inl (writeGatewayError request 503 ''Authorization is unavailable''
               ''Codespace Gateway cannot confirm this open link with Gitea right now. Try again shortly.''
               ''gateway authorization unavailable'' cleared)
         | Some d \<Rightarrow>
             if \<not> od_Allowed d
             then Inl (writeGatewayError request 403 ''Codespace cannot be opened''
                    ''Gitea rejected this open link because the codespace is not currently available for this request.''
                    (od_deniedCategory d) cleared)
             else if (case binding of None \<Rightarrow> False | Some b \<Rightarrow>
                        eh_codespaceUUID b \<noteq> b_CodespaceUUID (od_Binding d) \<or> eh_endpointID b \<noteq> b_EndpointID (od_Binding d))
             then Inl (writeGatewayError request 403 ''Open link does not match this host''
                    ''This open link belongs to a different codespace endpoint. Open the codespace again from Gitea.''
                    ''gateway host binding mismatch'' cleared)
             else if (case Get (Some routes) (b_CodespaceUUID (od_Binding d)) (b_EndpointID (od_Binding d)) of
                        None \<Rightarrow> True | Some route \<Rightarrow> er_SiteUID route \<noteq> b_SiteUID (od_Binding d))
             then Inl (writeGatewayError request 403 ''Open link does not match this runtime''
                    ''This open link belongs to a different codespace runtime. Open the codespace again from Gitea.''
                    ''gateway route site mismatch'' cleared)
             else Inr (od_Binding d))"

definition open_session ::
  "('a, 'p) gateway_env \<Rightarrow> http_request \<Rightarrow> openTokenBinding \<Rightarrow> session_error + string \<Rightarrow> response \<Rightarrow> response" where
  "open_session env request binding created w =
     (let lib = env_lib env; policy = env_policy env
      in case created of
           Inl err \<Rightarrow>
             (let w = clearGatewayReturnToIfPresent lib request policy w
              in if err = errGatewaySessionAmbiguous
                 then writeGatewayError request 401 ''Session is ambiguous''
                        ''More than one gateway session matched this request. Open the codespace again from Gitea.''
                        ''gateway session is ambiguous'' w
                 else if err = errGatewaySessionLimitReached
                 then writeGatewayError request 429 ''Session limit reached''
                        ''This codespace or user already has the maximum number of gateway sessions.''
                        ''gateway session limit reached'' w
                 else writeGatewayError request 503 ''Session is unavailable''
                        ''Codespace Gateway could not create a session for this open link. Try again shortly.''
                        ''gateway session unavailable'' w)
         | Inr sessionID \<Rightarrow>
             (let w = setGatewaySessionCookie lib sessionID policy w;
                  (returnTo, hasReturnTo) = gatewayReturnToPathFromRequest lib request policy;
                  w = (if hasReturnTo then clearGatewayReturnToCookies lib w else w)
              in Redirect lib request
                   (gatewayOpenRedirectPath (b_CodespaceUUID binding) (b_EndpointID binding) policy returnTo) 303 w))"

section \<open>Revalidation of a stream\<close>

definition revalidation_interval :: "duration \<Rightarrow> duration" where
  "revalidation_interval interval = (if interval \<le> 0 then defaultGatewaySessionRevalidateInterval else interval)"

text \<open>What a tick of \<open>withGatewayProxyRevalidation\<close> does with its validation: whether it cancels the stream.\<close>

definition revalidation_cancels :: "gatewayAccessDecision \<Rightarrow> bool \<Rightarrow> access_error option \<Rightarrow> bool" where
  "revalidation_cancels decision validationFull err =
     (let (decision, err) = (if validationFull then (noDecision, Some errGatewayAccessLimitReached) else (decision, err))
      in if err \<noteq> None then True else \<not> Allowed decision)"

end
