(* ===== verification/Gateway_Machine.thy ===== *)
theory Gateway_Machine
  imports Gateway_Handler Session_Properties Route_Leases
begin

text \<open>
  The Gateway as a whole: any number of HTTP handlers (\<open>Gateway_Handler\<close>) run concurrently over one
  session registry, one access controller with its running validations and one route store with its
  deferred effects. Every step is one critical section of one of them, taken by a handler or by
  anything else that uses it (SSH sessions, snapshots of the Manager, activity reports). The theorems
  say what must have happened before a request reaches a runtime, and before a session is created.
\<close>

section \<open>State\<close>

datatype phase =
    PStart handler_kind
  | PTokens string string string
  | PAuthenticate string string string "string list"
  | PSession string string string "gatewaySession \<times> bool \<times> bool" "string list"
  | PRoute gatewaySession string
  | PReserve gatewaySession string
  | PValidate gatewaySession string
  | PValidating gatewaySession string nat
  | PLive gatewaySession string
  | PBegin gatewaySession string
  | PPublicRoute string string string
  | PPublicReserve string string string string
  | PPublicValidate string string string string
  | PPublicValidating string string string string nat
  | PPublicBegin string string string string
  | PTransport "gatewaySession option" string gatewayProxyRequestContext endpointRoute int nat
  | PStreaming "gatewaySession option" string gatewayProxyRequestContext endpointRoute int nat
  | POpenReserve string "gatewayEndpointHost option"
  | POpenValidate string "gatewayEndpointHost option"
  | POpenDecide string "gatewayEndpointHost option" "gatewayOpenTokenDecision option"
  | POpenCreate string "gatewayEndpointHost option" openTokenBinding
  | POpened string "gatewayEndpointHost option" openTokenBinding string
  | PAnswered

record handler =
  h_request :: http_request
  h_response :: response
  h_phase :: phase
  h_held :: "held option"
  h_live :: "release option"
  h_lease :: "(int \<times> nat) option"

text \<open>\<open>gs_opens\<close> is history: what the control plane answered to the open codes.\<close>

record gateway_state =
  gs_validation :: validation_state
  gs_routes :: route_machine
  gs_handlers :: "nat \<rightharpoonup> handler"
  gs_opens :: "(string \<times> gatewayEndpointHost option \<times> gatewayOpenTokenDecision option) set"

definition gs_registry :: "gateway_state \<Rightarrow> sessionRegistry option" where
  "gs_registry s = gw_registry (rm_world (gs_routes s))"

definition set_registry :: "sessionRegistry \<Rightarrow> gateway_state \<Rightarrow> gateway_state" where
  "set_registry r s =
     s\<lparr>gs_routes := (gs_routes s)\<lparr>rm_world := (rm_world (gs_routes s))\<lparr>gw_registry := Some r\<rparr>\<rparr>\<rparr>"

definition set_ctl :: "accessController \<Rightarrow> gateway_state \<Rightarrow> gateway_state" where
  "set_ctl c s = s\<lparr>gs_validation := (gs_validation s)\<lparr>vs_ctl := c\<rparr>\<rparr>"

definition goto :: "nat \<Rightarrow> handler \<Rightarrow> phase \<Rightarrow> response \<Rightarrow> gateway_state \<Rightarrow> gateway_state" where
  "goto t h p w s = s\<lparr>gs_handlers := (gs_handlers s)(t \<mapsto> h\<lparr>h_phase := p, h_response := w\<rparr>)\<rparr>"

abbreviation answer_with :: "nat \<Rightarrow> handler \<Rightarrow> response \<Rightarrow> gateway_state \<Rightarrow> gateway_state" where
  "answer_with t h w s \<equiv> goto t h PAnswered w s"

abbreviation routes_of :: "gateway_state \<Rightarrow> routeStore" where
  "routes_of s \<equiv> rm_store (gs_routes s)"

abbreviation ctl_of :: "gateway_state \<Rightarrow> accessController" where
  "ctl_of s \<equiv> vs_ctl (gs_validation s)"

definition start_validation :: "nat \<Rightarrow> validation_request \<Rightarrow> gateway_state \<Rightarrow> gateway_state" where
  "start_validation v r s =
     s\<lparr>gs_validation := (gs_validation s)\<lparr>vs_reqs := (vs_reqs (gs_validation s))(v \<mapsto> r)\<rparr>\<rparr>"

text \<open>The lease that \<open>BeginProxy\<close> gave, recorded with its key as in the machine of the routes.\<close>

definition begin_lease :: "routeStore \<Rightarrow> int \<times> gatewayRouteKey \<times> nat \<times> endpointRoute \<Rightarrow> gateway_state \<Rightarrow> gateway_state" where
  "begin_lease st lease s =
     s\<lparr>gs_routes := (gs_routes s)\<lparr>rm_store := st, rm_begun := lease # rm_begun (gs_routes s)\<rparr>\<rparr>"

section \<open>Steps\<close>

text \<open>
  A handler that streams may end at any time with whatever the runtime answered. The deferred
  functions run after the answer: the release of a lease cancels the request first, and its locked part
  is a step of the machine of the routes.
\<close>

definition arranges :: "(string list \<Rightarrow> string list) \<Rightarrow> bool" where
  "arranges f \<longleftrightarrow> (\<forall>xs. set (f xs) = set xs)"

inductive gateway_step :: "('a, 'p) gateway_env \<Rightarrow> gateway_state \<Rightarrow> gateway_state \<Rightarrow> bool" for env where
  arrive: "gs_handlers s t = None \<Longrightarrow>
    gateway_step env s (s\<lparr>gs_handlers := (gs_handlers s)(t \<mapsto>
      \<lparr>h_request = rq, h_response = new_response, h_phase = PStart (newHandler env (routes_of s) rq),
       h_held = None, h_live = None, h_lease = None\<rparr>)\<rparr>)"
| moved: "gs_handlers s t = Some h \<Longrightarrow> h_phase h = PStart (KindMoved target) \<Longrightarrow>
    gateway_step env s (answer_with t h (Redirect (env_lib env) (h_request h) target 301 (h_response h)) s)"
| not_found: "gs_handlers s t = Some h \<Longrightarrow> h_phase h = PStart KindNotFound \<Longrightarrow>
    gateway_step env s (answer_with t h (writeGatewayNotFound (h_request h) ''Codespace gateway'' (h_response h)) s)"
| source: "gs_handlers s t = Some h \<Longrightarrow> h_phase h = PStart KindWorkspace \<Longrightarrow>
    workspace_source env (h_request h) (h_response h) = Inr (c, e, path) \<Longrightarrow>
    gateway_step env s (goto t h (PTokens c e path) (h_response h) s)"
| source_refused: "gs_handlers s t = Some h \<Longrightarrow> h_phase h = PStart KindWorkspace \<Longrightarrow>
    workspace_source env (h_request h) (h_response h) = Inl w \<Longrightarrow> gateway_step env s (answer_with t h w s)"
| tokens: "gs_handlers s t = Some h \<Longrightarrow> h_phase h = PTokens c e path \<Longrightarrow> arranges f \<Longrightarrow>
    workspace_tokens order f env (routes_of s) (h_request h) c e now (h_response h) = Inr ids \<Longrightarrow>
    gateway_step env s (goto t h (PAuthenticate c e path ids) (h_response h) s)"
| tokens_missing: "gs_handlers s t = Some h \<Longrightarrow> h_phase h = PTokens c e path \<Longrightarrow> arranges f \<Longrightarrow>
    workspace_tokens order f env (routes_of s) (h_request h) c e now (h_response h) = Inl w \<Longrightarrow>
    gateway_step env s (answer_with t h w s)"
| authenticate: "gs_handlers s t = Some h \<Longrightarrow> h_phase h = PAuthenticate c e path ids \<Longrightarrow> gs_registry s = Some r \<Longrightarrow>
    covers ord r \<Longrightarrow> AuthenticateAny ord ids c e now wall random r = (answer, r', cancels) \<Longrightarrow>
    gateway_step env s (goto t h (PSession c e path answer ids) (h_response h) (set_registry r' s))"
| session: "gs_handlers s t = Some h \<Longrightarrow> h_phase h = PSession c e path answer ids \<Longrightarrow>
    workspace_session order env (routes_of s) (h_request h) c e now answer (h_response h) = Inr sess \<Longrightarrow>
    gateway_step env s (goto t h (PRoute sess path) (h_response h) s)"
| session_refused: "gs_handlers s t = Some h \<Longrightarrow> h_phase h = PSession c e path answer ids \<Longrightarrow>
    workspace_session order env (routes_of s) (h_request h) c e now answer (h_response h) = Inl w \<Longrightarrow>
    gateway_step env s (answer_with t h w s)"
| route: "gs_handlers s t = Some h \<Longrightarrow> h_phase h = PRoute sess path \<Longrightarrow>
    workspace_route (routes_of s) (h_request h) sess (h_response h) = None \<Longrightarrow>
    gateway_step env s (goto t h (PReserve sess path) (h_response h) s)"
| route_refused: "gs_handlers s t = Some h \<Longrightarrow> h_phase h = PRoute sess path \<Longrightarrow>
    workspace_route (routes_of s) (h_request h) sess (h_response h) = Some w \<Longrightarrow> gateway_step env s (answer_with t h w s)"
| reserve: "gs_handlers s t = Some h \<Longrightarrow> h_phase h = PReserve sess path \<Longrightarrow>
    reserveSessionRequest (Some (ctl_of s)) (s_id sess) = Inr (res, c') \<Longrightarrow>
    gateway_step env s (goto t (h\<lparr>h_held := Some (HeldRequest res)\<rparr>) (PValidate sess path) (h_response h) (set_ctl c' s))"
| reserve_refused: "gs_handlers s t = Some h \<Longrightarrow> h_phase h = PReserve sess path \<Longrightarrow>
    reserveSessionRequest (Some (ctl_of s)) (s_id sess) = Inl status \<Longrightarrow>
    gateway_step env s (answer_with t h (session_limit_answer status (h_request h) (h_response h)) s)"
| validate: "gs_handlers s t = Some h \<Longrightarrow> h_phase h = PValidate sess path \<Longrightarrow> vs_reqs (gs_validation s) v = None \<Longrightarrow>
    gateway_step env s (goto t h (PValidating sess path v) (h_response h)
      (start_validation v (validateEndpointSession (s_siteUID sess) (s_userID sess) (s_codespaceUUID sess) (s_endpointID sess)) s))"
| authorized: "gs_handlers s t = Some h \<Longrightarrow> h_phase h = PValidating sess path v \<Longrightarrow>
    vs_reqs (gs_validation s) v = Some req \<Longrightarrow> req_phase req = VResult d full err \<Longrightarrow>
    workspace_authorization d full err (h_request h) (h_response h) = None \<Longrightarrow>
    gateway_step env s (goto t h (PLive sess path)
      (setGatewaySessionCookie (env_lib env) (s_token sess) (env_policy env) (h_response h)) s)"
| authorization_refused: "gs_handlers s t = Some h \<Longrightarrow> h_phase h = PValidating sess path v \<Longrightarrow>
    vs_reqs (gs_validation s) v = Some req \<Longrightarrow> req_phase req = VResult d full err \<Longrightarrow>
    workspace_authorization d full err (h_request h) (h_response h) = Some w \<Longrightarrow> gateway_step env s (answer_with t h w s)"
| live: "gs_handlers s t = Some h \<Longrightarrow> h_phase h = PLive sess path \<Longrightarrow> gs_registry s = Some r \<Longrightarrow> covers ord r \<Longrightarrow>
    nextLiveID r < max_int64 \<Longrightarrow>
    BeginSessionCancelable ord (s_id sess) (s_codespaceUUID sess) (Some t) wall r = (rel, r', cancels) \<Longrightarrow>
    gateway_step env s (goto t (h\<lparr>h_live := rel\<rparr>) (PBegin sess path) (h_response h) (set_registry r' s))"
| begin_proxy: "gs_handlers s t = Some h \<Longrightarrow> h_phase h = PBegin sess path \<Longrightarrow> rs_nextLeaseID (routes_of s) < max_int64 \<Longrightarrow>
    BeginProxy (s_codespaceUUID sess) (s_endpointID sess) (routes_of s) = (Some (rt, l, a), st) \<Longrightarrow>
    gateway_step env s (goto t (h\<lparr>h_lease := Some (l, a)\<rparr>)
      (if er_SiteUID rt \<noteq> s_siteUID sess then PAnswered
       else PTransport (Some sess) path (workspace_context env (h_request h) sess) rt l a)
      (if er_SiteUID rt \<noteq> s_siteUID sess then workspace_not_ready (h_request h) sess (h_response h) else h_response h)
      (begin_lease st (l, (s_codespaceUUID sess, s_endpointID sess), a, rt) s))"
| begin_refused: "gs_handlers s t = Some h \<Longrightarrow> h_phase h = PBegin sess path \<Longrightarrow>
    BeginProxy (s_codespaceUUID sess) (s_endpointID sess) (routes_of s) = (None, st) \<Longrightarrow>
    gateway_step env s (answer_with t h (workspace_not_ready (h_request h) sess (h_response h)) s)"
| public: "gs_handlers s t = Some h \<Longrightarrow> h_phase h = PStart KindPublic \<Longrightarrow>
    public_source env (h_request h) (h_response h) = Inr ((c, e, path), w) \<Longrightarrow>
    gateway_step env s (goto t h (PPublicRoute c e path) w s)"
| public_refused: "gs_handlers s t = Some h \<Longrightarrow> h_phase h = PStart KindPublic \<Longrightarrow>
    public_source env (h_request h) (h_response h) = Inl w \<Longrightarrow> gateway_step env s (answer_with t h w s)"
| public_routed: "gs_handlers s t = Some h \<Longrightarrow> h_phase h = PPublicRoute c e path \<Longrightarrow>
    public_route (routes_of s) (h_request h) c e (h_response h) = Inr site \<Longrightarrow>
    gateway_step env s (goto t h (PPublicReserve c e path site) (h_response h) s)"
| public_unrouted: "gs_handlers s t = Some h \<Longrightarrow> h_phase h = PPublicRoute c e path \<Longrightarrow>
    public_route (routes_of s) (h_request h) c e (h_response h) = Inl w \<Longrightarrow> gateway_step env s (answer_with t h w s)"
| public_reserve: "gs_handlers s t = Some h \<Longrightarrow> h_phase h = PPublicReserve c e path site \<Longrightarrow>
    reservePublic (Some (ctl_of s)) site c e (gatewayPeerIP (env_lib env) (h_request h)) = Inr (res, c') \<Longrightarrow>
    gateway_step env s (goto t (h\<lparr>h_held := Some (HeldPublic res)\<rparr>) (PPublicValidate c e path site) (h_response h) (set_ctl c' s))"
| public_reserve_refused: "gs_handlers s t = Some h \<Longrightarrow> h_phase h = PPublicReserve c e path site \<Longrightarrow>
    reservePublic (Some (ctl_of s)) site c e (gatewayPeerIP (env_lib env) (h_request h)) = Inl status \<Longrightarrow>
    gateway_step env s (answer_with t h (public_limit_answer status (h_request h) (h_response h)) s)"
| public_validate: "gs_handlers s t = Some h \<Longrightarrow> h_phase h = PPublicValidate c e path site \<Longrightarrow>
    vs_reqs (gs_validation s) v = None \<Longrightarrow>
    gateway_step env s (goto t h (PPublicValidating c e path site v) (h_response h)
      (start_validation v (ValidatePublicEndpoint site c e) s))"
| public_authorized: "gs_handlers s t = Some h \<Longrightarrow> h_phase h = PPublicValidating c e path site v \<Longrightarrow>
    vs_reqs (gs_validation s) v = Some req \<Longrightarrow> req_phase req = VResult d full err \<Longrightarrow>
    public_authorization d full err (h_request h) (h_response h) = None \<Longrightarrow>
    gateway_step env s (goto t h (PPublicBegin c e path site) (h_response h) s)"
| public_authorization_refused: "gs_handlers s t = Some h \<Longrightarrow> h_phase h = PPublicValidating c e path site v \<Longrightarrow>
    vs_reqs (gs_validation s) v = Some req \<Longrightarrow> req_phase req = VResult d full err \<Longrightarrow>
    public_authorization d full err (h_request h) (h_response h) = Some w \<Longrightarrow> gateway_step env s (answer_with t h w s)"
| public_begin: "gs_handlers s t = Some h \<Longrightarrow> h_phase h = PPublicBegin c e path site \<Longrightarrow>
    rs_nextLeaseID (routes_of s) < max_int64 \<Longrightarrow> BeginProxy c e (routes_of s) = (Some (rt, l, a), st) \<Longrightarrow>
    gateway_step env s (goto t (h\<lparr>h_lease := Some (l, a)\<rparr>)
      (if \<not> er_Public rt \<or> er_SiteUID rt \<noteq> site then PAnswered
       else PTransport None path (public_context env (h_request h) c e) rt l a)
      (if \<not> er_Public rt \<or> er_SiteUID rt \<noteq> site then writeGatewayNotFound (h_request h) ''Codespace endpoint'' (h_response h)
       else h_response h)
      (begin_lease st (l, (c, e), a, rt) s))"
| public_begin_refused: "gs_handlers s t = Some h \<Longrightarrow> h_phase h = PPublicBegin c e path site \<Longrightarrow>
    BeginProxy c e (routes_of s) = (None, st) \<Longrightarrow>
    gateway_step env s (answer_with t h (writeGatewayNotFound (h_request h) ''Codespace endpoint'' (h_response h)) s)"
| transport: "gs_handlers s t = Some h \<Longrightarrow> h_phase h = PTransport sess path ctx rt l a \<Longrightarrow>
    Transport rt (routes_of s) = (None, st) \<Longrightarrow>
    gateway_step env s (goto t h (PStreaming sess path ctx rt l a) (h_response h)
      (s\<lparr>gs_routes := (gs_routes s)\<lparr>rm_store := st\<rparr>\<rparr>))"
| transport_refused: "gs_handlers s t = Some h \<Longrightarrow> h_phase h = PTransport sess path ctx rt l a \<Longrightarrow>
    Transport rt (routes_of s) = (Some err, st) \<Longrightarrow>
    gateway_step env s (answer_with t h
      (writeGatewayError (h_request h) 502 ''Endpoint is unavailable'' ''The runtime endpoint route is unavailable.''
        ''gateway upstream unavailable'' (h_response h)) s)"
| streamed: "gs_handlers s t = Some h \<Longrightarrow> h_phase h = PStreaming sess path ctx rt l a \<Longrightarrow>
    gateway_step env s (answer_with t h w s)"
| open_start: "gs_handlers s t = Some h \<Longrightarrow> h_phase h = PStart KindOpen \<Longrightarrow>
    open_code env (h_request h) (h_response h) = Inr (code, binding, w) \<Longrightarrow>
    gateway_step env s (goto t h (POpenReserve code binding) w s)"
| open_refused: "gs_handlers s t = Some h \<Longrightarrow> h_phase h = PStart KindOpen \<Longrightarrow>
    open_code env (h_request h) (h_response h) = Inl w \<Longrightarrow> gateway_step env s (answer_with t h w s)"
| open_reserve: "gs_handlers s t = Some h \<Longrightarrow> h_phase h = POpenReserve code binding \<Longrightarrow>
    ReserveRequest (Some (ctl_of s)) = Inr (res, c') \<Longrightarrow>
    gateway_step env s (goto t (h\<lparr>h_held := Some (HeldRequest res)\<rparr>) (POpenValidate code binding) (h_response h) (set_ctl c' s))"
| open_reserve_refused: "gs_handlers s t = Some h \<Longrightarrow> h_phase h = POpenReserve code binding \<Longrightarrow>
    ReserveRequest (Some (ctl_of s)) = Inl status \<Longrightarrow>
    gateway_step env s (answer_with t h (gateway_busy (h_request h)
      (clearGatewayReturnToIfPresent (env_lib env) (h_request h) (env_policy env) (h_response h))) s)"
| open_validate: "gs_handlers s t = Some h \<Longrightarrow> h_phase h = POpenValidate code binding \<Longrightarrow>
    gateway_step env s (goto t h (POpenDecide code binding decision) (h_response h)
      (s\<lparr>gs_opens := insert (code, binding, decision) (gs_opens s)\<rparr>))"
| open_decide: "gs_handlers s t = Some h \<Longrightarrow> h_phase h = POpenDecide code binding decision \<Longrightarrow>
    open_decision env (routes_of s) (h_request h) binding decision (h_response h) = Inr b \<Longrightarrow>
    gateway_step env s (goto t h (POpenCreate code binding b) (h_response h) s)"
| open_denied: "gs_handlers s t = Some h \<Longrightarrow> h_phase h = POpenDecide code binding decision \<Longrightarrow>
    open_decision env (routes_of s) (h_request h) binding decision (h_response h) = Inl w \<Longrightarrow>
    gateway_step env s (answer_with t h w s)"
| open_create: "gs_handlers s t = Some h \<Longrightarrow> h_phase h = POpenCreate code binding b \<Longrightarrow> gs_registry s = Some r \<Longrightarrow>
    covers ord r \<Longrightarrow> raw \<noteq> [] \<Longrightarrow> fmlookup (sessions r) (RawURLEncode raw) = None \<Longrightarrow> arranges f \<Longrightarrow>
    CreateReplacingAny ord b (gatewaySessionIDsFromRequest f (env_lib env) (h_request h) (env_policy env)) now wall (Some raw)
      random r = (created, r', cancels) \<Longrightarrow>
    gateway_step env s (goto t h (case created of Inl _ \<Rightarrow> PAnswered | Inr token \<Rightarrow> POpened code binding b token)
      (open_session env (h_request h) b created (h_response h)) (set_registry r' s))"
| release_lease: "gs_handlers s t = Some h \<Longrightarrow> h_phase h = PAnswered \<Longrightarrow> h_lease h = Some (l, a) \<Longrightarrow>
    gateway_step env s (goto t (h\<lparr>h_lease := None\<rparr>) PAnswered (h_response h)
      (s\<lparr>gs_routes := (gs_routes s)\<lparr>rm_world := (rm_world (gs_routes s))
         \<lparr>gw_cancelled := insert l (gw_cancelled (rm_world (gs_routes s)))\<rparr>\<rparr>\<rparr>))"
| release_live: "gs_handlers s t = Some h \<Longrightarrow> h_phase h = PAnswered \<Longrightarrow> h_live h = Some rel \<Longrightarrow> gs_registry s = Some r \<Longrightarrow>
    gateway_step env s (goto t (h\<lparr>h_live := None\<rparr>) PAnswered (h_response h) (set_registry (runRelease False rel r) s))"
| release_request: "gs_handlers s t = Some h \<Longrightarrow> h_phase h = PAnswered \<Longrightarrow> h_held h = Some (HeldRequest res) \<Longrightarrow>
    gateway_step env s (goto t (h\<lparr>h_held := None\<rparr>) PAnswered (h_response h) (set_ctl (fst (releaseRequest (ctl_of s) (Some res))) s))"
| release_public: "gs_handlers s t = Some h \<Longrightarrow> h_phase h = PAnswered \<Longrightarrow> h_held h = Some (HeldPublic res) \<Longrightarrow>
    gateway_step env s (goto t (h\<lparr>h_held := None\<rparr>) PAnswered (h_response h) (set_ctl (fst (releasePublic (ctl_of s) (Some res))) s))"
| other_validation: "validation_step (gs_validation s) v' \<Longrightarrow> gateway_step env s (s\<lparr>gs_validation := v'\<rparr>)"
| other_routes: "route_step (gs_routes s) m' \<Longrightarrow> gateway_step env s (s\<lparr>gs_routes := m'\<rparr>)"
| other_registry: "gs_registry s = Some r \<Longrightarrow> registry_step r r' \<Longrightarrow> gateway_step env s (set_registry r' s)"

section \<open>What a handler has established\<close>

definition source_ok :: "('a, 'p) gateway_env \<Rightarrow> http_request \<Rightarrow> string \<Rightarrow> string \<Rightarrow> string \<Rightarrow> bool" where
  "source_ok env rq c e path \<longleftrightarrow>
     resolveGatewayWorkspaceBinding (env_lib env) rq (env_policy env) = Some (c, e, path) \<and>
     \<not> isGatewayServiceWorkerRequest rq \<and> isGatewayAuthenticatedSourceAllowed (env_lib env) rq (env_policy env)"

definition public_ok :: "('a, 'p) gateway_env \<Rightarrow> http_request \<Rightarrow> string \<Rightarrow> string \<Rightarrow> string \<Rightarrow> bool" where
  "public_ok env rq c e path \<longleftrightarrow>
     resolveGatewayPublicEndpointBinding (env_lib env) rq (env_policy env) = Some (c, e, path) \<and>
     \<not> isGatewayServiceWorkerRequest rq"

definition presented :: "('a, 'p) gateway_env \<Rightarrow> http_request \<Rightarrow> string set" where
  "presented env rq = set (gatewaySessionIDsFromRequest id (env_lib env) rq (env_policy env))"

definition signed_in :: "('a, 'p) gateway_env \<Rightarrow> ticket_crypto option \<Rightarrow> http_request \<Rightarrow> gatewaySession \<Rightarrow> bool" where
  "signed_in env K rq sess \<longleftrightarrow>
     (\<exists>token m now wall. token \<in> presented env rq \<and> open_ticket K token now wall = Some m \<and>
        t_SiteUID m = s_siteUID sess \<and> t_UserID m = s_userID sess \<and>
        t_CodespaceUUID m = s_codespaceUUID sess \<and> t_EndpointID m = s_endpointID sess)"

definition authenticated :: "('a, 'p) gateway_env \<Rightarrow> ticket_crypto option \<Rightarrow> http_request \<Rightarrow> gatewaySession \<Rightarrow> string \<Rightarrow> bool" where
  "authenticated env K rq sess path \<longleftrightarrow>
     source_ok env rq (s_codespaceUUID sess) (s_endpointID sess) path \<and> signed_in env K rq sess"

abbreviation session_key :: "gatewaySession \<Rightarrow> gatewayAuthorizationKey" where
  "session_key sess \<equiv> endpointAuthorizationKey (s_siteUID sess) (s_userID sess) (s_codespaceUUID sess) (s_endpointID sess)"

definition asked :: "gateway_state \<Rightarrow> nat \<Rightarrow> gatewayAuthorizationKey \<Rightarrow> bool" where
  "asked s v key \<longleftrightarrow> (\<exists>r. vs_reqs (gs_validation s) v = Some r \<and> req_key r = key)"

definition granted :: "gateway_state \<Rightarrow> gatewayAuthorizationKey \<Rightarrow> bool" where
  "granted s key \<longleftrightarrow> (\<exists>d. (key, d, None) \<in> vs_answers (gs_validation s) \<and> Allowed d)"

definition leased :: "gateway_state \<Rightarrow> int \<Rightarrow> string \<Rightarrow> string \<Rightarrow> nat \<Rightarrow> endpointRoute \<Rightarrow> bool" where
  "leased s l c e a rt \<longleftrightarrow> (l, (c, e), a, rt) \<in> set (rm_begun (gs_routes s))"

definition proxied_ok ::
  "('a, 'p) gateway_env \<Rightarrow> ticket_crypto option \<Rightarrow> gateway_state \<Rightarrow> http_request \<Rightarrow> gatewaySession option \<Rightarrow> string \<Rightarrow>
     gatewayProxyRequestContext \<Rightarrow> endpointRoute \<Rightarrow> int \<Rightarrow> nat \<Rightarrow> bool" where
  "proxied_ok env K s rq who path ctx rt l a \<longleftrightarrow>
     (case who of
        Some sess \<Rightarrow>
          authenticated env K rq sess path \<and> granted s (session_key sess) \<and> er_SiteUID rt = s_siteUID sess \<and>
          leased s l (s_codespaceUUID sess) (s_endpointID sess) a rt \<and> ctx = workspace_context env rq sess
      | None \<Rightarrow>
          (\<exists>c e. public_ok env rq c e path \<and> granted s (publicAuthorizationKey (er_SiteUID rt) c e) \<and> er_Public rt \<and>
             leased s l c e a rt \<and> ctx = public_context env rq c e))"

definition open_ok :: "('a, 'p) gateway_env \<Rightarrow> http_request \<Rightarrow> string \<Rightarrow> gatewayEndpointHost option \<Rightarrow> bool" where
  "open_ok env rq code binding \<longleftrightarrow>
     rq_Method rq = ''GET'' \<and> gatewayOpenCode (env_lib env) rq = Some code \<and>
     binding = bindingForRequest (env_lib env) (env_policy env) rq \<and> (Domain (env_policy env) \<noteq> [] \<longrightarrow> binding \<noteq> None)"

definition open_granted :: "gateway_state \<Rightarrow> string \<Rightarrow> gatewayEndpointHost option \<Rightarrow> openTokenBinding \<Rightarrow> bool" where
  "open_granted s code binding b \<longleftrightarrow>
     (\<exists>d. (code, binding, Some d) \<in> gs_opens s \<and> od_Allowed d \<and> od_Binding d = b) \<and>
     (\<forall>hb. binding = Some hb \<longrightarrow> eh_codespaceUUID hb = b_CodespaceUUID b \<and> eh_endpointID hb = b_EndpointID b)"

fun phase_ok :: "('a, 'p) gateway_env \<Rightarrow> ticket_crypto option \<Rightarrow> gateway_state \<Rightarrow> http_request \<Rightarrow> phase \<Rightarrow> bool" where
  "phase_ok env K s rq (PTokens c e path) = source_ok env rq c e path"
| "phase_ok env K s rq (PAuthenticate c e path ids) = (source_ok env rq c e path \<and> set ids \<subseteq> presented env rq)"
| "phase_ok env K s rq (PSession c e path answer ids) =
     (source_ok env rq c e path \<and>
      (case answer of (sess, ok, amb) \<Rightarrow> ok \<longrightarrow> s_codespaceUUID sess = c \<and> s_endpointID sess = e \<and> signed_in env K rq sess))"
| "phase_ok env K s rq (PRoute sess path) = authenticated env K rq sess path"
| "phase_ok env K s rq (PReserve sess path) = authenticated env K rq sess path"
| "phase_ok env K s rq (PValidate sess path) = authenticated env K rq sess path"
| "phase_ok env K s rq (PValidating sess path v) = (authenticated env K rq sess path \<and> asked s v (session_key sess))"
| "phase_ok env K s rq (PLive sess path) = (authenticated env K rq sess path \<and> granted s (session_key sess))"
| "phase_ok env K s rq (PBegin sess path) = (authenticated env K rq sess path \<and> granted s (session_key sess))"
| "phase_ok env K s rq (PPublicRoute c e path) = public_ok env rq c e path"
| "phase_ok env K s rq (PPublicReserve c e path site) = public_ok env rq c e path"
| "phase_ok env K s rq (PPublicValidate c e path site) = public_ok env rq c e path"
| "phase_ok env K s rq (PPublicValidating c e path site v) =
     (public_ok env rq c e path \<and> asked s v (publicAuthorizationKey site c e))"
| "phase_ok env K s rq (PPublicBegin c e path site) =
     (public_ok env rq c e path \<and> granted s (publicAuthorizationKey site c e))"
| "phase_ok env K s rq (PTransport who path ctx rt l a) = proxied_ok env K s rq who path ctx rt l a"
| "phase_ok env K s rq (PStreaming who path ctx rt l a) = proxied_ok env K s rq who path ctx rt l a"
| "phase_ok env K s rq (POpenReserve code binding) = open_ok env rq code binding"
| "phase_ok env K s rq (POpenValidate code binding) = open_ok env rq code binding"
| "phase_ok env K s rq (POpenDecide code binding decision) =
     (open_ok env rq code binding \<and> (code, binding, decision) \<in> gs_opens s)"
| "phase_ok env K s rq (POpenCreate code binding b) = (open_ok env rq code binding \<and> open_granted s code binding b)"
| "phase_ok env K s rq (POpened code binding b token) = (open_ok env rq code binding \<and> open_granted s code binding b)"
| "phase_ok env K s rq _ = True"

section \<open>Nothing established is lost\<close>

definition extends :: "gateway_state \<Rightarrow> gateway_state \<Rightarrow> bool" where
  "extends s s' \<longleftrightarrow>
     (\<forall>v key. asked s v key \<longrightarrow> asked s' v key) \<and> vs_answers (gs_validation s) \<subseteq> vs_answers (gs_validation s') \<and>
     set (rm_begun (gs_routes s)) \<subseteq> set (rm_begun (gs_routes s')) \<and> gs_opens s \<subseteq> gs_opens s'"

lemma extends_phase:
  assumes "extends s s'" "phase_ok env K s rq p"
  shows "phase_ok env K s' rq p"
proof -
  have "granted s key \<Longrightarrow> granted s' key" "leased s l c e a rt \<Longrightarrow> leased s' l c e a rt"
    "open_granted s code b bd \<Longrightarrow> open_granted s' code b bd" for key l c e a rt code b bd
    using assms(1) unfolding extends_def granted_def leased_def open_granted_def by blast+
  then show ?thesis
    using assms(2) assms(1)
    by (cases p) (fastforce simp: proxied_ok_def extends_def split: option.splits)+
qed

lemma state_simps [simp]:
  "gs_validation (goto t h p w s) = gs_validation s" "gs_routes (goto t h p w s) = gs_routes s"
  "gs_opens (goto t h p w s) = gs_opens s"
  "gs_handlers (goto t h p w s) = (gs_handlers s)(t \<mapsto> h\<lparr>h_phase := p, h_response := w\<rparr>)"
  "gs_validation (set_registry r s) = gs_validation s" "gs_opens (set_registry r s) = gs_opens s"
  "gs_handlers (set_registry r s) = gs_handlers s"
  "rm_begun (gs_routes (set_registry r s)) = rm_begun (gs_routes s)"
  "gs_routes (set_ctl c s) = gs_routes s" "gs_opens (set_ctl c s) = gs_opens s" "gs_handlers (set_ctl c s) = gs_handlers s"
  "vs_answers (gs_validation (set_ctl c s)) = vs_answers (gs_validation s)"
  "vs_reqs (gs_validation (set_ctl c s)) = vs_reqs (gs_validation s)"
  "gs_routes (start_validation v vr s) = gs_routes s" "gs_opens (start_validation v vr s) = gs_opens s"
  "gs_handlers (start_validation v vr s) = gs_handlers s"
  "vs_answers (gs_validation (start_validation v vr s)) = vs_answers (gs_validation s)"
  "vs_reqs (gs_validation (start_validation v vr s)) = (vs_reqs (gs_validation s))(v \<mapsto> vr)"
  "gs_validation (begin_lease st x s) = gs_validation s" "gs_opens (begin_lease st x s) = gs_opens s"
  "gs_handlers (begin_lease st x s) = gs_handlers s"
  "rm_begun (gs_routes (begin_lease st x s)) = x # rm_begun (gs_routes s)"
  by (simp_all add: goto_def set_registry_def set_ctl_def start_validation_def begin_lease_def)

lemma validation_step_keeps:
  assumes "validation_step v v'"
  shows "vs_answers v \<subseteq> vs_answers v'" "vs_reqs v x = Some r \<Longrightarrow> \<exists>r'. vs_reqs v' x = Some r' \<and> req_key r' = req_key r"
  using assms by (auto elim!: validation_step.cases split: if_splits)

lemma route_step_begun: "route_step m m' \<Longrightarrow> set (rm_begun m) \<subseteq> set (rm_begun m')"
  by (auto elim!: route_step.cases)

lemma step_extends:
  assumes "gateway_step env s s'"
  shows "extends s s'"
  using assms
proof cases
  case (other_validation v')
  then show ?thesis using validation_step_keeps [OF other_validation(2)] by (fastforce simp: extends_def asked_def)
next
  case (other_routes m')
  then show ?thesis using route_step_begun [OF other_routes(2)] by (simp add: extends_def asked_def)
qed (auto simp: extends_def asked_def split: if_splits)

section \<open>The shared state\<close>

lemma shrunk_tickets:
  "registry_ok r \<Longrightarrow> tickets (fst (dropExpiredSessionsLocked ord now wall r)) = tickets r"
  "registry_ok r \<Longrightarrow> tickets (fst (deleteGatewaySessionAndLiveLocked ord i r)) = tickets r"
  using dropExpired_ok deleteGatewaySessionAndLive_ok by (auto simp: shrinks_def)

lemma touch_tickets: "tickets (snd (authenticate_touch sess now random r)) = tickets r"
  by (simp add: authenticate_touch_def Let_def split: sum.splits)

lemma AuthenticateAny_tickets:
  assumes ok: "registry_ok r" and eq: "AuthenticateAny ord ids c e now wall random r = (answer, r', cs)"
  shows "tickets r' = tickets r"
proof -
  have m: "tickets (snd (authenticate_matched m now random q)) = tickets q" for m q
    by (auto simp: authenticate_matched_def Let_def touch_tickets incrementSessionCountLocked_def split: option.splits if_splits)
  have "r' = r \<or> (\<exists>m. r' = snd (authenticate_matched m now random (fst (dropExpiredSessionsLocked ord now wall r))))"
    using eq by (auto simp: AuthenticateAny_def Let_def split: if_splits sum.splits option.splits prod.splits) (metis snd_conv)
  then show ?thesis using m shrunk_tickets(1) [OF ok] by auto
qed

lemma CreateReplacingAny_tickets:
  assumes ok: "registry_ok r" and eq: "CreateReplacingAny ord b ids now wall raw random r = (answer, r', cs)"
  shows "tickets r' = tickets r"
proof -
  let ?d = "fst (dropExpiredSessionsLocked ord now wall r)"
  have d: "registry_ok ?d" "tickets ?d = tickets r" using dropExpired_ok [OF ok, of ord now wall] by (auto simp: shrinks_def)
  have "tickets (fst (if i \<noteq> [] then deleteGatewaySessionAndLiveLocked ord i ?d else (?d, []))) = tickets r" for i
    using d shrunk_tickets(2) [OF d(1)] by simp
  then show ?thesis
    using eq d(2)
    by (force simp: CreateReplacingAny_def Let_def incrementSessionCountLocked_def split: if_splits sum.splits prod.splits)
qed

lemma beginLive_tickets:
  assumes ok: "registry_ok r" and eq: "beginLive ord c e now wall r = (rel, r', cs)"
  shows "tickets r' = tickets r"
  using eq shrunk_tickets(1) [OF ok, of ord now wall]
  by (auto simp: beginLive_def Let_def incrementSessionCountLocked_def signalActivityChange_def split: if_splits prod.splits)

lemma registry_step_tickets:
  assumes ok: "registry_ok r" and step: "registry_step r r'"
  shows "tickets r' = tickets r"
  using step
proof cases
  case (step_create ord b ids now wall raw random answer cs)
  then show ?thesis using CreateReplacingAny_tickets [OF ok] by blast
next
  case (step_authenticate ord ids c e now wall random answer' cs)
  then show ?thesis using AuthenticateAny_tickets [OF ok] by blast
next
  case (step_begin_session ord sid c cancel wall rel cs)
  then show ?thesis using beginLive_tickets [OF ok] by (auto simp: BeginSessionCancelable_def Let_def)
next
  case (step_begin_ssh ord site c user cancel now wall rel' cs)
  then show ?thesis
    using beginLive_tickets [OF ok]
    by (auto simp: BeginSSHSession_def Let_def split: if_splits prod.splits option.splits)
next
  case (step_release fired rel'')
  then show ?thesis
    by (auto simp: runRelease_def Let_def signalActivityChange_def decrementLiveLocked_def decrementSessionCountLocked_def
        split: release.splits option.splits if_splits)
next
  case (step_delete_endpoint ord c e n cs)
  then show ?thesis using DeleteEndpoint_ok [OF ok] by (auto simp: shrinks_def)
next
  case (step_delete_codespace ord c n cs)
  then show ?thesis using DeleteCodespace_ok [OF ok] by (auto simp: shrinks_def)
next
  case (step_activity ord now wall counts cs)
  then show ?thesis using shrunk_tickets(1) [OF ok, of ord now wall] by (auto simp: Activity_def split: prod.splits)
qed simp

definition registry_fine :: "ticket_crypto option \<Rightarrow> gateway_state \<Rightarrow> bool" where
  "registry_fine K s \<longleftrightarrow> (\<exists>r. gs_registry s = Some r \<and> registry_inv r \<and> tickets r = K)"

definition core_ok :: "accessConfig \<Rightarrow> ticket_crypto option \<Rightarrow> gateway_state \<Rightarrow> bool" where
  "core_ok cfg K s \<longleftrightarrow> validation_inv cfg (gs_validation s) \<and> route_inv (gs_routes s) \<and> registry_fine K s"

lemma core_ok_same:
  assumes "core_ok cfg K s" "gs_validation s' = gs_validation s" "gs_routes s' = gs_routes s"
  shows "core_ok cfg K s'"
  using assms by (simp add: core_ok_def registry_fine_def gs_registry_def)

lemma route_inv_world:
  assumes "route_inv m" "gw_cancelled (rm_world m) \<subseteq> gw_cancelled w"
  shows "route_inv (m\<lparr>rm_world := w\<rparr>)"
proof -
  have "begun_ok (m\<lparr>rm_world := w\<rparr>)"
    by (rule begun_mono [of m]) (use assms in \<open>auto simp: route_inv_def ending_def\<close>)
  then show ?thesis using assms(1) by (simp add: route_inv_def ids_ok_def)
qed

lemma core_ok_registry:
  assumes c: "core_ok cfg K s" and r: "gs_registry s = Some r" and step: "registry_step r r'"
  shows "core_ok cfg K (set_registry r' s)"
proof -
  have "registry_inv r" "tickets r = K" using c r by (auto simp: core_ok_def registry_fine_def)
  then have "registry_inv r'" "tickets r' = K"
    using registry_step_inv [OF step] registry_step_tickets [OF _ step] by (auto simp: registry_inv_def)
  moreover have "route_inv (gs_routes (set_registry r' s))"
    using route_inv_world [of "gs_routes s"] c by (simp add: core_ok_def set_registry_def)
  ultimately show ?thesis using c by (simp add: core_ok_def registry_fine_def gs_registry_def set_registry_def)
qed

text \<open>The counters of the admission do not matter to the validations.\<close>

lemma validation_inv_ctl:
  assumes "validation_inv cfg v" "Config c = Config (vs_ctl v)" "cache c = cache (vs_ctl v)"
    "validationInflight c = validationInflight (vs_ctl v)" "validationCalls c = validationCalls (vs_ctl v)"
    "callStore c = callStore (vs_ctl v)" "nextCall c = nextCall (vs_ctl v)"
  shows "validation_inv cfg (v\<lparr>vs_ctl := c\<rparr>)"
proof -
  let ?v = "v\<lparr>vs_ctl := c\<rparr>"
  have e: "vs_ctl ?v = c" "vs_reqs ?v = vs_reqs v" "vs_callkey ?v = vs_callkey v" "vs_answers ?v = vs_answers v"
    "vs_grants ?v = vs_grants v" by simp_all
  have "calls_inv cfg ?v = calls_inv cfg v" unfolding calls_inv_def Let_def e assms(2-7) by (rule refl)
  moreover have "answers_inv ?v = answers_inv v" unfolding answers_inv_def e assms(2-7) by (rule refl)
  moreover have "cache_inv ?v = cache_inv v" unfolding cache_inv_def Let_def e assms(2-7) by (rule refl)
  ultimately show ?thesis using assms(1) by (simp add: validation_inv_def)
qed

lemma core_ok_ctl:
  assumes "core_ok cfg K s"
  shows "reserveSessionRequest (Some (ctl_of s)) i = Inr (res, c) \<Longrightarrow> core_ok cfg K (set_ctl c s)"
    and "ReserveRequest (Some (ctl_of s)) = Inr (res, c) \<Longrightarrow> core_ok cfg K (set_ctl c s)"
    and "reservePublic (Some (ctl_of s)) site cs ep ip = Inr (pub, c) \<Longrightarrow> core_ok cfg K (set_ctl c s)"
    and "core_ok cfg K (set_ctl (fst (releaseRequest (ctl_of s) (Some res'))) s)"
    and "core_ok cfg K (set_ctl (fst (releasePublic (ctl_of s) (Some pub'))) s)"
  using assms
  by (auto simp: core_ok_def set_ctl_def registry_fine_def gs_registry_def reserveSessionRequest_def ReserveRequest_def
      reservePublic_def releaseRequest_def releasePublic_def Let_def split: if_splits intro!: validation_inv_ctl)

lemma core_ok_validation:
  assumes "core_ok cfg K s" "validation_step (gs_validation s) v'"
  shows "core_ok cfg K (s\<lparr>gs_validation := v'\<rparr>)"
  using assms(1) single_flight.step_inv [OF _ assms(2)] by (auto simp: core_ok_def registry_fine_def gs_registry_def)

lemma core_ok_routes:
  assumes c: "core_ok cfg K s" and step: "route_step (gs_routes s) m'"
  shows "core_ok cfg K (s\<lparr>gs_routes := m'\<rparr>)"
proof -
  obtain r where r: "gs_registry s = Some r" "registry_inv r" "tickets r = K"
    using c by (auto simp: core_ok_def registry_fine_def)
  have "\<exists>r'. gw_registry (rm_world m') = Some r' \<and> registry_inv r' \<and> tickets r' = K"
    using step
  proof cases
    case (effect xs eff ys ord)
    show ?thesis
    proof (cases eff)
      case (DeleteSessions cs ep)
      obtain n q cancels where q: "DeleteEndpoint ord cs ep (Some r) = (n, q, cancels)" by (metis prod_cases3)
      then obtain r' where "q = Some r'" by (auto simp: DeleteEndpoint_def Let_def split: if_splits prod.splits)
      with q have d: "DeleteEndpoint ord cs ep (Some r) = (n, Some r', cancels)" by simp
      then have "ok_within r r'" using DeleteEndpoint_ok [OF _ d] r(2) by (simp add: registry_inv_def)
      then show ?thesis
        using effect DeleteSessions d r by (auto simp: run_effect_def gs_registry_def registry_inv_def shrinks_def)
    qed (use effect r in \<open>auto simp: run_effect_def gs_registry_def\<close>)
  qed (use r in \<open>auto simp: gs_registry_def\<close>)
  then show ?thesis
    using c route_inv_step [OF step] by (simp add: core_ok_def registry_fine_def gs_registry_def)
qed

lemma begin_lease_routes:
  assumes "rs_nextLeaseID (routes_of s) < max_int64" "BeginProxy c e (routes_of s) = (Some (rt, l, a), st)"
  shows "begin_lease st (l, (c, e), a, rt) s =
      s\<lparr>gs_routes := (gs_routes s)\<lparr>rm_store := st, rm_begun := (l, (c, e), a, rt) # rm_begun (gs_routes s)\<rparr>\<rparr>"
    "route_step (gs_routes s) ((gs_routes s)\<lparr>rm_store := st, rm_begun := (l, (c, e), a, rt) # rm_begun (gs_routes s)\<rparr>)"
  using route_step.begin_proxy [OF assms] by (simp_all add: begin_lease_def)

lemma step_core:
  assumes c: "core_ok cfg K s" and step: "gateway_step env s s'"
  shows "core_ok cfg K s'"
proof -
  have goto: "core_ok cfg K (goto t h p w q)" if "core_ok cfg K q" for t h p w q
    using that by (rule core_ok_same) simp_all
  have start: "core_ok cfg K (start_validation v \<lparr>req_key = k, req_cached = b, req_phase = VIdle\<rparr> s)"
    if "vs_reqs (gs_validation s) v = None" for v k b
    using core_ok_validation [OF c validation_step.arrive [OF that]] by (simp add: start_validation_def)
  from step show ?thesis
  proof cases
    case (authenticate t h cs ep path ids r ord now wall random answer r' cancels)
    then show ?thesis using core_ok_registry [OF c _ registry_step.step_authenticate] goto by auto
  next
    case (live t h sess path r ord wall rel r' cancels)
    then show ?thesis using core_ok_registry [OF c _ registry_step.step_begin_session] goto by auto
  next
    case (open_create t h code binding b r ord raw f now wall random created r' cancels)
    then show ?thesis using core_ok_registry [OF c _ registry_step.step_create] goto by auto
  next
    case (release_live t h rel r)
    then show ?thesis using core_ok_registry [OF c _ registry_step.step_release [OF refl]] goto by auto
  next
    case (release_lease t h l a)
    have "route_inv ((gs_routes s)\<lparr>rm_world := (rm_world (gs_routes s))
        \<lparr>gw_cancelled := insert l (gw_cancelled (rm_world (gs_routes s)))\<rparr>\<rparr>)"
      by (rule route_inv_world) (use c in \<open>auto simp: core_ok_def\<close>)
    then show ?thesis
      unfolding release_lease(1) using c by (intro goto) (auto simp: core_ok_def registry_fine_def gs_registry_def)
  next
    case (transport t h sess path ctx rt l a st)
    then show ?thesis using core_ok_routes [OF c route_step.transport] goto by auto
  next
    case (begin_proxy t h sess path rt l a st)
    then show ?thesis using core_ok_routes [OF c begin_lease_routes(2)] begin_lease_routes(1) goto by auto
  next
    case (public_begin t h cs ep path site rt l a st)
    then show ?thesis using core_ok_routes [OF c begin_lease_routes(2)] begin_lease_routes(1) goto by auto
  next
    case (validate t h sess path v)
    then show ?thesis using start goto by (auto simp: validateEndpointSession_def)
  next
    case (public_validate t h cs ep path site v)
    then show ?thesis using start goto by (auto simp: ValidatePublicEndpoint_def)
  next
    case (open_validate t h code binding decision)
    then show ?thesis by (auto intro!: goto core_ok_same [OF c])
  next
    case (arrive t rq)
    then show ?thesis by (auto intro!: core_ok_same [OF c])
  next
    case (other_validation v')
    then show ?thesis using core_ok_validation [OF c] by simp
  next
    case (other_routes m')
    then show ?thesis using core_ok_routes [OF c] by simp
  next
    case (other_registry r r')
    then show ?thesis using core_ok_registry [OF c] by simp
  qed (auto intro: goto c core_ok_ctl [OF c])
qed

section \<open>Every step establishes what it must\<close>

lemma presented_arranged:
  "arranges f \<Longrightarrow> set (gatewaySessionIDsFromRequest f (env_lib env) rq (env_policy env)) = presented env rq"
  by (simp add: arranges_def presented_def gatewaySessionIDsFromRequest_def Let_def)

lemma source_established: "workspace_source env rq w = Inr (c, e, path) \<Longrightarrow> source_ok env rq c e path"
  by (auto simp: workspace_source_def source_ok_def rejectGatewayServiceWorkerRequest_def split: if_splits option.splits)

lemma public_established: "public_source env rq w = Inr ((c, e, path), w') \<Longrightarrow> public_ok env rq c e path"
  by (auto simp: public_source_def public_ok_def rejectGatewayServiceWorkerRequest_def split: if_splits option.splits)

lemma open_established: "open_code env rq w = Inr (code, binding, w') \<Longrightarrow> open_ok env rq code binding"
  by (auto simp: open_code_def open_ok_def Let_def split: if_splits option.splits)

lemma decision_established:
  "open_decision env routes rq binding decision w = Inr b \<Longrightarrow> (code, binding, decision) \<in> gs_opens s \<Longrightarrow>
     open_granted s code binding b"
  by (auto simp: open_decision_def open_granted_def Let_def split: if_splits option.splits)

lemma authentication_established:
  assumes r: "registry_fine K s" "gs_registry s = Some r" and ids: "set ids \<subseteq> presented env rq"
    and eq: "AuthenticateAny ord ids c e now wall random r = ((sess, True, amb), r', cancels)"
  shows "s_codespaceUUID sess = c \<and> s_endpointID sess = e \<and> signed_in env K rq sess"
proof -
  have "registry_ok r" "tickets r = K" using r by (auto simp: registry_fine_def registry_inv_def)
  from authenticate_result [OF this(1) eq] this(2) ids show ?thesis
    unfolding signed_in_def by (metis subsetD)
qed

lemma authorization_established:
  assumes inv: "validation_inv cfg (gs_validation s)" and v: "vs_reqs (gs_validation s) v = Some req"
    and p: "req_phase req = VResult d full err"
    and a: "authorization_answer m d full err denied rq w = None"
  shows "granted s (req_key req)"
proof -
  have "err = None" "Allowed d" using a by (auto simp: authorization_answer_def split: if_splits)
  then show ?thesis
    using inv v p unfolding validation_inv_def answers_inv_def granted_def by blast
qed

lemma step_phase:
  assumes step: "gateway_step env s s'" and c: "core_ok cfg K s"
    and old: "\<And>t h. gs_handlers s t = Some h \<Longrightarrow> phase_ok env K s (h_request h) (h_phase h)"
    and h': "gs_handlers s' t = Some h'"
  shows "phase_ok env K s' (h_request h') (h_phase h')"
proof -
  have kept: "phase_ok env K s' (h_request h) (h_phase h)" if "gs_handlers s u = Some h" for u h
    using extends_phase [OF step_extends [OF step] old [OF that]] .
  have fine: "registry_fine K s" "validation_inv cfg (gs_validation s)" using c by (simp_all add: core_ok_def)
  from step show ?thesis
  proof cases
    case (source u h cs ep path)
    then show ?thesis using h' kept source_established by (auto split: if_splits)
  next
    case (tokens u h cs ep path f order now ids)
    have "set ids \<subseteq> presented env (h_request h)"
      using tokens(4,5) presented_arranged [of f env] by (auto simp: workspace_tokens_def Let_def split: if_splits)
    then show ?thesis using h' kept old [OF tokens(2)] tokens by (auto split: if_splits)
  next
    case (authenticate u h cs ep path ids r ord now wall random answer r' cancels)
    have o: "source_ok env (h_request h) cs ep path" "set ids \<subseteq> presented env (h_request h)"
      using old [OF authenticate(2)] authenticate(3) by simp_all
    have "case answer of (sess, ok, amb) \<Rightarrow> ok \<longrightarrow> s_codespaceUUID sess = cs \<and> s_endpointID sess = ep \<and> signed_in env K (h_request h) sess"
      using authentication_established [OF fine(1) authenticate(4) o(2)] authenticate(6) by (auto split: prod.splits)
    then show ?thesis using h' kept o authenticate by (auto split: if_splits)
  next
    case (session u h cs ep path answer ids order now sess)
    have "answer = (sess, True, False)"
      using session(4) by (auto simp: workspace_session_def split: prod.splits if_splits)
    then have "authenticated env K (h_request h) sess path"
      using old [OF session(2)] session(3) by (simp add: authenticated_def)
    then show ?thesis using h' kept session by (auto split: if_splits)
  next
    case (route u h sess path)
    then show ?thesis using h' kept old [OF route(2)] by (auto split: if_splits)
  next
    case (reserve u h sess path res c')
    then show ?thesis using h' kept old [OF reserve(2)] by (auto split: if_splits)
  next
    case (validate u h sess path v)
    then show ?thesis
      using h' kept old [OF validate(2)] by (auto simp: asked_def validateEndpointSession_def split: if_splits)
  next
    case (authorized u h sess path v req d full err)
    have "granted s (req_key req)"
      using authorization_established [OF fine(2) authorized(4,5) authorized(6) [unfolded workspace_authorization_def]] .
    moreover have "authenticated env K (h_request h) sess path" "req_key req = session_key sess"
      using old [OF authorized(2)] authorized(3,4) by (auto simp: asked_def)
    ultimately show ?thesis using h' kept authorized by (auto simp: granted_def split: if_splits)
  next
    case (live u h sess path r ord wall rel r' cancels)
    then show ?thesis using h' kept old [OF live(2)] by (auto simp: granted_def split: if_splits)
  next
    case (begin_proxy u h sess path rt l a st)
    then show ?thesis
      using h' kept old [OF begin_proxy(2)] by (auto simp: proxied_ok_def granted_def leased_def split: if_splits)
  next
    case (public u h cs ep path w)
    then show ?thesis using h' kept public_established by (auto split: if_splits)
  next
    case (public_routed u h cs ep path site)
    then show ?thesis using h' kept old [OF public_routed(2)] by (auto split: if_splits)
  next
    case (public_reserve u h cs ep path site res c')
    then show ?thesis using h' kept old [OF public_reserve(2)] by (auto split: if_splits)
  next
    case (public_validate u h cs ep path site v)
    then show ?thesis
      using h' kept old [OF public_validate(2)] by (auto simp: asked_def ValidatePublicEndpoint_def split: if_splits)
  next
    case (public_authorized u h cs ep path site v req d full err)
    have "granted s (req_key req)"
      using authorization_established [OF fine(2) public_authorized(4,5) public_authorized(6) [unfolded public_authorization_def]] .
    moreover have "public_ok env (h_request h) cs ep path" "req_key req = publicAuthorizationKey site cs ep"
      using old [OF public_authorized(2)] public_authorized(3,4) by (auto simp: asked_def)
    ultimately show ?thesis using h' kept public_authorized by (auto simp: granted_def split: if_splits)
  next
    case (public_begin u h cs ep path site rt l a st)
    have "public_ok env (h_request h) cs ep path" "granted s' (publicAuthorizationKey site cs ep)" "leased s' l cs ep a rt"
      using old [OF public_begin(2)] public_begin(1,3) by (simp_all add: granted_def leased_def)
    then have "proxied_ok env K s' (h_request h) None path (public_context env (h_request h) cs ep) rt l a"
      if "er_Public rt" "er_SiteUID rt = site" using that unfolding proxied_ok_def option.case by blast
    then show ?thesis using h' kept public_begin by (auto split: if_splits)
  next
    case (transport u h who path ctx rt l a st)
    then show ?thesis
      using h' kept [OF transport(2)] kept by (auto split: if_splits)
  next
    case (open_start u h code binding w)
    then show ?thesis using h' kept open_established by (auto split: if_splits)
  next
    case (open_reserve u h code binding res c')
    then show ?thesis using h' kept old [OF open_reserve(2)] by (auto split: if_splits)
  next
    case (open_validate u h code binding decision)
    then show ?thesis using h' kept old [OF open_validate(2)] by (auto split: if_splits)
  next
    case (open_decide u h code binding decision b)
    have "open_ok env (h_request h) code binding" "open_granted s code binding b"
      using old [OF open_decide(2)] open_decide(3) decision_established [OF open_decide(4)] by auto
    then show ?thesis using h' kept open_decide by (auto simp: open_granted_def split: if_splits)
  next
    case (open_create u h code binding b r ord raw f now wall random created r' cancels)
    then show ?thesis
      using h' kept [OF open_create(2)] kept by (auto split: if_splits sum.splits simp: open_granted_def)
  next
    case (arrive u rq)
    then show ?thesis using h' kept by (auto split: if_splits)
  qed (use h' kept in \<open>auto split: if_splits\<close>)
qed

section \<open>The machine keeps its invariant\<close>

definition gateway_init :: "accessConfig \<Rightarrow> ticket_crypto option \<Rightarrow> gateway_state \<Rightarrow> bool" where
  "gateway_init cfg K s \<longleftrightarrow>
     validation_init cfg (gs_validation s) \<and> route_init (gs_routes s) \<and>
     (\<exists>r. gs_registry s = Some r \<and> registry_init r \<and> tickets r = K) \<and> gs_handlers s = Map.empty \<and> gs_opens s = {}"

definition gateway_inv :: "accessConfig \<Rightarrow> ticket_crypto option \<Rightarrow> ('a, 'p) gateway_env \<Rightarrow> gateway_state \<Rightarrow> bool" where
  "gateway_inv cfg K env s \<longleftrightarrow>
     core_ok cfg K s \<and> (\<forall>t h. gs_handlers s t = Some h \<longrightarrow> phase_ok env K s (h_request h) (h_phase h))"

interpretation gateway_safe: safe_machine "gateway_init cfg K" "gateway_step env" "gateway_inv cfg K env"
proof unfold_locales
  fix s
  assume "gateway_init cfg K s"
  then show "gateway_inv cfg K env s"
    using single_flight.init_inv routes_safe.init_inv registry_init_inv
    by (auto simp: gateway_init_def gateway_inv_def core_ok_def registry_fine_def)
next
  fix s s'
  assume i: "gateway_inv cfg K env s" and step: "gateway_step env s s'"
  then show "gateway_inv cfg K env s'"
    using step_core [OF _ step] step_phase [OF step] unfolding gateway_inv_def by blast
qed

section \<open>Properties\<close>

text \<open>C1: A request reaches a runtime only when everything that protects it has been checked. While a
  handler streams to a runtime for a session, the request resolved to the endpoint of the session and
  passed the source check, it presented a token that opens to an unexpired ticket of that site, user,
  codespace and endpoint, and the control plane allowed exactly that; while it streams without a
  session, the endpoint it resolved to was public and the control plane allowed its public access.
  In both cases the runtime is told that identity and no other, and unless the stream is cancelled or
  about to be, the endpoint still has a route to the same pod of the same site with the same
  visibility. All of it holds in every interleaving of handlers, validations, snapshots and sessions.
\<close>

theorem proxied_request_authorized:
  assumes "reachable (gateway_init cfg K) (gateway_step env) s"
    and "gs_handlers s t = Some h" and "h_phase h = PStreaming who path ctx rt l a"
  shows "(case who of
      Some sess \<Rightarrow>
        resolveGatewayWorkspaceBinding (env_lib env) (h_request h) (env_policy env)
          = Some (pc_codespaceUUID ctx, pc_endpointID ctx, path)
        \<and> isGatewayAuthenticatedSourceAllowed (env_lib env) (h_request h) (env_policy env)
        \<and> (\<exists>token m now wall. token \<in> presented env (h_request h) \<and> open_ticket K token now wall = Some m
             \<and> t_SiteUID m = er_SiteUID rt \<and> t_UserID m = pc_userID ctx
             \<and> t_CodespaceUUID m = pc_codespaceUUID ctx \<and> t_EndpointID m = pc_endpointID ctx)
        \<and> (\<exists>d. (endpointAuthorizationKey (er_SiteUID rt) (pc_userID ctx) (pc_codespaceUUID ctx) (pc_endpointID ctx), d, None)
             \<in> vs_answers (gs_validation s) \<and> Allowed d)
        \<and> pc_access ctx = ''authenticated''
    | None \<Rightarrow>
        resolveGatewayPublicEndpointBinding (env_lib env) (h_request h) (env_policy env)
          = Some (pc_codespaceUUID ctx, pc_endpointID ctx, path)
        \<and> er_Public rt
        \<and> (\<exists>d. (publicAuthorizationKey (er_SiteUID rt) (pc_codespaceUUID ctx) (pc_endpointID ctx), d, None)
             \<in> vs_answers (gs_validation s) \<and> Allowed d)
        \<and> pc_access ctx = ''public'' \<and> pc_userID ctx = 0)
    \<and> (l \<notin> gw_cancelled (rm_world (gs_routes s)) \<and> CancelLease l \<notin> set (rm_pending (gs_routes s)) \<longrightarrow>
        (\<exists>current. Get (Some (routes_of s)) (pc_codespaceUUID ctx) (pc_endpointID ctx) = Some current
          \<and> sameGatewayEndpointRouting current rt))"
proof -
  have i: "core_ok cfg K s" "proxied_ok env K s (h_request h) who path ctx rt l a"
    using gateway_safe.reachable_inv [OF assms(1)] assms(2,3) by (force simp: gateway_inv_def)+
  have lease: "leased s l (pc_codespaceUUID ctx) (pc_endpointID ctx) a rt"
    using i(2) by (auto simp: proxied_ok_def workspace_context_def public_context_def split: option.splits)
  have "\<exists>current. Get (Some (routes_of s)) (pc_codespaceUUID ctx) (pc_endpointID ctx) = Some current
      \<and> sameGatewayEndpointRouting current rt"
    if n: "l \<notin> gw_cancelled (rm_world (gs_routes s))" "CancelLease l \<notin> set (rm_pending (gs_routes s))"
  proof -
    have "begun_ok (gs_routes s)" using i(1) by (simp add: core_ok_def route_inv_def)
    from begun_okD [OF this lease [unfolded leased_def]] n show ?thesis
      by (auto simp: ending_def served_def Get_def entry_at_def)
  qed
  moreover have "case who of
      Some sess \<Rightarrow> authenticated env K (h_request h) sess path \<and> granted s (session_key sess) \<and> er_SiteUID rt = s_siteUID sess
        \<and> ctx = workspace_context env (h_request h) sess
    | None \<Rightarrow> (\<exists>c e. public_ok env (h_request h) c e path \<and> granted s (publicAuthorizationKey (er_SiteUID rt) c e)
        \<and> er_Public rt \<and> ctx = public_context env (h_request h) c e)"
    using i(2) by (auto simp: proxied_ok_def split: option.splits)
  ultimately show ?thesis
    by (cases who)
      (auto simp: authenticated_def source_ok_def signed_in_def granted_def public_ok_def workspace_context_def public_context_def)
qed

text \<open>C13: A session is created only for what the control plane granted to the very code of the request,
  and on a host of its own only for the endpoint of that host. It is created by a \<open>GET\<close> with
  exactly one code.
\<close>

theorem opened_session_granted:
  assumes "reachable (gateway_init cfg K) (gateway_step env) s"
    and "gs_handlers s t = Some h" and "h_phase h = POpened code binding b token"
  shows "rq_Method (h_request h) = ''GET'' \<and> gatewayOpenCode (env_lib env) (h_request h) = Some code
    \<and> binding = bindingForRequest (env_lib env) (env_policy env) (h_request h)
    \<and> (\<exists>d. (code, binding, Some d) \<in> gs_opens s \<and> od_Allowed d \<and> od_Binding d = b)
    \<and> (Domain (env_policy env) \<noteq> [] \<longrightarrow> binding = Some \<lparr>eh_codespaceUUID = b_CodespaceUUID b, eh_endpointID = b_EndpointID b\<rparr>)"
proof -
  have "open_ok env (h_request h) code binding \<and> open_granted s code binding b"
    using gateway_safe.reachable_inv [OF assms(1)] assms(2,3) by (force simp: gateway_inv_def)
  then show ?thesis by (auto simp: open_ok_def open_granted_def)
qed

section \<open>Examples\<close>

lemma validation_can_allow:
  assumes r: "vs_reqs v x = Some \<lparr>req_key = key, req_cached = True, req_phase = VIdle\<rparr>"
    and c: "fmlookup (validationCalls (vs_ctl v)) key = None" "fmlookup (allowed (cache (vs_ctl v))) key = None"
      "validationInflight (vs_ctl v) < ValidationMaxInflight (Config (vs_ctl v))"
  shows "\<exists>v' q. validation_step\<^sup>*\<^sup>* v v' \<and> vs_reqs v' x = Some q \<and>
    req_phase q = VResult \<lparr>Allowed = True, DeniedCategory = []\<rparr> False None"
proof -
  let ?yes = "\<lparr>Allowed = True, DeniedCategory = []\<rparr>"
  obtain b k where bk: "cache_IsAllowed (cache (vs_ctl v)) key 1 = (b, k)" by (metis surj_pair)
  then have hit: "cache_IsAllowed (cache (vs_ctl v)) key 1 = (False, k)" using cache_IsAllowed_cases [OF bk] c(2) by auto
  obtain c1 where e: "validate_enter True (vs_ctl v) key 1 = (VLead (nextCall (vs_ctl v)), c1)"
    using c(1,3) hit by (simp add: validate_enter_def beginValidation_def)
  obtain v1 q1 where v1: "validation_step v v1" "vs_reqs v1 x = Some q1" "req_phase q1 = VLead (nextCall (vs_ctl v))"
    using validation_step.enter [OF r, of 1] e by fastforce
  obtain order where order: "set order = fmdom' (allowed (pruneExpiredLocked (cache (vs_ctl v1)) 1))"
    using finite_list [of "fmdom' (allowed (pruneExpiredLocked (cache (vs_ctl v1)) 1))"] by auto
  obtain c2 where a: "validate_answer (req_cached q1) (vs_ctl v1) (req_key q1) (nextCall (vs_ctl v)) ?yes None 1 order
      = (VAnswered (nextCall (vs_ctl v)) ?yes None, c2)" by (simp add: validate_answer_def)
  obtain v2 q2 where v2: "validation_step v1 v2" "vs_reqs v2 x = Some q2" "req_phase q2 = VAnswered (nextCall (vs_ctl v)) ?yes None"
    using validation_step.answer [OF v1(2,3) _ order a] by fastforce
  obtain v3 q3 where v3: "validation_step v2 v3" "vs_reqs v3 x = Some q3" "req_phase q3 = VResult ?yes False None"
    using validation_step.finish [OF v2(2,3), of "VResult ?yes False None"] by (fastforce simp: validate_finish_def)
  have "validation_step\<^sup>*\<^sup>* v v3" using v1(1) v2(1) v3(1) by (meson rtranclp.intros)
  then show ?thesis using v3(2,3) by blast
qed

lemma reach_gw:
  "reachable I (gateway_step env) s \<Longrightarrow> gateway_step env s s' \<Longrightarrow> reachable I (gateway_step env) s'"
  by (rule reach_step)

lemma reach_validation:
  assumes "reachable I (gateway_step env) s" "validation_step\<^sup>*\<^sup>* (gs_validation s) v'"
  shows "reachable I (gateway_step env) (s\<lparr>gs_validation := v'\<rparr>)"
  using assms(2)
proof (induction rule: rtranclp_induct)
  case base
  then show ?case using assms(1) by simp
next
  case (step v1 v2)
  have "gateway_step env (s\<lparr>gs_validation := v1\<rparr>) (s\<lparr>gs_validation := v1\<rparr>\<lparr>gs_validation := v2\<rparr>)"
    by (rule gateway_step.other_validation) (use step(2) in simp)
  then show ?case using step(3) by (auto intro: reach_step)
qed

text \<open>
  The public path is not empty: a request for a public endpoint with capacity left can be admitted and
  then streamed.
\<close>

lemma public_admitted:
  assumes 0: "reachable I (gateway_step env) s" and h: "gs_handlers s t = Some h" "h_phase h = PPublicRoute c e path"
    and route: "Get (Some (routes_of s)) c e = Some rt" "er_Public rt"
    and res: "reservePublic (Some (ctl_of s)) (er_SiteUID rt) c e (gatewayPeerIP (env_lib env) (h_request h)) = Inr (res, c1)"
    and v: "vs_reqs (gs_validation s) v = None"
    and c1: "fmlookup (validationCalls c1) (publicAuthorizationKey (er_SiteUID rt) c e) = None"
      "fmlookup (allowed (cache c1)) (publicAuthorizationKey (er_SiteUID rt) c e) = None"
      "validationInflight c1 < ValidationMaxInflight (Config c1)"
  shows "\<exists>s' h'. reachable I (gateway_step env) s' \<and> gs_handlers s' t = Some h' \<and> h_request h' = h_request h \<and>
    h_phase h' = PPublicBegin c e path (er_SiteUID rt) \<and> gs_routes s' = gs_routes s"
proof -
  let ?site = "er_SiteUID rt" and ?w = "h_response h"
  define s1 where "s1 = goto t h (PPublicReserve c e path ?site) ?w s"
  define h1 where "h1 = h\<lparr>h_phase := PPublicReserve c e path ?site\<rparr>"
  have "public_route (routes_of s) (h_request h) c e ?w = Inr ?site" using route by (simp add: public_route_def)
  from reach_gw [OF 0 gateway_step.public_routed [OF h this]]
  have 1: "reachable I (gateway_step env) s1" by (simp add: s1_def)
  define h2 where "h2 = h1\<lparr>h_held := Some (HeldPublic res), h_phase := PPublicValidate c e path ?site\<rparr>"
  define s2 where "s2 = goto t (h1\<lparr>h_held := Some (HeldPublic res)\<rparr>) (PPublicValidate c e path ?site) ?w (set_ctl c1 s1)"
  have 2: "reachable I (gateway_step env) s2"
    using reach_gw [OF 1 gateway_step.public_reserve [of s1 t h1 c e path ?site env res c1]] res
    by (simp add: s2_def s1_def h1_def)
  define s3 where "s3 = goto t h2 (PPublicValidating c e path ?site v) ?w (start_validation v (ValidatePublicEndpoint ?site c e) s2)"
  define h3 where "h3 = h2\<lparr>h_phase := PPublicValidating c e path ?site v\<rparr>"
  have 3: "reachable I (gateway_step env) s3"
    using reach_gw [OF 2 gateway_step.public_validate [of s2 t h2 c e path ?site v]] v
    by (simp add: s3_def s2_def s1_def h2_def h1_def)
  obtain v' q where v': "validation_step\<^sup>*\<^sup>* (gs_validation s3) v'" "vs_reqs v' v = Some q"
    "req_phase q = VResult \<lparr>Allowed = True, DeniedCategory = []\<rparr> False None"
    using validation_can_allow [of "gs_validation s3" v "publicAuthorizationKey ?site c e"] c1
    by (auto simp: s3_def s2_def ValidatePublicEndpoint_def set_ctl_def start_validation_def)
  define s4 where "s4 = s3\<lparr>gs_validation := v'\<rparr>"
  have 4: "reachable I (gateway_step env) s4" unfolding s4_def by (rule reach_validation [OF 3 v'(1)])
  define s5 where "s5 = goto t h3 (PPublicBegin c e path ?site) (h_response h3) s4"
  have "gateway_step env s4 s5" unfolding s5_def
    by (rule gateway_step.public_authorized [where req = q and d = "\<lparr>Allowed = True, DeniedCategory = []\<rparr>" and full = False and err = None])
      (use v'(2,3) in \<open>simp_all add: s4_def s3_def h3_def h2_def h1_def public_authorization_def authorization_answer_def\<close>)
  from reach_gw [OF 4 this] have "reachable I (gateway_step env) s5" .
  moreover have "gs_handlers s5 t = Some (h3\<lparr>h_phase := PPublicBegin c e path ?site\<rparr>)" "h_request h3 = h_request h"
    "gs_routes s5 = gs_routes s"
    by (simp_all add: s5_def s4_def s3_def s2_def s1_def h3_def h2_def h1_def)
  ultimately show ?thesis by (intro exI [of _ s5] exI [of _ "h3\<lparr>h_phase := PPublicBegin c e path ?site\<rparr>"]) simp
qed

lemma public_streams:
  assumes 0: "reachable I (gateway_step env) s" and h: "gs_handlers s t = Some h" "h_phase h = PPublicBegin c e path (er_SiteUID rt)"
    and route: "Get (Some (routes_of s)) c e = Some rt" "er_Public rt" "er_CodespaceUUID rt = c" "er_EndpointID rt = e"
    and room: "rs_nextLeaseID (routes_of s) < max_int64" "rs_backend (routes_of s)"
  shows "\<exists>s' h' l a. reachable I (gateway_step env) s' \<and> gs_handlers s' t = Some h' \<and> h_request h' = h_request h \<and>
    h_phase h' = PStreaming None path (public_context env (h_request h) c e) rt l a"
proof -
  obtain a where a: "fmlookup (rs_routes (routes_of s)) (c, e) = Some a" "ge_route (rs_heap (routes_of s) a) = rt"
    using route(1) by (auto simp: Get_def entry_at_def)
  then obtain l st where b: "BeginProxy c e (routes_of s) = (Some (rt, l, a), st)"
    and st: "fmlookup (rs_routes st) (c, e) = Some a" "ge_route (rs_heap st a) = rt" "rs_backend st"
    using room(2) by (simp add: BeginProxy_def Let_def)
  define ctx where "ctx = public_context env (h_request h) c e"
  define s1 where "s1 = goto t (h\<lparr>h_lease := Some (l, a)\<rparr>) (PTransport None path ctx rt l a) (h_response h)
      (begin_lease st (l, (c, e), a, rt) s)"
  define h1 where "h1 = h\<lparr>h_lease := Some (l, a), h_phase := PTransport None path ctx rt l a\<rparr>"
  have 1: "reachable I (gateway_step env) s1"
    using reach_gw [OF 0 gateway_step.public_begin [OF h room(1) b]] route(2) by (simp add: s1_def ctx_def)
  have "routes_of s1 = st" by (simp add: s1_def begin_lease_def)
  then obtain st' where tr: "Transport rt (routes_of s1) = (None, st')"
    using st route(3,4) by (simp add: Transport_def sameGatewayEndpointRouting_def)
  define s2 where "s2 = goto t h1 (PStreaming None path ctx rt l a) (h_response h1)
      (s1\<lparr>gs_routes := (gs_routes s1)\<lparr>rm_store := st'\<rparr>\<rparr>)"
  have "gateway_step env s1 s2"
    unfolding s2_def by (rule gateway_step.transport [OF _ _ tr]) (simp_all add: s1_def h1_def)
  from reach_gw [OF 1 this] have "reachable I (gateway_step env) s2" .
  moreover have "gs_handlers s2 t = Some (h1\<lparr>h_phase := PStreaming None path ctx rt l a\<rparr>)" "h_request h1 = h_request h"
    by (simp_all add: s2_def s1_def h1_def)
  ultimately show ?thesis
    unfolding ctx_def
    by (intro exI [of _ s2] exI [of _ "h1\<lparr>h_phase := PStreaming None path ctx rt l a\<rparr>"] exI [of _ l] exI [of _ a])
      (simp add: ctx_def)
qed

definition demo_env :: "(string, string) gateway_env" where
  "demo_env = \<lparr>env_lib = demo_library, env_policy = demo_policy, env_sessions = True, env_ready = True\<rparr>"

definition demo_public_route :: endpointRoute where
  "demo_public_route =
     \<lparr>er_SiteUID = ''a'', er_GiteaWebURL = ''u'', er_PodUID = ''p'', er_AgentAddress = ''x:8444'', er_TargetVersion = 1,
      er_CodespaceUUID = eh_codespaceUUID demo_endpoint, er_EndpointID = eh_endpointID demo_endpoint, er_Label = ''l'',
      er_Public = True\<rparr>"

definition demo_gateway :: gateway_state where
  "demo_gateway =
     \<lparr>gs_validation = sample_start,
      gs_routes = \<lparr>rm_store = newRouteStore True, rm_pending = [], rm_world = demo_world\<lparr>gw_registry := Some demo_reg0\<rparr>,
        rm_begun = []\<rparr>,
      gs_handlers = Map.empty, gs_opens = {}\<rparr>"

definition demo_routed :: gateway_state where
  "demo_routed = demo_gateway\<lparr>gs_routes := (gs_routes demo_gateway)\<lparr>rm_store :=
     install_entry (eh_codespaceUUID demo_endpoint, eh_endpointID demo_endpoint) demo_public_route (newRouteStore True)\<rparr>\<rparr>"

abbreviation demo_gateway_reachable :: "gateway_state \<Rightarrow> bool" where
  "demo_gateway_reachable s \<equiv> reachable (gateway_init sample_access (Some demo_crypto)) (gateway_step demo_env) s"

lemma demo_routed_reachable: "demo_gateway_reachable demo_routed"
proof -
  have "registry_init demo_reg0" using demo_reach0
    unfolding registry_init_def
    by (intro exI [of _ "\<lambda>_. Some demo_crypto"] exI [of _ "\<lparr> cfg_TTL = 20 * millisecond, cfg_IdleTimeout = 20 * millisecond,
        cfg_MaxPerCodespace = 2, cfg_MaxPerUser = 1 \<rparr>"] exI [of _ "replicate 32 (CHR ''k'')"])
      (simp add: newSessionRegistryFromConfig_def newGatewaySessionTickets_def demo_reg0_def millisecond_def)
  then have "gateway_init sample_access (Some demo_crypto) demo_gateway"
    by (auto simp: gateway_init_def demo_gateway_def validation_init_def sample_start_def route_init_def gs_registry_def
        demo_world_def demo_reg0_def)
  then have 0: "demo_gateway_reachable demo_gateway" by (rule reach_init)
  have n: "normalizeEndpointRoute demo_public_route = Inr demo_public_route" by code_simp
  have "Put demo_public_route (newRouteStore True) = (None,
      install_entry (eh_codespaceUUID demo_endpoint, eh_endpointID demo_endpoint) demo_public_route (newRouteStore True), [])"
    unfolding Put_def n by (simp add: Let_def newRouteStore_def demo_public_route_def)
  then have "route_step (gs_routes demo_gateway) (gs_routes demo_routed)"
    using route_step.put [of demo_public_route "gs_routes demo_gateway"] by (simp add: demo_routed_def demo_gateway_def)
  then have "gateway_step demo_env demo_gateway (demo_gateway\<lparr>gs_routes := gs_routes demo_routed\<rparr>)"
    by (rule gateway_step.other_routes)
  then show ?thesis using reach_gw [OF 0] by (simp add: demo_routed_def)
qed

lemma demo_routed_get:
  "fmlookup (rs_routes (routes_of demo_routed)) (eh_codespaceUUID demo_endpoint, eh_endpointID demo_endpoint) = Some 0"
  "rs_heap (routes_of demo_routed) 0 = new_entry demo_public_route" "rs_nextLeaseID (routes_of demo_routed) = 0"
  "rs_backend (routes_of demo_routed)"
  "Get (Some (routes_of demo_routed)) (eh_codespaceUUID demo_endpoint) (eh_endpointID demo_endpoint) = Some demo_public_route"
  by (simp_all add: demo_routed_def install_entry_def newRouteStore_def Get_def entry_at_def new_entry_def)

definition demo_visit :: http_request where
  "demo_visit = demo_request ''GET'' demo_host ''/'' []"

lemma demo_env_simps [simp]: "env_lib demo_env = demo_library" "env_policy demo_env = demo_policy" "env_sessions demo_env" "env_ready demo_env"
  by (simp_all add: demo_env_def)

lemma demo_visit_public: "newHandler demo_env (routes_of demo_routed) demo_visit = KindPublic"
proof -
  have "urlEscapedPath demo_library (rq_URL demo_visit) = ''/''" "mux_cleanPath ''/'' = ''/''"
    "mux_match demo_library ''/'' = MuxRoot" "bindingForRequest demo_library demo_policy demo_visit = Some demo_endpoint"
    "Domain demo_policy \<noteq> []" "rq_Method demo_visit = ''GET''" by code_simp+
  then show ?thesis using demo_routed_get(5) by (simp add: newHandler_def Let_def demo_public_route_def)
qed

lemma demo_visit_source: "\<exists>w. public_source demo_env demo_visit new_response =
    Inr ((eh_codespaceUUID demo_endpoint, eh_endpointID demo_endpoint, ''/''), w)"
proof -
  have "resolveGatewayPublicEndpointBinding demo_library demo_visit demo_policy =
      Some (eh_codespaceUUID demo_endpoint, eh_endpointID demo_endpoint, ''/'')" "\<not> isGatewayServiceWorkerRequest demo_visit"
    by code_simp+
  then show ?thesis by (simp add: public_source_def rejectGatewayServiceWorkerRequest_def)
qed

lemma demo_stream_reachable:
  "\<exists>s h ctx l a. demo_gateway_reachable s \<and> gs_handlers s 0 = Some h \<and>
     h_phase h = PStreaming None ''/'' ctx demo_public_route l a \<and>
     ctx = public_context demo_env demo_visit (eh_codespaceUUID demo_endpoint) (eh_endpointID demo_endpoint)"
proof -
  let ?c = "eh_codespaceUUID demo_endpoint" and ?e = "eh_endpointID demo_endpoint"
  define h1 where "h1 = \<lparr>h_request = demo_visit, h_response = new_response, h_phase = PStart KindPublic, h_held = None,
      h_live = None, h_lease = None\<rparr>"
  obtain w where src: "public_source demo_env demo_visit new_response = Inr ((?c, ?e, ''/''), w)"
    using demo_visit_source by blast
  define s1 where "s1 = demo_routed\<lparr>gs_handlers := (gs_handlers demo_routed)(0 \<mapsto> h1)\<rparr>"
  have n: "gs_handlers demo_routed 0 = None" by (simp add: demo_routed_def demo_gateway_def)
  have 1: "demo_gateway_reachable s1"
    using reach_gw [OF demo_routed_reachable gateway_step.arrive [OF n, of demo_env demo_visit]]
    unfolding demo_visit_public s1_def h1_def .
  define s2 where "s2 = goto 0 h1 (PPublicRoute ?c ?e ''/'') w s1"
  have 2: "demo_gateway_reachable s2"
    unfolding s2_def by (rule reach_gw [OF 1], rule gateway_step.public) (simp_all add: s1_def src h1_def)
  have r2: "gs_routes s2 = gs_routes demo_routed" "gs_validation s2 = sample_start"
    by (simp_all add: s2_def s1_def demo_routed_def demo_gateway_def)
  obtain res c4 where res: "reservePublic (Some (newAccessController sample_access)) ''a'' ?c ?e
      (gatewayPeerIP demo_library demo_visit) = Inr (res, c4)"
    and c4: "validationCalls c4 = fmempty" "allowed (cache c4) = fmempty" "validationInflight c4 = 0" "ValidationMaxInflight (Config c4) = 1"
    by (auto simp: reservePublic_def newAccessController_def newGatewayAccessCache_def sample_access_def Let_def counter_get_def
        duration_units)
  obtain s3 h3 where 3: "demo_gateway_reachable s3" "gs_handlers s3 0 = Some h3" "h_request h3 = demo_visit"
    "h_phase h3 = PPublicBegin ?c ?e ''/'' ''a''" "gs_routes s3 = gs_routes demo_routed"
    using public_admitted [OF 2, of 0 "h1\<lparr>h_phase := PPublicRoute ?c ?e ''/'', h_response := w\<rparr>" ?c ?e "''/''" demo_public_route
        res c4 0] demo_routed_get(5) res c4 r2
    by (auto simp: s2_def h1_def demo_public_route_def sample_start_def)
  have "\<exists>s' h' l a. demo_gateway_reachable s' \<and> gs_handlers s' 0 = Some h' \<and> h_request h' = h_request h3 \<and>
      h_phase h' = PStreaming None ''/'' (public_context demo_env (h_request h3) ?c ?e) demo_public_route l a"
    by (rule public_streams [OF 3(1,2)])
      (use 3(4,5) demo_routed_get in \<open>simp_all add: demo_public_route_def max_int64_def\<close>)
  then show ?thesis using 3(3) by auto
qed

theorem proxied_request_authorized_witness:
  "\<exists>(s :: gateway_state) d. (publicAuthorizationKey ''a'' (eh_codespaceUUID demo_endpoint) (eh_endpointID demo_endpoint), d, None)
      \<in> vs_answers (gs_validation s) \<and> Allowed d"
proof -
  obtain s h ctx l a where s: "demo_gateway_reachable s" "gs_handlers s 0 = Some h"
    "h_phase h = PStreaming None ''/'' ctx demo_public_route l a"
    and ctx: "ctx = public_context demo_env demo_visit (eh_codespaceUUID demo_endpoint) (eh_endpointID demo_endpoint)"
    using demo_stream_reachable by blast
  have "\<exists>d. (publicAuthorizationKey (er_SiteUID demo_public_route) (pc_codespaceUUID ctx) (pc_endpointID ctx), d, None)
      \<in> vs_answers (gs_validation s) \<and> Allowed d"
    using proxied_request_authorized [OF s] unfolding option.case by blast
  moreover have "er_SiteUID demo_public_route = ''a''" by (simp add: demo_public_route_def)
  ultimately show ?thesis unfolding ctx public_context_def by (intro exI [of _ s]) simp
qed

definition demo_opening :: http_request where
  "demo_opening = (demo_request ''GET'' demo_host ''/.gitea-codespace/open'' [])
     \<lparr>rq_URL := (demo_url [] [] ''/.gitea-codespace/open'')\<lparr>url_RawQuery := ''code=k''\<rparr>\<rparr>"

definition demo_grant :: openTokenBinding where
  "demo_grant = \<lparr>b_SiteUID = ''a'', b_UserID = 7, b_CodespaceUUID = eh_codespaceUUID demo_endpoint,
     b_EndpointID = eh_endpointID demo_endpoint\<rparr>"

definition demo_decision :: gatewayOpenTokenDecision where
  "demo_decision = \<lparr>od_Allowed = True, od_Binding = demo_grant, od_deniedCategory = []\<rparr>"

lemma demo_opening_checks:
  "newHandler demo_env (routes_of demo_routed) demo_opening = KindOpen"
  "\<exists>w. open_code demo_env demo_opening new_response = Inr (''k'', Some demo_endpoint, w)"
proof -
  have "urlEscapedPath demo_library (rq_URL demo_opening) = ''/.gitea-codespace/open''"
    "mux_cleanPath ''/.gitea-codespace/open'' = ''/.gitea-codespace/open''"
    "mux_match demo_library ''/.gitea-codespace/open'' = MuxOpen" "rq_Method demo_opening = ''GET''" by code_simp+
  then show "newHandler demo_env (routes_of demo_routed) demo_opening = KindOpen" by (simp add: newHandler_def Let_def)
  have "\<not> isGatewayServiceWorkerRequest demo_opening" "rq_Method demo_opening = ''GET''"
    "url_Path (rq_URL demo_opening) = ''/.gitea-codespace/open''"
    "bindingForRequest demo_library demo_policy demo_opening = Some demo_endpoint"
    "gatewayOpenCode demo_library demo_opening = Some ''k''" by code_simp+
  then show "\<exists>w. open_code demo_env demo_opening new_response = Inr (''k'', Some demo_endpoint, w)"
    by (simp add: open_code_def rejectGatewayServiceWorkerRequest_def Let_def)
qed

lemma demo_opening_created:
  "\<exists>token r' cancels. CreateReplacingAny demo_ord demo_grant (gatewaySessionIDsFromRequest id demo_library demo_opening demo_policy)
     (time_UnixMilli 10) 0 (Some ''xyz'') demo_random demo_reg0 = (Inr token, r', cancels)"
proof -
  let ?x = "CreateReplacingAny demo_ord demo_grant (gatewaySessionIDsFromRequest id demo_library demo_opening demo_policy)
     (time_UnixMilli 10) 0 (Some ''xyz'') demo_random demo_reg0"
  have "\<not> isl (fst ?x)" by code_simp
  then show ?thesis by (metis prod.collapse sum.collapse(2))
qed

lemma open_run:
  assumes 0: "reachable I (gateway_step env) s" and h: "gs_handlers s t = Some h" "h_phase h = POpenReserve code binding"
    and res: "ReserveRequest (Some (ctl_of s)) = Inr (res, c1)"
    and d: "\<And>w. open_decision env (routes_of s) (h_request h) binding decision w = Inr b"
    and r: "gs_registry s = Some r" "covers ord r" "raw \<noteq> []" "fmlookup (sessions r) (RawURLEncode raw) = None"
    and c: "CreateReplacingAny ord b (gatewaySessionIDsFromRequest id (env_lib env) (h_request h) (env_policy env)) now wall
      (Some raw) random r = (Inr token, r', cancels)"
  shows "\<exists>s' h'. reachable I (gateway_step env) s' \<and> gs_handlers s' t = Some h' \<and> h_request h' = h_request h \<and>
    h_phase h' = POpened code binding b token"
proof -
  define w where "w = h_response h"
  define h1 where "h1 = h\<lparr>h_held := Some (HeldRequest res), h_phase := POpenValidate code binding\<rparr>"
  define s1 where "s1 = goto t (h\<lparr>h_held := Some (HeldRequest res)\<rparr>) (POpenValidate code binding) w (set_ctl c1 s)"
  have 1: "reachable I (gateway_step env) s1"
    using reach_gw [OF 0 gateway_step.open_reserve [OF h res]] by (simp add: s1_def w_def)
  define h2 where "h2 = h1\<lparr>h_phase := POpenDecide code binding decision\<rparr>"
  define s2 where "s2 = goto t h1 (POpenDecide code binding decision) w (s1\<lparr>gs_opens := insert (code, binding, decision) (gs_opens s1)\<rparr>)"
  have "gateway_step env s1 (goto t h1 (POpenDecide code binding decision) (h_response h1)
      (s1\<lparr>gs_opens := insert (code, binding, decision) (gs_opens s1)\<rparr>))"
    by (rule gateway_step.open_validate) (simp_all add: s1_def h1_def w_def)
  then have 2: "reachable I (gateway_step env) s2" using reach_gw [OF 1] by (simp add: s2_def h1_def w_def)
  define h3 where "h3 = h2\<lparr>h_phase := POpenCreate code binding b\<rparr>"
  define s3 where "s3 = goto t h2 (POpenCreate code binding b) w s2"
  have "gateway_step env s2 (goto t h2 (POpenCreate code binding b) (h_response h2) s2)"
    by (rule gateway_step.open_decide [where decision = decision]) (use d in \<open>simp_all add: s2_def s1_def h2_def h1_def w_def\<close>)
  then have 3: "reachable I (gateway_step env) s3" using reach_gw [OF 2] by (simp add: s3_def h2_def h1_def w_def)
  have r3: "gs_registry s3 = Some r" using r(1) by (simp add: s3_def s2_def s1_def gs_registry_def)
  define s4 where "s4 = goto t h3 (POpened code binding b token) (open_session env (h_request h3) b (Inr token) (h_response h3)) (set_registry r' s3)"
  have h3: "gs_handlers s3 t = Some h3" "h_phase h3 = POpenCreate code binding b" "h_request h3 = h_request h"
    by (simp_all add: s3_def h3_def h2_def h1_def w_def)
  have "arranges id" by (simp add: arranges_def)
  from gateway_step.open_create [OF h3(1,2) r3 r(2,3,4) this, unfolded h3(3), OF c]
  have "gateway_step env s3 s4" by (simp add: s4_def h3(3))
  from reach_gw [OF 3 this] show ?thesis
    by (intro exI [of _ s4] exI [of _ "h3\<lparr>h_phase := POpened code binding b token,
        h_response := open_session env (h_request h3) b (Inr token) (h_response h3)\<rparr>"]) (simp add: s4_def h3(3))
qed

theorem opened_session_granted_witness:
  "\<exists>(s :: gateway_state) d. (''k'', Some demo_endpoint, Some d) \<in> gs_opens s \<and> od_Allowed d \<and> od_Binding d = demo_grant"
proof -
  define h1 where "h1 = \<lparr>h_request = demo_opening, h_response = new_response, h_phase = PStart KindOpen, h_held = None,
      h_live = None, h_lease = None\<rparr>"
  obtain w where w: "open_code demo_env demo_opening new_response = Inr (''k'', Some demo_endpoint, w)"
    using demo_opening_checks(2) by blast
  define s1 where "s1 = demo_routed\<lparr>gs_handlers := (gs_handlers demo_routed)(0 \<mapsto> h1)\<rparr>"
  have n: "gs_handlers demo_routed 0 = None" by (simp add: demo_routed_def demo_gateway_def)
  have 1: "demo_gateway_reachable s1"
    using reach_gw [OF demo_routed_reachable gateway_step.arrive [OF n, of demo_env demo_opening]]
    unfolding demo_opening_checks(1) s1_def h1_def .
  define h2 where "h2 = h1\<lparr>h_phase := POpenReserve ''k'' (Some demo_endpoint), h_response := w\<rparr>"
  define s2 where "s2 = goto 0 h1 (POpenReserve ''k'' (Some demo_endpoint)) w s1"
  have 2: "demo_gateway_reachable s2"
    unfolding s2_def by (rule reach_gw [OF 1], rule gateway_step.open_start) (simp_all add: s1_def w h1_def)
  have r2: "routes_of s2 = routes_of demo_routed" "gs_registry s2 = Some demo_reg0" "ctl_of s2 = newAccessController sample_access"
    by (simp_all add: s2_def s1_def demo_routed_def demo_gateway_def gs_registry_def sample_start_def)
  obtain res c1 where res: "ReserveRequest (Some (ctl_of s2)) = Inr (res, c1)"
    unfolding r2 by (auto simp: ReserveRequest_def newAccessController_def sample_access_def Let_def duration_units)
  have d: "open_decision demo_env (routes_of s2) demo_opening (Some demo_endpoint) (Some demo_decision) x = Inr demo_grant" for x
    using demo_routed_get(5) unfolding r2
    by (simp add: open_decision_def Let_def demo_decision_def demo_grant_def demo_public_route_def)
  obtain token r' cancels where c: "CreateReplacingAny demo_ord demo_grant
      (gatewaySessionIDsFromRequest id demo_library demo_opening demo_policy) (time_UnixMilli 10) 0 (Some ''xyz'') demo_random
      demo_reg0 = (Inr token, r', cancels)" using demo_opening_created by blast
  have "fmlookup (sessions demo_reg0) (RawURLEncode ''xyz'') = None" by code_simp
  then obtain s h where s: "demo_gateway_reachable s" "gs_handlers s 0 = Some h"
    "h_phase h = POpened ''k'' (Some demo_endpoint) demo_grant token"
    using open_run [OF 2, of 0 h2 "''k''" "Some demo_endpoint" res c1 "Some demo_decision" demo_grant demo_reg0 demo_ord "''xyz''"
        "time_UnixMilli 10" 0 demo_random token r' cancels] res d r2(2) demo_covers0 c
    by (auto simp: s2_def h2_def h1_def)
  from opened_session_granted [OF s] show ?thesis by blast
qed

end
