(* ===== verification/Port_Endpoints.thy ===== *)
theory Port_Endpoints
  imports Devcontainer_Config Agent_Report Go_Http "HOL-Library.List_Lexorder" "HOL-Library.Char_ord" "HOL-Library.Product_Lexorder"
begin

text \<open>
  From a Dev Container to its endpoints: the port attributes of \<open>devcontainer/config.go\<close>, the saved
  state of an environment and its validation (\<open>devcontainer/state.go\<close>), and the endpoints that its
  configuration declares (\<open>internal/devcontainerruntime/endpoint.go\<close>). A list \<open>order\<close> is the order in
  which Go visits a map; the theorems show where it does not matter.
\<close>

section \<open>Port attributes\<close>

definition no_attributes :: PortAttributes where
  "no_attributes = \<lparr>pa_Label = [], pa_Protocol = [], pa_OnAutoForward = [], pa_RequireLocalPort = False, pa_ElevateIfNeeded = False\<rparr>"

text \<open>The number of ports of a range that contains the port, zero when the key is no such range.\<close>

definition range_span :: "string \<Rightarrow> nat \<Rightarrow> nat" where
  "range_span key port =
     (case Cut (CHR ''-'') (TrimSpace key) of
        (lowest, highest, ok) \<Rightarrow>
          if \<not> ok then 0
          else case (ParseUint16 (TrimSpace lowest), ParseUint16 (TrimSpace highest)) of
            (Some lower, Some upper) \<Rightarrow> if lower \<le> port \<and> port \<le> upper \<and> lower \<le> upper then upper - lower + 1 else 0
          | _ \<Rightarrow> 0)"

text \<open>The loop over the map: the key of the narrowest range so far and its size.\<close>

fun narrowest :: "nat \<Rightarrow> string list \<Rightarrow> string \<times> nat \<Rightarrow> string \<times> nat" where
  "narrowest port [] selected = selected"
| "narrowest port (key # keys) (selectedKey, selectedSpan) =
     (let span = range_span key port
      in narrowest port keys
           (if span \<noteq> 0 \<and> (selectedSpan = 0 \<or> span < selectedSpan \<or> (span = selectedSpan \<and> key < selectedKey))
            then (key, span) else (selectedKey, selectedSpan)))"

definition process_match :: "config_libs \<Rightarrow> string list \<Rightarrow> string \<Rightarrow> string option" where
  "process_match libs keys commandLine =
     find (\<lambda>key. \<not> portNumberOrRangePattern key \<and>
       (case cl_Regexp libs key of None \<Rightarrow> False | Some matches \<Rightarrow> matches commandLine)) (sort keys)"

definition attributes_at :: "Configuration \<Rightarrow> string \<Rightarrow> PortAttributes" where
  "attributes_at c key = (case fmlookup (c_PortsAttributes c) key of None \<Rightarrow> no_attributes | Some a \<Rightarrow> a)"

definition PortAttributesForProcess :: "config_libs \<Rightarrow> string list \<Rightarrow> Configuration \<Rightarrow> nat \<Rightarrow> string \<Rightarrow> PortAttributes" where
  "PortAttributesForProcess libs order c port commandLine =
     (case fmlookup (c_PortsAttributes c) (itoa port) of
        Some attributes \<Rightarrow> attributes
      | None \<Rightarrow>
          (let (selectedKey, selectedSpan) = narrowest port order ([], 0)
           in if selectedSpan \<noteq> 0 then attributes_at c selectedKey
              else case (if commandLine \<noteq> [] then process_match libs order commandLine else None) of
                Some key \<Rightarrow> attributes_at c key
              | None \<Rightarrow> (case c_OtherPortsAttributes c of Some a \<Rightarrow> a | None \<Rightarrow> no_attributes)))"

definition PortAttributesFor :: "config_libs \<Rightarrow> string list \<Rightarrow> Configuration \<Rightarrow> nat \<Rightarrow> PortAttributes" where
  "PortAttributesFor libs order c port = PortAttributesForProcess libs order c port []"

definition PortAttributesForAddress :: "config_libs \<Rightarrow> string list \<Rightarrow> Configuration \<Rightarrow> string \<Rightarrow> nat \<Rightarrow> PortAttributes" where
  "PortAttributesForAddress libs order c address port =
     (case fmlookup (c_PortsAttributes c) (TrimSpace address) of
        Some attributes \<Rightarrow> attributes
      | None \<Rightarrow> PortAttributesFor libs order c port)"

section \<open>The saved state\<close>

record LifecycleCommands =
  lc_OnCreate :: "Command list"
  lc_UpdateContent :: "Command list"
  lc_PostCreate :: "Command list"
  lc_PostStart :: "Command list"
  lc_PostAttach :: "Command list"

definition append_command :: "Command list \<Rightarrow> Command \<Rightarrow> Command list" where
  "append_command commands command = (if command \<noteq> [] then commands @ [command] else commands)"

definition lifecycle_Append :: "Configuration \<Rightarrow> LifecycleCommands \<Rightarrow> LifecycleCommands" where
  "lifecycle_Append configuration c =
     \<lparr>lc_OnCreate = append_command (lc_OnCreate c) (c_OnCreateCommand configuration),
      lc_UpdateContent = append_command (lc_UpdateContent c) (c_UpdateContentCommand configuration),
      lc_PostCreate = append_command (lc_PostCreate c) (c_PostCreateCommand configuration),
      lc_PostStart = append_command (lc_PostStart c) (c_PostStartCommand configuration),
      lc_PostAttach = append_command (lc_PostAttach c) (c_PostAttachCommand configuration)\<rparr>"

record State =
  ds_Version :: int
  ds_ID :: string
  ds_OwnerID :: string
  ds_ConfigurationPath :: string
  ds_ConfigurationSHA256 :: string
  ds_Workspace :: string
  ds_WorkspaceFolder :: string
  ds_ComposeProject :: string
  ds_PrimaryService :: string
  ds_ComposeContainers :: "(string, string) fmap"
  ds_PrimaryContainerID :: string
  ds_RelatedContainerIDs :: "string list"
  ds_Configuration :: Configuration
  ds_RemoteUser :: string
  ds_RemoteWorkdir :: string
  ds_RemoteEnvironment :: "(string, string) fmap"
  ds_FeatureDigests :: "(string, string) fmap"
  ds_LifecycleCommands :: LifecycleCommands

definition StateFormatVersion :: int where
  "StateFormatVersion = 2"

datatype state_error =
    stateVersionInvalid
  | stateIdentityIncomplete
  | primaryContainerEmpty
  | configurationIdentityIncomplete
  | statePathsRelative
  | remoteUserEmpty
  | flattenedLifecycle
  | relatedContainerEmpty
  | duplicateContainer string
  | composeIdentityIncomplete
  | composeUnexpected
  | primaryServiceIncomplete
  | composeServiceEmpty
  | composeContainerUnknown string
  | composeContainerShared string string
  | composeMappingIncomplete

fun related_containers :: "string list \<Rightarrow> string list \<Rightarrow> state_error + string list" where
  "related_containers seen [] = Inr seen"
| "related_containers seen (raw # ids) =
     (let id' = TrimSpace raw
      in if id' = [] then Inl relatedContainerEmpty
         else if id' \<in> set seen then Inl (duplicateContainer id')
         else related_containers (id' # seen) ids)"

fun map_services ::
  "string list \<Rightarrow> (string, string) fmap \<Rightarrow> string list \<Rightarrow> (string, string) fmap \<Rightarrow> state_error + (string, string) fmap" where
  "map_services seen containers [] mapped = Inr mapped"
| "map_services seen containers (service # services) mapped =
     (case fmlookup containers service of
        None \<Rightarrow> map_services seen containers services mapped
      | Some id' \<Rightarrow>
          if TrimSpace service = [] then Inl composeServiceEmpty
          else if id' \<notin> set seen then Inl (composeContainerUnknown service)
          else case fmlookup mapped id' of
            Some existing \<Rightarrow>
              if existing \<noteq> [] then Inl (composeContainerShared existing service)
              else map_services seen containers services (fmupd id' service mapped)
          | None \<Rightarrow> map_services seen containers services (fmupd id' service mapped))"

definition has_flattened :: "Configuration \<Rightarrow> bool" where
  "has_flattened c \<longleftrightarrow> c_OnCreateCommand c \<noteq> [] \<or> c_UpdateContentCommand c \<noteq> [] \<or> c_PostCreateCommand c \<noteq> []
     \<or> c_PostStartCommand c \<noteq> [] \<or> c_PostAttachCommand c \<noteq> []"

definition validate_compose :: "string list \<Rightarrow> State \<Rightarrow> string list \<Rightarrow> state_error option" where
  "validate_compose order s seen =
     (if (ds_ComposeProject s = []) \<noteq> (ds_PrimaryService s = []) then Some composeIdentityIncomplete
      else if ds_ComposeProject s = [] then (if ds_ComposeContainers s \<noteq> fmempty then Some composeUnexpected else None)
      else if fmlookup (ds_ComposeContainers s) (ds_PrimaryService s) \<noteq> Some (ds_PrimaryContainerID s) then Some primaryServiceIncomplete
      else case map_services seen (ds_ComposeContainers s) order fmempty of
        Inl err \<Rightarrow> Some err
      | Inr mapped \<Rightarrow> if map_len mapped \<noteq> int (length seen) then Some composeMappingIncomplete else None)"

definition state_Validate :: "string list \<Rightarrow> State option \<Rightarrow> state_error option" where
  "state_Validate order state =
     (case state of
        None \<Rightarrow> Some stateVersionInvalid
      | Some s \<Rightarrow>
          if ds_Version s \<noteq> StateFormatVersion then Some stateVersionInvalid
          else if TrimSpace (ds_ID s) = [] \<or> TrimSpace (ds_OwnerID s) = [] then Some stateIdentityIncomplete
          else if TrimSpace (ds_PrimaryContainerID s) = [] then Some primaryContainerEmpty
          else if \<not> HasPrefix (TrimSpace (ds_ConfigurationPath s)) ''/'' \<or> length (ds_ConfigurationSHA256 s) \<noteq> 64
          then Some configurationIdentityIncomplete
          else if \<not> HasPrefix (TrimSpace (ds_Workspace s)) ''/'' \<or> \<not> HasPrefix (TrimSpace (ds_RemoteWorkdir s)) ''/''
             \<or> \<not> IsValidWorkspaceFolder (ds_WorkspaceFolder s)
          then Some statePathsRelative
          else if TrimSpace (ds_RemoteUser s) = [] then Some remoteUserEmpty
          else if has_flattened (ds_Configuration s) then Some flattenedLifecycle
          else case related_containers [ds_PrimaryContainerID s] (ds_RelatedContainerIDs s) of
            Inl err \<Rightarrow> Some err
          | Inr seen \<Rightarrow> validate_compose order s seen)"

section \<open>Configured endpoints\<close>

record configuredPort =
  cp_endpointID :: string
  cp_address :: string
  cp_service :: string
  cp_containerID :: string
  cp_port :: nat

datatype endpoint_error =
    stateInvalid state_error
  | portWithoutHost string
  | portInvalid string
  | serviceWithoutCompose string
  | serviceNotRunning string
  | appPortInvalid
  | portLabelInvalid nat label_error
  | tooManyConfigured
  | endpointIdentityInvalid
  | endpointLabelInvalid label_error
  | endpointCountExceeded
  | endpointStateUnreadable
  | endpointStateInvalid
  | endpointStateUnwritable
  | targetVersionExhausted
  | endpointRequestInvalid

definition devContainerPort :: "Port \<Rightarrow> endpoint_error + (string \<times> nat)" where
  "devContainerPort port =
     (if port_Numeric port \<or> port_Number port \<noteq> 0 then Inr ([], port_Number port)
      else case SplitHostPort (port_Address port) of
        None \<Rightarrow> Inl (portWithoutHost (port_Address port))
      | Some (host, rawPort) \<Rightarrow>
          (let service = (if host = ''localhost'' \<or> host = ''127.0.0.1'' \<or> host = ''::1'' then [] else host)
           in case ParseUint16 rawPort of
                None \<Rightarrow> Inl (portInvalid (port_Address port))
              | Some value \<Rightarrow> if value = 0 then Inl (portInvalid (port_Address port)) else Inr (service, value)))"

fun forward_ports ::
  "(string \<Rightarrow> string) \<Rightarrow> State \<Rightarrow> Port list \<Rightarrow> (string, configuredPort) fmap \<Rightarrow> endpoint_error + (string, configuredPort) fmap" where
  "forward_ports sha256 state [] ports = Inr ports"
| "forward_ports sha256 state (configured # rest) ports =
     (case devContainerPort configured of
        Inl err \<Rightarrow> Inl err
      | Inr (service, port) \<Rightarrow>
          if port = 0 then forward_ports sha256 state rest ports
          else if service \<noteq> [] \<and> ds_ComposeProject state = [] then Inl (serviceWithoutCompose service)
          else
            (let containerID = (if service = [] then ds_PrimaryContainerID state
                                else case fmlookup (ds_ComposeContainers state) service of None \<Rightarrow> [] | Some c \<Rightarrow> c);
                 endpointID = (if service = [] then PortEndpointID port else ServicePortEndpointID sha256 service port)
             in if service \<noteq> [] \<and> containerID = [] then Inl (serviceNotRunning service)
                else forward_ports sha256 state rest (fmupd endpointID
                  \<lparr>cp_endpointID = endpointID, cp_address = port_Address configured, cp_service = service,
                   cp_containerID = containerID, cp_port = port\<rparr> ports)))"

fun app_ports :: "State \<Rightarrow> Port list \<Rightarrow> (string, configuredPort) fmap \<Rightarrow> endpoint_error + (string, configuredPort) fmap" where
  "app_ports state [] ports = Inr ports"
| "app_ports state (configured # rest) ports =
     (case ContainerPort configured of
        None \<Rightarrow> Inl appPortInvalid
      | Some port \<Rightarrow>
          app_ports state rest
            (if port = 0 then ports
             else fmupd (PortEndpointID port)
               \<lparr>cp_endpointID = PortEndpointID port, cp_address = port_Address configured, cp_service = [],
                cp_containerID = ds_PrimaryContainerID state, cp_port = port\<rparr> ports))"

text \<open>The ports of the map in the order of port and id. The ids are the keys, so no two are equal.\<close>

definition ordered_ports :: "(string, configuredPort) fmap \<Rightarrow> configuredPort list" where
  "ordered_ports ports =
     sort_key (\<lambda>p. (cp_port p, cp_endpointID p)) (map (\<lambda>k. the (fmlookup ports k)) (sorted_list_of_fset (fmdom ports)))"

definition port_label :: "PortAttributes \<Rightarrow> configuredPort \<Rightarrow> string" where
  "port_label attributes p =
     (if TrimSpace (pa_Label attributes) \<noteq> [] then TrimSpace (pa_Label attributes)
      else if cp_service p = [] then ''Port '' @ itoa (cp_port p)
      else cp_service p @ '':'' @ itoa (cp_port p))"

fun declare_ports ::
  "config_libs \<Rightarrow> string list \<Rightarrow> Configuration \<Rightarrow> configuredPort list \<Rightarrow>
     endpoint_error + (RuntimeEndpoint \<times> string) list" where
  "declare_ports libs order c [] = Inr []"
| "declare_ports libs order c (p # ps) =
     (let attributes = PortAttributesForAddress libs order c (cp_address p) (cp_port p)
      in if pa_OnAutoForward attributes = ''ignore'' then declare_ports libs order c ps
         else
           (let label = port_label attributes p
            in case ValidateLabel label of
                 Some err \<Rightarrow> Inl (portLabelInvalid (cp_port p) err)
               | None \<Rightarrow>
                   map_sum id (Cons (\<lparr>re_EndpointId = cp_endpointID p, re_Label = label, re_Port = int (cp_port p), re_Public = False\<rparr>,
                                     cp_containerID p)) (declare_ports libs order c ps)))"

text \<open>The endpoints and, by id, the container of each; \<open>services\<close> is the order of the Compose services.\<close>

definition ConfiguredEndpoints ::
  "(string \<Rightarrow> string) \<Rightarrow> config_libs \<Rightarrow> string list \<Rightarrow> string list \<Rightarrow> State \<Rightarrow>
     endpoint_error + (RuntimeEndpoint list \<times> (string \<rightharpoonup> string))" where
  "ConfiguredEndpoints sha256 libs services order state =
     (case state_Validate services (Some state) of
        Some err \<Rightarrow> Inl (stateInvalid err)
      | None \<Rightarrow>
          (case forward_ports sha256 state (c_ForwardPorts (ds_Configuration state)) fmempty of
             Inl err \<Rightarrow> Inl err
           | Inr ports \<Rightarrow>
               (case app_ports state (c_AppPort (ds_Configuration state)) ports of
                  Inl err \<Rightarrow> Inl err
                | Inr ports \<Rightarrow>
                    (case declare_ports libs order (ds_Configuration state) (ordered_ports ports) of
                       Inl err \<Rightarrow> Inl err
                     | Inr declared \<Rightarrow>
                         if length declared > MaxDeclaredEndpointCount then Inl tooManyConfigured
                         else Inr (map fst declared, map_of (map (\<lambda>(e, c). (re_EndpointId e, c)) declared))))))"

section \<open>The attributes of a port\<close>

text \<open>
  The reference: among the ranges that contain the port, the first when they are sorted by their size
  and then by their key.
\<close>

definition narrowest_range :: "Configuration \<Rightarrow> nat \<Rightarrow> string option" where
  "narrowest_range c port =
     (case sort_key (\<lambda>key. (range_span key port, key))
             (filter (\<lambda>key. range_span key port \<noteq> 0) (sorted_list_of_fset (fmdom (c_PortsAttributes c)))) of
        [] \<Rightarrow> None
      | key # _ \<Rightarrow> Some key)"

definition port_attributes :: "config_libs \<Rightarrow> Configuration \<Rightarrow> nat \<Rightarrow> string \<Rightarrow> PortAttributes" where
  "port_attributes libs c port commandLine =
     (case fmlookup (c_PortsAttributes c) (itoa port) of
        Some attributes \<Rightarrow> attributes
      | None \<Rightarrow>
          (case narrowest_range c port of
             Some key \<Rightarrow> attributes_at c key
           | None \<Rightarrow>
               (case (if commandLine \<noteq> [] then process_match libs (sorted_list_of_fset (fmdom (c_PortsAttributes c))) commandLine else None) of
                  Some key \<Rightarrow> attributes_at c key
                | None \<Rightarrow> (case c_OtherPortsAttributes c of Some a \<Rightarrow> a | None \<Rightarrow> no_attributes))))"

definition best_range :: "nat \<Rightarrow> string set \<Rightarrow> string \<Rightarrow> bool" where
  "best_range port keys k \<longleftrightarrow>
     k \<in> keys \<and> range_span k port \<noteq> 0 \<and>
     (\<forall>x \<in> keys. range_span x port \<noteq> 0 \<longrightarrow> (range_span k port, k) \<le> (range_span x port, x))"

lemma best_range_unique: "best_range port keys k \<Longrightarrow> best_range port keys l \<Longrightarrow> k = l"
  unfolding best_range_def by (metis antisym prod.inject)

lemma best_range_insert:
  assumes "best_range port keys k"
  shows "best_range port (insert x keys)
    (if range_span x port \<noteq> 0 \<and> (range_span x port < range_span k port \<or> (range_span x port = range_span k port \<and> x < k)) then x else k)"
  using assms by (fastforce simp: best_range_def less_eq_prod_def)

lemma best_range_skip: "range_span x port = 0 \<Longrightarrow> best_range port (insert x keys) k \<longleftrightarrow> best_range port keys k"
  by (auto simp: best_range_def)

lemma narrowest_best:
  "(case narrowest port keys (k, range_span k port) of
      (k', s) \<Rightarrow> range_span k port \<noteq> 0 \<longrightarrow> best_range port seen k \<longrightarrow> best_range port (seen \<union> set keys) k' \<and> s = range_span k' port)"
proof (induction keys arbitrary: k seen)
  case Nil
  then show ?case by simp
next
  case (Cons x keys)
  let ?k = "if range_span x port \<noteq> 0 \<and> (range_span x port < range_span k port \<or> (range_span x port = range_span k port \<and> x < k)) then x else k"
  have step: "narrowest port (x # keys) (k, range_span k port) = narrowest port keys (?k, range_span ?k port)"
    if "range_span k port \<noteq> 0" using that by (auto simp: Let_def)
  show ?case
  proof (cases "range_span k port \<noteq> 0 \<and> best_range port seen k")
    case True
    then have "best_range port (insert x seen) ?k" "range_span ?k port \<noteq> 0" using best_range_insert [of port seen k x] by auto
    then show ?thesis using Cons.IH [of ?k "insert x seen"] step True by auto
  next
    case False
    then show ?thesis by (auto split: prod.splits)
  qed
qed

lemma narrowest_result:
  "(case narrowest port keys ([], 0) of
      (k, s) \<Rightarrow> if s = 0 then (\<forall>x \<in> set keys. range_span x port = 0) else best_range port (set keys) k)"
proof (induction keys)
  case Nil
  then show ?case by simp
next
  case (Cons x keys)
  show ?case
  proof (cases "range_span x port = 0")
    case True
    then show ?thesis using Cons.IH by (auto simp: best_range_skip split: prod.splits if_splits)
  next
    case False
    have "best_range port {x} x" using False by (simp add: best_range_def)
    then show ?thesis
      using narrowest_best [where port = port and keys = keys and k = x and seen = "{x}"] False
      by (auto simp: Let_def best_range_def split: prod.splits if_splits)
  qed
qed

lemma narrowest_range_result:
  "(case narrowest_range c port of
      None \<Rightarrow> (\<forall>x \<in> fset (fmdom (c_PortsAttributes c)). range_span x port = 0)
    | Some k \<Rightarrow> best_range port (fset (fmdom (c_PortsAttributes c))) k)"
proof -
  let ?f = "\<lambda>key. (range_span key port, key)"
  let ?xs = "filter (\<lambda>key. range_span key port \<noteq> 0) (sorted_list_of_fset (fmdom (c_PortsAttributes c)))"
  have s: "sorted (map ?f (sort_key ?f ?xs))" by simp
  have e: "set (sort_key ?f ?xs) = {x \<in> fset (fmdom (c_PortsAttributes c)). range_span x port \<noteq> 0}" by auto
  show ?thesis
  proof (cases "sort_key ?f ?xs")
    case Nil
    then show ?thesis using e by (auto simp: narrowest_range_def)
  next
    case (Cons k ks)
    then have "best_range port (fset (fmdom (c_PortsAttributes c))) k"
      using s e by (auto simp: best_range_def)
    then show ?thesis using Cons by (simp add: narrowest_range_def)
  qed
qed

lemma process_match_order: "set keys = set keys' \<Longrightarrow> distinct keys \<Longrightarrow> distinct keys' \<Longrightarrow> process_match libs keys line = process_match libs keys' line"
proof -
  assume "set keys = set keys'" "distinct keys" "distinct keys'"
  then have "sort keys = sort keys'" by (intro sorted_distinct_set_unique) simp_all
  then show ?thesis by (simp add: process_match_def)
qed

text \<open>The attributes of a port do not depend on the order in which Go visits the map of attributes: an
  exact port wins, then the narrowest range that contains it with the smallest key among equals, then
  the first matching process expression in the order of the keys, then the fallback.
\<close>

theorem port_attributes_deterministic:
  assumes "distinct order" and "set order = fset (fmdom (c_PortsAttributes c))"
  shows "PortAttributesForProcess libs order c port commandLine = port_attributes libs c port commandLine"
proof -
  let ?keys = "sorted_list_of_fset (fmdom (c_PortsAttributes c))"
  obtain k s where n: "narrowest port order ([], 0) = (k, s)" by fastforce
  have r: "if s = 0 then (\<forall>x \<in> set order. range_span x port = 0) else best_range port (set order) k"
    using narrowest_result [where port = port and keys = order] n by simp
  have "narrowest_range c port = (if s = 0 then None else Some k)"
    using narrowest_range_result [where c = c and port = port] r best_range_unique assms(2)
    by (auto simp: best_range_def split: option.splits if_splits)
  moreover have "process_match libs order commandLine = process_match libs ?keys commandLine"
    by (rule process_match_order) (use assms in \<open>simp_all add: sorted_list_of_fset.rep_eq\<close>)
  ultimately show ?thesis
    by (simp add: PortAttributesForProcess_def port_attributes_def n split: option.splits)
qed

section \<open>A valid state\<close>

lemma related_containers_Inr:
  "related_containers seen ids = Inr seen' \<Longrightarrow>
     seen' = rev (map TrimSpace ids) @ seen \<and> (distinct seen \<longrightarrow> distinct seen') \<and> [] \<notin> set (map TrimSpace ids)"
  by (induction seen ids rule: related_containers.induct) (auto simp: Let_def disjoint_iff split: if_splits)

text \<open>The services of the list that have a container.\<close>

definition placed :: "(string, string) fmap \<Rightarrow> string list \<Rightarrow> string set" where
  "placed containers services = {s \<in> set services. fmlookup containers s \<noteq> None}"

definition container_of :: "(string, string) fmap \<Rightarrow> string \<Rightarrow> string" where
  "container_of containers s = the (fmlookup containers s)"

lemma map_services_Inr:
  assumes "map_services seen containers services mapped = Inr mapped'" and "distinct services"
    and "\<forall>k v. fmlookup mapped k = Some v \<longrightarrow> v \<noteq> []"
  shows "fset (fmdom mapped') = fset (fmdom mapped) \<union> container_of containers ` placed containers services
    \<and> inj_on (container_of containers) (placed containers services)
    \<and> container_of containers ` placed containers services \<subseteq> set seen - fset (fmdom mapped)"
  using assms
proof (induction seen containers services mapped arbitrary: mapped' rule: map_services.induct)
  case (1 seen containers mapped)
  then show ?case by (simp add: placed_def)
next
  case (2 seen containers service services mapped)
  show ?case
  proof (cases "fmlookup containers service")
    case None
    then have "placed containers (service # services) = placed containers services" by (auto simp: placed_def)
    then show ?thesis using 2(1) [OF None] 2(4,5,6) None by simp
  next
    case (Some i)
    then have p: "placed containers (service # services) = insert service (placed containers services)"
      "container_of containers service = i" by (auto simp: placed_def container_of_def)
    have blank: "TrimSpace service \<noteq> []" "i \<in> set seen" using 2(4) Some by (auto split: if_splits)
    have fresh: "fmlookup mapped i = None" using 2(4,6) Some blank by (auto split: if_splits option.splits)
    have m: "map_services seen containers services (fmupd i service mapped) = Inr mapped'"
      using 2(4) Some blank fresh by simp
    have ne: "service \<noteq> []" using blank(1) by auto
    have ih: "fset (fmdom mapped') = fset (fmdom (fmupd i service mapped)) \<union> container_of containers ` placed containers services
      \<and> inj_on (container_of containers) (placed containers services)
      \<and> container_of containers ` placed containers services \<subseteq> set seen - fset (fmdom (fmupd i service mapped))"
      by (rule "2.IH"(2) [OF Some]) (use blank fresh m 2(5,6) ne in \<open>simp_all split: if_splits\<close>)
    moreover have "service \<notin> placed containers services" using 2(5) by (auto simp: placed_def)
    moreover have "i \<notin> fset (fmdom mapped)" using fresh by (simp add: fmlookup_dom_iff)
    ultimately show ?thesis using p blank(2) by auto
  qed
qed

lemma fmdom_card: "map_len m = int (card (fset (fmdom m)))"
  by (simp add: map_len_def fcard.rep_eq)

lemma state_Validate_None:
  assumes "state_Validate order (Some s) = None"
  shows "\<exists>seen. related_containers [ds_PrimaryContainerID s] (ds_RelatedContainerIDs s) = Inr seen \<and> validate_compose order s seen = None"
    and "TrimSpace (ds_PrimaryContainerID s) \<noteq> []" and "IsValidWorkspaceFolder (ds_WorkspaceFolder s)"
  using assms by (auto simp: state_Validate_def split: if_splits sum.splits)

text \<open>The containers of an environment.\<close>

definition state_containers :: "State \<Rightarrow> string set" where
  "state_containers s = insert (ds_PrimaryContainerID s) (TrimSpace ` set (ds_RelatedContainerIDs s))"

text \<open>C36: In a saved state that validates, the related containers are distinct from each other and from
  the primary one, and the Compose services correspond one to one to all of these containers, with the
  primary service on the primary container; without Compose there are no services. The verdict holds
  for every order in which the services are visited.
\<close>

theorem state_services_bijective:
  assumes "state_Validate order (Some s) = None" and "distinct order" and "set order = fset (fmdom (ds_ComposeContainers s))"
  shows "distinct (ds_PrimaryContainerID s # map TrimSpace (ds_RelatedContainerIDs s))
    \<and> (if ds_ComposeProject s = [] then ds_ComposeContainers s = fmempty
       else fmlookup (ds_ComposeContainers s) (ds_PrimaryService s) = Some (ds_PrimaryContainerID s)
         \<and> bij_betw (container_of (ds_ComposeContainers s)) (fset (fmdom (ds_ComposeContainers s))) (state_containers s))"
proof -
  obtain seen where r: "related_containers [ds_PrimaryContainerID s] (ds_RelatedContainerIDs s) = Inr seen"
    and v: "validate_compose order s seen = None" using state_Validate_None(1) [OF assms(1)] by blast
  have seen: "seen = rev (map TrimSpace (ds_RelatedContainerIDs s)) @ [ds_PrimaryContainerID s]" "distinct seen"
    using related_containers_Inr [OF r] by auto
  have set_seen: "set seen = state_containers s" using seen(1) by (auto simp: state_containers_def)
  have d: "distinct (ds_PrimaryContainerID s # map TrimSpace (ds_RelatedContainerIDs s))" using seen by auto
  show ?thesis
  proof (cases "ds_ComposeProject s = []")
    case True
    then show ?thesis using d v by (auto simp: validate_compose_def split: if_splits)
  next
    case False
    then obtain mapped where m: "map_services seen (ds_ComposeContainers s) order fmempty = Inr mapped"
      "map_len mapped = int (length seen)" "fmlookup (ds_ComposeContainers s) (ds_PrimaryService s) = Some (ds_PrimaryContainerID s)"
      using v by (auto simp: validate_compose_def split: if_splits sum.splits)
    have p: "placed (ds_ComposeContainers s) order = fset (fmdom (ds_ComposeContainers s))"
      unfolding placed_def assms(3) by (auto simp: fmlookup_dom_iff)
    let ?f = "container_of (ds_ComposeContainers s)"
    have f: "fset (fmdom mapped) = ?f ` fset (fmdom (ds_ComposeContainers s))"
      "inj_on ?f (fset (fmdom (ds_ComposeContainers s)))" "?f ` fset (fmdom (ds_ComposeContainers s)) \<subseteq> set seen"
      using map_services_Inr [OF m(1) assms(2)] p by auto
    have "card (fset (fmdom mapped)) = card (set seen)"
      using m(2) distinct_card [OF seen(2)] by (simp add: fmdom_card)
    then have "?f ` fset (fmdom (ds_ComposeContainers s)) = set seen"
      using card_subset_eq [OF finite_set f(3)] f(1) by simp
    then show ?thesis using False d m(3) f(2) set_seen by (simp add: bij_betw_def)
  qed
qed

section \<open>Examples\<close>

definition demo_ports :: Configuration where
  "demo_ports = (image_config ''alpine'' fmempty)\<lparr>c_PortsAttributes := fmap_of_list
     [(''1-9'', no_attributes\<lparr>pa_Label := ''wide''\<rparr>), (''3-5'', no_attributes\<lparr>pa_Label := ''narrow''\<rparr>)],
     c_ForwardPorts := [\<lparr>port_Number = 4, port_Address = [], port_Numeric = True\<rparr>]\<rparr>"

theorem port_attributes_deterministic_witness:
  "pa_Label (PortAttributesForProcess sample_config_libs [''1-9'', ''3-5''] demo_ports 4 []) = ''narrow''
    \<and> pa_Label (PortAttributesForProcess sample_config_libs [''3-5'', ''1-9''] demo_ports 4 []) = ''narrow''"
proof -
  have d: "fset (fmdom (c_PortsAttributes demo_ports)) = {''1-9'', ''3-5''}"
    by (simp add: demo_ports_def)
  have "pa_Label (PortAttributesForProcess sample_config_libs [''1-9'', ''3-5''] demo_ports 4 []) = ''narrow''"
  proof -
    have "TrimSpace ''1-9'' = ''1-9''" "TrimSpace ''3-5'' = ''3-5''" "TrimSpace ''1'' = ''1''" "TrimSpace ''9'' = ''9''"
      "TrimSpace ''3'' = ''3''" "TrimSpace ''5'' = ''5''" "itoa 4 = ''4''" by code_simp+
    moreover from this have "range_span ''1-9'' 4 = 9" "range_span ''3-5'' 4 = 3"
      by (simp_all add: range_span_def Cut_def index_first_def ParseUint16_def digit_char_def digits_value_def between_def byte_def)
    ultimately show ?thesis by (simp add: PortAttributesForProcess_def attributes_at_def demo_ports_def)
  qed
  moreover have "PortAttributesForProcess sample_config_libs [''3-5'', ''1-9''] demo_ports 4 []
      = PortAttributesForProcess sample_config_libs [''1-9'', ''3-5''] demo_ports 4 []"
    using port_attributes_deterministic [of "[''3-5'', ''1-9'']" demo_ports sample_config_libs 4 "[]"]
      port_attributes_deterministic [of "[''1-9'', ''3-5'']" demo_ports sample_config_libs 4 "[]"] d
    by (simp add: insert_commute)
  ultimately show ?thesis by simp
qed

definition demo_state :: State where
  "demo_state = \<lparr>ds_Version = 2, ds_ID = ''env'', ds_OwnerID = ''runtime'', ds_ConfigurationPath = ''/w/devcontainer.json'',
     ds_ConfigurationSHA256 = replicate 64 (CHR ''0''), ds_Workspace = ''/w'', ds_WorkspaceFolder = ''/w'',
     ds_ComposeProject = ''p'', ds_PrimaryService = ''app'',
     ds_ComposeContainers = fmap_of_list [(''app'', ''primary''), (''db'', ''second'')], ds_PrimaryContainerID = ''primary'',
     ds_RelatedContainerIDs = ['' second''], ds_Configuration = demo_ports, ds_RemoteUser = ''dev'', ds_RemoteWorkdir = ''/w'',
     ds_RemoteEnvironment = fmempty, ds_FeatureDigests = fmempty,
     ds_LifecycleCommands = \<lparr>lc_OnCreate = [], lc_UpdateContent = [], lc_PostCreate = [], lc_PostStart = [], lc_PostAttach = []\<rparr>\<rparr>"

theorem state_services_bijective_witness:
  "state_Validate [''db'', ''app''] (Some demo_state) = None
    \<and> bij_betw (container_of (ds_ComposeContainers demo_state)) (fset (fmdom (ds_ComposeContainers demo_state))) (state_containers demo_state)"
proof -
  have v: "state_Validate [''db'', ''app''] (Some demo_state) = None" by code_simp
  have "set [''db'', ''app''] = fset (fmdom (ds_ComposeContainers demo_state))" "ds_ComposeProject demo_state \<noteq> []"
    by (auto simp: demo_state_def)
  then show ?thesis using state_services_bijective [OF v] v by simp
qed

end
