(* ===== verification/Agent_Endpoints.thy ===== *)
theory Agent_Endpoints
  imports Port_Endpoints Journal "HOL-Library.Sublist"
begin

text \<open>
  The endpoints of a running Agent (\<open>internal/agent/endpoint.go\<close>) and the access targets it publishes
  (\<open>internal/agent/execution.go\<close>, the target part of the loop of \<open>control.go\<close>). Every function that
  holds the mutex is one step. The encoded size of the saved list and the faults of reading and
  writing it are arguments. The theorems show that the Manager accepts every target an Agent can
  publish, that no change of a published target goes unreported, and two flaws of the source.
\<close>

section \<open>State\<close>

datatype endpoint_file = EndpointsAbsent | EndpointsSaved "RuntimeEndpoint list" | EndpointsCorrupt

text \<open>\<open>ru_changed\<close> is the channel of capacity one, \<open>None\<close> while it is nil.\<close>

record AgentRuntime =
  ru_target :: "AccessTarget option"
  ru_endpoints :: "RuntimeEndpoint list"
  ru_loaded :: bool
  ru_changed :: "bool option"
  ru_webIDE :: bool
  ru_file :: endpoint_file

definition WorkspaceEndpointPort :: int where
  "WorkspaceEndpointPort = 13337"

definition endpointStateLimit :: nat where
  "endpointStateLimit = 64 * 1024"

section \<open>Operations\<close>

definition validateRuntimeEndpoint :: "RuntimeEndpoint option \<Rightarrow> endpoint_error option" where
  "validateRuntimeEndpoint endpoint =
     (case endpoint of
        None \<Rightarrow> Some endpointIdentityInvalid
      | Some e \<Rightarrow>
          if re_Port e = 0 \<or> re_Port e > 65535 \<or> \<not> IsPortEndpointID (re_EndpointId e) (nat (re_Port e)) then Some endpointIdentityInvalid
          else map_option endpointLabelInvalid (ValidateLabel (re_Label e)))"

definition sortRuntimeEndpoints :: "RuntimeEndpoint list \<Rightarrow> RuntimeEndpoint list" where
  "sortRuntimeEndpoints endpoints = sort_key (\<lambda>e. (re_Port e, re_EndpointId e)) endpoints"

definition first_invalid :: "RuntimeEndpoint list \<Rightarrow> endpoint_error option" where
  "first_invalid endpoints =
     (case List.map_filter (\<lambda>e. validateRuntimeEndpoint (Some e)) endpoints of [] \<Rightarrow> None | err # _ \<Rightarrow> Some err)"

definition loadEndpointsLocked :: "(RuntimeEndpoint list \<Rightarrow> nat) \<Rightarrow> bool \<Rightarrow> AgentRuntime \<Rightarrow> endpoint_error option \<times> AgentRuntime" where
  "loadEndpointsLocked encoded fails r =
     (if ru_loaded r then (None, r)
      else if fails then (Some endpointStateUnreadable, r)
      else case ru_file r of
        EndpointsAbsent \<Rightarrow> (None, r\<lparr>ru_loaded := True\<rparr>)
      | EndpointsCorrupt \<Rightarrow> (Some endpointStateInvalid, r)
      | EndpointsSaved saved \<Rightarrow>
          if encoded saved > endpointStateLimit then (Some endpointStateUnreadable, r)
          else if length saved > MaxDeclaredEndpointCount \<or> first_invalid saved \<noteq> None then (Some endpointStateInvalid, r)
          else (None, r\<lparr>ru_endpoints := sortRuntimeEndpoints saved, ru_loaded := True\<rparr>))"

definition persistEndpointsLocked :: "save_outcome \<Rightarrow> RuntimeEndpoint list \<Rightarrow> AgentRuntime \<Rightarrow> endpoint_error option \<times> AgentRuntime" where
  "persistEndpointsLocked out endpoints r =
     (case out of
        SaveOk \<Rightarrow> (None, r\<lparr>ru_file := EndpointsSaved endpoints, ru_endpoints := endpoints, ru_loaded := True\<rparr>)
      | SaveFailedBefore \<Rightarrow> (Some endpointStateUnwritable, r)
      | SaveFailedAfter \<Rightarrow> (Some endpointStateUnwritable, r\<lparr>ru_file := EndpointsSaved endpoints\<rparr>))"

definition endpoint_target :: "string \<Rightarrow> (string \<rightharpoonup> string) \<Rightarrow> RuntimeEndpoint \<Rightarrow> EndpointTarget option" where
  "endpoint_target primary containers e =
     (let containerID = (case containers (re_EndpointId e) of None \<Rightarrow> [] | Some c \<Rightarrow> c)
      in Some \<lparr>et_Endpoint = Some e, et_ContainerId = (if containerID = [] then primary else containerID), et_Port = re_Port e\<rparr>)"

definition workspace_target :: "string \<Rightarrow> EndpointTarget option" where
  "workspace_target primary =
     Some \<lparr>et_Endpoint = Some \<lparr>re_EndpointId = WorkspaceEndpointID, re_Label = WorkspaceEndpointLabel, re_Port = 0, re_Public = False\<rparr>,
           et_ContainerId = primary, et_Port = WorkspaceEndpointPort\<rparr>"

definition accessTargetForContainer ::
  "int \<Rightarrow> string \<Rightarrow> string \<Rightarrow> bool \<Rightarrow> RuntimeEndpoint list \<Rightarrow> (string \<rightharpoonup> string) \<Rightarrow> AccessTarget" where
  "accessTargetForContainer version primary workspaceFolder webIDE endpoints containers =
     \<lparr>at_Version = version, at_Ready = True, at_PrimaryContainerId = primary, at_WorkspaceFolder = workspaceFolder,
      at_Endpoints = (if webIDE then [workspace_target primary] else []) @ map (endpoint_target primary containers) endpoints\<rparr>"

text \<open>The containers by endpoint id of a target, the last entry of an id winning.\<close>

definition target_containers :: "AccessTarget \<Rightarrow> (string \<rightharpoonup> string)" where
  "target_containers t =
     map_of (rev (List.map_filter (\<lambda>e. case e of None \<Rightarrow> None | Some e \<Rightarrow>
        map_option (\<lambda>ep. (re_EndpointId ep, et_ContainerId e)) (et_Endpoint e)) (at_Endpoints t)))"

text \<open>The error, or whether the target changed, with the runtime afterwards.\<close>

definition updateTargetEndpointsLocked :: "AgentRuntime \<Rightarrow> (endpoint_error + bool) \<times> AgentRuntime" where
  "updateTargetEndpointsLocked r =
     (case ru_target r of
        None \<Rightarrow> (Inr False, r)
      | Some t \<Rightarrow>
          if \<not> at_Ready t \<or> at_PrimaryContainerId t = [] then (Inr False, r)
          else if at_Version t = max_int64 then (Inl targetVersionExhausted, r)
          else (Inr True, r\<lparr>ru_target := Some (accessTargetForContainer (at_Version t + 1) (at_PrimaryContainerId t)
                  (at_WorkspaceFolder t) (ru_webIDE r) (ru_endpoints r) (target_containers t))\<rparr>))"

text \<open>Saving a new list and updating the target: the result and whether to notify.\<close>

definition change_endpoints ::
  "save_outcome \<Rightarrow> RuntimeEndpoint list \<Rightarrow> AgentRuntime \<Rightarrow> (endpoint_error + RuntimeEndpoint list) \<times> bool \<times> AgentRuntime" where
  "change_endpoints out updated r =
     (case persistEndpointsLocked out updated r of
        (Some err, r) \<Rightarrow> (Inl err, False, r)
      | (None, r) \<Rightarrow>
          (case updateTargetEndpointsLocked r of
             (Inl err, r) \<Rightarrow> (Inl err, False, r)
           | (Inr changed, r) \<Rightarrow> (Inr (ru_endpoints r), changed, r)))"

definition listEndpoints ::
  "(RuntimeEndpoint list \<Rightarrow> nat) \<Rightarrow> bool \<Rightarrow> AgentRuntime \<Rightarrow> (endpoint_error + RuntimeEndpoint list) \<times> AgentRuntime" where
  "listEndpoints encoded fails r =
     (case loadEndpointsLocked encoded fails r of
        (Some err, r) \<Rightarrow> (Inl err, r)
      | (None, r) \<Rightarrow> (Inr (ru_endpoints r), r))"

definition setEndpoint ::
  "(RuntimeEndpoint list \<Rightarrow> nat) \<Rightarrow> bool \<Rightarrow> save_outcome \<Rightarrow> RuntimeEndpoint option \<Rightarrow> AgentRuntime \<Rightarrow>
     (endpoint_error + RuntimeEndpoint list) \<times> bool \<times> AgentRuntime" where
  "setEndpoint encoded fails out endpoint r =
     (case (validateRuntimeEndpoint endpoint, endpoint) of
        (None, Some e) \<Rightarrow>
          (case loadEndpointsLocked encoded fails r of
             (Some err, r) \<Rightarrow> (Inl err, False, r)
           | (None, r) \<Rightarrow>
               (let updated = sortRuntimeEndpoints (filter (\<lambda>item. re_EndpointId item \<noteq> re_EndpointId e) (ru_endpoints r) @ [e])
                in if length updated > MaxDeclaredEndpointCount then (Inl endpointCountExceeded, False, r)
                   else change_endpoints out updated r))
      | (err, _) \<Rightarrow> (Inl (case err of None \<Rightarrow> endpointIdentityInvalid | Some err \<Rightarrow> err), False, r))"

definition deleteEndpoint ::
  "(RuntimeEndpoint list \<Rightarrow> nat) \<Rightarrow> bool \<Rightarrow> save_outcome \<Rightarrow> string \<Rightarrow> AgentRuntime \<Rightarrow>
     (endpoint_error + RuntimeEndpoint list) \<times> bool \<times> AgentRuntime" where
  "deleteEndpoint encoded fails out raw r =
     (let endpointID = TrimSpace raw
      in if endpointID = [] \<or> endpointID = WorkspaceEndpointID then (Inl endpointIdentityInvalid, False, r)
         else case loadEndpointsLocked encoded fails r of
           (Some err, r) \<Rightarrow> (Inl err, False, r)
         | (None, r) \<Rightarrow>
             (let updated = filter (\<lambda>item. re_EndpointId item \<noteq> endpointID) (ru_endpoints r)
              in if length updated = length (ru_endpoints r) then (Inr (ru_endpoints r), False, r)
                 else change_endpoints out updated r))"

definition replaceConfiguredEndpoints :: "save_outcome \<Rightarrow> RuntimeEndpoint list \<Rightarrow> AgentRuntime \<Rightarrow> endpoint_error option \<times> AgentRuntime" where
  "replaceConfiguredEndpoints out endpoints r =
     (case first_invalid endpoints of
        Some err \<Rightarrow> (Some err, r)
      | None \<Rightarrow>
          if length endpoints > MaxDeclaredEndpointCount then (Some endpointCountExceeded, r)
          else persistEndpointsLocked out (sortRuntimeEndpoints endpoints) r)"

definition accessTarget ::
  "(string \<Rightarrow> string) \<Rightarrow> config_libs \<Rightarrow> string list \<Rightarrow> string list \<Rightarrow> (RuntimeEndpoint list \<Rightarrow> nat) \<Rightarrow> bool \<Rightarrow> int \<Rightarrow> State \<Rightarrow> AgentRuntime \<Rightarrow>
     (endpoint_error + AccessTarget) \<times> AgentRuntime" where
  "accessTarget sha256 libs services order encoded fails version state r =
     (case state_Validate services (Some state) of
        Some err \<Rightarrow> (Inl (stateInvalid err), r)
      | None \<Rightarrow>
          (case loadEndpointsLocked encoded fails r of
             (Some err, r) \<Rightarrow> (Inl err, r)
           | (None, r) \<Rightarrow>
               (case ConfiguredEndpoints sha256 libs services order state of
                  Inl err \<Rightarrow> (Inl err, r)
                | Inr (_, containers) \<Rightarrow>
                    (Inr (accessTargetForContainer version (ds_PrimaryContainerID state) (ds_WorkspaceFolder state) (ru_webIDE r)
                       (ru_endpoints r) containers), r))))"

definition setAccessState :: "AccessTarget \<Rightarrow> AgentRuntime \<Rightarrow> AgentRuntime" where
  "setAccessState target r = r\<lparr>ru_target := Some target\<rparr>"

definition TargetChanges :: "AgentRuntime \<Rightarrow> AgentRuntime" where
  "TargetChanges r = (if ru_changed r = None then r\<lparr>ru_changed := Some False\<rparr> else r)"

definition notifyTargetChanged :: "AgentRuntime \<Rightarrow> AgentRuntime" where
  "notifyTargetChanged r = (if ru_changed r = None then r else r\<lparr>ru_changed := Some True\<rparr>)"

text \<open>The calls of the endpoint service.\<close>

definition endpoint_List ::
  "(RuntimeEndpoint list \<Rightarrow> nat) \<Rightarrow> bool \<Rightarrow> int \<Rightarrow> AgentRuntime \<Rightarrow> (endpoint_error + RuntimeEndpoint list) \<times> AgentRuntime" where
  "endpoint_List encoded fails protocol r = (if protocol \<noteq> 1 then (Inl endpointRequestInvalid, r) else listEndpoints encoded fails r)"

definition endpoint_Set ::
  "(RuntimeEndpoint list \<Rightarrow> nat) \<Rightarrow> bool \<Rightarrow> save_outcome \<Rightarrow> int \<Rightarrow> RuntimeEndpoint option \<Rightarrow> AgentRuntime \<Rightarrow>
     endpoint_error option \<times> bool \<times> AgentRuntime" where
  "endpoint_Set encoded fails out protocol endpoint r =
     (if protocol \<noteq> 1 \<or> endpoint = None then (Some endpointRequestInvalid, False, r)
      else case setEndpoint encoded fails out endpoint r of
        (Inl err, notify, r) \<Rightarrow> (Some err, notify, r)
      | (Inr _, notify, r) \<Rightarrow> (None, notify, r))"

definition endpoint_Delete ::
  "(RuntimeEndpoint list \<Rightarrow> nat) \<Rightarrow> bool \<Rightarrow> save_outcome \<Rightarrow> int \<Rightarrow> string \<Rightarrow> AgentRuntime \<Rightarrow> endpoint_error option \<times> bool \<times> AgentRuntime" where
  "endpoint_Delete encoded fails out protocol endpointID r =
     (if protocol \<noteq> 1 then (Some endpointRequestInvalid, False, r)
      else case deleteEndpoint encoded fails out endpointID r of
        (Inl err, notify, r) \<Rightarrow> (Some err, notify, r)
      | (Inr _, notify, r) \<Rightarrow> (None, notify, r))"

section \<open>The Agent as a machine\<close>

text \<open>
  The runtime, the target that a create or resume has built and not published (\<open>built\<close>), the calls
  between releasing the mutex and notifying (\<open>notifying\<close>), the target of the report of the control
  client and the one of \<open>state/report.pb\<close>.
\<close>

record agent =
  ag_runtime :: AgentRuntime
  ag_built :: "AccessTarget option"
  ag_notifying :: nat
  ag_report :: "AccessTarget option"
  ag_saved :: "AccessTarget option"

record agent_libs =
  al_sha256 :: "string \<Rightarrow> string"
  al_config :: config_libs
  al_encoded :: "RuntimeEndpoint list \<Rightarrow> nat"

datatype agent_event =
    CallList bool int
  | CallSet bool save_outcome int "RuntimeEndpoint option"
  | CallDelete bool save_outcome int string
  | ConfigureEndpoints save_outcome "string list" "string list" State
  | BuildTarget "string list" "string list" bool int State
  | ReportBuilt
  | PublishBuilt
  | NotifyTarget
  | ConsumeTarget
  | NewOperation
  | OperationCanceled
  | RecordReport save_outcome
  | AgentRestart

definition agent_start :: "bool \<Rightarrow> endpoint_file \<Rightarrow> AccessTarget option \<Rightarrow> agent" where
  "agent_start webIDE file report =
     \<lparr>ag_runtime = TargetChanges \<lparr>ru_target = None, ru_endpoints = [], ru_loaded = False, ru_changed = None, ru_webIDE = webIDE, ru_file = file\<rparr>,
      ag_built = None, ag_notifying = 0, ag_report = report, ag_saved = report\<rparr>"

text \<open>The arm of the control loop that reads the channel (\<open>control.go:338\<close>).\<close>

definition consume_target :: "agent \<Rightarrow> agent" where
  "consume_target a =
     (if ru_changed (ag_runtime a) \<noteq> Some True then a
      else
        (let a = a\<lparr>ag_runtime := (ag_runtime a)\<lparr>ru_changed := Some False\<rparr>\<rparr>
         in case (ru_target (ag_runtime a), ag_report a) of
              (Some current, Some reported) \<Rightarrow> if at_Version current > at_Version reported then a\<lparr>ag_report := Some current\<rparr> else a
            | _ \<Rightarrow> a))"

text \<open>A canceled operation takes the published target back when it returns (the deferred function of
  \<open>Execute\<close>), whether or not it had finished.\<close>

text \<open>The runtime after a call, with one more call about to notify when the target changed.\<close>

definition called :: "bool \<Rightarrow> AgentRuntime \<Rightarrow> agent \<Rightarrow> agent" where
  "called changed r a = a\<lparr>ag_runtime := r, ag_notifying := ag_notifying a + (if changed then 1 else 0)\<rparr>"

fun agent_step :: "agent_libs \<Rightarrow> agent_event \<Rightarrow> agent \<Rightarrow> agent" where
  "agent_step l (CallList fails protocol) a = called False (snd (endpoint_List (al_encoded l) fails protocol (ag_runtime a))) a"
| "agent_step l (CallSet fails out protocol e) a =
     (case endpoint_Set (al_encoded l) fails out protocol e (ag_runtime a) of (_, changed, r) \<Rightarrow> called changed r a)"
| "agent_step l (CallDelete fails out protocol i) a =
     (case endpoint_Delete (al_encoded l) fails out protocol i (ag_runtime a) of (_, changed, r) \<Rightarrow> called changed r a)"
| "agent_step l (ConfigureEndpoints out services order state) a =
     (case ConfiguredEndpoints (al_sha256 l) (al_config l) services order state of
        Inl _ \<Rightarrow> a
      | Inr (endpoints, _) \<Rightarrow> a\<lparr>ag_runtime := snd (replaceConfiguredEndpoints out endpoints (ag_runtime a))\<rparr>)"
| "agent_step l (BuildTarget services order fails version state) a =
     (if version \<le> 0 then a
      else case accessTarget (al_sha256 l) (al_config l) services order (al_encoded l) fails version state (ag_runtime a) of
        (Inl _, r) \<Rightarrow> a\<lparr>ag_runtime := r\<rparr>
      | (Inr target, r) \<Rightarrow> a\<lparr>ag_runtime := r, ag_built := Some target\<rparr>)"
| "agent_step l ReportBuilt a = (case ag_built a of None \<Rightarrow> a | Some target \<Rightarrow> a\<lparr>ag_report := Some target\<rparr>)"
| "agent_step l PublishBuilt a =
     (case ag_built a of None \<Rightarrow> a | Some target \<Rightarrow> a\<lparr>ag_runtime := setAccessState target (ag_runtime a)\<rparr>)"
| "agent_step l NotifyTarget a =
     (if ag_notifying a = 0 then a
      else a\<lparr>ag_notifying := ag_notifying a - 1, ag_runtime := notifyTargetChanged (ag_runtime a)\<rparr>)"
| "agent_step l ConsumeTarget a = consume_target a"
| "agent_step l NewOperation a = a\<lparr>ag_report := None, ag_built := None\<rparr>"
| "agent_step l OperationCanceled a = a\<lparr>ag_runtime := (ag_runtime a)\<lparr>ru_target := None\<rparr>, ag_built := None\<rparr>"
| "agent_step l (RecordReport out) a = (if out = SaveFailedBefore then a else a\<lparr>ag_saved := ag_report a\<rparr>)"
| "agent_step l AgentRestart a = agent_start (ru_webIDE (ag_runtime a)) (ru_file (ag_runtime a)) (ag_saved a)"

section \<open>What the Manager accepts\<close>

definition endpoint_ok :: "RuntimeEndpoint \<Rightarrow> bool" where
  "endpoint_ok e \<longleftrightarrow> validateRuntimeEndpoint (Some e) = None"

definition good_endpoints :: "RuntimeEndpoint list \<Rightarrow> bool" where
  "good_endpoints es \<longleftrightarrow> list_all endpoint_ok es \<and> distinct (map re_EndpointId es) \<and> length es \<le> MaxDeclaredEndpointCount"

definition good_target :: "AccessTarget \<Rightarrow> bool" where
  "good_target t \<longleftrightarrow> at_Version t > 0 \<and> at_Ready t \<and> at_PrimaryContainerId t \<noteq> [] \<and> IsValidWorkspaceFolder (at_WorkspaceFolder t)
     \<and> length (at_Endpoints t) \<le> MaxEndpointCount \<and> (\<exists>es. apply_endpoints (at_PrimaryContainerId t) [] (at_Endpoints t) = Inr es)"

definition good_agent :: "agent \<Rightarrow> bool" where
  "good_agent a \<longleftrightarrow> good_endpoints (ru_endpoints (ag_runtime a))
     \<and> (case ru_file (ag_runtime a) of EndpointsSaved es \<Rightarrow> good_endpoints es | _ \<Rightarrow> True)
     \<and> (\<forall>t. Some t \<in> {ru_target (ag_runtime a), ag_built a, ag_report a, ag_saved a} \<longrightarrow> good_target t)"

lemma IsPortEndpointID_pattern:
  assumes "IsPortEndpointID i port" and "port \<le> 65535"
  shows "endpointIDPattern i \<and> i \<noteq> WorkspaceEndpointID"
proof (cases "i = PortEndpointID port")
  case True
  have "endpointIDPattern (PortEndpointID port)"
    using endpoint_id_port [of "\<lambda>_. replicate 32 CHR ''0''" "''''" port] assms(2) by simp
  with True show ?thesis by (simp add: PortEndpointID_def WorkspaceEndpointID_def)
next
  case False
  define prefix where "prefix = PortEndpointID port @ ''-''"
  define hex where "hex = drop (length prefix) i"
  have "take (length prefix) i = prefix" and hex: "length hex = 16" "list_all is_hex hex"
    using assms(1) False by (auto simp: IsPortEndpointID_def Let_def prefix_def hex_def split: if_splits)
  then have i: "i = prefix @ hex" unfolding hex_def by (metis append_take_drop_id)
  have la: "is_hex c \<Longrightarrow> lower_alnum c" for c by (auto simp: is_hex_def lower_alnum_def between_def byte_def)
  have hexla: "\<forall>c \<in> set hex. lower_alnum c" using hex(2) la by (auto simp: list_all_iff)
  have ne: "hex \<noteq> []" using hex(1) by auto
  have len: "length (itoa port) \<le> 5" using itoa_length [of port 5] assms(2) by simp
  have p: "lower_alnum (CHR ''p'')" "list_all (\<lambda>c. lower_alnum c \<or> c = CHR ''-'') ''ort-''" by code_simp+
  have num: "list_all (\<lambda>c. lower_alnum c \<or> c = CHR ''-'') (itoa port)"
    using itoa_chars [of _ port] by (auto simp: list_all_iff)
  have "list_all (\<lambda>c. lower_alnum c \<or> c = CHR ''-'') (butlast hex)" "lower_alnum (last hex)"
    using hexla last_in_set [OF ne] by (auto simp: list_all_iff dest!: in_set_butlastD)
  then have "endpointIDPattern i"
    using len hex(1) p num ne
    by (simp add: endpointIDPattern_def i prefix_def PortEndpointID_def butlast_append list_all_append)
  then show ?thesis by (simp add: i prefix_def PortEndpointID_def WorkspaceEndpointID_def)
qed

lemma endpoint_okD:
  assumes "endpoint_ok e"
  shows "re_Port e \<noteq> 0" "re_Port e \<le> 65535" "endpointIDPattern (re_EndpointId e)" "re_EndpointId e \<noteq> WorkspaceEndpointID"
    "ValidateLabel (re_Label e) = None"
proof -
  have *: "re_Port e \<noteq> 0 \<and> re_Port e \<le> 65535 \<and> IsPortEndpointID (re_EndpointId e) (nat (re_Port e)) \<and> ValidateLabel (re_Label e) = None"
    using assms by (auto simp: endpoint_ok_def validateRuntimeEndpoint_def split: if_splits)
  then have "nat (re_Port e) \<le> 65535" by linarith
  from * IsPortEndpointID_pattern [OF _ this] show "re_Port e \<noteq> 0" "re_Port e \<le> 65535" "endpointIDPattern (re_EndpointId e)"
    "re_EndpointId e \<noteq> WorkspaceEndpointID" "ValidateLabel (re_Label e) = None" by blast+
qed

lemma apply_endpoints_ok:
  assumes "primary \<noteq> []" "list_all endpoint_ok es" "distinct (map re_EndpointId es)" "set (map re_EndpointId es) \<inter> set seen = {}"
  shows "\<exists>rs. apply_endpoints primary seen (map (endpoint_target primary containers) es) = Inr rs"
  using assms(2-)
proof (induction es arbitrary: seen)
  case (Cons e es)
  have ok: "endpoint_ok e" and fresh: "re_EndpointId e \<notin> set seen" using Cons.prems by auto
  obtain rs where rs: "apply_endpoints primary (re_EndpointId e # seen) (map (endpoint_target primary containers) es) = Inr rs"
    using Cons.IH [of "re_EndpointId e # seen"] Cons.prems by auto
  obtain c where "endpoint_target primary containers e = Some \<lparr>et_Endpoint = Some e, et_ContainerId = c, et_Port = re_Port e\<rparr>" "c \<noteq> []"
    using assms(1) by (simp add: endpoint_target_def Let_def split: option.splits)
  with rs endpoint_okD [OF ok] fresh show ?case by simp
qed simp

lemma good_target_access:
  assumes "good_endpoints es" "primary \<noteq> []" "version > 0" "IsValidWorkspaceFolder folder"
  shows "good_target (accessTargetForContainer version primary folder webIDE es containers)"
proof -
  have es: "list_all endpoint_ok es" "distinct (map re_EndpointId es)" "length es \<le> 63"
    using assms(1) by (auto simp: good_endpoints_def MaxDeclaredEndpointCount_def MaxEndpointCount_def)
  have w: "endpointIDPattern WorkspaceEndpointID" "ValidateLabel WorkspaceEndpointLabel = None" by code_simp+
  have "set (map re_EndpointId es) \<inter> set [WorkspaceEndpointID] = {}"
    using endpoint_okD(4) [THEN not_sym] es(1) by (auto simp: list_all_iff)
  then obtain rs where rs: "apply_endpoints primary [WorkspaceEndpointID] (map (endpoint_target primary containers) es) = Inr rs"
    using apply_endpoints_ok [OF assms(2) es(1,2)] by blast
  obtain rs' where rs': "apply_endpoints primary [] (map (endpoint_target primary containers) es) = Inr rs'"
    using apply_endpoints_ok [OF assms(2) es(1,2), of "[]"] by auto
  show ?thesis using rs rs' w assms(2-) es(3)
    by (cases webIDE) (simp_all add: good_target_def accessTargetForContainer_def workspace_target_def WorkspaceEndpointPort_def MaxEndpointCount_def)
qed

section \<open>Every operation keeps the endpoints good\<close>

lemma first_invalid_None: "first_invalid es = None \<longleftrightarrow> list_all endpoint_ok es"
  by (induction es) (auto simp: first_invalid_def map_filter_simps endpoint_ok_def split: option.splits list.splits)

lemma good_sort: "good_endpoints (sortRuntimeEndpoints es) = good_endpoints es"
proof -
  have "mset (map re_EndpointId (sort_key (\<lambda>e. (re_Port e, re_EndpointId e)) es)) = mset (map re_EndpointId es)" by simp
  then have "distinct (map re_EndpointId (sort_key (\<lambda>e. (re_Port e, re_EndpointId e)) es)) = distinct (map re_EndpointId es)"
    using mset_eq_imp_distinct_iff by blast
  then show ?thesis by (simp add: good_endpoints_def sortRuntimeEndpoints_def list_all_iff)
qed

lemma good_filter: "good_endpoints es \<Longrightarrow> good_endpoints (filter P es)"
  using length_filter_le [of P es] by (auto simp: good_endpoints_def list_all_iff distinct_map inj_on_def simp del: length_filter_le)

lemma good_replaced:
  assumes "good_endpoints es" "endpoint_ok e"
    "length (sortRuntimeEndpoints (filter (\<lambda>item. re_EndpointId item \<noteq> re_EndpointId e) es @ [e])) \<le> MaxDeclaredEndpointCount"
  shows "good_endpoints (sortRuntimeEndpoints (filter (\<lambda>item. re_EndpointId item \<noteq> re_EndpointId e) es @ [e]))"
  using good_filter [OF assms(1), of "\<lambda>item. re_EndpointId item \<noteq> re_EndpointId e"] assms(2,3)
  unfolding good_sort by (auto simp: good_endpoints_def sortRuntimeEndpoints_def)

text \<open>A list that is in use or saved is good, and so is the published target.\<close>

definition good_runtime :: "AgentRuntime \<Rightarrow> bool" where
  "good_runtime r \<longleftrightarrow> good_endpoints (ru_endpoints r) \<and> (case ru_file r of EndpointsSaved es \<Rightarrow> good_endpoints es | _ \<Rightarrow> True)
     \<and> (\<forall>t. ru_target r = Some t \<longrightarrow> good_target t)"

lemma good_load: "good_runtime r \<Longrightarrow> good_runtime (snd (loadEndpointsLocked encoded fails r))"
  by (auto simp: loadEndpointsLocked_def good_runtime_def good_sort split: endpoint_file.splits)

lemma good_persist: "good_runtime r \<Longrightarrow> good_endpoints es \<Longrightarrow> good_runtime (snd (persistEndpointsLocked out es r))"
  by (auto simp: persistEndpointsLocked_def good_runtime_def split: save_outcome.splits)

lemma good_targetD: "good_target t \<Longrightarrow> 0 \<le> at_Version t" "good_target t \<Longrightarrow> IsValidWorkspaceFolder (at_WorkspaceFolder t)"
  by (simp_all add: good_target_def)

lemma good_update: "good_runtime r \<Longrightarrow> good_runtime (snd (updateTargetEndpointsLocked r))"
  by (auto simp: updateTargetEndpointsLocked_def good_runtime_def add_pos_pos
      intro!: good_target_access dest: good_targetD split: option.splits)

lemma good_change: "good_runtime r \<Longrightarrow> good_endpoints es \<Longrightarrow> good_runtime (snd (snd (change_endpoints out es r)))"
  using good_persist [of r es out] good_update [of "snd (persistEndpointsLocked out es r)"]
  by (auto simp: change_endpoints_def split: prod.splits option.splits sum.splits)

lemma good_set:
  assumes "good_runtime r"
  shows "good_runtime (snd (snd (setEndpoint encoded fails out e r)))"
proof -
  obtain err r' where l: "loadEndpointsLocked encoded fails r = (err, r')" by fastforce
  then have r': "good_runtime r'" "good_endpoints (ru_endpoints r')"
    using good_load [OF assms, of encoded fails] by (simp_all add: good_runtime_def)
  show ?thesis
  proof (cases "validateRuntimeEndpoint e")
    case None
    then obtain v where v: "e = Some v" "endpoint_ok v"
      by (cases e) (auto simp: validateRuntimeEndpoint_def [of None] endpoint_ok_def)
    with l r' None good_change [OF r'(1) good_replaced [OF r'(2) v(2)]] show ?thesis
      by (cases err) (simp_all add: setEndpoint_def Let_def)
  qed (use assms in \<open>simp add: setEndpoint_def\<close>)
qed

lemma good_delete:
  assumes "good_runtime r"
  shows "good_runtime (snd (snd (deleteEndpoint encoded fails out i r)))"
proof -
  obtain err r' where l: "loadEndpointsLocked encoded fails r = (err, r')" by fastforce
  then have r': "good_runtime r'" "good_endpoints (ru_endpoints r')"
    using good_load [OF assms, of encoded fails] by (simp_all add: good_runtime_def)
  with l assms good_change [OF r'(1) good_filter [OF r'(2)]] show ?thesis
    by (cases err) (simp_all add: deleteEndpoint_def Let_def)
qed

lemma declare_ports_ids:
  "declare_ports libs order c ps = Inr ds \<Longrightarrow> subseq (map (re_EndpointId \<circ> fst) ds) (map cp_endpointID ps)"
proof (induction ps arbitrary: ds)
  case (Cons p ps)
  then show ?case
    by (cases "declare_ports libs order c ps") (auto simp: Let_def split: if_splits option.splits)
qed simp

definition keyed :: "(string, configuredPort) fmap \<Rightarrow> bool" where
  "keyed ports \<longleftrightarrow> (\<forall>k p. fmlookup ports k = Some p \<longrightarrow> cp_endpointID p = k)"

lemma keyed_simps [simp]: "keyed fmempty" "cp_endpointID p = k \<Longrightarrow> keyed ports \<Longrightarrow> keyed (fmupd k p ports)"
  by (simp_all add: keyed_def)

lemma forward_ports_keyed: "forward_ports sha256 state ps ports = Inr ports' \<Longrightarrow> keyed ports \<Longrightarrow> keyed ports'"
proof (induction ps arbitrary: ports)
  case (Cons p ps)
  then show ?case by (auto simp: Let_def split: sum.splits prod.splits if_split_asm)
qed simp

lemma app_ports_keyed: "app_ports state ps ports = Inr ports' \<Longrightarrow> keyed ports \<Longrightarrow> keyed ports'"
proof (induction ps arbitrary: ports)
  case (Cons p ps)
  then show ?case by (auto split: option.splits if_split_asm)
qed simp

lemma ordered_ports_distinct:
  assumes "keyed ports"
  shows "distinct (map cp_endpointID (ordered_ports ports))"
proof -
  let ?l = "map (\<lambda>k. the (fmlookup ports k)) (sorted_list_of_fset (fmdom ports))"
  have "cp_endpointID (the (fmlookup ports k)) = k" if "k \<in> set (sorted_list_of_fset (fmdom ports))" for k
    using that assms by (auto simp: keyed_def fmlookup_dom_iff)
  then have "map cp_endpointID ?l = sorted_list_of_fset (fmdom ports)" unfolding map_map by (intro map_idI) simp
  then have "distinct (map cp_endpointID ?l)" by (simp add: sorted_list_of_fset.rep_eq)
  moreover have "mset (map cp_endpointID (ordered_ports ports)) = mset (map cp_endpointID ?l)"
    by (simp add: ordered_ports_def del: map_map)
  ultimately show ?thesis using mset_eq_imp_distinct_iff by blast
qed

lemma configured_distinct:
  assumes "ConfiguredEndpoints sha256 libs services order state = Inr (es, containers)"
  shows "distinct (map re_EndpointId es)"
proof -
  from assms obtain p1 p2 ds where p: "forward_ports sha256 state (c_ForwardPorts (ds_Configuration state)) fmempty = Inr p1"
    "app_ports state (c_AppPort (ds_Configuration state)) p1 = Inr p2"
    and ds: "declare_ports libs order (ds_Configuration state) (ordered_ports p2) = Inr ds" "es = map fst ds"
    by (auto simp: ConfiguredEndpoints_def split: option.splits sum.splits if_splits)
  have "keyed p2" using app_ports_keyed [OF p(2)] forward_ports_keyed [OF p(1)] by simp
  then have "distinct (map (re_EndpointId \<circ> fst) ds)"
    using declare_ports_ids [OF ds(1)] ordered_ports_distinct subseq_conv_nths distinct_nthsI by metis
  then show ?thesis by (simp add: ds(2))
qed

lemma good_replace:
  assumes "good_runtime r" "ConfiguredEndpoints sha256 libs services order state = Inr (es, containers)"
  shows "good_runtime (snd (replaceConfiguredEndpoints out es r))"
proof (cases "first_invalid es = None \<and> length es \<le> MaxDeclaredEndpointCount")
  case True
  then have "good_endpoints (sortRuntimeEndpoints es)"
    unfolding good_sort using configured_distinct [OF assms(2)] by (simp add: good_endpoints_def first_invalid_None)
  from good_persist [OF assms(1) this] True show ?thesis by (simp add: replaceConfiguredEndpoints_def)
qed (use assms(1) in \<open>auto simp: replaceConfiguredEndpoints_def split: option.splits\<close>)

lemma state_Validate_paths:
  "state_Validate services (Some state) = None \<Longrightarrow> ds_PrimaryContainerID state \<noteq> [] \<and> IsValidWorkspaceFolder (ds_WorkspaceFolder state)"
  by (auto simp: state_Validate_def split: if_splits)

lemma good_access:
  assumes "good_runtime r" "version > 0" "accessTarget sha256 libs services order encoded fails version state r = (res, r')"
  shows "good_runtime r' \<and> (\<forall>t. res = Inr t \<longrightarrow> good_target t)"
proof -
  obtain err r1 where l: "loadEndpointsLocked encoded fails r = (err, r1)" by fastforce
  then have r1: "good_runtime r1" "good_endpoints (ru_endpoints r1)"
    using good_load [OF assms(1), of encoded fails] by (simp_all add: good_runtime_def)
  show ?thesis using assms l r1 state_Validate_paths [of services state]
    by (auto simp: accessTarget_def intro!: good_target_access split: option.splits sum.splits)
qed

lemma good_agent_runtime:
  "good_agent a \<longleftrightarrow> good_runtime (ag_runtime a) \<and> (\<forall>t. Some t \<in> {ag_built a, ag_report a, ag_saved a} \<longrightarrow> good_target t)"
  by (auto simp: good_agent_def good_runtime_def)

lemma good_called: "good_agent a \<Longrightarrow> good_runtime r \<Longrightarrow> good_agent (called changed r a)"
  by (simp add: good_agent_runtime called_def)

lemma good_start: "good_agent a \<Longrightarrow> good_agent (agent_start webIDE (ru_file (ag_runtime a)) (ag_saved a))"
  by (auto simp: good_agent_runtime agent_start_def TargetChanges_def good_runtime_def good_endpoints_def)

lemma good_consume: "good_agent a \<Longrightarrow> good_agent (consume_target a)"
  by (auto simp: good_agent_runtime consume_target_def good_runtime_def Let_def split: option.splits)

lemma good_calls:
  assumes "good_runtime r"
  shows "good_runtime (snd (endpoint_List encoded fails protocol r))"
    "good_runtime (snd (snd (endpoint_Set encoded fails out protocol e r)))"
    "good_runtime (snd (snd (endpoint_Delete encoded fails out protocol i r)))"
  using assms good_load [OF assms, of encoded fails] good_set [OF assms, of encoded fails out e] good_delete [OF assms, of encoded fails out i]
  by (auto simp: endpoint_List_def listEndpoints_def endpoint_Set_def endpoint_Delete_def split: prod.splits option.splits sum.splits)

lemma good_step:
  assumes "good_agent a"
  shows "good_agent (agent_step l ev a)"
proof -
  have r: "good_runtime (ag_runtime a)" using assms by (simp add: good_agent_runtime)
  show ?thesis
  proof (cases ev)
    case (CallSet fails out protocol e)
    then show ?thesis using good_calls(2) [OF r, of "al_encoded l" fails out protocol e] good_called [OF assms]
      by (auto split: prod.splits)
  next
    case (CallDelete fails out protocol i)
    then show ?thesis using good_calls(3) [OF r, of "al_encoded l" fails out protocol i] good_called [OF assms]
      by (auto split: prod.splits)
  next
    case (ConfigureEndpoints out services order state)
    then show ?thesis using assms good_replace [OF r] by (auto simp: good_agent_runtime split: sum.splits)
  next
    case (BuildTarget services order fails version state)
    then show ?thesis using assms good_access [OF r, of version]
      by (auto simp: good_agent_runtime split: sum.splits prod.splits)
  next
    case PublishBuilt
    then show ?thesis using assms r by (auto simp: good_agent_runtime setAccessState_def good_runtime_def split: option.splits)
  next
    case NotifyTarget
    then show ?thesis using assms r by (auto simp: good_agent_runtime notifyTargetChanged_def good_runtime_def)
  next
    case (CallList fails protocol)
    then show ?thesis using good_called [OF assms good_calls(1) [OF r]] by simp
  next
    case ConsumeTarget
    then show ?thesis using good_consume [OF assms] by simp
  next
    case AgentRestart
    then show ?thesis using good_start [OF assms] by simp
  next
    case OperationCanceled
    then show ?thesis using assms r by (auto simp: good_agent_runtime good_runtime_def)
  qed (use assms in \<open>auto simp: good_agent_runtime split: option.splits\<close>)
qed

lemma good_run: "good_agent a \<Longrightarrow> good_agent (fold (agent_step l) events a)"
  by (induction events arbitrary: a) (simp_all add: good_step)

text \<open>What the Manager does with a good target in a report that is otherwise in order.\<close>

definition target_refused :: "AgentTarget \<Rightarrow> AgentTarget option \<Rightarrow> bool" where
  "target_refused target stored \<longleftrightarrow> (\<exists>previous. stored = Some previous
     \<and> (tg_Version target < tg_Version previous \<or> tg_Version target = tg_Version previous \<and> target \<noteq> previous))"

definition stored_report :: "RuntimeBoot option \<Rightarrow> AgentTarget \<Rightarrow> OperationResult option \<Rightarrow> 'raw Codespace \<Rightarrow> 'raw Codespace" where
  "stored_report boot target result cs = cs\<lparr>cs_Status := (cs_Status cs)\<lparr>st_Boot := boot, st_Target := Some target,
     st_MetadataGeneration := (if boot \<noteq> st_Boot (cs_Status cs) \<or> Some target \<noteq> st_Target (cs_Status cs)
        then st_MetadataGeneration (cs_Status cs) + 1 else st_MetadataGeneration (cs_Status cs)),
     st_Result := result\<rparr>\<rparr>"

lemma good_target_applied:
  assumes "good_target t" "ar_Target report = Some t" "is_startup (op_Type (operation cs))"
    and "apply_endpoints (at_PrimaryContainerId t) [] (at_Endpoints t) = Inr es"
    and target: "target = \<lparr>tg_Version = at_Version t, tg_Ready = True, tg_PrimaryContainerID = at_PrimaryContainerId t,
        tg_WorkspaceFolder = at_WorkspaceFolder t, tg_Endpoints = es\<rparr>"
  shows "apply_target cs report = (if target_refused target (st_Target (cs_Status cs))
    then Inl (ReportError FailedPrecondition targetVersionReused) else Inr (Some target))"
  using assms(1-4) unfolding target
  by (cases "st_Target (cs_Status cs)") (auto simp: apply_target_def good_target_def MaxEndpointCount_def target_refused_def Let_def)

lemma report_applied:
  assumes "ar_OperationRversion report = op_Version (operation cs)" "check_result cs report = None"
    and "apply_boot cs report = Inr boot" "apply_result cs report = Inr result"
    and generation: "0 \<le> st_MetadataGeneration (cs_Status cs)" "st_MetadataGeneration (cs_Status cs) < max_int64"
    and t: "apply_target cs report = (if refused then Inl err else Inr (Some target))"
  shows "applyAgentReport libs (Some report) cs = (if refused then Inl err
    else if lib_ObjectSizeOK libs (stored_report boot target result cs) then Inr (stored_report boot target result cs)
    else Inl (ReportError ResourceExhausted reportTooLarge))"
proof -
  have "wrap64 (st_MetadataGeneration (cs_Status cs) + 1) = st_MetadataGeneration (cs_Status cs) + 1"
    using generation by (intro wrap64_id) (simp add: in_int64_def min_int64_def)
  then have "apply_generation (cs_Status cs) boot (Some target) = Inr (st_MetadataGeneration (cs_Status (stored_report boot target result cs)))"
    using generation by (simp add: apply_generation_def stored_report_def)
  then show ?thesis using assms(1-4)
    by (simp add: applyAgentReport_def t ValidateObjectSize_def Let_def stored_report_def)
qed

text \<open>C4: Every access target that an Agent reports, after any interleaving of endpoint calls, creates,
  resumes, cancellations, notifications, failed writes and restarts that starts with no saved endpoints,
  is one that the Manager accepts. In a report of the current startup operation whose boot progress and
  result are in order, the target is stored exactly as it was reported, unless a stored target is newer or
  has the same version and another content, or the resource with it would exceed the size limit of an
  object; no check of the target itself ever fails.
\<close>

theorem agent_target_accepted:
  assumes "ag_report (fold (agent_step l) events (agent_start webIDE EndpointsAbsent None)) = Some t"
    and "ar_Target report = Some t" and "is_startup (op_Type (operation cs))"
    and "ar_OperationRversion report = op_Version (operation cs)" and "check_result cs report = None"
    and "apply_boot cs report = Inr boot" and "apply_result cs report = Inr result"
    and "0 \<le> st_MetadataGeneration (cs_Status cs)" and "st_MetadataGeneration (cs_Status cs) < max_int64"
  shows "\<exists>endpoints target. apply_endpoints (at_PrimaryContainerId t) [] (at_Endpoints t) = Inr endpoints
    \<and> target = \<lparr>tg_Version = at_Version t, tg_Ready = True, tg_PrimaryContainerID = at_PrimaryContainerId t,
        tg_WorkspaceFolder = at_WorkspaceFolder t, tg_Endpoints = endpoints\<rparr>
    \<and> applyAgentReport libs (Some report) cs =
        (if target_refused target (st_Target (cs_Status cs)) then Inl (ReportError FailedPrecondition targetVersionReused)
         else if lib_ObjectSizeOK libs (stored_report boot target result cs) then Inr (stored_report boot target result cs)
         else Inl (ReportError ResourceExhausted reportTooLarge))"
proof -
  have "good_agent (agent_start webIDE EndpointsAbsent None)"
    by (simp add: good_agent_def agent_start_def TargetChanges_def good_endpoints_def)
  from good_run [OF this, of l events] assms(1) have good: "good_target t" by (auto simp: good_agent_def)
  then obtain es where es: "apply_endpoints (at_PrimaryContainerId t) [] (at_Endpoints t) = Inr es" by (auto simp: good_target_def)
  from report_applied [OF assms(4-9) good_target_applied [OF good assms(2,3) es refl]] es show ?thesis by blast
qed

section \<open>Every change is reported\<close>

text \<open>A target declares the workspace, when the Web IDE is on, and then exactly the given endpoints.\<close>

definition declares :: "bool \<Rightarrow> AccessTarget \<Rightarrow> RuntimeEndpoint list \<Rightarrow> bool" where
  "declares webIDE t es \<longleftrightarrow>
     map (\<lambda>e. Option.bind e et_Endpoint) (at_Endpoints t)
       = (if webIDE then [Option.bind (workspace_target (at_PrimaryContainerId t)) et_Endpoint] else []) @ map Some es"

lemma declares_access: "declares webIDE (accessTargetForContainer version primary folder webIDE es containers) es"
  by (simp add: declares_def accessTargetForContainer_def endpoint_target_def Let_def o_def)

text \<open>The published target of a runtime that can count \<open>n\<close> more versions.\<close>

definition published :: "int \<Rightarrow> AgentRuntime \<Rightarrow> AccessTarget \<Rightarrow> bool" where
  "published n r t \<longleftrightarrow> ru_loaded r \<and> ru_changed r \<noteq> None \<and> ru_target r = Some t \<and> at_Ready t \<and> at_PrimaryContainerId t \<noteq> []
     \<and> at_Version t + n \<le> max_int64 \<and> declares (ru_webIDE r) t (ru_endpoints r)"

definition tracked :: "int \<Rightarrow> agent \<Rightarrow> bool" where
  "tracked n a \<longleftrightarrow> (\<exists>current reported. published n (ag_runtime a) current \<and> ag_report a = Some reported
     \<and> at_Version reported \<le> at_Version current
     \<and> (at_Version reported = at_Version current \<longrightarrow> reported = current)
     \<and> (reported \<noteq> current \<longrightarrow> ru_changed (ag_runtime a) = Some True \<or> ag_notifying a > 0))"

lemma published_mono: "published n r t \<Longrightarrow> m \<le> n \<Longrightarrow> published m r t"
  by (auto simp: published_def)

lemma published_load: "published n r t \<Longrightarrow> loadEndpointsLocked encoded fails r = (None, r)"
  by (simp add: published_def loadEndpointsLocked_def)

text \<open>A saved change is published under the next version; a failed write leaves the runtime as it was.\<close>

definition advances :: "int \<Rightarrow> AgentRuntime \<Rightarrow> AccessTarget \<Rightarrow> bool \<Rightarrow> AgentRuntime \<Rightarrow> bool" where
  "advances n r t changed r' \<longleftrightarrow> ru_changed r' = ru_changed r
     \<and> (\<exists>t'. published (n - 1) r' t' \<and> (if changed then at_Version t' = at_Version t + 1 else t' = t))"

lemma advances_stay: "published n r t \<Longrightarrow> advances n r t False r"
  using published_mono [of n r t "n - 1"] by (simp add: advances_def)

lemma published_change:
  assumes "published n r t" "n > 0" "change_endpoints out es r = (res, changed, r')"
  shows "advances n r t changed r'"
proof (cases out)
  case SaveOk
  let ?r = "r\<lparr>ru_file := EndpointsSaved es, ru_endpoints := es, ru_loaded := True\<rparr>"
  let ?t = "accessTargetForContainer (at_Version t + 1) (at_PrimaryContainerId t) (at_WorkspaceFolder t) (ru_webIDE r) es (target_containers t)"
  have t: "ru_target r = Some t" "at_Ready t" "at_PrimaryContainerId t \<noteq> []" "at_Version t \<noteq> max_int64" "ru_changed r \<noteq> None" "at_Version t + n \<le> max_int64"
    using assms(1,2) by (auto simp: published_def)
  have r': "changed" "r' = ?r\<lparr>ru_target := Some ?t\<rparr>"
    using assms(3) SaveOk t by (auto simp: change_endpoints_def persistEndpointsLocked_def updateTargetEndpointsLocked_def)
  have "at_Version ?t = at_Version t + 1" "at_Ready ?t" "at_PrimaryContainerId ?t = at_PrimaryContainerId t"
    by (simp_all add: accessTargetForContainer_def)
  with t have "published (n - 1) r' ?t \<and> at_Version ?t = at_Version t + 1"
    by (simp add: published_def r' declares_access)
  then show ?thesis using r' unfolding advances_def by auto
next
  case SaveFailedBefore
  then show ?thesis using assms advances_stay by (auto simp: change_endpoints_def persistEndpointsLocked_def)
next
  case SaveFailedAfter
  then show ?thesis using assms published_mono [OF assms(1), of "n - 1"]
    by (auto simp: change_endpoints_def persistEndpointsLocked_def advances_def published_def)
qed

lemma published_set:
  assumes "published n r t" "n > 0" "endpoint_Set encoded fails out protocol e r = (res, changed, r')"
  shows "advances n r t changed r'"
  using assms(3) published_change [OF assms(1,2)] advances_stay [OF assms(1)] published_load [OF assms(1)]
  by (auto simp: endpoint_Set_def setEndpoint_def Let_def split: if_splits prod.splits option.splits sum.splits)

lemma published_delete:
  assumes "published n r t" "n > 0" "endpoint_Delete encoded fails out protocol i r = (res, changed, r')"
  shows "advances n r t changed r'"
  using assms(3) published_change [OF assms(1,2)] advances_stay [OF assms(1)] published_load [OF assms(1)]
  by (auto simp: endpoint_Delete_def deleteEndpoint_def Let_def split: if_splits prod.splits option.splits sum.splits)

lemma tracked_called:
  assumes "tracked n a" "\<And>t. published n (ag_runtime a) t \<Longrightarrow> advances n (ag_runtime a) t changed r"
  shows "tracked (n - 1) (called changed r a)"
proof -
  from assms(1) obtain cur rep where t: "published n (ag_runtime a) cur" "ag_report a = Some rep"
    "at_Version rep \<le> at_Version cur" "at_Version rep = at_Version cur \<longrightarrow> rep = cur"
    "rep \<noteq> cur \<longrightarrow> ru_changed (ag_runtime a) = Some True \<or> ag_notifying a > 0"
    unfolding tracked_def by blast
  obtain t' where t': "ru_changed r = ru_changed (ag_runtime a)" "published (n - 1) r t'" "if changed then at_Version t' = at_Version cur + 1 else t' = cur"
    using assms(2) [OF t(1)] unfolding advances_def by blast
  show ?thesis
    unfolding tracked_def by (rule exI [of _ t'], rule exI [of _ rep]) (use t t' in \<open>auto simp: called_def split: if_splits\<close>)
qed

lemma tracked_consume: "tracked n a \<Longrightarrow> tracked n (consume_target a)"
  by (auto simp: tracked_def consume_target_def published_def Let_def split: option.splits)

fun endpoint_event :: "agent_event \<Rightarrow> bool" where
  "endpoint_event (CallList fails protocol) = True"
| "endpoint_event (CallSet fails out protocol e) = True"
| "endpoint_event (CallDelete fails out protocol i) = True"
| "endpoint_event NotifyTarget = True"
| "endpoint_event ConsumeTarget = True"
| "endpoint_event (RecordReport out) = True"
| "endpoint_event _ = False"

lemma tracked_mono: "tracked n a \<Longrightarrow> m \<le> n \<Longrightarrow> tracked m a"
  unfolding tracked_def using published_mono by blast

lemma tracked_step:
  assumes "tracked n a" "n > 0" "endpoint_event ev"
  shows "tracked (n - 1) (agent_step l ev a)"
proof (cases ev)
  case (CallList fails protocol)
  from assms(1) obtain cur where "published n (ag_runtime a) cur" by (auto simp: tracked_def)
  then have "snd (endpoint_List (al_encoded l) fails protocol (ag_runtime a)) = ag_runtime a"
    by (simp add: endpoint_List_def listEndpoints_def published_load)
  with CallList tracked_called [OF assms(1) advances_stay] show ?thesis by simp
next
  case (CallSet fails out protocol e)
  obtain res changed r where r: "endpoint_Set (al_encoded l) fails out protocol e (ag_runtime a) = (res, changed, r)"
    using prod_cases3 by blast
  then show ?thesis using tracked_called [OF assms(1) published_set [OF _ assms(2) r]] CallSet by simp
next
  case (CallDelete fails out protocol i)
  obtain res changed r where r: "endpoint_Delete (al_encoded l) fails out protocol i (ag_runtime a) = (res, changed, r)"
    using prod_cases3 by blast
  then show ?thesis using tracked_called [OF assms(1) published_delete [OF _ assms(2) r]] CallDelete by simp
next
  case NotifyTarget
  with assms(1) show ?thesis by (auto simp: tracked_def published_def notifyTargetChanged_def)
next
  case ConsumeTarget
  then show ?thesis using tracked_mono [OF tracked_consume [OF assms(1)], of "n - 1"] by simp
next
  case (RecordReport out)
  then show ?thesis using tracked_mono [OF assms(1), of "n - 1"] by (simp add: tracked_def)
qed (use assms(3) in simp_all)

lemma tracked_run:
  "tracked n a \<Longrightarrow> int (length events) \<le> n \<Longrightarrow> list_all endpoint_event events \<Longrightarrow> tracked 0 (fold (agent_step l) events a)"
proof (induction events arbitrary: a n)
  case Nil
  then show ?case using tracked_mono by simp
next
  case (Cons ev events)
  from tracked_step [of n a ev l] Cons.prems have "tracked (n - 1) (agent_step l ev a)" by simp
  from Cons.IH [OF this] Cons.prems show ?case by simp
qed

text \<open>A create or resume that no endpoint call interrupts.\<close>

definition startup_events :: "string list \<Rightarrow> string list \<Rightarrow> bool \<Rightarrow> int \<Rightarrow> State \<Rightarrow> agent_event list" where
  "startup_events services order fails version state = [BuildTarget services order fails version state, ReportBuilt, PublishBuilt, ReportBuilt]"

lemma load_loaded: "loadEndpointsLocked encoded fails r = (None, r') \<Longrightarrow> ru_loaded r' \<and> ru_changed r' = ru_changed r \<and> ru_webIDE r' = ru_webIDE r"
  by (auto simp: loadEndpointsLocked_def split: if_splits endpoint_file.splits)

lemma access_Inr:
  assumes "accessTarget sha256 libs services order encoded fails version state r = (Inr t, r')"
  shows "ru_loaded r'" "ru_changed r' = ru_changed r" "at_Version t = version" "at_Ready t" "at_PrimaryContainerId t \<noteq> []"
    "declares (ru_webIDE r') t (ru_endpoints r')"
proof -
  from assms obtain containers where v: "state_Validate services (Some state) = None" and l: "loadEndpointsLocked encoded fails r = (None, r')"
    and t: "t = accessTargetForContainer version (ds_PrimaryContainerID state) (ds_WorkspaceFolder state) (ru_webIDE r') (ru_endpoints r') containers"
    by (auto simp: accessTarget_def split: option.splits prod.splits sum.splits)
  from load_loaded [OF l] state_Validate_paths [OF v]
  show "ru_loaded r'" "ru_changed r' = ru_changed r" "at_Version t = version" "at_Ready t" "at_PrimaryContainerId t \<noteq> []"
    "declares (ru_webIDE r') t (ru_endpoints r')"
    using declares_access by (simp_all add: t) (simp_all add: accessTargetForContainer_def)
qed

text \<open>A target that is published or about to be is ready, and was built from a loaded list.\<close>

definition built_from_list :: "agent \<Rightarrow> bool" where
  "built_from_list a \<longleftrightarrow> ru_changed (ag_runtime a) \<noteq> None
     \<and> (\<forall>t. ru_target (ag_runtime a) = Some t \<or> ag_built a = Some t \<longrightarrow> ru_loaded (ag_runtime a) \<and> at_Ready t \<and> at_PrimaryContainerId t \<noteq> [])"

definition list_kept :: "AgentRuntime \<Rightarrow> AgentRuntime \<Rightarrow> bool" where
  "list_kept r r' \<longleftrightarrow> ru_changed r' = ru_changed r \<and> (ru_loaded r \<longrightarrow> ru_loaded r')
     \<and> (\<forall>t'. ru_target r' = Some t' \<longrightarrow> (\<exists>t. ru_target r = Some t \<and> (t' = t \<or> at_Ready t' \<and> at_PrimaryContainerId t' = at_PrimaryContainerId t)))"

lemma list_kept_refl [simp]: "list_kept r r"
  by (simp add: list_kept_def)

lemma list_kept_trans: "list_kept r1 r2 \<Longrightarrow> list_kept r2 r3 \<Longrightarrow> list_kept r1 r3"
  by (fastforce simp: list_kept_def)

lemma list_kept_load: "list_kept r (snd (loadEndpointsLocked encoded fails r))"
  by (auto simp: loadEndpointsLocked_def list_kept_def split: endpoint_file.splits)

lemma list_kept_persist: "list_kept r (snd (persistEndpointsLocked out es r))"
  by (auto simp: persistEndpointsLocked_def list_kept_def split: save_outcome.splits)

lemma list_kept_update: "list_kept r (snd (updateTargetEndpointsLocked r))"
  by (auto simp: updateTargetEndpointsLocked_def list_kept_def accessTargetForContainer_def split: option.splits)

lemma list_kept_change: "list_kept r (snd (snd (change_endpoints out es r)))"
  using list_kept_persist [of r out es] list_kept_update [of "snd (persistEndpointsLocked out es r)"]
  by (auto simp: change_endpoints_def intro: list_kept_trans split: prod.splits option.splits sum.splits)

lemma list_kept_after_load:
  assumes "loadEndpointsLocked encoded fails r = (err, r')" "list_kept r' r''"
  shows "list_kept r r''"
  using list_kept_trans [OF _ assms(2)] list_kept_load [of r encoded fails] by (simp add: assms(1))

lemma list_kept_calls:
  "list_kept r (snd (endpoint_List encoded fails protocol r))"
  "list_kept r (snd (snd (endpoint_Set encoded fails out protocol e r)))"
  "list_kept r (snd (snd (endpoint_Delete encoded fails out protocol i r)))"
proof -
  obtain err r' where l: "loadEndpointsLocked encoded fails r = (err, r')" by fastforce
  note k = list_kept_after_load [OF l list_kept_refl] list_kept_after_load [OF l list_kept_change]
  show "list_kept r (snd (endpoint_List encoded fails protocol r))"
    using k by (simp add: endpoint_List_def listEndpoints_def l split: option.split)
  have "list_kept r (snd (snd (setEndpoint encoded fails out e r)))"
    using k by (cases e) (simp_all add: setEndpoint_def l Let_def split: option.split)
  then show "list_kept r (snd (snd (endpoint_Set encoded fails out protocol e r)))"
    by (auto simp: endpoint_Set_def split: prod.splits sum.splits)
  have "list_kept r (snd (snd (deleteEndpoint encoded fails out i r)))"
    using k by (simp add: deleteEndpoint_def l Let_def split: option.split)
  then show "list_kept r (snd (snd (endpoint_Delete encoded fails out protocol i r)))"
    by (auto simp: endpoint_Delete_def split: prod.splits sum.splits)
qed

lemma list_kept_access:
  assumes "accessTarget sha256 libs services order encoded fails version state r = (res, r')"
  shows "list_kept r r'"
  using assms list_kept_load [of r encoded fails] by (auto simp: accessTarget_def split: option.splits prod.splits sum.splits)

lemma built_kept:
  assumes "built_from_list a" "list_kept (ag_runtime a) r"
  shows "built_from_list (a\<lparr>ag_runtime := r, ag_notifying := n\<rparr>)" "built_from_list (a\<lparr>ag_runtime := r\<rparr>)"
proof -
  have c: "ru_changed r \<noteq> None" using assms by (simp add: built_from_list_def list_kept_def)
  have "ru_loaded r \<and> at_Ready t' \<and> at_PrimaryContainerId t' \<noteq> []" if r: "ru_target r = Some t'" for t'
  proof -
    obtain t where t: "ru_target (ag_runtime a) = Some t" "t' = t \<or> at_Ready t' \<and> at_PrimaryContainerId t' = at_PrimaryContainerId t"
      using assms(2) r unfolding list_kept_def by blast
    moreover from this have "ru_loaded (ag_runtime a) \<and> at_Ready t \<and> at_PrimaryContainerId t \<noteq> []"
      using assms(1) unfolding built_from_list_def by blast
    ultimately show ?thesis using assms(2) unfolding list_kept_def by auto
  qed
  moreover have "ru_loaded r \<and> at_Ready t' \<and> at_PrimaryContainerId t' \<noteq> []" if "ag_built a = Some t'" for t'
    using assms that unfolding built_from_list_def list_kept_def by blast
  ultimately show "built_from_list (a\<lparr>ag_runtime := r, ag_notifying := n\<rparr>)" "built_from_list (a\<lparr>ag_runtime := r\<rparr>)"
    using c by (auto simp: built_from_list_def)
qed

lemma built_step:
  assumes "built_from_list a"
  shows "built_from_list (agent_step l ev a)"
proof (cases ev)
  case (CallList fails protocol)
  then show ?thesis using built_kept(2) [OF assms list_kept_calls(1)] by (simp add: called_def)
next
  case (CallSet fails out protocol e)
  obtain res changed r where r: "endpoint_Set (al_encoded l) fails out protocol e (ag_runtime a) = (res, changed, r)"
    using prod_cases3 by blast
  then have "list_kept (ag_runtime a) r" using list_kept_calls(2) by (metis snd_conv)
  from built_kept(1) [OF assms this] CallSet r show ?thesis by (simp add: called_def)
next
  case (CallDelete fails out protocol i)
  obtain res changed r where r: "endpoint_Delete (al_encoded l) fails out protocol i (ag_runtime a) = (res, changed, r)"
    using prod_cases3 by blast
  then have "list_kept (ag_runtime a) r" using list_kept_calls(3) by (metis snd_conv)
  from built_kept(1) [OF assms this] CallDelete r show ?thesis by (simp add: called_def)
next
  case (ConfigureEndpoints out services order state)
  have "list_kept (ag_runtime a) (snd (replaceConfiguredEndpoints out es (ag_runtime a)))" for es
    using list_kept_persist by (simp add: replaceConfiguredEndpoints_def split: option.split)
  from built_kept(2) [OF assms this] assms ConfigureEndpoints show ?thesis by (auto split: sum.splits)
next
  case (BuildTarget services order fails version state)
  obtain res r where r: "accessTarget (al_sha256 l) (al_config l) services order (al_encoded l) fails version state (ag_runtime a) = (res, r)"
    by fastforce
  note k = built_kept(2) [OF assms list_kept_access [OF r]]
  show ?thesis
  proof (cases res)
    case (Inr t)
    from access_Inr [OF r [unfolded Inr]] k have "built_from_list (a\<lparr>ag_runtime := r, ag_built := Some t\<rparr>)"
      by (auto simp: built_from_list_def)
    with BuildTarget r Inr assms show ?thesis by simp
  qed (use BuildTarget r k assms in simp)
next
  case AgentRestart
  then show ?thesis by (simp add: built_from_list_def agent_start_def TargetChanges_def)
next
  case ConsumeTarget
  then show ?thesis using assms by (auto simp: built_from_list_def consume_target_def Let_def split: option.splits)
next
  case PublishBuilt
  then show ?thesis using assms by (auto simp: built_from_list_def setAccessState_def split: option.splits)
next
  case NotifyTarget
  then show ?thesis using assms by (auto simp: built_from_list_def notifyTargetChanged_def)
qed (use assms in \<open>auto simp: built_from_list_def split: option.splits\<close>)

lemma built_run: "built_from_list (fold (agent_step l) events (agent_start webIDE file report))"
proof (induction events rule: rev_induct)
  case Nil
  then show ?case by (simp add: built_from_list_def agent_start_def TargetChanges_def)
qed (simp add: built_step)

text \<open>The report is the published target, which declares the endpoints in force.\<close>

definition in_step :: "agent \<Rightarrow> bool" where
  "in_step a \<longleftrightarrow> (\<exists>t. ag_report a = Some t \<and> ru_target (ag_runtime a) = Some t
     \<and> declares (ru_webIDE (ag_runtime a)) t (ru_endpoints (ag_runtime a)))"

text \<open>A create or resume that nothing interrupts ends in step.\<close>

lemma startup_in_step:
  assumes "accessTarget (al_sha256 l) (al_config l) services order (al_encoded l) fails version state (ag_runtime a) = (Inr t, r)" "0 < version"
  shows "in_step (fold (agent_step l) (startup_events services order fails version state) a)"
  using access_Inr [OF assms(1)] assms by (simp add: startup_events_def in_step_def setAccessState_def)

text \<open>C8: No endpoint change is lost while no operation runs. From any state that the Agent can reach in
  which its report is the published target and declares the endpoints in force, as a create or resume
  leaves it that no endpoint call interrupted, and after any sequence of endpoint calls (with failing
  writes), notifications and readings of the channel, one more notification and reading makes the report
  the current target again, and that target declares exactly the endpoints in force then, as long as the
  version does not run out. The next operation, its cancellation, its stage reports and a restart end this.
\<close>

theorem endpoint_changes_reported:
  assumes "a = fold (agent_step l) past (agent_start webIDE file saved)" and "in_step a"
    and "\<forall>t. ag_report a = Some t \<longrightarrow> at_Version t + int (length events) \<le> max_int64"
    and "list_all endpoint_event events"
  shows "in_step (fold (agent_step l) (events @ [NotifyTarget, ConsumeTarget]) a)"
proof -
  obtain t where t: "ag_report a = Some t" "ru_target (ag_runtime a) = Some t" "declares (ru_webIDE (ag_runtime a)) t (ru_endpoints (ag_runtime a))"
    using assms(2) unfolding in_step_def by blast
  have "built_from_list a" unfolding assms(1) by (rule built_run)
  then have b: "ru_changed (ag_runtime a) \<noteq> None" "ru_loaded (ag_runtime a)" "at_Ready t" "at_PrimaryContainerId t \<noteq> []"
    using t(2) unfolding built_from_list_def by blast+
  have "at_Version t + int (length events) \<le> max_int64" using assms(3) t(1) by blast
  with b t(2,3) have "published (int (length events)) (ag_runtime a) t" unfolding published_def by (intro conjI)
  with t(1) have "tracked (int (length events)) a" unfolding tracked_def by (intro exI [of _ t]) simp
  then have "tracked 0 (fold (agent_step l) events a)" using tracked_run assms(4) by blast
  then show ?thesis
    by (auto simp: tracked_def published_def consume_target_def notifyTargetChanged_def Let_def in_step_def)
qed

section \<open>Examples\<close>

definition demo_container :: State where
  "demo_container = demo_state\<lparr>ds_ComposeProject := [], ds_PrimaryService := [], ds_ComposeContainers := fmempty, ds_RelatedContainerIDs := [],
     ds_Configuration := image_config ''alpine'' fmempty\<rparr>"

definition demo_port :: RuntimeEndpoint where
  "demo_port = \<lparr>re_EndpointId = ''port-80'', re_Label = ''web'', re_Port = 80, re_Public = True\<rparr>"

definition demo_agent_libs :: agent_libs where
  "demo_agent_libs = \<lparr>al_sha256 = (\<lambda>_. replicate 32 (CHR ''0'')), al_config = sample_config_libs, al_encoded = (\<lambda>es. sum_list (map (length \<circ> re_Label) es))\<rparr>"

definition demo_built :: AccessTarget where
  "demo_built = accessTargetForContainer 5 ''primary'' ''/w'' True [] (\<lambda>_. None)"

lemma demo_configured: "ConfiguredEndpoints sha256 libs [] [] demo_container = Inr ([], \<lambda>_. None)"
proof -
  have "state_Validate [] (Some demo_container) = None" by code_simp
  moreover have "c_ForwardPorts (ds_Configuration demo_container) = []" "c_AppPort (ds_Configuration demo_container) = []" by code_simp+
  ultimately show ?thesis by (simp add: ConfiguredEndpoints_def ordered_ports_def sorted_list_of_fset.rep_eq)
qed

lemma demo_set: "validateRuntimeEndpoint (Some demo_port) = None" by code_simp

abbreviation (input) demo_build :: agent_event where
  "demo_build \<equiv> BuildTarget [] [] False 5 demo_container"

abbreviation (input) demo_call :: agent_event where
  "demo_call \<equiv> CallSet False SaveOk 1 (Some demo_port)"

definition demo_idle :: AgentRuntime where
  "demo_idle = \<lparr>ru_target = None, ru_endpoints = [], ru_loaded = True, ru_changed = Some False, ru_webIDE = True, ru_file = EndpointsAbsent\<rparr>"

abbreviation (input) demo_fresh :: agent where
  "demo_fresh \<equiv> agent_start True EndpointsAbsent None"

lemma demo_access:
  "accessTarget (al_sha256 demo_agent_libs) (al_config demo_agent_libs) [] [] (al_encoded demo_agent_libs) False 5 demo_container (ag_runtime demo_fresh)
     = (Inr demo_built, demo_idle)"
proof -
  have "state_Validate [] (Some demo_container) = None" "ds_PrimaryContainerID demo_container = ''primary''" "ds_WorkspaceFolder demo_container = ''/w''" by code_simp+
  then show ?thesis
    by (simp add: accessTarget_def demo_configured agent_start_def TargetChanges_def loadEndpointsLocked_def demo_built_def demo_idle_def)
qed

definition demo_starting :: "AgentRuntime \<Rightarrow> AccessTarget option \<Rightarrow> nat \<Rightarrow> agent" where
  "demo_starting r report notifying = \<lparr>ag_runtime = r, ag_built = Some demo_built, ag_notifying = notifying, ag_report = report, ag_saved = None\<rparr>"

lemma demo_build_step: "agent_step demo_agent_libs demo_build demo_fresh = demo_starting demo_idle None 0"
  by (simp add: demo_access) (simp add: demo_starting_def agent_start_def)

abbreviation (input) demo_saved :: "AgentRuntime \<Rightarrow> AgentRuntime" where
  "demo_saved r \<equiv> r\<lparr>ru_file := EndpointsSaved [demo_port], ru_endpoints := [demo_port], ru_loaded := True\<rparr>"

text \<open>The call on a runtime that has loaded an empty list.\<close>

lemma demo_endpoint_Set:
  assumes "ru_loaded r" "ru_endpoints r = []" "updateTargetEndpointsLocked (demo_saved r) = (Inr changed, r')"
  shows "endpoint_Set encoded False SaveOk 1 (Some demo_port) r = (None, changed, r')"
  using assms
  by (simp add: endpoint_Set_def setEndpoint_def demo_set loadEndpointsLocked_def Let_def change_endpoints_def persistEndpointsLocked_def
      sortRuntimeEndpoints_def MaxDeclaredEndpointCount_def MaxEndpointCount_def)

lemma demo_call_step:
  assumes "ru_loaded r" "ru_endpoints r = []" "updateTargetEndpointsLocked (demo_saved r) = (Inr changed, r')"
  shows "agent_step demo_agent_libs demo_call (demo_starting r report 0) = demo_starting r' report (if changed then 1 else 0)"
  by (simp add: demo_endpoint_Set [OF assms] demo_starting_def called_def)

lemma demo_steps:
  "agent_step l ReportBuilt (demo_starting r report n) = demo_starting r (Some demo_built) n"
  "agent_step l PublishBuilt (demo_starting r report n) = demo_starting (r\<lparr>ru_target := Some demo_built\<rparr>) report n"
  by (simp_all add: demo_starting_def setAccessState_def)

text \<open>A change made while a create or resume is between building and publishing its target is
  lost. The call succeeds and the endpoint is saved, but the published and reported target was built
  before, does not declare it, and no notification is pending: neither the Manager nor the Gateway
  learns of the endpoint until the next change.
\<close>

theorem endpoint_set_during_startup_lost:
  "fst (endpoint_Set (al_encoded demo_agent_libs) False SaveOk 1 (Some demo_port) demo_idle) = None
   \<and> (let a = fold (agent_step demo_agent_libs) [demo_build, ReportBuilt, demo_call, PublishBuilt, ReportBuilt] demo_fresh
      in ru_file (ag_runtime a) = EndpointsSaved [demo_port] \<and> ru_endpoints (ag_runtime a) = [demo_port]
         \<and> ag_report a = ru_target (ag_runtime a) \<and> ag_report a = Some demo_built \<and> declares True demo_built []
         \<and> ag_notifying a = 0 \<and> ru_changed (ag_runtime a) = Some False)"
proof -
  have u: "updateTargetEndpointsLocked (demo_saved demo_idle) = (Inr False, demo_saved demo_idle)"
    by (simp add: updateTargetEndpointsLocked_def demo_idle_def)
  have i: "ru_loaded demo_idle" "ru_endpoints demo_idle = []" by (simp_all add: demo_idle_def)
  have d: "declares True demo_built []" unfolding demo_built_def by (rule declares_access)
  have "fold (agent_step demo_agent_libs) [demo_build, ReportBuilt, demo_call, PublishBuilt, ReportBuilt] demo_fresh
      = demo_starting ((demo_saved demo_idle)\<lparr>ru_target := Some demo_built\<rparr>) (Some demo_built) 0"
    by (simp add: demo_build_step demo_call_step [OF i u] demo_steps del: agent_step.simps)
  then show ?thesis using demo_endpoint_Set [OF i u] d by (simp add: demo_starting_def demo_idle_def)
qed

definition demo_creating :: "AgentTarget option \<Rightarrow> unit Codespace" where
  "demo_creating target = \<lparr>cs_Name = ''c'', cs_Namespace = ''codespace-s'', cs_UID = ''resource'', cs_Generation = 1, cs_Deleting = False,
     cs_Spec = \<lparr>sp_SiteName = ''s'', sp_SiteUID = ''site'', sp_CodespaceID = 1, sp_RuntimeUUID = ''runtime'', sp_EnvironmentTag = ''e'',
       sp_Runtime = \<lparr>rc_Image = [], rc_GitSSHKeyType = [], rc_Proxy = False, rc_BlockVolume = False, rc_Settings = []\<rparr>,
       sp_Operation = \<lparr>op_Version = 5, op_Type = ''create'', op_Payload = ()\<rparr>\<rparr>,
     cs_Status = zero_status\<lparr>st_Target := target\<rparr>\<rparr>"

definition demo_reporting :: "AccessTarget option \<Rightarrow> AgentReport" where
  "demo_reporting target = \<lparr>ar_OperationRversion = 5, ar_GitSshPublicKey = [], ar_Result = None, ar_Target = target, ar_Boot = None\<rparr>"

lemma demo_creating_simps:
  "is_startup (op_Type (operation (demo_creating target)))" "st_Target (cs_Status (demo_creating target)) = target"
  "ar_Target (demo_reporting t) = t"
  by (simp_all add: demo_creating_def demo_reporting_def is_startup_def operation_def)

lemma demo_good: "good_endpoints es \<Longrightarrow> 0 < version \<Longrightarrow> good_target (accessTargetForContainer version ''primary'' ''/w'' True es containers)"
  by (rule good_target_access) (simp_all, code_simp)

definition demo_advanced :: AccessTarget where
  "demo_advanced = accessTargetForContainer 6 ''primary'' ''/w'' True [demo_port] (target_containers demo_built)"

text \<open>C37: The report of the last boot stage can take the reported target back. When an endpoint
  changes after a create or resume has published its target and the control client has already
  reported the new version, the report of the stage READY replaces it by the version that was built.
  The Manager refuses every report with it once it has stored the newer one, and nothing is pending
  that would renew the report.
\<close>

theorem ready_report_regresses:
  "let a = fold (agent_step demo_agent_libs) [demo_build, ReportBuilt, PublishBuilt, demo_call, NotifyTarget, ConsumeTarget] demo_fresh;
       b = agent_step demo_agent_libs ReportBuilt a
   in ag_report a = Some demo_advanced \<and> ag_report b = Some demo_built
      \<and> ru_target (ag_runtime b) = Some demo_advanced \<and> ag_notifying b = 0 \<and> ru_changed (ag_runtime b) = Some False
      \<and> (\<exists>stored. apply_target (demo_creating None) (demo_reporting (ag_report a)) = Inr (Some stored)
           \<and> apply_target (demo_creating (Some stored)) (demo_reporting (ag_report b)) = Inl (ReportError FailedPrecondition targetVersionReused))"
proof -
  let ?p = "demo_idle\<lparr>ru_target := Some demo_built\<rparr>"
  have b: "at_Version demo_built = 5" "at_Ready demo_built" "at_PrimaryContainerId demo_built = ''primary''" "at_WorkspaceFolder demo_built = ''/w''"
    "at_Version demo_advanced = 6" by (simp_all add: demo_built_def demo_advanced_def accessTargetForContainer_def)
  have u: "updateTargetEndpointsLocked (demo_saved ?p) = (Inr True, (demo_saved ?p)\<lparr>ru_target := Some demo_advanced\<rparr>)"
    using b by (simp add: updateTargetEndpointsLocked_def demo_idle_def max_int64_def demo_advanced_def)
  have i: "ru_loaded ?p" "ru_endpoints ?p = []" by (simp_all add: demo_idle_def)
  have "fold (agent_step demo_agent_libs) [demo_build, ReportBuilt, PublishBuilt, demo_call, NotifyTarget, ConsumeTarget] demo_fresh
      = consume_target (agent_step demo_agent_libs NotifyTarget (demo_starting ((demo_saved ?p)\<lparr>ru_target := Some demo_advanced\<rparr>) (Some demo_built) 1))"
    by (simp add: demo_build_step demo_call_step [OF i u] demo_steps del: agent_step.simps) (simp only: agent_step.simps)
  also have "\<dots> = demo_starting ((demo_saved ?p)\<lparr>ru_target := Some demo_advanced\<rparr>) (Some demo_advanced) 0"
    using b by (simp add: demo_starting_def notifyTargetChanged_def consume_target_def demo_idle_def)
  finally have run: "fold (agent_step demo_agent_libs) [demo_build, ReportBuilt, PublishBuilt, demo_call, NotifyTarget, ConsumeTarget] demo_fresh
      = demo_starting ((demo_saved ?p)\<lparr>ru_target := Some demo_advanced\<rparr>) (Some demo_advanced) 0" .
  have "good_endpoints [demo_port]" by (simp add: good_endpoints_def endpoint_ok_def demo_set MaxDeclaredEndpointCount_def MaxEndpointCount_def)
  then have good: "good_target demo_built" "good_target demo_advanced"
    unfolding demo_built_def demo_advanced_def by (simp_all add: demo_good good_endpoints_def)
  obtain stored where stored: "apply_target (demo_creating None) (demo_reporting (Some demo_advanced)) = Inr (Some stored)" "tg_Version stored = 6"
    using good(2) b(5) by (auto simp: apply_target_def good_target_def MaxEndpointCount_def demo_creating_simps Let_def)
  moreover have "apply_target (demo_creating (Some stored)) (demo_reporting (Some demo_built)) = Inl (ReportError FailedPrecondition targetVersionReused)"
    using good(1) b stored(2) by (auto simp: apply_target_def good_target_def MaxEndpointCount_def demo_creating_simps)
  ultimately show ?thesis unfolding run Let_def demo_steps by (simp add: demo_starting_def demo_idle_def)
qed

text \<open>A label that is padded with spaces.\<close>

definition padded_port :: "nat \<Rightarrow> RuntimeEndpoint" where
  "padded_port n = demo_port\<lparr>re_Label := CHR ''w'' # replicate n (CHR '' '')\<rparr>"

lemma TrimSpace_padded: "TrimSpace (CHR ''w'' # replicate n (CHR '' '')) = ''w''"
proof -
  have left: "TrimLeftSpace (CHR ''w'' # replicate n (CHR '' '')) = CHR ''w'' # replicate n (CHR '' '')"
    by (simp add: TrimLeftSpace_def space_encodings_def)
  have "trim_prefixes (Suc n) (map rev space_encodings) (replicate n (CHR '' '') @ ''w'') = ''w''"
    by (induction n) (simp_all add: space_encodings_def)
  then show ?thesis by (simp add: TrimSpace_def left rev_replicate Let_def del: trim_prefixes.simps)
qed

lemma padded_ok: "validateRuntimeEndpoint (Some (padded_port n)) = None"
proof -
  have "ValidateLabel ''w'' = None" "IsPortEndpointID ''port-80'' 80" "TrimSpace ''w'' = ''w''" by code_simp+
  then show ?thesis
    by (simp add: validateRuntimeEndpoint_def padded_port_def demo_port_def ValidateLabel_def TrimSpace_padded Let_def)
qed

lemma load_too_large:
  assumes "\<not> ru_loaded r" "ru_file r = EndpointsSaved es" "encoded es > endpointStateLimit"
  shows "loadEndpointsLocked encoded fails r = (Some endpointStateUnreadable, r)"
  using assms by (simp add: loadEndpointsLocked_def)

lemma update_ok:
  assumes "\<forall>t. ru_target r = Some t \<longrightarrow> at_Version t \<noteq> max_int64"
  shows "\<exists>changed r'. updateTargetEndpointsLocked r = (Inr changed, r') \<and> ru_file r' = ru_file r"
  using assms by (cases "ru_target r") (auto simp: updateTargetEndpointsLocked_def)

text \<open>C38: The saved list of endpoints can become unreadable. A label is validated after trimming but
  stored as it is given, so a call with a padded label is accepted and saved. When the encoding of
  the list, which contains the labels, then exceeds the limit of the reader, an Agent that starts
  again refuses to list and to add endpoints and cannot build a target from the saved list, which is what
  a resume does (a create writes the list anew first).
\<close>

theorem padded_label_blocks_restart:
  assumes "\<And>es. sum_list (map (length \<circ> re_Label) es) \<le> encoded es"
    and "ru_loaded r" "length (ru_endpoints r) < MaxDeclaredEndpointCount" "\<forall>t. ru_target r = Some t \<longrightarrow> at_Version t \<noteq> max_int64"
  shows "\<exists>changed r'. endpoint_Set encoded False SaveOk 1 (Some (padded_port endpointStateLimit)) r = (None, changed, r')
    \<and> (\<forall>webIDE report. let restarted = ag_runtime (agent_start webIDE (ru_file r') report)
        in endpoint_List encoded False 1 restarted = (Inl endpointStateUnreadable, restarted)
           \<and> endpoint_Set encoded False SaveOk 1 (Some demo_port) restarted = (Some endpointStateUnreadable, False, restarted)
           \<and> (\<forall>sha256 libs services order version state.
                \<exists>err. accessTarget sha256 libs services order encoded False version state restarted = (Inl err, restarted)))"
proof -
  let ?e = "padded_port endpointStateLimit"
  let ?es = "sortRuntimeEndpoints (filter (\<lambda>item. re_EndpointId item \<noteq> re_EndpointId ?e) (ru_endpoints r) @ [?e])"
  let ?r = "r\<lparr>ru_file := EndpointsSaved ?es, ru_endpoints := ?es, ru_loaded := True\<rparr>"
  have count: "\<not> length ?es > MaxDeclaredEndpointCount"
    using assms(3) length_filter_le [of "\<lambda>item. re_EndpointId item \<noteq> re_EndpointId ?e" "ru_endpoints r"]
    by (simp add: sortRuntimeEndpoints_def del: length_filter_le)
  obtain changed r' where u: "updateTargetEndpointsLocked ?r = (Inr changed, r')" "ru_file r' = EndpointsSaved ?es"
    using update_ok [of ?r] assms(4) by auto
  then have set: "endpoint_Set encoded False SaveOk 1 (Some ?e) r = (None, changed, r')"
    using assms(2) count
    by (simp add: endpoint_Set_def setEndpoint_def padded_ok loadEndpointsLocked_def change_endpoints_def persistEndpointsLocked_def Let_def)
  have "length (re_Label ?e) \<in> set (map (length \<circ> re_Label) ?es)" by (simp add: sortRuntimeEndpoints_def)
  then have "length (re_Label ?e) \<le> sum_list (map (length \<circ> re_Label) ?es)" by (rule member_le_sum_list) simp
  then have "length (re_Label ?e) \<le> encoded ?es" using assms(1) by (rule order_trans)
  then have "encoded ?es > endpointStateLimit" by (simp add: padded_port_def)
  moreover have "\<not> ru_loaded (ag_runtime (agent_start webIDE (ru_file r') report))"
    "ru_file (ag_runtime (agent_start webIDE (ru_file r') report)) = EndpointsSaved ?es" for webIDE report
    using u(2) by (simp_all add: agent_start_def TargetChanges_def)
  ultimately have "loadEndpointsLocked encoded False (ag_runtime (agent_start webIDE (ru_file r') report))
      = (Some endpointStateUnreadable, ag_runtime (agent_start webIDE (ru_file r') report))" for webIDE report
    by (intro load_too_large)
  then have "let restarted = ag_runtime (agent_start webIDE (ru_file r') report)
        in endpoint_List encoded False 1 restarted = (Inl endpointStateUnreadable, restarted)
           \<and> endpoint_Set encoded False SaveOk 1 (Some demo_port) restarted = (Some endpointStateUnreadable, False, restarted)
           \<and> (\<forall>sha256 libs services order version state.
                \<exists>err. accessTarget sha256 libs services order encoded False version state restarted = (Inl err, restarted))" for webIDE report
    by (simp add: endpoint_List_def listEndpoints_def endpoint_Set_def setEndpoint_def demo_set accessTarget_def split: option.splits)
  then show ?thesis using set by (intro exI [of _ changed] exI [of _ r'] conjI allI)
qed

theorem padded_label_blocks_restart_witness:
  "(\<exists>changed r'. endpoint_Set (al_encoded demo_agent_libs) False SaveOk 1 (Some (padded_port endpointStateLimit)) demo_idle = (None, changed, r')
    \<and> endpoint_List (al_encoded demo_agent_libs) False 1 (ag_runtime (agent_start True (ru_file r') None))
        = (Inl endpointStateUnreadable, ag_runtime (agent_start True (ru_file r') None)))"
proof -
  have "sum_list (map (length \<circ> re_Label) es) \<le> al_encoded demo_agent_libs es" for es by (simp add: demo_agent_libs_def)
  from padded_label_blocks_restart [OF this, of demo_idle] show ?thesis
    by (auto simp: demo_idle_def MaxDeclaredEndpointCount_def MaxEndpointCount_def Let_def)
qed

definition size_libs :: "unit manager_libs" where
  "size_libs = \<lparr>lib_RuntimeValid = (\<lambda>_. True), lib_ObjectSizeOK = (\<lambda>cs. case st_Target (cs_Status cs) of None \<Rightarrow> True
     | Some target \<Rightarrow> sum_list (map (length \<circ> ae_Label) (tg_Endpoints target)) \<le> 1048576)\<rparr>"

definition demo_stored :: AgentTarget where
  "demo_stored = \<lparr>tg_Version = 5, tg_Ready = True, tg_PrimaryContainerID = ''primary'', tg_WorkspaceFolder = ''/w'',
     tg_Endpoints = [\<lparr>ae_ID = WorkspaceEndpointID, ae_Label = WorkspaceEndpointLabel, ae_Public = False, ae_ContainerID = ''primary'',
       ae_Port = WorkspaceEndpointPort\<rparr>]\<rparr>"

theorem agent_target_accepted_witness:
  "ag_report (fold (agent_step demo_agent_libs) [demo_build, ReportBuilt] demo_fresh) = Some demo_built
   \<and> applyAgentReport size_libs (Some (demo_reporting (Some demo_built))) (demo_creating None)
       = Inr (stored_report None demo_stored None (demo_creating None))"
proof -
  let ?cs = "demo_creating None" and ?r = "demo_reporting (Some demo_built)"
  have run: "ag_report (fold (agent_step demo_agent_libs) [demo_build, ReportBuilt] demo_fresh) = Some demo_built"
    by (simp add: demo_build_step demo_steps del: agent_step.simps) (simp add: demo_starting_def)
  have pre: "is_startup (op_Type (operation ?cs))" "ar_OperationRversion ?r = op_Version (operation ?cs)" "check_result ?cs ?r = None"
    "apply_boot ?cs ?r = Inr None" "apply_result ?cs ?r = Inr None"
    "0 \<le> st_MetadataGeneration (cs_Status ?cs)" "st_MetadataGeneration (cs_Status ?cs) < max_int64" by code_simp+
  have rt: "ar_Target ?r = Some demo_built" by (simp add: demo_creating_simps)
  have es: "apply_endpoints (at_PrimaryContainerId demo_built) [] (at_Endpoints demo_built) = Inr (tg_Endpoints demo_stored)" by code_simp
  have "sum_list (map (length \<circ> ae_Label) (tg_Endpoints demo_stored)) \<le> 20" by code_simp
  then have fits: "lib_ObjectSizeOK size_libs (stored_report None demo_stored None ?cs)"
    by (simp add: size_libs_def stored_report_def)
  have stored: "demo_stored = \<lparr>tg_Version = at_Version demo_built, tg_Ready = True, tg_PrimaryContainerID = at_PrimaryContainerId demo_built,
        tg_WorkspaceFolder = at_WorkspaceFolder demo_built, tg_Endpoints = tg_Endpoints demo_stored\<rparr>"
    by (simp add: demo_stored_def demo_built_def accessTargetForContainer_def)
  have "\<not> target_refused demo_stored (st_Target (cs_Status ?cs))" by (simp add: target_refused_def demo_creating_simps)
  with agent_target_accepted [OF run rt pre, of size_libs] es fits stored run show ?thesis by auto
qed

lemma demo_bounds: "5 + int (length [demo_call]) \<le> max_int64" "list_all endpoint_event [demo_call]"
  by (simp_all add: max_int64_def)

theorem endpoint_changes_reported_witness:
  "(let started = fold (agent_step demo_agent_libs) (startup_events [] [] False 5 demo_container) demo_fresh
    in in_step started \<and> in_step (fold (agent_step demo_agent_libs) ([demo_call] @ [NotifyTarget, ConsumeTarget]) started))"
proof -
  let ?a = "fold (agent_step demo_agent_libs) (startup_events [] [] False 5 demo_container) demo_fresh"
  have a: "in_step ?a" using startup_in_step [OF demo_access] by simp
  have "ag_report ?a = Some demo_built"
    by (simp add: startup_events_def demo_build_step demo_steps del: agent_step.simps) (simp add: demo_starting_def)
  then have "\<forall>t. ag_report ?a = Some t \<longrightarrow> at_Version t + int (length [demo_call]) \<le> max_int64"
    using demo_bounds(1) by (simp add: demo_built_def accessTargetForContainer_def)
  from endpoint_changes_reported [OF refl a this demo_bounds(2)] a show ?thesis by (simp add: Let_def)
qed

end
