(* ===== verification/Access_Ticket.thy ===== *)
theory Access_Ticket
  imports Go_Http
begin

text \<open>
  The access tickets that the Manager signs and the Agent of a runtime verifies
  (\<open>internal/accessticket/ticket.go\<close>). Ed25519 and the protobuf encoding of the claims are the fields
  of \<open>ticket_library\<close>, an argument of every function that uses them; base64 is concrete. The clock
  and the random nonce are arguments. \<open>time.Unix\<close> keeps the wrap-around of its 64-bit seconds.
\<close>

section \<open>Unix seconds\<close>

definition unixToInternal :: int where
  "unixToInternal = 62135596800"

definition time_Unix :: "int \<Rightarrow> time" where
  "time_Unix s = wrap64 (s + unixToInternal) * second"

definition Unix :: "time \<Rightarrow> int" where
  "Unix t = wrap64 (t div second - unixToInternal)"

text \<open>The times whose seconds fit in 64 bits, as those of every clock do.\<close>

definition clock_time :: "time \<Rightarrow> bool" where
  "clock_time t \<longleftrightarrow> in_int64 (t div second - unixToInternal) \<and> in_int64 (t div second)"

lemma time_Unix_Unix: "clock_time t \<Longrightarrow> time_Unix (Unix t) = t div second * second"
  by (simp add: clock_time_def time_Unix_def Unix_def wrap64_id)

lemma floor_second: "t - second < t div second * second" "t div second * second \<le> t"
  using div_mult_mod_eq [of t second] pos_mod_sign [of second t] pos_mod_bound [of second t]
  by (auto simp: second_def)

section \<open>Claims\<close>

datatype AccessCapability =
    ACCESS_CAPABILITY_UNSPECIFIED
  | ACCESS_CAPABILITY_SHELL
  | ACCESS_CAPABILITY_COMMAND
  | ACCESS_CAPABILITY_SFTP
  | ACCESS_CAPABILITY_ENDPOINT
  | ACCESS_CAPABILITY_LOOPBACK_TCP
  | ACCESS_CAPABILITY_OTHER int

record AccessTicketClaims =
  ac_ProtocolVersion :: int
  ac_SiteUid :: string
  ac_ResourceUid :: string
  ac_RuntimeUuid :: string
  ac_PodUid :: string
  ac_TargetVersion :: int
  ac_Capability :: AccessCapability
  ac_EndpointId :: string
  ac_ExpiresUnix :: int
  ac_Nonce :: string

record ticket_library =
  ed25519_Sign :: "string \<Rightarrow> string \<Rightarrow> string"
  ed25519_Verify :: "string \<Rightarrow> string \<Rightarrow> string \<Rightarrow> bool"
  claims_Marshal :: "AccessTicketClaims \<Rightarrow> string option"
  claims_Unmarshal :: "string \<Rightarrow> AccessTicketClaims option"

datatype access_ticket_error =
    signingKeyInvalid
  | claimsRequired
  | nonceUnreadable
  | claimsUnmarshalable
  | ticketOrKeyInvalid
  | ticketEncodingInvalid
  | ticketPayloadInvalid
  | ticketSignatureInvalid
  | ticketIdentityIncomplete
  | ticketLifetimeInvalid
  | ticketEndpointMissing
  | ticketEndpointUnexpected
  | accessTargetUnavailable

definition ProtocolVersion :: int where
  "ProtocolVersion = 1"

definition MaxLifetime :: duration where
  "MaxLifetime = 2 * minute"

definition ed25519_PrivateKeySize :: nat where
  "ed25519_PrivateKeySize = 64"

definition ed25519_PublicKeySize :: nat where
  "ed25519_PublicKeySize = 32"

definition validate_claims :: "AccessTicketClaims \<Rightarrow> time \<Rightarrow> access_ticket_error option" where
  "validate_claims claims now =
     (if ac_ProtocolVersion claims \<noteq> ProtocolVersion \<or> ac_SiteUid claims = [] \<or> ac_ResourceUid claims = []
         \<or> ac_RuntimeUuid claims = [] \<or> ac_PodUid claims = [] \<or> ac_TargetVersion claims \<le> 0
         \<or> ac_Capability claims = ACCESS_CAPABILITY_UNSPECIFIED \<or> length (ac_Nonce claims) \<noteq> 16
      then Some ticketIdentityIncomplete
      else
        (let expires = time_Unix (ac_ExpiresUnix claims)
         in if \<not> now < expires \<or> expires > now + MaxLifetime then Some ticketLifetimeInvalid
            else if ac_Capability claims = ACCESS_CAPABILITY_ENDPOINT
            then (if ac_EndpointId claims = [] then Some ticketEndpointMissing else None)
            else if ac_EndpointId claims \<noteq> [] then Some ticketEndpointUnexpected
            else None))"

text \<open>The claims that \<open>Sign\<close> fills in, before it checks them.\<close>

definition fill_claims :: "AccessTicketClaims \<Rightarrow> (nat \<Rightarrow> string option) \<Rightarrow> access_ticket_error + AccessTicketClaims" where
  "fill_claims claims random =
     (let claims = claims\<lparr>ac_ProtocolVersion := ProtocolVersion\<rparr>
      in if ac_Nonce claims = []
         then (case random 16 of None \<Rightarrow> Inl nonceUnreadable | Some nonce \<Rightarrow> Inr (claims\<lparr>ac_Nonce := nonce\<rparr>))
         else Inr claims)"

definition Sign ::
  "ticket_library \<Rightarrow> string \<Rightarrow> AccessTicketClaims option \<Rightarrow> time \<Rightarrow> (nat \<Rightarrow> string option) \<Rightarrow> access_ticket_error + string" where
  "Sign lib privateKey claims now random =
     (if length privateKey \<noteq> ed25519_PrivateKeySize then Inl signingKeyInvalid
      else case claims of
        None \<Rightarrow> Inl claimsRequired
      | Some claims \<Rightarrow>
          (case fill_claims claims random of
             Inl err \<Rightarrow> Inl err
           | Inr claims \<Rightarrow>
               (case validate_claims claims now of
                  Some err \<Rightarrow> Inl err
                | None \<Rightarrow>
                    (case claims_Marshal lib claims of
                       None \<Rightarrow> Inl claimsUnmarshalable
                     | Some payload \<Rightarrow>
                         Inr (RawURLEncode payload @ ''.'' @ RawURLEncode (ed25519_Sign lib privateKey payload))))))"

text \<open>The payload and the signature of a token.\<close>

definition token_parts :: "string \<Rightarrow> access_ticket_error + (string \<times> string)" where
  "token_parts token =
     (case Split (CHR ''.'') token of
        [a, b] \<Rightarrow> if a = [] \<or> b = [] then Inl ticketEncodingInvalid else Inr (a, b)
      | _ \<Rightarrow> Inl ticketEncodingInvalid)"

definition Verify :: "ticket_library \<Rightarrow> string \<Rightarrow> string \<Rightarrow> time \<Rightarrow> access_ticket_error + AccessTicketClaims" where
  "Verify lib publicKey token now =
     (if length publicKey \<noteq> ed25519_PublicKeySize \<or> length token > 4096 then Inl ticketOrKeyInvalid
      else case token_parts token of
        Inl err \<Rightarrow> Inl err
      | Inr (a, b) \<Rightarrow>
          (case RawURLDecode a of
             None \<Rightarrow> Inl ticketPayloadInvalid
           | Some payload \<Rightarrow>
               if length payload > 2048 then Inl ticketPayloadInvalid
               else case RawURLDecode b of
                 None \<Rightarrow> Inl ticketSignatureInvalid
               | Some signature \<Rightarrow>
                   if \<not> ed25519_Verify lib publicKey payload signature then Inl ticketSignatureInvalid
                   else case claims_Unmarshal lib payload of
                     None \<Rightarrow> Inl ticketPayloadInvalid
                   | Some claims \<Rightarrow>
                       (case validate_claims claims now of Some err \<Rightarrow> Inl err | None \<Rightarrow> Inr claims)))"

section \<open>Tokens\<close>

lemma RawURLEncode_chars: "c \<in> set (RawURLEncode s) \<Longrightarrow> c \<in> set b64_alphabet"
proof -
  assume "c \<in> set (RawURLEncode s)"
  then obtain x where x: "x \<in> set (sextets_of (map of_char s))" "c = b64_alphabet ! x" by (auto simp: RawURLEncode_def)
  have "x < 64" using sextets_bound [of "map of_char s"] x(1) by simp
  moreover have "length b64_alphabet = 64" by (simp add: b64_alphabet_def)
  ultimately show ?thesis using x(2) by (metis nth_mem)
qed

lemma RawURLEncode_no_dot: "CHR ''.'' \<notin> set (RawURLEncode s)"
proof
  assume "CHR ''.'' \<in> set (RawURLEncode s)"
  then have "CHR ''.'' \<in> set b64_alphabet" by (rule RawURLEncode_chars)
  then show False by (simp add: b64_alphabet_def)
qed

lemma sextets_length: "3 * length (sextets_of bs) \<le> 4 * length bs + 2"
  by (induction bs rule: sextets_of.induct) auto

lemma RawURLEncode_length: "3 * length (RawURLEncode s) \<le> 4 * length s + 2"
  using sextets_length [of "map of_char s"] by (simp add: RawURLEncode_def)

text \<open>What \<open>Verify\<close> reads from the token that \<open>Sign\<close> prints.\<close>

lemma token_parts_signed:
  "payload \<noteq> [] \<Longrightarrow> sig \<noteq> [] \<Longrightarrow>
     token_parts (RawURLEncode payload @ CHR ''.'' # RawURLEncode sig) = Inr (RawURLEncode payload, RawURLEncode sig)"
  by (simp add: token_parts_def Split_append [OF RawURLEncode_no_dot] Split_single [OF RawURLEncode_no_dot] RawURLEncode_nonempty)

lemma fill_claimsD:
  assumes "fill_claims c random = Inr c'"
  shows "\<exists>nonce. c' = c\<lparr>ac_ProtocolVersion := ProtocolVersion, ac_Nonce := nonce\<rparr> \<and> (ac_Nonce c \<noteq> [] \<longrightarrow> nonce = ac_Nonce c)"
proof (cases "ac_Nonce c = []")
  case True
  then show ?thesis using assms by (auto simp: fill_claims_def Let_def split: option.splits)
next
  case False
  then have "c' = c\<lparr>ac_ProtocolVersion := ProtocolVersion, ac_Nonce := ac_Nonce c\<rparr>"
    using assms by (cases c) (auto simp: fill_claims_def)
  then show ?thesis by blast
qed

lemma Sign_Inr:
  "Sign lib key claims now random = Inr token \<longleftrightarrow>
     length key = ed25519_PrivateKeySize \<and>
     (\<exists>c c' payload. claims = Some c \<and> fill_claims c random = Inr c' \<and> validate_claims c' now = None
        \<and> claims_Marshal lib c' = Some payload
        \<and> token = RawURLEncode payload @ ''.'' @ RawURLEncode (ed25519_Sign lib key payload))"
  by (auto simp: Sign_def split: option.splits sum.splits)

lemma Verify_Inr:
  "Verify lib pub token now = Inr c \<longleftrightarrow>
     length pub = ed25519_PublicKeySize \<and> length token \<le> 4096 \<and>
     (\<exists>a b payload sig. token_parts token = Inr (a, b) \<and> RawURLDecode a = Some payload \<and> length payload \<le> 2048
        \<and> RawURLDecode b = Some sig \<and> ed25519_Verify lib pub payload sig \<and> claims_Unmarshal lib payload = Some c
        \<and> validate_claims c now = None)"
  by (auto simp: Verify_def split: option.splits sum.splits prod.splits)

text \<open>
  What the code relies on of Ed25519 and of protobuf: signatures of the key pair verify and are 64
  bytes; decoding what was encoded gives the claims back, and the empty message has no field set.
\<close>

definition zero_claims :: AccessTicketClaims where
  "zero_claims = \<lparr>ac_ProtocolVersion = 0, ac_SiteUid = [], ac_ResourceUid = [], ac_RuntimeUuid = [], ac_PodUid = [],
     ac_TargetVersion = 0, ac_Capability = ACCESS_CAPABILITY_UNSPECIFIED, ac_EndpointId = [], ac_ExpiresUnix = 0, ac_Nonce = []\<rparr>"

definition signing_pair :: "ticket_library \<Rightarrow> string \<Rightarrow> string \<Rightarrow> bool" where
  "signing_pair lib key pub \<longleftrightarrow>
     length pub = ed25519_PublicKeySize \<and>
     (\<forall>m. ed25519_Verify lib pub m (ed25519_Sign lib key m) \<and> length (ed25519_Sign lib key m) = 64)"

definition claims_codec :: "ticket_library \<Rightarrow> bool" where
  "claims_codec lib \<longleftrightarrow>
     (\<forall>c payload. claims_Marshal lib c = Some payload \<longrightarrow> claims_Unmarshal lib payload = Some c)
     \<and> claims_Unmarshal lib [] = Some zero_claims"

lemma codec_nonempty:
  assumes "claims_codec lib" and "claims_Marshal lib c = Some payload" and "validate_claims c now = None"
  shows "claims_Unmarshal lib payload = Some c" and "payload \<noteq> []"
proof -
  show u: "claims_Unmarshal lib payload = Some c" using assms(1,2) by (simp add: claims_codec_def)
  show "payload \<noteq> []"
  proof
    assume "payload = []"
    then have "c = zero_claims" using u assms(1) by (simp add: claims_codec_def)
    then show False using assms(3) by (simp add: validate_claims_def zero_claims_def ProtocolVersion_def)
  qed
qed

lemma Verify_signed:
  assumes "signing_pair lib key pub" and "claims_Unmarshal lib payload = Some c" and "payload \<noteq> []" and "length payload \<le> 2048"
  shows "Verify lib pub (RawURLEncode payload @ ''.'' @ RawURLEncode (ed25519_Sign lib key payload)) now =
    (case validate_claims c now of None \<Rightarrow> Inr c | Some err \<Rightarrow> Inl err)"
proof -
  let ?s = "ed25519_Sign lib key payload"
  have s: "length ?s = 64" "ed25519_Verify lib pub payload ?s" "length pub = ed25519_PublicKeySize"
    using assms(1) by (simp_all add: signing_pair_def)
  have "3 * length (RawURLEncode payload) \<le> 4 * 2048 + 2" "3 * length (RawURLEncode ?s) \<le> 4 * 64 + 2"
    using RawURLEncode_length [of payload] RawURLEncode_length [of ?s] assms(4) s(1) by linarith+
  then have "length (RawURLEncode payload @ ''.'' @ RawURLEncode ?s) \<le> 4096" by simp
  moreover have "?s \<noteq> []" using s(1) by auto
  ultimately show ?thesis
    using assms(2,3,4) s by (simp add: Verify_def token_parts_signed RawURL_roundtrip split: option.splits)
qed

text \<open>
  A signed ticket verifies to the very claims that were signed, with the protocol version and the
  nonce filled in, during the last two minutes before it expires, and is refused for its lifetime at
  every other time; it verifies at the moment it was signed. The size limits of \<open>Verify\<close> never refuse
  a ticket whose payload is at most 2048 bytes.
\<close>

theorem access_ticket_roundtrip:
  assumes "signing_pair lib key pub" and "claims_codec lib"
    and "fill_claims claims random = Inr filled" and "claims_Marshal lib filled = Some payload" and "length payload \<le> 2048"
    and "Sign lib key (Some claims) issued random = Inr token"
  shows "Verify lib pub token now =
      (if now < time_Unix (ac_ExpiresUnix claims) \<and> time_Unix (ac_ExpiresUnix claims) \<le> now + MaxLifetime
       then Inr filled else Inl ticketLifetimeInvalid)
    \<and> Verify lib pub token issued = Inr filled"
proof -
  have v: "validate_claims filled issued = None" and
    t: "token = RawURLEncode payload @ ''.'' @ RawURLEncode (ed25519_Sign lib key payload)"
    using assms(3,4,6) by (auto simp: Sign_Inr)
  note verify = Verify_signed [OF assms(1) codec_nonempty [OF assms(2,4) v] assms(5)]
  have e: "ac_ExpiresUnix filled = ac_ExpiresUnix claims" using fill_claimsD [OF assms(3)] by auto
  have "validate_claims filled now =
    (if now < time_Unix (ac_ExpiresUnix claims) \<and> time_Unix (ac_ExpiresUnix claims) \<le> now + MaxLifetime
     then None else Some ticketLifetimeInvalid)"
    using v by (auto simp: validate_claims_def Let_def e split: if_splits)
  then show ?thesis using verify v by (simp add: t)
qed

section \<open>Examples\<close>

text \<open>A signature scheme and an encoding that satisfy the laws.\<close>

definition demo_signature :: "string \<Rightarrow> string \<Rightarrow> string" where
  "demo_signature key m = replicate 64 (CHR ''s'')"

definition demo_claims :: AccessTicketClaims where
  "demo_claims = \<lparr>ac_ProtocolVersion = 1, ac_SiteUid = ''site'', ac_ResourceUid = ''resource'', ac_RuntimeUuid = ''runtime'',
     ac_PodUid = ''pod'', ac_TargetVersion = 3, ac_Capability = ACCESS_CAPABILITY_ENDPOINT, ac_EndpointId = ''workspace'',
     ac_ExpiresUnix = 60, ac_Nonce = replicate 16 (CHR ''n'')\<rparr>"

definition demo_tickets :: ticket_library where
  "demo_tickets = \<lparr>ed25519_Sign = demo_signature, ed25519_Verify = (\<lambda>pub m s. s = demo_signature [] m),
     claims_Marshal = (\<lambda>c. if c = demo_claims then Some ''claims'' else None),
     claims_Unmarshal = (\<lambda>p. if p = ''claims'' then Some demo_claims else if p = [] then Some zero_claims else None)\<rparr>"

definition demo_epoch :: time where
  "demo_epoch = unixToInternal * second"

lemma demo_tickets_laws: "signing_pair demo_tickets key (replicate 32 (CHR ''k''))" "claims_codec demo_tickets"
  by (auto simp: signing_pair_def claims_codec_def demo_tickets_def demo_signature_def ed25519_PublicKeySize_def)

lemma time_Unix_60: "time_Unix 60 = demo_epoch + minute"
  by (simp add: time_Unix_def demo_epoch_def unixToInternal_def wrap64_def duration_units)

theorem access_ticket_roundtrip_witness:
  "\<exists>token. Sign demo_tickets (replicate 64 (CHR ''p'')) (Some demo_claims) demo_epoch (\<lambda>_. None) = Inr token
    \<and> Verify demo_tickets (replicate 32 (CHR ''k'')) token (demo_epoch + 30 * second) = Inr demo_claims
    \<and> Verify demo_tickets (replicate 32 (CHR ''k'')) token (demo_epoch + 60 * second) = Inl ticketLifetimeInvalid"
proof -
  let ?key = "replicate 64 (CHR ''p'')"
  have f: "fill_claims demo_claims (\<lambda>_. None) = Inr demo_claims"
    by (simp add: fill_claims_def demo_claims_def ProtocolVersion_def)
  have m: "claims_Marshal demo_tickets demo_claims = Some ''claims''" by (simp add: demo_tickets_def)
  have "validate_claims demo_claims demo_epoch = None"
    by (simp add: validate_claims_def demo_claims_def ProtocolVersion_def time_Unix_60 MaxLifetime_def duration_units)
  then obtain token where t: "Sign demo_tickets ?key (Some demo_claims) demo_epoch (\<lambda>_. None) = Inr token"
    using f m by (auto simp: Sign_Inr ed25519_PrivateKeySize_def)
  have x: "ac_ExpiresUnix demo_claims = 60" by (simp add: demo_claims_def)
  note r = access_ticket_roundtrip [OF demo_tickets_laws f m _ t]
  show ?thesis
    using t r [of "demo_epoch + 30 * second"] r [of "demo_epoch + 60 * second"]
    by (simp add: x time_Unix_60 MaxLifetime_def duration_units)
qed

end
