(* ===== verification/Component_Server.thy ===== *)
theory Component_Server
  imports Access_Ticket Agent_Report Gateway_Handler Route_Leases Runtime_Activity "HOL-Library.List_Lexorder" "HOL-Library.Char_ord"
begin

text \<open>
  What the Manager tells a Gateway (\<open>internal/cluster/component.go\<close>, \<open>access_ticket.go\<close>): the snapshot
  of routes, the authorization that it asks Gitea for, and the access tickets for Agents. With it the
  Gateway's side of these calls (\<open>internal/gateway/component_control.go\<close> and \<open>gatewayRuntimes\<close> of
  \<open>run.go\<close>). Reads of the API server and the answers of Gitea are arguments; \<open>None\<close> is an object
  that does not exist.
\<close>

section \<open>What is read\<close>

text \<open>The fields of \<open>GiteaSite\<close>, of a pod and of a request that the functions below read.\<close>

record GatewaySite =
  si_Name :: string
  si_UID :: string
  si_Enabled :: bool
  si_GatewayUID :: string
  si_CanonicalURL :: string
  si_Deleting :: bool
  si_Generation :: int
  si_Conditions :: "Condition list"

record PodObject =
  po_UID :: string
  po_ControllerUID :: "string option"
  po_Deleting :: bool
  po_Running :: bool
  po_PodIPs :: "string list"
  po_PodIP :: string

record componentIdentity =
  ci_Role :: string
  ci_UID :: string

record 'raw component_reads =
  rd_Index :: bool
  rd_ByUUID :: "string \<Rightarrow> manager_error + 'raw Codespace list"
  rd_Codespace :: "string \<Rightarrow> string \<Rightarrow> manager_error + 'raw Codespace"
  rd_Site :: "string \<Rightarrow> manager_error + GatewaySite option"
  rd_Pod :: "string \<Rightarrow> string \<Rightarrow> manager_error + PodObject option"

datatype component_error =
    identityUnauthorized
  | protocolUnsupported
  | accessRequestInvalid
  | identityIndexUnavailable
  | readFailed manager_error
  | objectMissing
  | runtimeUnavailable
  | accessUnavailable
  | endpointUnavailable
  | endpointUnexpected
  | ticketRefused access_ticket_error
  | openTargetIncomplete
  | authorizationMissing
  | siteUnreachable
  | outcomeInvalid
  | authorizationWithoutSite
  | siteDiffers
  | publicAddressRequired

definition componentIdentityFromContext :: "componentIdentity option \<Rightarrow> string \<Rightarrow> component_error + componentIdentity" where
  "componentIdentityFromContext identity role =
     (case identity of
        None \<Rightarrow> Inl identityUnauthorized
      | Some i \<Rightarrow> if ci_Role i \<noteq> role \<or> ci_UID i = [] then Inl identityUnauthorized else Inr i)"

section \<open>Routes\<close>

definition route_address :: "('a, 'p) go_library \<Rightarrow> PodObject \<Rightarrow> string" where
  "route_address lib pod =
     (case find (\<lambda>ip. parseIP lib ip \<noteq> None) (po_PodIPs pod) of
        Some ip \<Rightarrow> JoinHostPort ip ''8444''
      | None \<Rightarrow> if parseIP lib (po_PodIP pod) \<noteq> None then JoinHostPort (po_PodIP pod) ''8444'' else [])"

text \<open>Whether a codespace may have a route, before its site and its pod are read.\<close>

definition route_candidate :: "'raw Codespace \<Rightarrow> bool" where
  "route_candidate cs \<longleftrightarrow>
     \<not> (cs_Deleting cs \<or> \<not> st_Bound (cs_Status cs) \<or> st_RecoveryAction (cs_Status cs) \<noteq> [] \<or>
        (case st_Target (cs_Status cs) of None \<Rightarrow> True | Some target \<Rightarrow> \<not> tg_Ready target) \<or> st_PodUID (cs_Status cs) = [])
     \<and> op_Type (operation cs) \<notin> {''stop'', ''delete'', ''abort_create'', ''abort_resume''}
     \<and> \<not> (case st_Result (cs_Status cs) of None \<Rightarrow> False | Some result \<Rightarrow>
            or_Version result = op_Version (operation cs) \<and> \<not> or_Succeeded result)"

definition site_serves :: "GatewaySite \<Rightarrow> string \<Rightarrow> bool" where
  "site_serves site gatewayUID \<longleftrightarrow>
     \<not> (\<not> si_Enabled site \<or> si_GatewayUID site \<noteq> gatewayUID \<or> si_CanonicalURL site = [] \<or> si_Deleting site \<or>
        (case FindStatusCondition (si_Conditions site) ''InfrastructureReady'' of
           None \<Rightarrow> True
         | Some ready \<Rightarrow> \<not> cd_True ready \<or> cd_ObservedGeneration ready \<noteq> si_Generation site))"

definition route_snapshot :: "'raw Codespace \<Rightarrow> AgentTarget \<Rightarrow> GatewaySite \<Rightarrow> PodObject \<Rightarrow> string \<Rightarrow> runtimeSnapshot" where
  "route_snapshot cs target site pod address =
     \<lparr>rt_SiteUID = sp_SiteUID (cs_Spec cs), rt_ResourceUID = cs_UID cs, rt_RuntimeUUID = sp_RuntimeUUID (cs_Spec cs),
      rt_GiteaWebURL = si_CanonicalURL site, rt_PodUID = po_UID pod, rt_AgentAddress = address,
      rt_TargetVersion = tg_Version target,
      rt_Endpoints = sort_key es_EndpointID
        (map (\<lambda>e. \<lparr>es_EndpointID = ae_ID e, es_Label = ae_Label e, es_Public = ae_Public e\<rparr>) (tg_Endpoints target))\<rparr>"

definition route ::
  "('a, 'p) go_library \<Rightarrow> 'raw component_reads \<Rightarrow> 'raw Codespace \<Rightarrow> string \<Rightarrow> component_error + runtimeSnapshot option" where
  "route lib reads cs gatewayUID =
     (if \<not> route_candidate cs then Inr None
      else case rd_Site reads (sp_SiteName (cs_Spec cs)) of
        Inl err \<Rightarrow> Inl (readFailed err)
      | Inr None \<Rightarrow> Inr None
      | Inr (Some site) \<Rightarrow>
          if si_UID site \<noteq> sp_SiteUID (cs_Spec cs) then Inr None
          else if \<not> site_serves site gatewayUID then Inr None
          else case rd_Pod reads (cs_Namespace cs) (st_PodName (cs_Status cs)) of
            Inl err \<Rightarrow> Inl (readFailed err)
          | Inr None \<Rightarrow> Inr None
          | Inr (Some pod) \<Rightarrow>
              if po_UID pod \<noteq> st_PodUID (cs_Status cs) \<or> po_ControllerUID pod \<noteq> Some (cs_UID cs) then Inr None
              else if po_Deleting pod \<or> \<not> po_Running pod then Inr None
              else if route_address lib pod = [] then Inr None
              else Inr (map_option (\<lambda>target. route_snapshot cs target site pod (route_address lib pod)) (st_Target (cs_Status cs))))"

text \<open>The routes of the sites of a Gateway; \<open>listed\<close> gives the codespaces of a site.\<close>

fun runtime_routes ::
  "('a, 'p) go_library \<Rightarrow> 'raw component_reads \<Rightarrow> string \<Rightarrow> 'raw Codespace list \<Rightarrow> component_error + runtimeSnapshot list" where
  "runtime_routes lib reads gatewayUID [] = Inr []"
| "runtime_routes lib reads gatewayUID (cs # rows) =
     (case route lib reads cs gatewayUID of
        Inl err \<Rightarrow> Inl err
      | Inr r \<Rightarrow>
          (case runtime_routes lib reads gatewayUID rows of
             Inl err \<Rightarrow> Inl err
           | Inr rest \<Rightarrow> Inr ((case r of None \<Rightarrow> [] | Some s \<Rightarrow> [s]) @ rest)))"

fun site_routes ::
  "('a, 'p) go_library \<Rightarrow> 'raw component_reads \<Rightarrow> (GatewaySite \<Rightarrow> manager_error + 'raw Codespace list) \<Rightarrow> string \<Rightarrow> GatewaySite list \<Rightarrow>
     component_error + runtimeSnapshot list" where
  "site_routes lib reads listed gatewayUID [] = Inr []"
| "site_routes lib reads listed gatewayUID (site # sites) =
     (if \<not> si_Enabled site \<or> si_GatewayUID site \<noteq> gatewayUID
         \<or> \<not> IsStatusConditionTrue (si_Conditions site) ''InfrastructureReady''
      then site_routes lib reads listed gatewayUID sites
      else case listed site of
        Inl err \<Rightarrow> Inl (readFailed err)
      | Inr rows \<Rightarrow>
          (case runtime_routes lib reads gatewayUID rows of
             Inl err \<Rightarrow> Inl err
           | Inr found \<Rightarrow> map_sum id (append found) (site_routes lib reads listed gatewayUID sites)))"

definition gatewaySnapshot ::
  "('a, 'p) go_library \<Rightarrow> 'raw component_reads \<Rightarrow> (GatewaySite \<Rightarrow> manager_error + 'raw Codespace list) \<Rightarrow>
     manager_error + GatewaySite list \<Rightarrow> string \<Rightarrow> string \<Rightarrow> string \<Rightarrow> component_error + runtimeSnapshot list" where
  "gatewaySnapshot lib reads listed sites publicURL sshAddress gatewayUID =
     (if publicURL = [] \<or> sshAddress = [] then Inl publicAddressRequired
      else case sites of
        Inl err \<Rightarrow> Inl (readFailed err)
      | Inr sites \<Rightarrow> map_sum id (sort_key rt_RuntimeUUID) (site_routes lib reads listed gatewayUID sites))"

text \<open>What the Gateway makes of the routes it receives.\<close>

definition gatewayRuntimes :: "runtimeSnapshot list \<Rightarrow> runtimeSnapshot list" where
  "gatewayRuntimes routes = filter (\<lambda>r. validAgentAddress (rt_AgentAddress r)) routes"

section \<open>Live reads\<close>

definition runtimeForGateway ::
  "'raw component_reads \<Rightarrow> componentIdentity \<Rightarrow> string \<Rightarrow> component_error + ('raw Codespace \<times> GatewaySite)" where
  "runtimeForGateway reads identity runtimeUUID =
     (if \<not> rd_Index reads then Inl identityIndexUnavailable
      else case rd_ByUUID reads runtimeUUID of
        Inl err \<Rightarrow> Inl (readFailed err)
      | Inr rows \<Rightarrow>
          (case rows of
             [indexed] \<Rightarrow>
               (case rd_Codespace reads (cs_Namespace indexed) (cs_Name indexed) of
                  Inl err \<Rightarrow> Inl (readFailed err)
                | Inr cs \<Rightarrow>
                    if cs_UID cs \<noteq> cs_UID indexed \<or> sp_RuntimeUUID (cs_Spec cs) \<noteq> runtimeUUID \<or> cs_Deleting cs
                    then Inl runtimeUnavailable
                    else case rd_Site reads (sp_SiteName (cs_Spec cs)) of
                      Inl err \<Rightarrow> Inl (readFailed err)
                    | Inr None \<Rightarrow> Inl objectMissing
                    | Inr (Some site) \<Rightarrow>
                        if si_UID site \<noteq> sp_SiteUID (cs_Spec cs) \<or> \<not> si_Enabled site \<or> si_GatewayUID site \<noteq> ci_UID identity
                           \<or> si_Deleting site
                        then Inl runtimeUnavailable
                        else Inr (cs, site))
           | _ \<Rightarrow> Inl runtimeUnavailable))"

section \<open>Access tickets\<close>

definition Issue ::
  "ticket_library \<Rightarrow> string option \<Rightarrow> 'raw Codespace \<Rightarrow> AccessCapability \<Rightarrow> string \<Rightarrow> duration \<Rightarrow> time \<Rightarrow> (nat \<Rightarrow> string option) \<Rightarrow>
     access_ticket_error + string" where
  "Issue lib signer cs capability endpointID lifetime now random =
     (case (signer, st_Target (cs_Status cs)) of
        (Some key, Some target) \<Rightarrow>
          if st_PodUID (cs_Status cs) = [] \<or> \<not> tg_Ready target then Inl accessTargetUnavailable
          else if lifetime \<le> 0 \<or> lifetime > MaxLifetime then Inl ticketLifetimeInvalid
          else Sign lib key (Some
            \<lparr>ac_ProtocolVersion = 0, ac_SiteUid = sp_SiteUID (cs_Spec cs), ac_ResourceUid = cs_UID cs,
             ac_RuntimeUuid = sp_RuntimeUUID (cs_Spec cs), ac_PodUid = st_PodUID (cs_Status cs),
             ac_TargetVersion = tg_Version target, ac_Capability = capability, ac_EndpointId = endpointID,
             ac_ExpiresUnix = Unix (now + lifetime), ac_Nonce = []\<rparr>) now random
      | _ \<Rightarrow> Inl accessTargetUnavailable)"

record IssueAgentAccessRequest =
  ia_ProtocolVersion :: int
  ia_RuntimeUuid :: string
  ia_Capability :: AccessCapability
  ia_EndpointId :: string

definition endpoint_requested :: "'raw Codespace \<Rightarrow> IssueAgentAccessRequest \<Rightarrow> component_error option" where
  "endpoint_requested cs request =
     (if ia_Capability request = ACCESS_CAPABILITY_ENDPOINT
      then (if (case st_Target (cs_Status cs) of None \<Rightarrow> False | Some target \<Rightarrow>
                  list_ex (\<lambda>e. ae_ID e = ia_EndpointId request) (tg_Endpoints target))
            then None else Some endpointUnavailable)
      else if ia_EndpointId request \<noteq> [] then Some endpointUnexpected
      else None)"

definition IssueAgentAccess ::
  "('a, 'p) go_library \<Rightarrow> ticket_library \<Rightarrow> string option \<Rightarrow> 'raw component_reads \<Rightarrow> componentIdentity option \<Rightarrow>
     IssueAgentAccessRequest \<Rightarrow> time \<Rightarrow> (nat \<Rightarrow> string option) \<Rightarrow> component_error + (runtimeSnapshot \<times> string)" where
  "IssueAgentAccess lib tlib signer reads identity request now random =
     (case componentIdentityFromContext identity ''gateway'' of
        Inl err \<Rightarrow> Inl err
      | Inr i \<Rightarrow>
          if ia_ProtocolVersion request \<noteq> 1 \<or> ia_Capability request = ACCESS_CAPABILITY_UNSPECIFIED then Inl accessRequestInvalid
          else case runtimeForGateway reads i (ia_RuntimeUuid request) of
            Inl err \<Rightarrow> Inl err
          | Inr (cs, _) \<Rightarrow>
              (case route lib reads cs (ci_UID i) of
                 Inl err \<Rightarrow> Inl err
               | Inr None \<Rightarrow> Inl accessUnavailable
               | Inr (Some r) \<Rightarrow>
                   (case endpoint_requested cs request of
                      Some err \<Rightarrow> Inl err
                    | None \<Rightarrow>
                        (case Issue tlib signer cs (ia_Capability request) (ia_EndpointId request) minute now random of
                           Inl err \<Rightarrow> Inl (ticketRefused err)
                         | Inr ticket \<Rightarrow> Inr (r, ticket)))))"

section \<open>Authorization\<close>

datatype gateway_request =
    OpenCode string string string
  | PublicEndpoint string string
  | SshPublicKey string string
  | EndpointSession string int string string
  | SshSession string int string
  | NoGatewayRequest

datatype open_outcome = OpenAllowed string string int int | OpenDenied string | OpenUndecided

datatype user_outcome = UserAllowed int int | UserDenied string | UserUndecided

datatype outcome = OutcomeAllowed | OutcomeDenied string | OutcomeUndecided

text \<open>The calls of Gitea that the Manager makes for a Gateway, \<open>None\<close> when a call fails.\<close>

record gitea_client =
  gc_ValidateOpenToken :: "string \<Rightarrow> open_outcome option"
  gc_ValidatePublicEndpoint :: "string \<Rightarrow> string \<Rightarrow> outcome option"
  gc_VerifySSHPublicKey :: "string \<Rightarrow> string \<Rightarrow> user_outcome option"
  gc_RevalidateEndpoint :: "int \<Rightarrow> string \<Rightarrow> string \<Rightarrow> outcome option"
  gc_RevalidateSSH :: "int \<Rightarrow> string \<Rightarrow> outcome option"

record AuthorizeGatewayResponse =
  az_Allowed :: bool
  az_SiteUid :: string
  az_UserId :: int
  az_RuntimeUuid :: string
  az_EndpointId :: string
  az_DeniedCategory :: string

definition gatewayDenied :: "string \<Rightarrow> AuthorizeGatewayResponse" where
  "gatewayDenied category =
     \<lparr>az_Allowed = False, az_SiteUid = [], az_UserId = 0, az_RuntimeUuid = [], az_EndpointId = [], az_DeniedCategory = category\<rparr>"

text \<open>An answer of Gitea that only allows or denies, put into the response.\<close>

definition with_outcome :: "outcome \<Rightarrow> AuthorizeGatewayResponse \<Rightarrow> AuthorizeGatewayResponse" where
  "with_outcome result response =
     (let response = response\<lparr>az_Allowed := (result = OutcomeAllowed)\<rparr>
      in case result of OutcomeDenied category \<Rightarrow> response\<lparr>az_DeniedCategory := category\<rparr> | _ \<Rightarrow> response)"

definition observe :: "string \<Rightarrow> string \<Rightarrow> int \<Rightarrow> time \<Rightarrow> RuntimeActivityTracker option \<Rightarrow> RuntimeActivityTracker option" where
  "observe siteUID runtimeUUID generation now activity = map_option (ObserveInteraction siteUID runtimeUUID generation now) activity"

definition authorize_open ::
  "'raw component_reads \<Rightarrow> (GatewaySite \<Rightarrow> gitea_client option) \<Rightarrow> componentIdentity \<Rightarrow> string \<Rightarrow> string \<Rightarrow> string \<Rightarrow> time \<Rightarrow>
     RuntimeActivityTracker option \<Rightarrow> (component_error + AuthorizeGatewayResponse) \<times> RuntimeActivityTracker option" where
  "authorize_open reads remote i code runtimeUUID endpointID now activity =
     (if TrimSpace code = [] \<or> TrimSpace runtimeUUID = [] \<or> TrimSpace endpointID = [] then (Inl openTargetIncomplete, activity)
      else case runtimeForGateway reads i runtimeUUID of
        Inl _ \<Rightarrow> (Inr (gatewayDenied ''runtime_unavailable''), activity)
      | Inr (_, site) \<Rightarrow>
          (case remote site of
             None \<Rightarrow> (Inl siteUnreachable, activity)
           | Some client \<Rightarrow>
               (case gc_ValidateOpenToken client code of
                  None \<Rightarrow> (Inl siteUnreachable, activity)
                | Some (OpenAllowed runtime' endpoint' user generation) \<Rightarrow>
                    if runtime' \<noteq> runtimeUUID \<or> endpoint' \<noteq> endpointID then (Inr (gatewayDenied ''target_mismatch''), activity)
                    else (Inr \<lparr>az_Allowed = True, az_SiteUid = si_UID site, az_UserId = user, az_RuntimeUuid = runtime',
                               az_EndpointId = endpoint', az_DeniedCategory = []\<rparr>,
                          observe (si_UID site) runtime' generation now activity)
                | Some (OpenDenied category) \<Rightarrow> (Inr (gatewayDenied category), activity)
                | Some OpenUndecided \<Rightarrow> (Inl outcomeInvalid, activity))))"

fun request_runtime :: "gateway_request \<Rightarrow> string option" where
  "request_runtime (PublicEndpoint runtimeUUID _) = Some runtimeUUID"
| "request_runtime (SshPublicKey runtimeUUID _) = Some runtimeUUID"
| "request_runtime (EndpointSession _ _ runtimeUUID _) = Some runtimeUUID"
| "request_runtime (SshSession _ _ runtimeUUID) = Some runtimeUUID"
| "request_runtime _ = None"

fun authorize_runtime ::
  "GatewaySite \<Rightarrow> gitea_client \<Rightarrow> string \<Rightarrow> gateway_request \<Rightarrow> time \<Rightarrow> RuntimeActivityTracker option \<Rightarrow>
     (component_error + AuthorizeGatewayResponse) \<times> RuntimeActivityTracker option" where
  "authorize_runtime site client runtimeUUID (PublicEndpoint _ endpointID) now activity =
     (case gc_ValidatePublicEndpoint client runtimeUUID endpointID of
        None \<Rightarrow> (Inl siteUnreachable, activity)
      | Some result \<Rightarrow>
          (Inr (with_outcome result ((gatewayDenied [])\<lparr>az_SiteUid := si_UID site, az_RuntimeUuid := runtimeUUID, az_EndpointId := endpointID\<rparr>)),
           activity))"
| "authorize_runtime site client runtimeUUID (SshPublicKey _ publicKey) now activity =
     (let response = (gatewayDenied [])\<lparr>az_SiteUid := si_UID site, az_RuntimeUuid := runtimeUUID\<rparr>
      in case gc_VerifySSHPublicKey client runtimeUUID publicKey of
           None \<Rightarrow> (Inl siteUnreachable, activity)
         | Some (UserAllowed user generation) \<Rightarrow>
             (Inr (response\<lparr>az_Allowed := True, az_UserId := user\<rparr>), observe (si_UID site) runtimeUUID generation now activity)
         | Some (UserDenied category) \<Rightarrow> (Inr (response\<lparr>az_DeniedCategory := category\<rparr>), activity)
         | Some UserUndecided \<Rightarrow> (Inr response, activity))"
| "authorize_runtime site client runtimeUUID (EndpointSession siteUID user _ endpointID) now activity =
     (if siteUID \<noteq> si_UID site then (Inr (gatewayDenied ''site_mismatch''), activity)
      else case gc_RevalidateEndpoint client user runtimeUUID endpointID of
        None \<Rightarrow> (Inl siteUnreachable, activity)
      | Some result \<Rightarrow>
          (Inr (with_outcome result ((gatewayDenied [])\<lparr>az_SiteUid := si_UID site, az_RuntimeUuid := runtimeUUID,
             az_UserId := user, az_EndpointId := endpointID\<rparr>)), activity))"
| "authorize_runtime site client runtimeUUID (SshSession siteUID user _) now activity =
     (if siteUID \<noteq> si_UID site then (Inr (gatewayDenied ''site_mismatch''), activity)
      else case gc_RevalidateSSH client user runtimeUUID of
        None \<Rightarrow> (Inl siteUnreachable, activity)
      | Some result \<Rightarrow>
          (Inr (with_outcome result ((gatewayDenied [])\<lparr>az_SiteUid := si_UID site, az_RuntimeUuid := runtimeUUID, az_UserId := user\<rparr>)),
           activity))"
| "authorize_runtime site client runtimeUUID _ now activity = (Inl authorizationMissing, activity)"

definition AuthorizeGateway ::
  "'raw component_reads \<Rightarrow> (GatewaySite \<Rightarrow> gitea_client option) \<Rightarrow> componentIdentity option \<Rightarrow> int \<Rightarrow> gateway_request \<Rightarrow> time \<Rightarrow>
     RuntimeActivityTracker option \<Rightarrow> (component_error + AuthorizeGatewayResponse) \<times> RuntimeActivityTracker option" where
  "AuthorizeGateway reads remote identity protocol request now activity =
     (case componentIdentityFromContext identity ''gateway'' of
        Inl err \<Rightarrow> (Inl err, activity)
      | Inr i \<Rightarrow>
          if protocol \<noteq> 1 then (Inl protocolUnsupported, activity)
          else case request of
            OpenCode code runtimeUUID endpointID \<Rightarrow> authorize_open reads remote i code runtimeUUID endpointID now activity
          | _ \<Rightarrow>
              (case request_runtime request of
                 None \<Rightarrow> (Inl authorizationMissing, activity)
               | Some runtimeUUID \<Rightarrow>
                   (case runtimeForGateway reads i runtimeUUID of
                      Inl _ \<Rightarrow> (Inr (gatewayDenied ''runtime_unavailable''), activity)
                    | Inr (_, site) \<Rightarrow>
                        (case remote site of
                           None \<Rightarrow> (Inl siteUnreachable, activity)
                         | Some client \<Rightarrow> authorize_runtime site client runtimeUUID request now activity))))"

section \<open>The Gateway's side\<close>

text \<open>
  \<open>componentControlPlane\<close>: \<open>call\<close> is the remote call, \<open>None\<close> when it fails; an answer that is both
  or neither allowed and denied is an error.
\<close>

definition authorize ::
  "(gateway_request \<Rightarrow> AuthorizeGatewayResponse option) option \<Rightarrow> gateway_request \<Rightarrow> component_error + AuthorizeGatewayResponse" where
  "authorize client payload =
     (case client of
        None \<Rightarrow> Inl siteUnreachable
      | Some call \<Rightarrow>
          (case call payload of
             None \<Rightarrow> Inl siteUnreachable
           | Some response \<Rightarrow>
               if az_Allowed response = (az_DeniedCategory response \<noteq> []) then Inl outcomeInvalid
               else if az_Allowed response \<and> az_SiteUid response = [] then Inl authorizationWithoutSite
               else Inr response))"

definition control_ValidateOpenToken ::
  "(gateway_request \<Rightarrow> AuthorizeGatewayResponse option) option \<Rightarrow> string \<Rightarrow> string \<Rightarrow> string \<Rightarrow>
     component_error + gatewayOpenTokenDecision" where
  "control_ValidateOpenToken client code runtimeUUID endpointID =
     (case authorize client (OpenCode code runtimeUUID endpointID) of
        Inl err \<Rightarrow> Inl err
      | Inr result \<Rightarrow>
          if \<not> az_Allowed result
          then Inr \<lparr>od_Allowed = False, od_Binding = \<lparr>b_SiteUID = [], b_UserID = 0, b_CodespaceUUID = [], b_EndpointID = []\<rparr>,
                    od_deniedCategory = az_DeniedCategory result\<rparr>
          else Inr \<lparr>od_Allowed = True,
                    od_Binding = \<lparr>b_SiteUID = az_SiteUid result, b_UserID = az_UserId result,
                                  b_CodespaceUUID = az_RuntimeUuid result, b_EndpointID = az_EndpointId result\<rparr>,
                    od_deniedCategory = []\<rparr>)"

definition site_decision :: "string \<Rightarrow> component_error + AuthorizeGatewayResponse \<Rightarrow> component_error + gatewayAccessDecision" where
  "site_decision siteUID answer =
     (case answer of
        Inl err \<Rightarrow> Inl err
      | Inr result \<Rightarrow>
          if az_Allowed result \<and> az_SiteUid result \<noteq> siteUID then Inl siteDiffers
          else Inr \<lparr>Allowed = az_Allowed result, DeniedCategory = az_DeniedCategory result\<rparr>)"

definition control_ValidatePublicEndpoint ::
  "(gateway_request \<Rightarrow> AuthorizeGatewayResponse option) option \<Rightarrow> string \<Rightarrow> string \<Rightarrow> string \<Rightarrow> component_error + gatewayAccessDecision" where
  "control_ValidatePublicEndpoint client siteUID runtimeUUID endpointID =
     site_decision siteUID (authorize client (PublicEndpoint runtimeUUID endpointID))"

definition control_RevalidateEndpointSession ::
  "(gateway_request \<Rightarrow> AuthorizeGatewayResponse option) option \<Rightarrow> string \<Rightarrow> int \<Rightarrow> string \<Rightarrow> string \<Rightarrow>
     component_error + gatewayAccessDecision" where
  "control_RevalidateEndpointSession client siteUID userID runtimeUUID endpointID =
     site_decision siteUID (authorize client (EndpointSession siteUID userID runtimeUUID endpointID))"

definition control_RevalidateSSHSession ::
  "(gateway_request \<Rightarrow> AuthorizeGatewayResponse option) option \<Rightarrow> string \<Rightarrow> int \<Rightarrow> string \<Rightarrow> component_error + gatewayAccessDecision" where
  "control_RevalidateSSHSession client siteUID userID runtimeUUID =
     site_decision siteUID (authorize client (SshSession siteUID userID runtimeUUID))"

record gatewaySSHAuthDecision =
  sd_Allowed :: bool
  sd_SiteUID :: string
  sd_UserID :: int
  sd_deniedCategory :: string

definition control_VerifySSHPublicKey ::
  "(gateway_request \<Rightarrow> AuthorizeGatewayResponse option) option \<Rightarrow> string \<Rightarrow> string \<Rightarrow> component_error + gatewaySSHAuthDecision" where
  "control_VerifySSHPublicKey client runtimeUUID publicKey =
     map_sum id (\<lambda>result. \<lparr>sd_Allowed = az_Allowed result, sd_SiteUID = az_SiteUid result, sd_UserID = az_UserId result,
                            sd_deniedCategory = az_DeniedCategory result\<rparr>)
       (authorize client (SshPublicKey runtimeUUID publicKey))"

section \<open>Decisions come from Gitea\<close>

text \<open>The Gateway's calls with the Manager at the other end.\<close>

definition through_manager ::
  "'raw component_reads \<Rightarrow> (GatewaySite \<Rightarrow> gitea_client option) \<Rightarrow> componentIdentity option \<Rightarrow> time \<Rightarrow> RuntimeActivityTracker option \<Rightarrow>
     (gateway_request \<Rightarrow> AuthorizeGatewayResponse option) option" where
  "through_manager reads remote identity now activity =
     Some (\<lambda>payload. case fst (AuthorizeGateway reads remote identity 1 payload now activity) of
                       Inl _ \<Rightarrow> None | Inr response \<Rightarrow> Some response)"

text \<open>
  \<open>served\<close>: the caller is the Gateway that the enabled site of the runtime names, as read live, and
  \<open>client\<close> is the Gitea of that site.
\<close>

definition served ::
  "'raw component_reads \<Rightarrow> (GatewaySite \<Rightarrow> gitea_client option) \<Rightarrow> componentIdentity option \<Rightarrow> string \<Rightarrow> string \<Rightarrow> gitea_client \<Rightarrow> bool" where
  "served reads remote identity siteUID runtimeUUID client \<longleftrightarrow>
     (\<exists>i cs site. identity = Some i \<and> ci_Role i = ''gateway'' \<and> ci_UID i \<noteq> []
        \<and> sp_RuntimeUUID (cs_Spec cs) = runtimeUUID \<and> \<not> cs_Deleting cs \<and> sp_SiteUID (cs_Spec cs) = siteUID
        \<and> (\<exists>ns n. rd_Codespace reads ns n = Inr cs) \<and> rd_Site reads (sp_SiteName (cs_Spec cs)) = Inr (Some site)
        \<and> si_UID site = siteUID \<and> si_Enabled site \<and> si_GatewayUID site = ci_UID i \<and> \<not> si_Deleting site
        \<and> remote site = Some client)"

lemma identity_gateway:
  "componentIdentityFromContext identity role = Inr i \<longleftrightarrow> identity = Some i \<and> ci_Role i = role \<and> ci_UID i \<noteq> []"
  by (auto simp: componentIdentityFromContext_def split: option.splits if_splits)

lemma runtimeForGateway_Inr:
  assumes "runtimeForGateway reads i runtimeUUID = Inr (cs, site)"
  shows "sp_RuntimeUUID (cs_Spec cs) = runtimeUUID" "\<not> cs_Deleting cs" "si_UID site = sp_SiteUID (cs_Spec cs)" "si_Enabled site"
    "si_GatewayUID site = ci_UID i" "\<not> si_Deleting site" "rd_Site reads (sp_SiteName (cs_Spec cs)) = Inr (Some site)"
    "\<exists>ns n. rd_Codespace reads ns n = Inr cs"
  using assms by (auto simp: runtimeForGateway_def split: sum.splits list.splits option.splits if_splits)

lemma servedI:
  assumes "componentIdentityFromContext identity ''gateway'' = Inr i" and "runtimeForGateway reads i runtimeUUID = Inr (cs, site)"
    and "remote site = Some client"
  shows "served reads remote identity (si_UID site) runtimeUUID client"
  using runtimeForGateway_Inr [OF assms(2)] assms(1,3) unfolding served_def identity_gateway by metis

lemma authorize_through:
  assumes "authorize (through_manager reads remote identity now activity) payload = Inr r"
  shows "fst (AuthorizeGateway reads remote identity 1 payload now activity) = Inr r"
  using assms by (auto simp: authorize_def through_manager_def split: option.splits sum.splits if_splits)

lemma authorized_runtime:
  assumes "fst (AuthorizeGateway reads remote identity 1 payload now activity) = Inr r" and "az_Allowed r"
    and "request_runtime payload = Some runtimeUUID"
  shows "\<exists>site client. served reads remote identity (si_UID site) runtimeUUID client \<and>
    fst (authorize_runtime site client runtimeUUID payload now activity) = Inr r"
proof -
  obtain i where i: "componentIdentityFromContext identity ''gateway'' = Inr i"
    using assms(1) by (auto simp: AuthorizeGateway_def split: sum.splits)
  have "fst (case runtimeForGateway reads i runtimeUUID of
        Inl _ \<Rightarrow> (Inr (gatewayDenied ''runtime_unavailable''), activity)
      | Inr (_, site) \<Rightarrow>
          (case remote site of
             None \<Rightarrow> (Inl siteUnreachable, activity)
           | Some client \<Rightarrow> authorize_runtime site client runtimeUUID payload now activity)) = Inr r"
    using assms(1,3) i by (cases payload) (auto simp: AuthorizeGateway_def simp del: authorize_runtime.simps)
  then obtain cs site client where g: "runtimeForGateway reads i runtimeUUID = Inr (cs, site)" "remote site = Some client"
    "fst (authorize_runtime site client runtimeUUID payload now activity) = Inr r"
    using assms(2) by (auto simp: gatewayDenied_def split: sum.splits option.splits)
  then show ?thesis using servedI [OF i g(1), where remote = remote] by blast
qed

lemma with_outcome_Allowed [simp]: "az_Allowed (with_outcome result response) \<longleftrightarrow> result = OutcomeAllowed"
  by (cases result) (simp_all add: with_outcome_def)

lemma site_decision_Allowed:
  "site_decision siteUID answer = Inr d \<and> Allowed d \<longleftrightarrow>
     (\<exists>r. answer = Inr r \<and> az_Allowed r \<and> az_SiteUid r = siteUID \<and> d = \<lparr>Allowed = True, DeniedCategory = az_DeniedCategory r\<rparr>)"
  by (cases answer) (auto simp: site_decision_def split: if_splits)

lemma with_outcome_site [simp]: "az_SiteUid (with_outcome result response) = az_SiteUid response"
  by (cases result) (simp_all add: with_outcome_def)

lemma opened_through_gitea:
  assumes "fst (AuthorizeGateway reads remote identity 1 (OpenCode code runtimeUUID endpointID) now activity) = Inr r" and "az_Allowed r"
  shows "\<exists>client user generation. served reads remote identity (az_SiteUid r) runtimeUUID client
    \<and> gc_ValidateOpenToken client code = Some (OpenAllowed runtimeUUID endpointID user generation)
    \<and> az_UserId r = user \<and> az_RuntimeUuid r = runtimeUUID \<and> az_EndpointId r = endpointID"
proof -
  obtain i where i: "componentIdentityFromContext identity ''gateway'' = Inr i"
    using assms(1) by (auto simp: AuthorizeGateway_def split: sum.splits)
  have a: "fst (authorize_open reads remote i code runtimeUUID endpointID now activity) = Inr r"
    using assms(1) i by (simp add: AuthorizeGateway_def)
  obtain cs site where g: "runtimeForGateway reads i runtimeUUID = Inr (cs, site)"
    using a assms(2) by (auto simp: authorize_open_def gatewayDenied_def split: sum.splits if_splits)
  obtain client where c: "remote site = Some client"
    using a g by (auto simp: authorize_open_def split: option.splits if_splits)
  have "\<exists>user generation. gc_ValidateOpenToken client code = Some (OpenAllowed runtimeUUID endpointID user generation)
      \<and> r = \<lparr>az_Allowed = True, az_SiteUid = si_UID site, az_UserId = user, az_RuntimeUuid = runtimeUUID,
             az_EndpointId = endpointID, az_DeniedCategory = []\<rparr>"
    using a g c assms(2) by (auto simp: authorize_open_def gatewayDenied_def split: option.splits open_outcome.splits if_splits)
  then show ?thesis using servedI [OF i g, where remote = remote] c by auto
qed

text \<open>C9: Whatever a Gateway is allowed through the Manager, the Gitea of the runtime's own site has
  allowed. The Manager answers only the Gateway that the enabled site of the live runtime names, and
  a positive decision for an endpoint session, a public endpoint or an open code means that the Gitea
  of that site allowed exactly that user, runtime and endpoint; the binding of an opened session has
  the user that Gitea named and the site that was asked.
\<close>

theorem gateway_decision_from_gitea:
  "(control_RevalidateEndpointSession (through_manager reads remote identity now activity) site user runtime endpoint = Inr d
      \<and> Allowed d \<longrightarrow>
      (\<exists>gitea. served reads remote identity site runtime gitea
         \<and> gc_RevalidateEndpoint gitea user runtime endpoint = Some OutcomeAllowed))
   \<and> (control_ValidatePublicEndpoint (through_manager reads remote identity now activity) site runtime endpoint = Inr d
      \<and> Allowed d \<longrightarrow>
      (\<exists>gitea. served reads remote identity site runtime gitea
         \<and> gc_ValidatePublicEndpoint gitea runtime endpoint = Some OutcomeAllowed))
   \<and> (control_ValidateOpenToken (through_manager reads remote identity now activity) code runtime endpoint = Inr opened
      \<and> od_Allowed opened \<longrightarrow>
      (\<exists>gitea generation. served reads remote identity (b_SiteUID (od_Binding opened)) runtime gitea
         \<and> gc_ValidateOpenToken gitea code = Some (OpenAllowed runtime endpoint (b_UserID (od_Binding opened)) generation)
         \<and> b_CodespaceUUID (od_Binding opened) = runtime \<and> b_EndpointID (od_Binding opened) = endpoint))"
  (is "(?E \<longrightarrow> ?e) \<and> (?P \<longrightarrow> ?p) \<and> (?O \<longrightarrow> ?o)")
proof (intro conjI impI)
  let ?m = "through_manager reads remote identity now activity"
  assume ?E
  then obtain r where r: "authorize ?m (EndpointSession site user runtime endpoint) = Inr r" "az_Allowed r" "az_SiteUid r = site"
    unfolding control_RevalidateEndpointSession_def site_decision_Allowed by blast
  obtain s gitea where s: "served reads remote identity (si_UID s) runtime gitea"
    "fst (authorize_runtime s gitea runtime (EndpointSession site user runtime endpoint) now activity) = Inr r"
    using authorized_runtime [OF authorize_through [OF r(1)] r(2)] by auto
  then show ?e using r(2) by (auto simp: gatewayDenied_def split: option.splits if_splits)
next
  let ?m = "through_manager reads remote identity now activity"
  assume ?P
  then obtain r where r: "authorize ?m (PublicEndpoint runtime endpoint) = Inr r" "az_Allowed r" "az_SiteUid r = site"
    unfolding control_ValidatePublicEndpoint_def site_decision_Allowed by blast
  obtain s gitea where s: "served reads remote identity (si_UID s) runtime gitea"
    "fst (authorize_runtime s gitea runtime (PublicEndpoint runtime endpoint) now activity) = Inr r"
    using authorized_runtime [OF authorize_through [OF r(1)] r(2)] by auto
  then show ?p using r(2,3) by (auto split: option.splits)
next
  let ?m = "through_manager reads remote identity now activity"
  assume o: ?O
  then obtain r where r: "authorize ?m (OpenCode code runtime endpoint) = Inr r" "az_Allowed r"
    "od_Binding opened = \<lparr>b_SiteUID = az_SiteUid r, b_UserID = az_UserId r, b_CodespaceUUID = az_RuntimeUuid r, b_EndpointID = az_EndpointId r\<rparr>"
    by (auto simp: control_ValidateOpenToken_def split: sum.splits if_splits)
  then show ?o using opened_through_gitea [OF authorize_through [OF r(1)] r(2)] by auto
qed

section \<open>Examples\<close>

definition demo_runtime :: "unit Codespace" where
  "demo_runtime = \<lparr>cs_Name = ''c'', cs_Namespace = ''codespace-s'', cs_UID = ''resource'', cs_Generation = 1, cs_Deleting = False,
     cs_Spec = \<lparr>sp_SiteName = ''s'', sp_SiteUID = ''site'', sp_CodespaceID = 1, sp_RuntimeUUID = ''runtime'', sp_EnvironmentTag = ''e'',
       sp_Runtime = \<lparr>rc_Image = [], rc_GitSSHKeyType = [], rc_Proxy = False, rc_BlockVolume = False, rc_Settings = []\<rparr>,
       sp_Operation = \<lparr>op_Version = 3, op_Type = ''create'', op_Payload = ()\<rparr>\<rparr>,
     cs_Status = zero_status\<lparr>st_Bound := True, st_PodName := ''pod'', st_PodUID := ''pod-uid'',
       st_Target := Some \<lparr>tg_Version = 3, tg_Ready = True, tg_PrimaryContainerID = ''primary'', tg_WorkspaceFolder = ''/w'',
         tg_Endpoints = [\<lparr>ae_ID = ''workspace'', ae_Label = ''Workspace'', ae_Public = False, ae_ContainerID = ''primary'', ae_Port = 13337\<rparr>]\<rparr>\<rparr>\<rparr>"

definition demo_gateway_site :: GatewaySite where
  "demo_gateway_site = \<lparr>si_Name = ''s'', si_UID = ''site'', si_Enabled = True, si_GatewayUID = ''gw'', si_CanonicalURL = ''https://g'',
     si_Deleting = False, si_Generation = 1,
     si_Conditions = [\<lparr>cd_Type = ''InfrastructureReady'', cd_True = True, cd_Reason = [], cd_Message = [], cd_ObservedGeneration = 1\<rparr>]\<rparr>"

definition demo_pod :: PodObject where
  "demo_pod = \<lparr>po_UID = ''pod-uid'', po_ControllerUID = Some ''resource'', po_Deleting = False, po_Running = True,
     po_PodIPs = [''10.0.0.1''], po_PodIP = ''10.0.0.1''\<rparr>"

definition demo_reads :: "unit component_reads" where
  "demo_reads = \<lparr>rd_Index = True, rd_ByUUID = (\<lambda>_. Inr [demo_runtime]), rd_Codespace = (\<lambda>_ _. Inr demo_runtime),
     rd_Site = (\<lambda>_. Inr (Some demo_gateway_site)), rd_Pod = (\<lambda>_ _. Inr (Some demo_pod))\<rparr>"

definition demo_gitea :: gitea_client where
  "demo_gitea = \<lparr>gc_ValidateOpenToken = (\<lambda>code. if code = ''code'' then Some (OpenAllowed ''runtime'' ''workspace'' 7 1) else Some (OpenDenied ''d'')),
     gc_ValidatePublicEndpoint = (\<lambda>_ _. Some (OutcomeDenied ''d'')), gc_VerifySSHPublicKey = (\<lambda>_ _. None),
     gc_RevalidateEndpoint = (\<lambda>u r e. if u = 7 then Some OutcomeAllowed else None), gc_RevalidateSSH = (\<lambda>_ _. None)\<rparr>"

abbreviation demo_control :: "(gateway_request \<Rightarrow> AuthorizeGatewayResponse option) option" where
  "demo_control \<equiv> through_manager demo_reads (\<lambda>_. Some demo_gitea) (Some \<lparr>ci_Role = ''gateway'', ci_UID = ''gw''\<rparr>) 0 None"

theorem gateway_decision_from_gitea_witness:
  "control_RevalidateEndpointSession demo_control ''site'' 7 ''runtime'' ''workspace'' = Inr \<lparr>Allowed = True, DeniedCategory = []\<rparr>
   \<and> (\<exists>gitea. served demo_reads (\<lambda>_. Some demo_gitea) (Some \<lparr>ci_Role = ''gateway'', ci_UID = ''gw''\<rparr>) ''site'' ''runtime'' gitea
        \<and> gc_RevalidateEndpoint gitea 7 ''runtime'' ''workspace'' = Some OutcomeAllowed)"
proof -
  have "control_RevalidateEndpointSession demo_control ''site'' 7 ''runtime'' ''workspace'' = Inr \<lparr>Allowed = True, DeniedCategory = []\<rparr>"
    by code_simp
  moreover from this have "\<exists>gitea. served demo_reads (\<lambda>_. Some demo_gitea) (Some \<lparr>ci_Role = ''gateway'', ci_UID = ''gw''\<rparr>) ''site'' ''runtime'' gitea
        \<and> gc_RevalidateEndpoint gitea 7 ''runtime'' ''workspace'' = Some OutcomeAllowed"
    using gateway_decision_from_gitea [of demo_reads "\<lambda>_. Some demo_gitea" "Some \<lparr>ci_Role = ''gateway'', ci_UID = ''gw''\<rparr>" 0 None "''site''" 7
      "''runtime''" "''workspace''" "\<lparr>Allowed = True, DeniedCategory = []\<rparr>"] by simp
  ultimately show ?thesis by simp
qed

end
