(* ===== verification/Agent_Access.thy ===== *)
theory Agent_Access
  imports Agent_Endpoints Component_Server
begin

text \<open>
  Access to a running Agent: the tickets it admits and the process it starts for each capability
  (\<open>internal/agent/access.go\<close>, \<open>devcontainer/environment.go\<close>), and the Gateway side that asks the
  Manager for a ticket and opens the stream (\<open>internal/gateway/agent_backend.go\<close>). The container
  engine, the saved environment file and the calls of the transport are arguments. The theorems join
  the three programs: a ticket that the Manager issues is admitted, and only such a ticket is.
\<close>

section \<open>The opening frame\<close>

record Terminal =
  tm_Term :: string
  tm_Size :: "(nat \<times> nat) option"

record ShellCommand =
  sc_Command :: string
  sc_Terminal :: "Terminal option"

text \<open>The members of the oneof; a nil message inside one is \<open>None\<close>. Sizes are columns and rows.\<close>

datatype open_capability =
    OpenShell "Terminal option option"
  | OpenCommand "ShellCommand option"
  | OpenSftp
  | OpenEndpoint "string option"
  | OpenTcp "nat option"

record OpenAccess =
  oa_Ticket :: string
  oa_Capability :: "open_capability option"

datatype agent_access_error =
    accessCapabilityInvalid
  | accessTargetNotReady
  | accessTicketInvalid access_ticket_error
  | accessTicketMismatch
  | endpointTicketMismatch
  | endpointNotInTarget
  | environmentUnreadable
  | environmentMismatch
  | accessSessionLimit
  | accessFirstFrameInvalid
  | shellRequestInvalid
  | commandRequestInvalid
  | endpointTargetInvalid
  | loopbackPortInvalid
  | terminalTypeInvalid
  | accessEngineFailed

definition accessCapability :: "OpenAccess \<Rightarrow> AccessCapability" where
  "accessCapability opened =
     (case oa_Capability opened of
        Some (OpenShell _) \<Rightarrow> ACCESS_CAPABILITY_SHELL
      | Some (OpenCommand _) \<Rightarrow> ACCESS_CAPABILITY_COMMAND
      | Some OpenSftp \<Rightarrow> ACCESS_CAPABILITY_SFTP
      | Some (OpenEndpoint _) \<Rightarrow> ACCESS_CAPABILITY_ENDPOINT
      | Some (OpenTcp _) \<Rightarrow> ACCESS_CAPABILITY_LOOPBACK_TCP
      | None \<Rightarrow> ACCESS_CAPABILITY_UNSPECIFIED)"

section \<open>Authorization\<close>

datatype saved_environment = EnvironmentUnreadable | EnvironmentGarbled | EnvironmentSaved State

record AccessRuntime =
  ax_target :: "AccessTarget option"
  ax_secrets :: "(string, string) fmap"
  ax_verificationKey :: string
  ax_Identity :: VolumeIdentity
  ax_PodUID :: string

record admitted =
  ad_Target :: AccessTarget
  ad_State :: State
  ad_Secrets :: "(string, string) fmap"
  ad_Capability :: AccessCapability
  ad_Endpoint :: "EndpointTarget option"

definition target_endpoint_id :: "EndpointTarget option \<Rightarrow> string" where
  "target_endpoint_id item = (case Option.bind item et_Endpoint of None \<Rightarrow> [] | Some e \<Rightarrow> re_EndpointId e)"

definition select_endpoint :: "OpenAccess \<Rightarrow> AccessTicketClaims \<Rightarrow> AccessTarget \<Rightarrow> agent_access_error + EndpointTarget option" where
  "select_endpoint opened claims target =
     (case oa_Capability opened of
        Some (OpenEndpoint (Some endpointID)) \<Rightarrow>
          if endpointID \<noteq> ac_EndpointId claims then Inl endpointTicketMismatch
          else (case List.find (\<lambda>item. target_endpoint_id item = endpointID) (at_Endpoints target) of
                  None \<Rightarrow> Inl endpointNotInTarget
                | Some None \<Rightarrow> Inl endpointNotInTarget
                | Some selected \<Rightarrow> Inr selected)
      | _ \<Rightarrow> Inl endpointTicketMismatch)"

definition runtime_authorize ::
  "ticket_library \<Rightarrow> string list \<Rightarrow> saved_environment \<Rightarrow> AccessRuntime \<Rightarrow> OpenAccess \<Rightarrow> time \<Rightarrow> agent_access_error + admitted" where
  "runtime_authorize lib services environment r opened now =
     (let capability = accessCapability opened
      in if capability = ACCESS_CAPABILITY_UNSPECIFIED then Inl accessCapabilityInvalid
         else case ax_target r of
           None \<Rightarrow> Inl accessTargetNotReady
         | Some target \<Rightarrow>
             (case Verify lib (ax_verificationKey r) (oa_Ticket opened) now of
                Inl err \<Rightarrow> Inl (accessTicketInvalid err)
              | Inr claims \<Rightarrow>
                  if ac_SiteUid claims \<noteq> SiteUID (ax_Identity r) \<or> ac_ResourceUid claims \<noteq> ResourceUID (ax_Identity r)
                     \<or> ac_RuntimeUuid claims \<noteq> RuntimeUUID (ax_Identity r) \<or> ac_PodUid claims \<noteq> ax_PodUID r
                     \<or> ac_TargetVersion claims \<noteq> at_Version target \<or> ac_Capability claims \<noteq> capability
                  then Inl accessTicketMismatch
                  else
                    (case (if capability = ACCESS_CAPABILITY_ENDPOINT then select_endpoint opened claims target else Inr None) of
                       Inl err \<Rightarrow> Inl err
                     | Inr selected \<Rightarrow>
                         (case environment of
                            EnvironmentUnreadable \<Rightarrow> Inl environmentUnreadable
                          | EnvironmentGarbled \<Rightarrow> Inl environmentMismatch
                          | EnvironmentSaved state \<Rightarrow>
                              if state_Validate services (Some state) \<noteq> None \<or> ds_OwnerID state \<noteq> RuntimeUUID (ax_Identity r)
                                 \<or> ds_PrimaryContainerID state \<noteq> at_PrimaryContainerId target
                              then Inl environmentMismatch
                              else Inr \<lparr>ad_Target = target, ad_State = state, ad_Secrets = ax_secrets r, ad_Capability = capability,
                                        ad_Endpoint = selected\<rparr>))))"

section \<open>The process of a capability\<close>

definition ContainerRuntimeBinary :: string where
  "ContainerRuntimeBinary = ''/usr/local/libexec/gitea-codespace-runtime''"

definition ProcessEnvironment :: "(string, string) fmap \<Rightarrow> (string, string) fmap list \<Rightarrow> (string, string) fmap" where
  "ProcessEnvironment remote overlays = foldl fmadd remote overlays"

definition EnvironmentList :: "(string, string) fmap \<Rightarrow> string list" where
  "EnvironmentList values = map (\<lambda>name. name @ ''='' @ the (fmlookup values name)) (sorted_list_of_fset (fmdom values))"

record ExecOptions =
  xo_User :: string
  xo_WorkingDir :: string
  xo_Env :: "string list"
  xo_Cmd :: "string list"
  xo_Tty :: bool
  xo_ConsoleSize :: "(nat \<times> nat) option"

text \<open>The answers of the engine: that it opens, that the post-attach commands pass, the login shell and
  that it closes.\<close>

record exec_engine =
  xe_New :: bool
  xe_RunPostAttach :: "State \<Rightarrow> (string, string) fmap \<Rightarrow> bool"
  xe_ResolveRemoteUserShell :: "State \<Rightarrow> string option"
  xe_Close :: bool

definition connect_command :: "nat \<Rightarrow> string list" where
  "connect_command port = [ContainerRuntimeBinary, ''runtime'', ''connect'', ''--host'', ''localhost'', ''--port'', itoa port]"

record access_plan =
  ap_Container :: string
  ap_Command :: "string list"
  ap_Terminal :: "Terminal option"
  ap_User :: string
  ap_Workdir :: string
  ap_Value :: string

definition plan_access :: "admitted \<Rightarrow> OpenAccess \<Rightarrow> agent_access_error + access_plan" where
  "plan_access a opened =
     (let plan = \<lparr>ap_Container = at_PrimaryContainerId (ad_Target a), ap_Command = [], ap_Terminal = None,
                  ap_User = ds_RemoteUser (ad_State a), ap_Workdir = ds_RemoteWorkdir (ad_State a), ap_Value = []\<rparr>
      in case ad_Capability a of
           ACCESS_CAPABILITY_SHELL \<Rightarrow>
             (case oa_Capability opened of Some (OpenShell (Some terminal)) \<Rightarrow> Inr (plan\<lparr>ap_Terminal := terminal\<rparr>) | _ \<Rightarrow> Inl shellRequestInvalid)
         | ACCESS_CAPABILITY_COMMAND \<Rightarrow>
             (case oa_Capability opened of
                Some (OpenCommand (Some request)) \<Rightarrow>
                  if sc_Command request = [] \<or> length (sc_Command request) > 32 * 1024 \<or> CHR 0x00 \<in> set (sc_Command request)
                  then Inl commandRequestInvalid
                  else Inr (plan\<lparr>ap_Terminal := sc_Terminal request, ap_Value := sc_Command request\<rparr>)
              | _ \<Rightarrow> Inl commandRequestInvalid)
         | ACCESS_CAPABILITY_SFTP \<Rightarrow>
             Inr (plan\<lparr>ap_Command := [ContainerRuntimeBinary, ''runtime'', ''sftp'', ''--workdir'', ds_RemoteWorkdir (ad_State a)]\<rparr>)
         | ACCESS_CAPABILITY_ENDPOINT \<Rightarrow>
             (case ad_Endpoint a of
                None \<Rightarrow> Inl endpointTargetInvalid
              | Some e \<Rightarrow>
                  if et_ContainerId e = [] \<or> et_Port e = 0 \<or> et_Port e > 65535 then Inl endpointTargetInvalid
                  else Inr (plan\<lparr>ap_Container := et_ContainerId e, ap_User := [], ap_Workdir := ''/'',
                         ap_Command := connect_command (nat (et_Port e)) @
                           (if target_endpoint_id (Some e) = WorkspaceEndpointID then [''--wait'', ''10s''] else [])\<rparr>))
         | ACCESS_CAPABILITY_LOOPBACK_TCP \<Rightarrow>
             (let port = (case oa_Capability opened of Some (OpenTcp (Some port)) \<Rightarrow> port | _ \<Rightarrow> 0)
              in if port = 0 \<or> port > 65535 then Inl loopbackPortInvalid else Inr (plan\<lparr>ap_Command := connect_command port\<rparr>))
         | _ \<Rightarrow> Inl accessCapabilityInvalid)"

definition terminal_invalid :: "Terminal \<Rightarrow> bool" where
  "terminal_invalid t \<longleftrightarrow> tm_Term t = [] \<or> length (tm_Term t) > 64 \<or> list_ex (\<lambda>c. byte c \<le> 32 \<or> byte c = 127) (tm_Term t)"

text \<open>The command of a shell, a command or an SFTP server, once the engine has attached.\<close>

definition attach_command :: "exec_engine \<Rightarrow> admitted \<Rightarrow> access_plan \<Rightarrow> agent_access_error + string list" where
  "attach_command engine a plan =
     (if ad_Capability a \<notin> {ACCESS_CAPABILITY_SHELL, ACCESS_CAPABILITY_COMMAND, ACCESS_CAPABILITY_SFTP} then Inr (ap_Command plan)
      else if \<not> xe_New engine then Inl accessEngineFailed
      else if \<not> xe_RunPostAttach engine (ad_State a) (ad_Secrets a) \<or> \<not> xe_Close engine then Inl accessEngineFailed
      else if ad_Capability a = ACCESS_CAPABILITY_SFTP then Inr (ap_Command plan)
      else case xe_ResolveRemoteUserShell engine (ad_State a) of
        None \<Rightarrow> Inl accessEngineFailed
      | Some shell \<Rightarrow>
          Inr (if ad_Capability a = ACCESS_CAPABILITY_SHELL then [shell, ''-l''] else [shell, ''-c'', ap_Value plan]))"

definition prepareAccessExec :: "exec_engine \<Rightarrow> admitted \<Rightarrow> OpenAccess \<Rightarrow> agent_access_error + (string \<times> ExecOptions)" where
  "prepareAccessExec engine a opened =
     (case plan_access a opened of
        Inl err \<Rightarrow> Inl err
      | Inr plan \<Rightarrow>
          if (case ap_Terminal plan of None \<Rightarrow> False | Some t \<Rightarrow> terminal_invalid t) then Inl terminalTypeInvalid
          else case attach_command engine a plan of
            Inl err \<Rightarrow> Inl err
          | Inr command \<Rightarrow>
              (let base = ProcessEnvironment (ds_RemoteEnvironment (ad_State a)) [ad_Secrets a];
                   values = (case ap_Terminal plan of None \<Rightarrow> base
                     | Some t \<Rightarrow> fmupd ''COLORTERM'' ''truecolor'' (fmupd ''TERM'' (tm_Term t) base))
               in Inr (ap_Container plan,
                    \<lparr>xo_User = ap_User plan, xo_WorkingDir = ap_Workdir plan, xo_Env = EnvironmentList values, xo_Cmd = command,
                     xo_Tty = (ap_Terminal plan \<noteq> None),
                     xo_ConsoleSize = (case Option.bind (ap_Terminal plan) tm_Size of
                        Some (columns, rows) \<Rightarrow> if columns > 0 \<and> rows > 0 then Some (rows, columns) else None
                      | None \<Rightarrow> None)\<rparr>)))"

text \<open>One access stream up to its acceptance, with the number of open sessions.\<close>

definition Access ::
  "ticket_library \<Rightarrow> string list \<Rightarrow> saved_environment \<Rightarrow> exec_engine \<Rightarrow> nat \<Rightarrow> AccessRuntime \<Rightarrow> int \<Rightarrow> OpenAccess option \<Rightarrow> time \<Rightarrow>
     agent_access_error + (string \<times> ExecOptions)" where
  "Access lib services environment engine active r protocol opened now =
     (if active \<ge> 64 then Inl accessSessionLimit
      else case opened of
        None \<Rightarrow> Inl accessFirstFrameInvalid
      | Some o' \<Rightarrow>
          if protocol \<noteq> 1 \<or> oa_Ticket o' = [] then Inl accessFirstFrameInvalid
          else case runtime_authorize lib services environment r o' now of
            Inl err \<Rightarrow> Inl err
          | Inr a \<Rightarrow> prepareAccessExec engine a o')"

section \<open>The Gateway backend\<close>

text \<open>\<open>gc_expected\<close> is the identity that the TLS configuration of the client demands.\<close>

record agentClient =
  gc_address :: string
  gc_siteUID :: string
  gc_resourceUID :: string
  gc_expected :: string

datatype backend_error =
    backendUnavailable
  | accessNotIssued
  | agentTargetIncomplete
  | certificateSourceUnavailable
  | agentStreamRefused
  | workspaceCommandRequired

text \<open>\<open>escape\<close> is the path escaping of \<open>net/url\<close>.\<close>

definition AgentURI :: "(string \<Rightarrow> string) \<Rightarrow> string \<Rightarrow> string \<Rightarrow> string \<Rightarrow> string" where
  "AgentURI escape siteUID runtimeUID podUID =
     ''spiffe://codespace'' @ escape (''/agent/'' @ siteUID @ ''/'' @ runtimeUID @ ''/'' @ podUID)"

definition clientFor ::
  "(string \<Rightarrow> string) \<Rightarrow> bool \<Rightarrow> runtimeSnapshot \<Rightarrow> (string, agentClient) fmap \<Rightarrow>
     (backend_error + agentClient) \<times> (string, agentClient) fmap" where
  "clientFor escape certificates r clients =
     (let fresh = (\<lambda>clients.
            if \<not> certificates then (Inl certificateSourceUnavailable, clients)
            else (let client = \<lparr>gc_address = rt_AgentAddress r, gc_siteUID = rt_SiteUID r, gc_resourceUID = rt_ResourceUID r,
                                gc_expected = AgentURI escape (rt_SiteUID r) (rt_ResourceUID r) (rt_PodUID r)\<rparr>
                  in (Inr client, fmupd (rt_PodUID r) client clients)))
      in case fmlookup clients (rt_PodUID r) of
           None \<Rightarrow> fresh clients
         | Some client \<Rightarrow>
             if gc_address client = rt_AgentAddress r \<and> gc_siteUID client = rt_SiteUID r \<and> gc_resourceUID client = rt_ResourceUID r
             then (Inr client, clients)
             else fresh (fmdrop (rt_PodUID r) clients))"

definition backend_ClosePod :: "string \<Rightarrow> (string, agentClient) fmap \<Rightarrow> (string, agentClient) fmap" where
  "backend_ClosePod podUID clients = fmdrop podUID clients"

text \<open>\<open>issue\<close> is the call of the Manager and \<open>dial\<close> whether the Agent behind a client accepts the opening frame.\<close>

type_synonym issue_call = "IssueAgentAccessRequest \<Rightarrow> (runtimeSnapshot option \<times> string) option"

definition backend_open ::
  "issue_call option \<Rightarrow> (string \<Rightarrow> string) \<Rightarrow> bool \<Rightarrow> (agentClient \<Rightarrow> OpenAccess \<Rightarrow> bool) \<Rightarrow> string \<Rightarrow> AccessCapability \<Rightarrow> string \<Rightarrow> OpenAccess \<Rightarrow>
     (string, agentClient) fmap \<Rightarrow> (backend_error + (agentClient \<times> OpenAccess)) \<times> (string, agentClient) fmap" where
  "backend_open manager escape certificates dial runtimeUUID capability endpointID opened clients =
     (case manager of
        None \<Rightarrow> (Inl backendUnavailable, clients)
      | Some issue \<Rightarrow>
          (case issue \<lparr>ia_ProtocolVersion = 1, ia_RuntimeUuid = runtimeUUID, ia_Capability = capability, ia_EndpointId = endpointID\<rparr> of
             None \<Rightarrow> (Inl accessNotIssued, clients)
           | Some (None, ticket) \<Rightarrow> (Inl agentTargetIncomplete, clients)
           | Some (Some r, ticket) \<Rightarrow>
               if rt_RuntimeUUID r \<noteq> runtimeUUID \<or> rt_SiteUID r = [] \<or> rt_ResourceUID r = [] \<or> rt_PodUID r = []
                  \<or> rt_AgentAddress r = [] \<or> ticket = []
               then (Inl agentTargetIncomplete, clients)
               else case clientFor escape certificates r clients of
                 (Inl err, clients) \<Rightarrow> (Inl err, clients)
               | (Inr client, clients) \<Rightarrow>
                   (let opened = opened\<lparr>oa_Ticket := ticket\<rparr>
                    in if dial client opened then (Inr (client, opened), clients) else (Inl agentStreamRefused, clients))))"

definition uint32 :: "int \<Rightarrow> nat" where
  "uint32 i = nat (i mod 2 ^ 32)"

definition workspace_terminal :: "bool \<Rightarrow> int \<Rightarrow> int \<Rightarrow> Terminal option" where
  "workspace_terminal interactive cols rows =
     (if interactive then Some \<lparr>tm_Term = ''xterm-256color'', tm_Size = Some (uint32 (max cols 1), uint32 (max rows 1))\<rparr> else None)"

abbreviation capability_only :: "open_capability \<Rightarrow> OpenAccess" where
  "capability_only c \<equiv> \<lparr>oa_Ticket = [], oa_Capability = Some c\<rparr>"

definition OpenWorkspaceShell where
  "OpenWorkspaceShell manager escape certificates dial runtimeUUID interactive cols rows clients =
     backend_open manager escape certificates dial runtimeUUID ACCESS_CAPABILITY_SHELL []
       (capability_only (OpenShell (Some (workspace_terminal interactive cols rows)))) clients"

definition OpenWorkspaceCommand where
  "OpenWorkspaceCommand manager escape certificates dial runtimeUUID command interactive cols rows clients =
     (if command = [] then (Inl workspaceCommandRequired, clients)
      else backend_open manager escape certificates dial runtimeUUID ACCESS_CAPABILITY_COMMAND []
        (capability_only (OpenCommand (Some \<lparr>sc_Command = command, sc_Terminal = workspace_terminal interactive cols rows\<rparr>))) clients)"

definition OpenWorkspaceSFTP where
  "OpenWorkspaceSFTP manager escape certificates dial runtimeUUID clients =
     backend_open manager escape certificates dial runtimeUUID ACCESS_CAPABILITY_SFTP [] (capability_only OpenSftp) clients"

definition OpenWorkspaceTCP where
  "OpenWorkspaceTCP manager escape certificates dial runtimeUUID port clients =
     backend_open manager escape certificates dial runtimeUUID ACCESS_CAPABILITY_LOOPBACK_TCP [] (capability_only (OpenTcp (Some port))) clients"

definition OpenWorkspaceEndpoint where
  "OpenWorkspaceEndpoint manager escape certificates dial runtimeUUID endpointID clients =
     backend_open manager escape certificates dial runtimeUUID ACCESS_CAPABILITY_ENDPOINT endpointID
       (capability_only (OpenEndpoint (Some endpointID))) clients"

section \<open>What an issued ticket says\<close>

lemma route_Some:
  assumes "route lib reads cs gatewayUID = Inr (Some r)"
  shows "rt_SiteUID r = sp_SiteUID (cs_Spec cs)" "rt_ResourceUID r = cs_UID cs" "rt_RuntimeUUID r = sp_RuntimeUUID (cs_Spec cs)"
    "rt_PodUID r = st_PodUID (cs_Status cs)" "rt_AgentAddress r \<noteq> []"
    "\<exists>target. st_Target (cs_Status cs) = Some target \<and> rt_TargetVersion r = tg_Version target
      \<and> set (map es_EndpointID (rt_Endpoints r)) = ae_ID ` set (tg_Endpoints target)"
  using assms by (auto simp: route_def route_snapshot_def image_image split: if_splits sum.splits option.splits)

text \<open>The claims of a ticket are those of the route that the Manager answers with.\<close>

definition ticket_claims :: "runtimeSnapshot \<Rightarrow> IssueAgentAccessRequest \<Rightarrow> time \<Rightarrow> string \<Rightarrow> AccessTicketClaims" where
  "ticket_claims r request issued nonce =
     \<lparr>ac_ProtocolVersion = ProtocolVersion, ac_SiteUid = rt_SiteUID r, ac_ResourceUid = rt_ResourceUID r, ac_RuntimeUuid = rt_RuntimeUUID r,
      ac_PodUid = rt_PodUID r, ac_TargetVersion = rt_TargetVersion r, ac_Capability = ia_Capability request,
      ac_EndpointId = ia_EndpointId request, ac_ExpiresUnix = Unix (issued + minute), ac_Nonce = nonce\<rparr>"

lemma IssueAgentAccess_Inr:
  assumes "IssueAgentAccess lib tlib (Some key) reads identity request issued random = Inr (r, ticket)"
  shows "\<exists>nonce payload. validate_claims (ticket_claims r request issued nonce) issued = None
      \<and> claims_Marshal tlib (ticket_claims r request issued nonce) = Some payload
      \<and> ticket = RawURLEncode payload @ ''.'' @ RawURLEncode (ed25519_Sign tlib key payload)"
    and "rt_RuntimeUUID r = ia_RuntimeUuid request" "rt_AgentAddress r \<noteq> []"
    and "ia_Capability request = ACCESS_CAPABILITY_ENDPOINT \<Longrightarrow> ia_EndpointId request \<in> set (map es_EndpointID (rt_Endpoints r))"
proof -
  from assms obtain i cs site where i: "componentIdentityFromContext identity ''gateway'' = Inr i"
    and rt: "runtimeForGateway reads i (ia_RuntimeUuid request) = Inr (cs, site)" and r: "route lib reads cs (ci_UID i) = Inr (Some r)"
    and e: "endpoint_requested cs request = None"
    and t: "Issue tlib (Some key) cs (ia_Capability request) (ia_EndpointId request) minute issued random = Inr ticket"
    by (auto simp: IssueAgentAccess_def split: sum.splits if_splits option.splits)
  obtain target where tg: "st_Target (cs_Status cs) = Some target" "rt_TargetVersion r = tg_Version target"
    "set (map es_EndpointID (rt_Endpoints r)) = ae_ID ` set (tg_Endpoints target)"
    using route_Some(6) [OF r] by blast
  show "rt_RuntimeUUID r = ia_RuntimeUuid request" "rt_AgentAddress r \<noteq> []"
    using route_Some [OF r] runtimeForGateway_Inr(1) [OF rt] by simp_all
  show "ia_EndpointId request \<in> set (map es_EndpointID (rt_Endpoints r))" if "ia_Capability request = ACCESS_CAPABILITY_ENDPOINT"
    using e tg that by (auto simp: endpoint_requested_def list_ex_iff image_iff intro: sym split: if_splits)
  let ?c = "\<lparr>ac_ProtocolVersion = 0, ac_SiteUid = rt_SiteUID r, ac_ResourceUid = rt_ResourceUID r, ac_RuntimeUuid = rt_RuntimeUUID r,
      ac_PodUid = rt_PodUID r, ac_TargetVersion = rt_TargetVersion r, ac_Capability = ia_Capability request,
      ac_EndpointId = ia_EndpointId request, ac_ExpiresUnix = Unix (issued + minute), ac_Nonce = []\<rparr>"
  have "Sign tlib key (Some ?c) issued random = Inr ticket"
    using t tg route_Some(1-4) [OF r] by (auto simp: Issue_def split: if_splits)
  then obtain c payload where c: "fill_claims ?c random = Inr c" "validate_claims c issued = None" "claims_Marshal tlib c = Some payload"
    "ticket = RawURLEncode payload @ ''.'' @ RawURLEncode (ed25519_Sign tlib key payload)" by (auto simp: Sign_Inr)
  from fill_claimsD [OF c(1)] obtain nonce where "c = ticket_claims r request issued nonce"
    by (auto simp: ticket_claims_def)
  with c show "\<exists>nonce payload. validate_claims (ticket_claims r request issued nonce) issued = None
      \<and> claims_Marshal tlib (ticket_claims r request issued nonce) = Some payload
      \<and> ticket = RawURLEncode payload @ ''.'' @ RawURLEncode (ed25519_Sign tlib key payload)" by blast
qed

section \<open>What the Agent admits\<close>

lemma find_SomeD: "List.find P xs = Some x \<Longrightarrow> P x \<and> x \<in> set xs"
  by (induction xs) (auto split: if_splits)

lemma select_endpoint_Inr:
  assumes "select_endpoint opened claims target = Inr selected"
  shows "oa_Capability opened = Some (OpenEndpoint (Some (ac_EndpointId claims)))"
    "\<exists>e. selected = Some e \<and> Some e \<in> set (at_Endpoints target) \<and> target_endpoint_id (Some e) = ac_EndpointId claims"
  using assms
  by (auto simp: select_endpoint_def dest!: find_SomeD split: option.splits open_capability.splits if_splits)

lemma runtime_authorize_Inr:
  "runtime_authorize lib services environment r opened now = Inr a \<longleftrightarrow>
     accessCapability opened \<noteq> ACCESS_CAPABILITY_UNSPECIFIED \<and>
     (\<exists>claims. ax_target r = Some (ad_Target a) \<and> Verify lib (ax_verificationKey r) (oa_Ticket opened) now = Inr claims
        \<and> ac_SiteUid claims = SiteUID (ax_Identity r) \<and> ac_ResourceUid claims = ResourceUID (ax_Identity r)
        \<and> ac_RuntimeUuid claims = RuntimeUUID (ax_Identity r) \<and> ac_PodUid claims = ax_PodUID r
        \<and> ac_TargetVersion claims = at_Version (ad_Target a) \<and> ac_Capability claims = accessCapability opened
        \<and> (if accessCapability opened = ACCESS_CAPABILITY_ENDPOINT then select_endpoint opened claims (ad_Target a) = Inr (ad_Endpoint a)
           else ad_Endpoint a = None)
        \<and> environment = EnvironmentSaved (ad_State a) \<and> state_Validate services (Some (ad_State a)) = None
        \<and> ds_OwnerID (ad_State a) = RuntimeUUID (ax_Identity r) \<and> ds_PrimaryContainerID (ad_State a) = at_PrimaryContainerId (ad_Target a)
        \<and> ad_Secrets a = ax_secrets r \<and> ad_Capability a = accessCapability opened)"
  unfolding runtime_authorize_def Let_def
  by (cases a) (auto split: option.splits sum.splits saved_environment.splits if_splits)

text \<open>A call of \<open>IssueAgentAccess\<close> that the Manager has answered.\<close>

record 'raw issue_record =
  ir_reads :: "'raw component_reads"
  ir_identity :: "componentIdentity option"
  ir_request :: IssueAgentAccessRequest
  ir_time :: time
  ir_random :: "nat \<Rightarrow> string option"

definition answered :: "('a, 'p) go_library \<Rightarrow> ticket_library \<Rightarrow> string \<Rightarrow> 'raw issue_record \<Rightarrow> runtimeSnapshot \<Rightarrow> string \<Rightarrow> bool" where
  "answered lib tlib key call r ticket \<longleftrightarrow>
     IssueAgentAccess lib tlib (Some key) (ir_reads call) (ir_identity call) (ir_request call) (ir_time call) (ir_random call) = Inr (r, ticket)"

text \<open>The bytes that the signature of a ticket covers, and the signature.\<close>

definition ticket_payload :: "string \<Rightarrow> string option" where
  "ticket_payload token = (case token_parts token of Inl _ \<Rightarrow> None | Inr (a, b) \<Rightarrow> RawURLDecode a)"

definition ticket_signature :: "string \<Rightarrow> string option" where
  "ticket_signature token = (case token_parts token of Inl _ \<Rightarrow> None | Inr (a, b) \<Rightarrow> RawURLDecode b)"

text \<open>The presented ticket is not an Ed25519 forgery: if its signature verifies, its payload is one that
  the Manager has signed, that of a ticket it has answered a call with. Nothing is assumed of messages
  that nobody presents.\<close>

definition not_forged :: "('a, 'p) go_library \<Rightarrow> ticket_library \<Rightarrow> string \<Rightarrow> string \<Rightarrow> 'raw issue_record set \<Rightarrow> string \<Rightarrow> bool" where
  "not_forged lib tlib key pub calls token \<longleftrightarrow>
     (\<forall>payload signature. ticket_payload token = Some payload \<and> ticket_signature token = Some signature
        \<and> ed25519_Verify tlib pub payload signature \<longrightarrow>
        (\<exists>call \<in> calls. \<exists>snapshot ticket. answered lib tlib key call snapshot ticket \<and> ticket_payload ticket = Some payload))"

lemma ticket_payload_signed:
  "ticket_payload (RawURLEncode p @ ''.'' @ RawURLEncode s) = Some q \<Longrightarrow> q = p"
  by (auto simp: ticket_payload_def token_parts_def Split_append [OF RawURLEncode_no_dot] Split_single [OF RawURLEncode_no_dot] RawURL_roundtrip
      split: if_splits)

text \<open>Every issued ticket satisfies it.\<close>

lemma issued_not_forged: "call \<in> calls \<Longrightarrow> answered lib tlib key call snapshot ticket \<Longrightarrow> not_forged lib tlib key pub calls ticket"
  unfolding not_forged_def by blast

lemma expires_within:
  assumes "clock_time (issued + minute)" "now < time_Unix (Unix (issued + minute))" "time_Unix (Unix (issued + minute)) \<le> now + MaxLifetime"
  shows "now < issued + minute" "issued < now + minute + second"
  using assms floor_second [of "issued + minute"] by (simp_all add: time_Unix_Unix MaxLifetime_def minute_def)

lemma validate_claims_window:
  "validate_claims c now = None \<Longrightarrow> now < time_Unix (ac_ExpiresUnix c) \<and> time_Unix (ac_ExpiresUnix c) \<le> now + MaxLifetime"
  by (auto simp: validate_claims_def Let_def split: if_splits)

text \<open>C3: An Agent admits a stream only for a ticket that the Manager issued to a Gateway. Unless the
  signature of the presented ticket is forged, an admitted frame carries the payload of a ticket that
  answered a call for exactly this site, resource, runtime, Pod and version of the target, for the
  capability of the frame and, for an endpoint, for the endpoint that is selected, which the Manager's
  target and the Agent's target both list; the call was made less than a minute ago, up to the clocks'
  difference of about a minute.
\<close>

theorem agent_access_issued:
  assumes "claims_codec tlib"
    and unforged: "not_forged lib tlib key (ax_verificationKey r) calls (oa_Ticket opened)"
    and "\<forall>call \<in> calls. clock_time (ir_time call + minute)"
    and "runtime_authorize tlib services environment r opened now = Inr a"
  shows "\<exists>call snapshot ticket. call \<in> calls \<and> answered lib tlib key call snapshot ticket
    \<and> ticket_payload (oa_Ticket opened) \<noteq> None \<and> ticket_payload (oa_Ticket opened) = ticket_payload ticket
    \<and> rt_SiteUID snapshot = SiteUID (ax_Identity r) \<and> rt_ResourceUID snapshot = ResourceUID (ax_Identity r)
    \<and> rt_RuntimeUUID snapshot = RuntimeUUID (ax_Identity r) \<and> rt_PodUID snapshot = ax_PodUID r
    \<and> rt_TargetVersion snapshot = at_Version (ad_Target a) \<and> ia_Capability (ir_request call) = ad_Capability a
    \<and> (ad_Capability a = ACCESS_CAPABILITY_ENDPOINT \<longrightarrow>
         (\<exists>e. ad_Endpoint a = Some e \<and> Some e \<in> set (at_Endpoints (ad_Target a))
            \<and> target_endpoint_id (Some e) = ia_EndpointId (ir_request call)
            \<and> ia_EndpointId (ir_request call) \<in> set (map es_EndpointID (rt_Endpoints snapshot))))
    \<and> now < ir_time call + minute \<and> ir_time call < now + minute + second"
proof -
  from assms(4) obtain claims where c: "Verify tlib (ax_verificationKey r) (oa_Ticket opened) now = Inr claims"
    "ac_SiteUid claims = SiteUID (ax_Identity r)" "ac_ResourceUid claims = ResourceUID (ax_Identity r)"
    "ac_RuntimeUuid claims = RuntimeUUID (ax_Identity r)" "ac_PodUid claims = ax_PodUID r"
    "ac_TargetVersion claims = at_Version (ad_Target a)" "ac_Capability claims = ad_Capability a"
    and e: "ad_Capability a = ACCESS_CAPABILITY_ENDPOINT \<longrightarrow> select_endpoint opened claims (ad_Target a) = Inr (ad_Endpoint a)"
    by (auto simp: runtime_authorize_Inr)
  from c(1) obtain payload sig where p: "ed25519_Verify tlib (ax_verificationKey r) payload sig" "claims_Unmarshal tlib payload = Some claims"
    "validate_claims claims now = None" "ticket_payload (oa_Ticket opened) = Some payload" "ticket_signature (oa_Ticket opened) = Some sig"
    by (auto simp: Verify_Inr ticket_payload_def ticket_signature_def)
  from unforged p(1,4,5) obtain call snapshot ticket where call: "call \<in> calls" "answered lib tlib key call snapshot ticket"
    "ticket_payload ticket = Some payload" unfolding not_forged_def by blast
  note issue = IssueAgentAccess_Inr [OF call(2) [unfolded answered_def]]
  from issue(1) obtain nonce payload' where n: "claims_Marshal tlib (ticket_claims snapshot (ir_request call) (ir_time call) nonce) = Some payload'"
    and t: "ticket = RawURLEncode payload' @ ''.'' @ RawURLEncode (ed25519_Sign tlib key payload')" by blast
  have "payload = payload'" using ticket_payload_signed call(3) unfolding t .
  then have "claims = ticket_claims snapshot (ir_request call) (ir_time call) nonce"
    using assms(1) n p(2) by (simp add: claims_codec_def)
  then have claims: "ac_SiteUid claims = rt_SiteUID snapshot" "ac_ResourceUid claims = rt_ResourceUID snapshot"
    "ac_RuntimeUuid claims = rt_RuntimeUUID snapshot" "ac_PodUid claims = rt_PodUID snapshot" "ac_TargetVersion claims = rt_TargetVersion snapshot"
    "ac_Capability claims = ia_Capability (ir_request call)" "ac_EndpointId claims = ia_EndpointId (ir_request call)"
    "ac_ExpiresUnix claims = Unix (ir_time call + minute)" by (simp_all add: ticket_claims_def)
  have "now < ir_time call + minute" "ir_time call < now + minute + second"
    using expires_within [OF assms(3) [rule_format, OF call(1)]] validate_claims_window [OF p(3)] by (simp_all add: claims(8))
  moreover have "\<exists>e. ad_Endpoint a = Some e \<and> Some e \<in> set (at_Endpoints (ad_Target a))
      \<and> target_endpoint_id (Some e) = ia_EndpointId (ir_request call)
      \<and> ia_EndpointId (ir_request call) \<in> set (map es_EndpointID (rt_Endpoints snapshot))"
    if "ad_Capability a = ACCESS_CAPABILITY_ENDPOINT"
    using select_endpoint_Inr(2) [of opened claims "ad_Target a" "ad_Endpoint a"] e that issue(4) c(7) claims by simp
  ultimately show ?thesis using call c claims p(4) by (intro exI [of _ call] exI [of _ snapshot] exI [of _ ticket]) simp
qed

section \<open>What the Gateway opens\<close>

text \<open>Every client of the pool demands the identity of its site, resource and Pod.\<close>

definition bound_clients :: "(string \<Rightarrow> string) \<Rightarrow> (string, agentClient) fmap \<Rightarrow> bool" where
  "bound_clients escape clients \<longleftrightarrow>
     (\<forall>podUID client. fmlookup clients podUID = Some client \<longrightarrow>
        gc_expected client = AgentURI escape (gc_siteUID client) (gc_resourceUID client) podUID)"

lemma clientFor_bound:
  assumes "bound_clients escape clients" "clientFor escape certificates r clients = (res, clients')"
  shows "bound_clients escape clients'"
    "res = Inr client \<Longrightarrow> gc_address client = rt_AgentAddress r \<and> gc_siteUID client = rt_SiteUID r \<and> gc_resourceUID client = rt_ResourceUID r
       \<and> gc_expected client = AgentURI escape (rt_SiteUID r) (rt_ResourceUID r) (rt_PodUID r)"
  using assms by (auto simp: clientFor_def bound_clients_def Let_def split: option.splits if_splits)

lemma clientFor_certified: "\<exists>client clients'. clientFor escape True r clients = (Inr client, clients')"
  by (cases "fmlookup clients (rt_PodUID r)") (simp_all add: clientFor_def Let_def)

lemma backend_ClosePod_bound: "bound_clients escape clients \<Longrightarrow> bound_clients escape (backend_ClosePod podUID clients)"
  by (simp add: bound_clients_def backend_ClosePod_def)

text \<open>The calls of the pool in any order, starting with no client.\<close>

datatype backend_event = PoolClient bool runtimeSnapshot | PoolClosePod string | PoolClose

fun backend_step :: "(string \<Rightarrow> string) \<Rightarrow> backend_event \<Rightarrow> (string, agentClient) fmap \<Rightarrow> (string, agentClient) fmap" where
  "backend_step escape (PoolClient certificates r) clients = snd (clientFor escape certificates r clients)"
| "backend_step escape (PoolClosePod podUID) clients = backend_ClosePod podUID clients"
| "backend_step escape PoolClose clients = fmempty"

lemma backend_run_bound: "bound_clients escape clients \<Longrightarrow> bound_clients escape (fold (backend_step escape) events clients)"
proof (induction events arbitrary: clients)
  case (Cons ev events)
  have "bound_clients escape (backend_step escape ev clients)"
    using Cons.prems clientFor_bound(1) [OF Cons.prems] backend_ClosePod_bound
    by (cases ev) (auto simp: bound_clients_def [of escape fmempty] prod_eq_iff)
  then show ?case using Cons.IH by simp
qed simp

section \<open>From the Gateway to the process\<close>

text \<open>An Agent that runs the target of a route: same identities, same version, and the environment of
  the target is saved.\<close>

definition current_agent :: "string list \<Rightarrow> runtimeSnapshot \<Rightarrow> AccessRuntime \<Rightarrow> AccessTarget \<Rightarrow> State \<Rightarrow> bool" where
  "current_agent services snapshot r target state \<longleftrightarrow>
     ax_Identity r = \<lparr>SiteUID = rt_SiteUID snapshot, ResourceUID = rt_ResourceUID snapshot, RuntimeUUID = rt_RuntimeUUID snapshot\<rparr>
     \<and> ax_PodUID r = rt_PodUID snapshot \<and> ax_target r = Some target \<and> at_Version target = rt_TargetVersion snapshot
     \<and> state_Validate services (Some state) = None \<and> ds_OwnerID state = rt_RuntimeUUID snapshot
     \<and> ds_PrimaryContainerID state = at_PrimaryContainerId target"

text \<open>The protobuf wire format: the claims have four integers and six length-delimited fields, numbered
  from one to ten, so each costs one byte for its key and at most ten for its value or its length,
  besides the bytes of the strings and of the nonce.\<close>

definition claims_wire :: "ticket_library \<Rightarrow> bool" where
  "claims_wire tlib \<longleftrightarrow> (\<forall>c payload. claims_Marshal tlib c = Some payload \<longrightarrow>
     length payload \<le> 10 * (1 + 10) + length (ac_SiteUid c) + length (ac_ResourceUid c) + length (ac_RuntimeUuid c) + length (ac_PodUid c)
       + length (ac_EndpointId c) + length (ac_Nonce c))"

text \<open>Identifiers that leave a ticket readable: those of Kubernetes and of Gitea have 36 bytes, that of an
  endpoint at most 30.\<close>

definition short_identifiers :: "runtimeSnapshot \<Rightarrow> string \<Rightarrow> bool" where
  "short_identifiers snapshot endpointID \<longleftrightarrow>
     length (rt_SiteUID snapshot) + length (rt_ResourceUID snapshot) + length (rt_RuntimeUUID snapshot) + length (rt_PodUID snapshot)
       + length endpointID \<le> 1922"

lemma ticket_size:
  assumes "claims_wire tlib" "short_identifiers snapshot (ia_EndpointId request)"
    and "validate_claims (ticket_claims snapshot request issued nonce) issued = None"
    and "claims_Marshal tlib (ticket_claims snapshot request issued nonce) = Some payload"
  shows "length payload \<le> 2048"
proof -
  have "length nonce = 16" using assms(3) by (auto simp: validate_claims_def ticket_claims_def split: if_splits)
  then show ?thesis using assms(1,2,4) by (fastforce simp: claims_wire_def short_identifiers_def ticket_claims_def)
qed

lemma issued_admitted:
  assumes "signing_pair tlib key (ax_verificationKey r)" "claims_codec tlib" "claims_wire tlib"
    and "IssueAgentAccess lib tlib (Some key) reads identity request issued random = Inr (snapshot, ticket)"
    and short: "short_identifiers snapshot (ia_EndpointId request)"
    and times: "clock_time (issued + minute)" "issued \<le> now" "now \<le> issued + 59 * second"
    and current: "current_agent services snapshot r target state"
    and opened: "oa_Ticket opened = ticket" "accessCapability opened = ia_Capability request"
    and sel: "if ia_Capability request = ACCESS_CAPABILITY_ENDPOINT
         then oa_Capability opened = Some (OpenEndpoint (Some (ia_EndpointId request)))
           \<and> List.find (\<lambda>item. target_endpoint_id item = ia_EndpointId request) (at_Endpoints target) = Some selected \<and> selected \<noteq> None
         else selected = None"
  shows "runtime_authorize tlib services (EnvironmentSaved state) r opened now =
    Inr \<lparr>ad_Target = target, ad_State = state, ad_Secrets = ax_secrets r, ad_Capability = ia_Capability request, ad_Endpoint = selected\<rparr>"
proof -
  obtain nonce payload where c: "validate_claims (ticket_claims snapshot request issued nonce) issued = None"
    "claims_Marshal tlib (ticket_claims snapshot request issued nonce) = Some payload"
    "ticket = RawURLEncode payload @ ''.'' @ RawURLEncode (ed25519_Sign tlib key payload)"
    using IssueAgentAccess_Inr(1) [OF assms(4)] by blast
  let ?c = "ticket_claims snapshot request issued nonce"
  have "time_Unix (ac_ExpiresUnix ?c) = (issued + minute) div second * second"
    using times(1) by (simp add: ticket_claims_def time_Unix_Unix)
  then have "issued + minute - second < time_Unix (ac_ExpiresUnix ?c)" "time_Unix (ac_ExpiresUnix ?c) \<le> issued + minute"
    using floor_second [of "issued + minute"] by presburger+
  then have "now < time_Unix (ac_ExpiresUnix ?c)" "time_Unix (ac_ExpiresUnix ?c) \<le> now + MaxLifetime"
    using times(2,3) by (simp_all add: MaxLifetime_def minute_def second_def)
  then have "validate_claims ?c now = None" using c(1) by (auto simp: validate_claims_def Let_def split: if_splits)
  then have v: "Verify tlib (ax_verificationKey r) ticket now = Inr ?c"
    using Verify_signed [OF assms(1) codec_nonempty [OF assms(2) c(2) c(1)] ticket_size [OF assms(3) short c(1,2)]] c(3) by simp
  have cap: "ia_Capability request \<noteq> ACCESS_CAPABILITY_UNSPECIFIED" using c(1) by (auto simp: validate_claims_def ticket_claims_def)
  have "if ia_Capability request = ACCESS_CAPABILITY_ENDPOINT then select_endpoint opened ?c target = Inr selected else selected = None"
    using sel by (auto simp: select_endpoint_def ticket_claims_def split: if_splits option.splits)
  then show ?thesis
    using v cap current opened
    by (simp add: runtime_authorize_Inr current_agent_def) (simp add: ticket_claims_def)
qed

text \<open>An endpoint of a target that the Agent has published is one that a process can be planned for.\<close>

lemma apply_endpoints_members:
  "apply_endpoints primary seen es = Inr rs \<Longrightarrow> Some e \<in> set es \<Longrightarrow> et_ContainerId e \<noteq> [] \<and> et_Port e \<noteq> 0 \<and> et_Port e \<le> 65535"
proof (induction primary seen es arbitrary: rs rule: apply_endpoints.induct)
  case (3 primary seen x es)
  then show ?case by (auto split: option.splits if_splits sum.splits)
qed auto

definition endpoint_exec :: "EndpointTarget \<Rightarrow> string list" where
  "endpoint_exec e = connect_command (nat (et_Port e)) @ (if target_endpoint_id (Some e) = WorkspaceEndpointID then [''--wait'', ''10s''] else [])"

lemma prepare_endpoint:
  assumes "good_target (ad_Target a)" "ad_Capability a = ACCESS_CAPABILITY_ENDPOINT" "ad_Endpoint a = Some e" "Some e \<in> set (at_Endpoints (ad_Target a))"
  shows "prepareAccessExec engine a opened = Inr (et_ContainerId e,
    \<lparr>xo_User = [], xo_WorkingDir = ''/'', xo_Env = EnvironmentList (ProcessEnvironment (ds_RemoteEnvironment (ad_State a)) [ad_Secrets a]),
     xo_Cmd = endpoint_exec e, xo_Tty = False, xo_ConsoleSize = None\<rparr>)"
proof -
  obtain rs where "apply_endpoints (at_PrimaryContainerId (ad_Target a)) [] (at_Endpoints (ad_Target a)) = Inr rs"
    using assms(1) by (auto simp: good_target_def)
  from apply_endpoints_members [OF this assms(4)] show ?thesis using assms(2,3)
    by (simp add: prepareAccessExec_def plan_access_def attach_command_def endpoint_exec_def Let_def)
qed

text \<open>The Manager as the Gateway calls it, and the Agent that a client reaches.\<close>

definition manager_issues ::
  "('a, 'p) go_library \<Rightarrow> ticket_library \<Rightarrow> string \<Rightarrow> 'raw component_reads \<Rightarrow> componentIdentity option \<Rightarrow> time \<Rightarrow> (nat \<Rightarrow> string option) \<Rightarrow>
     issue_call option" where
  "manager_issues lib tlib key reads identity issued random =
     Some (\<lambda>request. case IssueAgentAccess lib tlib (Some key) reads identity request issued random of
        Inl _ \<Rightarrow> None | Inr (r, ticket) \<Rightarrow> Some (Some r, ticket))"

definition agent_accepts ::
  "ticket_library \<Rightarrow> string list \<Rightarrow> saved_environment \<Rightarrow> exec_engine \<Rightarrow> nat \<Rightarrow> AccessRuntime \<Rightarrow> time \<Rightarrow> agentClient \<Rightarrow> OpenAccess \<Rightarrow> bool" where
  "agent_accepts tlib services environment engine active r now client opened \<longleftrightarrow>
     (active < 64 \<and> oa_Ticket opened \<noteq> [] \<and> (\<exists>a. runtime_authorize tlib services environment r opened now = Inr a))"

lemma agent_accepts_code [code]:
  "agent_accepts tlib services environment engine active r now client opened \<longleftrightarrow>
     (active < 64 \<and> oa_Ticket opened \<noteq> [] \<and> (case runtime_authorize tlib services environment r opened now of Inr a \<Rightarrow> True | Inl err \<Rightarrow> False))"
  by (auto simp: agent_accepts_def split: sum.splits)

text \<open>C7: An endpoint that the Manager routes can be opened from the Gateway. Suppose the Manager issues
  access to an endpoint of a runtime with identifiers of ordinary length; the Agent of that Pod has
  published a valid target of the same version as the route, which lists the endpoint, has the environment
  of that target saved and fewer than 64 sessions; and the frame arrives within 59 seconds. Then the
  Gateway gets a stream on a connection that demands the identity of exactly that Pod, the Agent admits it
  for the endpoint, and the process it starts is the bridge to the endpoint's port in the endpoint's
  container.
\<close>

theorem gateway_endpoint_opens:
  assumes "signing_pair tlib key (ax_verificationKey r)" and "claims_codec tlib" and "claims_wire tlib"
    and "IssueAgentAccess lib tlib (Some key) reads identity
      \<lparr>ia_ProtocolVersion = 1, ia_RuntimeUuid = runtimeUUID, ia_Capability = ACCESS_CAPABILITY_ENDPOINT, ia_EndpointId = endpointID\<rparr> issued random
      = Inr (snapshot, ticket)"
    and "short_identifiers snapshot endpointID"
    and "clock_time (issued + minute)" "issued \<le> now" "now \<le> issued + 59 * second"
    and "current_agent services snapshot r target state" and good: "good_target target" "active < 64"
    and endpoint: "List.find (\<lambda>item. target_endpoint_id item = endpointID) (at_Endpoints target) = Some (Some e)"
  shows "\<exists>client clients. OpenWorkspaceEndpoint (manager_issues lib tlib key reads identity issued random) escape True
        (agent_accepts tlib services (EnvironmentSaved state) engine active r now) runtimeUUID endpointID (fold (backend_step escape) events fmempty)
        = (Inr (client, (capability_only (OpenEndpoint (Some endpointID)))\<lparr>oa_Ticket := ticket\<rparr>), clients)
    \<and> gc_address client = rt_AgentAddress snapshot
    \<and> gc_expected client = AgentURI escape (rt_SiteUID snapshot) (rt_ResourceUID snapshot) (rt_PodUID snapshot)
    \<and> Access tlib services (EnvironmentSaved state) engine active r 1 (Some ((capability_only (OpenEndpoint (Some endpointID)))\<lparr>oa_Ticket := ticket\<rparr>)) now
        = Inr (et_ContainerId e, \<lparr>xo_User = [], xo_WorkingDir = ''/'',
            xo_Env = EnvironmentList (ProcessEnvironment (ds_RemoteEnvironment state) [ax_secrets r]),
            xo_Cmd = endpoint_exec e, xo_Tty = False, xo_ConsoleSize = None\<rparr>)"
proof -
  let ?request = "\<lparr>ia_ProtocolVersion = 1, ia_RuntimeUuid = runtimeUUID, ia_Capability = ACCESS_CAPABILITY_ENDPOINT, ia_EndpointId = endpointID\<rparr>"
  let ?open = "(capability_only (OpenEndpoint (Some endpointID)))\<lparr>oa_Ticket := ticket\<rparr>"
  let ?a = "\<lparr>ad_Target = target, ad_State = state, ad_Secrets = ax_secrets r, ad_Capability = ACCESS_CAPABILITY_ENDPOINT, ad_Endpoint = Some e\<rparr>"
  have auth: "runtime_authorize tlib services (EnvironmentSaved state) r ?open now = Inr ?a"
    using issued_admitted [OF assms(1-4) _ assms(6-9), where opened = ?open and selected = "Some e"] assms(5) endpoint
    by (simp add: accessCapability_def)
  note issue = IssueAgentAccess_Inr [OF assms(4)]
  obtain nonce payload where v: "validate_claims (ticket_claims snapshot ?request issued nonce) issued = None"
    and t: "ticket = RawURLEncode payload @ ''.'' @ RawURLEncode (ed25519_Sign tlib key payload)" using issue(1) by blast
  have complete: "rt_SiteUID snapshot \<noteq> []" "rt_ResourceUID snapshot \<noteq> []" "rt_PodUID snapshot \<noteq> []" "ticket \<noteq> []"
    using v t by (auto simp: validate_claims_def ticket_claims_def)
  have "bound_clients escape (fold (backend_step escape) events fmempty)"
    by (rule backend_run_bound) (simp add: bound_clients_def)
  moreover obtain client clients where c: "clientFor escape True snapshot (fold (backend_step escape) events fmempty) = (Inr client, clients)"
    using clientFor_certified by blast
  ultimately have "gc_address client = rt_AgentAddress snapshot"
    "gc_expected client = AgentURI escape (rt_SiteUID snapshot) (rt_ResourceUID snapshot) (rt_PodUID snapshot)"
    using clientFor_bound(2) by blast+
  moreover have "Some e \<in> set (at_Endpoints target)" using find_SomeD [OF endpoint] by simp
  then have "prepareAccessExec engine ?a ?open = Inr (et_ContainerId e, \<lparr>xo_User = [], xo_WorkingDir = ''/'',
            xo_Env = EnvironmentList (ProcessEnvironment (ds_RemoteEnvironment state) [ax_secrets r]),
            xo_Cmd = endpoint_exec e, xo_Tty = False, xo_ConsoleSize = None\<rparr>)"
    using prepare_endpoint [of ?a e engine ?open] good(1) by simp
  ultimately show ?thesis
    using assms(4) good(2) auth c complete issue(2,3)
    by (simp add: OpenWorkspaceEndpoint_def backend_open_def manager_issues_def agent_accepts_def Access_def Let_def)
qed

section \<open>Examples\<close>

definition access_claims :: AccessTicketClaims where
  "access_claims = demo_claims\<lparr>ac_PodUid := ''pod-uid''\<rparr>"

text \<open>A library that satisfies the laws: every signature of the key verifies.\<close>

definition access_library :: ticket_library where
  "access_library = \<lparr>ed25519_Sign = demo_signature, ed25519_Verify = (\<lambda>pub m s. s = demo_signature [] m),
     claims_Marshal = (\<lambda>c. if c = access_claims then Some ''claims'' else None),
     claims_Unmarshal = (\<lambda>p. if p = ''claims'' then Some access_claims else if p = [] then Some zero_claims else None)\<rparr>"

definition access_call :: "unit issue_record" where
  "access_call = \<lparr>ir_reads = demo_reads, ir_identity = Some \<lparr>ci_Role = ''gateway'', ci_UID = ''gw''\<rparr>,
     ir_request = \<lparr>ia_ProtocolVersion = 1, ia_RuntimeUuid = ''runtime'', ia_Capability = ACCESS_CAPABILITY_ENDPOINT, ia_EndpointId = ''workspace''\<rparr>,
     ir_time = demo_epoch, ir_random = (\<lambda>n. Some (replicate n (CHR ''n'')))\<rparr>"

definition access_key :: string where
  "access_key = replicate 64 (CHR ''p'')"

definition access_snapshot :: runtimeSnapshot where
  "access_snapshot = \<lparr>rt_SiteUID = ''site'', rt_ResourceUID = ''resource'', rt_RuntimeUUID = ''runtime'', rt_GiteaWebURL = ''https://g'',
     rt_PodUID = ''pod-uid'', rt_AgentAddress = ''10.0.0.1:8444'', rt_TargetVersion = 3,
     rt_Endpoints = [\<lparr>es_EndpointID = ''workspace'', es_Label = ''Workspace'', es_Public = False\<rparr>]\<rparr>"

definition access_ticket :: string where
  "access_ticket = RawURLEncode ''claims'' @ ''.'' @ RawURLEncode (replicate 64 (CHR ''s''))"

lemma access_answered: "answered demo_library access_library access_key access_call access_snapshot access_ticket"
  by code_simp

definition access_target :: AccessTarget where
  "access_target = accessTargetForContainer 3 ''primary'' ''/w'' True [] (\<lambda>_. None)"

definition access_runtime :: AccessRuntime where
  "access_runtime = \<lparr>ax_target = Some access_target, ax_secrets = fmempty, ax_verificationKey = replicate 32 (CHR ''k''),
     ax_Identity = \<lparr>SiteUID = ''site'', ResourceUID = ''resource'', RuntimeUUID = ''runtime''\<rparr>, ax_PodUID = ''pod-uid''\<rparr>"

definition access_engine :: exec_engine where
  "access_engine = \<lparr>xe_New = True, xe_RunPostAttach = (\<lambda>_ _. True), xe_ResolveRemoteUserShell = (\<lambda>_. Some ''/bin/sh''), xe_Close = True\<rparr>"

lemma access_laws: "claims_codec access_library" "claims_wire access_library"
  "signing_pair access_library key (ax_verificationKey access_runtime)"
  by (auto simp: claims_codec_def claims_wire_def access_library_def signing_pair_def demo_signature_def access_runtime_def ed25519_PublicKeySize_def split: if_splits)

lemma access_clock: "clock_time (demo_epoch + minute)"
  by (simp add: clock_time_def demo_epoch_def unixToInternal_def duration_units in_int64_def min_int64_def max_int64_def)

lemma access_current: "current_agent [] access_snapshot access_runtime access_target demo_container" "good_target access_target"
proof -
  have "state_Validate [] (Some demo_container) = None" "ds_OwnerID demo_container = ''runtime''" "ds_PrimaryContainerID demo_container = ''primary''"
    by code_simp+
  then show "current_agent [] access_snapshot access_runtime access_target demo_container"
    by (simp add: current_agent_def access_snapshot_def access_runtime_def access_target_def accessTargetForContainer_def)
  show "good_target access_target" unfolding access_target_def by (rule demo_good) (simp_all add: good_endpoints_def)
qed

definition access_frame :: OpenAccess where
  "access_frame = \<lparr>oa_Ticket = access_ticket, oa_Capability = Some (OpenEndpoint (Some ''workspace''))\<rparr>"

abbreviation (input) access_now :: time where
  "access_now \<equiv> demo_epoch + 30 * second"

lemma access_admitted:
  "runtime_authorize access_library [] (EnvironmentSaved demo_container) access_runtime access_frame access_now =
     Inr \<lparr>ad_Target = access_target, ad_State = demo_container, ad_Secrets = fmempty, ad_Capability = ACCESS_CAPABILITY_ENDPOINT,
          ad_Endpoint = workspace_target ''primary''\<rparr>"
  by code_simp

theorem agent_access_issued_witness:
  "signing_pair access_library access_key (ax_verificationKey access_runtime)
   \<and> (\<exists>a call snapshot ticket. runtime_authorize access_library [] (EnvironmentSaved demo_container) access_runtime access_frame access_now = Inr a
      \<and> answered demo_library access_library access_key (call :: unit issue_record) snapshot ticket
      \<and> ticket_payload access_ticket = ticket_payload ticket
      \<and> rt_PodUID snapshot = ''pod-uid'' \<and> rt_TargetVersion snapshot = 3 \<and> access_now < ir_time call + minute)"
proof -
  have t: "oa_Ticket access_frame = access_ticket" by (simp add: access_frame_def)
  have unforged: "not_forged demo_library access_library access_key (ax_verificationKey access_runtime) {access_call} (oa_Ticket access_frame)"
    unfolding t by (rule issued_not_forged [OF _ access_answered]) simp
  have clock: "\<forall>call \<in> {access_call}. clock_time (ir_time call + minute)"
    using access_clock by (simp add: access_call_def)
  from agent_access_issued [OF access_laws(1) unforged clock access_admitted]
  obtain call snapshot ticket where c: "answered demo_library access_library access_key (call :: unit issue_record) snapshot ticket"
    "ticket_payload access_ticket = ticket_payload ticket"
    "rt_PodUID snapshot = ax_PodUID access_runtime" "rt_TargetVersion snapshot = at_Version access_target" "access_now < ir_time call + minute"
    by (auto simp: t)
  have "ax_PodUID access_runtime = ''pod-uid''" "at_Version access_target = 3"
    by (simp_all add: access_runtime_def access_target_def accessTargetForContainer_def)
  then show ?thesis using c access_admitted access_laws(3) by metis
qed

theorem gateway_endpoint_opens_witness:
  "\<exists>client clients. OpenWorkspaceEndpoint (manager_issues demo_library access_library access_key demo_reads
        (Some \<lparr>ci_Role = ''gateway'', ci_UID = ''gw''\<rparr>) demo_epoch (\<lambda>n. Some (replicate n (CHR ''n'')))) id True
        (agent_accepts access_library [] (EnvironmentSaved demo_container) access_engine 63 access_runtime access_now)
        ''runtime'' ''workspace'' (fold (backend_step id) [PoolClient True access_snapshot, PoolClosePod ''pod''] fmempty)
      = (Inr (client, (capability_only (OpenEndpoint (Some ''workspace'')))\<lparr>oa_Ticket := access_ticket\<rparr>), clients)
    \<and> gc_expected client = AgentURI id ''site'' ''resource'' ''pod-uid''"
proof -
  have find: "List.find (\<lambda>item. target_endpoint_id item = ''workspace'') (at_Endpoints access_target) =
      Some (Some \<lparr>et_Endpoint = Some \<lparr>re_EndpointId = WorkspaceEndpointID, re_Label = WorkspaceEndpointLabel, re_Port = 0, re_Public = False\<rparr>,
           et_ContainerId = ''primary'', et_Port = WorkspaceEndpointPort\<rparr>)"
    by (simp add: access_target_def accessTargetForContainer_def workspace_target_def target_endpoint_id_def WorkspaceEndpointID_def)
  have short: "short_identifiers access_snapshot ''workspace''" by code_simp
  have idle: "(63 :: nat) < 64" by simp
  have times: "demo_epoch \<le> access_now" "access_now \<le> demo_epoch + 59 * second" by (simp_all add: second_def)
  note issued = access_answered [unfolded answered_def, unfolded access_call_def, simplified]
  from gateway_endpoint_opens [OF access_laws(3) access_laws(1,2) issued short access_clock times access_current idle find,
      where engine = access_engine and escape = id and events = "[PoolClient True access_snapshot, PoolClosePod ''pod'']"]
  obtain client clients where "OpenWorkspaceEndpoint (manager_issues demo_library access_library access_key demo_reads
        (Some \<lparr>ci_Role = ''gateway'', ci_UID = ''gw''\<rparr>) demo_epoch (\<lambda>n. Some (replicate n (CHR ''n'')))) id True
        (agent_accepts access_library [] (EnvironmentSaved demo_container) access_engine 63 access_runtime access_now)
        ''runtime'' ''workspace'' (fold (backend_step id) [PoolClient True access_snapshot, PoolClosePod ''pod''] fmempty)
      = (Inr (client, (capability_only (OpenEndpoint (Some ''workspace'')))\<lparr>oa_Ticket := access_ticket\<rparr>), clients)"
    "gc_expected client = AgentURI id (rt_SiteUID access_snapshot) (rt_ResourceUID access_snapshot) (rt_PodUID access_snapshot)"
    by (elim exE conjE) (rule that, assumption+)
  moreover have "rt_SiteUID access_snapshot = ''site''" "rt_ResourceUID access_snapshot = ''resource''" "rt_PodUID access_snapshot = ''pod-uid''"
    by (simp_all add: access_snapshot_def)
  ultimately show ?thesis by metis
qed

end
