(* ===== verification/Manager_Changes.thy ===== *)
theory Manager_Changes
  imports Component_Server
begin

text \<open>
  What wakes the connected Gateways and the coordinator (\<open>internal/cluster/change.go\<close>). An object that
  the API server shows is its metadata with the fields that the Manager reads; \<open>cluster_reads\<close> is the
  view that the component server has of a cluster. The lemmas show that an update which wakes nobody
  changes no route, and that no wake-up is lost; \<open>Gateway_Control\<close> adds the configuration.
\<close>

section \<open>Change notifications\<close>

text \<open>The subscribers by their channel of capacity one; \<open>next\<close> names the channels.\<close>

record ChangeNotifier =
  cn_subscribers :: "(nat, bool) fmap"
  cn_next :: nat

definition Subscribe :: "ChangeNotifier \<Rightarrow> nat \<times> ChangeNotifier" where
  "Subscribe n = (cn_next n, n\<lparr>cn_subscribers := fmupd (cn_next n) False (cn_subscribers n), cn_next := cn_next n + 1\<rparr>)"

definition remove_subscriber :: "nat \<Rightarrow> ChangeNotifier \<Rightarrow> ChangeNotifier" where
  "remove_subscriber channel n = n\<lparr>cn_subscribers := fmdrop channel (cn_subscribers n)\<rparr>"

definition Notify :: "ChangeNotifier \<Rightarrow> ChangeNotifier" where
  "Notify n = n\<lparr>cn_subscribers := fmmap (\<lambda>_. True) (cn_subscribers n)\<rparr>"

section \<open>Which updates are announced\<close>

record OwnerReference =
  ow_UID :: string
  ow_Controller :: bool

record ObjectMeta =
  om_UID :: string
  om_DeletionTimestamp :: "time option"
  om_OwnerReferences :: "OwnerReference list"
  om_Labels :: "(string, string) fmap"

record SiteSpec =
  ss_Enabled :: bool
  ss_GatewayUID :: string
  ss_Rest :: string

record SiteStatus =
  sx_CanonicalURL :: string
  sx_Conditions :: "Condition list"
  sx_InventoryGeneration :: int
  sx_Rest :: string

record ComponentSpec =
  cx_Role :: string
  cx_Config :: string

record PodStatus =
  ps_Phase :: string
  ps_PodIP :: string
  ps_PodIPs :: "string list"

datatype 'raw watched =
    WatchedSite ObjectMeta int SiteSpec SiteStatus
  | WatchedCodespace ObjectMeta "'raw CodespaceSpec" CodespaceStatus
  | WatchedPod ObjectMeta PodStatus
  | WatchedComponent ObjectMeta int ComponentSpec
  | WatchedOther ObjectMeta

fun watched_meta :: "'raw watched \<Rightarrow> ObjectMeta" where
  "watched_meta (WatchedSite m _ _ _) = m"
| "watched_meta (WatchedCodespace m _ _) = m"
| "watched_meta (WatchedPod m _) = m"
| "watched_meta (WatchedComponent m _ _) = m"
| "watched_meta (WatchedOther m) = m"

text \<open>The comparison by kind; objects of different kinds and of other kinds have changed.\<close>

fun kind_changed :: "'raw watched \<Rightarrow> 'raw watched \<Rightarrow> bool" where
  "kind_changed (WatchedSite _ g spec status) (WatchedSite _ g' spec' status') \<longleftrightarrow>
     g \<noteq> g' \<or> spec \<noteq> spec' \<or> status\<lparr>sx_InventoryGeneration := 0\<rparr> \<noteq> status'\<lparr>sx_InventoryGeneration := 0\<rparr>"
| "kind_changed (WatchedCodespace _ spec status) (WatchedCodespace _ spec' status') \<longleftrightarrow>
     spec \<noteq> spec' \<or> status\<lparr>st_MetadataGeneration := 0, st_Boot := None\<rparr> \<noteq> status'\<lparr>st_MetadataGeneration := 0, st_Boot := None\<rparr>"
| "kind_changed (WatchedPod _ s) (WatchedPod _ s') \<longleftrightarrow>
     ps_Phase s \<noteq> ps_Phase s' \<or> ps_PodIP s \<noteq> ps_PodIP s' \<or> ps_PodIPs s \<noteq> ps_PodIPs s'"
| "kind_changed (WatchedComponent _ g spec) (WatchedComponent _ g' spec') \<longleftrightarrow> g \<noteq> g' \<or> spec \<noteq> spec'"
| "kind_changed _ _ \<longleftrightarrow> True"

text \<open>\<open>None\<close> is a value that is no object.\<close>

definition coordinationUpdateChanged :: "'raw watched option \<Rightarrow> 'raw watched option \<Rightarrow> bool" where
  "coordinationUpdateChanged previous current =
     (case (previous, current) of
        (Some old, Some new) \<Rightarrow>
          if om_UID (watched_meta old) \<noteq> om_UID (watched_meta new)
             \<or> om_DeletionTimestamp (watched_meta old) \<noteq> om_DeletionTimestamp (watched_meta new)
             \<or> om_OwnerReferences (watched_meta old) \<noteq> om_OwnerReferences (watched_meta new)
             \<or> om_Labels (watched_meta old) \<noteq> om_Labels (watched_meta new)
          then True else kind_changed old new
      | _ \<Rightarrow> True)"

section \<open>The cluster behind the reads\<close>

text \<open>\<open>metav1.IsControlledBy\<close> reads the first owner that is a controller.\<close>

definition controller_of :: "ObjectMeta \<Rightarrow> string option" where
  "controller_of m = map_option ow_UID (List.find ow_Controller (om_OwnerReferences m))"

definition pod_view :: "ObjectMeta \<Rightarrow> PodStatus \<Rightarrow> PodObject" where
  "pod_view m s = \<lparr>po_UID = om_UID m, po_ControllerUID = controller_of m, po_Deleting = (om_DeletionTimestamp m \<noteq> None),
     po_Running = (ps_Phase s = ''Running''), po_PodIPs = ps_PodIPs s, po_PodIP = ps_PodIP s\<rparr>"

definition site_view :: "string \<Rightarrow> ObjectMeta \<Rightarrow> int \<Rightarrow> SiteSpec \<Rightarrow> SiteStatus \<Rightarrow> GatewaySite" where
  "site_view name m generation spec status =
     \<lparr>si_Name = name, si_UID = om_UID m, si_Enabled = ss_Enabled spec, si_GatewayUID = ss_GatewayUID spec,
      si_CanonicalURL = sx_CanonicalURL status, si_Deleting = (om_DeletionTimestamp m \<noteq> None), si_Generation = generation,
      si_Conditions = sx_Conditions status\<rparr>"

text \<open>The generation of a Codespace counts changes of its spec; the component server does not read it.\<close>

definition codespace_view :: "string \<Rightarrow> string \<Rightarrow> ObjectMeta \<Rightarrow> 'raw CodespaceSpec \<Rightarrow> CodespaceStatus \<Rightarrow> 'raw Codespace" where
  "codespace_view namespace name m spec status =
     \<lparr>cs_Name = name, cs_Namespace = namespace, cs_UID = om_UID m, cs_Generation = 0, cs_Deleting = (om_DeletionTimestamp m \<noteq> None),
      cs_Spec = spec, cs_Status = status\<rparr>"

record 'raw cluster =
  cl_sites :: "string \<Rightarrow> 'raw watched option"
  cl_pods :: "string \<Rightarrow> string \<Rightarrow> 'raw watched option"
  cl_codespaces :: "string \<Rightarrow> string \<Rightarrow> 'raw watched option"
  cl_components :: "string \<Rightarrow> 'raw watched option"

definition read_site :: "'raw cluster \<Rightarrow> string \<Rightarrow> manager_error + GatewaySite option" where
  "read_site c name = Inr (case cl_sites c name of Some (WatchedSite m g spec status) \<Rightarrow> Some (site_view name m g spec status) | _ \<Rightarrow> None)"

definition read_pod :: "'raw cluster \<Rightarrow> string \<Rightarrow> string \<Rightarrow> manager_error + PodObject option" where
  "read_pod c namespace name = Inr (case cl_pods c namespace name of Some (WatchedPod m s) \<Rightarrow> Some (pod_view m s) | _ \<Rightarrow> None)"

definition read_codespace :: "'raw cluster \<Rightarrow> string \<Rightarrow> string \<Rightarrow> 'raw Codespace option" where
  "read_codespace c namespace name =
     (case cl_codespaces c namespace name of Some (WatchedCodespace m spec status) \<Rightarrow> Some (codespace_view namespace name m spec status) | _ \<Rightarrow> None)"

definition cluster_reads :: "'raw cluster \<Rightarrow> 'raw component_reads \<Rightarrow> 'raw component_reads" where
  "cluster_reads c reads = reads\<lparr>rd_Site := read_site c, rd_Pod := read_pod c\<rparr>"

text \<open>Every object of one cluster is that of the other or an update of it that is not announced.\<close>

definition unannounced :: "'raw watched option \<Rightarrow> 'raw watched option \<Rightarrow> bool" where
  "unannounced o1 o2 \<longleftrightarrow> o1 = o2 \<or> \<not> coordinationUpdateChanged o1 o2"

definition quiet_update :: "'raw cluster \<Rightarrow> 'raw cluster \<Rightarrow> bool" where
  "quiet_update c c' \<longleftrightarrow>
     (\<forall>name. unannounced (cl_sites c name) (cl_sites c' name)) \<and> (\<forall>namespace name. unannounced (cl_pods c namespace name) (cl_pods c' namespace name))
     \<and> (\<forall>namespace name. unannounced (cl_codespaces c namespace name) (cl_codespaces c' namespace name))
     \<and> (\<forall>name. unannounced (cl_components c name) (cl_components c' name))"

definition site_runtimes :: "'raw cluster \<Rightarrow> (GatewaySite \<Rightarrow> (string \<times> string) list) \<Rightarrow> GatewaySite \<Rightarrow> manager_error + 'raw Codespace list" where
  "site_runtimes c keys site = Inr (List.map_filter (\<lambda>(namespace, name). read_codespace c namespace name) (keys site))"

definition gateway_sites :: "'raw cluster \<Rightarrow> string list \<Rightarrow> manager_error + GatewaySite list" where
  "gateway_sites c names = Inr (List.map_filter (\<lambda>name. case read_site c name of Inr s \<Rightarrow> s | Inl _ \<Rightarrow> None) names)"

section \<open>Quiet updates\<close>

lemma unannounced_meta:
  assumes "unannounced (Some o1) (Some o2)"
  shows "om_UID (watched_meta o1) = om_UID (watched_meta o2)" "om_DeletionTimestamp (watched_meta o1) = om_DeletionTimestamp (watched_meta o2)"
    "om_OwnerReferences (watched_meta o1) = om_OwnerReferences (watched_meta o2)"
  using assms by (auto simp: unannounced_def coordinationUpdateChanged_def split: if_splits)

lemma unannounced_None: "unannounced None o2 \<longleftrightarrow> o2 = None" "unannounced o1 None \<longleftrightarrow> o1 = None"
  by (auto simp: unannounced_def coordinationUpdateChanged_def split: option.splits)

lemma unannounced_kind:
  "unannounced (Some o1) (Some o2) \<Longrightarrow> o1 = o2 \<or> \<not> kind_changed o1 o2"
  by (auto simp: unannounced_def coordinationUpdateChanged_def split: if_splits)

lemma status_quiet:
  assumes "s\<lparr>st_MetadataGeneration := 0, st_Boot := None\<rparr> = s'\<lparr>st_MetadataGeneration := 0, st_Boot := None\<rparr>"
  shows "st_Bound s = st_Bound s'" "st_PodName s = st_PodName s'" "st_PodUID s = st_PodUID s'" "st_RecoveryAction s = st_RecoveryAction s'"
    "st_Target s = st_Target s'" "st_Result s = st_Result s'" "st_SettledOperationVersion s = st_SettledOperationVersion s'" "st_Conditions s = st_Conditions s'"
  using assms by (cases s; cases s'; simp)+

lemma site_status_quiet:
  assumes "s\<lparr>sx_InventoryGeneration := 0\<rparr> = s'\<lparr>sx_InventoryGeneration := 0\<rparr>"
  shows "sx_CanonicalURL s = sx_CanonicalURL s'" "sx_Conditions s = sx_Conditions s'"
  using assms by (cases s; cases s'; simp)+

lemma quiet_site:
  assumes "quiet_update c c'"
  shows "read_site c = read_site c'"
proof
  fix name
  have u: "unannounced (cl_sites c name) (cl_sites c' name)" using assms by (simp add: quiet_update_def)
  show "read_site c name = read_site c' name"
  proof (cases "cl_sites c name")
    case None
    then show ?thesis using u by (simp add: read_site_def unannounced_None)
  next
    case (Some o1)
    then obtain o2 where o2: "cl_sites c' name = Some o2" using u by (cases "cl_sites c' name") (auto simp: unannounced_None)
    have k: "o1 = o2 \<or> \<not> kind_changed o1 o2" and m: "om_UID (watched_meta o1) = om_UID (watched_meta o2)"
      "om_DeletionTimestamp (watched_meta o1) = om_DeletionTimestamp (watched_meta o2)"
      using u Some o2 unannounced_kind unannounced_meta by metis+
    show ?thesis using k m
      by (cases o1; cases o2) (auto simp: read_site_def Some o2 site_view_def dest: site_status_quiet)
  qed
qed

lemma quiet_pod:
  assumes "quiet_update c c'"
  shows "read_pod c = read_pod c'"
proof (intro ext)
  fix namespace name
  have u: "unannounced (cl_pods c namespace name) (cl_pods c' namespace name)" using assms by (simp add: quiet_update_def)
  show "read_pod c namespace name = read_pod c' namespace name"
  proof (cases "cl_pods c namespace name")
    case None
    then show ?thesis using u by (simp add: read_pod_def unannounced_None)
  next
    case (Some o1)
    then obtain o2 where o2: "cl_pods c' namespace name = Some o2" using u by (cases "cl_pods c' namespace name") (auto simp: unannounced_None)
    have k: "o1 = o2 \<or> \<not> kind_changed o1 o2" and m: "om_UID (watched_meta o1) = om_UID (watched_meta o2)"
      "om_DeletionTimestamp (watched_meta o1) = om_DeletionTimestamp (watched_meta o2)"
      "om_OwnerReferences (watched_meta o1) = om_OwnerReferences (watched_meta o2)"
      using u Some o2 unannounced_kind unannounced_meta by metis+
    show ?thesis using k m
      by (cases o1; cases o2) (auto simp: read_pod_def Some o2 pod_view_def controller_of_def)
  qed
qed

text \<open>Two Codespaces that agree on everything but the metadata generation and the boot progress.\<close>

definition same_routing :: "'raw Codespace \<Rightarrow> 'raw Codespace \<Rightarrow> bool" where
  "same_routing cs cs' \<longleftrightarrow> cs_Name cs = cs_Name cs' \<and> cs_Namespace cs = cs_Namespace cs' \<and> cs_UID cs = cs_UID cs'
     \<and> cs_Deleting cs = cs_Deleting cs' \<and> cs_Spec cs = cs_Spec cs'
     \<and> (cs_Status cs)\<lparr>st_MetadataGeneration := 0, st_Boot := None\<rparr> = (cs_Status cs')\<lparr>st_MetadataGeneration := 0, st_Boot := None\<rparr>"

lemma quiet_codespace:
  assumes "quiet_update c c'"
  shows "rel_option same_routing (read_codespace c namespace name) (read_codespace c' namespace name)"
proof -
  have u: "unannounced (cl_codespaces c namespace name) (cl_codespaces c' namespace name)" using assms by (simp add: quiet_update_def)
  show ?thesis
  proof (cases "cl_codespaces c namespace name")
    case None
    then show ?thesis using u by (simp add: read_codespace_def unannounced_None)
  next
    case (Some o1)
    then obtain o2 where o2: "cl_codespaces c' namespace name = Some o2"
      using u by (cases "cl_codespaces c' namespace name") (auto simp: unannounced_None)
    have k: "o1 = o2 \<or> \<not> kind_changed o1 o2" and m: "om_UID (watched_meta o1) = om_UID (watched_meta o2)"
      "om_DeletionTimestamp (watched_meta o1) = om_DeletionTimestamp (watched_meta o2)"
      using u Some o2 unannounced_kind unannounced_meta by metis+
    show ?thesis using k m
      by (cases o1; cases o2) (auto simp: read_codespace_def Some o2 codespace_view_def same_routing_def)
  qed
qed

lemma route_same:
  assumes "same_routing cs cs'"
  shows "route lib reads cs gatewayUID = route lib reads cs' gatewayUID"
proof -
  have s: "cs_Spec cs = cs_Spec cs'" "cs_UID cs = cs_UID cs'" "cs_Deleting cs = cs_Deleting cs'" "cs_Namespace cs = cs_Namespace cs'"
    using assms by (simp_all add: same_routing_def)
  have "(cs_Status cs)\<lparr>st_MetadataGeneration := 0, st_Boot := None\<rparr> = (cs_Status cs')\<lparr>st_MetadataGeneration := 0, st_Boot := None\<rparr>"
    using assms by (simp add: same_routing_def)
  note q = status_quiet [OF this]
  have "operation cs = operation cs'" by (simp add: operation_def s)
  then have c: "route_candidate cs = route_candidate cs'" by (simp add: route_candidate_def s q cong: option.case_cong)
  have snap: "route_snapshot cs = route_snapshot cs'" by (intro ext) (simp add: route_snapshot_def s)
  show ?thesis unfolding route_def c s q snap ..
qed

lemma runtime_routes_same:
  "list_all2 same_routing rows rows' \<Longrightarrow> runtime_routes lib reads gatewayUID rows = runtime_routes lib reads gatewayUID rows'"
proof (induction rule: list_all2_induct)
  case (Cons cs rows cs' rows')
  then show ?case using route_same [of cs cs' lib reads gatewayUID] by (simp cong: sum.case_cong)
qed simp

lemma site_runtimes_same:
  assumes "quiet_update c c'"
  shows "\<exists>rows rows'. site_runtimes c keys site = Inr rows \<and> site_runtimes c' keys site = Inr rows' \<and> list_all2 same_routing rows rows'"
proof -
  have "list_all2 same_routing (List.map_filter (\<lambda>(ns, n). read_codespace c ns n) ks) (List.map_filter (\<lambda>(ns, n). read_codespace c' ns n) ks)" for ks
  proof (induction ks)
    case (Cons k ks)
    obtain ns n where k: "k = (ns, n)" by fastforce
    show ?case using quiet_codespace [OF assms, of ns n] Cons.IH
      by (auto simp: k map_filter_simps split: option.splits elim: option.rel_cases)
  qed (simp add: map_filter_simps)
  then show ?thesis by (simp add: site_runtimes_def)
qed

lemma site_routes_same:
  assumes "quiet_update c c'"
  shows "site_routes lib reads (site_runtimes c keys) gatewayUID sites = site_routes lib reads (site_runtimes c' keys) gatewayUID sites"
proof (induction sites)
  case (Cons site sites)
  obtain rows rows' where r: "site_runtimes c keys site = Inr rows" "site_runtimes c' keys site = Inr rows'" "list_all2 same_routing rows rows'"
    using site_runtimes_same [OF assms] by blast
  show ?case using Cons.IH runtime_routes_same [OF r(3), of lib reads gatewayUID] by (simp add: r split: sum.splits)
qed simp

lemma quiet_reads:
  assumes "quiet_update c c'"
  shows "cluster_reads c reads = cluster_reads c' reads" "gateway_sites c names = gateway_sites c' names"
  using quiet_site [OF assms] quiet_pod [OF assms] by (simp_all add: cluster_reads_def gateway_sites_def)

lemma quiet_snapshot:
  assumes "quiet_update c c'"
  shows "gatewaySnapshot lib (cluster_reads c reads) (site_runtimes c keys) (gateway_sites c names) publicURL sshAddress gatewayUID
      = gatewaySnapshot lib (cluster_reads c' reads) (site_runtimes c' keys) (gateway_sites c' names) publicURL sshAddress gatewayUID"
  using site_routes_same [OF assms, of lib "cluster_reads c' reads" keys gatewayUID] unfolding quiet_reads [OF assms]
  by (simp add: gatewaySnapshot_def split: sum.splits)

section \<open>Wake-ups\<close>

datatype notifier_event = NotifierSubscribe | NotifierRemove nat | NotifierNotify | NotifierReceive nat

fun notifier_step :: "notifier_event \<Rightarrow> ChangeNotifier \<Rightarrow> ChangeNotifier" where
  "notifier_step NotifierSubscribe n = snd (Subscribe n)"
| "notifier_step (NotifierRemove channel) n = remove_subscriber channel n"
| "notifier_step NotifierNotify n = Notify n"
| "notifier_step (NotifierReceive channel) n =
     (case fmlookup (cn_subscribers n) channel of
        Some True \<Rightarrow> n\<lparr>cn_subscribers := fmupd channel False (cn_subscribers n)\<rparr>
      | _ \<Rightarrow> n)"

definition channels_named :: "ChangeNotifier \<Rightarrow> bool" where
  "channels_named n \<longleftrightarrow> (\<forall>channel. fmlookup (cn_subscribers n) channel \<noteq> None \<longrightarrow> channel < cn_next n)"

lemma channels_named_step: "channels_named n \<Longrightarrow> channels_named (notifier_step ev n)"
  by (cases ev) (auto simp: channels_named_def Subscribe_def remove_subscriber_def Notify_def less_Suc_eq split: option.splits bool.splits)

text \<open>A subscriber that was there when a change was announced finds its channel readable until it reads it.\<close>

lemma no_lost_wakeup:
  assumes "channels_named n" "fmlookup (cn_subscribers n) channel = Some True"
    and "NotifierReceive channel \<notin> set events" "NotifierRemove channel \<notin> set events"
  shows "fmlookup (cn_subscribers (fold notifier_step events n)) channel = Some True"
  using assms
proof (induction events arbitrary: n)
  case (Cons ev events)
  have "fmlookup (cn_subscribers (notifier_step ev n)) channel = Some True"
    using Cons.prems by (cases ev) (auto simp: channels_named_def Subscribe_def remove_subscriber_def Notify_def split: option.splits bool.splits)
  with Cons.IH [OF channels_named_step [OF Cons.prems(1)] this] Cons.prems(3,4) show ?case by simp
qed simp

lemma Notify_wakes: "fmlookup (cn_subscribers n) channel \<noteq> None \<Longrightarrow> fmlookup (cn_subscribers (Notify n)) channel = Some True"
  by (auto simp: Notify_def)

section \<open>Examples\<close>

definition change_meta :: "string \<Rightarrow> OwnerReference list \<Rightarrow> ObjectMeta" where
  "change_meta uid owners = \<lparr>om_UID = uid, om_DeletionTimestamp = None, om_OwnerReferences = owners, om_Labels = fmempty\<rparr>"

definition change_cluster :: "int \<Rightarrow> unit cluster" where
  "change_cluster counter =
     \<lparr>cl_sites = (\<lambda>_. Some (WatchedSite (change_meta ''site'' []) 1 \<lparr>ss_Enabled = True, ss_GatewayUID = ''gw'', ss_Rest = []\<rparr>
        \<lparr>sx_CanonicalURL = ''https://g'', sx_Conditions = si_Conditions demo_gateway_site, sx_InventoryGeneration = counter, sx_Rest = []\<rparr>)),
      cl_pods = (\<lambda>_ _. Some (WatchedPod (change_meta ''pod-uid'' [\<lparr>ow_UID = ''resource'', ow_Controller = True\<rparr>])
        \<lparr>ps_Phase = ''Running'', ps_PodIP = ''10.0.0.1'', ps_PodIPs = [''10.0.0.1'']\<rparr>)),
      cl_codespaces = (\<lambda>_ _. Some (WatchedCodespace (change_meta ''resource'' []) (cs_Spec demo_runtime)
        ((cs_Status demo_runtime)\<lparr>st_MetadataGeneration := counter\<rparr>))),
      cl_components = (\<lambda>_. Some (WatchedComponent (change_meta ''gw'' []) 1 \<lparr>cx_Role = ''gateway'', cx_Config = []\<rparr>))\<rparr>"

end
