(* ===== verification/Gateway_Control.thy ===== *)
theory Gateway_Control
  imports Manager_Changes "HOL-Library.Countable"
begin

text \<open>
  The stream on which the Manager keeps a Gateway up to date (\<open>internal/cluster/component.go\<close>,
  \<open>GatewayControl\<close> and \<open>gatewayConfig\<close>, with the informer handlers of \<open>manager.go\<close>). The functions are
  the arms of its loop; the machine interleaves them with updates of the cluster, whose handlers run
  after the cache has changed, and lets a snapshot be read while the cluster changes. The theorem shows
  that a Gateway at rest has the current snapshot.
\<close>

section \<open>The configuration of the Gateway\<close>

text \<open>\<open>parse\<close> reads the configuration: the public URL, the SSH address and the encoded rest. The index
  answers with the keys and the UIDs of the components; the component is then read by its key.\<close>

type_synonym config_parser = "string \<Rightarrow> component_error + (string \<times> string \<times> string)"

definition gatewayConfig ::
  "config_parser \<Rightarrow> componentIdentity \<Rightarrow> component_error + (string \<times> string) list \<Rightarrow> (string \<Rightarrow> 'raw watched option) \<Rightarrow>
     component_error + ((string \<times> string \<times> string) \<times> string)" where
  "gatewayConfig parse i components read_live =
     (case components of
        Inl err \<Rightarrow> Inl err
      | Inr [(name, indexedUID)] \<Rightarrow>
          (case read_live name of
             Some (WatchedComponent m generation spec) \<Rightarrow>
               if om_UID m \<noteq> indexedUID \<or> om_UID m \<noteq> ci_UID i \<or> cx_Role spec \<noteq> ''gateway''
                  \<or> om_DeletionTimestamp m \<noteq> None
               then Inl identityUnauthorized
               else map_sum id (\<lambda>config. (config, om_UID m)) (parse (cx_Config spec))
           | _ \<Rightarrow> Inl objectMissing)
      | Inr _ \<Rightarrow> Inl identityUnauthorized)"

section \<open>The arms of the loop\<close>

record ControlRequest =
  gr_ProtocolVersion :: int
  gr_SessionId :: string
  gr_Sequence :: int
  gr_ActiveSessions :: "(string, int) fmap"

record gateway_stream =
  gs_session :: string
  gs_sequence :: int
  gs_cursor :: string
  gs_send :: bool

datatype control_error =
    controlIdentityInvalid
  | controlSequenceInvalid
  | activityCountInvalid
  | activityRuntimeStale
  | activityRefused activity_error
  | snapshotUnavailable component_error

text \<open>The counts in the order of the iteration.\<close>

fun activity_checked :: "'raw component_reads \<Rightarrow> componentIdentity \<Rightarrow> (string \<times> int) list \<Rightarrow> control_error option" where
  "activity_checked reads i [] = None"
| "activity_checked reads i ((runtimeUUID, n) # rest) =
     (if n < 0 then Some activityCountInvalid
      else case runtimeForGateway reads i runtimeUUID of
        Inl _ \<Rightarrow> Some activityRuntimeStale
      | Inr _ \<Rightarrow> activity_checked reads i rest)"

definition replaceGatewayActivity ::
  "'raw component_reads \<Rightarrow> componentIdentity \<Rightarrow> string \<Rightarrow> (string \<times> int) list \<Rightarrow> (string, int) fmap \<Rightarrow> time \<Rightarrow> RuntimeActivityTracker option \<Rightarrow>
     control_error option \<times> RuntimeActivityTracker option" where
  "replaceGatewayActivity reads i session order counts now activity =
     (case activity_checked reads i order of
        Some err \<Rightarrow> (Some err, activity)
      | None \<Rightarrow>
          (case activity of
             None \<Rightarrow> (None, None)
           | Some t \<Rightarrow>
               (case ReplaceGateway (ci_UID i) session counts False now t of
                  (Some err, t) \<Rightarrow> (Some (activityRefused err), Some t)
                | (None, t) \<Rightarrow> (None, Some t))))"

definition control_open ::
  "'raw component_reads \<Rightarrow> componentIdentity \<Rightarrow> ControlRequest \<Rightarrow> (string \<times> int) list \<Rightarrow> time \<Rightarrow> RuntimeActivityTracker option \<Rightarrow>
     (control_error + gateway_stream) \<times> RuntimeActivityTracker option" where
  "control_open reads i first order now activity =
     (if gr_ProtocolVersion first \<noteq> 1 \<or> TrimSpace (gr_SessionId first) = [] \<or> gr_Sequence first = 0 then (Inl controlIdentityInvalid, activity)
      else case replaceGatewayActivity reads i (gr_SessionId first) order (gr_ActiveSessions first) now activity of
        (Some err, activity) \<Rightarrow> (Inl err, activity)
      | (None, activity) \<Rightarrow>
          (Inr \<lparr>gs_session = gr_SessionId first, gs_sequence = gr_Sequence first, gs_cursor = [], gs_send = True\<rparr>, activity))"

definition control_request ::
  "'raw component_reads \<Rightarrow> componentIdentity \<Rightarrow> ControlRequest \<Rightarrow> (string \<times> int) list \<Rightarrow> time \<Rightarrow> gateway_stream \<Rightarrow> RuntimeActivityTracker option \<Rightarrow>
     (control_error + gateway_stream) \<times> RuntimeActivityTracker option" where
  "control_request reads i request order now s activity =
     (if gr_ProtocolVersion request \<noteq> 1 \<or> gr_SessionId request \<noteq> gs_session s \<or> gr_Sequence request \<le> gs_sequence s
      then (Inl controlSequenceInvalid, activity)
      else case replaceGatewayActivity reads i (gs_session s) order (gr_ActiveSessions request) now activity of
        (Some err, activity) \<Rightarrow> (Inl err, activity)
      | (None, activity) \<Rightarrow> (Inr (s\<lparr>gs_sequence := gr_Sequence request\<rparr>), activity))"

type_synonym snapshot_content = "(string \<times> string \<times> string) \<times> runtimeSnapshot list"

text \<open>The snapshot of a loop turn: what is sent, if anything; \<open>digest\<close> is the cursor of its content.\<close>

definition control_snapshot ::
  "(snapshot_content \<Rightarrow> string) \<Rightarrow> component_error + snapshot_content \<Rightarrow> gateway_stream \<Rightarrow> control_error + (snapshot_content option \<times> gateway_stream)" where
  "control_snapshot digest snapshot s =
     (case snapshot of
        Inl err \<Rightarrow> Inl (snapshotUnavailable err)
      | Inr content \<Rightarrow>
          if digest content \<noteq> gs_cursor s then Inr (Some content, s\<lparr>gs_cursor := digest content, gs_send := False\<rparr>)
          else Inr (None, s\<lparr>gs_send := False\<rparr>))"

text \<open>What follows a message to the Gateway, and what the end of the stream leaves.\<close>

definition control_sent :: "componentIdentity \<Rightarrow> gateway_stream \<Rightarrow> time \<Rightarrow> RuntimeActivityTracker option \<Rightarrow> RuntimeActivityTracker option" where
  "control_sent i s now activity = map_option (RenewGatewayPermit (ci_UID i) (gs_session s) now) activity"

definition control_close :: "componentIdentity \<Rightarrow> gateway_stream \<Rightarrow> time \<Rightarrow> RuntimeActivityTracker option \<Rightarrow> RuntimeActivityTracker option" where
  "control_close i s now activity = map_option (\<lambda>t. snd (ReplaceGateway (ci_UID i) (gs_session s) fmempty True now t)) activity"

section \<open>The machine\<close>

record ('a, 'p, 'raw) control_env =
  ce_lib :: "('a, 'p) go_library"
  ce_reads :: "'raw component_reads"
  ce_parse :: config_parser
  ce_identity :: componentIdentity
  ce_names :: "string list"
  ce_components :: "string list"
  ce_keys :: "GatewaySite \<Rightarrow> (string \<times> string) list"
  ce_digest :: "snapshot_content \<Rightarrow> string"

text \<open>The components that the index has for a UID.\<close>

definition component_index :: "'raw cluster \<Rightarrow> string list \<Rightarrow> string \<Rightarrow> (string \<times> string) list" where
  "component_index c names uid =
     List.map_filter (\<lambda>name. case cl_components c name of
         None \<Rightarrow> None
       | Some component \<Rightarrow> if om_UID (watched_meta component) = uid then Some (name, uid) else None) names"

text \<open>\<open>gatewaySnapshot\<close> with the configuration: what the cursor is computed from.\<close>

definition current_snapshot :: "('a, 'p, 'raw) control_env \<Rightarrow> 'raw cluster \<Rightarrow> component_error + snapshot_content" where
  "current_snapshot env c =
     (case gatewayConfig (ce_parse env) (ce_identity env) (Inr (component_index c (ce_components env) (ci_UID (ce_identity env)))) (cl_components c) of
        Inl err \<Rightarrow> Inl err
      | Inr ((publicURL, sshAddress, rest), uid) \<Rightarrow>
          map_sum id (Pair (publicURL, sshAddress, rest))
            (gatewaySnapshot (ce_lib env) (cluster_reads c (ce_reads env)) (site_runtimes c (ce_keys env))
               (gateway_sites c (ce_names env)) publicURL sshAddress uid))"

text \<open>\<open>cm_pending\<close> counts the handlers that have not notified yet, \<open>cm_token\<close> is the channel,
  \<open>cm_dirty\<close> says that an announced update came while a snapshot is read.\<close>

record 'raw control_machine =
  cm_world :: "'raw cluster"
  cm_pending :: nat
  cm_token :: bool
  cm_stream :: gateway_stream
  cm_reading :: bool
  cm_dirty :: bool
  cm_received :: "snapshot_content option"

definition control_init :: "'raw control_machine \<Rightarrow> bool" where
  "control_init m \<longleftrightarrow> \<not> cm_reading m \<and> gs_send (cm_stream m) \<and> gs_cursor (cm_stream m) = [] \<and> cm_received m = None"

definition deliver :: "snapshot_content option \<Rightarrow> snapshot_content option \<Rightarrow> snapshot_content option" where
  "deliver sent received = (case sent of None \<Rightarrow> received | Some content \<Rightarrow> Some content)"

inductive control_step :: "('a, 'p, 'raw) control_env \<Rightarrow> 'raw control_machine \<Rightarrow> 'raw control_machine \<Rightarrow> bool" for env where
  announced: "control_step env m (m\<lparr>cm_world := w, cm_pending := cm_pending m + 1, cm_dirty := True\<rparr>)"
| unannounced: "quiet_update (cm_world m) w \<Longrightarrow> control_step env m (m\<lparr>cm_world := w\<rparr>)"
| notify: "cm_pending m > 0 \<Longrightarrow> control_step env m (m\<lparr>cm_pending := cm_pending m - 1, cm_token := True\<rparr>)"
| take_change: "\<not> gs_send (cm_stream m) \<Longrightarrow> cm_token m \<Longrightarrow>
    control_step env m (m\<lparr>cm_token := False, cm_stream := (cm_stream m)\<lparr>gs_send := True\<rparr>\<rparr>)"
| begin_snapshot: "gs_send (cm_stream m) \<Longrightarrow> \<not> cm_reading m \<Longrightarrow> control_step env m (m\<lparr>cm_reading := True, cm_dirty := False\<rparr>)"
| end_snapshot: "cm_reading m \<Longrightarrow> (cm_dirty m \<or> snapshot = current_snapshot env (cm_world m)) \<Longrightarrow>
    control_snapshot (ce_digest env) snapshot (cm_stream m) = Inr (sent, s) \<Longrightarrow>
    control_step env m (m\<lparr>cm_reading := False, cm_stream := s, cm_received := deliver sent (cm_received m)\<rparr>)"
| request: "\<not> gs_send (cm_stream m) \<Longrightarrow>
    control_request (reads :: 'raw component_reads) i r order now (cm_stream m) activity = (Inr s, activity') \<Longrightarrow> control_step env m (m\<lparr>cm_stream := s\<rparr>)"

definition at_rest :: "'raw control_machine \<Rightarrow> bool" where
  "at_rest m \<longleftrightarrow> \<not> gs_send (cm_stream m) \<and> \<not> cm_token m \<and> cm_pending m = 0"

text \<open>The cursor is a SHA-256 digest: it is not empty, and equal digests mean equal contents (the idealisation
  that no collision is met).\<close>

definition digest_law :: "(snapshot_content \<Rightarrow> string) \<Rightarrow> bool" where
  "digest_law digest \<longleftrightarrow> (\<forall>c. digest c \<noteq> []) \<and> inj digest"

definition control_inv :: "('a, 'p, 'raw) control_env \<Rightarrow> 'raw control_machine \<Rightarrow> bool" where
  "control_inv env m \<longleftrightarrow> (digest_law (ce_digest env) \<longrightarrow>
     gs_cursor (cm_stream m) = (case cm_received m of None \<Rightarrow> [] | Some content \<Rightarrow> ce_digest env content)
     \<and> (cm_reading m \<longrightarrow> gs_send (cm_stream m))
     \<and> (cm_reading m \<and> cm_dirty m \<longrightarrow> cm_token m \<or> cm_pending m > 0)
     \<and> (gs_send (cm_stream m) \<or> cm_token m \<or> cm_pending m > 0 \<or> (\<exists>content. cm_received m = Some content \<and> current_snapshot env (cm_world m) = Inr content)))"

section \<open>Updates that wake nobody\<close>

lemma quiet_component:
  assumes "quiet_update c c'"
  shows "cl_components c name = cl_components c' name \<or>
    (\<exists>x y. cl_components c name = Some x \<and> cl_components c' name = Some y \<and> \<not> kind_changed x y
       \<and> om_UID (watched_meta x) = om_UID (watched_meta y) \<and> om_DeletionTimestamp (watched_meta x) = om_DeletionTimestamp (watched_meta y))"
proof -
  have "unannounced (cl_components c name) (cl_components c' name)" using assms by (simp add: quiet_update_def)
  then show ?thesis by (auto simp: unannounced_def coordinationUpdateChanged_def split: option.splits if_splits)
qed

lemma quiet_component_index:
  assumes "quiet_update c c'"
  shows "component_index c names uid = component_index c' names uid"
proof -
  have "(case cl_components c name of None \<Rightarrow> None | Some component \<Rightarrow> if om_UID (watched_meta component) = uid then Some (name, uid) else None)
      = (case cl_components c' name of None \<Rightarrow> None | Some component \<Rightarrow> if om_UID (watched_meta component) = uid then Some (name, uid) else None)"
    for name
    using quiet_component [OF assms, of name] by auto
  then show ?thesis unfolding component_index_def by presburger
qed

lemma quiet_config:
  assumes "quiet_update c c'"
  shows "gatewayConfig parse i (Inr components) (cl_components c) = gatewayConfig parse i (Inr components) (cl_components c')"
proof -
  have one: "gatewayConfig parse i (Inr [(name, uid)]) (cl_components c) = gatewayConfig parse i (Inr [(name, uid)]) (cl_components c')" for name uid
    using quiet_component [OF assms, of name]
  proof
    assume "\<exists>x y. cl_components c name = Some x \<and> cl_components c' name = Some y \<and> \<not> kind_changed x y
       \<and> om_UID (watched_meta x) = om_UID (watched_meta y) \<and> om_DeletionTimestamp (watched_meta x) = om_DeletionTimestamp (watched_meta y)"
    then obtain x y where xy: "cl_components c name = Some x" "cl_components c' name = Some y" "\<not> kind_changed x y"
      "om_UID (watched_meta x) = om_UID (watched_meta y)" "om_DeletionTimestamp (watched_meta x) = om_DeletionTimestamp (watched_meta y)"
      by blast
    then show ?thesis by (cases x; cases y) (simp_all add: gatewayConfig_def)
  qed (simp add: gatewayConfig_def)
  consider "components = []" | n u where "components = [(n, u)]" | x y zs where "components = x # y # zs"
    by (cases components rule: remdups_adj.cases) auto
  then show ?thesis by cases (simp_all add: one, simp_all add: gatewayConfig_def)
qed

lemma quiet_current:
  assumes "quiet_update c c'"
  shows "current_snapshot env c = current_snapshot env c'"
  unfolding current_snapshot_def quiet_component_index [OF assms] quiet_config [OF assms] quiet_snapshot [OF assms] ..

text \<open>C29: An update that is not announced changes nothing that a Gateway is told. Whatever the API server
  has updated without waking the subscribers, be it a site, a Pod, a Codespace or a component, the snapshot
  of every Gateway, its configuration included, and the answer to every request for a route are the same
  as before: the counters and the boot progress that the comparison leaves out are indeed irrelevant to
  routing.
\<close>

theorem unannounced_update_keeps_routes:
  assumes "quiet_update c c'"
  shows "current_snapshot env c = current_snapshot env c'
    \<and> (\<forall>namespace name cs. read_codespace c namespace name = Some cs \<longrightarrow>
        (\<exists>cs'. read_codespace c' namespace name = Some cs'
          \<and> route lib (cluster_reads c reads) cs gatewayUID = route lib (cluster_reads c' reads) cs' gatewayUID))"
proof -
  have "\<exists>cs'. read_codespace c' namespace name = Some cs' \<and> same_routing cs cs'" if "read_codespace c namespace name = Some cs" for namespace name cs
    using quiet_codespace [OF assms, of namespace name] that by (auto elim: option.rel_cases)
  then show ?thesis using quiet_current [OF assms] route_same unfolding quiet_reads(1) [OF assms] by blast
qed

section \<open>A Gateway at rest has the current snapshot\<close>

lemma control_snapshot_cases:
  assumes "control_snapshot digest snapshot s = Inr (sent, s')"
  obtains content where "snapshot = Inr content" "s' = s\<lparr>gs_cursor := digest content, gs_send := False\<rparr>"
    "sent = (if digest content = gs_cursor s then None else Some content)"
  using assms by (cases snapshot) (auto simp: control_snapshot_def split: if_splits)

lemma control_request_stream:
  "control_request reads i r order now s activity = (Inr s', activity') \<Longrightarrow> gs_cursor s' = gs_cursor s \<and> gs_send s' = gs_send s"
  by (auto simp: control_request_def split: if_splits prod.splits option.splits)

text \<open>A snapshot that is not sent because its cursor is the last one is the one that the Gateway has.\<close>

lemma deliver_content:
  assumes "digest_law digest" "cursor = (case received of None \<Rightarrow> [] | Some content \<Rightarrow> digest content)"
  shows "deliver (if digest content = cursor then None else Some content) received = Some content"
proof -
  have "digest content \<noteq> []" "inj digest" using assms(1) unfolding digest_law_def by blast+
  then show ?thesis using assms(2) by (auto simp: deliver_def inj_eq split: option.splits)
qed

lemma control_inv_step:
  assumes "control_inv env m" "control_step env m m'"
  shows "control_inv env m'"
  using assms(2,1)
proof cases
  case (end_snapshot snapshot sent s)
  then obtain content where c: "snapshot = Inr content" "s = (cm_stream m)\<lparr>gs_cursor := ce_digest env content, gs_send := False\<rparr>"
    "sent = (if ce_digest env content = gs_cursor (cm_stream m) then None else Some content)"
    by (elim control_snapshot_cases)
  have "deliver sent (cm_received m) = Some content" if "digest_law (ce_digest env)"
    unfolding c(3) by (rule deliver_content [OF that]) (use assms(1) that in \<open>simp add: control_inv_def\<close>)
  then show ?thesis using end_snapshot(1-3) assms(1) c(1,2) by (auto simp: control_inv_def)
next
  case (unannounced w)
  then show ?thesis using assms(1) quiet_current [OF unannounced(2), of env] by (simp add: control_inv_def)
next
  case (request reads i r order now activity s activity')
  then show ?thesis using assms(1) control_request_stream [OF request(3)] by (auto simp: control_inv_def)
qed (auto simp: control_inv_def split: option.splits)

lemma control_inv_init: "control_init m \<Longrightarrow> control_inv env m"
  by (simp add: control_init_def control_inv_def)

interpretation gateway_control: safe_machine control_init "control_step env" "control_inv env" for env
  by unfold_locales (auto intro: control_inv_init control_inv_step)

text \<open>C11: Whenever the Manager's handlers and the stream of a Gateway have nothing left to do, the last
  snapshot that the Manager sent has the configuration and the routes that the cluster has at that moment:
  however updates of the cluster,
  their notifications, requests of the Gateway and the reading of snapshots are interleaved, an update that
  changes a route is neither lost while a snapshot is read nor hidden by the comparison of cursors.\<close>

theorem gateway_snapshot_current:
  assumes "reachable control_init (control_step env) m" "digest_law (ce_digest env)" "at_rest m"
  shows "\<exists>content. cm_received m = Some content \<and> current_snapshot env (cm_world m) = Inr content"
  using gateway_control.reachable_inv [OF assms(1)] assms(2,3) by (auto simp: control_inv_def at_rest_def)

section \<open>Examples\<close>

text \<open>An injective cursor.\<close>

definition endpoint_fields :: "endpointSnapshot \<Rightarrow> string \<times> string \<times> bool" where
  "endpoint_fields e = (es_EndpointID e, es_Label e, es_Public e)"

definition route_fields ::
  "runtimeSnapshot \<Rightarrow> string \<times> string \<times> string \<times> string \<times> string \<times> string \<times> int \<times> (string \<times> string \<times> bool) list" where
  "route_fields r = (rt_SiteUID r, rt_ResourceUID r, rt_RuntimeUUID r, rt_GiteaWebURL r, rt_PodUID r, rt_AgentAddress r, rt_TargetVersion r,
     map endpoint_fields (rt_Endpoints r))"

definition demo_digest :: "snapshot_content \<Rightarrow> string" where
  "demo_digest content = replicate (Suc (to_nat (map_prod id (map route_fields) content))) CHR ''x''"

lemma inj_route_fields: "inj route_fields"
proof -
  have "inj endpoint_fields" by (rule injI) (simp add: endpoint_fields_def)
  then show ?thesis by (intro injI) (auto simp: route_fields_def inj_map_eq_map intro: runtimeSnapshot.equality)
qed

lemma demo_digest_law: "digest_law demo_digest"
proof -
  have "inj (map_prod (id :: string \<times> string \<times> string \<Rightarrow> _) (map route_fields))"
    by (rule prod.inj_map) (simp_all add: inj_route_fields)
  then have "inj (\<lambda>c. to_nat (map_prod (id :: string \<times> string \<times> string \<Rightarrow> _) (map route_fields) c))"
    by (intro injI) (auto dest: injD)
  then show ?thesis by (auto simp: digest_law_def demo_digest_def inj_def)
qed

definition demo_control_env :: "(string, string, unit) control_env" where
  "demo_control_env = \<lparr>ce_lib = demo_library, ce_reads = demo_reads, ce_parse = (\<lambda>_. Inr (''u'', ''a'', '''')),
     ce_identity = \<lparr>ci_Role = ''gateway'', ci_UID = ''gw''\<rparr>, ce_names = [''s''], ce_components = [''g''], ce_keys = (\<lambda>_. [(''codespace-s'', ''c'')]), ce_digest = demo_digest\<rparr>"

definition demo_opened :: "unit control_machine" where
  "demo_opened = \<lparr>cm_world = change_cluster 1, cm_pending = 0, cm_token = False,
     cm_stream = \<lparr>gs_session = ''s'', gs_sequence = 1, gs_cursor = [], gs_send = True\<rparr>, cm_reading = False, cm_dirty = False, cm_received = None\<rparr>"

lemma demo_snapshot_sent:
  "\<exists>content. current_snapshot demo_control_env (change_cluster 1) = Inr content \<and> map rt_AgentAddress (snd content) = [''10.0.0.1:8444'']"
proof -
  have "(case current_snapshot demo_control_env (change_cluster 1) of Inr content \<Rightarrow> map rt_AgentAddress (snd content) | Inl _ \<Rightarrow> []) = [''10.0.0.1:8444'']"
    by code_simp
  then show ?thesis by (auto split: sum.splits)
qed

theorem gateway_snapshot_current_witness:
  "\<exists>m. reachable control_init (control_step demo_control_env) m \<and> at_rest m
     \<and> (\<exists>content. cm_received m = Some content \<and> current_snapshot demo_control_env (cm_world m) = Inr content)"
proof -
  obtain content where c: "current_snapshot demo_control_env (change_cluster 1) = Inr content" using demo_snapshot_sent by blast
  let ?env = demo_control_env
  let ?r = "demo_opened\<lparr>cm_reading := True, cm_dirty := False\<rparr>"
  let ?s = "(cm_stream demo_opened)\<lparr>gs_cursor := demo_digest content, gs_send := False\<rparr>"
  let ?m = "?r\<lparr>cm_reading := False, cm_stream := ?s, cm_received := deliver (Some content) None\<rparr>"
  have d: "digest_law (ce_digest ?env)" using demo_digest_law by (simp add: demo_control_env_def)
  have snap: "control_snapshot (ce_digest ?env) (current_snapshot ?env (cm_world ?r)) (cm_stream ?r) = Inr (Some content, ?s)"
    using c by (simp add: control_snapshot_def demo_opened_def demo_control_env_def demo_digest_def)
  have "reachable control_init (control_step ?env) demo_opened"
    by (rule reach_init) (simp add: control_init_def demo_opened_def)
  moreover have "control_step ?env demo_opened ?r" by (rule begin_snapshot) (simp_all add: demo_opened_def)
  moreover have "control_step ?env ?r ?m"
    using end_snapshot [of ?r "current_snapshot ?env (cm_world ?r)" ?env "Some content" ?s] snap by (simp add: demo_opened_def)
  ultimately have r: "reachable control_init (control_step ?env) ?m" by (blast intro: reach_step)
  have rest: "at_rest ?m" by (simp add: at_rest_def demo_opened_def)
  show ?thesis using gateway_snapshot_current [OF r d rest] r rest by blast
qed

theorem unannounced_update_keeps_routes_witness:
  "quiet_update (change_cluster 1) (change_cluster 2) \<and>
   (\<exists>content. current_snapshot demo_control_env (change_cluster 1) = Inr content \<and> current_snapshot demo_control_env (change_cluster 2) = Inr content
      \<and> map rt_AgentAddress (snd content) = [''10.0.0.1:8444''])"
proof -
  have q: "quiet_update (change_cluster 1) (change_cluster 2)"
    by (simp add: quiet_update_def change_cluster_def unannounced_def coordinationUpdateChanged_def)
  with unannounced_update_keeps_routes [OF q] demo_snapshot_sent show ?thesis by metis
qed

end
