(* ===== verification/Site_Coordinator.thy ===== *)
theory Site_Coordinator
  imports Codespace_Updates Route_Store
begin

text \<open>
  How the Manager works for one Gitea site (\<open>internal/cluster/coordinator.go\<close> and \<open>capacity.go\<close>): the
  client and the declaration, the inventory, idle stops, the capacity for new operations, and
  \<open>run_cycle\<close>, one turn of the loop of \<open>runSite\<close>. Every answer of the API server and of Gitea is a field
  of the environment of the turn, so a turn may see anything; a run is a sequence of turns. The theorems
  show that the Manager is declared online only after a complete inventory, that it asks for
  startups only then and within its limits, and that an inventory decision is applied as a whole or not at all.
\<close>

section \<open>Sites, templates and quotas\<close>

record SiteObject = GiteaSite +
  so_Enabled :: bool
  so_Deleting :: bool
  so_Generation :: int
  so_Gateway :: "string \<times> string"
  so_Credential :: "string \<times> string"
  so_HasQuota :: bool
  so_AcceptCreates :: bool
  so_StartupConcurrency :: int
  so_CleanupConcurrency :: int
  so_Conditions :: "Condition list"
  so_CanonicalURL :: string
  so_InventoryGeneration :: int

text \<open>A quantity is a number of the smallest unit of its resource.\<close>

record TemplateObject = EnvironmentTemplate +
  to_Description :: string
  to_Storage :: int
  to_Requests :: "(string \<times> int) list"
  to_Limits :: "(string \<times> int) list"

record ResourceQuota =
  rq_Name :: string
  rq_SiteUIDLabel :: string
  rq_Deleting :: bool
  rq_SpecHard :: "(string, int) fmap"
  rq_Hard :: "(string, int) fmap"
  rq_Used :: "(string, int) fmap"
  rq_Scoped :: bool

datatype coordinator_error =
    managerError manager_error
  | siteInactive
  | infrastructureUnverified
  | credentialInvalid
  | credentialOwnershipInvalid
  | foreignRuntime
  | gatewayIdentityChanged
  | gatewayConfigInvalid
  | sshIdentityChanged
  | hostKeyInvalid
  | templateChanged
  | templateInvalid
  | coordinationLimitsInvalid
  | siteIdentityChanged
  | quotaLimitsStale string
  | quotaUsageMissing string
  | quotaUnavailable
  | environmentChanged
  | duplicateRuntimes
  | podIdentityChanged
  | inventoryGenerationExhausted
  | inventoryIncomplete
  | inventoryIdentityUnknown
  | operationHistoryRegressed
  | settingsMissing
  | renewalInvalid

section \<open>Capacity\<close>

record FetchOperationsRequest =
  fq_Observed :: "(string \<times> int) list"
  fq_CleanupCapacity :: int
  fq_StartupCapacity :: int
  fq_AcceptedCreateTags :: "string list"
  fq_AcceptResume :: bool
  fq_AcceptCreate :: bool

definition unsettled :: "'raw Codespace \<Rightarrow> bool" where
  "unsettled cs \<longleftrightarrow> st_SettledOperationVersion (cs_Status cs) < op_Version (operation cs)"

fun capacity_left :: "'raw Codespace list \<Rightarrow> int \<times> int \<Rightarrow> int \<times> int" where
  "capacity_left [] (startup, cleanup) = (startup, cleanup)"
| "capacity_left (cs # rows) (startup, cleanup) =
     capacity_left rows
       (if cs_Deleting cs \<or> st_RecoveryAction (cs_Status cs) \<noteq> [] then (startup, cleanup - 1)
        else if unsettled cs then
          (if op_Type (operation cs) = ''create'' \<or> op_Type (operation cs) = ''resume'' then (startup - 1, cleanup) else (startup, cleanup - 1))
        else (startup, cleanup))"

fun quotas_observed :: "string \<Rightarrow> ResourceQuota list \<Rightarrow> bool \<Rightarrow> coordinator_error + bool" where
  "quotas_observed siteUID [] managed = Inr managed"
| "quotas_observed siteUID (quota # quotas) managed =
     (let managed = (if rq_Name quota = ''codespace'' then rq_SiteUIDLabel quota = siteUID \<and> \<not> rq_Deleting quota else managed)
      in if rq_SpecHard quota \<noteq> rq_Hard quota then Inl (quotaLimitsStale (rq_Name quota))
         else if \<not> fmdom (rq_Hard quota) |\<subseteq>| fmdom (rq_Used quota) then Inl (quotaUsageMissing (rq_Name quota))
         else quotas_observed siteUID quotas managed)"

definition demand :: "TemplateObject \<Rightarrow> (string, int) fmap" where
  "demand template =
     fold (\<lambda>(name, quantity) d. if CHR ''/'' \<in> set name then d else fmupd (''limits.'' @ name) quantity d) (to_Limits template)
       (fold (\<lambda>(name, quantity). fmupd (''requests.'' @ name) quantity) (to_Requests template)
          (fmap_of_list [(''pods'', 1), (''persistentvolumeclaims'', 1), (''requests.storage'', to_Storage template),
             (''count/codespaces.codespace.gitea.dev'', 1)]))"

definition quota_admits :: "ResourceQuota \<Rightarrow> (string, int) fmap \<Rightarrow> bool" where
  "quota_admits quota required \<longleftrightarrow>
     fmpred (\<lambda>name amount. case fmlookup (rq_Hard quota) name of
        None \<Rightarrow> True
      | Some hard \<Rightarrow> \<not> hard - (case fmlookup (rq_Used quota) name of None \<Rightarrow> 0 | Some used \<Rightarrow> used) < amount) required"

definition template_fits :: "ResourceQuota list \<Rightarrow> TemplateObject \<Rightarrow> bool" where
  "template_fits quotas template = list_all (\<lambda>quota. rq_Scoped quota \<or> quota_admits quota (demand template)) quotas"

fun accepted_templates ::
  "(string \<Rightarrow> manager_error + TemplateObject) \<Rightarrow> string list \<Rightarrow> ResourceQuota list \<Rightarrow> (string \<times> string) list \<Rightarrow> coordinator_error + string list" where
  "accepted_templates get tags quotas [] = Inr []"
| "accepted_templates get tags quotas ((name, uid) # refs) =
     (case get name of
        Inl e \<Rightarrow> Inl (managerError e)
      | Inr template \<Rightarrow>
          if tp_UID template \<noteq> uid \<or> tp_Deleting template then Inl environmentChanged
          else if tp_Name template \<notin> set tags then accepted_templates get tags quotas refs
          else map_sum id (\<lambda>accepted. if template_fits quotas template then tp_Name template # accepted else accepted)
                 (accepted_templates get tags quotas refs))"

text \<open>The quotas that count: those of the namespace, when the site has a quota.\<close>

definition site_quotas :: "string \<Rightarrow> SiteObject \<Rightarrow> manager_error + ResourceQuota list \<Rightarrow> coordinator_error + ResourceQuota list" where
  "site_quotas managementNamespace site listed =
     (if \<not> so_HasQuota site then Inr []
      else case SiteNamespace (gs_Name site) managementNamespace of
        Inl e \<Rightarrow> Inl (managerError e)
      | Inr _ \<Rightarrow>
          (case listed of
             Inl e \<Rightarrow> Inl (managerError e)
           | Inr quotas \<Rightarrow>
               (case quotas_observed (gs_UID site) quotas False of
                  Inl e \<Rightarrow> Inl e
                | Inr managed \<Rightarrow> if managed then Inr quotas else Inl quotaUnavailable)))"

definition capacity ::
  "string \<Rightarrow> SiteObject \<Rightarrow> 'raw Codespace list \<Rightarrow> string list \<Rightarrow> manager_error + ResourceQuota list \<Rightarrow> (string \<Rightarrow> manager_error + TemplateObject) \<Rightarrow>
     FetchOperationsRequest \<Rightarrow> coordinator_error option \<times> FetchOperationsRequest" where
  "capacity managementNamespace site rows tags listed get request =
     (let (startup, cleanup) = capacity_left rows (so_StartupConcurrency site, so_CleanupConcurrency site);
          request = request\<lparr>fq_CleanupCapacity := max 0 cleanup\<rparr>
      in if startup \<le> 0 then (None, request)
         else case site_quotas managementNamespace site listed of
           Inl e \<Rightarrow> (Some e, request)
         | Inr quotas \<Rightarrow>
             (case (if so_AcceptCreates site then accepted_templates get tags quotas (gs_Templates site) else Inr []) of
                Inl e \<Rightarrow> (Some e, request)
              | Inr accepted \<Rightarrow>
                  (None, request\<lparr>fq_StartupCapacity := startup, fq_AcceptResume := True,
                     fq_AcceptedCreateTags := (if accepted \<noteq> [] then accepted else fq_AcceptedCreateTags request),
                     fq_AcceptCreate := (accepted \<noteq> [] \<or> fq_AcceptCreate request)\<rparr>)))"

section \<open>The client and the declaration\<close>

text \<open>\<open>cs_transport\<close> is the error of the HTTP client for the CA bundle.\<close>

record CredentialSecret =
  ks_UID :: string
  ks_HasSecret :: bool
  ks_Deleting :: bool
  ks_SiteUIDLabel :: string

definition siteManagerClientForCheck :: "manager_error + CredentialSecret \<Rightarrow> manager_error option \<Rightarrow> SiteObject \<Rightarrow> coordinator_error + CredentialSecret" where
  "siteManagerClientForCheck secret transport site =
     (case secret of
        Inl e \<Rightarrow> Inl (managerError e)
      | Inr secret \<Rightarrow>
          if ks_UID secret \<noteq> snd (so_Credential site) \<or> \<not> ks_HasSecret secret \<or> ks_Deleting secret then Inl credentialInvalid
          else case transport of Some e \<Rightarrow> Inl (managerError e) | None \<Rightarrow> Inr secret)"

definition siteManagerClient :: "manager_error + CredentialSecret \<Rightarrow> manager_error option \<Rightarrow> SiteObject \<Rightarrow> coordinator_error option" where
  "siteManagerClient secret transport site =
     (case siteManagerClientForCheck secret transport site of
        Inl e \<Rightarrow> Some e
      | Inr secret \<Rightarrow> if ks_SiteUIDLabel secret \<noteq> gs_UID site \<or> so_CanonicalURL site = [] then Some credentialOwnershipInvalid else None)"

text \<open>\<open>gw_Config\<close> is the decoded configuration, its public URL and SSH address; \<open>hk_Signer\<close> the algorithm and
  the fingerprint of the parsed key.\<close>

record GatewayObject =
  gw_Name :: string
  gw_UID :: string
  gw_Role :: string
  gw_Deleting :: bool
  gw_Config :: "(string \<times> string) option"

record HostKeySecret =
  hk_ComponentUIDLabel :: string
  hk_Controlled :: bool
  hk_Deleting :: bool
  hk_Signer :: "(string \<times> string) option"

record DeclareManagerRequest =
  dm_GatewayUrl :: string
  dm_GatewaySshAddr :: string
  dm_HostKeyAlgorithm :: string
  dm_HostKeyFingerprint :: string
  dm_Environments :: "(string \<times> string) list"
  dm_Online :: bool

fun declared_templates ::
  "(string \<Rightarrow> manager_error + TemplateObject) \<Rightarrow> (TemplateObject \<Rightarrow> bool) \<Rightarrow> string list \<Rightarrow> (string \<times> string) list \<Rightarrow>
     coordinator_error + ((string \<times> string) list \<times> string list)" where
  "declared_templates get valid seen [] = Inr ([], [])"
| "declared_templates get valid seen ((name, uid) # refs) =
     (case get name of
        Inl e \<Rightarrow> Inl (managerError e)
      | Inr template \<Rightarrow>
          if tp_UID template \<noteq> uid \<or> tp_Deleting template \<or> tp_UID template \<in> set seen then Inl templateChanged
          else if \<not> valid template then Inl templateInvalid
          else map_sum id (\<lambda>(environments, accepted).
                  ((tp_Name template, to_Description template) # environments,
                   case FindStatusCondition (tp_Conditions template) ''Ready'' of
                     None \<Rightarrow> accepted
                   | Some ready \<Rightarrow> if cd_True ready \<and> cd_ObservedGeneration ready = tp_Generation template then tp_Name template # accepted else accepted))
                 (declared_templates get valid (tp_UID template # seen) refs))"

definition site_declaration ::
  "manager_error + GatewayObject \<Rightarrow> manager_error + HostKeySecret \<Rightarrow> (string \<Rightarrow> manager_error + TemplateObject) \<Rightarrow> (TemplateObject \<Rightarrow> bool) \<Rightarrow> SiteObject \<Rightarrow>
     coordinator_error + (DeclareManagerRequest \<times> string list)" where
  "site_declaration gateway hostKey get valid site =
     (case gateway of
        Inl e \<Rightarrow> Inl (managerError e)
      | Inr gateway \<Rightarrow>
          if gw_UID gateway \<noteq> snd (so_Gateway site) \<or> gw_Role gateway \<noteq> ''gateway'' \<or> gw_Deleting gateway then Inl gatewayIdentityChanged
          else case gw_Config gateway of
            None \<Rightarrow> Inl gatewayConfigInvalid
          | Some (publicURL, sshAddr) \<Rightarrow>
              (case hostKey of
                 Inl e \<Rightarrow> Inl (managerError e)
               | Inr hostKey \<Rightarrow>
                   if hk_ComponentUIDLabel hostKey \<noteq> gw_UID gateway \<or> \<not> hk_Controlled hostKey \<or> hk_Deleting hostKey then Inl sshIdentityChanged
                   else case hk_Signer hostKey of
                     None \<Rightarrow> Inl hostKeyInvalid
                   | Some (algorithm, fingerprint) \<Rightarrow>
                       map_sum id (\<lambda>(environments, accepted).
                         (\<lparr>dm_GatewayUrl = TrimRight (CHR ''/'') publicURL, dm_GatewaySshAddr = sshAddr, dm_HostKeyAlgorithm = algorithm,
                           dm_HostKeyFingerprint = fingerprint, dm_Environments = environments, dm_Online = False\<rparr>, accepted))
                         (declared_templates get valid [] (gs_Templates site))))"

record DeclareManagerResponse =
  dr_HeartbeatIntervalMilliseconds :: int
  dr_MetadataRefreshIntervalMilliseconds :: int
  dr_GiteaWebUrl :: string

definition declareManager :: "connect_code + DeclareManagerResponse \<Rightarrow> string \<Rightarrow> coordinator_error + DeclareManagerResponse" where
  "declareManager reply canonicalURL =
     (case reply of
        Inl code \<Rightarrow> Inl (managerError (RemoteError code))
      | Inr message \<Rightarrow>
          if dr_HeartbeatIntervalMilliseconds message \<le> 0 \<or> dr_MetadataRefreshIntervalMilliseconds message \<le> 0 then Inl coordinationLimitsInvalid
          else if TrimRight (CHR ''/'') (dr_GiteaWebUrl message) \<noteq> canonicalURL then Inl siteIdentityChanged
          else Inr message)"

section \<open>The inventory\<close>

datatype RuntimeState = STATE_UNSPECIFIED | STATE_CREATING | STATE_RUNNING | STATE_STOPPED

record InventoryPod =
  ip_UID :: string
  ip_ControllerUID :: "string option"
  ip_Deleting :: bool
  ip_Running :: bool

text \<open>A missing Pod is \<open>Inr None\<close>.\<close>

definition runtime_state :: "(string \<Rightarrow> string \<Rightarrow> manager_error + InventoryPod option) \<Rightarrow> 'raw Codespace \<Rightarrow> coordinator_error + RuntimeState" where
  "runtime_state pods cs =
     (let status = cs_Status cs
      in if st_PodUID status \<noteq> [] then
           (case pods (cs_Namespace cs) (st_PodName status) of
              Inl e \<Rightarrow> Inl (managerError e)
            | Inr None \<Rightarrow> Inr STATE_CREATING
            | Inr (Some pod) \<Rightarrow>
                if ip_UID pod \<noteq> st_PodUID status \<or> ip_ControllerUID pod \<noteq> Some (cs_UID cs) then Inl podIdentityChanged
                else if \<not> ip_Deleting pod \<and> ip_Running pod \<and> (case st_Target status of None \<Rightarrow> False | Some target \<Rightarrow> tg_Ready target)
                then Inr STATE_RUNNING else Inr STATE_CREATING)
         else if IsStatusConditionTrue (st_Conditions status) ''Stopped'' then Inr STATE_STOPPED
         else Inr STATE_CREATING)"

record RuntimeInstanceRef =
  rr_RuntimeUuid :: string
  rr_RuntimeState :: RuntimeState
  rr_ObservedOperationRversion :: int

fun inventory_rows ::
  "(string \<Rightarrow> string \<Rightarrow> manager_error + InventoryPod option) \<Rightarrow> string list \<Rightarrow> 'raw Codespace list \<Rightarrow> coordinator_error + RuntimeInstanceRef list" where
  "inventory_rows pods seen [] = Inr []"
| "inventory_rows pods seen (cs # rows) =
     (if sp_RuntimeUUID (cs_Spec cs) \<in> set seen then Inl duplicateRuntimes
      else case runtime_state pods cs of
        Inl e \<Rightarrow> Inl e
      | Inr state \<Rightarrow>
          map_sum id (Cons \<lparr>rr_RuntimeUuid = sp_RuntimeUUID (cs_Spec cs), rr_RuntimeState = state,
              rr_ObservedOperationRversion = (if st_SettledOperationVersion (cs_Status cs) \<ge> op_Version (operation cs) then 0 else op_Version (operation cs))\<rparr>)
            (inventory_rows pods (sp_RuntimeUUID (cs_Spec cs) # seen) rows))"

text \<open>\<open>updateSiteStatus\<close> with the change that \<open>inventory\<close> makes.\<close>

definition inventory_site_mutation :: "int \<Rightarrow> SiteObject \<Rightarrow> coordinator_error + SiteObject" where
  "inventory_site_mutation observedGeneration current =
     (if so_Generation current \<noteq> observedGeneration then Inl (managerError errObservedResourceChanged)
      else if so_InventoryGeneration current = max_int64 then Inl inventoryGenerationExhausted
      else Inr (current\<lparr>so_InventoryGeneration := so_InventoryGeneration current + 1\<rparr>))"

fun updateSiteStatus ::
  "(SiteObject \<Rightarrow> bool) \<Rightarrow> string \<Rightarrow> (SiteObject \<Rightarrow> coordinator_error + SiteObject) \<Rightarrow> nat \<Rightarrow> SiteObject attempt list \<Rightarrow> coordinator_error + SiteObject" where
  "updateSiteStatus sizeOK uid mutate (Suc n) (a # as) =
     (case at_Get a of
        Inl e \<Rightarrow> Inl (managerError e)
      | Inr current \<Rightarrow>
          if gs_UID current \<noteq> uid then Inl (managerError errObservedResourceChanged)
          else case mutate current of
            Inl e \<Rightarrow> Inl e
          | Inr next \<Rightarrow>
              if \<not> sizeOK next then Inl (managerError (Invalid objectTooLarge))
              else if (so_Conditions next, so_CanonicalURL next, so_InventoryGeneration next)
                  = (so_Conditions current, so_CanonicalURL current, so_InventoryGeneration current) then Inr next
              else (case at_Write a of
                      Written \<Rightarrow> Inr next
                    | Conflict \<Rightarrow> updateSiteStatus sizeOK uid mutate n as
                    | WriteFailed e \<Rightarrow> Inl (managerError e)))"
| "updateSiteStatus sizeOK uid mutate n as = Inl (managerError ConflictError)"

record InventoryResult =
  ir_RuntimeUuid :: string
  ir_Action :: ReconcileAction
  ir_CurrentOperationRversion :: int
  ir_RuntimeSettings :: "RuntimeSettings option"

text \<open>The identities of a decision: \<open>known\<close> are those that were reported.\<close>

fun results_known :: "string list \<Rightarrow> string list \<Rightarrow> InventoryResult option list \<Rightarrow> bool" where
  "results_known known seen [] \<longleftrightarrow> True"
| "results_known known seen (None # results) \<longleftrightarrow> False"
| "results_known known seen (Some r # results) \<longleftrightarrow>
     ir_RuntimeUuid r \<in> set known \<and> ir_RuntimeUuid r \<notin> set seen \<and> results_known known (ir_RuntimeUuid r # seen) results"

record 'raw inventory_env =
  ie_Pods :: "string \<Rightarrow> string \<Rightarrow> manager_error + InventoryPod option"
  ie_SiteSizeOK :: "SiteObject \<Rightarrow> bool"
  ie_SiteAttempts :: "SiteObject attempt list"
  ie_Report :: "connect_code + InventoryResult option list"
  ie_Get :: "string \<Rightarrow> manager_error + 'raw Codespace"
  ie_Attempts :: "string \<Rightarrow> 'raw Codespace attempt list"
  ie_Now :: "string \<Rightarrow> time"

text \<open>What a turn changes: the records of the Manager and the resources it wrote.\<close>

record 'raw inventory_effects =
  ix_world :: manager_world
  ix_written :: "'raw Codespace list"

definition observe_running ::
  "string \<Rightarrow> string \<Rightarrow> RuntimeState \<Rightarrow> InventoryResult \<Rightarrow> time \<Rightarrow> manager_world \<Rightarrow> coordinator_error option \<times> manager_world" where
  "observe_running siteUID runtimeUUID state r now w =
     (if state = STATE_RUNNING \<and> ir_Action r \<noteq> ACTION_CLEANUP then
        (if \<not> validateRuntimeSettings (ir_RuntimeSettings r) then (Some settingsMissing, w)
         else case mw_Activity w of
           None \<Rightarrow> (None, w)
         | Some tracker \<Rightarrow>
             (case ObserveSettings siteUID runtimeUUID (ir_RuntimeSettings r) now tracker of
                (err, tracker) \<Rightarrow> (map_option (\<lambda>_. managerError settingsRefused) err, w\<lparr>mw_Activity := Some tracker\<rparr>)))
      else (None, w))"

definition apply_decision ::
  "'raw manager_libs \<Rightarrow> 'raw inventory_env \<Rightarrow> string \<Rightarrow> (string \<Rightarrow> RuntimeState) \<Rightarrow> InventoryResult \<Rightarrow> 'raw inventory_effects \<Rightarrow>
     coordinator_error option \<times> 'raw inventory_effects" where
  "apply_decision libs env siteUID states r x =
     (case ie_Get env (ir_RuntimeUuid r) of
        Inl e \<Rightarrow> (Some (managerError e), x)
      | Inr cs \<Rightarrow>
          if ir_Action r \<noteq> ACTION_UNSPECIFIED \<and> ir_Action r \<noteq> ACTION_CLEANUP \<and> ir_CurrentOperationRversion r < op_Version (operation cs)
          then (Some operationHistoryRegressed, x)
          else case observe_running siteUID (sp_RuntimeUUID (cs_Spec cs)) (states (sp_RuntimeUUID (cs_Spec cs))) r (ie_Now env (ir_RuntimeUuid r)) (ix_world x) of
            (Some e, w) \<Rightarrow> (Some e, x\<lparr>ix_world := w\<rparr>)
          | (None, w) \<Rightarrow>
              (case updateCodespaceStatus libs cs
                      (inventory_mutation (op_Version (operation cs)) (op_Type (operation cs)) (sp_RuntimeUUID (cs_Spec cs)) (ir_Action r))
                      (ie_Attempts env (ir_RuntimeUuid r)) of
                 Inl e \<Rightarrow> (Some (managerError e), x\<lparr>ix_world := w\<rparr>)
               | Inr cs \<Rightarrow>
                   (None, \<lparr>ix_world = (if ir_Action r \<noteq> ACTION_UNSPECIFIED \<and> ir_Action r \<noteq> ACTION_REFETCH then revoke_in (cs_UID cs) w else w),
                           ix_written = cs # ix_written x\<rparr>)))"

fun apply_decisions ::
  "'raw manager_libs \<Rightarrow> 'raw inventory_env \<Rightarrow> string \<Rightarrow> (string \<Rightarrow> RuntimeState) \<Rightarrow> InventoryResult list \<Rightarrow> 'raw inventory_effects \<Rightarrow>
     coordinator_error option \<times> 'raw inventory_effects" where
  "apply_decisions libs env siteUID states [] x = (None, x)"
| "apply_decisions libs env siteUID states (r # results) x =
     (case apply_decision libs env siteUID states r x of
        (Some e, x) \<Rightarrow> (Some e, x)
      | (None, x) \<Rightarrow> apply_decisions libs env siteUID states results x)"

definition reported_state :: "RuntimeInstanceRef list \<Rightarrow> string \<Rightarrow> RuntimeState" where
  "reported_state instances runtimeUUID =
     (case find (\<lambda>i. rr_RuntimeUuid i = runtimeUUID) instances of None \<Rightarrow> STATE_UNSPECIFIED | Some i \<Rightarrow> rr_RuntimeState i)"

definition inventory ::
  "'raw manager_libs \<Rightarrow> 'raw inventory_env \<Rightarrow> SiteObject \<Rightarrow> 'raw Codespace list \<Rightarrow> manager_world \<Rightarrow>
     coordinator_error option \<times> SiteObject \<times> 'raw inventory_effects" where
  "inventory libs env site rows w =
     (let x = \<lparr>ix_world = w, ix_written = []\<rparr>
      in case inventory_rows (ie_Pods env) [] rows of
        Inl e \<Rightarrow> (Some e, site, x)
      | Inr instances \<Rightarrow>
          (case updateSiteStatus (ie_SiteSizeOK env) (gs_UID site) (inventory_site_mutation (so_Generation site)) DefaultRetry_Steps (ie_SiteAttempts env) of
             Inl e \<Rightarrow> (Some e, site, x)
           | Inr site \<Rightarrow>
               (case ie_Report env of
                  Inl code \<Rightarrow> (Some (managerError (RemoteError code)), site, x)
                | Inr results \<Rightarrow>
                    if length results \<noteq> length rows then (Some inventoryIncomplete, site, x)
                    else if \<not> results_known (map rr_RuntimeUuid instances) [] results then (Some inventoryIdentityUnknown, site, x)
                    else (case apply_decisions libs env (gs_UID site) (reported_state instances) (map the results) x of
                            (err, x) \<Rightarrow> (err, site, x)))))"

section \<open>Idle stops\<close>

record idle_env =
  ld_Order :: "string \<Rightarrow> gatewayActivityKey list"
  ld_Reply :: "string \<Rightarrow> idle_outcome option option"
  ld_Now :: time

definition idle_eligible :: "'raw Codespace \<Rightarrow> bool" where
  "idle_eligible cs \<longleftrightarrow>
     st_Bound (cs_Status cs) \<and> st_RecoveryAction (cs_Status cs) = [] \<and> st_SettledOperationVersion (cs_Status cs) \<ge> op_Version (operation cs)
     \<and> st_PodUID (cs_Status cs) \<noteq> [] \<and> (case st_Target (cs_Status cs) of None \<Rightarrow> False | Some target \<Rightarrow> tg_Ready target) \<and> \<not> cs_Deleting cs"

text \<open>One runtime; the second component is the request to Gitea. The outer \<open>None\<close> of a reply is a failure.\<close>

definition idle_row ::
  "idle_env \<Rightarrow> SiteObject \<Rightarrow> 'raw Codespace \<Rightarrow> RuntimeActivityTracker \<Rightarrow> RuntimeActivityTracker \<times> (string \<times> RuntimeSettings) option" where
  "idle_row env site cs t =
     (let runtimeUUID = sp_RuntimeUUID (cs_Spec cs); now = ld_Now env
      in case IdleRequest (ld_Order env runtimeUUID) (gs_UID site) runtimeUUID (snd (so_Gateway site)) (idle_eligible cs) now t of
           (None, t) \<Rightarrow> (t, None)
         | (Some settings, t) \<Rightarrow>
             (case ld_Reply env runtimeUUID of
                None \<Rightarrow> IdleStopFailed runtimeUUID now t
              | Some response \<Rightarrow>
                  (case IdleStopResult (gs_UID site) runtimeUUID response now t of
                     (None, t) \<Rightarrow> t
                   | (Some _, t) \<Rightarrow> IdleStopFailed runtimeUUID now t), Some (runtimeUUID, settings)))"

fun idle_rows ::
  "idle_env \<Rightarrow> SiteObject \<Rightarrow> 'raw Codespace list \<Rightarrow> RuntimeActivityTracker \<Rightarrow> RuntimeActivityTracker \<times> (string \<times> RuntimeSettings) list" where
  "idle_rows env site [] t = (t, [])"
| "idle_rows env site (cs # rows) t =
     (case idle_row env site cs t of (t, sent) \<Rightarrow>
        (case idle_rows env site rows t of (t, calls) \<Rightarrow> (t, (case sent of None \<Rightarrow> calls | Some call \<Rightarrow> call # calls))))"

definition requestIdleStops :: "idle_env \<Rightarrow> SiteObject \<Rightarrow> 'raw Codespace list \<Rightarrow> manager_world \<Rightarrow> manager_world \<times> (string \<times> RuntimeSettings) list" where
  "requestIdleStops env site rows w =
     (case mw_Activity w of
        None \<Rightarrow> (w, [])
      | Some t \<Rightarrow> (case idle_rows env site rows t of (t, calls) \<Rightarrow> (w\<lparr>mw_Activity := Some t\<rparr>, calls)))"

section \<open>One turn for a site\<close>

record site_worker =
  sw_recovered :: bool
  sw_generation :: int
  sw_inventoryAt :: time
  sw_heartbeatAt :: time
  sw_heartbeat :: duration
  sw_metadataInterval :: duration
  sw_declaration :: "DeclareManagerRequest option"
  sw_tags :: "string list"

definition site_worker_start :: site_worker where
  "site_worker_start = \<lparr>sw_recovered = False, sw_generation = 0, sw_inventoryAt = zero_time, sw_heartbeatAt = zero_time, sw_heartbeat = 10 * second,
     sw_metadataInterval = 10 * second, sw_declaration = None, sw_tags = []\<rparr>"

record OperationRenewal =
  rn_RuntimeUuid :: string
  rn_OperationRversion :: int
  rn_LeaseValidForMilliseconds :: int

datatype cycle_moment = AtHeartbeat | AtDeclared | AtInventory | AtInventoried | AtSent | AtOnline

text \<open>What is fixed for a worker, and what it is answered in a turn.\<close>

record 'raw site_config =
  sq_Name :: string
  sq_UID :: string
  sq_ManagementNamespace :: string
  sq_PlatformImage :: string
  sq_Libs :: "'raw manager_libs"
  sq_Codec :: "'raw payload_codec"

record 'raw cycle_env =
  ce_Site :: "manager_error + SiteObject"
  ce_Secret :: "manager_error + CredentialSecret"
  ce_Transport :: "manager_error option"
  ce_Rows :: "manager_error + 'raw Codespace list"
  ce_Gateway :: "manager_error + GatewayObject"
  ce_HostKey :: "manager_error + HostKeySecret"
  ce_Template :: "string \<Rightarrow> manager_error + TemplateObject"
  ce_TemplateValid :: "TemplateObject \<Rightarrow> bool"
  ce_Declare :: "connect_code + DeclareManagerResponse"
  ce_Bind :: "string \<Rightarrow> connect_code + string"
  ce_BindAttempts :: "string \<Rightarrow> 'raw Codespace attempt list"
  ce_UnboundAttempts :: "string \<Rightarrow> 'raw Codespace attempt list"
  ce_Inventory :: "'raw inventory_env"
  ce_Relisted :: "manager_error + 'raw Codespace list"
  ce_Idle :: idle_env
  ce_Remaining :: "string \<Rightarrow> time \<times> time"
  ce_Quotas :: "manager_error + ResourceQuota list"
  ce_Fetch :: "connect_code + OperationRenewal option list \<times> OperationPayload option list"
  ce_Accept :: "OperationPayload option \<Rightarrow> 'raw accept_env"
  ce_FinalGet :: "OperationPayload option \<Rightarrow> manager_error + 'raw Codespace option"
  ce_FinalRemote :: "OperationPayload option \<Rightarrow> connect_code option"
  ce_FinalAttempts :: "OperationPayload option \<Rightarrow> 'raw Codespace attempt list"
  ce_DeclareOnline :: "connect_code + DeclareManagerResponse"
  ce_clock :: "cycle_moment \<Rightarrow> time"

text \<open>What Gitea sees: a declaration with the generation of the site and whether it was taken, an inventory
  whose decision was applied, with the rows behind it, an idle stop, and a request for operations with the
  site and the rows behind it.\<close>

datatype 'raw site_event =
    DeclaredManager int DeclareManagerRequest bool
  | InventoryDecided int "'raw Codespace list"
  | IdleStopsRequested "(string \<times> RuntimeSettings) list"
  | OperationsFetched SiteObject "'raw Codespace list" FetchOperationsRequest

record 'raw cycle =
  cy_worker :: site_worker
  cy_world :: manager_world
  cy_site :: SiteObject
  cy_rows :: "'raw Codespace list"
  cy_ready :: bool
  cy_events :: "'raw site_event list"

type_synonym 'raw stage = "'raw cycle \<Rightarrow> coordinator_error option \<times> 'raw cycle"

fun run_stages :: "'raw stage list \<Rightarrow> 'raw stage" where
  "run_stages [] c = (None, c)"
| "run_stages (f # fs) c = (case f c of (Some e, c) \<Rightarrow> (Some e, c) | (None, c) \<Rightarrow> run_stages fs c)"

definition emit :: "'raw site_event \<Rightarrow> 'raw cycle \<Rightarrow> 'raw cycle" where
  "emit ev c = c\<lparr>cy_events := cy_events c @ [ev]\<rparr>"

definition not_recovered :: "'raw cycle \<Rightarrow> 'raw cycle" where
  "not_recovered c = c\<lparr>cy_worker := (cy_worker c)\<lparr>sw_recovered := False\<rparr>\<rparr>"

definition stage_site :: "'raw site_config \<Rightarrow> 'raw stage" where
  "stage_site cfg c =
     (let site = cy_site c
      in if gs_UID site \<noteq> sq_UID cfg \<or> \<not> so_Enabled site \<or> so_Deleting site then (Some siteInactive, c)
         else if (case FindStatusCondition (so_Conditions site) ''InfrastructureReady'' of
                    None \<Rightarrow> True | Some ready \<Rightarrow> \<not> cd_True ready \<or> cd_ObservedGeneration ready \<noteq> so_Generation site)
         then (Some infrastructureUnverified, c)
         else (None, if sw_generation (cy_worker c) \<noteq> so_Generation site
                     then c\<lparr>cy_worker := (cy_worker c)\<lparr>sw_recovered := False, sw_generation := so_Generation site\<rparr>\<rparr> else c))"

definition stage_rows :: "'raw site_config \<Rightarrow> 'raw cycle_env \<Rightarrow> 'raw stage" where
  "stage_rows cfg env c =
     (case siteManagerClient (ce_Secret env) (ce_Transport env) (cy_site c) of
        Some e \<Rightarrow> (Some e, c)
      | None \<Rightarrow>
          (case SiteNamespace (sq_Name cfg) (sq_ManagementNamespace cfg) of
             Inl e \<Rightarrow> (Some (managerError e), c)
           | Inr _ \<Rightarrow>
               (case ce_Rows env of
                  Inl e \<Rightarrow> (Some (managerError e), c)
                | Inr rows \<Rightarrow>
                    if list_ex (\<lambda>cs. sp_SiteUID (cs_Spec cs) \<noteq> sq_UID cfg) rows then (Some foreignRuntime, c)
                    else
                      (let current = (\<lambda>runtimeUUID. list_ex (\<lambda>cs. sp_RuntimeUUID (cs_Spec cs) = runtimeUUID) rows);
                           w = (cy_world c)\<lparr>mw_Activity := map_option (RetainSite (sq_UID cfg) current) (mw_Activity (cy_world c))\<rparr>;
                           c = c\<lparr>cy_rows := rows, cy_world := w\<rparr>
                       in (None, if list_ex (\<lambda>cs. \<not> st_Bound (cs_Status cs) \<and> st_RecoveryAction (cs_Status cs) = []) rows then not_recovered c else c)))))"

definition clamp_interval :: "int \<Rightarrow> duration" where
  "clamp_interval ms = max 1000 (min ms 30000) * millisecond"

definition stage_declare :: "'raw cycle_env \<Rightarrow> 'raw stage" where
  "stage_declare env c =
     (let v = cy_worker c
      in if sw_recovered v \<and> time_sub (ce_clock env AtHeartbeat) (sw_heartbeatAt v) < sw_heartbeat v then (None, c)
         else case site_declaration (ce_Gateway env) (ce_HostKey env) (ce_Template env) (ce_TemplateValid env) (cy_site c) of
           Inl e \<Rightarrow> (Some e, c\<lparr>cy_worker := v\<lparr>sw_declaration := None, sw_tags := []\<rparr>\<rparr>)
         | Inr (request, tags) \<Rightarrow>
             (let request = request\<lparr>dm_Online := sw_recovered v\<rparr>;
                  v = v\<lparr>sw_declaration := Some request, sw_tags := tags\<rparr>
              in case declareManager (ce_Declare env) (so_CanonicalURL (cy_site c)) of
                   Inl e \<Rightarrow> (Some e, emit (DeclaredManager (so_Generation (cy_site c)) request False) (c\<lparr>cy_worker := v\<rparr>))
                 | Inr response \<Rightarrow>
                     (None, emit (DeclaredManager (so_Generation (cy_site c)) request True)
                        (c\<lparr>cy_worker := v\<lparr>sw_heartbeat := clamp_interval (dr_HeartbeatIntervalMilliseconds response),
                           sw_metadataInterval := clamp_interval (dr_MetadataRefreshIntervalMilliseconds response),
                           sw_heartbeatAt := ce_clock env AtDeclared\<rparr>\<rparr>))))"

text \<open>One row of the binding loop: the row, whether it is settled, and the records of the Manager.\<close>

definition bind_row :: "'raw manager_libs \<Rightarrow> 'raw cycle_env \<Rightarrow> 'raw Codespace \<Rightarrow> manager_world \<Rightarrow> 'raw Codespace \<times> bool \<times> manager_world" where
  "bind_row libs env cs w =
     (if st_Bound (cs_Status cs) \<or> st_RecoveryAction (cs_Status cs) \<noteq> [] then (cs, True, w)
      else case bind libs (ce_Bind env (cs_UID cs)) (ce_BindAttempts env (cs_UID cs)) cs of
        Inr cs \<Rightarrow> (cs, True, w)
      | Inl e \<Rightarrow>
          if isPermanentOperationError e then
            (case updateCodespaceStatus libs cs (unbound_mutation (op_Version (operation cs)) (sp_RuntimeUUID (cs_Spec cs))) (ce_UnboundAttempts env (cs_UID cs)) of
               Inl _ \<Rightarrow> (cs, False, w)
             | Inr cs \<Rightarrow> (cs, True, revoke_in (cs_UID cs) w))
          else (cs, False, w))"

fun bind_rows :: "'raw manager_libs \<Rightarrow> 'raw cycle_env \<Rightarrow> 'raw Codespace list \<Rightarrow> manager_world \<Rightarrow> 'raw Codespace list \<times> bool \<times> manager_world" where
  "bind_rows libs env [] w = ([], True, w)"
| "bind_rows libs env (cs # rows) w =
     (case bind_row libs env cs w of (cs, settled, w) \<Rightarrow>
        (case bind_rows libs env rows w of (rows, ready, w) \<Rightarrow> (cs # rows, settled \<and> ready, w)))"

definition stage_bind :: "'raw site_config \<Rightarrow> 'raw cycle_env \<Rightarrow> 'raw stage" where
  "stage_bind cfg env c =
     (case bind_rows (sq_Libs cfg) env (cy_rows c) (cy_world c) of (rows, ready, w) \<Rightarrow>
        (let c = c\<lparr>cy_rows := rows, cy_world := w, cy_ready := ready\<rparr> in (None, if ready then c else not_recovered c)))"

definition stage_inventory :: "'raw site_config \<Rightarrow> 'raw cycle_env \<Rightarrow> 'raw stage" where
  "stage_inventory cfg env c =
     (let v = cy_worker c
      in if \<not> (cy_ready c \<and> (\<not> sw_recovered v \<or> time_sub (ce_clock env AtInventory) (sw_inventoryAt v) \<ge> 30 * second)) then (None, c)
         else case inventory (sq_Libs cfg) (ce_Inventory env) (cy_site c) (filter (\<lambda>cs. st_Bound (cs_Status cs)) (cy_rows c)) (cy_world c) of
           (Some e, site, x) \<Rightarrow> (None, not_recovered (c\<lparr>cy_site := site, cy_world := ix_world x, cy_ready := False\<rparr>))
         | (None, site, x) \<Rightarrow>
             (let c = emit (InventoryDecided (so_Generation site) (cy_rows c))
                        (c\<lparr>cy_site := site, cy_world := ix_world x, cy_worker := v\<lparr>sw_inventoryAt := ce_clock env AtInventoried\<rparr>\<rparr>)
              in case ce_Relisted env of
                   Inl e \<Rightarrow> (Some (managerError e), c)
                 | Inr rows \<Rightarrow> (None, c\<lparr>cy_rows := rows\<rparr>)))"

definition stage_idle :: "'raw cycle_env \<Rightarrow> 'raw stage" where
  "stage_idle env c =
     (case requestIdleStops (ce_Idle env) (cy_site c) (cy_rows c) (cy_world c) of (w, calls) \<Rightarrow>
        (None, emit (IdleStopsRequested calls) (c\<lparr>cy_world := w\<rparr>)))"

definition observed_operation :: "'raw cycle_env \<Rightarrow> ExecutionAuthority \<Rightarrow> 'raw Codespace \<Rightarrow> bool" where
  "observed_operation env authority cs \<longleftrightarrow>
     st_Bound (cs_Status cs) \<and> st_RecoveryAction (cs_Status cs) = [] \<and> unsettled cs
     \<and> (op_Type (operation cs) = ''abort_create'' \<or> op_Type (operation cs) = ''abort_resume''
        \<or> Remaining authority (cs_UID cs) (op_Version (operation cs)) (fst (ce_Remaining env (cs_UID cs))) (snd (ce_Remaining env (cs_UID cs))) > 0)"

definition fetch_request :: "'raw site_config \<Rightarrow> 'raw cycle_env \<Rightarrow> 'raw cycle \<Rightarrow> FetchOperationsRequest" where
  "fetch_request cfg env c =
     (let observed = map (\<lambda>cs. (sp_RuntimeUUID (cs_Spec cs), op_Version (operation cs)))
                       (filter (observed_operation env (mw_Authority (cy_world c))) (cy_rows c));
          request = \<lparr>fq_Observed = observed, fq_CleanupCapacity = 0, fq_StartupCapacity = 0, fq_AcceptedCreateTags = [], fq_AcceptResume = False, fq_AcceptCreate = False\<rparr>
      in if sw_recovered (cy_worker c)
         then snd (capacity (sq_ManagementNamespace cfg) (cy_site c) (cy_rows c) (sw_tags (cy_worker c)) (ce_Quotas env) (ce_Template env) request)
         else request)"

definition renewable :: "OperationRenewal \<Rightarrow> 'raw Codespace \<Rightarrow> bool" where
  "renewable renewal cs \<longleftrightarrow>
     sp_RuntimeUUID (cs_Spec cs) = rn_RuntimeUuid renewal \<and> op_Version (operation cs) = rn_OperationRversion renewal \<and> st_Bound (cs_Status cs)
     \<and> st_RecoveryAction (cs_Status cs) = [] \<and> unsettled cs \<and> op_Type (operation cs) \<noteq> ''abort_create'' \<and> op_Type (operation cs) \<noteq> ''abort_resume''"

definition renew :: "time \<Rightarrow> 'raw Codespace list \<Rightarrow> OperationRenewal \<Rightarrow> manager_world \<Rightarrow> manager_world" where
  "renew sent rows renewal w =
     w\<lparr>mw_Authority := fold (\<lambda>cs. Grant (cs_UID cs) (rn_OperationRversion renewal) (sent + rn_LeaseValidForMilliseconds renewal * millisecond))
        (filter (renewable renewal) rows) (mw_Authority w)\<rparr>"

fun renew_leases :: "time \<Rightarrow> 'raw Codespace list \<Rightarrow> OperationRenewal option list \<Rightarrow> manager_world \<Rightarrow> coordinator_error option \<times> manager_world" where
  "renew_leases sent rows [] w = (None, w)"
| "renew_leases sent rows (None # renewals) w = (Some renewalInvalid, w)"
| "renew_leases sent rows (Some renewal # renewals) w =
     (if rn_LeaseValidForMilliseconds renewal \<le> 0 \<or> rn_LeaseValidForMilliseconds renewal > 24 * 3600 * 1000 then (Some renewalInvalid, w)
      else renew_leases sent rows renewals (renew sent rows renewal w))"

fun accept_operations ::
  "'raw site_config \<Rightarrow> 'raw cycle_env \<Rightarrow> SiteObject \<Rightarrow> time \<Rightarrow> OperationPayload option list \<Rightarrow> manager_world \<Rightarrow> manager_world" where
  "accept_operations cfg env site sent [] w = w"
| "accept_operations cfg env site sent (payload # payloads) w =
     (let target = GiteaSite.truncate site
      in accept_operations cfg env site sent payloads
        (case Operations_Accept (sq_Libs cfg) (sq_Codec cfg) (sq_ManagementNamespace cfg) (sq_PlatformImage cfg) target payload sent (ce_Accept env payload) w of
           (None, w) \<Rightarrow> w
         | (Some e, w) \<Rightarrow>
             if isPermanentOperationError e
             then snd (snd (finalizeRejectedOperation (sq_Libs cfg) (sq_ManagementNamespace cfg) target payload (ce_FinalGet env payload)
                    (ce_FinalRemote env payload) (ce_FinalAttempts env payload) w))
             else w))"

definition stage_fetch :: "'raw site_config \<Rightarrow> 'raw cycle_env \<Rightarrow> 'raw stage" where
  "stage_fetch cfg env c =
     (let request = fetch_request cfg env c; sent = ce_clock env AtSent;
          c = emit (OperationsFetched (cy_site c) (cy_rows c) request) c
      in case ce_Fetch env of
           Inl code \<Rightarrow> (Some (managerError (RemoteError code)), c)
         | Inr (renewals, payloads) \<Rightarrow>
             (case renew_leases sent (cy_rows c) renewals (cy_world c) of
                (Some e, w) \<Rightarrow> (Some e, c\<lparr>cy_world := w\<rparr>)
              | (None, w) \<Rightarrow> (None, c\<lparr>cy_world := accept_operations cfg env (cy_site c) sent payloads w\<rparr>)))"

text \<open>The declaration of the turn is there: a turn that is not recovered has declared the Manager before.\<close>

definition stage_online :: "'raw cycle_env \<Rightarrow> 'raw stage" where
  "stage_online env c =
     (let v = cy_worker c
      in if sw_recovered v \<or> \<not> cy_ready c then (None, c)
         else
           (let request = (the (sw_declaration v))\<lparr>dm_Online := True\<rparr>;
                v = v\<lparr>sw_declaration := Some request\<rparr>; generation = so_Generation (cy_site c)
            in case declareManager (ce_DeclareOnline env) (so_CanonicalURL (cy_site c)) of
                 Inl e \<Rightarrow> (Some e, emit (DeclaredManager generation request False) (c\<lparr>cy_worker := v\<rparr>))
               | Inr _ \<Rightarrow> (None, emit (DeclaredManager generation request True)
                             (c\<lparr>cy_worker := v\<lparr>sw_recovered := True, sw_heartbeatAt := ce_clock env AtOnline\<rparr>\<rparr>))))"

definition cycle_stages :: "'raw site_config \<Rightarrow> 'raw cycle_env \<Rightarrow> 'raw stage list" where
  "cycle_stages cfg env =
     [stage_site cfg, stage_rows cfg env, stage_declare env, stage_bind cfg env, stage_inventory cfg env, stage_idle env, stage_fetch cfg env, stage_online env]"

definition run_cycle ::
  "'raw site_config \<Rightarrow> 'raw cycle_env \<Rightarrow> site_worker \<Rightarrow> manager_world \<Rightarrow> coordinator_error option \<times> site_worker \<times> manager_world \<times> 'raw site_event list" where
  "run_cycle cfg env v w =
     (case ce_Site env of
        Inl e \<Rightarrow> (Some (managerError e), v, w, [])
      | Inr site \<Rightarrow>
          (case run_stages (cycle_stages cfg env)
                  \<lparr>cy_worker = v, cy_world = w, cy_site = site, cy_rows = [], cy_ready = True, cy_events = []\<rparr> of
             (err, c) \<Rightarrow> (err, cy_worker c, cy_world c, cy_events c)))"

section \<open>Capacity is never exceeded\<close>

definition starting :: "'raw Codespace \<Rightarrow> bool" where
  "starting cs \<longleftrightarrow> \<not> cs_Deleting cs \<and> st_RecoveryAction (cs_Status cs) = [] \<and> unsettled cs \<and> is_startup (op_Type (operation cs))"

lemma capacity_left_startup: "fst (capacity_left rows (startup, cleanup)) = startup - int (length (filter starting rows))"
proof (induction rows arbitrary: startup cleanup)
  case (Cons cs rows)
  then show ?case by (simp add: starting_def [of cs] is_startup_def)
qed simp

text \<open>What a request for operations may ask for.\<close>

definition tag_offered :: "(string \<Rightarrow> manager_error + TemplateObject) \<Rightarrow> SiteObject \<Rightarrow> ResourceQuota list \<Rightarrow> string \<Rightarrow> bool" where
  "tag_offered get site quotas tag \<longleftrightarrow>
     (\<exists>name uid template. (name, uid) \<in> set (gs_Templates site) \<and> get name = Inr template \<and> tp_UID template = uid \<and> \<not> tp_Deleting template
        \<and> tp_Name template = tag \<and> (\<forall>quota \<in> set quotas. rq_Scoped quota \<or> quota_admits quota (demand template)))"

lemma accepted_templates_offered:
  "accepted_templates get tags quotas refs = Inr accepted \<Longrightarrow> set refs \<subseteq> set (gs_Templates site) \<Longrightarrow> tag \<in> set accepted \<Longrightarrow>
     tag \<in> set tags \<and> tag_offered get site quotas tag"
proof (induction get tags quotas refs arbitrary: accepted rule: accepted_templates.induct)
  case (2 get tags quotas name uid refs)
  from 2(3) obtain template where t: "get name = Inr template" "tp_UID template = uid" "\<not> tp_Deleting template"
    by (auto split: sum.splits if_splits)
  show ?case
  proof (cases "tp_Name template \<notin> set tags")
    case True
    then show ?thesis using 2 t by simp
  next
    case False
    then obtain rest where r: "accepted_templates get tags quotas refs = Inr rest"
      "accepted = (if template_fits quotas template then tp_Name template # rest else rest)"
      using 2(3) t by (cases "accepted_templates get tags quotas refs") auto
    have "tag_offered get site quotas (tp_Name template)" if "template_fits quotas template"
      using that t 2(4) by (auto simp: tag_offered_def template_fits_def list_all_iff)
    then show ?thesis using 2(2) [OF t(1) _ _ r(1)] 2(4,5) t False r(2) by (auto split: if_splits)
  qed
qed simp

section \<open>Stages\<close>

text \<open>A stage takes \<open>P\<close> to \<open>Q\<close>, or to \<open>R\<close> when it ends the turn.\<close>

definition stage_ok :: "('raw cycle \<Rightarrow> bool) \<Rightarrow> 'raw stage \<Rightarrow> ('raw cycle \<Rightarrow> bool) \<Rightarrow> ('raw cycle \<Rightarrow> bool) \<Rightarrow> bool" where
  "stage_ok P f Q R \<longleftrightarrow> (\<forall>c. P c \<longrightarrow> (case f c of (None, c') \<Rightarrow> Q c' | (Some e, c') \<Rightarrow> R c'))"

lemma stage_okI: "(\<And>c err c'. P c \<Longrightarrow> f c = (err, c') \<Longrightarrow> if err = None then Q c' else R c') \<Longrightarrow> stage_ok P f Q R"
  unfolding stage_ok_def by (auto split: prod.splits option.splits)

lemma stages_ok_Cons: "stage_ok P f Q R \<Longrightarrow> stage_ok Q (run_stages fs) S R \<Longrightarrow> stage_ok P (run_stages (f # fs)) S R"
  unfolding stage_ok_def by (fastforce split: prod.splits option.splits)

lemma stages_ok_Nil: "stage_ok P (run_stages []) P R"
  by (simp add: stage_ok_def)

lemma stage_ok_run: "stage_ok P f Q Q \<Longrightarrow> P c \<Longrightarrow> f c = (err, c') \<Longrightarrow> Q c'"
  unfolding stage_ok_def by (fastforce split: option.splits)

section \<open>What Gitea may see\<close>

fun recovering_declared :: "'raw site_event \<Rightarrow> bool" where
  "recovering_declared (DeclaredManager _ request _) \<longleftrightarrow> \<not> dm_Online request"
| "recovering_declared _ \<longleftrightarrow> False"

text \<open>Since the Manager was last declared recovering, a complete inventory was decided at this generation,
  of rows that are all bound or being cleaned up; it was declared online and Gitea took the declaration.\<close>

definition settled_since :: "'raw site_event list \<Rightarrow> int \<Rightarrow> bool" where
  "settled_since h generation \<longleftrightarrow>
     (\<exists>a rows b. h = a @ InventoryDecided generation rows # b \<and> (\<forall>cs \<in> set rows. st_Bound (cs_Status cs) \<or> st_RecoveryAction (cs_Status cs) \<noteq> [])
        \<and> (\<forall>ev \<in> set b. \<not> recovering_declared ev))"

definition online_since :: "'raw site_event list \<Rightarrow> bool" where
  "online_since h \<longleftrightarrow>
     (\<exists>a generation request b. h = a @ DeclaredManager generation request True # b \<and> dm_Online request \<and> (\<forall>ev \<in> set b. \<not> recovering_declared ev))"

definition asks_startup :: "FetchOperationsRequest \<Rightarrow> bool" where
  "asks_startup request \<longleftrightarrow> fq_StartupCapacity request > 0 \<or> fq_AcceptResume request \<or> fq_AcceptCreate request \<or> fq_AcceptedCreateTags request \<noteq> []"

fun event_ok :: "'raw site_event list \<Rightarrow> 'raw site_event \<Rightarrow> bool" where
  "event_ok h (DeclaredManager generation request _) \<longleftrightarrow> (dm_Online request \<longrightarrow> settled_since h generation)"
| "event_ok h (OperationsFetched site rows request) \<longleftrightarrow>
     (asks_startup request \<longrightarrow> online_since h
        \<and> 0 < fq_StartupCapacity request \<and> fq_StartupCapacity request + int (length (filter starting rows)) = so_StartupConcurrency site)"
| "event_ok h _ \<longleftrightarrow> True"

definition lawful :: "'raw site_event list \<Rightarrow> bool" where
  "lawful h \<longleftrightarrow> (\<forall>a ev b. h = a @ ev # b \<longrightarrow> event_ok a ev)"

lemma lawful_snoc: "lawful (h @ [ev]) \<longleftrightarrow> lawful h \<and> event_ok h ev"
proof
  assume l: "lawful (h @ [ev])"
  then have "event_ok a ev'" if "h = a @ ev' # b" for a ev' b using that unfolding lawful_def by simp
  then show "lawful h \<and> event_ok h ev" using l unfolding lawful_def by blast
next
  assume l: "lawful h \<and> event_ok h ev"
  show "lawful (h @ [ev])" unfolding lawful_def
  proof (intro allI impI)
    fix a ev' b
    assume "h @ [ev] = a @ ev' # b"
    then show "event_ok a ev'" using l by (cases b rule: rev_cases) (auto simp: lawful_def)
  qed
qed

lemma settled_since_snoc:
  assumes "settled_since h generation" "\<not> recovering_declared ev"
  shows "settled_since (h @ [ev]) generation"
proof -
  from assms(1) obtain a rows b where h: "h = a @ InventoryDecided generation rows # b"
    "\<forall>cs \<in> set rows. st_Bound (cs_Status cs) \<or> st_RecoveryAction (cs_Status cs) \<noteq> []" "\<forall>ev \<in> set b. \<not> recovering_declared ev"
    unfolding settled_since_def by blast
  show ?thesis unfolding settled_since_def
    by (rule exI [of _ a], rule exI [of _ rows], rule exI [of _ "b @ [ev]"]) (use h assms(2) in simp)
qed

lemma online_since_snoc:
  assumes "online_since h" "\<not> recovering_declared ev"
  shows "online_since (h @ [ev])"
proof -
  from assms(1) obtain a generation request b where h: "h = a @ DeclaredManager generation request True # b" "dm_Online request"
    "\<forall>ev \<in> set b. \<not> recovering_declared ev"
    unfolding online_since_def by blast
  show ?thesis unfolding online_since_def
    by (rule exI [of _ a], rule exI [of _ generation], rule exI [of _ request], rule exI [of _ "b @ [ev]"]) (use h assms(2) in simp)
qed

lemma settled_since_inventory:
  "(\<forall>cs \<in> set rows. st_Bound (cs_Status cs) \<or> st_RecoveryAction (cs_Status cs) \<noteq> []) \<Longrightarrow> settled_since (h @ [InventoryDecided generation rows]) generation"
  unfolding settled_since_def by (intro exI [of _ h] exI [of _ rows] exI [of _ "[]"]) simp

lemma online_since_declared: "dm_Online request \<Longrightarrow> online_since (h @ [DeclaredManager generation request True])"
  unfolding online_since_def by (intro exI [of _ h] exI [of _ generation] exI [of _ request] exI [of _ "[]"]) simp

text \<open>What a worker knows between turns, and in a turn once it has read the site.\<close>

definition worker_ok :: "'raw site_event list \<Rightarrow> site_worker \<Rightarrow> bool" where
  "worker_ok h v \<longleftrightarrow> lawful h \<and> (sw_recovered v \<longrightarrow> settled_since h (sw_generation v) \<and> online_since h)"

definition cycle_ok :: "'raw site_event list \<Rightarrow> 'raw cycle \<Rightarrow> bool" where
  "cycle_ok h c \<longleftrightarrow> worker_ok (h @ cy_events c) (cy_worker c)"

definition turn_current :: "'raw site_event list \<Rightarrow> 'raw cycle \<Rightarrow> bool" where
  "turn_current h c \<longleftrightarrow> cycle_ok h c \<and> sw_generation (cy_worker c) = so_Generation (cy_site c)"

definition turn_declared :: "'raw site_event list \<Rightarrow> 'raw cycle \<Rightarrow> bool" where
  "turn_declared h c \<longleftrightarrow> turn_current h c \<and> (\<not> sw_recovered (cy_worker c) \<longrightarrow> sw_declaration (cy_worker c) \<noteq> None)"

definition turn_bound :: "'raw site_event list \<Rightarrow> 'raw cycle \<Rightarrow> bool" where
  "turn_bound h c \<longleftrightarrow> turn_current h c \<and> (cy_ready c \<longrightarrow> (\<not> sw_recovered (cy_worker c) \<longrightarrow> sw_declaration (cy_worker c) \<noteq> None)
     \<and> (\<forall>cs \<in> set (cy_rows c). st_Bound (cs_Status cs) \<or> st_RecoveryAction (cs_Status cs) \<noteq> []))"

definition turn_decided :: "'raw site_event list \<Rightarrow> 'raw cycle \<Rightarrow> bool" where
  "turn_decided h c \<longleftrightarrow> turn_current h c \<and> (cy_ready c \<and> \<not> sw_recovered (cy_worker c) \<longrightarrow>
     sw_declaration (cy_worker c) \<noteq> None \<and> settled_since (h @ cy_events c) (so_Generation (cy_site c)))"

lemmas turn_defs = cycle_ok_def turn_current_def turn_declared_def turn_bound_def turn_decided_def worker_ok_def

lemma worker_ok_same: "worker_ok h v \<Longrightarrow> sw_recovered v' = sw_recovered v \<Longrightarrow> sw_generation v' = sw_generation v \<Longrightarrow> worker_ok h v'"
  by (simp add: worker_ok_def)

lemma worker_ok_lost: "worker_ok h v \<Longrightarrow> \<not> sw_recovered v' \<Longrightarrow> worker_ok h v'"
  by (simp add: worker_ok_def)

lemma worker_ok_quiet:
  assumes "worker_ok h v" "event_ok h ev" "\<not> recovering_declared ev" "sw_recovered v' \<longrightarrow> sw_recovered v \<and> sw_generation v' = sw_generation v"
  shows "worker_ok (h @ [ev]) v'"
  using assms by (auto simp: worker_ok_def lawful_snoc settled_since_snoc online_since_snoc)

section \<open>The stages of a turn\<close>

lemma bind_mutation_bound: "bind_mutation version runtimeUUID cs = Inr cs' \<Longrightarrow> st_Bound (cs_Status cs')"
  by (auto simp: bind_mutation_def set_bound_def split: if_splits)

lemma unbound_mutation_recovery: "unbound_mutation version runtimeUUID cs = Inr cs' \<Longrightarrow> st_RecoveryAction (cs_Status cs') \<noteq> []"
  by (auto simp: unbound_mutation_def set_recovery_def split: if_splits)

lemma updateCodespaceStatus_Inr:
  "updateCodespaceStatus libs cs mutate attempts = Inr cs' \<Longrightarrow> \<exists>cs0. mutate cs0 = Inr cs'"
  unfolding updateCodespaceStatus_def by (auto dest!: retryStatusUpdate_Inr simp: status_attempt_Inr)

lemma bind_row_settled:
  assumes "bind_row libs env cs w = (cs', True, w')"
  shows "st_Bound (cs_Status cs') \<or> st_RecoveryAction (cs_Status cs') \<noteq> []"
  using assms
  by (auto simp: bind_row_def bind_def split: if_splits sum.splits dest!: updateCodespaceStatus_Inr bind_mutation_bound unbound_mutation_recovery)

lemma bind_rows_settled:
  "bind_rows libs env rows w = (rows', True, w') \<Longrightarrow> cs \<in> set rows' \<Longrightarrow> st_Bound (cs_Status cs) \<or> st_RecoveryAction (cs_Status cs) \<noteq> []"
  by (induction rows arbitrary: rows' w w') (auto split: prod.splits dest: bind_row_settled)

lemma updateSiteStatus_generation:
  "updateSiteStatus sizeOK uid (inventory_site_mutation generation) n attempts = Inr site \<Longrightarrow> so_Generation site = generation"
  by (induction n arbitrary: attempts; case_tac attempts)
    (auto simp: inventory_site_mutation_def split: sum.splits if_splits write_answer.splits)

lemma inventory_generation: "inventory libs env site rows w = (err, site', x) \<Longrightarrow> so_Generation site' = so_Generation site"
  by (auto simp: inventory_def Let_def split: sum.splits if_splits prod.splits dest: updateSiteStatus_generation)

text \<open>A request asks for startups only with the capacity that is left.\<close>

lemma fetch_request_bounded:
  assumes "asks_startup (fetch_request cfg env c)"
  shows "sw_recovered (cy_worker c)" "0 < fq_StartupCapacity (fetch_request cfg env c)"
    "fq_StartupCapacity (fetch_request cfg env c) + int (length (filter starting (cy_rows c))) = so_StartupConcurrency (cy_site c)"
proof -
  let ?startup = "fst (capacity_left (cy_rows c) (so_StartupConcurrency (cy_site c), so_CleanupConcurrency (cy_site c)))"
  show r: "sw_recovered (cy_worker c)"
    using assms by (auto simp: asks_startup_def fetch_request_def Let_def split: if_splits)
  have "0 < ?startup \<and> fq_StartupCapacity (fetch_request cfg env c) = ?startup"
    using assms r by (auto simp: asks_startup_def fetch_request_def capacity_def Let_def split: if_splits prod.splits sum.splits)
  then show "0 < fq_StartupCapacity (fetch_request cfg env c)"
    "fq_StartupCapacity (fetch_request cfg env c) + int (length (filter starting (cy_rows c))) = so_StartupConcurrency (cy_site c)"
    by (simp_all add: capacity_left_startup)
qed

lemma stage_site_ok: "stage_ok (cycle_ok h) (stage_site cfg) (turn_current h) (cycle_ok h)"
  by (rule stage_okI) (auto simp: stage_site_def turn_defs Let_def split: if_splits option.splits)

lemma stage_rows_ok: "stage_ok (turn_current h) (stage_rows cfg env) (turn_current h) (cycle_ok h)"
  by (rule stage_okI) (auto simp: stage_rows_def turn_defs not_recovered_def Let_def split: if_splits option.splits sum.splits)

lemma stage_declare_ok: "stage_ok (turn_current h) (stage_declare env) (turn_declared h) (cycle_ok h)"
proof (rule stage_okI)
  fix c err c'
  assume c: "turn_current h c" and f: "stage_declare env c = (err, c')"
  let ?v = "cy_worker c"
  have w: "worker_ok (h @ cy_events c) ?v" and g: "sw_generation ?v = so_Generation (cy_site c)"
    using c by (simp_all add: turn_current_def cycle_ok_def)
  have d: "worker_ok (h @ cy_events c @ [DeclaredManager (so_Generation (cy_site c)) request taken]) v'"
    if "dm_Online request = sw_recovered ?v" "sw_recovered v' = sw_recovered ?v" "sw_generation v' = sw_generation ?v" for request taken v'
    using that w g by (cases "sw_recovered ?v") (auto simp: worker_ok_def lawful_snoc settled_since_snoc online_since_snoc simp flip: append_assoc)
  show "if err = None then turn_declared h c' else cycle_ok h c'"
    using f w g by (auto simp: stage_declare_def turn_current_def turn_declared_def cycle_ok_def emit_def Let_def d
      split: if_splits sum.splits prod.splits intro: worker_ok_same)
qed

lemma stage_bind_ok: "stage_ok (turn_declared h) (stage_bind cfg env) (turn_bound h) (cycle_ok h)"
  by (rule stage_okI)
    (auto simp: stage_bind_def turn_defs not_recovered_def Let_def split: if_splits prod.splits dest: bind_rows_settled)

lemma turn_decided_ok: "turn_decided h c \<Longrightarrow> cycle_ok h c"
  by (simp add: turn_decided_def turn_current_def)

lemma stage_inventory_ok: "stage_ok (turn_bound h) (stage_inventory cfg env) (turn_decided h) (cycle_ok h)"
proof (rule stage_okI)
  fix c err c'
  assume c: "turn_bound h c" and f: "stage_inventory cfg env c = (err, c')"
  have w: "worker_ok (h @ cy_events c) (cy_worker c)" and g: "sw_generation (cy_worker c) = so_Generation (cy_site c)"
    using c by (simp_all add: turn_bound_def turn_current_def cycle_ok_def)
  obtain e site x where i: "inventory (sq_Libs cfg) (ce_Inventory env) (cy_site c) (filter (\<lambda>cs. st_Bound (cs_Status cs)) (cy_rows c)) (cy_world c) = (e, site, x)"
    by (cases rule: prod_cases3)
  note gen = inventory_generation [OF i]
  let ?due = "cy_ready c \<and> (\<not> sw_recovered (cy_worker c) \<or> time_sub (ce_clock env AtInventory) (sw_inventoryAt (cy_worker c)) \<ge> 30 * second)"
  let ?ev = "InventoryDecided (so_Generation site) (cy_rows c)"
  let ?c = "emit ?ev (c\<lparr>cy_site := site, cy_world := ix_world x, cy_worker := (cy_worker c)\<lparr>sw_inventoryAt := ce_clock env AtInventoried\<rparr>\<rparr>)"
  show "if err = None then turn_decided h c' else cycle_ok h c'"
  proof (cases ?due)
    case False
    then have "err = None" "c' = c" using f by (auto simp: stage_inventory_def Let_def split: if_splits)
    then show ?thesis using c False by (auto simp: turn_decided_def turn_bound_def)
  next
    case due: True
    show ?thesis
    proof (cases e)
      case (Some e0)
      then have "err = None" "c' = not_recovered (c\<lparr>cy_site := site, cy_world := ix_world x, cy_ready := False\<rparr>)"
        using f due i by (auto simp: stage_inventory_def Let_def split: if_splits)
      then show ?thesis using w g gen by (auto simp: turn_defs not_recovered_def)
    next
      case None
      then have c': "\<exists>rows. c' = ?c\<lparr>cy_rows := rows\<rparr>"
        using f due i by (cases "ce_Relisted env") (auto simp: stage_inventory_def emit_def Let_def split: if_splits intro: exI [of _ "cy_rows c"])
      have "settled_since ((h @ cy_events c) @ [?ev]) (so_Generation site)"
        by (rule settled_since_inventory) (use c due in \<open>simp add: turn_bound_def\<close>)
      moreover have "worker_ok ((h @ cy_events c) @ [?ev]) ((cy_worker c)\<lparr>sw_inventoryAt := ce_clock env AtInventoried\<rparr>)"
        by (rule worker_ok_quiet [OF w]) simp_all
      ultimately have "turn_decided h c'"
        using c' c due g gen by (auto simp: turn_decided_def turn_current_def turn_bound_def cycle_ok_def emit_def)
      then show ?thesis by (simp add: turn_decided_ok)
    qed
  qed
qed

lemma emit_world: "emit ev (c\<lparr>cy_world := w\<rparr>) = (emit ev c)\<lparr>cy_world := w\<rparr>"
  by (cases c) (simp add: emit_def)

lemma turn_decided_quiet:
  assumes "turn_decided h c" "event_ok (h @ cy_events c) ev" "\<not> recovering_declared ev"
  shows "turn_decided h ((emit ev c)\<lparr>cy_world := w\<rparr>)"
proof -
  have "worker_ok (h @ cy_events c) (cy_worker c)" using assms(1) by (simp add: turn_decided_def turn_current_def cycle_ok_def)
  then have "worker_ok ((h @ cy_events c) @ [ev]) (cy_worker c)" by (rule worker_ok_quiet [OF _ assms(2,3)]) simp
  moreover have "settled_since ((h @ cy_events c) @ [ev]) g" if "settled_since (h @ cy_events c) g" for g
    using that assms(3) by (rule settled_since_snoc)
  ultimately show ?thesis using assms(1) by (auto simp: turn_decided_def turn_current_def cycle_ok_def emit_def)
qed

lemma stage_idle_ok: "stage_ok (turn_decided h) (stage_idle env) (turn_decided h) (cycle_ok h)"
proof (rule stage_okI)
  fix c err c'
  assume c: "turn_decided h c" and f: "stage_idle env c = (err, c')"
  obtain w calls where r: "requestIdleStops (ce_Idle env) (cy_site c) (cy_rows c) (cy_world c) = (w, calls)" by fastforce
  then have "err = None" "c' = (emit (IdleStopsRequested calls) c)\<lparr>cy_world := w\<rparr>" using f by (auto simp: stage_idle_def emit_world)
  then show "if err = None then turn_decided h c' else cycle_ok h c'" using turn_decided_quiet [OF c, of "IdleStopsRequested calls"] by simp
qed

lemma stage_fetch_ok: "stage_ok (turn_decided h) (stage_fetch cfg env) (turn_decided h) (cycle_ok h)"
proof (rule stage_okI)
  fix c err c'
  assume c: "turn_decided h c" and f: "stage_fetch cfg env c = (err, c')"
  let ?ev = "OperationsFetched (cy_site c) (cy_rows c) (fetch_request cfg env c)"
  have "\<exists>w. c' = (emit ?ev c)\<lparr>cy_world := w\<rparr>"
    using f by (auto simp: stage_fetch_def emit_def Let_def split: sum.splits prod.splits option.splits intro: exI [of _ "cy_world c"])
  then obtain w where c': "c' = (emit ?ev c)\<lparr>cy_world := w\<rparr>" ..
  have "event_ok (h @ cy_events c) ?ev"
    using c fetch_request_bounded [of cfg env c] by (auto simp: turn_decided_def turn_current_def cycle_ok_def worker_ok_def)
  then have "turn_decided h c'" unfolding c' by (rule turn_decided_quiet [OF c]) simp
  then show "if err = None then turn_decided h c' else cycle_ok h c'" by (simp add: turn_decided_ok)
qed

lemma stage_online_ok: "stage_ok (turn_decided h) (stage_online env) (cycle_ok h) (cycle_ok h)"
proof (rule stage_okI)
  fix c err c'
  assume c: "turn_decided h c" and f: "stage_online env c = (err, c')"
  let ?v = "cy_worker c" and ?g = "so_Generation (cy_site c)"
  have w: "lawful (h @ cy_events c)" and g: "sw_generation ?v = ?g" using c by (simp_all add: turn_defs)
  have d: "worker_ok (h @ cy_events c @ [DeclaredManager ?g request taken]) v'"
    if "dm_Online request" "sw_recovered v' \<longrightarrow> taken \<and> sw_generation v' = ?g" "cy_ready c" "\<not> sw_recovered ?v" for request taken v'
  proof -
    have s: "settled_since (h @ cy_events c) ?g" using c that(3,4) by (simp add: turn_decided_def)
    then have "settled_since ((h @ cy_events c) @ [DeclaredManager ?g request taken]) ?g" using that(1) by (intro settled_since_snoc) simp_all
    then show ?thesis using that(1,2) s w by (auto simp: worker_ok_def lawful_snoc online_since_declared simp flip: append_assoc)
  qed
  show "if err = None then cycle_ok h c' else cycle_ok h c'"
    using f turn_decided_ok [OF c] g by (auto simp: stage_online_def cycle_ok_def emit_def Let_def d split: if_splits sum.splits)
qed

lemma run_cycle_ok:
  assumes "worker_ok h v" "run_cycle cfg env v w = (err, v', w', events)"
  shows "worker_ok (h @ events) v'"
proof (cases "ce_Site env")
  case (Inl e)
  then show ?thesis using assms by (simp add: run_cycle_def)
next
  case (Inr site)
  let ?c = "\<lparr>cy_worker = v, cy_world = w, cy_site = site, cy_rows = [], cy_ready = True, cy_events = []\<rparr>"
  obtain c where r: "run_stages (cycle_stages cfg env) ?c = (err, c)" "v' = cy_worker c" "events = cy_events c"
    using assms(2) Inr by (auto simp: run_cycle_def split: prod.splits)
  have "stage_ok (cycle_ok h) (run_stages (cycle_stages cfg env)) (cycle_ok h) (cycle_ok h)"
    unfolding cycle_stages_def
    by (intro stages_ok_Cons [OF stage_site_ok] stages_ok_Cons [OF stage_rows_ok] stages_ok_Cons [OF stage_declare_ok] stages_ok_Cons [OF stage_bind_ok]
      stages_ok_Cons [OF stage_inventory_ok] stages_ok_Cons [OF stage_idle_ok] stages_ok_Cons [OF stage_fetch_ok] stages_ok_Cons [OF stage_online_ok] stages_ok_Nil)
  moreover have "cycle_ok h ?c" using assms(1) by (simp add: cycle_ok_def)
  ultimately have "cycle_ok h c" using r(1) by (rule stage_ok_run)
  then show ?thesis using r(2,3) by (simp add: cycle_ok_def)
qed

section \<open>Runs\<close>

text \<open>The turns of a worker; between two turns the records of the Manager may change.\<close>

fun site_run :: "'raw site_config \<Rightarrow> ('raw cycle_env \<times> manager_world) list \<Rightarrow> site_worker \<Rightarrow> site_worker \<times> 'raw site_event list" where
  "site_run cfg [] v = (v, [])"
| "site_run cfg ((env, w) # turns) v =
     (case run_cycle cfg env v w of (_, v, _, events) \<Rightarrow> (case site_run cfg turns v of (v, later) \<Rightarrow> (v, events @ later)))"

lemma site_run_ok: "worker_ok h v \<Longrightarrow> site_run cfg turns v = (v', events) \<Longrightarrow> worker_ok (h @ events) v'"
proof (induction turns arbitrary: h v events)
  case (Cons turn turns)
  obtain env w where t: "turn = (env, w)" by fastforce
  obtain err v1 w1 now where r: "run_cycle cfg env v w = (err, v1, w1, now)" by (cases "run_cycle cfg env v w")
  obtain later where l: "site_run cfg turns v1 = (v', later)" "events = now @ later"
    using Cons.prems(2) t r by (auto split: prod.splits)
  show ?case using Cons.IH [OF run_cycle_ok [OF Cons.prems(1) r] l(1)] l(2) by simp
qed simp

lemma site_run_lawful: "lawful (snd (site_run (cfg :: 'raw site_config) turns site_worker_start))"
proof -
  have "worker_ok ([] :: 'raw site_event list) site_worker_start" by (simp add: worker_ok_def site_worker_start_def lawful_def)
  from site_run_ok [OF this prod.collapse [symmetric]] show ?thesis by (simp add: worker_ok_def)
qed

text \<open>C10: The Manager is declared online for a site only when, since it was last declared recovering, Gitea
  has decided a complete inventory of the site at the same generation of its configuration, and every
  runtime of the site was bound or was being cleaned up at that time. This holds whatever the API server and
  Gitea answer, whichever calls fail, and however the configuration and the runtimes change between the turns.\<close>

theorem site_online_reconciled:
  assumes "snd (site_run cfg turns site_worker_start) = before @ DeclaredManager generation request taken # after" "dm_Online request"
  shows "\<exists>a rows b. before = a @ InventoryDecided generation rows # b
     \<and> (\<forall>cs \<in> set rows. st_Bound (cs_Status cs) \<or> st_RecoveryAction (cs_Status cs) \<noteq> []) \<and> (\<forall>ev \<in> set b. \<not> recovering_declared ev)"
  using site_run_lawful [of cfg turns] assms unfolding lawful_def settled_since_def [symmetric] by force

text \<open>C19: The Manager asks Gitea for creates and resumes only after Gitea has taken its declaration as online,
  and never for more than it may start: the startups it asks for and those in progress together are exactly
  the startup concurrency of the site.\<close>

theorem site_startups_bounded:
  assumes "snd (site_run cfg turns site_worker_start) = before @ OperationsFetched site rows request # after" "asks_startup request"
  shows "(\<exists>a generation declared b. before = a @ DeclaredManager generation declared True # b \<and> dm_Online declared
       \<and> (\<forall>ev \<in> set b. \<not> recovering_declared ev))
     \<and> 0 < fq_StartupCapacity request \<and> fq_StartupCapacity request + int (length (filter starting rows)) = so_StartupConcurrency site"
  using site_run_lawful [of cfg turns] assms unfolding lawful_def online_since_def [symmetric] by force

text \<open>A template is offered for creates when it is ready and every quota without a scope has room for it.\<close>

lemma capacity_tags:
  assumes "capacity managementNamespace site rows tags listed get request = (err, request')" "fq_AcceptedCreateTags request = []"
    and "tag \<in> set (fq_AcceptedCreateTags request')"
  shows "so_AcceptCreates site \<and> tag \<in> set tags
     \<and> (\<exists>quotas. site_quotas managementNamespace site listed = Inr quotas \<and> tag_offered get site quotas tag)"
proof -
  obtain quotas accepted where q: "site_quotas managementNamespace site listed = Inr quotas" "so_AcceptCreates site"
    "accepted_templates get tags quotas (gs_Templates site) = Inr accepted" "tag \<in> set accepted"
    using assms by (auto simp: capacity_def Let_def split: prod.splits if_splits sum.splits)
  show ?thesis using accepted_templates_offered [OF q(3) subset_refl q(4)] q(1,2) by blast
qed

section \<open>Inventory decisions\<close>

lemma results_known_iff:
  "results_known known seen results \<longleftrightarrow>
     (\<exists>rs. results = map Some rs \<and> distinct (map ir_RuntimeUuid rs) \<and> set (map ir_RuntimeUuid rs) \<subseteq> set known \<and> set (map ir_RuntimeUuid rs) \<inter> set seen = {})"
proof (induction known seen results rule: results_known.induct)
  case (3 known seen r results)
  have "(\<exists>rs. Some r # results = map Some rs \<and> P rs) \<longleftrightarrow> (\<exists>rs. results = map Some rs \<and> P (r # rs))" for P
    by (auto simp: Cons_eq_map_conv)
  then show ?case using 3 by auto
qed auto

lemma inventory_rows_Inr:
  "inventory_rows pods seen rows = Inr instances \<Longrightarrow>
     map rr_RuntimeUuid instances = map (\<lambda>cs. sp_RuntimeUUID (cs_Spec cs)) rows \<and> distinct (map (\<lambda>cs. sp_RuntimeUUID (cs_Spec cs)) rows)
     \<and> set (map (\<lambda>cs. sp_RuntimeUUID (cs_Spec cs)) rows) \<inter> set seen = {}"
proof (induction rows arbitrary: seen instances)
  case (Cons cs rows)
  from Cons.prems obtain state rest where "sp_RuntimeUUID (cs_Spec cs) \<notin> set seen"
    "inventory_rows pods (sp_RuntimeUUID (cs_Spec cs) # seen) rows = Inr rest"
    "instances = \<lparr>rr_RuntimeUuid = sp_RuntimeUUID (cs_Spec cs), rr_RuntimeState = state,
       rr_ObservedOperationRversion = (if st_SettledOperationVersion (cs_Status cs) \<ge> op_Version (operation cs) then 0 else op_Version (operation cs))\<rparr> # rest"
    by (cases "inventory_rows pods (sp_RuntimeUUID (cs_Spec cs) # seen) rows") (auto split: if_splits sum.splits)
  then show ?case using Cons.IH by fastforce
qed simp

text \<open>C40: Nothing is done about an incomplete decision of Gitea. When an inventory changes a Codespace, the leases
  of the runtimes or their idle policy, then Gitea has answered with exactly one result for every runtime
  that was reported, and with no other.\<close>

theorem inventory_decision_complete:
  assumes "inventory libs env site rows w = (err, site', x)" "ix_written x \<noteq> [] \<or> ix_world x \<noteq> w"
  shows "\<exists>results. ie_Report env = Inr (map Some results)
     \<and> mset (map ir_RuntimeUuid results) = mset (map (\<lambda>cs. sp_RuntimeUUID (cs_Spec cs)) rows)"
proof -
  obtain instances results where i: "inventory_rows (ie_Pods env) [] rows = Inr instances" "ie_Report env = Inr results"
    "length results = length rows" "results_known (map rr_RuntimeUuid instances) [] results"
    using assms by (auto simp: inventory_def Let_def split: sum.splits if_splits prod.splits)
  obtain rs where r: "results = map Some rs" "distinct (map ir_RuntimeUuid rs)" "set (map ir_RuntimeUuid rs) \<subseteq> set (map rr_RuntimeUuid instances)"
    using i(4) unfolding results_known_iff by blast
  note u = inventory_rows_Inr [OF i(1)]
  have "set (map ir_RuntimeUuid rs) = set (map (\<lambda>cs. sp_RuntimeUUID (cs_Spec cs)) rows)"
    using card_subset_eq [OF finite_set r(3)] r(1,2) u i(3) by (simp add: distinct_card del: set_map)
  then have "mset (map ir_RuntimeUuid rs) = mset (map (\<lambda>cs. sp_RuntimeUUID (cs_Spec cs)) rows)"
    using r(2) u by (intro set_eq_iff_mset_eq_distinct [THEN iffD1]) simp_all
  then show ?thesis using i(2) r(1) by blast
qed

section \<open>Workers\<close>

text \<open>What the end of a worker leaves: no runtime of its site has a lease.\<close>

definition worker_stopped :: "'raw site_config \<Rightarrow> manager_error + 'raw Codespace list \<Rightarrow> manager_world \<Rightarrow> manager_world" where
  "worker_stopped cfg listed w =
     (case (SiteNamespace (sq_Name cfg) (sq_ManagementNamespace cfg), listed) of
        (Inr _, Inr rows) \<Rightarrow> fold (\<lambda>cs. revoke_in (cs_UID cs)) (filter (\<lambda>cs. sp_SiteUID (cs_Spec cs) = sq_UID cfg) rows) w
      | _ \<Rightarrow> w)"

text \<open>One turn of \<open>Start\<close>: the workers by the UID of their site, with whether they are cancelled; \<open>finished\<close>
  says which have ended.\<close>

definition site_active :: "SiteObject \<Rightarrow> bool" where
  "site_active site \<longleftrightarrow> so_Enabled site \<and> \<not> so_Deleting site"

definition start_workers :: "SiteObject list \<Rightarrow> (string, bool) fmap \<Rightarrow> (string, bool) fmap" where
  "start_workers sites workers =
     fold (\<lambda>site workers. if \<not> site_active site \<or> fmlookup workers (gs_UID site) \<noteq> None then workers else fmupd (gs_UID site) False workers) sites workers"

definition coordinate_sites :: "manager_error + SiteObject list \<Rightarrow> (string \<Rightarrow> bool) \<Rightarrow> (string, bool) fmap \<Rightarrow> (string, bool) fmap" where
  "coordinate_sites listed finished workers =
     (case listed of
        Inl _ \<Rightarrow> workers
      | Inr sites \<Rightarrow>
          (let active = (\<lambda>uid. list_ex (\<lambda>site. site_active site \<and> gs_UID site = uid) sites)
           in fmfilter (\<lambda>uid. \<not> finished uid) (fmmap_keys (\<lambda>uid cancelled. cancelled \<or> \<not> active uid) (start_workers sites workers))))"

lemma worker_stopped_revokes:
  assumes "SiteNamespace (sq_Name cfg) (sq_ManagementNamespace cfg) = Inr namespace" "cs \<in> set rows" "sp_SiteUID (cs_Spec cs) = sq_UID cfg"
  shows "fmlookup (mw_Authority (worker_stopped cfg (Inr rows) w)) (cs_UID cs) = None"
proof -
  have "fmlookup (mw_Authority (fold (\<lambda>cs. revoke_in (cs_UID cs)) rows' w)) uid =
      (if uid \<in> cs_UID ` set rows' then None else fmlookup (mw_Authority w) uid)" for rows' :: "'a Codespace list" and uid
    by (induction rows' arbitrary: w) (auto simp: revoke_in_def Revoke_def)
  then show ?thesis using assms by (auto simp: worker_stopped_def)
qed

lemma start_workers_lookup:
  "fmlookup (start_workers sites workers) uid =
     (case fmlookup workers uid of
        Some cancelled \<Rightarrow> Some cancelled
      | None \<Rightarrow> if list_ex (\<lambda>site. site_active site \<and> gs_UID site = uid) sites then Some False else None)"
  unfolding start_workers_def by (induction sites arbitrary: workers) (auto split: option.splits)

text \<open>Exactly the active sites have a worker that is not cancelled, apart from workers that have just ended and
  those that were cancelled before.\<close>

lemma coordinate_sites_active:
  assumes "\<not> finished uid"
  shows "fmlookup (coordinate_sites (Inr sites) finished workers) uid = Some False \<longleftrightarrow>
     list_ex (\<lambda>site. site_active site \<and> gs_UID site = uid) sites \<and> fmlookup workers uid \<noteq> Some True"
  using assms by (auto simp: coordinate_sites_def Let_def start_workers_lookup split: option.splits if_splits)

section \<open>Examples\<close>

definition demo_site_object :: SiteObject where
  "demo_site_object = \<lparr>gs_Name = ''s'', gs_UID = ''site'', gs_NamespaceUID = ''n'', gs_Templates = [], so_Enabled = True, so_Deleting = False,
     so_Generation = 1, so_Gateway = (''g'', ''gw''), so_Credential = (''c'', ''secret''), so_HasQuota = False, so_AcceptCreates = True,
     so_StartupConcurrency = 2, so_CleanupConcurrency = 1,
     so_Conditions = [\<lparr>cd_Type = ''InfrastructureReady'', cd_True = True, cd_Reason = [], cd_Message = [], cd_ObservedGeneration = 1\<rparr>],
     so_CanonicalURL = ''https://g'', so_InventoryGeneration = 0\<rparr>"

definition demo_runtime_row :: "unit Codespace" where
  "demo_runtime_row = \<lparr>cs_Name = ''codespace-1'', cs_Namespace = ''codespace-s'', cs_UID = ''resource'', cs_Generation = 1, cs_Deleting = False,
     cs_Spec = \<lparr>sp_SiteName = ''s'', sp_SiteUID = ''site'', sp_CodespaceID = 1, sp_RuntimeUUID = ''runtime'', sp_EnvironmentTag = ''e'',
       sp_Runtime = \<lparr>rc_Image = [], rc_GitSSHKeyType = [], rc_Proxy = False, rc_BlockVolume = False, rc_Settings = []\<rparr>,
       sp_Operation = \<lparr>op_Version = 3, op_Type = ''create'', op_Payload = ()\<rparr>\<rparr>,
     cs_Status = zero_status\<lparr>st_Bound := True\<rparr>\<rparr>"

definition demo_inventory_env :: "unit inventory_env" where
  "demo_inventory_env = \<lparr>ie_Pods = (\<lambda>_ _. Inr None), ie_SiteSizeOK = (\<lambda>_. True), ie_SiteAttempts = [\<lparr>at_Get = Inr demo_site_object, at_Write = Written\<rparr>],
     ie_Report = Inr [Some \<lparr>ir_RuntimeUuid = ''runtime'', ir_Action = ACTION_STOP, ir_CurrentOperationRversion = 3, ir_RuntimeSettings = None\<rparr>],
     ie_Get = (\<lambda>_. Inr demo_runtime_row), ie_Attempts = (\<lambda>_. [\<lparr>at_Get = Inr demo_runtime_row, at_Write = Written\<rparr>]), ie_Now = (\<lambda>_. 0)\<rparr>"

definition demo_manager_world :: manager_world where
  "demo_manager_world = \<lparr>mw_Authority = fmempty, mw_Activity = None, mw_Samples = fmempty\<rparr>"

definition demo_site_libs :: "unit manager_libs" where
  "demo_site_libs = \<lparr>lib_RuntimeValid = (\<lambda>_. True), lib_ObjectSizeOK = (\<lambda>_. True)\<rparr>"

lemma demo_inventory_written: "ix_written (snd (snd (inventory demo_site_libs demo_inventory_env demo_site_object [demo_runtime_row] demo_manager_world))) \<noteq> []"
  by code_simp

theorem inventory_decision_complete_witness:
  "ix_written (snd (snd (inventory demo_site_libs demo_inventory_env demo_site_object [demo_runtime_row] demo_manager_world))) \<noteq> []
   \<and> (\<exists>results. ie_Report demo_inventory_env = Inr (map Some results) \<and> mset (map ir_RuntimeUuid results) = {#''runtime''#})"
proof -
  let ?i = "inventory demo_site_libs demo_inventory_env demo_site_object [demo_runtime_row] demo_manager_world"
  have "?i = (fst ?i, fst (snd ?i), snd (snd ?i))" by simp
  from inventory_decision_complete [OF this disjI1 [OF demo_inventory_written]] show ?thesis
    using demo_inventory_written by (simp add: demo_runtime_row_def)
qed

definition demo_site_config :: "unit site_config" where
  "demo_site_config = \<lparr>sq_Name = ''s'', sq_UID = ''site'', sq_ManagementNamespace = ''m'', sq_PlatformImage = ''i'', sq_Libs = demo_site_libs,
     sq_Codec = \<lparr>pc_Marshal = (\<lambda>_. None), pc_Unmarshal = (\<lambda>_. None), pc_Empty = ()\<rparr>\<rparr>"

definition demo_turn :: "unit cycle_env" where
  "demo_turn = \<lparr>ce_Site = Inr demo_site_object,
     ce_Secret = Inr \<lparr>ks_UID = ''secret'', ks_HasSecret = True, ks_Deleting = False, ks_SiteUIDLabel = ''site''\<rparr>, ce_Transport = None,
     ce_Rows = Inr [demo_runtime_row],
     ce_Gateway = Inr \<lparr>gw_Name = ''g'', gw_UID = ''gw'', gw_Role = ''gateway'', gw_Deleting = False, gw_Config = Some (''u'', ''a'')\<rparr>,
     ce_HostKey = Inr \<lparr>hk_ComponentUIDLabel = ''gw'', hk_Controlled = True, hk_Deleting = False, hk_Signer = Some (''k'', ''f'')\<rparr>,
     ce_Template = (\<lambda>_. Inl ConflictError), ce_TemplateValid = (\<lambda>_. True),
     ce_Declare = Inr \<lparr>dr_HeartbeatIntervalMilliseconds = 1000, dr_MetadataRefreshIntervalMilliseconds = 1000, dr_GiteaWebUrl = ''https://g/''\<rparr>,
     ce_Bind = (\<lambda>_. Inl Internal), ce_BindAttempts = (\<lambda>_. []), ce_UnboundAttempts = (\<lambda>_. []), ce_Inventory = demo_inventory_env,
     ce_Relisted = Inr [demo_runtime_row], ce_Idle = \<lparr>ld_Order = (\<lambda>_. []), ld_Reply = (\<lambda>_. None), ld_Now = 0\<rparr>, ce_Remaining = (\<lambda>_. (0, 0)),
     ce_Quotas = Inr [], ce_Fetch = Inr ([], []),
     ce_Accept = (\<lambda>_. \<lparr>en_Namespace = Inl ConflictError, en_Get = Inl ConflictError, en_Template = (\<lambda>_. Inl ConflictError), en_UUID = [],
        en_Write = (\<lambda>_. Inl ConflictError), en_SecretCreate = Created, en_SecretGet = Inl ConflictError, en_Bind = Inl Internal, en_BoundAttempts = [],
        en_ClearAttempts = [], en_Now = 0\<rparr>),
     ce_FinalGet = (\<lambda>_. Inl ConflictError), ce_FinalRemote = (\<lambda>_. None), ce_FinalAttempts = (\<lambda>_. []),
     ce_DeclareOnline = Inr \<lparr>dr_HeartbeatIntervalMilliseconds = 1000, dr_MetadataRefreshIntervalMilliseconds = 1000, dr_GiteaWebUrl = ''https://g/''\<rparr>,
     ce_clock = (\<lambda>_. 0)\<rparr>"

definition demo_declaration :: "bool \<Rightarrow> DeclareManagerRequest" where
  "demo_declaration online = \<lparr>dm_GatewayUrl = ''u'', dm_GatewaySshAddr = ''a'', dm_HostKeyAlgorithm = ''k'', dm_HostKeyFingerprint = ''f'',
     dm_Environments = [], dm_Online = online\<rparr>"

definition demo_fetch :: "int \<Rightarrow> int \<Rightarrow> bool \<Rightarrow> FetchOperationsRequest" where
  "demo_fetch startup cleanup resume = \<lparr>fq_Observed = [], fq_CleanupCapacity = cleanup, fq_StartupCapacity = startup, fq_AcceptedCreateTags = [],
     fq_AcceptResume = resume, fq_AcceptCreate = False\<rparr>"

definition demo_updated_site :: SiteObject where
  "demo_updated_site = demo_site_object\<lparr>so_InventoryGeneration := 1\<rparr>"

text \<open>Two turns: the first ends with the declaration as online, the second asks for one more startup.\<close>

lemma demo_site_run:
  "snd (site_run demo_site_config [(demo_turn, demo_manager_world), (demo_turn, demo_manager_world)] site_worker_start) =
     [DeclaredManager 1 (demo_declaration False) True, InventoryDecided 1 [demo_runtime_row], IdleStopsRequested [],
      OperationsFetched demo_updated_site [demo_runtime_row] (demo_fetch 0 0 False), DeclaredManager 1 (demo_declaration True) True,
      IdleStopsRequested [], OperationsFetched demo_site_object [demo_runtime_row] (demo_fetch 1 1 True)]"
  by code_simp

theorem site_online_reconciled_witness:
  "\<exists>a rows b. [DeclaredManager 1 (demo_declaration False) True, InventoryDecided 1 [demo_runtime_row], IdleStopsRequested [],
       OperationsFetched demo_updated_site [demo_runtime_row] (demo_fetch 0 0 False)] = a @ InventoryDecided 1 rows # b
     \<and> (\<forall>cs \<in> set rows. st_Bound (cs_Status cs) \<or> st_RecoveryAction (cs_Status cs) \<noteq> []) \<and> (\<forall>ev \<in> set b. \<not> recovering_declared ev)"
proof (rule site_online_reconciled)
  show "snd (site_run demo_site_config [(demo_turn, demo_manager_world), (demo_turn, demo_manager_world)] site_worker_start) =
    [DeclaredManager 1 (demo_declaration False) True, InventoryDecided 1 [demo_runtime_row], IdleStopsRequested [],
       OperationsFetched demo_updated_site [demo_runtime_row] (demo_fetch 0 0 False)] @ DeclaredManager 1 (demo_declaration True) True #
      [IdleStopsRequested [], OperationsFetched demo_site_object [demo_runtime_row] (demo_fetch 1 1 True)]"
    by (simp add: demo_site_run del: site_run.simps)
qed (simp add: demo_declaration_def)

theorem site_startups_bounded_witness:
  "asks_startup (demo_fetch 1 1 True) \<and> fq_StartupCapacity (demo_fetch 1 1 True) + int (length (filter starting [demo_runtime_row])) = 2"
proof -
  have a: "asks_startup (demo_fetch 1 1 True)" by (simp add: asks_startup_def demo_fetch_def)
  have "snd (site_run demo_site_config [(demo_turn, demo_manager_world), (demo_turn, demo_manager_world)] site_worker_start) =
    [DeclaredManager 1 (demo_declaration False) True, InventoryDecided 1 [demo_runtime_row], IdleStopsRequested [],
       OperationsFetched demo_updated_site [demo_runtime_row] (demo_fetch 0 0 False), DeclaredManager 1 (demo_declaration True) True,
       IdleStopsRequested []] @ OperationsFetched demo_site_object [demo_runtime_row] (demo_fetch 1 1 True) # []"
    by (simp add: demo_site_run del: site_run.simps)
  from site_startups_bounded [OF this a] a show ?thesis by (simp add: demo_site_object_def)
qed

end
