(* ===== verification/Spec2Isabelle.thy ===== *)
theory Spec2Isabelle
  imports SSH_Auth_Limiter Access_Validation Session_Properties Journal_Invariant Execution_Permit
    Runtime_Activity Endpoint_Contract Log_Replay Output Devcontainer_Config Route_Leases
    Codespace_Machine Gateway_Machine Agent_Access Gateway_Control Site_Coordinator
begin

text \<open>
  A verification development for the Gitea codespace runtime.

  \<^bold>\<open>The program.\<close> A codespace is a Dev Container that Gitea orders. The \<^emph>\<open>Manager\<close>
  (\<open>internal/cluster\<close>) runs in Kubernetes: it accepts operations from Gitea sites, keeps one
  \<open>Codespace\<close> resource per codespace, grants short execution leases and watches activity. The
  \<^emph>\<open>Agent\<close> (\<open>internal/agent\<close>) runs inside the pod of a codespace: it executes the stages of an
  operation under a permit, journals them, spools and uploads the operation log, and starts the Dev
  Container (\<open>devcontainer\<close>). The \<^emph>\<open>Gateway\<close> (\<open>internal/gateway\<close>) is the public entry: it
  authenticates browsers and SSH clients, limits and validates requests, keeps sessions and routes, and
  proxies to the Agents.

  \<^bold>\<open>Conventions.\<close> \<open>Prelude\<close> holds Go's integers, durations and times (with the wrap-around of
  64-bit arithmetic), the strings functions, finite maps with their sizes, the locale
  \<open>keyed_counter\<close> for maps of counters and the locale \<open>safe_machine\<close> for machines with an
  invariant. A Go struct is a record with prefixed fields, a Go error a constructor of a datatype of
  the component, a map a finite map; the order in which Go visits a map, the clock, random values and
  the answers of files, network and libraries are arguments. A critical section is one function from
  the state to its result and the new state; what happens between critical sections is the business
  of a step relation, so that the theorems cover every interleaving. Functions never run out of fuel:
  loops are structural or have a termination proof.

  \<^bold>\<open>Gateway.\<close>
  \<^item> \<open>SSH_Auth_Limiter\<close> (\<open>ssh_auth_limiter.go\<close>): failure records, windows, exponential backoff,
    eviction. Bounded memory, the closed form of the backoff loop, what is refused for how long and
    when attempts are admitted again.
  \<^item> \<open>Access_Control\<close> and \<open>Access_Validation\<close> (\<open>access_cache.go\<close>, \<open>authorization.go\<close>):
    reservations of in-flight requests, and the validation cache with one leader per key and
    followers. Counters are exact, positive answers come from the control plane for the same key and
    are fresh, a follower always makes progress.
  \<^item> \<open>Base64\<close> and \<open>Session_Ticket\<close> (\<open>session_ticket.go\<close>): the sealed session cookie; sealing is
    a parameter with the laws of authenticated encryption.
  \<^item> \<open>Session_Registry\<close>, \<open>Session_Invariant\<close> and \<open>Session_Properties\<close> (\<open>session.go\<close>): creating,
    replacing, authenticating, connecting, expiring and deleting sessions, the exactness of every
    counter, and the round trip from creation to authentication.
  \<^item> \<open>Route_Store\<close> and \<open>Route_Leases\<close> (\<open>route.go\<close>, \<open>snapshot.go\<close>): routes as entries of a heap,
    because release functions keep pointers to entries that the store has replaced, and the effects
    that an operation runs after it has left the mutex. A live proxied request always has the current
    route of its key, and a snapshot of the Manager replaces the routes exactly.
  \<^item> \<open>Go_Http\<close>: the strings, URLs, headers, cookies and requests of Go that the Gateway uses. What
    depends on Unicode tables, on the URL, cookie and address parsers or on their printers is a field
    of the record \<open>go_library\<close>, an argument of every function that calls it; a small library for
    ASCII names runs the examples.
  \<^item> \<open>Gateway_Origin\<close> (\<open>origin.go\<close>, the authorities of \<open>proxy.go\<close>): one host name per endpoint.
    Hosts and bindings correspond one to one, and only requests from the same endpoint may change
    state there.
  \<^item> \<open>Gateway_Request\<close> (\<open>client_ip.go\<close>, \<open>browser_auth.go\<close>, the paths, cookies and error answers of
    \<open>handler.go\<close>): the client address behind trusted proxies cannot be forged, and signing in never
    redirects to another host.
  \<^item> \<open>Gateway_Proxy\<close> (\<open>proxy.go\<close>): what the runtime is told and what its answers may set. The
    identity and forwarding headers are exactly those of the Gateway.
  \<^item> \<open>Gateway_Handler\<close> and \<open>Gateway_Machine\<close> (\<open>handler.go\<close>): the handlers, cut where they call
    the registry, the admission controller, the routes or the control plane, and the machine in which
    any number of them run concurrently over these components. Nothing is proxied that was not
    authenticated and allowed, and nothing is opened that was not granted. The ticker that
    revalidates a stream is not a step: a stream of the machine may end at any time.

  \<^bold>\<open>Agent.\<close>
  \<^item> \<open>Journal\<close> and \<open>Journal_Invariant\<close> (\<open>journal.go\<close>): the execution record, with failing and
    torn writes, crashes and replacement writers. No side effect runs twice.
  \<^item> \<open>Operation_Log\<close> and \<open>Log_Replay\<close> (\<open>log.go\<close>): the spool file down to its bytes. Uploads of
    one offset are identical, flushing ends, and the spool implements a queue of batches.
  \<^item> \<open>Output\<close> (\<open>output.go\<close>): splitting process output into log lines and batches. Chunking does
    not matter and every batch fits.
  \<^item> \<open>Execution_Permit\<close> (\<open>permit.go\<close> and the leases of \<open>agent_control.go\<close>): permit and lease
    across a network that delays, loses and reorders.
  \<^item> \<open>Agent_Endpoints\<close> (\<open>endpoint.go\<close>, the targets of \<open>execution.go\<close> and \<open>control.go\<close>): the endpoint
    list of a running Agent and the access targets it publishes, as a machine in which endpoint calls,
    creates and resumes with their cancellation, the control loop and restarts interleave. The Manager
    stores every target that an Agent reports unless it is outdated or too large, changes between
    operations are always reported, and three defects of the source are shown.
  \<^item> \<open>Agent_Access\<close> (\<open>access.go\<close>, \<open>environment.go\<close>, \<open>gateway/agent_backend.go\<close>): which streams an Agent
    admits and what it starts for them, and the Gateway that opens them. Only a ticket that the Manager
    issued is admitted, and one that it issued opens the endpoint.

  \<^bold>\<open>Manager.\<close>
  \<^item> \<open>Runtime_Activity\<close> (\<open>activity.go\<close>): when a stop is requested for an idle codespace.
  \<^item> \<open>Endpoint_Contract\<close> (\<open>runtimeendpoint/endpoint.go\<close>, \<open>agent_control.go\<close>): ids and labels of
    endpoints, shared by all three parts.
  \<^item> \<open>Codespace_Resource\<close> (\<open>api/v1alpha1/types.go\<close>, \<open>validation.go\<close>, \<open>status.go\<close>): the resource
    of a codespace, its validation, and the status update that retries on conflicts, so that every
    change of the status is one mutation of the current resource. The encoded size and the validation
    of the runtime configuration are parameters.
  \<^item> \<open>Resource_Samples\<close> (\<open>resource_usage.go\<close>): the last resource usage of every runtime, in memory.
    \<open>Agent_Report\<close> (\<open>agent_control.go\<close>, \<open>runtime_metadata.go\<close>): what a report of an Agent
    changes, and the metadata that Gitea receives for it.
  \<^item> \<open>Operations\<close> and \<open>Operation_Outcome\<close> (\<open>operations.go\<close>, \<open>coordinator.go\<close>): accepting,
    binding, rejecting and flushing an operation, with the answers of the API server and of Gitea as
    arguments; the encoding of a payload is a parameter.
  \<^item> \<open>Codespace_Updates\<close> (\<open>runtime.go\<close>, \<open>coordinator.go\<close>, \<open>admin_runtime.go\<close>,
    \<open>agent_control.go\<close>): the status mutations of the runtime controller, the coordinator, the
    administrator and \<open>PrepareVolume\<close>.
  \<^item> \<open>Codespace_Machine\<close>: one machine in which all these writers act in any order on one resource,
    with one coordinator at a time, as leader election arranges. The
    predicate \<open>quiet\<close> states what each writer leaves alone, which is what the others rely on. A
    metadata generation stands for one content (besides the resource sample), a volume is formatted at
    most once, and an accept that is interrupted before it ends a recovery never ends it.
  \<^item> \<open>Access_Ticket\<close> (\<open>accessticket/ticket.go\<close>): the signed tickets for Agents; Ed25519 and the
    protobuf encoding are parameters with their documented laws. \<open>Component_Server\<close> (\<open>component.go\<close>,
    \<open>access_ticket.go\<close>, with \<open>gateway/component_control.go\<close>): the routes, authorizations and tickets
    that the Manager gives a Gateway. An allowed session was allowed by Gitea.
  \<^item> \<open>Manager_Changes\<close> (\<open>change.go\<close>) and \<open>Gateway_Control\<close> (the stream of \<open>component.go\<close>): which updates
    of the cluster are announced, and the machine that keeps a Gateway up to date. Updates that wake
    nobody change neither configuration nor routes, and a stream at rest has sent the current snapshot.
  \<^item> \<open>Site_Coordinator\<close> (\<open>coordinator.go\<close>, \<open>capacity.go\<close>): the loop that works for one Gitea site. The
    Manager is online only after a complete inventory, asks for startups only within its capacity, and
    applies an inventory decision as a whole or not at all.

  \<^bold>\<open>Dev Container.\<close>
  \<^item> \<open>Feature_Order\<close> (\<open>docker/feature.go\<close>): the order of Features. \<open>Devcontainer_Config\<close>
    (\<open>types.go\<close>, \<open>merge.go\<close>, \<open>config.go\<close>): the configuration, merging metadata and validation.
  \<^item> \<open>Port_Endpoints\<close> (\<open>config.go\<close>, \<open>state.go\<close>, \<open>devcontainerruntime/endpoint.go\<close>): the attributes of
    ports, the persisted state with its validation, lifecycle commands, and the endpoints that a
    configuration declares.

  \<^bold>\<open>Not modelled.\<close> Network servers (the SSH server, the copying of frames to and from Agents), the pods, volumes
  and secrets that the Kubernetes controllers manage (only their updates of a \<open>Codespace\<close> are
  modelled), the administration pages, certificates, the registry cache, the Docker and Compose
  drivers, the web console and generated code. The data that JSON, protobuf and cryptographic libraries handle appears as
  parameters with the laws the code relies on.
\<close>

end
